(* ===== verification/Go_Prelude.thy ===== *)
theory Go_Prelude
  imports Main "HOL-Library.Word" "HOL-Library.Sublist"
begin

text \<open>
  The part of Go that the rest of the library shares: 64-bit signed integers with their
  wrap-around and truncating division, errors as strings, maps with an explicit iteration
  order, and the functions of the packages \<open>strings\<close>, \<open>strconv\<close> and \<open>fmt\<close> that the program
  calls on tags, server names and option lists. Strings are byte strings; upper and lower case and
  white space are those of ASCII, which is what every identifier the program compares is made of.
\<close>

named_theorems go_int \<open>arithmetic of 64-bit integers\<close>
named_theorems go_map \<open>loads, stores and iterations of Go maps\<close>
named_theorems go_string \<open>string functions\<close>

section \<open>Types and functions\<close>

type_synonym goerror = string

text \<open>\<open>int\<close> and \<open>int64\<close> are 64 bits wide; the result of an operation is read as two's complement.\<close>

definition i64 :: "int \<Rightarrow> int" where
  "i64 x = signed_take_bit 63 x"

definition in_i64 :: "int \<Rightarrow> bool" where
  "in_i64 x \<longleftrightarrow> - (2 ^ 63) \<le> x \<and> x < 2 ^ 63"

text \<open>Go's integer division rounds towards zero.\<close>

definition go_div :: "int \<Rightarrow> int \<Rightarrow> int" where
  "go_div a b = sgn a * sgn b * (\<bar>a\<bar> div \<bar>b\<bar>)"

text \<open>
  A Go \<open>map\<close> or \<open>sync.Map\<close> is a partial function. \<open>range\<close> visits every key once in an order
  the language leaves open: an iteration takes the order as a list of keys, and
  \<open>range_order ks m\<close> says that \<open>ks\<close> is such an order.
\<close>

definition range_order :: "'k list \<Rightarrow> ('k \<rightharpoonup> 'v) \<Rightarrow> bool" where
  "range_order ks m \<longleftrightarrow> distinct ks \<and> set ks = dom m"

fun range_fold :: "('k \<Rightarrow> 'v \<Rightarrow> 's \<Rightarrow> 's) \<Rightarrow> 'k list \<Rightarrow> ('k \<rightharpoonup> 'v) \<Rightarrow> 's \<Rightarrow> 's" where
  "range_fold f [] m s = s"
| "range_fold f (k # ks) m s =
     range_fold f ks m (case m k of None \<Rightarrow> s | Some v \<Rightarrow> f k v s)"

text \<open>Removing a list of keys.\<close>

definition map_del :: "('k \<rightharpoonup> 'v) \<Rightarrow> 'k \<Rightarrow> ('k \<rightharpoonup> 'v)" where
  "map_del m k = m(k := None)"

definition lookup0 :: "('k \<rightharpoonup> int) \<Rightarrow> 'k \<Rightarrow> int" where
  "lookup0 m k = (case m k of None \<Rightarrow> 0 | Some v \<Rightarrow> v)"

text \<open>\<open>strings.ToLower\<close>, \<open>TrimSpace\<close>, \<open>TrimPrefix\<close>, \<open>CutPrefix\<close>, \<open>Split\<close>, \<open>SplitN(s, sep, 2)\<close>.\<close>

definition lower_char :: "char \<Rightarrow> char" where
  "lower_char c = (if 65 \<le> (of_char c :: nat) \<and> (of_char c :: nat) \<le> 90
                   then char_of ((of_char c :: nat) + 32) else c)"

definition ToLower :: "string \<Rightarrow> string" where
  "ToLower s = map lower_char s"

definition is_space :: "char \<Rightarrow> bool" where
  "is_space c \<longleftrightarrow> (of_char c :: nat) \<in> {9, 10, 11, 12, 13, 32}"

definition TrimSpace :: "string \<Rightarrow> string" where
  "TrimSpace s = rev (dropWhile is_space (rev (dropWhile is_space s)))"

fun CutPrefix :: "string \<Rightarrow> string \<Rightarrow> string option" where
  "CutPrefix s [] = Some s"
| "CutPrefix [] (p # ps) = None"
| "CutPrefix (c # s) (p # ps) = (if c = p then CutPrefix s ps else None)"

definition TrimPrefix :: "string \<Rightarrow> string \<Rightarrow> string" where
  "TrimPrefix s p = (case CutPrefix s p of None \<Rightarrow> s | Some r \<Rightarrow> r)"

fun Split :: "char \<Rightarrow> string \<Rightarrow> string list" where
  "Split sep [] = [[]]"
| "Split sep (c # s) =
     (if c = sep then [] # Split sep s
      else (case Split sep s of [] \<Rightarrow> [[c]] | w # ws \<Rightarrow> (c # w) # ws))"

text \<open>\<open>CutAt sep s\<close> splits at the first separator: \<open>SplitN\<close> with two parts, or \<open>Index\<close> with the two slices.\<close>

fun CutAt :: "char \<Rightarrow> string \<Rightarrow> (string \<times> string) option" where
  "CutAt sep [] = None"
| "CutAt sep (c # s) =
     (if c = sep then Some ([], s)
      else (case CutAt sep s of None \<Rightarrow> None | Some (a, b) \<Rightarrow> Some (c # a, b)))"

fun Join :: "string list \<Rightarrow> string \<Rightarrow> string" where
  "Join [] sep = []"
| "Join [w] sep = w"
| "Join (w # v # ws) sep = w @ sep @ Join (v # ws) sep"

text \<open>\<open>strconv.Itoa\<close> and \<open>strconv.Atoi\<close>: the number Atoi returns and whether it reports no error.\<close>

definition digit_char :: "nat \<Rightarrow> char" where
  "digit_char d = char_of (48 + d)"

fun nat_digits :: "nat \<Rightarrow> string" where
  "nat_digits n = (if n < 10 then [digit_char n] else nat_digits (n div 10) @ [digit_char (n mod 10)])"

definition Itoa :: "int \<Rightarrow> string" where
  "Itoa i = (if i < 0 then ''-'' @ nat_digits (nat (- i)) else nat_digits (nat i))"

definition is_digit :: "char \<Rightarrow> bool" where
  "is_digit c \<longleftrightarrow> 48 \<le> (of_char c :: nat) \<and> (of_char c :: nat) \<le> 57"

fun digits_val :: "nat \<Rightarrow> string \<Rightarrow> nat" where
  "digits_val acc [] = acc"
| "digits_val acc (c # cs) = digits_val (10 * acc + (of_char c - 48)) cs"

definition Atoi :: "string \<Rightarrow> int \<times> bool" where
  "Atoi s =
     (let neg = (s \<noteq> [] \<and> hd s = CHR ''-'');
          ds = (if s \<noteq> [] \<and> (hd s = CHR ''-'' \<or> hd s = CHR ''+'') then tl s else s)
      in if ds = [] \<or> \<not> list_all is_digit ds then (0, False)
         else let v = (if neg then - int (digits_val 0 ds) else int (digits_val 0 ds))
              in if v < - (2 ^ 63) then (- (2 ^ 63), False)
                 else if 2 ^ 63 \<le> v then (2 ^ 63 - 1, False)
                 else (v, True))"

text \<open>A call returns a value, returns an error, or panics.\<close>

datatype 'a outcome = Return 'a | Error goerror | Panic string

text \<open>Going on with the value of a call, and passing on an error or a panic.\<close>

fun obind :: "'a outcome \<Rightarrow> ('a \<Rightarrow> 'b outcome) \<Rightarrow> 'b outcome" where
  "obind (Return x) f = f x"
| "obind (Error e) f = Error e"
| "obind (Panic p) f = Panic p"

declare nat_digits.simps [simp del]

section \<open>Results\<close>

lemma obind_Return: "obind m f = Return y \<longleftrightarrow> (\<exists>x. m = Return x \<and> f x = Return y)"
  by (cases m) simp_all

section \<open>Integers\<close>

lemma i64_id [go_int]: "in_i64 x \<Longrightarrow> i64 x = x"
  by (simp add: i64_def in_i64_def signed_take_bit_int_eq_self)

lemma i64_bounds: "in_i64 (i64 x)"
  using signed_take_bit_int_greater_eq_minus_exp [of 63 x] signed_take_bit_int_less_exp [of 63 x]
  by (simp add: i64_def in_i64_def)

lemma i64_idem [simp]: "i64 (i64 x) = i64 x"
  by (simp add: i64_def)

lemma i64_add_left [simp]: "i64 (i64 x + y) = i64 (x + y)"
  using signed_take_bit_add [of 63 "i64 x" y] signed_take_bit_add [of 63 x y]
  by (simp add: i64_def)

lemma i64_add_right [simp]: "i64 (x + i64 y) = i64 (x + y)"
  using i64_add_left [of y x] by (simp add: add.commute)

lemma i64_0 [simp]: "i64 0 = 0"
  by (simp add: i64_def)

lemma go_div_nonneg [go_int]: "0 \<le> a \<Longrightarrow> 0 < b \<Longrightarrow> go_div a b = a div b"
  by (cases "a = 0") (simp_all add: go_div_def)

section \<open>Maps\<close>

lemma range_order_empty [simp]: "range_order ks Map.empty \<longleftrightarrow> ks = []"
  by (auto simp: range_order_def)

lemma range_orderD: "range_order ks m \<Longrightarrow> distinct ks" "range_order ks m \<Longrightarrow> set ks = dom m"
  by (simp_all add: range_order_def)

lemma range_order_ex: "finite (dom m) \<Longrightarrow> \<exists>ks. range_order ks m"
  by (simp add: range_order_def finite_distinct_list conj_commute) (metis finite_distinct_list)

lemma map_del_apply [simp, go_map]: "map_del m k x = (if x = k then None else m x)"
  by (simp add: map_del_def)

lemma dom_map_del [simp, go_map]: "dom (map_del m k) = dom m - {k}"
  by (auto simp: map_del_def)

lemma fold_map_del [go_map]:
  "fold (\<lambda>k m. map_del m k) ks m x = (if x \<in> set ks then None else m x)"
  by (induction ks arbitrary: m) auto

lemma range_fold_invariant:
  assumes "I s" and "\<And>k v s. k \<in> set ks \<Longrightarrow> m k = Some v \<Longrightarrow> I s \<Longrightarrow> I (f k v s)"
  shows "I (range_fold f ks m s)"
  using assms by (induction ks arbitrary: s) (auto split: option.splits)

section \<open>Strings\<close>

lemma CutPrefix_append [simp, go_string]: "CutPrefix (p @ s) p = Some s"
  by (induction p) simp_all

lemma CutPrefix_Some [go_string]: "CutPrefix s p = Some r \<longleftrightarrow> s = p @ r"
  by (induction s p rule: CutPrefix.induct) auto

lemma CutPrefix_None [go_string]: "CutPrefix s p = None \<longleftrightarrow> \<not> prefix p s"
  by (metis CutPrefix_Some CutPrefix_append option.exhaust prefix_def option.distinct(1))

lemma Split_nonempty [simp]: "Split sep s \<noteq> []"
  by (induction s) (auto split: list.splits)

lemma Split_no_sep: "w \<in> set (Split sep s) \<Longrightarrow> sep \<notin> set w"
proof (induction s arbitrary: w)
  case Nil
  then show ?case by simp
next
  case (Cons c s)
  obtain v vs where v: "Split sep s = v # vs"
    using Split_nonempty by (metis neq_Nil_conv)
  from Cons.IH v have "sep \<notin> set v" and "\<And>u. u \<in> set vs \<Longrightarrow> sep \<notin> set u" by auto
  with Cons.prems v show ?case by (auto split: if_splits)
qed

lemma Join_Split: "Join (Split sep s) [sep] = s"
proof (induction s)
  case Nil
  then show ?case by simp
next
  case (Cons c s)
  obtain v vs where v: "Split sep s = v # vs"
    using Split_nonempty by (metis neq_Nil_conv)
  with Cons.IH show ?case by (cases vs) auto
qed

lemma CutAt_Some [go_string]: "CutAt sep s = Some (a, b) \<longleftrightarrow> s = a @ sep # b \<and> sep \<notin> set a"
proof (induction s arbitrary: a b)
  case Nil
  then show ?case by simp
next
  case (Cons c s)
  have "CutAt sep s = Some (a', b') \<longleftrightarrow> s = a' @ sep # b' \<and> sep \<notin> set a'" for a' b'
    by (rule Cons.IH)
  then show ?case
    by (cases a; cases "CutAt sep s") (auto simp: Cons_eq_append_conv)
qed

lemma ToLower_idem [simp]: "ToLower (ToLower s) = ToLower s"
  by (simp add: ToLower_def lower_char_def)

lemma ToLower_Nil [simp]: "ToLower [] = []" "ToLower s = [] \<longleftrightarrow> s = []"
  by (simp_all add: ToLower_def)

text \<open>Numbers in decimal: reading what \<open>Itoa\<close> wrote gives the number back.\<close>

lemma of_char_digit: "d < 10 \<Longrightarrow> of_char (digit_char d) = (48 + d :: nat)"
  by (simp add: digit_char_def)

lemma digits_val_append: "digits_val a (xs @ [digit_char d]) = 10 * digits_val a xs + d" if "d < 10"
  using that by (induction xs arbitrary: a) (simp_all add: of_char_digit)

lemma nat_digits_props:
  "digits_val 0 (nat_digits n) = n \<and> list_all is_digit (nat_digits n) \<and> nat_digits n \<noteq> []"
proof (induction n rule: nat_digits.induct)
  case (1 n)
  show ?case
  proof (cases "n < 10")
    case True
    then show ?thesis by (simp add: nat_digits.simps [of n] of_char_digit is_digit_def)
  next
    case False
    have d: "n mod 10 < 10" by simp
    from False have "nat_digits n = nat_digits (n div 10) @ [digit_char (n mod 10)]"
      by (simp add: nat_digits.simps [of n])
    moreover note 1 [OF False]
    ultimately show ?thesis by (simp add: digits_val_append [OF d] is_digit_def of_char_digit [OF d])
  qed
qed

lemma is_digit_not_sign: "is_digit c \<Longrightarrow> c \<noteq> CHR ''-'' \<and> c \<noteq> CHR ''+'' \<and> c \<noteq> CHR '':''"
  by (auto simp: is_digit_def)

lemma nat_digits_hd: "is_digit (hd (nat_digits n))"
  using nat_digits_props [of n] by (cases "nat_digits n") auto

lemma Atoi_Itoa [go_string]: "in_i64 i \<Longrightarrow> Atoi (Itoa i) = (i, True)"
  using nat_digits_props [of "nat i"] nat_digits_props [of "nat (- i)"] is_digit_not_sign [OF nat_digits_hd [of "nat i"]]
  by (auto simp: Atoi_def Itoa_def in_i64_def Let_def)

lemma nat_digits_inj: "nat_digits m = nat_digits n \<Longrightarrow> m = n"
  using nat_digits_props [of m] nat_digits_props [of n] by metis

lemma nat_digits_not_minus: "nat_digits n \<noteq> CHR ''-'' # xs"
  using is_digit_not_sign [OF nat_digits_hd [of n]] by (metis list.sel(1))

lemma Itoa_inj [simp]: "Itoa i = Itoa j \<longleftrightarrow> i = j"
proof
  assume eq: "Itoa i = Itoa j"
  show "i = j"
  proof (cases "i < 0"; cases "j < 0")
    assume neg: "i < 0" "j < 0"
    with eq have "nat_digits (nat (- i)) = nat_digits (nat (- j))" by (simp add: Itoa_def)
    then have "nat (- i) = nat (- j)" by (rule nat_digits_inj)
    with neg show ?thesis by arith
  next
    assume pos: "\<not> i < 0" "\<not> j < 0"
    with eq have "nat_digits (nat i) = nat_digits (nat j)" by (simp add: Itoa_def)
    then have "nat i = nat j" by (rule nat_digits_inj)
    with pos show ?thesis by arith
  qed (use eq nat_digits_not_minus [of "nat j"] nat_digits_not_minus [of "nat i"] in
       \<open>simp_all add: Itoa_def, metis+\<close>)
qed simp

lemma colon_notin_Itoa: "CHR '':'' \<notin> set (Itoa i)"
proof -
  have "CHR '':'' \<notin> set (nat_digits n)" for n
    using nat_digits_props [of n] is_digit_not_sign by (auto simp: list_all_iff)
  then show ?thesis by (simp add: Itoa_def)
qed

end
