(* ===== verification/Panel_Types.thy ===== *)
theory Panel_Types
  imports Go_Prelude
begin

text \<open>
  The structs of the panel API (\<open>api/v2board/node.go\<close>, \<open>api/v2board/user.go\<close>): users, routes, TLS and
  certificate settings, the node configuration a panel sends, and the node the rest of the program
  works with. A pointer that may be nil is an option; a \<open>json.RawMessage\<close> is its bytes; a value of type
  \<open>any\<close> that a JSON decoder produced is a value of \<open>any_val\<close>.
\<close>

record UserInfo =
  ui_Id :: int
  ui_Uuid :: string
  ui_SpeedLimit :: int
  ui_DeviceLimit :: int
  ui_Key :: string

record OnlineUser =
  ou_UID :: int
  ou_IP :: string

record UserTraffic =
  ut_UID :: int
  ut_Upload :: int
  ut_Download :: int

text \<open>What \<open>encoding/json\<close> stores into an \<open>any\<close>; numbers are given by their integer part.\<close>

datatype any_val = ANil | AString string | AFloat64 int | ABool bool | AComposite

record Route =
  rt_Id :: int
  rt_Match :: "string list"
  rt_Action :: string
  rt_ActionValue :: "string option"

record BaseConfig =
  bc_PushInterval :: any_val
  bc_PullInterval :: any_val
  bc_DeviceOnlineMinTraffic :: int
  bc_NodeReportMinTraffic :: int

record TlsSettings =
  ts_ServerName :: string
  ts_ServerNames :: "string list"
  ts_Dest :: string
  ts_ServerPort :: string
  ts_ShortId :: string
  ts_ShortIds :: "string list"
  ts_PrivateKey :: string
  ts_Mldsa65Seed :: string
  ts_Xver :: nat
  ts_CertMode :: string
  ts_CertFile :: string
  ts_KeyFile :: string
  ts_Provider :: string
  ts_DNSEnv :: string
  ts_RejectUnknownSni :: string
  ts_EchKey :: string
  ts_TlsCert :: string
  ts_TlsKey :: string

record CertInfo =
  ci_CertMode :: string
  ci_CertFile :: string
  ci_KeyFile :: string
  ci_Email :: string
  ci_CertDomain :: string
  ci_DNSEnv :: "string \<rightharpoonup> string"
  ci_Provider :: string
  ci_RejectUnknownSni :: bool
  ci_EchKey :: string
  ci_TlsCert :: string
  ci_TlsKey :: string

record EncSettings =
  es_Mode :: string
  es_Ticket :: string
  es_ServerPadding :: string
  es_PrivateKey :: string

record CommonNode =
  cn_Protocol :: string
  cn_ListenIP :: string
  cn_ServerPort :: int
  cn_Routes :: "Route list"
  cn_BaseConfig :: "BaseConfig option"
  cn_Tls :: int
  cn_TlsSettings :: TlsSettings
  cn_CertInfo :: "CertInfo option"
  cn_Network :: string
  cn_NetworkSettings :: string
  cn_Encryption :: string
  cn_EncryptionSettings :: EncSettings
  cn_ServerName :: string
  cn_Flow :: string
  cn_Cipher :: string
  cn_ServerKey :: string
  cn_SsObfs :: string
  cn_SsObfsHost :: string
  cn_CongestionControl :: string
  cn_ZeroRTTHandshake :: bool
  cn_PaddingScheme :: "string list"
  cn_UpMbps :: int
  cn_DownMbps :: int
  cn_Obfs :: string
  cn_ObfsPassword :: string
  cn_IgnoreClientBandwidth :: bool
  cn_Camouflage :: string
  cn_ShapingSettings :: string
  cn_SniMode :: string
  cn_SwitchIntervalMin :: int
  cn_SwitchIntervalMax :: int
  cn_UploadHost :: string
  cn_DownloadHost :: string
  cn_PathPool :: string
  cn_ConnMaxLifetime :: int
  cn_TransportType :: string
  cn_TransportPath :: string
  cn_TransportHost :: string

record NodeInfo =
  ni_Id :: int
  ni_Type :: string
  ni_Security :: int
  ni_PushInterval :: int
  ni_PullInterval :: int
  ni_Tag :: string
  ni_Common :: "CommonNode option"

text \<open>The constants \<open>None\<close>, \<open>Tls\<close> and \<open>Reality\<close> of the security type, and the zero values of the structs.\<close>

definition SecNone :: int where "SecNone = 0"
definition SecTls :: int where "SecTls = 1"
definition SecReality :: int where "SecReality = 2"

definition zero_TlsSettings :: TlsSettings where
  "zero_TlsSettings = \<lparr>ts_ServerName = [], ts_ServerNames = [], ts_Dest = [], ts_ServerPort = [],
     ts_ShortId = [], ts_ShortIds = [], ts_PrivateKey = [], ts_Mldsa65Seed = [], ts_Xver = 0,
     ts_CertMode = [], ts_CertFile = [], ts_KeyFile = [], ts_Provider = [], ts_DNSEnv = [],
     ts_RejectUnknownSni = [], ts_EchKey = [], ts_TlsCert = [], ts_TlsKey = []\<rparr>"

definition zero_CommonNode :: CommonNode where
  "zero_CommonNode = \<lparr>cn_Protocol = [], cn_ListenIP = [], cn_ServerPort = 0, cn_Routes = [],
     cn_BaseConfig = None, cn_Tls = 0, cn_TlsSettings = zero_TlsSettings, cn_CertInfo = None,
     cn_Network = [], cn_NetworkSettings = [], cn_Encryption = [],
     cn_EncryptionSettings = \<lparr>es_Mode = [], es_Ticket = [], es_ServerPadding = [], es_PrivateKey = []\<rparr>,
     cn_ServerName = [], cn_Flow = [], cn_Cipher = [], cn_ServerKey = [], cn_SsObfs = [],
     cn_SsObfsHost = [], cn_CongestionControl = [], cn_ZeroRTTHandshake = False,
     cn_PaddingScheme = [], cn_UpMbps = 0, cn_DownMbps = 0, cn_Obfs = [], cn_ObfsPassword = [],
     cn_IgnoreClientBandwidth = False, cn_Camouflage = [], cn_ShapingSettings = [],
     cn_SniMode = [], cn_SwitchIntervalMin = 0, cn_SwitchIntervalMax = 0, cn_UploadHost = [],
     cn_DownloadHost = [], cn_PathPool = [], cn_ConnMaxLifetime = 0, cn_TransportType = [],
     cn_TransportPath = [], cn_TransportHost = []\<rparr>"

text \<open>\<open>format.UserTag\<close>: the key of a user of a node, used as the email inside the core.\<close>

definition UserTag :: "string \<Rightarrow> string \<Rightarrow> string" where
  "UserTag tag uuid = tag @ ''|'' @ uuid"

lemma UserTag_inj [simp]: "UserTag tag u = UserTag tag u' \<longleftrightarrow> u = u'"
  by (simp add: UserTag_def)

lemma UserTag_Nil: "UserTag tag [] = tag @ ''|''"
  by (simp add: UserTag_def)

lemma UserTag_prefix [simp, go_string]: "CutPrefix (UserTag tag u) (UserTag tag []) = Some u"
  using CutPrefix_append [of "tag @ ''|''" u] by (simp add: UserTag_def)

lemma CutPrefix_UserTag [go_string]: "CutPrefix e (UserTag tag []) = Some u \<longleftrightarrow> e = UserTag tag u"
  by (simp add: CutPrefix_Some UserTag_def)

text \<open>
  Keys of different nodes never collide as long as no tag contains the separator: then the first
  separator of the key ends the tag.
\<close>

lemma UserTag_eq_iff:
  assumes "CHR ''|'' \<notin> set tag" and "CHR ''|'' \<notin> set tag'"
  shows "UserTag tag u = UserTag tag' u' \<longleftrightarrow> tag = tag' \<and> u = u'"
proof
  assume eq: "UserTag tag u = UserTag tag' u'"
  have cut: "CutAt CHR ''|'' (UserTag t v) = Some (t, v)" if "CHR ''|'' \<notin> set t" for t v
    using that by (subst CutAt_Some) (simp add: UserTag_def)
  show "tag = tag' \<and> u = u'"
    using cut [OF assms(1), of u] cut [OF assms(2), of u'] unfolding eq by simp
qed simp

end
