(* ===== verification/Rate_Bucket.thy ===== *)
theory Rate_Bucket
  imports Panel_Types
begin

text \<open>
  The rate limiting layer of \<open>common/rate\<close>. A token bucket of the package \<open>juju/ratelimit\<close> is
  given by the arguments it is constructed with; what waiting on it costs is that package's business, so
  an operation that waits is described by the sequence of actions it performs. A \<open>DynamicBucket\<close> is
  a cell whose bucket can be swapped while connections hold a pointer to the cell: cells live in a
  store addressed by natural numbers.
\<close>

record Bucket =
  bk_fillInterval :: int
  bk_capacity :: int
  bk_quantum :: int

definition Second :: int where "Second = 1000000000"

record bucket_store =
  bs_cells :: "nat \<Rightarrow> Bucket option"
  bs_next :: nat

definition empty_store :: bucket_store where
  "empty_store = \<lparr>bs_cells = (\<lambda>_. None), bs_next = 0\<rparr>"

definition NewBucketWithQuantum :: "int \<Rightarrow> int \<Rightarrow> int \<Rightarrow> Bucket" where
  "NewBucketWithQuantum interval capacity quantum =
     \<lparr>bk_fillInterval = interval, bk_capacity = capacity, bk_quantum = quantum\<rparr>"

definition NewDynamicBucket :: "int \<Rightarrow> bucket_store \<Rightarrow> nat \<times> bucket_store" where
  "NewDynamicBucket rate s =
     (bs_next s, s\<lparr>bs_cells := (bs_cells s)(bs_next s \<mapsto> NewBucketWithQuantum Second rate rate),
                   bs_next := Suc (bs_next s)\<rparr>)"

definition bucket_Get :: "nat \<Rightarrow> bucket_store \<Rightarrow> Bucket option" where
  "bucket_Get d s = bs_cells s d"

definition bucket_Update :: "nat \<Rightarrow> int \<Rightarrow> bucket_store \<Rightarrow> bucket_store" where
  "bucket_Update d rate s =
     s\<lparr>bs_cells := (bs_cells s)(d \<mapsto> NewBucketWithQuantum Second rate rate)\<rparr>"

text \<open>
  \<open>Writer\<close> and \<open>Conn\<close>: a write takes the bucket that is in the cell now, waits for the tokens of the
  whole buffer and then writes; \<open>Conn.Read\<close> waits for the size of the buffer it is given before
  it reads.
\<close>

datatype action = Wait Bucket int | WriteTo "nat list" | ReadInto int

definition WriteMultiBuffer :: "nat \<Rightarrow> nat list \<Rightarrow> bucket_store \<Rightarrow> action list" where
  "WriteMultiBuffer d mb s =
     (case bucket_Get d s of
        None \<Rightarrow> [WriteTo mb]
      | Some limiter \<Rightarrow> [Wait limiter (int (length mb)), WriteTo mb])"

definition conn_Read :: "Bucket \<Rightarrow> int \<Rightarrow> action list" where
  "conn_Read limiter len = [Wait limiter len, ReadInto len]"

definition conn_Write :: "Bucket \<Rightarrow> nat list \<Rightarrow> action list" where
  "conn_Write limiter b = [Wait limiter (int (length b)), WriteTo b]"

text \<open>The rate of a cell, in bytes per second: the quantum that is added every second.\<close>

definition cell_rate :: "bucket_store \<Rightarrow> nat \<Rightarrow> int option" where
  "cell_rate s d = map_option bk_quantum (bs_cells s d)"

definition store_inv :: "bucket_store \<Rightarrow> bool" where
  "store_inv s \<longleftrightarrow> (\<forall>d. (bs_cells s d \<noteq> None) = (d < bs_next s))
     \<and> (\<forall>d b. bs_cells s d = Some b \<longrightarrow> 0 < bk_quantum b \<and> bk_capacity b = bk_quantum b \<and> bk_fillInterval b = Second)"

lemmas bucket_defs = NewDynamicBucket_def bucket_Update_def bucket_Get_def NewBucketWithQuantum_def

lemma store_inv_empty: "store_inv empty_store"
  by (simp add: store_inv_def empty_store_def)

lemma store_inv_New: "store_inv s \<Longrightarrow> 0 < r \<Longrightarrow> store_inv (snd (NewDynamicBucket r s))"
  by (auto simp: store_inv_def bucket_defs less_Suc_eq)

lemma store_inv_Update: "store_inv s \<Longrightarrow> d < bs_next s \<Longrightarrow> 0 < r \<Longrightarrow> store_inv (bucket_Update d r s)"
  by (auto simp: store_inv_def bucket_defs)

lemma cell_rate_New:
  "store_inv s \<Longrightarrow> NewDynamicBucket r s = (d, s') \<Longrightarrow>
     cell_rate s' d = Some r \<and> (\<forall>d'. d' < bs_next s \<longrightarrow> cell_rate s' d' = cell_rate s d') \<and> d = bs_next s"
  by (auto simp: cell_rate_def bucket_defs)

lemma cell_rate_Update [simp]:
  "cell_rate (bucket_Update d r s) d' = (if d' = d then Some r else cell_rate s d')"
  by (simp add: cell_rate_def bucket_defs)

lemma bs_next_Update [simp]: "bs_next (bucket_Update d r s) = bs_next s"
  by (simp add: bucket_Update_def)

lemma bs_next_New [simp]: "bs_next (snd (NewDynamicBucket r s)) = Suc (bs_next s)"
  "fst (NewDynamicBucket r s) = bs_next s"
  by (simp_all add: NewDynamicBucket_def)

text \<open>A writer that got its cell before an update waits on the bucket of the new rate.\<close>

lemma write_after_update:
  "WriteMultiBuffer d mb (bucket_Update d r s) =
     [Wait (NewBucketWithQuantum Second r r) (int (length mb)), WriteTo mb]"
  by (simp add: WriteMultiBuffer_def bucket_Get_def bucket_Update_def)

end
