(* ===== verification/Limiter.thy ===== *)
theory Limiter
  imports Rate_Bucket
begin

text \<open>
  The per-node limiter of \<open>limiter/limiter.go\<close> and \<open>limiter/dynamic.go\<close>: which devices (client addresses)
  of a user may connect, and at which speed. The fields of the record are the fields of the struct; a
  \<open>sync.Map\<close> is a partial function. The entries of \<open>UserLimitInfo\<close> are pointers that only this map
  holds, so a change through the pointer is a change of the entry. The entries of
  \<open>SpeedLimiter\<close> are addresses of bucket cells, which connections keep; the cells a limiter created
  are in its \<open>lim_Buckets\<close>. The current time is an argument, in seconds.
\<close>

section \<open>Data\<close>

record UserLimitInfo =
  uli_UID :: int
  uli_SpeedLimit :: int
  uli_DeviceLimit :: int
  uli_DynamicSpeedLimit :: int
  uli_ExpireTime :: int
  uli_OverLimit :: bool

record Limiter =
  lim_Nodetype :: string
  lim_SpeedLimit :: int
  lim_DeviceLimit :: int
  lim_UserOnlineIP :: "string \<rightharpoonup> (string \<rightharpoonup> int)"
  lim_OldUserOnline :: "string \<rightharpoonup> int"
  lim_UUIDtoUID :: "string \<rightharpoonup> int"
  lim_UserLimitInfo :: "string \<rightharpoonup> UserLimitInfo"
  lim_SpeedLimiter :: "string \<rightharpoonup> nat"
  lim_AliveList :: "int \<rightharpoonup> int"
  lim_Buckets :: bucket_store

text \<open>The process-wide registry of limiters, by node tag.\<close>

type_synonym limiters = "string \<rightharpoonup> Limiter"

section \<open>Operations\<close>

definition determineSpeedLimit :: "int \<Rightarrow> int \<Rightarrow> int" where
  "determineSpeedLimit limit1 limit2 =
     (if limit1 = 0 \<or> limit2 = 0 then
        (if limit2 < limit1 then limit1 else if limit1 < limit2 then limit2 else 0)
      else
        (if limit2 < limit1 then limit2 else if limit1 < limit2 then limit1 else limit1))"

text \<open>Megabits per second to bytes per second, in 64-bit arithmetic.\<close>

definition bytes_per_second :: "int \<Rightarrow> int" where
  "bytes_per_second mbps = go_div (i64 (mbps * 1000000)) 8"

definition limiter_Init :: limiters where
  "limiter_Init = Map.empty"

definition new_user_limit :: "int \<Rightarrow> UserInfo \<Rightarrow> UserLimitInfo" where
  "new_user_limit deviceLimit u =
     \<lparr>uli_UID = ui_Id u,
      uli_SpeedLimit = (if ui_SpeedLimit u \<noteq> 0 then ui_SpeedLimit u else 0),
      uli_DeviceLimit = (if ui_DeviceLimit u \<noteq> 0 then ui_DeviceLimit u else deviceLimit),
      uli_DynamicSpeedLimit = 0, uli_ExpireTime = 0, uli_OverLimit = False\<rparr>"

definition add_limit_entry :: "string \<Rightarrow> UserInfo \<Rightarrow> Limiter \<Rightarrow> Limiter" where
  "add_limit_entry tag u l =
     l\<lparr>lim_UUIDtoUID := (lim_UUIDtoUID l)(ui_Uuid u \<mapsto> ui_Id u),
       lim_UserLimitInfo := (lim_UserLimitInfo l)
         (UserTag tag (ui_Uuid u) \<mapsto> new_user_limit (lim_DeviceLimit l) u)\<rparr>"

definition new_limiter :: "string \<Rightarrow> string \<Rightarrow> UserInfo list \<Rightarrow> (int \<rightharpoonup> int) \<Rightarrow> int \<Rightarrow> int \<Rightarrow> Limiter" where
  "new_limiter nodetype tag users aliveList speedLimit deviceLimit =
     fold (add_limit_entry tag) users
       \<lparr>lim_Nodetype = nodetype, lim_SpeedLimit = speedLimit, lim_DeviceLimit = deviceLimit,
        lim_UserOnlineIP = Map.empty, lim_OldUserOnline = Map.empty, lim_UUIDtoUID = Map.empty,
        lim_UserLimitInfo = Map.empty, lim_SpeedLimiter = Map.empty, lim_AliveList = aliveList,
        lim_Buckets = empty_store\<rparr>"

definition AddLimiter ::
  "string \<Rightarrow> string \<Rightarrow> UserInfo list \<Rightarrow> (int \<rightharpoonup> int) \<Rightarrow> int \<Rightarrow> int \<Rightarrow> limiters \<Rightarrow> limiters" where
  "AddLimiter nodetype tag users aliveList speedLimit deviceLimit ls =
     ls(tag \<mapsto> new_limiter nodetype tag users aliveList speedLimit deviceLimit)"

definition GetLimiter :: "string \<Rightarrow> limiters \<Rightarrow> goerror + Limiter" where
  "GetLimiter tag ls = (case ls tag of None \<Rightarrow> Inl ''not found'' | Some l \<Rightarrow> Inr l)"

definition DeleteLimiter :: "string \<Rightarrow> limiters \<Rightarrow> limiters" where
  "DeleteLimiter tag ls = map_del ls tag"

definition UpdateAliveList :: "(int \<rightharpoonup> int) \<Rightarrow> Limiter \<Rightarrow> Limiter" where
  "UpdateAliveList newAlive l = l\<lparr>lim_AliveList := newAlive\<rparr>"

definition getAliveIp :: "int \<Rightarrow> Limiter \<Rightarrow> int" where
  "getAliveIp uid l = (case lim_AliveList l uid of Some v \<Rightarrow> v | None \<Rightarrow> 0)"

text \<open>\<open>UpdateUser\<close>: the body of the loop over the deleted, the modified and the added users.\<close>

definition delete_user :: "string \<Rightarrow> UserInfo \<Rightarrow> Limiter \<Rightarrow> Limiter" where
  "delete_user tag u l =
     l\<lparr>lim_UserLimitInfo := map_del (lim_UserLimitInfo l) (UserTag tag (ui_Uuid u)),
       lim_UserOnlineIP := map_del (lim_UserOnlineIP l) (UserTag tag (ui_Uuid u)),
       lim_SpeedLimiter := map_del (lim_SpeedLimiter l) (UserTag tag (ui_Uuid u)),
       lim_UUIDtoUID := map_del (lim_UUIDtoUID l) (ui_Uuid u),
       lim_AliveList := map_del (lim_AliveList l) (ui_Id u)\<rparr>"

definition modify_limits :: "string \<Rightarrow> UserInfo \<Rightarrow> Limiter \<Rightarrow> Limiter" where
  "modify_limits tag u l =
     (case lim_UserLimitInfo l (UserTag tag (ui_Uuid u)) of
        None \<Rightarrow> l
      | Some i \<Rightarrow> l\<lparr>lim_UserLimitInfo := (lim_UserLimitInfo l)(UserTag tag (ui_Uuid u) \<mapsto>
          i\<lparr>uli_SpeedLimit := ui_SpeedLimit u,
            uli_DeviceLimit := (if ui_DeviceLimit u \<noteq> 0 then ui_DeviceLimit u else lim_DeviceLimit l)\<rparr>)\<rparr>)"

definition modify_bucket :: "string \<Rightarrow> UserInfo \<Rightarrow> Limiter \<Rightarrow> Limiter" where
  "modify_bucket tag u l =
     (let tu = UserTag tag (ui_Uuid u);
          limit = bytes_per_second (determineSpeedLimit (lim_SpeedLimit l) (ui_SpeedLimit u))
      in if 0 < limit then
           (case lim_SpeedLimiter l tu of
              Some d \<Rightarrow> l\<lparr>lim_Buckets := bucket_Update d limit (lim_Buckets l)\<rparr>
            | None \<Rightarrow> (case NewDynamicBucket limit (lim_Buckets l) of
                (d, s) \<Rightarrow> l\<lparr>lim_Buckets := s, lim_SpeedLimiter := (lim_SpeedLimiter l)(tu \<mapsto> d)\<rparr>))
         else l\<lparr>lim_SpeedLimiter := map_del (lim_SpeedLimiter l) tu\<rparr>)"

definition modify_user :: "string \<Rightarrow> UserInfo \<Rightarrow> Limiter \<Rightarrow> Limiter" where
  "modify_user tag u l = modify_bucket tag u (modify_limits tag u l)"

definition UpdateUser ::
  "string \<Rightarrow> UserInfo list \<Rightarrow> UserInfo list \<Rightarrow> UserInfo list \<Rightarrow> Limiter \<Rightarrow> Limiter" where
  "UpdateUser tag added deleted modified l =
     fold (add_limit_entry tag) added (fold (modify_user tag) modified (fold (delete_user tag) deleted l))"

text \<open>
  \<open>SetDynamicSpeedLimitByUID\<close> visits the users in an order the map leaves open and stops at the first one
  with the given UID.
\<close>

fun SetDynamicSpeedLimitByUID :: "string list \<Rightarrow> int \<Rightarrow> int \<Rightarrow> int \<Rightarrow> Limiter \<Rightarrow> Limiter" where
  "SetDynamicSpeedLimitByUID [] uid limit expire l = l"
| "SetDynamicSpeedLimitByUID (k # ks) uid limit expire l =
     (case lim_UserLimitInfo l k of
        None \<Rightarrow> SetDynamicSpeedLimitByUID ks uid limit expire l
      | Some info \<Rightarrow>
          if uli_UID info = uid
          then l\<lparr>lim_UserLimitInfo := (lim_UserLimitInfo l)
                 (k \<mapsto> info\<lparr>uli_DynamicSpeedLimit := limit, uli_ExpireTime := expire\<rparr>)\<rparr>
          else SetDynamicSpeedLimitByUID ks uid limit expire l)"

definition UpdateDynamicSpeedLimit :: "string \<Rightarrow> string \<Rightarrow> int \<Rightarrow> int \<Rightarrow> Limiter \<Rightarrow> goerror + Limiter" where
  "UpdateDynamicSpeedLimit tag uuid limit expire l =
     (case lim_UserLimitInfo l (UserTag tag uuid) of
        Some info \<Rightarrow> Inr (l\<lparr>lim_UserLimitInfo := (lim_UserLimitInfo l)(UserTag tag uuid \<mapsto>
           info\<lparr>uli_DynamicSpeedLimit := limit, uli_ExpireTime := expire\<rparr>)\<rparr>)
      | None \<Rightarrow> Inl ''not found'')"

text \<open>
  \<open>CheckLimit\<close>, in the order of the code. \<open>effective_user_limit\<close> is the limit of the user entry at time
  \<open>now\<close> with the entry as the check leaves it (an expired dynamic limit is cleared).
\<close>

definition effective_user_limit :: "int \<Rightarrow> UserLimitInfo \<Rightarrow> int \<times> UserLimitInfo" where
  "effective_user_limit now u =
     (if uli_ExpireTime u < now \<and> uli_ExpireTime u \<noteq> 0
      then (uli_SpeedLimit u, u\<lparr>uli_DynamicSpeedLimit := 0, uli_ExpireTime := 0\<rparr>)
      else (determineSpeedLimit (uli_SpeedLimit u) (uli_DynamicSpeedLimit u), u))"

text \<open>
  The decision on an address that is new for the user this cycle, made in both branches: an address of
  the previous cycle is admitted (and taken off the list when it was this user's), any other address
  only below the device limit. The result is whether the connection is rejected.
\<close>

definition admit_new_ip :: "string \<Rightarrow> int \<Rightarrow> int \<Rightarrow> int \<Rightarrow> Limiter \<Rightarrow> bool \<times> Limiter" where
  "admit_new_ip ip uid deviceLimit aliveIp l =
     (case lim_OldUserOnline l ip of
        Some ov \<Rightarrow> (False, if ov = uid then l\<lparr>lim_OldUserOnline := map_del (lim_OldUserOnline l) ip\<rparr> else l)
      | None \<Rightarrow> (0 < deviceLimit \<and> deviceLimit \<le> aliveIp, l))"

definition known_ip_map :: "string \<Rightarrow> string \<Rightarrow> int \<Rightarrow> int \<Rightarrow> int \<Rightarrow> (string \<rightharpoonup> int) \<Rightarrow> Limiter \<Rightarrow> bool \<times> Limiter" where
  "known_ip_map taguuid ip uid deviceLimit aliveIp ipMap l =
     (if ipMap ip \<noteq> None then (False, l)
      else let l1 = l\<lparr>lim_UserOnlineIP := (lim_UserOnlineIP l)(taguuid \<mapsto> ipMap(ip \<mapsto> uid))\<rparr>
           in (case admit_new_ip ip uid deviceLimit aliveIp l1 of
                 (False, l2) \<Rightarrow> (False, l2)
               | (True, l2) \<Rightarrow> (True, l2\<lparr>lim_UserOnlineIP := (lim_UserOnlineIP l2)(taguuid \<mapsto> map_del (ipMap(ip \<mapsto> uid)) ip)\<rparr>)))"

text \<open>
  \<open>race\<close> is the address map that another connection of the same user stored between the \<open>Load\<close> and the
  \<open>LoadOrStore\<close>, if one did.
\<close>

definition check_device ::
  "(string \<rightharpoonup> int) option \<Rightarrow> string \<Rightarrow> string \<Rightarrow> int \<Rightarrow> int \<Rightarrow> int \<Rightarrow> Limiter \<Rightarrow> bool \<times> Limiter" where
  "check_device race taguuid ip uid deviceLimit aliveIp l =
     (case lim_UserOnlineIP l taguuid of
        Some ipMap \<Rightarrow> known_ip_map taguuid ip uid deviceLimit aliveIp ipMap l
      | None \<Rightarrow>
          (case race of
             Some actual \<Rightarrow>
               known_ip_map taguuid ip uid deviceLimit aliveIp actual
                 (l\<lparr>lim_UserOnlineIP := (lim_UserOnlineIP l)(taguuid \<mapsto> actual)\<rparr>)
           | None \<Rightarrow>
               (let l1 = l\<lparr>lim_UserOnlineIP := (lim_UserOnlineIP l)(taguuid \<mapsto> [ip \<mapsto> uid])\<rparr>
                in case admit_new_ip ip uid deviceLimit aliveIp l1 of
                     (False, l2) \<Rightarrow> (False, l2)
                   | (True, l2) \<Rightarrow> (True, l2\<lparr>lim_UserOnlineIP := map_del (lim_UserOnlineIP l2) taguuid\<rparr>))))"

definition user_bucket :: "string \<Rightarrow> int \<Rightarrow> Limiter \<Rightarrow> nat option \<times> Limiter" where
  "user_bucket taguuid limit l =
     (if 0 < limit then
        (case lim_SpeedLimiter l taguuid of
           Some d \<Rightarrow> (Some d, l)
         | None \<Rightarrow> (case NewDynamicBucket limit (lim_Buckets l) of
             (d, s) \<Rightarrow> (Some d, l\<lparr>lim_Buckets := s, lim_SpeedLimiter := (lim_SpeedLimiter l)(taguuid \<mapsto> d)\<rparr>)))
      else (None, l))"

definition checks_devices :: "bool \<Rightarrow> Limiter \<Rightarrow> bool" where
  "checks_devices noUDPsource l \<longleftrightarrow> noUDPsource \<or> lim_Nodetype l = ''hysteria2'' \<or> lim_Nodetype l = ''tuic''"

definition CheckLimit ::
  "int \<Rightarrow> (string \<rightharpoonup> int) option \<Rightarrow> string \<Rightarrow> string \<Rightarrow> bool \<Rightarrow> Limiter \<Rightarrow> (nat option \<times> bool) \<times> Limiter" where
  "CheckLimit now race taguuid ip0 noUDPsource l =
     (let ip = TrimPrefix ip0 ''::ffff:''
      in case lim_UserLimitInfo l taguuid of
           None \<Rightarrow> ((None, True), l)
         | Some u \<Rightarrow>
             (case effective_user_limit now u of
                (userLimit, u') \<Rightarrow>
                  let l1 = l\<lparr>lim_UserLimitInfo := (lim_UserLimitInfo l)(taguuid \<mapsto> u')\<rparr>;
                      (rejected, l2) =
                        (if checks_devices noUDPsource l1
                         then check_device race taguuid ip (uli_UID u) (uli_DeviceLimit u) (getAliveIp (uli_UID u) l1) l1
                         else (False, l1))
                  in if rejected then ((None, True), l2)
                     else (case user_bucket taguuid (bytes_per_second (determineSpeedLimit (lim_SpeedLimit l2) userLimit)) l2 of
                             (d, l3) \<Rightarrow> ((d, False), l3))))"

text \<open>
  \<open>GetOnlineDevice\<close> visits the users in the order \<open>order\<close> and the addresses of user \<open>k\<close> in the order
  \<open>iorder k\<close>. It returns the devices and moves every address to the list of the previous cycle.
\<close>

definition ips_of :: "(string \<Rightarrow> string list) \<Rightarrow> string \<Rightarrow> (string \<rightharpoonup> int) \<Rightarrow> OnlineUser list" where
  "ips_of iorder k ipMap =
     range_fold (\<lambda>ip uid acc. acc @ [\<lparr>ou_UID = uid, ou_IP = ip\<rparr>]) (iorder k) ipMap []"

definition GetOnlineDevice ::
  "string list \<Rightarrow> (string \<Rightarrow> string list) \<Rightarrow> Limiter \<Rightarrow> OnlineUser list \<times> Limiter" where
  "GetOnlineDevice order iorder l =
     (let onlineUser = range_fold (\<lambda>k ipMap acc. acc @ ips_of iorder k ipMap) order (lim_UserOnlineIP l) [];
          newOld = fold (\<lambda>d m. m(ou_IP d \<mapsto> ou_UID d)) onlineUser Map.empty
      in (onlineUser, l\<lparr>lim_OldUserOnline := newOld,
                        lim_UserOnlineIP := fold (\<lambda>k m. map_del m k) order (lim_UserOnlineIP l)\<rparr>))"

section \<open>Speed limits\<close>

lemma determineSpeedLimit_nonneg:
  assumes "0 \<le> a" and "0 \<le> b"
  shows "determineSpeedLimit a b = (if a = 0 then b else if b = 0 then a else min a b)"
  using assms by (auto simp: determineSpeedLimit_def)

lemma bytes_per_second_exact:
  assumes "0 \<le> m" and "m \<le> 9223372036854"
  shows "bytes_per_second m = m * 125000"
proof -
  have "i64 (m * 1000000) = m * 1000000"
    using assms by (intro i64_id) (simp add: in_i64_def)
  with assms show ?thesis by (simp add: bytes_per_second_def go_div_nonneg)
qed

section \<open>The decision of CheckLimit\<close>

text \<open>\<open>tracked\<close> says that an address is already in the map of the user this cycle.\<close>

definition online_map :: "(string \<rightharpoonup> int) option \<Rightarrow> string \<Rightarrow> Limiter \<Rightarrow> (string \<rightharpoonup> int)" where
  "online_map race tu l =
     (case lim_UserOnlineIP l tu of Some m \<Rightarrow> m | None \<Rightarrow> (case race of Some m \<Rightarrow> m | None \<Rightarrow> Map.empty))"

definition over_device_limit :: "string \<Rightarrow> UserLimitInfo \<Rightarrow> Limiter \<Rightarrow> bool" where
  "over_device_limit ip u l \<longleftrightarrow>
     lim_OldUserOnline l ip = None \<and> 0 < uli_DeviceLimit u \<and> uli_DeviceLimit u \<le> getAliveIp (uli_UID u) l"

lemmas limit_steps = admit_new_ip_def known_ip_map_def check_device_def user_bucket_def Let_def

lemma getAliveIp_upd [simp]:
  "getAliveIp uid (l\<lparr>lim_UserLimitInfo := x\<rparr>) = getAliveIp uid l"
  by (simp add: getAliveIp_def)

lemma checks_devices_upd [simp]:
  "checks_devices b (l\<lparr>lim_UserLimitInfo := x\<rparr>) = checks_devices b l"
  by (simp add: checks_devices_def)

lemma check_device_rejects:
  "fst (check_device race tu ip uid dl alive l) \<longleftrightarrow>
     online_map race tu l ip = None \<and> lim_OldUserOnline l ip = None \<and> 0 < dl \<and> dl \<le> alive"
  by (auto simp: limit_steps online_map_def split: option.splits bool.splits if_splits)

text \<open>
  The state from which a device check decides when another connection won the race for the first address
  map of the user: the map of the winner is stored.
\<close>

definition after_race :: "(string \<rightharpoonup> int) option \<Rightarrow> string \<Rightarrow> Limiter \<Rightarrow> Limiter" where
  "after_race race tu l =
     (case (lim_UserOnlineIP l tu, race) of
        (None, Some m) \<Rightarrow> l\<lparr>lim_UserOnlineIP := (lim_UserOnlineIP l)(tu \<mapsto> m)\<rparr>
      | _ \<Rightarrow> l)"

lemma after_race_None [simp]: "after_race None tu l = l"
  by (simp add: after_race_def split: option.split)

lemma check_device_rejected_state:
  assumes "fst (check_device race tu ip uid dl alive l)"
  shows "snd (check_device race tu ip uid dl alive l) = after_race race tu l"
  using assms
  by (auto simp: limit_steps after_race_def map_del_def fun_upd_idem split: option.splits bool.splits if_splits)

lemma check_device_accepted_state:
  assumes "\<not> fst (check_device race tu ip uid dl alive l)"
  shows "lim_UserOnlineIP (snd (check_device race tu ip uid dl alive l)) = (lim_UserOnlineIP l)
     (tu \<mapsto> (if online_map race tu l ip = None then (online_map race tu l)(ip \<mapsto> uid) else online_map race tu l))"
  using assms
  by (auto simp: limit_steps online_map_def fun_upd_idem split: option.splits bool.splits if_splits)

text \<open>The fields a device check leaves alone.\<close>

lemma check_device_frame:
  assumes "check_device race tu ip uid dl alive l = (r, l')"
  shows "lim_UserLimitInfo l' = lim_UserLimitInfo l" "lim_SpeedLimiter l' = lim_SpeedLimiter l"
    "lim_Buckets l' = lim_Buckets l" "lim_SpeedLimit l' = lim_SpeedLimit l"
    "lim_DeviceLimit l' = lim_DeviceLimit l" "lim_AliveList l' = lim_AliveList l"
    "lim_UUIDtoUID l' = lim_UUIDtoUID l" "lim_Nodetype l' = lim_Nodetype l"
    "tu' \<noteq> tu \<Longrightarrow> lim_UserOnlineIP l' tu' = lim_UserOnlineIP l tu'"
    "dom (lim_UserOnlineIP l') \<subseteq> insert tu (dom (lim_UserOnlineIP l))"
  using assms
  by (auto simp: limit_steps split: option.splits bool.splits if_splits prod.splits)

lemma CheckLimit_known:
  assumes "lim_UserLimitInfo l tu = Some u" and "effective_user_limit now u = (ul, u')"
    and "l1 = l\<lparr>lim_UserLimitInfo := (lim_UserLimitInfo l)(tu \<mapsto> u')\<rparr>"
    and "(if checks_devices nu l then check_device race tu (TrimPrefix ip ''::ffff:'') (uli_UID u) (uli_DeviceLimit u)
            (getAliveIp (uli_UID u) l) l1 else (False, l1)) = (r, l2)"
  shows "CheckLimit now race tu ip nu l =
     (if r then ((None, True), l2)
      else (case user_bucket tu (bytes_per_second (determineSpeedLimit (lim_SpeedLimit l2) ul)) l2 of
              (d, l3) \<Rightarrow> ((d, False), l3)))"
  using assms by (auto simp: CheckLimit_def Let_def)

lemma CheckLimit_rejects_iff:
  assumes "lim_UserLimitInfo l tu = Some u" and "checks_devices nu l"
  shows "snd (fst (CheckLimit now race tu ip nu l)) \<longleftrightarrow>
     online_map race tu l (TrimPrefix ip ''::ffff:'') = None \<and> over_device_limit (TrimPrefix ip ''::ffff:'') u l"
proof -
  obtain ul u' where e: "effective_user_limit now u = (ul, u')" by fastforce
  let ?l1 = "l\<lparr>lim_UserLimitInfo := (lim_UserLimitInfo l)(tu \<mapsto> u')\<rparr>"
  obtain r l2 where c: "check_device race tu (TrimPrefix ip ''::ffff:'') (uli_UID u) (uli_DeviceLimit u)
      (getAliveIp (uli_UID u) l) ?l1 = (r, l2)" by fastforce
  have "snd (fst (CheckLimit now race tu ip nu l)) = r"
    using CheckLimit_known [OF assms(1) e refl, of nu race ip r l2] c assms(2)
    by (simp split: prod.split)
  also have "r \<longleftrightarrow> online_map race tu ?l1 (TrimPrefix ip ''::ffff:'') = None
      \<and> over_device_limit (TrimPrefix ip ''::ffff:'') u ?l1"
    using check_device_rejects [of race tu "TrimPrefix ip ''::ffff:''" "uli_UID u" "uli_DeviceLimit u"
        "getAliveIp (uli_UID u) l" ?l1] c
    by (simp add: over_device_limit_def)
  finally show ?thesis
    by (simp add: online_map_def over_device_limit_def)
qed

lemma user_bucket_frame:
  assumes "user_bucket tu limit l = (d, l')"
  shows "lim_UserOnlineIP l' = lim_UserOnlineIP l" "lim_OldUserOnline l' = lim_OldUserOnline l"
    "lim_UserLimitInfo l' = lim_UserLimitInfo l" "lim_SpeedLimit l' = lim_SpeedLimit l"
    "lim_DeviceLimit l' = lim_DeviceLimit l" "lim_AliveList l' = lim_AliveList l"
    "tu' \<noteq> tu \<Longrightarrow> lim_SpeedLimiter l' tu' = lim_SpeedLimiter l tu'"
  using assms by (auto simp: user_bucket_def NewDynamicBucket_def split: if_splits option.splits)

section \<open>The invariant\<close>

text \<open>
  Every bucket address a limiter hands out belongs to a cell it created, no two users share a cell, cells
  hold positive rates, and only known users are tracked as online.
\<close>

definition lim_inv :: "Limiter \<Rightarrow> bool" where
  "lim_inv l \<longleftrightarrow> store_inv (lim_Buckets l)
     \<and> (\<forall>tu d. lim_SpeedLimiter l tu = Some d \<longrightarrow> d < bs_next (lim_Buckets l))
     \<and> (\<forall>tu tu' d. lim_SpeedLimiter l tu = Some d \<longrightarrow> lim_SpeedLimiter l tu' = Some d \<longrightarrow> tu = tu')
     \<and> dom (lim_UserOnlineIP l) \<subseteq> dom (lim_UserLimitInfo l)"

lemma lim_inv_bucket:
  assumes "lim_inv l" and "0 < r" and "NewDynamicBucket r (lim_Buckets l) = (d, s)"
  shows "lim_inv (l\<lparr>lim_Buckets := s, lim_SpeedLimiter := (lim_SpeedLimiter l)(tu \<mapsto> d)\<rparr>)"
proof -
  have d: "d = bs_next (lim_Buckets l)" "s = snd (NewDynamicBucket r (lim_Buckets l))"
    using assms(3) by (auto simp: NewDynamicBucket_def)
  have lt: "d' < d" if "lim_SpeedLimiter l tu' = Some d'" for tu' d'
    using assms(1) that by (auto simp: lim_inv_def d)
  have "store_inv s" using assms(1,2) by (simp add: d(2) store_inv_New lim_inv_def)
  moreover have "bs_next s = Suc d" by (simp add: d)
  ultimately show ?thesis
    using assms(1) lt by (fastforce simp: lim_inv_def less_Suc_eq)
qed

lemma lim_inv_check_device:
  assumes "lim_inv l" and "check_device race tu ip uid dl alive l = (r, l')" and "tu \<in> dom (lim_UserLimitInfo l)"
  shows "lim_inv l'"
  using assms(1,3) check_device_frame [OF assms(2)] unfolding lim_inv_def
  by (simp only: simp_thms) blast

lemma lim_inv_user_bucket:
  assumes "lim_inv l" and "user_bucket tu limit l = (d, l')"
  shows "lim_inv l'"
  using assms lim_inv_bucket [OF assms(1)]
  by (auto simp: user_bucket_def split: if_splits option.splits prod.splits)

lemma lim_inv_limit_info:
  "lim_inv l \<Longrightarrow> dom (lim_UserLimitInfo l) \<subseteq> dom x \<Longrightarrow> lim_inv (l\<lparr>lim_UserLimitInfo := x\<rparr>)"
  by (simp add: lim_inv_def) blast

lemma lim_inv_CheckLimit:
  assumes "lim_inv l" and c: "CheckLimit now race tu ip nu l = (res, l')"
  shows "lim_inv l'"
proof (cases "lim_UserLimitInfo l tu")
  case None
  with assms show ?thesis by (simp add: CheckLimit_def)
next
  case (Some u)
  obtain ul u' where e: "effective_user_limit now u = (ul, u')" by fastforce
  define l1 where "l1 = l\<lparr>lim_UserLimitInfo := (lim_UserLimitInfo l)(tu \<mapsto> u')\<rparr>"
  obtain r l2 where d: "(if checks_devices nu l then check_device race tu (TrimPrefix ip ''::ffff:'') (uli_UID u)
      (uli_DeviceLimit u) (getAliveIp (uli_UID u) l) l1 else (False, l1)) = (r, l2)" by fastforce
  have l1: "lim_inv l1" "tu \<in> dom (lim_UserLimitInfo l1)"
    unfolding l1_def by (rule lim_inv_limit_info [OF assms(1)]) auto
  have l2: "lim_inv l2"
    using d l1 by (auto split: if_splits dest: lim_inv_check_device)
  show ?thesis
    using CheckLimit_known [OF Some e l1_def d] c l2
    by (auto split: if_splits prod.splits dest: lim_inv_user_bucket)
qed

lemma lim_inv_add_limit_entry: "lim_inv l \<Longrightarrow> lim_inv (add_limit_entry tag u l)"
  by (auto simp: lim_inv_def add_limit_entry_def)

lemma lim_inv_delete_user: "lim_inv l \<Longrightarrow> lim_inv (delete_user tag u l)"
  by (auto simp: lim_inv_def delete_user_def)

lemma lim_inv_modify_limits: "lim_inv l \<Longrightarrow> lim_inv (modify_limits tag u l)"
  by (auto simp: modify_limits_def intro: lim_inv_limit_info split: option.split)

lemma lim_inv_modify_bucket: "lim_inv l \<Longrightarrow> lim_inv (modify_bucket tag u l)"
  by (auto simp: modify_bucket_def Let_def intro: lim_inv_bucket split: option.split prod.split)
     (auto simp: lim_inv_def store_inv_Update)

lemma lim_inv_modify_user: "lim_inv l \<Longrightarrow> lim_inv (modify_user tag u l)"
  by (simp add: modify_user_def lim_inv_modify_limits lim_inv_modify_bucket)

lemma fold_lim_inv:
  "(\<And>u l. lim_inv l \<Longrightarrow> lim_inv (f u l)) \<Longrightarrow> lim_inv l \<Longrightarrow> lim_inv (fold f us l)"
  by (induction us arbitrary: l) auto

lemma lim_inv_UpdateUser: "lim_inv l \<Longrightarrow> lim_inv (UpdateUser tag added deleted modified l)"
  by (simp add: UpdateUser_def fold_lim_inv lim_inv_add_limit_entry lim_inv_delete_user lim_inv_modify_user)

lemma lim_inv_new_limiter: "lim_inv (new_limiter nodetype tag users alive sl dl)"
  unfolding new_limiter_def
  by (rule fold_lim_inv [OF lim_inv_add_limit_entry]) (simp_all add: lim_inv_def store_inv_empty)

lemma lim_inv_SetDynamic: "lim_inv l \<Longrightarrow> lim_inv (SetDynamicSpeedLimitByUID ks uid limit expire l)"
  by (induction ks uid limit expire l rule: SetDynamicSpeedLimitByUID.induct)
     (auto intro: lim_inv_limit_info split: option.split)

lemma dom_fold_map_del: "dom (fold (\<lambda>k m. map_del m k) ks m) = dom m - set ks"
  by (auto simp: fold_map_del split: if_splits)

lemma lim_inv_GetOnlineDevice: "lim_inv l \<Longrightarrow> lim_inv (snd (GetOnlineDevice order iorder l))"
  by (auto simp: GetOnlineDevice_def Let_def lim_inv_def dom_fold_map_del)

lemma lim_inv_UpdateAliveList: "lim_inv l \<Longrightarrow> lim_inv (UpdateAliveList a l)"
  by (auto simp: UpdateAliveList_def lim_inv_def)

lemmas lim_inv_ops = lim_inv_new_limiter lim_inv_CheckLimit lim_inv_UpdateUser lim_inv_SetDynamic
  lim_inv_GetOnlineDevice lim_inv_UpdateAliveList

section \<open>Updates of the user set\<close>

abbreviation uuids :: "UserInfo list \<Rightarrow> string set" where
  "uuids us \<equiv> ui_Uuid ` set us"

abbreviation user_keys :: "string \<Rightarrow> UserInfo list \<Rightarrow> string set" where
  "user_keys tag us \<equiv> UserTag tag ` uuids us"

lemma fold_delete_user:
  "lim_UserLimitInfo (fold (delete_user tag) us l) k = (if k \<in> user_keys tag us then None else lim_UserLimitInfo l k)"
  "lim_UserOnlineIP (fold (delete_user tag) us l) k = (if k \<in> user_keys tag us then None else lim_UserOnlineIP l k)"
  "lim_SpeedLimiter (fold (delete_user tag) us l) k = (if k \<in> user_keys tag us then None else lim_SpeedLimiter l k)"
  "lim_UUIDtoUID (fold (delete_user tag) us l) v = (if v \<in> uuids us then None else lim_UUIDtoUID l v)"
  "lim_SpeedLimit (fold (delete_user tag) us l) = lim_SpeedLimit l"
  "lim_DeviceLimit (fold (delete_user tag) us l) = lim_DeviceLimit l"
  "lim_Buckets (fold (delete_user tag) us l) = lim_Buckets l"
  by (induction us arbitrary: l) (auto simp: delete_user_def)

lemma modify_user_frame:
  "lim_UserOnlineIP (modify_user tag u l) = lim_UserOnlineIP l"
  "lim_UUIDtoUID (modify_user tag u l) = lim_UUIDtoUID l"
  "lim_SpeedLimit (modify_user tag u l) = lim_SpeedLimit l"
  "lim_DeviceLimit (modify_user tag u l) = lim_DeviceLimit l"
  "k \<noteq> UserTag tag (ui_Uuid u) \<Longrightarrow> lim_SpeedLimiter (modify_user tag u l) k = lim_SpeedLimiter l k"
  "k \<noteq> UserTag tag (ui_Uuid u) \<Longrightarrow> lim_UserLimitInfo (modify_user tag u l) k = lim_UserLimitInfo l k"
  "dom (lim_UserLimitInfo (modify_user tag u l)) = dom (lim_UserLimitInfo l)"
  by (auto simp: modify_user_def modify_limits_def modify_bucket_def NewDynamicBucket_def Let_def
           split: option.splits if_splits prod.splits)

lemma fold_modify_user_frame:
  "lim_UserOnlineIP (fold (modify_user tag) us l) = lim_UserOnlineIP l"
  "lim_UUIDtoUID (fold (modify_user tag) us l) = lim_UUIDtoUID l"
  "lim_SpeedLimit (fold (modify_user tag) us l) = lim_SpeedLimit l"
  "lim_DeviceLimit (fold (modify_user tag) us l) = lim_DeviceLimit l"
  "k \<notin> user_keys tag us \<Longrightarrow> lim_SpeedLimiter (fold (modify_user tag) us l) k = lim_SpeedLimiter l k"
  "k \<notin> user_keys tag us \<Longrightarrow> lim_UserLimitInfo (fold (modify_user tag) us l) k = lim_UserLimitInfo l k"
  "dom (lim_UserLimitInfo (fold (modify_user tag) us l)) = dom (lim_UserLimitInfo l)"
  by (induction us arbitrary: l) (auto simp: modify_user_frame)

lemma fold_add_limit_entry:
  "lim_UserOnlineIP (fold (add_limit_entry tag) us l) = lim_UserOnlineIP l"
  "lim_SpeedLimiter (fold (add_limit_entry tag) us l) = lim_SpeedLimiter l"
  "lim_Buckets (fold (add_limit_entry tag) us l) = lim_Buckets l"
  "lim_DeviceLimit (fold (add_limit_entry tag) us l) = lim_DeviceLimit l"
  "lim_SpeedLimit (fold (add_limit_entry tag) us l) = lim_SpeedLimit l"
  "lim_Nodetype (fold (add_limit_entry tag) us l) = lim_Nodetype l"
  "lim_AliveList (fold (add_limit_entry tag) us l) = lim_AliveList l"
  "lim_OldUserOnline (fold (add_limit_entry tag) us l) = lim_OldUserOnline l"
  "k \<notin> user_keys tag us \<Longrightarrow> lim_UserLimitInfo (fold (add_limit_entry tag) us l) k = lim_UserLimitInfo l k"
  "v \<notin> uuids us \<Longrightarrow> lim_UUIDtoUID (fold (add_limit_entry tag) us l) v = lim_UUIDtoUID l v"
  "dom (lim_UserLimitInfo (fold (add_limit_entry tag) us l)) = dom (lim_UserLimitInfo l) \<union> user_keys tag us"
  by (induction us arbitrary: l) (auto simp: add_limit_entry_def)

lemma fold_add_limit_entry_at:
  assumes "u \<in> set us" and "distinct (map ui_Uuid us)"
  shows "lim_UserLimitInfo (fold (add_limit_entry tag) us l) (UserTag tag (ui_Uuid u))
           = Some (new_user_limit (lim_DeviceLimit l) u)"
    and "lim_UUIDtoUID (fold (add_limit_entry tag) us l) (ui_Uuid u) = Some (ui_Id u)"
proof -
  obtain xs ys where us: "us = xs @ u # ys" using assms(1) by (meson split_list)
  have "UserTag tag (ui_Uuid u) \<notin> user_keys tag ys" "ui_Uuid u \<notin> uuids ys"
    using assms(2) by (auto simp: us)
  then show "lim_UserLimitInfo (fold (add_limit_entry tag) us l) (UserTag tag (ui_Uuid u))
           = Some (new_user_limit (lim_DeviceLimit l) u)"
    and "lim_UUIDtoUID (fold (add_limit_entry tag) us l) (ui_Uuid u) = Some (ui_Id u)"
    by (simp_all add: us fold_add_limit_entry) (simp_all add: add_limit_entry_def fold_add_limit_entry)
qed

lemma modify_limits_frame:
  "lim_SpeedLimit (modify_limits tag u l) = lim_SpeedLimit l"
  "lim_SpeedLimiter (modify_limits tag u l) = lim_SpeedLimiter l"
  "lim_Buckets (modify_limits tag u l) = lim_Buckets l"
  by (simp_all add: modify_limits_def split: option.split)

lemma modify_bucket_limit_info [simp]: "lim_UserLimitInfo (modify_bucket tag u l) = lim_UserLimitInfo l"
  by (simp add: modify_bucket_def Let_def split: option.split prod.split)

text \<open>A modified user whose connections hold the cell \<open>d\<close>: the cell gets the new rate.\<close>

lemma modify_user_rate:
  assumes "lim_SpeedLimiter l (UserTag tag (ui_Uuid u)) = Some d"
    and "0 < bytes_per_second (determineSpeedLimit (lim_SpeedLimit l) (ui_SpeedLimit u))"
  shows "lim_SpeedLimiter (modify_user tag u l) = lim_SpeedLimiter l"
    and "cell_rate (lim_Buckets (modify_user tag u l)) d =
           Some (bytes_per_second (determineSpeedLimit (lim_SpeedLimit l) (ui_SpeedLimit u)))"
  using assms by (simp_all add: modify_user_def modify_bucket_def modify_limits_frame Let_def)

lemma modify_user_other_cell:
  assumes "lim_inv l" and "lim_SpeedLimiter l k = Some d" and "k \<noteq> UserTag tag (ui_Uuid u)"
  shows "cell_rate (lim_Buckets (modify_user tag u l)) d = cell_rate (lim_Buckets l) d"
  using assms
  by (auto simp: modify_user_def modify_bucket_def modify_limits_frame Let_def lim_inv_def
        NewDynamicBucket_def cell_rate_def bucket_Update_def split: option.splits prod.splits)

lemma fold_modify_user_cell:
  assumes "lim_inv l" and "lim_SpeedLimiter l k = Some d" and "k \<notin> user_keys tag us"
  shows "cell_rate (lim_Buckets (fold (modify_user tag) us l)) d = cell_rate (lim_Buckets l) d"
  using assms
proof (induction us arbitrary: l)
  case (Cons v us)
  then have "cell_rate (lim_Buckets (fold (modify_user tag) us (modify_user tag v l))) d
      = cell_rate (lim_Buckets (modify_user tag v l)) d"
    by (intro Cons.IH) (auto simp: lim_inv_modify_user modify_user_frame)
  then show ?case using Cons.prems modify_user_other_cell [of l k d tag v] by simp
qed simp

lemma fold_modify_user_rate:
  assumes "lim_inv l" and "u \<in> set us" and "distinct (map ui_Uuid us)"
    and "lim_SpeedLimiter l (UserTag tag (ui_Uuid u)) = Some d"
    and "0 < bytes_per_second (determineSpeedLimit (lim_SpeedLimit l) (ui_SpeedLimit u))"
  shows "lim_SpeedLimiter (fold (modify_user tag) us l) (UserTag tag (ui_Uuid u)) = Some d"
    and "cell_rate (lim_Buckets (fold (modify_user tag) us l)) d =
           Some (bytes_per_second (determineSpeedLimit (lim_SpeedLimit l) (ui_SpeedLimit u)))"
proof -
  obtain xs ys where us: "us = xs @ u # ys" using assms(2) by (meson split_list)
  let ?l1 = "fold (modify_user tag) xs l"
  have notin: "UserTag tag (ui_Uuid u) \<notin> user_keys tag xs" "UserTag tag (ui_Uuid u) \<notin> user_keys tag ys"
    using assms(3) by (auto simp: us)
  have l1: "lim_inv ?l1" "lim_SpeedLimiter ?l1 (UserTag tag (ui_Uuid u)) = Some d" "lim_SpeedLimit ?l1 = lim_SpeedLimit l"
    using assms(1,4) notin by (simp_all add: fold_lim_inv lim_inv_modify_user fold_modify_user_frame)
  note step = modify_user_rate [OF l1(2), unfolded l1(3), OF assms(5)]
  have l2: "lim_inv (modify_user tag u ?l1)" by (rule lim_inv_modify_user [OF l1(1)])
  show "lim_SpeedLimiter (fold (modify_user tag) us l) (UserTag tag (ui_Uuid u)) = Some d"
    using notin step(1) l1(2) by (simp add: us fold_modify_user_frame)
  show "cell_rate (lim_Buckets (fold (modify_user tag) us l)) d =
           Some (bytes_per_second (determineSpeedLimit (lim_SpeedLimit l) (ui_SpeedLimit u)))"
    using fold_modify_user_cell [OF l2 _ notin(2)] step l1(2) by (simp add: us)
qed

end
