(* ===== verification/Limiter_Props.thy ===== *)
theory Limiter_Props
  imports Limiter
begin

text \<open>
  What the limiter promises: the exact condition under which a device is refused, the report of online
  devices and the cycle change, the effect of user updates on live connections, and the invariant
  along every sequence of operations. The witnesses use a limiter with one or two concrete users.
\<close>

definition demo_user :: UserInfo where
  "demo_user = \<lparr>ui_Id = 100, ui_Uuid = ''u1'', ui_SpeedLimit = 0, ui_DeviceLimit = 2, ui_Key = ''''\<rparr>"

definition demo_limiter :: Limiter where
  "demo_limiter = new_limiter ''v2ray'' ''t'' [demo_user] [100 \<mapsto> 2] 0 0"

lemma demo_limiter_fields:
  "lim_UserLimitInfo demo_limiter = [''t|u1'' \<mapsto> \<lparr>uli_UID = 100, uli_SpeedLimit = 0, uli_DeviceLimit = 2,
     uli_DynamicSpeedLimit = 0, uli_ExpireTime = 0, uli_OverLimit = False\<rparr>]"
  "lim_AliveList demo_limiter = [100 \<mapsto> 2]" "lim_OldUserOnline demo_limiter = Map.empty"
  "lim_UserOnlineIP demo_limiter = Map.empty" "lim_SpeedLimit demo_limiter = 0"
  "lim_Nodetype demo_limiter = ''v2ray''" "lim_SpeedLimiter demo_limiter = Map.empty"
  by (simp_all add: demo_limiter_def new_limiter_def add_limit_entry_def new_user_limit_def
        demo_user_def UserTag_def)

lemma TrimPrefix_plain: "TrimPrefix ''9.9.9.9'' ''::ffff:'' = ''9.9.9.9''"
  by (simp add: TrimPrefix_def)

section \<open>Admission of devices\<close>

lemma CheckLimit_rejected_state:
  assumes "lim_UserLimitInfo l tu = Some u" and "checks_devices nu l"
    and "CheckLimit now race tu ip nu l = ((d, True), l')"
  shows "d = None \<and> l' = (after_race race tu l)
     \<lparr>lim_UserLimitInfo := (lim_UserLimitInfo l)(tu \<mapsto> snd (effective_user_limit now u))\<rparr>"
proof -
  obtain ul u' where e: "effective_user_limit now u = (ul, u')" by fastforce
  define l1 where "l1 = l\<lparr>lim_UserLimitInfo := (lim_UserLimitInfo l)(tu \<mapsto> u')\<rparr>"
  obtain r l2 where dv: "check_device race tu (TrimPrefix ip ''::ffff:'') (uli_UID u)
      (uli_DeviceLimit u) (getAliveIp (uli_UID u) l) l1 = (r, l2)" by fastforce
  have "r" "d = None" "l' = l2"
    using CheckLimit_known [OF assms(1) e l1_def, of nu race ip r l2] dv assms(2,3)
    by (auto split: if_splits prod.splits)
  moreover have "l2 = after_race race tu l1" if r
    using check_device_rejected_state [of race tu "TrimPrefix ip ''::ffff:''" "uli_UID u" "uli_DeviceLimit u"
        "getAliveIp (uli_UID u) l" l1] dv that by simp
  moreover have "after_race race tu l1 = (after_race race tu l)\<lparr>lim_UserLimitInfo := (lim_UserLimitInfo l)(tu \<mapsto> u')\<rparr>"
    by (simp add: after_race_def l1_def split: option.split)
  ultimately show ?thesis using e by simp
qed

lemma CheckLimit_accepted_tracked:
  assumes "lim_UserLimitInfo l tu = Some u" and "checks_devices nu l"
    and "CheckLimit now race tu ip nu l = ((d, False), l')" and "a = TrimPrefix ip ''::ffff:''"
  shows "lim_UserOnlineIP l' = (lim_UserOnlineIP l)
     (tu \<mapsto> (if online_map race tu l a = None then (online_map race tu l)(a \<mapsto> uli_UID u) else online_map race tu l))"
proof -
  obtain ul u' where e: "effective_user_limit now u = (ul, u')" by fastforce
  define l1 where "l1 = l\<lparr>lim_UserLimitInfo := (lim_UserLimitInfo l)(tu \<mapsto> u')\<rparr>"
  obtain r l2 where dv: "check_device race tu a (uli_UID u)
      (uli_DeviceLimit u) (getAliveIp (uli_UID u) l) l1 = (r, l2)" by fastforce
  have "\<not> r" and l2: "lim_UserOnlineIP l' = lim_UserOnlineIP l2"
    using CheckLimit_known [OF assms(1) e l1_def, of nu race ip r l2] dv assms(2,3,4)
    by (auto split: if_splits prod.splits dest: user_bucket_frame)
  moreover have "online_map race tu l1 = online_map race tu l" "lim_UserOnlineIP l1 = lim_UserOnlineIP l"
    by (simp_all add: online_map_def l1_def)
  ultimately show ?thesis
    using check_device_accepted_state [of race tu a "uli_UID u" "uli_DeviceLimit u"
        "getAliveIp (uli_UID u) l" l1] dv by simp
qed

text \<open>
  Claim C1. For a known user on a connection whose devices are counted, and whether or not another
  connection stores the user's first address map in the middle of the check, \<open>CheckLimit\<close> refuses exactly
  the addresses that are not tracked for the user this cycle, were not online in the previous cycle, and
  come while the panel's count of the user's devices has reached a positive device limit. A refused
  connection gets no bucket and leaves the limiter as it found it (with the map of the winner of the race,
  if there was one), except that a dynamic limit of the user that has run out is cleared. After an
  accepted one the user's tracked addresses are those found and this one.
\<close>

theorem device_admission:
  assumes "lim_UserLimitInfo l tu = Some u" and "checks_devices nu l"
    and "CheckLimit now race tu ip nu l = ((d, rejected), l')" and "a = TrimPrefix ip ''::ffff:''"
  shows "(rejected \<longleftrightarrow> online_map race tu l a = None \<and> over_device_limit a u l)
       \<and> (rejected \<longrightarrow> d = None \<and> l' = (after_race race tu l)
             \<lparr>lim_UserLimitInfo := (lim_UserLimitInfo l)(tu \<mapsto> snd (effective_user_limit now u))\<rparr>)
       \<and> (\<not> rejected \<longrightarrow> lim_UserOnlineIP l' = (lim_UserOnlineIP l)
             (tu \<mapsto> (if online_map race tu l a = None then (online_map race tu l)(a \<mapsto> uli_UID u)
                    else online_map race tu l)))"
proof (intro conjI impI)
  show "rejected \<longleftrightarrow> online_map race tu l a = None \<and> over_device_limit a u l"
    using CheckLimit_rejects_iff [OF assms(1,2), of now race ip] assms(3,4) by simp
next
  assume rejected
  then show "d = None"
    "l' = (after_race race tu l)\<lparr>lim_UserLimitInfo := (lim_UserLimitInfo l)(tu \<mapsto> snd (effective_user_limit now u))\<rparr>"
    using assms(3) CheckLimit_rejected_state [OF assms(1,2), of now race ip d l'] by simp_all
next
  assume "\<not> rejected"
  then show "lim_UserOnlineIP l' = (lim_UserOnlineIP l)
     (tu \<mapsto> (if online_map race tu l a = None then (online_map race tu l)(a \<mapsto> uli_UID u) else online_map race tu l))"
    using CheckLimit_accepted_tracked [OF assms(1,2) _ assms(4), of now race d l'] assms(3) by simp
qed

theorem device_admission_witness:
  "checks_devices True demo_limiter \<and> snd (fst (CheckLimit 0 None ''t|u1'' ''9.9.9.9'' True demo_limiter))"
proof -
  obtain d r l' where c: "CheckLimit 0 None ''t|u1'' ''9.9.9.9'' True demo_limiter = ((d, r), l')"
    by (metis prod.exhaust)
  have "checks_devices True demo_limiter" by (simp add: checks_devices_def)
  with device_admission [OF _ this c refl] show ?thesis
    by (simp add: c demo_limiter_fields online_map_def over_device_limit_def getAliveIp_def TrimPrefix_plain)
qed

text \<open>
  Losing the race for the first address map of a user is the same as running after the winner: if
  another connection stores the map \<open>m\<close> between the load and the \<open>LoadOrStore\<close>, the result and the
  state are those of a check that starts when \<open>m\<close> is already there.
\<close>

theorem lost_race_linearizes:
  assumes "lim_UserOnlineIP l tu = None"
  shows "lim_UserLimitInfo l tu = Some u \<and> checks_devices nu l \<longrightarrow>
     CheckLimit now (Some m) tu ip nu l =
     CheckLimit now None tu ip nu (l\<lparr>lim_UserOnlineIP := (lim_UserOnlineIP l)(tu \<mapsto> m)\<rparr>)"
proof (intro impI, elim conjE)
  assume u: "lim_UserLimitInfo l tu = Some u" and "checks_devices nu l"
  have comm: "l\<lparr>lim_UserLimitInfo := x, lim_UserOnlineIP := y\<rparr> = l\<lparr>lim_UserOnlineIP := y, lim_UserLimitInfo := x\<rparr>" for x y
    by simp
  show "CheckLimit now (Some m) tu ip nu l =
     CheckLimit now None tu ip nu (l\<lparr>lim_UserOnlineIP := (lim_UserOnlineIP l)(tu \<mapsto> m)\<rparr>)"
    using assms u \<open>checks_devices nu l\<close>
    by (simp add: CheckLimit_def check_device_def checks_devices_def getAliveIp_def Let_def comm split: prod.split)
qed

theorem lost_race_linearizes_witness:
  "CheckLimit 0 (Some [''9.9.9.9'' \<mapsto> 100]) ''t|u1'' ''9.9.9.9'' True demo_limiter =
   CheckLimit 0 None ''t|u1'' ''9.9.9.9'' True (demo_limiter\<lparr>lim_UserOnlineIP := [''t|u1'' \<mapsto> [''9.9.9.9'' \<mapsto> 100]]\<rparr>)"
proof -
  have "lim_UserOnlineIP demo_limiter ''t|u1'' = None" by (simp add: demo_limiter_fields)
  from lost_race_linearizes [OF this, of _ True 0 "[''9.9.9.9'' \<mapsto> 100]" "''9.9.9.9''"] show ?thesis
    by (simp add: demo_limiter_fields checks_devices_def)
qed

section \<open>Online devices and the change of cycle\<close>

lemma set_ips_of:
  assumes "range_order (iorder k) ipMap"
  shows "set (ips_of iorder k ipMap) = {\<lparr>ou_UID = uid, ou_IP = ip\<rparr> | ip uid. ipMap ip = Some uid}"
proof -
  have "set (range_fold (\<lambda>ip uid acc. acc @ [\<lparr>ou_UID = uid, ou_IP = ip\<rparr>]) ks ipMap acc) =
      set acc \<union> {\<lparr>ou_UID = uid, ou_IP = ip\<rparr> | ip uid. ip \<in> set ks \<and> ipMap ip = Some uid}" for ks acc
    by (induction ks arbitrary: acc) (auto split: option.splits)
  then show ?thesis using assms by (auto simp: ips_of_def range_order_def)
qed

lemma set_online:
  assumes "range_order order M" and "\<And>k m. M k = Some m \<Longrightarrow> range_order (iorder k) m"
  shows "set (range_fold (\<lambda>k ipMap acc. acc @ ips_of iorder k ipMap) order M []) =
     {\<lparr>ou_UID = uid, ou_IP = ip\<rparr> | k m ip uid. M k = Some m \<and> m ip = Some uid}"
proof -
  have fold: "x \<in> set (range_fold (\<lambda>k ipMap acc. acc @ ips_of iorder k ipMap) ks M acc) \<longleftrightarrow>
      x \<in> set acc \<or> (\<exists>k \<in> set ks. \<exists>m. M k = Some m \<and> x \<in> set (ips_of iorder k m))" for x ks acc
    by (induction ks arbitrary: acc) (auto split: option.splits)
  have ips: "x \<in> set (ips_of iorder k m) \<longleftrightarrow> (\<exists>ip uid. x = \<lparr>ou_UID = uid, ou_IP = ip\<rparr> \<and> m ip = Some uid)"
    if "M k = Some m" for x k m
    using set_ips_of [of iorder k m] assms(2) [OF that] by simp
  have order: "set order = dom M"
    using assms(1) by (simp add: range_order_def)
  show ?thesis
  proof (intro set_eqI iffI)
    fix x assume "x \<in> set (range_fold (\<lambda>k ipMap acc. acc @ ips_of iorder k ipMap) order M [])"
    then obtain k m where "M k = Some m" and "x \<in> set (ips_of iorder k m)" by (auto simp: fold)
    then show "x \<in> {\<lparr>ou_UID = uid, ou_IP = ip\<rparr> | k m ip uid. M k = Some m \<and> m ip = Some uid}"
      using ips by blast
  next
    fix x assume "x \<in> {\<lparr>ou_UID = uid, ou_IP = ip\<rparr> | k m ip uid. M k = Some m \<and> m ip = Some uid}"
    then obtain k m ip uid where k: "M k = Some m" and "x = \<lparr>ou_UID = uid, ou_IP = ip\<rparr>" "m ip = Some uid" by blast
    then have "x \<in> set (ips_of iorder k m)" using ips [OF k] by blast
    with k show "x \<in> set (range_fold (\<lambda>k ipMap acc. acc @ ips_of iorder k ipMap) order M [])"
      by (auto simp: fold order)
  qed
qed

lemma dom_store_devices:
  "dom (fold (\<lambda>d m. m(ou_IP d \<mapsto> ou_UID d)) ds m) = ou_IP ` set ds \<union> dom m"
  by (induction ds arbitrary: m) auto

text \<open>
  \<open>GetOnlineDevice\<close>, whatever the order of its iterations, reports exactly the tracked pairs of user
  and address, remembers exactly their addresses as the previous cycle, and leaves no address tracked.
\<close>

theorem online_report_exact:
  assumes "range_order order (lim_UserOnlineIP l)"
    and "\<And>k m. lim_UserOnlineIP l k = Some m \<Longrightarrow> range_order (iorder k) m"
    and "GetOnlineDevice order iorder l = (devices, l')"
  shows "set devices = {\<lparr>ou_UID = uid, ou_IP = ip\<rparr> | k m ip uid. lim_UserOnlineIP l k = Some m \<and> m ip = Some uid}
     \<and> dom (lim_OldUserOnline l') = ou_IP ` set devices
     \<and> lim_UserOnlineIP l' = Map.empty"
proof (intro conjI)
  from assms(3) have ds: "devices = range_fold (\<lambda>k ipMap acc. acc @ ips_of iorder k ipMap) order (lim_UserOnlineIP l) []"
    and old: "lim_OldUserOnline l' = fold (\<lambda>d m. m(ou_IP d \<mapsto> ou_UID d)) devices Map.empty"
    and on: "lim_UserOnlineIP l' = fold (\<lambda>k m. map_del m k) order (lim_UserOnlineIP l)"
    by (auto simp: GetOnlineDevice_def Let_def)
  show "set devices = {\<lparr>ou_UID = uid, ou_IP = ip\<rparr> | k m ip uid. lim_UserOnlineIP l k = Some m \<and> m ip = Some uid}"
    unfolding ds using assms(1,2) by (rule set_online)
  show "dom (lim_OldUserOnline l') = ou_IP ` set devices"
    by (simp add: old dom_store_devices)
  show "lim_UserOnlineIP l' = Map.empty"
    using assms(1) by (auto simp: on fold_map_del range_order_def fun_eq_iff domIff)
qed

definition demo_online :: Limiter where
  "demo_online = demo_limiter\<lparr>lim_UserOnlineIP := [''t|u1'' \<mapsto> [''1.1.1.1'' \<mapsto> 100]]\<rparr>"

theorem online_report_exact_witness:
  "range_order [''t|u1''] (lim_UserOnlineIP demo_online)
   \<and> lim_UserOnlineIP (snd (GetOnlineDevice [''t|u1''] (\<lambda>_. [''1.1.1.1'']) demo_online)) = Map.empty"
proof -
  have r: "range_order [''t|u1''] (lim_UserOnlineIP demo_online)"
    by (simp add: range_order_def demo_online_def)
  moreover have "range_order ((\<lambda>_. [''1.1.1.1'']) k) m" if "lim_UserOnlineIP demo_online k = Some m" for k :: string and m
    using that by (auto simp: range_order_def demo_online_def split: if_splits)
  ultimately have "lim_UserOnlineIP (snd (GetOnlineDevice [''t|u1''] (\<lambda>_. [''1.1.1.1'']) demo_online)) = Map.empty"
    using online_report_exact [of "[''t|u1'']" demo_online "\<lambda>_. [''1.1.1.1'']"
        "fst (GetOnlineDevice [''t|u1''] (\<lambda>_. [''1.1.1.1'']) demo_online)"
        "snd (GetOnlineDevice [''t|u1''] (\<lambda>_. [''1.1.1.1'']) demo_online)"] by simp
  with r show ?thesis by blast
qed

text \<open>
  A device that was online when the cycle changed is admitted by the next check, whatever the panel's
  new count of devices says and however small the device limit is: it never counts as a new device.
\<close>

theorem returning_device_admitted:
  assumes "range_order order (lim_UserOnlineIP l)"
    and "\<And>k m. lim_UserOnlineIP l k = Some m \<Longrightarrow> range_order (iorder k) m"
    and "lim_UserOnlineIP l tu' = Some m" and "m (TrimPrefix ip ''::ffff:'') = Some uid"
    and "lim_UserLimitInfo l tu \<noteq> None"
  shows "\<not> snd (fst (CheckLimit now None tu ip nu (UpdateAliveList alive (snd (GetOnlineDevice order iorder l)))))"
proof -
  let ?ip = "TrimPrefix ip ''::ffff:''"
  obtain ds l1 where g: "GetOnlineDevice order iorder l = (ds, l1)" by fastforce
  let ?l = "UpdateAliveList alive l1"
  have "\<lparr>ou_UID = uid, ou_IP = ?ip\<rparr> \<in> set ds"
    using set_online [where iorder = iorder, OF assms(1) assms(2)] assms(3,4) g by (auto simp: GetOnlineDevice_def Let_def)
  then have old: "lim_OldUserOnline ?l ?ip \<noteq> None"
    using g dom_store_devices [of ds Map.empty]
    by (force simp: GetOnlineDevice_def Let_def UpdateAliveList_def)
  obtain u where u: "lim_UserLimitInfo ?l tu = Some u"
    using assms(5) g by (auto simp: GetOnlineDevice_def Let_def UpdateAliveList_def)
  show ?thesis
  proof (cases "checks_devices nu ?l")
    case True
    from CheckLimit_rejects_iff [OF u this, of now None ip] old show ?thesis
      by (simp add: g over_device_limit_def)
  next
    case False
    with u g show ?thesis
      by (auto simp: CheckLimit_def checks_devices_def Let_def UpdateAliveList_def split: prod.splits)
  qed
qed

theorem returning_device_admitted_witness:
  "\<not> snd (fst (CheckLimit 5 None ''t|u1'' ''1.1.1.1'' True
      (UpdateAliveList [100 \<mapsto> 9] (snd (GetOnlineDevice [''t|u1''] (\<lambda>_. [''1.1.1.1'']) demo_online)))))"
proof -
  have r: "range_order [''t|u1''] (lim_UserOnlineIP demo_online)"
    by (simp add: range_order_def demo_online_def)
  moreover have "range_order ((\<lambda>_. [''1.1.1.1'']) k) m" if "lim_UserOnlineIP demo_online k = Some m" for k :: string and m
    using that by (auto simp: range_order_def demo_online_def split: if_splits)
  moreover have "lim_UserOnlineIP demo_online ''t|u1'' = Some [''1.1.1.1'' \<mapsto> 100]"
    by (simp add: demo_online_def)
  moreover have "[''1.1.1.1'' \<mapsto> 100] (TrimPrefix ''1.1.1.1'' ''::ffff:'') = Some (100 :: int)"
    by (simp add: TrimPrefix_def)
  moreover have "lim_UserLimitInfo demo_online ''t|u1'' \<noteq> None"
    by (simp add: demo_online_def demo_limiter_fields)
  ultimately show ?thesis
    using returning_device_admitted [of "[''t|u1'']" demo_online "\<lambda>_. [''1.1.1.1'']"] by blast
qed

lemma CheckLimit_old_owner:
  assumes "lim_UserLimitInfo l k = Some u" and "lim_OldUserOnline l (TrimPrefix ip ''::ffff:'') = Some (uli_UID u)"
    and "lim_UserOnlineIP l k = None" and "checks_devices nu l"
    and "CheckLimit now None k ip nu l = ((d, r), l')"
  shows "\<not> r \<and> lim_OldUserOnline l' = map_del (lim_OldUserOnline l) (TrimPrefix ip ''::ffff:'')"
proof -
  obtain ul u' where e: "effective_user_limit now u = (ul, u')" by fastforce
  define l1 where "l1 = l\<lparr>lim_UserLimitInfo := (lim_UserLimitInfo l)(k \<mapsto> u')\<rparr>"
  obtain q l2 where dv: "check_device None k (TrimPrefix ip ''::ffff:'') (uli_UID u)
      (uli_DeviceLimit u) (getAliveIp (uli_UID u) l) l1 = (q, l2)" by fastforce
  have "\<not> q" and "lim_OldUserOnline l2 = map_del (lim_OldUserOnline l) (TrimPrefix ip ''::ffff:'')"
    using dv assms(2,3) by (auto simp: check_device_def admit_new_ip_def l1_def Let_def)
  then show ?thesis
    using CheckLimit_known [OF assms(1) e l1_def, of nu None ip q l2] dv assms(4,5)
    by (auto split: prod.splits dest: user_bucket_frame)
qed

lemma CheckLimit_frame:
  assumes "CheckLimit now race tu ip nu l = ((d, r), l')"
  shows "lim_AliveList l' = lim_AliveList l" "lim_Nodetype l' = lim_Nodetype l"
    "tu' \<noteq> tu \<Longrightarrow> lim_UserLimitInfo l' tu' = lim_UserLimitInfo l tu'"
    "tu' \<noteq> tu \<Longrightarrow> lim_UserOnlineIP l' tu' = lim_UserOnlineIP l tu'"
    "dom (lim_UserLimitInfo l') = dom (lim_UserLimitInfo l)"
proof -
  have "lim_AliveList l' = lim_AliveList l \<and> lim_Nodetype l' = lim_Nodetype l
      \<and> (tu' \<noteq> tu \<longrightarrow> lim_UserLimitInfo l' tu' = lim_UserLimitInfo l tu' \<and> lim_UserOnlineIP l' tu' = lim_UserOnlineIP l tu')
      \<and> dom (lim_UserLimitInfo l') = dom (lim_UserLimitInfo l)"
  proof (cases "lim_UserLimitInfo l tu")
    case None
    with assms show ?thesis by (simp add: CheckLimit_def)
  next
    case (Some u)
    obtain ul u' where e: "effective_user_limit now u = (ul, u')" by fastforce
    define l1 where "l1 = l\<lparr>lim_UserLimitInfo := (lim_UserLimitInfo l)(tu \<mapsto> u')\<rparr>"
    obtain q l2 where dv: "(if checks_devices nu l then check_device race tu (TrimPrefix ip ''::ffff:'') (uli_UID u)
        (uli_DeviceLimit u) (getAliveIp (uli_UID u) l) l1 else (False, l1)) = (q, l2)" by fastforce
    have l1: "lim_AliveList l1 = lim_AliveList l" "lim_Nodetype l1 = lim_Nodetype l"
      "tu' \<noteq> tu \<Longrightarrow> lim_UserLimitInfo l1 tu' = lim_UserLimitInfo l tu'" "lim_UserOnlineIP l1 = lim_UserOnlineIP l"
      "dom (lim_UserLimitInfo l1) = dom (lim_UserLimitInfo l)"
      using Some by (auto simp: l1_def)
    have l2: "lim_AliveList l2 = lim_AliveList l1" "lim_Nodetype l2 = lim_Nodetype l1" "lim_UserLimitInfo l2 = lim_UserLimitInfo l1"
      "tu' \<noteq> tu \<Longrightarrow> lim_UserOnlineIP l2 tu' = lim_UserOnlineIP l1 tu'"
      using dv check_device_frame [of race tu _ _ _ _ l1 q l2] by (auto split: if_splits)
    show ?thesis
    proof (cases q)
      case True
      with CheckLimit_known [OF Some e l1_def dv] assms have "l' = l2" by simp
      with l1 l2 show ?thesis by simp
    next
      case False
      with CheckLimit_known [OF Some e l1_def dv] assms obtain lim where b: "user_bucket tu lim l2 = (d, l')"
        by (auto split: prod.splits)
      have "lim_Nodetype l' = lim_Nodetype l2"
        using b by (auto simp: user_bucket_def NewDynamicBucket_def split: if_splits option.splits)
      with user_bucket_frame [OF b] l1 l2 show ?thesis by simp
    qed
  qed
  then show "lim_AliveList l' = lim_AliveList l" "lim_Nodetype l' = lim_Nodetype l"
    "tu' \<noteq> tu \<Longrightarrow> lim_UserLimitInfo l' tu' = lim_UserLimitInfo l tu'"
    "tu' \<noteq> tu \<Longrightarrow> lim_UserOnlineIP l' tu' = lim_UserOnlineIP l tu'"
    "dom (lim_UserLimitInfo l') = dom (lim_UserLimitInfo l)" by simp_all
qed

text \<open>
  The list of the previous cycle has one entry per address, so two users behind one address
  displace each other: once the user the entry names has reconnected, the other user, whose device was
  online as well, is refused at its device limit.
\<close>

theorem shared_address_displaced:
  assumes "lim_UserLimitInfo l k1 = Some u1" and "lim_UserLimitInfo l k2 = Some u2" and "k1 \<noteq> k2"
    and "lim_OldUserOnline l (TrimPrefix ip ''::ffff:'') = Some (uli_UID u2)"
    and "lim_UserOnlineIP l = Map.empty" and "checks_devices nu l"
    and "0 < uli_DeviceLimit u1" and "uli_DeviceLimit u1 \<le> getAliveIp (uli_UID u1) l"
    and "CheckLimit now None k2 ip nu l = ((d, r), l')"
  shows "\<not> r \<and> snd (fst (CheckLimit now' None k1 ip nu l'))"
proof -
  note own = CheckLimit_old_owner [OF assms(2,4) _ assms(6,9)]
  note fr = CheckLimit_frame [OF assms(9)]
  have "\<not> r" and old: "lim_OldUserOnline l' (TrimPrefix ip ''::ffff:'') = None"
    using own assms(5) by simp_all
  have u1: "lim_UserLimitInfo l' k1 = Some u1" "lim_UserOnlineIP l' k1 = None" "checks_devices nu l'"
    using fr(2) fr(3) [OF assms(3)] fr(4) [OF assms(3)] assms(1,5,6) by (simp_all add: checks_devices_def)
  have "getAliveIp (uli_UID u1) l' = getAliveIp (uli_UID u1) l" using fr(1) by (simp add: getAliveIp_def)
  then have "snd (fst (CheckLimit now' None k1 ip nu l'))"
    using CheckLimit_rejects_iff [OF u1(1,3), of now' None ip] u1(2) old assms(7,8)
    by (simp add: online_map_def over_device_limit_def)
  with \<open>\<not> r\<close> show ?thesis by simp
qed

definition demo_pair :: Limiter where
  "demo_pair = (new_limiter ''v2ray'' ''t''
      [\<lparr>ui_Id = 100, ui_Uuid = ''u1'', ui_SpeedLimit = 0, ui_DeviceLimit = 1, ui_Key = []\<rparr>,
       \<lparr>ui_Id = 200, ui_Uuid = ''u2'', ui_SpeedLimit = 0, ui_DeviceLimit = 1, ui_Key = []\<rparr>]
      [100 \<mapsto> 1, 200 \<mapsto> 1] 0 0)\<lparr>lim_OldUserOnline := [''1.1.1.1'' \<mapsto> 200]\<rparr>"

theorem shared_address_displaced_witness:
  "snd (fst (CheckLimit 0 None ''t|u1'' ''1.1.1.1'' True (snd (CheckLimit 0 None ''t|u2'' ''1.1.1.1'' True demo_pair))))"
proof -
  let ?u1 = "\<lparr>uli_UID = 100, uli_SpeedLimit = 0, uli_DeviceLimit = 1, uli_DynamicSpeedLimit = 0, uli_ExpireTime = 0, uli_OverLimit = False\<rparr>"
  let ?u2 = "\<lparr>uli_UID = 200, uli_SpeedLimit = 0, uli_DeviceLimit = 1, uli_DynamicSpeedLimit = 0, uli_ExpireTime = 0, uli_OverLimit = False\<rparr>"
  have info: "lim_UserLimitInfo demo_pair ''t|u1'' = Some ?u1" "lim_UserLimitInfo demo_pair ''t|u2'' = Some ?u2"
    "lim_UserOnlineIP demo_pair = Map.empty" "lim_AliveList demo_pair = [100 \<mapsto> 1, 200 \<mapsto> 1]"
    by (simp_all add: demo_pair_def new_limiter_def add_limit_entry_def new_user_limit_def UserTag_def)
  have old: "lim_OldUserOnline demo_pair (TrimPrefix ''1.1.1.1'' ''::ffff:'') = Some (uli_UID ?u2)"
    by (simp add: demo_pair_def TrimPrefix_def)
  have alive: "uli_DeviceLimit ?u1 \<le> getAliveIp (uli_UID ?u1) demo_pair"
    by (simp add: getAliveIp_def info)
  have chk: "checks_devices True demo_pair" by (simp add: checks_devices_def)
  have c: "CheckLimit 0 None ''t|u2'' ''1.1.1.1'' True demo_pair =
      ((fst (fst (CheckLimit 0 None ''t|u2'' ''1.1.1.1'' True demo_pair)),
        snd (fst (CheckLimit 0 None ''t|u2'' ''1.1.1.1'' True demo_pair))),
       snd (CheckLimit 0 None ''t|u2'' ''1.1.1.1'' True demo_pair))" by simp
  show ?thesis
    by (rule conjunct2 [OF shared_address_displaced [OF info(1,2) _ old info(3) chk _ alive c]]) simp_all
qed

section \<open>Speed limits of live connections\<close>

lemma SetDynamic_frame:
  "lim_SpeedLimiter (SetDynamicSpeedLimitByUID ks uid limit expire l) = lim_SpeedLimiter l"
  "lim_Buckets (SetDynamicSpeedLimitByUID ks uid limit expire l) = lim_Buckets l"
  by (induction ks uid limit expire l rule: SetDynamicSpeedLimitByUID.induct) (auto split: option.splits)

lemma CheckLimit_keeps_bucket:
  assumes "lim_SpeedLimiter l tu = Some b" and "CheckLimit now race tu ip nu l = ((d, r), l')"
  shows "(d = None \<or> d = Some b) \<and> lim_Buckets l' = lim_Buckets l \<and> lim_SpeedLimiter l' = lim_SpeedLimiter l"
proof (cases "lim_UserLimitInfo l tu")
  case None
  with assms show ?thesis by (simp add: CheckLimit_def)
next
  case (Some u)
  obtain ul u' where e: "effective_user_limit now u = (ul, u')" by fastforce
  define l1 where "l1 = l\<lparr>lim_UserLimitInfo := (lim_UserLimitInfo l)(tu \<mapsto> u')\<rparr>"
  obtain q l2 where dv: "(if checks_devices nu l then check_device race tu (TrimPrefix ip ''::ffff:'') (uli_UID u)
      (uli_DeviceLimit u) (getAliveIp (uli_UID u) l) l1 else (False, l1)) = (q, l2)" by fastforce
  have l2: "lim_SpeedLimiter l2 = lim_SpeedLimiter l" "lim_Buckets l2 = lim_Buckets l"
    using dv check_device_frame [of race tu _ _ _ _ l1 q l2] by (auto simp: l1_def split: if_splits)
  show ?thesis
    using CheckLimit_known [OF Some e l1_def dv] assms l2
    by (auto simp: user_bucket_def split: if_splits prod.splits)
qed

text \<open>
  A dynamic limit set for a user that already has a bucket never takes effect on the speed: every later
  check of that user hands out either no bucket at all or the bucket it already had, at the rate it had
  before the limit was set.
\<close>

theorem dynamic_limit_keeps_bucket_rate:
  assumes "lim_SpeedLimiter l tu = Some b"
    and "CheckLimit now race tu ip nu (SetDynamicSpeedLimitByUID ks uid limit expire l) = ((d, r), l')"
  shows "(d = None \<or> d = Some b) \<and> cell_rate (lim_Buckets l') b = cell_rate (lim_Buckets l) b"
  using CheckLimit_keeps_bucket [OF _ assms(2), of b] assms(1) by (simp add: SetDynamic_frame)

definition demo_bucketed :: Limiter where
  "demo_bucketed = snd (CheckLimit 0 None ''t|u1'' ''1.1.1.1'' True
     (new_limiter ''v2ray'' ''t''
       [\<lparr>ui_Id = 100, ui_Uuid = ''u1'', ui_SpeedLimit = 50, ui_DeviceLimit = 0, ui_Key = []\<rparr>] Map.empty 0 0))"

lemmas check_eval = CheckLimit_def new_limiter_def add_limit_entry_def new_user_limit_def
  UserTag_def effective_user_limit_def determineSpeedLimit_def checks_devices_def check_device_def
  known_ip_map_def admit_new_ip_def user_bucket_def NewDynamicBucket_def NewBucketWithQuantum_def
  empty_store_def cell_rate_def TrimPrefix_def bytes_per_second_exact Let_def

lemma demo_bucketed_fields:
  "lim_SpeedLimiter demo_bucketed = [''t|u1'' \<mapsto> 0]" "cell_rate (lim_Buckets demo_bucketed) 0 = Some 6250000"
  "lim_UserLimitInfo demo_bucketed ''t|u1'' = Some \<lparr>uli_UID = 100, uli_SpeedLimit = 50, uli_DeviceLimit = 0,
     uli_DynamicSpeedLimit = 0, uli_ExpireTime = 0, uli_OverLimit = False\<rparr>"
  "lim_SpeedLimit demo_bucketed = 0" "lim_OldUserOnline demo_bucketed = Map.empty"
  "lim_UserOnlineIP demo_bucketed = [''t|u1'' \<mapsto> [''1.1.1.1'' \<mapsto> 100]]"
  by (simp_all add: demo_bucketed_def check_eval)

theorem dynamic_limit_keeps_bucket_rate_witness:
  "\<exists>l'. CheckLimit 10 None ''t|u1'' ''1.1.1.1'' True (SetDynamicSpeedLimitByUID [''t|u1''] 100 1 999 demo_bucketed)
      = ((Some 0, False), l') \<and> cell_rate (lim_Buckets l') 0 = Some 6250000"
proof -
  let ?l = "SetDynamicSpeedLimitByUID [''t|u1''] 100 1 999 demo_bucketed"
  obtain d r l' where c: "CheckLimit 10 None ''t|u1'' ''1.1.1.1'' True ?l = ((d, r), l')" by (metis prod.exhaust)
  have b: "lim_SpeedLimiter demo_bucketed ''t|u1'' = Some 0" by (simp add: demo_bucketed_fields)
  have "d = Some 0 \<and> \<not> r"
    using c by (auto simp: demo_bucketed_fields check_eval)
  with dynamic_limit_keeps_bucket_rate [OF b c] c show ?thesis by (simp add: demo_bucketed_fields)
qed

section \<open>User updates\<close>

text \<open>
  \<open>UpdateUser\<close> with the lists a comparison of user lists produces (no user in two of them, no user
  twice): afterwards the known users are those before, without the deleted and with the added ones; a
  deleted user is in none of the maps; an added user has the limits of its panel entry with the node's
  fallback for the device limit; the tracked addresses of everybody else are untouched.
\<close>

theorem update_user_effect:
  assumes "distinct (map ui_Uuid added)" and "uuids deleted \<inter> uuids added = {}"
    and "uuids deleted \<inter> uuids modified = {}"
    and "l' = UpdateUser tag added deleted modified l"
  shows "dom (lim_UserLimitInfo l') = (dom (lim_UserLimitInfo l) - user_keys tag deleted) \<union> user_keys tag added
     \<and> (\<forall>u \<in> set deleted. lim_UserLimitInfo l' (UserTag tag (ui_Uuid u)) = None
          \<and> lim_UserOnlineIP l' (UserTag tag (ui_Uuid u)) = None
          \<and> lim_SpeedLimiter l' (UserTag tag (ui_Uuid u)) = None \<and> lim_UUIDtoUID l' (ui_Uuid u) = None)
     \<and> (\<forall>u \<in> set added. lim_UUIDtoUID l' (ui_Uuid u) = Some (ui_Id u)
          \<and> lim_UserLimitInfo l' (UserTag tag (ui_Uuid u)) = Some (new_user_limit (lim_DeviceLimit l) u))
     \<and> (\<forall>k. k \<notin> user_keys tag deleted \<longrightarrow> lim_UserOnlineIP l' k = lim_UserOnlineIP l k)"
proof (intro conjI ballI allI impI)
  define l1 where "l1 = fold (delete_user tag) deleted l"
  define l2 where "l2 = fold (modify_user tag) modified l1"
  have l': "l' = fold (add_limit_entry tag) added l2"
    using assms(4) by (simp add: UpdateUser_def l1_def l2_def)
  note d = fold_delete_user [where tag = tag and us = deleted and l = l, folded l1_def]
  note m = fold_modify_user_frame [where tag = tag and us = modified and l = l1, folded l2_def]
  note a = fold_add_limit_entry [where tag = tag and us = added and l = l2, folded l']
  have "dom (lim_UserLimitInfo l1) = dom (lim_UserLimitInfo l) - user_keys tag deleted"
    by (auto simp: d(1) split: if_splits)
  then show "dom (lim_UserLimitInfo l') = (dom (lim_UserLimitInfo l) - user_keys tag deleted) \<union> user_keys tag added"
    by (simp add: a(11) m(7))
  { fix u assume u: "u \<in> set deleted"
    have ka: "UserTag tag (ui_Uuid u) \<notin> user_keys tag added" "ui_Uuid u \<notin> uuids added"
      and km: "UserTag tag (ui_Uuid u) \<notin> user_keys tag modified"
      using assms(2,3) u by auto
    show "lim_UserLimitInfo l' (UserTag tag (ui_Uuid u)) = None"
      "lim_UserOnlineIP l' (UserTag tag (ui_Uuid u)) = None"
      "lim_SpeedLimiter l' (UserTag tag (ui_Uuid u)) = None" "lim_UUIDtoUID l' (ui_Uuid u) = None"
      using u ka km by (simp_all add: a m d) }
  { fix u assume u: "u \<in> set added"
    have "lim_DeviceLimit l2 = lim_DeviceLimit l" by (simp add: m d)
    then show "lim_UUIDtoUID l' (ui_Uuid u) = Some (ui_Id u)"
      "lim_UserLimitInfo l' (UserTag tag (ui_Uuid u)) = Some (new_user_limit (lim_DeviceLimit l) u)"
      using fold_add_limit_entry_at [OF u assms(1), of tag l2] by (simp_all add: l') }
  { fix k assume "k \<notin> user_keys tag deleted"
    then show "lim_UserOnlineIP l' k = lim_UserOnlineIP l k" by (simp add: a m d) }
qed

theorem update_user_effect_witness:
  "dom (lim_UserLimitInfo (UpdateUser ''t'' [demo_user\<lparr>ui_Uuid := ''u9''\<rparr>] [demo_user] [] demo_limiter)) = {''t|u9''}"
proof -
  have "distinct (map ui_Uuid [demo_user\<lparr>ui_Uuid := ''u9''\<rparr>])"
    and "uuids [demo_user] \<inter> uuids [demo_user\<lparr>ui_Uuid := ''u9''\<rparr>] = {}" and "uuids [demo_user] \<inter> uuids [] = {}"
    by (simp_all add: demo_user_def)
  from update_user_effect [OF this refl, of "''t''" demo_limiter] show ?thesis
    by (simp add: demo_limiter_fields demo_user_def UserTag_def)
qed

text \<open>
  A changed speed limit reaches the connections that are already open: if the user of such a connection
  has the bucket cell \<open>d\<close>, the cell stays the user's cell and holds the rate of the smaller non-zero
  limit of node and user after \<open>UpdateUser\<close>.
\<close>

theorem modified_rate_reaches_connections:
  assumes "lim_inv l" and "u \<in> set modified" and "distinct (map ui_Uuid modified)"
    and "ui_Uuid u \<notin> uuids deleted"
    and "lim_SpeedLimiter l (UserTag tag (ui_Uuid u)) = Some d"
    and "rate = bytes_per_second (determineSpeedLimit (lim_SpeedLimit l) (ui_SpeedLimit u))" and "0 < rate"
  shows "lim_SpeedLimiter (UpdateUser tag added deleted modified l) (UserTag tag (ui_Uuid u)) = Some d
     \<and> cell_rate (lim_Buckets (UpdateUser tag added deleted modified l)) d = Some rate"
proof -
  define l1 where "l1 = fold (delete_user tag) deleted l"
  have "lim_inv l1" unfolding l1_def by (rule fold_lim_inv [OF lim_inv_delete_user assms(1)])
  moreover have "lim_SpeedLimiter l1 (UserTag tag (ui_Uuid u)) = Some d" "lim_SpeedLimit l1 = lim_SpeedLimit l"
    using assms(4,5) by (auto simp: l1_def fold_delete_user)
  ultimately show ?thesis
    using fold_modify_user_rate [OF _ assms(2,3), of l1 tag d] assms(6,7)
    by (simp add: UpdateUser_def fold_add_limit_entry l1_def [symmetric])
qed

theorem modified_rate_reaches_connections_witness:
  "cell_rate (lim_Buckets (UpdateUser ''t'' [] [] [demo_user\<lparr>ui_SpeedLimit := 8\<rparr>] demo_bucketed)) 0 = Some 1000000"
proof -
  have inv: "lim_inv demo_bucketed"
    unfolding demo_bucketed_def by (metis lim_inv_CheckLimit lim_inv_new_limiter prod.collapse)
  have "lim_SpeedLimiter demo_bucketed (UserTag ''t'' (ui_Uuid (demo_user\<lparr>ui_SpeedLimit := 8\<rparr>))) = Some 0"
    by (simp add: demo_bucketed_fields demo_user_def UserTag_def)
  moreover have "1000000 = bytes_per_second (determineSpeedLimit (lim_SpeedLimit demo_bucketed) (ui_SpeedLimit (demo_user\<lparr>ui_SpeedLimit := 8\<rparr>)))"
    by (simp add: demo_bucketed_fields determineSpeedLimit_def bytes_per_second_exact)
  ultimately show ?thesis
    using modified_rate_reaches_connections [OF inv, of "demo_user\<lparr>ui_SpeedLimit := 8\<rparr>"
        "[demo_user\<lparr>ui_SpeedLimit := 8\<rparr>]" "[]" "''t''" 0 1000000 "[]"] by simp
qed

section \<open>Runs\<close>

datatype limiter_call =
    Check int "(string \<rightharpoonup> int) option" string string bool
  | Update string "UserInfo list" "UserInfo list" "UserInfo list"
  | Alive "int \<rightharpoonup> int"
  | Dynamic "string list" int int int
  | Online "string list" "string \<Rightarrow> string list"

fun run_call :: "limiter_call \<Rightarrow> Limiter \<Rightarrow> Limiter" where
  "run_call (Check now race tu ip nu) l = snd (CheckLimit now race tu ip nu l)"
| "run_call (Update tag added deleted modified) l = UpdateUser tag added deleted modified l"
| "run_call (Alive a) l = UpdateAliveList a l"
| "run_call (Dynamic ks uid limit expire) l = SetDynamicSpeedLimitByUID ks uid limit expire l"
| "run_call (Online order iorder) l = snd (GetOnlineDevice order iorder l)"

lemma lim_inv_call: "lim_inv l \<Longrightarrow> lim_inv (run_call c l)"
  by (cases c) (auto simp: lim_inv_UpdateUser lim_inv_UpdateAliveList lim_inv_SetDynamic
      lim_inv_GetOnlineDevice intro: lim_inv_CheckLimit [OF _ prod.collapse [symmetric]])

text \<open>
  From the limiter \<open>AddLimiter\<close> creates, after any sequence of calls: every bucket a user has was created by
  this limiter and holds a positive rate, no two users share a bucket, and only known users are tracked as
  online.
\<close>

theorem limiter_runs_keep_invariant:
  "lim_inv (fold run_call calls (new_limiter nodetype tag users alive speedLimit deviceLimit))"
proof -
  have "lim_inv l \<Longrightarrow> lim_inv (fold run_call calls l)" for l
    by (induction calls arbitrary: l) (auto simp: lim_inv_call)
  then show ?thesis by (simp add: lim_inv_new_limiter)
qed

text \<open>
  The rate of a new bucket is exact as long as the limit is at most 9223372036854 Mbps; from the next
  value on the product overflows its 64 bits, the rate is not positive, and the check hands out no
  bucket at all.
\<close>

theorem rate_conversion_bounds:
  "(\<forall>m. 0 \<le> m \<and> m \<le> 9223372036854 \<longrightarrow> bytes_per_second m = m * 125000)
   \<and> bytes_per_second 9223372036855 < 0 \<and> fst (user_bucket tu (bytes_per_second 9223372036855) l) = None"
proof -
  have w: "bytes_per_second 9223372036855 < 0"
    by (simp add: bytes_per_second_def i64_def go_div_def signed_take_bit_eq_take_bit_shift take_bit_eq_mod)
  moreover have "\<forall>m. 0 \<le> m \<and> m \<le> 9223372036854 \<longrightarrow> bytes_per_second m = m * 125000"
    using bytes_per_second_exact by blast
  ultimately show ?thesis by (simp add: user_bucket_def)
qed

theorem rate_conversion_bounds_witness:
  "bytes_per_second 100 = 12500000 \<and> fst (user_bucket ''t|u1'' (bytes_per_second 9223372036855) demo_limiter) = None"
  using rate_conversion_bounds [of "''t|u1''" demo_limiter] by force

end
