(* ===== verification/Periodic_Task.thy ===== *)
theory Periodic_Task
  imports Go_Prelude
begin

text \<open>
  The periodic task of \<open>common/task/task.go\<close>: a ticker loop in its own goroutine, one watched execution per
  tick, and a stop that waits for the loop to end. The task object and its goroutines form a state
  machine whose steps are the atomic actions of the code (the sections under the lock, the two
  outcomes of each \<open>select\<close>). Channels are numbered; a channel is closed or not. A goroutine keeps the
  \<open>Done\<close> channel that the deferred \<open>close(t.Done)\<close> captured when it began, but reads \<open>t.Stop\<close> anew in every
  round, as the code does.
\<close>

section \<open>One execution\<close>

definition Minute :: int where "Minute = 60000000000"

text \<open>The deadline of one cycle: \<open>5 * t.Interval\<close> in 64-bit arithmetic, capped and never zero.\<close>

definition cycle_timeout :: "int \<Rightarrow> int" where
  "cycle_timeout interval =
     (let timeout = i64 (5 * interval);
          timeout = (if 5 * Minute < timeout then 5 * Minute else timeout)
      in if timeout \<le> 0 then Minute else timeout)"

text \<open>How \<open>Execute\<close> behaves: it returns nil, returns an error or panics after some time, or never ends.\<close>

datatype execution = Returns int | Fails int goerror | Panics int string | Hangs

datatype cycle_result = Completed | ErrorLogged goerror | PanicRecovered string | TimedOut int

text \<open>
  \<open>runOnce\<close>: what was logged and how long the loop was held. When the execution ends at the very
  deadline both cases of the \<open>select\<close> are ready; \<open>tie\<close> says which one is taken.
\<close>

definition finishes :: "int \<Rightarrow> int \<Rightarrow> bool \<Rightarrow> bool" where
  "finishes timeout d tie \<longleftrightarrow> d < timeout \<or> d = timeout \<and> tie"

definition runOnce :: "int \<Rightarrow> execution \<Rightarrow> bool \<Rightarrow> cycle_result \<times> int" where
  "runOnce interval e tie =
     (let timeout = cycle_timeout interval
      in case e of
           Returns d \<Rightarrow> if finishes timeout d tie then (Completed, d) else (TimedOut timeout, timeout)
         | Fails d err \<Rightarrow> if finishes timeout d tie then (ErrorLogged err, d) else (TimedOut timeout, timeout)
         | Panics d msg \<Rightarrow> if finishes timeout d tie then (PanicRecovered msg, d) else (TimedOut timeout, timeout)
         | Hangs \<Rightarrow> (TimedOut timeout, timeout))"

section \<open>The task as a state machine\<close>

datatype location = Begin bool | Cycling | Waiting | Exited

record task =
  tk_Running :: bool
  tk_Stop :: nat
  tk_Done :: nat
  tk_closed :: "nat set"
  tk_nextch :: nat
  tk_gor :: "nat \<rightharpoonup> location \<times> nat"
  tk_cycles :: nat
  tk_crashed :: bool

text \<open>Channel 0 stands for the nil channel of a task that was never started; it is never closed.\<close>

definition new_task :: task where
  "new_task = \<lparr>tk_Running = False, tk_Stop = 0, tk_Done = 0, tk_closed = {}, tk_nextch = 1,
     tk_gor = Map.empty, tk_cycles = 0, tk_crashed = False\<rparr>"

text \<open>\<open>Start\<close>: nothing when the task runs, otherwise two new channels and a new goroutine, numbered by its stop channel.\<close>

definition Start :: "bool \<Rightarrow> task \<Rightarrow> task" where
  "Start first t =
     (if tk_Running t then t
      else t\<lparr>tk_Running := True, tk_Stop := tk_nextch t, tk_Done := tk_nextch t + 1,
             tk_nextch := tk_nextch t + 2,
             tk_gor := (tk_gor t)(tk_nextch t \<mapsto> (Begin first, 0))\<rparr>)"

definition safeStop :: "task \<Rightarrow> task" where
  "safeStop t =
     (if tk_Running t then t\<lparr>tk_Running := False, tk_closed := insert (tk_Stop t) (tk_closed t)\<rparr> else t)"

text \<open>The steps of the goroutine \<open>g\<close>. Closing a closed channel panics and takes the process down.\<close>

inductive goroutine_step :: "nat \<Rightarrow> task \<Rightarrow> task \<Rightarrow> bool" where
  enter: "tk_gor t g = Some (Begin first, d) \<Longrightarrow>
     goroutine_step g t (t\<lparr>tk_gor := (tk_gor t)(g \<mapsto> (if first then Cycling else Waiting, tk_Done t))\<rparr>)"
| cycle: "tk_gor t g = Some (Cycling, d) \<Longrightarrow>
     goroutine_step g t (t\<lparr>tk_gor := (tk_gor t)(g \<mapsto> (Waiting, d)), tk_cycles := Suc (tk_cycles t)\<rparr>)"
| tick: "tk_gor t g = Some (Waiting, d) \<Longrightarrow>
     goroutine_step g t (t\<lparr>tk_gor := (tk_gor t)(g \<mapsto> (Cycling, d))\<rparr>)"
| leave: "tk_gor t g = Some (Waiting, d) \<Longrightarrow> tk_Stop t \<in> tk_closed t \<Longrightarrow>
     goroutine_step g t (t\<lparr>tk_gor := (tk_gor t)(g \<mapsto> (Exited, d)), tk_closed := insert d (tk_closed t),
                           tk_crashed := tk_crashed t \<or> d \<in> tk_closed t\<rparr>)"

text \<open>A step of the system: a goroutine moves, or some caller starts or stops the task.\<close>

inductive task_step :: "task \<Rightarrow> task \<Rightarrow> bool" where
  start: "task_step t (Start first t)"
| stop: "task_step t (safeStop t)"
| gor: "goroutine_step g t t' \<Longrightarrow> task_step t t'"

inductive_simps goroutine_step_simps: "goroutine_step g t t'"
inductive_cases task_stepE: "task_step t t'"

text \<open>\<open>Close\<close> returns when the \<open>Done\<close> channel is closed (or after thirty seconds without that).\<close>

definition close_returns :: "task \<Rightarrow> bool" where
  "close_returns t \<longleftrightarrow> tk_Done t = 0 \<or> tk_Done t \<in> tk_closed t"

text \<open>A task that is started once, as the controller starts each of its tasks.\<close>

inductive started_once :: "task \<Rightarrow> bool" where
  init: "started_once (Start first new_task)"
| stop: "started_once t \<Longrightarrow> started_once (safeStop t)"
| gor: "started_once t \<Longrightarrow> goroutine_step g t t' \<Longrightarrow> started_once t'"

inductive reachable_task :: "task \<Rightarrow> bool" where
  init: "reachable_task new_task"
| step: "reachable_task t \<Longrightarrow> task_step t t' \<Longrightarrow> reachable_task t'"

section \<open>Lemmas\<close>

lemma cycle_timeout_bounds: "0 < cycle_timeout i \<and> cycle_timeout i \<le> 5 * Minute"
  by (simp add: cycle_timeout_def Minute_def Let_def)

lemma runOnce_bound: "snd (runOnce i e tie) \<le> cycle_timeout i"
  by (auto simp: runOnce_def finishes_def Let_def split: execution.split)

text \<open>The invariant of a task that is started once: one goroutine, number 1, with the channels 1 and 2.\<close>

definition once_inv :: "task \<Rightarrow> bool" where
  "once_inv t \<longleftrightarrow> tk_Stop t = 1 \<and> tk_Done t = 2 \<and> tk_nextch t = 3 \<and> dom (tk_gor t) = {1} \<and> \<not> tk_crashed t
     \<and> (tk_Running t \<longleftrightarrow> 1 \<notin> tk_closed t) \<and> tk_closed t \<subseteq> {1, 2}
     \<and> (\<exists>loc d. tk_gor t 1 = Some (loc, d) \<and> ((\<exists>f. loc = Begin f) \<or> d = 2)
           \<and> (loc = Exited \<longleftrightarrow> 2 \<in> tk_closed t) \<and> (loc = Exited \<longrightarrow> \<not> tk_Running t))"

lemma once_inv_start: "once_inv (Start first new_task)"
  by (simp add: once_inv_def Start_def new_task_def)

lemma once_inv_stop: "once_inv t \<Longrightarrow> once_inv (safeStop t)"
  by (auto simp: once_inv_def safeStop_def)

lemma once_inv_goroutine:
  assumes "goroutine_step g t t'" and "once_inv t"
  shows "once_inv t'"
proof -
  have "g = 1"
    using assms by (auto simp: once_inv_def goroutine_step_simps dest: domI)
  with assms show ?thesis
    by (cases rule: goroutine_step.cases) (auto simp: once_inv_def)
qed

lemma started_once_inv: "started_once t \<Longrightarrow> once_inv t"
  by (induction rule: started_once.induct) (auto intro: once_inv_start once_inv_stop once_inv_goroutine)

lemma goroutine_step_exited:
  "goroutine_step g t t' \<Longrightarrow> tk_gor t = [1 \<mapsto> (Exited, d)] \<Longrightarrow> False"
  by (auto simp: goroutine_step_simps split: if_splits)

section \<open>Properties\<close>

text \<open>
  Claim C38. A cycle never holds the loop longer than its deadline, whatever the execution does (an error, a panic, a
  call that hangs forever), and the deadline is positive and at most five minutes for every interval,
  also where five times the interval overflows.
\<close>

theorem cycle_always_ends:
  "0 < cycle_timeout interval \<and> cycle_timeout interval \<le> 5 * Minute
   \<and> snd (runOnce interval e tie) \<le> cycle_timeout interval
   \<and> fst (runOnce interval Hangs tie) = TimedOut (cycle_timeout interval)"
  using cycle_timeout_bounds runOnce_bound by (simp add: runOnce_def Let_def)

text \<open>
  A task that is started once has exactly one goroutine and never closes a channel twice. When \<open>Close\<close> finds
  the \<open>Done\<close> channel closed, the goroutine has left its loop and no step of it, so no further
  execution, is possible.
\<close>

theorem close_means_exited:
  assumes "started_once t"
  shows "card (dom (tk_gor t)) = 1 \<and> \<not> tk_crashed t
     \<and> (close_returns t \<longrightarrow> (\<exists>d. tk_gor t 1 = Some (Exited, d)) \<and> (\<forall>g t'. \<not> goroutine_step g t t'))"
proof -
  have inv: "once_inv t" by (rule started_once_inv [OF assms])
  then obtain loc d where g1: "tk_gor t 1 = Some (loc, d)" "loc = Exited \<longleftrightarrow> 2 \<in> tk_closed t"
    and dm: "dom (tk_gor t) = {1}" "tk_Done t = 2" "\<not> tk_crashed t"
    by (auto simp: once_inv_def)
  have "\<not> goroutine_step g t t'" if "loc = Exited" for g t'
  proof
    assume s: "goroutine_step g t t'"
    have "tk_gor t = [1 \<mapsto> (Exited, d)]"
      using dm(1) g1(1) that by (auto simp: fun_eq_iff domIff)
    from goroutine_step_exited [OF s this] show False .
  qed
  with g1 dm show ?thesis by (auto simp: close_returns_def)
qed

definition closed_task :: task where
  "closed_task = (Start False new_task)\<lparr>tk_Running := False, tk_closed := {1, 2}, tk_gor := [1 \<mapsto> (Exited, 2)]\<rparr>"

lemma closed_task_started_once: "started_once closed_task"
proof -
  let ?a = "Start False new_task"
  let ?b = "?a\<lparr>tk_gor := (tk_gor ?a)(1 \<mapsto> (Waiting, 2))\<rparr>"
  have "tk_gor ?a 1 = Some (Begin False, 0)" "tk_Done ?a = 2" by (simp_all add: Start_def new_task_def)
  then have "goroutine_step 1 ?a ?b"
    using goroutine_step.enter [of ?a 1 False 0] by simp
  then have b: "started_once (safeStop ?b)"
    by (rule started_once.stop [OF started_once.gor [OF started_once.init]])
  have w: "tk_gor (safeStop ?b) 1 = Some (Waiting, 2)" "tk_Stop (safeStop ?b) \<in> tk_closed (safeStop ?b)"
    by (simp_all add: safeStop_def Start_def new_task_def)
  from goroutine_step.leave [OF w] have "goroutine_step 1 (safeStop ?b) closed_task"
    by (simp add: closed_task_def safeStop_def Start_def new_task_def insert_commute)
  then show ?thesis by (rule started_once.gor [OF b])
qed

theorem close_means_exited_witness:
  "close_returns closed_task \<and> (\<forall>g t'. \<not> goroutine_step g closed_task t')"
  using close_means_exited [OF closed_task_started_once]
  by (simp add: close_returns_def closed_task_def Start_def new_task_def)

inductive goroutine_steps :: "nat \<Rightarrow> task \<Rightarrow> task \<Rightarrow> bool" where
  none: "goroutine_steps 0 t t"
| more: "goroutine_step g t t' \<Longrightarrow> goroutine_steps n t' t'' \<Longrightarrow> goroutine_steps (Suc n) t t''"

lemma exit_from_waiting:
  assumes "tk_gor t 1 = Some (Waiting, d)" and "tk_Stop t \<in> tk_closed t" and "tk_Done t = d"
  shows "\<exists>t'. goroutine_steps 1 t t' \<and> close_returns t'"
proof -
  let ?t = "t\<lparr>tk_gor := (tk_gor t)(1 \<mapsto> (Exited, d)), tk_closed := insert d (tk_closed t),
               tk_crashed := tk_crashed t \<or> d \<in> tk_closed t\<rparr>"
  have "goroutine_steps 1 t ?t"
    using goroutine_steps.more [OF goroutine_step.leave [OF assms(1,2)] goroutine_steps.none] by simp
  moreover have "close_returns ?t" using assms(3) by (simp add: close_returns_def)
  ultimately show ?thesis by blast
qed

text \<open>
  Once a task that was started once has been stopped, its goroutine can always leave: from every such state at most
  three of its own steps lead to a state in which \<open>Close\<close> returns.
\<close>

theorem stop_leads_to_exit:
  assumes "started_once t" and "\<not> tk_Running t"
  shows "\<exists>n t'. n \<le> 3 \<and> goroutine_steps n t t' \<and> close_returns t'"
proof -
  have inv: "once_inv t" by (rule started_once_inv [OF assms(1)])
  then obtain loc d where g: "tk_gor t 1 = Some (loc, d)" "(\<exists>f. loc = Begin f) \<or> d = 2" "loc = Exited \<longleftrightarrow> 2 \<in> tk_closed t"
    and dn: "tk_Done t = 2" "tk_Stop t \<in> tk_closed t"
    using assms(2) by (auto simp: once_inv_def)
  have waiting: "\<exists>t'. goroutine_steps 1 s t' \<and> close_returns t'"
    if "tk_gor s 1 = Some (Waiting, 2)" "tk_Stop s = tk_Stop t" "tk_closed s = tk_closed t" "tk_Done s = tk_Done t" for s
    using exit_from_waiting [of s 2] that dn by simp
  have cycling: "\<exists>t'. goroutine_steps 2 s t' \<and> close_returns t'"
    if c: "tk_gor s 1 = Some (Cycling, 2)" "tk_Stop s = tk_Stop t" "tk_closed s = tk_closed t" "tk_Done s = tk_Done t" for s
  proof -
    let ?s = "s\<lparr>tk_gor := (tk_gor s)(1 \<mapsto> (Waiting, 2)), tk_cycles := Suc (tk_cycles s)\<rparr>"
    obtain t' where "goroutine_steps 1 ?s t'" "close_returns t'" using waiting [of ?s] c by auto
    with goroutine_steps.more [OF goroutine_step.cycle [OF c(1)]] show ?thesis by (auto simp: numeral_2_eq_2)
  qed
  show ?thesis
  proof (cases loc)
    case Waiting
    with g waiting [of t] show ?thesis by (intro exI [of _ 1]) auto
  next
    case Cycling
    with g cycling [of t] show ?thesis by (intro exI [of _ 2]) auto
  next
    case Exited
    with g dn show ?thesis
      by (intro exI [of _ 0] exI [of _ t]) (auto simp: close_returns_def intro: goroutine_steps.none)
  next
    case (Begin f)
    let ?s = "t\<lparr>tk_gor := (tk_gor t)(1 \<mapsto> (if f then Cycling else Waiting, tk_Done t))\<rparr>"
    have "\<exists>n t'. n \<le> 2 \<and> goroutine_steps n ?s t' \<and> close_returns t'"
    proof (cases f)
      case True
      with cycling [of ?s] dn show ?thesis by (intro exI [of _ 2]) simp
    next
      case False
      with waiting [of ?s] dn show ?thesis by (intro exI [of _ 1]) simp
    qed
    then obtain n t' where "n \<le> 2" "goroutine_steps n ?s t'" "close_returns t'" by blast
    with goroutine_steps.more [OF goroutine_step.enter [of t 1 f d]] g(1) Begin show ?thesis
      by (intro exI [of _ "Suc n"] exI [of _ t']) auto
  qed
qed

theorem stop_leads_to_exit_witness:
  "\<exists>n t'. n \<le> 3 \<and> goroutine_steps n closed_task t' \<and> close_returns t'"
  by (rule stop_leads_to_exit [OF closed_task_started_once])
     (simp add: closed_task_def)

text \<open>
  The task object is not restartable: a second \<open>Start\<close> after a stop, while the first goroutine has not ended,
  makes both goroutines share the new channels, and the second one to leave closes a closed channel,
  which panics.
\<close>

theorem restart_can_crash: "\<exists>t. reachable_task t \<and> tk_crashed t"
proof -
  define a where "a = Start False (safeStop (Start False new_task))"
  define b where "b = a\<lparr>tk_gor := (tk_gor a)(1 \<mapsto> (Waiting, 4))\<rparr>"
  define c where "c = b\<lparr>tk_gor := (tk_gor b)(3 \<mapsto> (Waiting, 4))\<rparr>"
  define d where "d = safeStop c"
  define e where "e = d\<lparr>tk_gor := (tk_gor d)(1 \<mapsto> (Exited, 4)), tk_closed := insert 4 (tk_closed d),
       tk_crashed := tk_crashed d \<or> 4 \<in> tk_closed d\<rparr>"
  define f where "f = e\<lparr>tk_gor := (tk_gor e)(3 \<mapsto> (Exited, 4)), tk_closed := insert 4 (tk_closed e),
       tk_crashed := tk_crashed e \<or> 4 \<in> tk_closed e\<rparr>"
  note defs = a_def b_def c_def d_def e_def f_def Start_def safeStop_def new_task_def
  have "reachable_task a"
    unfolding a_def by (intro reachable_task.step [OF _ task_step.start] reachable_task.step [OF _ task_step.stop] reachable_task.init)
  moreover have "tk_gor a 1 = Some (Begin False, 0)" "tk_gor a 3 = Some (Begin False, 0)" "tk_Done a = 4"
    by (simp_all add: defs)
  moreover from this have "goroutine_step 1 a b" "goroutine_step 3 b c"
    using goroutine_step.enter [of a 1 False 0] goroutine_step.enter [of b 3 False 0]
    by (simp_all add: b_def c_def)
  ultimately have "reachable_task d"
    unfolding d_def by (meson reachable_task.step task_step.intros)
  moreover have "goroutine_step 1 d e"
    unfolding e_def by (rule goroutine_step.leave) (simp_all add: defs)
  moreover have "goroutine_step 3 e f"
    unfolding f_def by (rule goroutine_step.leave) (simp_all add: defs)
  ultimately have "reachable_task f" by (meson reachable_task.step task_step.gor)
  moreover have "tk_crashed f" by (simp add: f_def e_def)
  ultimately show ?thesis by blast
qed

end
