(* ===== verification/Conf.thy ===== *)
theory Conf
  imports Go_Prelude
begin

text \<open>
  The local configuration (\<open>conf/conf.go\<close>, \<open>conf/watch.go\<close>): the structs, the defaults that loading fills in, the
  resolvers that let a node override the global section, and the debouncing of the file watcher. Reading
  and decoding the file is done by \<open>viper\<close>, so the decoder is an argument: given the prepared
  configuration it returns an error or the configuration with the values of the file.
\<close>

section \<open>Data\<close>

record LogConfig =
  lc_Level :: string
  lc_Output :: string
  lc_Access :: string

record AutoSpeedLimitConfig =
  asl_Enable :: "bool option"
  asl_Limit :: int
  asl_WarnTimes :: int
  asl_LimitSpeed :: int
  asl_LimitDuration :: int

record CertConfig =
  cc_CertMode :: string
  cc_Provider :: string
  cc_Email :: string
  cc_DNSEnv :: "(string \<rightharpoonup> string) option"
  cc_CertFile :: string
  cc_KeyFile :: string

record PolicyConfig =
  pc_Handshake :: "int option"
  pc_ConnIdle :: "int option"
  pc_BufferSize :: "int option"
  pc_GrpcBufferSize :: "int option"

record GlobalConfig =
  gc_PullInterval :: int
  gc_DisableSniffing :: bool
  gc_AutoSpeedLimit :: "AutoSpeedLimitConfig option"
  gc_Cert :: "CertConfig option"
  gc_Policy :: "PolicyConfig option"
  gc_ApiIPStrategy :: string
  gc_RouteMode :: string
  gc_DnsMode :: string
  gc_RouteConfigPath :: string
  gc_DnsConfigPath :: string
  gc_InboundConfigPath :: string
  gc_OutboundConfigPath :: string
  gc_SingBoxPath :: string
  gc_SingBoxDir :: string

record NodeConfig =
  nc_APIHost :: string
  nc_NodeID :: int
  nc_Key :: string
  nc_Timeout :: int
  nc_RetryCount :: "int option"
  nc_NodeType :: string
  nc_DisableSniffing :: "bool option"
  nc_SpeedLimit :: int
  nc_DeviceLimit :: int
  nc_PullInterval :: int
  nc_AutoSpeedLimit :: "AutoSpeedLimitConfig option"
  nc_Cert :: "CertConfig option"
  nc_ApiIPStrategy :: string

record Conf =
  cf_LogConfig :: LogConfig
  cf_Global :: GlobalConfig
  cf_NodeConfigs :: "NodeConfig list"
  cf_PprofPort :: int

section \<open>Operations\<close>

definition DefaultNodeRetryCount :: int where "DefaultNodeRetryCount = 1"

definition zero_GlobalConfig :: GlobalConfig where
  "zero_GlobalConfig = \<lparr>gc_PullInterval = 0, gc_DisableSniffing = False, gc_AutoSpeedLimit = None, gc_Cert = None,
     gc_Policy = None, gc_ApiIPStrategy = [], gc_RouteMode = [], gc_DnsMode = [], gc_RouteConfigPath = [],
     gc_DnsConfigPath = [], gc_InboundConfigPath = [], gc_OutboundConfigPath = [], gc_SingBoxPath = [], gc_SingBoxDir = []\<rparr>"

definition conf_New :: Conf where
  "conf_New = \<lparr>cf_LogConfig = \<lparr>lc_Level = ''warning'', lc_Output = [], lc_Access = ''none''\<rparr>,
     cf_Global = zero_GlobalConfig, cf_NodeConfigs = [], cf_PprofPort = 0\<rparr>"

definition EffectiveSingBoxPath :: "GlobalConfig \<Rightarrow> string" where
  "EffectiveSingBoxPath g = (if gc_SingBoxPath g \<noteq> [] then gc_SingBoxPath g else ''/usr/local/bin/sing-box'')"

definition EffectiveSingBoxDir :: "GlobalConfig \<Rightarrow> string" where
  "EffectiveSingBoxDir g = (if gc_SingBoxDir g \<noteq> [] then gc_SingBoxDir g else ''/etc/v2node/singbox'')"

definition fill_node_defaults :: "GlobalConfig \<Rightarrow> NodeConfig \<Rightarrow> NodeConfig" where
  "fill_node_defaults g n =
     n\<lparr>nc_RetryCount := (case nc_RetryCount n of None \<Rightarrow> Some DefaultNodeRetryCount | Some r \<Rightarrow> Some r),
       nc_ApiIPStrategy := (if nc_ApiIPStrategy n = [] then gc_ApiIPStrategy g else nc_ApiIPStrategy n)\<rparr>"

text \<open>
  \<open>LoadFromPath\<close>: \<open>open_file\<close> is the result of opening the file, \<open>read_in\<close> that of \<open>ReadInConfig\<close> and \<open>unmarshal\<close>
  that of \<open>Unmarshal\<close>; each may fail with an error, which is wrapped.
\<close>

definition LoadFromPath ::
  "(string \<Rightarrow> goerror option) \<Rightarrow> (string \<Rightarrow> goerror option) \<Rightarrow> (string \<Rightarrow> Conf \<Rightarrow> goerror + Conf) \<Rightarrow> string \<Rightarrow> Conf \<Rightarrow> goerror + Conf" where
  "LoadFromPath open_file read_in unmarshal filePath p =
     (case open_file filePath of
        Some e \<Rightarrow> Inl (''open config file error: '' @ e)
      | None \<Rightarrow> (case read_in filePath of
          Some e \<Rightarrow> Inl (''read config file error: '' @ e)
        | None \<Rightarrow> (case unmarshal filePath p of
            Inl e \<Rightarrow> Inl (''unmarshal config error: '' @ e)
          | Inr p' \<Rightarrow> Inr (p'\<lparr>cf_NodeConfigs := map (fill_node_defaults (cf_Global p')) (cf_NodeConfigs p')\<rparr>))))"

definition SniffDisabled :: "NodeConfig \<Rightarrow> GlobalConfig \<Rightarrow> bool" where
  "SniffDisabled n g = (case nc_DisableSniffing n of Some b \<Rightarrow> b | None \<Rightarrow> gc_DisableSniffing g)"

definition overlay_cert :: "CertConfig \<Rightarrow> CertConfig \<Rightarrow> CertConfig" where
  "overlay_cert out c =
     \<lparr>cc_CertMode = (if cc_CertMode c \<noteq> [] then cc_CertMode c else cc_CertMode out),
      cc_Provider = (if cc_Provider c \<noteq> [] then cc_Provider c else cc_Provider out),
      cc_Email = (if cc_Email c \<noteq> [] then cc_Email c else cc_Email out),
      cc_DNSEnv = (if cc_DNSEnv c \<noteq> None then cc_DNSEnv c else cc_DNSEnv out),
      cc_CertFile = (if cc_CertFile c \<noteq> [] then cc_CertFile c else cc_CertFile out),
      cc_KeyFile = (if cc_KeyFile c \<noteq> [] then cc_KeyFile c else cc_KeyFile out)\<rparr>"

definition EffectiveCert :: "NodeConfig \<Rightarrow> GlobalConfig \<Rightarrow> CertConfig option" where
  "EffectiveCert n g =
     (case nc_Cert n of
        None \<Rightarrow> gc_Cert g
      | Some c \<Rightarrow> (case gc_Cert g of None \<Rightarrow> Some c | Some base \<Rightarrow> Some (overlay_cert base c)))"

definition overlay_asl :: "AutoSpeedLimitConfig \<Rightarrow> AutoSpeedLimitConfig \<Rightarrow> AutoSpeedLimitConfig" where
  "overlay_asl out o' =
     out\<lparr>asl_Limit := (if asl_Limit o' \<noteq> 0 then asl_Limit o' else asl_Limit out),
         asl_WarnTimes := (if asl_WarnTimes o' \<noteq> 0 then asl_WarnTimes o' else asl_WarnTimes out),
         asl_LimitSpeed := (if asl_LimitSpeed o' \<noteq> 0 then asl_LimitSpeed o' else asl_LimitSpeed out),
         asl_LimitDuration := (if asl_LimitDuration o' \<noteq> 0 then asl_LimitDuration o' else asl_LimitDuration out)\<rparr>"

definition EffectiveAutoSpeedLimit :: "NodeConfig \<Rightarrow> GlobalConfig \<Rightarrow> AutoSpeedLimitConfig option" where
  "EffectiveAutoSpeedLimit n g =
     (case gc_AutoSpeedLimit g of
        None \<Rightarrow> None
      | Some base \<Rightarrow>
          if asl_Enable base \<noteq> Some True then None
          else let out = (case nc_AutoSpeedLimit n of
                            Some o' \<Rightarrow> if asl_Enable o' = Some True then overlay_asl base o' else base
                          | None \<Rightarrow> base)
               in if asl_Limit out \<le> 0 then None else Some out)"

text \<open>
  The watcher: an event is a time (in seconds) and whether it is a \<open>chmod\<close>. \<open>pre\<close> is the time of the last event
  that was taken (none at the start). The result is the list of times at which the reload callback
  runs, five seconds after the event that caused it.
\<close>

fun watch_events :: "int option \<Rightarrow> (int \<times> bool) list \<Rightarrow> int list" where
  "watch_events pre [] = []"
| "watch_events pre ((now, chmod) # es) =
     (if chmod then watch_events pre es
      else if (case pre of None \<Rightarrow> False | Some p \<Rightarrow> now < p + 10) then watch_events pre es
      else (now + 5) # watch_events (Some now) es)"

section \<open>Properties\<close>

text \<open>
  Every node configuration that loading returns has a retry count, and the strategy of its API
  dialer is the node's own where it has one and the global one otherwise; the file's other values are
  kept.
\<close>

theorem load_fills_defaults:
  assumes "LoadFromPath open_file read_in unmarshal path conf_New = Inr c"
  shows "\<exists>p. unmarshal path conf_New = Inr p \<and> length (cf_NodeConfigs c) = length (cf_NodeConfigs p)
     \<and> cf_Global c = cf_Global p
     \<and> (\<forall>i < length (cf_NodeConfigs c). nc_RetryCount (cf_NodeConfigs c ! i) \<noteq> None
          \<and> nc_APIHost (cf_NodeConfigs c ! i) = nc_APIHost (cf_NodeConfigs p ! i)
          \<and> (nc_ApiIPStrategy (cf_NodeConfigs p ! i) = [] \<longrightarrow> nc_ApiIPStrategy (cf_NodeConfigs c ! i) = gc_ApiIPStrategy (cf_Global p))
          \<and> (nc_ApiIPStrategy (cf_NodeConfigs p ! i) \<noteq> [] \<longrightarrow> nc_ApiIPStrategy (cf_NodeConfigs c ! i) = nc_ApiIPStrategy (cf_NodeConfigs p ! i)))"
proof -
  obtain p where p: "unmarshal path conf_New = Inr p"
    and c: "c = p\<lparr>cf_NodeConfigs := map (fill_node_defaults (cf_Global p)) (cf_NodeConfigs p)\<rparr>"
    using assms by (auto simp: LoadFromPath_def split: option.splits sum.splits)
  show ?thesis
    by (rule exI [of _ p]) (simp add: p c fill_node_defaults_def split: option.split)
qed

definition demo_node_config :: NodeConfig where
  "demo_node_config = \<lparr>nc_APIHost = ''https://x'', nc_NodeID = 1, nc_Key = ''k'', nc_Timeout = 0, nc_RetryCount = None,
     nc_NodeType = [], nc_DisableSniffing = None, nc_SpeedLimit = 0, nc_DeviceLimit = 0, nc_PullInterval = 0,
     nc_AutoSpeedLimit = None, nc_Cert = None, nc_ApiIPStrategy = []\<rparr>"

theorem load_fills_defaults_witness:
  "\<exists>c. LoadFromPath (\<lambda>_. None) (\<lambda>_. None) (\<lambda>_ p. Inr (p\<lparr>cf_NodeConfigs := [demo_node_config]\<rparr>)) ''c.json'' conf_New = Inr c
     \<and> nc_RetryCount (cf_NodeConfigs c ! 0) \<noteq> None"
proof -
  let ?u = "\<lambda>_ p. Inr (p\<lparr>cf_NodeConfigs := [demo_node_config]\<rparr>)"
  obtain c where c: "LoadFromPath (\<lambda>_. None) (\<lambda>_. None) ?u ''c.json'' conf_New = Inr c"
    by (simp add: LoadFromPath_def)
  from load_fills_defaults [OF c] c show ?thesis by auto
qed

text \<open>
  The certificate configuration of a node: absent only where both sections are absent, and otherwise each
  field is the node's where the node sets it and the global one where it does not.
\<close>

theorem effective_cert_merges:
  "(EffectiveCert n g = None \<longleftrightarrow> nc_Cert n = None \<and> gc_Cert g = None)
   \<and> (\<forall>c base. nc_Cert n = Some c \<and> gc_Cert g = Some base \<longrightarrow> (\<exists>out. EffectiveCert n g = Some out
        \<and> cc_CertMode out = (if cc_CertMode c = [] then cc_CertMode base else cc_CertMode c)
        \<and> cc_Provider out = (if cc_Provider c = [] then cc_Provider base else cc_Provider c)
        \<and> cc_Email out = (if cc_Email c = [] then cc_Email base else cc_Email c)
        \<and> cc_DNSEnv out = (if cc_DNSEnv c = None then cc_DNSEnv base else cc_DNSEnv c)
        \<and> cc_CertFile out = (if cc_CertFile c = [] then cc_CertFile base else cc_CertFile c)
        \<and> cc_KeyFile out = (if cc_KeyFile c = [] then cc_KeyFile base else cc_KeyFile c)))"
  by (auto simp: EffectiveCert_def overlay_cert_def split: option.splits)

theorem effective_cert_merges_witness:
  "\<exists>out. EffectiveCert (demo_node_config\<lparr>nc_Cert := Some \<lparr>cc_CertMode = [], cc_Provider = ''alidns'', cc_Email = [],
       cc_DNSEnv = None, cc_CertFile = [], cc_KeyFile = []\<rparr>\<rparr>)
     (zero_GlobalConfig\<lparr>gc_Cert := Some \<lparr>cc_CertMode = ''dns'', cc_Provider = ''cloudflare'', cc_Email = ''g@x'',
       cc_DNSEnv = None, cc_CertFile = [], cc_KeyFile = []\<rparr>\<rparr>) = Some out
     \<and> cc_CertMode out = ''dns'' \<and> cc_Provider out = ''alidns''"
  using effective_cert_merges [of "demo_node_config\<lparr>nc_Cert := Some \<lparr>cc_CertMode = [], cc_Provider = ''alidns'', cc_Email = [],
       cc_DNSEnv = None, cc_CertFile = [], cc_KeyFile = []\<rparr>\<rparr>"
     "zero_GlobalConfig\<lparr>gc_Cert := Some \<lparr>cc_CertMode = ''dns'', cc_Provider = ''cloudflare'', cc_Email = ''g@x'',
       cc_DNSEnv = None, cc_CertFile = [], cc_KeyFile = []\<rparr>\<rparr>"]
  by auto

text \<open>
  The automatic speed limit is on for a node only if the global switch is on and the threshold is positive: a
  node can refine the values but never turn the feature on by itself. A node that does not opt in gets
  the global values.
\<close>

theorem auto_speed_limit_needs_global:
  "EffectiveAutoSpeedLimit n g = Some a \<longrightarrow>
     (\<exists>base. gc_AutoSpeedLimit g = Some base \<and> asl_Enable base = Some True \<and> 0 < asl_Limit a
       \<and> ((\<forall>x. nc_AutoSpeedLimit n = Some x \<longrightarrow> asl_Enable x \<noteq> Some True) \<longrightarrow> a = base)
       \<and> (\<forall>x. nc_AutoSpeedLimit n = Some x \<and> asl_Enable x = Some True \<longrightarrow>
            asl_Limit a = (if asl_Limit x = 0 then asl_Limit base else asl_Limit x)
            \<and> asl_LimitSpeed a = (if asl_LimitSpeed x = 0 then asl_LimitSpeed base else asl_LimitSpeed x)))"
  by (auto simp: EffectiveAutoSpeedLimit_def overlay_asl_def Let_def split: option.splits if_splits)

theorem auto_speed_limit_needs_global_witness:
  "\<exists>a. EffectiveAutoSpeedLimit demo_node_config (zero_GlobalConfig\<lparr>gc_AutoSpeedLimit := Some \<lparr>asl_Enable = Some True,
       asl_Limit = 300, asl_WarnTimes = 5, asl_LimitSpeed = 70, asl_LimitDuration = 3\<rparr>\<rparr>) = Some a \<and> 0 < asl_Limit a"
proof -
  let ?g = "zero_GlobalConfig\<lparr>gc_AutoSpeedLimit := Some \<lparr>asl_Enable = Some True,
       asl_Limit = 300, asl_WarnTimes = 5, asl_LimitSpeed = 70, asl_LimitDuration = 3\<rparr>\<rparr>"
  obtain a where "EffectiveAutoSpeedLimit demo_node_config ?g = Some a"
    by (simp add: EffectiveAutoSpeedLimit_def demo_node_config_def)
  with auto_speed_limit_needs_global [of demo_node_config ?g a] show ?thesis by auto
qed

lemma watch_events_after:
  assumes "sorted (map fst es)" and "\<forall>e \<in> set es. p \<le> fst e"
  shows "\<forall>r \<in> set (watch_events (Some p) es). p + 15 \<le> r"
  using assms
proof (induction "Some p" es arbitrary: p rule: watch_events.induct)
  case (2 now chmod es)
  then show ?case by (cases "chmod"; cases "now < p + 10") force+
qed simp

lemma watch_events_spaced_from:
  assumes "sorted (map fst es)"
  shows "sorted_wrt (\<lambda>a b. a + 10 \<le> b) (watch_events pre es)"
  using assms
proof (induction pre es rule: watch_events.induct)
  case (2 pre now chmod es)
  have "\<forall>r \<in> set (watch_events (Some now) es). now + 15 \<le> r"
    using "2.prems" by (intro watch_events_after) auto
  with 2 show ?case by (auto split: option.splits)
qed simp

text \<open>
  Reloads caused by file events are at least ten seconds apart, however the events arrive.
\<close>

theorem reloads_spaced:
  assumes "sorted (map fst es)"
  shows "sorted_wrt (\<lambda>a b. a + 10 \<le> b) (watch_events None es)"
  using assms by (rule watch_events_spaced_from)

theorem reloads_spaced_witness: "sorted_wrt (\<lambda>a b. a + 10 \<le> b) (watch_events None [(0, False), (3, False), (12, False)])"
  by (rule reloads_spaced) simp

text \<open>
  The debouncing loses changes: an edit that arrives after the reload of the previous edit has
  read the file (more than five and less than ten seconds later) causes no reload at all.
\<close>

theorem late_edit_is_lost:
  assumes "5 < d" and "d < 10"
  shows "watch_events None [(t, False), (t + d, False)] = [t + 5] \<and> t + 5 < t + d"
  using assms by simp

theorem late_edit_is_lost_witness: "watch_events None [(100, False), (107, False)] = [105]"
  using late_edit_is_lost [of 7 100] by simp

end
