(* ===== verification/Runner_Contract.thy ===== *)
theory Runner_Contract
  imports Panel_Types
begin

text \<open>
  The managers of the natively terminated protocols (\<open>common/*/manager.go\<close>): one runner per node tag, created
  by \<open>Add\<close>, started by the first users, closed by \<open>Del\<close> and \<open>CloseAll\<close>. The six managers of the source have
  the same text, so the operations are defined once over the operations of a runner and instantiated per
  protocol in the theory of the runners. The network is the set of addresses that are listened on; a
  runner's operations return it updated.

  The locale \<open>runner\<close> is what a manager relies on; the locale \<open>revoking_runner\<close> adds that a removed user is
  not served any more.
\<close>

section \<open>Listening\<close>

type_synonym net = "string set"

text \<open>\<open>net.JoinHostPort\<close>, and \<open>net.Listen\<close>: it fails for an address in use and may fail for other reasons.\<close>

definition JoinHostPort :: "string \<Rightarrow> int \<Rightarrow> string" where
  "JoinHostPort ip port = (if CHR '':'' \<in> set ip then ''['' @ ip @ '']'' else ip) @ '':'' @ Itoa port"

definition net_Listen :: "(string \<Rightarrow> goerror option) \<Rightarrow> string \<Rightarrow> net \<Rightarrow> goerror + net" where
  "net_Listen refuse addr w =
     (if addr \<in> w then Inl ''bind: address already in use''
      else (case refuse addr of Some e \<Rightarrow> Inl e | None \<Rightarrow> Inr (insert addr w)))"

definition listen_addr :: "CommonNode \<Rightarrow> string" where
  "listen_addr cm = JoinHostPort (if cn_ListenIP cm \<noteq> [] then cn_ListenIP cm else ''0.0.0.0'') (cn_ServerPort cm)"

section \<open>Manager\<close>

record 'r Manager =
  mg_runners :: "string \<rightharpoonup> 'r"
  mg_disp :: bool

definition mgr_New :: "'r Manager" where
  "mgr_New = \<lparr>mg_runners = Map.empty, mg_disp = False\<rparr>"

definition mgr_SetDispatcher :: "bool \<Rightarrow> 'r Manager \<Rightarrow> 'r Manager" where
  "mgr_SetDispatcher d m = m\<lparr>mg_disp := d\<rparr>"

definition mgr_Add :: "string \<Rightarrow> (string \<Rightarrow> NodeInfo \<Rightarrow> 'r) \<Rightarrow> string \<Rightarrow> NodeInfo \<Rightarrow> 'r Manager \<Rightarrow> goerror option \<times> 'r Manager" where
  "mgr_Add proto NewRunner tag info m =
     (if \<not> mg_disp m then (Some (proto @ '': dispatcher not set''), m)
      else if mg_runners m tag \<noteq> None then (None, m)
      else (None, m\<lparr>mg_runners := (mg_runners m)(tag \<mapsto> NewRunner tag info)\<rparr>))"

definition mgr_Del :: "('r \<Rightarrow> net \<Rightarrow> 'r \<times> net) \<Rightarrow> string \<Rightarrow> 'r Manager \<Rightarrow> net \<Rightarrow> 'r Manager \<times> net" where
  "mgr_Del Close tag m w =
     (case mg_runners m tag of
        None \<Rightarrow> (m, w)
      | Some r \<Rightarrow> (m\<lparr>mg_runners := (mg_runners m)(tag := None)\<rparr>, snd (Close r w)))"

definition mgr_Has :: "string \<Rightarrow> 'r Manager \<Rightarrow> bool" where
  "mgr_Has tag m \<longleftrightarrow> mg_runners m tag \<noteq> None"

definition mgr_CloseAll :: "('r \<Rightarrow> net \<Rightarrow> 'r \<times> net) \<Rightarrow> string list \<Rightarrow> 'r Manager \<Rightarrow> net \<Rightarrow> 'r Manager \<times> net" where
  "mgr_CloseAll Close order m w =
     (m\<lparr>mg_runners := Map.empty\<rparr>, range_fold (\<lambda>tag r w. snd (Close r w)) order (mg_runners m) w)"

definition mgr_AddUsers ::
  "(UserInfo list \<Rightarrow> 'r \<Rightarrow> net \<Rightarrow> goerror option \<times> 'r \<times> net) \<Rightarrow> string \<Rightarrow> UserInfo list \<Rightarrow> 'r Manager \<Rightarrow> net
     \<Rightarrow> goerror option \<times> 'r Manager \<times> net" where
  "mgr_AddUsers AddUsers tag users m w =
     (case mg_runners m tag of
        None \<Rightarrow> (None, m, w)
      | Some r \<Rightarrow> (case AddUsers users r w of
                     (e, r', w') \<Rightarrow> (e, m\<lparr>mg_runners := (mg_runners m)(tag \<mapsto> r')\<rparr>, w')))"

definition mgr_DelUsers :: "(string list \<Rightarrow> 'r \<Rightarrow> 'r) \<Rightarrow> string \<Rightarrow> string list \<Rightarrow> 'r Manager \<Rightarrow> 'r Manager" where
  "mgr_DelUsers DelUsers tag uuids m =
     (case mg_runners m tag of
        None \<Rightarrow> m
      | Some r \<Rightarrow> m\<lparr>mg_runners := (mg_runners m)(tag \<mapsto> DelUsers uuids r)\<rparr>)"

text \<open>A call of a manager, for sequences of them.\<close>

datatype manager_call =
    CSetDispatcher bool | CAdd string NodeInfo | CDel string | CCloseAll "string list"
  | CAddUsers string "UserInfo list" | CDelUsers string "string list"

fun mgr_call ::
  "string \<Rightarrow> (string \<Rightarrow> NodeInfo \<Rightarrow> 'r) \<Rightarrow> (UserInfo list \<Rightarrow> 'r \<Rightarrow> net \<Rightarrow> goerror option \<times> 'r \<times> net)
     \<Rightarrow> (string list \<Rightarrow> 'r \<Rightarrow> 'r) \<Rightarrow> ('r \<Rightarrow> net \<Rightarrow> 'r \<times> net) \<Rightarrow> manager_call \<Rightarrow> 'r Manager \<times> net \<Rightarrow> 'r Manager \<times> net" where
  "mgr_call p N A D C (CSetDispatcher d) (m, w) = (mgr_SetDispatcher d m, w)"
| "mgr_call p N A D C (CAdd tag info) (m, w) = (snd (mgr_Add p N tag info m), w)"
| "mgr_call p N A D C (CDel tag) (m, w) = mgr_Del C tag m w"
| "mgr_call p N A D C (CCloseAll order) (m, w) =
     (if range_order order (mg_runners m) then mgr_CloseAll C order m w else (m, w))"
| "mgr_call p N A D C (CAddUsers tag us) (m, w) = snd (mgr_AddUsers A tag us m w)"
| "mgr_call p N A D C (CDelUsers tag us) (m, w) = (mgr_DelUsers D tag us m, w)"

section \<open>The contract of a runner\<close>

text \<open>
  \<open>addrs r\<close> are the addresses the runner listens on. A start claims only addresses that were free, and takes
  either all of its addresses or none; \<open>DelUsers\<close> never touches the listener; \<open>Close\<close> gives back exactly what
  the runner held.
\<close>

locale runner =
  fixes proto :: string
    and NewRunner :: "string \<Rightarrow> NodeInfo \<Rightarrow> 'r"
    and AddUsers :: "UserInfo list \<Rightarrow> 'r \<Rightarrow> net \<Rightarrow> goerror option \<times> 'r \<times> net"
    and DelUsers :: "string list \<Rightarrow> 'r \<Rightarrow> 'r"
    and Close :: "'r \<Rightarrow> net \<Rightarrow> 'r \<times> net"
    and addrs :: "'r \<Rightarrow> string set"
  assumes new_addrs: "addrs (NewRunner tag info) = {}"
    and add_addrs: "AddUsers us r w = (e, r', w') \<Longrightarrow>
          (addrs r' = addrs r \<and> w' = w) \<or> (addrs r = {} \<and> addrs r' \<inter> w = {} \<and> w' = w \<union> addrs r')"
    and del_addrs: "addrs (DelUsers ids r) = addrs r"
    and close_net: "snd (Close r w) = w - addrs r"
begin

text \<open>Every address of a runner is listened on, and no address belongs to two runners.\<close>

definition mgr_inv :: "'r Manager \<Rightarrow> net \<Rightarrow> bool" where
  "mgr_inv m w \<longleftrightarrow> (\<forall>t r. mg_runners m t = Some r \<longrightarrow> addrs r \<subseteq> w)
     \<and> (\<forall>t t' r r'. mg_runners m t = Some r \<and> mg_runners m t' = Some r' \<and> t \<noteq> t' \<longrightarrow> addrs r \<inter> addrs r' = {})"

definition mgr_addrs :: "'r Manager \<Rightarrow> net" where
  "mgr_addrs m = (\<Union>r \<in> ran (mg_runners m). addrs r)"

lemma mgr_invD:
  assumes "mgr_inv m w" and "mg_runners m t = Some r"
  shows "addrs r \<subseteq> w" and "mg_runners m t' = Some r' \<Longrightarrow> t \<noteq> t' \<Longrightarrow> addrs r \<inter> addrs r' = {}"
  using assms unfolding mgr_inv_def by blast+

lemma mgr_inv_New: "mgr_inv mgr_New w"
  by (simp add: mgr_inv_def mgr_New_def)

lemma mgr_inv_SetDispatcher: "mgr_inv (mgr_SetDispatcher d m) w \<longleftrightarrow> mgr_inv m w"
  by (simp add: mgr_inv_def mgr_SetDispatcher_def)

lemma mgr_inv_Add: "mgr_inv m w \<Longrightarrow> mgr_inv (snd (mgr_Add proto NewRunner tag info m)) w"
  by (simp add: mgr_inv_def mgr_Add_def new_addrs)

lemma mgr_Del_spec:
  assumes inv: "mgr_inv m w" and d: "mgr_Del Close tag m w = (m', w')"
  shows "mgr_inv m' w'" "\<not> mgr_Has tag m'" "\<And>t. t \<noteq> tag \<Longrightarrow> mg_runners m' t = mg_runners m t"
    "w' = w - (case mg_runners m tag of None \<Rightarrow> {} | Some r \<Rightarrow> addrs r)"
proof -
  show "\<not> mgr_Has tag m'" "\<And>t. t \<noteq> tag \<Longrightarrow> mg_runners m' t = mg_runners m t"
    "w' = w - (case mg_runners m tag of None \<Rightarrow> {} | Some r \<Rightarrow> addrs r)"
    using d by (auto simp: mgr_Del_def mgr_Has_def close_net split: option.splits)
  show "mgr_inv m' w'"
  proof (cases "mg_runners m tag")
    case None
    with d inv show ?thesis by (simp add: mgr_Del_def)
  next
    case (Some r)
    with d have m': "mg_runners m' = (mg_runners m)(tag := None)" and w': "w' = w - addrs r"
      by (auto simp: mgr_Del_def close_net)
    show ?thesis
      unfolding mgr_inv_def m' w'
    proof (intro conjI allI impI)
      fix t q assume "((mg_runners m)(tag := None)) t = Some q"
      then have q: "mg_runners m t = Some q" "t \<noteq> tag" by (auto split: if_splits)
      with mgr_invD [OF inv q(1)] Some show "addrs q \<subseteq> w - addrs r" by blast
    next
      fix t t' q q' assume "((mg_runners m)(tag := None)) t = Some q \<and> ((mg_runners m)(tag := None)) t' = Some q' \<and> t \<noteq> t'"
      then show "addrs q \<inter> addrs q' = {}" by (auto dest: mgr_invD(2) [OF inv] split: if_splits)
    qed
  qed
qed

lemma close_all_net:
  "range_fold (\<lambda>tag r w. snd (Close r w)) order (mg_runners m) w
     = w - (\<Union>t \<in> set order. case mg_runners m t of None \<Rightarrow> {} | Some r \<Rightarrow> addrs r)"
  by (induction order arbitrary: w) (auto simp: close_net split: option.splits)

lemma mgr_CloseAll_spec:
  assumes "range_order order (mg_runners m)"
  shows "mgr_CloseAll Close order m w = (m\<lparr>mg_runners := Map.empty\<rparr>, w - mgr_addrs m)"
proof -
  have "(\<Union>t \<in> set order. case mg_runners m t of None \<Rightarrow> {} | Some r \<Rightarrow> addrs r) = mgr_addrs m"
    using assms unfolding range_order_def mgr_addrs_def ran_def
    by (auto split: option.splits)
  then show ?thesis by (simp add: mgr_CloseAll_def close_all_net)
qed

lemma mgr_inv_CloseAll:
  "range_order order (mg_runners m) \<Longrightarrow> mgr_CloseAll Close order m w = (m', w') \<Longrightarrow> mgr_inv m' w'"
  by (auto simp: mgr_CloseAll_spec mgr_inv_def)

lemma mgr_AddUsers_cases:
  assumes "mgr_AddUsers AddUsers tag us m w = (e, m', w')"
  obtains "mg_runners m tag = None" "m' = m" "w' = w" "e = None"
  | r r' where "mg_runners m tag = Some r" "AddUsers us r w = (e, r', w')"
      "m' = m\<lparr>mg_runners := (mg_runners m)(tag \<mapsto> r')\<rparr>"
  using assms by (auto simp: mgr_AddUsers_def split: option.splits prod.splits)

lemma mgr_inv_AddUsers:
  assumes inv: "mgr_inv m w" and a: "mgr_AddUsers AddUsers tag us m w = (e, m', w')"
  shows "mgr_inv m' w'"
  using a
proof (cases rule: mgr_AddUsers_cases)
  case 1
  with inv show ?thesis by simp
next
  case (2 r r')
  from add_addrs [OF 2(2)] have w': "w \<subseteq> w'" "addrs r' \<subseteq> addrs r \<union> (w' - w)" "addrs r' \<subseteq> w' \<union> addrs r" by auto
  have old: "addrs r \<subseteq> w" by (rule mgr_invD(1) [OF inv 2(1)])
  have sep: "addrs q \<inter> addrs r' = {}" if "mg_runners m t = Some q" "t \<noteq> tag" for t q
    using mgr_invD [OF inv that(1)] 2(1) that(2) w' by blast
  show ?thesis
    unfolding mgr_inv_def 2(3)
  proof (intro conjI allI impI)
    fix t q assume q: "mg_runners (m\<lparr>mg_runners := (mg_runners m)(tag \<mapsto> r')\<rparr>) t = Some q"
    show "addrs q \<subseteq> w'"
    proof (cases "t = tag")
      case True
      with q w' old show ?thesis by auto
    next
      case False
      with q have "mg_runners m t = Some q" by simp
      then show ?thesis using mgr_invD(1) [OF inv] w'(1) by blast
    qed
  next
    fix t t' q q'
    assume "mg_runners (m\<lparr>mg_runners := (mg_runners m)(tag \<mapsto> r')\<rparr>) t = Some q \<and>
      mg_runners (m\<lparr>mg_runners := (mg_runners m)(tag \<mapsto> r')\<rparr>) t' = Some q' \<and> t \<noteq> t'"
    then have q: "(if t = tag then Some r' else mg_runners m t) = Some q"
      "(if t' = tag then Some r' else mg_runners m t') = Some q'" "t \<noteq> t'" by simp_all
    show "addrs q \<inter> addrs q' = {}"
    proof (cases "t = tag")
      case True
      with q sep [of t' q'] show ?thesis by (simp add: inf_commute)
    next
      case False
      with q have "mg_runners m t = Some q" by simp
      with q False sep [of t q] mgr_invD(2) [OF inv, of t q t' q'] show ?thesis by (cases "t' = tag") auto
    qed
  qed
qed

lemma mgr_DelUsers_addrs:
  "map_option addrs \<circ> mg_runners (mgr_DelUsers DelUsers tag ids m) = map_option addrs \<circ> mg_runners m"
  by (auto simp: mgr_DelUsers_def del_addrs fun_eq_iff split: option.splits)

lemma mgr_inv_addrs:
  "mgr_inv m w \<longleftrightarrow> (\<forall>t a. (map_option addrs \<circ> mg_runners m) t = Some a \<longrightarrow> a \<subseteq> w)
     \<and> (\<forall>t t' a a'. (map_option addrs \<circ> mg_runners m) t = Some a \<and> (map_option addrs \<circ> mg_runners m) t' = Some a'
          \<and> t \<noteq> t' \<longrightarrow> a \<inter> a' = {})"
  unfolding mgr_inv_def by (simp add: map_option_case split: option.splits) blast

lemma mgr_inv_DelUsers: "mgr_inv m w \<Longrightarrow> mgr_inv (mgr_DelUsers DelUsers tag ids m) w"
  by (simp only: mgr_inv_addrs mgr_DelUsers_addrs)

lemma mgr_inv_call:
  assumes "mgr_inv m w" and "mgr_call proto NewRunner AddUsers DelUsers Close c (m, w) = (m', w')"
  shows "mgr_inv m' w'"
proof (cases c)
  case (CDel tag)
  with assms show ?thesis by (auto intro: mgr_Del_spec(1))
next
  case (CCloseAll order)
  with assms show ?thesis by (auto intro: mgr_inv_CloseAll split: if_splits)
next
  case (CAddUsers tag us)
  with assms show ?thesis
    by (cases "mgr_AddUsers AddUsers tag us m w") (auto intro: mgr_inv_AddUsers)
qed (use assms in \<open>auto simp: mgr_inv_SetDispatcher intro: mgr_inv_Add mgr_inv_DelUsers\<close>)

lemma mgr_net_call:
  assumes "mgr_inv m w" and "w = base \<union> mgr_addrs m" and "base \<inter> mgr_addrs m = {}"
    and "mgr_call proto NewRunner AddUsers DelUsers Close c (m, w) = (m', w')"
  shows "w' = base \<union> mgr_addrs m' \<and> base \<inter> mgr_addrs m' = {}"
proof -
  have upd: "mgr_addrs (m\<lparr>mg_runners := (mg_runners m)(t \<mapsto> r')\<rparr>) = addrs r' \<union> mgr_addrs (m\<lparr>mg_runners := (mg_runners m)(t := None)\<rparr>)" for t r'
    by (auto simp: mgr_addrs_def ran_def split: if_splits)
  have split: "mgr_addrs m = addrs r \<union> mgr_addrs (m\<lparr>mg_runners := (mg_runners m)(t := None)\<rparr>)" if "mg_runners m t = Some r" for t r
    using upd [of t r] that by (simp add: map_upd_triv)
  have dis: "addrs r \<inter> mgr_addrs (m\<lparr>mg_runners := (mg_runners m)(t := None)\<rparr>) = {}" if "mg_runners m t = Some r" for t r
    using mgr_invD(2) [OF assms(1) that] by (fastforce simp: mgr_addrs_def ran_def split: if_splits)
  show ?thesis
  proof (cases c)
    case (CSetDispatcher d)
    have "mgr_addrs (mgr_SetDispatcher d m) = mgr_addrs m" by (simp add: mgr_addrs_def mgr_SetDispatcher_def)
    with CSetDispatcher assms(2-4) show ?thesis by auto
  next
    case (CAdd t i)
    have "mgr_addrs (snd (mgr_Add proto NewRunner t i m)) = mgr_addrs m"
      by (cases "mg_runners m t = None") (simp_all add: mgr_Add_def mgr_addrs_def new_addrs)
    with CAdd assms show ?thesis by auto
  next
    case (CDel t)
    with assms show ?thesis using split [of t] dis [of t]
      by (cases "mg_runners m t") (auto simp: mgr_Del_def close_net)
  next
    case (CCloseAll order)
    with assms show ?thesis by (auto simp: mgr_CloseAll_spec split: if_splits) (simp_all add: mgr_addrs_def)
  next
    case (CAddUsers t us)
    obtain e m2 w2 where a: "mgr_AddUsers AddUsers t us m w = (e, m2, w2)" by (metis prod_cases3)
    with CAddUsers assms(4) have m': "m' = m2" "w' = w2" by auto
    from a show ?thesis
    proof (cases rule: mgr_AddUsers_cases)
      case 1
      with m' assms(2,3) show ?thesis by simp
    next
      case (2 r r')
      from add_addrs [OF 2(2)] show ?thesis
        using assms(2,3) split [OF 2(1)] dis [OF 2(1)] by (auto simp: m' 2(3) upd)
    qed
  next
    case (CDelUsers t us)
    with assms show ?thesis using split [of t]
      by (cases "mg_runners m t") (auto simp: mgr_DelUsers_def upd del_addrs)
  qed
qed

text \<open>
  Any sequence of calls from a new manager: the network is what it was plus the addresses of the runners that
  are there, so after a final \<open>CloseAll\<close> nothing is left open.
\<close>

lemma mgr_run:
  assumes "fold (mgr_call proto NewRunner AddUsers DelUsers Close) cs (mgr_New, base) = (m, w)"
  shows "mgr_inv m w \<and> w = base \<union> mgr_addrs m \<and> base \<inter> mgr_addrs m = {}"
  using assms
proof (induction cs arbitrary: m w rule: rev_induct)
  case Nil
  then show ?case by (auto simp: mgr_inv_New mgr_addrs_def mgr_New_def mgr_inv_def)
next
  case (snoc c cs)
  obtain m1 w1 where b: "fold (mgr_call proto NewRunner AddUsers DelUsers Close) cs (mgr_New, base) = (m1, w1)" by force
  with snoc.prems have "mgr_call proto NewRunner AddUsers DelUsers Close c (m1, w1) = (m, w)" by simp
  with snoc.IH [OF b] show ?case using mgr_inv_call mgr_net_call by blast
qed

lemma close_all_returns:
  assumes "fold (mgr_call proto NewRunner AddUsers DelUsers Close) cs (mgr_New, base) = (m, w)"
    and "range_order order (mg_runners m)"
  shows "mgr_call proto NewRunner AddUsers DelUsers Close (CCloseAll order) (m, w) = (m\<lparr>mg_runners := Map.empty\<rparr>, base)"
  using mgr_run [OF assms(1)] assms(2) by (auto simp: mgr_CloseAll_spec)

text \<open>Adding a node and deleting it again before it has users.\<close>

lemma add_del:
  assumes "\<not> mgr_Has tag m" and "mgr_Add proto NewRunner tag info m = (e, m')" and "mgr_Has tag m'"
  shows "mgr_Del Close tag m' w = (m, w)"
  using assms by (auto simp: mgr_Add_def mgr_Del_def mgr_Has_def close_net new_addrs fun_upd_idem split: if_splits)

lemma add_fails: "mgr_Add proto NewRunner tag info m = (e, m') \<Longrightarrow> \<not> mgr_Has tag m' \<Longrightarrow> m' = m"
  by (auto simp: mgr_Add_def mgr_Has_def split: if_splits)

end

text \<open>
  \<open>served r\<close> are the users a new connection can authenticate as. A revoking runner serves only users it has been
  given, and \<open>DelUsers\<close> takes effect for new connections at once. \<open>ok us r\<close> is the condition on the user lists under
  which this holds.
\<close>

locale revoking_runner = runner +
  fixes served :: "'a \<Rightarrow> string set"
    and known :: "'a \<Rightarrow> string set"
    and good :: "'a \<Rightarrow> bool"
    and ok :: "UserInfo list \<Rightarrow> 'a \<Rightarrow> bool"
  assumes good_new: "good (NewRunner tag info)"
    and good_add: "good r \<Longrightarrow> ok us r \<Longrightarrow> AddUsers us r w = (e, r', w') \<Longrightarrow> good r'"
    and good_del: "good r \<Longrightarrow> good (DelUsers ids r)"
    and served_known: "good r \<Longrightarrow> served r \<subseteq> known r"
    and known_new: "known (NewRunner tag info) = {}"
    and known_add: "AddUsers us r w = (e, r', w') \<Longrightarrow> known r' \<subseteq> known r \<union> ui_Uuid ` set us"
    and known_del: "good r \<Longrightarrow> known (DelUsers ids r) \<subseteq> known r - set ids"
begin

lemma revoked:
  assumes "good r" and "mg_runners m tag = Some r"
    and "mg_runners (mgr_DelUsers DelUsers tag uuids m) tag = Some r'"
  shows "good r' \<and> served r' \<inter> set uuids = {} \<and> served r' \<subseteq> known r - set uuids"
proof -
  from assms have r': "r' = DelUsers uuids r" by (simp add: mgr_DelUsers_def)
  from good_del [OF assms(1)] have g: "good r'" by (simp add: r')
  from served_known [OF g] known_del [OF assms(1), of uuids] show ?thesis by (auto simp: r' g good_del assms(1))
qed

text \<open>
  All runners of a manager are good after any sequence of calls whose user lists are acceptable. \<open>Q\<close> is what the
  accepted lists (\<open>C\<close>) keep of a runner and what makes the next such list acceptable to it.
\<close>

lemma run_good:
  assumes run: "fold (mgr_call proto NewRunner AddUsers DelUsers Close) cs (mgr_New, base) = (m, w)"
    and r: "mg_runners m tag = Some r"
    and C: "\<And>t us. CAddUsers t us \<in> set cs \<Longrightarrow> C us"
    and Q_new: "\<And>t i. Q (NewRunner t i)"
    and Q_ok: "\<And>us r. Q r \<Longrightarrow> C us \<Longrightarrow> ok us r"
    and Q_add: "\<And>us r w e r' w'. Q r \<Longrightarrow> C us \<Longrightarrow> AddUsers us r w = (e, r', w') \<Longrightarrow> Q r'"
    and Q_del: "\<And>ids r. Q r \<Longrightarrow> Q (DelUsers ids r)"
  shows "good r \<and> Q r"
  using run r C
proof (induction cs arbitrary: m w tag r rule: rev_induct)
  case Nil
  then show ?case by (auto simp: mgr_New_def)
next
  case (snoc c cs)
  obtain m1 w1 where b: "fold (mgr_call proto NewRunner AddUsers DelUsers Close) cs (mgr_New, base) = (m1, w1)" by force
  with snoc.prems have call: "mgr_call proto NewRunner AddUsers DelUsers Close c (m1, w1) = (m, w)" by simp
  have ih: "mg_runners m1 t = Some q \<Longrightarrow> good q \<and> Q q" for t q
    by (rule snoc.IH [OF b]) (auto intro: snoc.prems(3))
  show ?case
  proof (cases c)
    case (CAddUsers t us)
    obtain e m2 w2 where a: "mgr_AddUsers AddUsers t us m1 w1 = (e, m2, w2)" by (metis prod_cases3)
    with call CAddUsers have m: "m = m2" by simp
    have us: "C us" by (rule snoc.prems(3) [of t]) (simp add: CAddUsers)
    from a show ?thesis
    proof (cases rule: mgr_AddUsers_cases)
      case 1
      with ih snoc.prems(2) m show ?thesis by simp
    next
      case (2 q q')
      with ih Q_ok [OF _ us] good_add Q_add [OF _ us] have "good q' \<and> Q q'" by blast
      with 2 ih snoc.prems(2) m show ?thesis by (cases "tag = t") auto
    qed
  next
    case (CAdd t i)
    with call snoc.prems(2) ih good_new Q_new show ?thesis
      by (cases "tag = t") (auto simp: mgr_Add_def split: if_splits)
  next
    case (CDelUsers t ids)
    with call snoc.prems(2) ih good_del Q_del show ?thesis
      by (cases "tag = t") (auto simp: mgr_DelUsers_def split: option.splits)
  qed (use call snoc.prems(2) ih in \<open>auto simp: mgr_SetDispatcher_def mgr_Del_def mgr_CloseAll_def split: option.splits if_splits\<close>)
qed

end

end
