(* ===== verification/Snell_Trial.thy ===== *)
theory Snell_Trial
  imports Go_Prelude "HOL-Library.Multiset"
begin

text \<open>
  Identifying a Snell v4/v5 user (\<open>common/snell/trial.go\<close>): the client sends no user tag, so the service tries the
  key of every user on the same first bytes. \<open>rewindConn\<close> records what an attempt reads and replays it to the
  next; \<open>trialService\<close> keeps the keys in an order in which recently matched users come first. Bytes are
  characters. The decryption by one key (sing-snell) is an argument: from the stream it can read it determines
  the reads it makes and whether the key fits.
\<close>

section \<open>The connection that is replayed\<close>

record rewindConn =
  rw_Conn :: string
  rw_buf :: string
  rw_off :: nat
  rw_recording :: bool

definition newRewindConn :: "string \<Rightarrow> rewindConn" where
  "newRewindConn c = \<lparr>rw_Conn = c, rw_buf = [], rw_off = 0, rw_recording = True\<rparr>"

text \<open>
  \<open>Read\<close> into a buffer of \<open>p\<close> bytes; when it reads the connection below, that returns \<open>n\<close> bytes, limited by the
  buffer and by what there is.
\<close>

definition rw_Read :: "nat \<Rightarrow> nat \<Rightarrow> rewindConn \<Rightarrow> string \<times> rewindConn" where
  "rw_Read p n c =
     (if rw_off c < length (rw_buf c) then
        (let d = take p (drop (rw_off c) (rw_buf c)) in (d, c\<lparr>rw_off := rw_off c + length d\<rparr>))
      else
        (let d = take (min p n) (rw_Conn c);
             c' = c\<lparr>rw_Conn := drop (length d) (rw_Conn c)\<rparr>
         in if 0 < length d \<and> rw_recording c
            then (d, c'\<lparr>rw_buf := rw_buf c @ d, rw_off := length (rw_buf c @ d)\<rparr>)
            else (d, c')))"

definition rw_Rewind :: "rewindConn \<Rightarrow> rewindConn" where
  "rw_Rewind c = c\<lparr>rw_off := 0\<rparr>"

definition rw_Commit :: "rewindConn \<Rightarrow> rewindConn" where
  "rw_Commit c =
     (if rw_off c < length (rw_buf c) then c\<lparr>rw_buf := drop (rw_off c) (rw_buf c), rw_off := 0, rw_recording := False\<rparr>
      else c\<lparr>rw_buf := [], rw_off := 0, rw_recording := False\<rparr>)"

fun rw_reads :: "(nat \<times> nat) list \<Rightarrow> rewindConn \<Rightarrow> string \<times> rewindConn" where
  "rw_reads [] c = ([], c)"
| "rw_reads ((p, n) # ps) c = (let (d, c') = rw_Read p n c; (d', c'') = rw_reads ps c' in (d @ d', c''))"

text \<open>What the connection will still deliver, and the whole stream while it is recorded.\<close>

definition rw_rest :: "rewindConn \<Rightarrow> string" where
  "rw_rest c = drop (rw_off c) (rw_buf c) @ rw_Conn c"

definition rw_stream :: "rewindConn \<Rightarrow> string" where
  "rw_stream c = rw_buf c @ rw_Conn c"

definition rw_inv :: "rewindConn \<Rightarrow> bool" where
  "rw_inv c \<longleftrightarrow> rw_off c \<le> length (rw_buf c)"

section \<open>The trial service\<close>

record trialCred =
  tr_psk :: string
  tr_uuid :: string

definition trial_newSet :: "string list \<Rightarrow> string list \<Rightarrow> (string \<rightharpoonup> string)" where
  "trial_newSet users keys = fold (\<lambda>(u, k) m. if k \<noteq> [] then m(u \<mapsto> k) else m) (zip users keys) Map.empty"

definition trial_UpdateUsers :: "((string \<rightharpoonup> string) \<Rightarrow> string list) \<Rightarrow> string list \<Rightarrow> string list \<Rightarrow> trialCred list \<Rightarrow> trialCred list" where
  "trial_UpdateUsers order users keys creds =
     (let newSet = trial_newSet users keys;
          kept = concat (map (\<lambda>c. case newSet (tr_uuid c) of None \<Rightarrow> [] | Some psk \<Rightarrow> [\<lparr>tr_psk = psk, tr_uuid = tr_uuid c\<rparr>]) creds);
          seen = set (map tr_uuid kept)
      in kept @ concat (map (\<lambda>u. case newSet u of
                                    None \<Rightarrow> []
                                  | Some psk \<Rightarrow> if u \<in> seen then [] else [\<lparr>tr_psk = psk, tr_uuid = u\<rparr>]) (order newSet)))"

fun cred_index :: "string \<Rightarrow> trialCred list \<Rightarrow> nat option" where
  "cred_index uuid [] = None"
| "cred_index uuid (c # cs) = (if tr_uuid c = uuid then Some 0 else map_option Suc (cred_index uuid cs))"

definition promote :: "string \<Rightarrow> trialCred list \<Rightarrow> trialCred list" where
  "promote uuid creds =
     (if creds = [] \<or> tr_uuid (hd creds) = uuid then creds
      else (case cred_index uuid creds of
              None \<Rightarrow> creds
            | Some idx \<Rightarrow> creds ! idx # take idx creds @ drop (idx + 1) creds))"

text \<open>
  \<open>psk_ok psk\<close>: a service can be built for the key. \<open>attempt psk s\<close>: the reads of that service on the stream
  \<open>s\<close> and whether it reaches its handler. The loop of \<open>NewConnection\<close> returns the matched user, the bytes the matched
  service had read when it reached the handler, and the connection as the handler gets it.
\<close>

fun trial_loop :: "(string \<Rightarrow> bool) \<Rightarrow> (string \<Rightarrow> string \<Rightarrow> (nat \<times> nat) list \<times> bool) \<Rightarrow> trialCred list \<Rightarrow> rewindConn
    \<Rightarrow> (string \<times> string \<times> rewindConn) option" where
  "trial_loop psk_ok attempt [] rw = None"
| "trial_loop psk_ok attempt (c # cs) rw =
     (let rw0 = rw_Rewind rw in
      if \<not> psk_ok (tr_psk c) then trial_loop psk_ok attempt cs rw0
      else (case attempt (tr_psk c) (rw_rest rw0) of
              (reads, invoked) \<Rightarrow>
                (let (d, rw1) = rw_reads reads rw0 in
                 if invoked then Some (tr_uuid c, d, rw_Commit rw1) else trial_loop psk_ok attempt cs rw1)))"

definition trial_NewConnection ::
  "(string \<Rightarrow> bool) \<Rightarrow> (string \<Rightarrow> string \<Rightarrow> (nat \<times> nat) list \<times> bool) \<Rightarrow> string \<Rightarrow> trialCred list
     \<Rightarrow> (string \<times> string \<times> rewindConn) option \<times> trialCred list" where
  "trial_NewConnection psk_ok attempt conn creds =
     (case trial_loop psk_ok attempt creds (newRewindConn conn) of
        None \<Rightarrow> (None, creds)
      | Some (uuid, d, rw) \<Rightarrow> (Some (uuid, d, rw), promote uuid creds))"

section \<open>Lemmas\<close>

lemma rw_Read_spec:
  assumes "rw_inv c" and "rw_Read p n c = (d, c')"
  shows "rw_inv c'" "rw_rest c = d @ rw_rest c'" "rw_recording c' = rw_recording c"
    "rw_recording c \<Longrightarrow> rw_stream c' = rw_stream c"
proof -
  have d: "take k xs @ drop (length (take k xs)) xs = xs" for k and xs :: string
    by (metis append_take_drop_id length_take min_def take_all_iff drop_all order_refl nle_le)
  show "rw_recording c' = rw_recording c"
    using assms(2) by (auto simp: rw_Read_def Let_def split: if_splits)
  show "rw_inv c'"
    using assms by (auto simp: rw_Read_def rw_inv_def Let_def split: if_splits)
  show "rw_rest c = d @ rw_rest c'"
  proof (cases "rw_off c < length (rw_buf c)")
    case True
    with assms(2) have dd: "d = take p (drop (rw_off c) (rw_buf c))" "c' = c\<lparr>rw_off := rw_off c + length d\<rparr>"
      by (auto simp: rw_Read_def Let_def)
    have "drop (rw_off c) (rw_buf c) = d @ drop (length d) (drop (rw_off c) (rw_buf c))" by (simp only: dd(1) d)
    then show ?thesis by (simp add: rw_rest_def dd(2) add.commute)
  next
    case False
    with assms have "rw_off c = length (rw_buf c)" by (simp add: rw_inv_def)
    with assms(2) d [of "min p n" "rw_Conn c"] show ?thesis
      by (auto simp: rw_Read_def rw_rest_def Let_def split: if_splits)
  qed
  assume "rw_recording c"
  with assms(2) d [of "min p n" "rw_Conn c"] show "rw_stream c' = rw_stream c"
    by (auto simp: rw_Read_def rw_stream_def Let_def split: if_splits)
qed

lemma rw_reads_spec:
  assumes "rw_inv c" and "rw_reads ps c = (d, c')"
  shows "rw_inv c' \<and> rw_rest c = d @ rw_rest c' \<and> rw_recording c' = rw_recording c
    \<and> (rw_recording c \<longrightarrow> rw_stream c' = rw_stream c)"
  using assms
proof (induction ps arbitrary: c d)
  case (Cons q ps)
  obtain p n where q: "q = (p, n)" by force
  obtain d1 c1 where r: "rw_Read p n c = (d1, c1)" by force
  obtain d2 where rs: "rw_reads ps c1 = (d2, c')" "d = d1 @ d2" using Cons.prems(2) by (auto simp: q r split: prod.splits)
  show ?case
    using rw_Read_spec [OF Cons.prems(1) r] Cons.IH [OF _ rs(1)] rs(2) by auto
qed simp

lemma rw_Rewind_rest: "rw_rest (rw_Rewind c) = rw_stream c" "rw_inv (rw_Rewind c)"
  "rw_stream (rw_Rewind c) = rw_stream c" "rw_recording (rw_Rewind c) = rw_recording c"
  by (simp_all add: rw_rest_def rw_stream_def rw_Rewind_def rw_inv_def)

lemma rw_Commit_rest: "rw_inv c \<Longrightarrow> rw_rest (rw_Commit c) = rw_rest c" "\<not> rw_recording (rw_Commit c)" "rw_inv (rw_Commit c)"
  by (auto simp: rw_rest_def rw_Commit_def rw_inv_def)

lemma cred_index_Some:
  "cred_index u cs = Some i \<Longrightarrow> i < length cs \<and> tr_uuid (cs ! i) = u"
  by (induction cs arbitrary: i) (auto split: if_splits)

lemma promote_mset: "mset (promote uuid creds) = mset creds"
proof (cases "creds = [] \<or> tr_uuid (hd creds) = uuid \<or> cred_index uuid creds = None")
  case False
  then obtain i where i: "cred_index uuid creds = Some i" by auto
  from cred_index_Some [OF i] have "creds = take i creds @ creds ! i # drop (i + 1) creds"
    by (simp add: id_take_nth_drop)
  then have "mset creds = mset (take i creds) + add_mset (creds ! i) (mset (drop (i + 1) creds))"
    by (metis mset.simps(2) mset_append)
  with False i show ?thesis by (simp add: promote_def)
qed (auto simp: promote_def)

lemma promote_front:
  "c \<in> set creds \<Longrightarrow> tr_uuid c = uuid \<Longrightarrow> tr_uuid (hd (promote uuid creds)) = uuid"
proof -
  assume c: "c \<in> set creds" "tr_uuid c = uuid"
  then have "cred_index uuid creds \<noteq> None" by (induction creds) auto
  then obtain i where "cred_index uuid creds = Some i" by auto
  with cred_index_Some [OF this] c show ?thesis by (auto simp: promote_def)
qed

definition fits :: "(string \<Rightarrow> bool) \<Rightarrow> (string \<Rightarrow> string \<Rightarrow> (nat \<times> nat) list \<times> bool) \<Rightarrow> string \<Rightarrow> trialCred \<Rightarrow> bool" where
  "fits psk_ok attempt s c \<longleftrightarrow> psk_ok (tr_psk c) \<and> snd (attempt (tr_psk c) s)"

lemma trial_loop_spec:
  assumes "rw_recording rw" and "rw_stream rw = s" and "rw_inv rw"
  shows "case trial_loop psk_ok attempt cs rw of
      None \<Rightarrow> List.find (fits psk_ok attempt s) cs = None
    | Some (uuid, d, rw') \<Rightarrow> (\<exists>c rw0. List.find (fits psk_ok attempt s) cs = Some c \<and> tr_uuid c = uuid
          \<and> rw_rest rw0 = s \<and> d = fst (rw_reads (fst (attempt (tr_psk c) s)) rw0))
        \<and> s = d @ rw_rest rw' \<and> \<not> rw_recording rw'"
  using assms
proof (induction cs arbitrary: rw)
  case (Cons c cs)
  define rw0 where "rw0 = rw_Rewind rw"
  have rw0: "rw_rest rw0 = s" "rw_inv rw0" "rw_stream rw0 = s" "rw_recording rw0"
    using Cons.prems by (simp_all add: rw0_def rw_Rewind_rest)
  obtain reads invoked where at: "attempt (tr_psk c) s = (reads, invoked)" by force
  obtain d rw1 where rs: "rw_reads reads rw0 = (d, rw1)" by force
  note rw1 = rw_reads_spec [OF rw0(2) rs]
  show ?case
  proof (cases "fits psk_ok attempt s c")
    case True
    with at have "trial_loop psk_ok attempt (c # cs) rw = Some (tr_uuid c, d, rw_Commit rw1)"
      by (simp add: fits_def rw0_def [symmetric] rw0(1) rs Let_def)
    moreover have "s = d @ rw_rest (rw_Commit rw1) \<and> \<not> rw_recording (rw_Commit rw1)"
      using rw1 rw0(1) by (simp add: rw_Commit_rest)
    moreover have "\<exists>c' rw0. List.find (fits psk_ok attempt s) (c # cs) = Some c' \<and> tr_uuid c' = tr_uuid c
        \<and> rw_rest rw0 = s \<and> d = fst (rw_reads (fst (attempt (tr_psk c') s)) rw0)"
      using True at rs rw0(1) by (intro exI [of _ c] exI [of _ rw0]) simp
    ultimately show ?thesis by (simp only: option.case prod.case simp_thms)
  next
    case False
    have eq: "trial_loop psk_ok attempt (c # cs) rw = trial_loop psk_ok attempt cs (if psk_ok (tr_psk c) then rw1 else rw0)"
      using False at by (auto simp: fits_def rw0_def [symmetric] rw0(1) rs Let_def)
    have "rw_recording (if psk_ok (tr_psk c) then rw1 else rw0)"
      "rw_stream (if psk_ok (tr_psk c) then rw1 else rw0) = s" "rw_inv (if psk_ok (tr_psk c) then rw1 else rw0)"
      using rw0 rw1 by simp_all
    note ih = Cons.IH [OF this]
    have f: "List.find (fits psk_ok attempt s) (c # cs) = List.find (fits psk_ok attempt s) cs" using False by simp
    show ?thesis unfolding eq f by (rule ih)
  qed
qed simp

text \<open>An update, in terms of the new set \<open>n\<close>: survivors in their old order, then the rest in map order.\<close>

lemma kept_creds:
  "concat (map (\<lambda>c. case n (tr_uuid c) of None \<Rightarrow> [] | Some psk \<Rightarrow> [\<lparr>tr_psk = psk, tr_uuid = tr_uuid c\<rparr>]) creds)
     = map (\<lambda>u. \<lparr>tr_psk = the (n u), tr_uuid = u\<rparr>) (filter (\<lambda>u. u \<in> dom n) (map tr_uuid creds))"
  by (induction creds) (auto split: option.split)

lemma new_creds:
  "concat (map (\<lambda>u. case n u of None \<Rightarrow> [] | Some psk \<Rightarrow> if u \<in> seen then [] else [\<lparr>tr_psk = psk, tr_uuid = u\<rparr>]) us)
     = map (\<lambda>u. \<lparr>tr_psk = the (n u), tr_uuid = u\<rparr>) (filter (\<lambda>u. u \<in> dom n \<and> u \<notin> seen) us)"
  by (induction us) (auto split: option.split)

lemma trial_UpdateUsers_eq:
  assumes "n = trial_newSet users keys"
  shows "trial_UpdateUsers order users keys creds =
    (let old = filter (\<lambda>u. u \<in> dom n) (map tr_uuid creds)
     in map (\<lambda>u. \<lparr>tr_psk = the (n u), tr_uuid = u\<rparr>) (old @ filter (\<lambda>u. u \<in> dom n \<and> u \<notin> set old) (order n)))"
proof -
  define old where "old = filter (\<lambda>u. u \<in> dom n) (map tr_uuid creds)"
  have seen: "set (map tr_uuid (map (\<lambda>u. \<lparr>tr_psk = the (n u), tr_uuid = u\<rparr>) old)) = set old" by (simp add: image_image)
  show ?thesis
    unfolding trial_UpdateUsers_def assms [symmetric] kept_creds Let_def old_def [symmetric] seen new_creds map_append ..
qed

section \<open>Properties\<close>

text \<open>
  Claim C9. The trial finds the first user of the list whose key fits the stream the client sent: every attempt, however
  much it reads and in whatever portions, sees the stream from its first byte. The handler of the
  matched user then gets exactly what remains of the stream after the bytes \<open>d\<close> that the matching attempt read, with no byte
  lost or repeated: also what earlier attempts had read beyond that. The list afterwards has the same keys, with the
  matched user in front.
\<close>

theorem trial_finds_first_fit:
  "case trial_NewConnection psk_ok attempt s creds of
     (None, creds') \<Rightarrow> (\<forall>c\<in>set creds. \<not> fits psk_ok attempt s c) \<and> creds' = creds
   | (Some (uuid, d, rw), creds') \<Rightarrow>
       (\<exists>c rw0. List.find (fits psk_ok attempt s) creds = Some c \<and> tr_uuid c = uuid
          \<and> rw_rest rw0 = s \<and> d = fst (rw_reads (fst (attempt (tr_psk c) s)) rw0))
       \<and> s = d @ rw_rest rw \<and> \<not> rw_recording rw
       \<and> mset creds' = mset creds \<and> tr_uuid (hd creds') = uuid"
proof -
  have init: "rw_recording (newRewindConn s)" "rw_stream (newRewindConn s) = s" "rw_inv (newRewindConn s)"
    by (simp_all add: newRewindConn_def rw_stream_def rw_inv_def)
  note loop = trial_loop_spec [OF init, of psk_ok attempt creds]
  show ?thesis
  proof (cases "trial_loop psk_ok attempt creds (newRewindConn s)")
    case None
    with loop show ?thesis by (simp add: trial_NewConnection_def find_None_iff)
  next
    case (Some r)
    then obtain uuid d rw where r: "trial_loop psk_ok attempt creds (newRewindConn s) = Some (uuid, d, rw)" by (cases r) auto
    note found = loop [unfolded r option.case prod.case]
    from found [THEN conjunct1] obtain c rw0 where c: "List.find (fits psk_ok attempt s) creds = Some c" "tr_uuid c = uuid"
      "rw_rest rw0 = s" "d = fst (rw_reads (fst (attempt (tr_psk c) s)) rw0)" by (elim exE conjE)
    moreover from c(1) have "c \<in> set creds" by (metis find_Some_iff nth_mem)
    ultimately have first: "tr_uuid (hd (promote uuid creds)) = uuid" using promote_front by blast
    have match: "\<exists>c rw0. List.find (fits psk_ok attempt s) creds = Some c \<and> tr_uuid c = uuid
          \<and> rw_rest rw0 = s \<and> d = fst (rw_reads (fst (attempt (tr_psk c) s)) rw0)" (is ?match)
      using c by (intro exI [of _ c] exI [of _ rw0] conjI)
    have "trial_NewConnection psk_ok attempt s creds = (Some (uuid, d, rw), promote uuid creds)"
      by (simp only: trial_NewConnection_def r option.case prod.case)
    then have eq: "?thesis \<longleftrightarrow> ?match \<and> (s = d @ rw_rest rw \<and> \<not> rw_recording rw)
        \<and> mset (promote uuid creds) = mset creds \<and> tr_uuid (hd (promote uuid creds)) = uuid"
      by (simp only: option.case prod.case conj_assoc)
    show ?thesis
      by (rule eq [THEN iffD2], rule conjI [OF match conjI [OF found [THEN conjunct2] conjI [OF promote_mset first]]])
  qed
qed

theorem trial_finds_first_fit_witness:
  "\<exists>rw creds'. trial_NewConnection (\<lambda>k. True) (\<lambda>k s. (if k = ''a'' then [(2, 1), (2, 2)] else [(1, 1)], take 1 s = k)) ''bcd''
      [\<lparr>tr_psk = ''a'', tr_uuid = ''u1''\<rparr>, \<lparr>tr_psk = ''b'', tr_uuid = ''u2''\<rparr>] = (Some (''u2'', ''b'', rw), creds')
    \<and> rw_rest rw = ''cd''"
proof -
  let ?at = "\<lambda>k s. (if k = ''a'' then [(2, 1), (2, 2)] else [(1, 1)], take 1 s = k)"
  let ?cs = "[\<lparr>tr_psk = ''a'', tr_uuid = ''u1''\<rparr>, \<lparr>tr_psk = ''b'', tr_uuid = ''u2''\<rparr>]"
  have t: "trial_NewConnection (\<lambda>k. True) ?at ''bcd'' ?cs
      = (Some (''u2'', ''b'', \<lparr>rw_Conn = [], rw_buf = ''cd'', rw_off = 0, rw_recording = False\<rparr>), promote ''u2'' ?cs)"
    by (simp add: trial_NewConnection_def newRewindConn_def rw_Rewind_def rw_rest_def rw_Read_def rw_Commit_def Let_def)
  from trial_finds_first_fit [where psk_ok = "\<lambda>k. True" and attempt = ?at and s = "''bcd''" and creds = ?cs, unfolded t] have "''bcd'' = ''b'' @ rw_rest \<lparr>rw_Conn = [], rw_buf = ''cd'', rw_off = 0, rw_recording = False\<rparr>"
    by (simp only: prod.case option.case)
  then show ?thesis using t by auto
qed

text \<open>
  Updating the users of the trial service leaves exactly the users with a non-empty key, each once and
  with its current key, and keeps the learned order: the users that stay are tried before the new ones, in
  the order they had.
\<close>

theorem trial_update_keeps_order:
  assumes "distinct (map tr_uuid creds)"
    and "range_order (order (trial_newSet users keys)) (trial_newSet users keys)"
    and "creds' = trial_UpdateUsers order users keys creds"
  shows "distinct (map tr_uuid creds')
    \<and> set creds' = {c. trial_newSet users keys (tr_uuid c) = Some (tr_psk c)}
    \<and> (\<exists>new. map tr_uuid creds' = filter (\<lambda>u. u \<in> dom (trial_newSet users keys)) (map tr_uuid creds) @ new)"
proof -
  define n where "n = trial_newSet users keys"
  define old where "old = filter (\<lambda>u. u \<in> dom n) (map tr_uuid creds)"
  define new where "new = filter (\<lambda>u. u \<in> dom n \<and> u \<notin> set old) (order n)"
  have eq: "creds' = map (\<lambda>u. \<lparr>tr_psk = the (n u), tr_uuid = u\<rparr>) (old @ new)"
    using trial_UpdateUsers_eq [OF n_def] assms(3) by (simp add: old_def new_def Let_def)
  have uu: "map tr_uuid creds' = old @ new" by (simp add: eq o_def)
  have ord: "distinct (order n)" "set (order n) = dom n" using assms(2) by (simp_all add: n_def range_order_def)
  have "set (old @ new) = dom n" using ord(2) by (auto simp: old_def new_def)
  then have "set creds' = (\<lambda>u. \<lparr>tr_psk = the (n u), tr_uuid = u\<rparr>) ` dom n" unfolding eq set_map by simp
  also have "\<dots> = {c. n (tr_uuid c) = Some (tr_psk c)}"
  proof (intro equalityI subsetI)
    fix c :: trialCred assume "c \<in> {c. n (tr_uuid c) = Some (tr_psk c)}"
    then have "c = \<lparr>tr_psk = the (n (tr_uuid c)), tr_uuid = tr_uuid c\<rparr>" "tr_uuid c \<in> dom n" by auto
    then show "c \<in> (\<lambda>u. \<lparr>tr_psk = the (n u), tr_uuid = u\<rparr>) ` dom n" by blast
  qed auto
  finally have set_eq: "set creds' = {c. n (tr_uuid c) = Some (tr_psk c)}" .
  have "distinct (old @ new)" using assms(1) ord(1) by (auto simp: old_def new_def)
  with set_eq uu show ?thesis unfolding n_def old_def by auto
qed

theorem trial_update_keeps_order_witness:
  "map tr_uuid (trial_UpdateUsers (\<lambda>n. [''x'', ''y'']) [''x'', ''y''] [''1'', ''2''] [\<lparr>tr_psk = ''0'', tr_uuid = ''y''\<rparr>]) = [''y'', ''x'']"
proof -
  let ?n = "trial_newSet [''x'', ''y''] [''1'', ''2'']"
  have n: "?n = [''x'' \<mapsto> ''1'', ''y'' \<mapsto> ''2'']" by (simp add: trial_newSet_def)
  have "range_order [''x'', ''y''] ?n" by (auto simp: n range_order_def)
  from trial_update_keeps_order [where order = "\<lambda>n. [''x'', ''y'']" and creds = "[\<lparr>tr_psk = ''0'', tr_uuid = ''y''\<rparr>]", OF _ this refl]
  show ?thesis by (simp add: n trial_UpdateUsers_def Let_def)
qed

end
