(* ===== verification/Panel_Api.thy ===== *)
theory Panel_Api
  imports Panel_Types Conf
begin

text \<open>
  The client of the panel API (\<open>api/v2board\<close>): the requests of \<open>panel.go\<close>, \<open>node.go\<close> and \<open>user.go\<close> with
  everything they do before and after the HTTP exchange. The exchange itself is an argument: a transport
  error, no response at all, or the response. What the JSON decoder makes of a body is an argument as well,
  one function per struct the source decodes into (\<open>json_codec\<close>), with the ignored errors of
  \<open>_ = json.Unmarshal\<close> already turned into the zero values they leave.
\<close>

section \<open>Client and transport\<close>

record http_client =
  hc_RetryCount :: int
  hc_Timeout :: int
  hc_BaseURL :: string
  hc_QueryParams :: "string \<rightharpoonup> string"
  hc_Strategy :: string

record Client =
  cl_client :: http_client
  cl_APIHost :: string
  cl_Token :: string
  cl_NodeId :: int
  cl_NodeType :: string
  cl_nodeEtag :: string
  cl_userEtag :: string
  cl_UserList :: "UserInfo list"
  cl_AliveMap :: "int \<rightharpoonup> int"

definition panel_New :: "NodeConfig \<Rightarrow> Client" where
  "panel_New c =
     (let nt = ToLower (nc_NodeType c);
          nodeType = (if nt \<noteq> [] then nt else ''v2node'')
      in \<lparr>cl_client = \<lparr>hc_RetryCount = 3,
                        hc_Timeout = (if 0 < nc_Timeout c then i64 (nc_Timeout c * 1000000000) else 5000000000),
                        hc_BaseURL = nc_APIHost c,
                        hc_QueryParams = [''node_type'' \<mapsto> nodeType, ''node_id'' \<mapsto> Itoa (nc_NodeID c), ''token'' \<mapsto> nc_Key c],
                        hc_Strategy = nc_ApiIPStrategy c\<rparr>,
          cl_APIHost = nc_APIHost c, cl_Token = nc_Key c, cl_NodeId = nc_NodeID c, cl_NodeType = nt,
          cl_nodeEtag = [], cl_userEtag = [], cl_UserList = [], cl_AliveMap = Map.empty\<rparr>)"

text \<open>\<open>dial network\<close> is what \<open>net.Dialer.DialContext\<close> returns for the address on that network.\<close>

definition ipStrategyDialer :: "string \<Rightarrow> (string \<Rightarrow> goerror + 'c) \<Rightarrow> string \<Rightarrow> goerror + 'c" where
  "ipStrategyDialer strategy dial network =
     (if ToLower strategy = ''ipv4'' then dial (if network = ''tcp'' then ''tcp4'' else network)
      else if ToLower strategy = ''ipv6'' then dial (if network = ''tcp'' then ''tcp6'' else network)
      else if network = ''tcp'' then
        (case dial ''tcp4'' of Inr conn \<Rightarrow> Inr conn | Inl e \<Rightarrow> dial ''tcp6'')
      else dial network)"

text \<open>The result of a GET: an error, a nil response, or a body.\<close>

type_synonym 'b reply = "goerror + 'b option"

section \<open>TLS settings\<close>

definition EffectiveServerNames :: "TlsSettings \<Rightarrow> string list" where
  "EffectiveServerNames t =
     (if ts_ServerNames t \<noteq> [] then ts_ServerNames t
      else if ts_ServerName t = [] then []
      else if CHR '','' \<in> set (ts_ServerName t) then
        (let names = filter (\<lambda>p. p \<noteq> []) (map TrimSpace (Split CHR '','' (ts_ServerName t)))
         in if names \<noteq> [] then names else [ts_ServerName t])
      else [ts_ServerName t])"

definition EffectiveShortIds :: "TlsSettings \<Rightarrow> string list" where
  "EffectiveShortIds t =
     (if ts_ShortIds t \<noteq> [] then ts_ShortIds t else if ts_ShortId t = [] then [] else [ts_ShortId t])"

definition PrimaryServerName :: "TlsSettings \<Rightarrow> string" where
  "PrimaryServerName t = (case EffectiveServerNames t of [] \<Rightarrow> [] | n # _ \<Rightarrow> n)"

section \<open>Node configuration\<close>

definition intervalToTime :: "any_val \<Rightarrow> int outcome" where
  "intervalToTime i =
     (case i of
        ANil \<Rightarrow> Return (60 * 1000000000)
      | AString s \<Rightarrow> Return (i64 (fst (Atoi s) * 1000000000))
      | AFloat64 x \<Rightarrow> Return (i64 (x * 1000000000))
      | ABool b \<Rightarrow> Panic ''reflect: call of reflect.Value.Int on bool Value''
      | AComposite \<Rightarrow> Panic ''reflect: call of reflect.Value.Int on composite Value'')"

text \<open>\<open>filepath.Join\<close> of a rooted directory and a name: the elements of the path with \<open>.\<close> and \<open>..\<close> resolved.\<close>

fun clean_elems :: "string list \<Rightarrow> string list \<Rightarrow> string list" where
  "clean_elems acc [] = rev acc"
| "clean_elems acc (e # es) =
     (if e = [] \<or> e = ''.'' then clean_elems acc es
      else if e = ''..'' then clean_elems (tl acc) es
      else clean_elems (e # acc) es)"

definition filepath_Join :: "string \<Rightarrow> string \<Rightarrow> string" where
  "filepath_Join dir name = ''/'' @ Join (clean_elems [] (Split CHR ''/'' (dir @ ''/'' @ name))) ''/''"

definition default_cert_path :: "string \<Rightarrow> int \<Rightarrow> string \<Rightarrow> string" where
  "default_cert_path type nodeId ext = filepath_Join ''/etc/v2node/'' (type @ Itoa nodeId @ ext)"

definition parse_dns_env :: "string \<Rightarrow> (string \<rightharpoonup> string)" where
  "parse_dns_env s =
     fold (\<lambda>env m. case CutAt CHR ''='' env of None \<Rightarrow> m | Some (k, v) \<Rightarrow> m(k \<mapsto> v)) (Split CHR '','' s) Map.empty"

definition cert_info :: "Client \<Rightarrow> string \<Rightarrow> TlsSettings \<Rightarrow> CertInfo" where
  "cert_info c type t =
     \<lparr>ci_CertMode = ts_CertMode t,
      ci_CertFile = (if ts_CertFile t = [] then default_cert_path type (cl_NodeId c) ''.cer'' else ts_CertFile t),
      ci_KeyFile = (if ts_KeyFile t = [] then default_cert_path type (cl_NodeId c) ''.key'' else ts_KeyFile t),
      ci_Email = ''node@v2board.com'',
      ci_CertDomain = PrimaryServerName t,
      ci_DNSEnv = (if ts_CertMode t = ''dns'' \<and> ts_DNSEnv t \<noteq> [] then parse_dns_env (ts_DNSEnv t) else Map.empty),
      ci_Provider = ts_Provider t,
      ci_RejectUnknownSni = (ts_RejectUnknownSni t = ''1''),
      ci_EchKey = ts_EchKey t,
      ci_TlsCert = ts_TlsCert t,
      ci_TlsKey = ts_TlsKey t\<rparr>"

definition node_tag :: "string \<Rightarrow> string \<Rightarrow> int \<Rightarrow> string" where
  "node_tag host type nodeId = ''['' @ host @ '']-'' @ type @ '':'' @ Itoa nodeId"

definition node_intervals :: "BaseConfig option \<Rightarrow> (int \<times> int) outcome" where
  "node_intervals bc =
     (case bc of
        None \<Rightarrow> Return (60 * 1000000000, 60 * 1000000000)
      | Some b \<Rightarrow>
          (case intervalToTime (bc_PushInterval b) of
             Return push \<Rightarrow>
               (case intervalToTime (bc_PullInterval b) of
                  Return pull \<Rightarrow> Return (push, pull) | Error e \<Rightarrow> Error e | Panic p \<Rightarrow> Panic p)
           | Error e \<Rightarrow> Error e | Panic p \<Rightarrow> Panic p))"

definition finalizeNode :: "Client \<Rightarrow> NodeInfo \<Rightarrow> CommonNode \<Rightarrow> NodeInfo outcome" where
  "finalizeNode c node cm =
     (let cm' = cm\<lparr>cn_CertInfo := Some (cert_info c (ni_Type node) (cn_TlsSettings cm))\<rparr> in
      case node_intervals (cn_BaseConfig cm) of
        Return (push, pull) \<Rightarrow>
          Return (node\<lparr>ni_Tag := node_tag (cl_APIHost c) (ni_Type node) (ni_Id node),
                       ni_PushInterval := push, ni_PullInterval := pull, ni_Common := Some cm'\<rparr>)
      | Error e \<Rightarrow> Error e
      | Panic p \<Rightarrow> Panic p)"

definition normalizeNodeType :: "string \<Rightarrow> string" where
  "normalizeNodeType t =
     (if ToLower t = ''v2ray'' then ''vmess''
      else if ToLower t = ''hysteria'' \<or> ToLower t = ''hysteria2'' then ''hysteria2''
      else ToLower t)"

text \<open>
  The decoder. \<open>jc_node\<close> decodes into a \<open>CommonNode\<close>; the next three read the alternative fields
  (\<open>networkSettings\<close>; \<open>obfs-password\<close>; \<open>obfs\<close> with the path and host of \<open>obfs_settings\<close>); \<open>jc_obfs\<close>
  encodes a path and a host; \<open>jc_plugin\<close> and \<open>jc_mode\<close> read network settings.
\<close>

record json_codec =
  jc_node :: "string \<Rightarrow> goerror + CommonNode"
  jc_altNS :: "string \<Rightarrow> string"
  jc_altOP :: "string \<Rightarrow> string"
  jc_altObfs :: "string \<Rightarrow> string \<times> string \<times> string"
  jc_obfs :: "string \<Rightarrow> string \<Rightarrow> string"
  jc_plugin :: "string \<Rightarrow> (string \<times> string) option"
  jc_mode :: "string \<Rightarrow> (string \<times> string \<times> string) option"

definition parseUniProxyConfig :: "json_codec \<Rightarrow> string \<Rightarrow> string \<Rightarrow> goerror + CommonNode" where
  "parseUniProxyConfig J body proto =
     (case jc_node J body of
        Inl e \<Rightarrow> Inl (''decode uniproxy node params error: '' @ e)
      | Inr cm0 \<Rightarrow>
          (let cm = cm0\<lparr>cn_Protocol := proto\<rparr> in
           Inr (if proto = ''vmess'' then
                  (if cn_NetworkSettings cm = [] then cm\<lparr>cn_NetworkSettings := jc_altNS J body\<rparr> else cm)
                else if proto = ''hysteria2'' then
                  (if cn_ObfsPassword cm = [] then cm\<lparr>cn_ObfsPassword := jc_altOP J body\<rparr> else cm)
                else if proto = ''shadowsocks'' then
                  (if cn_NetworkSettings cm = [] then
                     (let (obfs, path, host) = jc_altObfs J body in
                      if obfs = ''http'' \<and> (path \<noteq> [] \<or> host \<noteq> []) then cm\<lparr>cn_NetworkSettings := jc_obfs J path host\<rparr>
                      else if obfs = ''tls'' then cm\<lparr>cn_SsObfs := ''tls'', cn_SsObfsHost := host\<rparr>
                      else cm)
                   else cm)
                else cm)))"

definition blank_node :: "int \<Rightarrow> string \<Rightarrow> int \<Rightarrow> NodeInfo" where
  "blank_node nodeId type sec =
     \<lparr>ni_Id = nodeId, ni_Type = type, ni_Security = sec, ni_PushInterval = 0, ni_PullInterval = 0,
      ni_Tag = [], ni_Common = None\<rparr>"

text \<open>The protocol switch of \<open>getNodeInfoV2\<close>: the security of the node, or \<open>None\<close> for an unsupported protocol.\<close>

definition v2_security :: "CommonNode \<Rightarrow> int option" where
  "v2_security cm =
     (if cn_Protocol cm \<in> {''hysteria2'', ''tuic''} then Some SecTls
      else if cn_Protocol cm \<in> {''vmess'', ''trojan'', ''anytls'', ''vless'', ''shadowflow''} then Some (cn_Tls cm)
      else if cn_Protocol cm \<in> {''shadowsocks'', ''mieru'', ''snell'', ''sudoku'', ''shadowsocksr''} then Some 0
      else None)"

definition getNodeInfoV2 :: "json_codec \<Rightarrow> Client \<Rightarrow> string reply \<Rightarrow> NodeInfo outcome" where
  "getNodeInfoV2 J c r =
     (case r of
        Inl e \<Rightarrow> Error e
      | Inr None \<Rightarrow> Error ''received nil response''
      | Inr (Some body) \<Rightarrow>
          (case jc_node J body of
             Inl e \<Rightarrow> Error (''decode node params error: '' @ e)
           | Inr cm \<Rightarrow>
               (case v2_security cm of
                  None \<Rightarrow> Error (''unsupport protocol: '' @ cn_Protocol cm)
                | Some sec \<Rightarrow> finalizeNode c (blank_node (cl_NodeId c) (cn_Protocol cm) sec) cm)))"

definition uniproxy_security :: "string \<Rightarrow> CommonNode \<Rightarrow> int" where
  "uniproxy_security proto cm =
     (if proto = ''shadowsocks'' then 0
      else if proto \<in> {''hysteria2'', ''tuic''} then SecTls
      else cn_Tls cm)"

definition getNodeInfoUniProxy :: "json_codec \<Rightarrow> Client \<Rightarrow> string reply \<Rightarrow> NodeInfo outcome" where
  "getNodeInfoUniProxy J c r =
     (case r of
        Inl e \<Rightarrow> Error e
      | Inr None \<Rightarrow> Error ''received nil response''
      | Inr (Some body) \<Rightarrow>
          (let proto = normalizeNodeType (cl_NodeType c) in
           case parseUniProxyConfig J body proto of
             Inl e \<Rightarrow> Error e
           | Inr cm \<Rightarrow> finalizeNode c (blank_node (cl_NodeId c) proto (uniproxy_security proto cm)) cm))"

definition GetNodeInfo :: "json_codec \<Rightarrow> Client \<Rightarrow> string reply \<Rightarrow> NodeInfo outcome" where
  "GetNodeInfo J c r = (if cl_NodeType c \<noteq> [] then getNodeInfoUniProxy J c r else getNodeInfoV2 J c r)"

section \<open>Shadowsocks plugins\<close>

record SSPlugin =
  sp_Name :: string
  sp_Opts :: "string \<rightharpoonup> string"

definition plugin_Opt :: "SSPlugin option \<Rightarrow> string \<Rightarrow> string" where
  "plugin_Opt p k = (case p of None \<Rightarrow> [] | Some q \<Rightarrow> (case sp_Opts q k of None \<Rightarrow> [] | Some v \<Rightarrow> v))"

definition plugin_Has :: "SSPlugin option \<Rightarrow> string \<Rightarrow> bool" where
  "plugin_Has p k = (case p of None \<Rightarrow> False | Some q \<Rightarrow> sp_Opts q k \<noteq> None)"

definition plugin_opt_pair :: "string \<Rightarrow> (string \<rightharpoonup> string) \<Rightarrow> (string \<rightharpoonup> string)" where
  "plugin_opt_pair raw opts =
     (let pair = TrimSpace raw in
      if pair = [] then opts
      else (case CutAt CHR ''='' pair of
              Some (k, v) \<Rightarrow> opts(TrimSpace k \<mapsto> TrimSpace v)
            | None \<Rightarrow> opts(pair \<mapsto> [])))"

definition ShadowsocksPlugin :: "json_codec \<Rightarrow> CommonNode \<Rightarrow> SSPlugin option" where
  "ShadowsocksPlugin J c =
     (if cn_NetworkSettings c = [] then None
      else (case jc_plugin J (cn_NetworkSettings c) of
              None \<Rightarrow> None
            | Some (plugin, optstr) \<Rightarrow>
                if plugin = [] then None
                else Some \<lparr>sp_Name = plugin, sp_Opts = fold plugin_opt_pair (Split CHR '';'' optstr) Map.empty\<rparr>))"

definition ShadowTLSEnabled :: "json_codec \<Rightarrow> CommonNode \<Rightarrow> bool" where
  "ShadowTLSEnabled J c =
     (let p = ShadowsocksPlugin J c in
      (case p of None \<Rightarrow> False | Some q \<Rightarrow> sp_Name q = ''shadow-tls'') \<and> plugin_Opt p ''host'' \<noteq> [] \<and> plugin_Opt p ''password'' \<noteq> [])"

definition simpleObfs :: "json_codec \<Rightarrow> CommonNode \<Rightarrow> string \<times> string" where
  "simpleObfs J c =
     (let m = ToLower (cn_SsObfs c) in
      if m = ''tls'' \<or> m = ''http'' then (m, cn_SsObfsHost c)
      else if cn_NetworkSettings c = [] then ([], [])
      else (case jc_mode J (cn_NetworkSettings c) of
              None \<Rightarrow> ([], [])
            | Some (mode, host, hostLow) \<Rightarrow>
                (let m = ToLower mode in
                 if m \<noteq> ''tls'' \<and> m \<noteq> ''http'' then ([], [])
                 else (m, if host = [] then hostLow else host))))"

definition SimpleObfsMode :: "json_codec \<Rightarrow> CommonNode \<Rightarrow> string" where
  "SimpleObfsMode J c = fst (simpleObfs J c)"

definition SimpleObfsHost :: "json_codec \<Rightarrow> CommonNode \<Rightarrow> string" where
  "SimpleObfsHost J c = snd (simpleObfs J c)"

definition SimpleObfsEnabled :: "json_codec \<Rightarrow> CommonNode \<Rightarrow> bool" where
  "SimpleObfsEnabled J c \<longleftrightarrow> SimpleObfsMode J c \<noteq> []"

section \<open>Users\<close>

text \<open>
  The stream of the incremental JSON decoder: tokens up to the array of users, then the elements of the
  array, each already decoded or in error, up to its end. The stream ends where reading fails.
\<close>

datatype json_event = TokString string | TokArray | TokOther | Elem "goerror + UserInfo" | EndArray

fun seek_users :: "json_event list \<Rightarrow> json_event list option" where
  "seek_users [] = None"
| "seek_users (tok # rest) = (if tok = TokString ''users'' then Some rest else seek_users rest)"

fun read_users :: "json_event list \<Rightarrow> goerror + UserInfo list" where
  "read_users [] = Inl ''decode user list error: read user object: EOF''"
| "read_users (EndArray # rest) = Inr []"
| "read_users (Elem (Inl e) # rest) = Inl (''decode user list error: unmarshal user error: '' @ e)"
| "read_users (Elem (Inr u) # rest) =
     (case read_users rest of Inl e \<Rightarrow> Inl e | Inr us \<Rightarrow> Inr (u # us))"
| "read_users (TokString s # rest) = Inl ''decode user list error: unmarshal user error''"
| "read_users (TokArray # rest) = Inl ''decode user list error: unmarshal user error''"
| "read_users (TokOther # rest) = Inl ''decode user list error: unmarshal user error''"

record user_reply =
  ur_msgpack :: bool
  ur_ETag :: string
  ur_decoded :: "goerror + UserInfo list"
  ur_events :: "json_event list"

definition GetUserList :: "user_reply reply \<Rightarrow> goerror + (UserInfo list \<times> string)" where
  "GetUserList r =
     (case r of
        Inl e \<Rightarrow> Inl e
      | Inr None \<Rightarrow> Inl ''received nil response or raw response''
      | Inr (Some b) \<Rightarrow>
          (if ur_msgpack b then
             (case ur_decoded b of
                Inl e \<Rightarrow> Inl (''decode user list error: '' @ e)
              | Inr us \<Rightarrow> Inr (us, ur_ETag b))
           else
             (case seek_users (ur_events b) of
                None \<Rightarrow> Inl ''decode user list error: EOF''
              | Some [] \<Rightarrow> Inl ''decode user list error: EOF''
              | Some (tok # rest) \<Rightarrow>
                  (if tok \<noteq> TokArray then Inl ''decode user list error: expected \"users\" array''
                   else (case read_users rest of Inl e \<Rightarrow> Inl e | Inr us \<Rightarrow> Inr (us, ur_ETag b))))))"

definition CommitUserEtag :: "string \<Rightarrow> Client \<Rightarrow> Client" where
  "CommitUserEtag etag c = (if etag \<noteq> [] then c\<lparr>cl_userEtag := etag\<rparr> else c)"

text \<open>
  The reply to the alive request: its status code and what decoding its body gives, \<open>None\<close> for a body without counts. Every
  failure counts as a reply without online devices.
\<close>

definition GetUserAlive ::
  "(int \<times> (goerror + (int \<rightharpoonup> int) option)) reply \<Rightarrow> Client \<Rightarrow> (int \<rightharpoonup> int) option \<times> Client" where
  "GetUserAlive r c =
     (let alive = (case r of
                     Inl e \<Rightarrow> Some Map.empty
                   | Inr None \<Rightarrow> Some Map.empty
                   | Inr (Some (status, body)) \<Rightarrow>
                       if 399 \<le> status then Some Map.empty
                       else (case body of Inl e \<Rightarrow> Some Map.empty | Inr m \<Rightarrow> m))
      in (alive, c\<lparr>cl_AliveMap := (case alive of None \<Rightarrow> Map.empty | Some m \<Rightarrow> m)\<rparr>))"

text \<open>A report: the payload that is posted and the error. \<open>post\<close> is the answer to a payload: a transport error or
  whether the response is an error (its status and text).\<close>

definition post_result :: "goerror + (int \<times> string) option \<Rightarrow> goerror option" where
  "post_result r =
     (case r of Inl e \<Rightarrow> Some e
      | Inr None \<Rightarrow> None
      | Inr (Some (status, body)) \<Rightarrow>
          if 399 < status then Some (''server returned error: '' @ Itoa status @ '' '' @ body) else None)"

definition traffic_payload :: "UserTraffic list \<Rightarrow> (int \<rightharpoonup> int \<times> int)" where
  "traffic_payload ts = fold (\<lambda>t m. m(ut_UID t \<mapsto> (ut_Upload t, ut_Download t))) ts Map.empty"

definition ReportUserTraffic ::
  "((int \<rightharpoonup> int \<times> int) \<Rightarrow> goerror + (int \<times> string) option) \<Rightarrow> UserTraffic list \<Rightarrow> goerror option" where
  "ReportUserTraffic post ts = post_result (post (traffic_payload ts))"

definition ReportNodeOnlineUsers ::
  "((int \<rightharpoonup> string list) \<Rightarrow> goerror + (int \<times> string) option) \<Rightarrow> (int \<rightharpoonup> string list) \<Rightarrow> goerror option" where
  "ReportNodeOnlineUsers post data = post_result (post data)"

section \<open>Lemmas\<close>

lemma finalizeNode_Return:
  assumes "finalizeNode c node cm = Return n"
  shows "ni_Id n = ni_Id node" "ni_Type n = ni_Type node" "ni_Security n = ni_Security node"
    "ni_Tag n = node_tag (cl_APIHost c) (ni_Type node) (ni_Id node)"
    "ni_Common n = Some (cm\<lparr>cn_CertInfo := Some (cert_info c (ni_Type node) (cn_TlsSettings cm))\<rparr>)"
    "node_intervals (cn_BaseConfig cm) = Return (ni_PushInterval n, ni_PullInterval n)"
  using assms by (auto simp: finalizeNode_def Let_def split: outcome.splits prod.splits)

lemma GetNodeInfo_Return:
  assumes "GetNodeInfo J c r = Return n"
  obtains cm type sec where "finalizeNode c (blank_node (cl_NodeId c) type sec) cm = Return n"
    "cl_NodeType c \<noteq> [] \<Longrightarrow> type = normalizeNodeType (cl_NodeType c) \<and> sec = uniproxy_security type cm"
    "cl_NodeType c = [] \<Longrightarrow> type = cn_Protocol cm \<and> v2_security cm = Some sec"
    "cn_Protocol cm = type"
proof -
  have uni: "cn_Protocol cm = proto" if "parseUniProxyConfig J body proto = Inr cm" for body proto cm
    using that by (auto simp: parseUniProxyConfig_def Let_def split: sum.splits if_splits prod.splits)
  show thesis
  proof (cases "cl_NodeType c = []")
    case True
    with assms obtain cm sec where
      "finalizeNode c (blank_node (cl_NodeId c) (cn_Protocol cm) sec) cm = Return n" "v2_security cm = Some sec"
      by (auto simp: GetNodeInfo_def getNodeInfoV2_def split: sum.splits option.splits)
    with True show thesis by (intro that [where type = "cn_Protocol cm" and cm = cm and sec = sec]) simp_all
  next
    case False
    with assms obtain cm body where
      f: "finalizeNode c (blank_node (cl_NodeId c) (normalizeNodeType (cl_NodeType c))
           (uniproxy_security (normalizeNodeType (cl_NodeType c)) cm)) cm = Return n"
      and p: "parseUniProxyConfig J body (normalizeNodeType (cl_NodeType c)) = Inr cm"
      by (auto simp: GetNodeInfo_def getNodeInfoUniProxy_def Let_def split: sum.splits option.splits)
    from False show thesis by (intro that [OF f]) (simp_all add: uni [OF p])
  qed
qed

lemma filepath_Join_nonempty: "filepath_Join d n \<noteq> []"
  by (simp add: filepath_Join_def)

lemma cert_info_files: "ci_CertFile (cert_info c t s) \<noteq> []" "ci_KeyFile (cert_info c t s) \<noteq> []"
  by (simp_all add: cert_info_def default_cert_path_def filepath_Join_nonempty)

lemma v2_security_Some:
  assumes "v2_security cm = Some sec"
  shows "cn_Protocol cm \<in> {''hysteria2'', ''tuic'', ''vmess'', ''trojan'', ''anytls'', ''vless'', ''shadowflow'',
      ''shadowsocks'', ''mieru'', ''snell'', ''sudoku'', ''shadowsocksr''}"
    "cn_Protocol cm \<in> {''hysteria2'', ''tuic''} \<Longrightarrow> sec = SecTls"
    "cn_Protocol cm = ''shadowsocks'' \<Longrightarrow> sec = SecNone"
  using assms by (auto simp: v2_security_def SecNone_def split: if_splits)

lemma read_users_iff:
  "read_users es = Inr us \<longleftrightarrow> (\<exists>rest. es = map (Elem \<circ> Inr) us @ EndArray # rest)"
proof
  show "read_users es = Inr us \<Longrightarrow> \<exists>rest. es = map (Elem \<circ> Inr) us @ EndArray # rest"
    by (induction es arbitrary: us rule: read_users.induct) (auto split: sum.splits)
  show "\<exists>rest. es = map (Elem \<circ> Inr) us @ EndArray # rest \<Longrightarrow> read_users es = Inr us"
    by (induction us arbitrary: es) auto
qed

lemma seek_users_iff:
  "seek_users es = Some rest \<longleftrightarrow> (\<exists>pre. es = pre @ TokString ''users'' # rest \<and> TokString ''users'' \<notin> set pre)"
proof
  show "seek_users es = Some rest \<Longrightarrow> \<exists>pre. es = pre @ TokString ''users'' # rest \<and> TokString ''users'' \<notin> set pre"
  proof (induction es)
    case (Cons e es)
    show ?case
    proof (cases "e = TokString ''users''")
      case True
      with Cons.prems show ?thesis by (intro exI [of _ "[]"]) simp
    next
      case False
      with Cons obtain pre where "es = pre @ TokString ''users'' # rest" "TokString ''users'' \<notin> set pre" by auto
      with False show ?thesis by (intro exI [of _ "e # pre"]) auto
    qed
  qed simp
  have "seek_users (pre @ TokString ''users'' # rest) = Some rest" if "TokString ''users'' \<notin> set pre" for pre
    using that by (induction pre) auto
  then show "\<exists>pre. es = pre @ TokString ''users'' # rest \<and> TokString ''users'' \<notin> set pre \<Longrightarrow> seek_users es = Some rest"
    by blast
qed

lemma fold_traffic_other:
  "k \<notin> ut_UID ` set ts \<Longrightarrow> fold (\<lambda>t m. m(ut_UID t \<mapsto> (ut_Upload t, ut_Download t))) ts m k = m k"
  by (induction ts arbitrary: m) auto

lemma traffic_payload_last:
  "traffic_payload (xs @ t # ys) (ut_UID t) = Some (ut_Upload t, ut_Download t)" if "ut_UID t \<notin> ut_UID ` set ys"
  using that by (simp add: traffic_payload_def fold_traffic_other)

lemma traffic_payload_dom: "dom (traffic_payload ts) = ut_UID ` set ts"
proof -
  have "dom (fold (\<lambda>t m. m(ut_UID t \<mapsto> (ut_Upload t, ut_Download t))) ts m) = ut_UID ` set ts \<union> dom m" for m
    by (induction ts arbitrary: m) auto
  then show ?thesis by (simp add: traffic_payload_def)
qed

section \<open>Properties\<close>

text \<open>
  Claim C39. Every node that \<open>GetNodeInfo\<close> returns carries the client's node id and a tag made of host, type and
  id, and a configuration of its own protocol with a certificate section whose file names are not
  empty. The QUIC protocols have TLS whatever the panel says, Shadowsocks has none, and the unified API gives
  only the twelve supported protocols.
\<close>

theorem node_info_complete:
  assumes "GetNodeInfo J c r = Return n"
  shows "ni_Id n = cl_NodeId c \<and> ni_Tag n = node_tag (cl_APIHost c) (ni_Type n) (cl_NodeId c)
    \<and> (\<exists>cm ci. ni_Common n = Some cm \<and> cn_Protocol cm = ni_Type n \<and> cn_CertInfo cm = Some ci
         \<and> ci_CertFile ci \<noteq> [] \<and> ci_KeyFile ci \<noteq> [] \<and> ci_CertDomain ci = PrimaryServerName (cn_TlsSettings cm))
    \<and> (ni_Type n \<in> {''hysteria2'', ''tuic''} \<longrightarrow> ni_Security n = SecTls)
    \<and> (ni_Type n = ''shadowsocks'' \<longrightarrow> ni_Security n = SecNone)
    \<and> (cl_NodeType c = [] \<longrightarrow> ni_Type n \<in> {''hysteria2'', ''tuic'', ''vmess'', ''trojan'', ''anytls'', ''vless'',
         ''shadowflow'', ''shadowsocks'', ''mieru'', ''snell'', ''sudoku'', ''shadowsocksr''})"
proof -
  from assms obtain cm type sec where
    f: "finalizeNode c (blank_node (cl_NodeId c) type sec) cm = Return n"
    and uni: "cl_NodeType c \<noteq> [] \<Longrightarrow> sec = uniproxy_security type cm"
    and v2: "cl_NodeType c = [] \<Longrightarrow> v2_security cm = Some sec" and proto: "cn_Protocol cm = type"
    by (elim GetNodeInfo_Return) metis
  note n = finalizeNode_Return [OF f, simplified blank_node_def NodeInfo.simps]
  have sec: "type \<in> {''hysteria2'', ''tuic''} \<Longrightarrow> sec = SecTls" "type = ''shadowsocks'' \<Longrightarrow> sec = SecNone"
    by (cases "cl_NodeType c = []"; use uni v2_security_Some(2,3) [OF v2] proto in
        \<open>auto simp: uniproxy_security_def SecNone_def\<close>)+
  have common: "\<exists>cm ci. ni_Common n = Some cm \<and> cn_Protocol cm = ni_Type n \<and> cn_CertInfo cm = Some ci
         \<and> ci_CertFile ci \<noteq> [] \<and> ci_KeyFile ci \<noteq> [] \<and> ci_CertDomain ci = PrimaryServerName (cn_TlsSettings cm)"
    by (simp add: n proto cert_info_files) (simp add: cert_info_def)
  show ?thesis using common sec v2_security_Some(1) [OF v2] by (simp add: n proto)
qed

definition demo_codec :: json_codec where
  "demo_codec = \<lparr>jc_node = (\<lambda>b. Inr (zero_CommonNode\<lparr>cn_Protocol := b\<rparr>)), jc_altNS = (\<lambda>b. b), jc_altOP = (\<lambda>b. b),
     jc_altObfs = (\<lambda>b. (''tls'', [], ''h'')), jc_obfs = (\<lambda>p h. p @ h), jc_plugin = (\<lambda>b. Some (''shadow-tls'', b)),
     jc_mode = (\<lambda>b. Some (b, [], ''h''))\<rparr>"

definition demo_client :: Client where
  "demo_client = panel_New demo_node_config"

theorem node_info_complete_witness:
  "\<exists>n. GetNodeInfo demo_codec demo_client (Inr (Some ''tuic'')) = Return n \<and> ni_Security n = SecTls"
proof -
  have "\<exists>n. GetNodeInfo demo_codec demo_client (Inr (Some ''tuic'')) = Return n \<and> ni_Type n = ''tuic''"
    by (simp add: GetNodeInfo_def getNodeInfoV2_def demo_client_def panel_New_def demo_node_config_def Let_def ToLower_def
        demo_codec_def v2_security_def finalizeNode_def node_intervals_def zero_CommonNode_def blank_node_def)
  with node_info_complete show ?thesis by fastforce
qed

text \<open>
  The incremental decoder accepts a JSON user list only if the array was read to its end and every element
  decoded: a list that is cut off, or has an element in error, never counts as a shorter list of users.
\<close>

theorem user_list_complete:
  assumes "\<not> ur_msgpack b"
  shows "GetUserList (Inr (Some b)) = Inr (us, e) \<longleftrightarrow>
    e = ur_ETag b \<and> (\<exists>pre rest. ur_events b = pre @ TokString ''users'' # TokArray # map (Elem \<circ> Inr) us @ EndArray # rest
       \<and> TokString ''users'' \<notin> set pre)"
proof -
  have "GetUserList (Inr (Some b)) = Inr (us, e) \<longleftrightarrow>
      e = ur_ETag b \<and> (\<exists>rest. seek_users (ur_events b) = Some (TokArray # rest) \<and> read_users rest = Inr us)"
    using assms by (auto simp: GetUserList_def split: option.splits list.splits sum.splits)
  also have "\<dots> \<longleftrightarrow> e = ur_ETag b \<and> (\<exists>pre rest. ur_events b = pre @ TokString ''users'' # TokArray # map (Elem \<circ> Inr) us @ EndArray # rest
       \<and> TokString ''users'' \<notin> set pre)"
    by (auto simp: seek_users_iff read_users_iff)
  finally show ?thesis .
qed

theorem user_list_complete_witness:
  "\<exists>us e. GetUserList (Inr (Some \<lparr>ur_msgpack = False, ur_ETag = ''x'', ur_decoded = Inr [],
      ur_events = [TokOther, TokString ''users'', TokArray, EndArray, TokOther]\<rparr>)) = Inr (us, e)"
  by (rule exI [of _ "[]"], rule exI [of _ "''x''"], subst user_list_complete)
     (auto intro!: exI [of _ "[TokOther]"])

text \<open>
  The traffic payload has an entry for exactly the users of the report, and every record of a user whose id occurs
  once in the report is posted unchanged. The error of a report is that of the transport or of the panel.
\<close>

theorem traffic_report_exact:
  assumes "distinct (map ut_UID ts)" and "ReportUserTraffic post ts = r"
  shows "dom (traffic_payload ts) = ut_UID ` set ts
    \<and> (\<forall>t\<in>set ts. traffic_payload ts (ut_UID t) = Some (ut_Upload t, ut_Download t))
    \<and> (r = None \<longleftrightarrow> (post (traffic_payload ts) = Inr None
         \<or> (\<exists>s b. post (traffic_payload ts) = Inr (Some (s, b)) \<and> s \<le> 399)))"
proof (intro conjI ballI)
  fix t assume "t \<in> set ts"
  then obtain xs ys where ts: "ts = xs @ t # ys" by (meson split_list)
  with assms(1) have "ut_UID t \<notin> ut_UID ` set ys" by auto
  then show "traffic_payload ts (ut_UID t) = Some (ut_Upload t, ut_Download t)"
    by (simp add: ts traffic_payload_last)
next
  show "r = None \<longleftrightarrow> (post (traffic_payload ts) = Inr None
         \<or> (\<exists>s b. post (traffic_payload ts) = Inr (Some (s, b)) \<and> s \<le> 399))"
    using assms(2) by (auto simp: ReportUserTraffic_def post_result_def split: sum.splits option.splits if_splits)
qed (simp add: traffic_payload_dom)

theorem traffic_report_exact_witness:
  "traffic_payload [\<lparr>ut_UID = 1, ut_Upload = 5, ut_Download = 6\<rparr>, \<lparr>ut_UID = 2, ut_Upload = 7, ut_Download = 8\<rparr>] 1 = Some (5, 6)"
  using traffic_report_exact [where ts = "[\<lparr>ut_UID = 1, ut_Upload = 5, ut_Download = 6\<rparr>, \<lparr>ut_UID = 2, ut_Upload = 7, ut_Download = 8\<rparr>]",
      OF _ refl] by simp

text \<open>
  Two nodes of one panel never share a tag: the tag determines the type and the id.
\<close>

theorem node_tag_identifies: "node_tag h t i = node_tag h t' i' \<longleftrightarrow> t = t' \<and> i = i'"
proof
  assume "node_tag h t i = node_tag h t' i'"
  then have "t @ CHR '':'' # Itoa i = t' @ CHR '':'' # Itoa i'" by (simp add: node_tag_def)
  then have "rev (t @ CHR '':'' # Itoa i) = rev (t' @ CHR '':'' # Itoa i')" by (rule arg_cong)
  then have eq: "rev (Itoa i) @ CHR '':'' # rev t = rev (Itoa i') @ CHR '':'' # rev t'" by simp
  have "CutAt CHR '':'' (rev (Itoa i) @ CHR '':'' # rev t) = Some (rev (Itoa i), rev t)" for i t
    by (subst CutAt_Some) (simp add: colon_notin_Itoa)
  then have "rev (Itoa i) = rev (Itoa i') \<and> rev t = rev t'" using eq by (metis option.inject prod.inject)
  then show "t = t' \<and> i = i'" by simp
qed simp

text \<open>
  The certificate domain of a node is empty only if the panel gave no server name at all or an empty first name in the
  list; every name taken from a comma-separated value is trimmed and not empty as long as one such name exists.
\<close>

theorem primary_server_name_empty:
  "(PrimaryServerName t = [] \<longleftrightarrow> (if ts_ServerNames t = [] then ts_ServerName t = [] else hd (ts_ServerNames t) = []))
   \<and> set (EffectiveServerNames t) \<subseteq> set (ts_ServerNames t) \<union> {ts_ServerName t} \<union> (TrimSpace ` set (Split CHR '','' (ts_ServerName t)) - {[]})"
proof
  have "hd (filter (\<lambda>p. p \<noteq> []) xs) \<noteq> []" if "filter (\<lambda>p. p \<noteq> []) xs \<noteq> []" for xs :: "string list"
    using hd_in_set [OF that] by auto
  note hd = this [of "map TrimSpace (Split CHR '','' (ts_ServerName t))"]
  show "PrimaryServerName t = [] \<longleftrightarrow> (if ts_ServerNames t = [] then ts_ServerName t = [] else hd (ts_ServerNames t) = [])"
  proof (cases "ts_ServerNames t")
    case Nil
    then show ?thesis using hd
      by (auto simp: PrimaryServerName_def EffectiveServerNames_def Let_def split: list.splits if_splits)
  qed (simp add: PrimaryServerName_def EffectiveServerNames_def)
qed (auto simp: EffectiveServerNames_def Let_def)

end
