(* ===== verification/Runners.thy ===== *)
theory Runners
  imports Runner_Contract Snell_Trial Panel_Api
begin

text \<open>
  The runners of the natively terminated protocols (\<open>common/{snell,ssaead,sudoku,ssr,trojanss,mieru}/runner.go\<close>):
  their users, when they start to listen, what an update of the users does to the running service, and how
  they are closed. The libraries that do the cryptography are arguments, collected in \<open>runner_lib\<close>: what
  decoding the settings gives, whether a service can be built, hashes, the loading of a certificate, and the
  iteration order of Go maps. \<open>rl_trojanss_settings\<close> says besides the decoded fields whether decoding
  succeeded, which only \<open>Enabled\<close> looks at. The Snell services are modelled: \<open>UpdateUsers\<close> of the v6 service from the
  vendored \<open>sing-snell\<close>, the v4/v5 one in the theory of the trial service.
\<close>

section \<open>Settings and libraries\<close>

record snellSettings =
  sns_Version :: int
  sns_PSK :: string
  sns_Obfs :: string
  sns_Mode :: string

record sudokuSettings =
  sks_MasterKey :: string
  sks_AEADMethod :: string
  sks_AEAD :: string
  sks_TableType :: string
  sks_ASCII :: string
  sks_PaddingMin :: int
  sks_PaddingMax :: int
  sks_EnablePureDownlink :: "bool option"
  sks_FallbackAddress :: string
  sks_SuspiciousAction :: string

record sudoku_Options =
  sko_Key :: string
  sko_AEAD :: string
  sko_TableType :: string
  sko_PaddingMin :: int
  sko_PaddingMax :: int
  sko_EnablePureDownlink :: bool
  sko_FallbackAddr :: string
  sko_SuspiciousAction :: string

record ssrSettings =
  srs_Cipher :: string
  srs_Password :: string
  srs_Protocol :: string
  srs_Obfs :: string
  srs_ObfsParam :: string

record SSObfs =
  sso_Enabled :: bool
  sso_Method :: string
  sso_Password :: string

record mieruNS =
  mns_Transport :: string
  mns_TrafficPattern :: string
  mns_Ports :: string
  mns_MTU :: "int option"
  mns_ForceUserHint :: "bool option"
  mns_UserHintMandatory :: "bool option"
  mns_TCPIdleTimeoutSec :: "int option"

datatype PortBinding = Port int bool | PortRange string bool

record runner_lib =
  rl_refuse :: "string \<Rightarrow> goerror option"
  rl_order :: "(string \<rightharpoonup> string) \<Rightarrow> string list"
  rl_orderI :: "(string \<rightharpoonup> int) \<Rightarrow> string list"
  rl_snell_settings :: "string \<Rightarrow> snellSettings"
  rl_snell_NewMulti :: "string \<Rightarrow> string \<Rightarrow> goerror option"
  rl_ssaead_New :: "string \<Rightarrow> goerror option"
  rl_ssaead_Update :: "(string \<times> string) list \<Rightarrow> goerror option"
  rl_sudoku_settings :: "string \<Rightarrow> sudokuSettings"
  rl_sudoku_NewServer :: "sudoku_Options \<Rightarrow> goerror option"
  rl_ssr_settings :: "string \<Rightarrow> ssrSettings"
  rl_md5 :: "string \<Rightarrow> string"
  rl_sha1 :: "string \<Rightarrow> string"
  rl_sha224hex :: "string \<Rightarrow> string"
  rl_trojanss_settings :: "string \<Rightarrow> bool \<times> SSObfs"
  rl_LoadX509 :: "string \<Rightarrow> string \<Rightarrow> goerror option"
  rl_mieru_ns :: "string \<Rightarrow> mieruNS"
  rl_mieru_endpoints :: "string \<Rightarrow> PortBinding list \<Rightarrow> int \<Rightarrow> goerror + string list"
  rl_mieru_pattern :: "string \<Rightarrow> goerror option"
  rl_mieru_tpconfig :: "string \<Rightarrow> goerror option"

text \<open>
  \<open>flexInt\<close> and \<open>flexBool\<close>: settings the panel stores as text. \<open>n\<close> is the value before decoding, \<open>data\<close> the raw
  JSON value; \<open>Trim\<close> removes quotes at both ends.
\<close>

definition trim_quotes :: "string \<Rightarrow> string" where
  "trim_quotes s = rev (dropWhile (\<lambda>c. c = CHR 0x22) (rev (dropWhile (\<lambda>c. c = CHR 0x22) s)))"

definition flexInt_Unmarshal :: "string \<Rightarrow> int \<Rightarrow> int" where
  "flexInt_Unmarshal data n =
     (let s = trim_quotes (TrimSpace data) in
      if s = [] \<or> s = ''null'' then n
      else (case Atoi s of (v, ok) \<Rightarrow> if ok then v else n))"

definition flexBool_Unmarshal :: "string \<Rightarrow> bool" where
  "flexBool_Unmarshal data =
     (let s = ToLower (trim_quotes (TrimSpace data)) in s = ''true'' \<or> s = ''1'')"

definition network_settings :: "NodeInfo \<Rightarrow> string" where
  "network_settings info = (case ni_Common info of None \<Rightarrow> [] | Some cm \<Rightarrow> cn_NetworkSettings cm)"

text \<open>Every start dereferences the node's configuration; a runner is only made for a node that has one.\<close>

definition common_of :: "NodeInfo \<Rightarrow> CommonNode" where
  "common_of info = (case ni_Common info of None \<Rightarrow> zero_CommonNode | Some cm \<Rightarrow> cm)"

definition listen_tcp :: "runner_lib \<Rightarrow> string \<Rightarrow> NodeInfo \<Rightarrow> net \<Rightarrow> goerror + string \<times> net" where
  "listen_tcp L proto info w =
     (let addr = listen_addr (common_of info) in
      case net_Listen (rl_refuse L) addr w of
        Inl e \<Rightarrow> Inl (proto @ '': listen '' @ addr @ '': '' @ e)
      | Inr w' \<Rightarrow> Inr (addr, w'))"

section \<open>Snell\<close>

datatype snell_service = SnellV6 "string \<rightharpoonup> string" | SnellTrial "trialCred list"

record snell_Runner =
  sn_tag :: string
  sn_info :: NodeInfo
  sn_svc :: "snell_service option"
  sn_ln :: "string option"
  sn_users :: "string \<rightharpoonup> string"

definition snell_NewRunner :: "string \<Rightarrow> NodeInfo \<Rightarrow> snell_Runner" where
  "snell_NewRunner tag info = \<lparr>sn_tag = tag, sn_info = info, sn_svc = None, sn_ln = None, sn_users = Map.empty\<rparr>"

definition currentUsers :: "runner_lib \<Rightarrow> (string \<rightharpoonup> string) \<Rightarrow> (string \<times> string) list" where
  "currentUsers L users = map (\<lambda>u. (u, the (users u))) (rl_order L users)"

text \<open>\<open>UpdateUsers\<close> of the v6 service: the client ids become the keys of a new map, unless one of them is unusable.\<close>

fun v6_userMap :: "(string \<times> string) list \<Rightarrow> (string \<rightharpoonup> string) \<Rightarrow> goerror + (string \<rightharpoonup> string)" where
  "v6_userMap [] m = Inr m"
| "v6_userMap ((user, key) # rest) m =
     (if key = [] then Inl ''snell: bad user key''
      else if 255 < length key then Inl ''snell: user key too long''
      else if m key \<noteq> None then Inl ''snell: duplicate user key''
      else v6_userMap rest (m(key \<mapsto> user)))"

definition v6_UpdateUsers :: "(string \<times> string) list \<Rightarrow> (string \<rightharpoonup> string) \<Rightarrow> goerror option \<times> (string \<rightharpoonup> string)" where
  "v6_UpdateUsers users old =
     (if users = [] then (Some ''snell: no users'', old)
      else (case v6_userMap users Map.empty of Inl e \<Rightarrow> (Some e, old) | Inr m \<Rightarrow> (None, m)))"

definition snell_UpdateUsers :: "runner_lib \<Rightarrow> (string \<rightharpoonup> string) \<Rightarrow> snell_service \<Rightarrow> goerror option \<times> snell_service" where
  "snell_UpdateUsers L users svc =
     (case svc of
        SnellV6 m \<Rightarrow> (case v6_UpdateUsers (currentUsers L users) m of (e, m') \<Rightarrow> (e, SnellV6 m'))
      | SnellTrial creds \<Rightarrow>
          (None, SnellTrial (trial_UpdateUsers (rl_order L) (map fst (currentUsers L users)) (map snd (currentUsers L users)) creds)))"

definition snell_v6_mode :: "string \<Rightarrow> string" where
  "snell_v6_mode name = (if name \<in> {''unshaped'', ''unsafe-raw''} then name else ''default'')"

definition snell_startLocked :: "runner_lib \<Rightarrow> snell_Runner \<Rightarrow> net \<Rightarrow> goerror option \<times> snell_Runner \<times> net" where
  "snell_startLocked L r w =
     (let s = rl_snell_settings L (network_settings (sn_info r));
          built = (if 6 \<le> sns_Version s then
                     (if length (sns_PSK s) < 12 then Inl ''snell v6: shared PSK must be >= 12 bytes''
                      else (case rl_snell_NewMulti L (sns_PSK s) (snell_v6_mode (sns_Mode s)) of
                              Some e \<Rightarrow> Inl (''snell v6: '' @ e)
                            | None \<Rightarrow> Inr (SnellV6 Map.empty)))
                   else Inr (SnellTrial []))
      in case built of
           Inl e \<Rightarrow> (Some e, r, w)
         | Inr svc0 \<Rightarrow>
             (case snell_UpdateUsers L (sn_users r) svc0 of
                (Some e, svc) \<Rightarrow> (Some (''snell: update users: '' @ e), r, w)
              | (None, svc) \<Rightarrow>
                  (case listen_tcp L ''snell'' (sn_info r) w of
                     Inl e \<Rightarrow> (Some e, r, w)
                   | Inr (addr, w') \<Rightarrow> (None, r\<lparr>sn_svc := Some svc, sn_ln := Some addr\<rparr>, w'))))"

definition snell_add_user :: "UserInfo \<Rightarrow> (string \<rightharpoonup> string) \<Rightarrow> (string \<rightharpoonup> string)" where
  "snell_add_user u m = m(ui_Uuid u \<mapsto> (if ui_Key u = [] then ui_Uuid u else ui_Key u))"

definition snell_AddUsers :: "runner_lib \<Rightarrow> UserInfo list \<Rightarrow> snell_Runner \<Rightarrow> net \<Rightarrow> goerror option \<times> snell_Runner \<times> net" where
  "snell_AddUsers L users r0 w =
     (let r = r0\<lparr>sn_users := fold snell_add_user users (sn_users r0)\<rparr> in
      if sn_ln r = None then
        (if dom (sn_users r) = {} then (None, r, w) else snell_startLocked L r w)
      else (case sn_svc r of
              None \<Rightarrow> (None, r, w)
            | Some svc \<Rightarrow> (case snell_UpdateUsers L (sn_users r) svc of (e, svc') \<Rightarrow> (e, r\<lparr>sn_svc := Some svc'\<rparr>, w))))"

definition snell_DelUsers :: "runner_lib \<Rightarrow> string list \<Rightarrow> snell_Runner \<Rightarrow> snell_Runner" where
  "snell_DelUsers L uuids r0 =
     (let r = r0\<lparr>sn_users := fold (\<lambda>u m. map_del m u) uuids (sn_users r0)\<rparr> in
      case sn_svc r of
        Some svc \<Rightarrow> if dom (sn_users r) \<noteq> {} then r\<lparr>sn_svc := Some (snd (snell_UpdateUsers L (sn_users r) svc))\<rparr> else r
      | None \<Rightarrow> r)"

definition snell_Close :: "snell_Runner \<Rightarrow> net \<Rightarrow> snell_Runner \<times> net" where
  "snell_Close r w = (case sn_ln r of None \<Rightarrow> (r, w) | Some addr \<Rightarrow> (r\<lparr>sn_ln := None\<rparr>, w - {addr}))"

section \<open>Shadowsocks with extended AEAD ciphers\<close>

definition IsExtendedCipher :: "string \<Rightarrow> bool" where
  "IsExtendedCipher cipher \<longleftrightarrow> ToLower (TrimSpace cipher) \<in>
     {''aegis-128l'', ''aegis-256'', ''aes-192-gcm'', ''aes-128-ccm'', ''aes-192-ccm'', ''aes-256-ccm'',
      ''aes-128-gcm-siv'', ''aes-256-gcm-siv'', ''chacha8-ietf-poly1305'', ''xchacha8-ietf-poly1305'',
      ''xchacha20-ietf-poly1305'', ''rabbit128-poly1305'', ''aez-384'', ''deoxys-ii-256-128'', ''lea-128-gcm'',
      ''lea-192-gcm'', ''lea-256-gcm'', ''ascon128'', ''ascon128a''}"

record ssaead_Runner =
  sa_tag :: string
  sa_info :: NodeInfo
  sa_svc :: "(string \<times> string) list option"
  sa_ln :: "string option"
  sa_users :: "string \<rightharpoonup> string"

definition ssaead_NewRunner :: "string \<Rightarrow> NodeInfo \<Rightarrow> ssaead_Runner" where
  "ssaead_NewRunner tag info = \<lparr>sa_tag = tag, sa_info = info, sa_svc = None, sa_ln = None, sa_users = Map.empty\<rparr>"

definition ssaead_cipher :: "ssaead_Runner \<Rightarrow> string" where
  "ssaead_cipher r = (case ni_Common (sa_info r) of None \<Rightarrow> [] | Some cm \<Rightarrow> ToLower (TrimSpace (cn_Cipher cm)))"

text \<open>\<open>UpdateUsersWithPasswords\<close> replaces the users of the service, or reports an error and keeps them.\<close>

definition ssaead_Update :: "runner_lib \<Rightarrow> (string \<rightharpoonup> string) \<Rightarrow> (string \<times> string) list \<Rightarrow> goerror option \<times> (string \<times> string) list" where
  "ssaead_Update L users svc =
     (case rl_ssaead_Update L (currentUsers L users) of
        Some e \<Rightarrow> (Some e, svc) | None \<Rightarrow> (None, currentUsers L users))"

definition ssaead_startLocked :: "runner_lib \<Rightarrow> ssaead_Runner \<Rightarrow> net \<Rightarrow> goerror option \<times> ssaead_Runner \<times> net" where
  "ssaead_startLocked L r w =
     (case rl_ssaead_New L (ssaead_cipher r) of
        Some e \<Rightarrow> (Some (''ssaead: build '' @ ssaead_cipher r @ '' service: '' @ e), r, w)
      | None \<Rightarrow>
          (case ssaead_Update L (sa_users r) [] of
             (Some e, svc) \<Rightarrow> (Some (''ssaead: update users: '' @ e), r, w)
           | (None, svc) \<Rightarrow>
               (case listen_tcp L ''ssaead'' (sa_info r) w of
                  Inl e \<Rightarrow> (Some e, r, w)
                | Inr (addr, w') \<Rightarrow> (None, r\<lparr>sa_svc := Some svc, sa_ln := Some addr\<rparr>, w'))))"

definition ssaead_AddUsers :: "runner_lib \<Rightarrow> UserInfo list \<Rightarrow> ssaead_Runner \<Rightarrow> net \<Rightarrow> goerror option \<times> ssaead_Runner \<times> net" where
  "ssaead_AddUsers L users r0 w =
     (let r = r0\<lparr>sa_users := fold (\<lambda>u m. m(ui_Uuid u \<mapsto> ui_Uuid u)) users (sa_users r0)\<rparr> in
      if sa_ln r = None then
        (if dom (sa_users r) = {} then (None, r, w) else ssaead_startLocked L r w)
      else (case sa_svc r of
              None \<Rightarrow> (None, r, w)
            | Some svc \<Rightarrow> (case ssaead_Update L (sa_users r) svc of (e, svc') \<Rightarrow> (e, r\<lparr>sa_svc := Some svc'\<rparr>, w))))"

definition ssaead_DelUsers :: "runner_lib \<Rightarrow> string list \<Rightarrow> ssaead_Runner \<Rightarrow> ssaead_Runner" where
  "ssaead_DelUsers L uuids r0 =
     (let r = r0\<lparr>sa_users := fold (\<lambda>u m. map_del m u) uuids (sa_users r0)\<rparr> in
      case sa_svc r of
        Some svc \<Rightarrow> if dom (sa_users r) \<noteq> {} then r\<lparr>sa_svc := Some (snd (ssaead_Update L (sa_users r) svc))\<rparr> else r
      | None \<Rightarrow> r)"

definition ssaead_Close :: "ssaead_Runner \<Rightarrow> net \<Rightarrow> ssaead_Runner \<times> net" where
  "ssaead_Close r w = (case sa_ln r of None \<Rightarrow> (r, w) | Some addr \<Rightarrow> (r\<lparr>sa_ln := None\<rparr>, w - {addr}))"

section \<open>Sudoku\<close>

record sudoku_Runner =
  sk_tag :: string
  sk_info :: NodeInfo
  sk_server :: "sudoku_Options option"
  sk_ln :: "string option"
  sk_hashUser :: "string \<rightharpoonup> string"

definition sudoku_NewRunner :: "string \<Rightarrow> NodeInfo \<Rightarrow> sudoku_Runner" where
  "sudoku_NewRunner tag info = \<lparr>sk_tag = tag, sk_info = info, sk_server = None, sk_ln = None, sk_hashUser = Map.empty\<rparr>"

definition sudoku_options :: "sudokuSettings \<Rightarrow> sudoku_Options" where
  "sudoku_options s =
     (let aead1 = (if sks_AEADMethod s = [] then sks_AEAD s else sks_AEADMethod s);
          aead = (if aead1 = [] then ''chacha20-poly1305'' else aead1);
          table1 = (if sks_TableType s = [] then sks_ASCII s else sks_TableType s);
          table = (if table1 = [] then ''prefer_ascii'' else table1);
          susp = (if sks_SuspiciousAction s = [] \<and> sks_FallbackAddress s \<noteq> [] then ''fallback'' else sks_SuspiciousAction s);
          pure = (case sks_EnablePureDownlink s of None \<Rightarrow> True | Some b \<Rightarrow> b);
          (pmin, pmax) = (if sks_PaddingMin s = 0 \<and> sks_PaddingMax s = 0 then (10, 30) else (sks_PaddingMin s, sks_PaddingMax s))
      in \<lparr>sko_Key = sks_MasterKey s, sko_AEAD = aead, sko_TableType = table, sko_PaddingMin = pmin, sko_PaddingMax = pmax,
          sko_EnablePureDownlink = pure, sko_FallbackAddr = sks_FallbackAddress s, sko_SuspiciousAction = susp\<rparr>)"

definition sudoku_startLocked :: "runner_lib \<Rightarrow> sudoku_Runner \<Rightarrow> net \<Rightarrow> goerror option \<times> sudoku_Runner \<times> net" where
  "sudoku_startLocked L r w =
     (let opts = sudoku_options (rl_sudoku_settings L (network_settings (sk_info r))) in
      case rl_sudoku_NewServer L opts of
        Some e \<Rightarrow> (Some (''sudoku: build server: '' @ e), r, w)
      | None \<Rightarrow>
          (case listen_tcp L ''sudoku'' (sk_info r) w of
             Inl e \<Rightarrow> (Some e, r, w)
           | Inr (addr, w') \<Rightarrow> (None, r\<lparr>sk_server := Some opts, sk_ln := Some addr\<rparr>, w')))"

definition sudoku_add_user :: "UserInfo \<Rightarrow> (string \<rightharpoonup> string) \<Rightarrow> (string \<rightharpoonup> string)" where
  "sudoku_add_user u m = (if ui_Key u = [] then m else m(ui_Key u \<mapsto> ui_Uuid u))"

definition sudoku_AddUsers :: "runner_lib \<Rightarrow> UserInfo list \<Rightarrow> sudoku_Runner \<Rightarrow> net \<Rightarrow> goerror option \<times> sudoku_Runner \<times> net" where
  "sudoku_AddUsers L users r0 w =
     (let r = r0\<lparr>sk_hashUser := fold sudoku_add_user users (sk_hashUser r0)\<rparr> in
      if sk_ln r = None then
        (if dom (sk_hashUser r) = {} then (None, r, w) else sudoku_startLocked L r w)
      else (None, r, w))"

definition sudoku_DelUsers :: "string list \<Rightarrow> sudoku_Runner \<Rightarrow> sudoku_Runner" where
  "sudoku_DelUsers uuids r =
     r\<lparr>sk_hashUser := (\<lambda>h. case sk_hashUser r h of None \<Rightarrow> None | Some u \<Rightarrow> if u \<in> set uuids then None else Some u)\<rparr>"

text \<open>\<open>DialTarget\<close> up to the call of the dispatcher: the user and the email of the connection, or the error.\<close>

definition sudoku_DialTarget :: "string \<Rightarrow> sudoku_Runner \<Rightarrow> goerror + string" where
  "sudoku_DialTarget userHash r =
     (let uuid = (case sk_hashUser r userHash of None \<Rightarrow> [] | Some u \<Rightarrow> u) in
      if uuid = [] then Inl (''sudoku: unknown user hash '' @ userHash) else Inr (UserTag (sk_tag r) uuid))"

definition sudoku_Close :: "sudoku_Runner \<Rightarrow> net \<Rightarrow> sudoku_Runner \<times> net" where
  "sudoku_Close r w = (case sk_ln r of None \<Rightarrow> (r, w) | Some addr \<Rightarrow> (r\<lparr>sk_ln := None\<rparr>, w - {addr}))"

section \<open>ShadowsocksR\<close>

datatype hash_fn = HashMd5 | HashRaw | HashSha1

fun apply_hash :: "runner_lib \<Rightarrow> hash_fn \<Rightarrow> string \<Rightarrow> string" where
  "apply_hash L HashMd5 b = rl_md5 L b"
| "apply_hash L HashRaw b = b"
| "apply_hash L HashSha1 b = rl_sha1 L b"

record userEntry =
  ue_userKey :: string
  ue_uuid :: string

record ssr_Options =
  sro_Cipher :: string
  sro_Password :: string
  sro_Protocol :: string
  sro_Obfs :: string
  sro_ObfsHost :: string

record ssr_Runner =
  sr_tag :: string
  sr_info :: NodeInfo
  sr_srv :: "ssr_Options option"
  sr_ln :: "string option"
  sr_byID :: "int \<rightharpoonup> userEntry"
  sr_uuids :: "string \<rightharpoonup> int"
  sr_hashFn :: "hash_fn option"

definition ssr_NewRunner :: "string \<Rightarrow> NodeInfo \<Rightarrow> ssr_Runner" where
  "ssr_NewRunner tag info = \<lparr>sr_tag = tag, sr_info = info, sr_srv = None, sr_ln = None, sr_byID = Map.empty,
     sr_uuids = Map.empty, sr_hashFn = None\<rparr>"

definition ssr_lookup :: "int \<Rightarrow> ssr_Runner \<Rightarrow> (string \<times> string) option" where
  "ssr_lookup userID r = map_option (\<lambda>e. (ue_userKey e, ue_uuid e)) (sr_byID r userID)"

definition ssr_options :: "ssrSettings \<Rightarrow> ssr_Options" where
  "ssr_options s =
     \<lparr>sro_Cipher = (if srs_Cipher s = [] then ''aes-256-cfb'' else srs_Cipher s),
      sro_Password = (if srs_Password s = [] then ''v2node'' else srs_Password s),
      sro_Protocol = (if srs_Protocol s = [] then ''auth_aes128_sha1'' else srs_Protocol s),
      sro_Obfs = srs_Obfs s, sro_ObfsHost = srs_ObfsParam s\<rparr>"

definition ssr_hash :: "string \<Rightarrow> hash_fn" where
  "ssr_hash protocol =
     (if protocol = ''auth_aes128_md5'' then HashMd5
      else if protocol = ''auth_chain_a'' \<or> protocol = ''auth_chain_b'' then HashRaw
      else HashSha1)"

definition ssr_cipher_known :: "string \<Rightarrow> bool" where
  "ssr_cipher_known name \<longleftrightarrow> name \<in> {''aes-128-cfb'', ''aes-192-cfb'', ''aes-256-cfb'', ''aes-128-ctr'', ''aes-192-ctr'',
     ''aes-256-ctr'', ''rc4-md5'', ''chacha20-ietf''}"

definition ssr_rehash :: "runner_lib \<Rightarrow> hash_fn \<Rightarrow> (string \<rightharpoonup> int) \<Rightarrow> (int \<rightharpoonup> userEntry) \<Rightarrow> (int \<rightharpoonup> userEntry)" where
  "ssr_rehash L h uuids byID =
     range_fold (\<lambda>uuid i m. m(i \<mapsto> \<lparr>ue_userKey = apply_hash L h uuid, ue_uuid = uuid\<rparr>)) (rl_orderI L uuids) uuids byID"

definition ssr_startLocked :: "runner_lib \<Rightarrow> ssr_Runner \<Rightarrow> net \<Rightarrow> goerror option \<times> ssr_Runner \<times> net" where
  "ssr_startLocked L r0 w =
     (let opt = ssr_options (rl_ssr_settings L (network_settings (sr_info r0)));
          h = ssr_hash (sro_Protocol opt);
          r = r0\<lparr>sr_hashFn := Some h\<rparr>
      in if \<not> ssr_cipher_known (sro_Cipher opt) then (Some (''ssr: build server: unsupported cipher '' @ sro_Cipher opt), r, w)
         else (let r1 = r\<lparr>sr_byID := ssr_rehash L h (sr_uuids r) (sr_byID r)\<rparr> in
               case listen_tcp L ''ssr'' (sr_info r1) w of
                 Inl e \<Rightarrow> (Some e, r1, w)
               | Inr (addr, w') \<Rightarrow> (None, r1\<lparr>sr_srv := Some opt, sr_ln := Some addr\<rparr>, w')))"

text \<open>\<open>uint32(users[i].Id)\<close> keeps the low 32 bits.\<close>

definition ssr_user_id :: "UserInfo \<Rightarrow> int" where
  "ssr_user_id u = ui_Id u mod 2 ^ 32"

definition ssr_add_user :: "runner_lib \<Rightarrow> UserInfo \<Rightarrow> ssr_Runner \<Rightarrow> ssr_Runner" where
  "ssr_add_user L u r =
     (let key = (case sr_hashFn r of None \<Rightarrow> ui_Uuid u | Some h \<Rightarrow> apply_hash L h (ui_Uuid u))
      in r\<lparr>sr_uuids := (sr_uuids r)(ui_Uuid u \<mapsto> ssr_user_id u),
           sr_byID := (sr_byID r)(ssr_user_id u \<mapsto> \<lparr>ue_userKey = key, ue_uuid = ui_Uuid u\<rparr>)\<rparr>)"

definition ssr_AddUsers :: "runner_lib \<Rightarrow> UserInfo list \<Rightarrow> ssr_Runner \<Rightarrow> net \<Rightarrow> goerror option \<times> ssr_Runner \<times> net" where
  "ssr_AddUsers L users r0 w =
     (let r = fold (ssr_add_user L) users r0 in
      if sr_ln r = None then
        (if dom (sr_byID r) = {} then (None, r, w) else ssr_startLocked L r w)
      else (None, r, w))"

definition ssr_del_user :: "string \<Rightarrow> ssr_Runner \<Rightarrow> ssr_Runner" where
  "ssr_del_user u r =
     (case sr_uuids r u of
        None \<Rightarrow> r
      | Some i \<Rightarrow> r\<lparr>sr_byID := (sr_byID r)(i := None), sr_uuids := (sr_uuids r)(u := None)\<rparr>)"

definition ssr_DelUsers :: "string list \<Rightarrow> ssr_Runner \<Rightarrow> ssr_Runner" where
  "ssr_DelUsers uuids r = fold ssr_del_user uuids r"

definition ssr_Close :: "ssr_Runner \<Rightarrow> net \<Rightarrow> ssr_Runner \<times> net" where
  "ssr_Close r w = (case sr_ln r of None \<Rightarrow> (r, w) | Some addr \<Rightarrow> (r\<lparr>sr_ln := None\<rparr>, w - {addr}))"

section \<open>Trojan with a Shadowsocks layer\<close>

definition trojanss_Enabled :: "runner_lib \<Rightarrow> string \<Rightarrow> bool" where
  "trojanss_Enabled L raw \<longleftrightarrow>
     raw \<noteq> [] \<and> (case rl_trojanss_settings L raw of (ok, s) \<Rightarrow> ok \<and> sso_Enabled s)"

record trojanss_Runner =
  tj_tag :: string
  tj_info :: NodeInfo
  tj_ln :: "string option"
  tj_method :: string
  tj_key :: string
  tj_tlsCfg :: "(string \<times> string) option"
  tj_byKey :: "string \<rightharpoonup> string"
  tj_uuids :: "string \<rightharpoonup> string"

definition trojanss_NewRunner :: "string \<Rightarrow> NodeInfo \<Rightarrow> trojanss_Runner" where
  "trojanss_NewRunner tag info = \<lparr>tj_tag = tag, tj_info = info, tj_ln = None, tj_method = [], tj_key = [], tj_tlsCfg = None,
     tj_byKey = Map.empty, tj_uuids = Map.empty\<rparr>"

definition ssKeyLen :: "string \<Rightarrow> goerror + nat" where
  "ssKeyLen method =
     (if method = ''AES-128-GCM'' then Inr 16
      else if method = ''AES-256-GCM'' \<or> method = ''CHACHA20-IETF-POLY1305'' then Inr 32
      else Inl (''trojanss: unsupported ss method '' @ method))"

text \<open>\<open>evpBytesToKey\<close>: blocks of MD5 until the key is long enough; every block is 16 bytes, so \<open>keyLen\<close> rounds are enough.\<close>

fun evp_loop :: "(string \<Rightarrow> string) \<Rightarrow> string \<Rightarrow> nat \<Rightarrow> nat \<Rightarrow> string \<Rightarrow> string \<Rightarrow> string option" where
  "evp_loop md5 password keyLen 0 prev out = (if length out < keyLen then None else Some out)"
| "evp_loop md5 password keyLen (Suc fuel) prev out =
     (if length out < keyLen
      then (let prev' = md5 (prev @ password) in evp_loop md5 password keyLen fuel prev' (out @ prev'))
      else Some out)"

definition evpBytesToKey :: "(string \<Rightarrow> string) \<Rightarrow> string \<Rightarrow> nat \<Rightarrow> string option" where
  "evpBytesToKey md5 password keyLen = map_option (take keyLen) (evp_loop md5 password keyLen keyLen [] [])"

definition trojanss_settings :: "runner_lib \<Rightarrow> NodeInfo \<Rightarrow> SSObfs" where
  "trojanss_settings L info =
     (if network_settings info = [] then \<lparr>sso_Enabled = False, sso_Method = [], sso_Password = []\<rparr>
      else snd (rl_trojanss_settings L (network_settings info)))"

definition trojanss_startLocked :: "runner_lib \<Rightarrow> trojanss_Runner \<Rightarrow> net \<Rightarrow> goerror option \<times> trojanss_Runner \<times> net" where
  "trojanss_startLocked L r0 w =
     (let ss = trojanss_settings L (tj_info r0);
          method = (if sso_Method ss = [] then ''AES-128-GCM'' else sso_Method ss);
          r = r0\<lparr>tj_method := method\<rparr>
      in case ssKeyLen method of
           Inl e \<Rightarrow> (Some e, r, w)
         | Inr kl \<Rightarrow>
             (let r1 = r\<lparr>tj_key := the (evpBytesToKey (rl_md5 L) (sso_Password ss) kl)\<rparr>;
                  cm = common_of (tj_info r0);
                  tls = (case cn_CertInfo cm of
                           None \<Rightarrow> Inr (tj_tlsCfg r1)
                         | Some ci \<Rightarrow>
                             if cn_Tls cm = 1 then
                               (case rl_LoadX509 L (ci_CertFile ci) (ci_KeyFile ci) of
                                  Some e \<Rightarrow> Inl (''trojanss: load cert: '' @ e)
                                | None \<Rightarrow> Inr (Some (ci_CertFile ci, ci_KeyFile ci)))
                             else Inr (tj_tlsCfg r1))
              in case tls of
                   Inl e \<Rightarrow> (Some e, r1, w)
                 | Inr cfg \<Rightarrow>
                     (let r2 = r1\<lparr>tj_tlsCfg := cfg\<rparr> in
                      case listen_tcp L ''trojanss'' (tj_info r0) w of
                        Inl e \<Rightarrow> (Some e, r2, w)
                      | Inr (addr, w') \<Rightarrow> (None, r2\<lparr>tj_ln := Some addr\<rparr>, w'))))"

definition trojanss_add_user :: "runner_lib \<Rightarrow> UserInfo \<Rightarrow> trojanss_Runner \<Rightarrow> trojanss_Runner" where
  "trojanss_add_user L u r =
     (let hk = rl_sha224hex L (ui_Uuid u)
      in r\<lparr>tj_byKey := (tj_byKey r)(hk \<mapsto> ui_Uuid u), tj_uuids := (tj_uuids r)(ui_Uuid u \<mapsto> hk)\<rparr>)"

definition trojanss_AddUsers :: "runner_lib \<Rightarrow> UserInfo list \<Rightarrow> trojanss_Runner \<Rightarrow> net \<Rightarrow> goerror option \<times> trojanss_Runner \<times> net" where
  "trojanss_AddUsers L users r0 w =
     (let r = fold (trojanss_add_user L) users r0 in
      if tj_ln r = None then
        (if dom (tj_byKey r) = {} then (None, r, w) else trojanss_startLocked L r w)
      else (None, r, w))"

definition trojanss_del_user :: "string \<Rightarrow> trojanss_Runner \<Rightarrow> trojanss_Runner" where
  "trojanss_del_user u r =
     (case tj_uuids r u of
        None \<Rightarrow> r
      | Some hk \<Rightarrow> r\<lparr>tj_byKey := (tj_byKey r)(hk := None), tj_uuids := (tj_uuids r)(u := None)\<rparr>)"

definition trojanss_DelUsers :: "string list \<Rightarrow> trojanss_Runner \<Rightarrow> trojanss_Runner" where
  "trojanss_DelUsers uuids r = fold trojanss_del_user uuids r"

text \<open>What the accept loop does after the handshake gave a key: the email the stream is dispatched under, or nothing.\<close>

definition trojanss_accept :: "string \<Rightarrow> trojanss_Runner \<Rightarrow> string option" where
  "trojanss_accept hexKey r = map_option (UserTag (tj_tag r)) (tj_byKey r hexKey)"

definition trojanss_Close :: "trojanss_Runner \<Rightarrow> net \<Rightarrow> trojanss_Runner \<times> net" where
  "trojanss_Close r w = (case tj_ln r of None \<Rightarrow> (r, w) | Some addr \<Rightarrow> (r\<lparr>tj_ln := None\<rparr>, w - {addr}))"

section \<open>Mieru\<close>

definition forceUserHint :: "mieruNS \<Rightarrow> bool" where
  "forceUserHint ns =
     (case mns_ForceUserHint ns of
        Some b \<Rightarrow> b
      | None \<Rightarrow> (case mns_UserHintMandatory ns of Some b \<Rightarrow> b | None \<Rightarrow> True))"

definition tcpIdleTimeout :: "mieruNS \<Rightarrow> int" where
  "tcpIdleTimeout ns =
     (case mns_TCPIdleTimeoutSec ns of
        None \<Rightarrow> 0 | Some t \<Rightarrow> if 0 < t then i64 (t * 1000000000) else 0)"

definition port_token :: "bool \<Rightarrow> string \<Rightarrow> PortBinding list" where
  "port_token udp tok0 =
     (let tok = TrimSpace tok0 in
      if tok = [] then []
      else if CHR ''-'' \<in> set tok then [PortRange tok udp]
      else (case Atoi tok of (n, ok) \<Rightarrow> if \<not> ok \<or> n < 1 \<or> 65535 < n then [] else [Port n udp]))"

definition portBindings :: "string \<Rightarrow> int \<Rightarrow> bool \<Rightarrow> PortBinding list" where
  "portBindings spec0 serverPort udp =
     (let single = [Port (signed_take_bit 31 serverPort) udp];
          spec = TrimSpace spec0
      in if spec = [] then single
         else (let out = concat (map (port_token udp) (Split CHR '','' spec)) in if out = [] then single else out))"

definition buildEndpoints :: "runner_lib \<Rightarrow> NodeInfo \<Rightarrow> goerror + string list" where
  "buildEndpoints L info =
     (let cm = common_of info; ns = rl_mieru_ns L (cn_NetworkSettings cm);
          udp = (ToLower (mns_Transport ns) = ''udp'');
          pbs = portBindings (mns_Ports ns) (cn_ServerPort cm) udp;
          mtu = (case mns_MTU ns of None \<Rightarrow> 1400 | Some m \<Rightarrow> if 1280 \<le> m then m else 1400)
      in rl_mieru_endpoints L (cn_ListenIP cm) pbs mtu)"

record mieru_mux =
  mx_users :: "string set"
  mx_endpoints :: "string set"
  mx_hint :: bool
  mx_idle :: int
  mx_closed :: bool

record mieru_Runner =
  mi_tag :: string
  mi_info :: NodeInfo
  mi_mux :: "mieru_mux option"
  mi_users :: "string \<rightharpoonup> UserInfo"

definition mieru_NewRunner :: "string \<Rightarrow> NodeInfo \<Rightarrow> mieru_Runner" where
  "mieru_NewRunner tag info = \<lparr>mi_tag = tag, mi_info = info, mi_mux = None, mi_users = Map.empty\<rparr>"

text \<open>The listeners of a Mux start together: if one fails, the Mux closes all of them and reports the error.\<close>

definition mux_Start :: "runner_lib \<Rightarrow> string list \<Rightarrow> net \<Rightarrow> goerror + net" where
  "mux_Start L endpoints w =
     (if endpoints = [] then Inl ''no server listening endpoint found''
      else if list_ex (\<lambda>a. a \<in> w \<or> rl_refuse L a \<noteq> None) endpoints then Inl ''mux server listener failed''
      else Inr (w \<union> set endpoints))"

definition mieru_startLocked :: "runner_lib \<Rightarrow> mieru_Runner \<Rightarrow> net \<Rightarrow> goerror option \<times> mieru_Runner \<times> net" where
  "mieru_startLocked L r w =
     (case buildEndpoints L (mi_info r) of
        Inl e \<Rightarrow> (Some e, r, w)
      | Inr endpoints \<Rightarrow>
          (let ns = rl_mieru_ns L (cn_NetworkSettings (common_of (mi_info r))) in
           case (if mns_TrafficPattern ns = [] then None else rl_mieru_pattern L (mns_TrafficPattern ns)) of
             Some e \<Rightarrow> (Some (''decode mieru traffic_pattern failed: '' @ e), r, w)
           | None \<Rightarrow>
               (case rl_mieru_tpconfig L (mns_TrafficPattern ns) of
                  Some e \<Rightarrow> (Some e, r, w)
                | None \<Rightarrow>
                    (case mux_Start L endpoints w of
                       Inl e \<Rightarrow> (Some e, r, w)
                     | Inr w' \<Rightarrow>
                         (None, r\<lparr>mi_mux := Some \<lparr>mx_users = dom (mi_users r), mx_endpoints = set endpoints,
                              mx_hint = forceUserHint ns, mx_idle = tcpIdleTimeout ns, mx_closed = False\<rparr>\<rparr>, w')))))"

definition mieru_AddUsers :: "runner_lib \<Rightarrow> UserInfo list \<Rightarrow> mieru_Runner \<Rightarrow> net \<Rightarrow> goerror option \<times> mieru_Runner \<times> net" where
  "mieru_AddUsers L users r0 w =
     (let r = r0\<lparr>mi_users := fold (\<lambda>u m. m(ui_Uuid u \<mapsto> u)) users (mi_users r0)\<rparr> in
      case mi_mux r of
        None \<Rightarrow> if dom (mi_users r) = {} then (None, r, w) else mieru_startLocked L r w
      | Some mux \<Rightarrow> (None, r\<lparr>mi_mux := Some (mux\<lparr>mx_users := dom (mi_users r)\<rparr>)\<rparr>, w))"

definition mieru_DelUsers :: "string list \<Rightarrow> mieru_Runner \<Rightarrow> mieru_Runner" where
  "mieru_DelUsers uuids r0 =
     (let r = r0\<lparr>mi_users := fold (\<lambda>u m. map_del m u) uuids (mi_users r0)\<rparr> in
      case mi_mux r of
        None \<Rightarrow> r
      | Some mux \<Rightarrow> r\<lparr>mi_mux := Some (mux\<lparr>mx_users := dom (mi_users r)\<rparr>)\<rparr>)"

definition mieru_Close :: "mieru_Runner \<Rightarrow> net \<Rightarrow> mieru_Runner \<times> net" where
  "mieru_Close r w =
     (case mi_mux r of
        None \<Rightarrow> (r, w)
      | Some mux \<Rightarrow> if mx_closed mux then (r, w)
                    else (r\<lparr>mi_mux := Some (mux\<lparr>mx_closed := True\<rparr>)\<rparr>, w - mx_endpoints mux))"

section \<open>Managers\<close>

text \<open>The six managers: the shared operations over the runner of the package.\<close>

definition snell_mgr_call :: "runner_lib \<Rightarrow> manager_call \<Rightarrow> snell_Runner Manager \<times> net \<Rightarrow> snell_Runner Manager \<times> net" where
  "snell_mgr_call L = mgr_call ''snell'' snell_NewRunner (snell_AddUsers L) (snell_DelUsers L) snell_Close"

definition ssaead_mgr_call :: "runner_lib \<Rightarrow> manager_call \<Rightarrow> ssaead_Runner Manager \<times> net \<Rightarrow> ssaead_Runner Manager \<times> net" where
  "ssaead_mgr_call L = mgr_call ''ssaead'' ssaead_NewRunner (ssaead_AddUsers L) (ssaead_DelUsers L) ssaead_Close"

definition sudoku_mgr_call :: "runner_lib \<Rightarrow> manager_call \<Rightarrow> sudoku_Runner Manager \<times> net \<Rightarrow> sudoku_Runner Manager \<times> net" where
  "sudoku_mgr_call L = mgr_call ''sudoku'' sudoku_NewRunner (sudoku_AddUsers L) sudoku_DelUsers sudoku_Close"

definition ssr_mgr_call :: "runner_lib \<Rightarrow> manager_call \<Rightarrow> ssr_Runner Manager \<times> net \<Rightarrow> ssr_Runner Manager \<times> net" where
  "ssr_mgr_call L = mgr_call ''ssr'' ssr_NewRunner (ssr_AddUsers L) ssr_DelUsers ssr_Close"

definition trojanss_mgr_call :: "runner_lib \<Rightarrow> manager_call \<Rightarrow> trojanss_Runner Manager \<times> net \<Rightarrow> trojanss_Runner Manager \<times> net" where
  "trojanss_mgr_call L = mgr_call ''trojanss'' trojanss_NewRunner (trojanss_AddUsers L) trojanss_DelUsers trojanss_Close"

definition mieru_mgr_call :: "runner_lib \<Rightarrow> manager_call \<Rightarrow> mieru_Runner Manager \<times> net \<Rightarrow> mieru_Runner Manager \<times> net" where
  "mieru_mgr_call L = mgr_call ''mieru'' mieru_NewRunner (mieru_AddUsers L) mieru_DelUsers mieru_Close"

end
