(* ===== verification/Runner_Props.thy ===== *)
theory Runner_Props
  imports Runners
begin

text \<open>
  The runners meet the contract of their managers: the interpretations of \<open>runner\<close> for the six protocols and of
  \<open>revoking_runner\<close> for the four whose running service follows every removal, and the properties of the
  managers that follow. The Snell and extended Shadowsocks runners skip the update when the last user is
  removed; what they do instead is a property of its own.
\<close>

section \<open>Lemmas\<close>

lemma listen_tcp_Inr: "listen_tcp L p info w = Inr (addr, w') \<longleftrightarrow>
    addr = listen_addr (common_of info) \<and> addr \<notin> w \<and> rl_refuse L addr = None \<and> w' = insert addr w"
  by (auto simp: listen_tcp_def net_Listen_def Let_def split: sum.splits if_splits option.splits)

lemma set_option_Diff: "w - set_option a = (case a of None \<Rightarrow> w | Some x \<Rightarrow> w - {x})"
  by (cases a) auto

lemma fold_map_upd_dom: "dom (fold (\<lambda>u m. m(f u \<mapsto> g u)) us m) = dom m \<union> f ` set us"
  by (induction us arbitrary: m) auto

lemma fold_map_del_dom: "dom (fold (\<lambda>u m. map_del m u) us m) = dom m - set us"
  by (induction us arbitrary: m) (auto simp: map_del_def)

lemmas runner_splits = sum.splits option.splits prod.splits if_splits

section \<open>Interpretations\<close>

lemma snell_startLocked_addrs:
  "snell_startLocked L r w = (e, r', w') \<Longrightarrow> sn_ln r = None \<Longrightarrow>
     (sn_ln r' = None \<and> w' = w) \<or> (set_option (sn_ln r') \<inter> w = {} \<and> w' = w \<union> set_option (sn_ln r'))"
  by (auto simp: snell_startLocked_def Let_def listen_tcp_Inr split: runner_splits)

interpretation snell: runner "''snell''" snell_NewRunner "snell_AddUsers L" "snell_DelUsers L" snell_Close "\<lambda>r. set_option (sn_ln r)"
  for L
proof
  fix us r w e r' w'
  assume "snell_AddUsers L us r w = (e, r', w')"
  then show "set_option (sn_ln r') = set_option (sn_ln r) \<and> w' = w \<or>
     set_option (sn_ln r) = {} \<and> set_option (sn_ln r') \<inter> w = {} \<and> w' = w \<union> set_option (sn_ln r')"
    using snell_startLocked_addrs
    by (auto simp: snell_AddUsers_def Let_def split: option.splits prod.splits if_splits)
qed (auto simp: snell_NewRunner_def snell_DelUsers_def snell_Close_def Let_def split: option.splits)

lemma ssaead_startLocked_addrs:
  "ssaead_startLocked L r w = (e, r', w') \<Longrightarrow> sa_ln r = None \<Longrightarrow>
     (sa_ln r' = None \<and> w' = w) \<or> (set_option (sa_ln r') \<inter> w = {} \<and> w' = w \<union> set_option (sa_ln r'))"
  by (auto simp: ssaead_startLocked_def Let_def listen_tcp_Inr split: runner_splits)

interpretation ssaead: runner "''ssaead''" ssaead_NewRunner "ssaead_AddUsers L" "ssaead_DelUsers L" ssaead_Close "\<lambda>r. set_option (sa_ln r)"
  for L
proof
  fix us r w e r' w'
  assume "ssaead_AddUsers L us r w = (e, r', w')"
  then show "set_option (sa_ln r') = set_option (sa_ln r) \<and> w' = w \<or>
     set_option (sa_ln r) = {} \<and> set_option (sa_ln r') \<inter> w = {} \<and> w' = w \<union> set_option (sa_ln r')"
    using ssaead_startLocked_addrs
    by (auto simp: ssaead_AddUsers_def Let_def split: option.splits prod.splits if_splits)
qed (auto simp: ssaead_NewRunner_def ssaead_DelUsers_def ssaead_Close_def Let_def split: option.splits)

text \<open>Sudoku: a connection is served if its hash is in the table, which both operations write directly.\<close>

definition sudoku_served :: "sudoku_Runner \<Rightarrow> string set" where
  "sudoku_served r = (if sk_ln r = None then {} else ran (sk_hashUser r))"

lemma sudoku_startLocked_eqs:
  assumes "sudoku_startLocked L r w = (e, r', w')"
  shows "sk_hashUser r' = sk_hashUser r"
    "sk_ln r = None \<Longrightarrow> (sk_ln r' = None \<and> w' = w) \<or> (set_option (sk_ln r') \<inter> w = {} \<and> w' = w \<union> set_option (sk_ln r'))"
  using assms by (auto simp: sudoku_startLocked_def Let_def listen_tcp_Inr split: runner_splits)

lemma ran_fold_sudoku: "ran (fold sudoku_add_user us m) \<subseteq> ran m \<union> ui_Uuid ` set us"
proof (induction us arbitrary: m)
  case (Cons u us)
  have "ran (sudoku_add_user u m) \<subseteq> ran m \<union> {ui_Uuid u}" by (auto simp: sudoku_add_user_def ran_def split: if_splits)
  with Cons [of "sudoku_add_user u m"] show ?case by auto
qed simp

interpretation sudoku: revoking_runner "''sudoku''" sudoku_NewRunner "sudoku_AddUsers L" sudoku_DelUsers sudoku_Close
    "\<lambda>r. set_option (sk_ln r)" sudoku_served "\<lambda>r. ran (sk_hashUser r)" "\<lambda>r. True" "\<lambda>us r. True"
  for L
proof
  fix us r w e r' w'
  assume a: "sudoku_AddUsers L us r w = (e, r', w')"
  then show "set_option (sk_ln r') = set_option (sk_ln r) \<and> w' = w \<or>
     set_option (sk_ln r) = {} \<and> set_option (sk_ln r') \<inter> w = {} \<and> w' = w \<union> set_option (sk_ln r')"
    using sudoku_startLocked_eqs(2) by (auto simp: sudoku_AddUsers_def Let_def split: if_splits)
  from a have "sk_hashUser r' = fold sudoku_add_user us (sk_hashUser r)"
    by (auto simp: sudoku_AddUsers_def Let_def sudoku_startLocked_eqs(1) split: if_splits)
  then show "ran (sk_hashUser r') \<subseteq> ran (sk_hashUser r) \<union> ui_Uuid ` set us" by (simp add: ran_fold_sudoku)
next
  fix r :: sudoku_Runner and ids
  show "ran (sk_hashUser (sudoku_DelUsers ids r)) \<subseteq> ran (sk_hashUser r) - set ids"
    by (auto simp: sudoku_DelUsers_def ran_def split: option.splits if_splits)
qed (auto simp: sudoku_NewRunner_def sudoku_DelUsers_def sudoku_Close_def sudoku_served_def split: option.splits)

text \<open>ShadowsocksR: the table by id follows the table by uuid as long as a user keeps its id.\<close>

definition ssr_served :: "ssr_Runner \<Rightarrow> string set" where
  "ssr_served r = (if sr_ln r = None then {} else ue_uuid ` ran (sr_byID r))"

definition ssr_good :: "ssr_Runner \<Rightarrow> bool" where
  "ssr_good r \<longleftrightarrow> (\<forall>i e. sr_byID r i = Some e \<longrightarrow> sr_uuids r (ue_uuid e) = Some i)"

definition ssr_ok :: "UserInfo list \<Rightarrow> ssr_Runner \<Rightarrow> bool" where
  "ssr_ok us r \<longleftrightarrow> (\<forall>u\<in>set us. sr_uuids r (ui_Uuid u) \<in> {None, Some (ssr_user_id u)})
     \<and> (\<forall>u\<in>set us. \<forall>v\<in>set us. ui_Uuid u = ui_Uuid v \<longrightarrow> ssr_user_id u = ssr_user_id v)"

lemma ssr_add_user_eqs:
  "sr_ln (ssr_add_user L u r) = sr_ln r" "sr_uuids (ssr_add_user L u r) = (sr_uuids r)(ui_Uuid u \<mapsto> ssr_user_id u)"
  "\<exists>k. sr_byID (ssr_add_user L u r) = (sr_byID r)(ssr_user_id u \<mapsto> \<lparr>ue_userKey = k, ue_uuid = ui_Uuid u\<rparr>)"
  by (simp_all add: ssr_add_user_def Let_def) blast

lemma ssr_good_add_user: "ssr_good r \<Longrightarrow> ssr_ok (u # us) r \<Longrightarrow> ssr_good (ssr_add_user L u r) \<and> ssr_ok us (ssr_add_user L u r)"
proof
  assume g: "ssr_good r" and ok: "ssr_ok (u # us) r"
  obtain k where k: "sr_byID (ssr_add_user L u r) = (sr_byID r)(ssr_user_id u \<mapsto> \<lparr>ue_userKey = k, ue_uuid = ui_Uuid u\<rparr>)"
    using ssr_add_user_eqs(3) by blast
  show "ssr_good (ssr_add_user L u r)"
    unfolding ssr_good_def
  proof (intro allI impI)
    fix i e assume ie: "sr_byID (ssr_add_user L u r) i = Some e"
    show "sr_uuids (ssr_add_user L u r) (ue_uuid e) = Some i"
    proof (cases "i = ssr_user_id u")
      case True
      with ie have "ue_uuid e = ui_Uuid u" by (simp add: k) (metis userEntry.select_convs(2))
      with True show ?thesis by (simp add: ssr_add_user_eqs)
    next
      case False
      with ie have "sr_byID r i = Some e" by (simp add: k)
      with g have e: "sr_uuids r (ue_uuid e) = Some i" by (simp add: ssr_good_def)
      from ok have "sr_uuids r (ui_Uuid u) = None \<or> sr_uuids r (ui_Uuid u) = Some (ssr_user_id u)" by (simp add: ssr_ok_def)
      with e False have "ue_uuid e \<noteq> ui_Uuid u" by (metis option.discI option.inject)
      with e show ?thesis by (simp add: ssr_add_user_eqs)
    qed
  qed
  show "ssr_ok us (ssr_add_user L u r)"
    unfolding ssr_ok_def
  proof (intro conjI ballI)
    fix v assume v: "v \<in> set us"
    with ok have "sr_uuids r (ui_Uuid v) \<in> {None, Some (ssr_user_id v)}"
      "ui_Uuid v = ui_Uuid u \<longrightarrow> ssr_user_id v = ssr_user_id u" unfolding ssr_ok_def list.set by blast+
    then show "sr_uuids (ssr_add_user L u r) (ui_Uuid v) \<in> {None, Some (ssr_user_id v)}" by (simp add: ssr_add_user_eqs)
    fix v' assume "v' \<in> set us"
    with v ok show "ui_Uuid v = ui_Uuid v' \<longrightarrow> ssr_user_id v = ssr_user_id v'" unfolding ssr_ok_def list.set by blast
  qed
qed

lemma ssr_good_fold: "ssr_good r \<Longrightarrow> ssr_ok us r \<Longrightarrow> ssr_good (fold (ssr_add_user L) us r)"
  by (induction us arbitrary: r) (simp_all add: ssr_good_add_user)

lemma ssr_fold_eqs:
  "sr_ln (fold (ssr_add_user L) us r) = sr_ln r"
  "dom (sr_uuids (fold (ssr_add_user L) us r)) = dom (sr_uuids r) \<union> ui_Uuid ` set us"
  by (induction us arbitrary: r) (auto simp: ssr_add_user_eqs)

lemma ssr_rehash_at:
  assumes "ssr_rehash L h uuids byID i = Some e"
  shows "byID i = Some e \<or> uuids (ue_uuid e) = Some i"
proof -
  have "range_fold (\<lambda>uuid i m. m(i \<mapsto> \<lparr>ue_userKey = apply_hash L h uuid, ue_uuid = uuid\<rparr>)) ks uuids m i = Some e \<Longrightarrow>
      m i = Some e \<or> uuids (ue_uuid e) = Some i" for ks m
  proof (induction ks arbitrary: m)
    case (Cons k ks)
    from Cons.IH [of "case uuids k of None \<Rightarrow> m | Some v \<Rightarrow> m(v \<mapsto> \<lparr>ue_userKey = apply_hash L h k, ue_uuid = k\<rparr>)"] Cons.prems
    show ?case by (auto split: option.splits if_splits)
  qed simp
  with assms show ?thesis by (simp add: ssr_rehash_def)
qed

lemma ssr_startLocked_eqs:
  assumes "ssr_startLocked L r w = (e, r', w')"
  shows "sr_uuids r' = sr_uuids r" "ssr_good r \<Longrightarrow> ssr_good r'"
    "sr_ln r = None \<Longrightarrow> (sr_ln r' = None \<and> w' = w) \<or> (set_option (sr_ln r') \<inter> w = {} \<and> w' = w \<union> set_option (sr_ln r'))"
proof -
  show "sr_uuids r' = sr_uuids r"
    "sr_ln r = None \<Longrightarrow> (sr_ln r' = None \<and> w' = w) \<or> (set_option (sr_ln r') \<inter> w = {} \<and> w' = w \<union> set_option (sr_ln r'))"
    using assms by (auto simp: ssr_startLocked_def Let_def listen_tcp_Inr split: runner_splits)
  have "sr_byID r' = sr_byID r \<or> (\<exists>h. sr_byID r' = ssr_rehash L h (sr_uuids r) (sr_byID r))"
    using assms by (auto simp: ssr_startLocked_def Let_def split: runner_splits)
  with \<open>sr_uuids r' = sr_uuids r\<close> show "ssr_good r'" if "ssr_good r"
    using that ssr_rehash_at [of L _ "sr_uuids r" "sr_byID r"] by (auto simp: ssr_good_def) metis+
qed

lemma ssr_del_user_eqs:
  "sr_ln (ssr_del_user u r) = sr_ln r" "sr_uuids (ssr_del_user u r) = (sr_uuids r)(u := None)"
  "ssr_good r \<Longrightarrow> ssr_good (ssr_del_user u r)"
  by (auto simp: ssr_del_user_def ssr_good_def split: option.splits)

lemma ssr_DelUsers_eqs:
  "sr_ln (ssr_DelUsers ids r) = sr_ln r" "dom (sr_uuids (ssr_DelUsers ids r)) = dom (sr_uuids r) - set ids"
  "ssr_good r \<Longrightarrow> ssr_good (ssr_DelUsers ids r)"
  unfolding ssr_DelUsers_def by (induction ids arbitrary: r) (auto simp: ssr_del_user_eqs)

interpretation ssr: revoking_runner "''ssr''" ssr_NewRunner "ssr_AddUsers L" ssr_DelUsers ssr_Close
    "\<lambda>r. set_option (sr_ln r)" ssr_served "\<lambda>r. dom (sr_uuids r)" ssr_good ssr_ok
  for L
proof
  fix us r w e r' w'
  assume a: "ssr_AddUsers L us r w = (e, r', w')"
  then show "set_option (sr_ln r') = set_option (sr_ln r) \<and> w' = w \<or>
     set_option (sr_ln r) = {} \<and> set_option (sr_ln r') \<inter> w = {} \<and> w' = w \<union> set_option (sr_ln r')"
    using ssr_startLocked_eqs(3) by (fastforce simp: ssr_AddUsers_def Let_def ssr_fold_eqs split: if_splits)
  from a have "sr_uuids r' = sr_uuids (fold (ssr_add_user L) us r)"
    by (auto simp: ssr_AddUsers_def Let_def ssr_startLocked_eqs(1) split: if_splits)
  then show "dom (sr_uuids r') \<subseteq> dom (sr_uuids r) \<union> ui_Uuid ` set us" by (simp add: ssr_fold_eqs)
  assume "ssr_good r" "ssr_ok us r"
  then show "ssr_good r'"
    using a ssr_good_fold [of r us L] ssr_startLocked_eqs(2) by (auto simp: ssr_AddUsers_def Let_def split: if_splits)
next
  fix r :: ssr_Runner assume "ssr_good r"
  then show "ssr_served r \<subseteq> dom (sr_uuids r)" by (auto simp: ssr_served_def ssr_good_def ran_def)
qed (auto simp: ssr_NewRunner_def ssr_DelUsers_eqs ssr_Close_def split: option.splits, simp add: ssr_good_def)

text \<open>Trojan with a Shadowsocks layer: the two tables are inverse to each other through the hash.\<close>

definition trojanss_served :: "trojanss_Runner \<Rightarrow> string set" where
  "trojanss_served r = (if tj_ln r = None then {} else ran (tj_byKey r))"

definition trojanss_good :: "runner_lib \<Rightarrow> trojanss_Runner \<Rightarrow> bool" where
  "trojanss_good L r \<longleftrightarrow> (\<forall>k u. tj_byKey r k = Some u \<longrightarrow> tj_uuids r u = Some k)
     \<and> (\<forall>u k. tj_uuids r u = Some k \<longrightarrow> k = rl_sha224hex L u)"

lemma trojanss_good_add_user: "trojanss_good L r \<Longrightarrow> trojanss_good L (trojanss_add_user L u r)"
  unfolding trojanss_good_def trojanss_add_user_def by (auto simp: Let_def)

lemma trojanss_fold_eqs:
  "trojanss_good L r \<Longrightarrow> trojanss_good L (fold (trojanss_add_user L) us r)"
  "tj_ln (fold (trojanss_add_user L) us r) = tj_ln r"
  "dom (tj_uuids (fold (trojanss_add_user L) us r)) = dom (tj_uuids r) \<union> ui_Uuid ` set us"
  by (induction us arbitrary: r) (auto simp: trojanss_good_add_user, auto simp: trojanss_add_user_def Let_def)

lemma trojanss_startLocked_eqs:
  assumes "trojanss_startLocked L r w = (e, r', w')"
  shows "tj_byKey r' = tj_byKey r" "tj_uuids r' = tj_uuids r"
    "tj_ln r = None \<Longrightarrow> (tj_ln r' = None \<and> w' = w) \<or> (set_option (tj_ln r') \<inter> w = {} \<and> w' = w \<union> set_option (tj_ln r'))"
  using assms by (auto simp: trojanss_startLocked_def Let_def listen_tcp_Inr split: runner_splits)

lemma trojanss_del_user_eqs:
  "tj_ln (trojanss_del_user u r) = tj_ln r" "tj_uuids (trojanss_del_user u r) = (tj_uuids r)(u := None)"
  "trojanss_good L r \<Longrightarrow> trojanss_good L (trojanss_del_user u r)"
  by (auto simp: trojanss_del_user_def trojanss_good_def split: option.splits)

lemma trojanss_DelUsers_eqs:
  "tj_ln (trojanss_DelUsers ids r) = tj_ln r" "dom (tj_uuids (trojanss_DelUsers ids r)) = dom (tj_uuids r) - set ids"
  "trojanss_good L r \<Longrightarrow> trojanss_good L (trojanss_DelUsers ids r)"
  unfolding trojanss_DelUsers_def by (induction ids arbitrary: r) (auto simp: trojanss_del_user_eqs)

interpretation trojanss: revoking_runner "''trojanss''" trojanss_NewRunner "trojanss_AddUsers L" trojanss_DelUsers trojanss_Close
    "\<lambda>r. set_option (tj_ln r)" trojanss_served "\<lambda>r. dom (tj_uuids r)" "trojanss_good L" "\<lambda>us r. True"
  for L
proof
  fix us r w e r' w'
  assume a: "trojanss_AddUsers L us r w = (e, r', w')"
  then show "set_option (tj_ln r') = set_option (tj_ln r) \<and> w' = w \<or>
     set_option (tj_ln r) = {} \<and> set_option (tj_ln r') \<inter> w = {} \<and> w' = w \<union> set_option (tj_ln r')"
    using trojanss_startLocked_eqs(3) by (fastforce simp: trojanss_AddUsers_def Let_def trojanss_fold_eqs split: if_splits)
  from a have eqs: "tj_uuids r' = tj_uuids (fold (trojanss_add_user L) us r)" "tj_byKey r' = tj_byKey (fold (trojanss_add_user L) us r)"
    by (auto simp: trojanss_AddUsers_def Let_def trojanss_startLocked_eqs(1,2) split: if_splits)
  then show "dom (tj_uuids r') \<subseteq> dom (tj_uuids r) \<union> ui_Uuid ` set us" by (simp add: trojanss_fold_eqs)
  assume "trojanss_good L r"
  from trojanss_fold_eqs(1) [OF this, of us] show "trojanss_good L r'" by (simp add: trojanss_good_def eqs)
next
  fix r :: trojanss_Runner assume "trojanss_good L r"
  then show "trojanss_served r \<subseteq> dom (tj_uuids r)" by (auto simp: trojanss_served_def trojanss_good_def ran_def)
qed (auto simp: trojanss_NewRunner_def trojanss_DelUsers_eqs trojanss_Close_def split: option.splits, simp add: trojanss_good_def)

text \<open>Mieru: the Mux always has the current users.\<close>

definition mieru_served :: "mieru_Runner \<Rightarrow> string set" where
  "mieru_served r = (case mi_mux r of None \<Rightarrow> {} | Some mux \<Rightarrow> if mx_closed mux then {} else mx_users mux)"

definition mieru_addrs :: "mieru_Runner \<Rightarrow> string set" where
  "mieru_addrs r = (case mi_mux r of None \<Rightarrow> {} | Some mux \<Rightarrow> if mx_closed mux then {} else mx_endpoints mux)"

definition mieru_good :: "mieru_Runner \<Rightarrow> bool" where
  "mieru_good r \<longleftrightarrow> (\<forall>mux. mi_mux r = Some mux \<longrightarrow> mx_users mux = dom (mi_users r))"

lemma mux_Start_Inr: "mux_Start L es w = Inr w' \<Longrightarrow> set es \<inter> w = {} \<and> w' = w \<union> set es"
  by (auto simp: mux_Start_def list_ex_iff split: if_splits)

lemma mieru_startLocked_cases:
  assumes "mieru_startLocked L r w = (e, r', w')"
  obtains "r' = r" "w' = w"
  | es mux where "r' = r\<lparr>mi_mux := Some mux\<rparr>" "mx_users mux = dom (mi_users r)" "mx_endpoints mux = set es"
      "\<not> mx_closed mux" "mux_Start L es w = Inr w'"
  using assms unfolding mieru_startLocked_def Let_def by (fastforce split: sum.splits option.splits)

lemma mieru_startLocked_eqs:
  assumes "mieru_startLocked L r w = (e, r', w')" and "mi_mux r = None"
  shows "mi_users r' = mi_users r" "mieru_good r'"
    "(mieru_addrs r' = {} \<and> w' = w) \<or> (mieru_addrs r' \<inter> w = {} \<and> w' = w \<union> mieru_addrs r')"
  using assms(1) by (cases rule: mieru_startLocked_cases; use assms(2) mux_Start_Inr in \<open>force simp: mieru_good_def mieru_addrs_def\<close>)+

interpretation mieru: revoking_runner "''mieru''" mieru_NewRunner "mieru_AddUsers L" mieru_DelUsers mieru_Close
    mieru_addrs mieru_served "\<lambda>r. dom (mi_users r)" mieru_good "\<lambda>us r. True"
  for L
proof
  fix us r w e r' w'
  assume a: "mieru_AddUsers L us r w = (e, r', w')"
  then show "mieru_addrs r' = mieru_addrs r \<and> w' = w \<or>
     mieru_addrs r = {} \<and> mieru_addrs r' \<inter> w = {} \<and> w' = w \<union> mieru_addrs r'"
    using mieru_startLocked_eqs(3)
    by (fastforce simp: mieru_AddUsers_def mieru_addrs_def Let_def split: option.splits if_splits)
  from a have "mi_users r' = fold (\<lambda>u m. m(ui_Uuid u \<mapsto> u)) us (mi_users r)"
    by (auto simp: mieru_AddUsers_def Let_def dest: mieru_startLocked_eqs(1) split: option.splits if_splits)
  then show "dom (mi_users r') \<subseteq> dom (mi_users r) \<union> ui_Uuid ` set us" by (simp add: fold_map_upd_dom)
  show "mieru_good r'"
    using a mieru_startLocked_eqs(2)
    by (fastforce simp: mieru_AddUsers_def mieru_good_def Let_def split: option.splits if_splits)
qed (auto simp: mieru_NewRunner_def mieru_DelUsers_def mieru_Close_def mieru_addrs_def mieru_served_def mieru_good_def
    fold_map_del_dom Let_def split: option.splits if_splits)

section \<open>Snell and extended Shadowsocks\<close>

definition snell_served :: "snell_Runner \<Rightarrow> string set" where
  "snell_served r =
     (if sn_ln r = None then {}
      else (case sn_svc r of
              None \<Rightarrow> {}
            | Some (SnellV6 m) \<Rightarrow> ran m
            | Some (SnellTrial creds) \<Rightarrow> tr_uuid ` set creds))"

definition ssaead_served :: "ssaead_Runner \<Rightarrow> string set" where
  "ssaead_served r = (if sa_ln r = None then {} else (case sa_svc r of None \<Rightarrow> {} | Some svc \<Rightarrow> fst ` set svc))"

lemma v6_userMap_spec:
  assumes "distinct (map snd us)" and "\<forall>(u, k)\<in>set us. k \<noteq> [] \<and> length k \<le> 255" and "snd ` set us \<inter> dom m = {}"
  shows "\<exists>m'. v6_userMap us m = Inr m' \<and> ran m' = ran m \<union> fst ` set us"
  using assms
proof (induction us arbitrary: m)
  case (Cons x us)
  obtain u k where x: "x = (u, k)" by force
  from Cons.prems have k: "k \<noteq> []" "\<not> 255 < length k" "m k = None" by (auto simp: x domIff)
  have hyps: "distinct (map snd us)" "\<forall>(u, k)\<in>set us. k \<noteq> [] \<and> length k \<le> 255" "snd ` set us \<inter> dom (m(k \<mapsto> u)) = {}"
    using Cons.prems by (auto simp: x)
  obtain m' where "v6_userMap us (m(k \<mapsto> u)) = Inr m'" "ran m' = ran (m(k \<mapsto> u)) \<union> fst ` set us"
    using Cons.IH [OF hyps] by blast
  with k show ?case by (auto simp: x ran_map_upd)
qed simp

lemma currentUsers_set:
  "range_order (rl_order L m) m \<Longrightarrow> set (currentUsers L m) = {(u, k). m u = Some k}"
  by (auto simp: currentUsers_def range_order_def image_iff domIff)

lemma currentUsers_keys:
  assumes "range_order (rl_order L m) m" and "inj_on m (dom m)"
  shows "distinct (map snd (currentUsers L m))"
proof -
  have "inj_on (\<lambda>u. the (m u)) (set (rl_order L m))"
    using assms by (auto simp: range_order_def inj_on_def domIff)
  then show ?thesis using assms(1) by (simp add: currentUsers_def o_def distinct_map range_order_def)
qed

section \<open>Properties\<close>

text \<open>
  Whatever sequence of calls a manager has seen, closing all its runners leaves the network exactly as it was before
  the manager was created: no listener of a node survives a core shutdown, and none of somebody else's is
  closed.
\<close>

theorem close_all_releases_listeners:
  "(fold (snell_mgr_call L) cs (mgr_New, base) = (m1, w) \<and> range_order order (mg_runners m1)
      \<longrightarrow> snell_mgr_call L (CCloseAll order) (m1, w) = (m1\<lparr>mg_runners := Map.empty\<rparr>, base))
   \<and> (fold (ssaead_mgr_call L) cs (mgr_New, base) = (m2, w) \<and> range_order order (mg_runners m2)
      \<longrightarrow> ssaead_mgr_call L (CCloseAll order) (m2, w) = (m2\<lparr>mg_runners := Map.empty\<rparr>, base))
   \<and> (fold (sudoku_mgr_call L) cs (mgr_New, base) = (m3, w) \<and> range_order order (mg_runners m3)
      \<longrightarrow> sudoku_mgr_call L (CCloseAll order) (m3, w) = (m3\<lparr>mg_runners := Map.empty\<rparr>, base))
   \<and> (fold (ssr_mgr_call L) cs (mgr_New, base) = (m4, w) \<and> range_order order (mg_runners m4)
      \<longrightarrow> ssr_mgr_call L (CCloseAll order) (m4, w) = (m4\<lparr>mg_runners := Map.empty\<rparr>, base))
   \<and> (fold (trojanss_mgr_call L) cs (mgr_New, base) = (m5, w) \<and> range_order order (mg_runners m5)
      \<longrightarrow> trojanss_mgr_call L (CCloseAll order) (m5, w) = (m5\<lparr>mg_runners := Map.empty\<rparr>, base))
   \<and> (fold (mieru_mgr_call L) cs (mgr_New, base) = (m6, w) \<and> range_order order (mg_runners m6)
      \<longrightarrow> mieru_mgr_call L (CCloseAll order) (m6, w) = (m6\<lparr>mg_runners := Map.empty\<rparr>, base))"
  unfolding snell_mgr_call_def ssaead_mgr_call_def sudoku_mgr_call_def ssr_mgr_call_def trojanss_mgr_call_def mieru_mgr_call_def
  by (intro conjI impI; elim conjE; (rule snell.close_all_returns | rule ssaead.close_all_returns | rule sudoku.close_all_returns
        | rule ssr.close_all_returns | rule trojanss.close_all_returns | rule mieru.close_all_returns); assumption)

definition demo_lib :: runner_lib where
  "demo_lib = \<lparr>rl_refuse = (\<lambda>a. None), rl_order = (\<lambda>m. if m ''u1'' = None then [] else [''u1'']), rl_orderI = (\<lambda>m. []),
     rl_snell_settings = (\<lambda>s. \<lparr>sns_Version = 6, sns_PSK = ''0123456789ab'', sns_Obfs = [], sns_Mode = []\<rparr>),
     rl_snell_NewMulti = (\<lambda>p m. None), rl_ssaead_New = (\<lambda>c. None), rl_ssaead_Update = (\<lambda>us. None),
     rl_sudoku_settings = (\<lambda>s. \<lparr>sks_MasterKey = s, sks_AEADMethod = [], sks_AEAD = [], sks_TableType = [], sks_ASCII = [],
        sks_PaddingMin = 0, sks_PaddingMax = 0, sks_EnablePureDownlink = None, sks_FallbackAddress = [], sks_SuspiciousAction = []\<rparr>),
     rl_sudoku_NewServer = (\<lambda>x. None),
     rl_ssr_settings = (\<lambda>s. \<lparr>srs_Cipher = [], srs_Password = [], srs_Protocol = [], srs_Obfs = [], srs_ObfsParam = []\<rparr>),
     rl_md5 = (\<lambda>s. replicate 16 CHR ''a''), rl_sha1 = (\<lambda>s. s), rl_sha224hex = (\<lambda>s. s),
     rl_trojanss_settings = (\<lambda>s. (True, \<lparr>sso_Enabled = True, sso_Method = [], sso_Password = []\<rparr>)), rl_LoadX509 = (\<lambda>c k. None),
     rl_mieru_ns = (\<lambda>s. \<lparr>mns_Transport = [], mns_TrafficPattern = [], mns_Ports = [], mns_MTU = None, mns_ForceUserHint = None,
        mns_UserHintMandatory = None, mns_TCPIdleTimeoutSec = None\<rparr>),
     rl_mieru_endpoints = (\<lambda>ip pbs mtu. Inr [ip]), rl_mieru_pattern = (\<lambda>s. None), rl_mieru_tpconfig = (\<lambda>s. None)\<rparr>"

definition demo_info :: NodeInfo where
  "demo_info = \<lparr>ni_Id = 1, ni_Type = ''snell'', ni_Security = 0, ni_PushInterval = 60, ni_PullInterval = 60, ni_Tag = ''t'',
     ni_Common = Some (zero_CommonNode\<lparr>cn_ServerPort := 443\<rparr>)\<rparr>"

definition demo_u1 :: UserInfo where
  "demo_u1 = \<lparr>ui_Id = 100, ui_Uuid = ''u1'', ui_SpeedLimit = 0, ui_DeviceLimit = 0, ui_Key = ''k1''\<rparr>"

lemmas runner_eval = demo_lib_def demo_info_def demo_u1_def zero_CommonNode_def common_of_def network_settings_def Let_def
  listen_tcp_def net_Listen_def mgr_New_def mgr_SetDispatcher_def mgr_Add_def mgr_AddUsers_def mgr_DelUsers_def

lemma demo_sudoku_run:
  "fold (sudoku_mgr_call demo_lib) [CSetDispatcher True, CAdd ''t'' demo_info, CAddUsers ''t'' [demo_u1]] (mgr_New, {}) =
     (\<lparr>mg_runners = [''t'' \<mapsto> \<lparr>sk_tag = ''t'', sk_info = demo_info, sk_server = Some (sudoku_options (rl_sudoku_settings demo_lib [])),
          sk_ln = Some (listen_addr (common_of demo_info)), sk_hashUser = [''k1'' \<mapsto> ''u1'']\<rparr>], mg_disp = True\<rparr>,
      {listen_addr (common_of demo_info)})"
  by (simp add: sudoku_mgr_call_def runner_eval sudoku_NewRunner_def sudoku_AddUsers_def sudoku_add_user_def sudoku_startLocked_def)

theorem close_all_releases_listeners_witness:
  "\<exists>m w. fold (sudoku_mgr_call demo_lib) [CSetDispatcher True, CAdd ''t'' demo_info, CAddUsers ''t'' [demo_u1]] (mgr_New, {}) = (m, w)
     \<and> w \<noteq> {} \<and> snd (sudoku_mgr_call demo_lib (CCloseAll [''t'']) (m, w)) = {}"
proof -
  obtain m w where run: "fold (sudoku_mgr_call demo_lib) [CSetDispatcher True, CAdd ''t'' demo_info, CAddUsers ''t'' [demo_u1]]
      (mgr_New, {}) = (m, w)" by force
  with demo_sudoku_run have "range_order [''t''] (mg_runners m)" "w \<noteq> {}" by (auto simp: range_order_def)
  with close_all_releases_listeners [where order = "[''t'']"] run show ?thesis by (metis snd_conv)
qed

lemma sudoku_revoked:
  assumes "mg_runners (mgr_DelUsers sudoku_DelUsers tag ids m) tag = Some r"
  shows "sudoku_served r \<inter> set ids = {}"
proof -
  from assms obtain q where "mg_runners m tag = Some q" by (auto simp: mgr_DelUsers_def split: option.splits)
  with sudoku.revoked [OF _ this assms] show ?thesis by simp
qed

lemma mgr_DelUsers_before:
  "mg_runners (mgr_DelUsers D tag ids m) tag = Some r \<Longrightarrow> \<exists>q. mg_runners m tag = Some q"
  by (auto simp: mgr_DelUsers_def split: option.splits)

lemma trojanss_revoked:
  assumes "fold (trojanss_mgr_call L) cs (mgr_New, base) = (m, w)"
    and "mg_runners (mgr_DelUsers trojanss_DelUsers tag ids m) tag = Some r"
  shows "trojanss_served r \<inter> set ids = {}"
proof -
  from mgr_DelUsers_before [OF assms(2)] obtain q where q: "mg_runners m tag = Some q" by blast
  from trojanss.run_good [OF assms(1) [unfolded trojanss_mgr_call_def] q, of "\<lambda>us. True" "\<lambda>r. True"]
  have "trojanss_good L q" by simp
  from trojanss.revoked [OF this q assms(2)] show ?thesis by simp
qed

lemma mieru_revoked:
  assumes "fold (mieru_mgr_call L) cs (mgr_New, base) = (m, w)"
    and "mg_runners (mgr_DelUsers mieru_DelUsers tag ids m) tag = Some r"
  shows "mieru_served r \<inter> set ids = {}"
proof -
  from mgr_DelUsers_before [OF assms(2)] obtain q where q: "mg_runners m tag = Some q" by blast
  from mieru.run_good [OF assms(1) [unfolded mieru_mgr_call_def] q, of "\<lambda>us. True" "\<lambda>r. True"]
  have "mieru_good q" by simp
  from mieru.revoked [OF this q assms(2)] show ?thesis by simp
qed

definition ssr_ids :: "(string \<Rightarrow> int) \<Rightarrow> ssr_Runner \<Rightarrow> bool" where
  "ssr_ids idof r \<longleftrightarrow> (\<forall>u i. sr_uuids r u = Some i \<longrightarrow> i = idof u)"

definition ssr_list_ids :: "(string \<Rightarrow> int) \<Rightarrow> UserInfo list \<Rightarrow> bool" where
  "ssr_list_ids idof us \<longleftrightarrow> (\<forall>u\<in>set us. ssr_user_id u = idof (ui_Uuid u))"

lemma ssr_ids_ok: "ssr_ids idof r \<Longrightarrow> ssr_list_ids idof us \<Longrightarrow> ssr_ok us r"
  unfolding ssr_ids_def ssr_list_ids_def ssr_ok_def by (metis insertCI not_Some_eq)

lemma ssr_ids_add:
  assumes "ssr_ids idof r" and "ssr_list_ids idof us" and "ssr_AddUsers L us r w = (e, r', w')"
  shows "ssr_ids idof r'"
proof -
  have step: "ssr_ids idof q \<Longrightarrow> ssr_user_id u = idof (ui_Uuid u) \<Longrightarrow> ssr_ids idof (ssr_add_user L u q)" for u q
    by (simp add: ssr_ids_def ssr_add_user_eqs(2))
  have "ssr_ids idof (fold (ssr_add_user L) us r)"
    using assms(1,2)
  proof (induction us arbitrary: r)
    case (Cons u us)
    then have "ssr_ids idof (ssr_add_user L u r)" "ssr_list_ids idof us" by (simp_all add: ssr_list_ids_def step)
    with Cons.IH show ?case by simp
  qed simp
  moreover have "sr_uuids r' = sr_uuids (fold (ssr_add_user L) us r)"
    using assms(3) by (auto simp: ssr_AddUsers_def Let_def ssr_startLocked_eqs(1) split: if_splits)
  ultimately show ?thesis by (simp add: ssr_ids_def)
qed

lemma ssr_ids_del: "ssr_ids idof r \<Longrightarrow> ssr_ids idof (ssr_DelUsers ids r)"
proof -
  have step: "ssr_ids idof q \<Longrightarrow> ssr_ids idof (ssr_del_user u q)" for u q by (simp add: ssr_ids_def ssr_del_user_eqs(2))
  show "ssr_ids idof r \<Longrightarrow> ssr_ids idof (ssr_DelUsers ids r)"
    unfolding ssr_DelUsers_def by (induction ids arbitrary: r) (simp_all add: step)
qed

lemma ssr_ids_new: "ssr_ids idof (ssr_NewRunner t i)"
  by (simp add: ssr_ids_def ssr_NewRunner_def)

lemma ssr_revoked:
  assumes "fold (ssr_mgr_call L) cs (mgr_New, base) = (m, w)"
    and "mg_runners (mgr_DelUsers ssr_DelUsers tag ids m) tag = Some r"
    and "\<And>t us. CAddUsers t us \<in> set cs \<Longrightarrow> ssr_list_ids idof us"
  shows "ssr_served r \<inter> set ids = {}"
proof -
  from mgr_DelUsers_before [OF assms(2)] obtain q where q: "mg_runners m tag = Some q" by blast
  have "ssr_good q \<and> ssr_ids idof q"
    by (rule ssr.run_good [OF assms(1) [unfolded ssr_mgr_call_def] q, where C = "ssr_list_ids idof"])
       (fact assms(3) ssr_ids_new ssr_ids_ok ssr_ids_add ssr_ids_del)+
  then have "ssr_good q" by simp
  from ssr.revoked [OF this q assms(2)] show ?thesis by simp
qed

text \<open>
  Without the condition on the ids it fails for ShadowsocksR: when a user of a running node is added again under another id, the entry of the old id stays, and
  removing the user deletes only the new one. The user is served on.
\<close>

lemma ssr_second_id_stays:
  assumes "sr_ln r = Some a" and "sr_byID r i = Some e" and "ue_uuid e = ui_Uuid u" and "ssr_user_id u \<noteq> i"
  shows "ui_Uuid u \<in> ssr_served (ssr_DelUsers [ui_Uuid u] (fst (snd (ssr_AddUsers L [u] r w))))"
proof -
  let ?r = "ssr_DelUsers [ui_Uuid u] (fst (snd (ssr_AddUsers L [u] r w)))"
  have "sr_ln ?r = Some a" "sr_byID ?r i = Some e"
    using assms by (simp_all add: ssr_AddUsers_def ssr_add_user_def ssr_DelUsers_def ssr_del_user_def Let_def)
  then show ?thesis using assms(3) by (auto simp: ssr_served_def image_iff intro!: bexI [of _ e] ranI)
qed

text \<open>
  Claim C40. Removing users from a sudoku, Trojan or mieru node takes effect for new connections at once, after any
  history of the manager: none of the removed users is served any more. For a ShadowsocksR node it does provided that in all calls of \<open>AddUsers\<close> before
  each user came with the same id (its low 32 bits); without that it does not (\<open>ssr_second_id_stays\<close>).
\<close>

theorem removed_users_not_served:
  "(fold (sudoku_mgr_call L) cs (mgr_New, base) = (m1, w) \<and> mg_runners (mgr_DelUsers sudoku_DelUsers tag ids m1) tag = Some r1
      \<longrightarrow> sudoku_served r1 \<inter> set ids = {})
   \<and> (fold (trojanss_mgr_call L) cs (mgr_New, base) = (m2, w) \<and> mg_runners (mgr_DelUsers trojanss_DelUsers tag ids m2) tag = Some r2
      \<longrightarrow> trojanss_served r2 \<inter> set ids = {})
   \<and> (fold (mieru_mgr_call L) cs (mgr_New, base) = (m3, w) \<and> mg_runners (mgr_DelUsers mieru_DelUsers tag ids m3) tag = Some r3
      \<longrightarrow> mieru_served r3 \<inter> set ids = {})
   \<and> ((\<forall>t us. CAddUsers t us \<in> set cs \<longrightarrow> (\<forall>u\<in>set us. ssr_user_id u = idof (ui_Uuid u)))
      \<and> fold (ssr_mgr_call L) cs (mgr_New, base) = (m4, w) \<and> mg_runners (mgr_DelUsers ssr_DelUsers tag ids m4) tag = Some r4
      \<longrightarrow> ssr_served r4 \<inter> set ids = {})"
proof (intro conjI impI; elim conjE)
  assume "mg_runners (mgr_DelUsers sudoku_DelUsers tag ids m1) tag = Some r1"
  then show "sudoku_served r1 \<inter> set ids = {}" by (rule sudoku_revoked)
next
  assume "fold (trojanss_mgr_call L) cs (mgr_New, base) = (m2, w)" "mg_runners (mgr_DelUsers trojanss_DelUsers tag ids m2) tag = Some r2"
  then show "trojanss_served r2 \<inter> set ids = {}" by (rule trojanss_revoked)
next
  assume "fold (mieru_mgr_call L) cs (mgr_New, base) = (m3, w)" "mg_runners (mgr_DelUsers mieru_DelUsers tag ids m3) tag = Some r3"
  then show "mieru_served r3 \<inter> set ids = {}" by (rule mieru_revoked)
next
  assume "\<forall>t us. CAddUsers t us \<in> set cs \<longrightarrow> (\<forall>u\<in>set us. ssr_user_id u = idof (ui_Uuid u))"
  then have "CAddUsers t us \<in> set cs \<Longrightarrow> ssr_list_ids idof us" for t us unfolding ssr_list_ids_def by blast
  moreover assume "fold (ssr_mgr_call L) cs (mgr_New, base) = (m4, w)" "mg_runners (mgr_DelUsers ssr_DelUsers tag ids m4) tag = Some r4"
  ultimately show "ssr_served r4 \<inter> set ids = {}" by (intro ssr_revoked)
qed

definition demo_calls :: "manager_call list" where
  "demo_calls = [CSetDispatcher True, CAdd ''t'' demo_info, CAddUsers ''t'' [demo_u1]]"

definition demo_revoked :: "('r \<Rightarrow> string set) \<Rightarrow> (string list \<Rightarrow> 'r \<Rightarrow> 'r) \<Rightarrow> 'r Manager \<Rightarrow> bool" where
  "demo_revoked served del m \<longleftrightarrow>
     (\<exists>r r'. mg_runners m ''t'' = Some r \<and> ''u1'' \<in> served r \<and> mg_runners (mgr_DelUsers del ''t'' [''u1''] m) ''t'' = Some r' \<and> ''u1'' \<notin> served r')"

lemma demo_revokedI:
  assumes "\<exists>r. mg_runners m ''t'' = Some r \<and> ''u1'' \<in> served r"
    and "\<And>r'. mg_runners (mgr_DelUsers del ''t'' [''u1''] m) ''t'' = Some r' \<Longrightarrow> served r' \<inter> set [''u1''] = {}"
  shows "demo_revoked served del m"
proof -
  obtain r where r: "mg_runners m ''t'' = Some r" "''u1'' \<in> served r" using assms(1) by blast
  then obtain r' where r': "mg_runners (mgr_DelUsers del ''t'' [''u1''] m) ''t'' = Some r'" by (simp add: mgr_DelUsers_def)
  from assms(2) [OF this] r r' show ?thesis by (auto simp: demo_revoked_def)
qed

lemma demo_trojanss_run:
  "\<exists>r. mg_runners (fst (fold (trojanss_mgr_call demo_lib) demo_calls (mgr_New, {}))) ''t'' = Some r \<and> ''u1'' \<in> trojanss_served r"
proof -
  have "ssKeyLen ''AES-128-GCM'' = Inr 16" by (simp add: ssKeyLen_def)
  then show ?thesis
    by (simp add: demo_calls_def trojanss_mgr_call_def runner_eval trojanss_NewRunner_def trojanss_AddUsers_def trojanss_add_user_def trojanss_startLocked_def
      trojanss_settings_def trojanss_served_def)
qed

lemma demo_mieru_run:
  "\<exists>r. mg_runners (fst (fold (mieru_mgr_call demo_lib) demo_calls (mgr_New, {}))) ''t'' = Some r \<and> ''u1'' \<in> mieru_served r"
  by (simp add: demo_calls_def mieru_mgr_call_def runner_eval mieru_NewRunner_def mieru_AddUsers_def mieru_startLocked_def buildEndpoints_def
    mux_Start_def mieru_served_def)

lemma demo_ssr_run:
  "\<exists>r. mg_runners (fst (fold (ssr_mgr_call demo_lib) demo_calls (mgr_New, {}))) ''t'' = Some r \<and> ''u1'' \<in> ssr_served r"
  by (simp add: demo_calls_def ssr_mgr_call_def runner_eval ssr_NewRunner_def ssr_AddUsers_def ssr_add_user_def ssr_startLocked_def ssr_options_def
    ssr_cipher_known_def ssr_rehash_def ssr_served_def ssr_user_id_def)

theorem removed_users_not_served_witness:
  "demo_revoked sudoku_served sudoku_DelUsers (fst (fold (sudoku_mgr_call demo_lib) demo_calls (mgr_New, {})))
   \<and> demo_revoked trojanss_served trojanss_DelUsers (fst (fold (trojanss_mgr_call demo_lib) demo_calls (mgr_New, {})))
   \<and> demo_revoked mieru_served mieru_DelUsers (fst (fold (mieru_mgr_call demo_lib) demo_calls (mgr_New, {})))
   \<and> demo_revoked ssr_served ssr_DelUsers (fst (fold (ssr_mgr_call demo_lib) demo_calls (mgr_New, {})))"
proof (intro conjI; rule demo_revokedI)
  have ids: "\<forall>t us. CAddUsers t us \<in> set demo_calls \<longrightarrow> (\<forall>u\<in>set us. ssr_user_id u = 100)"
    by (simp add: demo_calls_def demo_u1_def ssr_user_id_def)
  note all = removed_users_not_served [where L = demo_lib and cs = demo_calls and base = "{}" and tag = "''t''" and ids = "[''u1'']" and idof = "\<lambda>_. 100"]
  show "sudoku_served r' \<inter> set [''u1''] = {}" if "mg_runners (mgr_DelUsers sudoku_DelUsers ''t'' [''u1''] (fst (fold (sudoku_mgr_call demo_lib) demo_calls (mgr_New, {})))) ''t'' = Some r'" for r'
    by (rule all [THEN conjunct1, THEN mp, OF conjI, OF surjective_pairing that])
  show "trojanss_served r' \<inter> set [''u1''] = {}" if "mg_runners (mgr_DelUsers trojanss_DelUsers ''t'' [''u1''] (fst (fold (trojanss_mgr_call demo_lib) demo_calls (mgr_New, {})))) ''t'' = Some r'" for r'
    by (rule all [THEN conjunct2, THEN conjunct1, THEN mp, OF conjI, OF surjective_pairing that])
  show "mieru_served r' \<inter> set [''u1''] = {}" if "mg_runners (mgr_DelUsers mieru_DelUsers ''t'' [''u1''] (fst (fold (mieru_mgr_call demo_lib) demo_calls (mgr_New, {})))) ''t'' = Some r'" for r'
    by (rule all [THEN conjunct2, THEN conjunct2, THEN conjunct1, THEN mp, OF conjI, OF surjective_pairing that])
  show "ssr_served r' \<inter> set [''u1''] = {}" if "mg_runners (mgr_DelUsers ssr_DelUsers ''t'' [''u1''] (fst (fold (ssr_mgr_call demo_lib) demo_calls (mgr_New, {})))) ''t'' = Some r'" for r'
    by (rule all [THEN conjunct2, THEN conjunct2, THEN conjunct2, THEN mp, OF conjI, OF ids conjI, OF surjective_pairing that])
  show "\<exists>r. mg_runners (fst (fold (sudoku_mgr_call demo_lib) demo_calls (mgr_New, {}))) ''t'' = Some r \<and> ''u1'' \<in> sudoku_served r"
    unfolding demo_calls_def demo_sudoku_run by (simp add: sudoku_served_def)
qed (rule demo_trojanss_run demo_mieru_run demo_ssr_run)+

text \<open>
  Removing the last users of a running Snell or extended Shadowsocks node does not remove them from the running
  service: everybody who was served before is served afterwards, although the runner knows no user any more.
\<close>

theorem last_users_stay_served:
  "(dom (sn_users r) \<subseteq> set ids \<longrightarrow>
      sn_users (snell_DelUsers L ids r) = Map.empty \<and> snell_served (snell_DelUsers L ids r) = snell_served r)
   \<and> (dom (sa_users q) \<subseteq> set ids \<longrightarrow>
      sa_users (ssaead_DelUsers L ids q) = Map.empty \<and> ssaead_served (ssaead_DelUsers L ids q) = ssaead_served q)"
proof -
  have empty: "fold (\<lambda>u m. map_del m u) ids m = Map.empty" if "dom m \<subseteq> set ids" for m :: "string \<rightharpoonup> string"
    using fold_map_del_dom [of ids m] that by (metis Diff_eq_empty_iff dom_eq_empty_conv)
  show ?thesis
    by (auto simp: snell_DelUsers_def snell_served_def ssaead_DelUsers_def ssaead_served_def empty Let_def split: option.splits)
qed

definition demo_snell :: snell_Runner where
  "demo_snell = \<lparr>sn_tag = ''t'', sn_info = demo_info, sn_svc = Some (SnellV6 [''k1'' \<mapsto> ''u1'']), sn_ln = Some ''0.0.0.0:443'',
     sn_users = [''u1'' \<mapsto> ''k1'']\<rparr>"

lemma demo_snell_started:
  "fold (snell_mgr_call demo_lib) [CSetDispatcher True, CAdd ''t'' demo_info, CAddUsers ''t'' [demo_u1]] (mgr_New, {}) =
     (\<lparr>mg_runners = [''t'' \<mapsto> demo_snell\<lparr>sn_ln := Some (listen_addr (common_of demo_info))\<rparr>], mg_disp = True\<rparr>, {listen_addr (common_of demo_info)})"
  by (simp add: snell_mgr_call_def runner_eval snell_NewRunner_def snell_AddUsers_def snell_add_user_def snell_startLocked_def
      snell_UpdateUsers_def v6_UpdateUsers_def currentUsers_def demo_snell_def)

theorem last_users_stay_served_witness:
  "sn_users (snell_DelUsers demo_lib [''u1''] demo_snell) = Map.empty \<and> ''u1'' \<in> snell_served (snell_DelUsers demo_lib [''u1''] demo_snell)"
proof -
  have "dom (sn_users demo_snell) \<subseteq> set [''u1'']" "''u1'' \<in> snell_served demo_snell"
    by (simp_all add: demo_snell_def snell_served_def)
  with last_users_stay_served show ?thesis by blast
qed

text \<open>
  As long as a user remains, removing users from a running Snell node leaves exactly the remaining users served, for
  the v6 service provided the remaining client ids are usable and different, for the v4/v5 service provided
  no key is empty.
\<close>

theorem snell_removal_effective:
  assumes "users = fold (\<lambda>u m. map_del m u) ids (sn_users r)" and "users \<noteq> Map.empty"
    and "sn_ln r = Some addr" and "sn_svc r = Some svc" and "range_order (rl_order L users) users"
    and "\<forall>k\<in>ran users. k \<noteq> [] \<and> length k \<le> 255" and "inj_on users (dom users)"
    and "\<forall>creds. svc = SnellTrial creds \<longrightarrow>
          (let n = trial_newSet (map fst (currentUsers L users)) (map snd (currentUsers L users)) in range_order (rl_order L n) n)"
  shows "snell_served (snell_DelUsers L ids r) = dom (sn_users r) - set ids"
proof -
  have dom: "dom users = dom (sn_users r) - set ids" by (simp add: assms(1) fold_map_del_dom)
  have set: "set (currentUsers L users) = {(u, k). users u = Some k}" by (rule currentUsers_set [OF assms(5)])
  have fst: "fst ` set (currentUsers L users) = dom users" by (auto simp: set dom_def image_iff)
  have served: "snell_served (snell_DelUsers L ids r) =
      (case snd (snell_UpdateUsers L users svc) of SnellV6 m \<Rightarrow> ran m | SnellTrial creds \<Rightarrow> tr_uuid ` set creds)"
    using assms(2-4) by (simp add: snell_DelUsers_def snell_served_def Let_def assms(1) [symmetric] split: snell_service.split)
  show ?thesis
  proof (cases svc)
    case (SnellV6 m)
    have keys: "distinct (map snd (currentUsers L users))" by (rule currentUsers_keys [OF assms(5,7)])
    have good: "\<forall>(u, k)\<in>set (currentUsers L users). k \<noteq> [] \<and> length k \<le> 255" using assms(6) by (auto simp: set ran_def)
    from v6_userMap_spec [OF keys good, of Map.empty] obtain m' where
      "v6_userMap (currentUsers L users) Map.empty = Inr m'" "ran m' = dom users" by (auto simp: fst)
    moreover have "currentUsers L users \<noteq> []" using fst assms(2) by (metis dom_eq_empty_conv image_empty list.set(1))
    ultimately show ?thesis using served by (simp add: SnellV6 snell_UpdateUsers_def v6_UpdateUsers_def dom)
  next
    case (SnellTrial creds)
    define n where "n = trial_newSet (map fst (currentUsers L users)) (map snd (currentUsers L users))"
    have eq: "zip (map fst xs) (map snd xs) = xs" for xs :: "(string \<times> string) list" by (simp add: zip_map_fst_snd)
    have newSet_dom: "dom (fold (\<lambda>(u, k) m. if k \<noteq> [] then m(u \<mapsto> k) else m) xs m) = dom m \<union> fst ` set xs"
      if "\<forall>(u, k)\<in>set xs. k \<noteq> []" for xs :: "(string \<times> string) list" and m :: "string \<rightharpoonup> string"
      using that by (induction xs arbitrary: m) auto
    have "\<forall>(u, k)\<in>set (currentUsers L users). k \<noteq> []" using assms(6) by (auto simp: set ran_def)
    from newSet_dom [OF this, of Map.empty] have n: "dom n = dom users" by (simp add: n_def trial_newSet_def eq fst)
    have "range_order (rl_order L n) n" using assms(8) SnellTrial by (simp add: n_def Let_def)
    then have ord: "set (rl_order L n) = dom n" by (simp add: range_order_def)
    have "tr_uuid ` set (trial_UpdateUsers (rl_order L) (map fst (currentUsers L users)) (map snd (currentUsers L users)) creds) = dom n"
      unfolding trial_UpdateUsers_eq [OF n_def] Let_def set_map image_image by (auto simp: ord)
    with served show ?thesis by (simp add: SnellTrial snell_UpdateUsers_def n dom)
  qed
qed

theorem snell_removal_effective_witness:
  "snell_served (snell_DelUsers demo_lib [''u2'']
     (demo_snell\<lparr>sn_users := [''u1'' \<mapsto> ''k1'', ''u2'' \<mapsto> ''k2''], sn_svc := Some (SnellV6 [''k1'' \<mapsto> ''u1'', ''k2'' \<mapsto> ''u2''])\<rparr>)) = {''u1''}"
proof -
  let ?r = "demo_snell\<lparr>sn_users := [''u1'' \<mapsto> ''k1'', ''u2'' \<mapsto> ''k2''], sn_svc := Some (SnellV6 [''k1'' \<mapsto> ''u1'', ''k2'' \<mapsto> ''u2''])\<rparr>"
  have u: "[''u1'' \<mapsto> ''k1''] = fold (\<lambda>u m. map_del m u) [''u2''] (sn_users ?r)" by (simp add: map_del_def fun_eq_iff)
  have "snell_served (snell_DelUsers demo_lib [''u2''] ?r) = dom (sn_users ?r) - set [''u2'']"
    by (rule snell_removal_effective [OF u]) (auto simp: demo_snell_def demo_lib_def range_order_def)
  then show ?thesis by auto
qed

end
