(* ===== verification/Fronts.thy ===== *)
theory Fronts
  imports Runner_Contract Panel_Api
begin

text \<open>
  The fronts of Shadowsocks nodes: the supervised sing-box process that terminates shadow-tls
  (\<open>common/singbox\<close>) and the native simple-obfs listener (\<open>common/obfs/manager.go\<close>). Both reserve a loopback port
  for the Shadowsocks inbound behind them. The file system is a map from paths to the JSON documents written
  to them; the network is the set of addresses listened on; what \<open>net.Listen\<close> on port 0 returns, and whether the
  binary, the directory and the file can be used, are arguments.
\<close>

section \<open>sing-box configuration\<close>

datatype json = JString string | JInt int | JBool bool | JArray "json list" | JObject "(string \<times> json) list"

record singbox_User =
  su_Name :: string
  su_Password :: string

record singbox_Config =
  sc_Tag :: string
  sc_PublicListen :: string
  sc_PublicPort :: int
  sc_InternalHost :: string
  sc_InternalPort :: int
  sc_Version :: int
  sc_Users :: "singbox_User list"
  sc_HandshakeHost :: string
  sc_HandshakePort :: int
  sc_StrictMode :: bool

text \<open>The plugin's version option is used when it is a positive number.\<close>

definition shadowtls_version :: "string \<Rightarrow> int" where
  "shadowtls_version v = (if v = [] then 3 else (case Atoi v of (n, ok) \<Rightarrow> if ok \<and> 0 < n then n else 3))"

definition ConfigFromNode :: "json_codec \<Rightarrow> string \<Rightarrow> CommonNode \<Rightarrow> int \<Rightarrow> singbox_Config" where
  "ConfigFromNode J tag c internalPort =
     (let plugin = ShadowsocksPlugin J c in
      \<lparr>sc_Tag = tag,
       sc_PublicListen = (if cn_ListenIP c = [] then ''0.0.0.0'' else cn_ListenIP c),
       sc_PublicPort = cn_ServerPort c,
       sc_InternalHost = ''127.0.0.1'',
       sc_InternalPort = internalPort,
       sc_Version = shadowtls_version (plugin_Opt plugin ''version''),
       sc_Users = [\<lparr>su_Name = ''u0'', su_Password = plugin_Opt plugin ''password''\<rparr>],
       sc_HandshakeHost = plugin_Opt plugin ''host'',
       sc_HandshakePort = 443,
       sc_StrictMode = True\<rparr>)"

definition MarshalSingBox :: "singbox_Config \<Rightarrow> goerror + json" where
  "MarshalSingBox c =
     (if sc_PublicPort c = 0 then Inl (''singbox: public port is zero for '' @ sc_Tag c)
      else if sc_InternalPort c = 0 then Inl (''singbox: internal port is zero for '' @ sc_Tag c)
      else Inr (JObject
        [(''log'', JObject [(''level'', JString ''warn''), (''timestamp'', JBool False)]),
         (''inbounds'', JArray
            [JObject
               [(''type'', JString ''shadowtls''), (''tag'', JString ''st-in''), (''listen'', JString (sc_PublicListen c)),
                (''listen_port'', JInt (sc_PublicPort c)), (''version'', JInt (sc_Version c)),
                (''strict_mode'', JBool (sc_StrictMode c)),
                (''users'', JArray (map (\<lambda>u. JObject [(''name'', JString (su_Name u)), (''password'', JString (su_Password u))]) (sc_Users c))),
                (''handshake'', JObject [(''server'', JString (sc_HandshakeHost c)),
                   (''server_port'', JInt (if sc_HandshakePort c = 0 then 443 else sc_HandshakePort c))]),
                (''detour'', JString ''ss-relay'')],
             JObject
               [(''type'', JString ''direct''), (''tag'', JString ''ss-relay''), (''listen'', JString (sc_InternalHost c)),
                (''override_address'', JString (sc_InternalHost c)), (''override_port'', JInt (sc_InternalPort c))]]),
         (''outbounds'', JArray [JObject [(''type'', JString ''direct''), (''tag'', JString ''direct'')]])]))"

section \<open>sing-box manager\<close>

record singbox_instance =
  si_tag :: string
  si_cfgPath :: string
  si_intPort :: int

record singbox_Manager =
  sb_binPath :: string
  sb_workDir :: string
  sb_insts :: "string \<rightharpoonup> singbox_instance"
  sb_ports :: "int \<rightharpoonup> string"

type_synonym files = "string \<rightharpoonup> json"

definition singbox_NewManager :: "string \<Rightarrow> string \<Rightarrow> singbox_Manager" where
  "singbox_NewManager binPath workDir = \<lparr>sb_binPath = binPath, sb_workDir = workDir, sb_insts = Map.empty, sb_ports = Map.empty\<rparr>"

text \<open>What \<open>os.Stat\<close> says of a path: an error, or whether it is a directory and its permission bits.\<close>

definition singbox_Available :: "(string \<Rightarrow> (bool \<times> nat) option) \<Rightarrow> singbox_Manager \<Rightarrow> bool" where
  "singbox_Available stat m =
     (if sb_binPath m = [] then False
      else (case stat (sb_binPath m) of
              None \<Rightarrow> False
            | Some (isDir, mode) \<Rightarrow> \<not> isDir \<and> and mode 73 \<noteq> 0))"

text \<open>Removing the ports of a tag; reserving one.\<close>

definition drop_tag :: "string \<Rightarrow> (int \<rightharpoonup> string) \<Rightarrow> (int \<rightharpoonup> string)" where
  "drop_tag tag ports = (\<lambda>p. if ports p = Some tag then None else ports p)"

definition singbox_AllocPort :: "goerror + int \<Rightarrow> string \<Rightarrow> singbox_Manager \<Rightarrow> (goerror + int) \<times> singbox_Manager" where
  "singbox_AllocPort listen tag m =
     (case listen of
        Inl e \<Rightarrow> (Inl (''alloc loopback port: '' @ e), m)
      | Inr port \<Rightarrow> (Inr port, m\<lparr>sb_ports := (sb_ports m)(port \<mapsto> tag)\<rparr>))"

definition singbox_Release :: "string \<Rightarrow> singbox_Manager \<Rightarrow> singbox_Manager" where
  "singbox_Release tag m = m\<lparr>sb_ports := drop_tag tag (sb_ports m)\<rparr>"

definition sanitizeTag :: "string \<Rightarrow> string" where
  "sanitizeTag tag = map (\<lambda>c. if c \<in> set ''/:[] '' then CHR ''_'' else c) tag"

definition singbox_cfgPath :: "singbox_Manager \<Rightarrow> string \<Rightarrow> string" where
  "singbox_cfgPath m tag = filepath_Join (sb_workDir m) (sanitizeTag tag @ ''.json'')"

definition singbox_Stop :: "string \<Rightarrow> singbox_Manager \<Rightarrow> files \<Rightarrow> singbox_Manager \<times> files" where
  "singbox_Stop tag m fs =
     (let m' = m\<lparr>sb_insts := (sb_insts m)(tag := None), sb_ports := drop_tag tag (sb_ports m)\<rparr> in
      case sb_insts m tag of
        None \<Rightarrow> (m', fs)
      | Some inst \<Rightarrow> (m', fs(si_cfgPath inst := None)))"

definition singbox_StartOrReload ::
  "(string \<Rightarrow> (bool \<times> nat) option) \<Rightarrow> (string \<Rightarrow> goerror option) \<Rightarrow> (string \<Rightarrow> goerror option)
     \<Rightarrow> singbox_Config \<Rightarrow> singbox_Manager \<Rightarrow> files \<Rightarrow> goerror option \<times> singbox_Manager \<times> files" where
  "singbox_StartOrReload stat mkdir write cfg m fs =
     (if \<not> singbox_Available stat m then (Some (''sing-box binary unavailable at '' @ sb_binPath m), m, fs)
      else (case MarshalSingBox cfg of
              Inl e \<Rightarrow> (Some e, m, fs)
            | Inr data \<Rightarrow>
                (case mkdir (sb_workDir m) of
                   Some e \<Rightarrow> (Some (''create sing-box workdir: '' @ e), m, fs)
                 | None \<Rightarrow>
                     (let cfgPath = singbox_cfgPath m (sc_Tag cfg) in
                      case write cfgPath of
                        Some e \<Rightarrow> (Some (''write sing-box config: '' @ e), m, fs)
                      | None \<Rightarrow>
                          (let (m1, fs1) = singbox_Stop (sc_Tag cfg) m (fs(cfgPath \<mapsto> data));
                               inst = \<lparr>si_tag = sc_Tag cfg, si_cfgPath = cfgPath, si_intPort = sc_InternalPort cfg\<rparr>
                           in (None, m1\<lparr>sb_insts := (sb_insts m1)(sc_Tag cfg \<mapsto> inst),
                                         sb_ports := (sb_ports m1)(sc_InternalPort cfg \<mapsto> sc_Tag cfg)\<rparr>, fs1))))))"

definition singbox_StopAll :: "string list \<Rightarrow> singbox_Manager \<Rightarrow> files \<Rightarrow> singbox_Manager \<times> files" where
  "singbox_StopAll tags m fs = fold (\<lambda>t (m, fs). singbox_Stop t m fs) tags (m, fs)"

text \<open>
  The supervising loop. One entry per run of the process: how long it lasted, in nanoseconds, and whether
  the instance was stopped meanwhile. The result are the waiting times between the runs.
\<close>

definition backoffMin :: int where "backoffMin = 1000000000"
definition backoffMax :: int where "backoffMax = 30000000000"

definition next_backoff :: "int \<Rightarrow> int" where
  "next_backoff b = (if b < backoffMax then (if backoffMax < b * 2 then backoffMax else b * 2) else b)"

fun supervise :: "int \<Rightarrow> (int \<times> bool) list \<Rightarrow> int list" where
  "supervise backoff [] = []"
| "supervise backoff ((lasted, stopped) # runs) =
     (if stopped then []
      else (let b = (if 30000000000 < lasted then backoffMin else backoff) in b # supervise (next_backoff b) runs))"

section \<open>Obfs manager\<close>

record front =
  fr_ln :: string
  fr_loopback :: string
  fr_http :: bool
  fr_host :: string

record obfs_Manager =
  ob_fronts :: "string \<rightharpoonup> front"
  ob_ports :: "int \<rightharpoonup> string"

definition obfs_NewManager :: obfs_Manager where
  "obfs_NewManager = \<lparr>ob_fronts = Map.empty, ob_ports = Map.empty\<rparr>"

definition obfs_AllocPort :: "goerror + int \<Rightarrow> string \<Rightarrow> obfs_Manager \<Rightarrow> (goerror + int) \<times> obfs_Manager" where
  "obfs_AllocPort listen tag m =
     (case listen of
        Inl e \<Rightarrow> (Inl (''obfs: alloc loopback port: '' @ e), m)
      | Inr port \<Rightarrow> (Inr port, m\<lparr>ob_ports := (ob_ports m)(port \<mapsto> tag)\<rparr>))"

definition obfs_Release :: "string \<Rightarrow> obfs_Manager \<Rightarrow> obfs_Manager" where
  "obfs_Release tag m = m\<lparr>ob_ports := drop_tag tag (ob_ports m)\<rparr>"

definition obfs_Start ::
  "(string \<Rightarrow> goerror option) \<Rightarrow> string \<Rightarrow> string \<Rightarrow> int \<Rightarrow> int \<Rightarrow> string \<Rightarrow> string \<Rightarrow> obfs_Manager \<Rightarrow> net
     \<Rightarrow> goerror option \<times> obfs_Manager \<times> net" where
  "obfs_Start refuse tag listenIP publicPort loopbackPort mode host m w =
     (let addr = JoinHostPort (if listenIP = [] then ''0.0.0.0'' else listenIP) publicPort in
      case net_Listen refuse addr w of
        Inl e \<Rightarrow> (Some (''obfs: listen '' @ addr @ '': '' @ e), m, w)
      | Inr w1 \<Rightarrow>
          (let f = \<lparr>fr_ln = addr, fr_loopback = JoinHostPort ''127.0.0.1'' loopbackPort, fr_http = (ToLower mode = ''http''), fr_host = host\<rparr>;
               w2 = (case ob_fronts m tag of None \<Rightarrow> w1 | Some old \<Rightarrow> w1 - {fr_ln old})
           in (None, m\<lparr>ob_fronts := (ob_fronts m)(tag \<mapsto> f), ob_ports := (ob_ports m)(loopbackPort \<mapsto> tag)\<rparr>, w2)))"

definition obfs_Stop :: "string \<Rightarrow> obfs_Manager \<Rightarrow> net \<Rightarrow> obfs_Manager \<times> net" where
  "obfs_Stop tag m w =
     (m\<lparr>ob_fronts := (ob_fronts m)(tag := None), ob_ports := drop_tag tag (ob_ports m)\<rparr>,
      (case ob_fronts m tag of None \<Rightarrow> w | Some f \<Rightarrow> w - {fr_ln f}))"

definition obfs_Has :: "string \<Rightarrow> obfs_Manager \<Rightarrow> bool" where
  "obfs_Has tag m \<longleftrightarrow> ob_fronts m tag \<noteq> None"

definition obfs_StopAll :: "string list \<Rightarrow> obfs_Manager \<Rightarrow> net \<Rightarrow> obfs_Manager \<times> net" where
  "obfs_StopAll tags m w = fold (\<lambda>t (m, w). obfs_Stop t m w) tags (m, w)"

section \<open>Port reservation\<close>

text \<open>
  Both managers keep the loopback ports they handed out under the tag they are for. This is what the node
  setup relies on when it rolls back or tears down.
\<close>

locale port_reserver =
  fixes ports :: "'m \<Rightarrow> int \<rightharpoonup> string"
    and alloc :: "goerror + int \<Rightarrow> string \<Rightarrow> 'm \<Rightarrow> (goerror + int) \<times> 'm"
    and release :: "string \<Rightarrow> 'm \<Rightarrow> 'm"
    and stop :: "string \<Rightarrow> 'm \<Rightarrow> 'x \<Rightarrow> 'm \<times> 'x"
  assumes alloc_ok: "alloc (Inr p) tag m = (Inr p, m') \<Longrightarrow> ports m' = (ports m)(p \<mapsto> tag)"
    and alloc_total: "fst (alloc (Inr p) tag m) = Inr p"
    and alloc_fail: "\<exists>e'. alloc (Inl e) tag m = (Inl e', m)"
    and release_ports: "ports (release tag m) = drop_tag tag (ports m)"
    and stop_ports: "ports (fst (stop tag m x)) = drop_tag tag (ports m)"
begin

definition reserved :: "'m \<Rightarrow> string \<Rightarrow> int set" where
  "reserved m tag = {p. ports m p = Some tag}"

lemma reserved_release: "reserved (release tag m) tag' = (if tag' = tag then {} else reserved m tag')"
  by (auto simp: reserved_def release_ports drop_tag_def)

lemma reserved_stop: "reserved (fst (stop tag m x)) tag' = (if tag' = tag then {} else reserved m tag')"
  by (auto simp: reserved_def stop_ports drop_tag_def)

lemma alloc_release:
  assumes "ports m p = None" and "reserved m tag = {}" and "alloc r tag m = (res, m')" and "r = Inl e \<or> r = Inr p"
  shows "ports (release tag m') = ports m"
  using assms(4)
proof
  assume "r = Inl e"
  with alloc_fail [of e tag m] assms(2,3) show ?thesis
    by (auto simp: release_ports drop_tag_def reserved_def fun_eq_iff)
next
  assume r: "r = Inr p"
  with assms(3) alloc_total [of p tag m] have "alloc (Inr p) tag m = (Inr p, m')" by simp
  from alloc_ok [OF this] show ?thesis
    using assms(1,2) by (auto simp: release_ports drop_tag_def reserved_def fun_eq_iff)
qed

end

interpretation singbox: port_reserver sb_ports singbox_AllocPort singbox_Release singbox_Stop
  by unfold_locales (auto simp: singbox_AllocPort_def singbox_Release_def singbox_Stop_def Let_def split: option.split)

interpretation obfs: port_reserver ob_ports obfs_AllocPort obfs_Release obfs_Stop
  by unfold_locales (auto simp: obfs_AllocPort_def obfs_Release_def obfs_Stop_def Let_def split: option.split)

section \<open>Lemmas\<close>

lemma singbox_StartOrReload_None:
  assumes "singbox_StartOrReload stat mkdir write cfg m fs = (None, m', fs')"
  obtains data where "MarshalSingBox cfg = Inr data"
    "fs' = (case sb_insts m (sc_Tag cfg) of None \<Rightarrow> fs(singbox_cfgPath m (sc_Tag cfg) \<mapsto> data)
            | Some inst \<Rightarrow> (fs(singbox_cfgPath m (sc_Tag cfg) \<mapsto> data))(si_cfgPath inst := None))"
    "sb_insts m' = (sb_insts m)(sc_Tag cfg \<mapsto> \<lparr>si_tag = sc_Tag cfg, si_cfgPath = singbox_cfgPath m (sc_Tag cfg), si_intPort = sc_InternalPort cfg\<rparr>)"
    "sb_workDir m' = sb_workDir m"
    "sb_ports m' = (drop_tag (sc_Tag cfg) (sb_ports m))(sc_InternalPort cfg \<mapsto> sc_Tag cfg)"
  using assms
  by (auto simp: singbox_StartOrReload_def singbox_Stop_def Let_def split: if_splits sum.splits option.splits)

lemma next_backoff_bounds: "backoffMin \<le> b \<Longrightarrow> b \<le> backoffMax \<Longrightarrow> backoffMin \<le> next_backoff b \<and> next_backoff b \<le> backoffMax"
  by (auto simp: next_backoff_def backoffMin_def backoffMax_def)

lemma supervise_bounds:
  "backoffMin \<le> b \<Longrightarrow> b \<le> backoffMax \<Longrightarrow> x \<in> set (supervise b runs) \<Longrightarrow> backoffMin \<le> x \<and> x \<le> backoffMax"
proof (induction b runs rule: supervise.induct)
  case (2 b lasted stopped runs)
  let ?b = "if 30000000000 < lasted then backoffMin else b"
  have b: "backoffMin \<le> ?b" "?b \<le> backoffMax" using "2.prems"(1,2) by (auto simp: backoffMin_def backoffMax_def)
  from "2.prems"(3) have "\<not> stopped" "x = ?b \<or> x \<in> set (supervise (next_backoff ?b) runs)"
    by (auto simp: Let_def split: if_splits)
  with "2.IH" [OF _ refl] next_backoff_bounds [OF b] b show ?case by blast
qed simp

section \<open>Properties\<close>

text \<open>
  Reloading a running sing-box front destroys its configuration: the first start writes the document the node
  needs, and a second successful start for the same tag, which writes the new document and then stops the old
  instance, removes the file under the path the new process is started with.
\<close>

theorem reload_deletes_config:
  assumes "sb_insts m (sc_Tag cfg) = None"
    and "singbox_StartOrReload stat mkdir write cfg m fs = (None, m1, fs1)"
    and "sc_Tag cfg' = sc_Tag cfg"
    and "singbox_StartOrReload stat mkdir write cfg' m1 fs1 = (None, m2, fs2)"
  shows "Inr (the (fs1 (singbox_cfgPath m (sc_Tag cfg)))) = MarshalSingBox cfg
    \<and> (\<exists>inst. sb_insts m2 (sc_Tag cfg) = Some inst \<and> si_cfgPath inst = singbox_cfgPath m (sc_Tag cfg) \<and> fs2 (si_cfgPath inst) = None)"
proof -
  have same: "singbox_cfgPath m1 t = singbox_cfgPath m t" if "sb_workDir m1 = sb_workDir m" for t
    using that by (simp add: singbox_cfgPath_def)
  from assms(2) show ?thesis
  proof (rule singbox_StartOrReload_None)
    fix d assume 1: "MarshalSingBox cfg = Inr d"
      "fs1 = (case sb_insts m (sc_Tag cfg) of None \<Rightarrow> fs(singbox_cfgPath m (sc_Tag cfg) \<mapsto> d)
            | Some inst \<Rightarrow> (fs(singbox_cfgPath m (sc_Tag cfg) \<mapsto> d))(si_cfgPath inst := None))"
      "sb_insts m1 = (sb_insts m)(sc_Tag cfg \<mapsto> \<lparr>si_tag = sc_Tag cfg, si_cfgPath = singbox_cfgPath m (sc_Tag cfg), si_intPort = sc_InternalPort cfg\<rparr>)"
      "sb_workDir m1 = sb_workDir m"
    from assms(4) show ?thesis
      by (rule singbox_StartOrReload_None) (simp add: 1 assms(1,3) same [OF 1(4)])
  qed
qed

definition demo_singbox :: singbox_Manager where
  "demo_singbox = singbox_NewManager ''/usr/bin/sing-box'' ''/run/sb''"

definition demo_singbox_config :: singbox_Config where
  "demo_singbox_config = \<lparr>sc_Tag = ''t'', sc_PublicListen = ''0.0.0.0'', sc_PublicPort = 443, sc_InternalHost = ''127.0.0.1'',
     sc_InternalPort = 40000, sc_Version = 3, sc_Users = [], sc_HandshakeHost = ''h'', sc_HandshakePort = 443, sc_StrictMode = True\<rparr>"

theorem reload_deletes_config_witness:
  "\<exists>m1 fs1 m2 fs2 inst.
     singbox_StartOrReload (\<lambda>p. Some (False, 73)) (\<lambda>d. None) (\<lambda>f. None) demo_singbox_config demo_singbox Map.empty = (None, m1, fs1)
     \<and> singbox_StartOrReload (\<lambda>p. Some (False, 73)) (\<lambda>d. None) (\<lambda>f. None) demo_singbox_config m1 fs1 = (None, m2, fs2)
     \<and> sb_insts m2 ''t'' = Some inst \<and> fs2 (si_cfgPath inst) = None"
proof -
  let ?start = "singbox_StartOrReload (\<lambda>p. Some (False, 73)) (\<lambda>d. None) (\<lambda>f. None) demo_singbox_config"
  have ok: "fst (?start m fs) = None" if "sb_binPath m \<noteq> []" for m fs
    using that by (simp add: singbox_StartOrReload_def singbox_Available_def MarshalSingBox_def demo_singbox_config_def
        singbox_Stop_def Let_def split: option.split)
  obtain m1 fs1 where 1: "?start demo_singbox Map.empty = (None, m1, fs1)"
    using ok [of demo_singbox Map.empty] by (cases "?start demo_singbox Map.empty") (auto simp: demo_singbox_def singbox_NewManager_def)
  have "sb_binPath m1 \<noteq> []"
    using 1 by (auto simp: singbox_StartOrReload_def singbox_Stop_def Let_def demo_singbox_def singbox_NewManager_def
        split: if_splits sum.splits option.splits)
  then obtain m2 fs2 where 2: "?start m1 fs1 = (None, m2, fs2)" using ok [of m1 fs1] by (cases "?start m1 fs1") auto
  have "sb_insts demo_singbox (sc_Tag demo_singbox_config) = None" "sc_Tag demo_singbox_config = ''t''"
    by (simp_all add: demo_singbox_def singbox_NewManager_def demo_singbox_config_def)
  with reload_deletes_config [OF _ 1 refl 2] 1 2 show ?thesis by auto
qed

text \<open>
  An obfs front cannot be replaced in place: starting a front for a tag whose front listens on the same public address
  fails, because the new listener is opened before the old one is closed, and leaves everything as it was.
\<close>

theorem obfs_front_not_replaced:
  assumes "\<forall>f. ob_fronts m tag = Some f \<longrightarrow> fr_ln f \<in> w"
    and "obfs_Start refuse tag ip port loop mode host m w = (None, m1, w1)"
  shows "\<exists>e. obfs_Start refuse tag ip port loop' mode' host' m1 w1 = (Some e, m1, w1)"
proof -
  from assms have "JoinHostPort (if ip = [] then ''0.0.0.0'' else ip) port \<in> w1"
    by (auto simp: obfs_Start_def net_Listen_def Let_def split: if_splits option.splits)
  then show ?thesis by (simp add: obfs_Start_def net_Listen_def Let_def)
qed

theorem obfs_front_not_replaced_witness:
  "\<exists>m1 w1 e. obfs_Start (\<lambda>a. None) ''t'' [] 443 40000 ''tls'' ''h'' obfs_NewManager {} = (None, m1, w1)
     \<and> obfs_Start (\<lambda>a. None) ''t'' [] 443 40001 ''tls'' ''h'' m1 w1 = (Some e, m1, w1)"
proof -
  obtain m1 w1 where 1: "obfs_Start (\<lambda>a. None) ''t'' [] 443 40000 ''tls'' ''h'' obfs_NewManager {} = (None, m1, w1)"
    by (simp add: obfs_Start_def net_Listen_def obfs_NewManager_def Let_def)
  have "\<forall>f. ob_fronts obfs_NewManager ''t'' = Some f \<longrightarrow> fr_ln f \<in> {}" by (simp add: obfs_NewManager_def)
  from obfs_front_not_replaced [OF this 1, of 40001 "''tls''" "''h''"] 1 show ?thesis by blast
qed

text \<open>
  The supervisor never waits less than a second or more than thirty seconds between two runs of the process, and
  waits one second after a run that lasted more than thirty seconds.
\<close>

theorem backoff_bounded:
  "(\<forall>x\<in>set (supervise backoffMin runs). 1000000000 \<le> x \<and> x \<le> 30000000000)
   \<and> (30000000000 < lasted \<longrightarrow> supervise b ((lasted, False) # runs) = 1000000000 # supervise 2000000000 runs)"
proof
  show "\<forall>x\<in>set (supervise backoffMin runs). 1000000000 \<le> x \<and> x \<le> 30000000000"
    using supervise_bounds [of backoffMin _ runs] by (auto simp: backoffMin_def backoffMax_def)
qed (simp add: backoffMin_def backoffMax_def next_backoff_def Let_def)

theorem backoff_bounded_witness:
  "supervise 5 [(40000000000, False)] = [1000000000]"
  using backoff_bounded [of "[]" 40000000000 5] by simp

text \<open>
  Giving up a node's front before it runs returns both managers to their reservations of before: a port that was
  reserved for a tag without other ports, or a reservation that failed, leaves nothing behind.
\<close>

theorem reservation_rolls_back:
  assumes "r = Inl e \<or> r = Inr p"
  shows "(sb_ports m p = None \<and> (\<forall>q. sb_ports m q \<noteq> Some tag) \<longrightarrow>
            sb_ports (singbox_Release tag (snd (singbox_AllocPort r tag m))) = sb_ports m)
    \<and> (ob_ports k p = None \<and> (\<forall>q. ob_ports k q \<noteq> Some tag) \<longrightarrow>
            ob_ports (obfs_Release tag (snd (obfs_AllocPort r tag k))) = ob_ports k)"
proof (intro conjI impI)
  assume "sb_ports m p = None \<and> (\<forall>q. sb_ports m q \<noteq> Some tag)"
  then show "sb_ports (singbox_Release tag (snd (singbox_AllocPort r tag m))) = sb_ports m"
    using assms by (intro singbox.alloc_release [where p = p and e = e and r = r, OF _ _ prod.collapse [symmetric]])
      (auto simp: singbox.reserved_def)
next
  assume "ob_ports k p = None \<and> (\<forall>q. ob_ports k q \<noteq> Some tag)"
  then show "ob_ports (obfs_Release tag (snd (obfs_AllocPort r tag k))) = ob_ports k"
    using assms by (intro obfs.alloc_release [where p = p and e = e and r = r, OF _ _ prod.collapse [symmetric]])
      (auto simp: obfs.reserved_def)
qed

theorem reservation_rolls_back_witness:
  "ob_ports (obfs_Release ''t'' (snd (obfs_AllocPort (Inr 40000) ''t'' obfs_NewManager))) = Map.empty"
  using reservation_rolls_back [of "Inr 40000" "[]" 40000 demo_singbox "''t''" obfs_NewManager] by (simp add: obfs_NewManager_def)

end
