(* ===== verification/Core_Users.thy ===== *)
theory Core_Users
  imports Panel_Api
begin

text \<open>
  The users the core hands to Xray (\<open>core/user.go\<close>, the \<open>build...User\<close> functions), and what the core relies on in an Xray user
  manager: the locale \<open>user_manager\<close>, interpreted on the VLESS validator of the vendored xray-core.
\<close>

section \<open>Accounts\<close>

datatype cipher_type = AES_128_GCM | AES_256_GCM | CHACHA20_POLY1305 | CIPHER_NONE | CIPHER_UNKNOWN

datatype account =
    VMessAccount string string
  | VlessAccount string string
  | TrojanAccount string
  | SSAccount string cipher_type
  | SS2022Account string
  | HysteriaAccount string
  | TuicAccount string string
  | AnyTLSAccount string

record xuser =
  xu_Level :: nat
  xu_Email :: string
  xu_Account :: account

definition buildVmessUser :: "string \<Rightarrow> UserInfo \<Rightarrow> xuser" where
  "buildVmessUser tag u = \<lparr>xu_Level = 0, xu_Email = UserTag tag (ui_Uuid u), xu_Account = VMessAccount (ui_Uuid u) ''auto''\<rparr>"

definition buildVlessUser :: "string \<Rightarrow> string \<Rightarrow> UserInfo \<Rightarrow> xuser" where
  "buildVlessUser tag flow u = \<lparr>xu_Level = 0, xu_Email = UserTag tag (ui_Uuid u), xu_Account = VlessAccount (ui_Uuid u) flow\<rparr>"

definition buildTrojanUser :: "string \<Rightarrow> UserInfo \<Rightarrow> xuser" where
  "buildTrojanUser tag u = \<lparr>xu_Level = 0, xu_Email = UserTag tag (ui_Uuid u), xu_Account = TrojanAccount (ui_Uuid u)\<rparr>"

definition getCipherFromString :: "string \<Rightarrow> cipher_type" where
  "getCipherFromString c =
     (let l = ToLower c in
      if l \<in> {''aes-128-gcm'', ''aead_aes_128_gcm''} then AES_128_GCM
      else if l \<in> {''aes-256-gcm'', ''aead_aes_256_gcm''} then AES_256_GCM
      else if l \<in> {''chacha20-poly1305'', ''aead_chacha20_poly1305'', ''chacha20-ietf-poly1305''} then CHACHA20_POLY1305
      else if l \<in> {''none'', ''plain''} then CIPHER_NONE
      else CIPHER_UNKNOWN)"

text \<open>\<open>base64.StdEncoding.EncodeToString\<close>.\<close>

definition base64_char :: "nat \<Rightarrow> char" where
  "base64_char n = ''ABCDEFGHIJKLMNOPQRSTUVWXYZabcdefghijklmnopqrstuvwxyz0123456789+/'' ! (n mod 64)"

fun base64_encode :: "string \<Rightarrow> string" where
  "base64_encode (a # b # c # rest) =
     (let n = (of_char a :: nat) * 65536 + of_char b * 256 + of_char c
      in base64_char (n div 262144) # base64_char (n div 4096) # base64_char (n div 64) # base64_char n # base64_encode rest)"
| "base64_encode [a, b] =
     (let n = (of_char a :: nat) * 1024 + of_char b * 4
      in [base64_char (n div 4096), base64_char (n div 64), base64_char n, CHR ''=''])"
| "base64_encode [a] =
     (let n = (of_char a :: nat) * 16 in [base64_char (n div 64), base64_char n, CHR ''='', CHR ''=''])"
| "base64_encode [] = []"

definition ss2022_keyLength :: "string \<Rightarrow> nat" where
  "ss2022_keyLength cypher =
     (if cypher = ''2022-blake3-aes-128-gcm'' then 16
      else if cypher = ''2022-blake3-aes-256-gcm'' then 32
      else if cypher = ''2022-blake3-chacha20-poly1305'' then 32
      else 0)"

text \<open>Slicing a uuid beyond its length panics.\<close>

definition buildSSUser :: "string \<Rightarrow> string \<Rightarrow> string \<Rightarrow> UserInfo \<Rightarrow> xuser outcome" where
  "buildSSUser tag cypher serverKey u =
     (if serverKey = [] then
        Return \<lparr>xu_Level = 0, xu_Email = UserTag tag (ui_Uuid u), xu_Account = SSAccount (ui_Uuid u) (getCipherFromString cypher)\<rparr>
      else if length (ui_Uuid u) < ss2022_keyLength cypher then Panic ''slice bounds out of range''
      else Return \<lparr>xu_Level = 0, xu_Email = UserTag tag (ui_Uuid u),
             xu_Account = SS2022Account (base64_encode (take (ss2022_keyLength cypher) (ui_Uuid u)))\<rparr>)"

definition buildHysteria2User :: "string \<Rightarrow> UserInfo \<Rightarrow> xuser" where
  "buildHysteria2User tag u = \<lparr>xu_Level = 0, xu_Email = UserTag tag (ui_Uuid u), xu_Account = HysteriaAccount (ui_Uuid u)\<rparr>"

definition buildTuicUser :: "string \<Rightarrow> UserInfo \<Rightarrow> xuser" where
  "buildTuicUser tag u = \<lparr>xu_Level = 0, xu_Email = UserTag tag (ui_Uuid u), xu_Account = TuicAccount (ui_Uuid u) (ui_Uuid u)\<rparr>"

definition buildAnyTLSUser :: "string \<Rightarrow> UserInfo \<Rightarrow> xuser" where
  "buildAnyTLSUser tag u = \<lparr>xu_Level = 0, xu_Email = UserTag tag (ui_Uuid u), xu_Account = AnyTLSAccount (ui_Uuid u)\<rparr>"

text \<open>A list is built from its first element on; the first panic ends it.\<close>

fun build_all :: "('a \<Rightarrow> 'b outcome) \<Rightarrow> 'a list \<Rightarrow> 'b list outcome" where
  "build_all f [] = Return []"
| "build_all f (x # xs) =
     (case f x of
        Return y \<Rightarrow> (case build_all f xs of Return ys \<Rightarrow> Return (y # ys) | Error e \<Rightarrow> Error e | Panic p \<Rightarrow> Panic p)
      | Error e \<Rightarrow> Error e
      | Panic p \<Rightarrow> Panic p)"

text \<open>
  The switch over the node type in \<open>AddUsers\<close>. The builders that read the node's configuration panic without one.
\<close>

definition build_users :: "string \<Rightarrow> NodeInfo \<Rightarrow> UserInfo list \<Rightarrow> xuser list outcome" where
  "build_users tag info users =
     (if ni_Type info = ''vmess'' then Return (map (buildVmessUser tag) users)
      else if ni_Type info = ''trojan'' then Return (map (buildTrojanUser tag) users)
      else if ni_Type info = ''hysteria2'' then Return (map (buildHysteria2User tag) users)
      else if ni_Type info = ''tuic'' then Return (map (buildTuicUser tag) users)
      else if ni_Type info = ''anytls'' then Return (map (buildAnyTLSUser tag) users)
      else if ni_Type info \<in> {''vless'', ''shadowsocks'', ''shadowflow''} then
        (case ni_Common info of
           None \<Rightarrow> Panic ''invalid memory address or nil pointer dereference''
         | Some cm \<Rightarrow>
             if ni_Type info = ''shadowsocks'' then build_all (buildSSUser tag (cn_Cipher cm) (cn_ServerKey cm)) users
             else Return (map (buildVlessUser tag (cn_Flow cm)) users))
      else Error (''unsupported node type: '' @ ni_Type info))"

lemma build_all_emails:
  assumes "\<And>u x. u \<in> set us \<Longrightarrow> f u = Return x \<Longrightarrow> xu_Email x = g u" and "build_all f us = Return xs"
  shows "map xu_Email xs = map g us"
  using assms
proof (induction us arbitrary: xs)
  case (Cons u us)
  then show ?case by (auto split: outcome.splits)
qed simp

lemma build_users_emails:
  assumes "build_users tag info users = Return xs"
  shows "map xu_Email xs = map (\<lambda>u. UserTag tag (ui_Uuid u)) users"
proof -
  have ss: "xu_Email x = UserTag tag (ui_Uuid u)" if "buildSSUser tag c k u = Return x" for c k u x
    using that by (auto simp: buildSSUser_def split: if_splits)
  show ?thesis
  proof (cases "ni_Type info = ''shadowsocks''")
    case True
    with assms show ?thesis using build_all_emails [OF ss] by (auto simp: build_users_def split: option.splits)
  next
    case False
    with assms show ?thesis
      by (auto simp: build_users_def o_def buildVmessUser_def buildVlessUser_def buildTrojanUser_def
          buildHysteria2User_def buildTuicUser_def buildAnyTLSUser_def split: if_splits option.splits)
  qed
qed

section \<open>The user manager\<close>

text \<open>
  The operations of \<open>proxy.UserManager\<close> on a state of type \<open>'u\<close>, and the conversion \<open>ToMemoryUser\<close> (an error for an
  account that cannot be parsed).
\<close>

record 'u user_ops =
  uo_ToMemory :: "xuser \<Rightarrow> goerror option"
  uo_AddUser :: "xuser \<Rightarrow> 'u \<Rightarrow> goerror option \<times> 'u"
  uo_RemoveUser :: "string \<Rightarrow> 'u \<Rightarrow> goerror option \<times> 'u"

text \<open>Adding a list of users: the ones that cannot be converted or added are skipped; the count is of those added.\<close>

fun xray_add_all :: "'u user_ops \<Rightarrow> xuser list \<Rightarrow> 'u \<Rightarrow> nat \<times> 'u" where
  "xray_add_all ops [] um = (0, um)"
| "xray_add_all ops (x # xs) um =
     (case uo_ToMemory ops x of
        Some e \<Rightarrow> xray_add_all ops xs um
      | None \<Rightarrow>
          (case uo_AddUser ops x um of
             (Some e, um1) \<Rightarrow> xray_add_all ops xs um1
           | (None, um1) \<Rightarrow> (case xray_add_all ops xs um1 of (n, um2) \<Rightarrow> (Suc n, um2))))"

text \<open>
  What the core relies on: users are kept by email, compared without case; adding an email that is there is an
  error and changes nothing, removing one that is not is an error and changes nothing.
\<close>

locale user_manager =
  fixes ops :: "'u user_ops"
    and emails :: "'u \<Rightarrow> string set"
    and um_inv :: "'u \<Rightarrow> bool"
  assumes add_new: "um_inv m \<Longrightarrow> xu_Email x \<noteq> [] \<Longrightarrow> uo_ToMemory ops x = None \<Longrightarrow> ToLower (xu_Email x) \<notin> emails m \<Longrightarrow>
      \<exists>m'. uo_AddUser ops x m = (None, m') \<and> um_inv m' \<and> emails m' = insert (ToLower (xu_Email x)) (emails m)"
    and add_old: "um_inv m \<Longrightarrow> xu_Email x \<noteq> [] \<Longrightarrow> ToLower (xu_Email x) \<in> emails m \<Longrightarrow>
      \<exists>e. uo_AddUser ops x m = (Some e, m)"
    and remove_present: "um_inv m \<Longrightarrow> e \<noteq> [] \<Longrightarrow> ToLower e \<in> emails m \<Longrightarrow>
      \<exists>m'. uo_RemoveUser ops e m = (None, m') \<and> um_inv m' \<and> emails m' = emails m - {ToLower e}"
    and remove_absent: "um_inv m \<Longrightarrow> e \<noteq> [] \<Longrightarrow> ToLower e \<notin> emails m \<Longrightarrow>
      \<exists>err. uo_RemoveUser ops e m = (Some err, m)"
begin

lemma add_emails:
  assumes "um_inv m" and "xu_Email x \<noteq> []" and "uo_ToMemory ops x = None"
  shows "um_inv (snd (uo_AddUser ops x m)) \<and> emails (snd (uo_AddUser ops x m)) = insert (ToLower (xu_Email x)) (emails m)"
proof (cases "ToLower (xu_Email x) \<in> emails m")
  case True
  from add_old [OF assms(1,2) this] obtain e where "uo_AddUser ops x m = (Some e, m)" by blast
  with True assms(1) show ?thesis by (simp add: insert_absorb)
next
  case False
  from add_new [OF assms this] obtain m' where "uo_AddUser ops x m = (None, m')" "um_inv m'"
    "emails m' = insert (ToLower (xu_Email x)) (emails m)" by blast
  then show ?thesis by simp
qed

lemma add_all_emails:
  assumes "um_inv m" and "\<forall>x\<in>set xs. xu_Email x \<noteq> []" and "xray_add_all ops xs m = (n, m')"
  shows "um_inv m' \<and> emails m' = emails m \<union> (\<lambda>x. ToLower (xu_Email x)) ` {x \<in> set xs. uo_ToMemory ops x = None}"
  using assms
proof (induction xs arbitrary: m n)
  case (Cons x xs)
  have xs: "\<forall>x\<in>set xs. xu_Email x \<noteq> []" using Cons.prems(2) by simp
  show ?case
  proof (cases "uo_ToMemory ops x")
    case None
    obtain r m1 where a: "uo_AddUser ops x m = (r, m1)" by force
    have x: "xu_Email x \<noteq> []" using Cons.prems(2) by simp
    have m1: "um_inv m1" "emails m1 = insert (ToLower (xu_Email x)) (emails m)"
      using add_emails [OF Cons.prems(1) x None] by (simp_all add: a)
    obtain n1 where "xray_add_all ops xs m1 = (n1, m')"
      using Cons.prems(3) by (cases r) (auto simp: None a split: prod.splits)
    from Cons.IH [OF m1(1) xs this] m1(2) None show ?thesis by auto
  next
    case (Some e)
    with Cons.prems(3) have "xray_add_all ops xs m = (n, m')" by simp
    from Cons.IH [OF Cons.prems(1) xs this] Some show ?thesis by auto
  qed
qed simp

lemma remove_emails:
  assumes "um_inv m" and "e \<noteq> []"
  shows "um_inv (snd (uo_RemoveUser ops e m)) \<and> emails (snd (uo_RemoveUser ops e m)) = emails m - {ToLower e}"
proof (cases "ToLower e \<in> emails m")
  case True
  from remove_present [OF assms this] obtain m' where "uo_RemoveUser ops e m = (None, m')" "um_inv m'"
    "emails m' = emails m - {ToLower e}" by blast
  then show ?thesis by simp
next
  case False
  from remove_absent [OF assms this] obtain err where "uo_RemoveUser ops e m = (Some err, m)" by blast
  with False assms(1) show ?thesis by simp
qed

lemma remove_all_emails:
  assumes "um_inv m" and "\<forall>e\<in>set es. e \<noteq> []"
  shows "um_inv (fold (\<lambda>e m. snd (uo_RemoveUser ops e m)) es m)
    \<and> emails (fold (\<lambda>e m. snd (uo_RemoveUser ops e m)) es m) = emails m - ToLower ` set es"
  using assms
proof (induction es arbitrary: m)
  case (Cons e es)
  from remove_emails [of m e] Cons.prems
  have "um_inv (snd (uo_RemoveUser ops e m))" "emails (snd (uo_RemoveUser ops e m)) = emails m - {ToLower e}" by simp_all
  with Cons.IH [of "snd (uo_RemoveUser ops e m)"] Cons.prems show ?case by auto
qed simp

end

section \<open>The VLESS validator\<close>

text \<open>
  \<open>uuid.ParseString\<close> is an argument (\<open>parse\<close>); \<open>ProcessUUID\<close> clears two bytes of the id. The map of users by id is
  what authenticates a connection, the map by email is what users are removed by.
\<close>

record validator =
  va_email :: "string \<rightharpoonup> xuser"
  va_users :: "string \<rightharpoonup> xuser"

definition ProcessUUID :: "string \<Rightarrow> string" where
  "ProcessUUID u = u[6 := CHR 0x00, 7 := CHR 0x00]"

fun account_id :: "account \<Rightarrow> string" where
  "account_id (VlessAccount i f) = i"
| "account_id a = []"

definition vless_Add :: "(string \<Rightarrow> string option) \<Rightarrow> xuser \<Rightarrow> validator \<Rightarrow> goerror option \<times> validator" where
  "vless_Add parse x v =
     (if xu_Email x \<noteq> [] \<and> va_email v (ToLower (xu_Email x)) \<noteq> None
      then (Some (''User '' @ xu_Email x @ '' already exists.''), v)
      else (None,
        v\<lparr>va_email := (if xu_Email x \<noteq> [] then (va_email v)(ToLower (xu_Email x) \<mapsto> x) else va_email v),
          va_users := (va_users v)(ProcessUUID (the (parse (account_id (xu_Account x)))) \<mapsto> x)\<rparr>))"

definition vless_Del :: "(string \<Rightarrow> string option) \<Rightarrow> string \<Rightarrow> validator \<Rightarrow> goerror option \<times> validator" where
  "vless_Del parse e v =
     (if e = [] then (Some ''Email must not be empty.'', v)
      else (case va_email v (ToLower e) of
              None \<Rightarrow> (Some (''User '' @ e @ '' not found.''), v)
            | Some x \<Rightarrow> (None, v\<lparr>va_email := (va_email v)(ToLower e := None),
                                  va_users := (va_users v)(ProcessUUID (the (parse (account_id (xu_Account x)))) := None)\<rparr>)))"

definition vless_Get :: "string \<Rightarrow> validator \<Rightarrow> xuser option" where
  "vless_Get i v = va_users v (ProcessUUID i)"

definition vless_ops :: "(string \<Rightarrow> string option) \<Rightarrow> validator user_ops" where
  "vless_ops parse =
     \<lparr>uo_ToMemory = (\<lambda>x. if parse (account_id (xu_Account x)) = None then Some ''failed to parse ID'' else None),
      uo_AddUser = vless_Add parse, uo_RemoveUser = vless_Del parse\<rparr>"

interpretation vless: user_manager "vless_ops parse" "\<lambda>v. dom (va_email v)" "\<lambda>v. True"
  for parse
  by unfold_locales (auto simp: vless_ops_def vless_Add_def vless_Del_def split: option.split)

end
