(* ===== verification/Inbound.thy ===== *)
theory Inbound
  imports Runner_Contract Core_Users
begin

text \<open>
  The inbound builder (\<open>buildInbound\<close> and the builders per protocol in \<open>core/inbound.go\<close>): from a node of the panel to
  the inbound configuration Xray is given. Decoding and encoding of JSON documents, the random password and the port
  of the SNI router are arguments (\<open>inbound_lib\<close>); network settings that are decoded into a transport's configuration
  are kept as the text they are decoded from. The state a build may change is the set of running SNI routers, the
  set of tags with a ShadowFlow configuration and the network. Every build returns a configuration, an error or panics.
\<close>

section \<open>Configuration\<close>

record SocketConfig =
  so_AcceptProxyProtocol :: bool
  so_TCPKeepAliveIdle :: int
  so_TCPKeepAliveInterval :: int
  so_TCPUserTimeout :: int

definition zero_SocketConfig :: SocketConfig where
  "zero_SocketConfig = \<lparr>so_AcceptProxyProtocol = False, so_TCPKeepAliveIdle = 0, so_TCPKeepAliveInterval = 0, so_TCPUserTimeout = 0\<rparr>"

text \<open>
  The transport settings: none, those of the named transport decoded from a text, the TCP settings a Shadowsocks
  node sets (PROXY protocol; path and host of the HTTP header), or the WebSocket path and host of a plugin.
\<close>

datatype transport = NoTransport | TransportJSON string string | TCPHeader bool "(string \<times> string) option" | WSPath string string

record TLSConfig =
  tl_CertFile :: string
  tl_KeyFile :: string
  tl_OcspStapling :: nat
  tl_OneTimeLoading :: bool
  tl_RejectUnknownSNI :: bool
  tl_ECHServerKeys :: string
  tl_ALPN :: "string list"

record REALITYConfig =
  re_Dest :: string
  re_Xver :: nat
  re_ServerNames :: "string list"
  re_PrivateKey :: string
  re_ShortIds :: "string list"
  re_Mldsa65Seed :: string

record FinalMask =
  fm_Brutal :: "(string \<times> string) option"
  fm_Udp :: "(string \<times> string) option"

record StreamConfig =
  st_Network :: "string option"
  st_Security :: string
  st_Transport :: transport
  st_TLSSettings :: "TLSConfig option"
  st_REALITYSettings :: "REALITYConfig option"
  st_SocketSettings :: "SocketConfig option"
  st_FinalMask :: "FinalMask option"
  st_HysteriaVersion :: "int option"

definition zero_StreamConfig :: StreamConfig where
  "zero_StreamConfig = \<lparr>st_Network = None, st_Security = [], st_Transport = NoTransport, st_TLSSettings = None,
     st_REALITYSettings = None, st_SocketSettings = None, st_FinalMask = None, st_HysteriaVersion = None\<rparr>"

definition stream_of :: "string \<Rightarrow> StreamConfig" where
  "stream_of network = zero_StreamConfig\<lparr>st_Network := Some network\<rparr>"

text \<open>A fallback of a Trojan inbound is its destination, the rest of the object as text.\<close>

record TrojanFallback =
  tf_Dest :: string
  tf_Rest :: string

record SSServerConfig =
  ss_Cipher :: string
  ss_Password :: string
  ss_Users :: "(string \<times> string) list"
  ss_NetworkList :: "string list"

datatype inbound_settings =
    NoSettings | VLessSettings string | VMessSettings | TrojanSettings "TrojanFallback list" | SSSettings SSServerConfig
  | HysteriaSettings int | TuicSettings string bool | AnyTLSSettings "string list"

record InboundDetour =
  id_Protocol :: string
  id_Settings :: inbound_settings
  id_StreamSetting :: "StreamConfig option"
  id_Port :: int
  id_ListenOn :: string
  id_Sniffing :: bool
  id_Tag :: string

definition empty_InboundDetour :: InboundDetour where
  "empty_InboundDetour = \<lparr>id_Protocol = [], id_Settings = NoSettings, id_StreamSetting = None, id_Port = 0, id_ListenOn = [],
     id_Sniffing = False, id_Tag = []\<rparr>"

text \<open>
  The JSON library and the system: decoding the settings of a transport (its name and the text), the
  PROXY protocol member, the fallback members of Trojan settings (the list, and the text of the single one), one
  fallback object, the members a Shadowsocks node reads, a document as an object (\<open>None\<close> for \<open>null\<close>) and back;
  the random password; the port of a listener on \<open>127.0.0.1:0\<close>.
\<close>

record inbound_lib =
  il_transport :: "string \<Rightarrow> string \<Rightarrow> goerror option"
  il_proxyProtocol :: "string \<Rightarrow> goerror + bool"
  il_fallbacks :: "string \<Rightarrow> (TrojanFallback list \<times> string) option"
  il_fallback :: "string \<Rightarrow> TrojanFallback option"
  il_ssHTTP :: "string \<Rightarrow> goerror + bool \<times> string \<times> string"
  il_object :: "string \<Rightarrow> goerror + (string \<rightharpoonup> string) option"
  il_encode :: "(string \<rightharpoonup> string) \<Rightarrow> string"
  il_rand :: "goerror + string"
  il_routerPort :: "net \<Rightarrow> goerror + int"

section \<open>Protocols\<close>

text \<open>The switch over the network that decodes the settings of the transport, for the transports a protocol allows.\<close>

definition decode_transport :: "inbound_lib \<Rightarrow> string set \<Rightarrow> string \<Rightarrow> string \<Rightarrow> transport outcome" where
  "decode_transport L kinds network raw =
     (let kind = (if network = ''splithttp'' then ''xhttp'' else network) in
      if kind \<notin> kinds then Error ''the network type is not vail''
      else (case il_transport L kind raw of
              Some e \<Rightarrow> Error (''unmarshal '' @ kind @ '' settings error: '' @ e)
            | None \<Rightarrow> Return (TransportJSON kind raw)))"

definition all_kinds :: "string set" where
  "all_kinds = {''tcp'', ''ws'', ''grpc'', ''httpupgrade'', ''xhttp''}"

definition with_transport :: "string \<Rightarrow> InboundDetour \<Rightarrow> transport \<Rightarrow> InboundDetour" where
  "with_transport network d t = d\<lparr>id_StreamSetting := Some ((stream_of network)\<lparr>st_Transport := t\<rparr>)\<rparr>"

definition vless_decryption :: "CommonNode \<Rightarrow> string outcome" where
  "vless_decryption cm =
     (if cn_Encryption cm = [] then Return ''none''
      else if cn_Encryption cm = ''mlkem768x25519plus'' then
        (let e = cn_EncryptionSettings cm in
         Return (Join ([''mlkem768x25519plus'', es_Mode e, es_Ticket e]
                       @ (if es_ServerPadding e \<noteq> [] then [es_ServerPadding e] else []) @ [es_PrivateKey e]) ''.''))
      else Error (''vless decryption method '' @ cn_Encryption cm @ '' is not support''))"

definition buildVLess :: "inbound_lib \<Rightarrow> CommonNode \<Rightarrow> InboundDetour \<Rightarrow> InboundDetour outcome" where
  "buildVLess L v d =
     obind (vless_decryption v) (\<lambda>decryption.
       let d1 = d\<lparr>id_Protocol := ''vless'', id_Settings := VLessSettings decryption\<rparr> in
       if cn_NetworkSettings v = [] then Return d1
       else obind (decode_transport L all_kinds (cn_Network v) (cn_NetworkSettings v))
              (\<lambda>t. Return (with_transport (cn_Network v) d1 t)))"

definition buildVMess :: "inbound_lib \<Rightarrow> CommonNode \<Rightarrow> InboundDetour \<Rightarrow> InboundDetour outcome" where
  "buildVMess L v d =
     (let d1 = d\<lparr>id_Protocol := ''vmess'', id_Settings := VMessSettings\<rparr> in
      if cn_NetworkSettings v = [] then Return d1
      else obind (decode_transport L all_kinds (cn_Network v) (cn_NetworkSettings v))
             (\<lambda>t. Return (with_transport (cn_Network v) d1 t)))"

definition trojan_fallbacks :: "inbound_lib \<Rightarrow> string \<Rightarrow> TrojanFallback list" where
  "trojan_fallbacks L raw =
     (if raw = [] then []
      else (case il_fallbacks L raw of
              None \<Rightarrow> []
            | Some (many, one) \<Rightarrow>
                if many \<noteq> [] then many
                else if one = [] then []
                else (case il_fallback L one of
                        Some f \<Rightarrow> if tf_Dest f \<noteq> [] then [f] else [\<lparr>tf_Dest = one, tf_Rest = []\<rparr>]
                      | None \<Rightarrow> [\<lparr>tf_Dest = one, tf_Rest = []\<rparr>])))"

definition or_tcp :: "string \<Rightarrow> string" where
  "or_tcp network = (if network = [] then ''tcp'' else network)"

definition buildTrojan :: "inbound_lib \<Rightarrow> CommonNode \<Rightarrow> InboundDetour \<Rightarrow> InboundDetour outcome" where
  "buildTrojan L v d =
     (let network = or_tcp (cn_Network v);
          d1 = d\<lparr>id_Protocol := ''trojan'', id_Settings := TrojanSettings (trojan_fallbacks L (cn_NetworkSettings v)),
                 id_StreamSetting := Some (stream_of network)\<rparr>
      in if cn_NetworkSettings v = [] then Return d1
         else obind (decode_transport L {''tcp'', ''ws'', ''grpc''} network (cn_NetworkSettings v))
                (\<lambda>t. Return (with_transport network d1 t)))"

section \<open>Shadowsocks\<close>

text \<open>The settings before the plugin is looked at: a random first user, its key encoded for the 2022 ciphers.\<close>

definition ss_settings :: "CommonNode \<Rightarrow> string \<Rightarrow> SSServerConfig" where
  "ss_settings s rand =
     (if cn_ServerKey s \<noteq> []
      then \<lparr>ss_Cipher = cn_Cipher s, ss_Password = cn_ServerKey s, ss_Users = [([], base64_encode rand)], ss_NetworkList = [''tcp'', ''udp'']\<rparr>
      else \<lparr>ss_Cipher = cn_Cipher s, ss_Password = [], ss_Users = [(cn_Cipher s, rand)], ss_NetworkList = [''tcp'', ''udp'']\<rparr>)"

definition ss_tls :: "CertInfo \<Rightarrow> TLSConfig" where
  "ss_tls ci = \<lparr>tl_CertFile = ci_CertFile ci, tl_KeyFile = ci_KeyFile ci, tl_OcspStapling = 0, tl_OneTimeLoading = True,
     tl_RejectUnknownSNI = ci_RejectUnknownSni ci, tl_ECHServerKeys = [], tl_ALPN = []\<rparr>"

text \<open>A plugin that carries Shadowsocks over a WebSocket, with TLS if its options ask for it.\<close>

definition ss_websocket :: "CommonNode \<Rightarrow> SSPlugin \<Rightarrow> SSServerConfig \<Rightarrow> InboundDetour \<Rightarrow> InboundDetour outcome" where
  "ss_websocket s plugin settings d =
     (let mode = plugin_Opt (Some plugin) ''mode'';
          wantTLS = (plugin_Has (Some plugin) ''tls'' \<or> mode = ''wss'');
          path = (if plugin_Opt (Some plugin) ''path'' = [] then ''/'' else plugin_Opt (Some plugin) ''path'');
          stream = (stream_of ''ws'')\<lparr>st_Transport := WSPath path (plugin_Opt (Some plugin) ''host'')\<rparr>;
          d1 = d\<lparr>id_Settings := SSSettings (settings\<lparr>ss_NetworkList := [''tcp'']\<rparr>)\<rparr>
      in if mode \<notin> {[], ''websocket'', ''ws'', ''wss''}
         then Error (sp_Name plugin @ '' mode '' @ mode @ '' not supported (only websocket/ws/wss)'')
         else if wantTLS then
           (case cn_CertInfo s of
              None \<Rightarrow> Error (''shadowsocks '' @ sp_Name plugin @ '' wss requires a certificate'')
            | Some ci \<Rightarrow> Return (d1\<lparr>id_StreamSetting := Some (stream\<lparr>st_Security := ''tls'', st_TLSSettings := Some (ss_tls ci)\<rparr>)\<rparr>))
         else Return (d1\<lparr>id_StreamSetting := Some stream\<rparr>))"

text \<open>A Shadowsocks node without a plugin or front: PROXY protocol and HTTP header from the network settings.\<close>

definition ss_plain :: "inbound_lib \<Rightarrow> CommonNode \<Rightarrow> SSServerConfig \<Rightarrow> InboundDetour \<Rightarrow> InboundDetour outcome" where
  "ss_plain L s settings d =
     (if cn_NetworkSettings s = [] then Return (d\<lparr>id_Settings := SSSettings settings\<rparr>)
      else (case il_ssHTTP L (cn_NetworkSettings s) of
              Inl e \<Rightarrow> Error (''unmarshal shadowsocks settings error: '' @ e)
            | Inr (accept, path, host) \<Rightarrow>
                (let http = (path \<noteq> [] \<or> host \<noteq> []);
                     settings1 = (if http then settings\<lparr>ss_NetworkList := [''tcp'']\<rparr> else settings);
                     header = (if http then Some (if path = [] then ''/'' else path, host) else None);
                     d1 = d\<lparr>id_Settings := SSSettings settings1\<rparr>
                 in Return (if accept \<or> http then with_transport ''tcp'' d1 (TCPHeader accept header) else d1))))"

definition buildShadowsocks ::
  "inbound_lib \<Rightarrow> json_codec \<Rightarrow> CommonNode \<Rightarrow> InboundDetour \<Rightarrow> InboundDetour outcome" where
  "buildShadowsocks L J s d0 =
     (let d = d0\<lparr>id_Protocol := ''shadowsocks''\<rparr> in
      case il_rand L of
        Inl e \<Rightarrow> Error (''generate random password error: '' @ e)
      | Inr rand \<Rightarrow>
          (let settings = ss_settings s rand;
               after_plugin =
                 (if SimpleObfsEnabled J s
                  then Return (d\<lparr>id_Settings := SSSettings settings, id_StreamSetting := Some (stream_of ''tcp'')\<rparr>)
                  else ss_plain L s settings d)
           in case ShadowsocksPlugin J s of
                None \<Rightarrow> after_plugin
              | Some plugin \<Rightarrow>
                  if sp_Name plugin \<in> {''v2ray-plugin'', ''gost-plugin''} then ss_websocket s plugin settings d
                  else if sp_Name plugin = ''shadow-tls'' then Return (d\<lparr>id_Settings := SSSettings settings\<rparr>)
                  else after_plugin))"

section \<open>QUIC, AnyTLS and ShadowFlow\<close>

text \<open>\<open>fmt.Sprintf\<close> of an object with one member: the value is inserted as it is, without escaping.\<close>

definition dquote :: char where "dquote = CHR 0x22"

definition json_object1 :: "string \<Rightarrow> string \<Rightarrow> string" where
  "json_object1 key val = ''{'' @ [dquote] @ key @ [dquote] @ '':'' @ [dquote] @ val @ [dquote] @ ''}''"

definition buildHysteria2 :: "CommonNode \<Rightarrow> InboundDetour \<Rightarrow> InboundDetour" where
  "buildHysteria2 s d =
     (let brutal = (if \<not> cn_IgnoreClientBandwidth s \<and> (0 < cn_UpMbps s \<or> 0 < cn_DownMbps s)
                    then Some (Itoa (cn_UpMbps s) @ ''mbps'', Itoa (cn_DownMbps s) @ ''mbps'') else None);
          udp = (if cn_Obfs s \<noteq> [] \<and> cn_ObfsPassword s \<noteq> []
                 then Some (cn_Obfs s, json_object1 ''password'' (cn_ObfsPassword s)) else None)
      in d\<lparr>id_Protocol := ''hysteria'', id_Settings := HysteriaSettings 2,
           id_StreamSetting := Some ((stream_of ''hysteria'')\<lparr>st_FinalMask := Some \<lparr>fm_Brutal = brutal, fm_Udp = udp\<rparr>,
             st_HysteriaVersion := Some 2\<rparr>)\<rparr>)"

definition buildTuic :: "CommonNode \<Rightarrow> InboundDetour \<Rightarrow> InboundDetour" where
  "buildTuic s d = d\<lparr>id_Protocol := ''tuic'', id_Settings := TuicSettings (cn_CongestionControl s) (cn_ZeroRTTHandshake s),
     id_StreamSetting := Some (stream_of ''tuic'')\<rparr>"

definition buildAnyTLS :: "inbound_lib \<Rightarrow> CommonNode \<Rightarrow> InboundDetour \<Rightarrow> InboundDetour outcome" where
  "buildAnyTLS L v d =
     (let network = or_tcp (cn_Network v);
          d1 = d\<lparr>id_Protocol := ''anytls'', id_Settings := AnyTLSSettings (cn_PaddingScheme v), id_StreamSetting := Some (stream_of network)\<rparr>
      in if cn_NetworkSettings v = [] then Return d1
         else obind (decode_transport L all_kinds network (cn_NetworkSettings v)) (\<lambda>t. Return (with_transport network d1 t)))"

text \<open>
  The settings with one member replaced so that every path or service is accepted. Assigning to the map
  that decoding \<open>null\<close> leaves nil panics.
\<close>

definition multi_config :: "inbound_lib \<Rightarrow> string \<Rightarrow> string \<Rightarrow> string \<Rightarrow> string \<Rightarrow> string outcome" where
  "multi_config L what key val raw =
     (if raw = [] then Return (il_encode L [key \<mapsto> val])
      else (case il_object L raw of
              Inl e \<Rightarrow> Error (''parse '' @ what @ '' settings: '' @ e)
            | Inr None \<Rightarrow> Panic ''assignment to entry in nil map''
            | Inr (Some m) \<Rightarrow> Return (il_encode L (m(key \<mapsto> val)))))"

definition WSMultiPathConfig :: "inbound_lib \<Rightarrow> string \<Rightarrow> string outcome" where
  "WSMultiPathConfig L raw = multi_config L ''ws'' ''path'' [dquote, CHR ''/'', dquote] raw"

definition GRPCMultiServiceConfig :: "inbound_lib \<Rightarrow> string \<Rightarrow> string outcome" where
  "GRPCMultiServiceConfig L raw = multi_config L ''grpc'' ''serviceName'' [dquote, dquote] raw"

definition wrap_error :: "string \<Rightarrow> 'a outcome \<Rightarrow> 'a outcome" where
  "wrap_error pre r = (case r of Error e \<Rightarrow> Error (pre @ e) | x \<Rightarrow> x)"

definition shadowflow_settings :: "inbound_lib \<Rightarrow> string \<Rightarrow> string \<Rightarrow> string outcome" where
  "shadowflow_settings L network raw =
     (if network = ''ws'' then wrap_error ''build ws multi-path settings error: '' (WSMultiPathConfig L raw)
      else if network = ''grpc'' then wrap_error ''build grpc multi-service settings error: '' (GRPCMultiServiceConfig L raw)
      else if network = ''httpupgrade'' then wrap_error ''build httpupgrade multi-path settings error: '' (WSMultiPathConfig L raw)
      else Return raw)"

definition buildShadowFlow :: "inbound_lib \<Rightarrow> CommonNode \<Rightarrow> InboundDetour \<Rightarrow> InboundDetour outcome" where
  "buildShadowFlow L v d =
     (let d1 = d\<lparr>id_Protocol := ''vless'', id_Settings := VLessSettings ''none''\<rparr> in
      if cn_Network v = ''shadowstream'' then Return (d1\<lparr>id_StreamSetting := Some (stream_of ''tcp'')\<rparr>)
      else if cn_NetworkSettings v = [] then Return d1
      else obind (shadowflow_settings L (cn_Network v) (cn_NetworkSettings v)) (\<lambda>raw.
             obind (decode_transport L all_kinds (cn_Network v) raw) (\<lambda>t. Return (with_transport (cn_Network v) d1 t))))"

section \<open>SNI router\<close>

text \<open>
  The router of a REALITY node with several server names (\<open>common/snirouter/router.go\<close>): a table from lower-case names to
  upstream addresses and a default. \<open>order\<close> is the order in which the given map is visited.
\<close>

record Router =
  sr_sniMap :: "string \<rightharpoonup> string"
  sr_defaultDest :: string
  sr_port :: int

definition with_port443 :: "string \<Rightarrow> string" where
  "with_port443 dest = (if CHR '':'' \<notin> set dest then dest @ '':443'' else dest)"

definition router_entry :: "string \<Rightarrow> string \<Rightarrow> (string \<rightharpoonup> string) \<Rightarrow> (string \<rightharpoonup> string)" where
  "router_entry sni0 dest m =
     (let sni = ToLower (TrimSpace sni0) in
      if sni = [] then m else m(sni \<mapsto> (if dest = [] then sni @ '':443'' else with_port443 dest)))"

definition router_New :: "string list \<Rightarrow> (string \<rightharpoonup> string) \<Rightarrow> string \<Rightarrow> Router" where
  "router_New order sniToDest defaultDest =
     \<lparr>sr_sniMap = range_fold router_entry order sniToDest Map.empty,
      sr_defaultDest = (if defaultDest \<noteq> [] then with_port443 defaultDest else []), sr_port = 0\<rparr>"

definition router_Addr :: "Router \<Rightarrow> string" where
  "router_Addr r = ''127.0.0.1:'' @ Itoa (sr_port r)"

definition router_resolve :: "string \<Rightarrow> Router \<Rightarrow> string" where
  "router_resolve sni r = (case sr_sniMap r sni of Some dest \<Rightarrow> dest | None \<Rightarrow> sr_defaultDest r)"

text \<open>Where a probe is sent: the name of its client hello in lower case; nowhere without a destination.\<close>

definition router_upstream :: "string \<Rightarrow> Router \<Rightarrow> string option" where
  "router_upstream serverName r = (let dest = router_resolve (ToLower serverName) r in if dest = [] then None else Some dest)"

section \<open>buildInbound\<close>

record node_state =
  nd_routers :: "string \<rightharpoonup> Router"
  nd_configs :: "string set"
  nd_net :: net

definition router_Start :: "inbound_lib \<Rightarrow> Router \<Rightarrow> net \<Rightarrow> goerror + Router \<times> net" where
  "router_Start L r w =
     (case il_routerPort L w of
        Inl e \<Rightarrow> Inl (''snirouter: listen error: '' @ e)
      | Inr port \<Rightarrow> (let r' = r\<lparr>sr_port := port\<rparr> in Inr (r', insert (router_Addr r') w)))"

definition close_router :: "string \<Rightarrow> node_state \<Rightarrow> node_state" where
  "close_router tag s =
     (case nd_routers s tag of
        None \<Rightarrow> s
      | Some r \<Rightarrow> s\<lparr>nd_routers := (nd_routers s)(tag := None), nd_net := nd_net s - {router_Addr r}\<rparr>)"

definition supported_types :: "string set" where
  "supported_types = {''vless'', ''vmess'', ''trojan'', ''shadowsocks'', ''hysteria2'', ''tuic'', ''anytls'', ''shadowflow''}"

definition build_protocol :: "inbound_lib \<Rightarrow> json_codec \<Rightarrow> string \<Rightarrow> CommonNode \<Rightarrow> InboundDetour outcome" where
  "build_protocol L J type cm =
     (let d = empty_InboundDetour in
      if type = ''vless'' then buildVLess L cm d
      else if type = ''vmess'' then buildVMess L cm d
      else if type = ''trojan'' then buildTrojan L cm d
      else if type = ''shadowsocks'' then buildShadowsocks L J cm d
      else if type = ''hysteria2'' then Return (buildHysteria2 cm d)
      else if type = ''tuic'' then Return (buildTuic cm d)
      else if type = ''anytls'' then buildAnyTLS L cm d
      else buildShadowFlow L cm d)"

definition set_proxy_protocol :: "inbound_lib \<Rightarrow> CommonNode \<Rightarrow> InboundDetour \<Rightarrow> InboundDetour outcome" where
  "set_proxy_protocol L cm d =
     (if cn_NetworkSettings cm = [] then Return d
      else (case il_proxyProtocol L (cn_NetworkSettings cm) of
              Inl e \<Rightarrow> Error (''unmarshal network settings error: '' @ e)
            | Inr False \<Rightarrow> Return d
            | Inr True \<Rightarrow>
                (let sock = zero_SocketConfig\<lparr>so_AcceptProxyProtocol := True\<rparr>;
                     st = (case id_StreamSetting d of None \<Rightarrow> stream_of (cn_Network cm) | Some st \<Rightarrow> st)
                 in Return (d\<lparr>id_StreamSetting := Some (st\<lparr>st_SocketSettings := Some sock\<rparr>)\<rparr>))))"

definition set_keepalive :: "string \<Rightarrow> CommonNode \<Rightarrow> InboundDetour \<Rightarrow> InboundDetour" where
  "set_keepalive type cm d =
     (if type = ''hysteria2'' \<or> type = ''tuic'' then d
      else
        (let st = (case id_StreamSetting d of None \<Rightarrow> stream_of (or_tcp (cn_Network cm)) | Some st \<Rightarrow> st);
             sock = (case st_SocketSettings st of None \<Rightarrow> zero_SocketConfig | Some so \<Rightarrow> so);
             sock1 = sock\<lparr>so_TCPKeepAliveIdle := 30, so_TCPKeepAliveInterval := 10\<rparr>;
             sock2 = (if type \<noteq> ''anytls'' then sock1\<lparr>so_TCPUserTimeout := 90000\<rparr> else sock1)
         in d\<lparr>id_StreamSetting := Some (st\<lparr>st_SocketSettings := Some sock2\<rparr>)\<rparr>))"

definition set_address :: "CommonNode \<Rightarrow> bool \<Rightarrow> string \<Rightarrow> int \<Rightarrow> InboundDetour \<Rightarrow> InboundDetour" where
  "set_address cm disableSniffing listenOverride portOverride d =
     (let port = (if 0 < portOverride then portOverride else cn_ServerPort cm);
          ip = (if 0 < portOverride then listenOverride else cn_ListenIP cm)
      in d\<lparr>id_Port := port mod 2 ^ 32, id_ListenOn := (if ip = [] then ''0.0.0.0'' else ip), id_Sniffing := \<not> disableSniffing\<rparr>)"

definition node_tls :: "string \<Rightarrow> CertInfo \<Rightarrow> TLSConfig" where
  "node_tls type ci =
     \<lparr>tl_CertFile = ci_CertFile ci, tl_KeyFile = ci_KeyFile ci, tl_OcspStapling = 0, tl_OneTimeLoading = True,
      tl_RejectUnknownSNI = ci_RejectUnknownSni ci, tl_ECHServerKeys = ci_EchKey ci,
      tl_ALPN = (if type = ''hysteria2'' \<or> type = ''tuic'' then [''h3''] else [])\<rparr>"

definition update_stream :: "(StreamConfig \<Rightarrow> StreamConfig) \<Rightarrow> InboundDetour \<Rightarrow> InboundDetour" where
  "update_stream f d =
     d\<lparr>id_StreamSetting := Some (f (case id_StreamSetting d of None \<Rightarrow> zero_StreamConfig | Some st \<Rightarrow> st))\<rparr>"

definition set_tls :: "string \<Rightarrow> CommonNode \<Rightarrow> InboundDetour \<Rightarrow> InboundDetour outcome" where
  "set_tls type cm d =
     (case cn_CertInfo cm of
        None \<Rightarrow> Error ''the CertInfo is not vail''
      | Some ci \<Rightarrow>
          if ci_CertMode ci = ''none'' \<or> ci_CertMode ci = [] then Return d
          else Return (update_stream (\<lambda>st. st\<lparr>st_Security := ''tls'', st_TLSSettings := Some (node_tls type ci)\<rparr>) d))"

text \<open>The destination of REALITY: a router for several names, the panel's destination or the only name otherwise.\<close>

definition reality_port :: "TlsSettings \<Rightarrow> string" where
  "reality_port t = (if ts_ServerPort t = [] then ''443'' else ts_ServerPort t)"

definition router_of :: "(string \<rightharpoonup> string) \<Rightarrow> string list \<Rightarrow> TlsSettings \<Rightarrow> Router" where
  "router_of sniMap order t =
     (let names = EffectiveServerNames t;
          dest0 = (if ts_Dest t = [] then hd names else ts_Dest t);
          dest = (if CHR '':'' \<notin> set dest0 then dest0 @ '':'' @ reality_port t else dest0)
      in router_New order sniMap dest)"

definition sni_map :: "TlsSettings \<Rightarrow> (string \<rightharpoonup> string)" where
  "sni_map t = fold (\<lambda>sn m. m(sn \<mapsto> sn @ '':'' @ reality_port t)) (EffectiveServerNames t) Map.empty"

definition reality_dest :: "inbound_lib \<Rightarrow> string list \<Rightarrow> string \<Rightarrow> TlsSettings \<Rightarrow> node_state \<Rightarrow> (goerror + string) \<times> node_state" where
  "reality_dest L order tag t s =
     (if 1 < length (EffectiveServerNames t) then
        (let s1 = close_router tag s in
         case router_Start L (router_of (sni_map t) order t) (nd_net s1) of
           Inl e \<Rightarrow> (Inl (''start SNI router error: '' @ e), s1)
         | Inr (r, w) \<Rightarrow> (Inr (router_Addr r), s1\<lparr>nd_routers := (nd_routers s1)(tag \<mapsto> r), nd_net := w\<rparr>))
      else (Inr ((if ts_Dest t = [] then PrimaryServerName t else ts_Dest t) @ '':'' @ reality_port t), s))"

definition set_reality ::
  "inbound_lib \<Rightarrow> string list \<Rightarrow> string \<Rightarrow> CommonNode \<Rightarrow> InboundDetour \<Rightarrow> node_state \<Rightarrow> InboundDetour outcome \<times> node_state" where
  "set_reality L order tag cm d s =
     (let t = cn_TlsSettings cm in
      case reality_dest L order tag t s of
        (Inl e, s1) \<Rightarrow> (Error e, s1)
      | (Inr dest, s1) \<Rightarrow>
          (Return (update_stream (\<lambda>st. st\<lparr>st_Security := ''reality'', st_REALITYSettings := Some
              \<lparr>re_Dest = dest, re_Xver = ts_Xver t, re_ServerNames = EffectiveServerNames t, re_PrivateKey = ts_PrivateKey t,
               re_ShortIds = EffectiveShortIds t, re_Mldsa65Seed = ts_Mldsa65Seed t\<rparr>\<rparr>) d), s1))"

definition set_security ::
  "inbound_lib \<Rightarrow> string list \<Rightarrow> string \<Rightarrow> NodeInfo \<Rightarrow> CommonNode \<Rightarrow> InboundDetour \<Rightarrow> node_state \<Rightarrow> InboundDetour outcome \<times> node_state" where
  "set_security L order tag info cm d s =
     (if ni_Security info = SecTls then (set_tls (ni_Type info) cm d, s)
      else if ni_Security info = SecReality then set_reality L order tag cm d s
      else (Return d, s))"

text \<open>
  The whole build up to \<open>in.Build()\<close>. A node without a configuration makes every protocol builder panic. A ShadowFlow
  node's configuration is stored under the node's own tag before its settings are decoded.
\<close>

definition buildInbound ::
  "inbound_lib \<Rightarrow> json_codec \<Rightarrow> string list \<Rightarrow> NodeInfo \<Rightarrow> string \<Rightarrow> bool \<Rightarrow> string \<Rightarrow> int \<Rightarrow> node_state
     \<Rightarrow> InboundDetour outcome \<times> node_state" where
  "buildInbound L J order info tag disableSniffing listenOverride portOverride s =
     (if ni_Type info \<notin> supported_types then (Error (''unsupported node type: '' @ ni_Type info), s)
      else (case ni_Common info of
              None \<Rightarrow> (Panic ''invalid memory address or nil pointer dereference'', s)
            | Some cm \<Rightarrow>
                (let s1 = (if ni_Type info = ''shadowflow'' then s\<lparr>nd_configs := insert (ni_Tag info) (nd_configs s)\<rparr> else s) in
                 case obind (build_protocol L J (ni_Type info) cm) (set_proxy_protocol L cm) of
                   Error e \<Rightarrow> (Error e, s1)
                 | Panic p \<Rightarrow> (Panic p, s1)
                 | Return d \<Rightarrow>
                     (case set_security L order tag info cm
                             (set_address cm disableSniffing listenOverride portOverride (set_keepalive (ni_Type info) cm d)) s1 of
                        (Return d', s2) \<Rightarrow> (Return (d'\<lparr>id_Tag := tag\<rparr>), s2)
                      | (Error e, s2) \<Rightarrow> (Error e, s2)
                      | (Panic p, s2) \<Rightarrow> (Panic p, s2)))))"

end
