(* ===== verification/Inbound_Props.thy ===== *)
theory Inbound_Props
  imports Inbound
begin

text \<open>
  What the inbound builder promises: the address, socket options and security of every configuration it returns, and
  where the SNI router of a REALITY node sends its probes.
\<close>

section \<open>Shape of the configuration\<close>

text \<open>A configuration before its socket options are set: no keepalive, and a network if it has a stream at all.\<close>

definition raw_inbound :: "InboundDetour \<Rightarrow> bool" where
  "raw_inbound d \<longleftrightarrow> (\<forall>st. id_StreamSetting d = Some st \<longrightarrow> st_SocketSettings st = None \<and> st_Network st \<noteq> None \<and> st_Network st \<noteq> Some [])"

lemma raw_empty [simp]: "raw_inbound empty_InboundDetour"
  by (simp add: raw_inbound_def empty_InboundDetour_def)

lemma decode_transport_network [simp]: "decode_transport L all_kinds [] raw \<noteq> Return t"
  by (simp add: decode_transport_def all_kinds_def)

lemma or_tcp_nonempty [simp]: "or_tcp n \<noteq> []"
  by (simp add: or_tcp_def)

lemmas inbound_defs = buildVLess_def buildVMess_def buildTrojan_def buildHysteria2_def buildTuic_def buildAnyTLS_def buildShadowFlow_def
  with_transport_def stream_of_def zero_StreamConfig_def raw_inbound_def Let_def obind_Return

lemma raw_builders:
  assumes "raw_inbound d"
  shows "buildVLess L cm d = Return d' \<Longrightarrow> raw_inbound d'" "buildVMess L cm d = Return d' \<Longrightarrow> raw_inbound d'"
    "buildTrojan L cm d = Return d' \<Longrightarrow> raw_inbound d'" "raw_inbound (buildHysteria2 cm d)" "raw_inbound (buildTuic cm d)"
    "buildAnyTLS L cm d = Return d' \<Longrightarrow> raw_inbound d'" "buildShadowFlow L cm d = Return d' \<Longrightarrow> raw_inbound d'"
proof -
  show "buildVLess L cm d = Return d' \<Longrightarrow> raw_inbound d'" "buildVMess L cm d = Return d' \<Longrightarrow> raw_inbound d'"
    "buildAnyTLS L cm d = Return d' \<Longrightarrow> raw_inbound d'" "buildShadowFlow L cm d = Return d' \<Longrightarrow> raw_inbound d'"
    using assms by (auto simp: inbound_defs split: if_splits)
  show "buildTrojan L cm d = Return d' \<Longrightarrow> raw_inbound d'" by (auto simp: inbound_defs split: if_splits)
  show "raw_inbound (buildHysteria2 cm d)" "raw_inbound (buildTuic cm d)" by (auto simp: inbound_defs)
qed

lemma raw_ss_websocket: "ss_websocket s p c d = Return d' \<Longrightarrow> raw_inbound d'"
  by (auto simp: ss_websocket_def inbound_defs split: if_splits option.splits)

lemma raw_ss_plain: "raw_inbound d \<Longrightarrow> ss_plain L s c d = Return d' \<Longrightarrow> raw_inbound d'"
  by (auto simp: ss_plain_def inbound_defs split: if_splits sum.splits)

lemma raw_shadowsocks:
  assumes "raw_inbound d" and "buildShadowsocks L J s d = Return d'"
  shows "raw_inbound d'"
proof -
  have d: "raw_inbound (d\<lparr>id_Protocol := ''shadowsocks''\<rparr>)" "raw_inbound (d\<lparr>id_Protocol := ''shadowsocks'', id_Settings := x\<rparr>)" for x
    using assms(1) by (simp_all add: raw_inbound_def)
  have tcp: "raw_inbound (d\<lparr>id_Protocol := ''shadowsocks'', id_Settings := x, id_StreamSetting := Some (stream_of ''tcp'')\<rparr>)" for x
    by (simp add: inbound_defs)
  show ?thesis
    using assms(2) raw_ss_websocket raw_ss_plain [OF d(1)] d(2) tcp
    by (auto simp: buildShadowsocks_def Let_def split: sum.splits option.splits if_splits)
qed

lemma raw_protocol: "type \<in> supported_types \<Longrightarrow> build_protocol L J type cm = Return d \<Longrightarrow> raw_inbound d"
  using raw_builders [OF raw_empty] raw_shadowsocks [OF raw_empty]
  by (auto simp: build_protocol_def Let_def split: if_splits)

text \<open>QUIC protocols always have a stream, and it is of their own kind.\<close>

definition quic_type :: "string \<Rightarrow> bool" where
  "quic_type type \<longleftrightarrow> type = ''hysteria2'' \<or> type = ''tuic''"

lemma quic_stream: "quic_type type \<Longrightarrow> build_protocol L J type cm = Return d \<Longrightarrow> \<exists>st. id_StreamSetting d = Some st \<and> st_Network st \<in> {Some ''hysteria'', Some ''tuic''}"
  by (auto simp: quic_type_def build_protocol_def inbound_defs)

lemma set_proxy_protocol_socket:
  assumes "raw_inbound d" and "set_proxy_protocol L cm d = Return d'"
  shows "\<forall>st so. id_StreamSetting d' = Some st \<and> st_SocketSettings st = Some so \<longrightarrow>
      so_TCPKeepAliveIdle so = 0 \<and> so_TCPKeepAliveInterval so = 0 \<and> so_TCPUserTimeout so = 0"
  using assms by (auto simp: set_proxy_protocol_def raw_inbound_def stream_of_def zero_StreamConfig_def zero_SocketConfig_def Let_def
      split: if_splits sum.splits bool.splits option.splits)

lemma set_keepalive_socket:
  assumes "\<forall>st so. id_StreamSetting d = Some st \<and> st_SocketSettings st = Some so \<longrightarrow>
      so_TCPKeepAliveIdle so = 0 \<and> so_TCPKeepAliveInterval so = 0 \<and> so_TCPUserTimeout so = 0"
  shows "\<not> quic_type type \<Longrightarrow> \<exists>st so. id_StreamSetting (set_keepalive type cm d) = Some st \<and> st_SocketSettings st = Some so
      \<and> so_TCPKeepAliveIdle so = 30 \<and> so_TCPKeepAliveInterval so = 10 \<and> so_TCPUserTimeout so = (if type = ''anytls'' then 0 else 90000)"
    and "quic_type type \<Longrightarrow> set_keepalive type cm d = d"
  using assms
  by (auto simp: set_keepalive_def quic_type_def stream_of_def zero_StreamConfig_def zero_SocketConfig_def Let_def split: option.split)

lemma set_address_simps [simp]:
  "id_StreamSetting (set_address cm ds lo po d) = id_StreamSetting d" "id_Sniffing (set_address cm ds lo po d) = (\<not> ds)"
  "id_Port (set_address cm ds lo po d) = (if 0 < po then po else cn_ServerPort cm) mod 2 ^ 32"
  "id_ListenOn (set_address cm ds lo po d) = (let ip = (if 0 < po then lo else cn_ListenIP cm) in if ip = [] then ''0.0.0.0'' else ip)"
  by (simp_all add: set_address_def Let_def)

lemma set_security_keeps:
  assumes "set_security L order tag info cm d s = (Return d', s')"
  shows "id_Port d' = id_Port d \<and> id_ListenOn d' = id_ListenOn d \<and> id_Sniffing d' = id_Sniffing d
    \<and> (\<forall>st. id_StreamSetting d = Some st \<longrightarrow> (\<exists>st'. id_StreamSetting d' = Some st' \<and> st_SocketSettings st' = st_SocketSettings st))"
  using assms by (auto simp: set_security_def set_tls_def set_reality_def update_stream_def Let_def
      split: if_splits option.splits sum.splits prod.splits)

lemma buildInbound_ReturnE:
  assumes "buildInbound L J order info tag ds lo po s = (Return d', s')"
  obtains cm d d1 d2 s1 where "ni_Common info = Some cm" "ni_Type info \<in> supported_types"
    "build_protocol L J (ni_Type info) cm = Return d" "set_proxy_protocol L cm d = Return d1"
    "set_security L order tag info cm (set_address cm ds lo po (set_keepalive (ni_Type info) cm d1)) s1 = (Return d2, s')"
    "d' = d2\<lparr>id_Tag := tag\<rparr>" "nd_routers s1 = nd_routers s" "nd_net s1 = nd_net s"
proof -
  let ?s1 = "if ni_Type info = ''shadowflow'' then s\<lparr>nd_configs := insert (ni_Tag info) (nd_configs s)\<rparr> else s"
  have ty: "ni_Type info \<in> supported_types" using assms by (auto simp: buildInbound_def split: if_splits)
  with assms obtain cm where cm: "ni_Common info = Some cm" by (auto simp: buildInbound_def split: option.splits)
  from assms ty cm obtain d1 where d1: "obind (build_protocol L J (ni_Type info) cm) (set_proxy_protocol L cm) = Return d1"
    by (auto simp: buildInbound_def Let_def split: outcome.splits)
  then obtain d where d: "build_protocol L J (ni_Type info) cm = Return d" "set_proxy_protocol L cm d = Return d1" by (auto simp: obind_Return)
  from assms ty cm d1 obtain d2 where
    "set_security L order tag info cm (set_address cm ds lo po (set_keepalive (ni_Type info) cm d1)) ?s1 = (Return d2, s')"
    "d' = d2\<lparr>id_Tag := tag\<rparr>"
    by (auto simp: buildInbound_def Let_def split: outcome.splits prod.splits)
  then show thesis by (rule that [OF cm ty d]) simp_all
qed

text \<open>
  Every inbound configuration the builder returns is for the node's tag, with the node's port (or the loopback port that replaces
  it) and a non-empty listen address; a stream protocol has its keepalive options set and aborts a stuck connection after
  ninety seconds, except AnyTLS, which never does; a QUIC protocol has none of these options.
\<close>

theorem inbound_address_and_socket:
  assumes "buildInbound L J order info tag ds lo po s = (Return d, s')"
  shows "\<exists>cm. ni_Common info = Some cm \<and> id_Tag d = tag \<and> id_Sniffing d = (\<not> ds) \<and> id_ListenOn d \<noteq> []
    \<and> id_Port d = (if 0 < po then po else cn_ServerPort cm) mod 2 ^ 32
    \<and> (\<exists>st. id_StreamSetting d = Some st
        \<and> (if quic_type (ni_Type info) then \<forall>so. st_SocketSettings st = Some so \<longrightarrow> so_TCPKeepAliveIdle so = 0 \<and> so_TCPUserTimeout so = 0
           else \<exists>so. st_SocketSettings st = Some so \<and> so_TCPKeepAliveIdle so = 30 \<and> so_TCPKeepAliveInterval so = 10
             \<and> so_TCPUserTimeout so = (if ni_Type info = ''anytls'' then 0 else 90000)))"
  using assms
proof (rule buildInbound_ReturnE)
  fix cm d0 d1 d2 s1
  assume cm: "ni_Common info = Some cm" and ty: "ni_Type info \<in> supported_types"
    and p: "build_protocol L J (ni_Type info) cm = Return d0" and pp: "set_proxy_protocol L cm d0 = Return d1"
    and sec: "set_security L order tag info cm (set_address cm ds lo po (set_keepalive (ni_Type info) cm d1)) s1 = (Return d2, s')"
    and d: "d = d2\<lparr>id_Tag := tag\<rparr>"
  let ?d = "set_keepalive (ni_Type info) cm d1"
  note sock = set_proxy_protocol_socket [OF raw_protocol [OF ty p] pp]
  have "\<exists>st. id_StreamSetting ?d = Some st
        \<and> (if quic_type (ni_Type info) then \<forall>so. st_SocketSettings st = Some so \<longrightarrow> so_TCPKeepAliveIdle so = 0 \<and> so_TCPUserTimeout so = 0
           else \<exists>so. st_SocketSettings st = Some so \<and> so_TCPKeepAliveIdle so = 30 \<and> so_TCPKeepAliveInterval so = 10
             \<and> so_TCPUserTimeout so = (if ni_Type info = ''anytls'' then 0 else 90000))"
  proof (cases "quic_type (ni_Type info)")
    case True
    from quic_stream [OF True p] pp obtain st where "id_StreamSetting d1 = Some st"
      by (auto simp: set_proxy_protocol_def Let_def split: if_splits sum.splits bool.splits)
    with True sock set_keepalive_socket(2) [OF sock True] show ?thesis by simp
  next
    case False
    with set_keepalive_socket(1) [OF sock False] show ?thesis by simp
  qed
  then obtain st where st: "id_StreamSetting ?d = Some st"
      "if quic_type (ni_Type info) then \<forall>so. st_SocketSettings st = Some so \<longrightarrow> so_TCPKeepAliveIdle so = 0 \<and> so_TCPUserTimeout so = 0
           else \<exists>so. st_SocketSettings st = Some so \<and> so_TCPKeepAliveIdle so = 30 \<and> so_TCPKeepAliveInterval so = 10
             \<and> so_TCPUserTimeout so = (if ni_Type info = ''anytls'' then 0 else 90000)" by blast
  from set_security_keeps [OF sec] st(1) obtain st' where "id_StreamSetting d2 = Some st'" "st_SocketSettings st' = st_SocketSettings st" by auto
  with st(2) set_security_keeps [OF sec] cm show ?thesis unfolding d by (auto simp: Let_def)
qed

definition demo_inbound_lib :: inbound_lib where
  "demo_inbound_lib = \<lparr>il_transport = (\<lambda>k t. None), il_proxyProtocol = (\<lambda>t. Inr False), il_fallbacks = (\<lambda>t. None),
     il_fallback = (\<lambda>t. None), il_ssHTTP = (\<lambda>t. Inr (False, [], [])), il_object = (\<lambda>t. Inr (Some Map.empty)), il_encode = (\<lambda>m. []),
     il_rand = Inr ''pw'', il_routerPort = (\<lambda>w. Inr 40001)\<rparr>"

definition demo_reality :: NodeInfo where
  "demo_reality = \<lparr>ni_Id = 1, ni_Type = ''anytls'', ni_Security = 2, ni_PushInterval = 60, ni_PullInterval = 60, ni_Tag = ''t'',
     ni_Common = Some (zero_CommonNode\<lparr>cn_ServerPort := 443,
       cn_TlsSettings := zero_TlsSettings\<lparr>ts_ServerNames := [''a.x'', ''b.x'']\<rparr>\<rparr>)\<rparr>"

definition no_state :: node_state where
  "no_state = \<lparr>nd_routers = Map.empty, nd_configs = {}, nd_net = {}\<rparr>"

lemmas inbound_eval = demo_inbound_lib_def demo_reality_def no_state_def zero_CommonNode_def zero_TlsSettings_def buildInbound_def supported_types_def
  build_protocol_def buildAnyTLS_def or_tcp_def set_proxy_protocol_def set_keepalive_def set_address_def set_security_def SecTls_def SecReality_def
  set_reality_def reality_dest_def close_router_def router_Start_def EffectiveServerNames_def EffectiveShortIds_def update_stream_def Let_def

theorem inbound_address_and_socket_witness:
  "\<exists>d s st so. buildInbound demo_inbound_lib demo_codec [''a.x'', ''b.x''] demo_reality ''t'' True [] 0 no_state = (Return d, s)
     \<and> id_Port d = 443 \<and> id_StreamSetting d = Some st \<and> st_SocketSettings st = Some so \<and> so_TCPUserTimeout so = 0"
proof -
  obtain d s where b: "buildInbound demo_inbound_lib demo_codec [''a.x'', ''b.x''] demo_reality ''t'' True [] 0 no_state = (Return d, s)"
    by (simp add: inbound_eval)
  from inbound_address_and_socket [OF b] show ?thesis
    using b by (auto simp: quic_type_def demo_reality_def)
qed

section \<open>SNI routing\<close>

text \<open>A server name as the router keeps it.\<close>

definition plain_name :: "string \<Rightarrow> bool" where
  "plain_name n \<longleftrightarrow> n \<noteq> [] \<and> ToLower (TrimSpace n) = n"

lemma router_table:
  assumes "\<forall>k\<in>set ks. m k \<noteq> None \<longrightarrow> plain_name k" and "\<forall>k v. m k = Some v \<longrightarrow> CHR '':'' \<in> set v"
  shows "range_fold router_entry ks m acc x = (if x \<in> set ks \<and> m x \<noteq> None then m x else acc x)"
  using assms
proof (induction ks arbitrary: acc)
  case (Cons k ks)
  show ?case
  proof (cases "m k")
    case (Some v)
    with Cons.prems have "plain_name k" "CHR '':'' \<in> set v" by auto
    then have "router_entry k v acc = acc(k \<mapsto> v)" by (auto simp: router_entry_def plain_name_def with_port443_def Let_def)
    with Some Cons show ?thesis by auto
  qed (use Cons in auto)
qed simp

lemma sni_map_apply: "sni_map t n = (if n \<in> set (EffectiveServerNames t) then Some (n @ '':'' @ reality_port t) else None)"
proof -
  have "fold (\<lambda>sn m. m(sn \<mapsto> sn @ '':'' @ p)) ns m n = (if n \<in> set ns then Some (n @ '':'' @ p) else m n)" for ns p and m :: "string \<rightharpoonup> string"
    by (induction ns arbitrary: m) auto
  then show ?thesis by (simp add: sni_map_def)
qed

lemma router_of_resolve:
  assumes "\<forall>n\<in>set (EffectiveServerNames t). plain_name n" and "range_order order (sni_map t)"
  shows "router_resolve n (router_of (sni_map t) order t) =
      (if n \<in> set (EffectiveServerNames t) then n @ '':'' @ reality_port t else sr_defaultDest (router_of (sni_map t) order t))"
proof -
  have col: "\<forall>k v. sni_map t k = Some v \<longrightarrow> CHR '':'' \<in> set v" by (auto simp: sni_map_apply split: if_splits)
  have "range_fold router_entry order (sni_map t) Map.empty n = sni_map t n"
    using assms router_table [of order "sni_map t" Map.empty n] col range_orderD(2) [OF assms(2)] by (auto simp: sni_map_apply split: if_splits)
  then show ?thesis by (auto simp: router_resolve_def router_of_def router_New_def sni_map_apply Let_def)
qed

text \<open>
  A REALITY node with several plain server names gets a router of its own: the inbound's destination is the router's address, on
  which the router listens; a probe for one of the node's names, in any case, is sent to that name on the node's port, and
  any other probe to the default destination, which is never empty.
\<close>

theorem sni_router_destinations:
  assumes "buildInbound L J order info tag ds lo po s = (Return d, s')" and "ni_Security info = SecReality"
    and "ni_Common info = Some cm" and "1 < length (EffectiveServerNames (cn_TlsSettings cm))"
    and "\<forall>n\<in>set (EffectiveServerNames (cn_TlsSettings cm)). plain_name n" and "range_order order (sni_map (cn_TlsSettings cm))"
  shows "\<exists>r st rc. nd_routers s' tag = Some r \<and> router_Addr r \<in> nd_net s' \<and> id_StreamSetting d = Some st
    \<and> st_Security st = ''reality'' \<and> st_REALITYSettings st = Some rc \<and> re_Dest rc = router_Addr r
    \<and> (\<forall>probe. router_upstream probe r = Some
         (if ToLower probe \<in> set (EffectiveServerNames (cn_TlsSettings cm))
          then ToLower probe @ '':'' @ reality_port (cn_TlsSettings cm) else sr_defaultDest r))"
  using assms(1)
proof (rule buildInbound_ReturnE)
  fix cm' d0 d1 d2 s1
  assume cm: "ni_Common info = Some cm'" and d: "d = d2\<lparr>id_Tag := tag\<rparr>"
    and sec: "set_security L order tag info cm' (set_address cm' ds lo po (set_keepalive (ni_Type info) cm' d1)) s1 = (Return d2, s')"
  let ?t = "cn_TlsSettings cm"
  let ?r0 = "router_of (sni_map ?t) order ?t"
  have [simp]: "cm' = cm" using cm assms(3) by simp
  from sec assms(2,4) obtain p where
    s': "s' = (close_router tag s1)\<lparr>nd_routers := (nd_routers (close_router tag s1))(tag \<mapsto> ?r0\<lparr>sr_port := p\<rparr>),
            nd_net := insert (router_Addr (?r0\<lparr>sr_port := p\<rparr>)) (nd_net (close_router tag s1))\<rparr>"
    and st: "\<exists>st rc. id_StreamSetting d2 = Some st \<and> st_Security st = ''reality'' \<and> st_REALITYSettings st = Some rc
        \<and> re_Dest rc = router_Addr (?r0\<lparr>sr_port := p\<rparr>)"
    by (auto simp: set_security_def SecTls_def SecReality_def set_reality_def reality_dest_def router_Start_def update_stream_def Let_def
        split: sum.splits)
  have dflt: "sr_defaultDest ?r0 \<noteq> []" by (auto simp: router_of_def router_New_def with_port443_def Let_def)
  have res: "router_resolve n (?r0\<lparr>sr_port := p\<rparr>) = router_resolve n ?r0" for n
    by (simp add: router_resolve_def split: option.split)
  have up: "router_upstream probe (?r0\<lparr>sr_port := p\<rparr>) = Some
         (if ToLower probe \<in> set (EffectiveServerNames ?t) then ToLower probe @ '':'' @ reality_port ?t else sr_defaultDest (?r0\<lparr>sr_port := p\<rparr>))" for probe
    using dflt by (simp add: router_upstream_def res router_of_resolve [OF assms(5,6)])
  have "nd_routers s' tag = Some (?r0\<lparr>sr_port := p\<rparr>)" "router_Addr (?r0\<lparr>sr_port := p\<rparr>) \<in> nd_net s'"
    by (simp_all add: s')
  moreover from st obtain st rc where "id_StreamSetting d = Some st" "st_Security st = ''reality''" "st_REALITYSettings st = Some rc"
    "re_Dest rc = router_Addr (?r0\<lparr>sr_port := p\<rparr>)" by (auto simp: d)
  ultimately show ?thesis using up by blast
qed

theorem sni_router_destinations_witness:
  "\<exists>d s r. buildInbound demo_inbound_lib demo_codec [''a.x'', ''b.x''] demo_reality ''t'' True [] 0 no_state = (Return d, s)
     \<and> nd_routers s ''t'' = Some r \<and> router_upstream ''A.x'' r = Some ''a.x:443''"
proof -
  obtain d s where b: "buildInbound demo_inbound_lib demo_codec [''a.x'', ''b.x''] demo_reality ''t'' True [] 0 no_state = (Return d, s)"
    by (simp add: inbound_eval)
  let ?cm = "zero_CommonNode\<lparr>cn_ServerPort := 443, cn_TlsSettings := zero_TlsSettings\<lparr>ts_ServerNames := [''a.x'', ''b.x'']\<rparr>\<rparr>"
  have n: "EffectiveServerNames (zero_TlsSettings\<lparr>ts_ServerNames := [''a.x'', ''b.x'']\<rparr>) = [''a.x'', ''b.x'']"
    by (simp add: EffectiveServerNames_def)
  have o: "range_order [''a.x'', ''b.x''] (sni_map (cn_TlsSettings ?cm))"
    unfolding range_order_def by (auto simp: sni_map_apply n split: if_splits)
  have p: "\<forall>n\<in>set [''a.x'', ''b.x'']. plain_name n"
    by (simp add: plain_name_def TrimSpace_def is_space_def ToLower_def lower_char_def)
  have "ni_Security demo_reality = SecReality" "ni_Common demo_reality = Some ?cm" by (simp_all add: demo_reality_def SecReality_def)
  from sni_router_destinations [OF b this _ _ o] n p
  obtain r where "nd_routers s ''t'' = Some r"
    "router_upstream ''A.x'' r = Some (if ToLower ''A.x'' \<in> {''a.x'', ''b.x''} then ToLower ''A.x'' @ '':'' @ reality_port (cn_TlsSettings ?cm) else sr_defaultDest r)"
    by auto
  moreover have "ToLower ''A.x'' = ''a.x''" by code_simp
  ultimately show ?thesis using b by (auto simp: reality_port_def zero_TlsSettings_def)
qed

end
