(* ===== verification/Traffic_Counter.thy ===== *)
theory Traffic_Counter
  imports Panel_Types
begin

text \<open>
  Per-user traffic counters (\<open>common/counter/traffic.go\<close>, \<open>common/counter/xraytraffic.go\<close>). A counter map
  holds pointers to storages, and a connection keeps the pointer it got for its whole life, so
  the storages live in a store addressed by natural numbers: \<open>tc_Counters\<close> is the map from a user
  key to the address of its storage, \<open>tc_store\<close> the storages and \<open>tc_next\<close> the first address that
  was never allocated. Counters are \<open>atomic.Int64\<close>: additions wrap around.
\<close>

record TrafficStorage =
  UpCounter :: int
  DownCounter :: int

record TrafficCounter =
  tc_Counters :: "string \<rightharpoonup> nat"
  tc_store :: "nat \<Rightarrow> TrafficStorage"
  tc_next :: nat

definition zero_storage :: TrafficStorage where
  "zero_storage = \<lparr>UpCounter = 0, DownCounter = 0\<rparr>"

definition NewTrafficCounter :: TrafficCounter where
  "NewTrafficCounter = \<lparr>tc_Counters = Map.empty, tc_store = (\<lambda>_. zero_storage), tc_next = 0\<rparr>"

text \<open>
  \<open>GetCounter\<close> returns the address of the storage of a key and creates it on the first call. With
  \<open>race\<close>, another goroutine stores its own new storage between the failed \<open>Load\<close> and the
  \<open>LoadOrStore\<close>, whose value then wins.
\<close>

definition GetCounter :: "bool \<Rightarrow> string \<Rightarrow> TrafficCounter \<Rightarrow> nat \<times> TrafficCounter" where
  "GetCounter race uuid c =
     (case tc_Counters c uuid of
        Some a \<Rightarrow> (a, c)
      | None \<Rightarrow>
          let newStorage = tc_next c;
              c1 = c\<lparr>tc_store := (tc_store c)(newStorage := zero_storage), tc_next := Suc newStorage\<rparr>
          in if race
             then let other = tc_next c1
                  in (other, c1\<lparr>tc_Counters := (tc_Counters c1)(uuid \<mapsto> other),
                                tc_store := (tc_store c1)(other := zero_storage), tc_next := Suc other\<rparr>)
             else (newStorage, c1\<lparr>tc_Counters := (tc_Counters c1)(uuid \<mapsto> newStorage)\<rparr>))"

definition GetUpCount :: "string \<Rightarrow> TrafficCounter \<Rightarrow> int" where
  "GetUpCount uuid c =
     (case tc_Counters c uuid of Some a \<Rightarrow> UpCounter (tc_store c a) | None \<Rightarrow> 0)"

definition GetDownCount :: "string \<Rightarrow> TrafficCounter \<Rightarrow> int" where
  "GetDownCount uuid c =
     (case tc_Counters c uuid of Some a \<Rightarrow> DownCounter (tc_store c a) | None \<Rightarrow> 0)"

definition Len :: "string list \<Rightarrow> TrafficCounter \<Rightarrow> int" where
  "Len order c = range_fold (\<lambda>_ _ n. n + 1) order (tc_Counters c) 0"

definition Reset :: "string \<Rightarrow> TrafficCounter \<Rightarrow> TrafficCounter" where
  "Reset uuid c =
     (case tc_Counters c uuid of
        Some a \<Rightarrow> c\<lparr>tc_store := (tc_store c)(a := \<lparr>UpCounter = 0, DownCounter = 0\<rparr>)\<rparr>
      | None \<Rightarrow> c)"

definition Delete :: "string \<Rightarrow> TrafficCounter \<Rightarrow> TrafficCounter" where
  "Delete uuid c = c\<lparr>tc_Counters := map_del (tc_Counters c) uuid\<rparr>"

text \<open>Atomic operations on a storage that the caller holds a pointer to.\<close>

definition up_add :: "nat \<Rightarrow> int \<Rightarrow> TrafficCounter \<Rightarrow> TrafficCounter" where
  "up_add a n c = c\<lparr>tc_store := (tc_store c)(a := (tc_store c a)\<lparr>UpCounter := i64 (UpCounter (tc_store c a) + n)\<rparr>)\<rparr>"

definition down_add :: "nat \<Rightarrow> int \<Rightarrow> TrafficCounter \<Rightarrow> TrafficCounter" where
  "down_add a n c = c\<lparr>tc_store := (tc_store c)(a := (tc_store c a)\<lparr>DownCounter := i64 (DownCounter (tc_store c a) + n)\<rparr>)\<rparr>"

definition Rx :: "bool \<Rightarrow> string \<Rightarrow> int \<Rightarrow> TrafficCounter \<Rightarrow> TrafficCounter" where
  "Rx race uuid n c = (case GetCounter race uuid c of (a, c') \<Rightarrow> down_add a n c')"

definition Tx :: "bool \<Rightarrow> string \<Rightarrow> int \<Rightarrow> TrafficCounter \<Rightarrow> TrafficCounter" where
  "Tx race uuid n c = (case GetCounter race uuid c of (a, c') \<Rightarrow> up_add a n c')"

text \<open>
  \<open>XrayTrafficCounter\<close> wraps a pointer to one of the two atomics of a storage.
\<close>

datatype direction = Up | Down

record XrayTrafficCounter =
  xv_addr :: nat
  xv_dir :: direction

definition xtc_Value :: "XrayTrafficCounter \<Rightarrow> TrafficCounter \<Rightarrow> int" where
  "xtc_Value x c = (case xv_dir x of Up \<Rightarrow> UpCounter (tc_store c (xv_addr x))
                                   | Down \<Rightarrow> DownCounter (tc_store c (xv_addr x)))"

definition xtc_Set :: "XrayTrafficCounter \<Rightarrow> int \<Rightarrow> TrafficCounter \<Rightarrow> int \<times> TrafficCounter" where
  "xtc_Set x newValue c =
     (xtc_Value x c,
      c\<lparr>tc_store := (tc_store c)(xv_addr x :=
         (case xv_dir x of Up \<Rightarrow> (tc_store c (xv_addr x))\<lparr>UpCounter := newValue\<rparr>
                         | Down \<Rightarrow> (tc_store c (xv_addr x))\<lparr>DownCounter := newValue\<rparr>))\<rparr>)"

definition xtc_Add :: "XrayTrafficCounter \<Rightarrow> int \<Rightarrow> TrafficCounter \<Rightarrow> int \<times> TrafficCounter" where
  "xtc_Add x delta c =
     (let c' = (case xv_dir x of Up \<Rightarrow> up_add (xv_addr x) delta c | Down \<Rightarrow> down_add (xv_addr x) delta c)
      in (xtc_Value x c', c'))"

text \<open>
  The invariant: every address in the map is allocated, different keys have different storages, and every
  counter fits its 64 bits.
\<close>

definition tc_inv :: "TrafficCounter \<Rightarrow> bool" where
  "tc_inv c \<longleftrightarrow> (\<forall>k a. tc_Counters c k = Some a \<longrightarrow> a < tc_next c)
     \<and> (\<forall>k k' a. tc_Counters c k = Some a \<longrightarrow> tc_Counters c k' = Some a \<longrightarrow> k = k')
     \<and> (\<forall>a. in_i64 (UpCounter (tc_store c a)) \<and> in_i64 (DownCounter (tc_store c a)))"

lemmas counter_defs = GetCounter_def GetUpCount_def GetDownCount_def Reset_def Delete_def
  up_add_def down_add_def Rx_def Tx_def zero_storage_def NewTrafficCounter_def

section \<open>The invariant\<close>

lemma in_i64_0 [simp]: "in_i64 0"
  by (simp add: in_i64_def)

lemma tc_inv_new: "tc_inv NewTrafficCounter"
  by (simp add: tc_inv_def NewTrafficCounter_def zero_storage_def)

lemma tc_inv_addr: "tc_inv c \<Longrightarrow> tc_Counters c k = Some a \<Longrightarrow> a < tc_next c"
  by (auto simp: tc_inv_def)

lemma tc_inv_inj: "tc_inv c \<Longrightarrow> tc_Counters c k = Some a \<Longrightarrow> tc_Counters c k' = Some a \<Longrightarrow> k = k'"
  by (auto simp: tc_inv_def)

lemma tc_inv_fresh:
  assumes "tc_inv c" and "tc_next c \<le> b"
    and c': "tc_Counters c' = (tc_Counters c)(k \<mapsto> b)" "tc_next c' = Suc b"
    and "\<forall>a. in_i64 (UpCounter (tc_store c' a)) \<and> in_i64 (DownCounter (tc_store c' a))"
  shows "tc_inv c'"
proof -
  have lt: "a < b" if "tc_Counters c k' = Some a" for k' a
    using tc_inv_addr [OF assms(1) that] assms(2) by simp
  have "k1 = k2" if "tc_Counters c' k1 = Some a" and "tc_Counters c' k2 = Some a" for k1 k2 a
    using that lt tc_inv_inj [OF assms(1), of k1 a k2] by (auto simp: c' split: if_splits)
  moreover have "a < tc_next c'" if "tc_Counters c' k' = Some a" for k' a
    using that lt by (fastforce simp: c' split: if_splits)
  ultimately show ?thesis using assms(5) by (simp add: tc_inv_def)
qed

lemma tc_inv_GetCounter:
  assumes inv: "tc_inv c" and get: "GetCounter race k c = (a, c')"
  shows "tc_inv c'"
proof (cases "tc_Counters c k")
  case (Some b)
  with inv get show ?thesis by (simp add: GetCounter_def)
next
  case None
  have "\<forall>x. in_i64 (UpCounter (tc_store c x)) \<and> in_i64 (DownCounter (tc_store c x))"
    using inv by (simp add: tc_inv_def)
  then show ?thesis
    using get None by (intro tc_inv_fresh [OF inv, of a c' k])
      (auto simp: GetCounter_def Let_def zero_storage_def split: if_splits)
qed

lemma tc_inv_up_add: "tc_inv c \<Longrightarrow> tc_inv (up_add a n c)"
  by (auto simp: tc_inv_def up_add_def i64_bounds)

lemma tc_inv_down_add: "tc_inv c \<Longrightarrow> tc_inv (down_add a n c)"
  by (auto simp: tc_inv_def down_add_def i64_bounds)

lemma tc_inv_Reset: "tc_inv c \<Longrightarrow> tc_inv (Reset k c)"
  by (auto simp: tc_inv_def Reset_def split: option.splits)

lemma tc_inv_Delete: "tc_inv c \<Longrightarrow> tc_inv (Delete k c)"
  by (auto simp: tc_inv_def Delete_def)

lemma tc_inv_Tx: "tc_inv c \<Longrightarrow> tc_inv (Tx race k n c)"
  by (auto simp: Tx_def tc_inv_up_add dest: tc_inv_GetCounter split: prod.splits)

lemma tc_inv_Rx: "tc_inv c \<Longrightarrow> tc_inv (Rx race k n c)"
  by (auto simp: Rx_def tc_inv_down_add dest: tc_inv_GetCounter split: prod.splits)

lemmas tc_inv_ops = tc_inv_new tc_inv_GetCounter tc_inv_up_add tc_inv_down_add tc_inv_Reset
  tc_inv_Delete tc_inv_Tx tc_inv_Rx

section \<open>Behaviour\<close>

lemma GetCounter_registers: "GetCounter race k c = (a, c') \<Longrightarrow> tc_Counters c' k = Some a"
  by (auto simp: GetCounter_def Let_def split: option.splits if_splits)

lemma GetCounter_keeps_counts:
  "tc_inv c \<Longrightarrow> GetCounter race k c = (a, c') \<Longrightarrow>
     GetUpCount k' c' = GetUpCount k' c \<and> GetDownCount k' c' = GetDownCount k' c"
  by (auto simp: GetCounter_def Let_def GetUpCount_def GetDownCount_def zero_storage_def
           split: option.splits if_splits dest: tc_inv_addr)

lemma up_add_counts:
  assumes "tc_inv c" and "tc_Counters c k = Some a"
  shows "GetUpCount k' (up_add a n c) = (if k' = k then i64 (GetUpCount k c + n) else GetUpCount k' c)"
    and "GetDownCount k' (up_add a n c) = GetDownCount k' c"
  using assms tc_inv_inj [OF assms(1)]
  by (auto simp: GetUpCount_def GetDownCount_def up_add_def split: option.splits)

lemma down_add_counts:
  assumes "tc_inv c" and "tc_Counters c k = Some a"
  shows "GetDownCount k' (down_add a n c) = (if k' = k then i64 (GetDownCount k c + n) else GetDownCount k' c)"
    and "GetUpCount k' (down_add a n c) = GetUpCount k' c"
  using assms tc_inv_inj [OF assms(1)]
  by (auto simp: GetUpCount_def GetDownCount_def down_add_def split: option.splits)

lemma Tx_counts:
  assumes "tc_inv c"
  shows "GetUpCount k' (Tx race k n c) = (if k' = k then i64 (GetUpCount k c + n) else GetUpCount k' c)"
    and "GetDownCount k' (Tx race k n c) = GetDownCount k' c"
proof -
  obtain a c' where g: "GetCounter race k c = (a, c')" by fastforce
  note facts = tc_inv_GetCounter [OF assms g] GetCounter_registers [OF g]
  show "GetUpCount k' (Tx race k n c) = (if k' = k then i64 (GetUpCount k c + n) else GetUpCount k' c)"
    and "GetDownCount k' (Tx race k n c) = GetDownCount k' c"
    using up_add_counts [OF facts] GetCounter_keeps_counts [OF assms g] g by (simp_all add: Tx_def)
qed

lemma Rx_counts:
  assumes "tc_inv c"
  shows "GetDownCount k' (Rx race k n c) = (if k' = k then i64 (GetDownCount k c + n) else GetDownCount k' c)"
    and "GetUpCount k' (Rx race k n c) = GetUpCount k' c"
proof -
  obtain a c' where g: "GetCounter race k c = (a, c')" by fastforce
  note facts = tc_inv_GetCounter [OF assms g] GetCounter_registers [OF g]
  show "GetDownCount k' (Rx race k n c) = (if k' = k then i64 (GetDownCount k c + n) else GetDownCount k' c)"
    and "GetUpCount k' (Rx race k n c) = GetUpCount k' c"
    using down_add_counts [OF facts] GetCounter_keeps_counts [OF assms g] g by (simp_all add: Rx_def)
qed

lemma range_fold_count:
  "range_fold (\<lambda>_ _ n. n + 1) ks m (n :: int) = n + int (length (filter (\<lambda>k. m k \<noteq> None) ks))"
  by (induction ks arbitrary: n) (auto split: option.splits)

lemma Len_card: "range_order order (tc_Counters c) \<Longrightarrow> Len order c = int (card (dom (tc_Counters c)))"
proof -
  assume r: "range_order order (tc_Counters c)"
  then have "filter (\<lambda>k. tc_Counters c k \<noteq> None) order = order"
    by (auto simp: range_order_def filter_id_conv)
  with r show ?thesis
    by (simp add: Len_def range_fold_count range_order_def distinct_card flip: dom_def)
       (metis distinct_card range_orderD(1) range_orderD(2) r)
qed

section \<open>Runs of transfers\<close>

text \<open>A run is a list of transfers of connections: the direction, the user key and the number of bytes.\<close>

fun transfer :: "direction \<times> string \<times> int \<Rightarrow> TrafficCounter \<Rightarrow> TrafficCounter" where
  "transfer (Up, k, n) c = Tx False k n c"
| "transfer (Down, k, n) c = Rx False k n c"

fun total_of :: "direction \<Rightarrow> string \<Rightarrow> (direction \<times> string \<times> int) list \<Rightarrow> int" where
  "total_of d k [] = 0"
| "total_of d k ((d', k', n) # ts) = (if d = d' \<and> k = k' then n else 0) + total_of d k ts"

lemma transfer_inv: "tc_inv c \<Longrightarrow> tc_inv (transfer t c)"
  by (cases t; cases "fst t") (auto simp: tc_inv_Tx tc_inv_Rx)

lemma transfers_count:
  assumes "tc_inv c"
  shows "GetUpCount k (fold transfer ts c) = i64 (GetUpCount k c + total_of Up k ts)
       \<and> GetDownCount k (fold transfer ts c) = i64 (GetDownCount k c + total_of Down k ts)"
  using assms
proof (induction ts arbitrary: c)
  case Nil
  have "in_i64 (GetUpCount k c)" and "in_i64 (GetDownCount k c)"
    using Nil by (auto simp: tc_inv_def GetUpCount_def GetDownCount_def split: option.splits)
  then show ?case by (simp add: i64_id)
next
  case (Cons t ts)
  obtain d k' n where t: "t = (d, k', n)" by (cases t)
  show ?case
    using Cons.IH [OF transfer_inv [OF Cons.prems, of t]] Cons.prems
    by (cases d) (auto simp: t Tx_counts Rx_counts add.assoc)
qed

end
