(* ===== verification/V2Core.thy ===== *)
theory V2Core
  imports Inbound Runners Fronts Traffic_Counter
begin

text \<open>
  The core (\<open>core/core.go\<close>, \<open>core/node.go\<close>, \<open>core/user.go\<close>, the inbound registration of \<open>core/inbound.go\<close>): one state with the inbound
  handlers of Xray, the managers of the native protocols, the two fronts, the map from user keys to user
  ids, and the per-node state of the dispatcher. The inbound manager is that of the vendored xray-core
  (\<open>app/proxyman/inbound/inbound.go\<close>): a handler is registered before it is started. What Xray makes of an
  inbound configuration is an argument (\<open>ce_build\<close>), as are the user manager of a handler, the file
  system's answers and the libraries of the runners and of the inbound builder.
\<close>

section \<open>State\<close>

record 'u handler =
  hn_addr :: string
  hn_running :: bool
  hn_users :: "'u option"

record 'u V2Core =
  vc_Config :: "Conf option"
  vc_uidMap :: "string \<rightharpoonup> int"
  vc_ihm :: "string \<rightharpoonup> 'u handler"
  vc_untagged :: "'u handler list"
  vc_dispatcher :: bool
  vc_Counter :: "string \<rightharpoonup> TrafficCounter"
  vc_engines :: "string set"
  vc_nodeConfigs :: "string set"
  vc_routers :: "string \<rightharpoonup> Router"
  vc_singbox :: singbox_Manager
  vc_mieru :: "mieru_Runner Manager"
  vc_sudoku :: "sudoku_Runner Manager"
  vc_snell :: "snell_Runner Manager"
  vc_ssaead :: "ssaead_Runner Manager"
  vc_ssr :: "ssr_Runner Manager"
  vc_trojanss :: "trojanss_Runner Manager"
  vc_obfs :: obfs_Manager
  vc_net :: net
  vc_files :: files

text \<open>
  What \<open>in.Build()\<close> and \<open>core.CreateObject\<close> yield for an inbound configuration: the fresh user manager (if the proxy has one)
  and the error of creating the object. Datagram protocols listen on an address of their own kind.
\<close>

record 'u built =
  bt_users :: "'u option"
  bt_create :: "goerror option"

definition inbound_addr :: "InboundDetour \<Rightarrow> string" where
  "inbound_addr d = (if id_Protocol d = ''hysteria'' \<or> id_Protocol d = ''tuic'' then ''udp:'' else []) @ JoinHostPort (id_ListenOn d) (id_Port d)"

record 'u core_env =
  ce_lib :: runner_lib
  ce_json :: json_codec
  ce_ops :: "'u user_ops"
  ce_stat :: "string \<Rightarrow> (bool \<times> nat) option"
  ce_mkdir :: "string \<Rightarrow> goerror option"
  ce_write :: "string \<Rightarrow> goerror option"
  ce_alloc :: "net \<Rightarrow> goerror + int"
  ce_inbound :: inbound_lib
  ce_order :: "string list"
  ce_build :: "InboundDetour \<Rightarrow> 'u built outcome"

definition core_New :: "Conf \<Rightarrow> net \<Rightarrow> files \<Rightarrow> 'u V2Core" where
  "core_New config w fs =
     \<lparr>vc_Config = Some config, vc_uidMap = Map.empty, vc_ihm = Map.empty, vc_untagged = [], vc_dispatcher = False,
      vc_Counter = Map.empty, vc_engines = {}, vc_nodeConfigs = {}, vc_routers = Map.empty,
      vc_singbox = singbox_NewManager (EffectiveSingBoxPath (cf_Global config)) (EffectiveSingBoxDir (cf_Global config)),
      vc_mieru = mgr_New, vc_sudoku = mgr_New, vc_snell = mgr_New, vc_ssaead = mgr_New, vc_ssr = mgr_New, vc_trojanss = mgr_New,
      vc_obfs = obfs_NewManager, vc_net = w, vc_files = fs\<rparr>"

text \<open>\<open>Start\<close>: \<open>server\<close> is the result of starting the Xray instance.\<close>

definition core_Start :: "goerror option \<Rightarrow> 'u V2Core \<Rightarrow> goerror option \<times> 'u V2Core" where
  "core_Start server v =
     (case server of
        Some e \<Rightarrow> (Some e, v)
      | None \<Rightarrow> (None, v\<lparr>vc_dispatcher := True, vc_mieru := mgr_SetDispatcher True (vc_mieru v),
           vc_sudoku := mgr_SetDispatcher True (vc_sudoku v), vc_snell := mgr_SetDispatcher True (vc_snell v),
           vc_ssaead := mgr_SetDispatcher True (vc_ssaead v), vc_ssr := mgr_SetDispatcher True (vc_ssr v),
           vc_trojanss := mgr_SetDispatcher True (vc_trojanss v)\<rparr>))"

text \<open>The connection policy: the lean defaults, each replaced by a positive configured value, converted to 32 bits.\<close>

definition policy_value :: "int option \<Rightarrow> int \<Rightarrow> int" where
  "policy_value x d = (case x of Some n \<Rightarrow> (if 0 < n then n else d) | None \<Rightarrow> d)"

definition level_policy :: "PolicyConfig option \<Rightarrow> int \<times> int \<times> int" where
  "level_policy p =
     (case p of
        None \<Rightarrow> (10, 60, 4)
      | Some c \<Rightarrow> (policy_value (pc_Handshake c) 10 mod 2 ^ 32, policy_value (pc_ConnIdle c) 60 mod 2 ^ 32,
                  signed_take_bit 31 (policy_value (pc_BufferSize c) 4)))"

section \<open>Inbounds\<close>

definition AddHandler :: "(string \<Rightarrow> goerror option) \<Rightarrow> string \<Rightarrow> 'u handler \<Rightarrow> 'u V2Core \<Rightarrow> goerror option \<times> 'u V2Core" where
  "AddHandler refuse tag h v =
     (if tag \<noteq> [] \<and> vc_ihm v tag \<noteq> None then (Some (''existing tag found: '' @ tag), v)
      else
        (let started = net_Listen refuse (hn_addr h) (vc_net v);
             h' = h\<lparr>hn_running := (case started of Inl e \<Rightarrow> False | Inr w \<Rightarrow> True)\<rparr>;
             v' = (if tag = [] then v\<lparr>vc_untagged := vc_untagged v @ [h']\<rparr> else v\<lparr>vc_ihm := (vc_ihm v)(tag \<mapsto> h')\<rparr>)
         in case started of Inl e \<Rightarrow> (Some e, v') | Inr w \<Rightarrow> (None, v'\<lparr>vc_net := w\<rparr>)))"

definition handler_release :: "'u handler \<Rightarrow> net \<Rightarrow> net" where
  "handler_release h w = (if hn_running h then w - {hn_addr h} else w)"

definition RemoveHandler :: "string \<Rightarrow> 'u V2Core \<Rightarrow> goerror option \<times> 'u V2Core" where
  "RemoveHandler tag v =
     (if tag = [] then (Some ''not enough information for making a decision'', v)
      else (case vc_ihm v tag of
              Some h \<Rightarrow> (None, v\<lparr>vc_ihm := (vc_ihm v)(tag := None), vc_net := handler_release h (vc_net v)\<rparr>)
            | None \<Rightarrow> (Some ''not enough information for making a decision'', v)))"

definition removeInbound :: "string \<Rightarrow> 'u V2Core \<Rightarrow> goerror option \<times> 'u V2Core" where
  "removeInbound tag v = RemoveHandler tag v"

definition addInbound :: "'u core_env \<Rightarrow> InboundDetour \<Rightarrow> 'u built \<Rightarrow> 'u V2Core \<Rightarrow> goerror option \<times> 'u V2Core" where
  "addInbound E d b v =
     (case bt_create b of
        Some e \<Rightarrow> (Some e, v)
      | None \<Rightarrow> AddHandler (rl_refuse (ce_lib E)) (id_Tag d) \<lparr>hn_addr = inbound_addr d, hn_running = False, hn_users = bt_users b\<rparr> v)"

definition cleanupNodeState :: "string \<Rightarrow> 'u V2Core \<Rightarrow> 'u V2Core" where
  "cleanupNodeState tag v =
     (let v1 = (case vc_routers v tag of
                  None \<Rightarrow> v
                | Some r \<Rightarrow> v\<lparr>vc_routers := (vc_routers v)(tag := None), vc_net := vc_net v - {router_Addr r}\<rparr>);
          v2 = (if vc_dispatcher v1 then v1\<lparr>vc_Counter := (vc_Counter v1)(tag := None), vc_engines := vc_engines v1 - {tag}\<rparr> else v1)
      in v2\<lparr>vc_nodeConfigs := vc_nodeConfigs v2 - {tag}\<rparr>)"

text \<open>The part of the state an inbound build may change.\<close>

definition node_state_of :: "'u V2Core \<Rightarrow> node_state" where
  "node_state_of v = \<lparr>nd_routers = vc_routers v, nd_configs = vc_nodeConfigs v, nd_net = vc_net v\<rparr>"

definition set_node_state :: "node_state \<Rightarrow> 'u V2Core \<Rightarrow> 'u V2Core" where
  "set_node_state s v = v\<lparr>vc_routers := nd_routers s, vc_nodeConfigs := nd_configs s, vc_net := nd_net s\<rparr>"

section \<open>Nodes\<close>

definition is_ssaead_node :: "NodeInfo \<Rightarrow> bool" where
  "is_ssaead_node info \<longleftrightarrow> ni_Type info = ''shadowsocks'' \<and> IsExtendedCipher (cn_Cipher (common_of info))"

definition is_trojanss_node :: "runner_lib \<Rightarrow> NodeInfo \<Rightarrow> bool" where
  "is_trojanss_node L info \<longleftrightarrow> ni_Type info = ''trojan'' \<and> trojanss_Enabled L (cn_NetworkSettings (common_of info))"

definition is_shadowtls_node :: "json_codec \<Rightarrow> NodeInfo \<Rightarrow> bool" where
  "is_shadowtls_node J info \<longleftrightarrow> ni_Type info = ''shadowsocks'' \<and> ShadowTLSEnabled J (common_of info)"

definition is_obfs_node :: "json_codec \<Rightarrow> NodeInfo \<Rightarrow> bool" where
  "is_obfs_node J info \<longleftrightarrow> ni_Type info = ''shadowsocks'' \<and> \<not> is_shadowtls_node J info \<and> SimpleObfsEnabled J (common_of info)"

text \<open>Giving back the loopback port of a node that could not be set up.\<close>

definition release_front :: "json_codec \<Rightarrow> NodeInfo \<Rightarrow> string \<Rightarrow> 'u V2Core \<Rightarrow> 'u V2Core" where
  "release_front J info tag v =
     (if is_shadowtls_node J info then v\<lparr>vc_singbox := singbox_Release tag (vc_singbox v)\<rparr>
      else if is_obfs_node J info then v\<lparr>vc_obfs := obfs_Release tag (vc_obfs v)\<rparr>
      else v)"

definition start_front :: "'u core_env \<Rightarrow> NodeInfo \<Rightarrow> string \<Rightarrow> int \<Rightarrow> 'u V2Core \<Rightarrow> goerror option \<times> 'u V2Core" where
  "start_front E info tag port v =
     (let J = ce_json E; cm = common_of info in
      if is_shadowtls_node J info then
        (case singbox_StartOrReload (ce_stat E) (ce_mkdir E) (ce_write E) (ConfigFromNode J tag cm port) (vc_singbox v) (vc_files v) of
           (e, sb, fs) \<Rightarrow> (map_option (\<lambda>x. ''start sing-box front for '' @ tag @ '': '' @ x) e, v\<lparr>vc_singbox := sb, vc_files := fs\<rparr>))
      else if is_obfs_node J info then
        (case obfs_Start (rl_refuse (ce_lib E)) tag (cn_ListenIP cm) (cn_ServerPort cm) port (SimpleObfsMode J cm) (SimpleObfsHost J cm)
                (vc_obfs v) (vc_net v) of
           (e, ob, w) \<Rightarrow> (map_option (\<lambda>x. ''start obfs-tls front for '' @ tag @ '': '' @ x) e, v\<lparr>vc_obfs := ob, vc_net := w\<rparr>))
      else (None, v))"

text \<open>Reserving the loopback port: the port (0 without a front), or the error of \<open>AddNode\<close>.\<close>

definition alloc_front :: "'u core_env \<Rightarrow> NodeInfo \<Rightarrow> string \<Rightarrow> 'u V2Core \<Rightarrow> (goerror + int) \<times> 'u V2Core" where
  "alloc_front E info tag v =
     (let J = ce_json E; wrap = (\<lambda>e. ''alloc loopback port for '' @ tag @ '': '' @ e) in
      if is_shadowtls_node J info then
        (if \<not> singbox_Available (ce_stat E) (vc_singbox v)
         then (Inl (''shadow-tls requested for '' @ tag @ '' but sing-box binary unavailable''), v)
         else (case singbox_AllocPort (ce_alloc E (vc_net v)) tag (vc_singbox v) of
                 (Inl e, sb) \<Rightarrow> (Inl (wrap e), v\<lparr>vc_singbox := sb\<rparr>) | (Inr p, sb) \<Rightarrow> (Inr p, v\<lparr>vc_singbox := sb\<rparr>)))
      else if is_obfs_node J info then
        (case obfs_AllocPort (ce_alloc E (vc_net v)) tag (vc_obfs v) of
           (Inl e, ob) \<Rightarrow> (Inl (wrap e), v\<lparr>vc_obfs := ob\<rparr>) | (Inr p, ob) \<Rightarrow> (Inr p, v\<lparr>vc_obfs := ob\<rparr>))
      else (Inr 0, v))"

text \<open>The part of \<open>AddNode\<close> for nodes that are Xray inbounds. A panic while the inbound is built becomes an error.\<close>

definition add_xray_node :: "'u core_env \<Rightarrow> string \<Rightarrow> NodeInfo \<Rightarrow> bool \<Rightarrow> 'u V2Core \<Rightarrow> goerror option \<times> 'u V2Core" where
  "add_xray_node E tag info disableSniffing v =
     (case alloc_front E info tag v of
        (Inl e, v1) \<Rightarrow> (Some e, v1)
      | (Inr port, v1) \<Rightarrow>
          (let listen = (if is_shadowtls_node (ce_json E) info \<or> is_obfs_node (ce_json E) info then ''127.0.0.1'' else []);
               (res, s) = buildInbound (ce_inbound E) (ce_json E) (ce_order E) info tag disableSniffing listen port (node_state_of v1);
               v2 = set_node_state s v1
           in case obind res (\<lambda>d. obind (ce_build E d) (\<lambda>b. Return (d, b))) of
                Panic p \<Rightarrow> (Some (''build inbound for '' @ tag @ '' panicked: '' @ p), v2)
              | Error e \<Rightarrow> (Some (''build inbound error: '' @ e), release_front (ce_json E) info tag v2)
              | Return (d, b) \<Rightarrow>
                  (case addInbound E d b v2 of
                     (Some e, v3) \<Rightarrow> (Some (''add inbound error: '' @ e), release_front (ce_json E) info tag v3)
                   | (None, v3) \<Rightarrow>
                       (case start_front E info tag port v3 of
                          (Some e, v4) \<Rightarrow> (Some e, release_front (ce_json E) info tag (snd (removeInbound tag v4)))
                        | (None, v4) \<Rightarrow> (None, v4)))))"

definition AddNode :: "'u core_env \<Rightarrow> string \<Rightarrow> NodeInfo \<Rightarrow> bool \<Rightarrow> 'u V2Core \<Rightarrow> goerror option \<times> 'u V2Core" where
  "AddNode E tag info disableSniffing v =
     (let L = ce_lib E in
      if ni_Type info = ''mieru'' then
        (case mgr_Add ''mieru'' mieru_NewRunner tag info (vc_mieru v) of (e, m) \<Rightarrow> (e, v\<lparr>vc_mieru := m\<rparr>))
      else if ni_Type info = ''sudoku'' then
        (case mgr_Add ''sudoku'' sudoku_NewRunner tag info (vc_sudoku v) of (e, m) \<Rightarrow> (e, v\<lparr>vc_sudoku := m\<rparr>))
      else if ni_Type info = ''snell'' then
        (case mgr_Add ''snell'' snell_NewRunner tag info (vc_snell v) of (e, m) \<Rightarrow> (e, v\<lparr>vc_snell := m\<rparr>))
      else if ni_Type info \<in> {''shadowsocks'', ''trojan''} \<and> ni_Common info = None then
        (Some (''build inbound for '' @ tag @ '' panicked: invalid memory address or nil pointer dereference''), v)
      else if is_ssaead_node info then
        (case mgr_Add ''ssaead'' ssaead_NewRunner tag info (vc_ssaead v) of (e, m) \<Rightarrow> (e, v\<lparr>vc_ssaead := m\<rparr>))
      else if ni_Type info = ''shadowsocksr'' then
        (case mgr_Add ''ssr'' ssr_NewRunner tag info (vc_ssr v) of (e, m) \<Rightarrow> (e, v\<lparr>vc_ssr := m\<rparr>))
      else if is_trojanss_node L info then
        (case mgr_Add ''trojanss'' trojanss_NewRunner tag info (vc_trojanss v) of (e, m) \<Rightarrow> (e, v\<lparr>vc_trojanss := m\<rparr>))
      else add_xray_node E tag info disableSniffing v)"

definition DelNode :: "string \<Rightarrow> 'u V2Core \<Rightarrow> goerror option \<times> 'u V2Core" where
  "DelNode tag v0 =
     (let v = cleanupNodeState tag v0 in
      if mgr_Has tag (vc_mieru v) then
        (case mgr_Del mieru_Close tag (vc_mieru v) (vc_net v) of (m, w) \<Rightarrow> (None, v\<lparr>vc_mieru := m, vc_net := w\<rparr>))
      else if mgr_Has tag (vc_sudoku v) then
        (case mgr_Del sudoku_Close tag (vc_sudoku v) (vc_net v) of (m, w) \<Rightarrow> (None, v\<lparr>vc_sudoku := m, vc_net := w\<rparr>))
      else if mgr_Has tag (vc_snell v) then
        (case mgr_Del snell_Close tag (vc_snell v) (vc_net v) of (m, w) \<Rightarrow> (None, v\<lparr>vc_snell := m, vc_net := w\<rparr>))
      else if mgr_Has tag (vc_ssaead v) then
        (case mgr_Del ssaead_Close tag (vc_ssaead v) (vc_net v) of (m, w) \<Rightarrow> (None, v\<lparr>vc_ssaead := m, vc_net := w\<rparr>))
      else if mgr_Has tag (vc_ssr v) then
        (case mgr_Del ssr_Close tag (vc_ssr v) (vc_net v) of (m, w) \<Rightarrow> (None, v\<lparr>vc_ssr := m, vc_net := w\<rparr>))
      else if mgr_Has tag (vc_trojanss v) then
        (case mgr_Del trojanss_Close tag (vc_trojanss v) (vc_net v) of (m, w) \<Rightarrow> (None, v\<lparr>vc_trojanss := m, vc_net := w\<rparr>))
      else
        (case singbox_Stop tag (vc_singbox v) (vc_files v) of
           (sb, fs) \<Rightarrow>
             (case obfs_Stop tag (vc_obfs v) (vc_net v) of
                (ob, w) \<Rightarrow>
                  (case removeInbound tag (v\<lparr>vc_singbox := sb, vc_files := fs, vc_obfs := ob, vc_net := w\<rparr>) of
                     (Some e, v') \<Rightarrow> (Some (''remove in error: '' @ e), v')
                   | (None, v') \<Rightarrow> (None, v')))))"

text \<open>\<open>Close\<close>: \<open>ord\<close> gives the order in which each manager's runners are visited.\<close>

definition core_Close :: "(string \<Rightarrow> string list) \<Rightarrow> 'u V2Core \<Rightarrow> 'u V2Core" where
  "core_Close ord v =
     (case singbox_StopAll (ord ''singbox'') (vc_singbox v) (vc_files v) of (sb, fs) \<Rightarrow>
      case mgr_CloseAll mieru_Close (ord ''mieru'') (vc_mieru v) (vc_net v) of (mi, w1) \<Rightarrow>
      case mgr_CloseAll sudoku_Close (ord ''sudoku'') (vc_sudoku v) w1 of (sk, w2) \<Rightarrow>
      case mgr_CloseAll snell_Close (ord ''snell'') (vc_snell v) w2 of (sn, w3) \<Rightarrow>
      case mgr_CloseAll ssaead_Close (ord ''ssaead'') (vc_ssaead v) w3 of (sa, w4) \<Rightarrow>
      case mgr_CloseAll ssr_Close (ord ''ssr'') (vc_ssr v) w4 of (sr, w5) \<Rightarrow>
      case mgr_CloseAll trojanss_Close (ord ''trojanss'') (vc_trojanss v) w5 of (tj, w6) \<Rightarrow>
      case obfs_StopAll (ord ''obfs'') (vc_obfs v) w6 of (ob, w7) \<Rightarrow>
        v\<lparr>vc_Config := None, vc_dispatcher := False, vc_singbox := sb, vc_files := fs, vc_mieru := mi, vc_sudoku := sk,
          vc_snell := sn, vc_ssaead := sa, vc_ssr := sr, vc_trojanss := tj, vc_obfs := ob, vc_ihm := Map.empty, vc_untagged := [],
          vc_net := fold (\<lambda>h w. handler_release h w) (vc_untagged v)
                      (range_fold (\<lambda>t h w. handler_release h w) (ord ''inbound'') (vc_ihm v) w7)\<rparr>)"

section \<open>Users\<close>

definition GetUserManager :: "string \<Rightarrow> 'u V2Core \<Rightarrow> goerror + 'u handler \<times> 'u" where
  "GetUserManager tag v =
     (case vc_ihm v tag of
        None \<Rightarrow> Inl (''no such inbound tag: handler not found: '' @ tag)
      | Some h \<Rightarrow>
          (case hn_users h of
             None \<Rightarrow> Inl (''handler '' @ tag @ '' is not implement proxy.UserManager'')
           | Some um \<Rightarrow> Inr (h, um)))"

definition GetUserUUIDs :: "string \<Rightarrow> 'u V2Core \<Rightarrow> string set" where
  "GetUserUUIDs tag v = {uuid. \<exists>email \<in> dom (vc_uidMap v). CutPrefix email (UserTag tag []) = Some uuid}"

text \<open>Dropping a user's entries in the id map and in the counter of its node.\<close>

definition drop_user :: "string \<Rightarrow> UserInfo \<Rightarrow> 'u V2Core \<Rightarrow> 'u V2Core" where
  "drop_user tag u v =
     (let email = UserTag tag (ui_Uuid u);
          v1 = v\<lparr>vc_uidMap := (vc_uidMap v)(email := None)\<rparr>
      in case vc_Counter v1 tag of
           None \<Rightarrow> v1
         | Some c \<Rightarrow> v1\<lparr>vc_Counter := (vc_Counter v1)(tag \<mapsto> Delete email c)\<rparr>)"

definition set_users :: "string \<Rightarrow> 'u handler \<Rightarrow> 'u \<Rightarrow> 'u V2Core \<Rightarrow> 'u V2Core" where
  "set_users tag h um v = v\<lparr>vc_ihm := (vc_ihm v)(tag \<mapsto> h\<lparr>hn_users := Some um\<rparr>)\<rparr>"

definition core_DelUsers :: "'u core_env \<Rightarrow> UserInfo list \<Rightarrow> string \<Rightarrow> 'u V2Core \<Rightarrow> goerror option \<times> 'u V2Core" where
  "core_DelUsers E users tag v =
     (let uuids = map ui_Uuid users; v' = fold (drop_user tag) users v; L = ce_lib E in
      if mgr_Has tag (vc_mieru v) then (None, v'\<lparr>vc_mieru := mgr_DelUsers mieru_DelUsers tag uuids (vc_mieru v')\<rparr>)
      else if mgr_Has tag (vc_sudoku v) then (None, v'\<lparr>vc_sudoku := mgr_DelUsers sudoku_DelUsers tag uuids (vc_sudoku v')\<rparr>)
      else if mgr_Has tag (vc_snell v) then (None, v'\<lparr>vc_snell := mgr_DelUsers (snell_DelUsers L) tag uuids (vc_snell v')\<rparr>)
      else if mgr_Has tag (vc_ssaead v) then (None, v'\<lparr>vc_ssaead := mgr_DelUsers (ssaead_DelUsers L) tag uuids (vc_ssaead v')\<rparr>)
      else if mgr_Has tag (vc_ssr v) then (None, v'\<lparr>vc_ssr := mgr_DelUsers ssr_DelUsers tag uuids (vc_ssr v')\<rparr>)
      else if mgr_Has tag (vc_trojanss v) then (None, v'\<lparr>vc_trojanss := mgr_DelUsers trojanss_DelUsers tag uuids (vc_trojanss v')\<rparr>)
      else (case GetUserManager tag v of
              Inl e \<Rightarrow> (Some (''get user manager error: '' @ e), v)
            | Inr (h, um) \<Rightarrow>
                (None, set_users tag h (fold (\<lambda>e m. snd (uo_RemoveUser (ce_ops E) e m)) (map (\<lambda>u. UserTag tag (ui_Uuid u)) users) um) v')))"

text \<open>
  One entry of the iteration of \<open>GetUserTrafficSlice\<close>: the storage is swapped to zero, an entry without a user id is
  removed, and the traffic is reported if it is above the threshold.
\<close>

definition traffic_entry ::
  "(string \<rightharpoonup> int) \<Rightarrow> int \<Rightarrow> string \<Rightarrow> nat \<Rightarrow> UserTraffic list \<times> TrafficCounter \<Rightarrow> UserTraffic list \<times> TrafficCounter" where
  "traffic_entry uidMap mintraffic email a st =
     (case st of (sl, c) \<Rightarrow>
        (let up = UpCounter (tc_store c a); down = DownCounter (tc_store c a);
             c1 = c\<lparr>tc_store := (tc_store c)(a := zero_storage)\<rparr>
         in case uidMap email of
              None \<Rightarrow> (sl, Delete email c1)
            | Some uid \<Rightarrow>
                if uid = 0 then (sl, Delete email c1)
                else if i64 (mintraffic * 1000) < i64 (up + down)
                then (sl @ [\<lparr>ut_UID = uid, ut_Upload = up, ut_Download = down\<rparr>], c1)
                else (sl, c1)))"

definition GetUserTrafficSlice :: "string list \<Rightarrow> string \<Rightarrow> int \<Rightarrow> 'u V2Core \<Rightarrow> UserTraffic list \<times> 'u V2Core" where
  "GetUserTrafficSlice order tag mintraffic v =
     (case vc_Counter v tag of
        None \<Rightarrow> ([], v)
      | Some c \<Rightarrow>
          (case range_fold (traffic_entry (vc_uidMap v) mintraffic) order (tc_Counters c) ([], c) of
             (sl, c') \<Rightarrow> (sl, v\<lparr>vc_Counter := (vc_Counter v)(tag \<mapsto> c')\<rparr>)))"

definition AddBackTraffic :: "string list \<Rightarrow> string \<Rightarrow> UserTraffic list \<Rightarrow> 'u V2Core \<Rightarrow> 'u V2Core" where
  "AddBackTraffic order tag traffic v =
     (case vc_Counter v tag of
        None \<Rightarrow> v
      | Some c \<Rightarrow>
          (let uidToEmail = range_fold (\<lambda>email uid m. m(uid \<mapsto> email)) order (vc_uidMap v) Map.empty;
               back = (\<lambda>t c. case uidToEmail (ut_UID t) of
                               None \<Rightarrow> c
                             | Some email \<Rightarrow>
                                 (case GetCounter False email c of
                                    (a, c1) \<Rightarrow> down_add a (ut_Download t) (up_add a (ut_Upload t) c1)))
           in v\<lparr>vc_Counter := (vc_Counter v)(tag \<mapsto> fold back traffic c)\<rparr>))"

text \<open>
  \<open>AddUsers\<close>. A native manager adds all or reports its error; the Xray path adds one user after the other, skips the
  ones that fail, and returns how many were added.
\<close>

definition store_uids :: "string \<Rightarrow> UserInfo list \<Rightarrow> 'u V2Core \<Rightarrow> 'u V2Core" where
  "store_uids tag users v = v\<lparr>vc_uidMap := fold (\<lambda>u m. m(UserTag tag (ui_Uuid u) \<mapsto> ui_Id u)) users (vc_uidMap v)\<rparr>"

definition native_result :: "UserInfo list \<Rightarrow> goerror option \<Rightarrow> nat outcome" where
  "native_result users e = (case e of Some err \<Rightarrow> Error err | None \<Rightarrow> Return (length users))"

definition add_xray_users :: "'u core_env \<Rightarrow> string \<Rightarrow> NodeInfo \<Rightarrow> UserInfo list \<Rightarrow> 'u V2Core \<Rightarrow> nat outcome \<times> 'u V2Core" where
  "add_xray_users E tag info users v =
     (case build_users tag info users of
        Panic p \<Rightarrow> (Panic p, v)
      | Error e \<Rightarrow> (Error e, v)
      | Return xs \<Rightarrow>
          (case GetUserManager tag v of
             Inl e \<Rightarrow> (Error (''get user manager error: '' @ e), v)
           | Inr (h, um) \<Rightarrow> (case xray_add_all (ce_ops E) xs um of (n, um') \<Rightarrow> (Return n, set_users tag h um' v))))"

definition core_AddUsers :: "'u core_env \<Rightarrow> string \<Rightarrow> NodeInfo \<Rightarrow> UserInfo list \<Rightarrow> 'u V2Core \<Rightarrow> nat outcome \<times> 'u V2Core" where
  "core_AddUsers E tag info users v0 =
     (let v = store_uids tag users v0; L = ce_lib E in
      if ni_Type info = ''mieru'' then
        (case mgr_AddUsers (mieru_AddUsers L) tag users (vc_mieru v) (vc_net v) of
           (e, m, w) \<Rightarrow> (native_result users e, v\<lparr>vc_mieru := m, vc_net := w\<rparr>))
      else if ni_Type info = ''sudoku'' then
        (case mgr_AddUsers (sudoku_AddUsers L) tag users (vc_sudoku v) (vc_net v) of
           (e, m, w) \<Rightarrow> (native_result users e, v\<lparr>vc_sudoku := m, vc_net := w\<rparr>))
      else if ni_Type info = ''snell'' then
        (case mgr_AddUsers (snell_AddUsers L) tag users (vc_snell v) (vc_net v) of
           (e, m, w) \<Rightarrow> (native_result users e, v\<lparr>vc_snell := m, vc_net := w\<rparr>))
      else if mgr_Has tag (vc_ssaead v) then
        (case mgr_AddUsers (ssaead_AddUsers L) tag users (vc_ssaead v) (vc_net v) of
           (e, m, w) \<Rightarrow> (native_result users e, v\<lparr>vc_ssaead := m, vc_net := w\<rparr>))
      else if ni_Type info = ''shadowsocksr'' then
        (case mgr_AddUsers (ssr_AddUsers L) tag users (vc_ssr v) (vc_net v) of
           (e, m, w) \<Rightarrow> (native_result users e, v\<lparr>vc_ssr := m, vc_net := w\<rparr>))
      else if mgr_Has tag (vc_trojanss v) then
        (case mgr_AddUsers (trojanss_AddUsers L) tag users (vc_trojanss v) (vc_net v) of
           (e, m, w) \<Rightarrow> (native_result users e, v\<lparr>vc_trojanss := m, vc_net := w\<rparr>))
      else add_xray_users E tag info users v)"

end
