(* ===== verification/V2Core_Props.thy ===== *)
theory V2Core_Props
  imports V2Core Runner_Props Inbound_Props
begin

text \<open>
  What the core does with users, traffic and nodes: the record of users against the users the proxies really have, the
  traffic report against the counters, and the setting up and tearing down of a node.
\<close>

section \<open>The record of users\<close>

lemma fold_uid_at:
  "fold (\<lambda>u m. m(UserTag tag (ui_Uuid u) \<mapsto> ui_Id u)) us m e \<noteq> None \<longleftrightarrow> m e \<noteq> None \<or> (\<exists>u\<in>set us. e = UserTag tag (ui_Uuid u))"
  by (induction us arbitrary: m) auto

lemma core_AddUsers_uidMap:
  "vc_uidMap (snd (core_AddUsers E tag info us v)) = fold (\<lambda>u m. m(UserTag tag (ui_Uuid u) \<mapsto> ui_Id u)) us (vc_uidMap v)"
  by (simp add: core_AddUsers_def add_xray_users_def store_uids_def set_users_def Let_def split: prod.splits outcome.split sum.split)

lemma drop_user_eqs:
  "vc_uidMap (drop_user tag u v) = (vc_uidMap v)(UserTag tag (ui_Uuid u) := None)"
  "vc_ihm (drop_user tag u v) = vc_ihm v" "vc_net (drop_user tag u v) = vc_net v"
  "vc_mieru (drop_user tag u v) = vc_mieru v" "vc_sudoku (drop_user tag u v) = vc_sudoku v" "vc_snell (drop_user tag u v) = vc_snell v"
  "vc_ssaead (drop_user tag u v) = vc_ssaead v" "vc_ssr (drop_user tag u v) = vc_ssr v" "vc_trojanss (drop_user tag u v) = vc_trojanss v"
  by (simp_all add: drop_user_def Let_def split: option.split)

lemma fold_drop_user_eqs:
  "vc_uidMap (fold (drop_user tag) us v) = fold (\<lambda>u m. m(UserTag tag (ui_Uuid u) := None)) us (vc_uidMap v)"
  "vc_ihm (fold (drop_user tag) us v) = vc_ihm v"
  by (induction us arbitrary: v) (simp_all add: drop_user_eqs)

lemma fold_uid_drop:
  "fold (\<lambda>u m. m(UserTag tag (ui_Uuid u) := None)) us m e = (if \<exists>u\<in>set us. e = UserTag tag (ui_Uuid u) then None else m e)"
  by (induction us arbitrary: m) auto

lemma core_DelUsers_uidMap:
  "fst (core_DelUsers E us tag v) = None \<Longrightarrow>
     vc_uidMap (snd (core_DelUsers E us tag v)) = fold (\<lambda>u m. m(UserTag tag (ui_Uuid u) := None)) us (vc_uidMap v)"
  by (auto simp: core_DelUsers_def set_users_def Let_def fold_drop_user_eqs split: sum.splits prod.splits if_splits)

lemma GetUserUUIDs_iff: "uuid \<in> GetUserUUIDs tag v \<longleftrightarrow> vc_uidMap v (UserTag tag uuid) \<noteq> None"
  by (auto simp: GetUserUUIDs_def CutPrefix_UserTag domIff)

text \<open>
  The set of users the core reports for a node follows the calls and not their success: after \<open>AddUsers\<close> it is what it
  was together with all users of the call, also when the call returned an error or panicked; after a
  successful \<open>DelUsers\<close> it is what it was without the users of the call. The sets of other nodes whose tags differ before
  the separator do not change.
\<close>

theorem user_record_follows_calls:
  "GetUserUUIDs tag (snd (core_AddUsers E tag info us v)) = GetUserUUIDs tag v \<union> ui_Uuid ` set us
   \<and> (fst (core_DelUsers E us tag v) = None \<longrightarrow> GetUserUUIDs tag (snd (core_DelUsers E us tag v)) = GetUserUUIDs tag v - ui_Uuid ` set us)
   \<and> (CHR ''|'' \<notin> set tag \<and> CHR ''|'' \<notin> set tag' \<and> tag \<noteq> tag' \<longrightarrow>
        GetUserUUIDs tag' (snd (core_AddUsers E tag info us v)) = GetUserUUIDs tag' v)"
proof (intro conjI impI)
  show "GetUserUUIDs tag (snd (core_AddUsers E tag info us v)) = GetUserUUIDs tag v \<union> ui_Uuid ` set us"
    by (rule set_eqI) (simp only: GetUserUUIDs_iff core_AddUsers_uidMap fold_uid_at Un_iff UserTag_inj image_iff)
next
  assume "fst (core_DelUsers E us tag v) = None"
  then show "GetUserUUIDs tag (snd (core_DelUsers E us tag v)) = GetUserUUIDs tag v - ui_Uuid ` set us"
    by (intro set_eqI) (auto simp: GetUserUUIDs_iff core_DelUsers_uidMap fold_uid_drop split: if_splits)
next
  assume sep: "CHR ''|'' \<notin> set tag \<and> CHR ''|'' \<notin> set tag' \<and> tag \<noteq> tag'"
  show "GetUserUUIDs tag' (snd (core_AddUsers E tag info us v)) = GetUserUUIDs tag' v"
  proof (rule set_eqI)
    fix uuid
    have "UserTag tag' uuid \<noteq> UserTag tag u" for u using sep by (auto simp: UserTag_eq_iff)
    then show "uuid \<in> GetUserUUIDs tag' (snd (core_AddUsers E tag info us v)) \<longleftrightarrow> uuid \<in> GetUserUUIDs tag' v"
      unfolding GetUserUUIDs_iff core_AddUsers_uidMap fold_uid_at by blast
  qed
qed

definition demo_env :: "validator core_env" where
  "demo_env = \<lparr>ce_lib = demo_lib, ce_json = demo_codec, ce_ops = vless_ops Some, ce_stat = (\<lambda>p. Some (False, 73)),
     ce_mkdir = (\<lambda>d. None), ce_write = (\<lambda>f. None), ce_alloc = (\<lambda>w. Inr 40000),
     ce_inbound = demo_inbound_lib, ce_order = [],
     ce_build = (\<lambda>d. Return \<lparr>bt_users = Some \<lparr>va_email = Map.empty, va_users = Map.empty\<rparr>, bt_create = None\<rparr>)\<rparr>"

definition demo_conf :: Conf where
  "demo_conf = conf_New"

definition demo_core :: "validator V2Core" where
  "demo_core = snd (core_Start None (core_New demo_conf {} Map.empty))"

definition demo_vless :: NodeInfo where
  "demo_vless = demo_info\<lparr>ni_Type := ''vless''\<rparr>"

theorem user_record_follows_calls_witness:
  "\<exists>e. fst (core_AddUsers demo_env ''t'' demo_vless [demo_u1] demo_core) = Error e
     \<and> GetUserUUIDs ''t'' (snd (core_AddUsers demo_env ''t'' demo_vless [demo_u1] demo_core)) = {''u1''}
     \<and> GetUserUUIDs ''x'' (snd (core_AddUsers demo_env ''t'' demo_vless [demo_u1] demo_core)) = {}"
proof -
  have e: "\<exists>e. fst (core_AddUsers demo_env ''t'' demo_vless [demo_u1] demo_core) = Error e"
    by (simp add: core_AddUsers_def add_xray_users_def build_users_def GetUserManager_def demo_vless_def demo_info_def demo_core_def
        core_Start_def core_New_def store_uids_def mgr_Has_def mgr_New_def mgr_SetDispatcher_def Let_def)
  have none: "GetUserUUIDs t demo_core = {}" for t
    by (simp add: GetUserUUIDs_def demo_core_def core_Start_def core_New_def)
  have sep: "CHR ''|'' \<notin> set ''t'' \<and> CHR ''|'' \<notin> set ''x'' \<and> ''t'' \<noteq> ''x''" by simp
  from user_record_follows_calls [of "''t''" demo_env demo_vless "[demo_u1]" demo_core "''x''"] sep e none
  show ?thesis by (simp add: demo_u1_def)
qed

section \<open>Traffic\<close>

text \<open>What one iteration step and the whole iteration do, in terms of the counter before it.\<close>

definition over_threshold :: "int \<Rightarrow> TrafficStorage \<Rightarrow> bool" where
  "over_threshold mintraffic s \<longleftrightarrow> i64 (mintraffic * 1000) < i64 (UpCounter s + DownCounter s)"

definition known_uid :: "(string \<rightharpoonup> int) \<Rightarrow> string \<Rightarrow> bool" where
  "known_uid m email \<longleftrightarrow> (\<exists>uid. m email = Some uid \<and> uid \<noteq> 0)"

definition traffic_of :: "(string \<rightharpoonup> int) \<Rightarrow> TrafficCounter \<Rightarrow> string \<Rightarrow> UserTraffic" where
  "traffic_of m c email =
     \<lparr>ut_UID = the (m email), ut_Upload = UpCounter (tc_store c (the (tc_Counters c email))),
      ut_Download = DownCounter (tc_store c (the (tc_Counters c email)))\<rparr>"

definition reported :: "(string \<rightharpoonup> int) \<Rightarrow> int \<Rightarrow> TrafficCounter \<Rightarrow> string \<Rightarrow> bool" where
  "reported m mintraffic c email \<longleftrightarrow>
     known_uid m email \<and> (\<exists>a. tc_Counters c email = Some a \<and> over_threshold mintraffic (tc_store c a))"

lemma traffic_fold:
  assumes "tc_inv c0" and "distinct order" and "set order \<subseteq> dom (tc_Counters c0)"
    and "\<And>e a. e \<in> set order \<Longrightarrow> tc_Counters c0 e = Some a \<Longrightarrow> tc_store c a = tc_store c0 a"
    and "range_fold (traffic_entry m mt) order (tc_Counters c0) (sl, c) = (sl', c')"
  shows "sl' = sl @ map (traffic_of m c0) (filter (reported m mt c0) order)
    \<and> tc_Counters c' = (\<lambda>e. if e \<in> set order \<and> \<not> known_uid m e then None else tc_Counters c e)
    \<and> tc_store c' = (\<lambda>a. if \<exists>e\<in>set order. tc_Counters c0 e = Some a then zero_storage else tc_store c a)
    \<and> tc_next c' = tc_next c"
  using assms(2-5)
proof (induction order arbitrary: sl c)
  case (Cons e order)
  from Cons.prems(2) obtain a where a: "tc_Counters c0 e = Some a" by auto
  define c1 where "c1 = (if known_uid m e then c\<lparr>tc_store := (tc_store c)(a := zero_storage)\<rparr>
      else Delete e (c\<lparr>tc_store := (tc_store c)(a := zero_storage)\<rparr>))"
  define sl1 where "sl1 = (if reported m mt c0 e then sl @ [traffic_of m c0 e] else sl)"
  have same: "tc_store c a = tc_store c0 a" by (rule Cons.prems(3) [of e]) (simp_all add: a)
  have step: "traffic_entry m mt e a (sl, c) = (sl1, c1)"
    using a same by (auto simp: traffic_entry_def sl1_def c1_def reported_def known_uid_def over_threshold_def traffic_of_def Let_def
        split: option.splits)
  have rest: "range_fold (traffic_entry m mt) order (tc_Counters c0) (sl1, c1) = (sl', c')"
    using Cons.prems(4) a step by simp
  have other: "b \<noteq> a" if "e' \<in> set order" "tc_Counters c0 e' = Some b" for e' b
    using that Cons.prems(1) tc_inv_inj [OF assms(1) a, of e'] by auto
  have "tc_store c1 b = tc_store c0 b" if "e' \<in> set order" "tc_Counters c0 e' = Some b" for e' b
    using other [OF that] Cons.prems(3) [of e' b] that by (simp add: c1_def Delete_def)
  with Cons.IH [OF _ _ _ rest] Cons.prems(1,2) have ih:
    "sl' = sl1 @ map (traffic_of m c0) (filter (reported m mt c0) order)"
    "tc_Counters c' = (\<lambda>e. if e \<in> set order \<and> \<not> known_uid m e then None else tc_Counters c1 e)"
    "tc_store c' = (\<lambda>a. if \<exists>e\<in>set order. tc_Counters c0 e = Some a then zero_storage else tc_store c1 a)"
    "tc_next c' = tc_next c1" by auto
  have "tc_Counters c' = (\<lambda>x. if x \<in> set (e # order) \<and> \<not> known_uid m x then None else tc_Counters c x)"
    using Cons.prems(1) by (auto simp: ih(2) c1_def Delete_def map_del_def fun_eq_iff)
  moreover have "tc_store c' = (\<lambda>b. if \<exists>x\<in>set (e # order). tc_Counters c0 x = Some b then zero_storage else tc_store c b)"
    by (auto simp: ih(3) c1_def Delete_def fun_eq_iff a)
  moreover have "sl' = sl @ map (traffic_of m c0) (filter (reported m mt c0) (e # order))" by (simp add: ih(1) sl1_def)
  moreover have "tc_next c' = tc_next c" by (simp add: ih(4) c1_def Delete_def)
  ultimately show ?case by blast
qed (simp add: fun_eq_iff)

text \<open>
  Claim C4. The traffic report: whatever the iteration order, \<open>GetUserTrafficSlice\<close> returns exactly one record for every counter of
  the node whose user is known and whose sum is above the threshold, with the counts it had; every counter
  is zero afterwards and the counters of unknown users are gone. So the traffic of a known user that is not
  above the threshold is neither reported nor kept: it is lost.
\<close>

theorem traffic_slice_exact:
  assumes "vc_Counter v tag = Some c" and "tc_inv c" and "range_order order (tc_Counters c)"
    and "GetUserTrafficSlice order tag mt v = (sl, v')"
  shows "\<exists>c'. vc_Counter v' tag = Some c' \<and> tc_inv c'
    \<and> sl = map (traffic_of (vc_uidMap v) c) (filter (reported (vc_uidMap v) mt c) order)
    \<and> dom (tc_Counters c') = {e \<in> dom (tc_Counters c). known_uid (vc_uidMap v) e}
    \<and> (\<forall>e. GetUpCount e c' = 0 \<and> GetDownCount e c' = 0)"
proof -
  obtain c' where f: "range_fold (traffic_entry (vc_uidMap v) mt) order (tc_Counters c) ([], c) = (sl, c')"
    and v': "v' = v\<lparr>vc_Counter := (vc_Counter v)(tag \<mapsto> c')\<rparr>"
    using assms(1,4) by (auto simp: GetUserTrafficSlice_def split: prod.splits)
  have ord: "distinct order" "set order = dom (tc_Counters c)" using assms(3) by (simp_all add: range_order_def)
  from traffic_fold [OF assms(2) ord(1) _ _ f] ord(2) have r:
    "sl = map (traffic_of (vc_uidMap v) c) (filter (reported (vc_uidMap v) mt c) order)"
    "tc_Counters c' = (\<lambda>e. if e \<in> set order \<and> \<not> known_uid (vc_uidMap v) e then None else tc_Counters c e)"
    "tc_store c' = (\<lambda>a. if \<exists>e\<in>set order. tc_Counters c e = Some a then zero_storage else tc_store c a)"
    "tc_next c' = tc_next c" by auto
  have "tc_inv c'"
    using assms(2) unfolding tc_inv_def r(2-4) by (auto simp: zero_storage_def split: if_splits)
  moreover have "GetUpCount e c' = 0 \<and> GetDownCount e c' = 0" for e
    using ord(2) by (auto simp: GetUpCount_def GetDownCount_def r(2,3) zero_storage_def split: option.splits if_splits)
  moreover have "dom (tc_Counters c') = {e \<in> dom (tc_Counters c). known_uid (vc_uidMap v) e}"
    using ord(2) by (auto simp: r(2) split: if_splits)
  ultimately show ?thesis using r(1) by (auto simp: v')
qed

definition demo_counter :: TrafficCounter where
  "demo_counter = \<lparr>tc_Counters = [''t|u1'' \<mapsto> 0, ''t|u2'' \<mapsto> 1],
     tc_store = (\<lambda>_. zero_storage)(0 := \<lparr>UpCounter = 500, DownCounter = 600\<rparr>, 1 := \<lparr>UpCounter = 500, DownCounter = 500\<rparr>), tc_next = 2\<rparr>"

definition demo_traffic_core :: "validator V2Core" where
  "demo_traffic_core = demo_core\<lparr>vc_uidMap := [''t|u1'' \<mapsto> 1, ''t|u2'' \<mapsto> 2], vc_Counter := [''t'' \<mapsto> demo_counter]\<rparr>"

theorem traffic_slice_exact_witness:
  "\<exists>v' c'. GetUserTrafficSlice [''t|u1'', ''t|u2''] ''t'' 1 demo_traffic_core = ([\<lparr>ut_UID = 1, ut_Upload = 500, ut_Download = 600\<rparr>], v')
     \<and> vc_Counter v' ''t'' = Some c' \<and> GetUpCount ''t|u2'' c' = 0"
proof -
  have c: "vc_Counter demo_traffic_core ''t'' = Some demo_counter" by (simp add: demo_traffic_core_def)
  have inv: "tc_inv demo_counter"
    by (simp add: tc_inv_def demo_counter_def zero_storage_def in_i64_def)
  have ord: "range_order [''t|u1'', ''t|u2''] (tc_Counters demo_counter)" by (auto simp: range_order_def demo_counter_def)
  obtain sl v' where g: "GetUserTrafficSlice [''t|u1'', ''t|u2''] ''t'' 1 demo_traffic_core = (sl, v')" by force
  have "map (traffic_of (vc_uidMap demo_traffic_core) demo_counter)
      (filter (reported (vc_uidMap demo_traffic_core) 1 demo_counter) [''t|u1'', ''t|u2'']) = [\<lparr>ut_UID = 1, ut_Upload = 500, ut_Download = 600\<rparr>]"
    by (simp add: reported_def known_uid_def over_threshold_def traffic_of_def demo_traffic_core_def demo_counter_def i64_id in_i64_def)
  with traffic_slice_exact [OF c inv ord g] g show ?thesis by auto
qed

section \<open>Users in the proxies\<close>

lemma UserTag_nonempty: "UserTag t u \<noteq> []"
  by (simp add: UserTag_def)

lemma vless_convertible: "uo_ToMemory (vless_ops parse) (buildVlessUser tag flow u) = None \<longleftrightarrow> parse (ui_Uuid u) \<noteq> None"
  by (simp add: vless_ops_def buildVlessUser_def)

lemma vless_emails:
  "(\<lambda>x. ToLower (xu_Email x)) ` {x \<in> set (map (buildVlessUser tag flow) us). uo_ToMemory (vless_ops parse) x = None} =
     {ToLower (UserTag tag (ui_Uuid u)) |u. u \<in> set us \<and> parse (ui_Uuid u) \<noteq> None}"
proof -
  have "{x \<in> set (map (buildVlessUser tag flow) us). uo_ToMemory (vless_ops parse) x = None} =
      buildVlessUser tag flow ` {u \<in> set us. parse (ui_Uuid u) \<noteq> None}"
    by (auto simp: vless_convertible)
  then show ?thesis by (auto simp: image_image buildVlessUser_def)
qed

text \<open>
  What authenticates a connection is the map of users by id. It agrees with the map by name when every user in one is in the other, under its own id and name; then
  removing users by their names removes them from both maps. Two users of a node must not share an id: \<open>ProcessUUID\<close> clears two bytes, so ids that
  differ only there are the same.
\<close>

definition vless_key :: "(string \<Rightarrow> string option) \<Rightarrow> xuser \<Rightarrow> string" where
  "vless_key parse x = ProcessUUID (the (parse (account_id (xu_Account x))))"

definition validator_ok :: "(string \<Rightarrow> string option) \<Rightarrow> validator \<Rightarrow> bool" where
  "validator_ok parse v \<longleftrightarrow>
     (\<forall>k x. va_users v k = Some x \<longrightarrow> k = vless_key parse x \<and> va_email v (ToLower (xu_Email x)) = Some x)
   \<and> (\<forall>e x. va_email v e = Some x \<longrightarrow> e = ToLower (xu_Email x) \<and> va_users v (vless_key parse x) = Some x)"

definition ids_apart :: "(string \<Rightarrow> string option) \<Rightarrow> xuser set \<Rightarrow> bool" where
  "ids_apart parse A \<longleftrightarrow> (\<forall>x\<in>A. \<forall>y\<in>A. vless_key parse x = vless_key parse y \<longleftrightarrow> ToLower (xu_Email x) = ToLower (xu_Email y))"

definition without_names :: "string set \<Rightarrow> (string \<rightharpoonup> xuser) \<Rightarrow> string \<rightharpoonup> xuser" where
  "without_names R m k = (case m k of Some x \<Rightarrow> if ToLower (xu_Email x) \<in> R then None else Some x | None \<Rightarrow> None)"

lemma validator_ok_empty: "validator_ok parse \<lparr>va_email = Map.empty, va_users = Map.empty\<rparr>"
  by (simp add: validator_ok_def)

lemma vless_Add_users:
  assumes "validator_ok parse v" and "xu_Email x \<noteq> []" and "ids_apart parse A" and "ran (va_users v) \<subseteq> A" and "x \<in> A"
  shows "validator_ok parse (snd (vless_Add parse x v)) \<and> va_users v \<subseteq>\<^sub>m va_users (snd (vless_Add parse x v))
    \<and> ran (va_users (snd (vless_Add parse x v))) \<subseteq> insert x (ran (va_users v))"
proof (cases "va_email v (ToLower (xu_Email x))")
  case (Some y)
  then have "snd (vless_Add parse x v) = v" using assms(2) by (simp add: vless_Add_def)
  then show ?thesis using assms(1) by auto
next
  case None
  let ?v = "snd (vless_Add parse x v)"
  have e: "va_email ?v = (va_email v)(ToLower (xu_Email x) \<mapsto> x)" and u: "va_users ?v = (va_users v)(vless_key parse x \<mapsto> x)"
    using None assms(2) by (simp_all add: vless_Add_def vless_key_def)
  have new: "va_users v (vless_key parse x) = None"
  proof (rule ccontr)
    assume "va_users v (vless_key parse x) \<noteq> None"
    then obtain y where y: "va_users v (vless_key parse x) = Some y" by blast
    then have "vless_key parse x = vless_key parse y" "va_email v (ToLower (xu_Email y)) = Some y" using assms(1) by (auto simp: validator_ok_def)
    moreover have "y \<in> A" using y assms(4) by (auto intro: ranI)
    ultimately show False using assms(3,5) None by (auto simp: ids_apart_def)
  qed
  have "validator_ok parse ?v"
    unfolding validator_ok_def e u using assms(1) None new by (simp add: validator_ok_def) (metis option.distinct(1))
  moreover have "va_users v \<subseteq>\<^sub>m va_users ?v" unfolding u using new by (auto simp: map_le_def)
  moreover have "ran (va_users ?v) \<subseteq> insert x (ran (va_users v))" unfolding u by (auto simp: ran_def split: if_splits)
  ultimately show ?thesis by blast
qed

lemma add_all_ids:
  assumes "validator_ok parse m" and "\<forall>x\<in>set xs. xu_Email x \<noteq> []" and "ids_apart parse A" and "ran (va_users m) \<subseteq> A"
    and "{x \<in> set xs. uo_ToMemory (vless_ops parse) x = None} \<subseteq> A" and "xray_add_all (vless_ops parse) xs m = (n, m')"
  shows "validator_ok parse m' \<and> va_users m \<subseteq>\<^sub>m va_users m'
    \<and> ran (va_users m') \<subseteq> ran (va_users m) \<union> {x \<in> set xs. uo_ToMemory (vless_ops parse) x = None}"
  using assms(1,2,4-)
proof (induction xs arbitrary: m n)
  case (Cons x xs)
  show ?case
  proof (cases "uo_ToMemory (vless_ops parse) x")
    case None
    obtain r m1 where a: "uo_AddUser (vless_ops parse) x m = (r, m1)" by force
    then have m1: "m1 = snd (vless_Add parse x m)" by (simp add: vless_ops_def)
    have x: "xu_Email x \<noteq> []" "x \<in> A" using Cons.prems(2,4) None by auto
    note s = vless_Add_users [OF Cons.prems(1) x(1) assms(3) Cons.prems(3) x(2), folded m1]
    obtain n1 where "xray_add_all (vless_ops parse) xs m1 = (n1, m')"
      using Cons.prems(5) by (cases r) (auto simp: None a split: prod.splits)
    moreover have "ran (va_users m1) \<subseteq> A" using s Cons.prems(3) x(2) by blast
    moreover have "{x \<in> set xs. uo_ToMemory (vless_ops parse) x = None} \<subseteq> A" using Cons.prems(4) by auto
    ultimately have "validator_ok parse m' \<and> va_users m1 \<subseteq>\<^sub>m va_users m'
      \<and> ran (va_users m') \<subseteq> ran (va_users m1) \<union> {x \<in> set xs. uo_ToMemory (vless_ops parse) x = None}"
      using Cons.IH [of m1 n1] s Cons.prems(2) by simp
    then show ?thesis using s None map_le_trans [of "va_users m" "va_users m1" "va_users m'"] by auto
  next
    case (Some e)
    then have "xray_add_all (vless_ops parse) xs m = (n, m')" using Cons.prems(5) by simp
    then show ?thesis using Cons.IH [of m n] Cons.prems Some by auto
  qed
qed simp

lemma vless_Del_users:
  assumes "validator_ok parse v" and "e \<noteq> []"
  shows "validator_ok parse (snd (vless_Del parse e v)) \<and> va_users (snd (vless_Del parse e v)) = without_names {ToLower e} (va_users v)"
proof (cases "va_email v (ToLower e)")
  case None
  have "ToLower (xu_Email x) \<noteq> ToLower e" if "va_users v k = Some x" for k x
  proof -
    have "va_email v (ToLower (xu_Email x)) = Some x" using assms(1) that by (simp add: validator_ok_def)
    then show ?thesis using None by auto
  qed
  then have "without_names {ToLower e} (va_users v) k = va_users v k" for k
    by (cases "va_users v k") (simp_all add: without_names_def)
  then have "without_names {ToLower e} (va_users v) = va_users v" by (rule ext)
  then show ?thesis using None assms by (simp add: vless_Del_def)
next
  case (Some x)
  let ?v = "snd (vless_Del parse e v)"
  have e: "va_email ?v = (va_email v)(ToLower e := None)" and u: "va_users ?v = (va_users v)(vless_key parse x := None)"
    using Some assms(2) by (simp_all add: vless_Del_def vless_key_def)
  have x: "ToLower e = ToLower (xu_Email x)" "va_users v (vless_key parse x) = Some x" using Some assms(1) by (auto simp: validator_ok_def)
  have one: "k = vless_key parse x \<longleftrightarrow> ToLower (xu_Email y) = ToLower e" if "va_users v k = Some y" for k y
  proof -
    have y: "k = vless_key parse y" "va_email v (ToLower (xu_Email y)) = Some y" using that assms(1) by (auto simp: validator_ok_def)
    show ?thesis
    proof
      assume "k = vless_key parse x"
      with that x(2) have "y = x" by simp
      then show "ToLower (xu_Email y) = ToLower e" using x(1) by simp
    next
      assume "ToLower (xu_Email y) = ToLower e"
      with y(2) Some have "y = x" by simp
      then show "k = vless_key parse x" using y(1) by simp
    qed
  qed
  have "va_users ?v = without_names {ToLower e} (va_users v)"
  proof
    fix k
    show "va_users ?v k = without_names {ToLower e} (va_users v) k"
      using one [of k] by (cases "va_users v k") (auto simp: u without_names_def x)
  qed
  moreover have "validator_ok parse ?v"
    unfolding validator_ok_def
  proof (intro conjI allI impI)
    fix k y
    assume "va_users ?v k = Some y"
    then have y: "k \<noteq> vless_key parse x" "va_users v k = Some y" by (auto simp: u split: if_splits)
    then show "k = vless_key parse y" using assms(1) by (simp add: validator_ok_def)
    have "va_email v (ToLower (xu_Email y)) = Some y" using assms(1) y(2) by (simp add: validator_ok_def)
    then show "va_email ?v (ToLower (xu_Email y)) = Some y" using one [OF y(2)] y(1) by (simp add: e)
  next
    fix f y
    assume "va_email ?v f = Some y"
    then have y: "f \<noteq> ToLower e" "va_email v f = Some y" by (auto simp: e split: if_splits)
    then show f: "f = ToLower (xu_Email y)" using assms(1) by (simp add: validator_ok_def)
    have "va_users v (vless_key parse y) = Some y" using assms(1) y(2) by (simp add: validator_ok_def)
    then show "va_users ?v (vless_key parse y) = Some y" using one [of "vless_key parse y" y] f y(1) by (simp add: u)
  qed
  ultimately show ?thesis by blast
qed

lemma without_names_twice: "without_names S (without_names R m) = without_names (R \<union> S) m"
  by (auto simp: without_names_def fun_eq_iff split: option.split)

lemma remove_all_ids:
  assumes "validator_ok parse m" and "\<forall>e\<in>set es. e \<noteq> []"
  shows "validator_ok parse (fold (\<lambda>e m. snd (uo_RemoveUser (vless_ops parse) e m)) es m)
    \<and> va_users (fold (\<lambda>e m. snd (uo_RemoveUser (vless_ops parse) e m)) es m) = without_names (ToLower ` set es) (va_users m)"
  using assms
proof (induction es arbitrary: m)
  case Nil
  have "without_names {} (va_users m) = va_users m" by (simp add: without_names_def fun_eq_iff split: option.split)
  then show ?case using Nil by simp
next
  case (Cons e es)
  have s: "validator_ok parse (snd (vless_Del parse e m)) \<and> va_users (snd (vless_Del parse e m)) = without_names {ToLower e} (va_users m)"
    using vless_Del_users Cons.prems by simp
  then show ?case using Cons.IH [of "snd (vless_Del parse e m)"] Cons.prems(2) by (simp add: vless_ops_def without_names_twice)
qed

text \<open>Users added and removed through the core.\<close>

definition new_vless :: "(string \<Rightarrow> string option) \<Rightarrow> string \<Rightarrow> CommonNode \<Rightarrow> UserInfo list \<Rightarrow> xuser set" where
  "new_vless parse tag cm us = buildVlessUser tag (cn_Flow cm) ` {u \<in> set us. parse (ui_Uuid u) \<noteq> None}"

lemma add_vless_users:
  assumes "ce_ops E = vless_ops parse" and "(ni_Type info = ''vless'' \<or> ni_Type info = ''shadowflow'') \<and> ni_Common info = Some cm"
    and "vc_ihm v tag = Some h" and "hn_users h = Some um"
    and "\<not> mgr_Has tag (vc_ssaead v)" "\<not> mgr_Has tag (vc_trojanss v)"
  shows "\<exists>n um'. fst (core_AddUsers E tag info us v) = Return n
      \<and> vc_ihm (snd (core_AddUsers E tag info us v)) = (vc_ihm v)(tag \<mapsto> h\<lparr>hn_users := Some um'\<rparr>)
      \<and> dom (va_email um') = dom (va_email um) \<union> {ToLower (UserTag tag (ui_Uuid u)) |u. u \<in> set us \<and> parse (ui_Uuid u) \<noteq> None}
      \<and> (validator_ok parse um \<and> ids_apart parse (ran (va_users um) \<union> new_vless parse tag cm us) \<longrightarrow>
           validator_ok parse um' \<and> va_users um \<subseteq>\<^sub>m va_users um' \<and> ran (va_users um') \<subseteq> ran (va_users um) \<union> new_vless parse tag cm us)"
proof -
  let ?flow = "cn_Flow cm"
  let ?xs = "map (buildVlessUser tag ?flow) us"
  let ?v = "store_uids tag us v"
  obtain n um' where a: "xray_add_all (vless_ops parse) ?xs um = (n, um')" by force
  have b: "build_users tag info us = Return ?xs" using assms(2) by (auto simp: build_users_def)
  have g: "GetUserManager tag ?v = Inr (h, um)" using assms(3,4) by (simp add: GetUserManager_def store_uids_def)
  have "core_AddUsers E tag info us v = add_xray_users E tag info us ?v"
    using assms(2,5,6) by (auto simp: core_AddUsers_def Let_def store_uids_def)
  then have r: "core_AddUsers E tag info us v = (Return n, set_users tag h um' ?v)"
    by (simp add: add_xray_users_def b g assms(1) a)
  have ne: "\<forall>x\<in>set ?xs. xu_Email x \<noteq> []" by (auto simp: buildVlessUser_def UserTag_nonempty)
  have "dom (va_email um') = dom (va_email um) \<union> (\<lambda>x. ToLower (xu_Email x)) ` {x \<in> set ?xs. uo_ToMemory (vless_ops parse) x = None}"
    using vless.add_all_emails [OF TrueI ne a] by simp
  then have "dom (va_email um') = dom (va_email um) \<union> {ToLower (UserTag tag (ui_Uuid u)) |u. u \<in> set us \<and> parse (ui_Uuid u) \<noteq> None}"
    unfolding vless_emails .
  moreover have "{x \<in> set ?xs. uo_ToMemory (vless_ops parse) x = None} = new_vless parse tag cm us"
    by (auto simp: vless_convertible new_vless_def)
  then have "validator_ok parse um \<and> ids_apart parse (ran (va_users um) \<union> new_vless parse tag cm us) \<longrightarrow>
      validator_ok parse um' \<and> va_users um \<subseteq>\<^sub>m va_users um' \<and> ran (va_users um') \<subseteq> ran (va_users um) \<union> new_vless parse tag cm us"
    using add_all_ids [OF _ ne _ _ _ a, of "ran (va_users um) \<union> new_vless parse tag cm us"] by auto
  ultimately show ?thesis by (intro exI [of _ n] exI [of _ um']) (simp add: r set_users_def store_uids_def)
qed

lemma del_vless_users:
  assumes "ce_ops E = vless_ops parse" and "vc_ihm v tag = Some h" and "hn_users h = Some um"
    and "\<not> mgr_Has tag (vc_mieru v)" "\<not> mgr_Has tag (vc_sudoku v)" "\<not> mgr_Has tag (vc_snell v)"
      "\<not> mgr_Has tag (vc_ssaead v)" "\<not> mgr_Has tag (vc_ssr v)" "\<not> mgr_Has tag (vc_trojanss v)"
  shows "\<exists>um'. fst (core_DelUsers E us tag v) = None
      \<and> vc_ihm (snd (core_DelUsers E us tag v)) = (vc_ihm v)(tag \<mapsto> h\<lparr>hn_users := Some um'\<rparr>)
      \<and> dom (va_email um') = dom (va_email um) - {ToLower (UserTag tag (ui_Uuid u)) |u. u \<in> set us}
      \<and> (validator_ok parse um \<longrightarrow> validator_ok parse um' \<and> va_users um' = without_names {ToLower (UserTag tag (ui_Uuid u)) |u. u \<in> set us} (va_users um))"
proof -
  let ?um = "fold (\<lambda>e m. snd (uo_RemoveUser (vless_ops parse) e m)) (map (\<lambda>u. UserTag tag (ui_Uuid u)) us) um"
  have g: "GetUserManager tag v = Inr (h, um)" using assms(2,3) by (simp add: GetUserManager_def)
  have r: "core_DelUsers E us tag v = (None, set_users tag h ?um (fold (drop_user tag) us v))"
    using assms(4-) by (simp add: core_DelUsers_def Let_def g assms(1))
  have ne: "\<forall>e\<in>set (map (\<lambda>u. UserTag tag (ui_Uuid u)) us). e \<noteq> []" by (simp add: UserTag_nonempty)
  have names: "ToLower ` set (map (\<lambda>u. UserTag tag (ui_Uuid u)) us) = {ToLower (UserTag tag (ui_Uuid u)) |u. u \<in> set us}" by auto
  from vless.remove_all_emails [OF TrueI ne]
  have "dom (va_email ?um) = dom (va_email um) - {ToLower (UserTag tag (ui_Uuid u)) |u. u \<in> set us}" by auto
  moreover have "validator_ok parse um \<longrightarrow> validator_ok parse ?um \<and> va_users ?um = without_names {ToLower (UserTag tag (ui_Uuid u)) |u. u \<in> set us} (va_users um)"
    using remove_all_ids [OF _ ne, of parse um] unfolding names by blast
  ultimately show ?thesis by (intro exI [of _ ?um]) (simp add: r set_users_def fold_drop_user_eqs)
qed

lemma added_known:
  assumes "validator_ok parse um'" and "ran (va_users um') \<subseteq> A" and "ids_apart parse A" and "buildVlessUser tag flow u \<in> A"
    and "ToLower (UserTag tag (ui_Uuid u)) \<in> dom (va_email um')" and "parse (ui_Uuid u) = Some i"
  shows "\<exists>x. vless_Get i um' = Some x \<and> ToLower (xu_Email x) = ToLower (UserTag tag (ui_Uuid u))"
proof -
  obtain x where "va_email um' (ToLower (UserTag tag (ui_Uuid u))) = Some x" using assms(5) by blast
  then have x: "ToLower (xu_Email x) = ToLower (UserTag tag (ui_Uuid u))" "va_users um' (vless_key parse x) = Some x"
    using assms(1) by (auto simp: validator_ok_def)
  moreover have "vless_key parse x = vless_key parse (buildVlessUser tag flow u)"
  proof -
    have "x \<in> A" using x(2) assms(2) by (auto intro: ranI)
    moreover have "ToLower (xu_Email x) = ToLower (xu_Email (buildVlessUser tag flow u))" using x(1) by (simp add: buildVlessUser_def)
    ultimately show ?thesis using assms(3,4) unfolding ids_apart_def by blast
  qed
  ultimately show ?thesis using assms(6) by (auto simp: vless_Get_def vless_key_def buildVlessUser_def)
qed

lemma add_vless_known:
  assumes "ce_ops E = vless_ops parse" and "(ni_Type info = ''vless'' \<or> ni_Type info = ''shadowflow'') \<and> ni_Common info = Some cm"
    and "vc_ihm v tag = Some h" and "hn_users h = Some um" and "validator_ok parse um"
    and "\<not> mgr_Has tag (vc_ssaead v)" "\<not> mgr_Has tag (vc_trojanss v)"
  shows "\<exists>n um'. fst (core_AddUsers E tag info us v) = Return n
      \<and> vc_ihm (snd (core_AddUsers E tag info us v)) = (vc_ihm v)(tag \<mapsto> h\<lparr>hn_users := Some um'\<rparr>)
      \<and> dom (va_email um') = dom (va_email um) \<union> {ToLower (UserTag tag (ui_Uuid u)) |u. u \<in> set us \<and> parse (ui_Uuid u) \<noteq> None}
      \<and> (ids_apart parse (ran (va_users um) \<union> new_vless parse tag cm us) \<longrightarrow>
           validator_ok parse um' \<and> va_users um \<subseteq>\<^sub>m va_users um'
         \<and> (\<forall>u i. u \<in> set us \<and> parse (ui_Uuid u) = Some i \<longrightarrow>
              (\<exists>x. vless_Get i um' = Some x \<and> ToLower (xu_Email x) = ToLower (UserTag tag (ui_Uuid u))))
         \<and> (\<forall>i x. vless_Get i um' = Some x \<longrightarrow> x \<in> ran (va_users um) \<union> new_vless parse tag cm us))"
proof -
  let ?A = "ran (va_users um) \<union> new_vless parse tag cm us"
  obtain n um' where a: "fst (core_AddUsers E tag info us v) = Return n"
      "vc_ihm (snd (core_AddUsers E tag info us v)) = (vc_ihm v)(tag \<mapsto> h\<lparr>hn_users := Some um'\<rparr>)"
    and d: "dom (va_email um') = dom (va_email um) \<union> {ToLower (UserTag tag (ui_Uuid u)) |u. u \<in> set us \<and> parse (ui_Uuid u) \<noteq> None}"
    and ok: "ids_apart parse ?A \<longrightarrow> validator_ok parse um' \<and> va_users um \<subseteq>\<^sub>m va_users um' \<and> ran (va_users um') \<subseteq> ?A"
    using add_vless_users [OF assms(1-4,6,7), of us] assms(5) by blast
  have known: "\<exists>x. vless_Get i um' = Some x \<and> ToLower (xu_Email x) = ToLower (UserTag tag (ui_Uuid u))"
    if apart: "ids_apart parse ?A" and u: "u \<in> set us" "parse (ui_Uuid u) = Some i" for u i
  proof -
    have "buildVlessUser tag (cn_Flow cm) u \<in> ?A" using u by (auto simp: new_vless_def)
    moreover have "ToLower (UserTag tag (ui_Uuid u)) \<in> dom (va_email um')" unfolding d using u by auto
    ultimately show ?thesis using added_known [of parse um' ?A] ok apart u(2) by blast
  qed
  have "x \<in> ran (va_users um')" if "vless_Get i um' = Some x" for i x using that by (auto simp: vless_Get_def intro: ranI)
  then have others: "\<forall>i x. vless_Get i um' = Some x \<longrightarrow> x \<in> ?A" if "ids_apart parse ?A" using ok that by blast
  show ?thesis
  proof (intro exI [of _ n] exI [of _ um'] conjI impI)
    assume "ids_apart parse ?A"
    then show "validator_ok parse um'" "va_users um \<subseteq>\<^sub>m va_users um'"
      "\<forall>u i. u \<in> set us \<and> parse (ui_Uuid u) = Some i \<longrightarrow> (\<exists>x. vless_Get i um' = Some x \<and> ToLower (xu_Email x) = ToLower (UserTag tag (ui_Uuid u)))"
      "\<forall>i x. vless_Get i um' = Some x \<longrightarrow> x \<in> ?A"
      using ok known others by blast+
  qed (rule a d)+
qed

text \<open>
  Claim C37. The users of a VLESS node, by the names they are kept and removed under and by the ids that authenticate them. \<open>AddUsers\<close> leaves
  the names that were there and those of all users of the call whose id can be parsed; it keeps who was authenticated, each of these users is authenticated by its id, and nobody else
  is, provided that two users have the same id only and always when they have the same name. \<open>DelUsers\<close> removes exactly the names of the call, and exactly the
  users with these names are no longer authenticated. All this whether or not single calls of the validator fail; and both leave the two maps in agreement.
\<close>

theorem vless_node_users:
  assumes "ce_ops E = vless_ops parse" and "(ni_Type info = ''vless'' \<or> ni_Type info = ''shadowflow'') \<and> ni_Common info = Some cm"
    and "vc_ihm v tag = Some h" and "hn_users h = Some um" and "validator_ok parse um"
    and "\<not> mgr_Has tag (vc_mieru v)" "\<not> mgr_Has tag (vc_sudoku v)" "\<not> mgr_Has tag (vc_snell v)"
      "\<not> mgr_Has tag (vc_ssaead v)" "\<not> mgr_Has tag (vc_ssr v)" "\<not> mgr_Has tag (vc_trojanss v)"
  shows "(\<exists>n um'. fst (core_AddUsers E tag info us v) = Return n
      \<and> vc_ihm (snd (core_AddUsers E tag info us v)) = (vc_ihm v)(tag \<mapsto> h\<lparr>hn_users := Some um'\<rparr>)
      \<and> dom (va_email um') = dom (va_email um) \<union> {ToLower (UserTag tag (ui_Uuid u)) |u. u \<in> set us \<and> parse (ui_Uuid u) \<noteq> None}
      \<and> (ids_apart parse (ran (va_users um) \<union> new_vless parse tag cm us) \<longrightarrow>
           validator_ok parse um' \<and> va_users um \<subseteq>\<^sub>m va_users um'
         \<and> (\<forall>u i. u \<in> set us \<and> parse (ui_Uuid u) = Some i \<longrightarrow>
              (\<exists>x. vless_Get i um' = Some x \<and> ToLower (xu_Email x) = ToLower (UserTag tag (ui_Uuid u))))
         \<and> (\<forall>i x. vless_Get i um' = Some x \<longrightarrow> x \<in> ran (va_users um) \<union> new_vless parse tag cm us)))
    \<and> (\<exists>um'. fst (core_DelUsers E us tag v) = None
      \<and> vc_ihm (snd (core_DelUsers E us tag v)) = (vc_ihm v)(tag \<mapsto> h\<lparr>hn_users := Some um'\<rparr>)
      \<and> dom (va_email um') = dom (va_email um) - {ToLower (UserTag tag (ui_Uuid u)) |u. u \<in> set us}
      \<and> validator_ok parse um'
      \<and> va_users um' = without_names {ToLower (UserTag tag (ui_Uuid u)) |u. u \<in> set us} (va_users um))"
  by (rule conjI [OF add_vless_known [OF assms(1-5,9,11)]]) (use del_vless_users [OF assms(1,3,4,6-)] assms(5) in simp)

definition demo_vless_core :: "validator V2Core" where
  "demo_vless_core = demo_core\<lparr>vc_ihm := [''t'' \<mapsto> \<lparr>hn_addr = ''0.0.0.0:443'', hn_running = True,
     hn_users = Some \<lparr>va_email = Map.empty, va_users = Map.empty\<rparr>\<rparr>]\<rparr>"

theorem vless_node_users_witness:
  "\<exists>n um'. fst (core_AddUsers demo_env ''t'' demo_vless [demo_u1] demo_vless_core) = Return n
      \<and> map_option hn_users (vc_ihm (snd (core_AddUsers demo_env ''t'' demo_vless [demo_u1] demo_vless_core)) ''t'') = Some (Some um')
      \<and> dom (va_email um') = {''t|u1''} \<and> vless_Get ''u1'' um' \<noteq> None"
proof -
  have h: "vc_ihm demo_vless_core ''t'' = Some \<lparr>hn_addr = ''0.0.0.0:443'', hn_running = True,
     hn_users = Some \<lparr>va_email = Map.empty, va_users = Map.empty\<rparr>\<rparr>" by (simp add: demo_vless_core_def)
  have low: "ToLower (UserTag ''t'' ''u1'') = ''t|u1''" by (simp add: UserTag_def ToLower_def lower_char_def)
  have o: "ce_ops demo_env = vless_ops Some" and t: "(ni_Type demo_vless = ''vless'' \<or> ni_Type demo_vless = ''shadowflow'')
      \<and> ni_Common demo_vless = Some (zero_CommonNode\<lparr>cn_ServerPort := 443\<rparr>)"
    by (simp_all add: demo_env_def demo_vless_def demo_info_def)
  have n: "\<not> mgr_Has ''t'' (vc_mieru demo_vless_core)" "\<not> mgr_Has ''t'' (vc_sudoku demo_vless_core)" "\<not> mgr_Has ''t'' (vc_snell demo_vless_core)"
    "\<not> mgr_Has ''t'' (vc_ssaead demo_vless_core)" "\<not> mgr_Has ''t'' (vc_ssr demo_vless_core)" "\<not> mgr_Has ''t'' (vc_trojanss demo_vless_core)"
    by (simp_all add: demo_vless_core_def demo_core_def core_Start_def core_New_def mgr_Has_def mgr_New_def mgr_SetDispatcher_def)
  note all = vless_node_users [OF o t h handler.select_convs(3) validator_ok_empty n, of "[demo_u1]", THEN conjunct1]
  have "ids_apart Some (ran Map.empty \<union> new_vless Some ''t'' (zero_CommonNode\<lparr>cn_ServerPort := 443\<rparr>) [demo_u1])"
    by (simp add: new_vless_def ids_apart_def)
  moreover have "demo_u1 \<in> set [demo_u1] \<and> Some (ui_Uuid demo_u1) = Some ''u1''" by (simp add: demo_u1_def)
  ultimately show ?thesis using all by (fastforce simp: low demo_u1_def)
qed

end
