(* ===== verification/Node_Lifecycle.thy ===== *)
theory Node_Lifecycle
  imports V2Core_Props
begin

text \<open>
  Setting up and tearing down a node in the core (\<open>core/node.go\<close>, \<open>core/inbound.go\<close>). Everything the core holds for a node is
  described by a residue: the handler, the SNI router, the front with its files and reserved ports. The
  steps of \<open>AddNode\<close> change a state only by the residue of the node, and \<open>DelNode\<close> removes the residue.
\<close>

section \<open>What the core holds for a node\<close>

record 'u residue =
  rs_handler :: "'u handler option"
  rs_router :: "Router option"
  rs_config :: bool
  rs_inst :: "singbox_instance option"
  rs_doc :: "json option"
  rs_front :: "front option"
  rs_sbports :: "int set"
  rs_obports :: "int set"

definition no_residue :: "'u residue" where
  "no_residue = \<lparr>rs_handler = None, rs_router = None, rs_config = False, rs_inst = None, rs_doc = None, rs_front = None,
     rs_sbports = {}, rs_obports = {}\<rparr>"

definition add_ports :: "string \<Rightarrow> int set \<Rightarrow> (int \<rightharpoonup> string) \<Rightarrow> (int \<rightharpoonup> string)" where
  "add_ports tag P ports = (\<lambda>p. if p \<in> P then Some tag else ports p)"

definition handler_addrs :: "'u handler option \<Rightarrow> net" where
  "handler_addrs oh = (case oh of None \<Rightarrow> {} | Some h \<Rightarrow> if hn_running h then {hn_addr h} else {})"

definition router_addrs :: "Router option \<Rightarrow> net" where
  "router_addrs orr = (case orr of None \<Rightarrow> {} | Some r \<Rightarrow> {router_Addr r})"

definition front_addrs :: "front option \<Rightarrow> net" where
  "front_addrs fo = (case fo of None \<Rightarrow> {} | Some f \<Rightarrow> {fr_ln f})"

definition tag_path :: "string \<Rightarrow> 'u V2Core \<Rightarrow> string" where
  "tag_path tag v = singbox_cfgPath (vc_singbox v) tag"

definition with_residue :: "string \<Rightarrow> 'u residue \<Rightarrow> 'u V2Core \<Rightarrow> 'u V2Core" where
  "with_residue tag q v =
     v\<lparr>vc_ihm := (vc_ihm v)(tag := rs_handler q),
       vc_routers := (vc_routers v)(tag := rs_router q),
       vc_nodeConfigs := (if rs_config q then insert tag (vc_nodeConfigs v) else vc_nodeConfigs v),
       vc_singbox := (vc_singbox v)\<lparr>sb_insts := (sb_insts (vc_singbox v))(tag := rs_inst q),
                                    sb_ports := add_ports tag (rs_sbports q) (sb_ports (vc_singbox v))\<rparr>,
       vc_obfs := \<lparr>ob_fronts = (ob_fronts (vc_obfs v))(tag := rs_front q), ob_ports = add_ports tag (rs_obports q) (ob_ports (vc_obfs v))\<rparr>,
       vc_net := vc_net v \<union> handler_addrs (rs_handler q) \<union> router_addrs (rs_router q) \<union> front_addrs (rs_front q),
       vc_files := (vc_files v)(tag_path tag v := rs_doc q)\<rparr>"

text \<open>A residue claims only what was free, each address once, and its file belongs to its instance.\<close>

definition residue_ok :: "string \<Rightarrow> 'u V2Core \<Rightarrow> 'u residue \<Rightarrow> bool" where
  "residue_ok tag v q \<longleftrightarrow>
     (handler_addrs (rs_handler q) \<union> router_addrs (rs_router q) \<union> front_addrs (rs_front q)) \<inter> vc_net v = {}
     \<and> handler_addrs (rs_handler q) \<inter> router_addrs (rs_router q) = {}
     \<and> handler_addrs (rs_handler q) \<inter> front_addrs (rs_front q) = {}
     \<and> router_addrs (rs_router q) \<inter> front_addrs (rs_front q) = {}
     \<and> (\<forall>p\<in>rs_sbports q. sb_ports (vc_singbox v) p = None) \<and> (\<forall>p\<in>rs_obports q. ob_ports (vc_obfs v) p = None)
     \<and> (rs_inst q = None \<longrightarrow> rs_doc q = None) \<and> (\<forall>i. rs_inst q = Some i \<longrightarrow> si_cfgPath i = tag_path tag v)"

definition residue_of :: "string \<Rightarrow> 'u V2Core \<Rightarrow> 'u V2Core \<Rightarrow> bool" where
  "residue_of tag v v' \<longleftrightarrow> (\<exists>q. residue_ok tag v q \<and> v' = with_residue tag q v)"

text \<open>A tag the core holds nothing for.\<close>

definition native_free :: "string \<Rightarrow> 'u V2Core \<Rightarrow> bool" where
  "native_free tag v \<longleftrightarrow> \<not> mgr_Has tag (vc_mieru v) \<and> \<not> mgr_Has tag (vc_sudoku v) \<and> \<not> mgr_Has tag (vc_snell v)
     \<and> \<not> mgr_Has tag (vc_ssaead v) \<and> \<not> mgr_Has tag (vc_ssr v) \<and> \<not> mgr_Has tag (vc_trojanss v)"

definition fresh_tag :: "string \<Rightarrow> 'u V2Core \<Rightarrow> bool" where
  "fresh_tag tag v \<longleftrightarrow> tag \<noteq> [] \<and> native_free tag v
     \<and> vc_ihm v tag = None \<and> vc_routers v tag = None \<and> tag \<notin> vc_nodeConfigs v
     \<and> vc_Counter v tag = None \<and> tag \<notin> vc_engines v
     \<and> sb_insts (vc_singbox v) tag = None \<and> ob_fronts (vc_obfs v) tag = None
     \<and> (\<forall>p. sb_ports (vc_singbox v) p \<noteq> Some tag) \<and> (\<forall>p. ob_ports (vc_obfs v) p \<noteq> Some tag)
     \<and> vc_files v (tag_path tag v) = None"

text \<open>
  What the operating system promises (the documented behaviour of listening on port 0): the port it hands out on the
  loopback address is one that no listener of the machine has there.
\<close>

definition loopback_addr :: "int \<Rightarrow> string" where
  "loopback_addr p = ''127.0.0.1:'' @ Itoa p"

definition os_ports_fresh :: "'u core_env \<Rightarrow> bool" where
  "os_ports_fresh E \<longleftrightarrow>
     (\<forall>w p. il_routerPort (ce_inbound E) w = Inr p \<longrightarrow> loopback_addr p \<notin> w)
     \<and> (\<forall>w p. ce_alloc E w = Inr p \<longrightarrow> loopback_addr p \<notin> w)"

text \<open>
  A condition on the state, not on the operating system: every loopback port that the managers of the fronts have reserved
  is bound, by the inbound it was reserved for. (\<open>AllocPort\<close> closes its listener before the inbound binds the port.) It holds
  of the empty core, and a successful \<open>AddNode\<close> keeps it: \<open>add_keeps_reserved_bound\<close>.
\<close>

definition reserved_bound :: "'u V2Core \<Rightarrow> bool" where
  "reserved_bound v \<longleftrightarrow>
     (\<forall>p. sb_ports (vc_singbox v) p \<noteq> None \<or> ob_ports (vc_obfs v) p \<noteq> None \<longrightarrow> loopback_addr p \<in> vc_net v)"

lemma alloc_unreserved:
  assumes "os_ports_fresh E" and "reserved_bound v" and "vc_net v \<subseteq> w" and "ce_alloc E w = Inr p"
  shows "sb_ports (vc_singbox v) p = None \<and> ob_ports (vc_obfs v) p = None"
  using assms unfolding os_ports_fresh_def reserved_bound_def by blast

lemma residue_net: "residue_of tag v v' \<Longrightarrow> vc_net v \<subseteq> vc_net v'"
  by (auto simp: residue_of_def with_residue_def)

lemma router_port_fresh:
  "os_ports_fresh E \<Longrightarrow> \<forall>w r. il_routerPort (ce_inbound E) w = Inr (sr_port r) \<longrightarrow> router_Addr r \<notin> w"
  by (simp add: os_ports_fresh_def loopback_addr_def router_Addr_def)

section \<open>Steps\<close>

lemma add_ports_simps:
  "add_ports tag {} ports = ports"
  "(add_ports tag P ports)(p \<mapsto> tag) = add_ports tag (insert p P) ports"
  "(\<forall>p. ports p \<noteq> Some tag) \<Longrightarrow> (\<forall>p\<in>P. ports p = None) \<Longrightarrow> drop_tag tag (add_ports tag P ports) = ports"
  by (auto simp: add_ports_def drop_tag_def fun_eq_iff)

lemma fresh_residue: "fresh_tag tag v \<Longrightarrow> with_residue tag no_residue v = v"
  by (simp add: fresh_tag_def with_residue_def no_residue_def add_ports_simps handler_addrs_def router_addrs_def front_addrs_def fun_upd_idem)

lemma residue_start: "fresh_tag tag v \<Longrightarrow> residue_of tag v v"
  unfolding residue_of_def
  by (rule exI [of _ no_residue])
    (simp add: fresh_residue, simp add: residue_ok_def no_residue_def handler_addrs_def router_addrs_def front_addrs_def)

lemma alloc_front_residue:
  assumes "os_ports_fresh E" and "reserved_bound v" and "residue_of tag v v1" and "alloc_front E info tag v1 = (r, v2)"
  shows "residue_of tag v v2 \<and> (\<forall>p. r = Inr p \<and> (is_shadowtls_node (ce_json E) info \<or> is_obfs_node (ce_json E) info) \<longrightarrow>
        sb_ports (vc_singbox v) p = None \<and> ob_ports (vc_obfs v) p = None)"
proof -
  from assms(3) obtain q where q: "residue_ok tag v q" "v1 = with_residue tag q v" unfolding residue_of_def by blast
  have "residue_of tag v (v1\<lparr>vc_singbox := (vc_singbox v1)\<lparr>sb_ports := (sb_ports (vc_singbox v1))(p \<mapsto> tag)\<rparr>\<rparr>)"
    if "sb_ports (vc_singbox v) p = None" for p
    unfolding residue_of_def using q that
    by (intro exI [of _ "q\<lparr>rs_sbports := insert p (rs_sbports q)\<rparr>"]) (auto simp: residue_ok_def with_residue_def add_ports_simps)
  moreover have "residue_of tag v (v1\<lparr>vc_obfs := (vc_obfs v1)\<lparr>ob_ports := (ob_ports (vc_obfs v1))(p \<mapsto> tag)\<rparr>\<rparr>)"
    if "ob_ports (vc_obfs v) p = None" for p
    unfolding residue_of_def using q that
    by (intro exI [of _ "q\<lparr>rs_obports := insert p (rs_obports q)\<rparr>"]) (auto simp: residue_ok_def with_residue_def add_ports_simps)
  moreover note alloc_unreserved [OF assms(1,2) residue_net [OF assms(3)]]
  ultimately show ?thesis
    using assms(3,4)
    by (auto simp: alloc_front_def Let_def singbox_AllocPort_def obfs_AllocPort_def split: if_splits sum.splits)
qed

text \<open>What a build does to the routers, the configurations and the network.\<close>

lemma reality_dest_effect:
  assumes "reality_dest L order tag t s = (r, s')" and "\<forall>w r. il_routerPort L w = Inr (sr_port r) \<longrightarrow> router_Addr r \<notin> w"
  shows "s' = s \<or> s' = close_router tag s
     \<or> (\<exists>r. router_Addr r \<notin> nd_net (close_router tag s)
          \<and> s' = (close_router tag s)\<lparr>nd_routers := (nd_routers (close_router tag s))(tag \<mapsto> r),
                                       nd_net := insert (router_Addr r) (nd_net (close_router tag s))\<rparr>)"
proof -
  let ?s = "close_router tag s"
  have "s' = s \<or> s' = ?s \<or> (\<exists>r. il_routerPort L (nd_net ?s) = Inr (sr_port r)
      \<and> s' = ?s\<lparr>nd_routers := (nd_routers ?s)(tag \<mapsto> r), nd_net := insert (router_Addr r) (nd_net ?s)\<rparr>)"
  proof (cases "il_routerPort L (nd_net ?s)")
    case (Inr p)
    let ?r = "(router_of (sni_map t) order t)\<lparr>sr_port := p\<rparr>"
    have "s' = s \<or> s' = ?s\<lparr>nd_routers := (nd_routers ?s)(tag \<mapsto> ?r), nd_net := insert (router_Addr ?r) (nd_net ?s)\<rparr>"
      using assms(1) Inr by (simp add: reality_dest_def router_Start_def Let_def split: if_splits)
    moreover have "il_routerPort L (nd_net ?s) = Inr (sr_port ?r)" by (simp add: Inr)
    ultimately show ?thesis by blast
  qed (use assms(1) in \<open>auto simp: reality_dest_def router_Start_def Let_def split: if_splits\<close>)
  with assms(2) show ?thesis by blast
qed

lemma buildInbound_effect:
  assumes "buildInbound L J order info tag ds lo po s = (r, s')"
    and "\<forall>w r. il_routerPort L w = Inr (sr_port r) \<longrightarrow> router_Addr r \<notin> w"
  obtains s1 where "s1 = s \<or> ni_Type info = ''shadowflow'' \<and> s1 = s\<lparr>nd_configs := insert (ni_Tag info) (nd_configs s)\<rparr>"
    "s' = s1 \<or> s' = close_router tag s1
     \<or> (\<exists>r. router_Addr r \<notin> nd_net (close_router tag s1)
          \<and> s' = (close_router tag s1)\<lparr>nd_routers := (nd_routers (close_router tag s1))(tag \<mapsto> r),
                                       nd_net := insert (router_Addr r) (nd_net (close_router tag s1))\<rparr>)"
proof -
  let ?s1 = "if ni_Type info = ''shadowflow'' then s\<lparr>nd_configs := insert (ni_Tag info) (nd_configs s)\<rparr> else s"
  have "s' = s \<or> s' = ?s1 \<or> (\<exists>t r'. reality_dest L order tag t ?s1 = (r', s'))"
    using assms(1)
    by (auto simp: buildInbound_def set_security_def set_reality_def Let_def split: if_splits option.splits outcome.splits prod.splits sum.splits)
  then consider "s' = s" | "s' = ?s1" | t r' where "reality_dest L order tag t ?s1 = (r', s')" by blast
  then show thesis
  proof cases
    case 1
    then show ?thesis by (intro that [of s]) auto
  next
    case 2
    then show ?thesis by (intro that [of ?s1]) auto
  next
    case (3 t r')
    from reality_dest_effect [OF this assms(2)] show ?thesis by (intro that [of ?s1]) auto
  qed
qed

lemma buildInbound_tag: "buildInbound L J order info tag ds lo po s = (Return d, s') \<Longrightarrow> id_Tag d = tag"
  by (auto simp: buildInbound_def Let_def split: if_splits option.splits outcome.splits prod.splits)

lemma close_router_residue:
  assumes "residue_of tag v v1"
  shows "residue_of tag v (set_node_state (close_router tag (node_state_of v1)) v1)"
proof -
  from assms obtain q where q: "residue_ok tag v q" "v1 = with_residue tag q v" unfolding residue_of_def by blast
  have "vc_net v \<union> handler_addrs (rs_handler q) \<union> router_addrs (rs_router q) \<union> front_addrs (rs_front q) - router_addrs (rs_router q) =
      vc_net v \<union> handler_addrs (rs_handler q) \<union> front_addrs (rs_front q)"
    using q(1) by (auto simp: residue_ok_def)
  then have "set_node_state (close_router tag (node_state_of v1)) v1 = with_residue tag (q\<lparr>rs_router := None\<rparr>) v"
    unfolding q(2) by (cases "rs_router q")
      (simp_all add: with_residue_def close_router_def set_node_state_def node_state_of_def router_addrs_def)
  moreover have "residue_ok tag v (q\<lparr>rs_router := None\<rparr>)" using q(1) by (auto simp: residue_ok_def router_addrs_def)
  ultimately show ?thesis unfolding residue_of_def by blast
qed

lemma config_residue:
  assumes "residue_of tag v v1"
  shows "residue_of tag v (v1\<lparr>vc_nodeConfigs := insert tag (vc_nodeConfigs v1)\<rparr>)"
proof -
  from assms obtain q where q: "residue_ok tag v q" "v1 = with_residue tag q v" unfolding residue_of_def by blast
  then show ?thesis
    unfolding residue_of_def by (intro exI [of _ "q\<lparr>rs_config := True\<rparr>"]) (auto simp: residue_ok_def with_residue_def)
qed

lemma new_router_residue:
  assumes "residue_of tag v v1" and "vc_routers v1 tag = None" and "router_Addr r \<notin> vc_net v1"
  shows "residue_of tag v (v1\<lparr>vc_routers := (vc_routers v1)(tag \<mapsto> r), vc_net := insert (router_Addr r) (vc_net v1)\<rparr>)"
proof -
  from assms(1) obtain q where q: "residue_ok tag v q" "v1 = with_residue tag q v" unfolding residue_of_def by blast
  with assms(2,3) show ?thesis
    unfolding residue_of_def
    by (intro exI [of _ "q\<lparr>rs_router := Some r\<rparr>"]) (auto simp: residue_ok_def with_residue_def router_addrs_def)
qed

lemma set_node_state_compose:
  "set_node_state s v1 = (set_node_state s0 v1)\<lparr>vc_routers := nd_routers s, vc_nodeConfigs := nd_configs s, vc_net := nd_net s\<rparr>"
  by (simp add: set_node_state_def)

lemma build_residue:
  assumes "os_ports_fresh E" and "ni_Type info = ''shadowflow'' \<longrightarrow> ni_Tag info = tag" and "residue_of tag v v1"
    and "buildInbound (ce_inbound E) J order info tag ds lo po (node_state_of v1) = (r, s')"
  shows "residue_of tag v (set_node_state s' v1)"
proof -
  note os = router_port_fresh [OF assms(1)]
  obtain s1 where s1: "s1 = node_state_of v1 \<or> s1 = (node_state_of v1)\<lparr>nd_configs := insert tag (nd_configs (node_state_of v1))\<rparr>"
    and s': "s' = s1 \<or> s' = close_router tag s1
     \<or> (\<exists>r. router_Addr r \<notin> nd_net (close_router tag s1)
          \<and> s' = (close_router tag s1)\<lparr>nd_routers := (nd_routers (close_router tag s1))(tag \<mapsto> r),
                                       nd_net := insert (router_Addr r) (nd_net (close_router tag s1))\<rparr>)"
    using buildInbound_effect [OF assms(4) os] assms(2) by metis
  define v2 where "v2 = set_node_state s1 v1"
  have r2: "residue_of tag v v2"
    using s1 assms(3) config_residue [OF assms(3)] by (auto simp: v2_def set_node_state_def node_state_of_def)
  have n2: "node_state_of v2 = s1" and st: "set_node_state s v1 = set_node_state s v2" for s
    by (simp_all add: v2_def set_node_state_def node_state_of_def)
  define v3 where "v3 = set_node_state (close_router tag s1) v1"
  have r3: "residue_of tag v v3" using close_router_residue [OF r2] unfolding n2 st [symmetric] v3_def .
  have "vc_routers v3 tag = None" "vc_net v3 = nd_net (close_router tag s1)" "vc_routers v3 = nd_routers (close_router tag s1)"
    by (simp_all add: v3_def set_node_state_def close_router_def split: option.split)
  note v3 = this
  from s' consider "s' = s1" | "s' = close_router tag s1" | r where "router_Addr r \<notin> nd_net (close_router tag s1)"
      "s' = (close_router tag s1)\<lparr>nd_routers := (nd_routers (close_router tag s1))(tag \<mapsto> r),
                                  nd_net := insert (router_Addr r) (nd_net (close_router tag s1))\<rparr>" by blast
  then show ?thesis
  proof cases
    case 3
    have "set_node_state s' v1 = v3\<lparr>vc_routers := (vc_routers v3)(tag \<mapsto> r), vc_net := insert (router_Addr r) (vc_net v3)\<rparr>"
      by (simp add: 3(2) v3_def set_node_state_def)
    with new_router_residue [OF r3 v3(1)] 3(1) v3(2) show ?thesis by simp
  qed (use r2 r3 in \<open>simp_all add: v2_def v3_def\<close>)
qed

lemma addInbound_residue:
  assumes "residue_of tag v v1" and "id_Tag d = tag" and "tag \<noteq> []" and "addInbound E d b v1 = (e, v2)"
  shows "residue_of tag v v2"
proof -
  from assms(1) obtain q where q: "residue_ok tag v q" "v1 = with_residue tag q v" unfolding residue_of_def by blast
  show ?thesis
  proof (cases "bt_create b = None \<and> vc_ihm v1 tag = None")
    case True
    let ?h = "\<lambda>run. \<lparr>hn_addr = inbound_addr d, hn_running = run, hn_users = bt_users b\<rparr>"
    have qh: "rs_handler q = None" using True q(2) by (simp add: with_residue_def)
    have stale: "residue_of tag v (v1\<lparr>vc_ihm := (vc_ihm v1)(tag \<mapsto> ?h False)\<rparr>)"
      unfolding residue_of_def using q qh
      by (intro exI [of _ "q\<lparr>rs_handler := Some (?h False)\<rparr>"]) (simp add: residue_ok_def with_residue_def handler_addrs_def)
    have run: "residue_of tag v (v1\<lparr>vc_ihm := (vc_ihm v1)(tag \<mapsto> ?h True), vc_net := insert (inbound_addr d) (vc_net v1)\<rparr>)"
      if "inbound_addr d \<notin> vc_net v1"
      unfolding residue_of_def using q qh that
      by (intro exI [of _ "q\<lparr>rs_handler := Some (?h True)\<rparr>"]) (auto simp: residue_ok_def with_residue_def handler_addrs_def)
    show ?thesis
      using assms(2-4) True stale run
      by (auto simp: addInbound_def AddHandler_def net_Listen_def Let_def split: if_splits option.splits)
  next
    case False
    then have "v2 = v1" using assms(2-4) by (auto simp: addInbound_def AddHandler_def split: option.splits)
    with assms(1) show ?thesis by simp
  qed
qed

lemma removeInbound_residue:
  assumes "residue_of tag v v1" and "tag \<noteq> []"
  shows "residue_of tag v (snd (removeInbound tag v1))"
proof -
  from assms(1) obtain q where q: "residue_ok tag v q" "v1 = with_residue tag q v" unfolding residue_of_def by blast
  show ?thesis
  proof (cases "rs_handler q")
    case None
    then have "snd (removeInbound tag v1) = v1" using q(2) by (simp add: removeInbound_def RemoveHandler_def with_residue_def)
    with assms(1) show ?thesis by simp
  next
    case (Some h)
    have "vc_net v \<union> handler_addrs (Some h) \<union> router_addrs (rs_router q) \<union> front_addrs (rs_front q) - handler_addrs (Some h) =
        vc_net v \<union> router_addrs (rs_router q) \<union> front_addrs (rs_front q)"
      using q(1) Some by (auto simp: residue_ok_def)
    then have "snd (removeInbound tag v1) = with_residue tag (q\<lparr>rs_handler := None\<rparr>) v"
      using assms(2) Some q(2)
      by (cases "hn_running h") (simp_all add: removeInbound_def RemoveHandler_def with_residue_def handler_release_def handler_addrs_def)
    moreover have "residue_ok tag v (q\<lparr>rs_handler := None\<rparr>)" using q(1) by (auto simp: residue_ok_def handler_addrs_def)
    ultimately show ?thesis unfolding residue_of_def by blast
  qed
qed

lemma drop_add_ports: "(\<forall>p. ports p \<noteq> Some tag) \<Longrightarrow> (\<forall>p\<in>P. ports p = None) \<Longrightarrow> drop_tag tag (add_ports tag P ports) = add_ports tag {} ports"
  by (simp add: add_ports_simps)

lemma release_front_residue:
  assumes "fresh_tag tag v" and "residue_of tag v v1"
  shows "residue_of tag v (release_front J info tag v1)"
proof -
  from assms(2) obtain q where q: "residue_ok tag v q" "v1 = with_residue tag q v" unfolding residue_of_def by blast
  have "v1\<lparr>vc_singbox := singbox_Release tag (vc_singbox v1)\<rparr> = with_residue tag (q\<lparr>rs_sbports := {}\<rparr>) v"
    using q assms(1) by (simp add: with_residue_def singbox_Release_def drop_add_ports residue_ok_def fresh_tag_def)
  moreover have "v1\<lparr>vc_obfs := obfs_Release tag (vc_obfs v1)\<rparr> = with_residue tag (q\<lparr>rs_obports := {}\<rparr>) v"
    using q assms(1) by (simp add: with_residue_def obfs_Release_def drop_add_ports residue_ok_def fresh_tag_def)
  moreover have "residue_ok tag v (q\<lparr>rs_sbports := {}\<rparr>)" "residue_ok tag v (q\<lparr>rs_obports := {}\<rparr>)"
    using q(1) by (simp_all add: residue_ok_def)
  ultimately show ?thesis using assms(2) unfolding release_front_def residue_of_def by metis
qed

lemma singbox_start_residue:
  assumes "fresh_tag tag v" and "residue_of tag v v1" and "sc_Tag cfg = tag" and "sb_ports (vc_singbox v) (sc_InternalPort cfg) = None"
    and "singbox_StartOrReload stat mkdir write cfg (vc_singbox v1) (vc_files v1) = (e, sb, fs)"
  shows "residue_of tag v (v1\<lparr>vc_singbox := sb, vc_files := fs\<rparr>)"
proof (cases e)
  case (Some err)
  with assms(5) have "sb = vc_singbox v1" "fs = vc_files v1"
    by (auto simp: singbox_StartOrReload_def Let_def split: if_splits sum.splits option.splits prod.splits)
  with assms(2) show ?thesis by simp
next
  case None
  from assms(2) obtain q where q: "residue_ok tag v q" "v1 = with_residue tag q v" unfolding residue_of_def by blast
  let ?path = "tag_path tag v"
  have path: "singbox_cfgPath (vc_singbox v1) tag = ?path" by (simp add: q(2) with_residue_def tag_path_def singbox_cfgPath_def)
  let ?inst = "\<lparr>si_tag = tag, si_cfgPath = ?path, si_intPort = sc_InternalPort cfg\<rparr>"
  from assms(5) [unfolded None] obtain data where
    fs: "fs = (case sb_insts (vc_singbox v1) tag of None \<Rightarrow> (vc_files v1)(?path \<mapsto> data)
            | Some inst \<Rightarrow> ((vc_files v1)(?path \<mapsto> data))(si_cfgPath inst := None))"
    and sb: "sb = (vc_singbox v1)\<lparr>sb_insts := (sb_insts (vc_singbox v1))(tag \<mapsto> ?inst),
        sb_ports := (drop_tag tag (sb_ports (vc_singbox v1)))(sc_InternalPort cfg \<mapsto> tag)\<rparr>"
    by (auto simp: singbox_StartOrReload_def singbox_Stop_def Let_def assms(3) path split: if_splits sum.splits option.splits)
  obtain doc where doc: "fs = (vc_files v)(?path := doc)"
    using fs q by (cases "rs_inst q") (auto simp: with_residue_def residue_ok_def)
  let ?q = "q\<lparr>rs_inst := Some ?inst, rs_doc := doc, rs_sbports := {sc_InternalPort cfg}\<rparr>"
  have ports: "drop_tag tag (add_ports tag (rs_sbports q) (sb_ports (vc_singbox v))) = add_ports tag {} (sb_ports (vc_singbox v))"
    using q(1) assms(1) by (intro drop_add_ports) (simp_all add: residue_ok_def fresh_tag_def)
  have "v1\<lparr>vc_singbox := sb, vc_files := fs\<rparr> = with_residue tag ?q v"
    unfolding doc sb by (rule V2Core.V2Core.equality) (simp_all add: q(2) with_residue_def ports, simp add: add_ports_def fun_eq_iff)
  moreover have "residue_ok tag v ?q" using q(1) assms(4) by (simp add: residue_ok_def)
  ultimately show ?thesis unfolding residue_of_def by blast
qed

lemma obfs_start_residue:
  assumes "residue_of tag v v1" and "ob_ports (vc_obfs v) loop = None"
    and "obfs_Start refuse tag ip port loop mode host (vc_obfs v1) (vc_net v1) = (e, ob, w)"
  shows "residue_of tag v (v1\<lparr>vc_obfs := ob, vc_net := w\<rparr>)"
proof (cases e)
  case (Some err)
  with assms(3) have "ob = vc_obfs v1" "w = vc_net v1"
    by (auto simp: obfs_Start_def Let_def split: sum.splits)
  with assms(1) show ?thesis by simp
next
  case None
  from assms(1) obtain q where q: "residue_ok tag v q" "v1 = with_residue tag q v" unfolding residue_of_def by blast
  define f where "f = \<lparr>fr_ln = JoinHostPort (if ip = [] then ''0.0.0.0'' else ip) port, fr_loopback = JoinHostPort ''127.0.0.1'' loop,
      fr_http = (ToLower mode = ''http''), fr_host = host\<rparr>"
  have f: "fr_ln f \<notin> vc_net v1"
    "ob = (vc_obfs v1)\<lparr>ob_fronts := (ob_fronts (vc_obfs v1))(tag \<mapsto> f), ob_ports := (ob_ports (vc_obfs v1))(loop \<mapsto> tag)\<rparr>"
    "w = insert (fr_ln f) (vc_net v1) - front_addrs (ob_fronts (vc_obfs v1) tag)"
    using assms(3) None
    by (auto simp: obfs_Start_def net_Listen_def Let_def front_addrs_def f_def split: if_splits option.splits)
  let ?q = "q\<lparr>rs_front := Some f, rs_obports := insert loop (rs_obports q)\<rparr>"
  have w: "w = vc_net v \<union> handler_addrs (rs_handler q) \<union> router_addrs (rs_router q) \<union> {fr_ln f}"
    using f(1) q unfolding f(3) by (auto simp: with_residue_def residue_ok_def)
  have "v1\<lparr>vc_obfs := ob, vc_net := w\<rparr> = with_residue tag ?q v"
    unfolding f(2) w by (rule V2Core.V2Core.equality) (simp_all add: q(2) with_residue_def add_ports_simps front_addrs_def)
  moreover have "residue_ok tag v ?q"
    using q f(1) assms(2) by (auto simp: residue_ok_def with_residue_def front_addrs_def)
  ultimately show ?thesis unfolding residue_of_def by blast
qed

lemma start_front_residue:
  assumes "fresh_tag tag v" and "residue_of tag v v1" and "start_front E info tag port v1 = (e, v2)"
    and "is_shadowtls_node (ce_json E) info \<or> is_obfs_node (ce_json E) info \<longrightarrow>
      sb_ports (vc_singbox v) port = None \<and> ob_ports (vc_obfs v) port = None"
  shows "residue_of tag v v2"
proof -
  have cfg: "sc_Tag (ConfigFromNode J tag cm port) = tag" "sc_InternalPort (ConfigFromNode J tag cm port) = port" for J cm
    by (simp_all add: ConfigFromNode_def Let_def)
  show ?thesis
    using assms(2-4) singbox_start_residue [OF assms(1,2) cfg(1)] obfs_start_residue [OF assms(2)]
    by (auto simp: start_front_def Let_def cfg split: if_splits prod.splits)
qed

lemma add_xray_node_residue:
  assumes "fresh_tag tag v" and "os_ports_fresh E" and "reserved_bound v"
    and "ni_Type info = ''shadowflow'' \<longrightarrow> ni_Tag info = tag" and "residue_of tag v v0"
  shows "residue_of tag v (snd (add_xray_node E tag info ds v0))"
proof -
  have tag: "tag \<noteq> []" using assms(1) by (simp add: fresh_tag_def)
  obtain r v1 where a: "alloc_front E info tag v0 = (r, v1)" by force
  note r1 = alloc_front_residue [OF assms(2,3,5) a]
  show ?thesis
  proof (cases r)
    case (Inl e)
    with a r1 show ?thesis by (simp add: add_xray_node_def)
  next
    case (Inr port)
    let ?listen = "if is_shadowtls_node (ce_json E) info \<or> is_obfs_node (ce_json E) info then ''127.0.0.1'' else []"
    obtain res s where b: "buildInbound (ce_inbound E) (ce_json E) (ce_order E) info tag ds ?listen port (node_state_of v1) = (res, s)" by force
    define v2 where "v2 = set_node_state s v1"
    have r2: "residue_of tag v v2" unfolding v2_def using r1 by (intro build_residue [OF assms(2,4) _ b]) simp
    have rel: "residue_of tag v (release_front (ce_json E) info tag x)" if "residue_of tag v x" for x
      by (rule release_front_residue [OF assms(1) that])
    show ?thesis
    proof (cases "obind res (\<lambda>d. obind (ce_build E d) (\<lambda>b. Return (d, b)))")
      case (Return db)
      then obtain d bt where db: "db = (d, bt)" and d: "res = Return d" by (auto simp: obind_Return)
      obtain e3 v3 where c: "addInbound E d bt v2 = (e3, v3)" by force
      have r3: "residue_of tag v v3"
        by (rule addInbound_residue [OF r2 _ tag c]) (use b d buildInbound_tag in blast)
      obtain e4 v4 where f: "start_front E info tag port v3 = (e4, v4)" by force
      have r4: "residue_of tag v v4"
        using r1 Inr by (intro start_front_residue [OF assms(1) r3 f]) simp
      have "residue_of tag v (snd (removeInbound tag v4))" by (rule removeInbound_residue [OF r4 tag])
      with r3 r4 rel show ?thesis
        by (simp add: add_xray_node_def a Inr b v2_def [symmetric] Return db c f split: option.split)
    qed (use r2 rel in \<open>simp_all add: add_xray_node_def a Inr b v2_def [symmetric]\<close>)
  qed
qed

section \<open>Removing\<close>

lemma cleanup_residue:
  assumes "fresh_tag tag v" and "residue_of tag v v1"
  shows "\<exists>q. residue_ok tag v q \<and> rs_router q = None \<and> \<not> rs_config q \<and> cleanupNodeState tag v1 = with_residue tag q v"
proof -
  from assms(2) obtain q where q: "residue_ok tag v q" "v1 = with_residue tag q v" unfolding residue_of_def by blast
  let ?q = "q\<lparr>rs_router := None, rs_config := False\<rparr>"
  have net: "vc_net v \<union> handler_addrs (rs_handler q) \<union> router_addrs (rs_router q) \<union> front_addrs (rs_front q) - router_addrs (rs_router q) =
      vc_net v \<union> handler_addrs (rs_handler q) \<union> front_addrs (rs_front q)"
    using q(1) by (auto simp: residue_ok_def)
  have "cleanupNodeState tag v1 = with_residue tag ?q v"
    using assms(1) net unfolding q(2)
    by (cases "rs_router q"; intro V2Core.V2Core.equality)
      (auto simp: cleanupNodeState_def with_residue_def fresh_tag_def router_addrs_def Let_def fun_upd_idem split: if_splits)
  moreover have "residue_ok tag v ?q" using q(1) by (auto simp: residue_ok_def router_addrs_def)
  ultimately show ?thesis by (intro exI [of _ ?q]) simp
qed

lemma del_residue:
  assumes "fresh_tag tag v" and "residue_of tag v v1"
  shows "snd (DelNode tag v1) = v"
proof -
  have tag: "tag \<noteq> []" and nf: "native_free tag v" using assms(1) by (simp_all add: fresh_tag_def)
  from cleanup_residue [OF assms] obtain q where q: "residue_ok tag v q" "rs_router q = None" "\<not> rs_config q"
    and c: "cleanupNodeState tag v1 = with_residue tag q v" by blast
  let ?v = "with_residue tag q v"
  obtain sb fs where s: "singbox_Stop tag (vc_singbox ?v) (vc_files ?v) = (sb, fs)" by force
  obtain ob w where ob: "obfs_Stop tag (vc_obfs ?v) (vc_net ?v) = (ob, w)" by force
  have ports: "drop_tag tag (add_ports tag (rs_sbports q) (sb_ports (vc_singbox v))) = sb_ports (vc_singbox v)"
      "drop_tag tag (add_ports tag (rs_obports q) (ob_ports (vc_obfs v))) = ob_ports (vc_obfs v)"
    using q(1) assms(1) by (simp_all add: residue_ok_def fresh_tag_def add_ports_simps)
  have fresh: "sb_insts (vc_singbox v) tag = None" "ob_fronts (vc_obfs v) tag = None" "vc_files v (tag_path tag v) = None" "vc_ihm v tag = None"
    "vc_routers v tag = None"
    using assms(1) by (simp_all add: fresh_tag_def)
  have 1: "sb = vc_singbox v" "fs = vc_files v"
    using s ports(1) fresh q(1) by (cases "rs_inst q"; auto simp: with_residue_def singbox_Stop_def Let_def fun_upd_idem residue_ok_def)+
  have 2: "ob = vc_obfs v" "w = vc_net v \<union> handler_addrs (rs_handler q)"
    using ob ports(2) fresh q(1,2)
    by (cases "rs_front q"; auto simp: with_residue_def obfs_Stop_def fun_upd_idem residue_ok_def front_addrs_def router_addrs_def)+
  have 3: "snd (removeInbound tag (?v\<lparr>vc_singbox := sb, vc_files := fs, vc_obfs := ob, vc_net := w\<rparr>)) = v"
    using tag q fresh unfolding 1 2
    by (cases "rs_handler q"; intro V2Core.V2Core.equality)
      (auto simp: with_residue_def removeInbound_def RemoveHandler_def handler_release_def handler_addrs_def residue_ok_def fun_upd_idem)
  have "native_free tag ?v" using nf by (simp add: native_free_def with_residue_def)
  then have "snd (DelNode tag v1) = snd (removeInbound tag (?v\<lparr>vc_singbox := sb, vc_files := fs, vc_obfs := ob, vc_net := w\<rparr>))"
    by (simp add: DelNode_def c s ob native_free_def split: prod.split option.split)
  with 3 show ?thesis by simp
qed

section \<open>Properties\<close>

lemma cleanup_fresh: "fresh_tag tag v \<Longrightarrow> cleanupNodeState tag v = v"
  by (rule V2Core.V2Core.equality) (auto simp: cleanupNodeState_def fresh_tag_def Let_def fun_upd_idem)

text \<open>The nodes that become Xray inbounds.\<close>

definition xray_node :: "'u core_env \<Rightarrow> NodeInfo \<Rightarrow> bool" where
  "xray_node E info \<longleftrightarrow> ni_Type info \<notin> {''mieru'', ''sudoku'', ''snell'', ''shadowsocksr''}
     \<and> (ni_Type info \<in> {''shadowsocks'', ''trojan''} \<longrightarrow> ni_Common info \<noteq> None)
     \<and> \<not> is_ssaead_node info \<and> \<not> is_trojanss_node (ce_lib E) info"

lemma AddNode_xray: "xray_node E info \<Longrightarrow> AddNode E tag info ds v = add_xray_node E tag info ds v"
  by (auto simp: AddNode_def xray_node_def Let_def)

lemma native_add_del:
  assumes "fresh_tag tag v"
  shows "mgr_Add ''mieru'' mieru_NewRunner tag info (vc_mieru v) = (e1, m1) \<Longrightarrow> snd (DelNode tag (v\<lparr>vc_mieru := m1\<rparr>)) = v"
    and "mgr_Add ''sudoku'' sudoku_NewRunner tag info (vc_sudoku v) = (e2, m2) \<Longrightarrow> snd (DelNode tag (v\<lparr>vc_sudoku := m2\<rparr>)) = v"
    and "mgr_Add ''snell'' snell_NewRunner tag info (vc_snell v) = (e3, m3) \<Longrightarrow> snd (DelNode tag (v\<lparr>vc_snell := m3\<rparr>)) = v"
    and "mgr_Add ''ssaead'' ssaead_NewRunner tag info (vc_ssaead v) = (e4, m4) \<Longrightarrow> snd (DelNode tag (v\<lparr>vc_ssaead := m4\<rparr>)) = v"
    and "mgr_Add ''ssr'' ssr_NewRunner tag info (vc_ssr v) = (e5, m5) \<Longrightarrow> snd (DelNode tag (v\<lparr>vc_ssr := m5\<rparr>)) = v"
    and "mgr_Add ''trojanss'' trojanss_NewRunner tag info (vc_trojanss v) = (e6, m6) \<Longrightarrow> snd (DelNode tag (v\<lparr>vc_trojanss := m6\<rparr>)) = v"
proof -
  have nf: "\<not> mgr_Has tag (vc_mieru v)" "\<not> mgr_Has tag (vc_sudoku v)" "\<not> mgr_Has tag (vc_snell v)"
    "\<not> mgr_Has tag (vc_ssaead v)" "\<not> mgr_Has tag (vc_ssr v)" "\<not> mgr_Has tag (vc_trojanss v)"
    using assms by (simp_all add: fresh_tag_def native_free_def)
  have d: "snd (DelNode tag v) = v" by (rule del_residue [OF assms residue_start [OF assms]])
  have c: "cleanupNodeState tag (v\<lparr>vc_mieru := a1\<rparr>) = v\<lparr>vc_mieru := a1\<rparr>" "cleanupNodeState tag (v\<lparr>vc_sudoku := a2\<rparr>) = v\<lparr>vc_sudoku := a2\<rparr>"
    "cleanupNodeState tag (v\<lparr>vc_snell := a3\<rparr>) = v\<lparr>vc_snell := a3\<rparr>" "cleanupNodeState tag (v\<lparr>vc_ssaead := a4\<rparr>) = v\<lparr>vc_ssaead := a4\<rparr>"
    "cleanupNodeState tag (v\<lparr>vc_ssr := a5\<rparr>) = v\<lparr>vc_ssr := a5\<rparr>" "cleanupNodeState tag (v\<lparr>vc_trojanss := a6\<rparr>) = v\<lparr>vc_trojanss := a6\<rparr>"
    for a1 a2 a3 a4 a5 a6
    using assms by (auto simp: cleanupNodeState_def fresh_tag_def Let_def fun_upd_idem)
  show "snd (DelNode tag (v\<lparr>vc_mieru := m1\<rparr>)) = v" if a: "mgr_Add ''mieru'' mieru_NewRunner tag info (vc_mieru v) = (e1, m1)"
    using mieru.add_del [OF nf(1) a] mieru.add_fails [OF a] d by (cases "mgr_Has tag m1") (simp_all add: DelNode_def c nf)
  show "snd (DelNode tag (v\<lparr>vc_sudoku := m2\<rparr>)) = v" if a: "mgr_Add ''sudoku'' sudoku_NewRunner tag info (vc_sudoku v) = (e2, m2)"
    using sudoku.add_del [OF nf(2) a] sudoku.add_fails [OF a] d by (cases "mgr_Has tag m2") (simp_all add: DelNode_def c nf)
  show "snd (DelNode tag (v\<lparr>vc_snell := m3\<rparr>)) = v" if a: "mgr_Add ''snell'' snell_NewRunner tag info (vc_snell v) = (e3, m3)"
    using snell.add_del [OF nf(3) a] snell.add_fails [OF a] d by (cases "mgr_Has tag m3") (simp_all add: DelNode_def c nf)
  show "snd (DelNode tag (v\<lparr>vc_ssaead := m4\<rparr>)) = v" if a: "mgr_Add ''ssaead'' ssaead_NewRunner tag info (vc_ssaead v) = (e4, m4)"
    using ssaead.add_del [OF nf(4) a] ssaead.add_fails [OF a] d by (cases "mgr_Has tag m4") (simp_all add: DelNode_def c nf)
  show "snd (DelNode tag (v\<lparr>vc_ssr := m5\<rparr>)) = v" if a: "mgr_Add ''ssr'' ssr_NewRunner tag info (vc_ssr v) = (e5, m5)"
    using ssr.add_del [OF nf(5) a] ssr.add_fails [OF a] d by (cases "mgr_Has tag m5") (simp_all add: DelNode_def c nf)
  show "snd (DelNode tag (v\<lparr>vc_trojanss := m6\<rparr>)) = v" if a: "mgr_Add ''trojanss'' trojanss_NewRunner tag info (vc_trojanss v) = (e6, m6)"
    using trojanss.add_del [OF nf(6) a] trojanss.add_fails [OF a] d by (cases "mgr_Has tag m6") (simp_all add: DelNode_def c nf)
qed

text \<open>
  Claim C3. Adding a node and deleting it is the identity on the core, whatever \<open>AddNode\<close> returns (success, an error at any
  point, a recovered panic): \<open>DelNode\<close> gives back the state of before, with no handler, listener, SNI router, front,
  reserved port or file of the node left. This is for a tag the core holds nothing for (\<open>fresh_tag\<close>: neither an entry
  of any manager nor the file of a front), in a core whose reserved loopback ports are bound by their inbounds
  (\<open>reserved_bound\<close>), with an operating system whose port 0 gives ports no listener has (\<open>os_ports_fresh\<close>); and a
  ShadowFlow node must carry the tag it is added under, since its configuration is stored under the tag of the node
  information but deleted under the tag of the call, so with another one it stays behind.
\<close>

theorem del_node_undoes_add:
  assumes "fresh_tag tag v" and "reserved_bound v" and "os_ports_fresh E"
    and "ni_Type info = ''shadowflow'' \<longrightarrow> ni_Tag info = tag"
  shows "snd (DelNode tag (snd (AddNode E tag info ds v))) = v"
proof (cases "xray_node E info")
  case True
  with add_xray_node_residue [OF assms(1,3,2,4) residue_start [OF assms(1)]] show ?thesis
    by (simp add: AddNode_xray del_residue [OF assms(1)])
next
  case False
  have d: "snd (DelNode tag v) = v" by (rule del_residue [OF assms(1) residue_start [OF assms(1)]])
  with False native_add_del [OF assms(1)] show ?thesis
    by (auto simp: AddNode_def xray_node_def Let_def split: prod.split)
qed

definition demo_vless_node :: NodeInfo where
  "demo_vless_node = demo_info\<lparr>ni_Type := ''vless'', ni_Security := 0, ni_Tag := ''t'', ni_Common := Some (zero_CommonNode\<lparr>cn_ServerPort := 443\<rparr>)\<rparr>"

definition demo_os_env :: "validator core_env" where
  "demo_os_env = demo_env\<lparr>ce_inbound := demo_inbound_lib\<lparr>il_routerPort := (\<lambda>w. Inl ''no port'')\<rparr>,
     ce_alloc := (\<lambda>w. if loopback_addr 40000 \<in> w then Inl ''no port'' else Inr 40000)\<rparr>"

lemmas node_eval = AddNode_def demo_vless_node_def demo_info_def is_ssaead_node_def is_trojanss_node_def add_xray_node_def alloc_front_def
  is_shadowtls_node_def is_obfs_node_def buildInbound_def supported_types_def build_protocol_def buildVLess_def vless_decryption_def
  zero_CommonNode_def set_proxy_protocol_def set_security_def SecTls_def SecReality_def demo_os_env_def demo_env_def addInbound_def
  AddHandler_def set_address_def set_keepalive_def start_front_def release_front_def node_state_of_def set_node_state_def demo_core_def
  core_Start_def core_New_def net_Listen_def Let_def empty_InboundDetour_def

theorem del_node_undoes_add_witness:
  "snd (DelNode ''t'' (snd (AddNode demo_os_env ''t'' demo_vless_node False demo_core))) = demo_core
    \<and> vc_ihm (snd (AddNode demo_os_env ''t'' demo_vless_node False demo_core)) ''t'' \<noteq> None"
proof -
  have "fresh_tag ''t'' demo_core"
    by (simp add: fresh_tag_def native_free_def demo_core_def core_Start_def core_New_def mgr_Has_def mgr_New_def mgr_SetDispatcher_def
        singbox_NewManager_def obfs_NewManager_def)
  moreover have "reserved_bound demo_core"
    by (simp add: reserved_bound_def demo_core_def core_Start_def core_New_def singbox_NewManager_def obfs_NewManager_def)
  moreover have "os_ports_fresh demo_os_env" by (simp add: os_ports_fresh_def demo_os_env_def)
  moreover have "ni_Type demo_vless_node = ''shadowflow'' \<longrightarrow> ni_Tag demo_vless_node = ''t''" by (simp add: demo_vless_node_def)
  ultimately have "snd (DelNode ''t'' (snd (AddNode demo_os_env ''t'' demo_vless_node False demo_core))) = demo_core"
    by (rule del_node_undoes_add)
  moreover have "vc_ihm (snd (AddNode demo_os_env ''t'' demo_vless_node False demo_core)) ''t'' \<noteq> None"
    by (simp add: node_eval split: option.split)
  ultimately show ?thesis by blast
qed

lemma alloc_front_ihm: "alloc_front E info tag v = (r, v1) \<Longrightarrow> vc_ihm v1 = vc_ihm v"
  by (auto simp: alloc_front_def Let_def split: if_splits sum.splits prod.splits)

lemma registered_blocks:
  assumes "xray_node E info" and "tag \<noteq> []" and "vc_ihm v tag \<noteq> None"
  shows "fst (AddNode E tag info ds v) \<noteq> None"
proof -
  obtain r v1 where a: "alloc_front E info tag v = (r, v1)" by force
  have h: "vc_ihm (set_node_state s v1) tag \<noteq> None" for s
    using alloc_front_ihm [OF a] assms(3) by (simp add: set_node_state_def)
  have add: "\<exists>e v3. addInbound E d b (set_node_state s v1) = (Some e, v3)" if "id_Tag d = tag" for d b s
    using h [of s] assms(2) that by (auto simp: addInbound_def AddHandler_def split: option.split)
  show ?thesis
  proof (cases r)
    case (Inr port)
    let ?listen = "if is_shadowtls_node (ce_json E) info \<or> is_obfs_node (ce_json E) info then ''127.0.0.1'' else []"
    obtain res s where b: "buildInbound (ce_inbound E) (ce_json E) (ce_order E) info tag ds ?listen port (node_state_of v1) = (res, s)" by force
    show ?thesis
    proof (cases "obind res (\<lambda>d. obind (ce_build E d) (\<lambda>b. Return (d, b)))")
      case (Return db)
      then obtain d bt where db: "db = (d, bt)" and d: "res = Return d" by (auto simp: obind_Return)
      have "id_Tag d = tag" using b d buildInbound_tag by blast
      from add [OF this] obtain e v3 where "addInbound E d bt (set_node_state s v1) = (Some e, v3)" by blast
      then show ?thesis by (simp add: AddNode_xray assms(1) add_xray_node_def a Inr b Return db)
    qed (simp_all add: AddNode_xray assms(1) add_xray_node_def a Inr b)
  qed (simp add: AddNode_xray assms(1) add_xray_node_def a)
qed

text \<open>
  A node that could not listen blocks its tag: when the address of the inbound is in use, \<open>AddNode\<close> fails but leaves a handler
  that does not run registered under the tag, and from then on every \<open>AddNode\<close> of an Xray node for the tag fails, also
  when the address has become free, until the node is deleted.
\<close>

theorem stale_handler_blocks_tag:
  assumes "xray_node E info" and "\<not> is_shadowtls_node (ce_json E) info" and "\<not> is_obfs_node (ce_json E) info" and "tag \<noteq> []"
    and "vc_ihm v tag = None"
    and "buildInbound (ce_inbound E) (ce_json E) (ce_order E) info tag ds [] 0 (node_state_of v) = (Return d, s)"
    and "ce_build E d = Return b" and "bt_create b = None" and "inbound_addr d \<in> nd_net s"
  shows "\<exists>v1. AddNode E tag info ds v = (Some ''add inbound error: bind: address already in use'', v1)
    \<and> (\<forall>E' info' ds' w. xray_node E' info' \<longrightarrow> fst (AddNode E' tag info' ds' (v1\<lparr>vc_net := w\<rparr>)) \<noteq> None)"
proof -
  let ?h = "\<lparr>hn_addr = inbound_addr d, hn_running = False, hn_users = bt_users b\<rparr>"
  let ?v1 = "(set_node_state s v)\<lparr>vc_ihm := (vc_ihm v)(tag \<mapsto> ?h)\<rparr>"
  have tag: "id_Tag d = tag" by (rule buildInbound_tag [OF assms(6)])
  have a: "alloc_front E info tag v = (Inr 0, v)" using assms(2,3) by (simp add: alloc_front_def)
  have "addInbound E d b (set_node_state s v) = (Some ''bind: address already in use'', ?v1)"
    using assms(4,5,8,9) by (simp add: addInbound_def AddHandler_def tag net_Listen_def set_node_state_def Let_def)
  then have "AddNode E tag info ds v = (Some ''add inbound error: bind: address already in use'', ?v1)"
    using assms(2,3) by (simp add: AddNode_xray [OF assms(1)] add_xray_node_def a assms(6,7) release_front_def)
  then show ?thesis by (intro exI [of _ ?v1]) (simp add: registered_blocks assms(4))
qed

theorem stale_handler_blocks_tag_witness:
  "\<exists>v1 w. AddNode demo_os_env ''t'' demo_vless_node False (demo_core\<lparr>vc_net := {w}\<rparr>) = (Some ''add inbound error: bind: address already in use'', v1)
     \<and> fst (AddNode demo_os_env ''t'' demo_vless_node False (v1\<lparr>vc_net := {}\<rparr>)) \<noteq> None"
proof -
  have x: "xray_node demo_os_env demo_vless_node" "\<not> is_shadowtls_node (ce_json demo_os_env) demo_vless_node"
    "\<not> is_obfs_node (ce_json demo_os_env) demo_vless_node"
    by (simp_all add: xray_node_def node_eval)
  let ?b = "\<lambda>v :: validator V2Core. buildInbound (ce_inbound demo_os_env) (ce_json demo_os_env) (ce_order demo_os_env) demo_vless_node ''t'' False [] 0 (node_state_of v)"
  obtain d where d: "\<And>v. ?b v = (Return d, node_state_of v)" by (simp add: node_eval)
  let ?v = "demo_core\<lparr>vc_net := {inbound_addr d}\<rparr>"
  have "vc_ihm ?v ''t'' = None" by (simp add: node_eval)
  moreover have "\<exists>b. ce_build demo_os_env d = Return b \<and> bt_create b = None" by (simp add: node_eval)
  moreover have "inbound_addr d \<in> nd_net (node_state_of ?v)" by (simp add: node_state_of_def)
  ultimately show ?thesis
    using stale_handler_blocks_tag [OF x _ _ d [of ?v]] x(1) by blast
qed

section \<open>Reserved ports are bound\<close>

lemma ss_protocol:
  "buildShadowsocks L J cm d = Return d' \<Longrightarrow> id_Protocol d' = ''shadowsocks''"
  by (auto simp: buildShadowsocks_def ss_plain_def ss_websocket_def with_transport_def Let_def split: if_splits option.splits sum.splits prod.splits outcome.splits bool.splits)

lemma set_security_protocol:
  "set_security L order tag info cm d s = (Return d', s') \<Longrightarrow> id_Protocol d' = id_Protocol d"
  by (auto simp: set_security_def set_tls_def set_reality_def update_stream_def Let_def split: if_splits option.splits sum.splits prod.splits)

lemma loopback_inbound_addr:
  assumes "buildInbound L J order info tag ds ''127.0.0.1'' p s = (Return d, s')" and "ni_Type info = ''shadowsocks''"
    and "0 < p" and "p < 65536"
  shows "inbound_addr d = loopback_addr p"
  using assms(1)
proof (rule buildInbound_ReturnE)
  fix cm d0 d1 d2 s1
  assume p: "build_protocol L J (ni_Type info) cm = Return d0" and pp: "set_proxy_protocol L cm d0 = Return d1"
    and sec: "set_security L order tag info cm (set_address cm ds ''127.0.0.1'' p (set_keepalive (ni_Type info) cm d1)) s1 = (Return d2, s')"
    and d: "d = d2\<lparr>id_Tag := tag\<rparr>"
  have "id_Protocol d0 = ''shadowsocks''" using p assms(2) by (auto simp: build_protocol_def Let_def intro: ss_protocol)
  then have "id_Protocol d1 = ''shadowsocks''"
    using pp by (auto simp: set_proxy_protocol_def Let_def split: if_splits sum.splits bool.splits)
  then have "id_Protocol d2 = ''shadowsocks''"
    using set_security_protocol [OF sec] by (simp add: set_address_def set_keepalive_def Let_def)
  then show ?thesis
    using set_security_keeps [OF sec] assms(3,4) unfolding d
    by (simp add: inbound_addr_def set_address_def Let_def JoinHostPort_def loopback_addr_def)
qed

lemma alloc_front_ports:
  assumes "alloc_front E info tag v = (Inr port, v1)"
  shows "(\<forall>p. sb_ports (vc_singbox v1) p \<noteq> None \<or> ob_ports (vc_obfs v1) p \<noteq> None \<longrightarrow>
      sb_ports (vc_singbox v) p \<noteq> None \<or> ob_ports (vc_obfs v) p \<noteq> None \<or>
      p = port \<and> (is_shadowtls_node (ce_json E) info \<or> is_obfs_node (ce_json E) info) \<and> ce_alloc E (vc_net v) = Inr port)
    \<and> ob_fronts (vc_obfs v1) = ob_fronts (vc_obfs v)"
  using assms by (auto simp: alloc_front_def singbox_AllocPort_def obfs_AllocPort_def Let_def split: if_splits sum.splits)

lemma addInbound_bound:
  assumes "addInbound E d b v = (None, v')"
  shows "vc_net v' = insert (inbound_addr d) (vc_net v) \<and> vc_singbox v' = vc_singbox v \<and> vc_obfs v' = vc_obfs v"
  using assms by (auto simp: addInbound_def AddHandler_def net_Listen_def Let_def split: option.splits sum.splits if_splits)

lemma start_front_bound:
  assumes "start_front E info tag port v = (None, v')" and "ob_fronts (vc_obfs v) tag = None"
  shows "vc_net v \<subseteq> vc_net v' \<and> (\<forall>p. sb_ports (vc_singbox v') p \<noteq> None \<or> ob_ports (vc_obfs v') p \<noteq> None \<longrightarrow>
      sb_ports (vc_singbox v) p \<noteq> None \<or> ob_ports (vc_obfs v) p \<noteq> None \<or>
      p = port \<and> (is_shadowtls_node (ce_json E) info \<or> is_obfs_node (ce_json E) info))"
  using assms
  by (auto simp: start_front_def singbox_StartOrReload_def singbox_Stop_def obfs_Start_def net_Listen_def drop_tag_def ConfigFromNode_def
        Let_def split: if_splits option.splits sum.splits prod.splits)

text \<open>
  A successful \<open>AddNode\<close> keeps \<open>reserved_bound\<close>: a node with a front reserves the port its inbound then binds, any other
  node reserves none. The ports the operating system hands out are TCP ports.
\<close>

lemma add_keeps_reserved_bound:
  assumes "fresh_tag tag v" and "reserved_bound v" and "os_ports_fresh E" and "ni_Type info = ''shadowflow'' \<longrightarrow> ni_Tag info = tag"
    and "\<forall>w p. ce_alloc E w = Inr p \<longrightarrow> 0 < p \<and> p < 65536"
    and "AddNode E tag info ds v = (None, v')"
  shows "reserved_bound v'"
proof (cases "xray_node E info")
  case False
  with assms(2,6) show ?thesis
    by (auto simp: AddNode_def xray_node_def reserved_bound_def Let_def split: prod.splits if_splits)
next
  case True
  let ?fr = "is_shadowtls_node (ce_json E) info \<or> is_obfs_node (ce_json E) info"
  let ?listen = "if ?fr then ''127.0.0.1'' else []"
  from assms(6) True have a6: "add_xray_node E tag info ds v = (None, v')" by (simp add: AddNode_xray)
  then obtain port v1 where a: "alloc_front E info tag v = (Inr port, v1)"
    by (auto simp: add_xray_node_def split: prod.splits sum.splits)
  obtain res s where b: "buildInbound (ce_inbound E) (ce_json E) (ce_order E) info tag ds ?listen port (node_state_of v1) = (res, s)" by force
  define v2 where "v2 = set_node_state s v1"
  obtain db where db: "obind res (\<lambda>d. obind (ce_build E d) (\<lambda>b. Return (d, b))) = Return db"
    using a6 by (cases "obind res (\<lambda>d. obind (ce_build E d) (\<lambda>b. Return (d, b)))") (simp_all add: add_xray_node_def a b)
  then obtain d bt where d: "res = Return d" and built: "db = (d, bt)" by (auto simp: obind_Return)
  note built = db [unfolded built]
  obtain e3 v3 where c: "addInbound E d bt v2 = (e3, v3)" by force
  have e3: "e3 = None" using a6 c by (cases e3) (simp_all add: add_xray_node_def a b built v2_def)
  have f: "start_front E info tag port v3 = (None, v')"
    using a6 c e3 by (auto simp: add_xray_node_def a b built v2_def split: option.splits prod.splits)
  note c = c [unfolded e3, THEN addInbound_bound]
  note ports1 = alloc_front_ports [OF a]
  have st2: "vc_singbox v2 = vc_singbox v1" "vc_obfs v2 = vc_obfs v1" by (simp_all add: v2_def set_node_state_def)
  have "residue_of tag v v1" using alloc_front_residue [OF assms(3,2) residue_start [OF assms(1)] a] by blast
  from residue_net [OF build_residue [OF assms(3,4) this b]] have net: "vc_net v \<subseteq> vc_net v2" by (simp add: v2_def)
  have fronts: "ob_fronts (vc_obfs v3) tag = None" using c st2 ports1 assms(1) by (simp add: fresh_tag_def)
  note started = start_front_bound [OF f fronts]
  have "loopback_addr port \<in> vc_net v3" if ?fr and al: "ce_alloc E (vc_net v) = Inr port"
  proof -
    have "ni_Type info = ''shadowsocks''" using that by (auto simp: is_shadowtls_node_def is_obfs_node_def)
    then show ?thesis
      using loopback_inbound_addr [of "ce_inbound E" "ce_json E" "ce_order E" info tag ds port "node_state_of v1" d s]
        b d that c assms(5) by simp
  qed
  moreover have "ce_alloc E (vc_net v) = Inr port" if ?fr
    using a that by (auto simp: alloc_front_def singbox_AllocPort_def obfs_AllocPort_def Let_def split: if_splits sum.splits)
  ultimately show ?thesis
    using assms(2) net started ports1 c st2 unfolding reserved_bound_def by (metis insert_iff subset_iff)
qed

end
