(* ===== verification/Controller.thy ===== *)
theory Controller
  imports Node_Lifecycle Limiter_Props
begin

text \<open>
  The controller of one node (\<open>node/controller.go\<close>, \<open>node/task.go\<close>, \<open>node/user.go\<close>, \<open>node/cert.go\<close>): starting and
  closing, the periodic synchronisation with the panel and the traffic report. The world is the core, the limiters of all
  nodes and the certificate files. The controller's pointer to its limiter and the entry of the limiter
  table are the same object, so the controller's calls update the entry of its tag. The panel's replies, the iteration orders of
  maps and the certificate tools are arguments; sleeping is not modelled.
\<close>

section \<open>State\<close>

record Controller =
  ct_apiClient :: Client
  ct_tag :: string
  ct_limiter :: bool
  ct_userList :: "UserInfo list"
  ct_aliveMap :: "int \<rightharpoonup> int"
  ct_conf :: NodeConfig
  ct_global :: GlobalConfig
  ct_info :: "NodeInfo option"
  ct_monitorEvery :: "int option"
  ct_reportEvery :: "int option"
  ct_renews :: bool
  ct_reconcileCounter :: int
  ct_portFailCount :: int
  ct_reportInterval :: int
  ct_speedWarn :: "int \<rightharpoonup> int"

record 'u World =
  wo_core :: "'u V2Core"
  wo_limiters :: limiters
  wo_certs :: "string \<rightharpoonup> string"

definition NewController :: "Client \<Rightarrow> NodeConfig \<Rightarrow> NodeInfo option \<Rightarrow> GlobalConfig \<Rightarrow> Controller" where
  "NewController api cfg info global =
     \<lparr>ct_apiClient = api, ct_tag = [], ct_limiter = False, ct_userList = [], ct_aliveMap = Map.empty, ct_conf = cfg, ct_global = global,
      ct_info = info, ct_monitorEvery = None, ct_reportEvery = None, ct_renews = False, ct_reconcileCounter = 0,
      ct_portFailCount = 0, ct_reportInterval = 0, ct_speedWarn = Map.empty\<rparr>"

definition update_limiter :: "string \<Rightarrow> (Limiter \<Rightarrow> Limiter) \<Rightarrow> 'u World \<Rightarrow> 'u World" where
  "update_limiter tag f w =
     (case wo_limiters w tag of None \<Rightarrow> w | Some l \<Rightarrow> w\<lparr>wo_limiters := (wo_limiters w)(tag \<mapsto> f l)\<rparr>)"

text \<open>How a step of the controller goes on: with the next one, with a logged error and no further step, or with a panic.\<close>

datatype flow = Continue | Stop goerror | Crash string

text \<open>Deleting and adding users, skipped for an empty list, as every caller does.\<close>

definition delete_users :: "'u core_env \<Rightarrow> string \<Rightarrow> UserInfo list \<Rightarrow> 'u V2Core \<Rightarrow> goerror option \<times> 'u V2Core" where
  "delete_users E tag us v = (if us = [] then (None, v) else core_DelUsers E us tag v)"

definition add_users :: "'u core_env \<Rightarrow> string \<Rightarrow> NodeInfo \<Rightarrow> UserInfo list \<Rightarrow> 'u V2Core \<Rightarrow> nat outcome \<times> 'u V2Core" where
  "add_users E tag info us v = (if us = [] then (Return 0, v) else core_AddUsers E tag info us v)"

section \<open>Certificates\<close>

text \<open>Does a file exist; creating the ACME client, obtaining and renewing a certificate; the self-signed pair; writing a file.\<close>

record cert_env =
  cx_IsExist :: "string \<Rightarrow> bool"
  cx_NewLego :: "CertInfo \<Rightarrow> goerror option"
  cx_CreateCert :: "CertInfo \<Rightarrow> goerror option \<times> (string \<rightharpoonup> string)"
  cx_SelfSigned :: "CertInfo \<Rightarrow> goerror option \<times> (string \<rightharpoonup> string)"
  cx_RenewCert :: "CertInfo \<Rightarrow> goerror option \<times> (string \<rightharpoonup> string)"
  cx_WriteFile :: "string \<Rightarrow> goerror option"

definition override_cert :: "CertConfig \<Rightarrow> CertInfo \<Rightarrow> CertInfo" where
  "override_cert cc ci =
     ci\<lparr>ci_CertMode := (if cc_CertMode cc \<noteq> [] then cc_CertMode cc else ci_CertMode ci),
        ci_Provider := (if cc_Provider cc \<noteq> [] then cc_Provider cc else ci_Provider ci),
        ci_Email := (if cc_Email cc \<noteq> [] then cc_Email cc else ci_Email ci),
        ci_DNSEnv := (case cc_DNSEnv cc of Some m \<Rightarrow> (if dom m \<noteq> {} then m else ci_DNSEnv ci) | None \<Rightarrow> ci_DNSEnv ci),
        ci_CertFile := (if cc_CertFile cc \<noteq> [] then cc_CertFile cc else ci_CertFile ci),
        ci_KeyFile := (if cc_KeyFile cc \<noteq> [] then cc_KeyFile cc else ci_KeyFile ci)\<rparr>"

definition node_cert :: "NodeInfo option \<Rightarrow> CertInfo option" where
  "node_cert info = (case info of None \<Rightarrow> None | Some n \<Rightarrow> (case ni_Common n of None \<Rightarrow> None | Some cm \<Rightarrow> cn_CertInfo cm))"

definition set_node_cert :: "CertInfo \<Rightarrow> NodeInfo \<Rightarrow> NodeInfo" where
  "set_node_cert ci n = n\<lparr>ni_Common := map_option (\<lambda>cm. cm\<lparr>cn_CertInfo := Some ci\<rparr>) (ni_Common n)\<rparr>"

definition applyCertOverride :: "Controller \<Rightarrow> Controller" where
  "applyCertOverride c =
     (case (EffectiveCert (ct_conf c) (ct_global c), node_cert (ct_info c)) of
        (Some cc, Some ci) \<Rightarrow> c\<lparr>ct_info := map_option (set_node_cert (override_cert cc ci)) (ct_info c)\<rparr>
      | _ \<Rightarrow> c)"

text \<open>Requesting a certificate: the error and the files afterwards.\<close>

definition no_paths :: "CertInfo \<Rightarrow> bool" where
  "no_paths ci \<longleftrightarrow> ci_CertFile ci = [] \<or> ci_KeyFile ci = []"

definition have_files :: "cert_env \<Rightarrow> CertInfo \<Rightarrow> bool" where
  "have_files X ci \<longleftrightarrow> cx_IsExist X (ci_CertFile ci) \<and> cx_IsExist X (ci_KeyFile ci)"

definition write_remote :: "cert_env \<Rightarrow> CertInfo \<Rightarrow> (string \<rightharpoonup> string) \<Rightarrow> goerror option \<times> (string \<rightharpoonup> string)" where
  "write_remote X ci fs =
     (case cx_WriteFile X (ci_CertFile ci) of
        Some e \<Rightarrow> (Some (''write remote cert error: '' @ e), fs)
      | None \<Rightarrow>
          (let fs1 = fs(ci_CertFile ci \<mapsto> ci_TlsCert ci) in
           case cx_WriteFile X (ci_KeyFile ci) of
             Some e \<Rightarrow> (Some (''write remote key error: '' @ e), fs1)
           | None \<Rightarrow> (None, fs1(ci_KeyFile ci \<mapsto> ci_TlsKey ci))))"

definition requestCert :: "cert_env \<Rightarrow> CertInfo \<Rightarrow> (string \<rightharpoonup> string) \<Rightarrow> goerror option \<times> (string \<rightharpoonup> string)" where
  "requestCert X ci fs =
     (let missing = (Some ''cert file path or key file path not exist'', fs) in
      if ci_CertMode ci = ''none'' \<or> ci_CertMode ci = [] then (None, fs)
      else if ci_CertMode ci = ''file'' then (if no_paths ci then missing else (None, fs))
      else if ci_CertMode ci = ''dns'' \<or> ci_CertMode ci = ''http'' then
        (if no_paths ci then missing
         else if have_files X ci then (None, fs)
         else (case cx_NewLego X ci of
                 Some e \<Rightarrow> (Some (''create lego object error: '' @ e), fs)
               | None \<Rightarrow> (case cx_CreateCert X ci of
                   (Some e, new) \<Rightarrow> (Some (''create lego cert error: '' @ e), fs ++ new)
                 | (None, new) \<Rightarrow> (None, fs ++ new))))
      else if ci_CertMode ci = ''self'' then
        (if no_paths ci then missing
         else if have_files X ci then (None, fs)
         else (case cx_SelfSigned X ci of
                 (Some e, new) \<Rightarrow> (Some (''generate self cert error: '' @ e), fs ++ new)
               | (None, new) \<Rightarrow> (None, fs ++ new)))
      else if ci_CertMode ci = ''remote'' then
        (if no_paths ci then missing
         else if ci_TlsCert ci = [] \<or> ci_TlsKey ci = [] then (Some ''remote certmode requires tls_cert/tls_key from panel'', fs)
         else write_remote X ci fs)
      else (Some (''unsupported certmode: '' @ ci_CertMode ci), fs))"

text \<open>The daily renewal: errors are logged only. The certificate description is read from the node the controller holds.\<close>

definition renewCertTask :: "cert_env \<Rightarrow> Controller \<Rightarrow> 'u World \<Rightarrow> unit outcome \<times> 'u World" where
  "renewCertTask X c w =
     (case node_cert (ct_info c) of
        None \<Rightarrow> (Panic ''invalid memory address or nil pointer dereference'', w)
      | Some ci \<Rightarrow>
          (case cx_NewLego X ci of
             Some e \<Rightarrow> (Return (), w)
           | None \<Rightarrow> (Return (), w\<lparr>wo_certs := wo_certs w ++ snd (cx_RenewCert X ci)\<rparr>)))"

section \<open>Starting and closing\<close>

definition renewable :: "string \<Rightarrow> bool" where
  "renewable mode \<longleftrightarrow> mode \<notin> {''none'', [], ''file'', ''self'', ''remote''}"

definition startTasks :: "NodeInfo \<Rightarrow> Controller \<Rightarrow> Controller" where
  "startTasks node c =
     (let sec = (if nc_PullInterval (ct_conf c) \<le> 0 then gc_PullInterval (ct_global c) else nc_PullInterval (ct_conf c));
          pull = (if 0 < sec then i64 (sec * 1000000000) else ni_PullInterval node);
          push = (if 0 < sec then i64 (sec * 1000000000) else ni_PushInterval node);
          renews = (ni_Security node = SecTls \<and> (case node_cert (ct_info c) of None \<Rightarrow> False | Some ci \<Rightarrow> renewable (ci_CertMode ci)))
      in c\<lparr>ct_reportInterval := push, ct_monitorEvery := Some pull, ct_reportEvery := Some push, ct_renews := renews\<rparr>)"

record start_input =
  si_node :: "string reply"
  si_users :: "user_reply reply"
  si_alive :: "(int \<times> (goerror + (int \<rightharpoonup> int) option)) reply"

text \<open>
  The first phase of \<open>Start\<close>: the node (fetched when the controller has none), its users and the alive
  counts. The controller keeps what was fetched, also when a later request fails.
\<close>

definition fetch_node :: "json_codec \<Rightarrow> start_input \<Rightarrow> Controller \<Rightarrow> NodeInfo outcome \<times> Controller" where
  "fetch_node J i c =
     (case ct_info c of
        Some n \<Rightarrow> (Return n, c)
      | None \<Rightarrow>
          (case GetNodeInfo J (ct_apiClient c) (si_node i) of
             Return n \<Rightarrow> (Return n, c\<lparr>ct_info := Some n\<rparr>)
           | Error e \<Rightarrow> (Error (''get node info error: '' @ e), c)
           | Panic p \<Rightarrow> (Panic p, c)))"

definition fetch_start :: "json_codec \<Rightarrow> start_input \<Rightarrow> Controller \<Rightarrow> NodeInfo outcome \<times> Controller" where
  "fetch_start J i c =
     (case fetch_node J i c of
        (Return node, c1) \<Rightarrow>
          (case GetUserList (si_users i) of
             Inl e \<Rightarrow> (Error (''get user list error: '' @ e), c1\<lparr>ct_userList := []\<rparr>)
           | Inr (us, etag) \<Rightarrow>
               (case GetUserAlive (si_alive i) (CommitUserEtag etag (ct_apiClient c1)) of
                  (alive, api) \<Rightarrow> (Return node,
                    c1\<lparr>ct_userList := us, ct_apiClient := api, ct_aliveMap := (case alive of None \<Rightarrow> Map.empty | Some m \<Rightarrow> m), ct_tag := ni_Tag node\<rparr>)))
      | (r, c1) \<Rightarrow> (r, c1))"

text \<open>The second phase: the limiter and the certificate.\<close>

definition start_cert :: "cert_env \<Rightarrow> Controller \<Rightarrow> 'u World \<Rightarrow> goerror option \<times> 'u World" where
  "start_cert X c w =
     (case (ct_info c, node_cert (ct_info c)) of
        (Some n, Some ci) \<Rightarrow>
          if ni_Security n = SecTls then
            (case requestCert X ci (wo_certs w) of
               (e, fs) \<Rightarrow> (map_option (\<lambda>x. ''request cert error: '' @ x) e, w\<lparr>wo_certs := fs\<rparr>))
          else (None, w)
      | _ \<Rightarrow> (None, w))"

text \<open>The last phase: the node and its users in the core, then the periodic tasks.\<close>

definition start_node :: "'u core_env \<Rightarrow> NodeInfo \<Rightarrow> Controller \<Rightarrow> 'u World \<Rightarrow> unit outcome \<times> Controller \<times> 'u World" where
  "start_node E node c w =
     (case AddNode E (ct_tag c) node (SniffDisabled (ct_conf c) (ct_global c)) (wo_core w) of
        (Some e, v) \<Rightarrow> (Error (''add new node error: '' @ e), c, w\<lparr>wo_core := v\<rparr>)
      | (None, v) \<Rightarrow>
          (case add_users E (ct_tag c) node (ct_userList c) v of
                  (Error e, v') \<Rightarrow> (Error (''add users error: '' @ e), c, w\<lparr>wo_core := v'\<rparr>)
                | (Panic p, v') \<Rightarrow> (Panic p, c, w\<lparr>wo_core := v'\<rparr>)
                | (Return n, v') \<Rightarrow> (Return (), startTasks node (c\<lparr>ct_info := Some node\<rparr>), w\<lparr>wo_core := v'\<rparr>)))"

text \<open>
  \<open>Start\<close>. The node and the controller's information are one object in the code, so the certificate override is seen by
  \<open>AddNode\<close> too. A TLS node without a certificate description makes the request panic.
\<close>

definition ctl_Start :: "'u core_env \<Rightarrow> cert_env \<Rightarrow> start_input \<Rightarrow> Controller \<Rightarrow> 'u World \<Rightarrow> unit outcome \<times> Controller \<times> 'u World" where
  "ctl_Start E X i c0 w0 =
     (case fetch_start (ce_json E) i c0 of
        (Error e, c1) \<Rightarrow> (Error e, c1, w0)
      | (Panic p, c1) \<Rightarrow> (Panic p, c1, w0)
      | (Return node0, c1) \<Rightarrow>
          (let w1 = w0\<lparr>wo_limiters := AddLimiter (ni_Type node0) (ct_tag c1) (ct_userList c1) (ct_aliveMap c1)
                          (nc_SpeedLimit (ct_conf c1)) (nc_DeviceLimit (ct_conf c1)) (wo_limiters w0)\<rparr>;
               c2 = applyCertOverride (c1\<lparr>ct_limiter := True\<rparr>);
               node = the (ct_info c2)
           in if ni_Security node = SecTls \<and> node_cert (ct_info c2) = None
              then (Panic ''invalid memory address or nil pointer dereference'', c2, w1)
              else (case start_cert X c2 w1 of
                      (Some e, w2) \<Rightarrow> (Error e, c2, w2)
                    | (None, w2) \<Rightarrow> start_node E node c2 w2)))"

definition ctl_close :: "bool \<Rightarrow> Controller \<Rightarrow> 'u World \<Rightarrow> goerror option \<times> 'u World" where
  "ctl_close deleteLimiter c w =
     (let w1 = (if deleteLimiter then w\<lparr>wo_limiters := DeleteLimiter (ct_tag c) (wo_limiters w)\<rparr> else w) in
      case DelNode (ct_tag c) (wo_core w1) of
        (e, v) \<Rightarrow> (map_option (\<lambda>x. ''del node error: '' @ x) e, w1\<lparr>wo_core := v\<rparr>))"

section \<open>Synchronisation with the panel\<close>

definition userReconcileEvery :: int where "userReconcileEvery = 5"

definition tls_differ :: "TlsSettings \<Rightarrow> TlsSettings \<Rightarrow> bool" where
  "tls_differ x y \<longleftrightarrow> ts_ServerName x \<noteq> ts_ServerName y \<or> ts_PrivateKey x \<noteq> ts_PrivateKey y \<or> ts_Dest x \<noteq> ts_Dest y
     \<or> ts_CertMode x \<noteq> ts_CertMode y \<or> ts_EchKey x \<noteq> ts_EchKey y \<or> ts_TlsCert x \<noteq> ts_TlsCert y"

definition listener_differs :: "CommonNode \<Rightarrow> CommonNode \<Rightarrow> bool" where
  "listener_differs x y \<longleftrightarrow> cn_ServerPort x \<noteq> cn_ServerPort y \<or> cn_Protocol x \<noteq> cn_Protocol y \<or> cn_ListenIP x \<noteq> cn_ListenIP y
     \<or> cn_Network x \<noteq> cn_Network y \<or> cn_Tls x \<noteq> cn_Tls y \<or> cn_Flow x \<noteq> cn_Flow y \<or> cn_Cipher x \<noteq> cn_Cipher y
     \<or> cn_ServerKey x \<noteq> cn_ServerKey y \<or> cn_ServerName x \<noteq> cn_ServerName y \<or> cn_CongestionControl x \<noteq> cn_CongestionControl y
     \<or> cn_Encryption x \<noteq> cn_Encryption y"

definition nodeNeedsRebuild :: "NodeInfo option \<Rightarrow> NodeInfo option \<Rightarrow> bool" where
  "nodeNeedsRebuild old new =
     (case (old, new) of
        (Some ol, Some nw) \<Rightarrow>
          (case (ni_Common ol, ni_Common nw) of
             (Some x, Some y) \<Rightarrow>
               listener_differs x y \<or> cn_NetworkSettings x \<noteq> cn_NetworkSettings y
               \<or> tls_differ (cn_TlsSettings x) (cn_TlsSettings y) \<or> ni_Security ol \<noteq> ni_Security nw
           | _ \<Rightarrow> True)
      | _ \<Rightarrow> True)"

text \<open>
  The diff of two user lists. A user of the new list that is in the old one is taken out of the map, so that a second
  occurrence counts as added; what remains in the map at the end, in the order of the map, is deleted.
\<close>

fun compare_new :: "UserInfo list \<Rightarrow> (string \<rightharpoonup> UserInfo) \<Rightarrow> UserInfo list \<times> UserInfo list \<times> (string \<rightharpoonup> UserInfo)" where
  "compare_new [] m = ([], [], m)"
| "compare_new (u # us) m =
     (case m (ui_Uuid u) of
        None \<Rightarrow> (case compare_new us m of (added, modified, m') \<Rightarrow> (u # added, modified, m'))
      | Some old \<Rightarrow>
          (case compare_new us (m(ui_Uuid u := None)) of
             (added, modified, m') \<Rightarrow>
               (added, if ui_SpeedLimit old \<noteq> ui_SpeedLimit u \<or> ui_DeviceLimit old \<noteq> ui_DeviceLimit u then u # modified else modified, m')))"

definition compareUserList :: "((string \<rightharpoonup> UserInfo) \<Rightarrow> string list) \<Rightarrow> UserInfo list \<Rightarrow> UserInfo list \<Rightarrow> UserInfo list \<times> UserInfo list \<times> UserInfo list" where
  "compareUserList order old new =
     (let oldMap = fold (\<lambda>u m. m(ui_Uuid u \<mapsto> u)) old Map.empty in
      case compare_new new oldMap of
        (added, modified, rest) \<Rightarrow> (range_fold (\<lambda>k u acc. acc @ [u]) (order rest) rest [], added, modified))"

record cycle_input =
  cy_node :: "string reply"
  cy_users :: "user_reply reply"
  cy_alive :: "(int \<times> (goerror + (int \<rightharpoonup> int) option)) reply"
  cy_refuse :: "string \<Rightarrow> goerror option"
  cy_order :: "(string \<rightharpoonup> UserInfo) \<Rightarrow> string list"
  cy_coreOrder :: "string list"

definition UserNotModified :: string where "UserNotModified = ''UserNotModified''"

text \<open>The first part of a cycle: the node. After a change it is deleted, added again and given its users.\<close>

definition sync_node :: "'u core_env \<Rightarrow> NodeInfo \<Rightarrow> Controller \<Rightarrow> 'u World \<Rightarrow> flow \<times> Controller \<times> 'u World" where
  "sync_node E newN c w =
     (if nodeNeedsRebuild (ct_info c) (Some newN) then
        (case DelNode (ct_tag c) (wo_core w) of
           (Some e, v) \<Rightarrow> (Stop e, c, w\<lparr>wo_core := v\<rparr>)
         | (None, v) \<Rightarrow>
             (case AddNode E (ct_tag c) newN (SniffDisabled (ct_conf c) (ct_global c)) v of
                (Some e, v1) \<Rightarrow> (Stop e, c, w\<lparr>wo_core := v1\<rparr>)
              | (None, v1) \<Rightarrow>
                  (case add_users E (ct_tag c) newN (ct_userList c) v1 of
                          (Error e, v2) \<Rightarrow> (Stop e, c, w\<lparr>wo_core := v2\<rparr>)
                        | (Panic p, v2) \<Rightarrow> (Crash p, c, w\<lparr>wo_core := v2\<rparr>)
                        | (Return n, v2) \<Rightarrow> (Continue, c\<lparr>ct_info := Some newN\<rparr>, w\<lparr>wo_core := v2\<rparr>))))
      else (Continue, c\<lparr>ct_info := Some newN\<rparr>, w))"

text \<open>
  The users. \<open>users\<close> is what the request gave: a new list with its tag, or \<open>None\<close> when the panel reported no change.
  An empty list is not taken for a change while the node has users.
\<close>

definition sync_users ::
  "'u core_env \<Rightarrow> ((string \<rightharpoonup> UserInfo) \<Rightarrow> string list) \<Rightarrow> (UserInfo list \<times> string) option \<Rightarrow> Controller \<Rightarrow> 'u World \<Rightarrow> flow \<times> Controller \<times> 'u World" where
  "sync_users E order users c w =
     (case users of
        None \<Rightarrow> (Continue, c, w)
      | Some (newU, etag) \<Rightarrow>
          if newU = [] \<and> ct_userList c \<noteq> [] then (Continue, c, w)
          else
            (case compareUserList order (ct_userList c) newU of
               (deleted, added, modified) \<Rightarrow>
                 (case delete_users E (ct_tag c) deleted (wo_core w) of
                    (Some e, v) \<Rightarrow> (Stop e, c, w\<lparr>wo_core := v\<rparr>)
                  | (None, v) \<Rightarrow>
                      (case add_users E (ct_tag c) (the (ct_info c)) added v of
                         (Error e, v1) \<Rightarrow> (Stop e, c, w\<lparr>wo_core := v1\<rparr>)
                       | (Panic p, v1) \<Rightarrow> (Crash p, c, w\<lparr>wo_core := v1\<rparr>)
                       | (Return n, v1) \<Rightarrow>
                           (let w1 = w\<lparr>wo_core := v1\<rparr>;
                                w2 = (if added \<noteq> [] \<or> deleted \<noteq> [] \<or> modified \<noteq> []
                                      then update_limiter (ct_tag c) (UpdateUser (ct_tag c) added deleted modified) w1 else w1)
                            in (Continue, c\<lparr>ct_userList := newU, ct_apiClient := CommitUserEtag etag (ct_apiClient c)\<rparr>, w2))))))"

text \<open>
  The drift repair: users the panel wants and the core's record lacks are added, users of the record the panel does not
  want (visited in the order \<open>order\<close>) are deleted, both with errors ignored.
\<close>

definition missing_users :: "string set \<Rightarrow> UserInfo list \<Rightarrow> UserInfo list" where
  "missing_users coreSet desired = filter (\<lambda>u. ui_Uuid u \<notin> coreSet) desired"

definition extra_users :: "string list \<Rightarrow> string set \<Rightarrow> UserInfo list \<Rightarrow> UserInfo list" where
  "extra_users order coreSet desired =
     map (\<lambda>i. \<lparr>ui_Id = 0, ui_Uuid = i, ui_SpeedLimit = 0, ui_DeviceLimit = 0, ui_Key = []\<rparr>)
       (filter (\<lambda>i. i \<in> coreSet \<and> i \<notin> ui_Uuid ` set desired) order)"

definition reconcileUsers :: "'u core_env \<Rightarrow> string list \<Rightarrow> UserInfo list \<Rightarrow> Controller \<Rightarrow> 'u World \<Rightarrow> flow \<times> 'u World" where
  "reconcileUsers E order desired c w =
     (let coreSet = GetUserUUIDs (ct_tag c) (wo_core w);
          missing = missing_users coreSet desired;
          extra = extra_users order coreSet desired
      in if missing = [] \<and> extra = [] then (Continue, w)
         else
           (case add_users E (ct_tag c) (the (ct_info c)) missing (snd (delete_users E (ct_tag c) extra (wo_core w))) of
                 (Panic p, v1) \<Rightarrow> (Crash p, w\<lparr>wo_core := v1\<rparr>)
               | (_, v1) \<Rightarrow> (Continue, update_limiter (ct_tag c) (UpdateUser (ct_tag c) missing extra []) (w\<lparr>wo_core := v1\<rparr>))))"

definition sync_reconcile :: "'u core_env \<Rightarrow> string list \<Rightarrow> Controller \<Rightarrow> 'u World \<Rightarrow> flow \<times> Controller \<times> 'u World" where
  "sync_reconcile E order c w =
     (if userReconcileEvery \<le> ct_reconcileCounter c + 1
      then (case reconcileUsers E order (ct_userList c) c w of (f, w') \<Rightarrow> (f, c\<lparr>ct_reconcileCounter := 0\<rparr>, w'))
      else (Continue, c\<lparr>ct_reconcileCounter := ct_reconcileCounter c + 1\<rparr>, w))"

text \<open>
  The listener check. A probe fails (and the port counts as held) when some socket holds the port on any address, or
  the system refuses the bind for another reason.
\<close>

definition holds_port :: "int \<Rightarrow> bool \<Rightarrow> string \<Rightarrow> bool" where
  "holds_port port udp addr \<longleftrightarrow> (CutPrefix addr ''udp:'' \<noteq> None) = udp \<and> suffix ('':'' @ Itoa port) addr"

definition portBound :: "(string \<Rightarrow> goerror option) \<Rightarrow> int \<Rightarrow> bool \<Rightarrow> net \<Rightarrow> bool" where
  "portBound refuse port udp w \<longleftrightarrow> (\<exists>addr\<in>w. holds_port port udp addr) \<or> refuse (''0.0.0.0:'' @ Itoa port) \<noteq> None"

definition rebuild_port :: "'u core_env \<Rightarrow> NodeInfo \<Rightarrow> Controller \<Rightarrow> 'u World \<Rightarrow> flow \<times> 'u World" where
  "rebuild_port E info c w =
     (case AddNode E (ct_tag c) info (SniffDisabled (ct_conf c) (ct_global c)) (snd (DelNode (ct_tag c) (wo_core w))) of
        (Some e, v) \<Rightarrow> (Continue, w\<lparr>wo_core := v\<rparr>)
      | (None, v) \<Rightarrow>
          (case add_users E (ct_tag c) info (ct_userList c) v of
                  (Panic p, v1) \<Rightarrow> (Crash p, w\<lparr>wo_core := v1\<rparr>)
                | (_, v1) \<Rightarrow> (Continue, w\<lparr>wo_core := v1\<rparr>)))"

definition check_port :: "'u core_env \<Rightarrow> (string \<Rightarrow> goerror option) \<Rightarrow> Controller \<Rightarrow> 'u World \<Rightarrow> flow \<times> Controller \<times> 'u World" where
  "check_port E refuse c w =
     (case ct_info c of
        None \<Rightarrow> (Continue, c, w)
      | Some info \<Rightarrow>
          (case ni_Common info of
             None \<Rightarrow> (Continue, c, w)
           | Some cm \<Rightarrow>
               if ct_userList c = [] \<or> cn_ServerPort cm \<le> 0 then (Continue, c, w)
               else if portBound refuse (cn_ServerPort cm) (ni_Type info = ''hysteria2'' \<or> ni_Type info = ''tuic'') (vc_net (wo_core w))
               then (Continue, c\<lparr>ct_portFailCount := 0\<rparr>, w)
               else if ct_portFailCount c + 1 < 2 then (Continue, c\<lparr>ct_portFailCount := ct_portFailCount c + 1\<rparr>, w)
               else (case rebuild_port E info c w of
                       (Crash p, w') \<Rightarrow> (Crash p, c\<lparr>ct_portFailCount := ct_portFailCount c + 1\<rparr>, w')
                     | (f, w') \<Rightarrow> (f, c\<lparr>ct_portFailCount := 0\<rparr>, w'))))"

definition flow_bind :: "flow \<times> Controller \<times> 'u World \<Rightarrow> (Controller \<Rightarrow> 'u World \<Rightarrow> flow \<times> Controller \<times> 'u World) \<Rightarrow> flow \<times> Controller \<times> 'u World" where
  "flow_bind r f = (case r of (Continue, c, w) \<Rightarrow> f c w | _ \<Rightarrow> r)"

text \<open>What the requests for the users and the alive counts gave, and the steps that follow them.\<close>

definition sync_lists :: "'u core_env \<Rightarrow> cycle_input \<Rightarrow> Controller \<Rightarrow> 'u World \<Rightarrow> flow \<times> Controller \<times> 'u World" where
  "sync_lists E i c w =
     (let fetched = (case GetUserList (cy_users i) of
                       Inr (us, etag) \<Rightarrow> Inr (Some (us, etag))
                     | Inl e \<Rightarrow> (if e = UserNotModified then Inr None else Inl e))
      in case fetched of
           Inl e \<Rightarrow> (Stop e, c, w)
         | Inr users \<Rightarrow>
             (case GetUserAlive (cy_alive i) (ct_apiClient c) of
                (alive, api) \<Rightarrow>
                  flow_bind (sync_users E (cy_order i) users (c\<lparr>ct_apiClient := api\<rparr>) (case alive of None \<Rightarrow> w | Some m \<Rightarrow> update_limiter (ct_tag c) (UpdateAliveList m) w))
                    (\<lambda>c1 w1. flow_bind (sync_reconcile E (cy_coreOrder i) c1 w1) (\<lambda>c2 w2. check_port E (cy_refuse i) c2 w2))))"

definition nodeInfoMonitor :: "'u core_env \<Rightarrow> cycle_input \<Rightarrow> Controller \<Rightarrow> 'u World \<Rightarrow> flow \<times> Controller \<times> 'u World" where
  "nodeInfoMonitor E i c w =
     (case GetNodeInfo (ce_json E) (ct_apiClient c) (cy_node i) of
        Error e \<Rightarrow> (Stop e, c, w)
      | Panic p \<Rightarrow> (Crash p, c, w)
      | Return newN \<Rightarrow> flow_bind (sync_node E newN c w) (\<lambda>c1 w1. sync_lists E i c1 w1))"

section \<open>Traffic report\<close>

text \<open>
  The automatic speed limit. The code compares the speed in floating point; here the comparison is exact, multiplied out:
  \<open>interval\<close> is in nanoseconds. \<open>order\<close> gives the iteration order of the limiter's table for a user id.
\<close>

definition over_speed :: "int \<Rightarrow> int \<Rightarrow> UserTraffic \<Rightarrow> bool" where
  "over_speed interval limit t \<longleftrightarrow>
     (let ns = (if interval \<le> 0 then 60000000000 else interval)
      in limit * ns < i64 (ut_Upload t + ut_Download t) * 8000)"

definition auto_limit_step ::
  "(int \<Rightarrow> string list) \<Rightarrow> int \<Rightarrow> int \<Rightarrow> AutoSpeedLimitConfig \<Rightarrow> UserTraffic \<Rightarrow> (int \<rightharpoonup> int) \<times> Limiter \<Rightarrow> (int \<rightharpoonup> int) \<times> Limiter" where
  "auto_limit_step order now interval asl t st =
     (case st of (warn, l) \<Rightarrow>
        if over_speed interval (asl_Limit asl) t then
          (let n = lookup0 warn (ut_UID t) + 1 in
           if asl_WarnTimes asl \<le> n
           then (warn(ut_UID t \<mapsto> 0),
                 SetDynamicSpeedLimitByUID (order (ut_UID t)) (ut_UID t) (asl_LimitSpeed asl)
                   (now + i64 (asl_LimitDuration asl * 60000000000) div 1000000000) l)
           else (warn(ut_UID t \<mapsto> n), l))
        else (warn(ut_UID t := None), l))"

definition applyAutoSpeedLimit ::
  "(int \<Rightarrow> string list) \<Rightarrow> int \<Rightarrow> UserTraffic list \<Rightarrow> AutoSpeedLimitConfig \<Rightarrow> Controller \<Rightarrow> 'u World \<Rightarrow> Controller \<times> 'u World" where
  "applyAutoSpeedLimit order now traffic asl c w =
     (case wo_limiters w (ct_tag c) of
        None \<Rightarrow> (c, w)
      | Some l \<Rightarrow>
          if \<not> ct_limiter c then (c, w)
          else (case fold (auto_limit_step order now (ct_reportInterval c) asl) traffic (ct_speedWarn c, l) of
                  (warn, l') \<Rightarrow> (c\<lparr>ct_speedWarn := warn\<rparr>, w\<lparr>wo_limiters := (wo_limiters w)(ct_tag c \<mapsto> l')\<rparr>)))"

text \<open>The online users that are reported: those whose traffic of the cycle was not below the threshold, by user id.\<close>

definition nocount_uids :: "int \<Rightarrow> UserTraffic list \<Rightarrow> int set" where
  "nocount_uids devicemin ts = ut_UID ` set (filter (\<lambda>t. i64 (ut_Upload t + ut_Download t) < i64 (devicemin * 1000)) ts)"

definition online_payload :: "OnlineUser list \<Rightarrow> (int \<rightharpoonup> string list)" where
  "online_payload us = fold (\<lambda>u m. m(ou_UID u \<mapsto> (case m (ou_UID u) of None \<Rightarrow> [] | Some ips \<Rightarrow> ips) @ [ou_IP u])) us Map.empty"

definition reported_online :: "int \<Rightarrow> UserTraffic list \<Rightarrow> OnlineUser list \<Rightarrow> OnlineUser list" where
  "reported_online devicemin ts online = filter (\<lambda>u. ou_UID u \<notin> nocount_uids devicemin ts) online"

record report_input =
  ri_order :: "string list"
  ri_uidOrder :: "int \<Rightarrow> string list"
  ri_now :: int
  ri_online :: "string list"
  ri_ips :: "string \<Rightarrow> string list"

text \<open>
  One report: the payloads that are posted, traffic and online devices, and the state afterwards. A node
  without a configuration makes it panic.
\<close>

definition report_online ::
  "report_input \<Rightarrow> int \<Rightarrow> UserTraffic list \<Rightarrow> string \<Rightarrow> 'u World \<Rightarrow> (int \<rightharpoonup> string list) option \<times> 'u World" where
  "report_online i devicemin traffic tag w =
     (case wo_limiters w tag of
        None \<Rightarrow> (None, w)
      | Some l \<Rightarrow>
          (case GetOnlineDevice (ri_online i) (ri_ips i) l of
             (online, l') \<Rightarrow>
               (let result = reported_online devicemin traffic online
                in (if result = [] then None else Some (online_payload result), w\<lparr>wo_limiters := (wo_limiters w)(tag \<mapsto> l')\<rparr>))))"

definition reportUserTrafficTask ::
  "report_input \<Rightarrow> Controller \<Rightarrow> 'u World \<Rightarrow> ((int \<rightharpoonup> int \<times> int) option \<times> (int \<rightharpoonup> string list) option) outcome \<times> Controller \<times> 'u World" where
  "reportUserTrafficTask i c w =
     (case (case ct_info c of None \<Rightarrow> None | Some n \<Rightarrow> ni_Common n) of
        None \<Rightarrow> (Panic ''invalid memory address or nil pointer dereference'', c, w)
      | Some cm \<Rightarrow>
          (let reportmin = (case cn_BaseConfig cm of None \<Rightarrow> 0 | Some b \<Rightarrow> bc_NodeReportMinTraffic b);
               devicemin = (case cn_BaseConfig cm of None \<Rightarrow> 0 | Some b \<Rightarrow> bc_DeviceOnlineMinTraffic b);
               (traffic, v) = GetUserTrafficSlice (ri_order i) (ct_tag c) reportmin (wo_core w);
               w1 = w\<lparr>wo_core := v\<rparr>;
               (c2, w2) = (case EffectiveAutoSpeedLimit (ct_conf c) (ct_global c) of
                             None \<Rightarrow> (c, w1) | Some asl \<Rightarrow> applyAutoSpeedLimit (ri_uidOrder i) (ri_now i) traffic asl c w1);
               posted = (if traffic = [] then None else Some (traffic_payload traffic));
               (online, w3) = report_online i devicemin traffic (ct_tag c2) w2
           in (Return (posted, online), c2, w3)))"

end
