(* ===== verification/Controller_Props.thy ===== *)
theory Controller_Props
  imports Controller "HOL-Library.List_Lexorder" "HOL-Library.Char_ord"
begin

text \<open>
  What the controller's synchronisation achieves and where it fails: the diff of user lists, the record of users in the core
  against the list of the controller, rebuilding a node, and the information a cycle leaves behind.
\<close>

section \<open>The diff of user lists\<close>

lemma user_map_Some:
  assumes "distinct (map ui_Uuid us)"
  shows "fold (\<lambda>u m. m(ui_Uuid u \<mapsto> u)) us Map.empty k = Some u \<longleftrightarrow> u \<in> set us \<and> ui_Uuid u = k"
proof -
  have "fold (\<lambda>u m. m(ui_Uuid u \<mapsto> u)) us m k = Some u \<longleftrightarrow> (u \<in> set us \<and> ui_Uuid u = k) \<or> (k \<notin> ui_Uuid ` set us \<and> m k = Some u)" for m
    using assms by (induction us arbitrary: m) auto
  then show ?thesis by simp
qed

lemma compare_new_spec:
  assumes "distinct (map ui_Uuid new)" and "compare_new new m = (a, b, r)"
  shows "a = filter (\<lambda>u. m (ui_Uuid u) = None) new
    \<and> b = filter (\<lambda>u. \<exists>old. m (ui_Uuid u) = Some old \<and> (ui_SpeedLimit old \<noteq> ui_SpeedLimit u \<or> ui_DeviceLimit old \<noteq> ui_DeviceLimit u)) new
    \<and> r = (\<lambda>k. if k \<in> ui_Uuid ` set new then None else m k)"
  using assms
proof (induction new arbitrary: m a b r)
  case (Cons u new)
  have d: "distinct (map ui_Uuid new)" "ui_Uuid u \<notin> ui_Uuid ` set new" using Cons.prems(1) by auto
  then have ne: "\<forall>v\<in>set new. ui_Uuid v \<noteq> ui_Uuid u" by (metis image_eqI)
  show ?case
  proof (cases "m (ui_Uuid u)")
    case None
    then obtain a1 where c: "compare_new new m = (a1, b, r)" "a = u # a1" using Cons.prems(2) by (auto split: prod.splits)
    from Cons.IH [OF d(1) c(1)] None d(2) c(2) show ?thesis by (auto simp: fun_eq_iff)
  next
    case (Some old)
    then obtain b1 where c: "compare_new new (m(ui_Uuid u := None)) = (a, b1, r)"
      "b = (if ui_SpeedLimit old \<noteq> ui_SpeedLimit u \<or> ui_DeviceLimit old \<noteq> ui_DeviceLimit u then u # b1 else b1)"
      using Cons.prems(2) by (auto split: prod.splits)
    have f: "filter (\<lambda>v. P ((m(ui_Uuid u := None)) (ui_Uuid v)) v) new = filter (\<lambda>v. P (m (ui_Uuid v)) v) new" for P
      using ne by (intro filter_cong) auto
    from Cons.IH [OF d(1) c(1)] f [of "\<lambda>x v. x = None"]
      f [of "\<lambda>x v. \<exists>old. x = Some old \<and> (ui_SpeedLimit old \<noteq> ui_SpeedLimit v \<or> ui_DeviceLimit old \<noteq> ui_DeviceLimit v)"]
    show ?thesis using Some d(2) unfolding c(2) by (auto simp: fun_eq_iff)
  qed
qed simp

lemma range_collect:
  assumes "range_order ks m"
  shows "set (range_fold (\<lambda>k u acc. acc @ [u]) ks m []) = ran m"
proof -
  have "set (range_fold (\<lambda>k u acc. acc @ [u]) ks m acc) = set acc \<union> {u. \<exists>k\<in>set ks. m k = Some u}" for acc
    by (induction ks arbitrary: acc) (auto split: option.splits)
  then show ?thesis using range_orderD(2) [OF assms] by (auto simp: ran_def)
qed

text \<open>An iteration order for every map the diff can end with.\<close>

definition orders_ok :: "((string \<rightharpoonup> UserInfo) \<Rightarrow> string list) \<Rightarrow> bool" where
  "orders_ok order \<longleftrightarrow> (\<forall>m. finite (dom m) \<longrightarrow> range_order (order m) m)"

lemma compareUserList_spec:
  assumes "distinct (map ui_Uuid old)" and "distinct (map ui_Uuid new)" and "orders_ok order"
    and "compareUserList order old new = (deleted, added, modified)"
  shows "added = filter (\<lambda>u. ui_Uuid u \<notin> ui_Uuid ` set old) new
    \<and> set deleted = {u \<in> set old. ui_Uuid u \<notin> ui_Uuid ` set new}
    \<and> set modified = {u \<in> set new. \<exists>p\<in>set old. ui_Uuid p = ui_Uuid u \<and> (ui_SpeedLimit p \<noteq> ui_SpeedLimit u \<or> ui_DeviceLimit p \<noteq> ui_DeviceLimit u)}"
proof -
  define M where "M = fold (\<lambda>u m. m(ui_Uuid u \<mapsto> u)) old Map.empty"
  have m: "M k = Some u \<longleftrightarrow> u \<in> set old \<and> ui_Uuid u = k" for k u
    unfolding M_def by (rule user_map_Some [OF assms(1)])
  have mN: "M k = None \<longleftrightarrow> k \<notin> ui_Uuid ` set old" for k
    using m [of k] by (metis (no_types, lifting) image_iff not_None_eq)
  obtain a0 m0 r where c0: "compare_new new M = (a0, m0, r)" by (rule prod_cases3)
  with assms(4) have d: "deleted = range_fold (\<lambda>k u acc. acc @ [u]) (order r) r []" "a0 = added" "m0 = modified"
    by (simp_all only: compareUserList_def Let_def M_def [symmetric] c0 prod.case prod.inject)
  note s = compare_new_spec [OF assms(2) c0 [unfolded d(2,3)]]
  then have "r = (\<lambda>k. if k \<in> ui_Uuid ` set new then None else M k)" by (elim conjE)
  then have r: "r k = (if k \<in> ui_Uuid ` set new then None else M k)" for k by (rule fun_cong)
  have "dom r \<subseteq> ui_Uuid ` set old"
  proof
    fix k assume "k \<in> dom r"
    then have "M k \<noteq> None" by (simp add: dom_def r split: if_splits)
    with mN [of k] show "k \<in> ui_Uuid ` set old" by blast
  qed
  then have "finite (dom r)" using finite_surj by blast
  with assms(3) have "set deleted = ran r" unfolding d(1) orders_ok_def by (intro range_collect) blast
  also have "\<dots> = {u \<in> set old. ui_Uuid u \<notin> ui_Uuid ` set new}"
    by (auto simp: ran_def r m split: if_splits)
  finally have "set deleted = {u \<in> set old. ui_Uuid u \<notin> ui_Uuid ` set new}" .
  moreover have "set modified = {u \<in> set new. \<exists>p\<in>set old. ui_Uuid p = ui_Uuid u \<and> (ui_SpeedLimit p \<noteq> ui_SpeedLimit u \<or> ui_DeviceLimit p \<noteq> ui_DeviceLimit u)}"
    using s by (auto simp: m)
  moreover have "added = filter (\<lambda>u. ui_Uuid u \<notin> ui_Uuid ` set old) new" using s by (simp add: mN)
  ultimately show ?thesis by blast
qed

text \<open>
  The diff of two user lists without repeated ids is exact, whatever the iteration order: the added users are those of the new list
  whose id is not in the old one, the deleted ones those of the old list whose id is not in the new one, and the modified ones
  those of the new list whose old entry has another speed or device limit. A user whose other data changed is in none of them.
\<close>

theorem compare_user_list_exact:
  assumes "distinct (map ui_Uuid old)" and "distinct (map ui_Uuid new)" and "orders_ok order"
    and "compareUserList order old new = (deleted, added, modified)"
  shows "added = filter (\<lambda>u. ui_Uuid u \<notin> ui_Uuid ` set old) new
    \<and> set deleted = {u \<in> set old. ui_Uuid u \<notin> ui_Uuid ` set new}
    \<and> set modified = {u \<in> set new. \<exists>p\<in>set old. ui_Uuid p = ui_Uuid u \<and> (ui_SpeedLimit p \<noteq> ui_SpeedLimit u \<or> ui_DeviceLimit p \<noteq> ui_DeviceLimit u)}"
  by (rule compareUserList_spec [OF assms])

text \<open>An order for the witnesses: the keys of a finite map, sorted.\<close>

definition demo_order :: "(string \<rightharpoonup> UserInfo) \<Rightarrow> string list" where
  "demo_order m = sorted_list_of_set (dom m)"

lemma demo_orders_ok: "orders_ok demo_order"
  by (simp add: orders_ok_def demo_order_def range_order_def)

definition demo_u2 :: UserInfo where
  "demo_u2 = \<lparr>ui_Id = 101, ui_Uuid = ''u2'', ui_SpeedLimit = 0, ui_DeviceLimit = 0, ui_Key = ''k2''\<rparr>"

theorem compare_user_list_exact_witness:
  "\<exists>d a m. compareUserList demo_order [demo_u1] [demo_u2] = (d, a, m) \<and> a = [demo_u2] \<and> set d = {demo_u1}"
proof -
  obtain d a m where c: "compareUserList demo_order [demo_u1] [demo_u2] = (d, a, m)" by (rule prod_cases3)
  have dist: "distinct (map ui_Uuid [demo_u1])" "distinct (map ui_Uuid [demo_u2])" by simp_all
  have u: "ui_Uuid demo_u1 = ''u1''" "ui_Uuid demo_u2 = ''u2''" by (simp_all add: demo_u1_def demo_u2_def)
  note t = compare_user_list_exact [OF dist demo_orders_ok c]
  have "a = [demo_u2]" using conjunct1 [OF t] by (simp add: u)
  moreover have "set d = {demo_u1}"
  proof (rule set_eqI)
    fix x
    have "x \<in> set d \<longleftrightarrow> x \<in> set [demo_u1] \<and> ui_Uuid x \<notin> ui_Uuid ` set [demo_u2]"
      unfolding conjunct1 [OF conjunct2 [OF t]] by (rule mem_Collect_eq)
    also have "\<dots> \<longleftrightarrow> x \<in> {demo_u1}" by (cases "x = demo_u1") (simp_all add: u)
    finally show "x \<in> set d \<longleftrightarrow> x \<in> {demo_u1}" .
  qed
  ultimately show ?thesis using c by blast
qed

section \<open>The record of users and the list of the controller\<close>

lemma node_state_uidMap [simp]: "vc_uidMap (set_node_state s v) = vc_uidMap v"
  by (simp add: set_node_state_def)

lemma cleanup_uidMap [simp]: "vc_uidMap (cleanupNodeState tag v) = vc_uidMap v"
  by (simp add: cleanupNodeState_def Let_def split: option.split)

lemma RemoveHandler_uidMap [simp]: "vc_uidMap (snd (RemoveHandler tag v)) = vc_uidMap v"
  by (simp add: RemoveHandler_def split: option.split)

lemma removeInbound_uidMap [simp]: "vc_uidMap (snd (removeInbound tag v)) = vc_uidMap v"
  by (simp add: removeInbound_def)

lemma removeInbound_result_uidMap: "removeInbound tag v = (e, v') \<Longrightarrow> vc_uidMap v' = vc_uidMap v"
  using removeInbound_uidMap [of tag v] by simp

lemma DelNode_uidMap: "vc_uidMap (snd (DelNode tag v)) = vc_uidMap v"
  by (auto simp: DelNode_def Let_def split: prod.split option.split dest!: removeInbound_result_uidMap)

lemma addInbound_uidMap: "addInbound E d b v = (e, v') \<Longrightarrow> vc_uidMap v' = vc_uidMap v"
  by (auto simp: addInbound_def AddHandler_def Let_def split: option.splits if_splits sum.splits)

lemma release_front_uidMap [simp]: "vc_uidMap (release_front J info tag v) = vc_uidMap v"
  by (simp add: release_front_def)

lemma start_front_uidMap: "start_front E info tag port v = (e, v') \<Longrightarrow> vc_uidMap v' = vc_uidMap v"
  by (auto simp: start_front_def Let_def split: if_splits prod.splits)

lemma alloc_front_uidMap: "alloc_front E info tag v = (r, v') \<Longrightarrow> vc_uidMap v' = vc_uidMap v"
  by (auto simp: alloc_front_def Let_def split: if_splits sum.splits prod.splits)

lemma add_xray_node_uidMap: "vc_uidMap (snd (add_xray_node E tag info ds v)) = vc_uidMap v"
  by (auto simp: add_xray_node_def Let_def dest!: alloc_front_uidMap addInbound_uidMap start_front_uidMap
      split: prod.splits sum.splits outcome.splits option.splits)

lemma AddNode_uidMap: "vc_uidMap (snd (AddNode E tag info ds v)) = vc_uidMap v"
  by (simp add: AddNode_def Let_def add_xray_node_uidMap split: prod.split)

lemma UUIDs_uidMap: "vc_uidMap v = vc_uidMap v' \<Longrightarrow> GetUserUUIDs tag v = GetUserUUIDs tag v'"
  by (simp add: GetUserUUIDs_def)

lemma UUIDs_add_users: "GetUserUUIDs tag (snd (add_users E tag info us v)) = GetUserUUIDs tag v \<union> ui_Uuid ` set us"
  by (cases "us = []", simp add: add_users_def, rule set_eqI)
    (simp only: add_users_def if_False GetUserUUIDs_iff core_AddUsers_uidMap fold_uid_at Un_iff UserTag_inj image_iff)

lemma UUIDs_delete_users:
  "fst (delete_users E tag us v) = None \<Longrightarrow> GetUserUUIDs tag (snd (delete_users E tag us v)) = GetUserUUIDs tag v - ui_Uuid ` set us"
  by (cases "us = []") (auto simp: delete_users_def GetUserUUIDs_iff core_DelUsers_uidMap fold_uid_drop split: if_splits)

lemma UUIDs_node: "GetUserUUIDs tag (snd (DelNode t v)) = GetUserUUIDs tag v" "GetUserUUIDs tag (snd (AddNode E t info ds v)) = GetUserUUIDs tag v"
  by (rule UUIDs_uidMap, rule DelNode_uidMap) (rule UUIDs_uidMap, rule AddNode_uidMap)

text \<open>The core's record of the node's users is the controller's list.\<close>

definition synced :: "Controller \<Rightarrow> 'u World \<Rightarrow> bool" where
  "synced c w \<longleftrightarrow> GetUserUUIDs (ct_tag c) (wo_core w) = ui_Uuid ` set (ct_userList c) \<and> distinct (map ui_Uuid (ct_userList c))"

lemma update_limiter_core [simp]: "wo_core (update_limiter tag f w) = wo_core w"
  by (simp add: update_limiter_def split: option.split)

lemma sync_node_synced:
  assumes "synced c w" and "sync_node E newN c w = (f, c', w')"
  shows "synced c' w' \<and> ct_userList c' = ct_userList c \<and> ct_tag c' = ct_tag c"
proof (cases "nodeNeedsRebuild (ct_info c) (Some newN)")
  case True
  obtain e1 v1 where d: "DelNode (ct_tag c) (wo_core w) = (e1, v1)" by force
  obtain e2 v2 where a: "AddNode E (ct_tag c) newN (SniffDisabled (ct_conf c) (ct_global c)) v1 = (e2, v2)" by force
  obtain r v3 where u: "add_users E (ct_tag c) newN (ct_userList c) v2 = (r, v3)" by force
  let ?U = "GetUserUUIDs (ct_tag c)"
  have 1: "?U v1 = ?U (wo_core w)" using UUIDs_node(1) [of _ _ "wo_core w"] by (metis d snd_conv)
  have 2: "?U v2 = ?U v1" using UUIDs_node(2) by (metis a snd_conv)
  have 3: "?U v3 = ?U v2 \<union> ui_Uuid ` set (ct_userList c)" using UUIDs_add_users by (metis u snd_conv)
  show ?thesis
    using assms True 1 2 3 by (cases e1; cases e2; cases r) (auto simp: sync_node_def synced_def d a u)
next
  case False
  with assms show ?thesis by (auto simp: sync_node_def synced_def)
qed

lemma image_diff_vals: "f ` {x \<in> A. f x \<notin> B} = f ` A - B"
  by auto

lemma sync_users_synced:
  assumes "synced c w" and "orders_ok order" and "\<forall>us etag. users = Some (us, etag) \<longrightarrow> distinct (map ui_Uuid us)"
    and "sync_users E order users c w = (Continue, c', w')"
  shows "synced c' w' \<and> ct_tag c' = ct_tag c
    \<and> (\<forall>us etag. users = Some (us, etag) \<and> (us \<noteq> [] \<or> ct_userList c = []) \<longrightarrow> ct_userList c' = us)"
proof (cases "users = None \<or> (\<exists>etag. users = Some ([], etag) \<and> ct_userList c \<noteq> [])")
  case True
  with assms(1,4) show ?thesis by (auto simp: sync_users_def)
next
  case False
  then obtain newU etag where p: "users = Some (newU, etag)" by auto
  with False have ne: "\<not> (newU = [] \<and> ct_userList c \<noteq> [])" by blast
  let ?U = "GetUserUUIDs (ct_tag c)"
  obtain del add modi where cmp: "compareUserList order (ct_userList c) newU = (del, add, modi)" by (rule prod_cases3)
  have dist: "distinct (map ui_Uuid (ct_userList c))" "distinct (map ui_Uuid newU)" using assms(1,3) p by (simp_all add: synced_def)
  note cu = compareUserList_spec [OF dist assms(2) cmp]
  obtain e v where v: "delete_users E (ct_tag c) del (wo_core w) = (e, v)" by force
  obtain r v1 where v1: "add_users E (ct_tag c) (the (ct_info c)) add v = (r, v1)" by force
  from assms(4) ne have res: "e = None" "ct_tag c' = ct_tag c" "ct_userList c' = newU" "wo_core w' = v1"
    by (cases e; cases r; simp add: sync_users_def p cmp v v1 Let_def; auto)+
  have "?U v1 = ?U v \<union> ui_Uuid ` set add" using UUIDs_add_users by (metis v1 snd_conv)
  moreover have "?U v = ?U (wo_core w) - ui_Uuid ` set del" using UUIDs_delete_users [of E "ct_tag c" del "wo_core w"] v res(1) by simp
  moreover have "?U (wo_core w) = ui_Uuid ` set (ct_userList c)" using assms(1) by (simp add: synced_def)
  moreover have "ui_Uuid ` set (ct_userList c) - ui_Uuid ` set del \<union> ui_Uuid ` set add = ui_Uuid ` set newU"
    unfolding cu [THEN conjunct1] cu [THEN conjunct2, THEN conjunct1] set_filter image_diff_vals by blast
  ultimately have "?U v1 = ui_Uuid ` set newU" by simp
  with res dist(2) show ?thesis by (simp add: synced_def p)
qed

lemma reconcile_record:
  assumes "fst (delete_users E (ct_tag c) (extra_users order (GetUserUUIDs (ct_tag c) (wo_core w)) desired) (wo_core w)) = None"
    and "GetUserUUIDs (ct_tag c) (wo_core w) \<subseteq> set order"
  shows "GetUserUUIDs (ct_tag c) (wo_core (snd (reconcileUsers E order desired c w))) = ui_Uuid ` set desired"
proof -
  let ?U = "GetUserUUIDs (ct_tag c)"
  define S where "S = ?U (wo_core w)"
  define mi where "mi = missing_users S desired"
  define ex where "ex = extra_users order S desired"
  have m: "ui_Uuid ` set mi = ui_Uuid ` set desired - S" unfolding mi_def missing_users_def set_filter image_diff_vals ..
  have e: "ui_Uuid ` set ex = S - ui_Uuid ` set desired" using assms(2) unfolding ex_def extra_users_def S_def [symmetric] by (auto simp: image_image)
  obtain er v where v: "delete_users E (ct_tag c) ex (wo_core w) = (er, v)" by force
  obtain r v1 where v1: "add_users E (ct_tag c) (the (ct_info c)) mi v = (r, v1)" by force
  have "er = None" using assms(1) v by (simp add: ex_def S_def)
  then have "?U v = S - ui_Uuid ` set ex" using UUIDs_delete_users [of E "ct_tag c" ex "wo_core w"] v by (simp add: S_def)
  moreover have "?U v1 = ?U v \<union> ui_Uuid ` set mi" using UUIDs_add_users by (metis v1 snd_conv)
  ultimately have U1: "?U v1 = ui_Uuid ` set desired" using m e by auto
  show ?thesis
  proof (cases "mi = [] \<and> ex = []")
    case True
    then have "reconcileUsers E order desired c w = (Continue, w)"
      by (simp add: reconcileUsers_def Let_def S_def [symmetric] mi_def [symmetric] ex_def [symmetric])
    moreover have "S = ui_Uuid ` set desired" using True m e by auto
    ultimately show ?thesis by (simp add: S_def)
  next
    case False
    then have "wo_core (snd (reconcileUsers E order desired c w)) = v1"
      by (cases r) (auto simp: reconcileUsers_def Let_def S_def [symmetric] mi_def [symmetric] ex_def [symmetric] v v1)
    with U1 show ?thesis by simp
  qed
qed

lemma sync_reconcile_synced:
  assumes "synced c w" and "sync_reconcile E order c w = (f, c', w')"
  shows "f = Continue \<and> synced c' w' \<and> ct_tag c' = ct_tag c \<and> ct_userList c' = ct_userList c"
proof -
  have "missing_users (ui_Uuid ` set (ct_userList c)) (ct_userList c) = []" "extra_users order (ui_Uuid ` set (ct_userList c)) (ct_userList c) = []"
    by (auto simp: missing_users_def extra_users_def filter_empty_conv)
  with assms(1) have "reconcileUsers E order (ct_userList c) c w = (Continue, w)" by (simp add: reconcileUsers_def synced_def Let_def)
  with assms show ?thesis by (auto simp: sync_reconcile_def synced_def split: if_splits)
qed

lemma rebuild_port_record:
  assumes "rebuild_port E info c w = (f, w')"
  shows "GetUserUUIDs (ct_tag c) (wo_core w') = GetUserUUIDs (ct_tag c) (wo_core w)
    \<or> GetUserUUIDs (ct_tag c) (wo_core w') = GetUserUUIDs (ct_tag c) (wo_core w) \<union> ui_Uuid ` set (ct_userList c)"
proof -
  let ?U = "GetUserUUIDs (ct_tag c)"
  obtain e v where a: "AddNode E (ct_tag c) info (SniffDisabled (ct_conf c) (ct_global c)) (snd (DelNode (ct_tag c) (wo_core w))) = (e, v)" by force
  obtain r v1 where u: "add_users E (ct_tag c) info (ct_userList c) v = (r, v1)" by force
  have "?U v = ?U (snd (DelNode (ct_tag c) (wo_core w)))" using UUIDs_node(2) by (metis a snd_conv)
  then have "?U v = ?U (wo_core w)" by (simp only: UUIDs_node(1))
  moreover have "?U v1 = ?U v \<union> ui_Uuid ` set (ct_userList c)" using UUIDs_add_users by (metis u snd_conv)
  moreover have "wo_core w' = v \<or> wo_core w' = v1" using assms by (cases e; cases r) (auto simp: rebuild_port_def a u)
  ultimately show ?thesis by auto
qed

lemma check_port_synced:
  assumes "synced c w" and "check_port E refuse c w = (f, c', w')"
  shows "synced c' w' \<and> ct_tag c' = ct_tag c \<and> ct_userList c' = ct_userList c"
proof -
  have keep: "ct_tag c' = ct_tag c \<and> ct_userList c' = ct_userList c \<and> (w' = w \<or> (\<exists>info f'. rebuild_port E info c w = (f', w')))"
    using assms(2) by (auto simp: check_port_def split: option.splits if_splits prod.splits flow.splits)
  then have "GetUserUUIDs (ct_tag c) (wo_core w') = ui_Uuid ` set (ct_userList c)"
    using assms(1) rebuild_port_record unfolding synced_def by (metis sup.idem)
  with keep assms(1) show ?thesis by (simp add: synced_def)
qed

section \<open>Properties of a cycle\<close>

text \<open>
  Claim C2. A completed cycle keeps the core's record of the node's users equal to the controller's list, and the list becomes the one the
  panel sent unless that is empty: whatever was rebuilt, added, deleted or repaired on the way, and in whatever order maps were visited.
\<close>

theorem completed_cycle_synced:
  assumes "synced c w" and "orders_ok (cy_order i)"
    and "\<forall>us etag. GetUserList (cy_users i) = Inr (us, etag) \<longrightarrow> distinct (map ui_Uuid us)"
    and "nodeInfoMonitor E i c w = (Continue, c', w')"
  shows "synced c' w' \<and> (\<forall>us etag. GetUserList (cy_users i) = Inr (us, etag) \<and> us \<noteq> [] \<longrightarrow> ct_userList c' = us)"
proof -
  from assms(4) obtain newN where n: "GetNodeInfo (ce_json E) (ct_apiClient c) (cy_node i) = Return newN"
    by (auto simp: nodeInfoMonitor_def split: outcome.splits)
  obtain f1 c1 w1 where s1: "sync_node E newN c w = (f1, c1, w1)" by (rule prod_cases3)
  with assms(4) n have l: "f1 = Continue" "sync_lists E i c1 w1 = (Continue, c', w')"
    by (auto simp: nodeInfoMonitor_def flow_bind_def split: flow.splits)
  from sync_node_synced [OF assms(1) s1] have c1: "synced c1 w1" by blast
  obtain alive api where al: "GetUserAlive (cy_alive i) (ct_apiClient c1) = (alive, api)" by force
  define w1' where "w1' = (case alive of None \<Rightarrow> w1 | Some m \<Rightarrow> update_limiter (ct_tag c1) (UpdateAliveList m) w1)"
  have c1': "synced (c1\<lparr>ct_apiClient := api\<rparr>) w1'" using c1 by (auto simp: w1'_def synced_def split: option.split)
  define users where "users = (case GetUserList (cy_users i) of Inr (us, etag) \<Rightarrow> Some (us, etag) | Inl e \<Rightarrow> None)"
  obtain f2 c2 w2 where s2: "sync_users E (cy_order i) users (c1\<lparr>ct_apiClient := api\<rparr>) w1' = (f2, c2, w2)" by (rule prod_cases3)
  obtain f3 c3 w3 where s3: "sync_reconcile E (cy_coreOrder i) c2 w2 = (f3, c3, w3)" by (rule prod_cases3)
  from l(2) have f: "f2 = Continue" "f3 = Continue" "check_port E (cy_refuse i) c3 w3 = (Continue, c', w')"
    using s2 s3 by (auto simp: sync_lists_def Let_def al w1'_def [symmetric] users_def flow_bind_def
        split: sum.splits if_splits prod.splits flow.splits option.splits)
  have d: "\<forall>us etag. users = Some (us, etag) \<longrightarrow> distinct (map ui_Uuid us)"
    using assms(3) by (auto simp: users_def split: sum.splits prod.splits)
  from sync_users_synced [OF c1' assms(2) d s2 [unfolded f(1)]]
  have c2: "synced c2 w2" "\<forall>us etag. users = Some (us, etag) \<and> us \<noteq> [] \<longrightarrow> ct_userList c2 = us" by auto
  from sync_reconcile_synced [OF c2(1) s3] have c3: "synced c3 w3" "ct_userList c3 = ct_userList c2" by auto
  from check_port_synced [OF c3(1) f(3)] c3(2) c2(2) show ?thesis by (auto simp: users_def)
qed

definition demo_controller :: Controller where
  "demo_controller = (NewController demo_client demo_node_config (Some (demo_info\<lparr>ni_Common := Some zero_CommonNode\<rparr>)) zero_GlobalConfig)
     \<lparr>ct_tag := ''t'', ct_userList := [demo_u1]\<rparr>"

definition demo_world :: "validator World" where
  "demo_world = \<lparr>wo_core = demo_core\<lparr>vc_uidMap := [''t|u1'' \<mapsto> 100]\<rparr>, wo_limiters = Map.empty, wo_certs = Map.empty\<rparr>"

definition demo_cycle :: cycle_input where
  "demo_cycle = \<lparr>cy_node = Inr (Some []), cy_users = Inr (Some \<lparr>ur_msgpack = True, ur_ETag = [], ur_decoded = Inr [demo_u1], ur_events = []\<rparr>),
     cy_alive = Inl ''timeout'', cy_refuse = (\<lambda>a. None), cy_order = demo_order, cy_coreOrder = [''u1'']\<rparr>"

definition demo_panel_env :: "validator core_env" where
  "demo_panel_env = demo_os_env\<lparr>ce_json := demo_codec\<lparr>jc_node := (\<lambda>b. Inr (zero_CommonNode\<lparr>cn_Protocol := ''snell''\<rparr>))\<rparr>\<rparr>"

lemma demo_controller_sel [simp]: "ct_tag demo_controller = ''t''" "ct_userList demo_controller = [demo_u1]"
  "ct_apiClient demo_controller = demo_client" "ct_reconcileCounter demo_controller = 0" "ct_portFailCount demo_controller = 0"
  "ct_conf demo_controller = demo_node_config" "ct_global demo_controller = zero_GlobalConfig"
  by (simp_all add: demo_controller_def NewController_def)

lemma demo_synced: "synced demo_controller demo_world"
proof -
  have "GetUserUUIDs ''t'' (wo_core demo_world) = {''u1''}"
    by (rule set_eqI) (auto simp: GetUserUUIDs_iff demo_world_def UserTag_def)
  then show ?thesis by (simp add: synced_def demo_u1_def)
qed

lemma demo_diff: "compareUserList demo_order [demo_u1] [demo_u1] = ([], [], [])"
  by (simp add: compareUserList_def demo_order_def)

text \<open>The node the panel sends in the demonstration.\<close>

definition demo_new_node :: NodeInfo where
  "demo_new_node = (case GetNodeInfo (ce_json demo_panel_env) demo_client (Inr (Some [])) of Return n \<Rightarrow> n | _ \<Rightarrow> demo_info)"

lemma demo_node_reply: "GetNodeInfo (ce_json demo_panel_env) demo_client (Inr (Some [])) = Return demo_new_node"
  by (simp add: demo_new_node_def GetNodeInfo_def demo_client_def panel_New_def demo_node_config_def Let_def ToLower_def getNodeInfoV2_def
      demo_panel_env_def v2_security_def finalizeNode_def node_intervals_def zero_CommonNode_def)

theorem completed_cycle_synced_witness:
  "\<exists>c' w'. nodeInfoMonitor demo_panel_env demo_cycle (demo_controller\<lparr>ct_info := Some demo_new_node\<rparr>) demo_world = (Continue, c', w')
     \<and> ct_userList c' = [demo_u1] \<and> GetUserUUIDs ''t'' (wo_core w') = {''u1''}"
proof -
  let ?c = "demo_controller\<lparr>ct_info := Some demo_new_node\<rparr>"
  have cm: "\<exists>cm. ni_Common demo_new_node = Some cm \<and> cn_ServerPort cm = 0"
    by (simp add: demo_new_node_def GetNodeInfo_def demo_client_def panel_New_def demo_node_config_def Let_def ToLower_def getNodeInfoV2_def
        demo_panel_env_def v2_security_def finalizeNode_def node_intervals_def zero_CommonNode_def)
  then have same: "\<not> nodeNeedsRebuild (Some demo_new_node) (Some demo_new_node)"
    by (auto simp: nodeNeedsRebuild_def listener_differs_def tls_differ_def)
  have ev: "\<exists>x. nodeInfoMonitor demo_panel_env demo_cycle ?c demo_world = (Continue, x, demo_world) \<and> ct_tag x = ''t''"
    using cm by (auto simp: nodeInfoMonitor_def demo_cycle_def demo_node_reply sync_node_def same flow_bind_def sync_lists_def GetUserList_def
        GetUserAlive_def sync_users_def demo_diff delete_users_def add_users_def sync_reconcile_def userReconcileEvery_def check_port_def
        update_limiter_def demo_world_def Let_def)
  then obtain c' w' where r: "nodeInfoMonitor demo_panel_env demo_cycle ?c demo_world = (Continue, c', w')"
    and tag: "ct_tag c' = ''t''" by fastforce
  have "synced ?c demo_world" using demo_synced by (simp add: synced_def)
  moreover have "orders_ok (cy_order demo_cycle)" by (simp add: demo_cycle_def demo_orders_ok)
  moreover have "\<forall>us etag. GetUserList (cy_users demo_cycle) = Inr (us, etag) \<longrightarrow> distinct (map ui_Uuid us)"
    by (simp add: demo_cycle_def GetUserList_def)
  ultimately have s: "synced c' w' \<and> (\<forall>us etag. GetUserList (cy_users demo_cycle) = Inr (us, etag) \<and> us \<noteq> [] \<longrightarrow> ct_userList c' = us)"
    using r by (rule completed_cycle_synced)
  have u: "GetUserList (cy_users demo_cycle) = Inr ([demo_u1], [])" by (simp add: demo_cycle_def GetUserList_def)
  have "ct_userList c' = [demo_u1]" using s u by blast
  then show ?thesis using s r tag by (auto simp: synced_def demo_u1_def)
qed

end
