(* ===== verification/Controller_Recovery.thy ===== *)
theory Controller_Recovery
  imports Controller_Props
begin

text \<open>
  How the controller behaves when something goes wrong or changes under it: a rebuild that fails, an empty user list, a
  listener that is gone, a change the comparison of nodes does not see, a new certificate from the panel.
\<close>

section \<open>Failed rebuilds\<close>

lemma DelNode_fresh:
  assumes "fresh_tag tag v"
  shows "DelNode tag v = (Some ''remove in error: not enough information for making a decision'', v)"
proof -
  have "fst (DelNode tag v) = Some ''remove in error: not enough information for making a decision''"
    using assms
    by (simp add: DelNode_def cleanup_fresh fresh_tag_def native_free_def removeInbound_def RemoveHandler_def split: prod.split)
  moreover have "snd (DelNode tag v) = v" by (rule del_residue [OF assms residue_start [OF assms]])
  ultimately show ?thesis by (metis prod.collapse)
qed

lemma DelNode_handler:
  assumes "tag \<noteq> []" and "vc_ihm v tag \<noteq> None"
  shows "fst (DelNode tag v) = None"
proof -
  have "vc_ihm (cleanupNodeState tag v) = vc_ihm v" by (simp add: cleanupNodeState_def Let_def split: option.split)
  with assms show ?thesis
    by (auto simp: DelNode_def Let_def removeInbound_def RemoveHandler_def split: prod.split option.split)
qed

text \<open>A sequence of cycles, each with the environment and the replies it meets. A cycle that stops early is followed by the next one.\<close>

fun run_cycles :: "('u core_env \<times> cycle_input) list \<Rightarrow> Controller \<Rightarrow> 'u World \<Rightarrow> Controller \<times> 'u World" where
  "run_cycles [] c w = (c, w)"
| "run_cycles ((E, i) # is) c w = (case nodeInfoMonitor E i c w of (f, c', w') \<Rightarrow> run_cycles is c' w')"

text \<open>The panel's answer of a cycle still asks for a rebuild.\<close>

definition wants_rebuild :: "Controller \<Rightarrow> 'u core_env \<times> cycle_input \<Rightarrow> bool" where
  "wants_rebuild c p \<longleftrightarrow>
     (\<exists>n. GetNodeInfo (ce_json (fst p)) (ct_apiClient c) (cy_node (snd p)) = Return n \<and> nodeNeedsRebuild (ct_info c) (Some n))"

lemma rebuild_stuck:
  assumes "fresh_tag (ct_tag c) (wo_core w)" and "wants_rebuild c (E, i)"
  shows "nodeInfoMonitor E i c w = (Stop ''remove in error: not enough information for making a decision'', c, w)"
  using assms by (auto simp: wants_rebuild_def nodeInfoMonitor_def sync_node_def DelNode_fresh flow_bind_def)

lemma run_stuck:
  assumes "fresh_tag (ct_tag c) (wo_core w)" and "\<forall>p\<in>set is. wants_rebuild c p"
  shows "run_cycles is c w = (c, w)"
  using assms(2)
proof (induction "is")
  case (Cons p "is")
  then show ?case by (cases p) (simp add: rebuild_stuck [OF assms(1)])
qed simp

text \<open>
  Claim C15. A failed rebuild is never retried: when the old node was deleted and adding the new one failed without leaving anything behind, each
  later cycle in which the panel still asks for the rebuild stops at the deletion, which now fails, and never calls
  \<open>AddNode\<close> again; the node stays down for any number of cycles, even when it could be added by then.
\<close>

theorem failed_rebuild_is_permanent:
  assumes "GetNodeInfo (ce_json E) (ct_apiClient c) (cy_node i) = Return newN" and "nodeNeedsRebuild (ct_info c) (Some newN)"
    and "DelNode (ct_tag c) (wo_core w) = (None, v)" and "fresh_tag (ct_tag c) v"
    and "AddNode E (ct_tag c) newN (SniffDisabled (ct_conf c) (ct_global c)) v = (Some e, v)"
    and "\<forall>p\<in>set is. wants_rebuild c p"
  shows "run_cycles ((E, i) # is) c w = (c, w\<lparr>wo_core := v\<rparr>)"
proof -
  have "nodeInfoMonitor E i c w = (Stop e, c, w\<lparr>wo_core := v\<rparr>)"
    using assms(1,2,3,5) by (simp add: nodeInfoMonitor_def sync_node_def flow_bind_def)
  moreover have "run_cycles is c (w\<lparr>wo_core := v\<rparr>) = (c, w\<lparr>wo_core := v\<rparr>)" by (rule run_stuck) (simp_all add: assms(4,6))
  ultimately show ?thesis by simp
qed


text \<open>A panel that now wants the demonstration node on another port, and a core whose builder refuses every inbound.\<close>

definition demo_move_env :: "validator core_env" where
  "demo_move_env = demo_os_env\<lparr>ce_json := demo_codec\<lparr>jc_node := (\<lambda>b. Inr (zero_CommonNode\<lparr>cn_Protocol := ''vless''\<rparr>))\<rparr>,
     ce_build := (\<lambda>d. Error ''invalid'')\<rparr>"

definition demo_moving :: Controller where
  "demo_moving = demo_controller\<lparr>ct_info := Some demo_vless_node\<rparr>"

definition demo_moving_world :: "validator World" where
  "demo_moving_world = demo_world\<lparr>wo_core := snd (AddNode demo_os_env ''t'' demo_vless_node False demo_core)\<rparr>"

lemma demo_fresh: "fresh_tag ''t'' demo_core"
  by (simp add: fresh_tag_def native_free_def demo_core_def core_Start_def core_New_def mgr_Has_def mgr_New_def mgr_SetDispatcher_def
      singbox_NewManager_def obfs_NewManager_def)

lemma demo_os_fresh: "os_ports_fresh demo_os_env" "reserved_bound demo_core"
  by (simp_all add: os_ports_fresh_def demo_os_env_def reserved_bound_def demo_core_def core_Start_def core_New_def
      singbox_NewManager_def obfs_NewManager_def)

lemma demo_moving_del: "DelNode ''t'' (wo_core demo_moving_world) = (None, demo_core)"
proof -
  have "xray_node demo_os_env demo_vless_node" "ni_Tag demo_vless_node = ''t''" by (simp_all add: xray_node_def node_eval)
  then have "snd (DelNode ''t'' (wo_core demo_moving_world)) = demo_core"
    using del_residue [OF demo_fresh add_xray_node_residue [OF demo_fresh demo_os_fresh _ residue_start [OF demo_fresh]], of demo_vless_node False]
    by (simp add: demo_moving_world_def AddNode_xray)
  moreover have "fst (DelNode ''t'' (wo_core demo_moving_world)) = None"
    by (rule DelNode_handler) (simp_all add: demo_moving_world_def node_eval split: option.split)
  ultimately show ?thesis by (metis prod.collapse)
qed

lemmas reply_eval = GetNodeInfo_def demo_client_def panel_New_def demo_node_config_def Let_def ToLower_def getNodeInfoV2_def
  v2_security_def finalizeNode_def node_intervals_def zero_CommonNode_def blank_node_def

lemma demo_move_reply:
  "\<exists>n. GetNodeInfo (ce_json demo_move_env) demo_client (Inr (Some [])) = Return n \<and> ni_Type n = ''vless'' \<and> ni_Security n = 0
     \<and> (\<exists>cm. ni_Common n = Some cm \<and> cn_ServerPort cm = 0 \<and> cn_NetworkSettings cm = [] \<and> cn_Encryption cm = [])"
  by (simp add: demo_move_env_def reply_eval)

theorem failed_rebuild_is_permanent_witness:
  "run_cycles (replicate 10 (demo_move_env, demo_cycle)) demo_moving demo_moving_world = (demo_moving, demo_moving_world\<lparr>wo_core := demo_core\<rparr>)"
proof -
  obtain n cm where n: "GetNodeInfo (ce_json demo_move_env) demo_client (Inr (Some [])) = Return n" "ni_Type n = ''vless''" "ni_Security n = 0"
    "ni_Common n = Some cm" "cn_ServerPort cm = 0" "cn_NetworkSettings cm = []" "cn_Encryption cm = []"
    using demo_move_reply by blast
  have c: "ct_apiClient demo_moving = demo_client" "ct_tag demo_moving = ''t''" "ct_info demo_moving = Some demo_vless_node"
    "cy_node demo_cycle = Inr (Some [])" by (simp_all add: demo_moving_def demo_cycle_def)
  have need: "nodeNeedsRebuild (Some demo_vless_node) (Some n)"
    using n by (simp add: nodeNeedsRebuild_def listener_differs_def demo_vless_node_def)
  have reply: "GetNodeInfo (ce_json demo_move_env) (ct_apiClient demo_moving) (cy_node demo_cycle) = Return n" by (simp add: c n(1))
  have wants: "\<forall>p\<in>set (replicate 9 (demo_move_env, demo_cycle)). wants_rebuild demo_moving p"
    using n(1) need by (simp add: wants_rebuild_def c)
  have del: "DelNode (ct_tag demo_moving) (wo_core demo_moving_world) = (None, demo_core)" by (simp add: c(2) demo_moving_del)
  have add: "AddNode demo_move_env (ct_tag demo_moving) n (SniffDisabled (ct_conf demo_moving) (ct_global demo_moving)) demo_core = (Some (''build inbound error: invalid''), demo_core)"
    using n by (simp add: node_eval demo_move_env_def c)
  have "run_cycles ((demo_move_env, demo_cycle) # replicate 9 (demo_move_env, demo_cycle)) demo_moving demo_moving_world =
      (demo_moving, demo_moving_world\<lparr>wo_core := demo_core\<rparr>)"
    by (rule failed_rebuild_is_permanent [OF reply need [folded c(3)] del _ add wants]) (simp add: c demo_fresh)
  then show ?thesis by (simp add: eval_nat_numeral)
qed


section \<open>An empty user list\<close>

lemma sync_lists_empty:
  assumes "synced c w" and "GetUserList (cy_users i) = Inr ([], etag)" and "ct_userList c \<noteq> []" and "sync_lists E i c w = (f, c', w')"
  shows "synced c' w' \<and> ct_userList c' = ct_userList c \<and> cl_userEtag (ct_apiClient c') = cl_userEtag (ct_apiClient c) \<and> ct_tag c' = ct_tag c"
proof -
  obtain alive api where al: "GetUserAlive (cy_alive i) (ct_apiClient c) = (alive, api)" by force
  then have et: "cl_userEtag api = cl_userEtag (ct_apiClient c)" by (auto simp: GetUserAlive_def Let_def)
  define w1 where "w1 = (case alive of None \<Rightarrow> w | Some m \<Rightarrow> update_limiter (ct_tag c) (UpdateAliveList m) w)"
  let ?c = "c\<lparr>ct_apiClient := api\<rparr>"
  have s: "synced ?c w1" using assms(1) by (auto simp: w1_def synced_def split: option.split)
  obtain f3 c3 w3 where r: "sync_reconcile E (cy_coreOrder i) ?c w1 = (f3, c3, w3)" by (rule prod_cases3)
  have u: "sync_users E (cy_order i) (Some ([], etag)) ?c w1 = (Continue, ?c, w1)" using assms(3) by (simp add: sync_users_def)
  from sync_reconcile_synced [OF s r] have 3: "f3 = Continue" "synced c3 w3" "ct_tag c3 = ct_tag c" "ct_userList c3 = ct_userList c" by auto
  have "ct_apiClient c3 = api" using r by (auto simp: sync_reconcile_def split: if_splits prod.splits)
  moreover have p: "check_port E (cy_refuse i) c3 w3 = (f, c', w')"
    using assms(4) by (simp add: sync_lists_def assms(2) al w1_def [symmetric] u r 3(1) flow_bind_def)
  then have "ct_apiClient c' = ct_apiClient c3" by (auto simp: check_port_def split: option.splits if_splits prod.splits flow.splits)
  ultimately show ?thesis using check_port_synced [OF 3(2) p] 3 et by simp
qed

lemma sync_node_client: "sync_node E n c w = (f, c', w') \<Longrightarrow> ct_apiClient c' = ct_apiClient c"
  by (auto simp: sync_node_def split: if_splits prod.splits option.splits outcome.splits)

text \<open>
  Claim C14. An empty user list from the panel never removes the users of a node: whatever else the cycle does (a rebuild, an
  early stop, a panic), the controller's list, the core's record of the users and the version tag of the list stay as they are.
\<close>

theorem empty_list_keeps_users:
  assumes "synced c w" and "GetUserList (cy_users i) = Inr ([], etag)" and "ct_userList c \<noteq> []"
    and "nodeInfoMonitor E i c w = (f, c', w')"
  shows "ct_userList c' = ct_userList c \<and> GetUserUUIDs (ct_tag c) (wo_core w') = GetUserUUIDs (ct_tag c) (wo_core w)
    \<and> cl_userEtag (ct_apiClient c') = cl_userEtag (ct_apiClient c)"
proof (cases "GetNodeInfo (ce_json E) (ct_apiClient c) (cy_node i)")
  case (Return n)
  obtain f1 c1 w1 where s: "sync_node E n c w = (f1, c1, w1)" by (rule prod_cases3)
  from sync_node_synced [OF assms(1) s] have 1: "synced c1 w1" "ct_userList c1 = ct_userList c" "ct_tag c1 = ct_tag c" by auto
  have "synced c' w' \<and> ct_userList c' = ct_userList c \<and> cl_userEtag (ct_apiClient c') = cl_userEtag (ct_apiClient c) \<and> ct_tag c' = ct_tag c"
  proof (cases "f1 = Continue")
    case True
    then have "sync_lists E i c1 w1 = (f, c', w')" using assms(4) by (simp add: nodeInfoMonitor_def Return s flow_bind_def)
    with sync_lists_empty [OF 1(1) assms(2)] 1 assms(3) sync_node_client [OF s] show ?thesis by simp
  next
    case False
    then have "c' = c1" "w' = w1" using assms(4) by (auto simp: nodeInfoMonitor_def Return s flow_bind_def split: flow.splits)
    with 1 sync_node_client [OF s] show ?thesis by simp
  qed
  with assms(1) show ?thesis unfolding synced_def by metis
qed (use assms(4) in \<open>auto simp: nodeInfoMonitor_def\<close>)

definition demo_empty_cycle :: cycle_input where
  "demo_empty_cycle = demo_cycle\<lparr>cy_users := Inr (Some \<lparr>ur_msgpack = True, ur_ETag = ''v2'', ur_decoded = Inr [], ur_events = []\<rparr>)\<rparr>"

theorem empty_list_keeps_users_witness:
  "\<exists>f c' w'. nodeInfoMonitor demo_panel_env demo_empty_cycle demo_controller demo_world = (f, c', w')
     \<and> ct_userList c' = [demo_u1] \<and> GetUserUUIDs ''t'' (wo_core w') = {''u1''}"
proof -
  obtain f c' w' where r: "nodeInfoMonitor demo_panel_env demo_empty_cycle demo_controller demo_world = (f, c', w')" by (rule prod_cases3)
  have "GetUserList (cy_users demo_empty_cycle) = Inr ([], ''v2'')" by (simp add: demo_empty_cycle_def GetUserList_def)
  from empty_list_keeps_users [OF demo_synced this _ r] demo_synced r show ?thesis by (simp add: synced_def demo_u1_def)
qed

section \<open>The listener check\<close>

text \<open>
  A listener check changes the core only at the second miss in a row: the port was free at this check and at the
  previous one that was made, the count of misses starts again from zero afterwards, and it never exceeds one.
\<close>

theorem port_rebuild_needs_two_misses:
  assumes "check_port E refuse c w = (f, c', w')" and "ct_portFailCount c \<in> {0, 1}"
  shows "(w' \<noteq> w \<longrightarrow> ct_portFailCount c = 1 \<and> ct_userList c \<noteq> []
            \<and> (\<exists>n cm. ct_info c = Some n \<and> ni_Common n = Some cm
                 \<and> \<not> portBound refuse (cn_ServerPort cm) (ni_Type n = ''hysteria2'' \<or> ni_Type n = ''tuic'') (vc_net (wo_core w))))
    \<and> ((\<forall>p. f \<noteq> Crash p) \<longrightarrow> ct_portFailCount c' \<in> {0, 1} \<and> (w' \<noteq> w \<longrightarrow> ct_portFailCount c' = 0))
    \<and> (ct_portFailCount c' = 1 \<longrightarrow> w' = w)"
  using assms by (auto simp: check_port_def split: option.splits if_splits prod.splits flow.splits)

definition demo_listening :: Controller where
  "demo_listening = demo_controller\<lparr>ct_info := Some demo_vless_node\<rparr>"

theorem port_rebuild_needs_two_misses_witness:
  "\<exists>c'. check_port demo_os_env (\<lambda>a. None) demo_listening demo_world = (Continue, c', demo_world) \<and> ct_portFailCount c' = 1"
proof -
  have "\<not> portBound (\<lambda>a. None) 443 False (vc_net (wo_core demo_world))"
    by (simp add: portBound_def demo_world_def demo_core_def core_Start_def core_New_def)
  then have r: "check_port demo_os_env (\<lambda>a. None) demo_listening demo_world = (Continue, demo_listening\<lparr>ct_portFailCount := 1\<rparr>, demo_world)"
    by (simp add: check_port_def demo_listening_def demo_vless_node_def demo_info_def)
  with port_rebuild_needs_two_misses [OF r] show ?thesis by (simp add: demo_listening_def)
qed

section \<open>Changes the comparison of nodes does not see\<close>

text \<open>
  A new obfuscation password of a Hysteria2 node is not applied: the two configurations give different inbounds,
  but the comparison finds no difference, so the cycle records the new node and leaves the core with the inbound of the old one.
\<close>

theorem rebuild_misses_obfs_password:
  assumes "ct_info c = Some old" and "ni_Common old = Some cm" and "cn_Obfs cm \<noteq> []" and "cn_ObfsPassword cm \<noteq> []"
    and "pw \<noteq> []" and "pw \<noteq> cn_ObfsPassword cm" and "new = old\<lparr>ni_Common := Some (cm\<lparr>cn_ObfsPassword := pw\<rparr>)\<rparr>"
  shows "sync_node E new c w = (Continue, c\<lparr>ct_info := Some new\<rparr>, w)
    \<and> buildHysteria2 (cm\<lparr>cn_ObfsPassword := pw\<rparr>) d \<noteq> buildHysteria2 cm d"
proof -
  have "\<not> nodeNeedsRebuild (Some old) (Some new)"
    using assms(2,7) by (simp add: nodeNeedsRebuild_def listener_differs_def tls_differ_def)
  then have "sync_node E new c w = (Continue, c\<lparr>ct_info := Some new\<rparr>, w)" by (simp add: sync_node_def assms(1))
  moreover have "buildHysteria2 (cm\<lparr>cn_ObfsPassword := pw\<rparr>) d \<noteq> buildHysteria2 cm d"
  proof
    assume "buildHysteria2 (cm\<lparr>cn_ObfsPassword := pw\<rparr>) d = buildHysteria2 cm d"
    then have "map_option (\<lambda>s. map_option fm_Udp (st_FinalMask s)) (id_StreamSetting (buildHysteria2 (cm\<lparr>cn_ObfsPassword := pw\<rparr>) d)) =
        map_option (\<lambda>s. map_option fm_Udp (st_FinalMask s)) (id_StreamSetting (buildHysteria2 cm d))" by simp
    with assms(3-6) show False by (simp add: buildHysteria2_def Let_def json_object1_def)
  qed
  ultimately show ?thesis ..
qed


theorem rebuild_misses_obfs_password_witness:
  "\<exists>cm new. sync_node demo_os_env new (demo_controller\<lparr>ct_info := Some (demo_info\<lparr>ni_Common := Some cm\<rparr>)\<rparr>) demo_world =
       (Continue, demo_controller\<lparr>ct_info := Some new\<rparr>, demo_world)
     \<and> buildHysteria2 (cm\<lparr>cn_ObfsPassword := ''new''\<rparr>) empty_InboundDetour \<noteq> buildHysteria2 cm empty_InboundDetour"
proof -
  let ?cm = "zero_CommonNode\<lparr>cn_Obfs := ''salamander'', cn_ObfsPassword := ''old''\<rparr>"
  let ?old = "demo_info\<lparr>ni_Common := Some ?cm\<rparr>"
  let ?new = "?old\<lparr>ni_Common := Some (?cm\<lparr>cn_ObfsPassword := ''new''\<rparr>)\<rparr>"
  have "sync_node demo_os_env ?new (demo_controller\<lparr>ct_info := Some ?old\<rparr>) demo_world = (Continue, (demo_controller\<lparr>ct_info := Some ?old\<rparr>)\<lparr>ct_info := Some ?new\<rparr>, demo_world)
     \<and> buildHysteria2 (?cm\<lparr>cn_ObfsPassword := ''new''\<rparr>) empty_InboundDetour \<noteq> buildHysteria2 ?cm empty_InboundDetour"
    by (rule rebuild_misses_obfs_password [of _ ?old ?cm]) simp_all
  then show ?thesis by (intro exI [of _ ?cm] exI [of _ ?new]) simp
qed

section \<open>Certificates after a rebuild\<close>

lemma node_steps_certs:
  "sync_node E n c w = (f, c', w') \<Longrightarrow> wo_certs w' = wo_certs w"
  "rebuild_port E info c w = (f, w') \<Longrightarrow> wo_certs w' = wo_certs w"
  "check_port E refuse c w = (f, c', w') \<Longrightarrow> wo_certs w' = wo_certs w"
proof -
  show "sync_node E n c w = (f, c', w') \<Longrightarrow> wo_certs w' = wo_certs w"
    by (auto simp: sync_node_def split: if_splits prod.splits option.splits outcome.splits)
  have r: "wo_certs w1 = wo_certs w" if "rebuild_port E info c w = (f1, w1)" for info f1 w1
    using that by (auto simp: rebuild_port_def split: prod.splits option.splits outcome.splits)
  then show "rebuild_port E info c w = (f, w') \<Longrightarrow> wo_certs w' = wo_certs w" .
  show "check_port E refuse c w = (f, c', w') \<Longrightarrow> wo_certs w' = wo_certs w"
    by (auto simp: check_port_def dest: r split: option.splits if_splits prod.splits flow.splits)
qed

lemma update_limiter_certs [simp]: "wo_certs (update_limiter tag f w) = wo_certs w"
  by (simp add: update_limiter_def split: option.split)

lemma list_steps_certs:
  "sync_users E order users c w = (f, c', w') \<Longrightarrow> wo_certs w' = wo_certs w"
  "sync_reconcile E korder c w = (f, c', w') \<Longrightarrow> wo_certs w' = wo_certs w"
proof -
  show "sync_users E order users c w = (f, c', w') \<Longrightarrow> wo_certs w' = wo_certs w"
    by (auto simp: sync_users_def Let_def split: if_splits prod.splits option.splits outcome.splits)
  show "sync_reconcile E korder c w = (f, c', w') \<Longrightarrow> wo_certs w' = wo_certs w"
    by (auto simp: sync_reconcile_def reconcileUsers_def Let_def split: if_splits prod.splits outcome.splits)
qed

text \<open>The certificate description the panel's node carries is the one the controller holds after a completed cycle.\<close>

lemma cycle_info:
  assumes "nodeInfoMonitor E i c w = (Continue, c', w')" and "GetNodeInfo (ce_json E) (ct_apiClient c) (cy_node i) = Return n"
  shows "ct_info c' = Some n \<and> wo_certs w' = wo_certs w \<and> ct_conf c' = ct_conf c \<and> ct_global c' = ct_global c"
proof -
  obtain f1 c1 w1 where s1: "sync_node E n c w = (f1, c1, w1)" by (rule prod_cases3)
  with assms have l: "f1 = Continue" "sync_lists E i c1 w1 = (Continue, c', w')"
    by (auto simp: nodeInfoMonitor_def flow_bind_def split: flow.splits)
  have c1: "ct_info c1 = Some n" "ct_conf c1 = ct_conf c" "ct_global c1 = ct_global c"
    using s1 l(1) by (auto simp: sync_node_def split: if_splits prod.splits option.splits outcome.splits)
  from l(2) obtain users api w1' c2 w2 c3 w3 where
    s: "sync_users E (cy_order i) users (c1\<lparr>ct_apiClient := api\<rparr>) w1' = (Continue, c2, w2)" "wo_certs w1' = wo_certs w1"
      "sync_reconcile E (cy_coreOrder i) c2 w2 = (Continue, c3, w3)" "check_port E (cy_refuse i) c3 w3 = (Continue, c', w')"
    by (auto simp: sync_lists_def Let_def flow_bind_def split: sum.splits if_splits prod.splits flow.splits option.splits)
  have certs: "wo_certs w' = wo_certs w"
    using node_steps_certs(1) [OF s1] list_steps_certs(1) [OF s(1)] s(2) list_steps_certs(2) [OF s(3)] node_steps_certs(3) [OF s(4)] by simp
  have keep: "ct_info c2 = ct_info c1 \<and> ct_conf c2 = ct_conf c1 \<and> ct_global c2 = ct_global c1"
      "ct_info c3 = ct_info c2 \<and> ct_conf c3 = ct_conf c2 \<and> ct_global c3 = ct_global c2"
      "ct_info c' = ct_info c3 \<and> ct_conf c' = ct_conf c3 \<and> ct_global c' = ct_global c3"
    using s(1) apply (auto simp: sync_users_def Let_def split: if_splits prod.splits option.splits outcome.splits) [1]
    using s(3) apply (auto simp: sync_reconcile_def split: if_splits prod.splits) [1]
    using s(4) by (auto simp: check_port_def split: option.splits if_splits prod.splits flow.splits)
  with c1 certs show ?thesis by simp
qed

text \<open>
  A completed cycle does not take over certificates. A certificate that the panel replaced makes the node be
  rebuilt, but its file is not written, although a request would write it: only the start requests certificates. And the controller
  then holds the panel's certificate description, without the local configuration that the start had laid over
  it, so the daily renewal works on the panel's values.
\<close>

theorem cycle_ignores_certificates:
  assumes "nodeInfoMonitor E i c w = (Continue, c', w')" and "GetNodeInfo (ce_json E) (ct_apiClient c) (cy_node i) = Return n"
    and "ct_info c = Some old" and "ni_Common old = Some cm" and "ni_Common n = Some cm'" and "cn_CertInfo cm' = Some ci"
    and "ts_TlsCert (cn_TlsSettings cm) \<noteq> ts_TlsCert (cn_TlsSettings cm')"
    and "ci_CertMode ci = ''remote''" and "\<not> no_paths ci" and "ci_CertFile ci \<noteq> ci_KeyFile ci" and "ci_TlsCert ci \<noteq> []" and "ci_TlsKey ci \<noteq> []"
    and "\<forall>p. cx_WriteFile X p = None"
  shows "nodeNeedsRebuild (ct_info c) (Some n) \<and> wo_certs w' = wo_certs w
    \<and> snd (requestCert X ci (wo_certs w)) (ci_CertFile ci) = Some (ci_TlsCert ci)
    \<and> node_cert (ct_info c') = Some ci
    \<and> (\<forall>cc. EffectiveCert (ct_conf c) (ct_global c) = Some cc \<longrightarrow>
          node_cert (ct_info (applyCertOverride c')) = Some (override_cert cc ci))
    \<and> (cx_NewLego X ci = None \<longrightarrow> renewCertTask X c' w' = (Return (), w'\<lparr>wo_certs := wo_certs w ++ snd (cx_RenewCert X ci)\<rparr>))"
proof (intro conjI)
  note k = cycle_info [OF assms(1,2)]
  show "nodeNeedsRebuild (ct_info c) (Some n)" using assms(3-5,7) by (simp add: nodeNeedsRebuild_def tls_differ_def)
  show "wo_certs w' = wo_certs w" using k by simp
  show "snd (requestCert X ci (wo_certs w)) (ci_CertFile ci) = Some (ci_TlsCert ci)"
    using assms(8-13) by (simp add: requestCert_def write_remote_def Let_def)
  show cert: "node_cert (ct_info c') = Some ci" using k assms(5,6) by (simp add: node_cert_def)
  show "\<forall>cc. EffectiveCert (ct_conf c) (ct_global c) = Some cc \<longrightarrow> node_cert (ct_info (applyCertOverride c')) = Some (override_cert cc ci)"
    using k assms(5,6) by (simp add: applyCertOverride_def node_cert_def set_node_cert_def)
  show "cx_NewLego X ci = None \<longrightarrow> renewCertTask X c' w' = (Return (), w'\<lparr>wo_certs := wo_certs w ++ snd (cx_RenewCert X ci)\<rparr>)"
    using cert k by (simp add: renewCertTask_def)
qed

text \<open>A TLS node whose certificate the panel replaced, and certificate tools that succeed.\<close>

definition demo_tls_common :: "string \<Rightarrow> CommonNode" where
  "demo_tls_common pem = zero_CommonNode\<lparr>cn_Protocol := ''vless'', cn_Tls := 1,
     cn_TlsSettings := zero_TlsSettings\<lparr>ts_CertMode := ''remote'', ts_CertFile := ''c.pem'', ts_KeyFile := ''k.pem'', ts_TlsCert := pem, ts_TlsKey := ''key''\<rparr>\<rparr>"

definition demo_tls_env :: "validator core_env" where
  "demo_tls_env = demo_os_env\<lparr>ce_json := demo_codec\<lparr>jc_node := (\<lambda>b. Inr (demo_tls_common b))\<rparr>\<rparr>"

definition demo_tools :: cert_env where
  "demo_tools = \<lparr>cx_IsExist = (\<lambda>p. False), cx_NewLego = (\<lambda>ci. None), cx_CreateCert = (\<lambda>ci. (None, Map.empty)),
     cx_SelfSigned = (\<lambda>ci. (None, Map.empty)), cx_RenewCert = (\<lambda>ci. (None, Map.empty)), cx_WriteFile = (\<lambda>p. None)\<rparr>"


lemma demo_tls_reply:
  "\<exists>n. GetNodeInfo (ce_json demo_tls_env) demo_client (Inr (Some pem)) = Return n \<and> ni_Type n = ''vless'' \<and> ni_Security n = 1
     \<and> ni_Common n = Some ((demo_tls_common pem)\<lparr>cn_CertInfo := Some (cert_info demo_client ''vless'' (cn_TlsSettings (demo_tls_common pem)))\<rparr>)"
  by (simp add: demo_tls_env_def demo_tls_common_def reply_eval)

lemmas tls_eval = demo_lib_def demo_tls_env_def demo_tls_common_def set_tls_def update_stream_def cert_info_def zero_TlsSettings_def node_eval

theorem cycle_ignores_certificates_witness:
  "\<exists>c w i c' w' ci. nodeInfoMonitor demo_tls_env i c w = (Continue, c', w') \<and> wo_certs w' = wo_certs w
     \<and> snd (requestCert demo_tools ci (wo_certs w)) ''c.pem'' = Some ''new'' \<and> node_cert (ct_info c') = Some ci"
proof -
  obtain n where n: "GetNodeInfo (ce_json demo_tls_env) demo_client (Inr (Some ''new'')) = Return n" "ni_Type n = ''vless''" "ni_Security n = 1"
    "ni_Common n = Some ((demo_tls_common ''new'')\<lparr>cn_CertInfo := Some (cert_info demo_client ''vless'' (cn_TlsSettings (demo_tls_common ''new'')))\<rparr>)"
    using demo_tls_reply by blast
  let ?old = "demo_vless_node"
  let ?w = "demo_moving_world"
  let ?c = "demo_controller\<lparr>ct_info := Some ?old, ct_userList := []\<rparr>"
  let ?i = "demo_cycle\<lparr>cy_node := Inr (Some ''new''), cy_users := Inr (Some \<lparr>ur_msgpack = True, ur_ETag = ''v2'', ur_decoded = Inr [], ur_events = []\<rparr>)\<rparr>"
  let ?ci = "cert_info demo_client ''vless'' (cn_TlsSettings (demo_tls_common ''new''))"
  have need: "nodeNeedsRebuild (Some ?old) (Some n)" using n by (simp add: nodeNeedsRebuild_def listener_differs_def demo_vless_node_def demo_tls_common_def zero_CommonNode_def)
  have ok: "\<exists>v. AddNode demo_tls_env ''t'' n False demo_core = (None, v)"
    using n(2-4) by (simp add: tls_eval split: option.split)
  have r: "\<exists>c' w'. nodeInfoMonitor demo_tls_env ?i ?c ?w = (Continue, c', w')"
    using ok by (auto simp: nodeInfoMonitor_def n(1) sync_node_def need demo_moving_del flow_bind_def sync_lists_def GetUserList_def
        GetUserAlive_def sync_users_def compareUserList_def delete_users_def add_users_def sync_reconcile_def userReconcileEvery_def check_port_def
        demo_cycle_def SniffDisabled_def demo_node_config_def zero_GlobalConfig_def n(4) demo_order_def Let_def)
  then obtain c' w' where r: "nodeInfoMonitor demo_tls_env ?i ?c ?w = (Continue, c', w')" by blast
  have "wo_certs w' = wo_certs ?w \<and> snd (requestCert demo_tools ?ci (wo_certs ?w)) (ci_CertFile ?ci) = Some (ci_TlsCert ?ci) \<and> node_cert (ct_info c') = Some ?ci"
    using cycle_ignores_certificates [OF r _ _ _ n(4), of ?old _ ?ci demo_tools]
    by (simp add: n(1) demo_vless_node_def demo_tls_common_def cert_info_def no_paths_def demo_tools_def zero_CommonNode_def zero_TlsSettings_def)
  then show ?thesis using r
    by (intro exI [of _ ?c] exI [of _ ?w] exI [of _ ?i] exI [of _ c'] exI [of _ w'] exI [of _ ?ci])
      (simp add: cert_info_def demo_tls_common_def)
qed

end
