(* ===== verification/Server.thy ===== *)
theory Server
  imports Controller_Recovery "HOL-Library.Multiset"
begin

text \<open>
  The process: the set of nodes (\<open>node/node.go\<close>) and the server command with its hot reload (\<open>cmd/server.go\<close>). The panels'
  first answers arrive, and the controllers start, in an order that is an argument; the starts are taken
  one after the other. What loading the configuration gives, whether Xray starts, and the answers during
  the starts are arguments too. Logging, signals and the memory settings are not modelled.
\<close>

section \<open>The set of nodes\<close>

record Node =
  nn_controllers :: "Controller list"
  nn_NodeInfos :: "NodeInfo list"

text \<open>One panel: the controller with its node, nothing when the panel is skipped. A panic ends the process.\<close>

definition fetch_one :: "json_codec \<Rightarrow> (nat \<Rightarrow> string reply) \<Rightarrow> NodeConfig list \<Rightarrow> GlobalConfig \<Rightarrow> nat \<Rightarrow> (Controller \<times> NodeInfo) option outcome" where
  "fetch_one J replies nodes global idx =
     (let p = panel_New (nodes ! idx) in
      case GetNodeInfo J p (replies idx) of
        Return info \<Rightarrow> Return (Some (NewController p (nodes ! idx) (Some info) global, info))
      | Error e \<Rightarrow> Return None
      | Panic e \<Rightarrow> Panic e)"

fun fetch_all :: "(nat \<Rightarrow> (Controller \<times> NodeInfo) option outcome) \<Rightarrow> nat list \<Rightarrow> (Controller \<times> NodeInfo) list outcome" where
  "fetch_all f [] = Return []"
| "fetch_all f (i # is) =
     obind (f i) (\<lambda>r. obind (fetch_all f is) (\<lambda>rest. Return (case r of None \<Rightarrow> rest | Some x \<Rightarrow> x # rest)))"

definition node_New :: "json_codec \<Rightarrow> (nat \<Rightarrow> string reply) \<Rightarrow> nat list \<Rightarrow> NodeConfig list \<Rightarrow> GlobalConfig \<Rightarrow> Node outcome" where
  "node_New J replies order nodes global =
     obind (fetch_all (fetch_one J replies nodes global) order)
       (\<lambda>rs. if rs = [] then Error (''all '' @ Itoa (int (length nodes)) @ '' nodes failed to initialize'')
             else Return \<lparr>nn_controllers = map fst rs, nn_NodeInfos = map snd rs\<rparr>)"

text \<open>Starting: a controller that fails is kept in the list, as its start left it.\<close>

fun start_all ::
  "'u core_env \<Rightarrow> cert_env \<Rightarrow> (nat \<Rightarrow> start_input) \<Rightarrow> nat list \<Rightarrow> Controller list \<Rightarrow> 'u World \<Rightarrow> nat outcome \<times> Controller list \<times> 'u World" where
  "start_all E X inp [] cs w = (Return 0, cs, w)"
| "start_all E X inp (i # is) cs w =
     (case ctl_Start E X (inp i) (cs ! i) w of
        (Panic p, c, w1) \<Rightarrow> (Panic p, cs[i := c], w1)
      | (Error e, c, w1) \<Rightarrow> start_all E X inp is (cs[i := c]) w1
      | (Return u, c, w1) \<Rightarrow>
          (case start_all E X inp is (cs[i := c]) w1 of (r, cs', w2) \<Rightarrow> (obind r (\<lambda>n. Return (Suc n)), cs', w2)))"

definition node_Start ::
  "'u core_env \<Rightarrow> cert_env \<Rightarrow> (nat \<Rightarrow> start_input) \<Rightarrow> nat list \<Rightarrow> Node \<Rightarrow> 'u World \<Rightarrow> unit outcome \<times> Node \<times> 'u World" where
  "node_Start E X inp order n w =
     (case start_all E X inp order (nn_controllers n) w of
        (r, cs, w') \<Rightarrow>
          (obind r (\<lambda>started. if started = 0
                      then Error (''all '' @ Itoa (int (length (nn_controllers n))) @ '' node controllers failed to start'') else Return ()),
           n\<lparr>nn_controllers := cs\<rparr>, w'))"

definition close_all :: "bool \<Rightarrow> Controller list \<Rightarrow> 'u World \<Rightarrow> 'u World" where
  "close_all deleteLimiter cs w = fold (\<lambda>c w. snd (ctl_close deleteLimiter c w)) cs w"

definition node_Close :: "Node \<Rightarrow> 'u World \<Rightarrow> Node \<times> 'u World" where
  "node_Close n w = (n\<lparr>nn_controllers := []\<rparr>, close_all True (nn_controllers n) w)"

definition node_CloseForReload :: "Node \<Rightarrow> 'u World \<Rightarrow> Node \<times> 'u World" where
  "node_CloseForReload n w = (n\<lparr>nn_controllers := []\<rparr>, close_all False (nn_controllers n) w)"

definition node_Tags :: "Node \<Rightarrow> string list" where
  "node_Tags n = map ct_tag (nn_controllers n)"

section \<open>The server\<close>

record 'u Server =
  sv_nodes :: Node
  sv_world :: "'u World"

record 'u server_input =
  sx_conf :: "goerror + Conf"
  sx_env :: "'u core_env"
  sx_tools :: cert_env
  sx_replies :: "nat \<Rightarrow> string reply"
  sx_order :: "nat list"
  sx_server :: "goerror option"
  sx_starts :: "nat \<Rightarrow> start_input"
  sx_startOrder :: "nat list"
  sx_closeOrder :: "string \<Rightarrow> string list"

text \<open>A new core shares the sockets and files of the process with the old one.\<close>

definition new_core :: "Conf \<Rightarrow> 'u World \<Rightarrow> 'u World" where
  "new_core c w = w\<lparr>wo_core := core_New c (vc_net (wo_core w)) (vc_files (wo_core w))\<rparr>"

definition fetch_nodes :: "'u server_input \<Rightarrow> (Conf \<times> Node) outcome" where
  "fetch_nodes i =
     (case sx_conf i of
        Inl e \<Rightarrow> Error (''load config: '' @ e)
      | Inr c \<Rightarrow>
          (case node_New (ce_json (sx_env i)) (sx_replies i) (sx_order i) (cf_NodeConfigs c) (cf_Global c) of
             Return n \<Rightarrow> Return (c, n)
           | Error e \<Rightarrow> Error (''fetch node info: '' @ e @ '' (old nodes still running)'')
           | Panic p \<Rightarrow> Panic p))"

text \<open>Building a system: the core with its Xray instance, then the nodes.\<close>

definition rebuild :: "'u server_input \<Rightarrow> Conf \<Rightarrow> Node \<Rightarrow> 'u World \<Rightarrow> unit outcome \<times> Node \<times> 'u World" where
  "rebuild i c n w =
     (case core_Start (sx_server i) (wo_core (new_core c w)) of
        (Some e, v) \<Rightarrow> (Error (''start new core: '' @ e), n, w\<lparr>wo_core := v\<rparr>)
      | (None, v) \<Rightarrow>
          (case node_Start (sx_env i) (sx_tools i) (sx_starts i) (sx_startOrder i) n (w\<lparr>wo_core := v\<rparr>) of
             (Error e, n', w') \<Rightarrow> (Error (''start new nodes: '' @ e), n', w')
           | r \<Rightarrow> r))"

definition prune :: "string list \<Rightarrow> string list \<Rightarrow> limiters \<Rightarrow> limiters" where
  "prune oldTags newTags ls = fold (\<lambda>t ls. if t \<in> set newTags then ls else DeleteLimiter t ls) oldTags ls"

text \<open>
  A reload. When building the new system fails, the process keeps the old nodes, without controllers, and the old, closed core;
  what the abandoned core did to sockets, files, limiters and certificates remains.
\<close>

definition teardown :: "'u server_input \<Rightarrow> 'u Server \<Rightarrow> 'u Server" where
  "teardown i s =
     (case node_CloseForReload (sv_nodes s) (sv_world s) of
        (n, w) \<Rightarrow> \<lparr>sv_nodes = n, sv_world = w\<lparr>wo_core := core_Close (sx_closeOrder i) (wo_core w)\<rparr>\<rparr>)"

definition abandon :: "'u V2Core \<Rightarrow> 'u World \<Rightarrow> 'u World" where
  "abandon old w = w\<lparr>wo_core := old\<lparr>vc_net := vc_net (wo_core w), vc_files := vc_files (wo_core w)\<rparr>\<rparr>"

definition reload :: "'u server_input \<Rightarrow> 'u Server \<Rightarrow> unit outcome \<times> 'u Server" where
  "reload i s =
     (case fetch_nodes i of
        Error e \<Rightarrow> (Error e, s)
      | Panic p \<Rightarrow> (Panic p, s)
      | Return (c, newNodes) \<Rightarrow>
          (let oldTags = node_Tags (sv_nodes s);
               s1 = teardown i s
           in case rebuild i c newNodes (sv_world s1) of
                (Return u, n, w) \<Rightarrow> (Return (), \<lparr>sv_nodes = n, sv_world = w\<lparr>wo_limiters := prune oldTags (node_Tags n) (wo_limiters w)\<rparr>\<rparr>)
              | (Error e, n, w) \<Rightarrow> (Error e, s1\<lparr>sv_world := abandon (wo_core (sv_world s1)) w\<rparr>)
              | (Panic p, n, w) \<Rightarrow> (Panic p, s1\<lparr>sv_world := abandon (wo_core (sv_world s1)) w\<rparr>)))"

text \<open>The start of the process, from the sockets, files and certificates it finds.\<close>

definition serverHandle :: "'u server_input \<Rightarrow> net \<Rightarrow> files \<Rightarrow> (string \<rightharpoonup> string) \<Rightarrow> 'u Server outcome" where
  "serverHandle i net0 fs certs =
     (case sx_conf i of
        Inl e \<Rightarrow> Error (''Load config file failed: '' @ e)
      | Inr c \<Rightarrow>
          obind (node_New (ce_json (sx_env i)) (sx_replies i) (sx_order i) (cf_NodeConfigs c) (cf_Global c))
            (\<lambda>n. case rebuild i c n \<lparr>wo_core = core_New c net0 fs, wo_limiters = Map.empty, wo_certs = certs\<rparr> of
                   (Return u, n', w) \<Rightarrow> Return \<lparr>sv_nodes = n', sv_world = w\<rparr>
                 | (Error e, n', w) \<Rightarrow> Error e
                 | (Panic p, n', w) \<Rightarrow> Panic p))"


section \<open>Fetching the nodes\<close>

lemma fetch_all_Return:
  "fetch_all f is = Return rs \<longleftrightarrow> (\<forall>i\<in>set is. \<exists>r. f i = Return r) \<and> rs = List.map_filter (\<lambda>i. case f i of Return r \<Rightarrow> r | _ \<Rightarrow> None) is"
proof (induction "is" arbitrary: rs)
  case (Cons i "is")
  show ?case
  proof (cases "f i")
    case (Return r)
    then show ?thesis using Cons.IH by (cases r) (auto simp: obind_Return map_filter_simps)
  qed simp_all
qed (auto simp: map_filter_simps)

lemma map_filter_mset: "mset xs = mset ys \<Longrightarrow> mset (List.map_filter f xs) = mset (List.map_filter f ys)"
  unfolding map_filter_def by (simp add: mset_map mset_filter)

text \<open>
  The nodes do not depend on which panel answers first: if fetching succeeds with one order of the answers it succeeds
  with every other, and gives the same controllers and node descriptions up to their order.
\<close>

theorem nodes_any_order:
  assumes "node_New J replies order nodes global = Return n" and "mset order' = mset order"
  shows "\<exists>n'. node_New J replies order' nodes global = Return n' \<and> mset (nn_controllers n') = mset (nn_controllers n)
    \<and> mset (nn_NodeInfos n') = mset (nn_NodeInfos n)"
proof -
  let ?f = "fetch_one J replies nodes global"
  let ?g = "\<lambda>i. case ?f i of Return r \<Rightarrow> r | _ \<Rightarrow> None"
  from assms(1) obtain rs where rs: "fetch_all ?f order = Return rs" "rs \<noteq> []" "n = \<lparr>nn_controllers = map fst rs, nn_NodeInfos = map snd rs\<rparr>"
    by (auto simp: node_New_def obind_Return split: if_splits)
  have s: "set order' = set order" using assms(2) by (rule mset_eq_setD)
  let ?rs = "List.map_filter ?g order'"
  have "fetch_all ?f order' = Return ?rs" using rs(1) s by (simp add: fetch_all_Return)
  moreover have m: "mset ?rs = mset rs" using rs(1) map_filter_mset [OF assms(2)] by (simp add: fetch_all_Return)
  moreover have "?rs \<noteq> []" using m rs(2) by (metis mset_zero_iff)
  ultimately have "node_New J replies order' nodes global = Return \<lparr>nn_controllers = map fst ?rs, nn_NodeInfos = map snd ?rs\<rparr>"
    by (simp add: node_New_def)
  then show ?thesis using m by (simp add: rs(3) mset_map)
qed

theorem nodes_any_order_witness:
  "\<exists>n n'. node_New (ce_json demo_panel_env) (\<lambda>i. Inr (Some [])) [0, 1] [demo_node_config, demo_node_config\<lparr>nc_NodeID := 2\<rparr>] zero_GlobalConfig = Return n
     \<and> node_New (ce_json demo_panel_env) (\<lambda>i. Inr (Some [])) [1, 0] [demo_node_config, demo_node_config\<lparr>nc_NodeID := 2\<rparr>] zero_GlobalConfig = Return n'
     \<and> mset (nn_controllers n') = mset (nn_controllers n)"
proof -
  have "\<exists>n. node_New (ce_json demo_panel_env) (\<lambda>i. Inr (Some [])) [0, 1] [demo_node_config, demo_node_config\<lparr>nc_NodeID := 2\<rparr>] zero_GlobalConfig = Return n"
    by (simp add: node_New_def fetch_one_def demo_panel_env_def reply_eval)
  then obtain n where n: "node_New (ce_json demo_panel_env) (\<lambda>i. Inr (Some [])) [0, 1] [demo_node_config, demo_node_config\<lparr>nc_NodeID := 2\<rparr>] zero_GlobalConfig = Return n" ..
  have "mset [1, 0 :: nat] = mset [0, 1]" by simp
  from nodes_any_order [OF n this] n show ?thesis by blast
qed

section \<open>Failed reloads\<close>

definition no_runners :: "'u V2Core \<Rightarrow> bool" where
  "no_runners v \<longleftrightarrow> mg_runners (vc_mieru v) = Map.empty \<and> mg_runners (vc_sudoku v) = Map.empty \<and> mg_runners (vc_snell v) = Map.empty
     \<and> mg_runners (vc_ssaead v) = Map.empty \<and> mg_runners (vc_ssr v) = Map.empty \<and> mg_runners (vc_trojanss v) = Map.empty"

text \<open>
  Claim C13. A reload that fails either changed nothing, when the new configuration could not be loaded or no panel answered, or it left
  nothing running: the process then has no controller, and its core is closed, without inbound handler, native runner or dispatcher. It does not
  keep running as before, contrary to what it logs.
\<close>

theorem failed_reload:
  assumes "reload i s = (Error e, s')"
  shows "(fetch_nodes i = Error e \<and> s' = s)
    \<or> ((\<exists>p. fetch_nodes i = Return p) \<and> nn_controllers (sv_nodes s') = [] \<and> vc_ihm (wo_core (sv_world s')) = Map.empty
        \<and> no_runners (wo_core (sv_world s')) \<and> \<not> vc_dispatcher (wo_core (sv_world s')))"
proof (cases "fetch_nodes i")
  case (Return p)
  obtain c n where p: "p = (c, n)" by force
  define s1 where "s1 = teardown i s"
  obtain r n' w where r: "rebuild i c n (sv_world s1) = (r, n', w)" by (rule prod_cases3)
  have s': "s' = s1\<lparr>sv_world := abandon (wo_core (sv_world s1)) w\<rparr>"
    using assms by (cases r) (simp_all add: reload_def Return p Let_def s1_def [symmetric] r)
  have "nn_controllers (sv_nodes s1) = []" by (simp add: s1_def teardown_def node_CloseForReload_def)
  moreover have "vc_ihm (wo_core (sv_world s1)) = Map.empty" "no_runners (wo_core (sv_world s1))" "\<not> vc_dispatcher (wo_core (sv_world s1))"
    by (simp_all add: s1_def teardown_def node_CloseForReload_def core_Close_def no_runners_def mgr_CloseAll_def split: prod.split)
  ultimately show ?thesis by (simp add: s' Return abandon_def no_runners_def)
qed (use assms in \<open>simp_all add: reload_def\<close>)


definition demo_start :: start_input where
  "demo_start = \<lparr>si_node = Inr None, si_users = Inl ''timeout'', si_alive = Inl ''timeout''\<rparr>"

definition demo_server :: "validator Server" where
  "demo_server = \<lparr>sv_nodes = \<lparr>nn_controllers = [demo_controller], nn_NodeInfos = []\<rparr>, sv_world = demo_world\<lparr>wo_limiters := [''t'' \<mapsto> demo_limiter]\<rparr>\<rparr>"

definition demo_reload :: "goerror option \<Rightarrow> (nat \<Rightarrow> start_input) \<Rightarrow> validator server_input" where
  "demo_reload server starts = \<lparr>sx_conf = Inr (conf_New\<lparr>cf_NodeConfigs := [demo_node_config]\<rparr>), sx_env = demo_panel_env, sx_tools = demo_tools,
     sx_replies = (\<lambda>i. Inr (Some [])), sx_order = [0], sx_server = server, sx_starts = starts, sx_startOrder = [0], sx_closeOrder = (\<lambda>k. [])\<rparr>"

lemma demo_fetch:
  "\<exists>c n. fetch_nodes (demo_reload server starts) = Return (c, n) \<and> nn_controllers n = [NewController demo_client demo_node_config (Some demo_new_node) zero_GlobalConfig]"
  by (simp add: fetch_nodes_def demo_reload_def node_New_def fetch_one_def Let_def demo_node_reply [unfolded demo_client_def] demo_client_def conf_New_def)

theorem failed_reload_witness:
  "\<exists>e s'. reload (demo_reload (Some ''no port'') (\<lambda>i. demo_start)) demo_server = (Error e, s') \<and> nn_controllers (sv_nodes s') = []
     \<and> no_runners (wo_core (sv_world s'))"
proof -
  let ?i = "demo_reload (Some ''no port'') (\<lambda>i. demo_start)"
  from demo_fetch obtain c n where f: "fetch_nodes ?i = Return (c, n)" by blast
  have "sx_server ?i = Some ''no port''" by (simp add: demo_reload_def)
  then have "\<exists>s'. reload ?i demo_server = (Error ''start new core: no port'', s')"
    by (simp add: reload_def f Let_def rebuild_def core_Start_def)
  then obtain s' where r: "reload ?i demo_server = (Error ''start new core: no port'', s')" ..
  from failed_reload [OF this] f r show ?thesis by auto
qed


section \<open>Limiters across a reload\<close>

lemma node_cert_override: "ct_info c = Some n \<Longrightarrow> \<exists>n'. ct_info (applyCertOverride c) = Some n'"
  by (simp add: applyCertOverride_def split: option.split)

lemma applyCertOverride_keeps [simp]: "ct_tag (applyCertOverride c) = ct_tag c" "ct_limiter (applyCertOverride c) = ct_limiter c"
  by (simp_all add: applyCertOverride_def split: option.split)

lemma start_steps_keep:
  "start_node E node c w = (r, c', w') \<Longrightarrow> ct_tag c' = ct_tag c \<and> wo_limiters w' = wo_limiters w"
  "start_cert X c w = (e, w1) \<Longrightarrow> wo_limiters w1 = wo_limiters w"
proof -
  show "start_node E node c w = (r, c', w') \<Longrightarrow> ct_tag c' = ct_tag c \<and> wo_limiters w' = wo_limiters w"
    by (auto simp: start_node_def startTasks_def Let_def split: prod.splits option.splits outcome.splits)
  show "start_cert X c w = (e, w1) \<Longrightarrow> wo_limiters w1 = wo_limiters w"
    by (auto simp: start_cert_def split: option.splits if_splits prod.splits)
qed

text \<open>A start with a known node: nothing but the list of users is touched when the users cannot be fetched, and the node has its limiter otherwise.\<close>

lemma ctl_Start_limiter:
  assumes "ctl_Start E X i c w = (r, c', w')" and "ct_info c = Some n"
  shows "(\<exists>e. GetUserList (si_users i) = Inl e) \<and> ct_tag c' = ct_tag c \<and> wo_limiters w' = wo_limiters w \<and> (\<forall>u. r \<noteq> Return u)
    \<or> (\<exists>p. GetUserList (si_users i) = Inr p) \<and> ct_tag c' = ni_Tag n \<and> (\<exists>l. wo_limiters w' = (wo_limiters w)(ni_Tag n \<mapsto> l))"
proof (cases "GetUserList (si_users i)")
  case (Inl e)
  with assms show ?thesis by (auto simp: ctl_Start_def fetch_start_def fetch_node_def)
next
  case (Inr p)
  obtain us etag where p: "p = (us, etag)" by force
  obtain alive api where al: "GetUserAlive (si_alive i) (CommitUserEtag etag (ct_apiClient c)) = (alive, api)" by force
  define c1 where "c1 = c\<lparr>ct_userList := us, ct_apiClient := api, ct_aliveMap := (case alive of None \<Rightarrow> Map.empty | Some m \<Rightarrow> m), ct_tag := ni_Tag n\<rparr>"
  have f: "fetch_start (ce_json E) i c = (Return n, c1)" by (simp add: fetch_start_def fetch_node_def assms(2) Inr p al c1_def)
  define w1 where "w1 = w\<lparr>wo_limiters := AddLimiter (ni_Type n) (ct_tag c1) (ct_userList c1) (ct_aliveMap c1)
      (nc_SpeedLimit (ct_conf c1)) (nc_DeviceLimit (ct_conf c1)) (wo_limiters w)\<rparr>"
  define c2 where "c2 = applyCertOverride (c1\<lparr>ct_limiter := True\<rparr>)"
  have t1: "ct_tag c1 = ni_Tag n" by (simp add: c1_def)
  then have tag: "ct_tag c2 = ni_Tag n" by (simp add: c2_def)
  have lim: "\<exists>l. wo_limiters w1 = (wo_limiters w)(ni_Tag n \<mapsto> l)" by (auto simp: w1_def AddLimiter_def t1)
  obtain e w2 where sc: "start_cert X c2 w1 = (e, w2)" by force
  have "c' = c2 \<and> (w' = w1 \<or> w' = w2) \<or> (\<exists>r. start_node E (the (ct_info c2)) c2 w2 = (r, c', w'))"
    using assms(1) by (cases e) (auto simp: ctl_Start_def f Let_def w1_def [symmetric] c2_def [symmetric] sc split: if_splits)
  then have "ct_tag c' = ni_Tag n \<and> wo_limiters w' = wo_limiters w1"
    using start_steps_keep(2) [OF sc] tag by (auto dest: start_steps_keep(1))
  with lim Inr show ?thesis by simp
qed

text \<open>What a complete run of the starts does to the tags and the limiters.\<close>

lemma start_all_tags:
  assumes "start_all E X inp order cs w = (Return k, cs', w')" and "distinct order" and "set order \<subseteq> {..<length cs}"
    and "\<forall>j\<in>set order. ct_info (cs ! j) = Some (info j)"
  shows "length cs' = length cs \<and> (\<forall>t. wo_limiters w t \<noteq> None \<longrightarrow> wo_limiters w' t \<noteq> None) \<and> (\<forall>j. j \<notin> set order \<longrightarrow> cs' ! j = cs ! j)
    \<and> (\<forall>j\<in>set order. (\<forall>e. GetUserList (si_users (inp j)) = Inl e \<longrightarrow> ct_tag (cs' ! j) = ct_tag (cs ! j))
          \<and> (\<forall>p. GetUserList (si_users (inp j)) = Inr p \<longrightarrow> ct_tag (cs' ! j) = ni_Tag (info j) \<and> wo_limiters w' (ni_Tag (info j)) \<noteq> None))"
  using assms
proof (induction order arbitrary: cs w k)
  case (Cons i order)
  obtain r1 c w1 where s: "ctl_Start E X (inp i) (cs ! i) w = (r1, c, w1)" by (rule prod_cases3)
  from Cons.prems(4) have n: "ct_info (cs ! i) = Some (info i)" by simp
  have i: "i < length cs" "i \<notin> set order" using Cons.prems(2,3) by auto
  from Cons.prems(1) s obtain k2 where rest: "start_all E X inp order (cs[i := c]) w1 = (Return k2, cs', w')"
    by (cases r1) (auto simp: obind_Return split: prod.splits)
  have o: "distinct order" "set order \<subseteq> {..<length (cs[i := c])}" using Cons.prems(2,3) by auto
  have info: "\<forall>j\<in>set order. ct_info (cs[i := c] ! j) = Some (info j)"
  proof
    fix j assume "j \<in> set order"
    with Cons.prems(4) i(2) show "ct_info (cs[i := c] ! j) = Some (info j)" by (cases "j = i") auto
  qed
  note IH = Cons.IH [OF rest o info]
  note first = ctl_Start_limiter [OF s n]
  have c: "cs' ! i = c" using IH i by simp
  have mono: "\<forall>t. wo_limiters w t \<noteq> None \<longrightarrow> wo_limiters w1 t \<noteq> None" using first by auto
  have keep: "\<forall>j\<in>set order. ct_tag (cs[i := c] ! j) = ct_tag (cs ! j)" using i(2) by (metis nth_list_update_neq)
  have "(\<forall>e. GetUserList (si_users (inp i)) = Inl e \<longrightarrow> ct_tag (cs' ! i) = ct_tag (cs ! i))
      \<and> (\<forall>p. GetUserList (si_users (inp i)) = Inr p \<longrightarrow> ct_tag (cs' ! i) = ni_Tag (info i) \<and> wo_limiters w' (ni_Tag (info i)) \<noteq> None)"
    using first IH by (auto simp: c)
  moreover have "\<forall>j. j \<notin> set (i # order) \<longrightarrow> cs' ! j = cs ! j" using IH by simp
  ultimately show ?case using IH mono keep by simp
qed simp

lemma in_map_nth: "t \<in> set (map f xs) \<longleftrightarrow> (\<exists>j<length xs. f (xs ! j) = t)"
  by (metis in_set_conv_nth length_map nth_map)

lemma close_all_limiters: "wo_limiters (close_all False cs w) = wo_limiters w"
proof (induction cs arbitrary: w)
  case (Cons c cs)
  have "wo_limiters (snd (ctl_close False c w)) = wo_limiters w" by (simp add: ctl_close_def split: prod.split)
  with Cons.IH show ?case by (simp add: close_all_def)
qed (simp add: close_all_def)

lemma teardown_limiters: "wo_limiters (sv_world (teardown i s)) = wo_limiters (sv_world s)"
  by (simp add: teardown_def node_CloseForReload_def close_all_limiters)

lemma prune_lookup: "prune old new ls t = (if t \<in> set old \<and> t \<notin> set new then None else ls t)"
  by (induction old arbitrary: ls) (auto simp: prune_def DeleteLimiter_def)

lemma node_New_controllers:
  assumes "node_New J replies order nodes global = Return n" and "c \<in> set (nn_controllers n)"
  shows "ct_tag c = [] \<and> ct_info c \<noteq> None"
  using assms by (auto simp: node_New_def obind_Return fetch_all_Return map_filter_def fetch_one_def Let_def NewController_def
      split: if_splits outcome.splits option.splits)

text \<open>
  Claim C12. After a successful reload, a node that was running before has a limiter exactly if its tag belongs to a node of the new
  configuration whose users could be fetched; the teardown itself removes none. So the limiter of a node that is still configured
  is lost when its panel does not answer the request for the users: the controller then has no tag yet, and the pruning takes
  the node for removed.
\<close>

theorem limiters_after_reload:
  assumes "reload i s = (Return (), s')" and "fetch_nodes i = Return (c, n)" and "distinct (sx_startOrder i)"
    and "set (sx_startOrder i) = {..<length (nn_controllers n)}" and "t \<in> set (node_Tags (sv_nodes s))" and "t \<noteq> []"
  shows "wo_limiters (sv_world (teardown i s)) = wo_limiters (sv_world s)
    \<and> (wo_limiters (sv_world s') t \<noteq> None \<longleftrightarrow>
        (\<exists>j<length (nn_controllers n). (\<exists>p. GetUserList (si_users (sx_starts i j)) = Inr p) \<and> ni_Tag (the (ct_info (nn_controllers n ! j))) = t))"
proof -
  let ?cs = "nn_controllers n"
  define s1 where "s1 = teardown i s"
  obtain n' w where r: "rebuild i c n (sv_world s1) = (Return (), n', w)"
    and s': "s' = \<lparr>sv_nodes = n', sv_world = w\<lparr>wo_limiters := prune (node_Tags (sv_nodes s)) (node_Tags n') (wo_limiters w)\<rparr>\<rparr>"
    using assms(1) by (auto simp: reload_def assms(2) Let_def s1_def [symmetric] split: prod.splits outcome.splits)
  obtain v where v: "node_Start (sx_env i) (sx_tools i) (sx_starts i) (sx_startOrder i) n ((sv_world s1)\<lparr>wo_core := v\<rparr>) = (Return (), n', w)"
    using r by (auto simp: rebuild_def split: prod.splits option.splits outcome.splits)
  then obtain k cs' where st: "start_all (sx_env i) (sx_tools i) (sx_starts i) (sx_startOrder i) ?cs ((sv_world s1)\<lparr>wo_core := v\<rparr>) = (Return k, cs', w)"
    and cs': "nn_controllers n' = cs'"
    by (auto simp: node_Start_def obind_Return split: prod.splits if_splits)
  have new: "\<exists>order nodes global. node_New (ce_json (sx_env i)) (sx_replies i) order nodes global = Return n"
    using assms(2) by (auto simp: fetch_nodes_def split: sum.splits outcome.splits)
  have tag0: "ct_tag (?cs ! j) = []" and info: "ct_info (?cs ! j) = Some (the (ct_info (?cs ! j)))" if "j < length ?cs" for j
    using new node_New_controllers nth_mem [OF that] by fastforce+
  have sub: "set (sx_startOrder i) \<subseteq> {..<length ?cs}" and all: "\<forall>j\<in>set (sx_startOrder i). ct_info (?cs ! j) = Some (the (ct_info (?cs ! j)))"
    using assms(4) info by auto
  note T = start_all_tags [OF st assms(3) sub all]
  have len: "length cs' = length ?cs" using T by blast
  have res: "(\<forall>e. GetUserList (si_users (sx_starts i j)) = Inl e \<longrightarrow> ct_tag (cs' ! j) = ct_tag (?cs ! j))
      \<and> (\<forall>p. GetUserList (si_users (sx_starts i j)) = Inr p \<longrightarrow>
            ct_tag (cs' ! j) = ni_Tag (the (ct_info (?cs ! j))) \<and> wo_limiters w (ni_Tag (the (ct_info (?cs ! j)))) \<noteq> None)"
    if "j < length ?cs" for j
    using T that assms(4) by simp
  have old: "t \<in> set (node_Tags n') \<longleftrightarrow> (\<exists>j<length ?cs. ct_tag (cs' ! j) = t)"
    unfolding node_Tags_def cs' in_map_nth len ..
  have tags: "ct_tag (cs' ! j) = t \<longleftrightarrow> (\<exists>p. GetUserList (si_users (sx_starts i j)) = Inr p) \<and> ni_Tag (the (ct_info (?cs ! j))) = t"
    if "j < length ?cs" for j
    using res [OF that] assms(6) tag0 [OF that] by (cases "GetUserList (si_users (sx_starts i j))") auto
  have has: "wo_limiters w t \<noteq> None" if "j < length ?cs" "ct_tag (cs' ! j) = t" for j
  proof -
    from tags [OF that(1)] that(2) obtain p where p: "GetUserList (si_users (sx_starts i j)) = Inr p" "ni_Tag (the (ct_info (?cs ! j))) = t" by blast
    from res [OF that(1)] p(1) have "wo_limiters w (ni_Tag (the (ct_info (?cs ! j)))) \<noteq> None" by blast
    then show ?thesis unfolding p(2) .
  qed
  have "wo_limiters (sv_world s') t \<noteq> None \<longleftrightarrow> t \<in> set (node_Tags n')"
  proof (cases "t \<in> set (node_Tags n')")
    case True
    with old has show ?thesis by (simp add: s' prune_lookup) blast
  next
    case False
    with assms(5) show ?thesis by (simp add: s' prune_lookup)
  qed
  then have "wo_limiters (sv_world s') t \<noteq> None \<longleftrightarrow> (\<exists>j<length ?cs. ct_tag (cs' ! j) = t)" by (simp only: old)
  also have "\<dots> \<longleftrightarrow> (\<exists>j<length ?cs. (\<exists>p. GetUserList (si_users (sx_starts i j)) = Inr p) \<and> ni_Tag (the (ct_info (?cs ! j))) = t)"
    using tags by (intro ex_cong) simp
  finally show ?thesis using teardown_limiters [of i s] by (intro conjI)
qed


text \<open>Two configured Snell nodes; the panel answers the second one's request for users only.\<close>

definition demo_two :: "validator server_input" where
  "demo_two = (demo_reload None (\<lambda>j. if j = 0 then demo_start
       else demo_start\<lparr>si_users := Inr (Some \<lparr>ur_msgpack = True, ur_ETag = [], ur_decoded = Inr [], ur_events = []\<rparr>)\<rparr>))
     \<lparr>sx_conf := Inr (conf_New\<lparr>cf_NodeConfigs := [demo_node_config, demo_node_config\<lparr>nc_NodeID := 2\<rparr>]\<rparr>), sx_order := [0, 1], sx_startOrder := [0, 1]\<rparr>"

definition demo_info_of :: "int \<Rightarrow> NodeInfo" where
  "demo_info_of k = (case GetNodeInfo (ce_json demo_panel_env) (panel_New (demo_node_config\<lparr>nc_NodeID := k\<rparr>)) (Inr (Some [])) of Return n \<Rightarrow> n | _ \<Rightarrow> demo_info)"

lemma demo_info_reply: "GetNodeInfo (ce_json demo_panel_env) (panel_New (demo_node_config\<lparr>nc_NodeID := k\<rparr>)) (Inr (Some [])) = Return (demo_info_of k)"
  by (simp add: demo_info_of_def demo_panel_env_def reply_eval)

lemma demo_info_fields:
  "ni_Tag (demo_info_of k) = node_tag ''https://x'' ''snell'' k" "ni_Type (demo_info_of k) = ''snell''" "ni_Security (demo_info_of k) = 0"
  by (simp_all add: demo_info_of_def demo_panel_env_def reply_eval)

lemma demo_two_fetch:
  "\<exists>c. fetch_nodes demo_two = Return (c, \<lparr>nn_controllers = [NewController (panel_New demo_node_config) demo_node_config (Some (demo_info_of 1)) zero_GlobalConfig,
       NewController (panel_New (demo_node_config\<lparr>nc_NodeID := 2\<rparr>)) (demo_node_config\<lparr>nc_NodeID := 2\<rparr>) (Some (demo_info_of 2)) zero_GlobalConfig],
     nn_NodeInfos = [demo_info_of 1, demo_info_of 2]\<rparr>)"
proof -
  have "demo_node_config = demo_node_config\<lparr>nc_NodeID := 1\<rparr>" by (simp add: demo_node_config_def)
  then have "GetNodeInfo (ce_json demo_panel_env) (panel_New demo_node_config) (Inr (Some [])) = Return (demo_info_of 1)"
    using demo_info_reply [of 1] by simp
  then show ?thesis
    by (simp add: fetch_nodes_def demo_two_def demo_reload_def node_New_def fetch_one_def Let_def demo_info_reply conf_New_def)
qed


lemma demo_first_start:
  "\<exists>e c' w'. ctl_Start demo_panel_env demo_tools demo_start (NewController p cfg (Some n) zero_GlobalConfig) w = (Error e, c', w')"
  by (simp add: ctl_Start_def fetch_start_def fetch_node_def NewController_def demo_start_def GetUserList_def)

lemma demo_second_start:
  assumes "mg_disp (vc_snell (wo_core w))"
  shows "\<exists>c' w'. ctl_Start demo_panel_env demo_tools (demo_start\<lparr>si_users := Inr (Some \<lparr>ur_msgpack = True, ur_ETag = [], ur_decoded = Inr [], ur_events = []\<rparr>)\<rparr>)
      (NewController p (demo_node_config\<lparr>nc_NodeID := 2\<rparr>) (Some (demo_info_of 2)) zero_GlobalConfig) w = (Return (), c', w')"
  using assms
  by (auto simp: ctl_Start_def fetch_start_def fetch_node_def NewController_def demo_start_def GetUserList_def GetUserAlive_def Let_def
      applyCertOverride_def EffectiveCert_def demo_node_config_def zero_GlobalConfig_def demo_info_fields SecTls_def start_cert_def start_node_def
      AddNode_def mgr_Add_def add_users_def split: option.split prod.split)

theorem limiters_after_reload_witness:
  "\<exists>s s'. reload demo_two s = (Return (), s') \<and> wo_limiters (sv_world s) (ni_Tag (demo_info_of 1)) \<noteq> None
     \<and> wo_limiters (sv_world s') (ni_Tag (demo_info_of 1)) = None"
proof -
  let ?t = "ni_Tag (demo_info_of 1)"
  let ?s = "demo_server\<lparr>sv_nodes := \<lparr>nn_controllers = [demo_controller\<lparr>ct_tag := ?t\<rparr>], nn_NodeInfos = []\<rparr>, sv_world := demo_world\<lparr>wo_limiters := [?t \<mapsto> demo_limiter]\<rparr>\<rparr>"
  obtain c n where f: "fetch_nodes demo_two = Return (c, n)" and cs: "nn_controllers n =
      [NewController (panel_New demo_node_config) demo_node_config (Some (demo_info_of 1)) zero_GlobalConfig,
       NewController (panel_New (demo_node_config\<lparr>nc_NodeID := 2\<rparr>)) (demo_node_config\<lparr>nc_NodeID := 2\<rparr>) (Some (demo_info_of 2)) zero_GlobalConfig]"
    using demo_two_fetch by fastforce
  have sx: "sx_env demo_two = demo_panel_env" "sx_tools demo_two = demo_tools" "sx_starts demo_two 0 = demo_start" "sx_startOrder demo_two = [0, 1]"
    "sx_starts demo_two (Suc 0) = demo_start\<lparr>si_users := Inr (Some \<lparr>ur_msgpack = True, ur_ETag = [], ur_decoded = Inr [], ur_events = []\<rparr>)\<rparr>"
    "sx_server demo_two = None"
    by (simp_all add: demo_two_def demo_reload_def)
  have up: "\<exists>v. core_Start None (wo_core (new_core c w)) = (None, v) \<and> mg_disp (vc_snell v)" for w :: "validator World"
    by (simp add: core_Start_def new_core_def mgr_SetDispatcher_def)
  have start: "\<exists>n' w'. node_Start demo_panel_env demo_tools (sx_starts demo_two) [0, 1] n (w\<lparr>wo_core := v\<rparr>) = (Return (), n', w')"
    if "mg_disp (vc_snell v)" for v and w :: "validator World"
  proof -
    obtain e c1 w1 where 1: "ctl_Start demo_panel_env demo_tools demo_start (nn_controllers n ! 0) (w\<lparr>wo_core := v\<rparr>) = (Error e, c1, w1)"
      using demo_first_start cs by fastforce
    then have "wo_core w1 = v" using cs by (auto simp: ctl_Start_def fetch_start_def fetch_node_def NewController_def demo_start_def GetUserList_def)
    then have "mg_disp (vc_snell (wo_core w1))" using that by simp
    from demo_second_start [OF this, of "panel_New (demo_node_config\<lparr>nc_NodeID := 2\<rparr>)"]
    obtain c2 w2 where "ctl_Start demo_panel_env demo_tools (sx_starts demo_two (Suc 0)) (nn_controllers n ! Suc 0) w1 = (Return (), c2, w2)"
      by (auto simp: sx cs)
    with 1 show ?thesis by (simp add: node_Start_def sx cs)
  qed
  have run: "\<exists>s'. reload demo_two ?s = (Return (), s')"
  proof -
    let ?w = "sv_world (teardown demo_two ?s)"
    obtain v where v: "core_Start None (wo_core (new_core c ?w)) = (None, v)" "mg_disp (vc_snell v)" using up by blast
    obtain n' w' where "rebuild demo_two c n ?w = (Return (), n', w')"
      using start [OF v(2), of ?w] by (auto simp: rebuild_def sx v(1))
    then show ?thesis by (simp add: reload_def f Let_def)
  qed
  then obtain s' where r: "reload demo_two ?s = (Return (), s')" ..
  have "distinct (sx_startOrder demo_two)" "set (sx_startOrder demo_two) = {..<length (nn_controllers n)}"
    by (auto simp: sx cs)
  moreover have "?t \<in> set (node_Tags (sv_nodes ?s))" "?t \<noteq> []" by (simp_all add: node_Tags_def demo_info_fields node_tag_def)
  ultimately have "wo_limiters (sv_world s') ?t \<noteq> None \<longleftrightarrow>
        (\<exists>j<length (nn_controllers n). (\<exists>p. GetUserList (si_users (sx_starts demo_two j)) = Inr p) \<and> ni_Tag (the (ct_info (nn_controllers n ! j))) = ?t)"
    using limiters_after_reload [OF r f] by blast
  moreover have "\<not> (\<exists>j<length (nn_controllers n). (\<exists>p. GetUserList (si_users (sx_starts demo_two j)) = Inr p) \<and> ni_Tag (the (ct_info (nn_controllers n ! j))) = ?t)"
  proof (rule notI, elim exE conjE)
    fix j p assume j: "j < length (nn_controllers n)" and u: "GetUserList (si_users (sx_starts demo_two j)) = Inr p"
      and tag: "ni_Tag (the (ct_info (nn_controllers n ! j))) = ?t"
    from j have "j = 0 \<or> j = Suc 0" by (auto simp: cs)
    then show False
    proof
      assume "j = 0" with u show False by (simp add: sx demo_start_def GetUserList_def)
    next
      assume "j = Suc 0" with tag show False by (simp add: cs NewController_def demo_info_fields node_tag_identifies)
    qed
  qed
  ultimately have "wo_limiters (sv_world s') ?t = None" by (simp only: not_not) blast
  with r show ?thesis by (intro exI [of _ ?s] exI [of _ s']) simp
qed

end
