(* ===== verification/Server_Loop.thy ===== *)
theory Server_Loop
  imports Server
begin

text \<open>
  The loop of the process (\<open>serverHandle\<close> in \<open>cmd/server.go\<close>) after the start: requests for a reload go through a channel of one place, a request that finds it full is
  dropped, and reloads run one after the other. The file of the configuration changes at any time; what a reload reads and gets from the panels is an
  argument of its step.
\<close>

text \<open>\<open>sl_version\<close> counts the changes of the file, \<open>sl_notified\<close> is the version at the last request and \<open>sl_read\<close> the one that the last reload has read.\<close>

record 'u serverLoop =
  sl_server :: "'u Server"
  sl_reloadCh :: bool
  sl_version :: nat
  sl_notified :: nat
  sl_read :: nat
  sl_exited :: bool

definition enter_loop :: "'u Server \<Rightarrow> 'u serverLoop" where
  "enter_loop s = \<lparr>sl_server = s, sl_reloadCh = False, sl_version = 0, sl_notified = 0, sl_read = 0, sl_exited = False\<rparr>"

inductive loop_step :: "'u serverLoop \<Rightarrow> 'u server_input option \<Rightarrow> 'u serverLoop \<Rightarrow> bool" where
  changed: "loop_step l None (l\<lparr>sl_version := Suc (sl_version l)\<rparr>)"
| request: "loop_step l None (l\<lparr>sl_reloadCh := True, sl_notified := sl_version l\<rparr>)"
| signal: "\<not> sl_exited l \<Longrightarrow> loop_step l None (l\<lparr>sl_exited := True\<rparr>)"
| handle: "\<not> sl_exited l \<Longrightarrow> sl_reloadCh l \<Longrightarrow>
     loop_step l (Some i) (l\<lparr>sl_reloadCh := False, sl_read := sl_version l, sl_server := snd (reload i (sl_server l))\<rparr>)"

inductive loop_run :: "'u Server \<Rightarrow> 'u server_input list \<Rightarrow> 'u serverLoop \<Rightarrow> bool" for s where
  start: "loop_run s [] (enter_loop s)"
| other: "loop_run s ins l \<Longrightarrow> loop_step l None l' \<Longrightarrow> loop_run s ins l'"
| reloaded: "loop_run s ins l \<Longrightarrow> loop_step l (Some i) l' \<Longrightarrow> loop_run s (ins @ [i]) l'"

inductive_cases loop_stepE: "loop_step l x l'"

definition loop_inv :: "'u serverLoop \<Rightarrow> bool" where
  "loop_inv l \<longleftrightarrow> sl_notified l \<le> sl_version l \<and> sl_read l \<le> sl_version l \<and> (sl_reloadCh l \<or> sl_notified l \<le> sl_read l)"

lemma loop_inv_run: "loop_run s ins l \<Longrightarrow> loop_inv l"
  by (induction rule: loop_run.induct) (auto simp: loop_inv_def enter_loop_def elim!: loop_stepE)

lemma loop_server_run: "loop_run s ins l \<Longrightarrow> sl_server l = fold (\<lambda>i s. snd (reload i s)) ins s"
  by (induction rule: loop_run.induct) (auto simp: enter_loop_def elim!: loop_stepE)

text \<open>
  No request for a reload is lost, although requests are dropped: in every reachable state the last reload has read the file at least as it was when the last request was made, or a
  request waits, which the loop then handles with the file as it is. Reloads never overlap: the state of the server is that of the reloads one after the
  other.
\<close>

theorem no_request_lost:
  assumes "loop_run s ins l"
  shows "(sl_notified l \<le> sl_read l \<or> sl_reloadCh l) \<and> sl_server l = fold (\<lambda>i s. snd (reload i s)) ins s
    \<and> (sl_reloadCh l \<and> \<not> sl_exited l \<longrightarrow> (\<forall>i. \<exists>l'. loop_step l (Some i) l' \<and> sl_read l' = sl_version l' \<and> sl_notified l' \<le> sl_read l'))"
proof -
  have "\<exists>l'. loop_step l (Some i) l' \<and> sl_read l' = sl_version l' \<and> sl_notified l' \<le> sl_read l'" if "sl_reloadCh l" "\<not> sl_exited l" for i
    using loop_step.handle [OF that(2,1), of i] loop_inv_run [OF assms] by (intro exI conjI) (auto simp: loop_inv_def)
  then show ?thesis using loop_inv_run [OF assms] loop_server_run [OF assms] by (auto simp: loop_inv_def)
qed

end
