(* ===== verification/Bytes.thy ===== *)
theory Bytes
  imports Go_Prelude
begin

text \<open>
  Byte slices and byte streams: indexing and slicing that panic out of range, big-endian 16-bit integers, and
  the reads of the package \<open>io\<close> on a stream of which the remaining bytes are known.
\<close>

type_synonym byte = "8 word"

type_synonym bytes = "byte list"

section \<open>Slices\<close>

definition byte_at :: "bytes \<Rightarrow> nat \<Rightarrow> byte outcome" where
  "byte_at b p = (if p < length b then Return (b ! p) else Panic ''index out of range'')"

definition slice_of :: "bytes \<Rightarrow> nat \<Rightarrow> nat \<Rightarrow> bytes outcome" where
  "slice_of b lo hi = (if lo \<le> hi \<and> hi \<le> length b then Return (take (hi - lo) (drop lo b)) else Panic ''slice bounds out of range'')"

text \<open>\<open>binary.BigEndian.Uint16\<close> and \<open>PutUint16\<close>, the latter of a number that is first converted to 16 bits.\<close>

definition be16 :: "byte \<Rightarrow> byte \<Rightarrow> nat" where
  "be16 hi lo = unat hi * 256 + unat lo"

definition put16 :: "nat \<Rightarrow> bytes" where
  "put16 n = [word_of_nat (n div 256), word_of_nat n]"

definition uint16_at :: "bytes \<Rightarrow> nat \<Rightarrow> nat outcome" where
  "uint16_at b p = obind (slice_of b p (p + 2)) (\<lambda>s. Return (be16 (s ! 0) (s ! 1)))"

text \<open>\<open>io.ReadFull\<close>: the bytes that were asked for, or an error, after which the stream is at its end.\<close>

definition ReadFull :: "nat \<Rightarrow> bytes \<Rightarrow> (goerror + bytes) \<times> bytes" where
  "ReadFull n r =
     (if n \<le> length r then (Inr (take n r), drop n r)
      else (Inl (if r = [] then ''EOF'' else ''unexpected EOF''), []))"

section \<open>Laws\<close>

lemma byte_at_append [simp]: "byte_at (xs @ x # ys) (length xs) = Return x"
  by (simp add: byte_at_def)

lemma slice_append [simp]: "slice_of (xs @ ys @ zs) (length xs) (length xs + length ys) = Return ys"
  by (simp add: slice_of_def)

lemma put16_length [simp]: "length (put16 n) = 2"
  by (simp add: put16_def)

lemma unat_byte: "unat (word_of_nat n :: byte) = n mod 256"
  by (simp add: unat_of_nat)

lemma be16_put16: "n < 65536 \<Longrightarrow> be16 (put16 n ! 0) (put16 n ! 1) = n"
  by (simp add: be16_def put16_def unat_byte)

lemma be16_less: "be16 x y < 65536"
proof -
  have "unat x < 256" "unat y < 256" using unsigned_less [of x, where ?'a = nat] unsigned_less [of y, where ?'a = nat] by simp_all
  then show ?thesis by (simp add: be16_def)
qed

lemma be16_words: "n < 65536 \<Longrightarrow> be16 (word_of_nat (n div 256)) (word_of_nat n) = n"
  using be16_put16 [of n] by (simp add: put16_def)

lemma uint16_at_put16: "n < 65536 \<Longrightarrow> uint16_at (xs @ put16 n @ ys) (length xs) = Return n"
  using slice_append [of xs "put16 n" ys] be16_put16 [of n] by (simp add: uint16_at_def)

lemma slice_of_Return: "lo \<le> hi \<Longrightarrow> hi \<le> length b \<Longrightarrow> \<exists>s. slice_of b lo hi = Return s \<and> length s = hi - lo"
  by (simp add: slice_of_def)

lemma uint16_at_Return: "p + 2 \<le> length b \<Longrightarrow> \<exists>n. uint16_at b p = Return n"
  using slice_of_Return [of p "p + 2" b] by (auto simp: uint16_at_def)

lemma ReadFull_append: "length xs = n \<Longrightarrow> ReadFull n (xs @ ys) = (Inr xs, ys)"
  by (simp add: ReadFull_def)

lemma ReadFull_Inr: "ReadFull n r = (Inr xs, r') \<longleftrightarrow> length xs = n \<and> r = xs @ r'"
  by (auto simp: ReadFull_def)


section \<open>Little-endian integers\<close>

definition le16 :: "byte \<Rightarrow> byte \<Rightarrow> nat" where
  "le16 lo hi = unat lo + 256 * unat hi"

definition putle16 :: "nat \<Rightarrow> bytes" where
  "putle16 n = [word_of_nat n, word_of_nat (n div 256)]"

definition putle32 :: "32 word \<Rightarrow> bytes" where
  "putle32 w = map (\<lambda>i. ucast (drop_bit (8 * i) w)) [0, 1, 2, 3]"

definition le32 :: "bytes \<Rightarrow> 32 word" where
  "le32 b = ucast (b ! 0) + push_bit 8 (ucast (b ! 1)) + push_bit 16 (ucast (b ! 2)) + push_bit 24 (ucast (b ! 3))"

lemma putle16_length [simp]: "length (putle16 n) = 2"
  by (simp add: putle16_def)

lemma putle32_length [simp]: "length (putle32 w) = 4"
  by (simp add: putle32_def)

lemma le16_putle16: "n < 65536 \<Longrightarrow> le16 (putle16 n ! 0) (putle16 n ! 1) = n"
  by (simp add: le16_def putle16_def unat_byte)

lemma le16_words: "n < 65536 \<Longrightarrow> le16 (word_of_nat n) (word_of_nat (n div 256)) = n"
  using le16_putle16 [of n] by (simp add: putle16_def)

lemma le16_less: "le16 x y < 65536"
proof -
  have "unat x < 256" "unat y < 256" using unsigned_less [of x, where ?'a = nat] unsigned_less [of y, where ?'a = nat] by simp_all
  then show ?thesis by (simp add: le16_def)
qed

lemma unat_byte_of: "unat (ucast (drop_bit k (w :: 32 word)) :: byte) = unat w div 2 ^ k mod 256"
proof -
  have "unat (ucast (drop_bit k w) :: byte) = unat (drop_bit k w) mod 256" by (simp add: unsigned_ucast_eq take_bit_eq_mod)
  then show ?thesis unfolding unat_drop_bit_eq by (simp add: drop_bit_eq_div)
qed

lemma digits4:
  assumes "n < 4294967296"
  shows "n mod 256 + 256 * (n div 256 mod 256) + 65536 * (n div 65536 mod 256) + 16777216 * (n div 16777216 mod 256) = (n::nat)"
proof -
  have 1: "n div 65536 = n div 256 div 256" "n div 16777216 = n div 256 div 256 div 256" by (simp_all add: div_mult2_eq [symmetric])
  have 2: "n div 256 div 256 div 256 mod 256 = n div 256 div 256 div 256" using assms by simp
  show ?thesis unfolding 1 2 using div_mult_mod_eq [of n 256] div_mult_mod_eq [of "n div 256" 256] div_mult_mod_eq [of "n div 256 div 256" 256] by linarith
qed

lemma le32_nat: "le32 [a, b, c, d] = word_of_nat (unat a + 256 * unat b + 65536 * unat c + 16777216 * unat d)"
  by (simp add: le32_def push_bit_eq_mult unsigned_ucast_eq word_of_nat_eq_iff)

lemma le32_putle32: "le32 (putle32 w) = w"
proof -
  have "unat w < 4294967296" using unsigned_less [of w, where ?'a = nat] by simp
  from digits4 [OF this] show ?thesis
    using unat_byte_of [of 0 w] unat_byte_of [of 8 w] unat_byte_of [of 16 w] unat_byte_of [of 24 w]
    by (simp add: putle32_def le32_nat)
qed

end
