(* ===== verification/Obfs_Framing.thy ===== *)
theory Obfs_Framing
  imports Bytes
begin

text \<open>
  The byte framing of the simple-obfs front (\<open>common/obfs/tls.go\<close>, \<open>http.go\<close>, \<open>wrap.go\<close>): a connection that peels a fake TLS or HTTP
  handshake off the client's stream and puts one before what is written back. The client's connection is the
  list of bytes that remain to be read before its end; random bytes, the time, and whether the socket accepts a
  write are arguments. Deadlines and the raw copying of the relay are not modelled.
\<close>

section \<open>Connections\<close>

datatype obfs_mode = modeUnknown | modeTLS | modeHTTP

record obfsConn =
  oc_r :: bytes
  oc_mode :: obfs_mode
  oc_handshakeDone :: bool
  oc_plain :: bytes
  oc_plainOff :: nat
  oc_firstResponse :: bool

definition newObfsConn :: "bytes \<Rightarrow> obfs_mode \<Rightarrow> obfsConn" where
  "newObfsConn r mode = \<lparr>oc_r = r, oc_mode = mode, oc_handshakeDone = False, oc_plain = [], oc_plainOff = 0, oc_firstResponse = True\<rparr>"

definition NewServerConn :: "bytes \<Rightarrow> string \<Rightarrow> obfsConn" where
  "NewServerConn r mode = newObfsConn r (if ToLower (TrimSpace mode) = ''http'' then modeHTTP else modeTLS)"

definition maxRecord :: nat where "maxRecord = 16384"

definition maxObfsHeader :: nat where "maxObfsHeader = 8192"

section \<open>The TLS handshake\<close>

text \<open>The extensions of a ClientHello from position \<open>p\<close> to \<open>e\<close>: the contents of the first session ticket.\<close>

function ext_loop :: "bytes \<Rightarrow> nat \<Rightarrow> nat \<Rightarrow> bytes outcome" where
  "ext_loop b p e =
     (if p + 4 \<le> e then
        obind (uint16_at b p) (\<lambda>etype.
        obind (uint16_at b (p + 2)) (\<lambda>elen.
          if e < p + 4 + elen then Error ''extension overruns record''
          else if etype = 0x23 then slice_of b (p + 4) (p + 4 + elen)
          else ext_loop b (p + 4 + elen) e))
      else Error ''no session-ticket extension'')"
  by pat_completeness auto
termination by (relation "measure (\<lambda>(b, p, e). e - p)") auto

declare ext_loop.simps [simp del]

definition extractSessionTicket :: "bytes \<Rightarrow> bytes outcome" where
  "extractSessionTicket b =
     (if length b < 39 \<or> b ! 0 \<noteq> 1 then Error ''not a client_hello''
      else
        obind (byte_at b 38) (\<lambda>sidLen.
        let p = 38 + 1 + unat sidLen in
        if length b < p + 2 then Error ''truncated at cipher_suites''
        else
          obind (uint16_at b p) (\<lambda>csLen.
          let p = p + 2 + csLen in
          if length b < p + 1 then Error ''truncated at comp_methods''
          else
            obind (byte_at b p) (\<lambda>compLen.
            let p = p + 1 + unat compLen in
            if length b < p + 2 then Error ''no extensions block''
            else
              obind (uint16_at b p) (\<lambda>extTotal.
              ext_loop b (p + 2) (min (p + 2 + extTotal) (length b)))))))"

definition readClientHello :: "obfsConn \<Rightarrow> unit outcome \<times> obfsConn" where
  "readClientHello c =
     (case ReadFull 5 (oc_r c) of
        (Inl e, r) \<Rightarrow> (Error e, c\<lparr>oc_r := r\<rparr>)
      | (Inr hdr, r) \<Rightarrow>
          if hdr ! 0 \<noteq> 0x16 \<or> hdr ! 1 \<noteq> 3 then (Error ''obfs-tls: not a handshake record'', c\<lparr>oc_r := r\<rparr>)
          else
            (let recLen = be16 (hdr ! 3) (hdr ! 4) in
             if recLen < 42 then (Error ''obfs-tls: ClientHello too short'', c\<lparr>oc_r := r\<rparr>)
             else
               (case ReadFull recLen r of
                  (Inl e, r) \<Rightarrow> (Error e, c\<lparr>oc_r := r\<rparr>)
                | (Inr body, r) \<Rightarrow>
                    (case extractSessionTicket body of
                       Error e \<Rightarrow> (Error e, c\<lparr>oc_r := r\<rparr>)
                     | Panic p \<Rightarrow> (Panic p, c\<lparr>oc_r := r\<rparr>)
                     | Return payload \<Rightarrow> (Return (), c\<lparr>oc_r := r, oc_plain := payload, oc_plainOff := 0\<rparr>)))))"

definition readAppData :: "obfsConn \<Rightarrow> (goerror + bytes) \<times> obfsConn" where
  "readAppData c =
     (case ReadFull 5 (oc_r c) of
        (Inl e, r) \<Rightarrow> (Inl e, c\<lparr>oc_r := r\<rparr>)
      | (Inr hdr, r) \<Rightarrow>
          if hdr ! 0 \<noteq> 0x17 \<or> hdr ! 1 \<noteq> 3 \<or> hdr ! 2 \<noteq> 3 then (Inl ''obfs-tls: bad app-data header'', c\<lparr>oc_r := r\<rparr>)
          else
            (let n = be16 (hdr ! 3) (hdr ! 4) in
             if maxRecord < n then (Inl ''obfs-tls: app-data record too large'', c\<lparr>oc_r := r\<rparr>)
             else if n = 0 then (Inr [], c\<lparr>oc_r := r\<rparr>)
             else (case ReadFull n r of (res, r) \<Rightarrow> (res, c\<lparr>oc_r := r\<rparr>))))"

section \<open>The HTTP handshake\<close>

text \<open>\<open>ReadString\<close> up to a line feed.\<close>

definition read_line :: "bytes \<Rightarrow> (goerror + bytes) \<times> bytes" where
  "read_line r = (case dropWhile (\<lambda>x. x \<noteq> 10) r of [] \<Rightarrow> (Inl ''EOF'', []) | x # rest \<Rightarrow> (Inr (takeWhile (\<lambda>x. x \<noteq> 10) r @ [x]), rest))"

lemma read_line_less: "read_line r = (Inr line, rest) \<Longrightarrow> length rest < length r"
  using length_dropWhile_le [of "\<lambda>x. x \<noteq> 10" r] by (auto simp: read_line_def split: list.splits)

function http_loop :: "nat \<Rightarrow> bytes \<Rightarrow> goerror option \<times> bytes" where
  "http_loop read r =
     (case read_line r of
        (Inl e, rest) \<Rightarrow> (Some e, rest)
      | (Inr line, rest) \<Rightarrow>
          if maxObfsHeader < read + length line then (Some ''obfs-http: request header too large'', rest)
          else if line = [13, 10] \<or> line = [10] then (None, rest)
          else http_loop (read + length line) rest)"
  by pat_completeness auto
termination by (relation "measure (\<lambda>(n, r). length r)") (auto dest: read_line_less [OF sym])

declare http_loop.simps [simp del]

definition readHTTPRequest :: "obfsConn \<Rightarrow> unit outcome \<times> obfsConn" where
  "readHTTPRequest c = (case http_loop 0 (oc_r c) of (e, r) \<Rightarrow> (case e of None \<Rightarrow> Return () | Some x \<Rightarrow> Error x, c\<lparr>oc_r := r\<rparr>))"

section \<open>Reading\<close>

definition readHandshake :: "obfsConn \<Rightarrow> unit outcome \<times> obfsConn" where
  "readHandshake c =
     (case oc_r c of
        [] \<Rightarrow> (Error ''EOF'', c)
      | first # rest \<Rightarrow>
          if first = 0x16 then readClientHello (c\<lparr>oc_mode := modeTLS\<rparr>) else readHTTPRequest (c\<lparr>oc_mode := modeHTTP\<rparr>))"

lemma readAppData_less: "readAppData c = (Inr d, c') \<Longrightarrow> length (oc_r c') < length (oc_r c) \<and> oc_handshakeDone c' = oc_handshakeDone c"
  by (auto simp: readAppData_def ReadFull_def Let_def split: if_splits)

text \<open>
  The loop of \<open>Read\<close>: \<open>Return True\<close> when the rest of the stream is to be read raw, \<open>Return False\<close> when there are
  plain bytes in the buffer.
\<close>

function obfs_fill :: "obfsConn \<Rightarrow> bool outcome \<times> obfsConn" where
  "obfs_fill c =
     (if length (oc_plain c) \<le> oc_plainOff c then
        (if \<not> oc_handshakeDone c then
           (case readHandshake c of
              (Error e, c1) \<Rightarrow> (Error e, c1)
            | (Panic p, c1) \<Rightarrow> (Panic p, c1)
            | (Return u, c1) \<Rightarrow>
                if oc_mode c1 = modeHTTP then (Return True, c1\<lparr>oc_handshakeDone := True\<rparr>) else obfs_fill (c1\<lparr>oc_handshakeDone := True\<rparr>))
         else if oc_mode c = modeHTTP then (Return True, c)
         else (case readAppData c of
                 (Inl e, c1) \<Rightarrow> (Error e, c1)
               | (Inr data, c1) \<Rightarrow> obfs_fill (c1\<lparr>oc_plain := data, oc_plainOff := 0\<rparr>)))
      else (Return False, c))"
  by pat_completeness auto
termination
  by (relation "measures [\<lambda>c. if oc_handshakeDone c then 0 else 1, \<lambda>c. length (oc_r c)]") (auto dest: readAppData_less [OF sym])

declare obfs_fill.simps [simp del]

text \<open>
  \<open>Read\<close> into a buffer of \<open>k\<close> bytes; a raw read gives at most \<open>Suc avail\<close> bytes, what has arrived so far.
\<close>

definition raw_read :: "nat \<Rightarrow> nat \<Rightarrow> obfsConn \<Rightarrow> bytes outcome \<times> obfsConn" where
  "raw_read avail k c =
     (if oc_r c = [] \<and> 0 < k then (Error ''EOF'', c)
      else (Return (take (min k (Suc avail)) (oc_r c)), c\<lparr>oc_r := drop (min k (Suc avail)) (oc_r c)\<rparr>))"

definition obfs_Read :: "nat \<Rightarrow> nat \<Rightarrow> obfsConn \<Rightarrow> bytes outcome \<times> obfsConn" where
  "obfs_Read avail k c =
     (case obfs_fill c of
        (Error e, c1) \<Rightarrow> (Error e, c1)
      | (Panic p, c1) \<Rightarrow> (Panic p, c1)
      | (Return raw, c1) \<Rightarrow>
          if raw then raw_read avail k c1
          else (let d = take k (drop (oc_plainOff c1) (oc_plain c1)) in (Return d, c1\<lparr>oc_plainOff := oc_plainOff c1 + length d\<rparr>)))"

section \<open>Writing\<close>

definition serverHelloTemplate :: bytes where
  "serverHelloTemplate =
     [0x16, 0x03, 0x01, 0x00, 0x5b, 0x02, 0x00, 0x00, 0x57, 0x03, 0x03] @ replicate 4 0 @ replicate 14 0 @ replicate 14 0 @ [0x20]
     @ replicate 16 0 @ replicate 16 0 @ [0xcc, 0xa8, 0x00, 0x00, 0x00, 0xff, 0x01, 0x00, 0x01, 0x00, 0x00, 0x17, 0x00, 0x00,
       0x00, 0x0b, 0x00, 0x02, 0x01, 0x00]"

definition changeCipherSpec :: bytes where
  "changeCipherSpec = [0x14, 0x03, 0x03, 0x00, 0x01, 0x01]"

text \<open>Overwriting the bytes of a slice from a position on.\<close>

definition overwrite :: "nat \<Rightarrow> bytes \<Rightarrow> bytes \<Rightarrow> bytes" where
  "overwrite p xs b = take p b @ xs @ drop (p + length xs) b"

record hello_input =
  hi_time :: "32 word"
  hi_random :: bytes
  hi_session :: bytes

definition put32 :: "32 word \<Rightarrow> bytes" where
  "put32 w = map (\<lambda>i. ucast (drop_bit (24 - 8 * i) w)) [0, 1, 2, 3]"

definition buildServerHello :: "hello_input \<Rightarrow> bytes \<Rightarrow> bytes" where
  "buildServerHello i data =
     overwrite 44 (hi_session i) (overwrite 15 (hi_random i) (overwrite 11 (put32 (hi_time i)) serverHelloTemplate))
     @ changeCipherSpec @ [0x16, 0x03, 0x03] @ put16 (length data) @ data"

definition wrapAppData :: "bytes \<Rightarrow> bytes" where
  "wrapAppData data = [0x17, 0x03, 0x03] @ put16 (length data) @ data"

text \<open>The HTTP response; the date and the key are text without line breaks.\<close>

definition buildHTTPResponse :: "bytes \<Rightarrow> bytes \<Rightarrow> bytes \<Rightarrow> bytes" where
  "buildHTTPResponse date accept data =
     (let text = map (\<lambda>ch. word_of_nat (of_char ch)) :: string \<Rightarrow> bytes; crlf = [13, 10]
      in text ''HTTP/1.1 101 Switching Protocols'' @ crlf @ text ''Server: nginx'' @ crlf @ text ''Date: '' @ date @ crlf
         @ text ''Upgrade: websocket'' @ crlf @ text ''Connection: Upgrade'' @ crlf @ text ''Sec-WebSocket-Accept: '' @ accept @ crlf
         @ crlf @ data)"

text \<open>
  \<open>Write\<close>: the number of bytes it reports with the error, and what was put on the socket. \<open>sock\<close> is the answer of the socket
  to a buffer.
\<close>

record write_input =
  wi_hello :: hello_input
  wi_date :: bytes
  wi_accept :: bytes
  wi_sock :: "bytes \<Rightarrow> goerror option"

function write_loop :: "write_input \<Rightarrow> obfsConn \<Rightarrow> nat \<Rightarrow> bytes \<Rightarrow> bytes \<Rightarrow> (nat \<times> goerror option) \<times> bytes \<times> obfsConn" where
  "write_loop i c tot p sent =
     (if p = [] then ((tot, None), sent, c)
      else
        (let chunk = take maxRecord p;
             buf = (if oc_firstResponse c then buildServerHello (wi_hello i) chunk else wrapAppData chunk);
             c1 = c\<lparr>oc_firstResponse := False\<rparr>
         in case wi_sock i buf of
              Some e \<Rightarrow> ((tot - length p, Some e), sent, c1)
            | None \<Rightarrow> write_loop i c1 tot (drop (length chunk) p) (sent @ buf)))"
  by pat_completeness auto
termination by (relation "measure (\<lambda>(i, c, t, p, s). length p)") (auto simp: maxRecord_def)

declare write_loop.simps [simp del]

definition obfs_Write :: "write_input \<Rightarrow> bytes \<Rightarrow> obfsConn \<Rightarrow> (nat \<times> goerror option) \<times> bytes \<times> obfsConn" where
  "obfs_Write i p c =
     (if oc_mode c = modeHTTP then
        (let buf = (if oc_firstResponse c then buildHTTPResponse (wi_date i) (wi_accept i) p else p);
             c1 = c\<lparr>oc_firstResponse := False\<rparr>
         in case wi_sock i buf of
              Some e \<Rightarrow> ((0, Some e), [], c1)
            | None \<Rightarrow> ((length p, None), buf, c1))
      else write_loop i c (length p) p [])"

end
