(* ===== verification/Stream_Contract.thy ===== *)
theory Stream_Contract
  imports Bytes
begin

text \<open>
  The interface between a framed connection and the code that reads from it: a connection stands for a plain stream of bytes,
  and a read gives a non-empty next piece of it or reports its end. On it rests \<open>io.ReadFull\<close>, which the protocol
  handshakes use.
\<close>

text \<open>
  \<open>io.ReadFull\<close> on a reader: reads are repeated until enough bytes are there. A reader may give no bytes at all, so the
  number of reads is bounded; \<open>None\<close> stands for a loop that goes on. On a reader with the contract below every read
  gives a byte, and \<open>n\<close> reads are enough.
\<close>

fun full_loop :: "(nat \<Rightarrow> 'c \<Rightarrow> bytes outcome \<times> 'c) \<Rightarrow> nat \<Rightarrow> nat \<Rightarrow> bytes \<Rightarrow> 'c \<Rightarrow> (bytes outcome \<times> 'c) option" where
  "full_loop read 0 n acc c = (if n \<le> length acc then Some (Return acc, c) else None)"
| "full_loop read (Suc fuel) n acc c =
     (if n \<le> length acc then Some (Return acc, c)
      else (case read (n - length acc) c of
              (Return d, c1) \<Rightarrow> full_loop read fuel n (acc @ d) c1
            | (Error e, c1) \<Rightarrow> Some (Error (if acc \<noteq> [] \<and> e = ''EOF'' then ''unexpected EOF'' else e), c1)
            | (Panic p, c1) \<Rightarrow> Some (Panic p, c1)))"

definition io_ReadFull :: "(nat \<Rightarrow> 'c \<Rightarrow> bytes outcome \<times> 'c) \<Rightarrow> nat \<Rightarrow> 'c \<Rightarrow> (bytes outcome \<times> 'c) option" where
  "io_ReadFull read n c = full_loop read n n [] c"

text \<open>Going on with what a full read gave; \<open>None\<close> when the reader never gives enough.\<close>

definition then_full :: "(nat \<Rightarrow> 'c \<Rightarrow> bytes outcome \<times> 'c) \<Rightarrow> nat \<Rightarrow> 'c \<Rightarrow> (bytes \<Rightarrow> 'c \<Rightarrow> ('b outcome \<times> 'c) option) \<Rightarrow> ('b outcome \<times> 'c) option" where
  "then_full read n c f =
     (case io_ReadFull read n c of
        None \<Rightarrow> None
      | Some (Return d, c1) \<Rightarrow> f d c1
      | Some (Error e, c1) \<Rightarrow> Some (Error e, c1)
      | Some (Panic p, c1) \<Rightarrow> Some (Panic p, c1))"

locale plain_stream =
  fixes read :: "nat \<Rightarrow> 'c \<Rightarrow> bytes outcome \<times> 'c" and rep :: "'c \<Rightarrow> bytes \<Rightarrow> bool"
  assumes read_data: "rep c s \<Longrightarrow> 0 < k \<Longrightarrow> s \<noteq> [] \<Longrightarrow>
      \<exists>d s' c'. read k c = (Return d, c') \<and> d \<noteq> [] \<and> length d \<le> k \<and> s = d @ s' \<and> rep c' s'"
    and read_end: "rep c [] \<Longrightarrow> 0 < k \<Longrightarrow> \<exists>c'. read k c = (Error ''EOF'', c')"
begin

lemma full_loop_data:
  assumes "rep c s" and "length acc \<le> n" and "n \<le> length acc + length s" and "n \<le> length acc + fuel"
  shows "\<exists>c'. full_loop read fuel n acc c = Some (Return (acc @ take (n - length acc) s), c') \<and> rep c' (drop (n - length acc) s)"
  using assms
proof (induction fuel arbitrary: c s acc)
  case (Suc fuel)
  show ?case
  proof (cases "n \<le> length acc")
    case False
    then have "0 < n - length acc" "s \<noteq> []" using Suc.prems(3) by auto
    from read_data [OF Suc.prems(1) this] obtain d s' c' where
      r: "read (n - length acc) c = (Return d, c')" "d \<noteq> []" "length d \<le> n - length acc" "s = d @ s'" "rep c' s'" by blast
    from r(2) have "Suc 0 \<le> length d" by (cases d) auto
    then have l: "length (acc @ d) \<le> n" "n \<le> length (acc @ d) + length s'" "n \<le> length (acc @ d) + fuel"
      using r(3,4) Suc.prems(2-4) by auto
    from Suc.IH [OF r(5) l] False r(1) obtain c'' where
      "full_loop read (Suc fuel) n acc c = Some (Return ((acc @ d) @ take (n - length (acc @ d)) s'), c'')" "rep c'' (drop (n - length (acc @ d)) s')"
      by auto
    then show ?thesis using r(3) by (intro exI [of _ c'']) (simp add: r(4))
  qed (use Suc.prems in simp)
qed simp

lemma full_loop_short:
  assumes "rep c s" and "length acc + length s < n" and "length s < fuel"
  shows "\<exists>c'. full_loop read fuel n acc c = Some (Error (if acc @ s = [] then ''EOF'' else ''unexpected EOF''), c')"
  using assms
proof (induction fuel arbitrary: c s acc)
  case (Suc fuel)
  then have k: "0 < n - length acc" "\<not> n \<le> length acc" by auto
  show ?case
  proof (cases "s = []")
    case True
    with read_end [of c "n - length acc"] Suc.prems(1) k show ?thesis by auto
  next
    case False
    from read_data [OF Suc.prems(1) k(1) this] obtain d s' c' where
      r: "read (n - length acc) c = (Return d, c')" "d \<noteq> []" "s = d @ s'" "rep c' s'" by blast
    then have "Suc 0 \<le> length d" by (cases d) auto
    then have "length (acc @ d) + length s' < n" "length s' < fuel" using r(3) Suc.prems(2,3) by auto
    from Suc.IH [OF r(4) this] r k show ?thesis by auto
  qed
qed simp

text \<open>\<open>ReadFull\<close> gives exactly the next bytes, or the error for a stream that ends before.\<close>

lemma ReadFull_data:
  "rep c s \<Longrightarrow> n \<le> length s \<Longrightarrow> \<exists>c'. io_ReadFull read n c = Some (Return (take n s), c') \<and> rep c' (drop n s)"
  using full_loop_data [of c s "[]" n n] by (simp add: io_ReadFull_def)

lemma ReadFull_prefix:
  assumes "rep c (xs @ s)" and "length xs = n"
  shows "\<exists>c'. io_ReadFull read n c = Some (Return xs, c') \<and> rep c' s"
  using ReadFull_data [OF assms(1), of n] assms(2) by simp

lemma ReadFull_short:
  assumes "rep c s" and "length s < n"
  shows "\<exists>c'. io_ReadFull read n c = Some (Error (if s = [] then ''EOF'' else ''unexpected EOF''), c')"
  using full_loop_short [of c s "[]" n n] assms by (simp add: io_ReadFull_def)

end

text \<open>
  A network connection of which the bytes to come are known: a read gives what has arrived, at most \<open>Suc avail\<close> bytes, and the end
  after them.
\<close>

definition net_Read :: "nat \<Rightarrow> nat \<Rightarrow> bytes \<Rightarrow> bytes outcome \<times> bytes" where
  "net_Read avail k s = (if s = [] then (Error ''EOF'', []) else (Return (take (min k (Suc avail)) s), drop (min k (Suc avail)) s))"

interpretation net: plain_stream "net_Read avail" "\<lambda>c s. c = s" for avail
proof
  fix c s :: bytes and k :: nat
  assume "c = s" "0 < k" "s \<noteq> []"
  then show "\<exists>d s' c'. net_Read avail k c = (Return d, c') \<and> d \<noteq> [] \<and> length d \<le> k \<and> s = d @ s' \<and> c' = s'"
    by (auto simp: net_Read_def)
qed (simp add: net_Read_def)

section \<open>Connections that decode into a buffer\<close>

text \<open>
  The reader of a connection that decodes what arrives: it pumps the bytes below through the decoder until something was decoded, and hands that out; an
  error is reported only when nothing was. When every pump keeps what the connection stands for, the connection is a plain stream.
\<close>

locale pumped_conn =
  fixes pump :: "'c \<Rightarrow> unit outcome \<times> 'c" and stream :: "'c \<Rightarrow> bytes" and rbuf :: "'c \<Rightarrow> bytes" and drop_rbuf :: "nat \<Rightarrow> 'c \<Rightarrow> 'c"
    and fill :: "'c \<Rightarrow> unit outcome \<times> 'c" and read :: "nat \<Rightarrow> 'c \<Rightarrow> bytes outcome \<times> 'c" and rep :: "'c \<Rightarrow> bytes \<Rightarrow> bool"
  assumes fill_eq: "fill c =
      (if rbuf c \<noteq> [] then (Return (), c)
       else
         (case pump c of
            (Return u, c1) \<Rightarrow> fill c1
          | (Error e, c1) \<Rightarrow> (if rbuf c1 = [] then (Error e, c1) else (Return (), c1))
          | (Panic p, c1) \<Rightarrow> (Panic p, c1)))"
    and read_eq: "read k c =
      (case fill c of
         (Return u, c1) \<Rightarrow> (Return (take k (rbuf c1)), drop_rbuf k c1)
       | (Error e, c1) \<Rightarrow> (Error e, c1)
       | (Panic p, c1) \<Rightarrow> (Panic p, c1))"
    and pump_shorter: "pump c = (Return u, c1) \<Longrightarrow> length (stream c1) < length (stream c)"
    and pump_keeps: "rep c s \<Longrightarrow> rbuf c = [] \<Longrightarrow>
      \<exists>c1. pump c = (if stream c = [] then Error ''EOF'' else Return (), c1) \<and> rep c1 s \<and> (stream c = [] \<longrightarrow> rbuf c1 = s)"
    and rep_take: "rep c s \<Longrightarrow> rbuf c \<noteq> [] \<Longrightarrow> \<exists>s'. s = take k (rbuf c) @ s' \<and> rep (drop_rbuf k c) s'"
begin

lemma fill_rep:
  assumes "rep c s"
  shows "\<exists>c1. rep c1 s \<and> (if s = [] then fill c = (Error ''EOF'', c1) else fill c = (Return (), c1) \<and> rbuf c1 \<noteq> [])"
  using assms
proof (induction "length (stream c)" arbitrary: c rule: less_induct)
  case less
  show ?case
  proof (cases "rbuf c = []")
    case False
    from rep_take [OF less.prems False, of 1] obtain s' where "s = take 1 (rbuf c) @ s'" by blast
    with False have "s \<noteq> []" by (cases "rbuf c") auto
    then show ?thesis using False less.prems by (auto simp: fill_eq [of c])
  next
    case True
    from pump_keeps [OF less.prems True] obtain c1 where c1: "pump c = (if stream c = [] then Error ''EOF'' else Return (), c1)"
      "rep c1 s" "stream c = [] \<longrightarrow> rbuf c1 = s" by blast
    show ?thesis
    proof (cases "stream c = []")
      case True
      then show ?thesis using \<open>rbuf c = []\<close> c1 by (intro exI [of _ c1]) (simp add: fill_eq [of c])
    next
      case False
      then have p: "pump c = (Return (), c1)" using c1(1) by simp
      from less.hyps [OF pump_shorter [OF p] c1(2)] show ?thesis using True by (cases "s = []") (simp_all add: fill_eq [of c] p)
    qed
  qed
qed

lemma pumped_read:
  assumes "rep c s" and "0 < k" and "s \<noteq> []"
  shows "\<exists>d s' c'. read k c = (Return d, c') \<and> d \<noteq> [] \<and> length d \<le> k \<and> s = d @ s' \<and> rep c' s'"
proof -
  from fill_rep [OF assms(1)] assms(3) obtain c1 where c1: "fill c = (Return (), c1)" "rep c1 s" "rbuf c1 \<noteq> []" by auto
  from rep_take [OF c1(2,3), of k] obtain s' where "s = take k (rbuf c1) @ s'" "rep (drop_rbuf k c1) s'" by blast
  then show ?thesis using assms(2) c1 by (intro exI [of _ "take k (rbuf c1)"] exI [of _ s'] exI [of _ "drop_rbuf k c1"]) (simp add: read_eq)
qed

lemma pumped_end:
  assumes "rep c []"
  shows "\<exists>c'. read k c = (Error ''EOF'', c')"
proof -
  from fill_rep [OF assms] obtain c1 where "fill c = (Error ''EOF'', c1)" by auto
  then show ?thesis by (simp add: read_eq)
qed

end

sublocale pumped_conn \<subseteq> plain_stream read rep
  by unfold_locales (use pumped_read pumped_end in blast)+

end
