(* ===== verification/Obfs_Props.thy ===== *)
theory Obfs_Props
  imports Obfs_Framing Stream_Contract
begin

text \<open>
  What the simple-obfs framing guarantees: the ClientHello parser finds the payload of every well-formed hello and never
  panics, a connection is read as the plain stream the client framed, and what is written is what a client of the protocol decodes.
\<close>

section \<open>The ClientHello parser\<close>

lemma ext_loop_safe: "e \<le> length b \<Longrightarrow> ext_loop b p e \<noteq> Panic m"
proof (induction b p e rule: ext_loop.induct)
  case (1 b p e)
  show ?case
  proof (cases "p + 4 \<le> e")
    case True
    with 1(2) obtain t n where "uint16_at b p = Return t" "uint16_at b (p + 2) = Return n"
      using uint16_at_Return [of p b] uint16_at_Return [of "p + 2" b] by auto
    moreover have "slice_of b (p + 4) (p + 4 + n) \<noteq> Panic m" if "p + 4 + n \<le> e" using that 1(2) by (simp add: slice_of_def)
    ultimately show ?thesis using 1 True by (subst ext_loop.simps) (auto simp: not_less)
  qed (simp add: ext_loop.simps)
qed

text \<open>
  Claim C35. The parser of the client's first packet never panics: for every sequence of bytes a client can send as a
  handshake record, it returns the ticket or an error, and every index and slice it takes lies inside the record.
\<close>

theorem session_ticket_never_panics: "extractSessionTicket b \<noteq> Panic m"
proof (cases "length b < 39 \<or> b ! 0 \<noteq> 1")
  case True
  then show ?thesis unfolding extractSessionTicket_def by (simp only: if_True outcome.distinct not_False_eq_True)
next
  case False
  obtain sid where sid: "byte_at b 38 = Return sid" using False by (simp add: byte_at_def)
  let ?p = "38 + 1 + unat sid"
  show ?thesis
  proof (cases "length b < ?p + 2")
    case True
    with False sid show ?thesis by (simp add: extractSessionTicket_def)
  next
    case c1: False
    then obtain cs where cs: "uint16_at b ?p = Return cs" using uint16_at_Return [of ?p b] by auto
    let ?q = "?p + 2 + cs"
    show ?thesis
    proof (cases "length b < ?q + 1")
      case True
      with False sid c1 cs show ?thesis by (simp add: extractSessionTicket_def Let_def)
    next
      case c2: False
      then obtain co where co: "byte_at b ?q = Return co" by (simp add: byte_at_def)
      let ?r = "?q + 1 + unat co"
      show ?thesis
      proof (cases "length b < ?r + 2")
        case True
        with False sid c1 cs c2 co show ?thesis by (simp add: extractSessionTicket_def Let_def)
      next
        case c3: False
        then obtain tot where tot: "uint16_at b ?r = Return tot" using uint16_at_Return [of ?r b] by auto
        have "ext_loop b (?r + 2) (min (?r + 2 + tot) (length b)) \<noteq> Panic m" by (rule ext_loop_safe) simp
        with False sid c1 cs c2 co c3 tot show ?thesis by (simp add: extractSessionTicket_def Let_def)
      qed
    qed
  qed
qed

text \<open>A ClientHello as clients build it: any session id, cipher suites and compression methods, and any extensions around the ticket.\<close>

definition ext :: "nat \<times> bytes \<Rightarrow> bytes" where
  "ext x = put16 (fst x) @ put16 (length (snd x)) @ snd x"

definition extensions :: "(nat \<times> bytes) list \<Rightarrow> bytes \<Rightarrow> bytes \<Rightarrow> bytes" where
  "extensions exts payload post = concat (map ext exts) @ ext (0x23, payload) @ post"

definition client_hello :: "bytes \<Rightarrow> bytes \<Rightarrow> bytes \<Rightarrow> bytes \<Rightarrow> bytes \<Rightarrow> bytes" where
  "client_hello pre sid cs cms es =
     1 # pre @ word_of_nat (length sid) # sid @ put16 (length cs) @ cs @ word_of_nat (length cms) # cms @ put16 (length es) @ es"

lemma ext_loop_find:
  assumes "\<forall>x\<in>set exts. fst x < 65536 \<and> fst x \<noteq> 0x23 \<and> length (snd x) < 65536" and "length payload < 65536"
    and "e = length xs + length (extensions exts payload post)"
  shows "ext_loop (xs @ extensions exts payload post) (length xs) e = Return payload"
  using assms
proof (induction exts arbitrary: xs)
  case Nil
  let ?b = "xs @ put16 0x23 @ put16 (length payload) @ payload @ post"
  have b: "?b = xs @ extensions [] payload post" by (simp add: extensions_def ext_def)
  have t: "uint16_at ?b (length xs) = Return 0x23" by (rule uint16_at_put16) simp
  have n: "uint16_at ?b (length xs + 2) = Return (length payload)"
    using uint16_at_put16 [OF Nil(2), of "xs @ put16 0x23" "payload @ post"] by simp
  have s: "slice_of ?b (length xs + 4) (length xs + 4 + length payload) = Return payload"
    using slice_append [of "xs @ put16 0x23 @ put16 (length payload)" payload post] by (simp add: add.assoc)
  have e: "length xs + 4 + length payload \<le> e" using Nil(3) by (simp add: extensions_def ext_def)
  then show ?case unfolding b [symmetric] by (subst ext_loop.simps) (simp add: t n s del: add_2_eq_Suc')
next
  case (Cons x exts)
  let ?rest = "extensions exts payload post"
  let ?b = "xs @ put16 (fst x) @ put16 (length (snd x)) @ snd x @ ?rest"
  have b: "?b = xs @ extensions (x # exts) payload post" by (simp add: extensions_def ext_def)
  have t: "uint16_at ?b (length xs) = Return (fst x)" by (rule uint16_at_put16) (use Cons.prems(1) in simp)
  have n: "uint16_at ?b (length xs + 2) = Return (length (snd x))"
    using uint16_at_put16 [of "length (snd x)" "xs @ put16 (fst x)" "snd x @ ?rest"] Cons.prems(1) by simp
  have e: "length xs + 4 + length (snd x) + length ?rest = e" using Cons.prems(3) by (simp add: extensions_def ext_def)
  have len: "4 + length payload \<le> length ?rest" by (simp add: extensions_def ext_def)
  let ?xs = "xs @ put16 (fst x) @ put16 (length (snd x)) @ snd x"
  have p: "length ?xs = length xs + 4 + length (snd x)" by simp
  have "ext_loop (?xs @ ?rest) (length ?xs) e = Return payload"
    using Cons.prems(1,2) e p by (intro Cons.IH) simp_all
  then have IH: "ext_loop ?b (length xs + 4 + length (snd x)) e = Return payload" unfolding p by (simp only: append_assoc)
  show ?case unfolding b [symmetric] using e len Cons.prems(1) by (subst ext_loop.simps) (simp add: t n IH del: add_2_eq_Suc')
qed

lemma unat_len: "n < 256 \<Longrightarrow> unat (word_of_nat n :: byte) = n"
  by (simp add: unat_byte)

lemma uint16_at_at: "n < 65536 \<Longrightarrow> length xs = p \<Longrightarrow> uint16_at (xs @ put16 n @ ys) p = Return n"
  using uint16_at_put16 by blast

lemma byte_at_at: "length xs = p \<Longrightarrow> byte_at (xs @ x # ys) p = Return x"
  using byte_at_append by blast

text \<open>The parser on a well-formed hello.\<close>

lemma session_ticket_found:
  assumes "length pre = 37" and "length sid < 256" and "length cs < 65536" and "length cms < 256"
    and "\<forall>x\<in>set exts. fst x < 65536 \<and> fst x \<noteq> 0x23" and "length (extensions exts payload post) < 65536"
  shows "extractSessionTicket (client_hello pre sid cs cms (extensions exts payload post)) = Return payload"
proof -
  define es where "es = extensions exts payload post"
  define x1 where "x1 = (1 :: byte) # pre"
  define x2 where "x2 = x1 @ word_of_nat (length sid) # sid"
  define x3 where "x3 = x2 @ put16 (length cs) @ cs"
  define x4 where "x4 = x3 @ word_of_nat (length cms) # cms"
  define b where "b = client_hello pre sid cs cms es"
  have l: "length x1 = 38" "length x2 = 38 + 1 + length sid" "length x3 = length x2 + 2 + length cs" "length x4 = length x3 + 1 + length cms"
    by (simp_all add: x1_def x2_def x3_def x4_def assms(1))
  have b1: "b = x1 @ word_of_nat (length sid) # sid @ put16 (length cs) @ cs @ word_of_nat (length cms) # cms @ put16 (length es) @ es"
    by (simp add: b_def client_hello_def x1_def)
  then have b2: "b = x2 @ put16 (length cs) @ cs @ word_of_nat (length cms) # cms @ put16 (length es) @ es" by (simp add: x2_def)
  then have b3: "b = x3 @ word_of_nat (length cms) # cms @ put16 (length es) @ es" by (simp add: x3_def)
  then have b4: "b = x4 @ put16 (length es) @ es" by (simp add: x4_def)
  have lb: "length b = length x4 + 2 + length es" by (simp add: b4)
  have es: "length es < 65536" using assms(6) by (simp add: es_def)
  have 1: "byte_at b 38 = Return (word_of_nat (length sid))" unfolding b1 by (rule byte_at_at [OF l(1)])
  have 2: "uint16_at b (length x2) = Return (length cs)" unfolding b2 by (rule uint16_at_at [OF assms(3) refl])
  have 3: "byte_at b (length x3) = Return (word_of_nat (length cms))" unfolding b3 by (rule byte_at_at [OF refl])
  have 4: "uint16_at b (length x4) = Return (length es)" unfolding b4 by (rule uint16_at_at [OF es refl])
  have small: "length payload < 65536" "\<forall>x\<in>set exts. length (snd x) < 65536"
  proof -
    have "length (ext x) \<le> length (concat (map ext exts))" if "x \<in> set exts" for x
      using that by (induction exts) auto
    then show "\<forall>x\<in>set exts. length (snd x) < 65536" using assms(6) by (force simp: extensions_def ext_def)
  qed (use assms(6) in \<open>simp add: extensions_def ext_def\<close>)
  have 5: "ext_loop b (length x4 + 2) (length x4 + 2 + length es) = Return payload"
    using ext_loop_find [of exts payload "length x4 + 2 + length es" "x4 @ put16 (length es)" post] assms(5) small
    by (simp add: b4 es_def)
  have 0: "b ! 0 = 1" by (simp add: b1 x1_def)
  have "extractSessionTicket b = Return payload"
    using l lb 0 1 2 3 4 5 by (simp add: extractSessionTicket_def Let_def unat_len assms(2,4))
  then show ?thesis by (simp add: b_def es_def)
qed


section \<open>A connection as a plain stream\<close>

lemma readAppData_wrap:
  assumes "oc_r c = wrapAppData d @ rest" and "length d \<le> maxRecord"
  shows "readAppData c = (Inr d, c\<lparr>oc_r := rest\<rparr>)"
proof -
  have r: "oc_r c = ([0x17, 3, 3] @ put16 (length d)) @ d @ rest" by (simp add: assms(1) wrapAppData_def)
  have h: "ReadFull 5 (oc_r c) = (Inr ([0x17, 3, 3] @ put16 (length d)), d @ rest)" unfolding r by (rule ReadFull_append) simp
  have n: "be16 (([0x17, 3, 3] @ put16 (length d)) ! 3) (([0x17, 3, 3] @ put16 (length d)) ! 4) = length d"
    using be16_words [of "length d"] assms(2) by (simp add: put16_def maxRecord_def)
  show ?thesis
    using assms(2) by (simp add: readAppData_def h n [simplified] ReadFull_append Let_def not_less)
qed

definition frames :: "bytes list \<Rightarrow> bytes" where
  "frames ds = concat (map wrapAppData ds)"

lemma frames_simps [simp]: "frames [] = []" "frames (d # ds) = wrapAppData d @ frames ds"
  by (simp_all add: frames_def)

text \<open>A connection whose TLS handshake is over, with these records still to come.\<close>

definition tls_state :: "obfsConn \<Rightarrow> bytes list \<Rightarrow> bool" where
  "tls_state c ds \<longleftrightarrow> oc_handshakeDone c \<and> oc_mode c \<noteq> modeHTTP \<and> oc_plainOff c \<le> length (oc_plain c)
     \<and> oc_r c = frames ds \<and> (\<forall>d\<in>set ds. length d \<le> maxRecord)"

definition tls_rest :: "obfsConn \<Rightarrow> bytes list \<Rightarrow> bytes" where
  "tls_rest c ds = drop (oc_plainOff c) (oc_plain c) @ concat ds"

lemma fill_tls:
  assumes "tls_state c ds"
  shows "if tls_rest c ds = [] then \<exists>c'. obfs_fill c = (Error ''EOF'', c')
    else \<exists>c' ds'. obfs_fill c = (Return False, c') \<and> tls_state c' ds' \<and> tls_rest c' ds' = tls_rest c ds \<and> oc_plainOff c' < length (oc_plain c')"
  using assms
proof (induction ds arbitrary: c)
  case Nil
  show ?case
  proof (cases "oc_plainOff c < length (oc_plain c)")
    case True
    with Nil show ?thesis by (subst obfs_fill.simps) (auto simp: tls_rest_def obfs_fill.simps [of c])
  next
    case False
    have "readAppData c = (Inl ''EOF'', c\<lparr>oc_r := []\<rparr>)" using Nil by (simp add: tls_state_def readAppData_def ReadFull_def)
    with False Nil show ?thesis by (auto simp: obfs_fill.simps [of c] tls_state_def tls_rest_def)
  qed
next
  case (Cons d ds)
  show ?case
  proof (cases "oc_plainOff c < length (oc_plain c)")
    case True
    then have f: "obfs_fill c = (Return False, c)" "tls_rest c (d # ds) \<noteq> []" by (auto simp: obfs_fill.simps [of c] tls_rest_def)
    with Cons.prems True show ?thesis by (simp only: if_False) blast
  next
    case False
    let ?c = "c\<lparr>oc_r := frames ds, oc_plain := d, oc_plainOff := 0\<rparr>"
    have "readAppData c = (Inr d, c\<lparr>oc_r := frames ds\<rparr>)" using Cons.prems by (intro readAppData_wrap) (simp_all add: tls_state_def)
    then have f: "obfs_fill c = obfs_fill ?c" using False Cons.prems by (simp add: obfs_fill.simps [of c] tls_state_def)
    have "tls_state ?c ds" using Cons.prems by (simp add: tls_state_def)
    moreover have rest: "tls_rest ?c ds = tls_rest c (d # ds)" using False by (simp add: tls_rest_def)
    ultimately show ?thesis using Cons.IH [of ?c] unfolding f rest by blast
  qed
qed

lemma read_tls:
  assumes "tls_state c ds" and "0 < k"
  shows "if tls_rest c ds = [] then \<exists>c'. obfs_Read avail k c = (Error ''EOF'', c')
    else \<exists>d c' ds'. obfs_Read avail k c = (Return d, c') \<and> d \<noteq> [] \<and> length d \<le> k \<and> tls_state c' ds' \<and> tls_rest c ds = d @ tls_rest c' ds'"
proof (cases "tls_rest c ds = []")
  case True
  with fill_tls [OF assms(1)] show ?thesis by (auto simp: obfs_Read_def)
next
  case False
  with fill_tls [OF assms(1)] obtain c1 ds' where f: "obfs_fill c = (Return False, c1)" "tls_state c1 ds'" "tls_rest c1 ds' = tls_rest c ds"
    "oc_plainOff c1 < length (oc_plain c1)" by auto
  let ?d = "take k (drop (oc_plainOff c1) (oc_plain c1))"
  let ?c = "c1\<lparr>oc_plainOff := oc_plainOff c1 + length ?d\<rparr>"
  have r: "obfs_Read avail k c = (Return ?d, ?c)" by (simp add: obfs_Read_def f(1) Let_def)
  have "drop (oc_plainOff c1) (oc_plain c1) = ?d @ drop (oc_plainOff c1 + length ?d) (oc_plain c1)"
    by (metis append_take_drop_id add.commute drop_drop length_take min.commute take_drop append_eq_conv_conj)
  then have "tls_rest c ds = ?d @ tls_rest ?c ds'" unfolding f(3) [symmetric] by (simp add: tls_rest_def)
  moreover have "tls_state ?c ds'" using f(2) by (auto simp: tls_state_def)
  moreover have "?d \<noteq> []" "length ?d \<le> k" using f(4) assms(2) by simp_all
  ultimately show ?thesis using r False by (simp only: if_False) blast
qed

section \<open>Handshakes\<close>

definition hello_record :: "byte \<Rightarrow> bytes \<Rightarrow> bytes" where
  "hello_record v body = [0x16, 3, v] @ put16 (length body) @ body"

text \<open>The hello of a client carries a payload: any fields of the sizes the format allows.\<close>

definition carries :: "bytes \<Rightarrow> bytes \<Rightarrow> bool" where
  "carries body payload \<longleftrightarrow>
     (\<exists>pre sid cs cms exts post. body = client_hello pre sid cs cms (extensions exts payload post) \<and> length pre = 37 \<and> length sid < 256
        \<and> length cs < 65536 \<and> length cms < 256 \<and> (\<forall>x\<in>set exts. fst x < 65536 \<and> fst x \<noteq> 0x23)
        \<and> length (extensions exts payload post) < 65536 \<and> length body < 65536)"

lemma carries_ticket: "carries body payload \<Longrightarrow> extractSessionTicket body = Return payload"
  by (auto simp: carries_def session_ticket_found)

lemma carries_length: "carries body payload \<Longrightarrow> 42 \<le> length body \<and> length body < 65536"
  by (auto simp: carries_def client_hello_def)

lemma readClientHello_carries:
  assumes "oc_r c = hello_record v body @ rest" and "carries body payload"
  shows "readClientHello c = (Return (), c\<lparr>oc_r := rest, oc_plain := payload, oc_plainOff := 0\<rparr>)"
proof -
  let ?h = "[0x16, 3, v] @ put16 (length body)"
  have r: "oc_r c = ?h @ body @ rest" by (simp add: assms(1) hello_record_def)
  have h: "ReadFull 5 (oc_r c) = (Inr ?h, body @ rest)" unfolding r by (rule ReadFull_append) simp
  have n: "be16 (?h ! 3) (?h ! 4) = length body" using be16_words [of "length body"] carries_length [OF assms(2)] by (simp add: put16_def)
  show ?thesis
    using carries_length [OF assms(2)]
    by (simp add: readClientHello_def h n [simplified] ReadFull_append carries_ticket [OF assms(2)] Let_def not_less)
qed

text \<open>The head of an HTTP request: lines that are not empty, then an empty one.\<close>

definition http_head :: "bytes list \<Rightarrow> bytes \<Rightarrow> bytes" where
  "http_head lines fin = concat (map (\<lambda>l. l @ [10]) lines) @ fin @ [10]"

definition http_lines :: "bytes list \<Rightarrow> bytes \<Rightarrow> bool" where
  "http_lines lines fin \<longleftrightarrow> (\<forall>l\<in>set lines. 10 \<notin> set l \<and> l \<noteq> [] \<and> l \<noteq> [13]) \<and> fin \<in> {[], [13]}"

lemma read_line_append: "10 \<notin> set l \<Longrightarrow> read_line (l @ 10 # rest) = (Inr (l @ [10]), rest)"
  by (auto simp: read_line_def takeWhile_append dropWhile_append)

lemma http_loop_head:
  assumes "http_lines lines fin" and "n + length (http_head lines fin) \<le> maxObfsHeader"
  shows "http_loop n (http_head lines fin @ s) = (None, s)"
  using assms
proof (induction lines arbitrary: n)
  case Nil
  then have "10 \<notin> set fin" by (auto simp: http_lines_def)
  then show ?case using Nil by (subst http_loop.simps) (auto simp: http_head_def http_lines_def read_line_append)
next
  case (Cons l lines)
  have l: "10 \<notin> set l" "l \<noteq> []" "l \<noteq> [13]" "http_lines lines fin" using Cons.prems(1) by (auto simp: http_lines_def)
  have h: "http_head (l # lines) fin @ s = l @ 10 # (http_head lines fin @ s)" by (simp add: http_head_def)
  have len: "length (http_head (l # lines) fin) = Suc (length l) + length (http_head lines fin)" by (simp add: http_head_def)
  have "http_loop (n + Suc (length l)) (http_head lines fin @ s) = (None, s)"
    using Cons.IH [OF l(4)] Cons.prems(2) len by simp
  then show ?case
    unfolding h using l Cons.prems(2) len by (subst http_loop.simps) (auto simp: read_line_append append_eq_Cons_conv)
qed


section \<open>Reading is reading the plain stream\<close>

text \<open>The plain stream a connection stands for, before and after its handshake, in both modes.\<close>

inductive represents :: "obfsConn \<Rightarrow> bytes \<Rightarrow> bool" where
  start_tls: "\<lbrakk>\<not> oc_handshakeDone c; oc_plain c = []; carries body payload; oc_r c = hello_record v body @ frames ds;
    \<forall>d\<in>set ds. length d \<le> maxRecord\<rbrakk> \<Longrightarrow> represents c (payload @ concat ds)"
| start_http: "\<lbrakk>\<not> oc_handshakeDone c; oc_plain c = []; http_lines lines fin; length (http_head lines fin) \<le> maxObfsHeader;
    hd (http_head lines fin) \<noteq> 0x16; oc_r c = http_head lines fin @ s\<rbrakk> \<Longrightarrow> represents c s"
| in_tls: "tls_state c ds \<Longrightarrow> represents c (tls_rest c ds)"
| in_http: "\<lbrakk>oc_handshakeDone c; oc_mode c = modeHTTP; length (oc_plain c) \<le> oc_plainOff c\<rbrakk> \<Longrightarrow> represents c (oc_r c)"

text \<open>What one read of a plain stream may give.\<close>

definition reads :: "nat \<Rightarrow> bytes \<Rightarrow> bytes outcome \<times> obfsConn \<Rightarrow> bool" where
  "reads k s res \<longleftrightarrow>
     (if s = [] then \<exists>c'. res = (Error ''EOF'', c')
      else \<exists>d s' c'. res = (Return d, c') \<and> d \<noteq> [] \<and> length d \<le> k \<and> s = d @ s' \<and> represents c' s')"

lemma reads_tls: "tls_state c ds \<Longrightarrow> 0 < k \<Longrightarrow> reads k (tls_rest c ds) (obfs_Read avail k c)"
  using read_tls [of c ds k avail] unfolding reads_def by (auto split: if_splits intro: in_tls)

lemma raw_reads:
  assumes "oc_handshakeDone c" and "oc_mode c = modeHTTP" and "length (oc_plain c) \<le> oc_plainOff c" and "0 < k"
  shows "reads k (oc_r c) (raw_read avail k c)"
proof (cases "oc_r c = []")
  case False
  let ?n = "min k (Suc avail)"
  have "represents (c\<lparr>oc_r := drop ?n (oc_r c)\<rparr>) (drop ?n (oc_r c))"
    using in_http [of "c\<lparr>oc_r := drop ?n (oc_r c)\<rparr>"] assms by simp
  moreover have "take ?n (oc_r c) \<noteq> []" "length (take ?n (oc_r c)) \<le> k" using False assms(4) by simp_all
  moreover have "raw_read avail k c = (Return (take ?n (oc_r c)), c\<lparr>oc_r := drop ?n (oc_r c)\<rparr>)" using False by (simp add: raw_read_def)
  moreover have "oc_r c = take ?n (oc_r c) @ drop ?n (oc_r c)" by simp
  ultimately show ?thesis unfolding reads_def using False by metis
qed (simp add: reads_def raw_read_def assms(4))

lemma obfs_reads:
  assumes "represents c s" and "0 < k"
  shows "reads k s (obfs_Read avail k c)"
  using assms(1)
proof cases
  case (start_tls body payload v ds)
  have first: "oc_r c = 0x16 # tl (oc_r c)" using start_tls(5) by (simp add: hello_record_def)
  let ?c = "c\<lparr>oc_mode := modeTLS, oc_r := frames ds, oc_plain := payload, oc_plainOff := 0, oc_handshakeDone := True\<rparr>"
  have "readHandshake c = (Return (), c\<lparr>oc_mode := modeTLS, oc_r := frames ds, oc_plain := payload, oc_plainOff := 0\<rparr>)"
    using readClientHello_carries [of "c\<lparr>oc_mode := modeTLS\<rparr>" v body "frames ds" payload] start_tls
    by (subst readHandshake_def, subst first) simp
  then have f: "obfs_fill c = obfs_fill ?c" using start_tls by (simp add: obfs_fill.simps [of c])
  then have r: "obfs_Read avail k c = obfs_Read avail k ?c" by (simp add: obfs_Read_def)
  have "tls_state ?c ds" using start_tls by (simp add: tls_state_def)
  from reads_tls [OF this assms(2)] show ?thesis by (simp add: r start_tls(1) tls_rest_def)
next
  case (start_http lines fin)
  let ?c = "c\<lparr>oc_mode := modeHTTP, oc_r := s, oc_handshakeDone := True\<rparr>"
  have "http_head lines fin \<noteq> []" by (simp add: http_head_def)
  then obtain x xs where x: "oc_r c = x # xs" "x \<noteq> 0x16" using start_http(5,6) by (cases "http_head lines fin") auto
  have "http_loop 0 (oc_r c) = (None, s)" unfolding start_http(6) by (rule http_loop_head [OF start_http(3)]) (simp add: start_http(4))
  then have "readHandshake c = (Return (), c\<lparr>oc_mode := modeHTTP, oc_r := s\<rparr>)"
    using x by (simp add: readHandshake_def readHTTPRequest_def)
  then have "obfs_Read avail k c = raw_read avail k ?c" using start_http(1,2) by (simp add: obfs_Read_def obfs_fill.simps [of c])
  moreover have "reads k (oc_r ?c) (raw_read avail k ?c)" using start_http(2) assms(2) by (intro raw_reads) simp_all
  ultimately show ?thesis by simp
next
  case (in_tls ds)
  then show ?thesis using reads_tls assms(2) by simp
next
  case in_http
  then have "obfs_Read avail k c = raw_read avail k c" by (simp add: obfs_Read_def obfs_fill.simps [of c])
  with raw_reads in_http assms(2) show ?thesis by simp
qed

text \<open>So an obfuscated connection keeps the contract of a plain stream.\<close>

interpretation obfs: plain_stream "obfs_Read avail" represents for avail
proof
  fix c s and k :: nat
  assume "represents c s" and "0 < k" and "s \<noteq> []"
  with obfs_reads [of c s k avail]
  show "\<exists>d s' c'. obfs_Read avail k c = (Return d, c') \<and> d \<noteq> [] \<and> length d \<le> k \<and> s = d @ s' \<and> represents c' s'"
    by (simp add: reads_def)
next
  fix c and k :: nat
  assume "represents c []" and "0 < k"
  with obfs_reads [of c "[]" k avail] show "\<exists>c'. obfs_Read avail k c = (Error ''EOF'', c')" by (simp add: reads_def)
qed

text \<open>
  Claim C21. Reading from an obfuscated connection is reading the client's plain stream: whatever the fields of the fake TLS hello or the
  lines of the fake HTTP request, however the client cut its data into records, and for every buffer size, a read returns a non-empty
  next piece of the plain stream and leaves a connection that stands for the rest; the end of the stream is
  reported exactly when everything was delivered. A full read of \<open>n\<close> bytes gives the next \<open>n\<close> bytes.
\<close>

theorem obfs_read_is_plain_read:
  assumes "represents c s" and "0 < k"
  shows "reads k s (obfs_Read avail k c)
    \<and> (n \<le> length s \<longrightarrow> (\<exists>c'. io_ReadFull (obfs_Read avail) n c = Some (Return (take n s), c') \<and> represents c' (drop n s)))"
  using obfs_reads [OF assms] obfs.ReadFull_data [OF assms(1)] by blast

definition demo_hello :: bytes where
  "demo_hello = client_hello (replicate 37 7) [] [1, 2] [0] (extensions [] [42, 43] [])"

theorem obfs_read_is_plain_read_witness:
  "\<exists>c'. obfs_Read 0 1 (newObfsConn (hello_record 1 demo_hello @ wrapAppData [44]) modeHTTP) = (Return [42], c') \<and> represents c' [43, 44]"
proof -
  let ?c = "newObfsConn (hello_record 1 demo_hello @ wrapAppData [44]) modeHTTP"
  have "length demo_hello < 65536" by (simp add: demo_hello_def client_hello_def extensions_def ext_def)
  then have "carries demo_hello [42, 43]"
    unfolding carries_def
    by (intro exI [of _ "replicate 37 7"] exI [of _ "[]"] exI [of _ "[1, 2]"] exI [of _ "[0]"]) (auto simp: demo_hello_def extensions_def ext_def)
  then have "represents ?c ([42, 43] @ concat [[44]])"
    by (rule start_tls [where v = 1, rotated 2]) (simp_all add: newObfsConn_def maxRecord_def)
  from obfs_read_is_plain_read [OF this, of 1 0 0]
  obtain d s' c' where r: "obfs_Read 0 1 ?c = (Return d, c')" "d \<noteq> []" "length d \<le> 1" "[42, 43, 44] = d @ s'" "represents c' s'"
    by (auto simp: reads_def)
  then show ?thesis by (cases d; cases "tl d") auto
qed

section \<open>Writing\<close>

text \<open>A client of the protocol: it skips the fake server hello and reads the records that follow.\<close>

definition parse_record :: "byte \<Rightarrow> bytes \<Rightarrow> (bytes \<times> bytes) option" where
  "parse_record t s =
     (if length s < 5 \<or> take 3 s \<noteq> [t, 3, 3] then None
      else (let n = be16 (s ! 3) (s ! 4) in if length s < 5 + n then None else Some (take n (drop 5 s), drop (5 + n) s)))"

function parse_records :: "bytes \<Rightarrow> bytes option" where
  "parse_records s =
     (if s = [] then Some []
      else (case parse_record 0x17 s of None \<Rightarrow> None | Some (d, rest) \<Rightarrow> map_option ((@) d) (parse_records rest)))"
  by pat_completeness auto
termination by (relation "measure length") (auto simp: parse_record_def Let_def split: if_splits)

declare parse_records.simps [simp del]

definition client_decode :: "bytes \<Rightarrow> bytes option" where
  "client_decode s =
     (case parse_record 0x16 (drop 102 s) of None \<Rightarrow> None | Some (d, rest) \<Rightarrow> map_option ((@) d) (parse_records rest))"

text \<open>The server's side of a conversation: a sequence of writes.\<close>

fun write_all :: "write_input \<Rightarrow> bytes list \<Rightarrow> obfsConn \<Rightarrow> bytes" where
  "write_all i [] c = []"
| "write_all i (p # ps) c = (case obfs_Write i p c of (res, sent, c') \<Rightarrow> sent @ write_all i ps c')"

lemma parse_record_header:
  "length h = 5 \<Longrightarrow> take 3 h = [t, 3, 3] \<Longrightarrow> be16 (h ! 3) (h ! 4) = length d \<Longrightarrow> parse_record t (h @ d @ rest) = Some (d, rest)"
  by (simp add: parse_record_def nth_append)

lemma parse_record_app: "length d \<le> maxRecord \<Longrightarrow> parse_record t ([t, 3, 3] @ put16 (length d) @ d @ rest) = Some (d, rest)"
  using parse_record_header [of "[t, 3, 3] @ put16 (length d)" t d rest] be16_words [of "length d"] by (simp add: put16_def maxRecord_def)

lemma parse_frames: "\<forall>d\<in>set ds. length d \<le> maxRecord \<Longrightarrow> parse_records (frames ds) = Some (concat ds)"
proof (induction ds)
  case (Cons d ds)
  have "parse_record 0x17 (wrapAppData d @ frames ds) = Some (d, frames ds)"
    using parse_record_app [of d "0x17" "frames ds"] Cons.prems by (simp add: wrapAppData_def)
  moreover have "wrapAppData d \<noteq> []" by (simp add: wrapAppData_def)
  ultimately show ?case using Cons by (subst parse_records.simps) simp
qed (simp add: parse_records.simps)

lemma write_loop_later:
  assumes "\<not> oc_firstResponse c" and "\<forall>b. wi_sock i b = None"
  shows "\<exists>ds. write_loop i c n p sent = ((n, None), sent @ frames ds, c) \<and> concat ds = p \<and> (\<forall>d\<in>set ds. length d \<le> maxRecord)"
proof (induction p arbitrary: sent rule: length_induct)
  case (1 p)
  show ?case
  proof (cases "p = []")
    case True
    then show ?thesis by (intro exI [of _ "[]"]) (simp add: write_loop.simps)
  next
    case False
    let ?d = "take maxRecord p"
    let ?q = "drop (length ?d) p"
    have c: "c\<lparr>oc_firstResponse := False\<rparr> = c" using assms(1) by simp
    have "length ?q < length p" using False by (simp add: maxRecord_def)
    with 1 obtain ds where ds: "write_loop i c n ?q (sent @ wrapAppData ?d) = ((n, None), (sent @ wrapAppData ?d) @ frames ds, c)"
      "concat ds = ?q" "\<forall>d\<in>set ds. length d \<le> maxRecord" by blast
    have "write_loop i c n p sent = write_loop i c n ?q (sent @ wrapAppData ?d)"
      using False assms by (subst write_loop.simps) (simp add: Let_def c)
    with ds show ?thesis by (intro exI [of _ "?d # ds"]) (simp add: min_def)
  qed
qed


lemma frames_append [simp]: "frames (xs @ ys) = frames xs @ frames ys"
  by (simp add: frames_def)

lemma write_all_later:
  assumes "oc_mode c \<noteq> modeHTTP" and "\<not> oc_firstResponse c" and "\<forall>b. wi_sock i b = None"
  shows "\<exists>ds. write_all i ps c = frames ds \<and> concat ds = concat ps \<and> (\<forall>d\<in>set ds. length d \<le> maxRecord)"
proof (induction ps)
  case Nil
  then show ?case by (intro exI [of _ "[]"]) simp
next
  case (Cons p ps)
  then obtain ds where ds: "write_all i ps c = frames ds" "concat ds = concat ps" "\<forall>d\<in>set ds. length d \<le> maxRecord" by blast
  obtain es where es: "write_loop i c (length p) p [] = ((length p, None), frames es, c)" "concat es = p" "\<forall>d\<in>set es. length d \<le> maxRecord"
    using write_loop_later [OF assms(2,3), of "length p" p "[]"] by auto
  show ?case using ds es assms(1) by (intro exI [of _ "es @ ds"]) (auto simp: obfs_Write_def)
qed

lemma write_first:
  assumes "oc_mode c \<noteq> modeHTTP" and "oc_firstResponse c" and "\<forall>b. wi_sock i b = None" and "p \<noteq> []"
  shows "\<exists>d ds. obfs_Write i p c = ((length p, None), buildServerHello (wi_hello i) d @ frames ds, c\<lparr>oc_firstResponse := False\<rparr>)
    \<and> d @ concat ds = p \<and> length d \<le> maxRecord \<and> (\<forall>d\<in>set ds. length d \<le> maxRecord)"
proof -
  let ?d = "take maxRecord p"
  let ?c = "c\<lparr>oc_firstResponse := False\<rparr>"
  obtain ds where ds: "write_loop i ?c (length p) (drop (length ?d) p) (buildServerHello (wi_hello i) ?d) =
      ((length p, None), buildServerHello (wi_hello i) ?d @ frames ds, ?c)" "concat ds = drop (length ?d) p" "\<forall>d\<in>set ds. length d \<le> maxRecord"
    using write_loop_later [of ?c i "length p" "drop (length ?d) p" "buildServerHello (wi_hello i) ?d"] assms(3) by auto
  have "obfs_Write i p c = write_loop i ?c (length p) (drop (length ?d) p) (buildServerHello (wi_hello i) ?d)"
    using assms by (simp add: obfs_Write_def write_loop.simps [of i c] Let_def)
  with ds show ?thesis by (intro exI [of _ ?d] exI [of _ ds]) (simp add: min_def)
qed

lemma server_hello_split:
  assumes "length (hi_random h) = 28" and "length (hi_session h) = 32"
  shows "\<exists>H. length H = 102 \<and> buildServerHello h d = H @ [0x16, 3, 3] @ put16 (length d) @ d"
proof -
  have "length (overwrite q xs b) = length b" if "q + length xs \<le> length b" for q xs b
    using that by (simp add: overwrite_def)
  moreover have "length serverHelloTemplate = 96" "length (put32 (hi_time h)) = 4" by (simp_all add: serverHelloTemplate_def put32_def)
  ultimately have "length (overwrite 44 (hi_session h) (overwrite 15 (hi_random h) (overwrite 11 (put32 (hi_time h)) serverHelloTemplate)) @ changeCipherSpec) = 102"
    using assms by (simp add: changeCipherSpec_def)
  then show ?thesis unfolding buildServerHello_def by (metis append_assoc)
qed

text \<open>
  What the server writes in TLS mode is what a client decodes: for every sequence of writes, of any sizes, with at least one
  byte in all, a client that skips the fake server hello and the cipher change and then reads the records gets exactly the
  concatenation of the written data. Every record fits the length field.
\<close>

theorem obfs_write_decodes:
  assumes "oc_mode c \<noteq> modeHTTP" and "oc_firstResponse c" and "\<forall>b. wi_sock i b = None"
    and "length (hi_random (wi_hello i)) = 28" and "length (hi_session (wi_hello i)) = 32" and "concat ps \<noteq> []"
  shows "client_decode (write_all i ps c) = Some (concat ps)"
  using assms(6)
proof (induction ps)
  case (Cons p ps)
  show ?case
  proof (cases "p = []")
    case True
    then have "write_all i (p # ps) c = write_all i ps c" using assms(1) by (simp add: obfs_Write_def write_loop.simps)
    with Cons True show ?thesis by simp
  next
    case False
    obtain d ds where w: "obfs_Write i p c = ((length p, None), buildServerHello (wi_hello i) d @ frames ds, c\<lparr>oc_firstResponse := False\<rparr>)"
      "d @ concat ds = p" "length d \<le> maxRecord" "\<forall>d\<in>set ds. length d \<le> maxRecord"
      using write_first [OF assms(1,2,3) False] by blast
    obtain es where es: "write_all i ps (c\<lparr>oc_firstResponse := False\<rparr>) = frames es" "concat es = concat ps" "\<forall>d\<in>set es. length d \<le> maxRecord"
      using write_all_later [of "c\<lparr>oc_firstResponse := False\<rparr>" i ps] assms(1,3) by auto
    obtain H where H: "length H = 102" "buildServerHello (wi_hello i) d = H @ [0x16, 3, 3] @ put16 (length d) @ d"
      using server_hello_split [OF assms(4,5)] by blast
    have "write_all i (p # ps) c = H @ [0x16, 3, 3] @ put16 (length d) @ d @ frames (ds @ es)" by (simp add: w(1) es(1) H(2))
    moreover have "parse_records (frames (ds @ es)) = Some (concat (ds @ es))" using w(4) es(3) by (intro parse_frames) auto
    ultimately have "client_decode (write_all i (p # ps) c) = Some (d @ concat (ds @ es))"
      using parse_record_app [OF w(3), where t = "0x16" and rest = "frames (ds @ es)"] H(1) by (simp add: client_decode_def del: frames_append)
    with w(2) es(2) show ?thesis by (metis append_assoc concat.simps(2) concat_append)
  qed
qed simp

definition demo_write :: write_input where
  "demo_write = \<lparr>wi_hello = \<lparr>hi_time = 0, hi_random = replicate 28 1, hi_session = replicate 32 2\<rparr>, wi_date = [], wi_accept = [], wi_sock = (\<lambda>b. None)\<rparr>"

theorem obfs_write_decodes_witness:
  "client_decode (write_all demo_write [[], [1, 2], [3]] (newObfsConn [] modeTLS)) = Some [1, 2, 3]"
proof -
  have "concat [[], [1, 2], [3]] \<noteq> ([] :: bytes)" by simp
  from obfs_write_decodes [OF _ _ _ _ _ this, of "newObfsConn [] modeTLS" demo_write] show ?thesis
    by (simp add: newObfsConn_def demo_write_def)
qed

end
