(* ===== verification/Trojan_Framing.thy ===== *)
theory Trojan_Framing
  imports Stream_Contract
begin

text \<open>
  The stream of a Trojan node with ss-obfs (\<open>common/trojanss/ssaead.go\<close>, \<open>conn.go\<close>): Shadowsocks AEAD chunks and the Trojan request inside.
  The AEAD that a method, a key and a salt give is an argument, with its two operations and sizes; the underlying
  connection is the list of bytes that remain to be read.
\<close>

section \<open>AEAD streams\<close>

record aead =
  ae_NonceSize :: nat
  ae_Overhead :: nat
  ae_Seal :: "bytes \<Rightarrow> bytes \<Rightarrow> bytes"
  ae_Open :: "bytes \<Rightarrow> bytes \<Rightarrow> goerror + bytes"

text \<open>What an AEAD promises: opening undoes sealing with the same nonce, and sealing adds the overhead.\<close>

definition aead_ok :: "aead \<Rightarrow> bool" where
  "aead_ok a \<longleftrightarrow> (\<forall>n p. length n = ae_NonceSize a \<longrightarrow> ae_Open a n (ae_Seal a n p) = Inr p \<and> length (ae_Seal a n p) = length p + ae_Overhead a)"

fun incNonce :: "bytes \<Rightarrow> bytes" where
  "incNonce [] = []"
| "incNonce (x # xs) = (if x + 1 \<noteq> 0 then (x + 1) # xs else (x + 1) # incNonce xs)"

record ssConn =
  sc_r :: bytes
  sc_method :: string
  sc_key :: bytes
  sc_rAEAD :: "aead option"
  sc_rNonce :: bytes
  sc_rbuf :: bytes
  sc_wAEAD :: "aead option"
  sc_wNonce :: bytes

definition newSSConn :: "bytes \<Rightarrow> string \<Rightarrow> bytes \<Rightarrow> ssConn" where
  "newSSConn r method key = \<lparr>sc_r = r, sc_method = method, sc_key = key, sc_rAEAD = None, sc_rNonce = [], sc_rbuf = [],
     sc_wAEAD = None, sc_wNonce = []\<rparr>"

text \<open>
  The AEAD of a method, a key and a salt. The key derivation (HKDF with a secret, a salt, an info and a length) and the two ciphers
  of a key are arguments.
\<close>

record crypto_lib =
  cr_hkdf :: "bytes \<Rightarrow> bytes \<Rightarrow> string \<Rightarrow> nat \<Rightarrow> goerror + bytes"
  cr_gcm :: "bytes \<Rightarrow> goerror + aead"
  cr_chacha :: "bytes \<Rightarrow> goerror + aead"

definition ssAEAD :: "crypto_lib \<Rightarrow> string \<Rightarrow> bytes \<Rightarrow> goerror + aead" where
  "ssAEAD L method subkey =
     (if method = ''AES-128-GCM'' \<or> method = ''AES-256-GCM'' then cr_gcm L subkey
      else if method = ''CHACHA20-IETF-POLY1305'' then cr_chacha L subkey
      else Inl (''trojanss: unsupported ss method '' @ method))"

definition subkeyAEAD :: "crypto_lib \<Rightarrow> string \<Rightarrow> bytes \<Rightarrow> bytes \<Rightarrow> goerror + aead" where
  "subkeyAEAD L method key salt =
     (case cr_hkdf L key salt ''ss-subkey'' (length key) of Inl e \<Rightarrow> Inl e | Inr subkey \<Rightarrow> ssAEAD L method subkey)"

type_synonym subkey = "string \<Rightarrow> bytes \<Rightarrow> bytes \<Rightarrow> goerror + aead"

definition initRead :: "subkey \<Rightarrow> ssConn \<Rightarrow> goerror option \<times> ssConn" where
  "initRead K s =
     (case ReadFull (length (sc_key s)) (sc_r s) of
        (Inl e, r) \<Rightarrow> (Some e, s\<lparr>sc_r := r\<rparr>)
      | (Inr salt, r) \<Rightarrow>
          (case K (sc_method s) (sc_key s) salt of
             Inl e \<Rightarrow> (Some e, s\<lparr>sc_r := r\<rparr>)
           | Inr a \<Rightarrow> (None, s\<lparr>sc_r := r, sc_rAEAD := Some a, sc_rNonce := replicate (ae_NonceSize a) 0\<rparr>)))"

definition maxChunk :: nat where "maxChunk = 0x3fff"

definition readChunk :: "aead \<Rightarrow> ssConn \<Rightarrow> goerror option \<times> ssConn" where
  "readChunk a s =
     (case ReadFull (2 + ae_Overhead a) (sc_r s) of
        (Inl e, r) \<Rightarrow> (Some e, s\<lparr>sc_r := r\<rparr>)
      | (Inr lenBuf, r) \<Rightarrow>
          (case ae_Open a (sc_rNonce s) lenBuf of
             Inl e \<Rightarrow> (Some e, s\<lparr>sc_r := r\<rparr>)
           | Inr lenPlain \<Rightarrow>
               (let s1 = s\<lparr>sc_r := r, sc_rNonce := incNonce (sc_rNonce s)\<rparr>;
                    n = be16 (lenPlain ! 0) (lenPlain ! 1)
                in if n = 0 \<or> maxChunk < n then (Some ''trojanss: bad chunk length'', s1)
                   else
                     (case ReadFull (n + ae_Overhead a) r of
                        (Inl e, r) \<Rightarrow> (Some e, s1\<lparr>sc_r := r\<rparr>)
                      | (Inr data, r) \<Rightarrow>
                          (case ae_Open a (sc_rNonce s1) data of
                             Inl e \<Rightarrow> (Some e, s1\<lparr>sc_r := r\<rparr>)
                           | Inr plain \<Rightarrow>
                               (None, s1\<lparr>sc_r := r, sc_rNonce := incNonce (sc_rNonce s1), sc_rbuf := sc_rbuf s1 @ plain\<rparr>))))))"

text \<open>Every chunk takes at least the two bytes of its length off the connection, so the loop of \<open>Read\<close> ends.\<close>

lemma readChunk_less: "readChunk a s = (None, s') \<Longrightarrow> length (sc_r s') < length (sc_r s)"
  by (auto simp: readChunk_def ReadFull_def Let_def split: if_splits sum.splits)

function fill_chunks :: "aead \<Rightarrow> ssConn \<Rightarrow> goerror option \<times> ssConn" where
  "fill_chunks a s =
     (if sc_rbuf s = [] then
        (case readChunk a s of (Some e, s1) \<Rightarrow> (Some e, s1) | (None, s1) \<Rightarrow> fill_chunks a s1)
      else (None, s))"
  by pat_completeness auto
termination by (relation "measure (\<lambda>(a, s). length (sc_r s))") (auto dest: readChunk_less [OF sym])

declare fill_chunks.simps [simp del]

definition ss_Read :: "subkey \<Rightarrow> nat \<Rightarrow> ssConn \<Rightarrow> bytes outcome \<times> ssConn" where
  "ss_Read K k s0 =
     (case (if sc_rAEAD s0 = None then initRead K s0 else (None, s0)) of
        (Some e, s1) \<Rightarrow> (Error e, s1)
      | (None, s1) \<Rightarrow>
          (case fill_chunks (the (sc_rAEAD s1)) s1 of
             (Some e, s2) \<Rightarrow> (Error e, s2)
           | (None, s2) \<Rightarrow> (Return (take k (sc_rbuf s2)), s2\<lparr>sc_rbuf := drop k (sc_rbuf s2)\<rparr>)))"

text \<open>Writing: the fresh salt and the answers of the underlying connection are arguments; what is sent is returned.\<close>

record ss_sock =
  so_salt :: "goerror + bytes"
  so_write :: "bytes \<Rightarrow> goerror option"

definition initWrite :: "subkey \<Rightarrow> ss_sock \<Rightarrow> ssConn \<Rightarrow> goerror option \<times> bytes \<times> ssConn" where
  "initWrite K i s =
     (case so_salt i of
        Inl e \<Rightarrow> (Some e, [], s)
      | Inr salt \<Rightarrow>
          (case so_write i salt of
             Some e \<Rightarrow> (Some e, [], s)
           | None \<Rightarrow>
               (case K (sc_method s) (sc_key s) salt of
                  Inl e \<Rightarrow> (Some e, salt, s)
                | Inr a \<Rightarrow> (None, salt, s\<lparr>sc_wAEAD := Some a, sc_wNonce := replicate (ae_NonceSize a) 0\<rparr>))))"

function chunk_loop :: "aead \<Rightarrow> ss_sock \<Rightarrow> nat \<Rightarrow> bytes \<Rightarrow> bytes \<Rightarrow> ssConn \<Rightarrow> (nat \<times> goerror option) \<times> bytes \<times> ssConn" where
  "chunk_loop a i tot p sent s =
     (if p = [] then ((tot, None), sent, s)
      else
        (let n = min (length p) maxChunk;
             n1 = incNonce (sc_wNonce s);
             buf = ae_Seal a (sc_wNonce s) (put16 n) @ ae_Seal a n1 (take n p);
             s1 = s\<lparr>sc_wNonce := incNonce n1\<rparr>
         in case so_write i buf of
              Some e \<Rightarrow> ((tot, Some e), sent, s1)
            | None \<Rightarrow> chunk_loop a i (tot + n) (drop n p) (sent @ buf) s1))"
  by pat_completeness auto
termination by (relation "measure (\<lambda>(a, i, t, p, x, s). length p)") (auto simp: maxChunk_def)

declare chunk_loop.simps [simp del]

definition ss_Write :: "subkey \<Rightarrow> ss_sock \<Rightarrow> bytes \<Rightarrow> ssConn \<Rightarrow> (nat \<times> goerror option) \<times> bytes \<times> ssConn" where
  "ss_Write K i p s =
     (case (if sc_wAEAD s = None then initWrite K i s else (None, [], s)) of
        (Some e, sent, s1) \<Rightarrow> ((0, Some e), sent, s1)
      | (None, sent, s1) \<Rightarrow> chunk_loop (the (sc_wAEAD s1)) i 0 p sent s1)"

section \<open>The Trojan request\<close>

datatype address = IPv4 bytes | IPv6 bytes | Domain bytes

record Destination =
  de_Address :: address
  de_Port :: nat

text \<open>\<open>IPAddress\<close> of xray-core: an IPv4 address in IPv6 form is an IPv4 address.\<close>

definition IPAddress :: "bytes \<Rightarrow> address" where
  "IPAddress ip =
     (if length ip = 4 then IPv4 ip
      else if take 10 ip = replicate 10 0 \<and> ip ! 10 = 0xff \<and> ip ! 11 = 0xff then IPv4 (drop 12 ip)
      else IPv6 ip)"

definition keyLength :: nat where "keyLength = 56"

definition is_hex :: "byte \<Rightarrow> bool" where
  "is_hex x \<longleftrightarrow> 48 \<le> unat x \<and> unat x \<le> 57 \<or> 97 \<le> unat x \<and> unat x \<le> 102 \<or> 65 \<le> unat x \<and> unat x \<le> 70"

definition port_of :: "bytes \<Rightarrow> nat" where
  "port_of b = be16 (b ! 0) (b ! 1)"

definition readSocksAddr :: "(nat \<Rightarrow> 'c \<Rightarrow> bytes outcome \<times> 'c) \<Rightarrow> 'c \<Rightarrow> (Destination outcome \<times> 'c) option" where
  "readSocksAddr read c =
     then_full read 1 c (\<lambda>atyp c1.
       if atyp ! 0 = 1 then
         then_full read (4 + 2) c1 (\<lambda>buf c2. Some (Return \<lparr>de_Address = IPAddress (take 4 buf), de_Port = port_of (drop 4 buf)\<rparr>, c2))
       else if atyp ! 0 = 4 then
         then_full read (16 + 2) c1 (\<lambda>buf c2. Some (Return \<lparr>de_Address = IPAddress (take 16 buf), de_Port = port_of (drop 16 buf)\<rparr>, c2))
       else if atyp ! 0 = 3 then
         then_full read 1 c1 (\<lambda>l c2.
           then_full read (unat (l ! 0) + 2) c2 (\<lambda>buf c3.
             Some (Return \<lparr>de_Address = Domain (take (unat (l ! 0)) buf), de_Port = port_of (drop (unat (l ! 0)) buf)\<rparr>, c3)))
       else Some (Error ''trojanss: bad address type'', c1))"

definition handshake :: "(nat \<Rightarrow> 'c \<Rightarrow> bytes outcome \<times> 'c) \<Rightarrow> 'c \<Rightarrow> ((bytes \<times> Destination) outcome \<times> 'c) option" where
  "handshake read c =
     then_full read keyLength c (\<lambda>hdr c1.
       if \<not> list_all is_hex hdr then Some (Error ''trojanss: non-hex key'', c1)
       else
         then_full read 2 c1 (\<lambda>crlf c2.
         then_full read 1 c2 (\<lambda>cmd c3.
           if cmd ! 0 \<noteq> 1 then Some (Error ''trojanss: unsupported command'', c3)
           else
             (case readSocksAddr read c3 of
                None \<Rightarrow> None
              | Some (Error e, c4) \<Rightarrow> Some (Error e, c4)
              | Some (Panic p, c4) \<Rightarrow> Some (Panic p, c4)
              | Some (Return dest, c4) \<Rightarrow> then_full read 2 c4 (\<lambda>crlf c5. Some (Return (hdr, dest), c5))))))"

definition trojan_handshake :: "crypto_lib \<Rightarrow> string \<Rightarrow> bytes \<Rightarrow> bytes \<Rightarrow> ((bytes \<times> Destination) outcome \<times> ssConn) option" where
  "trojan_handshake L method key r = handshake (ss_Read (subkeyAEAD L)) (newSSConn r method key)"

end
