(* ===== verification/Ssr_Auth.thy ===== *)
theory Ssr_Auth
  imports Trojan_Framing
begin

text \<open>
  The ShadowsocksR protocol layer \<open>auth_aes128\<close> (\<open>common/ssr/protocol.go\<close>, the key derivation of \<open>cipher.go\<close>): the client's authenticated header
  and the framed data after it. The stream below is the decrypted stream: the bytes that remain to be read after the IV, which is known; a
  read of it gives what has arrived, at most \<open>Suc avail\<close> bytes. Hashes, base64 and the AES-CBC decryption are arguments.
  After the protocol layer comes the target address (\<open>conn.go\<close>).
\<close>

section \<open>Connections\<close>

record auth_lib =
  al_hmac :: "bytes \<Rightarrow> bytes \<Rightarrow> bytes"
  al_md5 :: "bytes \<Rightarrow> bytes"
  al_base64 :: "bytes \<Rightarrow> bytes"
  al_cbc :: "bytes \<Rightarrow> bytes \<Rightarrow> goerror + bytes"
  al_salt :: bytes

record authAES128 =
  aa_stream :: bytes
  aa_iv :: bytes
  aa_cipherKey :: bytes
  aa_uuid :: string
  aa_userKey :: bytes
  aa_recvID :: "32 word"
  aa_packID :: "32 word"
  aa_gotHdr :: bool
  aa_acc :: bytes
  aa_rbuf :: bytes

type_synonym user_lookup = "32 word \<Rightarrow> (bytes \<times> string) option"

definition newAuthAES128 :: "bytes \<Rightarrow> bytes \<Rightarrow> bytes \<Rightarrow> authAES128" where
  "newAuthAES128 stream iv key = \<lparr>aa_stream = stream, aa_iv = iv, aa_cipherKey = key, aa_uuid = [], aa_userKey = [], aa_recvID = 0, aa_packID = 1,
     aa_gotHdr = False, aa_acc = [], aa_rbuf = []\<rparr>"

text \<open>\<open>kdf\<close>: blocks of MD5 until the key is long enough. Every block has sixteen bytes, so \<open>keyLen\<close> rounds are enough.\<close>

fun kdf_loop :: "(bytes \<Rightarrow> bytes) \<Rightarrow> bytes \<Rightarrow> nat \<Rightarrow> nat \<Rightarrow> bytes \<Rightarrow> bytes \<Rightarrow> bytes option" where
  "kdf_loop md5 password keyLen 0 prev b = (if length b < keyLen then None else Some b)"
| "kdf_loop md5 password keyLen (Suc fuel) prev b =
     (if length b < keyLen then (let p = md5 (prev @ password) in kdf_loop md5 password keyLen fuel p (b @ p)) else Some b)"

definition kdf :: "(bytes \<Rightarrow> bytes) \<Rightarrow> bytes \<Rightarrow> nat \<Rightarrow> bytes option" where
  "kdf md5 password keyLen = map_option (take keyLen) (kdf_loop md5 password keyLen keyLen [] [])"

definition errNeedMore :: goerror where "errNeedMore = ''ssr: need more''"

section \<open>The header\<close>

definition decodeHeader :: "auth_lib \<Rightarrow> user_lookup \<Rightarrow> authAES128 \<Rightarrow> unit outcome \<times> authAES128" where
  "decodeHeader L lookup a =
     (let b = aa_acc a; macKey = aa_iv a @ aa_cipherKey a in
      if length b < 31 then (Error errNeedMore, a)
      else if take 6 (al_hmac L macKey (take 1 b)) \<noteq> take 6 (drop 1 b) then (Error ''ssr: checkHead hmac mismatch'', a)
      else
        (case lookup (le32 (take 4 (drop 7 b))) of
           None \<Rightarrow> (Error ''ssr: unknown userID'', a)
         | Some (uk, uuid) \<Rightarrow>
             if take 4 (al_hmac L macKey (take 20 (drop 7 b))) \<noteq> take 4 (drop 27 b) then (Error ''ssr: authdata hmac mismatch'', a)
             else
               (case al_cbc L (the (kdf (al_md5 L) (al_base64 L uk @ al_salt L) 16)) (take 16 (drop 11 b)) of
                  Inl e \<Rightarrow> (Error e, a)
                | Inr dec \<Rightarrow>
                    (let packedLen = le16 (dec ! 12) (dec ! 13); randLen = le16 (dec ! 14) (dec ! 15) in
                     if packedLen < 31 + randLen + 4 then (Error ''ssr: bad packed length'', a)
                     else if length b < packedLen then (Error errNeedMore, a)
                     else if take 4 (al_hmac L uk (take (packedLen - 4) b)) \<noteq> take 4 (drop (packedLen - 4) b) then
                       (Error ''ssr: auth final hmac mismatch'', a)
                     else
                       (case slice_of b (31 + randLen) (31 + randLen + (packedLen - 31 - randLen - 4)) of
                          Return d \<Rightarrow> (Return (), a\<lparr>aa_rbuf := aa_rbuf a @ d, aa_userKey := uk, aa_uuid := uuid, aa_recvID := 1,
                                                       aa_acc := drop packedLen b, aa_gotHdr := True\<rparr>)
                        | Error e \<Rightarrow> (Error e, a)
                        | Panic p \<Rightarrow> (Panic p, a))))))"

section \<open>Data frames\<close>

definition mac_key :: "bytes \<Rightarrow> 32 word \<Rightarrow> bytes" where
  "mac_key userKey i = userKey @ putle32 i"

text \<open>Where the data of a frame begins: after a padding whose size is in its first byte, or in the two bytes after a byte 255.\<close>

definition data_pos :: "bytes \<Rightarrow> nat" where
  "data_pos b = (if unat (b ! 4) < 255 then unat (b ! 4) + 4 else le16 (b ! 5) (b ! 6) + 4)"

function decodeData :: "auth_lib \<Rightarrow> authAES128 \<Rightarrow> unit outcome \<times> authAES128" where
  "decodeData L a =
     (let b = aa_acc a; macKey = mac_key (aa_userKey a) (aa_recvID a); len = le16 (b ! 0) (b ! 1) in
      if length b \<le> 4 then (Return (), a)
      else if len < 7 \<or> 8192 \<le> len then (Error ''ssr: bad data length'', a)
      else if length b < len then (Return (), a)
      else if take 2 (al_hmac L macKey (take 2 b)) \<noteq> take 2 (drop 2 b) then (Error ''ssr: data length hmac mismatch'', a)
      else if take 4 (al_hmac L macKey (take (len - 4) b)) \<noteq> take 4 (drop (len - 4) b) then (Error ''ssr: data hmac mismatch'', a)
      else
        (case slice_of b (data_pos b) (len - 4) of
           Return d \<Rightarrow> decodeData L (a\<lparr>aa_recvID := aa_recvID a + 1, aa_rbuf := aa_rbuf a @ d, aa_acc := drop len b\<rparr>)
         | Error e \<Rightarrow> (Error e, a\<lparr>aa_recvID := aa_recvID a + 1\<rparr>)
         | Panic p \<Rightarrow> (Panic p, a\<lparr>aa_recvID := aa_recvID a + 1\<rparr>)))"
  by pat_completeness auto
termination by (relation "measure (\<lambda>(L, a). length (aa_acc a))") auto

declare decodeData.simps [simp del]

section \<open>Reading\<close>

text \<open>One read of the stream and what can be decoded then; the error of the stream is its end.\<close>

definition pump :: "auth_lib \<Rightarrow> user_lookup \<Rightarrow> nat \<Rightarrow> authAES128 \<Rightarrow> unit outcome \<times> authAES128" where
  "pump L lookup avail a0 =
     (let n = min 8192 (Suc avail);
          err = (if aa_stream a0 = [] then Error ''EOF'' else Return ());
          a = a0\<lparr>aa_acc := aa_acc a0 @ take n (aa_stream a0), aa_stream := drop n (aa_stream a0)\<rparr>;
          (r, a1) = (if aa_gotHdr a then (Return (), a) else decodeHeader L lookup a)
      in case r of
           Error e \<Rightarrow> (if e = errNeedMore then err else Error e, a1)
         | Panic p \<Rightarrow> (Panic p, a1)
         | Return u \<Rightarrow>
             (case decodeData L a1 of (Return u, a2) \<Rightarrow> (err, a2) | (Error e, a2) \<Rightarrow> (Error e, a2) | (Panic p, a2) \<Rightarrow> (Panic p, a2)))"

lemma decodeHeader_stream: "aa_stream (snd (decodeHeader L lookup a)) = aa_stream a"
  by (simp add: decodeHeader_def Let_def split: option.split sum.split outcome.split)

lemma decodeData_stream: "aa_stream (snd (decodeData L a)) = aa_stream a"
proof (induction L a rule: decodeData.induct)
  case (1 L a)
  then show ?case by (subst decodeData.simps) (simp add: Let_def split: outcome.split)
qed

lemma pump_less:
  assumes p: "pump L lookup avail a = (Return u, a')"
  shows "length (aa_stream a') < length (aa_stream a)"
proof -
  define n where "n = min 8192 (Suc avail)"
  define b where "b = a\<lparr>aa_acc := aa_acc a @ take n (aa_stream a), aa_stream := drop n (aa_stream a)\<rparr>"
  obtain r a1 where h: "(if aa_gotHdr b then (Return (), b) else decodeHeader L lookup b) = (r, a1)" by force
  have s1: "aa_stream a1 = drop n (aa_stream a)"
    using h decodeHeader_stream [of L lookup b] by (auto simp: b_def split: if_splits)
  obtain r2 a2 where d: "decodeData L a1 = (r2, a2)" by force
  have s2: "aa_stream a2 = drop n (aa_stream a)" using decodeData_stream [of L a1] d s1 by simp
  have q: "(case r of Error e \<Rightarrow> (if e = errNeedMore then (if aa_stream a = [] then Error ''EOF'' else Return ()) else Error e, a1)
             | Panic q \<Rightarrow> (Panic q, a1)
             | Return u \<Rightarrow> (case r2 of Return u \<Rightarrow> (if aa_stream a = [] then Error ''EOF'' else Return (), a2) | Error e \<Rightarrow> (Error e, a2) | Panic q \<Rightarrow> (Panic q, a2)))
           = (Return u, a')"
    using p unfolding pump_def Let_def n_def [symmetric] b_def [symmetric] h case_prod_conv d by (cases r; cases r2; simp)
  have "aa_stream a \<noteq> []" and "aa_stream a' = drop n (aa_stream a)"
    using q s1 s2 by (cases r; cases r2; simp split: if_splits; blast)+
  moreover have "0 < n" by (simp add: n_def)
  ultimately show ?thesis by (cases "aa_stream a") auto
qed

text \<open>\<open>Read\<close>: pumping until something was decoded. An error is returned only when nothing was.\<close>

function auth_fill :: "auth_lib \<Rightarrow> user_lookup \<Rightarrow> nat \<Rightarrow> authAES128 \<Rightarrow> unit outcome \<times> authAES128" where
  "auth_fill L lookup avail a =
     (if aa_rbuf a \<noteq> [] then (Return (), a)
      else
        (case pump L lookup avail a of
           (Return u, a1) \<Rightarrow> auth_fill L lookup avail a1
         | (Error e, a1) \<Rightarrow> (if aa_rbuf a1 = [] then (Error e, a1) else (Return (), a1))
         | (Panic p, a1) \<Rightarrow> (Panic p, a1)))"
  by pat_completeness auto
termination by (relation "measure (\<lambda>(L, l, v, a). length (aa_stream a))") (auto dest: pump_less [OF sym])

declare auth_fill.simps [simp del]

definition auth_Read :: "auth_lib \<Rightarrow> user_lookup \<Rightarrow> nat \<Rightarrow> nat \<Rightarrow> authAES128 \<Rightarrow> bytes outcome \<times> authAES128" where
  "auth_Read L lookup avail k a =
     (case auth_fill L lookup avail a of
        (Return u, a1) \<Rightarrow> (Return (take k (aa_rbuf a1)), a1\<lparr>aa_rbuf := drop k (aa_rbuf a1)\<rparr>)
      | (Error e, a1) \<Rightarrow> (Error e, a1)
      | (Panic p, a1) \<Rightarrow> (Panic p, a1))"

section \<open>Writing\<close>

text \<open>
  A frame for the client with a padding of one byte; \<open>w\<close> says what the connection answers to a write. The result has the bytes that were
  sent.
\<close>

definition writeChunk :: "auth_lib \<Rightarrow> (bytes \<Rightarrow> goerror option) \<Rightarrow> bytes \<Rightarrow> authAES128 \<Rightarrow> goerror option \<times> bytes \<times> authAES128" where
  "writeChunk L w p a =
     (let macKey = mac_key (aa_userKey a) (aa_packID a);
          h1 = putle16 (2 + 2 + 1 + length p + 4);
          h2 = h1 @ take 2 (al_hmac L macKey h1);
          h3 = h2 @ [1] @ p;
          buf = h3 @ take 4 (al_hmac L macKey h3);
          a1 = a\<lparr>aa_packID := aa_packID a + 1\<rparr>
      in case w buf of Some e \<Rightarrow> (Some e, [], a1) | None \<Rightarrow> (None, buf, a1))"

function auth_write_loop :: "auth_lib \<Rightarrow> (bytes \<Rightarrow> goerror option) \<Rightarrow> nat \<Rightarrow> bytes \<Rightarrow> bytes \<Rightarrow> authAES128 \<Rightarrow> (nat \<times> goerror option) \<times> bytes \<times> authAES128" where
  "auth_write_loop L w t p sent a =
     (if p = [] then ((t, None), sent, a)
      else (let n = min (length p) 8000 in
            case writeChunk L w (take n p) a of
              (Some e, buf, a1) \<Rightarrow> ((t, Some e), sent, a1)
            | (None, buf, a1) \<Rightarrow> auth_write_loop L w (t + n) (drop n p) (sent @ buf) a1))"
  by pat_completeness auto
termination by (relation "measure (\<lambda>(L, w, t, p, s, a). length p)") auto

declare auth_write_loop.simps [simp del]

definition auth_Write :: "auth_lib \<Rightarrow> (bytes \<Rightarrow> goerror option) \<Rightarrow> bytes \<Rightarrow> authAES128 \<Rightarrow> (nat \<times> goerror option) \<times> bytes \<times> authAES128" where
  "auth_Write L w p a = auth_write_loop L w 0 p [] a"

section \<open>The target address\<close>

definition readTargetAddr :: "(nat \<Rightarrow> 'c \<Rightarrow> bytes outcome \<times> 'c) \<Rightarrow> 'c \<Rightarrow> (Destination outcome \<times> 'c) option" where
  "readTargetAddr read c =
     then_full read 1 c (\<lambda>head c1.
       if head ! 0 = 1 then
         then_full read (4 + 2) c1 (\<lambda>buf c2. Some (Return \<lparr>de_Address = IPAddress (take 4 buf), de_Port = port_of (drop 4 buf)\<rparr>, c2))
       else if head ! 0 = 4 then
         then_full read (16 + 2) c1 (\<lambda>buf c2. Some (Return \<lparr>de_Address = IPAddress (take 16 buf), de_Port = port_of (drop 16 buf)\<rparr>, c2))
       else if head ! 0 = 3 then
         then_full read 1 c1 (\<lambda>l c2.
           then_full read (unat (l ! 0) + 2) c2 (\<lambda>buf c3.
             Some (Return \<lparr>de_Address = Domain (take (unat (l ! 0)) buf), de_Port = port_of (drop (unat (l ! 0)) buf)\<rparr>, c3)))
       else Some (Error ''ssr: bad address type'', c1))"

text \<open>The handshake of a connection that speaks \<open>auth_aes128\<close>, on the decrypted stream: the user's id and the destination.\<close>

definition ssr_handshake ::
  "auth_lib \<Rightarrow> user_lookup \<Rightarrow> nat \<Rightarrow> bytes \<Rightarrow> bytes \<Rightarrow> bytes \<Rightarrow> ((string \<times> Destination) outcome \<times> authAES128) option" where
  "ssr_handshake L lookup avail stream iv key =
     (case readTargetAddr (auth_Read L lookup avail) (newAuthAES128 stream iv key) of
        None \<Rightarrow> None
      | Some (Return addr, a) \<Rightarrow> Some (Return (aa_uuid a, addr), a)
      | Some (Error e, a) \<Rightarrow> Some (Error e, a)
      | Some (Panic p, a) \<Rightarrow> Some (Panic p, a))"

end
