(* ===== verification/Ssr_Chain.thy ===== *)
theory Ssr_Chain
  imports Ssr_Auth
begin

text \<open>
  The ShadowsocksR protocols \<open>auth_chain_a\<close> and \<open>auth_chain_b\<close> (\<open>common/ssr/authchain.go\<close>): every frame carries a padding whose length and place
  come from a generator that is seeded with the code of the frame before. As in \<open>Ssr_Auth\<close> the stream below is the decrypted stream after
  the IV, and codes, hashes, base64 and the AES-CBC decryption are arguments; the generator and RC4 are written out.
\<close>

unbundle bit_operations_syntax

section \<open>The generator\<close>

record xorShift128Plus =
  xs_s0 :: "64 word"
  xs_s1 :: "64 word"

definition next_rand :: "xorShift128Plus \<Rightarrow> 64 word \<times> xorShift128Plus" where
  "next_rand r =
     (let x = xs_s0 r; y = xs_s1 r;
          x1 = x XOR push_bit 23 x;
          x2 = x1 XOR (y XOR drop_bit 17 x1 XOR drop_bit 26 y)
      in (x2 + y, \<lparr>xs_s0 = y, xs_s1 = x2\<rparr>))"

text \<open>\<open>next() % n\<close>.\<close>

definition next_mod :: "nat \<Rightarrow> xorShift128Plus \<Rightarrow> nat \<times> xorShift128Plus" where
  "next_mod n r = (case next_rand r of (v, r1) \<Rightarrow> (unat v mod n, r1))"

definition le64 :: "bytes \<Rightarrow> 64 word" where
  "le64 b = word_of_nat (\<Sum>i\<leftarrow>[0..<8]. unat (b ! i) * 256 ^ i)"

definition full16 :: "bytes \<Rightarrow> bytes" where
  "full16 b = take 16 (b @ replicate 16 0)"

definition initFromBin :: "bytes \<Rightarrow> xorShift128Plus" where
  "initFromBin b = \<lparr>xs_s0 = le64 (take 8 (full16 b)), xs_s1 = le64 (take 8 (drop 8 (full16 b)))\<rparr>"

text \<open>The length overwrites the first two bytes; four numbers are thrown away.\<close>

definition initFromBinAndLength :: "bytes \<Rightarrow> nat \<Rightarrow> xorShift128Plus" where
  "initFromBinAndLength b n = ((\<lambda>r. snd (next_rand r)) ^^ 4) (initFromBin (putle16 n @ drop 2 (full16 b)))"

definition getRandStartPos :: "nat \<Rightarrow> xorShift128Plus \<Rightarrow> nat \<times> xorShift128Plus" where
  "getRandStartPos randLen r = (if randLen = 0 then (0, r) else (case next_mod 8589934609 r of (v, r1) \<Rightarrow> (v mod randLen, r1)))"

section \<open>RC4\<close>

record rc4_Cipher =
  rc4_s :: bytes
  rc4_i :: byte
  rc4_j :: byte

definition swap_at :: "nat \<Rightarrow> nat \<Rightarrow> bytes \<Rightarrow> bytes" where
  "swap_at i j s = s[i := s ! j, j := s ! i]"

fun rc4_schedule :: "bytes \<Rightarrow> nat list \<Rightarrow> byte \<Rightarrow> bytes \<Rightarrow> bytes" where
  "rc4_schedule key [] j s = s"
| "rc4_schedule key (i # is') j s =
     (let j1 = j + s ! i + key ! (i mod length key) in rc4_schedule key is' j1 (swap_at i (unat j1) s))"

definition rc4_NewCipher :: "bytes \<Rightarrow> rc4_Cipher" where
  "rc4_NewCipher key = \<lparr>rc4_s = rc4_schedule key [0..<256] 0 (map word_of_nat [0..<256]), rc4_i = 0, rc4_j = 0\<rparr>"

definition rc4_next :: "rc4_Cipher \<Rightarrow> byte \<times> rc4_Cipher" where
  "rc4_next c =
     (let i = rc4_i c + 1; x = rc4_s c ! unat i; j = rc4_j c + x; y = rc4_s c ! unat j; s = swap_at (unat i) (unat j) (rc4_s c)
      in (s ! unat (x + y), \<lparr>rc4_s = s, rc4_i = i, rc4_j = j\<rparr>))"

fun XORKeyStream :: "bytes \<Rightarrow> rc4_Cipher \<Rightarrow> bytes \<times> rc4_Cipher" where
  "XORKeyStream [] c = ([], c)"
| "XORKeyStream (b # bs) c =
     (case rc4_next c of (k, c1) \<Rightarrow> (case XORKeyStream bs c1 of (ds, c2) \<Rightarrow> ((b XOR k) # ds, c2)))"

section \<open>Connections\<close>

record authChain =
  ac_stream :: bytes
  ac_iv :: bytes
  ac_cipherKey :: bytes
  ac_salt :: string
  ac_overhead :: nat
  ac_dsl :: "nat list"
  ac_dsl2 :: "nat list"
  ac_uuid :: string
  ac_userKey :: bytes
  ac_lastClientHash :: bytes
  ac_lastServerHash :: bytes
  ac_rc4dec :: "rc4_Cipher option"
  ac_rc4enc :: "rc4_Cipher option"
  ac_randClient :: xorShift128Plus
  ac_randServer :: xorShift128Plus
  ac_recvID :: "32 word"
  ac_packID :: "32 word"
  ac_sentFirst :: bool
  ac_gotHdr :: bool
  ac_acc :: bytes
  ac_rbuf :: bytes

definition zero_rand :: xorShift128Plus where "zero_rand = \<lparr>xs_s0 = 0, xs_s1 = 0\<rparr>"

definition data_size :: "xorShift128Plus \<Rightarrow> nat \<times> xorShift128Plus" where
  "data_size r = (case next_rand r of (v, r1) \<Rightarrow> (unat v mod 2340 mod 2040 mod 1440, r1))"

fun data_sizes :: "nat \<Rightarrow> xorShift128Plus \<Rightarrow> nat list \<times> xorShift128Plus" where
  "data_sizes 0 r = ([], r)"
| "data_sizes (Suc n) r = (case data_size r of (v, r1) \<Rightarrow> (case data_sizes n r1 of (vs, r2) \<Rightarrow> (v # vs, r2)))"

definition newAuthChain :: "bytes \<Rightarrow> bytes \<Rightarrow> bytes \<Rightarrow> string \<Rightarrow> authChain" where
  "newAuthChain stream iv cipherKey salt =
     (let a = \<lparr>ac_stream = stream, ac_iv = iv, ac_cipherKey = cipherKey, ac_salt = salt, ac_overhead = 4, ac_dsl = [], ac_dsl2 = [], ac_uuid = [],
               ac_userKey = [], ac_lastClientHash = [], ac_lastServerHash = [], ac_rc4dec = None, ac_rc4enc = None, ac_randClient = zero_rand,
               ac_randServer = zero_rand, ac_recvID = 0, ac_packID = 0, ac_sentFirst = False, ac_gotHdr = False, ac_acc = [], ac_rbuf = []\<rparr>
      in if salt = ''auth_chain_b'' then
           (let (n, r1) = next_mod 8 (initFromBin cipherKey); (l, r2) = data_sizes (n + 4) r1;
                (n2, r3) = next_mod 16 r2; (l2, r4) = data_sizes (n2 + 8) r3
            in a\<lparr>ac_dsl := sort l, ac_dsl2 := sort l2\<rparr>)
         else a)"

section \<open>Lengths of paddings\<close>

text \<open>\<open>sort.Search\<close>: the bisection of the library.\<close>

function search_between :: "(nat \<Rightarrow> bool) \<Rightarrow> nat \<Rightarrow> nat \<Rightarrow> nat" where
  "search_between f i j =
     (if i < j then (let h = (i + j) div 2 in if \<not> f h then search_between f (h + 1) j else search_between f i h) else i)"
  by pat_completeness auto
termination by (relation "measure (\<lambda>(f, i, j). j - i)") auto

declare search_between.simps [simp del]

definition sort_Search :: "nat \<Rightarrow> (nat \<Rightarrow> bool) \<Rightarrow> nat" where
  "sort_Search n f = search_between f 0 n"

definition short_rand :: "nat \<Rightarrow> xorShift128Plus \<Rightarrow> nat \<times> xorShift128Plus" where
  "short_rand n r = next_mod (if 1300 < n then 31 else if 900 < n then 127 else if 400 < n then 521 else 1021) r"

definition getRandLenB :: "authChain \<Rightarrow> nat \<Rightarrow> bytes \<Rightarrow> xorShift128Plus \<Rightarrow> (int \<times> xorShift128Plus) outcome" where
  "getRandLenB a n lastHash r0 =
     (if 1440 \<le> n then Return (0, r0)
      else if ac_dsl a = [] then Panic ''integer divide by zero''
      else
        (let dsl = ac_dsl a; dsl2 = ac_dsl2 a; ov = ac_overhead a;
             pos = sort_Search (length dsl) (\<lambda>i. n + ov \<le> dsl ! i);
             (k, r1) = next_mod (length dsl) (initFromBinAndLength lastHash n)
         in if pos + k < length dsl then Return (int (dsl ! (pos + k)) - int n - int ov, r1)
            else if dsl2 = [] then Panic ''integer divide by zero''
            else
              (let pos2 = sort_Search (length dsl2) (\<lambda>i. n + ov \<le> dsl2 ! i);
                   (k2, r2) = next_mod (length dsl2) r1
               in if pos2 + k2 < length dsl2 then Return (int (dsl2 ! (pos2 + k2)) - int n - int ov, r2)
                  else if int (pos2 + k2) < int pos2 + int (length dsl2) - 1 then Return (0, r2)
                  else (case short_rand n r2 of (v, r3) \<Rightarrow> Return (int v, r3)))))"

definition getRandLen :: "authChain \<Rightarrow> nat \<Rightarrow> bytes \<Rightarrow> xorShift128Plus \<Rightarrow> (int \<times> xorShift128Plus) outcome" where
  "getRandLen a n lastHash r =
     (if ac_salt a = ''auth_chain_b'' then getRandLenB a n lastHash r
      else if 1440 < n then Return (0, r)
      else (case short_rand n (initFromBinAndLength lastHash n) of (v, r1) \<Rightarrow> Return (int v, r1)))"

section \<open>The header\<close>

definition text_bytes :: "string \<Rightarrow> bytes" where
  "text_bytes s = map (\<lambda>c. of_char c) s"

definition session_key :: "auth_lib \<Rightarrow> bytes \<Rightarrow> bytes \<Rightarrow> bytes" where
  "session_key L uk h = the (kdf (al_md5 L) (al_base64 L uk @ al_base64 L h) 16)"

definition chain_decodeHeader :: "auth_lib \<Rightarrow> user_lookup \<Rightarrow> authChain \<Rightarrow> unit outcome \<times> authChain" where
  "chain_decodeHeader L lookup a =
     (let b = ac_acc a in
      if length b < 36 then (Error errNeedMore, a)
      else
        (let h = al_hmac L (ac_iv a @ ac_cipherKey a) (take 4 b); a1 = a\<lparr>ac_lastClientHash := h\<rparr> in
         if take 8 h \<noteq> take 8 (drop 4 b) then (Error ''ssr: auth_chain checkHead hmac mismatch'', a1)
         else
           (case lookup (le32 (take 4 (drop 12 b)) XOR le32 (take 4 (drop 8 h))) of
              None \<Rightarrow> (Error ''ssr: unknown userID'', a1)
            | Some (uk, uuid) \<Rightarrow>
                (let c = rc4_NewCipher (session_key L uk h);
                     a2 = a1\<lparr>ac_userKey := uk, ac_uuid := uuid, ac_rc4dec := Some c, ac_rc4enc := Some c\<rparr> in
                 case al_cbc L (the (kdf (al_md5 L) (al_base64 L uk @ text_bytes (ac_salt a)) 16)) (take 16 (drop 16 b)) of
                   Inl e \<Rightarrow> (Error e, a2)
                 | Inr dec \<Rightarrow>
                     (let ov = le16 (dec ! 12) (dec ! 13); a3 = (if ov < 256 then a2\<lparr>ac_overhead := ov\<rparr> else a2);
                          sh = al_hmac L uk (take 20 (drop 12 b)); a4 = a3\<lparr>ac_lastServerHash := sh\<rparr> in
                      if take 4 sh \<noteq> take 4 (drop 32 b) then (Error ''ssr: auth_chain server hash mismatch'', a4)
                      else (Return (), a4\<lparr>ac_recvID := 1, ac_packID := 1, ac_acc := drop 36 b, ac_gotHdr := True\<rparr>))))))"

section \<open>Data frames\<close>

text \<open>One turn of the loop of \<open>decodeData\<close>: a frame is decoded (\<open>True\<close>), or more bytes are needed (\<open>False\<close>).\<close>

definition decode_one :: "auth_lib \<Rightarrow> authChain \<Rightarrow> bool outcome \<times> authChain" where
  "decode_one L a =
     (let b = ac_acc a; h = ac_lastClientHash a in
      if length b \<le> 4 then (Return False, a)
      else
        (let n = unat (word_of_nat (le16 (b ! 0) (b ! 1)) XOR word_of_nat (le16 (h ! 14) (h ! 15)) :: 16 word) in
         case getRandLen a n h (ac_randClient a) of
           Error e \<Rightarrow> (Error e, a)
         | Panic p \<Rightarrow> (Panic p, a)
         | Return (randLen, rc) \<Rightarrow>
             (let a1 = a\<lparr>ac_randClient := rc\<rparr>; len = int n + randLen; m = nat len in
              if randLen < 0 \<or> len < 0 then (Error ''ssr: auth_chain bad length'', a1)
              else if 4096 \<le> len then (Error ''ssr: auth_chain length error'', a1)
              else if length b < 4 + m then (Return False, a1)
              else
                (let h1 = al_hmac L (mac_key (ac_userKey a) (ac_recvID a)) (take (m + 2) b) in
                 if take 2 h1 \<noteq> take 2 (drop (m + 2) b) then (Error ''ssr: auth_chain data hmac mismatch'', a1)
                 else
                   (let (sp, rc2) = (if 0 < n \<and> 0 < randLen then getRandStartPos (nat randLen) rc else (0, rc));
                        a2 = a1\<lparr>ac_lastClientHash := h1, ac_randClient := rc2\<rparr> in
                    case (slice_of b (2 + sp) (2 + sp + n), ac_rc4dec a) of
                      (Return d, Some c) \<Rightarrow>
                        (case XORKeyStream d c of (wanted, c1) \<Rightarrow>
                           (Return True, a2\<lparr>ac_rc4dec := Some c1, ac_rbuf := ac_rbuf a @ wanted, ac_recvID := ac_recvID a + 1, ac_acc := drop (m + 4) b\<rparr>))
                    | (Return d, None) \<Rightarrow> (Panic ''nil pointer dereference'', a2)
                    | (Error e, x) \<Rightarrow> (Error e, a2)
                    | (Panic p, x) \<Rightarrow> (Panic p, a2))))))"

lemma decode_one_less: "decode_one L a = (Return True, a1) \<Longrightarrow> length (ac_acc a1) < length (ac_acc a)"
  by (auto simp: decode_one_def Let_def split: if_splits outcome.splits prod.splits option.splits)

function chain_decodeData :: "auth_lib \<Rightarrow> authChain \<Rightarrow> unit outcome \<times> authChain" where
  "chain_decodeData L a =
     (case decode_one L a of
        (Return True, a1) \<Rightarrow> chain_decodeData L a1
      | (Return False, a1) \<Rightarrow> (Return (), a1)
      | (Error e, a1) \<Rightarrow> (Error e, a1)
      | (Panic p, a1) \<Rightarrow> (Panic p, a1))"
  by pat_completeness auto
termination by (relation "measure (\<lambda>(L, a). length (ac_acc a))") (auto dest: decode_one_less [OF sym])

declare chain_decodeData.simps [simp del]

section \<open>Reading\<close>

definition chain_pump :: "auth_lib \<Rightarrow> user_lookup \<Rightarrow> nat \<Rightarrow> authChain \<Rightarrow> unit outcome \<times> authChain" where
  "chain_pump L lookup avail a0 =
     (let n = min 8192 (Suc avail);
          err = (if ac_stream a0 = [] then Error ''EOF'' else Return ());
          a = a0\<lparr>ac_acc := ac_acc a0 @ take n (ac_stream a0), ac_stream := drop n (ac_stream a0)\<rparr>;
          (r, a1) = (if ac_gotHdr a then (Return (), a) else chain_decodeHeader L lookup a)
      in case r of
           Error e \<Rightarrow> (if e = errNeedMore then err else Error e, a1)
         | Panic p \<Rightarrow> (Panic p, a1)
         | Return u \<Rightarrow>
             (case chain_decodeData L a1 of (Return u, a2) \<Rightarrow> (err, a2) | (Error e, a2) \<Rightarrow> (Error e, a2) | (Panic p, a2) \<Rightarrow> (Panic p, a2)))"

lemma chain_decodeHeader_stream: "ac_stream (snd (chain_decodeHeader L lookup a)) = ac_stream a"
  by (simp add: chain_decodeHeader_def Let_def split: option.split sum.split)

lemma decode_one_stream: "decode_one L a = (r, a1) \<Longrightarrow> ac_stream a1 = ac_stream a"
  by (auto simp: decode_one_def Let_def split: if_splits outcome.splits prod.splits option.splits)

lemma chain_decodeData_stream: "ac_stream (snd (chain_decodeData L a)) = ac_stream a"
proof (induction L a rule: chain_decodeData.induct)
  case (1 L a)
  obtain r a1 where d: "decode_one L a = (r, a1)" by force
  show ?case using 1 [OF d [symmetric]] decode_one_stream [OF d] by (subst chain_decodeData.simps) (auto simp: d split: outcome.split bool.split)
qed

lemma chain_pump_less:
  assumes p: "chain_pump L lookup avail a = (Return u, a')"
  shows "length (ac_stream a') < length (ac_stream a)"
proof -
  define n where "n = min 8192 (Suc avail)"
  define b where "b = a\<lparr>ac_acc := ac_acc a @ take n (ac_stream a), ac_stream := drop n (ac_stream a)\<rparr>"
  obtain r a1 where h: "(if ac_gotHdr b then (Return (), b) else chain_decodeHeader L lookup b) = (r, a1)" by force
  have s1: "ac_stream a1 = drop n (ac_stream a)"
    using h chain_decodeHeader_stream [of L lookup b] by (auto simp: b_def split: if_splits)
  obtain r2 a2 where d: "chain_decodeData L a1 = (r2, a2)" by force
  have s2: "ac_stream a2 = drop n (ac_stream a)" using chain_decodeData_stream [of L a1] d s1 by simp
  have q: "(case r of Error e \<Rightarrow> (if e = errNeedMore then (if ac_stream a = [] then Error ''EOF'' else Return ()) else Error e, a1)
             | Panic q \<Rightarrow> (Panic q, a1)
             | Return u \<Rightarrow> (case r2 of Return u \<Rightarrow> (if ac_stream a = [] then Error ''EOF'' else Return (), a2) | Error e \<Rightarrow> (Error e, a2) | Panic q \<Rightarrow> (Panic q, a2)))
           = (Return u, a')"
    using p unfolding chain_pump_def Let_def n_def [symmetric] b_def [symmetric] h case_prod_conv d by (cases r; cases r2; simp)
  have "ac_stream a \<noteq> []" and "ac_stream a' = drop n (ac_stream a)"
    using q s1 s2 by (cases r; cases r2; simp split: if_splits; blast)+
  moreover have "0 < n" by (simp add: n_def)
  ultimately show ?thesis by (cases "ac_stream a") auto
qed

function chain_fill :: "auth_lib \<Rightarrow> user_lookup \<Rightarrow> nat \<Rightarrow> authChain \<Rightarrow> unit outcome \<times> authChain" where
  "chain_fill L lookup avail a =
     (if ac_rbuf a \<noteq> [] then (Return (), a)
      else
        (case chain_pump L lookup avail a of
           (Return u, a1) \<Rightarrow> chain_fill L lookup avail a1
         | (Error e, a1) \<Rightarrow> (if ac_rbuf a1 = [] then (Error e, a1) else (Return (), a1))
         | (Panic p, a1) \<Rightarrow> (Panic p, a1)))"
  by pat_completeness auto
termination by (relation "measure (\<lambda>(L, l, v, a). length (ac_stream a))") (auto dest: chain_pump_less [OF sym])

declare chain_fill.simps [simp del]

definition chain_Read :: "auth_lib \<Rightarrow> user_lookup \<Rightarrow> nat \<Rightarrow> nat \<Rightarrow> authChain \<Rightarrow> bytes outcome \<times> authChain" where
  "chain_Read L lookup avail k a =
     (case chain_fill L lookup avail a of
        (Return u, a1) \<Rightarrow> (Return (take k (ac_rbuf a1)), a1\<lparr>ac_rbuf := drop k (ac_rbuf a1)\<rparr>)
      | (Error e, a1) \<Rightarrow> (Error e, a1)
      | (Panic p, a1) \<Rightarrow> (Panic p, a1))"

section \<open>Writing\<close>

text \<open>A frame: the hidden length, the encrypted data inside the padding, and the code that seeds the next frame.\<close>

definition packOne :: "auth_lib \<Rightarrow> bytes \<Rightarrow> authChain \<Rightarrow> (bytes \<times> authChain) outcome" where
  "packOne L data a =
     (case ac_rc4enc a of
        None \<Rightarrow> Panic ''nil pointer dereference''
      | Some c \<Rightarrow>
          if length (ac_lastServerHash a) < 16 then Panic ''slice bounds out of range''
          else
            (let (buf, c1) = XORKeyStream data c; h = ac_lastServerHash a;
                 lb = putle16 (unat (word_of_nat (length buf) XOR word_of_nat (le16 (h ! 14) (h ! 15)) :: 16 word)) in
             obind (getRandLen a (length buf) h (ac_randServer a)) (\<lambda>(randLen, r1).
               let (body, r2) =
                 (if buf = [] then (replicate (nat randLen) 0, r1)
                  else if 0 < randLen
                  then (case getRandStartPos (nat randLen) r1 of (sp, r2) \<Rightarrow> (replicate sp 0 @ buf @ replicate (nat randLen - sp) 0, r2))
                  else (buf, r1));
                   h1 = al_hmac L (mac_key (ac_userKey a) (ac_packID a)) (lb @ body)
               in if buf = [] \<and> randLen < 0 then Panic ''makeslice: len out of range''
                  else Return (lb @ body @ take 2 h1,
                          a\<lparr>ac_rc4enc := Some c1, ac_packID := ac_packID a + 1, ac_randServer := r2, ac_lastServerHash := h1\<rparr>))))"

function pack_all :: "auth_lib \<Rightarrow> bytes \<Rightarrow> authChain \<Rightarrow> (bytes \<times> authChain) outcome" where
  "pack_all L data a =
     (if 2800 < length data then
        obind (packOne L (take 2800 data) a) (\<lambda>(f, a1). obind (pack_all L (drop 2800 data) a1) (\<lambda>(fs, a2). Return (f @ fs, a2)))
      else if data \<noteq> [] then packOne L data a
      else Return ([], a))"
  by pat_completeness auto
termination by (relation "measure (\<lambda>(L, data, a). length data)") auto

declare pack_all.simps [simp del]

text \<open>\<open>w\<close> is the answer of the connection below; with the count and the error the bytes that were sent are returned.\<close>

definition chain_Write ::
  "auth_lib \<Rightarrow> (bytes \<Rightarrow> goerror option) \<Rightarrow> bytes \<Rightarrow> authChain \<Rightarrow> ((nat \<times> goerror option) \<times> bytes \<times> authChain) outcome" where
  "chain_Write L w p a =
     obind (pack_all L (if ac_sentFirst a then p else [0, 0] @ p) (a\<lparr>ac_sentFirst := True\<rparr>)) (\<lambda>(out, a1).
       case w out of Some e \<Rightarrow> Return ((0, Some e), [], a1) | None \<Rightarrow> Return ((length p, None), out, a1))"

text \<open>The handshake of a connection that speaks \<open>auth_chain\<close>.\<close>

definition chain_handshake ::
  "auth_lib \<Rightarrow> user_lookup \<Rightarrow> nat \<Rightarrow> bytes \<Rightarrow> bytes \<Rightarrow> bytes \<Rightarrow> string \<Rightarrow> ((string \<times> Destination) outcome \<times> authChain) option" where
  "chain_handshake L lookup avail stream iv key salt =
     (case readTargetAddr (chain_Read L lookup avail) (newAuthChain stream iv key salt) of
        None \<Rightarrow> None
      | Some (Return addr, a) \<Rightarrow> Some (Return (ac_uuid a, addr), a)
      | Some (Error e, a) \<Rightarrow> Some (Error e, a)
      | Some (Panic p, a) \<Rightarrow> Some (Panic p, a))"

end
