(* ===== verification/Ssr_Stream.thy ===== *)
theory Ssr_Stream
  imports Ssr_Chain
begin

text \<open>
  The two layers below the ShadowsocksR protocols: the obfs plugin \<open>tls1.2_ticket_auth\<close> (\<open>common/ssr/obfs.go\<close>), which hides the stream in TLS records, and
  the cipher stream with its IV (\<open>common/ssr/stream.go\<close>, \<open>cipher.go\<close>). The block ciphers and ChaCha20 are arguments; RC4 is the one of
  \<open>Ssr_Chain\<close>. The socket is the list of the bytes to come, a read gives at most \<open>Suc avail\<close> of them; the cipher stream works over any reader.
\<close>

section \<open>The TLS records of the plugin\<close>

record obfs_env =
  oe_hmacSHA1 :: "bytes \<Rightarrow> bytes \<Rightarrow> bytes"
  oe_time :: "32 word"
  oe_rand18 :: "goerror + bytes"
  oe_rand22 :: "goerror + bytes"
  oe_answer :: "bytes \<Rightarrow> goerror option"

record tlsTicketObfs =
  tk_conn :: bytes
  tk_sent :: bytes
  tk_key :: bytes
  tk_clientID :: bytes
  tk_sentHello :: bool
  tk_raw :: bytes
  tk_dec :: bytes

definition new_tlsTicketObfs :: "bytes \<Rightarrow> bytes \<Rightarrow> tlsTicketObfs" where
  "new_tlsTicketObfs conn key = \<lparr>tk_conn = conn, tk_sent = [], tk_key = key, tk_clientID = [], tk_sentHello = False, tk_raw = [], tk_dec = []\<rparr>"

definition hmac10 :: "obfs_env \<Rightarrow> tlsTicketObfs \<Rightarrow> bytes \<Rightarrow> bytes" where
  "hmac10 E t data = take 10 (oe_hmacSHA1 E (tk_key t @ tk_clientID t) data)"

definition putbe32 :: "32 word \<Rightarrow> bytes" where
  "putbe32 w = rev (putle32 w)"

text \<open>The server's random is the time, 18 random bytes and a code over both; the code of the last record covers everything before it.\<close>

definition server_hello_bytes :: "obfs_env \<Rightarrow> tlsTicketObfs \<Rightarrow> bytes \<Rightarrow> bytes" where
  "server_hello_bytes E t r18 =
     (let rnd = putbe32 (oe_time E) @ r18;
          body = [3, 3] @ rnd @ hmac10 E t rnd @ [0x20] @ tk_clientID t @ [0xc0, 0x2f, 0, 0, 5, 0xff, 1, 0, 1, 0];
          hs = [2, 0] @ put16 (length body) @ body
      in [0x16, 3, 3] @ put16 (length hs) @ hs @ [0x14, 3, 3, 0, 1, 1])"

definition sendServerHello :: "obfs_env \<Rightarrow> tlsTicketObfs \<Rightarrow> unit outcome \<times> tlsTicketObfs" where
  "sendServerHello E t =
     (case oe_rand18 E of
        Inl e \<Rightarrow> (Error e, t)
      | Inr r18 \<Rightarrow>
          (case oe_rand22 E of
             Inl e \<Rightarrow> (Error e, t)
           | Inr fin \<Rightarrow>
               (let out = server_hello_bytes E t r18 @ [0x16, 3, 3, 0, 0x20] @ fin; msg = out @ hmac10 E t out
                in case oe_answer E msg of Some e \<Rightarrow> (Error e, t) | None \<Rightarrow> (Return (), t\<lparr>tk_sent := tk_sent t @ msg\<rparr>))))"

definition doHandshake :: "obfs_env \<Rightarrow> tlsTicketObfs \<Rightarrow> unit outcome \<times> tlsTicketObfs" where
  "doHandshake E t =
     (let b = tk_raw t; recLen = be16 (b ! 3) (b ! 4) in
      if length b < 5 then (Error errNeedMore, t)
      else if b ! 0 \<noteq> 0x16 then (Error ''ssr: tls obfs bad clienthello type'', t)
      else if length b < 5 + recLen then (Error errNeedMore, t)
      else if recLen < 71 then (Error ''ssr: tls obfs malformed clienthello'', t)
      else
        (case byte_at b 43 of
           Panic p \<Rightarrow> (Panic p, t)
         | Error e \<Rightarrow> (Error e, t)
         | Return x \<Rightarrow>
             if x \<noteq> 0x20 then (Error ''ssr: tls obfs malformed clienthello'', t)
             else
               (case slice_of b 44 76 of
                  Panic p \<Rightarrow> (Panic p, t)
                | Error e \<Rightarrow> (Error e, t)
                | Return cid \<Rightarrow>
                    (case sendServerHello E (t\<lparr>tk_clientID := cid, tk_raw := drop (5 + recLen) b\<rparr>) of
                       (Return u, t1) \<Rightarrow> (Return (), t1\<lparr>tk_sentHello := True\<rparr>)
                     | (Error e, t1) \<Rightarrow> (Error e, t1)
                     | (Panic p, t1) \<Rightarrow> (Panic p, t1)))))"

text \<open>\<open>drain\<close>: complete records are taken off; application data go to the decoded bytes.\<close>

function drain :: "tlsTicketObfs \<Rightarrow> unit outcome \<times> tlsTicketObfs" where
  "drain t =
     (let b = tk_raw t; typ = b ! 0; size = be16 (b ! 3) (b ! 4) in
      if length b < 5 \<or> length b < 5 + size then (Return (), t)
      else
        (let t1 = t\<lparr>tk_raw := drop (5 + size) b\<rparr> in
         if typ = 0x17 then drain (t1\<lparr>tk_dec := tk_dec t @ take size (drop 5 b)\<rparr>)
         else if typ = 0x14 \<or> typ = 0x16 then drain t1
         else (Error ''ssr: tls obfs bad record type'', t1)))"
  by pat_completeness auto
termination by (relation "measure (\<lambda>t. length (tk_raw t))") auto

declare drain.simps [simp del]

lemma drain_conn: "tk_conn (snd (drain t)) = tk_conn t"
proof (induction t rule: drain.induct)
  case (1 t)
  then show ?case by (subst drain.simps) (auto simp: Let_def)
qed

section \<open>Reading and writing through the plugin\<close>

text \<open>A turn of the loop of \<open>Read\<close>: \<open>None\<close> when the loop goes on.\<close>

definition give :: "nat \<Rightarrow> tlsTicketObfs \<Rightarrow> bytes outcome \<times> tlsTicketObfs" where
  "give k t = (Return (take k (tk_dec t)), t\<lparr>tk_dec := drop k (tk_dec t)\<rparr>)"

definition before_read :: "nat \<Rightarrow> tlsTicketObfs \<Rightarrow> (bytes outcome \<times> tlsTicketObfs) option \<times> tlsTicketObfs" where
  "before_read k t =
     (if tk_dec t \<noteq> [] then (Some (give k t), t)
      else if tk_sentHello t then
        (case drain t of
           (Error e, t1) \<Rightarrow> (Some (Error e, t1), t1)
         | (Panic p, t1) \<Rightarrow> (Some (Panic p, t1), t1)
         | (Return u, t1) \<Rightarrow> (if tk_dec t1 \<noteq> [] then Some (give k t1) else None, t1))
      else (None, t))"

definition after_read :: "obfs_env \<Rightarrow> nat \<Rightarrow> nat \<Rightarrow> tlsTicketObfs \<Rightarrow> (bytes outcome \<times> tlsTicketObfs) option \<times> tlsTicketObfs" where
  "after_read E avail k t0 =
     (let n = min 16384 (Suc avail); eof = (tk_conn t0 = []);
          t1 = t0\<lparr>tk_raw := tk_raw t0 @ take n (tk_conn t0), tk_conn := drop n (tk_conn t0)\<rparr>;
          (herr, t2) = (if tk_sentHello t1 then (Return (), t1) else doHandshake E t1);
          ended = (if \<not> eof then (None, t2)
                   else if tk_sentHello t2 then
                     (let t3 = snd (drain t2) in (Some (if tk_dec t3 \<noteq> [] then give k t3 else (Error ''EOF'', t3)), t3))
                   else (Some (Error ''EOF'', t2), t2))
      in case herr of
           Panic p \<Rightarrow> (Some (Panic p, t2), t2)
         | Error e \<Rightarrow> if e \<noteq> errNeedMore then (Some (Error e, t2), t2) else ended
         | Return u \<Rightarrow> ended)"

lemma doHandshake_conn: "tk_conn (snd (doHandshake E t)) = tk_conn t"
  by (simp add: doHandshake_def sendServerHello_def Let_def split: outcome.split sum.split option.split)

lemma before_read_conn: "before_read k t = (r, t1) \<Longrightarrow> tk_conn t1 = tk_conn t"
  using drain_conn [of t] by (auto simp: before_read_def split: if_splits prod.splits outcome.splits)

lemma after_read_less:
  assumes "after_read E avail k t = (None, t1)"
  shows "length (tk_conn t1) < length (tk_conn t)"
proof -
  define n where "n = min 16384 (Suc avail)"
  define u where "u = t\<lparr>tk_raw := tk_raw t @ take n (tk_conn t), tk_conn := drop n (tk_conn t)\<rparr>"
  obtain h t2 where h: "(if tk_sentHello u then (Return (), u) else doHandshake E u) = (h, t2)" by force
  have c: "tk_conn t2 = drop n (tk_conn t)" using h doHandshake_conn [of E u] by (auto simp: u_def split: if_splits)
  have "tk_conn t \<noteq> [] \<and> t1 = t2"
    using assms unfolding after_read_def Let_def n_def [symmetric] u_def [symmetric] h case_prod_conv
    by (auto split: outcome.splits if_splits)
  moreover have "0 < n" by (simp add: n_def)
  ultimately show ?thesis using c by (cases "tk_conn t") auto
qed

function ticket_Read :: "obfs_env \<Rightarrow> nat \<Rightarrow> nat \<Rightarrow> tlsTicketObfs \<Rightarrow> bytes outcome \<times> tlsTicketObfs" where
  "ticket_Read E avail k t =
     (case before_read k t of
        (Some r, t1) \<Rightarrow> r
      | (None, t1) \<Rightarrow>
          (case after_read E avail k t1 of
             (Some r, t2) \<Rightarrow> r
           | (None, t2) \<Rightarrow> ticket_Read E avail k t2))"
  by pat_completeness auto
termination
  by (relation "measure (\<lambda>(E, v, k, t). length (tk_conn t))") (auto dest!: after_read_less [OF sym] before_read_conn [OF sym])

declare ticket_Read.simps [simp del]

text \<open>\<open>Write\<close>: records of at most 16384 bytes, in one write of the socket.\<close>

function tls_records :: "bytes \<Rightarrow> bytes" where
  "tls_records b =
     (if b = [] then []
      else (let n = min (length b) 16384 in [0x17, 3, 3] @ put16 n @ take n b @ tls_records (drop n b)))"
  by pat_completeness auto
termination by (relation "measure length") auto

declare tls_records.simps [simp del]

definition ticket_Write :: "obfs_env \<Rightarrow> bytes \<Rightarrow> tlsTicketObfs \<Rightarrow> (nat \<times> goerror option) \<times> tlsTicketObfs" where
  "ticket_Write E p t =
     (case oe_answer E (tls_records p) of
        Some e \<Rightarrow> ((0, Some e), t)
      | None \<Rightarrow> ((length p, None), t\<lparr>tk_sent := tk_sent t @ tls_records p\<rparr>))"

text \<open>The connections an obfs name stands for: the socket itself or the plugin.\<close>

definition obfsServerConn :: "string \<Rightarrow> bytes \<Rightarrow> bytes \<Rightarrow> goerror + (bytes + tlsTicketObfs)" where
  "obfsServerConn name c key =
     (if name = [] \<or> name = ''plain'' then Inr (Inl c)
      else if name = ''tls1.2_ticket_auth'' \<or> name = ''tls1.2_ticket_fastauth'' then Inr (Inr (new_tlsTicketObfs c key))
      else Inl (''ssr: unsupported obfs '' @ name))"

section \<open>The cipher stream\<close>

record 'k stream_lib =
  sl_cfbEnc :: "bytes \<Rightarrow> bytes \<Rightarrow> goerror + 'k"
  sl_cfbDec :: "bytes \<Rightarrow> bytes \<Rightarrow> goerror + 'k"
  sl_ctr :: "bytes \<Rightarrow> bytes \<Rightarrow> goerror + 'k"
  sl_chacha :: "bytes \<Rightarrow> bytes \<Rightarrow> goerror + 'k"
  sl_md5 :: "bytes \<Rightarrow> bytes"
  sl_xor :: "'k \<Rightarrow> bytes \<Rightarrow> bytes \<times> 'k"

text \<open>A cipher of the library, or RC4.\<close>

type_synonym 'k cipher_state = "'k + rc4_Cipher"

definition stream_xor :: "'k stream_lib \<Rightarrow> 'k cipher_state \<Rightarrow> bytes \<Rightarrow> bytes \<times> 'k cipher_state" where
  "stream_xor L s b =
     (case s of
        Inl k \<Rightarrow> (case sl_xor L k b of (d, k1) \<Rightarrow> (d, Inl k1))
      | Inr c \<Rightarrow> (case XORKeyStream b c of (d, c1) \<Rightarrow> (d, Inr c1)))"

record 'k cipherSpec =
  cs_keySize :: nat
  cs_ivSize :: nat
  cs_newEnc :: "bytes \<Rightarrow> bytes \<Rightarrow> goerror + 'k cipher_state"
  cs_newDec :: "bytes \<Rightarrow> bytes \<Rightarrow> goerror + 'k cipher_state"

definition lib_cipher :: "(bytes \<Rightarrow> bytes \<Rightarrow> goerror + 'k) \<Rightarrow> bytes \<Rightarrow> bytes \<Rightarrow> goerror + 'k cipher_state" where
  "lib_cipher f key iv = (case f key iv of Inl e \<Rightarrow> Inl e | Inr k \<Rightarrow> Inr (Inl k))"

definition rc4md5 :: "'k stream_lib \<Rightarrow> bytes \<Rightarrow> bytes \<Rightarrow> goerror + 'k cipher_state" where
  "rc4md5 L key iv = Inr (Inr (rc4_NewCipher (sl_md5 L (key @ iv))))"

definition spec_of :: "nat \<Rightarrow> nat \<Rightarrow> (bytes \<Rightarrow> bytes \<Rightarrow> goerror + 'k cipher_state) \<Rightarrow> (bytes \<Rightarrow> bytes \<Rightarrow> goerror + 'k cipher_state) \<Rightarrow> 'k cipherSpec" where
  "spec_of k i e d = \<lparr>cs_keySize = k, cs_ivSize = i, cs_newEnc = e, cs_newDec = d\<rparr>"

definition cipherSpecs :: "'k stream_lib \<Rightarrow> (string \<times> 'k cipherSpec) list" where
  "cipherSpecs L =
     (let cfb = lib_cipher (sl_cfbEnc L); cfbDec = lib_cipher (sl_cfbDec L); ctr = lib_cipher (sl_ctr L); chacha = lib_cipher (sl_chacha L) in
      [(''aes-128-cfb'', spec_of 16 16 cfb cfbDec), (''aes-192-cfb'', spec_of 24 16 cfb cfbDec), (''aes-256-cfb'', spec_of 32 16 cfb cfbDec),
       (''aes-128-ctr'', spec_of 16 16 ctr ctr), (''aes-192-ctr'', spec_of 24 16 ctr ctr), (''aes-256-ctr'', spec_of 32 16 ctr ctr),
       (''rc4-md5'', spec_of 16 16 (rc4md5 L) (rc4md5 L)), (''chacha20-ietf'', spec_of 32 12 chacha chacha)])"

definition newCipherSpec :: "'k stream_lib \<Rightarrow> string \<Rightarrow> goerror + 'k cipherSpec" where
  "newCipherSpec L name = (case map_of (cipherSpecs L) name of None \<Rightarrow> Inl ''ssr: unsupported cipher'' | Some s \<Rightarrow> Inr s)"

record ('c, 'k) streamConn =
  sm_Conn :: 'c
  sm_spec :: "'k cipherSpec"
  sm_key :: bytes
  sm_readIV :: bytes
  sm_dec :: "'k cipher_state option"
  sm_writeIV :: bytes
  sm_enc :: "'k cipher_state option"

definition newStreamConn :: "'c \<Rightarrow> 'k cipherSpec \<Rightarrow> bytes \<Rightarrow> ('c, 'k) streamConn" where
  "newStreamConn c spec key = \<lparr>sm_Conn = c, sm_spec = spec, sm_key = key, sm_readIV = [], sm_dec = None, sm_writeIV = [], sm_enc = None\<rparr>"

text \<open>\<open>None\<close> stands for a full read of the IV that never gets enough.\<close>

definition initRead :: "(nat \<Rightarrow> 'c \<Rightarrow> bytes outcome \<times> 'c) \<Rightarrow> ('c, 'k) streamConn \<Rightarrow> (unit outcome \<times> ('c, 'k) streamConn) option" where
  "initRead rd c =
     (if sm_dec c \<noteq> None then Some (Return (), c)
      else
        (case io_ReadFull rd (cs_ivSize (sm_spec c)) (sm_Conn c) of
           None \<Rightarrow> None
         | Some (Error e, x) \<Rightarrow> Some (Error e, c\<lparr>sm_Conn := x\<rparr>)
         | Some (Panic p, x) \<Rightarrow> Some (Panic p, c\<lparr>sm_Conn := x\<rparr>)
         | Some (Return iv, x) \<Rightarrow>
             (case cs_newDec (sm_spec c) (sm_key c) iv of
                Inl e \<Rightarrow> Some (Error e, c\<lparr>sm_Conn := x\<rparr>)
              | Inr k \<Rightarrow> Some (Return (), c\<lparr>sm_Conn := x, sm_readIV := iv, sm_dec := Some k\<rparr>))))"

definition ReadIV :: "(nat \<Rightarrow> 'c \<Rightarrow> bytes outcome \<times> 'c) \<Rightarrow> ('c, 'k) streamConn \<Rightarrow> (bytes outcome \<times> ('c, 'k) streamConn) option" where
  "ReadIV rd c =
     (case initRead rd c of
        None \<Rightarrow> None
      | Some (Return u, c1) \<Rightarrow> Some (Return (sm_readIV c1), c1)
      | Some (Error e, c1) \<Rightarrow> Some (Error e, c1)
      | Some (Panic p, c1) \<Rightarrow> Some (Panic p, c1))"

definition streamConn_Read ::
  "'k stream_lib \<Rightarrow> (nat \<Rightarrow> 'c \<Rightarrow> bytes outcome \<times> 'c) \<Rightarrow> nat \<Rightarrow> ('c, 'k) streamConn \<Rightarrow> (bytes outcome \<times> ('c, 'k) streamConn) option" where
  "streamConn_Read L rd k c =
     (case initRead rd c of
        None \<Rightarrow> None
      | Some (Error e, c1) \<Rightarrow> Some (Error e, c1)
      | Some (Panic p, c1) \<Rightarrow> Some (Panic p, c1)
      | Some (Return u, c1) \<Rightarrow>
          (case rd k (sm_Conn c1) of
             (Error e, x) \<Rightarrow> Some (Error e, c1\<lparr>sm_Conn := x\<rparr>)
           | (Panic p, x) \<Rightarrow> Some (Panic p, c1\<lparr>sm_Conn := x\<rparr>)
           | (Return d, x) \<Rightarrow>
               (case sm_dec c1 of
                  None \<Rightarrow> Some (Panic ''nil pointer dereference'', c1\<lparr>sm_Conn := x\<rparr>)
                | Some s \<Rightarrow> (case stream_xor L s d of (p, s1) \<Rightarrow> Some (Return p, c1\<lparr>sm_Conn := x, sm_dec := Some s1\<rparr>)))))"

text \<open>\<open>Write\<close>: \<open>w\<close> answers the writes below, \<open>rnd\<close> is what the system's generator gives for an IV; the writes that were accepted are returned.\<close>

definition send_cipher ::
  "'k stream_lib \<Rightarrow> (bytes \<Rightarrow> goerror option) \<Rightarrow> bytes \<Rightarrow> bytes list \<Rightarrow> 'k cipher_state \<Rightarrow> ('c, 'k) streamConn \<Rightarrow>
     (nat \<times> goerror option) \<times> bytes list \<times> ('c, 'k) streamConn" where
  "send_cipher L w p sent s c =
     (case stream_xor L s p of
        (ct, s1) \<Rightarrow>
          (case w ct of
             Some e \<Rightarrow> ((0, Some e), sent, c\<lparr>sm_enc := Some s1\<rparr>)
           | None \<Rightarrow> ((length p, None), sent @ [ct], c\<lparr>sm_enc := Some s1\<rparr>)))"

definition streamConn_Write ::
  "'k stream_lib \<Rightarrow> (bytes \<Rightarrow> goerror option) \<Rightarrow> (nat \<Rightarrow> goerror + bytes) \<Rightarrow> bytes \<Rightarrow> ('c, 'k) streamConn \<Rightarrow>
     (nat \<times> goerror option) \<times> bytes list \<times> ('c, 'k) streamConn" where
  "streamConn_Write L w rnd p c =
     (case sm_enc c of
        Some s \<Rightarrow> send_cipher L w p [] s c
      | None \<Rightarrow>
          (case rnd (cs_ivSize (sm_spec c)) of
             Inl e \<Rightarrow> ((0, Some e), [], c)
           | Inr iv \<Rightarrow>
               (case w iv of
                  Some e \<Rightarrow> ((0, Some e), [], c)
                | None \<Rightarrow>
                    (case cs_newEnc (sm_spec c) (sm_key c) iv of
                       Inl e \<Rightarrow> ((0, Some e), [iv], c)
                     | Inr s \<Rightarrow> send_cipher L w p [iv] s (c\<lparr>sm_writeIV := iv, sm_enc := Some s\<rparr>)))))"

section \<open>The layers of a connection\<close>

datatype ssr_proto = AuthAES128 bool | AuthChain string

definition proto_of :: "string \<Rightarrow> goerror + ssr_proto" where
  "proto_of name =
     (if name = ''auth_aes128_sha1'' then Inr (AuthAES128 True)
      else if name = ''auth_aes128_md5'' then Inr (AuthAES128 False)
      else if name = ''auth_chain_a'' \<or> name = ''auth_chain_b'' then Inr (AuthChain name)
      else if name = [] \<or> name = ''origin'' then Inl ''ssr: protocol not supported for multi-user''
      else Inl ''ssr: unsupported protocol'')"

text \<open>What \<open>handshake\<close> puts together for a connection before it reads the target address; the plugin is chosen first.\<close>

definition conn_layers ::
  "string \<Rightarrow> string \<Rightarrow> 'k cipherSpec \<Rightarrow> bytes \<Rightarrow> bytes \<Rightarrow> goerror + ((bytes + tlsTicketObfs, 'k) streamConn \<times> ssr_proto)" where
  "conn_layers obfs protocol spec key raw =
     (case obfsServerConn obfs raw key of
        Inl e \<Rightarrow> Inl e
      | Inr c \<Rightarrow> (case proto_of protocol of Inl e \<Rightarrow> Inl e | Inr p \<Rightarrow> Inr (newStreamConn c spec key, p)))"

end
