(* ===== verification/Trojan_Props.thy ===== *)
theory Trojan_Props
  imports Trojan_Framing
begin

text \<open>
  What the Trojan stream guarantees: an AEAD connection keeps the contract of a plain stream, what one side writes the other
  reads, no nonce is used twice, and the request of a client is understood however it was cut into chunks.
\<close>

section \<open>Nonces\<close>

lemma incNonce_length [simp]: "length (incNonce n) = length n"
  by (induction n) auto

lemma incNonces_length [simp]: "length ((incNonce ^^ i) n) = length n"
  by (induction i) auto

fun le_val :: "bytes \<Rightarrow> nat" where
  "le_val [] = 0"
| "le_val (x # xs) = unat x + 256 * le_val xs"

lemma le_val_less: "le_val xs < 256 ^ length xs"
proof (induction xs)
  case (Cons x xs)
  have "unat x < 256" using unsigned_less [of x, where ?'a = nat] by simp
  then have "unat x + 256 * le_val xs < 256 * Suc (le_val xs)" by simp
  also have "\<dots> \<le> 256 * 256 ^ length xs" using Cons.IH by (intro mult_le_mono2) simp
  finally show ?case by simp
qed simp

lemma unat_byte_less: "unat (x :: byte) < 256"
  using unsigned_less [of x, where ?'a = nat] by simp

lemma unat_plus_one: "unat (x + 1 :: byte) = (if x + 1 = 0 then 0 else Suc (unat x))"
  by (metis add.commute unatSuc unsigned_0)

lemma le_val_incNonce: "le_val (incNonce n) = Suc (le_val n) mod 256 ^ length n"
proof (induction n)
  case (Cons x xs)
  show ?case
  proof (cases "x + 1 = 0")
    case True
    then have "(unat x + 1) mod 256 = 0" using unat_word_ariths(1) [of x 1] by simp
    then have x: "unat x = 255" using unat_byte_less [of x] by presburger
    have "Suc (le_val (x # xs)) = 256 * Suc (le_val xs)" by (simp add: x)
    then have "Suc (le_val (x # xs)) mod 256 ^ length (x # xs) = 256 * (Suc (le_val xs) mod 256 ^ length xs)" by (simp only: length_Cons power_Suc mult_mod_right)
    then show ?thesis using True Cons.IH by simp
  next
    case False
    have "Suc (le_val (x # xs)) = le_val (incNonce (x # xs))" using False by (simp add: unat_plus_one)
    moreover have "le_val (incNonce (x # xs)) < 256 ^ length (x # xs)" using le_val_less [of "incNonce (x # xs)"] by (simp del: incNonce.simps)
    ultimately show ?thesis by simp
  qed
qed simp

lemma le_val_incNonces: "le_val ((incNonce ^^ i) n) = (le_val n + i) mod 256 ^ length n"
proof (induction i)
  case 0
  then show ?case using le_val_less [of n] by simp
next
  case (Suc i)
  have "le_val ((incNonce ^^ Suc i) n) = Suc (le_val ((incNonce ^^ i) n)) mod 256 ^ length n" by (simp add: le_val_incNonce)
  then show ?case unfolding Suc by (simp add: mod_Suc_eq)
qed

lemma le_val_inj: "length xs = length ys \<Longrightarrow> le_val xs = le_val ys \<Longrightarrow> xs = ys"
proof (induction xs ys rule: list_induct2)
  case (Cons x xs y ys)
  have "(unat x + 256 * le_val xs) mod 256 = unat x" "(unat y + 256 * le_val ys) mod 256 = unat y"
    using unat_byte_less [of x] unat_byte_less [of y] by simp_all
  then have "unat x = unat y" using Cons.prems by (metis le_val.simps(2))
  with Cons show ?case by (simp add: word_unat_eq_iff)
qed simp

text \<open>
  No nonce is used twice: the nonces a direction of a connection takes, one for each sealed length and one for each sealed
  chunk, are pairwise different for the first \<open>256 ^ size\<close> of them, which for the twelve bytes of all three methods is
  out of reach of any connection; after that many they start again, so the bound is exact.
\<close>

theorem nonces_never_repeat:
  assumes "length n = m"
  shows "inj_on (\<lambda>i. (incNonce ^^ i) n) {..<256 ^ m} \<and> (incNonce ^^ (256 ^ m)) n = n"
proof
  show "inj_on (\<lambda>i. (incNonce ^^ i) n) {..<256 ^ m}"
  proof (rule linorder_inj_onI)
    fix i j :: nat assume ij: "i < j" "i \<in> {..<256 ^ m}" "j \<in> {..<256 ^ m}"
    show "(incNonce ^^ i) n \<noteq> (incNonce ^^ j) n"
    proof
      assume "(incNonce ^^ i) n = (incNonce ^^ j) n"
      then have "(le_val n + j) mod 256 ^ m = (le_val n + i) mod 256 ^ m" using le_val_incNonces assms by metis
      then have "256 ^ m dvd (le_val n + j) - (le_val n + i)" using ij(1) by (subst (asm) mod_eq_dvd_iff_nat) simp_all
      then have "256 ^ m dvd j - i" by simp
      then show False using ij by (auto dest: dvd_imp_le)
    qed
  qed auto
  have "le_val ((incNonce ^^ (256 ^ m)) n) = le_val n" using le_val_less [of n] assms by (simp add: le_val_incNonces)
  then show "(incNonce ^^ (256 ^ m)) n = n" by (rule le_val_inj [rotated]) simp
qed

theorem nonces_never_repeat_witness:
  "inj_on (\<lambda>i. (incNonce ^^ i) (replicate 12 0)) {..<256 ^ 12}"
  using nonces_never_repeat [of "replicate 12 0" 12] by simp


section \<open>The connection as a plain stream\<close>

fun enc :: "aead \<Rightarrow> bytes \<Rightarrow> bytes list \<Rightarrow> bytes" where
  "enc a n [] = []"
| "enc a n (d # ds) = ae_Seal a n (put16 (length d)) @ ae_Seal a (incNonce n) d @ enc a (incNonce (incNonce n)) ds"

definition chunks_ok :: "bytes list \<Rightarrow> bool" where
  "chunks_ok ds \<longleftrightarrow> (\<forall>d\<in>set ds. d \<noteq> [] \<and> length d \<le> maxChunk)"

lemma aead_okD:
  assumes "aead_ok a" and "length n = ae_NonceSize a"
  shows "ae_Open a n (ae_Seal a n p) = Inr p" "length (ae_Seal a n p) = length p + ae_Overhead a"
  using assms by (simp_all add: aead_ok_def)

lemma readChunk_enc:
  assumes "aead_ok a" and "length (sc_rNonce s) = ae_NonceSize a" and "sc_r s = enc a (sc_rNonce s) (d # ds)" and "d \<noteq> []" and "length d \<le> maxChunk"
  shows "readChunk a s = (None, s\<lparr>sc_r := enc a (incNonce (incNonce (sc_rNonce s))) ds, sc_rNonce := incNonce (incNonce (sc_rNonce s)), sc_rbuf := sc_rbuf s @ d\<rparr>)"
proof -
  let ?n = "sc_rNonce s"
  let ?rest = "enc a (incNonce (incNonce ?n)) ds"
  note o1 = aead_okD [OF assms(1,2)]
  have l2: "length (incNonce ?n) = ae_NonceSize a" using assms(2) by simp
  note o2 = aead_okD [OF assms(1) l2]
  have r1: "ReadFull (2 + ae_Overhead a) (sc_r s) = (Inr (ae_Seal a ?n (put16 (length d))), ae_Seal a (incNonce ?n) d @ ?rest)"
    unfolding assms(3) enc.simps by (rule ReadFull_append) (simp add: o1)
  have r2: "ReadFull (length d + ae_Overhead a) (ae_Seal a (incNonce ?n) d @ ?rest) = (Inr (ae_Seal a (incNonce ?n) d), ?rest)"
    by (rule ReadFull_append) (simp add: o2)
  have n: "be16 (put16 (length d) ! 0) (put16 (length d) ! 1) = length d" using assms(5) by (intro be16_put16) (simp add: maxChunk_def)
  have d: "length d \<noteq> 0" "\<not> maxChunk < length d" using assms(4,5) by simp_all
  show ?thesis by (simp add: readChunk_def r1 o1 n [simplified] d [simplified] r2 o2 Let_def del: add_2_eq_Suc)
qed

text \<open>The plain stream a connection stands for: before the salt was read, and afterwards.\<close>

inductive ss_rep :: "subkey \<Rightarrow> ssConn \<Rightarrow> bytes \<Rightarrow> bool" for K where
  start: "\<lbrakk>sc_rAEAD s = None; sc_rbuf s = []; length salt = length (sc_key s); K (sc_method s) (sc_key s) salt = Inr a; aead_ok a; chunks_ok ds;
    sc_r s = salt @ enc a (replicate (ae_NonceSize a) 0) ds\<rbrakk> \<Longrightarrow> ss_rep K s (concat ds)"
| running: "\<lbrakk>sc_rAEAD s = Some a; aead_ok a; length (sc_rNonce s) = ae_NonceSize a; chunks_ok ds; sc_r s = enc a (sc_rNonce s) ds\<rbrakk>
    \<Longrightarrow> ss_rep K s (sc_rbuf s @ concat ds)"

definition ss_reads :: "subkey \<Rightarrow> nat \<Rightarrow> bytes \<Rightarrow> bytes outcome \<times> ssConn \<Rightarrow> bool" where
  "ss_reads K k str res \<longleftrightarrow>
     (if str = [] then \<exists>s'. res = (Error ''EOF'', s')
      else \<exists>d rest s'. res = (Return d, s') \<and> d \<noteq> [] \<and> length d \<le> k \<and> str = d @ rest \<and> ss_rep K s' rest)"

lemma buffered_reads:
  assumes "sc_rAEAD s = Some a" and "aead_ok a" and "length (sc_rNonce s) = ae_NonceSize a" and "chunks_ok ds" and "sc_r s = enc a (sc_rNonce s) ds"
    and "sc_rbuf s \<noteq> []" and "0 < k"
  shows "ss_reads K k (sc_rbuf s @ concat ds) (Return (take k (sc_rbuf s)), s\<lparr>sc_rbuf := drop k (sc_rbuf s)\<rparr>)"
proof -
  let ?s = "s\<lparr>sc_rbuf := drop k (sc_rbuf s)\<rparr>"
  have "ss_rep K ?s (sc_rbuf ?s @ concat ds)" using assms(1-5) by (intro running [of _ a]) simp_all
  moreover have "sc_rbuf s @ concat ds = take k (sc_rbuf s) @ (sc_rbuf ?s @ concat ds)" by simp
  moreover have "take k (sc_rbuf s) \<noteq> []" using assms(6,7) by simp
  ultimately show ?thesis unfolding ss_reads_def using assms(6) by (simp del: append_take_drop_id) (metis append_assoc append_take_drop_id)
qed

lemma running_reads:
  assumes "sc_rAEAD s = Some a" and "aead_ok a" and "length (sc_rNonce s) = ae_NonceSize a" and "chunks_ok ds" and "sc_r s = enc a (sc_rNonce s) ds" and "0 < k"
  shows "ss_reads K k (sc_rbuf s @ concat ds) (ss_Read K k s)"
proof (cases "sc_rbuf s = []")
  case False
  then have "ss_Read K k s = (Return (take k (sc_rbuf s)), s\<lparr>sc_rbuf := drop k (sc_rbuf s)\<rparr>)"
    using assms(1) by (simp add: ss_Read_def fill_chunks.simps [of a s])
  with buffered_reads [OF assms(1-5) False assms(6)] show ?thesis by simp
next
  case True
  show ?thesis
  proof (cases ds)
    case Nil
    then have "readChunk a s = (Some ''EOF'', s\<lparr>sc_r := []\<rparr>)" using assms(5) by (simp add: readChunk_def ReadFull_def)
    then have "ss_Read K k s = (Error ''EOF'', s\<lparr>sc_r := []\<rparr>)" using True assms(1) by (simp add: ss_Read_def fill_chunks.simps [of a s])
    then show ?thesis by (simp add: ss_reads_def True Nil)
  next
    case (Cons d es)
    have d: "d \<noteq> []" "length d \<le> maxChunk" "chunks_ok es" using assms(4) Cons by (auto simp: chunks_ok_def)
    define s1 where "s1 = s\<lparr>sc_r := enc a (incNonce (incNonce (sc_rNonce s))) es, sc_rNonce := incNonce (incNonce (sc_rNonce s)), sc_rbuf := d\<rparr>"
    have "readChunk a s = (None, s1)" using readChunk_enc [OF assms(2,3) assms(5) [unfolded Cons] d(1,2)] True by (simp add: s1_def)
    then have "fill_chunks a s = (None, s1)" using True d(1) by (simp add: fill_chunks.simps [of a s] fill_chunks.simps [of a s1]) (simp add: s1_def)
    then have "ss_Read K k s = (Return (take k (sc_rbuf s1)), s1\<lparr>sc_rbuf := drop k (sc_rbuf s1)\<rparr>)" using assms(1) by (simp add: ss_Read_def)
    moreover have "ss_reads K k (sc_rbuf s1 @ concat es) (Return (take k (sc_rbuf s1)), s1\<lparr>sc_rbuf := drop k (sc_rbuf s1)\<rparr>)"
      using assms(1,2,3,6) d by (intro buffered_reads [of s1 a]) (simp_all add: s1_def)
    moreover have "sc_rbuf s1 @ concat es = sc_rbuf s @ concat ds" by (simp add: s1_def True Cons)
    ultimately show ?thesis by simp
  qed
qed

lemma ss_Read_reads:
  assumes "ss_rep K s str" and "0 < k"
  shows "ss_reads K k str (ss_Read K k s)"
  using assms(1)
proof cases
  case (start salt a ds)
  define s1 where "s1 = s\<lparr>sc_r := enc a (replicate (ae_NonceSize a) 0) ds, sc_rAEAD := Some a, sc_rNonce := replicate (ae_NonceSize a) 0\<rparr>"
  have "initRead K s = (None, s1)" using start by (simp add: initRead_def ReadFull_append s1_def)
  then have "ss_Read K k s = ss_Read K k s1" using start(2) by (simp add: ss_Read_def) (simp add: s1_def)
  moreover have "ss_reads K k (sc_rbuf s1 @ concat ds) (ss_Read K k s1)"
    using start assms(2) by (intro running_reads [of s1 a]) (simp_all add: s1_def)
  ultimately show ?thesis using start by (simp add: s1_def)
next
  case (running a ds)
  with running_reads assms(2) show ?thesis by simp
qed

text \<open>The AEAD connection keeps the contract of a plain stream.\<close>

interpretation ss: plain_stream "ss_Read K" "ss_rep K" for K
proof
  fix c s and k :: nat
  assume "ss_rep K c s" and "0 < k" and "s \<noteq> []"
  with ss_Read_reads [of K c s k]
  show "\<exists>d s' c'. ss_Read K k c = (Return d, c') \<and> d \<noteq> [] \<and> length d \<le> k \<and> s = d @ s' \<and> ss_rep K c' s'"
    by (simp add: ss_reads_def)
next
  fix c and k :: nat
  assume "ss_rep K c []" and "0 < k"
  with ss_Read_reads [of K c "[]" k] show "\<exists>c'. ss_Read K k c = (Error ''EOF'', c')" by (simp add: ss_reads_def)
qed


section \<open>Writing\<close>

fun ss_write_all :: "subkey \<Rightarrow> ss_sock \<Rightarrow> bytes list \<Rightarrow> ssConn \<Rightarrow> bytes" where
  "ss_write_all K i [] s = []"
| "ss_write_all K i (p # ps) s = (case ss_Write K i p s of (res, sent, s') \<Rightarrow> sent @ ss_write_all K i ps s')"

lemma enc_append: "enc a n (xs @ ys) = enc a n xs @ enc a ((incNonce ^^ (2 * length xs)) n) ys"
proof (induction xs arbitrary: n)
  case (Cons x xs)
  then show ?case by (simp add: funpow_swap1)
qed simp

lemma chunk_loop_enc:
  assumes "\<forall>b. so_write i b = None"
  shows "\<exists>ds. chunk_loop a i t p sent s = ((t + length p, None), sent @ enc a (sc_wNonce s) ds, s\<lparr>sc_wNonce := (incNonce ^^ (2 * length ds)) (sc_wNonce s)\<rparr>)
    \<and> concat ds = p \<and> chunks_ok ds"
proof (induction p arbitrary: t sent s rule: length_induct)
  case (1 p)
  show ?case
  proof (cases "p = []")
    case True
    then show ?thesis by (intro exI [of _ "[]"]) (simp add: chunk_loop.simps chunks_ok_def)
  next
    case False
    let ?d = "take maxChunk p"
    let ?n = "sc_wNonce s"
    let ?buf = "ae_Seal a ?n (put16 (length ?d)) @ ae_Seal a (incNonce ?n) ?d"
    let ?s = "s\<lparr>sc_wNonce := incNonce (incNonce ?n)\<rparr>"
    have d: "take (min (length p) maxChunk) p = ?d" "min (length p) maxChunk = length ?d" by (simp_all add: min_def)
    have d3: "take (length ?d) p = ?d" by (simp add: min_def)
    have "length (drop (length ?d) p) < length p" using False by (simp add: maxChunk_def)
    with 1 obtain ds where ds: "chunk_loop a i (t + length ?d) (drop (length ?d) p) (sent @ ?buf) ?s =
        ((t + length ?d + length (drop (length ?d) p), None), (sent @ ?buf) @ enc a (sc_wNonce ?s) ds, ?s\<lparr>sc_wNonce := (incNonce ^^ (2 * length ds)) (sc_wNonce ?s)\<rparr>)"
        "concat ds = drop (length ?d) p" "chunks_ok ds" by blast
    have step: "chunk_loop a i t p sent s = chunk_loop a i (t + length ?d) (drop (length ?d) p) (sent @ ?buf) ?s"
      using False assms by (subst chunk_loop.simps) (simp only: d d3 Let_def if_False option.case simp_thms)
    have "chunks_ok (?d # ds)" using ds(3) False by (simp add: chunks_ok_def maxChunk_def)
    moreover have "concat (?d # ds) = p" using ds(2) by (simp add: min_def)
    moreover have "t + length ?d + length (drop (length ?d) p) = t + length p" by simp
    ultimately show ?thesis unfolding step ds(1)
      by (intro exI [of _ "?d # ds"]) (simp add: funpow_swap1)
  qed
qed

lemma write_all_running:
  assumes "\<forall>b. so_write i b = None" and "sc_wAEAD s = Some a"
  shows "\<exists>ds. ss_write_all K i ps s = enc a (sc_wNonce s) ds \<and> concat ds = concat ps \<and> chunks_ok ds"
  using assms(2)
proof (induction ps arbitrary: s)
  case Nil
  then show ?case by (intro exI [of _ "[]"]) (simp add: chunks_ok_def)
next
  case (Cons p ps)
  obtain ds where ds: "chunk_loop a i 0 p [] s = ((length p, None), enc a (sc_wNonce s) ds, s\<lparr>sc_wNonce := (incNonce ^^ (2 * length ds)) (sc_wNonce s)\<rparr>)"
    "concat ds = p" "chunks_ok ds"
    using chunk_loop_enc [OF assms(1), of a 0 p "[]" s] by auto
  obtain es where es: "ss_write_all K i ps (s\<lparr>sc_wNonce := (incNonce ^^ (2 * length ds)) (sc_wNonce s)\<rparr>) = enc a ((incNonce ^^ (2 * length ds)) (sc_wNonce s)) es"
    "concat es = concat ps" "chunks_ok es"
    using Cons.IH [of "s\<lparr>sc_wNonce := (incNonce ^^ (2 * length ds)) (sc_wNonce s)\<rparr>"] Cons.prems by auto
  show ?case using ds es Cons.prems
    by (intro exI [of _ "ds @ es"]) (auto simp: ss_Write_def enc_append chunks_ok_def)
qed

text \<open>What a sequence of writes puts on the wire stands for the concatenation of the data.\<close>

lemma ss_stream:
  assumes "\<forall>b. so_write i b = None" and "so_salt i = Inr salt" and "length salt = length key" and "K method key salt = Inr a" and "aead_ok a" and "ps \<noteq> []"
  shows "ss_rep K (newSSConn (ss_write_all K i ps (newSSConn r method key)) method key) (concat ps)"
proof -
  obtain p qs where ps: "ps = p # qs" using assms(6) by (cases ps) auto
  let ?s = "(newSSConn r method key)\<lparr>sc_wAEAD := Some a, sc_wNonce := replicate (ae_NonceSize a) 0\<rparr>"
  have "initWrite K i (newSSConn r method key) = (None, salt, ?s)" using assms(1,2,4) by (simp add: initWrite_def newSSConn_def)
  then have first: "ss_Write K i p (newSSConn r method key) = chunk_loop a i 0 p salt ?s" by (simp add: ss_Write_def newSSConn_def)
  obtain ds where ds: "chunk_loop a i 0 p salt ?s = ((length p, None), salt @ enc a (sc_wNonce ?s) ds, ?s\<lparr>sc_wNonce := (incNonce ^^ (2 * length ds)) (sc_wNonce ?s)\<rparr>)"
    "concat ds = p" "chunks_ok ds"
    using chunk_loop_enc [OF assms(1), of a 0 p salt ?s] by auto
  let ?s1 = "?s\<lparr>sc_wNonce := (incNonce ^^ (2 * length ds)) (sc_wNonce ?s)\<rparr>"
  obtain es where es: "ss_write_all K i qs ?s1 = enc a (sc_wNonce ?s1) es" "concat es = concat qs" "chunks_ok es"
    using write_all_running [OF assms(1), of ?s1 a K qs] by auto
  have sent: "ss_write_all K i ps (newSSConn r method key) = salt @ enc a (replicate (ae_NonceSize a) 0) (ds @ es)"
    using es(1) by (simp add: ps first ds(1) enc_append)
  have "ss_rep K (newSSConn (salt @ enc a (replicate (ae_NonceSize a) 0) (ds @ es)) method key) (concat (ds @ es))"
    by (rule start [of _ salt _ a]) (use assms(3-5) ds(3) es(3) in \<open>auto simp: newSSConn_def chunks_ok_def\<close>)
  then show ?thesis unfolding sent using ds(2) es(2) by (simp add: ps)
qed

section \<open>The request\<close>

definition addr_bytes :: "address \<Rightarrow> bytes" where
  "addr_bytes ad = (case ad of IPv4 b \<Rightarrow> 1 # b | IPv6 b \<Rightarrow> 4 # b | Domain d \<Rightarrow> 3 # word_of_nat (length d) # d)"

definition addr_ok :: "address \<Rightarrow> bool" where
  "addr_ok ad = (case ad of IPv4 b \<Rightarrow> length b = 4 | IPv6 b \<Rightarrow> length b = 16 | Domain d \<Rightarrow> length d < 256)"

definition addr_meant :: "address \<Rightarrow> address" where
  "addr_meant ad = (case ad of IPv6 b \<Rightarrow> IPAddress b | _ \<Rightarrow> ad)"

definition request :: "bytes \<Rightarrow> address \<Rightarrow> nat \<Rightarrow> bytes" where
  "request key ad port = key @ [13, 10] @ [1] @ (addr_bytes ad @ put16 port) @ [13, 10]"

lemma port_of_put16: "port < 65536 \<Longrightarrow> port_of (put16 port) = port"
  using be16_put16 [of port] by (simp add: port_of_def)

context plain_stream
begin

lemma readSocksAddr_reads:
  assumes "rep c ((addr_bytes ad @ put16 port) @ s)" and "addr_ok ad" and "port < 65536"
  shows "\<exists>c'. readSocksAddr read c = Some (Return \<lparr>de_Address = addr_meant ad, de_Port = port\<rparr>, c') \<and> rep c' s"
proof (cases ad)
  case (IPv4 b)
  then have r: "rep c ([1] @ (b @ put16 port) @ s)" and l: "length (b @ put16 port) = 4 + 2" "length b = 4"
    using assms(1,2) by (simp_all add: addr_bytes_def addr_ok_def)
  from ReadFull_prefix [OF r, of 1] obtain c1 where 1: "rep c1 ((b @ put16 port) @ s)" "io_ReadFull read 1 c = Some (Return [1], c1)" by auto
  from ReadFull_prefix [OF 1(1) l(1)] obtain c2 where 2: "rep c2 s" "io_ReadFull read (4 + 2) c1 = Some (Return (b @ put16 port), c2)" by auto
  show ?thesis using 2(1) l(2)
    by (simp add: readSocksAddr_def then_full_def 1(2) 2(2) [simplified] IPv4 addr_meant_def IPAddress_def port_of_put16 assms(3) del: One_nat_def)
next
  case (IPv6 b)
  then have r: "rep c ([4] @ (b @ put16 port) @ s)" and l: "length (b @ put16 port) = 16 + 2" "length b = 16"
    using assms(1,2) by (simp_all add: addr_bytes_def addr_ok_def)
  from ReadFull_prefix [OF r, of 1] obtain c1 where 1: "rep c1 ((b @ put16 port) @ s)" "io_ReadFull read 1 c = Some (Return [4], c1)" by auto
  from ReadFull_prefix [OF 1(1) l(1)] obtain c2 where 2: "rep c2 s" "io_ReadFull read (16 + 2) c1 = Some (Return (b @ put16 port), c2)" by auto
  show ?thesis using 2(1) l(2)
    by (simp add: readSocksAddr_def then_full_def 1(2) 2(2) [simplified] IPv6 addr_meant_def port_of_put16 assms(3) del: One_nat_def)
next
  case (Domain d)
  let ?l = "word_of_nat (length d) :: byte"
  have u: "unat ?l = length d" using assms(2) Domain by (simp add: addr_ok_def unat_byte)
  have r: "rep c ([3] @ ([?l] @ (d @ put16 port) @ s))" using assms(1) Domain by (simp add: addr_bytes_def)
  from ReadFull_prefix [OF r, of 1] obtain c1 where 1: "rep c1 ([?l] @ (d @ put16 port) @ s)" "io_ReadFull read 1 c = Some (Return [3], c1)" by auto
  from ReadFull_prefix [OF 1(1), of 1] obtain c2 where 2: "rep c2 ((d @ put16 port) @ s)" "io_ReadFull read 1 c1 = Some (Return [?l], c2)" by auto
  have l: "length (d @ put16 port) = length d + 2" by simp
  from ReadFull_prefix [OF 2(1) l] obtain c3 where 3: "rep c3 s" "io_ReadFull read (length d + 2) c2 = Some (Return (d @ put16 port), c3)" by auto
  show ?thesis using 3(1)
    by (simp add: readSocksAddr_def then_full_def 1(2) 2(2) 3(2) [simplified] u Domain addr_meant_def port_of_put16 assms(3) del: One_nat_def)
qed

lemma handshake_reads:
  assumes "rep c (request key ad port @ payload)" and "length key = keyLength" and "list_all is_hex key" and "addr_ok ad" and "port < 65536"
  shows "\<exists>c'. handshake read c = Some (Return (key, \<lparr>de_Address = addr_meant ad, de_Port = port\<rparr>), c') \<and> rep c' payload"
proof -
  let ?a = "addr_bytes ad @ put16 port"
  have r: "rep c (key @ [13, 10] @ [1] @ ?a @ [13, 10] @ payload)" using assms(1) by (simp add: request_def)
  from ReadFull_prefix [OF r assms(2)] obtain c1 where 1: "rep c1 ([13, 10] @ [1] @ ?a @ [13, 10] @ payload)" "io_ReadFull read keyLength c = Some (Return key, c1)" by auto
  from ReadFull_prefix [OF 1(1), of 2] obtain c2 where 2: "rep c2 ([1] @ ?a @ [13, 10] @ payload)" "io_ReadFull read 2 c1 = Some (Return [13, 10], c2)" by auto
  from ReadFull_prefix [OF 2(1), of 1] obtain c3 where 3: "rep c3 (?a @ [13, 10] @ payload)" "io_ReadFull read 1 c2 = Some (Return [1], c3)" by auto
  from readSocksAddr_reads [OF 3(1) assms(4,5)] obtain c4 where
    4: "readSocksAddr read c3 = Some (Return \<lparr>de_Address = addr_meant ad, de_Port = port\<rparr>, c4)" "rep c4 ([13, 10] @ payload)" by auto
  from ReadFull_prefix [OF 4(2), of 2] obtain c5 where 5: "rep c5 payload" "io_ReadFull read 2 c4 = Some (Return [13, 10], c5)" by auto
  show ?thesis using 5(1) assms(3) by (simp add: handshake_def then_full_def 1(2) 2(2) 3(2) 4(1) 5(2) del: One_nat_def)
qed

end

text \<open>
  A Trojan request inside the AEAD stream is understood: whatever the writes of the client are into which it cuts the request and the
  first data, the server's handshake on the bytes that were sent returns the client's key, the destination that was meant (an
  IPv4 address in IPv6 form is that IPv4 address) and a connection that stands for the data after the request. The AEAD
  is only assumed to open what it sealed.
\<close>

theorem trojan_request_understood:
  assumes "\<forall>b. so_write i b = None" and "so_salt i = Inr salt" and "length salt = length skey" and "subkeyAEAD L method skey salt = Inr a" and "aead_ok a"
    and "concat ps = request key ad port @ payload" and "length key = keyLength" and "list_all is_hex key" and "addr_ok ad" and "port < 65536"
  shows "\<exists>c'. trojan_handshake L method skey (ss_write_all (subkeyAEAD L) i ps (newSSConn r method skey)) =
      Some (Return (key, \<lparr>de_Address = addr_meant ad, de_Port = port\<rparr>), c') \<and> ss_rep (subkeyAEAD L) c' payload"
proof -
  have "ps \<noteq> []" using assms(6) by (auto simp: request_def)
  with ss_stream [of i salt skey "subkeyAEAD L" "method" a ps r, OF assms(1-5)] assms(6)
  have "ss_rep (subkeyAEAD L) (newSSConn (ss_write_all (subkeyAEAD L) i ps (newSSConn r method skey)) method skey) (request key ad port @ payload)" by metis
  from ss.handshake_reads [OF this assms(7-10)] show ?thesis by (simp add: trojan_handshake_def)
qed

definition demo_aead :: aead where
  "demo_aead = \<lparr>ae_NonceSize = 12, ae_Overhead = 1, ae_Seal = (\<lambda>n p. p @ [7]), ae_Open = (\<lambda>n c. Inr (butlast c))\<rparr>"

definition demo_crypto :: crypto_lib where
  "demo_crypto = \<lparr>cr_hkdf = (\<lambda>k s info n. Inr k), cr_gcm = (\<lambda>k. Inr demo_aead), cr_chacha = (\<lambda>k. Inl ''unused'')\<rparr>"

definition demo_sock :: ss_sock where
  "demo_sock = \<lparr>so_salt = Inr [9], so_write = (\<lambda>b. None)\<rparr>"

theorem trojan_request_understood_witness:
  "\<exists>c'. trojan_handshake demo_crypto ''AES-128-GCM'' [5]
       (ss_write_all (subkeyAEAD demo_crypto) demo_sock [replicate 56 48, [13, 10, 1, 3, 1, 97, 1, 187, 13, 10, 42]] (newSSConn [] ''AES-128-GCM'' [5])) =
     Some (Return (replicate 56 48, \<lparr>de_Address = Domain [97], de_Port = 443\<rparr>), c') \<and> ss_rep (subkeyAEAD demo_crypto) c' [42]"
proof -
  have ok: "aead_ok demo_aead" by (simp add: aead_ok_def demo_aead_def)
  have k: "subkeyAEAD demo_crypto ''AES-128-GCM'' [5] [9] = Inr demo_aead" by (simp add: subkeyAEAD_def ssAEAD_def demo_crypto_def)
  have c: "concat [replicate 56 48, [13, 10, 1, 3, 1, 97, 1, 187, 13, 10, 42]] = request (replicate 56 48) (Domain [97]) 443 @ [42]"
    by (simp add: request_def addr_bytes_def put16_def)
  have h: "list_all is_hex (replicate 56 48)" by (simp add: list_all_iff is_hex_def)
  have "\<exists>c'. trojan_handshake demo_crypto ''AES-128-GCM'' [5]
       (ss_write_all (subkeyAEAD demo_crypto) demo_sock [replicate 56 48, [13, 10, 1, 3, 1, 97, 1, 187, 13, 10, 42]] (newSSConn [] ''AES-128-GCM'' [5])) =
     Some (Return (replicate 56 48, \<lparr>de_Address = addr_meant (Domain [97]), de_Port = 443\<rparr>), c') \<and> ss_rep (subkeyAEAD demo_crypto) c' [42]"
    by (rule trojan_request_understood [of demo_sock "[9]" "[5]" _ _ demo_aead, OF _ _ _ k ok c _ h]) (simp_all add: demo_sock_def keyLength_def addr_ok_def)
  then show ?thesis by (simp add: addr_meant_def)
qed

end
