(* ===== verification/Ssr_Props.thy ===== *)
theory Ssr_Props
  imports Ssr_Auth Trojan_Props
begin

text \<open>
  What the ShadowsocksR layer guarantees: an \<open>auth_aes128\<close> connection keeps the contract of a plain stream however the
  bytes arrive, so that the handshake understands the client; what the server writes can be decoded; and a padding
  that is longer than its frame.
\<close>

section \<open>Key derivation\<close>

lemma kdf_loop_Some:
  assumes "\<And>x. length (md5 x) = 16" and "keyLen \<le> length b + 16 * fuel"
  shows "\<exists>r. kdf_loop md5 password keyLen fuel prev b = Some r \<and> keyLen \<le> length r"
  using assms(2)
proof (induction fuel arbitrary: prev b)
  case (Suc fuel)
  then show ?case
  proof (cases "length b < keyLen")
    case True
    have "keyLen \<le> length (b @ md5 (prev @ password)) + 16 * fuel" using Suc.prems assms(1) by simp
    from Suc.IH [OF this] True show ?thesis by (simp add: Let_def)
  qed simp
qed simp

text \<open>The rounds are enough for every key length.\<close>

lemma kdf_total: "(\<And>x. length (md5 x) = 16) \<Longrightarrow> \<exists>k. kdf md5 password keyLen = Some k \<and> length k = keyLen"
  using kdf_loop_Some [of md5 keyLen "[]" keyLen password "[]"] by (auto simp: kdf_def)

section \<open>Frames\<close>

definition frame :: "auth_lib \<Rightarrow> bytes \<Rightarrow> bytes \<Rightarrow> bytes" where
  "frame L mk body =
     (let h1 = putle16 (8 + length body); h3 = h1 @ take 2 (al_hmac L mk h1) @ body in h3 @ take 4 (al_hmac L mk h3))"

definition hmac_ok :: "auth_lib \<Rightarrow> bool" where
  "hmac_ok L \<longleftrightarrow> (\<forall>k d. 6 \<le> length (al_hmac L k d))"

lemma frame_length: "hmac_ok L \<Longrightarrow> length (frame L mk body) = 8 + length body"
  by (simp add: frame_def hmac_ok_def Let_def min_absorb2 order.trans [of _ 6])

lemma writeChunk_frame:
  "\<forall>b. w b = None \<Longrightarrow> writeChunk L w p a = (None, frame L (mac_key (aa_userKey a) (aa_packID a)) (1 # p), a\<lparr>aa_packID := aa_packID a + 1\<rparr>)"
  by (simp add: writeChunk_def frame_def Let_def)

lemma frame_parts:
  assumes "hmac_ok L" and "length body < 8184"
  shows "\<exists>x y h t. frame L mk body = x # y # h @ body @ t \<and> length h = 2 \<and> length t = 4 \<and> le16 x y = 8 + length body \<and>
    take 2 (al_hmac L mk [x, y]) = h \<and> take 4 (al_hmac L mk (x # y # h @ body)) = t"
proof -
  let ?n = "8 + length body"
  let ?h = "take 2 (al_hmac L mk (putle16 ?n))"
  have e: "putle16 ?n = [word_of_nat ?n, word_of_nat (?n div 256)]" by (simp add: putle16_def)
  have h: "\<And>k d. 6 \<le> length (al_hmac L k d)" using assms(1) by (simp add: hmac_ok_def)
  have "le16 (word_of_nat ?n) (word_of_nat (?n div 256)) = ?n" using assms(2) by (intro le16_words) simp
  moreover have "length ?h = 2" "length (take 4 (al_hmac L mk (putle16 ?n @ ?h @ body))) = 4"
    using h [of mk "putle16 ?n"] h [of mk "putle16 ?n @ ?h @ body"] by simp_all
  ultimately show ?thesis
    by (intro exI [of _ "word_of_nat ?n"] exI [of _ "word_of_nat (?n div 256)"] exI [of _ ?h] exI [of _ "take 4 (al_hmac L mk (putle16 ?n @ ?h @ body))"])
      (simp add: frame_def Let_def e)
qed

text \<open>A complete frame: its codes are right, and what is cut out depends on the padding only.\<close>

lemma decode_frame:
  assumes ok: "hmac_ok L" "body \<noteq> []" "length body < 8184"
    and a: "aa_acc a = frame L (mac_key (aa_userKey a) (aa_recvID a)) body @ rest"
  shows "decodeData L a =
    (case slice_of (aa_acc a) (data_pos (aa_acc a)) (4 + length body) of
       Return d \<Rightarrow> decodeData L (a\<lparr>aa_recvID := aa_recvID a + 1, aa_rbuf := aa_rbuf a @ d, aa_acc := rest\<rparr>)
     | Error e \<Rightarrow> (Error e, a\<lparr>aa_recvID := aa_recvID a + 1\<rparr>)
     | Panic p \<Rightarrow> (Panic p, a\<lparr>aa_recvID := aa_recvID a + 1\<rparr>))"
proof -
  let ?mk = "mac_key (aa_userKey a) (aa_recvID a)"
  obtain x y h t where f: "frame L ?mk body = x # y # h @ body @ t" "length h = 2" "length t = 4" "le16 x y = 8 + length body"
    "take 2 (al_hmac L ?mk [x, y]) = h" "take 4 (al_hmac L ?mk (x # y # h @ body)) = t"
    using frame_parts [OF ok(1,3)] by blast
  define b where "b = aa_acc a"
  have b: "b = x # y # h @ body @ t @ rest" using a f(1) by (simp add: b_def)
  have len: "le16 (b ! 0) (b ! 1) = 8 + length body" using f(4) by (simp add: b)
  have 1: "take 2 b = [x, y]" "take 2 (drop 2 b) = h" using f(2) by (simp_all add: b numeral_2_eq_2)
  have d4: "drop 4 b = body @ t @ rest" using f(2) by (simp add: b numeral_eq_Suc)
  have t4: "take 4 b = x # y # h" using f(2) by (simp add: b numeral_eq_Suc)
  have 2: "take (4 + length body) b = x # y # h @ body" using d4 t4 by (simp add: take_add)
  have 3: "drop (4 + length body) b = t @ rest" using d4 by (metis add.commute append_eq_conv_conj drop_drop)
  then have 4: "take 4 (drop (4 + length body) b) = t" using f(3) by simp
  have "drop (8 + length body) b = drop 4 (drop (4 + length body) b)" by (simp add: add.commute add.left_commute)
  then have 5: "drop (8 + length body) b = rest" using 3 f(3) by simp
  have 6: "8 + length body \<le> length b" "4 < length b" using f(2,3) by (simp_all add: b)
  show ?thesis
    using 6 ok(3)
    by (subst decodeData.simps)
      (simp add: Let_def b_def [symmetric] len [simplified] len 1 2 4 5 f(5,6) cong: outcome.case_cong)
qed

text \<open>Too few bytes for the next frame: nothing happens.\<close>

lemma decode_partial:
  assumes ok: "hmac_ok L" "length body < 8184"
    and a: "aa_acc a @ tl1 = frame L mk body @ rest" "length (aa_acc a) < length (frame L mk body)"
  shows "decodeData L a = (Return (), a)"
proof (cases "length (aa_acc a) \<le> 4")
  case False
  obtain x y h t where f: "frame L mk body = x # y # h @ body @ t" "length h = 2" "length t = 4" "le16 x y = 8 + length body"
    using frame_parts [OF ok] by blast
  obtain x' y' zs where z: "aa_acc a = x' # y' # zs" using False by (cases "aa_acc a" rule: remdups_adj.cases) auto
  with a(1) f(1) have "x' = x" "y' = y" by auto
  with z f(4) have "le16 (aa_acc a ! 0) (aa_acc a ! 1) = 8 + length body" by simp
  moreover have "length (aa_acc a) < 8 + length body" using a(2) by (simp add: frame_length [OF ok(1)])
  ultimately show ?thesis using False ok(2) by (subst decodeData.simps) (simp add: Let_def)
qed (simp add: decodeData.simps [of L a] Let_def)


lemma append_prefix: "xs @ ys = us @ vs \<Longrightarrow> length us \<le> length xs \<Longrightarrow> \<exists>rest. xs = us @ rest \<and> rest @ ys = vs"
  by (metis append_eq_append_conv_if append_take_drop_id)

section \<open>Paddings and sequences of frames\<close>

definition pad_ok :: "bytes \<Rightarrow> bool" where
  "pad_ok p \<longleftrightarrow> p \<noteq> [] \<and> (if unat (p ! 0) < 255 then unat (p ! 0) = length p else 3 \<le> length p \<and> le16 (p ! 1) (p ! 2) = length p)"

fun frames :: "auth_lib \<Rightarrow> bytes \<Rightarrow> 32 word \<Rightarrow> (bytes \<times> bytes) list \<Rightarrow> bytes" where
  "frames L key i [] = []"
| "frames L key i ((p, d) # ps) = frame L (mac_key key i) (p @ d) @ frames L key (i + 1) ps"

definition frames_ok :: "(bytes \<times> bytes) list \<Rightarrow> bool" where
  "frames_ok ps \<longleftrightarrow> (\<forall>(p, d) \<in> set ps. pad_ok p \<and> length (p @ d) < 8184)"

definition data_of :: "(bytes \<times> bytes) list \<Rightarrow> bytes" where
  "data_of ps = concat (map snd ps)"

lemma data_of_simps [simp]: "data_of [] = []" "data_of ((p, d) # ps) = d @ data_of ps"
  by (simp_all add: data_of_def)

lemma frames_ok_simps [simp]: "frames_ok []" "frames_ok ((p, d) # ps) \<longleftrightarrow> pad_ok p \<and> length (p @ d) < 8184 \<and> frames_ok ps"
  by (auto simp: frames_ok_def)

lemma padded_slice:
  assumes "hmac_ok L" and "pad_ok p" and "length (p @ d) < 8184"
  shows "slice_of (frame L mk (p @ d) @ rest) (data_pos (frame L mk (p @ d) @ rest)) (4 + length (p @ d)) = Return d"
proof -
  obtain x y h t where f: "frame L mk (p @ d) = x # y # h @ (p @ d) @ t" "length h = 2" "length t = 4"
    using frame_parts [OF assms(1,3)] by blast
  obtain h1 h2 where h: "h = [h1, h2]" using f(2) by (auto simp: length_Suc_conv numeral_2_eq_2)
  define b where "b = frame L mk (p @ d) @ rest"
  have b: "b = (x # y # h @ p) @ d @ (t @ rest)" by (simp add: b_def f(1))
  have i: "i < length p \<Longrightarrow> b ! (4 + i) = p ! i" for i by (simp add: b h nth_append numeral_eq_Suc)
  have "data_pos b = 4 + length p"
  proof (cases "unat (p ! 0) < 255")
    case True
    then show ?thesis using i [of 0] assms(2) by (simp add: data_pos_def pad_ok_def)
  next
    case False
    then have p: "3 \<le> length p" "le16 (p ! 1) (p ! 2) = length p" using assms(2) by (simp_all add: pad_ok_def)
    have "b ! 4 = p ! 0" "b ! 5 = p ! 1" "b ! 6 = p ! 2" using i [of 0] i [of 1] i [of 2] p(1) assms(2) by (auto simp: pad_ok_def)
    then show ?thesis using p(2) False by (simp add: data_pos_def)
  qed
  then have 1: "data_pos b = length (x # y # h @ p)" using f(2) by simp
  have 2: "4 + length (p @ d) = length (x # y # h @ p) + length d" using f(2) by simp
  have "slice_of b (length (x # y # h @ p)) (length (x # y # h @ p) + length d) = Return d"
    unfolding b by (rule slice_append)
  then have "slice_of b (data_pos b) (4 + length (p @ d)) = Return d" unfolding 1 2 .
  then show ?thesis by (simp add: b_def)
qed

lemma decode_padded:
  assumes "hmac_ok L" and "pad_ok p" and "length (p @ d) < 8184"
    and "aa_acc a = frame L (mac_key (aa_userKey a) (aa_recvID a)) (p @ d) @ rest"
  shows "decodeData L a = decodeData L (a\<lparr>aa_recvID := aa_recvID a + 1, aa_rbuf := aa_rbuf a @ d, aa_acc := rest\<rparr>)"
  using decode_frame [OF assms(1) _ assms(3,4)] assms(2) padded_slice [OF assms(1-3), of "mac_key (aa_userKey a) (aa_recvID a)" rest]
  by (simp add: assms(4) pad_ok_def)

text \<open>Of a prefix of the frames, all complete frames are decoded; the rest waits.\<close>

lemma decode_frames:
  assumes "hmac_ok L" and "frames_ok ps" and "aa_acc a @ tl1 = frames L (aa_userKey a) (aa_recvID a) ps"
  shows "\<exists>qs rs i acc. ps = qs @ rs \<and> decodeData L a = (Return (), a\<lparr>aa_recvID := i, aa_rbuf := aa_rbuf a @ data_of qs, aa_acc := acc\<rparr>)
    \<and> acc @ tl1 = frames L (aa_userKey a) i rs \<and> (tl1 = [] \<longrightarrow> rs = [])"
  using assms(2,3)
proof (induction ps arbitrary: a)
  case Nil
  then show ?case by (intro exI [of _ "[]"] exI [of _ "aa_recvID a"]) (simp add: decodeData.simps [of L a] Let_def)
next
  case (Cons pd ps)
  obtain p d where pd: "pd = (p, d)" by force
  let ?f = "frame L (mac_key (aa_userKey a) (aa_recvID a)) (p @ d)"
  let ?r = "frames L (aa_userKey a) (aa_recvID a + 1) ps"
  have ok: "pad_ok p" "length (p @ d) < 8184" "frames_ok ps" using Cons.prems(1) by (simp_all add: pd)
  have e: "aa_acc a @ tl1 = ?f @ ?r" using Cons.prems(2) by (simp add: pd)
  show ?case
  proof (cases "length (aa_acc a) < length ?f")
    case True
    have "tl1 \<noteq> []" using e True by (auto dest: arg_cong [of _ _ length])
    moreover have "decodeData L a = (Return (), a)" by (rule decode_partial [OF assms(1) ok(2) e True])
    ultimately show ?thesis using e by (intro exI [of _ "[]"] exI [of _ "pd # ps"] exI [of _ "aa_recvID a"] exI [of _ "aa_acc a"]) (simp add: pd)
  next
    case False
    then have l: "length ?f \<le> length (aa_acc a)" by simp
    obtain rest where r: "aa_acc a = ?f @ rest" "rest @ tl1 = ?r" using append_prefix [OF e l] by blast
    let ?a = "a\<lparr>aa_recvID := aa_recvID a + 1, aa_rbuf := aa_rbuf a @ d, aa_acc := rest\<rparr>"
    have s: "decodeData L a = decodeData L ?a" by (rule decode_padded [OF assms(1) ok(1,2) r(1)])
    have "aa_acc ?a @ tl1 = frames L (aa_userKey ?a) (aa_recvID ?a) ps" using r(2) by simp
    from Cons.IH [OF ok(3) this] obtain qs rs i acc where "ps = qs @ rs"
      "decodeData L ?a = (Return (), ?a\<lparr>aa_recvID := i, aa_rbuf := aa_rbuf ?a @ data_of qs, aa_acc := acc\<rparr>)"
      "acc @ tl1 = frames L (aa_userKey ?a) i rs" "tl1 = [] \<longrightarrow> rs = []" by blast
    then show ?thesis unfolding s by (intro exI [of _ "(p, d) # qs"] exI [of _ rs] exI [of _ i] exI [of _ acc]) (simp add: pd)
  qed
qed


section \<open>The header\<close>

text \<open>
  What a client sends first: a check byte, its code, the user's id, sixteen encrypted bytes with the lengths, their code, a padding, the first
  data and a code over everything.
\<close>

record hello =
  he_check :: byte
  he_uid :: "32 word"
  he_enc :: bytes
  he_pad :: bytes
  he_data :: bytes

definition hello_start :: "auth_lib \<Rightarrow> bytes \<Rightarrow> hello \<Rightarrow> bytes" where
  "hello_start L mk h =
     he_check h # take 6 (al_hmac L mk [he_check h]) @ putle32 (he_uid h) @ he_enc h @ take 4 (al_hmac L mk (putle32 (he_uid h) @ he_enc h))"

definition hello_bytes :: "auth_lib \<Rightarrow> bytes \<Rightarrow> bytes \<Rightarrow> hello \<Rightarrow> bytes" where
  "hello_bytes L mk uk h =
     (let b = hello_start L mk h @ he_pad h @ he_data h in b @ take 4 (al_hmac L uk b))"

definition hello_ok :: "auth_lib \<Rightarrow> bytes \<Rightarrow> hello \<Rightarrow> bool" where
  "hello_ok L uk h \<longleftrightarrow> length (he_enc h) = 16 \<and>
     (\<exists>dec. al_cbc L (the (kdf (al_md5 L) (al_base64 L uk @ al_salt L) 16)) (he_enc h) = Inr dec \<and>
        le16 (dec ! 12) (dec ! 13) = 35 + length (he_pad h) + length (he_data h) \<and> le16 (dec ! 14) (dec ! 15) = length (he_pad h))"

lemma hello_start_length: "hmac_ok L \<Longrightarrow> length (he_enc h) = 16 \<Longrightarrow> length (hello_start L mk h) = 31"
  by (simp add: hello_start_def hmac_ok_def min_absorb2 order.trans [of _ 6])


lemma hello_fields:
  assumes ok: "hmac_ok L" "length (he_enc h) = 16" and b: "b = hello_start L mk h @ z"
  shows "take 1 b = [he_check h]" and "take 6 (drop 1 b) = take 6 (al_hmac L mk [he_check h])"
    and "take 4 (drop 7 b) = putle32 (he_uid h)" and "take 20 (drop 7 b) = putle32 (he_uid h) @ he_enc h"
    and "take 16 (drop 11 b) = he_enc h" and "take 4 (drop 27 b) = take 4 (al_hmac L mk (putle32 (he_uid h) @ he_enc h))"
proof -
  let ?m = "take 6 (al_hmac L mk [he_check h])"
  let ?t = "take 4 (al_hmac L mk (putle32 (he_uid h) @ he_enc h))"
  have l: "\<And>k d. 6 \<le> length (al_hmac L k d)" using ok(1) by (simp add: hmac_ok_def)
  have m: "length ?m = 6" and t: "length ?t = 4" using l [of mk "[he_check h]"] l [of mk "putle32 (he_uid h) @ he_enc h"] by simp_all
  have 0: "b = [he_check h] @ ?m @ putle32 (he_uid h) @ he_enc h @ ?t @ z" by (simp add: b hello_start_def)
  have d1: "drop 1 b = ?m @ putle32 (he_uid h) @ he_enc h @ ?t @ z" by (simp add: 0)
  then have "drop 6 (drop 1 b) = putle32 (he_uid h) @ he_enc h @ ?t @ z" using m by (simp del: drop_drop)
  then have d7: "drop 7 b = putle32 (he_uid h) @ he_enc h @ ?t @ z" by simp
  then have "drop 4 (drop 7 b) = he_enc h @ ?t @ z" by (simp del: drop_drop)
  then have d11: "drop 11 b = he_enc h @ ?t @ z" by simp
  then have "drop 16 (drop 11 b) = ?t @ z" using ok(2) by (simp del: drop_drop)
  then have d27: "drop 27 b = ?t @ z" by simp
  show "take 1 b = [he_check h]" by (simp add: 0)
  show "take 6 (drop 1 b) = ?m" unfolding d1 using m by simp
  show "take 4 (drop 7 b) = putle32 (he_uid h)" unfolding d7 by simp
  show "take 20 (drop 7 b) = putle32 (he_uid h) @ he_enc h" unfolding d7 using ok(2) by simp
  show "take 16 (drop 11 b) = he_enc h" unfolding d11 using ok(2) by simp
  show "take 4 (drop 27 b) = ?t" unfolding d27 using t by simp
qed

definition hello_len :: "hello \<Rightarrow> nat" where
  "hello_len h = 35 + length (he_pad h) + length (he_data h)"

lemma hello_bytes_length: "hmac_ok L \<Longrightarrow> length (he_enc h) = 16 \<Longrightarrow> length (hello_bytes L mk uk h) = hello_len h"
  using hello_start_length [of L h mk] by (simp add: hello_bytes_def Let_def hello_len_def hmac_ok_def min_absorb2 order.trans [of _ 6])

lemma decode_hello:
  assumes ok: "hmac_ok L" "hello_ok L uk h" and look: "lookup (he_uid h) = Some (uk, uuid)"
    and a: "aa_acc a @ tl1 = hello_bytes L (aa_iv a @ aa_cipherKey a) uk h @ rest"
  shows "decodeHeader L lookup a =
    (if length (aa_acc a) < hello_len h then (Error errNeedMore, a)
     else (Return (), a\<lparr>aa_rbuf := aa_rbuf a @ he_data h, aa_userKey := uk, aa_uuid := uuid, aa_recvID := 1,
                        aa_acc := drop (hello_len h) (aa_acc a), aa_gotHdr := True\<rparr>))"
proof (cases "length (aa_acc a) < 31")
  case True
  then show ?thesis by (simp add: decodeHeader_def Let_def hello_len_def)
next
  case False
  let ?mk = "aa_iv a @ aa_cipherKey a"
  define b where "b = aa_acc a"
  from ok(2) obtain dec where dec: "length (he_enc h) = 16" "al_cbc L (the (kdf (al_md5 L) (al_base64 L uk @ al_salt L) 16)) (he_enc h) = Inr dec"
    "le16 (dec ! 12) (dec ! 13) = hello_len h" "le16 (dec ! 14) (dec ! 15) = length (he_pad h)"
    by (auto simp: hello_ok_def hello_len_def)
  let ?s = "hello_start L ?mk h"
  let ?body = "?s @ he_pad h @ he_data h"
  have sl: "length ?s = 31" by (rule hello_start_length [OF ok(1) dec(1)])
  have e: "b @ tl1 = ?s @ (he_pad h @ he_data h @ take 4 (al_hmac L uk ?body) @ rest)"
    using a by (simp add: b_def hello_bytes_def Let_def)
  obtain z where z: "b = ?s @ z" using append_prefix [OF e] False sl b_def by auto
  note f = hello_fields [OF ok(1) dec(1) z]
  have lb: "\<not> length b < 31" using False by (simp add: b_def)
  have pl: "\<not> hello_len h < 31 + length (he_pad h) + 4" by (simp add: hello_len_def)
  have H: "decodeHeader L lookup a =
    (if length b < hello_len h then (Error errNeedMore, a)
     else if take 4 (al_hmac L uk (take (hello_len h - 4) b)) \<noteq> take 4 (drop (hello_len h - 4) b) then (Error ''ssr: auth final hmac mismatch'', a)
     else
       (case slice_of b (31 + length (he_pad h)) (31 + length (he_pad h) + (hello_len h - 31 - length (he_pad h) - 4)) of
          Return d \<Rightarrow> (Return (), a\<lparr>aa_rbuf := aa_rbuf a @ d, aa_userKey := uk, aa_uuid := uuid, aa_recvID := 1,
                                       aa_acc := drop (hello_len h) b, aa_gotHdr := True\<rparr>)
        | Error e \<Rightarrow> (Error e, a)
        | Panic p \<Rightarrow> (Panic p, a)))"
    unfolding decodeHeader_def Let_def b_def [symmetric] f dec(2-4) le32_putle32 look
    using lb pl by (simp only: simp_thms if_False if_True option.case sum.case prod.case dec(2-4) split: if_split)
  show ?thesis
  proof (cases "length b < hello_len h")
    case True
    then show ?thesis unfolding H by (simp add: b_def)
  next
    case False
    have hl: "length (hello_bytes L ?mk uk h) = hello_len h" by (rule hello_bytes_length [OF ok(1) dec(1)])
    obtain r where r: "b = hello_bytes L ?mk uk h @ r" using append_prefix [OF a [folded b_def]] False hl by auto
    let ?t = "take 4 (al_hmac L uk ?body)"
    have b: "b = ?body @ ?t @ r" using r by (simp add: hello_bytes_def Let_def)
    have bl: "length ?body = hello_len h - 4" using sl by (simp add: hello_len_def)
    have tl: "length ?t = 4" using ok(1) by (simp add: hmac_ok_def min_absorb2 order.trans [of _ 6])
    have 1: "take (hello_len h - 4) b = ?body" "drop (hello_len h - 4) b = ?t @ r" unfolding b bl [symmetric] by simp_all
    have 2: "take 4 (drop (hello_len h - 4) b) = ?t" unfolding 1(2) using tl by simp
    have "slice_of ((?s @ he_pad h) @ he_data h @ (?t @ r)) (length (?s @ he_pad h)) (length (?s @ he_pad h) + length (he_data h)) = Return (he_data h)"
      by (rule slice_append)
    then have 3: "slice_of b (31 + length (he_pad h)) (31 + length (he_pad h) + (hello_len h - 31 - length (he_pad h) - 4)) = Return (he_data h)"
      using sl by (simp add: b hello_len_def)
    show ?thesis using False unfolding H 2 unfolding 1 3 by (simp add: b_def)
  qed
qed


section \<open>The connection as a plain stream\<close>

text \<open>
  A connection of the user \<open>uuid\<close> whose whole data are \<open>S\<close>: before the header is complete nothing was delivered; then the
  bytes that are known and those still to come are frames.
\<close>

inductive auth_rep :: "auth_lib \<Rightarrow> user_lookup \<Rightarrow> string \<Rightarrow> bytes \<Rightarrow> authAES128 \<Rightarrow> bytes \<Rightarrow> bool"
  for L :: auth_lib and lookup :: user_lookup and uuid :: string and S :: bytes where
  start: "hmac_ok L \<Longrightarrow> \<not> aa_gotHdr c \<Longrightarrow> aa_rbuf c = [] \<Longrightarrow> hello_ok L uk h \<Longrightarrow> lookup (he_uid h) = Some (uk, uuid) \<Longrightarrow> frames_ok ps \<Longrightarrow>
     aa_acc c @ aa_stream c = hello_bytes L (aa_iv c @ aa_cipherKey c) uk h @ frames L uk 1 ps \<Longrightarrow> S = he_data h @ data_of ps \<Longrightarrow>
     auth_rep L lookup uuid S c S"
| running: "hmac_ok L \<Longrightarrow> aa_gotHdr c \<Longrightarrow> aa_uuid c = uuid \<Longrightarrow> frames_ok ps \<Longrightarrow>
     aa_acc c @ aa_stream c = frames L (aa_userKey c) (aa_recvID c) ps \<Longrightarrow> auth_rep L lookup uuid S c (aa_rbuf c @ data_of ps)"

lemma auth_rep_running: "auth_rep L lookup uuid S c s \<Longrightarrow> s \<noteq> S \<Longrightarrow> aa_gotHdr c \<and> aa_uuid c = uuid"
  by (auto elim: auth_rep.cases)

lemma decode_running:
  assumes "hmac_ok L" and "aa_gotHdr c" and "aa_uuid c = uuid" and "frames_ok ps"
    and "aa_acc c @ aa_stream c = frames L (aa_userKey c) (aa_recvID c) ps"
  shows "\<exists>c'. decodeData L c = (Return (), c') \<and> auth_rep L lookup uuid S c' (aa_rbuf c @ data_of ps) \<and> (aa_stream c = [] \<longrightarrow> aa_rbuf c' = aa_rbuf c @ data_of ps)"
proof -
  from decode_frames [OF assms(1,4,5)] obtain qs rs i acc where d:
    "ps = qs @ rs" "decodeData L c = (Return (), c\<lparr>aa_recvID := i, aa_rbuf := aa_rbuf c @ data_of qs, aa_acc := acc\<rparr>)"
    "acc @ aa_stream c = frames L (aa_userKey c) i rs" "aa_stream c = [] \<longrightarrow> rs = []" by blast
  let ?c = "c\<lparr>aa_recvID := i, aa_rbuf := aa_rbuf c @ data_of qs, aa_acc := acc\<rparr>"
  have "frames_ok rs" using assms(4) d(1) by (simp add: frames_ok_def)
  then have "auth_rep L lookup uuid S ?c (aa_rbuf ?c @ data_of rs)" using assms(1-3) d(3) by (intro running) simp_all
  moreover have "data_of ps = data_of qs @ data_of rs" by (simp add: d(1) data_of_def)
  ultimately show ?thesis using d(2,4) by (intro exI [of _ ?c]) simp
qed

lemma pump_rep:
  assumes "auth_rep L lookup uuid S c s" and "aa_rbuf c = []"
  shows "\<exists>c'. pump L lookup avail c = (if aa_stream c = [] then Error ''EOF'' else Return (), c') \<and> auth_rep L lookup uuid S c' s
    \<and> (aa_stream c = [] \<longrightarrow> aa_rbuf c' = s)"
proof -
  define n where "n = min 8192 (Suc avail)"
  define b where "b = c\<lparr>aa_acc := aa_acc c @ take n (aa_stream c), aa_stream := drop n (aa_stream c)\<rparr>"
  have bs: "aa_acc b @ aa_stream b = aa_acc c @ aa_stream c" "aa_gotHdr b = aa_gotHdr c" "aa_uuid b = aa_uuid c" "aa_rbuf b = aa_rbuf c"
    "aa_userKey b = aa_userKey c" "aa_recvID b = aa_recvID c" "aa_iv b = aa_iv c" "aa_cipherKey b = aa_cipherKey c"
    "aa_stream c = [] \<Longrightarrow> aa_stream b = []" by (simp_all add: b_def)
  define err where "err = (if aa_stream c = [] then Error ''EOF'' else Return ())"
  have p: "pump L lookup avail c = (case (if aa_gotHdr b then (Return (), b) else decodeHeader L lookup b) of (r, a1) \<Rightarrow>
      case r of Error e \<Rightarrow> (if e = errNeedMore then err else Error e, a1) | Panic p \<Rightarrow> (Panic p, a1)
      | Return u \<Rightarrow> (case decodeData L a1 of (Return u, a2) \<Rightarrow> (err, a2) | (Error e, a2) \<Rightarrow> (Error e, a2) | (Panic p, a2) \<Rightarrow> (Panic p, a2)))"
    unfolding pump_def Let_def n_def [symmetric] b_def [symmetric] err_def [symmetric] ..
  from assms(1) have "\<exists>c'. pump L lookup avail c = (err, c') \<and> auth_rep L lookup uuid S c' s \<and> (aa_stream c = [] \<longrightarrow> aa_rbuf c' = s)"
  proof cases
    case (running ps)
    have "aa_acc b @ aa_stream b = frames L (aa_userKey b) (aa_recvID b) ps" using running bs by simp
    from decode_running [OF running(2) _ _ running(5) this, of uuid lookup S] obtain c' where c': "decodeData L b = (Return (), c')"
      "auth_rep L lookup uuid S c' (aa_rbuf b @ data_of ps)" "aa_stream b = [] \<longrightarrow> aa_rbuf c' = aa_rbuf b @ data_of ps"
      using running bs by auto
    then show ?thesis using running bs by (auto simp: p)
  next
    case (start uk h ps)
    have e: "aa_acc b @ aa_stream b = hello_bytes L (aa_iv b @ aa_cipherKey b) uk h @ frames L uk 1 ps" using start bs by simp
    note dh = decode_hello [where lookup = lookup and a = b, OF start(2,5) start(6) e]
    show ?thesis
    proof (cases "length (aa_acc b) < hello_len h")
      case True
      have hl: "length (hello_bytes L (aa_iv b @ aa_cipherKey b) uk h) = hello_len h"
        using start(5) by (intro hello_bytes_length [OF start(2)]) (simp add: hello_ok_def)
      have "auth_rep L lookup uuid S b S" using start bs e by (intro auth_rep.start [of L b uk h lookup uuid ps S]) simp_all
      moreover have "aa_stream b \<noteq> []" using e True hl by (auto dest: arg_cong [of _ _ length])
      ultimately show ?thesis using dh True start bs by (auto simp: p)
    next
      case False
      let ?c = "b\<lparr>aa_rbuf := aa_rbuf b @ he_data h, aa_userKey := uk, aa_uuid := uuid, aa_recvID := 1, aa_acc := drop (hello_len h) (aa_acc b), aa_gotHdr := True\<rparr>"
      have hl: "length (hello_bytes L (aa_iv b @ aa_cipherKey b) uk h) = hello_len h"
        using start(5) by (intro hello_bytes_length [OF start(2)]) (simp add: hello_ok_def)
      obtain r where r: "aa_acc b = hello_bytes L (aa_iv b @ aa_cipherKey b) uk h @ r" "r @ aa_stream b = frames L uk 1 ps"
        using append_prefix [OF e] False hl by auto
      have "drop (hello_len h) (aa_acc b) = r" using r(1) hl by simp
      then have "aa_acc ?c @ aa_stream ?c = frames L (aa_userKey ?c) (aa_recvID ?c) ps" using r(2) by simp
      from decode_running [OF start(2) _ _ start(7) this, of uuid lookup S] obtain c' where c': "decodeData L ?c = (Return (), c')"
        "auth_rep L lookup uuid S c' (aa_rbuf ?c @ data_of ps)" "aa_stream ?c = [] \<longrightarrow> aa_rbuf c' = aa_rbuf ?c @ data_of ps" by auto
      have d: "decodeHeader L lookup b = (Return (), ?c)" using dh False by simp
      show ?thesis using c' start bs by (intro exI [of _ c']) (simp add: p d)
    qed
  qed
  then show ?thesis by (simp add: err_def)
qed

lemma auth_rep_take:
  assumes "auth_rep L lookup uuid S c s" and "aa_rbuf c \<noteq> []"
  shows "\<exists>s'. s = take k (aa_rbuf c) @ s' \<and> auth_rep L lookup uuid S (c\<lparr>aa_rbuf := drop k (aa_rbuf c)\<rparr>) s'"
  using assms(1)
proof cases
  case (running ps)
  let ?c = "c\<lparr>aa_rbuf := drop k (aa_rbuf c)\<rparr>"
  have "auth_rep L lookup uuid S ?c (aa_rbuf ?c @ data_of ps)" using running by (intro auth_rep.running) simp_all
  then show ?thesis using running by (intro exI [of _ "aa_rbuf ?c @ data_of ps"]) simp
qed (use assms(2) in simp)

text \<open>The connection keeps the contract of a plain stream, however the bytes arrive.\<close>

interpretation ssr: pumped_conn "pump L lookup avail" aa_stream aa_rbuf "\<lambda>k c. c\<lparr>aa_rbuf := drop k (aa_rbuf c)\<rparr>"
    "auth_fill L lookup avail" "auth_Read L lookup avail" "auth_rep L lookup uuid S" for L lookup avail uuid S
  by unfold_locales (rule auth_fill.simps auth_Read_def pump_less pump_rep auth_rep_take; assumption?)+

section \<open>The handshake\<close>

text \<open>The target address is read as the address of a Trojan request is; only the text of an error differs.\<close>

lemma then_full_mono:
  "then_full read n c f = Some (Return d, c') \<Longrightarrow> (\<And>x c1. f x c1 = Some (Return d, c') \<Longrightarrow> g x c1 = Some (Return d, c')) \<Longrightarrow>
   then_full read n c g = Some (Return d, c')"
  by (simp add: then_full_def split: option.splits prod.splits outcome.splits)

lemma readTargetAddr_eq: "readSocksAddr read c = Some (Return d, c') \<Longrightarrow> readTargetAddr read c = Some (Return d, c')"
  unfolding readSocksAddr_def readTargetAddr_def by (erule then_full_mono) (simp split: if_splits)

text \<open>
  Claim C25. A ShadowsocksR client is understood: when its header and frames carry the user's codes and the data begin with a target address, then in
  pieces of whatever size the bytes arrive the server's handshake finds the user and the destination that was meant, and reads
  exactly the rest of the data afterwards.
\<close>

theorem ssr_request_understood:
  assumes "hmac_ok L" and "hello_ok L uk h" and "lookup (he_uid h) = Some (uk, uuid)" and "frames_ok ps"
    and "he_data h @ data_of ps = (addr_bytes ad @ put16 port) @ payload" and "addr_ok ad" and "port < 65536"
  shows "\<exists>c c'. ssr_handshake L lookup avail (hello_bytes L (iv @ key) uk h @ frames L uk 1 ps) iv key =
        Some (Return (uuid, \<lparr>de_Address = addr_meant ad, de_Port = port\<rparr>), c)
      \<and> io_ReadFull (auth_Read L lookup avail) (length payload) c = Some (Return payload, c')"
proof -
  let ?S = "he_data h @ data_of ps"
  let ?c = "newAuthAES128 (hello_bytes L (iv @ key) uk h @ frames L uk 1 ps) iv key"
  have "auth_rep L lookup uuid ?S ?c ?S"
    using assms(1-4) by (intro start [where h = h and uk = uk and ps = ps]) (simp_all add: newAuthAES128_def)
  then have "auth_rep L lookup uuid ?S ?c ((addr_bytes ad @ put16 port) @ payload)" by (simp only: assms(5))
  from ssr.readSocksAddr_reads [OF this assms(6,7), of avail] obtain c where
    c: "readSocksAddr (auth_Read L lookup avail) ?c = Some (Return \<lparr>de_Address = addr_meant ad, de_Port = port\<rparr>, c)"
      "auth_rep L lookup uuid ?S c payload" by blast
  have "length ?S = length (addr_bytes ad) + 2 + length payload" using assms(5) by simp
  then have "payload \<noteq> ?S" by auto
  with auth_rep_running [OF c(2)] have u: "aa_uuid c = uuid" by simp
  obtain c' where "io_ReadFull (auth_Read L lookup avail) (length payload) c = Some (Return payload, c')"
    using ssr.ReadFull_prefix [of L lookup uuid ?S c payload "[]" "length payload" avail] c(2) by auto
  then show ?thesis using u readTargetAddr_eq [OF c(1)] by (simp add: ssr_handshake_def)
qed

definition demo_auth :: auth_lib where
  "demo_auth = \<lparr>al_hmac = (\<lambda>k d. replicate 20 (sum_list (k @ d))), al_md5 = (\<lambda>b. replicate 16 7), al_base64 = id,
     al_cbc = (\<lambda>k c. Inr c), al_salt = [1]\<rparr>"

definition demo_hello :: hello where
  "demo_hello = \<lparr>he_check = 5, he_uid = 10, he_enc = replicate 12 0 @ [38, 0, 1, 0], he_pad = [0], he_data = [1, 8]\<rparr>"

definition demo_users :: user_lookup where
  "demo_users i = (if i = 10 then Some ([3, 4], ''u1'') else None)"

theorem ssr_request_understood_witness:
  "\<exists>c c'. ssr_handshake demo_auth demo_users 0
       (hello_bytes demo_auth ([1] @ [2]) [3, 4] demo_hello @ frames demo_auth [3, 4] 1 [([1], [8, 8, 8, 1]), ([2, 0], [187, 42])]) [1] [2] =
     Some (Return (''u1'', \<lparr>de_Address = addr_meant (IPv4 [8, 8, 8, 8]), de_Port = 443\<rparr>), c)
     \<and> io_ReadFull (auth_Read demo_auth demo_users 0) (length [42::byte]) c = Some (Return [42], c')"
  by (rule ssr_request_understood)
    (simp_all add: hmac_ok_def demo_auth_def hello_ok_def demo_hello_def demo_users_def le16_def pad_ok_def addr_bytes_def put16_def addr_ok_def nth_append)

section \<open>Writing\<close>

lemma write_loop_decodes:
  assumes "hmac_ok L" and "\<forall>b. w b = None"
  shows "\<exists>buf i. auth_write_loop L w t p sent a = ((t + length p, None), sent @ buf, a\<lparr>aa_packID := i\<rparr>) \<and>
    (\<forall>c. aa_acc c = buf \<longrightarrow> aa_userKey c = aa_userKey a \<longrightarrow> aa_recvID c = aa_packID a \<longrightarrow>
         decodeData L c = (Return (), c\<lparr>aa_recvID := i, aa_rbuf := aa_rbuf c @ p, aa_acc := []\<rparr>))"
proof (induction "length p" arbitrary: t p sent a rule: less_induct)
  case less
  show ?case
  proof (cases "p = []")
    case True
    have "decodeData L c = (Return (), c)" if "aa_acc c = []" for c using that by (simp add: decodeData.simps [of L c] Let_def)
    then show ?thesis using True by (intro exI [of _ "[]"] exI [of _ "aa_packID a"]) (auto simp: auth_write_loop.simps)
  next
    case False
    let ?n = "min (length p) 8000"
    let ?a = "a\<lparr>aa_packID := aa_packID a + 1\<rparr>"
    let ?f = "frame L (mac_key (aa_userKey a) (aa_packID a)) ([1] @ take ?n p)"
    have "length (drop ?n p) < length p" using False by simp
    from less.hyps [OF this, of "t + ?n" "sent @ ?f" ?a] obtain buf i where
      w: "auth_write_loop L w (t + ?n) (drop ?n p) (sent @ ?f) ?a = ((t + ?n + length (drop ?n p), None), (sent @ ?f) @ buf, ?a\<lparr>aa_packID := i\<rparr>)"
      and d: "\<And>c. aa_acc c = buf \<Longrightarrow> aa_userKey c = aa_userKey ?a \<Longrightarrow> aa_recvID c = aa_packID ?a \<Longrightarrow>
         decodeData L c = (Return (), c\<lparr>aa_recvID := i, aa_rbuf := aa_rbuf c @ drop ?n p, aa_acc := []\<rparr>)" by blast
    have "auth_write_loop L w t p sent a = auth_write_loop L w (t + ?n) (drop ?n p) (sent @ ?f) ?a"
      using False by (subst auth_write_loop.simps) (simp add: Let_def writeChunk_frame [OF assms(2)])
    also have "\<dots> = ((t + length p, None), sent @ ?f @ buf, a\<lparr>aa_packID := i\<rparr>)" unfolding w by simp
    finally have l: "auth_write_loop L w t p sent a = ((t + length p, None), sent @ ?f @ buf, a\<lparr>aa_packID := i\<rparr>)" .
    have "decodeData L c = (Return (), c\<lparr>aa_recvID := i, aa_rbuf := aa_rbuf c @ p, aa_acc := []\<rparr>)"
      if c: "aa_acc c = ?f @ buf" "aa_userKey c = aa_userKey a" "aa_recvID c = aa_packID a" for c
    proof -
      let ?c = "c\<lparr>aa_recvID := aa_recvID c + 1, aa_rbuf := aa_rbuf c @ take ?n p, aa_acc := buf\<rparr>"
      have "decodeData L c = decodeData L ?c"
        using c by (intro decode_padded [where p = "[1]" and d = "take ?n p", OF assms(1)]) (simp_all add: pad_ok_def)
      also have "\<dots> = (Return (), ?c\<lparr>aa_recvID := i, aa_rbuf := aa_rbuf ?c @ drop ?n p, aa_acc := []\<rparr>)"
        by (rule d) (use c in simp_all)
      finally show ?thesis by (simp del: min_less_iff_conj)
    qed
    with l show ?thesis by blast
  qed
qed

text \<open>
  What the server writes can be decoded: the frames of a write, of whatever length, are decoded to exactly the data
  that were written when sender and receiver agree on the key and the number of the next frame, and then agree on the next number again.
\<close>

theorem ssr_write_decodes:
  assumes "hmac_ok L" and "\<forall>b. w b = None" and "aa_userKey c = aa_userKey a" and "aa_recvID c = aa_packID a"
  shows "case auth_Write L w p a of (res, buf, a') \<Rightarrow> res = (length p, None) \<and>
    decodeData L (c\<lparr>aa_acc := buf\<rparr>) = (Return (), c\<lparr>aa_recvID := aa_packID a', aa_rbuf := aa_rbuf c @ p, aa_acc := []\<rparr>)"
proof -
  from write_loop_decodes [OF assms(1,2), of 0 p "[]" a] obtain buf i where
    "auth_write_loop L w 0 p [] a = ((length p, None), buf, a\<lparr>aa_packID := i\<rparr>)"
    "\<forall>c. aa_acc c = buf \<longrightarrow> aa_userKey c = aa_userKey a \<longrightarrow> aa_recvID c = aa_packID a \<longrightarrow>
         decodeData L c = (Return (), c\<lparr>aa_recvID := i, aa_rbuf := aa_rbuf c @ p, aa_acc := []\<rparr>)" by auto
  then show ?thesis using assms(3,4) by (simp add: auth_Write_def)
qed

theorem ssr_write_decodes_witness:
  "case auth_Write demo_auth (\<lambda>b. None) [1, 2, 3] (newAuthAES128 [] [] []) of (res, buf, a') \<Rightarrow> res = (length [1::byte, 2, 3], None) \<and>
    decodeData demo_auth (newAuthAES128 [] [] []\<lparr>aa_recvID := 1, aa_acc := buf\<rparr>) =
      (Return (), newAuthAES128 [] [] []\<lparr>aa_recvID := 1, aa_recvID := aa_packID a', aa_rbuf := aa_rbuf (newAuthAES128 [] [] []\<lparr>aa_recvID := 1\<rparr>) @ [1, 2, 3], aa_acc := []\<rparr>)"
  by (rule ssr_write_decodes) (simp_all add: hmac_ok_def demo_auth_def newAuthAES128_def)

section \<open>A padding longer than its frame\<close>

text \<open>
  Claim C29. A user can end the server: a frame with valid codes whose first byte states a padding that is longer than the frame makes
  the read of the connection panic, because the bounds of the data are not compared before they are cut out. The reading goroutine has no
  recover, so the panic ends the process.
\<close>

theorem ssr_padding_panics:
  assumes "hmac_ok L" and "aa_gotHdr c" and "aa_acc c = []" and "aa_rbuf c = []"
    and "aa_stream c = frame L (mac_key (aa_userKey c) (aa_recvID c)) body" and "length body < 8184" and "8 + length body \<le> avail"
    and "body \<noteq> []" and "length body < unat (body ! 0)" and "unat (body ! 0) < 255"
  shows "\<exists>c'. auth_Read L lookup avail k c = (Panic ''slice bounds out of range'', c')"
proof -
  let ?n = "min 8192 (Suc avail)"
  let ?f = "aa_stream c"
  have fl: "length ?f = 8 + length body" using frame_length [OF assms(1)] by (simp add: assms(5))
  have n: "length ?f \<le> ?n" using fl assms(6,7) by simp
  let ?b = "c\<lparr>aa_acc := ?f, aa_stream := []\<rparr>"
  obtain x y h t where f: "?f = x # y # h @ body @ t" "length h = 2" using frame_parts [OF assms(1,6)] assms(5) by metis
  obtain h1 h2 where h: "h = [h1, h2]" using f(2) by (auto simp: length_Suc_conv numeral_2_eq_2)
  have "?f ! 4 = body ! 0" using assms(8) by (cases body) (simp_all add: f(1) h)
  then have dp: "data_pos ?f = unat (body ! 0) + 4" using assms(10) by (simp add: data_pos_def)
  have sl: "slice_of ?f (data_pos ?f) (4 + length body) = Panic ''slice bounds out of range''" unfolding dp using assms(9) by (simp add: slice_of_def)
  have "decodeData L ?b = (Panic ''slice bounds out of range'', ?b\<lparr>aa_recvID := aa_recvID c + 1\<rparr>)"
    using decode_frame [OF assms(1,8,6), of ?b "[]"] sl assms(5) by simp
  then have "pump L lookup avail c = (Panic ''slice bounds out of range'', ?b\<lparr>aa_recvID := aa_recvID c + 1\<rparr>)"
    using n assms(2,3) by (simp add: pump_def Let_def)
  then show ?thesis using assms(4) by (simp add: auth_Read_def auth_fill.simps [of L lookup avail c])
qed

theorem ssr_padding_panics_witness:
  "\<exists>c'. auth_Read demo_auth demo_users 100 1
     (newAuthAES128 (frame demo_auth (mac_key [3, 4] 1) [200]) [] []\<lparr>aa_gotHdr := True, aa_userKey := [3, 4], aa_recvID := 1\<rparr>) = (Panic ''slice bounds out of range'', c')"
  by (rule ssr_padding_panics [where body = "[200]"]) (simp_all add: hmac_ok_def demo_auth_def newAuthAES128_def)

end
