(* ===== verification/Ssr_Chain_Props.thy ===== *)
theory Ssr_Chain_Props
  imports Ssr_Chain Ssr_Props
begin

text \<open>
  What \<open>auth_chain\<close> guarantees: the lengths of paddings are in bounds, so that reading never panics whatever a client sends; a connection keeps the
  contract of a plain stream however the bytes arrive; and what the server writes is decoded by a receiver with the same chain.
\<close>

section \<open>Bisection and paddings\<close>

lemma search_between_stop: "\<not> i < j \<Longrightarrow> search_between f i j = i"
  by (subst search_between.simps) simp

lemma search_between_bounds:
  "i \<le> j \<Longrightarrow> i \<le> search_between f i j \<and> search_between f i j \<le> j"
proof (induction f i j rule: search_between.induct)
  case (1 f i j)
  show ?case
  proof (cases "i < j")
    case True
    let ?h = "(i + j) div 2"
    have "i \<le> ?h" "?h < j" using True by auto
    then show ?thesis using 1(1) [OF True refl] 1(2) [OF True refl] True
      by (subst (1 2) search_between.simps) (auto simp: Let_def)
  qed (use 1 in \<open>simp add: search_between_stop\<close>)
qed

text \<open>For a predicate that stays true, the bisection finds a place where it holds, if there is one.\<close>

lemma search_between_holds:
  assumes "i \<le> j" and "search_between f i j < j" and "\<And>x y. x \<le> y \<Longrightarrow> y < N \<Longrightarrow> f x \<Longrightarrow> f y" and "j \<le> N"
  shows "f (search_between f i j)"
  using assms
proof (induction f i j rule: search_between.induct)
  case (1 f i j)
  show ?case
  proof (cases "i < j")
    case True
    let ?h = "(i + j) div 2"
    have h: "i \<le> ?h" "?h < j" using True by auto
    show ?thesis
    proof (cases "f ?h")
      case False
      then show ?thesis using 1(1) [OF True refl False] 1(3-6) h True by (simp add: search_between.simps [of f i j] Let_def)
    next
      case hh: True
      have e: "search_between f i j = search_between f i ?h" using True hh by (simp add: search_between.simps [of f i j] Let_def)
      show ?thesis
      proof (cases "search_between f i ?h < ?h")
        case True
        then show ?thesis unfolding e using 1(2) [OF \<open>i < j\<close> refl _ h(1) True 1(5)] hh h 1(6) by auto
      next
        case False
        then have "search_between f i ?h = ?h" using search_between_bounds [OF h(1), of f] by simp
        then show ?thesis unfolding e using hh by simp
      qed
    qed
  qed (use 1 in \<open>simp add: search_between_stop\<close>)
qed

lemma sort_Search_sorted:
  assumes "sorted l" and "p = sort_Search (length l) (\<lambda>i. x \<le> l ! i)" and "p \<le> q" and "q < length l"
  shows "x \<le> l ! q"
proof -
  have mono: "x \<le> l ! b" if "a \<le> b" "b < length l" "x \<le> l ! a" for a b
    using sorted_nth_mono [OF assms(1) that(1,2)] that(3) by simp
  have "p < length l" using assms(3,4) by simp
  then have "x \<le> l ! p"
    using search_between_holds [of 0 "length l" "\<lambda>i. x \<le> l ! i" "length l"] mono assms(2) by (simp add: sort_Search_def)
  then show ?thesis using mono assms(3,4) by blast
qed

definition sizes_ok :: "nat list \<Rightarrow> bool" where
  "sizes_ok l \<longleftrightarrow> l \<noteq> [] \<and> sorted l \<and> (\<forall>x \<in> set l. x < 1440)"

definition chain_ok :: "authChain \<Rightarrow> bool" where
  "chain_ok a \<longleftrightarrow> (ac_salt a = ''auth_chain_b'' \<longrightarrow> sizes_ok (ac_dsl a) \<and> sizes_ok (ac_dsl2 a))"

lemma data_size_less: "data_size r = (v, r1) \<Longrightarrow> v < 1440"
  by (auto simp: data_size_def split: prod.splits)

lemma data_sizes_ok: "data_sizes n r = (l, r1) \<Longrightarrow> length l = n \<and> (\<forall>x \<in> set l. x < 1440)"
  by (induction n arbitrary: r l) (auto split: prod.splits dest: data_size_less)

lemma newAuthChain_ok: "chain_ok (newAuthChain stream iv key salt)"
proof (cases "salt = ''auth_chain_b''")
  case True
  obtain n r1 where 1: "next_mod 8 (initFromBin key) = (n, r1)" by force
  obtain l r2 where 2: "data_sizes (n + 4) r1 = (l, r2)" by force
  obtain n2 r3 where 3: "next_mod 16 r2 = (n2, r3)" by force
  obtain l2 r4 where 4: "data_sizes (n2 + 8) r3 = (l2, r4)" by force
  have "l \<noteq> []" "l2 \<noteq> []" using data_sizes_ok [OF 2] data_sizes_ok [OF 4] by auto
  then have "set (sort l) \<noteq> {}" "set (sort l2) \<noteq> {}" by simp_all
  then have "sizes_ok (sort l)" "sizes_ok (sort l2)" using data_sizes_ok [OF 2] data_sizes_ok [OF 4] by (auto simp: sizes_ok_def simp del: set_sort) (simp_all)
  then show ?thesis using True by (simp add: chain_ok_def newAuthChain_def Let_def 1 2 3 4)
qed (simp add: chain_ok_def newAuthChain_def Let_def)

text \<open>
  The length of a padding: never negative, below 1440 and zero for long data. It is fixed by the code of the frame before: the state of the generator has no
  influence, so a frame that is looked at again has the same length.
\<close>

definition rand_len_is :: "authChain \<Rightarrow> nat \<Rightarrow> bytes \<Rightarrow> nat \<Rightarrow> xorShift128Plus option \<Rightarrow> bool" where
  "rand_len_is a n h v g \<longleftrightarrow> v < 1440 \<and> (1440 < n \<longrightarrow> v = 0) \<and> (g = None \<longrightarrow> v = 0)
     \<and> (\<forall>r. getRandLen a n h r = Return (int v, case g of None \<Rightarrow> r | Some r1 \<Rightarrow> r1))"

lemma next_mod_less: "next_mod n r = (v, r1) \<Longrightarrow> 0 < n \<Longrightarrow> v < n"
  by (auto simp: next_mod_def split: prod.splits)

lemma short_rand_less: "short_rand n r = (v, r1) \<Longrightarrow> v < 1440"
  by (auto simp: short_rand_def split: if_splits dest!: next_mod_less)

lemma list_size:
  assumes "sizes_ok l" and "p = sort_Search (length l) (\<lambda>i. n + ov \<le> l ! i)" and "p + k < length l"
  shows "\<exists>v. int (l ! (p + k)) - int n - int ov = int v \<and> v < 1440"
proof -
  have "n + ov \<le> l ! (p + k)" using assms sort_Search_sorted [of l p "n + ov" "p + k"] by (simp add: sizes_ok_def)
  moreover have "l ! (p + k) < 1440" using assms(1,3) by (simp add: sizes_ok_def)
  ultimately show ?thesis by (intro exI [of _ "l ! (p + k) - n - ov"]) auto
qed

lemma rand_len_B:
  assumes "sizes_ok (ac_dsl a)" and "sizes_ok (ac_dsl2 a)" and "n < 1440"
  shows "\<exists>v r1. v < 1440 \<and> (\<forall>r. getRandLenB a n h r = Return (int v, r1))"
proof -
  define p where "p = sort_Search (length (ac_dsl a)) (\<lambda>i. n + ac_overhead a \<le> ac_dsl a ! i)"
  define p2 where "p2 = sort_Search (length (ac_dsl2 a)) (\<lambda>i. n + ac_overhead a \<le> ac_dsl2 a ! i)"
  obtain k r1 where k: "next_mod (length (ac_dsl a)) (initFromBinAndLength h n) = (k, r1)" by force
  obtain k2 r2 where k2: "next_mod (length (ac_dsl2 a)) r1 = (k2, r2)" by force
  obtain v3 r3 where v3: "short_rand n r2 = (v3, r3)" by force
  have ne: "ac_dsl a \<noteq> []" "ac_dsl2 a \<noteq> []" using assms(1,2) by (simp_all add: sizes_ok_def)
  have B: "getRandLenB a n h r =
      (if p + k < length (ac_dsl a) then Return (int (ac_dsl a ! (p + k)) - int n - int (ac_overhead a), r1)
       else if p2 + k2 < length (ac_dsl2 a) then Return (int (ac_dsl2 a ! (p2 + k2)) - int n - int (ac_overhead a), r2)
       else if int (p2 + k2) < int p2 + int (length (ac_dsl2 a)) - 1 then Return (0, r2) else Return (int v3, r3))" for r
    using assms(3) ne unfolding getRandLenB_def Let_def p_def [symmetric] p2_def [symmetric] k case_prod_conv k2 v3 by simp
  consider "p + k < length (ac_dsl a)" | "\<not> p + k < length (ac_dsl a)" "p2 + k2 < length (ac_dsl2 a)"
    | "\<not> p + k < length (ac_dsl a)" "\<not> p2 + k2 < length (ac_dsl2 a)" by blast
  then show ?thesis
  proof cases
    case 1
    from list_size [OF assms(1) p_def 1] obtain v where "int (ac_dsl a ! (p + k)) - int n - int (ac_overhead a) = int v" "v < 1440" by blast
    then show ?thesis using 1 unfolding B by (intro exI [of _ v] exI [of _ r1]) simp
  next
    case 2
    from list_size [OF assms(2) p2_def 2(2)] obtain v where "int (ac_dsl2 a ! (p2 + k2)) - int n - int (ac_overhead a) = int v" "v < 1440" by blast
    then show ?thesis using 2 unfolding B by (intro exI [of _ v] exI [of _ r2]) simp
  next
    case 3
    define z where "z = (if int (p2 + k2) < int p2 + int (length (ac_dsl2 a)) - 1 then (0, r2) else (v3, r3))"
    have "getRandLenB a n h r = Return (int (fst z), snd z)" for r using 3 unfolding B z_def by simp
    moreover have "fst z < 1440" using short_rand_less [OF v3] by (simp add: z_def)
    ultimately show ?thesis by blast
  qed
qed

lemma rand_len_exists:
  assumes "chain_ok a"
  shows "\<exists>v g. rand_len_is a n h v g"
proof (cases "ac_salt a = ''auth_chain_b''")
  case True
  show ?thesis
  proof (cases "n < 1440")
    case lt: True
    from rand_len_B [of a n h] assms True lt obtain v r1 where "v < 1440" "\<forall>r. getRandLenB a n h r = Return (int v, r1)"
      by (auto simp: chain_ok_def)
    then show ?thesis using True lt by (intro exI [of _ v] exI [of _ "Some r1"]) (simp add: rand_len_is_def getRandLen_def)
  next
    case False
    then show ?thesis using True by (intro exI [of _ 0] exI [of _ None]) (simp add: rand_len_is_def getRandLen_def getRandLenB_def)
  qed
next
  case False
  show ?thesis
  proof (cases "1440 < n")
    case True
    then show ?thesis using False by (intro exI [of _ 0] exI [of _ None]) (simp add: rand_len_is_def getRandLen_def)
  next
    case lt: False
    obtain v r1 where v: "short_rand n (initFromBinAndLength h n) = (v, r1)" by force
    then show ?thesis using False lt short_rand_less [OF v] by (intro exI [of _ v] exI [of _ "Some r1"]) (simp add: rand_len_is_def getRandLen_def)
  qed
qed

text \<open>Only the salt, the overhead and the two lists of sizes matter.\<close>

definition same_sizes :: "authChain \<Rightarrow> authChain \<Rightarrow> bool" where
  "same_sizes a b \<longleftrightarrow> ac_salt a = ac_salt b \<and> ac_overhead a = ac_overhead b \<and> ac_dsl a = ac_dsl b \<and> ac_dsl2 a = ac_dsl2 b"

lemma rand_len_is_same: "same_sizes a b \<Longrightarrow> rand_len_is a n h v g \<longleftrightarrow> rand_len_is b n h v g"
  by (simp add: rand_len_is_def getRandLen_def getRandLenB_def same_sizes_def)

lemma chain_ok_same: "same_sizes a b \<Longrightarrow> chain_ok a \<longleftrightarrow> chain_ok b"
  by (simp add: chain_ok_def same_sizes_def)

lemma getRandStartPos_less: "getRandStartPos v r = (sp, r1) \<Longrightarrow> 0 < v \<Longrightarrow> sp < v"
  by (auto simp: getRandStartPos_def split: prod.splits)

section \<open>Reading never panics\<close>

lemma XORKeyStream_length: "XORKeyStream d c = (w, c1) \<Longrightarrow> length w = length d"
  by (induction d arbitrary: c w) (auto split: prod.splits)

definition safe_conn :: "authChain \<Rightarrow> bool" where
  "safe_conn a \<longleftrightarrow> chain_ok a \<and> (ac_gotHdr a \<longrightarrow> ac_rc4dec a \<noteq> None)"

text \<open>A turn of the loop, with the length of the padding at hand.\<close>

lemma decode_one_eq:
  assumes "rand_len_is a n (ac_lastClientHash a) v g" and "4 < length (ac_acc a)"
    and "n = unat (word_of_nat (le16 (ac_acc a ! 0) (ac_acc a ! 1)) XOR word_of_nat (le16 (ac_lastClientHash a ! 14) (ac_lastClientHash a ! 15)) :: 16 word)"
  shows "\<exists>rc. decode_one L a =
    (let b = ac_acc a; h1 = al_hmac L (mac_key (ac_userKey a) (ac_recvID a)) (take (n + v + 2) b); a1 = a\<lparr>ac_randClient := rc\<rparr> in
     if 4096 \<le> n + v then (Error ''ssr: auth_chain length error'', a1)
     else if length b < 4 + (n + v) then (Return False, a1)
     else if take 2 h1 \<noteq> take 2 (drop (n + v + 2) b) then (Error ''ssr: auth_chain data hmac mismatch'', a1)
     else
       (let (sp, rc2) = (if 0 < n \<and> 0 < v then getRandStartPos v rc else (0, rc)); a2 = a1\<lparr>ac_lastClientHash := h1, ac_randClient := rc2\<rparr> in
        case (slice_of b (2 + sp) (2 + sp + n), ac_rc4dec a) of
          (Return d, Some c) \<Rightarrow>
            (case XORKeyStream d c of (wanted, c1) \<Rightarrow>
               (Return True, a2\<lparr>ac_rc4dec := Some c1, ac_rbuf := ac_rbuf a @ wanted, ac_recvID := ac_recvID a + 1, ac_acc := drop (n + v + 4) b\<rparr>))
        | (Return d, None) \<Rightarrow> (Panic ''nil pointer dereference'', a2)
        | (Error e, x) \<Rightarrow> (Error e, a2)
        | (Panic p, x) \<Rightarrow> (Panic p, a2))) \<and> (0 < v \<longrightarrow> g = Some rc)"
proof -
  define rc where "rc = (case g of None \<Rightarrow> ac_randClient a | Some r1 \<Rightarrow> r1)"
  have g: "getRandLen a n (ac_lastClientHash a) (ac_randClient a) = Return (int v, rc)" using assms(1) by (simp add: rand_len_is_def rc_def)
  have i: "nat (int n + int v) = n + v" "\<not> length (ac_acc a) \<le> 4" "4096 \<le> int n + int v \<longleftrightarrow> 4096 \<le> n + v" "0 < int v \<longleftrightarrow> 0 < v"
    "\<not> (int v < 0 \<or> int n + int v < 0)" using assms(2) by auto
  have "0 < v \<longrightarrow> g = Some rc" using assms(1) by (auto simp: rand_len_is_def rc_def split: option.splits)
  then show ?thesis
    unfolding decode_one_def Let_def assms(3) [symmetric] g
    by (intro exI [of _ rc]) (simp only: i if_False outcome.case prod.case nat_int simp_thms)
qed

lemma frame_slice:
  assumes "0 < n \<Longrightarrow> 0 < v \<Longrightarrow> sp < v" and "n = 0 \<or> v = 0 \<Longrightarrow> sp = 0" and "4 + (n + v) \<le> length b"
  shows "\<exists>d. slice_of b (2 + sp) (2 + sp + n) = Return d"
  using assms by (cases "n = 0"; cases "v = 0") (auto simp: slice_of_def)

lemma decode_one_safe:
  assumes "chain_ok a" and "ac_rc4dec a \<noteq> None" and "decode_one L a = (r, a1)"
  shows "(\<forall>p. r \<noteq> Panic p) \<and> r \<noteq> Error ''ssr: auth_chain bad length'' \<and> chain_ok a1 \<and> ac_rc4dec a1 \<noteq> None"
proof (cases "4 < length (ac_acc a)")
  case False
  then show ?thesis using assms by (auto simp: decode_one_def Let_def)
next
  case True
  define n where "n = unat (word_of_nat (le16 (ac_acc a ! 0) (ac_acc a ! 1)) XOR word_of_nat (le16 (ac_lastClientHash a ! 14) (ac_lastClientHash a ! 15)) :: 16 word)"
  obtain v g where v: "rand_len_is a n (ac_lastClientHash a) v g" using rand_len_exists [OF assms(1)] by blast
  define b where "b = ac_acc a"
  define m where "m = n + v"
  obtain rc where D: "decode_one L a =
    (let h1 = al_hmac L (mac_key (ac_userKey a) (ac_recvID a)) (take (m + 2) b); a1 = a\<lparr>ac_randClient := rc\<rparr> in
     if 4096 \<le> m then (Error ''ssr: auth_chain length error'', a1)
     else if length b < 4 + m then (Return False, a1)
     else if take 2 h1 \<noteq> take 2 (drop (m + 2) b) then (Error ''ssr: auth_chain data hmac mismatch'', a1)
     else
       (let (sp, rc2) = (if 0 < n \<and> 0 < v then getRandStartPos v rc else (0, rc)); a2 = a1\<lparr>ac_lastClientHash := h1, ac_randClient := rc2\<rparr> in
        case (slice_of b (2 + sp) (2 + sp + n), ac_rc4dec a) of
          (Return d, Some c) \<Rightarrow>
            (case XORKeyStream d c of (wanted, c1) \<Rightarrow>
               (Return True, a2\<lparr>ac_rc4dec := Some c1, ac_rbuf := ac_rbuf a @ wanted, ac_recvID := ac_recvID a + 1, ac_acc := drop (m + 4) b\<rparr>))
        | (Return d, None) \<Rightarrow> (Panic ''nil pointer dereference'', a2)
        | (Error e, x) \<Rightarrow> (Error e, a2)
        | (Panic p, x) \<Rightarrow> (Panic p, a2)))"
    using decode_one_eq [OF v True n_def, of L] unfolding b_def m_def by (auto simp: Let_def)
  obtain sp rc2 where sp: "(if 0 < n \<and> 0 < v then getRandStartPos v rc else (0, rc)) = (sp, rc2)" by force
  obtain c where c: "ac_rc4dec a = Some c" using assms(2) by blast
  have ok: "chain_ok a \<Longrightarrow> chain_ok (a\<lparr>ac_randClient := x\<rparr>)"
    "chain_ok a \<Longrightarrow> chain_ok (a\<lparr>ac_randClient := rc, ac_lastClientHash := z, ac_randClient := x, ac_rc4dec := y, ac_rbuf := rb, ac_recvID := ri, ac_acc := ra\<rparr>)"
    for x y z rb ri ra by (simp_all add: chain_ok_def)
  show ?thesis
  proof (cases "length b < 4 + m")
    case True
    then show ?thesis using assms D ok(1) by (auto simp: Let_def split: if_splits)
  next
    case False
    have s: "n = 0 \<or> v = 0 \<Longrightarrow> sp = 0" "0 < n \<Longrightarrow> 0 < v \<Longrightarrow> sp < v"
      using sp getRandStartPos_less [of v rc sp rc2] by auto
    obtain d where d: "slice_of b (2 + sp) (2 + sp + n) = Return d"
      using frame_slice [of n v sp b] s False unfolding m_def not_less by blast
    obtain w c1 where x: "XORKeyStream d c = (w, c1)" by force
    show ?thesis using assms D False ok unfolding sp case_prod_conv d Let_def by (auto simp: x c split: if_splits)
  qed
qed

lemma chain_decodeData_safe:
  assumes "chain_ok a" and "ac_rc4dec a \<noteq> None" and "chain_decodeData L a = (r, a1)"
  shows "(\<forall>p. r \<noteq> Panic p) \<and> r \<noteq> Error ''ssr: auth_chain bad length'' \<and> chain_ok a1 \<and> ac_rc4dec a1 \<noteq> None"
  using assms
proof (induction L a arbitrary: r rule: chain_decodeData.induct)
  case (1 L a)
  obtain x a2 where d: "decode_one L a = (x, a2)" by force
  note s = decode_one_safe [OF 1(2,3) d]
  show ?case
  proof (cases x)
    case (Return b)
    show ?thesis
    proof (cases b)
      case True
      then show ?thesis using 1(1) [OF d [symmetric]] Return 1(4) s by (simp add: chain_decodeData.simps [of L a] d)
    next
      case False
      then show ?thesis using Return 1(4) s by (auto simp: chain_decodeData.simps [of L a] d)
    qed
  qed (use 1(4) s in \<open>auto simp: chain_decodeData.simps [of L a] d\<close>)
qed

lemma chain_decodeHeader_safe:
  assumes "chain_ok a" and "chain_decodeHeader L lookup a = (r, a1)"
  shows "(\<forall>p. r \<noteq> Panic p) \<and> chain_ok a1 \<and> (r = Return () \<longrightarrow> ac_rc4dec a1 \<noteq> None) \<and> ac_rbuf a1 = ac_rbuf a
    \<and> ((\<exists>e. r = Error e) \<longrightarrow> ac_gotHdr a1 = ac_gotHdr a)"
  using assms by (auto simp: chain_decodeHeader_def Let_def chain_ok_def split: if_splits option.splits sum.splits)

lemma decode_one_gotHdr: "decode_one L a = (r, a1) \<Longrightarrow> ac_gotHdr a1 = ac_gotHdr a"
  by (auto simp: decode_one_def Let_def split: if_splits outcome.splits prod.splits option.splits)

lemma chain_pump_safe:
  assumes s: "safe_conn a" and p: "chain_pump L lookup avail a = (r, a1)"
  shows "(\<forall>q. r \<noteq> Panic q) \<and> safe_conn a1"
proof -
  define n where "n = min 8192 (Suc avail)"
  define b where "b = a\<lparr>ac_acc := ac_acc a @ take n (ac_stream a), ac_stream := drop n (ac_stream a)\<rparr>"
  have b: "chain_ok b" "ac_gotHdr b \<Longrightarrow> ac_rc4dec b \<noteq> None" using s by (simp_all add: b_def safe_conn_def chain_ok_def)
  obtain r2 a2 where h: "(if ac_gotHdr b then (Return (), b) else chain_decodeHeader L lookup b) = (r2, a2)" by force
  have h2: "\<forall>q. r2 \<noteq> Panic q" "chain_ok a2" "r2 = Return () \<Longrightarrow> ac_rc4dec a2 \<noteq> None" "(\<exists>e. r2 = Error e) \<Longrightarrow> \<not> ac_gotHdr a2"
    using h b chain_decodeHeader_safe [OF b(1), of L lookup r2 a2] by (auto split: if_splits)
  obtain r3 a3 where d: "chain_decodeData L a2 = (r3, a3)" by force
  have "chain_pump L lookup avail a = (case r2 of
      Error e \<Rightarrow> (if e = errNeedMore then if ac_stream a = [] then Error ''EOF'' else Return () else Error e, a2)
    | Panic q \<Rightarrow> (Panic q, a2)
    | Return u \<Rightarrow> (case r3 of Return u \<Rightarrow> (if ac_stream a = [] then Error ''EOF'' else Return (), a3) | Error e \<Rightarrow> (Error e, a3) | Panic q \<Rightarrow> (Panic q, a3)))"
    unfolding chain_pump_def Let_def n_def [symmetric] b_def [symmetric] h case_prod_conv d by (cases r2; cases r3; simp)
  then have e: "(r, a1) = (case r2 of
      Error e \<Rightarrow> (if e = errNeedMore then if ac_stream a = [] then Error ''EOF'' else Return () else Error e, a2)
    | Panic q \<Rightarrow> (Panic q, a2)
    | Return u \<Rightarrow> (case r3 of Return u \<Rightarrow> (if ac_stream a = [] then Error ''EOF'' else Return (), a3) | Error e \<Rightarrow> (Error e, a3) | Panic q \<Rightarrow> (Panic q, a3)))"
    using p by simp
  show ?thesis
  proof (cases r2)
    case (Return u)
    with chain_decodeData_safe [OF h2(2) _ d] h2(3) have "\<forall>q. r3 \<noteq> Panic q" "chain_ok a3" "ac_rc4dec a3 \<noteq> None" by auto
    then show ?thesis using e Return by (cases r3) (auto simp: safe_conn_def)
  next
    case (Error x)
    then show ?thesis using e h2(2,4) by (auto simp: safe_conn_def)
  qed (use h2(1) in blast)
qed

lemma chain_fill_safe:
  "safe_conn a \<Longrightarrow> chain_fill L lookup avail a = (r, a1) \<Longrightarrow> (\<forall>q. r \<noteq> Panic q) \<and> safe_conn a1"
proof (induction "length (ac_stream a)" arbitrary: a rule: less_induct)
  case less
  obtain r2 a2 where p: "chain_pump L lookup avail a = (r2, a2)" by force
  note s = chain_pump_safe [OF less.prems(1) p]
  show ?case
  proof (cases "ac_rbuf a = []")
    case True
    show ?thesis
    proof (cases r2)
      case (Return u)
      have "chain_fill L lookup avail a2 = (r, a1)" using less.prems(2) True Return p by (simp add: chain_fill.simps [of L lookup avail a])
      then show ?thesis using less.hyps [of a2] chain_pump_less [of L lookup avail a u a2] s p Return by blast
    next
      case (Error e)
      then show ?thesis using less.prems(2) True p s by (auto simp: chain_fill.simps [of L lookup avail a] split: if_splits)
    qed (use s in blast)
  qed (use less.prems in \<open>auto simp: chain_fill.simps [of L lookup avail a]\<close>)
qed

text \<open>Reads with the given sizes and the pieces that have arrived, one after the other.\<close>

fun chain_reads :: "auth_lib \<Rightarrow> user_lookup \<Rightarrow> (nat \<times> nat) list \<Rightarrow> authChain \<Rightarrow> bytes outcome list \<times> authChain" where
  "chain_reads L lookup [] a = ([], a)"
| "chain_reads L lookup ((avail, k) # rs) a =
     (case chain_Read L lookup avail k a of (r, a1) \<Rightarrow> (case chain_reads L lookup rs a1 of (xs, a2) \<Rightarrow> (r # xs, a2)))"

lemma chain_reads_safe: "safe_conn a \<Longrightarrow> chain_reads L lookup rs a = (xs, a1) \<Longrightarrow> Panic q \<notin> set xs"
proof (induction L lookup rs a arbitrary: xs a1 rule: chain_reads.induct)
  case (2 L lookup avail k rs a)
  obtain r a2 where f: "chain_fill L lookup avail a = (r, a2)" by force
  note s = chain_fill_safe [OF 2(2) f]
  obtain r3 a3 where R: "chain_Read L lookup avail k a = (r3, a3)" by force
  then have "r3 \<noteq> Panic q \<and> safe_conn a3" using s f by (auto simp: chain_Read_def safe_conn_def chain_ok_def split: outcome.splits)
  moreover obtain ys a4 where "chain_reads L lookup rs a3 = (ys, a4)" by force
  ultimately show ?case using 2(1) [OF R [symmetric], of ys a4] 2(3) R by auto
qed simp

text \<open>
  Claim C28. Whatever a client sends on an \<open>auth_chain\<close> connection, in pieces of whatever size it arrives, no read ever panics: the places and lengths that
  come out of the generator always lie within the bytes that are there. This is not so for \<open>auth_aes128\<close>, whose paddings the client states.
\<close>

theorem chain_never_panics:
  "Panic q \<notin> set (fst (chain_reads L lookup rs (newAuthChain stream iv key salt)))"
proof -
  have "safe_conn (newAuthChain stream iv key salt)" using newAuthChain_ok by (simp add: safe_conn_def newAuthChain_def Let_def split: prod.splits)
  then show ?thesis using chain_reads_safe by (metis prod.exhaust_sel)
qed

section \<open>Frames\<close>

text \<open>
  A frame has the encrypted data \<open>d\<close> between two pieces of padding; the sender's chain decides how long the pieces are. The code of
  a frame seeds the next one.
\<close>

type_synonym chain_piece = "bytes \<times> bytes \<times> bytes"

definition hidden_len :: "bytes \<Rightarrow> nat \<Rightarrow> bytes" where
  "hidden_len h n = putle16 (unat (word_of_nat n XOR word_of_nat (le16 (h ! 14) (h ! 15)) :: 16 word))"

fun unsealed :: "bytes \<Rightarrow> chain_piece \<Rightarrow> bytes" where
  "unsealed h (p1, d, p2) = hidden_len h (length d) @ p1 @ d @ p2"

definition next_code :: "auth_lib \<Rightarrow> bytes \<Rightarrow> 32 word \<Rightarrow> bytes \<Rightarrow> chain_piece \<Rightarrow> bytes" where
  "next_code L uk i h f = al_hmac L (mac_key uk i) (unsealed h f)"

definition chain_frame :: "auth_lib \<Rightarrow> bytes \<Rightarrow> 32 word \<Rightarrow> bytes \<Rightarrow> chain_piece \<Rightarrow> bytes" where
  "chain_frame L uk i h f = unsealed h f @ take 2 (next_code L uk i h f)"

fun chain_frames :: "auth_lib \<Rightarrow> bytes \<Rightarrow> 32 word \<Rightarrow> bytes \<Rightarrow> chain_piece list \<Rightarrow> bytes" where
  "chain_frames L uk i h [] = []"
| "chain_frames L uk i h (f # fs) = chain_frame L uk i h f @ chain_frames L uk (i + 1) (next_code L uk i h f) fs"

fun frame_fits :: "authChain \<Rightarrow> bytes \<Rightarrow> chain_piece \<Rightarrow> bool" where
  "frame_fits a h (p1, d, p2) \<longleftrightarrow>
     (\<exists>v g. rand_len_is a (length d) h v g \<and> length p1 + length p2 = v \<and> 0 < length d + v \<and> length d + v < 4096
        \<and> (0 < v \<and> d \<noteq> [] \<longrightarrow> (\<exists>r. g = Some r \<and> length p1 = fst (getRandStartPos v r))))"

fun frames_fit :: "auth_lib \<Rightarrow> authChain \<Rightarrow> bytes \<Rightarrow> 32 word \<Rightarrow> bytes \<Rightarrow> chain_piece list \<Rightarrow> bool" where
  "frames_fit L a uk i h [] \<longleftrightarrow> True"
| "frames_fit L a uk i h (f # fs) \<longleftrightarrow> frame_fits a h f \<and> frames_fit L a uk (i + 1) (next_code L uk i h f) fs"

definition cipher_text :: "chain_piece list \<Rightarrow> bytes" where
  "cipher_text fs = concat (map (fst \<circ> snd) fs)"

lemma cipher_text_simps [simp]: "cipher_text [] = []" "cipher_text ((p1, d, p2) # fs) = d @ cipher_text fs"
  by (simp_all add: cipher_text_def)

lemma frame_fits_same: "same_sizes a b \<Longrightarrow> frame_fits a h f \<longleftrightarrow> frame_fits b h f"
  by (cases f) (simp add: rand_len_is_same [of a b])

lemma frames_fit_same: "same_sizes a b \<Longrightarrow> frames_fit L a uk i h fs \<longleftrightarrow> frames_fit L b uk i h fs"
  by (induction L a uk i h fs rule: frames_fit.induct) (simp_all add: frame_fits_same [of a b for a b])

definition codes_ok :: "auth_lib \<Rightarrow> bool" where
  "codes_ok L \<longleftrightarrow> (\<forall>k d. length (al_hmac L k d) = 16)"

lemma le16_unat: "le16 (word_of_nat (unat w)) (word_of_nat (unat w div 256)) = unat (w :: 16 word)"
  using unsigned_less [of w, where ?'a = nat] by (intro le16_words) simp

lemma hidden_len_back:
  assumes "n < 65536" and "hidden_len h n = [x, y]"
  shows "unat (word_of_nat (le16 x y) XOR word_of_nat (le16 (h ! 14) (h ! 15)) :: 16 word) = n"
proof -
  let ?m = "word_of_nat (le16 (h ! 14) (h ! 15)) :: 16 word"
  have "le16 x y = unat (word_of_nat n XOR ?m)" using assms(2) le16_unat [of "word_of_nat n XOR ?m"] by (auto simp: hidden_len_def putle16_def)
  then have "(word_of_nat (le16 x y) XOR ?m) = (word_of_nat n :: 16 word)" by (simp add: xor.assoc)
  then show ?thesis using assms(1) by (simp add: unat_of_nat)
qed

lemma hidden_len_two: "\<exists>x y. hidden_len h n = [x, y]"
  by (simp add: hidden_len_def putle16_def)

lemma chain_frame_length: "codes_ok L \<Longrightarrow> length (chain_frame L uk i h (p1, d, p2)) = 4 + (length d + (length p1 + length p2))"
  by (simp add: chain_frame_def codes_ok_def next_code_def hidden_len_def)

text \<open>A complete frame is taken off; of an incomplete one nothing is taken.\<close>

lemma chain_decode_frame:
  assumes ok: "codes_ok L" and fits: "frame_fits a (ac_lastClientHash a) (p1, d, p2)" and c: "ac_rc4dec a = Some c"
    and acc: "ac_acc a = chain_frame L (ac_userKey a) (ac_recvID a) (ac_lastClientHash a) (p1, d, p2) @ rest"
    and x: "XORKeyStream d c = (w, c1)"
  shows "\<exists>rc. decode_one L a = (Return True,
    a\<lparr>ac_lastClientHash := next_code L (ac_userKey a) (ac_recvID a) (ac_lastClientHash a) (p1, d, p2), ac_randClient := rc, ac_rc4dec := Some c1,
      ac_rbuf := ac_rbuf a @ w, ac_recvID := ac_recvID a + 1, ac_acc := rest\<rparr>)"
proof -
  define h where "h = ac_lastClientHash a"
  define b where "b = ac_acc a"
  let ?u = "unsealed h (p1, d, p2)"
  let ?k = "next_code L (ac_userKey a) (ac_recvID a) h (p1, d, p2)"
  from fits obtain v g where v: "rand_len_is a (length d) h v g" "length p1 + length p2 = v" "0 < length d + v" "length d + v < 4096"
    "0 < v \<Longrightarrow> d \<noteq> [] \<Longrightarrow> \<exists>r. g = Some r \<and> length p1 = fst (getRandStartPos v r)" by (auto simp: h_def)
  obtain lx ly where l: "hidden_len h (length d) = [lx, ly]" using hidden_len_two by blast
  have b: "b = (lx # ly # p1) @ d @ (p2 @ take 2 ?k @ rest)" using acc l by (simp add: b_def h_def [symmetric] chain_frame_def)
  have k: "length ?k = 16" using ok by (simp add: next_code_def codes_ok_def)
  have n: "length d = unat (word_of_nat (le16 (b ! 0) (b ! 1)) XOR word_of_nat (le16 (h ! 14) (h ! 15)) :: 16 word)"
    using hidden_len_back [OF _ l] v(4) by (simp add: b)
  have u: "?u = lx # ly # p1 @ d @ p2" "length ?u = length d + v + 2" using l v(2) by simp_all
  have bu: "b = ?u @ take 2 ?k @ rest" by (simp add: b l)
  have t: "take (length d + v + 2) b = ?u" "drop (length d + v + 2) b = take 2 ?k @ rest" unfolding u(2) [symmetric] by (simp_all add: bu)
  then have t2: "take 2 (drop (length d + v + 2) b) = take 2 ?k" using k by simp
  have "drop (length d + v + 4) b = drop 2 (drop (length d + v + 2) b)" unfolding drop_drop by (rule arg_cong [where f = "\<lambda>n. drop n b"]) simp
  also have "\<dots> = rest" unfolding t(2) using k by simp
  finally have t4: "drop (length d + v + 4) b = rest" .
  have "length b = 4 + (length d + v) + length rest" using k v(2) by (simp add: b)
  then have len: "4 < length (ac_acc a)" "\<not> length b < 4 + (length d + v)" using v(3) by (simp_all add: b_def [symmetric])
  have nle: "\<not> 4096 \<le> length d + v" using v(4) by simp
  have "\<exists>rc. decode_one L a =
    (let h1 = al_hmac L (mac_key (ac_userKey a) (ac_recvID a)) ?u; a1 = a\<lparr>ac_randClient := rc\<rparr> in
     if take 2 h1 \<noteq> take 2 ?k then (Error ''ssr: auth_chain data hmac mismatch'', a1)
     else
       (let (sp, rc2) = (if 0 < length d \<and> 0 < v then getRandStartPos v rc else (0, rc)); a2 = a1\<lparr>ac_lastClientHash := h1, ac_randClient := rc2\<rparr> in
        case (slice_of b (2 + sp) (2 + sp + length d), ac_rc4dec a) of
          (Return d, Some c) \<Rightarrow>
            (case XORKeyStream d c of (wanted, c1) \<Rightarrow>
               (Return True, a2\<lparr>ac_rc4dec := Some c1, ac_rbuf := ac_rbuf a @ wanted, ac_recvID := ac_recvID a + 1, ac_acc := rest\<rparr>))
        | (Return d, None) \<Rightarrow> (Panic ''nil pointer dereference'', a2)
        | (Error e, x) \<Rightarrow> (Error e, a2)
        | (Panic p, x) \<Rightarrow> (Panic p, a2))) \<and> (0 < v \<longrightarrow> g = Some rc)"
    using decode_one_eq [OF v(1) [unfolded h_def] len(1) n [unfolded b_def h_def], of L]
    unfolding b_def [symmetric] Let_def t(1) t2 t4 by (simp only: len(2) nle if_False simp_thms)
  then obtain rc where D: "decode_one L a =
    (let h1 = al_hmac L (mac_key (ac_userKey a) (ac_recvID a)) ?u; a1 = a\<lparr>ac_randClient := rc\<rparr> in
     if take 2 h1 \<noteq> take 2 ?k then (Error ''ssr: auth_chain data hmac mismatch'', a1)
     else
       (let (sp, rc2) = (if 0 < length d \<and> 0 < v then getRandStartPos v rc else (0, rc)); a2 = a1\<lparr>ac_lastClientHash := h1, ac_randClient := rc2\<rparr> in
        case (slice_of b (2 + sp) (2 + sp + length d), ac_rc4dec a) of
          (Return d, Some c) \<Rightarrow>
            (case XORKeyStream d c of (wanted, c1) \<Rightarrow>
               (Return True, a2\<lparr>ac_rc4dec := Some c1, ac_rbuf := ac_rbuf a @ wanted, ac_recvID := ac_recvID a + 1, ac_acc := rest\<rparr>))
        | (Return d, None) \<Rightarrow> (Panic ''nil pointer dereference'', a2)
        | (Error e, x) \<Rightarrow> (Error e, a2)
        | (Panic p, x) \<Rightarrow> (Panic p, a2)))"
    and g: "0 < v \<Longrightarrow> g = Some rc" by blast
  obtain sp rc2 where sp: "(if 0 < length d \<and> 0 < v then getRandStartPos v rc else (0, rc)) = (sp, rc2)" by force
  have s: "slice_of b (2 + sp) (2 + sp + length d) = Return d"
  proof (cases "d = []")
    case True
    then show ?thesis using sp len(2) by (simp add: slice_of_def)
  next
    case False
    have "sp = length p1"
    proof (cases "v = 0")
      case True
      then show ?thesis using sp v(2) by simp
    next
      case vn: False
      then show ?thesis using sp v(5) [OF _ False] g False by simp
    qed
    then have "2 + sp = length (lx # ly # p1)" by simp
    then show ?thesis unfolding b by (simp only: slice_append)
  qed
  have kk: "al_hmac L (mac_key (ac_userKey a) (ac_recvID a)) ?u = ?k" by (simp add: next_code_def)
  show ?thesis
    unfolding D sp case_prod_conv s c Let_def kk by (intro exI [of _ rc2]) (simp add: x h_def)
qed

lemma chain_decode_partial:
  assumes ok: "codes_ok L" and fits: "frame_fits a (ac_lastClientHash a) (p1, d, p2)"
    and acc: "ac_acc a @ tl1 = chain_frame L (ac_userKey a) (ac_recvID a) (ac_lastClientHash a) (p1, d, p2) @ rest"
    and short: "length (ac_acc a) < length (chain_frame L (ac_userKey a) (ac_recvID a) (ac_lastClientHash a) (p1, d, p2))"
  shows "\<exists>rc. decode_one L a = (Return False, a\<lparr>ac_randClient := rc\<rparr>)"
proof (cases "length (ac_acc a) \<le> 4")
  case True
  then show ?thesis by (intro exI [of _ "ac_randClient a"]) (simp add: decode_one_def Let_def)
next
  case False
  define h where "h = ac_lastClientHash a"
  from fits obtain v g where v: "rand_len_is a (length d) h v g" "length p1 + length p2 = v" "length d + v < 4096" by (auto simp: h_def)
  obtain lx ly where l: "hidden_len h (length d) = [lx, ly]" using hidden_len_two by blast
  obtain x' y' zs where z: "ac_acc a = x' # y' # zs" using False by (cases "ac_acc a" rule: remdups_adj.cases) auto
  have "x' = lx" "y' = ly" using acc l by (simp_all add: z h_def [symmetric] chain_frame_def)
  then have n: "length d = unat (word_of_nat (le16 (ac_acc a ! 0) (ac_acc a ! 1)) XOR word_of_nat (le16 (h ! 14) (h ! 15)) :: 16 word)"
    using hidden_len_back [OF _ l] v(3) by (simp add: z)
  have "length (ac_acc a) < 4 + (length d + v)" using short v(2) by (simp add: chain_frame_length [OF ok])
  then show ?thesis
    using decode_one_eq [OF v(1) [unfolded h_def] _ n [unfolded h_def], of L] False v(3) by (auto simp: Let_def)
qed

lemma XORKeyStream_append:
  "XORKeyStream (xs @ ys) c = (case XORKeyStream xs c of (u, c1) \<Rightarrow> (case XORKeyStream ys c1 of (v, c2) \<Rightarrow> (u @ v, c2)))"
  by (induction xs arbitrary: c) (simp_all split: prod.split)

text \<open>RC4 with the same key takes itself off again, from the same place on.\<close>

lemma XORKeyStream_twice: "XORKeyStream d c = (w, c1) \<Longrightarrow> XORKeyStream w c = (d, c1)"
  by (induction d arbitrary: c w) (auto simp: xor.assoc split: prod.splits)

text \<open>Of a prefix of the frames, all complete frames are decoded; the rest waits.\<close>

definition received :: "authChain \<Rightarrow> bytes \<Rightarrow> xorShift128Plus \<Rightarrow> rc4_Cipher \<Rightarrow> bytes \<Rightarrow> 32 word \<Rightarrow> bytes \<Rightarrow> authChain" where
  "received a h rc c w i acc =
     a\<lparr>ac_lastClientHash := h, ac_randClient := rc, ac_rc4dec := Some c, ac_rbuf := ac_rbuf a @ w, ac_recvID := i, ac_acc := acc\<rparr>"

lemma received_fields [simp]:
  "ac_lastClientHash (received a h rc c w i acc) = h" "ac_rc4dec (received a h rc c w i acc) = Some c" "ac_recvID (received a h rc c w i acc) = i"
  "ac_acc (received a h rc c w i acc) = acc" "ac_rbuf (received a h rc c w i acc) = ac_rbuf a @ w" "ac_userKey (received a h rc c w i acc) = ac_userKey a"
  "ac_gotHdr (received a h rc c w i acc) = ac_gotHdr a" "ac_uuid (received a h rc c w i acc) = ac_uuid a" "ac_stream (received a h rc c w i acc) = ac_stream a"
  "same_sizes (received a h rc c w i acc) b \<longleftrightarrow> same_sizes a b"
  "received (received a h rc c w i acc) h' rc' c' w' i' acc' = received a h' rc' c' (w @ w') i' acc'"
  by (simp_all add: received_def same_sizes_def)

lemma chain_decode_frames:
  assumes ok: "codes_ok L" and "same_sizes a a0" and "frames_fit L a0 (ac_userKey a) (ac_recvID a) (ac_lastClientHash a) fs" and "ac_rc4dec a = Some c"
    and "ac_acc a @ tl1 = chain_frames L (ac_userKey a) (ac_recvID a) (ac_lastClientHash a) fs"
  shows "\<exists>qs rs h rc w c1 i acc. fs = qs @ rs \<and> chain_decodeData L a = (Return (), received a h rc c1 w i acc)
    \<and> XORKeyStream (cipher_text qs) c = (w, c1) \<and> acc @ tl1 = chain_frames L (ac_userKey a) i h rs \<and> frames_fit L a0 (ac_userKey a) i h rs
    \<and> (tl1 = [] \<longrightarrow> rs = [])"
  using assms(2-)
proof (induction fs arbitrary: a c)
  case Nil
  have e: "decode_one L a = (Return False, a)" using Nil(4) by (simp add: decode_one_def Let_def)
  have "chain_decodeData L a = (Return (), received a (ac_lastClientHash a) (ac_randClient a) c [] (ac_recvID a) [])"
    using e Nil(3,4) by (simp add: chain_decodeData.simps [of L a] received_def)
  then show ?case using Nil(3,4)
    by (intro exI [of _ "[]"] exI [of _ "ac_lastClientHash a"] exI [of _ "ac_randClient a"] exI [of _ c] exI [of _ "ac_recvID a"] conjI) simp_all
next
  case (Cons f fs)
  obtain p1 d p2 where f: "f = (p1, d, p2)" by (rule prod_cases3)
  let ?uk = "ac_userKey a" and ?i = "ac_recvID a" and ?h = "ac_lastClientHash a"
  let ?F = "chain_frame L ?uk ?i ?h (p1, d, p2)" and ?k = "next_code L ?uk ?i ?h (p1, d, p2)"
  have fit: "frame_fits a ?h (p1, d, p2)" "frames_fit L a0 ?uk (?i + 1) ?k fs"
    using Cons.prems(2) frame_fits_same [OF Cons.prems(1), of ?h f] by (simp_all add: f)
  have e: "ac_acc a @ tl1 = ?F @ chain_frames L ?uk (?i + 1) ?k fs" using Cons.prems(4) by (simp add: f)
  show ?case
  proof (cases "length (ac_acc a) < length ?F")
    case True
    have t: "tl1 \<noteq> []" using e True by (auto dest: arg_cong [of _ _ length])
    from chain_decode_partial [OF ok fit(1) e True] obtain rc where "decode_one L a = (Return False, a\<lparr>ac_randClient := rc\<rparr>)" by blast
    then have "chain_decodeData L a = (Return (), received a ?h rc c [] ?i (ac_acc a))"
      using Cons.prems(3) by (simp add: chain_decodeData.simps [of L a] received_def)
    then show ?thesis using t Cons.prems by (intro exI [of _ "[]"] exI [of _ "f # fs"] exI [of _ ?h] exI [of _ rc] exI [of _ c] exI [of _ ?i] exI [of _ "ac_acc a"]) simp
  next
    case False
    then obtain rest where r: "ac_acc a = ?F @ rest" "rest @ tl1 = chain_frames L ?uk (?i + 1) ?k fs" using append_prefix [OF e] by auto
    obtain w c1 where x: "XORKeyStream d c = (w, c1)" by force
    from chain_decode_frame [OF ok fit(1) Cons.prems(3) r(1) x] obtain rc where "decode_one L a = (Return True, received a ?k rc c1 w (?i + 1) rest)"
      by (auto simp: received_def)
    then have D: "chain_decodeData L a = chain_decodeData L (received a ?k rc c1 w (?i + 1) rest)" by (simp add: chain_decodeData.simps [of L a])
    from Cons.IH [of "received a ?k rc c1 w (?i + 1) rest" c1] Cons.prems(1) fit(2) r(2)
    obtain qs rs h' rc' w' c2 i' acc where q: "fs = qs @ rs" "chain_decodeData L a = (Return (), received a h' rc' c2 (w @ w') i' acc)"
      "XORKeyStream (cipher_text qs) c1 = (w', c2)" "acc @ tl1 = chain_frames L ?uk i' h' rs" "frames_fit L a0 ?uk i' h' rs" "tl1 = [] \<longrightarrow> rs = []"
      unfolding D by auto
    have "XORKeyStream (cipher_text (f # qs)) c = (w @ w', c2)" using x q(3) by (simp add: f XORKeyStream_append)
    then show ?thesis using q by (intro exI [of _ "f # qs"] exI [of _ rs] exI [of _ h'] exI [of _ rc'] exI [of _ "w @ w'"] exI [of _ c2] exI [of _ i'] exI [of _ acc]) simp
  qed
qed

section \<open>The connection as a plain stream\<close>

text \<open>What a client sends first: four bytes, their code, the hidden id, the encrypted block and a code over both.\<close>

record chain_hello =
  ch_check :: bytes
  ch_uid :: "32 word"
  ch_enc :: bytes

definition chello_code :: "auth_lib \<Rightarrow> bytes \<Rightarrow> chain_hello \<Rightarrow> bytes" where
  "chello_code L mk ch = al_hmac L mk (ch_check ch)"

definition chello_id :: "auth_lib \<Rightarrow> bytes \<Rightarrow> chain_hello \<Rightarrow> bytes" where
  "chello_id L mk ch = putle32 (ch_uid ch XOR le32 (take 4 (drop 8 (chello_code L mk ch)))) @ ch_enc ch"

definition chello_bytes :: "auth_lib \<Rightarrow> bytes \<Rightarrow> bytes \<Rightarrow> chain_hello \<Rightarrow> bytes" where
  "chello_bytes L mk uk ch =
     ch_check ch @ take 8 (chello_code L mk ch) @ chello_id L mk ch @ take 4 (al_hmac L uk (chello_id L mk ch))"

definition chello_ok :: "auth_lib \<Rightarrow> bytes \<Rightarrow> string \<Rightarrow> chain_hello \<Rightarrow> nat \<Rightarrow> bool" where
  "chello_ok L uk salt ch ov \<longleftrightarrow> length (ch_check ch) = 4 \<and> length (ch_enc ch) = 16 \<and> ov < 256 \<and>
     (\<exists>dec. al_cbc L (the (kdf (al_md5 L) (al_base64 L uk @ text_bytes salt) 16)) (ch_enc ch) = Inr dec \<and> le16 (dec ! 12) (dec ! 13) = ov)"

lemma chello_bytes_length: "codes_ok L \<Longrightarrow> chello_ok L uk salt ch ov \<Longrightarrow> length (chello_bytes L mk uk ch) = 36"
  by (simp add: chello_bytes_def chello_code_def chello_id_def codes_ok_def chello_ok_def)

lemma chain_decode_hello:
  assumes ok: "codes_ok L" "chello_ok L uk (ac_salt a) ch ov" and look: "lookup (ch_uid ch) = Some (uk, uuid)"
    and acc: "ac_acc a = chello_bytes L (ac_iv a @ ac_cipherKey a) uk ch @ rest"
  shows "\<exists>a1. chain_decodeHeader L lookup a = (Return (), a1) \<and> ac_acc a1 = rest \<and> ac_gotHdr a1 \<and> ac_uuid a1 = uuid \<and> ac_userKey a1 = uk \<and> ac_recvID a1 = 1
    \<and> ac_rbuf a1 = ac_rbuf a \<and> ac_stream a1 = ac_stream a \<and> same_sizes a1 (a\<lparr>ac_overhead := ov\<rparr>)
    \<and> ac_lastClientHash a1 = chello_code L (ac_iv a @ ac_cipherKey a) ch
    \<and> ac_rc4dec a1 = Some (rc4_NewCipher (session_key L uk (chello_code L (ac_iv a @ ac_cipherKey a) ch)))"
proof -
  define mk where "mk = ac_iv a @ ac_cipherKey a"
  define b where "b = ac_acc a"
  define k where "k = chello_code L mk ch"
  let ?id = "putle32 (ch_uid ch XOR le32 (take 4 (drop 8 k)))"
  let ?s = "al_hmac L uk (?id @ ch_enc ch)"
  have l: "length (ch_check ch) = 4" "length (ch_enc ch) = 16" using ok(2) by (simp_all add: chello_ok_def)
  have kl: "length k = 16" "length ?s = 16" using ok(1) by (simp_all add: k_def chello_code_def codes_ok_def)
  have b: "b = ch_check ch @ take 8 k @ ?id @ ch_enc ch @ take 4 ?s @ rest" using acc by (simp add: b_def mk_def chello_bytes_def chello_id_def k_def)
  have d4: "drop 4 b = take 8 k @ ?id @ ch_enc ch @ take 4 ?s @ rest" using l by (simp add: b)
  then have "drop 8 (drop 4 b) = ?id @ ch_enc ch @ take 4 ?s @ rest" using kl by (simp del: drop_drop)
  then have d12: "drop 12 b = ?id @ ch_enc ch @ take 4 ?s @ rest" by simp
  then have "drop 4 (drop 12 b) = ch_enc ch @ take 4 ?s @ rest" by (simp del: drop_drop)
  then have d16: "drop 16 b = ch_enc ch @ take 4 ?s @ rest" by simp
  then have "drop 16 (drop 16 b) = take 4 ?s @ rest" using l by (simp del: drop_drop)
  then have d32: "drop 32 b = take 4 ?s @ rest" by simp
  then have "drop 4 (drop 32 b) = rest" using kl by (simp del: drop_drop)
  then have d36: "drop 36 b = rest" by simp
  have t: "take 4 b = ch_check ch" "take 8 (drop 4 b) = take 8 k" "take 4 (drop 12 b) = ?id" "take 20 (drop 12 b) = ?id @ ch_enc ch"
    "take 16 (drop 16 b) = ch_enc ch" "take 4 (drop 32 b) = take 4 ?s" "\<not> length b < 36"
    using l kl by (simp_all add: d4 d12 d16 d32) (simp_all add: b)
  from ok(2) obtain dec where dec: "al_cbc L (the (kdf (al_md5 L) (al_base64 L uk @ text_bytes (ac_salt a)) 16)) (ch_enc ch) = Inr dec"
    "le16 (dec ! 12) (dec ! 13) = ov" "ov < 256" by (auto simp: chello_ok_def)
  have id: "le32 ?id XOR le32 (take 4 (drop 8 k)) = ch_uid ch" by (simp add: le32_putle32 xor.assoc)
  have hk: "al_hmac L (ac_iv a @ ac_cipherKey a) (ch_check ch) = k" by (simp add: k_def chello_code_def mk_def)
  show ?thesis
    unfolding chain_decodeHeader_def Let_def b_def [symmetric] t(1) hk unfolding t id look d36
    using t(7) dec by (simp add: k_def mk_def same_sizes_def)
qed

lemma chain_hello_partial:
  assumes ok: "codes_ok L" "chello_ok L uk (ac_salt a) ch ov"
    and acc: "ac_acc a @ tl1 = chello_bytes L mk uk ch @ rest" and short: "length (ac_acc a) < 36"
  shows "chain_decodeHeader L lookup a = (Error errNeedMore, a) \<and> tl1 \<noteq> []"
proof -
  have "tl1 \<noteq> []" using arg_cong [OF acc, of length] short by (auto simp: chello_bytes_length [OF ok])
  then show ?thesis using short by (simp add: chain_decodeHeader_def Let_def)
qed

text \<open>
  A connection of the user \<open>uuid\<close> whose whole data are \<open>S\<close>: before the header is complete nothing was delivered; then the bytes that are known and those
  to come are frames that fit the chain.
\<close>

inductive chain_rep :: "auth_lib \<Rightarrow> user_lookup \<Rightarrow> string \<Rightarrow> bytes \<Rightarrow> authChain \<Rightarrow> bytes \<Rightarrow> bool"
  for L :: auth_lib and lookup :: user_lookup and uuid :: string and S :: bytes where
  start: "codes_ok L \<Longrightarrow> \<not> ac_gotHdr c \<Longrightarrow> ac_rbuf c = [] \<Longrightarrow> chello_ok L uk (ac_salt c) ch ov \<Longrightarrow> lookup (ch_uid ch) = Some (uk, uuid) \<Longrightarrow>
     h = chello_code L (ac_iv c @ ac_cipherKey c) ch \<Longrightarrow> frames_fit L (c\<lparr>ac_overhead := ov\<rparr>) uk 1 h fs \<Longrightarrow>
     ac_acc c @ ac_stream c = chello_bytes L (ac_iv c @ ac_cipherKey c) uk ch @ chain_frames L uk 1 h fs \<Longrightarrow>
     S = fst (XORKeyStream (cipher_text fs) (rc4_NewCipher (session_key L uk h))) \<Longrightarrow> chain_rep L lookup uuid S c S"
| running: "codes_ok L \<Longrightarrow> ac_gotHdr c \<Longrightarrow> ac_uuid c = uuid \<Longrightarrow> ac_rc4dec c = Some r \<Longrightarrow>
     frames_fit L c (ac_userKey c) (ac_recvID c) (ac_lastClientHash c) fs \<Longrightarrow>
     ac_acc c @ ac_stream c = chain_frames L (ac_userKey c) (ac_recvID c) (ac_lastClientHash c) fs \<Longrightarrow>
     chain_rep L lookup uuid S c (ac_rbuf c @ fst (XORKeyStream (cipher_text fs) r))"

lemma chain_rep_running: "chain_rep L lookup uuid S c s \<Longrightarrow> s \<noteq> S \<Longrightarrow> ac_gotHdr c \<and> ac_uuid c = uuid"
  by (auto elim: chain_rep.cases)

lemma cipher_text_append: "cipher_text (qs @ rs) = cipher_text qs @ cipher_text rs"
  by (simp add: cipher_text_def)

lemma chain_decode_running:
  assumes "codes_ok L" and "ac_gotHdr c" and "ac_uuid c = uuid" and "ac_rc4dec c = Some r"
    and "frames_fit L c (ac_userKey c) (ac_recvID c) (ac_lastClientHash c) fs"
    and "ac_acc c @ ac_stream c = chain_frames L (ac_userKey c) (ac_recvID c) (ac_lastClientHash c) fs"
  shows "\<exists>c1. chain_decodeData L c = (Return (), c1) \<and> chain_rep L lookup uuid S c1 (ac_rbuf c @ fst (XORKeyStream (cipher_text fs) r))
    \<and> (ac_stream c = [] \<longrightarrow> ac_rbuf c1 = ac_rbuf c @ fst (XORKeyStream (cipher_text fs) r))"
proof -
  have "same_sizes c c" by (simp add: same_sizes_def)
  from chain_decode_frames [OF assms(1) this assms(5,4,6)] obtain qs rs h rc w c1 i acc where
    d: "fs = qs @ rs" "chain_decodeData L c = (Return (), received c h rc c1 w i acc)" "XORKeyStream (cipher_text qs) r = (w, c1)"
      "acc @ ac_stream c = chain_frames L (ac_userKey c) i h rs" "frames_fit L c (ac_userKey c) i h rs" "ac_stream c = [] \<longrightarrow> rs = []" by blast
  let ?c = "received c h rc c1 w i acc"
  have w: "fst (XORKeyStream (cipher_text fs) r) = w @ fst (XORKeyStream (cipher_text rs) c1)"
    using d(3) by (simp add: d(1) cipher_text_append XORKeyStream_append split: prod.split)
  have "frames_fit L ?c (ac_userKey ?c) (ac_recvID ?c) (ac_lastClientHash ?c) rs"
    using d(5) frames_fit_same [of ?c c L "ac_userKey c" i h rs] by (simp add: same_sizes_def [of c c])
  then have "chain_rep L lookup uuid S ?c (ac_rbuf ?c @ fst (XORKeyStream (cipher_text rs) c1))"
    using assms(1-3) d(4) by (intro running) simp_all
  then show ?thesis using d(2,6) w by (intro exI [of _ ?c]) simp
qed

lemma chain_pump_rep:
  assumes "chain_rep L lookup uuid S c s" and "ac_rbuf c = []"
  shows "\<exists>c1. chain_pump L lookup avail c = (if ac_stream c = [] then Error ''EOF'' else Return (), c1) \<and> chain_rep L lookup uuid S c1 s
    \<and> (ac_stream c = [] \<longrightarrow> ac_rbuf c1 = s)"
proof -
  define n where "n = min 8192 (Suc avail)"
  define b where "b = c\<lparr>ac_acc := ac_acc c @ take n (ac_stream c), ac_stream := drop n (ac_stream c)\<rparr>"
  have bs: "ac_acc b @ ac_stream b = ac_acc c @ ac_stream c" "ac_gotHdr b = ac_gotHdr c" "ac_uuid b = ac_uuid c" "ac_rbuf b = ac_rbuf c"
    "ac_userKey b = ac_userKey c" "ac_recvID b = ac_recvID c" "ac_iv b = ac_iv c" "ac_cipherKey b = ac_cipherKey c" "ac_salt b = ac_salt c"
    "ac_lastClientHash b = ac_lastClientHash c" "ac_rc4dec b = ac_rc4dec c"
    "ac_stream c = [] \<Longrightarrow> ac_stream b = []" by (simp_all add: b_def)
  have bf: "frames_fit L b uk i h fs = frames_fit L c uk i h fs" "frames_fit L (b\<lparr>ac_overhead := ov\<rparr>) uk i h fs = frames_fit L (c\<lparr>ac_overhead := ov\<rparr>) uk i h fs"
    for uk i h fs ov by (rule frames_fit_same; simp add: same_sizes_def b_def)+
  define err where "err = (if ac_stream c = [] then Error ''EOF'' else Return ())"
  have p: "chain_pump L lookup avail c = (case (if ac_gotHdr b then (Return (), b) else chain_decodeHeader L lookup b) of (r, a1) \<Rightarrow>
      case r of Error e \<Rightarrow> (if e = errNeedMore then err else Error e, a1) | Panic p \<Rightarrow> (Panic p, a1)
      | Return u \<Rightarrow> (case chain_decodeData L a1 of (Return u, a2) \<Rightarrow> (err, a2) | (Error e, a2) \<Rightarrow> (Error e, a2) | (Panic p, a2) \<Rightarrow> (Panic p, a2)))"
    unfolding chain_pump_def Let_def n_def [symmetric] b_def [symmetric] err_def [symmetric] ..
  from assms(1) have "\<exists>c1. chain_pump L lookup avail c = (err, c1) \<and> chain_rep L lookup uuid S c1 s \<and> (ac_stream c = [] \<longrightarrow> ac_rbuf c1 = s)"
  proof cases
    case (running r fs)
    have "ac_acc b @ ac_stream b = chain_frames L (ac_userKey b) (ac_recvID b) (ac_lastClientHash b) fs" using running bs by simp
    from chain_decode_running [of L b uuid r fs lookup S, OF running(2) _ _ _ _ this] running bs bf obtain c1 where
      "chain_decodeData L b = (Return (), c1)" "chain_rep L lookup uuid S c1 (ac_rbuf b @ fst (XORKeyStream (cipher_text fs) r))"
      "ac_stream b = [] \<longrightarrow> ac_rbuf c1 = ac_rbuf b @ fst (XORKeyStream (cipher_text fs) r)" by auto
    then show ?thesis using running bs by (auto simp: p)
  next
    case (start uk ch ov h fs)
    let ?mk = "ac_iv b @ ac_cipherKey b"
    have e: "ac_acc b @ ac_stream b = chello_bytes L ?mk uk ch @ chain_frames L uk 1 h fs" using start bs by simp
    have ok: "chello_ok L uk (ac_salt b) ch ov" using start bs by simp
    show ?thesis
    proof (cases "length (ac_acc b) < 36")
      case True
      have "chain_rep L lookup uuid S b S" using start bs e ok bf by (intro chain_rep.start [of L b uk ch ov lookup uuid h fs S]) simp_all
      then show ?thesis using chain_hello_partial [OF start(2) ok e True, of lookup] start bs by (auto simp: p)
    next
      case False
      obtain rest where r: "ac_acc b = chello_bytes L ?mk uk ch @ rest" "rest @ ac_stream b = chain_frames L uk 1 h fs"
        using append_prefix [OF e] False chello_bytes_length [OF start(2) ok, of ?mk] by auto
      from chain_decode_hello [where lookup = lookup, OF start(2) ok start(6) r(1)] obtain a1 where
        a1: "chain_decodeHeader L lookup b = (Return (), a1)" "ac_acc a1 = rest" "ac_gotHdr a1" "ac_uuid a1 = uuid" "ac_userKey a1 = uk" "ac_recvID a1 = 1"
          "ac_rbuf a1 = ac_rbuf b" "ac_stream a1 = ac_stream b" "same_sizes a1 (b\<lparr>ac_overhead := ov\<rparr>)" "ac_lastClientHash a1 = h"
          "ac_rc4dec a1 = Some (rc4_NewCipher (session_key L uk h))" using start bs by auto
      have f: "frames_fit L a1 (ac_userKey a1) (ac_recvID a1) (ac_lastClientHash a1) fs"
        using start(8) bf(2) frames_fit_same [OF a1(9)] by (simp add: a1(5,6,10))
      have "ac_acc a1 @ ac_stream a1 = chain_frames L (ac_userKey a1) (ac_recvID a1) (ac_lastClientHash a1) fs"
        using r(2) by (simp add: a1)
      from chain_decode_running [OF start(2) a1(3,4,11) f this, of lookup S] obtain c1 where c1: "chain_decodeData L a1 = (Return (), c1)"
        "chain_rep L lookup uuid S c1 (ac_rbuf a1 @ fst (XORKeyStream (cipher_text fs) (rc4_NewCipher (session_key L uk h))))"
        "ac_stream a1 = [] \<longrightarrow> ac_rbuf c1 = ac_rbuf a1 @ fst (XORKeyStream (cipher_text fs) (rc4_NewCipher (session_key L uk h)))" by blast
      show ?thesis using c1 a1 start bs by (intro exI [of _ c1]) (simp add: p)
    qed
  qed
  then show ?thesis by (simp add: err_def)
qed

lemma chain_rep_take:
  assumes "chain_rep L lookup uuid S c s" and "ac_rbuf c \<noteq> []"
  shows "\<exists>s'. s = take k (ac_rbuf c) @ s' \<and> chain_rep L lookup uuid S (c\<lparr>ac_rbuf := drop k (ac_rbuf c)\<rparr>) s'"
  using assms(1)
proof cases
  case (running r fs)
  let ?c = "c\<lparr>ac_rbuf := drop k (ac_rbuf c)\<rparr>"
  have "frames_fit L ?c (ac_userKey ?c) (ac_recvID ?c) (ac_lastClientHash ?c) fs"
    using running(6) frames_fit_same [of ?c c] by (simp add: same_sizes_def)
  then have "chain_rep L lookup uuid S ?c (ac_rbuf ?c @ fst (XORKeyStream (cipher_text fs) r))" using running by (intro chain_rep.running) simp_all
  then show ?thesis using running by (intro exI [of _ "ac_rbuf ?c @ fst (XORKeyStream (cipher_text fs) r)"]) simp
qed (use assms(2) in simp)

text \<open>The connection keeps the contract of a plain stream, however the bytes arrive.\<close>

interpretation chain: pumped_conn "chain_pump L lookup avail" ac_stream ac_rbuf "\<lambda>k c. c\<lparr>ac_rbuf := drop k (ac_rbuf c)\<rparr>"
    "chain_fill L lookup avail" "chain_Read L lookup avail" "chain_rep L lookup uuid S" for L lookup avail uuid S
  by unfold_locales (rule chain_fill.simps chain_Read_def chain_pump_less chain_pump_rep chain_rep_take; assumption?)+

section \<open>The handshake\<close>

text \<open>
  Claim C26. An \<open>auth_chain\<close> client is understood: when its header carries the user's codes, its frames are padded as the chain demands, and the data
  decrypt to a target address and a payload, then in pieces of whatever size the bytes arrive the server's handshake finds the user and the
  destination that was meant, and reads exactly the payload afterwards.
\<close>

theorem chain_request_understood:
  assumes "codes_ok L" and "chello_ok L uk salt ch ov" and "lookup (ch_uid ch) = Some (uk, uuid)"
    and "h = chello_code L (iv @ key) ch" and "frames_fit L (newAuthChain [] iv key salt\<lparr>ac_overhead := ov\<rparr>) uk 1 h fs"
    and "fst (XORKeyStream (cipher_text fs) (rc4_NewCipher (session_key L uk h))) = (addr_bytes ad @ put16 port) @ payload"
    and "addr_ok ad" and "port < 65536"
  shows "\<exists>c c'. chain_handshake L lookup avail (chello_bytes L (iv @ key) uk ch @ chain_frames L uk 1 h fs) iv key salt =
        Some (Return (uuid, \<lparr>de_Address = addr_meant ad, de_Port = port\<rparr>), c)
      \<and> io_ReadFull (chain_Read L lookup avail) (length payload) c = Some (Return payload, c')"
proof -
  let ?S = "fst (XORKeyStream (cipher_text fs) (rc4_NewCipher (session_key L uk h)))"
  let ?c = "newAuthChain (chello_bytes L (iv @ key) uk ch @ chain_frames L uk 1 h fs) iv key salt"
  have n: "ac_salt ?c = salt" "\<not> ac_gotHdr ?c" "ac_rbuf ?c = []" "ac_iv ?c = iv" "ac_cipherKey ?c = key" "ac_acc ?c = []"
    "ac_stream ?c = chello_bytes L (iv @ key) uk ch @ chain_frames L uk 1 h fs"
    "same_sizes (?c\<lparr>ac_overhead := ov\<rparr>) (newAuthChain [] iv key salt\<lparr>ac_overhead := ov\<rparr>)"
    by (simp_all add: newAuthChain_def Let_def same_sizes_def split: prod.split)
  have "chain_rep L lookup uuid ?S ?c ?S"
    using assms(1-5) n frames_fit_same [OF n(8)] by (intro chain_rep.start [where ch = ch and uk = uk and fs = fs and h = h and ov = ov]) simp_all
  then have "chain_rep L lookup uuid ?S ?c ((addr_bytes ad @ put16 port) @ payload)" by (simp only: assms(6))
  from chain.readSocksAddr_reads [OF this assms(7,8), of avail] obtain c where
    c: "readSocksAddr (chain_Read L lookup avail) ?c = Some (Return \<lparr>de_Address = addr_meant ad, de_Port = port\<rparr>, c)"
      "chain_rep L lookup uuid ?S c payload" by blast
  have "length ?S = length (addr_bytes ad) + 2 + length payload" using assms(6) by simp
  then have "payload \<noteq> ?S" by auto
  with chain_rep_running [OF c(2)] have u: "ac_uuid c = uuid" by simp
  obtain c' where "io_ReadFull (chain_Read L lookup avail) (length payload) c = Some (Return payload, c')"
    using chain.ReadFull_prefix [of L lookup uuid ?S c payload "[]" "length payload" avail] c(2) by auto
  then show ?thesis using u readTargetAddr_eq [OF c(1)] by (simp add: chain_handshake_def)
qed

text \<open>For every short piece of data there is a frame that fits.\<close>

lemma fitting_frame:
  assumes "chain_ok a" and "d \<noteq> []" and "length d \<le> 2800"
  shows "\<exists>p1 p2. frame_fits a h (p1, d, p2)"
proof -
  obtain v g where v: "rand_len_is a (length d) h v g" using rand_len_exists [OF assms(1)] by blast
  then have b: "v < 1440" "1440 < length d \<longrightarrow> v = 0" "g = None \<longrightarrow> v = 0" by (simp_all add: rand_len_is_def)
  then have l: "length d + v < 4096" using assms(3) by auto
  show ?thesis
  proof (cases "v = 0")
    case True
    then show ?thesis using v assms(2,3) l by (intro exI [of _ "[]"]) auto
  next
    case False
    then obtain r where r: "g = Some r" using b(3) by blast
    obtain sp r1 where sp: "getRandStartPos v r = (sp, r1)" by force
    have "sp < v" using getRandStartPos_less [OF sp] False by simp
    then have "frame_fits a h (replicate sp 0, d, replicate (v - sp) 0)" using v l sp r False by auto
    then show ?thesis by blast
  qed
qed

definition demo_chain :: auth_lib where
  "demo_chain = \<lparr>al_hmac = (\<lambda>k d. replicate 16 (sum_list (k @ d))), al_md5 = (\<lambda>b. replicate 16 7), al_base64 = id,
     al_cbc = (\<lambda>k c. Inr c), al_salt = []\<rparr>"

definition demo_chello :: chain_hello where
  "demo_chello = \<lparr>ch_check = [1, 2, 3, 4], ch_uid = 10, ch_enc = replicate 12 0 @ [4, 0, 0, 0]\<rparr>"

theorem chain_request_understood_witness:
  "\<exists>fs c c'. chain_handshake demo_chain demo_users 0
       (chello_bytes demo_chain ([1] @ [2]) [3, 4] demo_chello @ chain_frames demo_chain [3, 4] 1 (chello_code demo_chain ([1] @ [2]) demo_chello) fs)
       [1] [2] ''auth_chain_b'' =
     Some (Return (''u1'', \<lparr>de_Address = addr_meant (IPv4 [8, 8, 8, 8]), de_Port = 443\<rparr>), c)
     \<and> io_ReadFull (chain_Read demo_chain demo_users 0) (length [42::byte]) c = Some (Return [42], c')"
proof -
  define h where "h = chello_code demo_chain ([1] @ [2]) demo_chello"
  define plain where "plain = (addr_bytes (IPv4 [8, 8, 8, 8]) @ put16 443) @ [42]"
  obtain d c1 where d: "XORKeyStream plain (rc4_NewCipher (session_key demo_chain [3, 4] h)) = (d, c1)" by force
  have dl: "length d = length plain" by (rule XORKeyStream_length [OF d])
  then have "d \<noteq> []" "length d \<le> 2800" by (auto simp: plain_def addr_bytes_def)
  moreover have "chain_ok (newAuthChain [] [1] [2] ''auth_chain_b''\<lparr>ac_overhead := 4\<rparr>)"
    using newAuthChain_ok [of "[]" "[1]" "[2]" "''auth_chain_b''"] by (simp add: chain_ok_def)
  ultimately obtain p1 p2 where f: "frame_fits (newAuthChain [] [1] [2] ''auth_chain_b''\<lparr>ac_overhead := 4\<rparr>) h (p1, d, p2)"
    using fitting_frame by blast
  have 1: "codes_ok demo_chain" by (simp add: codes_ok_def demo_chain_def)
  have 2: "chello_ok demo_chain [3, 4] ''auth_chain_b'' demo_chello 4" by (simp add: chello_ok_def demo_chain_def demo_chello_def le16_def nth_append)
  have 3: "demo_users (ch_uid demo_chello) = Some ([3, 4], ''u1'')" by (simp add: demo_users_def demo_chello_def)
  have 4: "frames_fit demo_chain (newAuthChain [] [1] [2] ''auth_chain_b''\<lparr>ac_overhead := 4\<rparr>) [3, 4] 1 h [(p1, d, p2)]"
    using f by simp
  have 5: "fst (XORKeyStream (cipher_text [(p1, d, p2)]) (rc4_NewCipher (session_key demo_chain [3, 4] h))) = plain"
    using XORKeyStream_twice [OF d] by simp
  have 6: "addr_ok (IPv4 [8, 8, 8, 8])" "443 < (65536 :: nat)" by (simp_all add: addr_ok_def)
  show ?thesis
    using chain_request_understood [where L = demo_chain and lookup = demo_users and salt = "''auth_chain_b''" and ch = demo_chello and ov = 4 and iv = "[1]" and key = "[2]"
        and avail = 0 and ad = "IPv4 [8, 8, 8, 8]" and port = 443 and payload = "[42]", OF 1 2 3 h_def 4 5 [unfolded plain_def] 6] unfolding h_def by blast
qed

section \<open>Writing\<close>

text \<open>A sender and a receiver whose chains are at the same place.\<close>

definition mirrored :: "authChain \<Rightarrow> authChain \<Rightarrow> bool" where
  "mirrored e d \<longleftrightarrow> chain_ok e \<and> same_sizes e d \<and> ac_userKey e = ac_userKey d \<and> ac_lastServerHash e = ac_lastClientHash d
     \<and> length (ac_lastServerHash e) = 16 \<and> ac_packID e = ac_recvID d \<and> ac_rc4enc e = ac_rc4dec d \<and> ac_rc4dec d \<noteq> None"

lemma mirrored_acc: "mirrored e (d\<lparr>ac_acc := x\<rparr>) \<longleftrightarrow> mirrored e d"
  by (simp add: mirrored_def same_sizes_def)

definition packed :: "authChain \<Rightarrow> bytes \<Rightarrow> xorShift128Plus \<Rightarrow> rc4_Cipher \<Rightarrow> authChain" where
  "packed e h r c = e\<lparr>ac_rc4enc := Some c, ac_packID := ac_packID e + 1, ac_randServer := r, ac_lastServerHash := h\<rparr>"

lemma packOne_frame:
  assumes "codes_ok L" and e: "chain_ok e" "ac_rc4enc e = Some c" "length (ac_lastServerHash e) = 16"
    and d: "data \<noteq> []" "length data \<le> 2800" and x: "XORKeyStream data c = (buf, c1)"
  shows "\<exists>p1 p2 r. frame_fits e (ac_lastServerHash e) (p1, buf, p2)
    \<and> packOne L data e = Return (chain_frame L (ac_userKey e) (ac_packID e) (ac_lastServerHash e) (p1, buf, p2),
        packed e (next_code L (ac_userKey e) (ac_packID e) (ac_lastServerHash e) (p1, buf, p2)) r c1)"
proof -
  let ?h = "ac_lastServerHash e"
  have bl: "length buf = length data" by (rule XORKeyStream_length [OF x])
  then have b: "buf \<noteq> []" "length buf \<le> 2800" using d by auto
  obtain v g where v: "rand_len_is e (length buf) ?h v g" using rand_len_exists [OF e(1)] by blast
  then have vb: "v < 1440" "1440 < length buf \<longrightarrow> v = 0" "g = None \<longrightarrow> v = 0" by (simp_all add: rand_len_is_def)
  then have l: "length buf + v < 4096" using b(2) by auto
  define r1 where "r1 = (case g of None \<Rightarrow> ac_randServer e | Some r1 \<Rightarrow> r1)"
  have g: "getRandLen e (length buf) ?h (ac_randServer e) = Return (int v, r1)" using v by (simp add: rand_len_is_def r1_def)
  show ?thesis
  proof (cases "v = 0")
    case True
    have "frame_fits e ?h ([], buf, [])" using v l b True by auto
    moreover have "packOne L data e = Return (chain_frame L (ac_userKey e) (ac_packID e) ?h ([], buf, []),
        packed e (next_code L (ac_userKey e) (ac_packID e) ?h ([], buf, [])) r1 c1)"
      using e b True by (simp add: packOne_def x g Let_def packed_def chain_frame_def next_code_def hidden_len_def)
    ultimately show ?thesis by blast
  next
    case False
    then have g1: "g = Some r1" using vb(3) by (auto simp: r1_def)
    obtain sp r2 where sp: "getRandStartPos v r1 = (sp, r2)" by force
    have lt: "sp < v" using getRandStartPos_less [OF sp] False by simp
    let ?f = "(replicate sp 0, buf, replicate (v - sp) 0) :: chain_piece"
    have "frame_fits e ?h ?f" using v l b sp lt g1 by auto
    moreover have "packOne L data e = Return (chain_frame L (ac_userKey e) (ac_packID e) ?h ?f,
        packed e (next_code L (ac_userKey e) (ac_packID e) ?h ?f) r2 c1)"
      using e b False lt by (simp add: packOne_def x g sp Let_def packed_def chain_frame_def next_code_def hidden_len_def)
    ultimately show ?thesis by blast
  qed
qed

definition decoded :: "auth_lib \<Rightarrow> authChain \<Rightarrow> bytes \<Rightarrow> authChain \<Rightarrow> bool" where
  "decoded L d data e1 \<longleftrightarrow> (\<exists>d1. chain_decodeData L d = (Return (), d1) \<and> ac_rbuf d1 = ac_rbuf d @ data \<and> ac_acc d1 = [] \<and> mirrored e1 d1)"

lemma mirrored_packed:
  assumes "codes_ok L" and "mirrored e d"
  shows "mirrored (packed e (next_code L uk i h f) r c) (received d (next_code L uk i h f) rc c w (ac_recvID d + 1) acc)"
proof -
  have "chain_ok (packed e (next_code L uk i h f) r c)" using assms(2) by (simp add: mirrored_def packed_def chain_ok_def)
  moreover have "same_sizes (packed e (next_code L uk i h f) r c) (received d (next_code L uk i h f) rc c w (ac_recvID d + 1) acc)"
    using assms(2) by (simp add: mirrored_def packed_def received_def same_sizes_def)
  ultimately show ?thesis using assms by (simp add: mirrored_def packed_def codes_ok_def next_code_def)
qed

lemma packOne_decodes:
  assumes "codes_ok L" and "mirrored e d0" and "data \<noteq> []" and "length data \<le> 2800"
  shows "\<exists>f e1. packOne L data e = Return (f, e1) \<and> ac_sentFirst e1 = ac_sentFirst e \<and>
    (\<forall>d rest. mirrored e d \<longrightarrow> ac_acc d = f @ rest \<longrightarrow>
       (\<exists>d1. decode_one L d = (Return True, d1) \<and> ac_rbuf d1 = ac_rbuf d @ data \<and> ac_acc d1 = rest \<and> mirrored e1 d1))"
proof -
  obtain c where c: "ac_rc4enc e = Some c" using assms(2) by (auto simp: mirrored_def)
  obtain buf c1 where x: "XORKeyStream data c = (buf, c1)" by force
  have e: "chain_ok e" "length (ac_lastServerHash e) = 16" using assms(2) by (auto simp: mirrored_def)
  from packOne_frame [OF assms(1) e(1) c e(2) assms(3,4) x] obtain p1 p2 r where
    p: "frame_fits e (ac_lastServerHash e) (p1, buf, p2)"
      "packOne L data e = Return (chain_frame L (ac_userKey e) (ac_packID e) (ac_lastServerHash e) (p1, buf, p2),
        packed e (next_code L (ac_userKey e) (ac_packID e) (ac_lastServerHash e) (p1, buf, p2)) r c1)" by blast
  let ?k = "next_code L (ac_userKey e) (ac_packID e) (ac_lastServerHash e) (p1, buf, p2)"
  have "\<exists>d1. decode_one L d = (Return True, d1) \<and> ac_rbuf d1 = ac_rbuf d @ data \<and> ac_acc d1 = rest \<and> mirrored (packed e ?k r c1) d1"
    if m: "mirrored e d" and a: "ac_acc d = chain_frame L (ac_userKey e) (ac_packID e) (ac_lastServerHash e) (p1, buf, p2) @ rest" for d rest
  proof -
    have s: "ac_userKey e = ac_userKey d" "ac_lastServerHash e = ac_lastClientHash d" "ac_packID e = ac_recvID d" "ac_rc4dec d = Some c" "same_sizes e d"
      using m c by (auto simp: mirrored_def)
    have "frame_fits d (ac_lastClientHash d) (p1, buf, p2)" using p(1) unfolding s(2) frame_fits_same [OF s(5)] .
    from chain_decode_frame [OF assms(1) this s(4) a [unfolded s(1-3)] XORKeyStream_twice [OF x]] obtain rc where
      "decode_one L d = (Return True, received d ?k rc c1 data (ac_recvID d + 1) rest)" by (auto simp: received_def s)
    then show ?thesis using mirrored_packed [OF assms(1) m] by (intro exI [of _ "received d ?k rc c1 data (ac_recvID d + 1) rest"]) simp
  qed
  then show ?thesis using p(2) by (intro exI [of _ "packed e ?k r c1"] exI conjI) (auto simp: packed_def)
qed

lemma pack_all_decodes:
  assumes "codes_ok L"
  shows "mirrored e d0 \<Longrightarrow> \<exists>out e1. pack_all L data e = Return (out, e1) \<and> (\<forall>d. mirrored e d \<longrightarrow> ac_acc d = out \<longrightarrow> decoded L d data e1)"
proof (induction "length data" arbitrary: data e d0 rule: less_induct)
  case less
  have stop: "chain_decodeData L d = (Return (), d)" if "ac_acc d = []" for d
    using that by (simp add: chain_decodeData.simps [of L d] decode_one_def Let_def)
  consider "data = []" | "data \<noteq> []" "length data \<le> 2800" | "2800 < length data" by linarith
  then show ?case
  proof cases
    case 1
    then show ?thesis using stop by (intro exI [of _ "[]"] exI [of _ e]) (auto simp: pack_all.simps decoded_def)
  next
    case 2
    from packOne_decodes [OF assms less.prems 2] obtain f e1 where p: "packOne L data e = Return (f, e1)"
      "\<And>d rest. mirrored e d \<Longrightarrow> ac_acc d = f @ rest \<Longrightarrow>
         \<exists>d1. decode_one L d = (Return True, d1) \<and> ac_rbuf d1 = ac_rbuf d @ data \<and> ac_acc d1 = rest \<and> mirrored e1 d1" by blast
    have "decoded L d data e1" if "mirrored e d" "ac_acc d = f" for d
    proof -
      from p(2) [of d "[]"] that obtain d1 where d1: "decode_one L d = (Return True, d1)" "ac_rbuf d1 = ac_rbuf d @ data" "ac_acc d1 = []" "mirrored e1 d1" by auto
      then show ?thesis using stop [of d1] by (simp add: decoded_def chain_decodeData.simps [of L d])
    qed
    then show ?thesis using 2 p(1) by (intro exI [of _ f] exI [of _ e1]) (simp add: pack_all.simps [of L data])
  next
    case 3
    let ?a = "take 2800 data" and ?b = "drop 2800 data"
    have "?a \<noteq> []" "length ?a \<le> 2800" using 3 by auto
    from packOne_decodes [OF assms less.prems this] obtain f e1 where p: "packOne L ?a e = Return (f, e1)"
      "\<And>d rest. mirrored e d \<Longrightarrow> ac_acc d = f @ rest \<Longrightarrow>
         \<exists>d1. decode_one L d = (Return True, d1) \<and> ac_rbuf d1 = ac_rbuf d @ ?a \<and> ac_acc d1 = rest \<and> mirrored e1 d1" by blast
    have "mirrored e (d0\<lparr>ac_acc := f\<rparr>)" using less.prems by (simp add: mirrored_acc)
    from p(2) [OF this, of "[]"] obtain d2 where m2: "mirrored e1 d2" by auto
    have "length ?b < length data" using 3 by simp
    from less.hyps [OF this m2] obtain fs e2 where q: "pack_all L ?b e1 = Return (fs, e2)"
      "\<And>d. mirrored e1 d \<Longrightarrow> ac_acc d = fs \<Longrightarrow> decoded L d ?b e2" by blast
    have "decoded L d data e2" if "mirrored e d" "ac_acc d = f @ fs" for d
    proof -
      from p(2) [OF that] obtain d1 where d1: "decode_one L d = (Return True, d1)" "ac_rbuf d1 = ac_rbuf d @ ?a" "ac_acc d1 = fs" "mirrored e1 d1" by blast
      with q(2) [of d1] obtain d3 where "chain_decodeData L d1 = (Return (), d3)" "ac_rbuf d3 = ac_rbuf d1 @ ?b" "ac_acc d3 = []" "mirrored e2 d3"
        by (auto simp: decoded_def)
      then show ?thesis using d1 by (simp add: decoded_def chain_decodeData.simps [of L d])
    qed
    then show ?thesis using 3 p(1) q(1) by (intro exI [of _ "f @ fs"] exI [of _ e2]) (simp add: pack_all.simps [of L data])
  qed
qed

text \<open>
  Claim C27. What the server writes on an \<open>auth_chain\<close> connection can be decoded: when the receiver's chain is at the same place as the sender's, the
  frames of a write of any length are decoded to exactly the data, with the two zero bytes that a client drops before the very first
  write, and then both chains are at the same place again.
\<close>

theorem chain_write_decodes:
  assumes "codes_ok L" and "mirrored e d" and "\<forall>b. w b = None"
  shows "\<exists>out e1 d1. chain_Write L w p e = Return ((length p, None), out, e1)
    \<and> chain_decodeData L (d\<lparr>ac_acc := out\<rparr>) = (Return (), d1)
    \<and> ac_rbuf d1 = ac_rbuf d @ (if ac_sentFirst e then p else [0, 0] @ p) \<and> ac_acc d1 = [] \<and> mirrored e1 d1"
proof -
  let ?p = "if ac_sentFirst e then p else [0, 0] @ p"
  let ?e = "e\<lparr>ac_sentFirst := True\<rparr>"
  have m: "mirrored ?e (d\<lparr>ac_acc := out\<rparr>)" for out using assms(2) by (auto simp: mirrored_def same_sizes_def chain_ok_def)
  from pack_all_decodes [OF assms(1) m, of ?p] obtain out e1 where o1: "pack_all L ?p ?e = Return (out, e1)"
    "\<And>d. mirrored ?e d \<Longrightarrow> ac_acc d = out \<Longrightarrow> decoded L d ?p e1" by blast
  from o1(2) [OF m, of out] obtain d1 where "chain_decodeData L (d\<lparr>ac_acc := out\<rparr>) = (Return (), d1)"
    "ac_rbuf d1 = ac_rbuf d @ ?p" "ac_acc d1 = []" "mirrored e1 d1" by (auto simp: decoded_def)
  moreover have "chain_Write L w p e = Return ((length p, None), out, e1)" using assms(3) by (simp add: chain_Write_def o1(1))
  ultimately show ?thesis by blast
qed

definition demo_place :: authChain where
  "demo_place = newAuthChain [] [] [7] ''auth_chain_b''\<lparr>ac_userKey := [3], ac_lastServerHash := replicate 16 1, ac_lastClientHash := replicate 16 1, ac_packID := 1,
     ac_recvID := 1, ac_rc4enc := Some (rc4_NewCipher [9]), ac_rc4dec := Some (rc4_NewCipher [9])\<rparr>"

theorem chain_write_decodes_witness:
  "\<exists>out e1 d1. chain_Write demo_chain (\<lambda>b. None) [5, 6, 7] demo_place = Return ((3, None), out, e1)
    \<and> chain_decodeData demo_chain (demo_place\<lparr>ac_acc := out\<rparr>) = (Return (), d1) \<and> ac_rbuf d1 = [0, 0, 5, 6, 7]"
proof -
  have s: "\<not> ac_sentFirst demo_place" "ac_rbuf demo_place = []" by (simp_all add: demo_place_def newAuthChain_def Let_def split: prod.split)
  have "mirrored demo_place demo_place"
    using newAuthChain_ok [of "[]" "[]" "[7]" "''auth_chain_b''"] by (simp add: mirrored_def demo_place_def chain_ok_def same_sizes_def)
  then show ?thesis
    using chain_write_decodes [of demo_chain demo_place demo_place "\<lambda>b. None" "[5, 6, 7]"] s by (simp add: codes_ok_def demo_chain_def numeral_3_eq_3) blast
qed

end
