(* ===== verification/Ssr_Stream_Props.thy ===== *)
theory Ssr_Stream_Props
  imports Ssr_Stream Ssr_Chain_Props
begin

text \<open>
  What the layers below the ShadowsocksR protocols guarantee: the plugin and the cipher stream keep the contract of a plain stream, one over the other, so
  that the protocols read exactly what the client put in; and what is written through both is taken off again.
\<close>

section \<open>Records\<close>

type_synonym tls_record = "byte \<times> byte \<times> byte \<times> bytes"

fun record_bytes :: "tls_record \<Rightarrow> bytes" where
  "record_bytes (ty, v1, v2, p) = [ty, v1, v2] @ put16 (length p) @ p"

fun record_ok :: "tls_record \<Rightarrow> bool" where
  "record_ok (ty, v1, v2, p) \<longleftrightarrow> (ty = 0x17 \<or> ty = 0x14 \<or> ty = 0x16) \<and> length p < 65536"

fun record_data :: "tls_record \<Rightarrow> bytes" where
  "record_data (ty, v1, v2, p) = (if ty = 0x17 then p else [])"

definition records_bytes :: "tls_record list \<Rightarrow> bytes" where
  "records_bytes rs = concat (map record_bytes rs)"

definition app_data :: "tls_record list \<Rightarrow> bytes" where
  "app_data rs = concat (map record_data rs)"

lemma records_simps [simp]:
  "records_bytes [] = []" "records_bytes (r # rs) = record_bytes r @ records_bytes rs"
  "app_data [] = []" "app_data (r # rs) = record_data r @ app_data rs" "app_data (rs @ rs') = app_data rs @ app_data rs'"
  by (simp_all add: records_bytes_def app_data_def)

lemma record_head:
  "record_bytes (ty, v1, v2, p) @ rest = ty # v1 # v2 # word_of_nat (length p div 256) # word_of_nat (length p) # p @ rest"
  by (simp add: put16_def)

lemma nth_345 [simp]: "(a # b # c # d # e # l) ! 3 = d" "(a # b # c # d # e # l) ! 4 = e" "drop 5 (a # b # c # d # e # l) = l"
  by (simp_all add: eval_nat_numeral)

lemma record_parts:
  assumes "b = record_bytes (ty, v1, v2, p) @ rest" and "length p < 65536"
  shows "b ! 0 = ty" and "be16 (b ! 3) (b ! 4) = length p" and "drop 5 b = p @ rest" and "5 + length p \<le> length b"
  unfolding assms(1) record_head using assms(2) by (simp_all add: be16_words)

lemma record_size_known:
  assumes "b @ tl1 = record_bytes (ty, v1, v2, p) @ rest" and "length p < 65536" and "5 \<le> length b"
  shows "b ! 0 = ty" and "be16 (b ! 3) (b ! 4) = length p"
proof -
  have "(b @ tl1) ! i = b ! i" if "i < 5" for i using assms(3) that by (simp add: nth_append)
  from this [of 0] this [of 3] this [of 4] record_parts(1,2) [OF assms(1,2)]
  show "b ! 0 = ty" "be16 (b ! 3) (b ! 4) = length p" by simp_all
qed

definition drained :: "tlsTicketObfs \<Rightarrow> bytes \<Rightarrow> bytes \<Rightarrow> tlsTicketObfs" where
  "drained t raw d = t\<lparr>tk_raw := raw, tk_dec := tk_dec t @ d\<rparr>"

lemma drained_fields [simp]:
  "tk_raw (drained t raw d) = raw" "tk_dec (drained t raw d) = tk_dec t @ d" "tk_conn (drained t raw d) = tk_conn t"
  "tk_sentHello (drained t raw d) = tk_sentHello t" "drained (drained t raw d) raw' d' = drained t raw' (d @ d')"
  by (simp_all add: drained_def)

text \<open>Of a prefix of the records, all complete ones are taken off.\<close>

lemma drain_records:
  assumes "list_all record_ok rs" and "tk_raw t @ tl1 = records_bytes rs"
  shows "\<exists>qs rest raw. rs = qs @ rest \<and> drain t = (Return (), drained t raw (app_data qs)) \<and> raw @ tl1 = records_bytes rest
    \<and> (tl1 = [] \<longrightarrow> rest = [])"
  using assms
proof (induction rs arbitrary: t)
  case Nil
  then show ?case by (intro exI [of _ "[]"]) (simp add: drain.simps [of t] drained_def)
next
  case (Cons r rs)
  obtain ty v1 v2 p where r: "r = (ty, v1, v2, p)" by (metis prod_cases4)
  have ok: "ty = 0x17 \<or> ty = 0x14 \<or> ty = 0x16" "length p < 65536" "list_all record_ok rs" using Cons.prems(1) by (auto simp: r)
  have e: "tk_raw t @ tl1 = record_bytes (ty, v1, v2, p) @ records_bytes rs" using Cons.prems(2) by (simp add: r)
  have rl: "length (record_bytes (ty, v1, v2, p)) = 5 + length p" by simp
  show ?case
  proof (cases "length (tk_raw t) < 5 + length p")
    case True
    have "drain t = (Return (), t)"
    proof (cases "length (tk_raw t) < 5")
      case False
      then have "be16 (tk_raw t ! 3) (tk_raw t ! 4) = length p" using record_size_known [OF e ok(2)] by simp
      then show ?thesis using True by (simp add: drain.simps [of t] Let_def)
    qed (simp add: drain.simps [of t] Let_def)
    moreover have "tl1 \<noteq> []" using arg_cong [OF e, of length] True by auto
    ultimately show ?thesis using Cons.prems(2) by (intro exI [of _ "[]"] exI [of _ "r # rs"] exI [of _ "tk_raw t"]) (simp add: drained_def)
  next
    case False
    then obtain rest where q: "tk_raw t = record_bytes (ty, v1, v2, p) @ rest" "rest @ tl1 = records_bytes rs"
      using append_prefix [OF e] rl by auto
    note parts = record_parts [OF q(1) ok(2)]
    have dr: "drop (5 + length p) (tk_raw t) = rest" unfolding q(1) rl [symmetric] by simp
    let ?t = "drained t rest (record_data r)"
    have D: "drain t = drain ?t"
      using parts ok(1) dr by (subst drain.simps) (auto simp: Let_def r drained_def)
    from Cons.IH [OF ok(3), of ?t] q(2) obtain qs rest' raw where
      "rs = qs @ rest'" "drain ?t = (Return (), drained t raw (record_data r @ app_data qs))" "raw @ tl1 = records_bytes rest'" "tl1 = [] \<longrightarrow> rest' = []"
      by auto
    then show ?thesis unfolding D by (intro exI [of _ "r # qs"] exI [of _ rest'] exI [of _ raw]) simp
  qed
qed

section \<open>The plugin as a plain stream\<close>

text \<open>A client's first record, with its id of 32 bytes; and an environment in which the server's answer can be sent.\<close>

definition client_hello :: "byte \<Rightarrow> byte \<Rightarrow> bytes \<Rightarrow> bytes" where
  "client_hello v1 v2 body = [0x16, v1, v2] @ put16 (length body) @ body"

definition client_hello_ok :: "bytes \<Rightarrow> bool" where
  "client_hello_ok body \<longleftrightarrow> 71 \<le> length body \<and> length body < 65536 \<and> body ! 38 = 0x20"

definition answering :: "obfs_env \<Rightarrow> bool" where
  "answering E \<longleftrightarrow> (\<exists>r. oe_rand18 E = Inr r) \<and> (\<exists>r. oe_rand22 E = Inr r) \<and> (\<forall>b. oe_answer E b = None)"

text \<open>The whole first record: the client's id is kept, the answer is sent.\<close>

lemma doHandshake_hello:
  assumes E: "answering E" and b: "client_hello_ok body" and raw: "tk_raw t @ tl1 = client_hello v1 v2 body @ rest"
  shows "length (tk_raw t) < 5 + length body \<Longrightarrow> doHandshake E t = (Error errNeedMore, t) \<and> tl1 \<noteq> []"
    and "\<not> length (tk_raw t) < 5 + length body \<Longrightarrow> \<exists>t1 raw. doHandshake E t = (Return (), t1) \<and> tk_raw t1 = raw \<and> raw @ tl1 = rest \<and> tk_sentHello t1
      \<and> tk_conn t1 = tk_conn t \<and> tk_dec t1 = tk_dec t \<and> tk_clientID t1 = take 32 (drop 39 body)"
proof -
  have e: "tk_raw t @ tl1 = record_bytes (0x16, v1, v2, body) @ rest" using raw by (simp add: client_hello_def)
  have l: "length body < 65536" "71 \<le> length body" using b by (simp_all add: client_hello_ok_def)
  { assume s: "length (tk_raw t) < 5 + length body"
    have "tl1 \<noteq> []" using arg_cong [OF e, of length] s by auto
    moreover have "doHandshake E t = (Error errNeedMore, t)"
    proof (cases "length (tk_raw t) < 5")
      case False
      then have "tk_raw t ! 0 = 0x16" "be16 (tk_raw t ! 3) (tk_raw t ! 4) = length body" using record_size_known [OF e l(1)] by simp_all
      then show ?thesis using s by (simp add: doHandshake_def Let_def)
    qed (simp add: doHandshake_def Let_def)
    ultimately show "doHandshake E t = (Error errNeedMore, t) \<and> tl1 \<noteq> []" by simp }
  { assume s: "\<not> length (tk_raw t) < 5 + length body"
    then obtain r where r: "tk_raw t = record_bytes (0x16, v1, v2, body) @ r" "r @ tl1 = rest" using append_prefix [OF e] by auto
    note parts = record_parts [OF r(1) l(1)]
    have len: "length (tk_raw t) = 5 + length body + length r" by (simp add: r(1))
    have rl: "5 + length body = length (record_bytes (0x16, v1, v2, body))" by simp
    have d: "drop (5 + length body) (tk_raw t) = r" unfolding r(1) rl by (simp del: record_bytes.simps)
    have "tk_raw t ! 43 = drop 5 (tk_raw t) ! 38" using len by (simp add: nth_drop)
    also have "\<dots> = 0x20" using parts(3) l(2) b by (simp add: nth_append client_hello_ok_def)
    finally have b43: "byte_at (tk_raw t) 43 = Return 0x20" using len l(2) by (simp add: byte_at_def)
    have "drop 44 (tk_raw t) = drop 39 (drop 5 (tk_raw t))" by simp
    also have "\<dots> = drop 39 body @ r" using parts(3) l(2) by simp
    finally have sl: "slice_of (tk_raw t) 44 76 = Return (take 32 (drop 39 body))" using len l(2) by (simp add: slice_of_def)
    obtain r18 r22 where a: "oe_rand18 E = Inr r18" "oe_rand22 E = Inr r22" "\<forall>b. oe_answer E b = None" using E by (auto simp: answering_def)
    show "\<exists>t1 raw. doHandshake E t = (Return (), t1) \<and> tk_raw t1 = raw \<and> raw @ tl1 = rest \<and> tk_sentHello t1
        \<and> tk_conn t1 = tk_conn t \<and> tk_dec t1 = tk_dec t \<and> tk_clientID t1 = take 32 (drop 39 body)"
      using len l(2) r(2) by (simp add: doHandshake_def Let_def parts(1,2) b43 sl d sendServerHello_def a) }
qed

inductive ticket_rep :: "obfs_env \<Rightarrow> bytes \<Rightarrow> tlsTicketObfs \<Rightarrow> bytes \<Rightarrow> bool"
  for E :: obfs_env and S :: bytes where
  start: "answering E \<Longrightarrow> \<not> tk_sentHello t \<Longrightarrow> tk_dec t = [] \<Longrightarrow> client_hello_ok body \<Longrightarrow> list_all record_ok rs \<Longrightarrow>
     tk_raw t @ tk_conn t = client_hello v1 v2 body @ records_bytes rs \<Longrightarrow> S = app_data rs \<Longrightarrow> ticket_rep E S t S"
| running: "answering E \<Longrightarrow> tk_sentHello t \<Longrightarrow> list_all record_ok rs \<Longrightarrow> tk_raw t @ tk_conn t = records_bytes rs \<Longrightarrow>
     ticket_rep E S t (tk_dec t @ app_data rs)"

lemma drain_rep:
  assumes "ticket_rep E S t s" and "tk_sentHello t"
  shows "\<exists>t1. drain t = (Return (), t1) \<and> ticket_rep E S t1 s \<and> tk_conn t1 = tk_conn t \<and> tk_sentHello t1 \<and> (tk_conn t = [] \<longrightarrow> tk_dec t1 = s)"
  using assms(1)
proof cases
  case (running rs)
  from drain_records [OF running(4,5)] obtain qs rest raw where
    q: "rs = qs @ rest" "drain t = (Return (), drained t raw (app_data qs))" "raw @ tk_conn t = records_bytes rest" "tk_conn t = [] \<longrightarrow> rest = []" by blast
  let ?t = "drained t raw (app_data qs)"
  have "ticket_rep E S ?t (tk_dec ?t @ app_data rest)" using running q by (intro ticket_rep.running) simp_all
  then show ?thesis using q running by (intro exI [of _ ?t]) simp
qed (use assms(2) in simp)

lemma give_rep:
  assumes "ticket_rep E S t s" and "tk_dec t \<noteq> []" and "0 < k"
  shows "\<exists>d s' t1. give k t = (Return d, t1) \<and> d \<noteq> [] \<and> length d \<le> k \<and> s = d @ s' \<and> ticket_rep E S t1 s'"
  using assms(1)
proof cases
  case (running rs)
  let ?t = "t\<lparr>tk_dec := drop k (tk_dec t)\<rparr>"
  have "ticket_rep E S ?t (tk_dec ?t @ app_data rs)" using running by (intro ticket_rep.running) simp_all
  then show ?thesis using running assms(2,3)
    by (intro exI [of _ "take k (tk_dec t)"] exI [of _ "drop k (tk_dec t) @ app_data rs"] exI [of _ ?t]) (simp add: give_def)
qed (use assms(2) in simp)

text \<open>A read either gives the next bytes, or reports the end when there are none.\<close>

definition reads_next :: "obfs_env \<Rightarrow> bytes \<Rightarrow> nat \<Rightarrow> bytes \<Rightarrow> bytes outcome \<times> tlsTicketObfs \<Rightarrow> bool" where
  "reads_next E S k s r \<longleftrightarrow>
     (if s = [] then \<exists>t1. r = (Error ''EOF'', t1)
      else \<exists>d s' t1. r = (Return d, t1) \<and> d \<noteq> [] \<and> length d \<le> k \<and> s = d @ s' \<and> ticket_rep E S t1 s')"

lemma give_reads_next:
  assumes "ticket_rep E S t s" and "tk_dec t \<noteq> []" and "0 < k"
  shows "reads_next E S k s (give k t)"
proof -
  from give_rep [OF assms] obtain d s' t1 where g: "give k t = (Return d, t1)" "d \<noteq> []" "length d \<le> k" "s = d @ s'" "ticket_rep E S t1 s'" by blast
  then have "s \<noteq> []" by simp
  with g show ?thesis unfolding reads_next_def by auto
qed

lemma before_read_rep:
  assumes "ticket_rep E S t s" and "0 < k"
  shows "(\<exists>r t1. before_read k t = (Some r, t1) \<and> reads_next E S k s r) \<or>
    (\<exists>t1. before_read k t = (None, t1) \<and> ticket_rep E S t1 s \<and> tk_conn t1 = tk_conn t \<and> tk_dec t1 = [])"
proof (cases "tk_dec t = []")
  case False
  then show ?thesis using give_reads_next [OF assms(1) False assms(2)] by (simp add: before_read_def)
next
  case True
  show ?thesis
  proof (cases "tk_sentHello t")
    case h: True
    from drain_rep [OF assms(1) h] obtain t1 where d: "drain t = (Return (), t1)" "ticket_rep E S t1 s" "tk_conn t1 = tk_conn t" by blast
    show ?thesis
    proof (cases "tk_dec t1 = []")
      case False
      then show ?thesis using give_reads_next [OF d(2) False assms(2)] True h d(1) by (simp add: before_read_def)
    qed (use True h d in \<open>simp add: before_read_def\<close>)
  qed (use True assms in \<open>simp add: before_read_def\<close>)
qed

lemma after_read_rep:
  assumes rep: "ticket_rep E S t s" and k: "0 < k"
  shows "(\<exists>r t1. after_read E avail k t = (Some r, t1) \<and> reads_next E S k s r) \<or> (\<exists>t1. after_read E avail k t = (None, t1) \<and> ticket_rep E S t1 s)"
proof -
  define n where "n = min 16384 (Suc avail)"
  define u where "u = t\<lparr>tk_raw := tk_raw t @ take n (tk_conn t), tk_conn := drop n (tk_conn t)\<rparr>"
  have us: "tk_raw u @ tk_conn u = tk_raw t @ tk_conn t" "tk_sentHello u = tk_sentHello t" "tk_dec u = tk_dec t"
    "tk_conn t = [] \<Longrightarrow> tk_conn u = []" by (simp_all add: u_def)
  have "\<exists>h t2. (if tk_sentHello u then (Return (), u) else doHandshake E u) = (h, t2) \<and> ticket_rep E S t2 s \<and> tk_conn t2 = tk_conn u
    \<and> (h = Return () \<and> tk_sentHello t2 \<or> h = Error errNeedMore \<and> tk_conn u \<noteq> [])"
    using rep
  proof cases
    case (running rs)
    then have "ticket_rep E S u (tk_dec u @ app_data rs)" using us by (intro ticket_rep.running) simp_all
    then show ?thesis using running us by (intro exI [of _ "Return ()"] exI [of _ u]) simp
  next
    case (start body rs v1 v2)
    have e: "tk_raw u @ tk_conn u = client_hello v1 v2 body @ records_bytes rs" using start us by simp
    note hs = doHandshake_hello [OF start(2,5) e]
    show ?thesis
    proof (cases "length (tk_raw u) < 5 + length body")
      case True
      have "ticket_rep E S u S" using start us e by (intro ticket_rep.start [where body = body and rs = rs]) simp_all
      then show ?thesis using hs(1) [OF True] start us by (intro exI [of _ "Error errNeedMore"] exI [of _ u]) simp
    next
      case False
      from hs(2) [OF False] obtain t1 where t1: "doHandshake E u = (Return (), t1)" "tk_raw t1 @ tk_conn u = records_bytes rs" "tk_sentHello t1"
        "tk_conn t1 = tk_conn u" "tk_dec t1 = tk_dec u" by auto
      have "ticket_rep E S t1 (tk_dec t1 @ app_data rs)" using t1 start by (intro ticket_rep.running) simp_all
      then show ?thesis using t1 start us by (intro exI [of _ "Return ()"] exI [of _ t1]) simp
    qed
  qed
  then obtain h t2 where h: "(if tk_sentHello u then (Return (), u) else doHandshake E u) = (h, t2)" "ticket_rep E S t2 s" "tk_conn t2 = tk_conn u"
    "h = Return () \<and> tk_sentHello t2 \<or> h = Error errNeedMore \<and> tk_conn u \<noteq> []" by blast
  have A: "after_read E avail k t = (let ended = (if tk_conn t \<noteq> [] then (None, t2)
                   else if tk_sentHello t2 then
                     (let t3 = snd (drain t2) in (Some (if tk_dec t3 \<noteq> [] then give k t3 else (Error ''EOF'', t3)), t3))
                   else (Some (Error ''EOF'', t2), t2))
      in case h of
           Panic p \<Rightarrow> (Some (Panic p, t2), t2)
         | Error e \<Rightarrow> if e \<noteq> errNeedMore then (Some (Error e, t2), t2) else ended
         | Return u \<Rightarrow> ended)"
    unfolding after_read_def Let_def n_def [symmetric] u_def [symmetric] h(1) case_prod_conv by simp
  show ?thesis
  proof (cases "tk_conn t = []")
    case False
    then have "after_read E avail k t = (None, t2)" using h(4) by (auto simp: A)
    then show ?thesis using h(2) by blast
  next
    case True
    then have hh: "h = Return ()" "tk_sentHello t2" using h(4) us(4) by auto
    from drain_rep [OF h(2) hh(2)] obtain t3 where d: "drain t2 = (Return (), t3)" "ticket_rep E S t3 s" "tk_dec t3 = s" using h(3) us(4) True by auto
    have "reads_next E S k s (if tk_dec t3 \<noteq> [] then give k t3 else (Error ''EOF'', t3))"
      using give_reads_next [OF d(2) _ k] d(3) by (simp add: reads_next_def)
    then show ?thesis using True hh d(1) by (simp add: A Let_def)
  qed
qed

lemma ticket_Read_rep: "ticket_rep E S t s \<Longrightarrow> 0 < k \<Longrightarrow> reads_next E S k s (ticket_Read E avail k t)"
proof (induction "length (tk_conn t)" arbitrary: t rule: less_induct)
  case less
  consider (now) r t1 where "before_read k t = (Some r, t1)" "reads_next E S k s r"
    | (later) t1 where "before_read k t = (None, t1)" "ticket_rep E S t1 s" "tk_conn t1 = tk_conn t"
    using before_read_rep [OF less.prems] by blast
  then show ?case
  proof cases
    case now
    then show ?thesis by (simp add: ticket_Read.simps [of E avail k t])
  next
    case later
    consider (here) r t2 where "after_read E avail k t1 = (Some r, t2)" "reads_next E S k s r"
      | (again) t2 where "after_read E avail k t1 = (None, t2)" "ticket_rep E S t2 s"
      using after_read_rep [OF later(2) less.prems(2), of avail] by blast
    then show ?thesis
    proof cases
      case here
      then show ?thesis using later by (simp add: ticket_Read.simps [of E avail k t])
    next
      case again
      have "length (tk_conn t2) < length (tk_conn t)" using after_read_less [OF again(1)] later(3) by simp
      from less.hyps [OF this again(2) less.prems(2)] show ?thesis using later again by (simp add: ticket_Read.simps [of E avail k t])
    qed
  qed
qed

interpretation ticket: plain_stream "ticket_Read E avail" "ticket_rep E S" for E avail S
proof
  fix c s and k :: nat
  assume a: "ticket_rep E S c s" "0 < k" "s \<noteq> []"
  from ticket_Read_rep [OF a(1,2), of avail] a(3)
  show "\<exists>d s' c'. ticket_Read E avail k c = (Return d, c') \<and> d \<noteq> [] \<and> length d \<le> k \<and> s = d @ s' \<and> ticket_rep E S c' s'"
    by (simp add: reads_next_def)
next
  fix c and k :: nat
  assume a: "ticket_rep E S c []" "0 < k"
  from ticket_Read_rep [OF a, of avail] show "\<exists>c'. ticket_Read E avail k c = (Error ''EOF'', c')" by (simp add: reads_next_def)
qed

section \<open>The cipher stream over a plain stream\<close>

text \<open>What a stream cipher promises: it works on the bytes one after the other, so that pieces can be taken as they come.\<close>

locale keystream =
  fixes xor :: "'s \<Rightarrow> bytes \<Rightarrow> bytes \<times> 's"
  assumes xor_append: "xor s (a @ b) = (case xor s a of (u, s1) \<Rightarrow> (case xor s1 b of (v, s2) \<Rightarrow> (u @ v, s2)))"
    and xor_same_length: "length (fst (xor s a)) = length a"
begin

lemma xor_split:
  assumes "xor s a = (u, s1)"
  shows "fst (xor s (a @ b)) = u @ fst (xor s1 b)"
  using assms by (simp add: xor_append split: prod.split)

text \<open>A state that takes off what another put on goes on doing so.\<close>

definition undoes :: "'s \<Rightarrow> 's \<Rightarrow> bool" where
  "undoes d e \<longleftrightarrow> (\<forall>p. fst (xor d (fst (xor e p))) = p)"

lemma undoes_next:
  assumes "undoes d e" and "xor e p = (ct, e1)" and "xor d ct = (p', d1)"
  shows "p' = p \<and> undoes d1 e1"
proof -
  have pp: "p' = p" using assms by (auto simp: undoes_def dest!: spec [of _ p])
  have "fst (xor d1 (fst (xor e1 q))) = q" for q
  proof -
    have "fst (xor d (fst (xor e (p @ q)))) = p @ q" using assms(1) by (simp add: undoes_def)
    then have "fst (xor d (ct @ fst (xor e1 q))) = p @ q" by (simp add: xor_split [OF assms(2)])
    then show ?thesis unfolding xor_split [OF assms(3)] by (simp add: pp)
  qed
  then show ?thesis by (simp add: pp undoes_def)
qed

end

interpretation rc4: keystream "\<lambda>c b. XORKeyStream b c"
proof
  show "length (fst (XORKeyStream a s)) = length a" for s a using XORKeyStream_length [of a s] by (metis prod.exhaust_sel)
qed (rule XORKeyStream_append)

lemma stream_xor_keystream:
  assumes "keystream (sl_xor L)"
  shows "keystream (stream_xor L)"
proof
  fix s :: "'a cipher_state" and a b :: bytes
  show "stream_xor L s (a @ b) = (case stream_xor L s a of (u, s1) \<Rightarrow> case stream_xor L s1 b of (v, s2) \<Rightarrow> (u @ v, s2))"
    by (cases s) (simp_all add: stream_xor_def keystream.xor_append [OF assms] XORKeyStream_append split: prod.split)
  show "length (fst (stream_xor L s a)) = length a"
    using keystream.xor_same_length [OF assms] rc4.xor_same_length by (cases s) (auto simp: stream_xor_def split: prod.split; metis fst_conv)+
qed

definition stream_rep :: "'k stream_lib \<Rightarrow> ('c \<Rightarrow> bytes \<Rightarrow> bool) \<Rightarrow> ('c, 'k) streamConn \<Rightarrow> bytes \<Rightarrow> bool" where
  "stream_rep L rep c s \<longleftrightarrow>
     (case sm_dec c of
        None \<Rightarrow> \<exists>iv ct k. rep (sm_Conn c) (iv @ ct) \<and> length iv = cs_ivSize (sm_spec c) \<and> cs_newDec (sm_spec c) (sm_key c) iv = Inr k
          \<and> s = fst (stream_xor L k ct)
      | Some k \<Rightarrow> \<exists>ct. rep (sm_Conn c) ct \<and> s = fst (stream_xor L k ct))"

lemma initRead_rep:
  assumes "plain_stream rd rep" and "stream_rep L rep c s"
  shows "\<exists>c1 k ct. initRead rd c = Some (Return (), c1) \<and> sm_dec c1 = Some k \<and> rep (sm_Conn c1) ct \<and> s = fst (stream_xor L k ct)"
proof (cases "sm_dec c")
  case None
  with assms(2) obtain iv ct k where i: "rep (sm_Conn c) (iv @ ct)" "length iv = cs_ivSize (sm_spec c)" "cs_newDec (sm_spec c) (sm_key c) iv = Inr k"
    "s = fst (stream_xor L k ct)" by (auto simp: stream_rep_def)
  from plain_stream.ReadFull_prefix [OF assms(1) i(1,2)] obtain x where
    "io_ReadFull rd (cs_ivSize (sm_spec c)) (sm_Conn c) = Some (Return iv, x)" "rep x ct" by blast
  then show ?thesis using None i by (intro exI [of _ "c\<lparr>sm_Conn := x, sm_readIV := iv, sm_dec := Some k\<rparr>"]) (auto simp: initRead_def)
qed (use assms(2) in \<open>auto simp: initRead_def stream_rep_def\<close>)

lemma streamConn_Read_rep:
  assumes p: "plain_stream rd rep" and ks: "keystream (sl_xor L)" and r: "stream_rep L rep c s" and k: "0 < k"
  shows "s \<noteq> [] \<Longrightarrow> \<exists>d s' c'. streamConn_Read L rd k c = Some (Return d, c') \<and> d \<noteq> [] \<and> length d \<le> k \<and> s = d @ s' \<and> stream_rep L rep c' s'"
    and "s = [] \<Longrightarrow> \<exists>c'. streamConn_Read L rd k c = Some (Error ''EOF'', c')"
proof -
  note xk = stream_xor_keystream [OF ks]
  from initRead_rep [OF p r] obtain c1 q ct where i: "initRead rd c = Some (Return (), c1)" "sm_dec c1 = Some q" "rep (sm_Conn c1) ct" "s = fst (stream_xor L q ct)"
    by blast
  have same: "s = [] \<longleftrightarrow> ct = []" using keystream.xor_same_length [OF xk, of q ct] i(4) by (metis length_0_conv)
  { assume "s \<noteq> []"
    then have "ct \<noteq> []" using same by simp
    from plain_stream.read_data [OF p i(3) k this] obtain d ct' x where
      d: "rd k (sm_Conn c1) = (Return d, x)" "d \<noteq> []" "length d \<le> k" "ct = d @ ct'" "rep x ct'" by blast
    obtain u q1 where u: "stream_xor L q d = (u, q1)" by force
    have "length u = length d" using keystream.xor_same_length [OF xk, of q d] u by simp
    moreover have "s = u @ fst (stream_xor L q1 ct')" unfolding i(4) d(4) by (rule keystream.xor_split [OF xk u])
    moreover have "stream_rep L rep (c1\<lparr>sm_Conn := x, sm_dec := Some q1\<rparr>) (fst (stream_xor L q1 ct'))" using d(5) by (auto simp: stream_rep_def)
    moreover have "streamConn_Read L rd k c = Some (Return u, c1\<lparr>sm_Conn := x, sm_dec := Some q1\<rparr>)"
      using i d u by (simp add: streamConn_Read_def)
    ultimately show "\<exists>d s' c'. streamConn_Read L rd k c = Some (Return d, c') \<and> d \<noteq> [] \<and> length d \<le> k \<and> s = d @ s' \<and> stream_rep L rep c' s'"
      using d(2,3) by (intro exI [of _ u] exI [of _ "fst (stream_xor L q1 ct')"] exI [of _ "c1\<lparr>sm_Conn := x, sm_dec := Some q1\<rparr>"]) auto }
  { assume "s = []"
    then have "rep (sm_Conn c1) []" using i(3) same by simp
    from plain_stream.read_end [OF p this k] obtain x where "rd k (sm_Conn c1) = (Error ''EOF'', x)" by blast
    then show "\<exists>c'. streamConn_Read L rd k c = Some (Error ''EOF'', c')" using i by (simp add: streamConn_Read_def) }
qed

text \<open>Over a plain stream the cipher stream never waits for ever and is a plain stream itself.\<close>

lemma streamConn_plain:
  assumes "plain_stream rd rep" and "keystream (sl_xor L)"
  shows "plain_stream (\<lambda>k c. the (streamConn_Read L rd k c)) (stream_rep L rep)"
proof
  fix c s and k :: nat
  assume a: "stream_rep L rep c s" "0 < k" "s \<noteq> []"
  from streamConn_Read_rep(1) [OF assms a(1,2) a(3)] obtain d s' c' where "streamConn_Read L rd k c = Some (Return d, c')" "d \<noteq> []" "length d \<le> k" "s = d @ s'"
    "stream_rep L rep c' s'" by blast
  then show "\<exists>d s' c'. the (streamConn_Read L rd k c) = (Return d, c') \<and> d \<noteq> [] \<and> length d \<le> k \<and> s = d @ s' \<and> stream_rep L rep c' s'"
    by (intro exI [of _ d] exI [of _ s'] exI [of _ c']) simp
next
  fix c and k :: nat
  assume a: "stream_rep L rep c []" "0 < k"
  from streamConn_Read_rep(2) [OF assms a] show "\<exists>c'. the (streamConn_Read L rd k c) = (Error ''EOF'', c')" by auto
qed

text \<open>
  Claim C30. The layers of a ShadowsocksR connection compose: when a client hides its IV and its encrypted data in the records of \<open>tls1.2_ticket_auth\<close>, between
  handshake records of whatever sizes, then in pieces of whatever size the bytes arrive the server's cipher stream over the plugin gives exactly the
  decrypted data, without waiting for ever.
\<close>

theorem layers_read_plain:
  assumes "keystream (sl_xor L)" and "answering E" and "client_hello_ok body" and "list_all record_ok rs" and "app_data rs = iv @ ct"
    and "length iv = cs_ivSize spec" and "cs_newDec spec key iv = Inr q" and "c = newStreamConn (new_tlsTicketObfs (client_hello v1 v2 body @ records_bytes rs) key) spec key"
  shows "(\<forall>k. 0 < k \<longrightarrow> streamConn_Read L (ticket_Read E avail) k c \<noteq> None)
    \<and> (\<exists>c'. io_ReadFull (\<lambda>k c. the (streamConn_Read L (ticket_Read E avail) k c)) (length ct) c = Some (Return (fst (stream_xor L q ct)), c'))"
proof -
  let ?t = "new_tlsTicketObfs (client_hello v1 v2 body @ records_bytes rs) key"
  have "ticket_rep E (app_data rs) ?t (app_data rs)"
    using assms(2-4) by (intro ticket_rep.start [where body = body and rs = rs]) (simp_all add: new_tlsTicketObfs_def)
  then have r: "stream_rep L (ticket_rep E (app_data rs)) c (fst (stream_xor L q ct))"
    unfolding assms(8) stream_rep_def using assms(5-7) by (auto simp: newStreamConn_def)
  have l: "length (fst (stream_xor L q ct)) = length ct" by (rule keystream.xor_same_length [OF stream_xor_keystream [OF assms(1)]])
  have "streamConn_Read L (ticket_Read E avail) k c \<noteq> None" if "0 < k" for k
    using streamConn_Read_rep [OF ticket.plain_stream_axioms assms(1) r that, of avail] by (cases "fst (stream_xor L q ct) = []") auto
  moreover have P: "plain_stream (\<lambda>k c. the (streamConn_Read L (ticket_Read E avail) k c)) (stream_rep L (ticket_rep E (app_data rs)))"
    by (rule streamConn_plain [OF ticket.plain_stream_axioms assms(1)])
  moreover obtain c' where "io_ReadFull (\<lambda>k c. the (streamConn_Read L (ticket_Read E avail) k c)) (length ct) c = Some (Return (fst (stream_xor L q ct)), c')"
    using plain_stream.ReadFull_prefix [OF P, of c "fst (stream_xor L q ct)" "[]" "length ct"] r l
    by auto
  ultimately show ?thesis by blast
qed

definition demo_obfs :: obfs_env where
  "demo_obfs = \<lparr>oe_hmacSHA1 = (\<lambda>k d. replicate 20 (sum_list (k @ d))), oe_time = 7, oe_rand18 = Inr (replicate 18 1), oe_rand22 = Inr (replicate 22 2),
     oe_answer = (\<lambda>b. None)\<rparr>"

definition demo_lib :: "unit stream_lib" where
  "demo_lib = \<lparr>sl_cfbEnc = (\<lambda>k iv. Inr ()), sl_cfbDec = (\<lambda>k iv. Inr ()), sl_ctr = (\<lambda>k iv. Inr ()), sl_chacha = (\<lambda>k iv. Inr ()),
     sl_md5 = (\<lambda>b. replicate 16 (sum_list b)), sl_xor = (\<lambda>k b. (b, k))\<rparr>"

definition demo_spec :: "unit cipherSpec" where
  "demo_spec = spec_of 16 16 (rc4md5 demo_lib) (rc4md5 demo_lib)"

lemma demo_lib_keystream: "keystream (sl_xor demo_lib)"
  by unfold_locales (simp_all add: demo_lib_def)

theorem layers_read_plain_witness:
  "newCipherSpec demo_lib ''rc4-md5'' = Inr demo_spec
    \<and> (\<exists>c'. io_ReadFull (\<lambda>k c. the (streamConn_Read demo_lib (ticket_Read demo_obfs 0) k c)) (length [5, 6, 7 :: byte])
         (newStreamConn (new_tlsTicketObfs
            (client_hello 3 1 (replicate 38 1 @ [0x20] @ replicate 40 9) @ records_bytes [(0x14, 3, 3, [1]), (0x17, 3, 3, replicate 16 4), (0x17, 3, 3, [5, 6]), (0x17, 3, 3, [7])])
            [1, 2]) demo_spec [1, 2])
         = Some (Return (fst (XORKeyStream [5, 6, 7] (rc4_NewCipher (replicate 16 67)))), c'))"
proof -
  let ?b = "replicate 38 1 @ [0x20] @ replicate 40 9 :: bytes"
  let ?rs = "[(0x14, 3, 3, [1]), (0x17, 3, 3, replicate 16 4), (0x17, 3, 3, [5, 6]), (0x17, 3, 3, [7])] :: tls_record list"
  have 1: "answering demo_obfs" by (simp add: answering_def demo_obfs_def)
  have 2: "client_hello_ok ?b" by (simp add: client_hello_ok_def nth_append)
  have 3: "list_all record_ok ?rs" by simp
  have 4: "app_data ?rs = replicate 16 4 @ [5, 6, 7]" by simp
  have 5: "length (replicate 16 4 :: bytes) = cs_ivSize demo_spec" by (simp add: demo_spec_def spec_of_def)
  have 6: "cs_newDec demo_spec [1, 2] (replicate 16 4) = Inr (Inr (rc4_NewCipher (replicate 16 67)))"
    by (simp add: demo_spec_def spec_of_def rc4md5_def demo_lib_def sum_list_replicate)
  have 7: "newCipherSpec demo_lib ''rc4-md5'' = Inr demo_spec" by (simp add: newCipherSpec_def cipherSpecs_def Let_def demo_spec_def)
  from layers_read_plain [OF demo_lib_keystream 1 2 3 4 5 6 refl, of 0 3 1] 7 show ?thesis by (simp add: stream_xor_def split: prod.splits)
qed

section \<open>Writing through both layers\<close>

lemma tls_records_records:
  "\<exists>rs. tls_records b = records_bytes rs \<and> list_all record_ok rs \<and> app_data rs = b"
proof (induction "length b" arbitrary: b rule: less_induct)
  case less
  show ?case
  proof (cases "b = []")
    case True
    then show ?thesis by (intro exI [of _ "[]"]) (simp add: tls_records.simps)
  next
    case False
    let ?n = "min (length b) 16384"
    have "length (drop ?n b) < length b" using False by auto
    from less [OF this] obtain rs where rs: "tls_records (drop ?n b) = records_bytes rs" "list_all record_ok rs" "app_data rs = drop ?n b" by blast
    have "tls_records b = records_bytes ((0x17, 3, 3, take ?n b) # rs)"
      using False rs(1) by (subst tls_records.simps) (simp add: Let_def min.commute)
    then show ?thesis using rs(2,3) by (intro exI [of _ "(0x17, 3, 3, take ?n b) # rs"]) simp
  qed
qed

text \<open>Writes of the cipher stream whose bytes go through the plugin.\<close>

definition layered_write ::
  "'k stream_lib \<Rightarrow> obfs_env \<Rightarrow> (nat \<Rightarrow> goerror + bytes) \<Rightarrow> bytes \<Rightarrow> ('c, 'k) streamConn \<times> tlsTicketObfs \<Rightarrow> (nat \<times> goerror option) \<times> ('c, 'k) streamConn \<times> tlsTicketObfs" where
  "layered_write L E rnd p st =
     (case st of (c, t) \<Rightarrow>
        (case streamConn_Write L (\<lambda>b. oe_answer E (tls_records b)) rnd p c of
           (res, sent, c1) \<Rightarrow> (res, c1, fold (\<lambda>b t. snd (ticket_Write E b t)) sent t)))"

fun layered_writes ::
  "'k stream_lib \<Rightarrow> obfs_env \<Rightarrow> (nat \<Rightarrow> goerror + bytes) \<Rightarrow> bytes list \<Rightarrow> ('c, 'k) streamConn \<times> tlsTicketObfs \<Rightarrow> (nat \<times> goerror option) list \<times> ('c, 'k) streamConn \<times> tlsTicketObfs" where
  "layered_writes L E rnd [] st = ([], st)"
| "layered_writes L E rnd (p # ps) st =
     (case layered_write L E rnd p st of (res, st1) \<Rightarrow> (case layered_writes L E rnd ps st1 of (rs, st2) \<Rightarrow> (res # rs, st2)))"

lemma ticket_Write_sent: "\<forall>b. oe_answer E b = None \<Longrightarrow> ticket_Write E b t = ((length b, None), t\<lparr>tk_sent := tk_sent t @ tls_records b\<rparr>)"
  by (simp add: ticket_Write_def)

lemma write_running:
  assumes ks: "keystream (sl_xor L)" and ok: "\<forall>b. oe_answer E b = None"
  shows "sm_enc c = Some e \<Longrightarrow>
    \<exists>c1 t1 rs. layered_writes L E rnd ps (c, t) = (map (\<lambda>p. (length p, None)) ps, c1, t1) \<and> tk_sent t1 = tk_sent t @ records_bytes rs
      \<and> list_all record_ok rs \<and> app_data rs = fst (stream_xor L e (concat ps))"
proof (induction ps arbitrary: c t e)
  case Nil
  have "fst (stream_xor L e []) = []" using keystream.xor_same_length [OF stream_xor_keystream [OF ks], of e "[]"] by simp
  then show ?case by (intro exI [of _ c] exI [of _ t] exI [of _ "[]"]) simp
next
  case (Cons p ps)
  obtain ct e1 where x: "stream_xor L e p = (ct, e1)" by force
  obtain rs where rs: "tls_records ct = records_bytes rs" "list_all record_ok rs" "app_data rs = ct" using tls_records_records by blast
  let ?c = "c\<lparr>sm_enc := Some e1\<rparr>" and ?t = "t\<lparr>tk_sent := tk_sent t @ tls_records ct\<rparr>"
  have w: "layered_write L E rnd p (c, t) = ((length p, None), ?c, ?t)"
    using Cons.prems ok by (simp add: layered_write_def streamConn_Write_def send_cipher_def x ticket_Write_sent [OF ok])
  from Cons.IH [of ?c e1 ?t] obtain c1 t1 rs' where
    i: "layered_writes L E rnd ps (?c, ?t) = (map (\<lambda>p. (length p, None)) ps, c1, t1)" "tk_sent t1 = tk_sent ?t @ records_bytes rs'"
      "list_all record_ok rs'" "app_data rs' = fst (stream_xor L e1 (concat ps))" by auto
  have "app_data (rs @ rs') = fst (stream_xor L e (concat (p # ps)))"
    using rs(3) i(4) by (simp add: keystream.xor_split [OF stream_xor_keystream [OF ks] x])
  then show ?case using w i rs by (intro exI [of _ c1] exI [of _ t1] exI [of _ "rs @ rs'"]) (simp add: records_bytes_def)
qed

text \<open>
  Claim C31. What the server writes arrives: the writes of a connection, whatever their sizes, go out as one run of records that carry the IV and the
  encrypted data, and a peer whose decrypting state takes off what the encrypting state puts on gets exactly the data, in order.
\<close>

theorem layers_write_decodes:
  assumes "keystream (sl_xor L)" and "\<forall>b. oe_answer E b = None" and "rnd (cs_ivSize spec) = Inr iv" and "cs_newEnc spec key iv = Inr e"
    and "cs_newDec spec key iv = Inr d" and "keystream.undoes (stream_xor L) d e" and "ps \<noteq> []"
  shows "\<exists>c1 t1 rs ct. layered_writes L E rnd ps (newStreamConn c spec key, t) = (map (\<lambda>p. (length p, None)) ps, c1, t1)
    \<and> tk_sent t1 = tk_sent t @ records_bytes rs \<and> list_all record_ok rs \<and> app_data rs = iv @ ct \<and> fst (stream_xor L d ct) = concat ps"
proof -
  note xk = stream_xor_keystream [OF assms(1)]
  obtain p qs where ps: "ps = p # qs" using assms(7) by (cases ps) auto
  obtain ct e1 where x: "stream_xor L e p = (ct, e1)" by force
  obtain r1 r2 where r: "tls_records iv = records_bytes r1" "list_all record_ok r1" "app_data r1 = iv"
    "tls_records ct = records_bytes r2" "list_all record_ok r2" "app_data r2 = ct" using tls_records_records by metis
  let ?c = "newStreamConn c spec key"
  let ?c1 = "?c\<lparr>sm_writeIV := iv, sm_enc := Some e1\<rparr>" and ?t = "t\<lparr>tk_sent := tk_sent t @ tls_records iv @ tls_records ct\<rparr>"
  have w: "layered_write L E rnd p (?c, t) = ((length p, None), ?c1, ?t)"
    using assms(2-4) by (simp add: layered_write_def streamConn_Write_def send_cipher_def x newStreamConn_def ticket_Write_sent)
  from write_running [OF assms(1,2), of ?c1 e1 rnd qs ?t] obtain c2 t2 rs where
    i: "layered_writes L E rnd qs (?c1, ?t) = (map (\<lambda>p. (length p, None)) qs, c2, t2)" "tk_sent t2 = tk_sent ?t @ records_bytes rs"
      "list_all record_ok rs" "app_data rs = fst (stream_xor L e1 (concat qs))" by auto
  have "app_data (r1 @ r2 @ rs) = iv @ fst (stream_xor L e (concat ps))"
    using r i(4) by (simp add: ps keystream.xor_split [OF xk x])
  moreover have "fst (stream_xor L d (fst (stream_xor L e (concat ps)))) = concat ps" using assms(6) by (simp add: keystream.undoes_def [OF xk])
  ultimately show ?thesis
    using w i r by (intro exI [of _ c2] exI [of _ t2] exI [of _ "r1 @ r2 @ rs"] exI [of _ "fst (stream_xor L e (concat ps))"]) (simp add: ps records_bytes_def)
qed

lemma rc4_undoes: "keystream.undoes (stream_xor demo_lib) (Inr c) (Inr c)"
proof -
  have "fst (stream_xor demo_lib (Inr c) (fst (stream_xor demo_lib (Inr c) p))) = p" for p
  proof -
    obtain w c1 where w: "XORKeyStream p c = (w, c1)" by force
    then show ?thesis using XORKeyStream_twice [OF w] by (simp add: stream_xor_def)
  qed
  then show ?thesis by (simp add: keystream.undoes_def [OF stream_xor_keystream [OF demo_lib_keystream]])
qed

definition demo_iv :: "nat \<Rightarrow> goerror + bytes" where
  "demo_iv n = Inr (replicate n 4)"

theorem layers_write_decodes_witness:
  "\<exists>c1 t1 rs ct. layered_writes demo_lib demo_obfs demo_iv [[5, 6], [7]] (newStreamConn () demo_spec [1, 2], new_tlsTicketObfs [] [1, 2]) =
      ([(2, None), (1, None)], c1, t1)
    \<and> tk_sent t1 = records_bytes rs \<and> app_data rs = replicate 16 4 @ ct \<and> fst (XORKeyStream ct (rc4_NewCipher (replicate 16 67))) = [5, 6, 7]"
proof -
  have 1: "\<forall>b. oe_answer demo_obfs b = None" by (simp add: demo_obfs_def)
  have 2: "demo_iv (cs_ivSize demo_spec) = Inr (replicate 16 4)" by (simp add: demo_iv_def demo_spec_def spec_of_def)
  have 3: "cs_newEnc demo_spec [1, 2] (replicate 16 4) = Inr (Inr (rc4_NewCipher (replicate 16 67)))"
    "cs_newDec demo_spec [1, 2] (replicate 16 4) = Inr (Inr (rc4_NewCipher (replicate 16 67)))"
    by (simp_all add: demo_spec_def spec_of_def rc4md5_def demo_lib_def sum_list_replicate)
  from layers_write_decodes [where L = demo_lib and E = demo_obfs and rnd = demo_iv and spec = demo_spec and key = "[1, 2]" and ps = "[[5, 6], [7]]" and c = "()"
      and t = "new_tlsTicketObfs [] [1, 2]", OF demo_lib_keystream 1 2 3 rc4_undoes]
  obtain c1 t1 rs ct where r: "layered_writes demo_lib demo_obfs demo_iv [[5, 6], [7]] (newStreamConn () demo_spec [1, 2], new_tlsTicketObfs [] [1, 2]) =
      (map (\<lambda>p. (length p, None)) [[5, 6], [7 :: byte]], c1, t1)"
    "tk_sent t1 = tk_sent (new_tlsTicketObfs [] [1, 2]) @ records_bytes rs" "app_data rs = replicate 16 4 @ ct"
    "fst (stream_xor demo_lib (Inr (rc4_NewCipher (replicate 16 67))) ct) = concat [[5, 6], [7]]" by blast
  have "tk_sent t1 = records_bytes rs" using r(2) by (simp add: new_tlsTicketObfs_def)
  moreover have "fst (XORKeyStream ct (rc4_NewCipher (replicate 16 67))) = [5, 6, 7]" using r(4) by (simp add: stream_xor_def split: prod.splits)
  ultimately show ?thesis using r(1,3) by (intro exI [of _ c1] exI [of _ t1] exI [of _ rs] exI [of _ ct]) simp
qed

end
