(* ===== verification/Shadow_Profile.thy ===== *)
theory Shadow_Profile
  imports Bytes
begin

text \<open>
  The traffic profiles of ShadowFlow (\<open>common/shadowflow/profile.go\<close>) and the collector that builds them from captured records
  (\<open>collector.go\<close>): the nine built-in profiles with their numbers, the registry, sampling of sizes, and the exchange of profiles as JSON files.
  Random numbers come from a stream of numbers and a stream of bytes that are arguments and are returned with what was used taken off; theorems hold for
  every stream. \<open>rand.Intn\<close> panics unless its bound is positive.
\<close>

section \<open>Random numbers\<close>

record rands =
  rnd_Int :: "nat \<Rightarrow> nat"
  rnd_Byte :: "nat \<Rightarrow> byte"

definition Intn :: "int \<Rightarrow> rands \<Rightarrow> (int \<times> rands) outcome" where
  "Intn n r =
     (if n \<le> 0 then Panic ''invalid argument to Intn''
      else Return (int (rnd_Int r 0) mod n, r\<lparr>rnd_Int := (\<lambda>i. rnd_Int r (Suc i))\<rparr>))"

text \<open>\<open>crypto/rand.Read\<close> into a slice of \<open>n\<close> bytes.\<close>

definition rand_Read :: "nat \<Rightarrow> rands \<Rightarrow> bytes \<times> rands" where
  "rand_Read n r = (map (rnd_Byte r) [0..<n], r\<lparr>rnd_Byte := (\<lambda>i. rnd_Byte r (n + i))\<rparr>)"

section \<open>Profiles\<close>

record SizeRange =
  sr_Min :: int
  sr_Max :: int
  sr_Weight :: int

record InitialPacket =
  ip_MinSize :: int
  ip_MaxSize :: int

record TrafficProfile =
  tp_Name :: string
  tp_C2SSizes :: "SizeRange list"
  tp_S2CSizes :: "SizeRange list"
  tp_C2SInitial :: "InitialPacket list"
  tp_S2CInitial :: "InitialPacket list"
  tp_MinRecordPayload :: int
  tp_MaxRecordPayload :: int
  tp_InterPacketDelayMin :: int
  tp_InterPacketDelayMax :: int

definition size_range :: "int \<Rightarrow> int \<Rightarrow> int \<Rightarrow> SizeRange" where
  "size_range a b w = \<lparr>sr_Min = a, sr_Max = b, sr_Weight = w\<rparr>"

definition initial :: "int \<Rightarrow> int \<Rightarrow> InitialPacket" where
  "initial a b = \<lparr>ip_MinSize = a, ip_MaxSize = b\<rparr>"

definition ChromeH2Profile :: TrafficProfile where
  "ChromeH2Profile = \<lparr>tp_Name = ''chrome_h2'',
     tp_C2SSizes = [size_range 26 120 25, size_range 121 500 30, size_range 501 1200 25, size_range 1201 4000 12, size_range 4001 16384 8],
     tp_S2CSizes = [size_range 26 100 10, size_range 101 500 15, size_range 501 2000 15, size_range 2001 8000 20, size_range 8001 14000 20, size_range 14001 16384 20],
     tp_C2SInitial = [initial 60 120, initial 26 50, initial 150 800, initial 26 100, initial 100 600, initial 26 50, initial 80 400, initial 26 80],
     tp_S2CInitial = [initial 80 200, initial 26 50, initial 100 600, initial 2000 16384, initial 26 80, initial 200 1200, initial 1000 8000, initial 26 60],
     tp_MinRecordPayload = 26, tp_MaxRecordPayload = 16384,
     tp_InterPacketDelayMin = 0, tp_InterPacketDelayMax = 3000\<rparr>"

definition SafariProfile :: TrafficProfile where
  "SafariProfile = \<lparr>tp_Name = ''safari'',
     tp_C2SSizes = [size_range 30 150 20, size_range 151 600 30, size_range 601 1500 25, size_range 1501 5000 15, size_range 5001 16384 10],
     tp_S2CSizes = [size_range 30 200 10, size_range 201 1000 15, size_range 1001 4000 20, size_range 4001 10000 25, size_range 10001 16384 30],
     tp_C2SInitial = [initial 80 200, initial 30 60, initial 200 1000, initial 30 120, initial 100 500, initial 30 60, initial 150 800, initial 30 80],
     tp_S2CInitial = [initial 100 300, initial 30 60, initial 150 800, initial 3000 16384, initial 30 80, initial 200 1000, initial 1500 10000, initial 30 60],
     tp_MinRecordPayload = 30, tp_MaxRecordPayload = 16384,
     tp_InterPacketDelayMin = 0, tp_InterPacketDelayMax = 4000\<rparr>"

definition FirefoxProfile :: TrafficProfile where
  "FirefoxProfile = \<lparr>tp_Name = ''firefox'',
     tp_C2SSizes = [size_range 28 100 20, size_range 101 450 30, size_range 451 1100 25, size_range 1101 3500 15, size_range 3501 16384 10],
     tp_S2CSizes = [size_range 28 150 10, size_range 151 800 15, size_range 801 3000 20, size_range 3001 10000 25, size_range 10001 16384 30],
     tp_C2SInitial = [initial 70 150, initial 28 55, initial 180 750, initial 28 90, initial 100 450, initial 28 55, initial 120 600, initial 28 70],
     tp_S2CInitial = [initial 90 250, initial 28 55, initial 120 700, initial 2500 16384, initial 28 70, initial 150 800, initial 1500 8000, initial 28 55],
     tp_MinRecordPayload = 28, tp_MaxRecordPayload = 16384,
     tp_InterPacketDelayMin = 0, tp_InterPacketDelayMax = 3500\<rparr>"

definition DouyinProfile :: TrafficProfile where
  "DouyinProfile = \<lparr>tp_Name = ''douyin'',
     tp_C2SSizes = [size_range 26 80 40, size_range 81 250 25, size_range 251 600 20, size_range 601 1500 10, size_range 1501 4000 5],
     tp_S2CSizes = [size_range 26 150 8, size_range 151 800 10, size_range 801 4000 15, size_range 4001 10000 30, size_range 10001 16384 37],
     tp_C2SInitial = [initial 60 130, initial 26 50, initial 300 900, initial 26 80, initial 80 400, initial 26 50, initial 100 500, initial 26 60],
     tp_S2CInitial = [initial 80 200, initial 26 50, initial 800 3000, initial 6000 16384, initial 26 80, initial 400 2000, initial 4000 14000, initial 26 50],
     tp_MinRecordPayload = 26, tp_MaxRecordPayload = 16384,
     tp_InterPacketDelayMin = 200, tp_InterPacketDelayMax = 2000\<rparr>"

definition BilibiliProfile :: TrafficProfile where
  "BilibiliProfile = \<lparr>tp_Name = ''bilibili'',
     tp_C2SSizes = [size_range 26 60 35, size_range 61 200 25, size_range 201 600 20, size_range 601 1500 15, size_range 1501 4000 5],
     tp_S2CSizes = [size_range 26 100 5, size_range 101 500 8, size_range 501 2000 7, size_range 2001 10000 15, size_range 10001 16384 65],
     tp_C2SInitial = [initial 60 120, initial 26 50, initial 250 700, initial 26 100, initial 80 350, initial 26 50, initial 100 400, initial 26 60],
     tp_S2CInitial = [initial 80 200, initial 26 50, initial 400 2000, initial 10000 16384, initial 26 80, initial 200 1500, initial 8000 16384, initial 26 50],
     tp_MinRecordPayload = 26, tp_MaxRecordPayload = 16384,
     tp_InterPacketDelayMin = 100, tp_InterPacketDelayMax = 1500\<rparr>"

definition AppleMusicProfile :: TrafficProfile where
  "AppleMusicProfile = \<lparr>tp_Name = ''apple_music'',
     tp_C2SSizes = [size_range 26 80 35, size_range 81 250 30, size_range 251 600 20, size_range 601 1500 10, size_range 1501 3000 5],
     tp_S2CSizes = [size_range 26 100 8, size_range 101 500 10, size_range 501 2000 15, size_range 2001 6000 35, size_range 6001 16384 32],
     tp_C2SInitial = [initial 60 130, initial 26 50, initial 200 600, initial 26 80, initial 80 300, initial 26 50, initial 100 400, initial 26 60],
     tp_S2CInitial = [initial 80 200, initial 26 50, initial 300 1200, initial 2000 8000, initial 26 80, initial 150 600, initial 1500 6000, initial 26 50],
     tp_MinRecordPayload = 26, tp_MaxRecordPayload = 16384,
     tp_InterPacketDelayMin = 300, tp_InterPacketDelayMax = 5000\<rparr>"

definition TaobaoProfile :: TrafficProfile where
  "TaobaoProfile = \<lparr>tp_Name = ''taobao'',
     tp_C2SSizes = [size_range 26 100 30, size_range 101 400 30, size_range 401 1000 25, size_range 1001 3000 10, size_range 3001 8000 5],
     tp_S2CSizes = [size_range 26 200 10, size_range 201 1000 15, size_range 1001 4000 25, size_range 4001 10000 30, size_range 10001 16384 20],
     tp_C2SInitial = [initial 60 120, initial 26 50, initial 300 800, initial 26 100, initial 100 500, initial 26 50, initial 150 600, initial 26 80],
     tp_S2CInitial = [initial 80 200, initial 26 50, initial 1000 4000, initial 3000 12000, initial 26 80, initial 500 3000, initial 2000 10000, initial 26 50],
     tp_MinRecordPayload = 26, tp_MaxRecordPayload = 16384,
     tp_InterPacketDelayMin = 0, tp_InterPacketDelayMax = 4000\<rparr>"

definition ICloudSyncProfile :: TrafficProfile where
  "ICloudSyncProfile = \<lparr>tp_Name = ''icloud_sync'',
     tp_C2SSizes = [size_range 30 100 8, size_range 101 500 7, size_range 501 4000 10, size_range 4001 12000 30, size_range 12001 16384 45],
     tp_S2CSizes = [size_range 30 100 5, size_range 101 500 5, size_range 501 4000 8, size_range 4001 12000 22, size_range 12001 16384 60],
     tp_C2SInitial = [initial 60 150, initial 30 60, initial 300 1200, initial 100 500, initial 200 800, initial 30 60, initial 500 4000, initial 30 80],
     tp_S2CInitial = [initial 80 250, initial 30 60, initial 200 800, initial 8000 16384, initial 30 80, initial 300 1500, initial 6000 16384, initial 30 60],
     tp_MinRecordPayload = 30, tp_MaxRecordPayload = 16384,
     tp_InterPacketDelayMin = 0, tp_InterPacketDelayMax = 500\<rparr>"

definition TencentVideoProfile :: TrafficProfile where
  "TencentVideoProfile = \<lparr>tp_Name = ''tencent_video'',
     tp_C2SSizes = [size_range 26 60 45, size_range 61 200 25, size_range 201 600 15, size_range 601 1500 10, size_range 1501 4000 5],
     tp_S2CSizes = [size_range 26 100 3, size_range 101 500 3, size_range 501 3000 4, size_range 3001 10000 15, size_range 10001 16384 75],
     tp_C2SInitial = [initial 60 100, initial 26 40, initial 150 500, initial 26 60, initial 80 300, initial 26 40, initial 60 200, initial 26 50],
     tp_S2CInitial = [initial 80 180, initial 26 40, initial 500 2000, initial 12000 16384, initial 26 60, initial 300 1500, initial 10000 16384, initial 26 40],
     tp_MinRecordPayload = 26, tp_MaxRecordPayload = 16384,
     tp_InterPacketDelayMin = 50, tp_InterPacketDelayMax = 800\<rparr>"

type_synonym registry = "string \<rightharpoonup> TrafficProfile"

definition profileRegistry :: registry where
  "profileRegistry =
     [''chrome_h2'' \<mapsto> ChromeH2Profile, ''safari'' \<mapsto> SafariProfile, ''firefox'' \<mapsto> FirefoxProfile, ''douyin'' \<mapsto> DouyinProfile,
      ''bilibili'' \<mapsto> BilibiliProfile, ''apple_music'' \<mapsto> AppleMusicProfile, ''taobao'' \<mapsto> TaobaoProfile,
      ''icloud_sync'' \<mapsto> ICloudSyncProfile, ''tencent_video'' \<mapsto> TencentVideoProfile]"

definition GetProfile :: "registry \<Rightarrow> string \<Rightarrow> TrafficProfile" where
  "GetProfile reg name = (case reg name of Some p \<Rightarrow> p | None \<Rightarrow> ChromeH2Profile)"

text \<open>The profiles are collected in the order in which the map is visited.\<close>

definition GetRandomProfile :: "registry \<Rightarrow> string list \<Rightarrow> rands \<Rightarrow> (TrafficProfile \<times> rands) outcome" where
  "GetRandomProfile reg order r =
     (let profiles = List.map_filter reg order in
      obind (Intn (int (length profiles)) r) (\<lambda>(k, r1). Return (profiles ! nat k, r1)))"

section \<open>Sampling\<close>

definition between :: "int \<Rightarrow> int \<Rightarrow> rands \<Rightarrow> (int \<times> rands) outcome" where
  "between lo hi r = obind (Intn (i64 (i64 (hi - lo) + 1)) r) (\<lambda>(k, r1). Return (i64 (lo + k), r1))"

definition sample_in :: "int \<Rightarrow> int \<Rightarrow> rands \<Rightarrow> (int \<times> rands) outcome" where
  "sample_in lo hi r = (if lo = hi then Return (lo, r) else between lo hi r)"

fun total_weight :: "SizeRange list \<Rightarrow> int \<Rightarrow> int" where
  "total_weight [] t = t"
| "total_weight (x # xs) t = total_weight xs (i64 (t + sr_Weight x))"

text \<open>The first range whose cumulative weight is above the number that was picked.\<close>

fun pick_range :: "SizeRange list \<Rightarrow> int \<Rightarrow> int \<Rightarrow> SizeRange option" where
  "pick_range [] cumulative pick = None"
| "pick_range (x # xs) cumulative pick =
     (let c = i64 (cumulative + sr_Weight x) in if pick < c then Some x else pick_range xs c pick)"

definition SampleSize :: "SizeRange list \<Rightarrow> rands \<Rightarrow> (int \<times> rands) outcome" where
  "SampleSize ranges r =
     (let totalWeight = total_weight ranges 0 in
      if totalWeight = 0 then Return (512, r)
      else
        obind (Intn totalWeight r) (\<lambda>(pick, r1).
          case pick_range ranges 0 pick of
            Some x \<Rightarrow> sample_in (sr_Min x) (sr_Max x) r1
          | None \<Rightarrow> between (sr_Min (last ranges)) (sr_Max (last ranges)) r1))"

definition SampleInitialSize :: "InitialPacket list \<Rightarrow> nat \<Rightarrow> rands \<Rightarrow> (int \<times> rands) outcome" where
  "SampleInitialSize packets index r =
     (if length packets \<le> index then Return (-1, r)
      else sample_in (ip_MinSize (packets ! index)) (ip_MaxSize (packets ! index)) r)"

section \<open>Collecting a profile\<close>

record CapturedRecord =
  cr_Size :: int
  cr_IsC2S :: bool
  cr_SeqIndex :: int
  cr_Timestamp :: int

record ProfileCollector =
  pc_name :: string
  pc_records :: "CapturedRecord list"

definition NewProfileCollector :: "string \<Rightarrow> ProfileCollector" where
  "NewProfileCollector name = \<lparr>pc_name = name, pc_records = []\<rparr>"

definition AddRecord :: "int \<Rightarrow> bool \<Rightarrow> int \<Rightarrow> int \<Rightarrow> ProfileCollector \<Rightarrow> ProfileCollector" where
  "AddRecord s isC2S seqIndex timestampMs pc =
     pc\<lparr>pc_records := pc_records pc @ [\<lparr>cr_Size = s, cr_IsC2S = isC2S, cr_SeqIndex = seqIndex, cr_Timestamp = timestampMs\<rparr>]\<rparr>"

text \<open>The five buckets of the sorted sizes; a bucket that gets no size is left out.\<close>

definition buildDistribution :: "int list \<Rightarrow> SizeRange list" where
  "buildDistribution sizes =
     (if sizes = [] then [size_range 26 16384 100]
      else
        (let sorted = sort sizes; n = length sorted in
         map (\<lambda>i. let bucket = take (n * (i + 1) div 5 - n * i div 5) (drop (n * i div 5) sorted) in size_range (hd bucket) (last bucket) 20)
           (filter (\<lambda>i. n * i div 5 < n * (i + 1) div 5) [0..<5])))"

definition widen :: "InitialPacket \<Rightarrow> InitialPacket" where
  "widen p =
     (let margin = max 5 (go_div (ip_MinSize p) 5) in
      initial (max 20 (i64 (ip_MinSize p - margin))) (min 16384 (i64 (ip_MaxSize p + margin))))"

definition widenInitial :: "InitialPacket list \<Rightarrow> InitialPacket list" where
  "widenInitial = map widen"

text \<open>The loop over the records: sizes and first packets of a direction are those of its records in order.\<close>

record collected =
  co_c2sSizes :: "int list"
  co_s2cSizes :: "int list"
  co_c2sInitial :: "InitialPacket list"
  co_s2cInitial :: "InitialPacket list"
  co_minSize :: int

fun collect_records :: "nat \<Rightarrow> CapturedRecord list \<Rightarrow> collected \<Rightarrow> collected" where
  "collect_records initialCount [] c = c"
| "collect_records initialCount (x # xs) c =
     (let c1 = c\<lparr>co_minSize := min (cr_Size x) (co_minSize c)\<rparr>; p = initial (cr_Size x) (cr_Size x) in
      collect_records initialCount xs
        (if cr_IsC2S x then
           c1\<lparr>co_c2sSizes := co_c2sSizes c @ [cr_Size x],
              co_c2sInitial := (if length (co_c2sInitial c) < initialCount then co_c2sInitial c @ [p] else co_c2sInitial c)\<rparr>
         else
           c1\<lparr>co_s2cSizes := co_s2cSizes c @ [cr_Size x],
              co_s2cInitial := (if length (co_s2cInitial c) < initialCount then co_s2cInitial c @ [p] else co_s2cInitial c)\<rparr>))"

definition BuildProfile :: "int \<Rightarrow> ProfileCollector \<Rightarrow> TrafficProfile" where
  "BuildProfile initialCount pc =
     (let n = (if initialCount \<le> 0 then 4 else nat initialCount);
          c = collect_records n (pc_records pc) \<lparr>co_c2sSizes = [], co_s2cSizes = [], co_c2sInitial = [], co_s2cInitial = [], co_minSize = 99999\<rparr>;
          minSize = (if co_minSize c = 99999 \<or> co_minSize c < 20 then 26 else co_minSize c)
      in \<lparr>tp_Name = pc_name pc, tp_C2SSizes = buildDistribution (co_c2sSizes c), tp_S2CSizes = buildDistribution (co_s2cSizes c),
          tp_C2SInitial = widenInitial (co_c2sInitial c), tp_S2CInitial = widenInitial (co_s2cInitial c),
          tp_MinRecordPayload = minSize, tp_MaxRecordPayload = 16384, tp_InterPacketDelayMin = 0, tp_InterPacketDelayMax = 0\<rparr>)"

section \<open>Profiles in files\<close>

text \<open>JSON and files are arguments: the two directions of the codec, reading and writing a file.\<close>

record profile_files =
  pf_marshal :: "TrafficProfile \<Rightarrow> goerror + string"
  pf_unmarshal :: "string \<Rightarrow> goerror + TrafficProfile"
  pf_read :: "string \<Rightarrow> goerror + string"
  pf_write :: "string \<Rightarrow> string \<Rightarrow> goerror option"

definition ExportJSON :: "profile_files \<Rightarrow> int \<Rightarrow> ProfileCollector \<Rightarrow> goerror + string" where
  "ExportJSON F initialCount pc = pf_marshal F (BuildProfile initialCount pc)"

definition ExportToFile :: "profile_files \<Rightarrow> string \<Rightarrow> int \<Rightarrow> ProfileCollector \<Rightarrow> goerror option" where
  "ExportToFile F path initialCount pc =
     (case ExportJSON F initialCount pc of Inl e \<Rightarrow> Some (''marshal profile: '' @ e) | Inr data \<Rightarrow> pf_write F path data)"

definition LoadProfileFromJSON :: "profile_files \<Rightarrow> string \<Rightarrow> goerror + TrafficProfile" where
  "LoadProfileFromJSON F path =
     (case pf_read F path of
        Inl e \<Rightarrow> Inl (''read profile file: '' @ e)
      | Inr data \<Rightarrow> (case pf_unmarshal F data of Inl e \<Rightarrow> Inl (''unmarshal profile: '' @ e) | Inr p \<Rightarrow> Inr p))"

definition RegisterProfile :: "TrafficProfile \<Rightarrow> registry \<Rightarrow> registry" where
  "RegisterProfile p reg = reg(tp_Name p \<mapsto> p)"

definition LoadAndRegisterProfile :: "profile_files \<Rightarrow> string \<Rightarrow> registry \<Rightarrow> goerror option \<times> registry" where
  "LoadAndRegisterProfile F path reg =
     (case LoadProfileFromJSON F path of Inl e \<Rightarrow> (Some e, reg) | Inr p \<Rightarrow> (None, RegisterProfile p reg))"

end
