(* ===== verification/Shadow_Engine.thy ===== *)
theory Shadow_Engine
  imports Shadow_Profile
begin

text \<open>
  The camouflage engine of ShadowFlow (\<open>common/shadowflow/engine.go\<close>), the two writers that reshape data with it (\<open>engine.go\<close>, \<open>writer.go\<close>),
  its configuration (\<open>config.go\<close>), the selector that adapts the profile to the throughput (\<open>adaptive.go\<close>), client identities
  (\<open>diversifier.go\<close>) and injected noise (\<open>noise.go\<close>). The goroutine that switches profiles is its step, taken when its timer fires. Pauses between
  chunks are recorded in microseconds.
\<close>

section \<open>The engine\<close>

datatype Direction = C2S | S2C

record CamouflageConfig =
  cc_Profile :: "TrafficProfile option"
  cc_Mode :: string
  cc_SwitchIntervalMin :: int
  cc_SwitchIntervalMax :: int

text \<open>\<open>eng_switcher\<close> holds the bounds of the interval while the switching goroutine runs.\<close>

record CamouflageEngine =
  eng_config :: CamouflageConfig
  eng_activeProfile :: TrafficProfile
  eng_c2sPacketIndex :: nat
  eng_s2cPacketIndex :: nat
  eng_switcher :: "(int \<times> int) option"
  eng_stopped :: bool

text \<open>The bounds of an interval, with their defaults; the panel's settings and the path pool use the same ones.\<close>

definition switch_bounds :: "int \<Rightarrow> int \<Rightarrow> int \<times> int" where
  "switch_bounds lo hi =
     (let minInterval = (if lo \<le> 0 then 30 else lo)
      in (minInterval, if hi \<le> 0 \<or> hi < minInterval then 120 else hi))"

definition startDynamicSwitcher :: "CamouflageEngine \<Rightarrow> CamouflageEngine" where
  "startDynamicSwitcher e =
     e\<lparr>eng_switcher := Some (switch_bounds (cc_SwitchIntervalMin (eng_config e)) (cc_SwitchIntervalMax (eng_config e)))\<rparr>"

definition NewCamouflageEngine :: "CamouflageConfig \<Rightarrow> CamouflageEngine" where
  "NewCamouflageEngine c =
     (let e = \<lparr>eng_config = c, eng_activeProfile = (case cc_Profile c of Some p \<Rightarrow> p | None \<Rightarrow> ChromeH2Profile),
               eng_c2sPacketIndex = 0, eng_s2cPacketIndex = 0, eng_switcher = None, eng_stopped = False\<rparr>
      in if cc_Mode c = ''dynamic'' then startDynamicSwitcher e else e)"

text \<open>A round of the switcher: the interval it waits, and what it does when the timer fires. A range without values panics.\<close>

definition switch_interval :: "int \<times> int \<Rightarrow> rands \<Rightarrow> (int \<times> rands) outcome" where
  "switch_interval bounds r = between (fst bounds) (snd bounds) r"

definition switch_profile :: "registry \<Rightarrow> string list \<Rightarrow> rands \<Rightarrow> CamouflageEngine \<Rightarrow> (CamouflageEngine \<times> rands) outcome" where
  "switch_profile reg order r e =
     (if eng_switcher e = None then Return (e, r)
      else
        obind (GetRandomProfile reg order r) (\<lambda>(p, r1).
          Return (e\<lparr>eng_activeProfile := p, eng_c2sPacketIndex := length (tp_C2SInitial p), eng_s2cPacketIndex := length (tp_S2CInitial p)\<rparr>, r1)))"

definition engine_Close :: "CamouflageEngine \<Rightarrow> CamouflageEngine" where
  "engine_Close e = (if eng_stopped e then e else e\<lparr>eng_stopped := True, eng_switcher := None\<rparr>)"

section \<open>Target sizes\<close>

definition clamp :: "TrafficProfile \<Rightarrow> int \<Rightarrow> int" where
  "clamp p n = (let a = (if n < tp_MinRecordPayload p then tp_MinRecordPayload p else n)
                in if tp_MaxRecordPayload p < a then tp_MaxRecordPayload p else a)"

definition getTargetSize :: "Direction \<Rightarrow> TrafficProfile \<Rightarrow> CamouflageEngine \<times> rands \<Rightarrow> (int \<times> CamouflageEngine \<times> rands) outcome" where
  "getTargetSize dir p st =
     (case st of (e, r) \<Rightarrow>
        (case dir of
           C2S \<Rightarrow>
             obind (SampleInitialSize (tp_C2SInitial p) (eng_c2sPacketIndex e) r) (\<lambda>(n, r1).
               if 0 < n then Return (clamp p n, e\<lparr>eng_c2sPacketIndex := Suc (eng_c2sPacketIndex e)\<rparr>, r1)
               else obind (SampleSize (tp_C2SSizes p) r1) (\<lambda>(m, r2). Return (clamp p m, e, r2)))
         | S2C \<Rightarrow>
             obind (SampleInitialSize (tp_S2CInitial p) (eng_s2cPacketIndex e) r) (\<lambda>(n, r1).
               if 0 < n then Return (clamp p n, e\<lparr>eng_s2cPacketIndex := Suc (eng_s2cPacketIndex e)\<rparr>, r1)
               else obind (SampleSize (tp_S2CSizes p) r1) (\<lambda>(m, r2). Return (clamp p m, e, r2)))))"

text \<open>The two writers have the same text for it.\<close>

definition ShapedWriter_getTargetSize :: "Direction \<Rightarrow> TrafficProfile \<Rightarrow> CamouflageEngine \<times> rands \<Rightarrow> (int \<times> CamouflageEngine \<times> rands) outcome" where
  "ShapedWriter_getTargetSize dir p st = getTargetSize dir p st"

text \<open>The pause before a chunk that is not the first.\<close>

definition jitter :: "TrafficProfile \<Rightarrow> bool \<Rightarrow> rands \<Rightarrow> (int list \<times> rands) outcome" where
  "jitter p first r =
     (if first \<or> tp_InterPacketDelayMax p \<le> 0 then Return ([], r)
      else
        obind (if tp_InterPacketDelayMin p < tp_InterPacketDelayMax p
               then obind (Intn (i64 (tp_InterPacketDelayMax p - tp_InterPacketDelayMin p)) r) (\<lambda>(k, r1). Return (i64 (tp_InterPacketDelayMin p + k), r1))
               else Return (tp_InterPacketDelayMin p, r))
          (\<lambda>(delay, r1). Return (if 0 < delay then [delay] else [], r1)))"

section \<open>The writer in the dispatcher\<close>

text \<open>
  \<open>ShapedBufWriter\<close>. A buffer of Xray holds 8192 bytes, and what does not fit is not written (\<open>Buffer.Write\<close> reports it, and the
  report is ignored). A multi-buffer is the list of its buffers' contents. A profile may ask for chunks of no bytes, so the loop has fuel; \<open>None\<close>
  stands for a loop that goes on.
\<close>

definition bufSize :: nat where "bufSize = 8192"

definition new_buffer :: "bytes \<Rightarrow> bytes" where
  "new_buffer chunk = take bufSize chunk"

definition padChunk :: "TrafficProfile \<Rightarrow> bytes \<Rightarrow> rands \<Rightarrow> bytes \<times> rands" where
  "padChunk p data r =
     (if tp_MinRecordPayload p \<le> int (length data) then (data, r)
      else (case rand_Read (nat (tp_MinRecordPayload p) - length data) r of (noise, r1) \<Rightarrow> (data @ noise, r1)))"

record shaping =
  sh_data :: bytes
  sh_out :: "bytes list"
  sh_sleeps :: "int list"
  sh_first :: bool
  sh_engine :: CamouflageEngine
  sh_rands :: rands

text \<open>One turn of the loop: the next chunk goes into a buffer of its own; the last one is padded when it is below the minimum.\<close>

definition shape_turn :: "Direction \<Rightarrow> TrafficProfile \<Rightarrow> shaping \<Rightarrow> shaping outcome" where
  "shape_turn dir p s =
     obind (getTargetSize dir p (sh_engine s, sh_rands s)) (\<lambda>(t0, e, r).
     let t = (if t0 \<le> 0 then tp_MinRecordPayload p else t0) in
     obind (jitter p (sh_first s) r) (\<lambda>(sleep, r1).
     if t < 0 then Panic ''slice bounds out of range''
     else
       (let n = min (nat t) (length (sh_data s)); chunk = take n (sh_data s); rest = drop n (sh_data s);
            (padded, r2) = (if int n < tp_MinRecordPayload p \<and> rest = [] then padChunk p chunk r1 else (chunk, r1))
        in Return \<lparr>sh_data = rest, sh_out = sh_out s @ [new_buffer padded], sh_sleeps = sh_sleeps s @ sleep, sh_first = False, sh_engine = e, sh_rands = r2\<rparr>)))"

fun shape_loop :: "nat \<Rightarrow> Direction \<Rightarrow> TrafficProfile \<Rightarrow> shaping \<Rightarrow> shaping outcome option" where
  "shape_loop 0 dir p s = (if sh_data s = [] then Some (Return s) else None)"
| "shape_loop (Suc fuel) dir p s =
     (if sh_data s = [] then Some (Return s)
      else (case shape_turn dir p s of
              Return s1 \<Rightarrow> shape_loop fuel dir p s1
            | Error e \<Rightarrow> Some (Error e)
            | Panic q \<Rightarrow> Some (Panic q)))"

definition shaping_start :: "bytes \<Rightarrow> CamouflageEngine \<Rightarrow> rands \<Rightarrow> shaping" where
  "shaping_start data e r = \<lparr>sh_data = data, sh_out = [], sh_sleeps = [], sh_first = True, sh_engine = e, sh_rands = r\<rparr>"

text \<open>What \<open>WriteMultiBuffer\<close> passes to the next writer is in \<open>sh_out\<close>.\<close>

definition WriteMultiBuffer :: "nat \<Rightarrow> Direction \<Rightarrow> bytes list \<Rightarrow> CamouflageEngine \<Rightarrow> rands \<Rightarrow> shaping outcome option" where
  "WriteMultiBuffer fuel dir mb e r =
     (if concat mb = [] then Some (Return (shaping_start [] e r\<lparr>sh_out := mb\<rparr>))
      else shape_loop fuel dir (eng_activeProfile e) (shaping_start (concat mb) e r))"

section \<open>The writer on a connection\<close>

text \<open>
  \<open>ShapedWriter\<close>: the connection below answers a write with an error or none, and receives what is in \<open>sw_out\<close>; the result is the count
  that is returned, and the error.
\<close>

definition padToSize :: "TrafficProfile \<Rightarrow> bytes \<Rightarrow> int \<Rightarrow> rands \<Rightarrow> bytes \<times> rands" where
  "padToSize p data targetSize r =
     (if targetSize \<le> int (length data) then (data, r)
      else if tp_MinRecordPayload p \<le> int (length data) then (data, r)
      else
        (let paddedSize = (if tp_MinRecordPayload p < targetSize \<and> targetSize \<le> i64 (tp_MinRecordPayload p * 3) then targetSize
                           else tp_MinRecordPayload p)
         in case rand_Read (nat paddedSize - length data) r of (noise, r1) \<Rightarrow> (data @ noise, r1)))"

record shaped_write =
  sw_total :: int
  sw_out :: "bytes list"
  sw_sleeps :: "int list"
  sw_engine :: CamouflageEngine
  sw_rands :: rands

fun write_shaped ::
  "nat \<Rightarrow> (bytes \<Rightarrow> goerror option) \<Rightarrow> Direction \<Rightarrow> TrafficProfile \<Rightarrow> bool \<Rightarrow> bytes \<Rightarrow> shaped_write \<Rightarrow> (goerror option \<times> shaped_write) outcome option" where
  "write_shaped 0 w dir p first remaining s = (if remaining = [] then Some (Return (None, s)) else None)"
| "write_shaped (Suc fuel) w dir p first remaining s =
     (if remaining = [] then Some (Return (None, s))
      else
        (case obind (ShapedWriter_getTargetSize dir p (sw_engine s, sw_rands s)) (\<lambda>(t, e, r).
              obind (jitter p first r) (\<lambda>(sleep, r1). Return (t, sleep, e, r1))) of
           Error e \<Rightarrow> Some (Error e)
         | Panic q \<Rightarrow> Some (Panic q)
         | Return (t, sleep, e, r) \<Rightarrow>
             (let s1 = s\<lparr>sw_sleeps := sw_sleeps s @ sleep, sw_engine := e, sw_rands := r\<rparr> in
              if int (length remaining) \<le> t then
                (case padToSize p remaining t r of
                   (padded, r1) \<Rightarrow>
                     Some (Return (w padded, s1\<lparr>sw_total := sw_total s + int (length remaining), sw_out := sw_out s @ [padded], sw_rands := r1\<rparr>)))
              else if t < 0 then Some (Panic ''slice bounds out of range'')
              else
                (let chunk = take (nat t) remaining; s2 = s1\<lparr>sw_total := sw_total s + t, sw_out := sw_out s @ [chunk]\<rparr> in
                 case w chunk of
                   Some er \<Rightarrow> Some (Return (Some er, s2))
                 | None \<Rightarrow> write_shaped fuel w dir p False (drop (nat t) remaining) s2))))"

definition ShapedWriter_Write ::
  "nat \<Rightarrow> (bytes \<Rightarrow> goerror option) \<Rightarrow> Direction \<Rightarrow> bytes \<Rightarrow> CamouflageEngine \<Rightarrow> rands \<Rightarrow> (goerror option \<times> shaped_write) outcome option" where
  "ShapedWriter_Write fuel w dir data e r =
     write_shaped fuel w dir (eng_activeProfile e) True data \<lparr>sw_total = 0, sw_out = [], sw_sleeps = [], sw_engine = e, sw_rands = r\<rparr>"

text \<open>\<open>ShapedReader\<close> passes through.\<close>

definition ShapedReader_Read :: "(nat \<Rightarrow> 'c \<Rightarrow> bytes outcome \<times> 'c) \<Rightarrow> nat \<Rightarrow> 'c \<Rightarrow> bytes outcome \<times> 'c" where
  "ShapedReader_Read read n c = read n c"

end
