(* ===== verification/Shadow_Control.thy ===== *)
theory Shadow_Control
  imports Shadow_Engine Panel_Types
begin

text \<open>
  What decides about the camouflage of a connection: the node's settings from the panel (\<open>common/shadowflow/config.go\<close>), the selector that adapts the
  profile to the throughput (\<open>adaptive.go\<close>), client identities (\<open>diversifier.go\<close>) and the noise injector (\<open>noise.go\<close>).
  The timers of the goroutines are the steps that are taken when they fire.
\<close>

section \<open>The node's settings\<close>

record ShapingConfig =
  sc_Profile :: string
  sc_CustomProfiles :: "string list"
  sc_NoiseEnabled :: bool
  sc_NoiseAggressiveMs :: int
  sc_NoiseBackgroundSec :: int
  sc_PoolEnabled :: bool
  sc_PoolMaxConns :: int
  sc_PoolMaxAge :: int
  sc_DomainStrategy :: string

record NodeConfig =
  nc_Camouflage :: string
  nc_Shaping :: "ShapingConfig option"
  nc_SniMode :: string
  nc_SwitchIntervalMin :: int
  nc_SwitchIntervalMax :: int
  nc_UploadHost :: string
  nc_DownloadHost :: string
  nc_PathPool :: string
  nc_ConnMaxLifetime :: int
  nc_TransportType :: string
  nc_TransportPath :: string
  nc_TransportHost :: string

type_synonym configStore = "string \<rightharpoonup> NodeConfig"

definition SetNodeConfig :: "string \<Rightarrow> NodeConfig \<Rightarrow> configStore \<Rightarrow> configStore" where
  "SetNodeConfig tag c s = s(tag \<mapsto> c)"

definition GetNodeConfig :: "string \<Rightarrow> configStore \<Rightarrow> NodeConfig option" where
  "GetNodeConfig tag s = s tag"

definition DeleteNodeConfig :: "string \<Rightarrow> configStore \<Rightarrow> configStore" where
  "DeleteNodeConfig tag s = map_del s tag"

definition or_else :: "string \<Rightarrow> string \<Rightarrow> string" where
  "or_else s d = (if s = [] then d else s)"

text \<open>The fields of the panel's node are the arguments; a text that is no shaping configuration is ignored.\<close>

definition ParseFromCommonNode :: "(string \<Rightarrow> goerror + ShapingConfig) \<Rightarrow> CommonNode \<Rightarrow> NodeConfig" where
  "ParseFromCommonNode unmarshal v =
     (case switch_bounds (cn_SwitchIntervalMin v) (cn_SwitchIntervalMax v) of
        (lo, hi) \<Rightarrow>
          \<lparr>nc_Camouflage = or_else (cn_Camouflage v) ''random'',
           nc_Shaping = (if cn_ShapingSettings v = [] then None else (case unmarshal (cn_ShapingSettings v) of Inl e \<Rightarrow> None | Inr s \<Rightarrow> Some s)),
           nc_SniMode = or_else (cn_SniMode v) ''random'', nc_SwitchIntervalMin = lo, nc_SwitchIntervalMax = hi,
           nc_UploadHost = cn_UploadHost v, nc_DownloadHost = cn_DownloadHost v, nc_PathPool = cn_PathPool v,
           nc_ConnMaxLifetime = cn_ConnMaxLifetime v, nc_TransportType = or_else (cn_TransportType v) ''tcp'',
           nc_TransportPath = or_else (cn_TransportPath v) ''/ws'', nc_TransportHost = cn_TransportHost v\<rparr>)"

text \<open>The custom profiles are loaded after the profile has been looked up. A file that cannot be loaded is skipped.\<close>

definition load_profiles :: "profile_files \<Rightarrow> string list \<Rightarrow> registry \<Rightarrow> registry" where
  "load_profiles F paths reg = fold (\<lambda>path r. snd (LoadAndRegisterProfile F path r)) paths reg"

definition BuildCamouflageEngine :: "profile_files \<Rightarrow> NodeConfig \<Rightarrow> registry \<Rightarrow> CamouflageEngine \<times> registry" where
  "BuildCamouflageEngine F c reg =
     (let profile = (case nc_Shaping c of
                       Some s \<Rightarrow> if sc_Profile s \<noteq> [] then GetProfile reg (sc_Profile s) else ChromeH2Profile
                     | None \<Rightarrow> ChromeH2Profile);
          e = NewCamouflageEngine \<lparr>cc_Profile = Some profile, cc_Mode = or_else (nc_Camouflage c) ''random'',
                cc_SwitchIntervalMin = nc_SwitchIntervalMin c, cc_SwitchIntervalMax = nc_SwitchIntervalMax c\<rparr>
      in (e, case nc_Shaping c of Some s \<Rightarrow> load_profiles F (sc_CustomProfiles s) reg | None \<Rightarrow> reg))"

section \<open>Adapting to the throughput\<close>

text \<open>
  The byte counters are 64-bit integers. The source divides their sum by three seconds as a floating-point number and compares it with thresholds that
  are exact; a correctly rounded quotient compares as the exact one does, so the comparison is made with three times the threshold.
\<close>

datatype tier = TierBrowsing | TierStreaming | TierCloudSync | TierCDN

definition tier_rank :: "tier \<Rightarrow> nat" where
  "tier_rank t = (case t of TierBrowsing \<Rightarrow> 0 | TierStreaming \<Rightarrow> 1 | TierCloudSync \<Rightarrow> 2 | TierCDN \<Rightarrow> 3)"

definition tierName :: "tier \<Rightarrow> string" where
  "tierName t = (case t of TierBrowsing \<Rightarrow> ''browsing'' | TierStreaming \<Rightarrow> ''streaming'' | TierCloudSync \<Rightarrow> ''cloud_sync'' | TierCDN \<Rightarrow> ''cdn'')"

record AdaptiveSelector =
  as_bytesIn :: int
  as_bytesOut :: int
  as_currentTier :: tier
  as_downgradeTicks :: nat

definition NewAdaptiveSelector :: AdaptiveSelector where
  "NewAdaptiveSelector = \<lparr>as_bytesIn = 0, as_bytesOut = 0, as_currentTier = TierBrowsing, as_downgradeTicks = 0\<rparr>"

definition RecordBytes :: "int \<Rightarrow> int \<Rightarrow> AdaptiveSelector \<Rightarrow> AdaptiveSelector" where
  "RecordBytes n m a =
     (let a1 = (if 0 < n then a\<lparr>as_bytesIn := i64 (as_bytesIn a + n)\<rparr> else a)
      in if 0 < m then a1\<lparr>as_bytesOut := i64 (as_bytesOut a1 + m)\<rparr> else a1)"

definition measured_tier :: "int \<Rightarrow> tier" where
  "measured_tier totalBytes =
     (if 3 * (50 * 1024 * 1024) \<le> totalBytes then TierCDN
      else if 3 * (5 * 1024 * 1024) \<le> totalBytes then TierCloudSync
      else if 3 * (100 * 1024) \<le> totalBytes then TierStreaming
      else TierBrowsing)"

definition tier_profile :: "registry \<Rightarrow> string list \<Rightarrow> rands \<Rightarrow> tier \<Rightarrow> (TrafficProfile \<times> rands) outcome" where
  "tier_profile reg order r t =
     (case t of
        TierBrowsing \<Rightarrow> GetRandomProfile reg order r
      | TierStreaming \<Rightarrow> (let pool = [DouyinProfile, BilibiliProfile] in
                          obind (Intn (int (length pool)) r) (\<lambda>(k, r1). Return (pool ! nat k, r1)))
      | TierCloudSync \<Rightarrow> Return (ICloudSyncProfile, r)
      | TierCDN \<Rightarrow> Return (TencentVideoProfile, r))"

definition evaluate ::
  "registry \<Rightarrow> string list \<Rightarrow> rands \<Rightarrow> AdaptiveSelector \<Rightarrow> CamouflageEngine \<Rightarrow> (AdaptiveSelector \<times> CamouflageEngine \<times> rands) outcome" where
  "evaluate reg order r a e =
     (let newTier = measured_tier (i64 (as_bytesIn a + as_bytesOut a));
          oldTier = as_currentTier a;
          a0 = a\<lparr>as_bytesIn := 0, as_bytesOut := 0\<rparr>
      in if newTier = oldTier then Return (a0\<lparr>as_downgradeTicks := 0\<rparr>, e, r)
         else if tier_rank newTier < tier_rank oldTier \<and> Suc (as_downgradeTicks a) < 3
         then Return (a0\<lparr>as_downgradeTicks := Suc (as_downgradeTicks a)\<rparr>, e, r)
         else
           obind (tier_profile reg order r newTier) (\<lambda>(p, r1).
             Return (a0\<lparr>as_downgradeTicks := 0, as_currentTier := newTier\<rparr>, e\<lparr>eng_activeProfile := p\<rparr>, r1)))"

section \<open>Client identities\<close>

datatype KeepAliveStyle = KeepAliveAggressive | KeepAliveModerate | KeepAliveLazy | KeepAliveNone

definition keep_alive_of :: "int \<Rightarrow> KeepAliveStyle" where
  "keep_alive_of k = (if k = 0 then KeepAliveAggressive else if k = 1 then KeepAliveModerate else if k = 2 then KeepAliveLazy else KeepAliveNone)"

record ClientIdentity =
  ci_ProfileName :: string
  ci_SNI :: string
  ci_KeepAliveStyle :: KeepAliveStyle
  ci_InitialBurstSize :: int
  ci_IdleNoiseLevel :: int

record Diversifier =
  dv_sniPool :: "string list"
  dv_profiles :: "string list"

definition default_sni_pool :: "string list" where
  "default_sni_pool = [''www.apple.com'', ''www.microsoft.com'', ''cdn.cloudflare.com'', ''www.google.com'', ''ajax.googleapis.com'']"

definition NewDiversifier :: "string list \<Rightarrow> Diversifier" where
  "NewDiversifier sniPool =
     \<lparr>dv_sniPool = (if sniPool = [] then default_sni_pool else sniPool), dv_profiles = [''chrome_h2'', ''safari'', ''firefox'']\<rparr>"

definition Generate :: "Diversifier \<Rightarrow> rands \<Rightarrow> (ClientIdentity \<times> rands) outcome" where
  "Generate d r =
     obind (Intn (int (length (dv_profiles d))) r) (\<lambda>(a, r1).
     obind (Intn (int (length (dv_sniPool d))) r1) (\<lambda>(b, r2).
     obind (Intn 4 r2) (\<lambda>(c, r3).
     obind (Intn 4 r3) (\<lambda>(k, r4).
     obind (Intn 4 r4) (\<lambda>(l, r5).
       Return (\<lparr>ci_ProfileName = dv_profiles d ! nat a, ci_SNI = dv_sniPool d ! nat b, ci_KeepAliveStyle = keep_alive_of c,
                ci_InitialBurstSize = 3 + k, ci_IdleNoiseLevel = l\<rparr>, r5))))))"

definition GenerateForProfile :: "string \<Rightarrow> Diversifier \<Rightarrow> rands \<Rightarrow> (ClientIdentity \<times> rands) outcome" where
  "GenerateForProfile name d r = obind (Generate d r) (\<lambda>(c, r1). Return (c\<lparr>ci_ProfileName := name\<rparr>, r1))"

definition UpdateSNIPool :: "string list \<Rightarrow> Diversifier \<Rightarrow> Diversifier" where
  "UpdateSNIPool sniPool d = (if sniPool = [] then d else d\<lparr>dv_sniPool := sniPool\<rparr>)"

definition ApplyIdentity :: "registry \<Rightarrow> ClientIdentity \<Rightarrow> CamouflageEngine \<Rightarrow> CamouflageEngine" where
  "ApplyIdentity reg c e = e\<lparr>eng_activeProfile := GetProfile reg (ci_ProfileName c), eng_c2sPacketIndex := 0, eng_s2cPacketIndex := 0\<rparr>"

definition GetKeepAliveInterval :: "ClientIdentity \<Rightarrow> int \<times> int" where
  "GetKeepAliveInterval c =
     (case ci_KeepAliveStyle c of
        KeepAliveAggressive \<Rightarrow> (5, 10) | KeepAliveModerate \<Rightarrow> (15, 30) | KeepAliveLazy \<Rightarrow> (30, 60) | KeepAliveNone \<Rightarrow> (0, 0))"

section \<open>Noise\<close>

text \<open>
  The injector writes raw random bytes into the connection; \<open>ni_out\<close> has the writes, and \<open>w\<close> says what the connection answers. Its goroutine is in
  one of two phases until it finds the stop channel closed.
\<close>

datatype noise_phase = NoGoroutine | Aggressive | Sparse

record NoiseInjector =
  ni_out :: "bytes list"
  ni_phase :: noise_phase
  ni_stopped :: bool

definition NewNoiseInjector :: NoiseInjector where
  "NewNoiseInjector = \<lparr>ni_out = [], ni_phase = NoGoroutine, ni_stopped = False\<rparr>"

definition randRange :: "int \<Rightarrow> int \<Rightarrow> rands \<Rightarrow> (int \<times> rands) outcome" where
  "randRange lo hi r = (if hi \<le> lo then Return (lo, r) else between lo hi r)"

definition sendNoise :: "(bytes \<Rightarrow> goerror option) \<Rightarrow> int \<Rightarrow> NoiseInjector \<times> rands \<Rightarrow> goerror option \<times> NoiseInjector \<times> rands" where
  "sendNoise w n st =
     (case st of (ni, r) \<Rightarrow>
        (if n \<le> 0 then (None, ni, r)
         else (case rand_Read (nat n) r of (buf, r1) \<Rightarrow> (w buf, ni\<lparr>ni_out := ni_out ni @ [buf]\<rparr>, r1))))"

definition jitterSleep :: "int \<Rightarrow> int \<Rightarrow> rands \<Rightarrow> (int \<times> rands) outcome" where
  "jitterSleep minMs maxMs r = obind (Intn (i64 ((if maxMs \<le> minMs then i64 (minMs + 1) else maxMs) - minMs)) r) (\<lambda>(k, r1). Return (i64 (minMs + k), r1))"

definition noise_packet ::
  "(bytes \<Rightarrow> goerror option) \<Rightarrow> int \<Rightarrow> int \<Rightarrow> NoiseInjector \<times> rands \<Rightarrow> (goerror option \<times> NoiseInjector \<times> rands) outcome" where
  "noise_packet w lo hi st = obind (randRange lo hi (snd st)) (\<lambda>(n, r1). Return (sendNoise w n (fst st, r1)))"

text \<open>The next packet after a pause, unless the last write failed.\<close>

definition then_packet ::
  "(bytes \<Rightarrow> goerror option) \<Rightarrow> int \<Rightarrow> int \<Rightarrow> int \<Rightarrow> int \<Rightarrow> (goerror option \<times> NoiseInjector \<times> rands) outcome
   \<Rightarrow> (goerror option \<times> NoiseInjector \<times> rands) outcome" where
  "then_packet w pauseMin pauseMax lo hi m =
     obind m (\<lambda>(err, ni, r).
       case err of
         Some e \<Rightarrow> Return (Some e, ni, r)
       | None \<Rightarrow> obind (jitterSleep pauseMin pauseMax r) (\<lambda>(ms, r1). noise_packet w lo hi (ni, r1)))"

definition InjectInitialNoise ::
  "(bytes \<Rightarrow> goerror option) \<Rightarrow> CamouflageEngine \<Rightarrow> NoiseInjector \<Rightarrow> rands \<Rightarrow> (goerror option \<times> NoiseInjector \<times> rands) outcome" where
  "InjectInitialNoise w e ni r =
     then_packet w 1 5 150 400
       (then_packet w 2 8 (tp_MinRecordPayload (eng_activeProfile e)) 50
         (noise_packet w 80 120 (ni, r)))"

text \<open>A started goroutine enters its first phase; it ends at once when the injector was stopped before.\<close>

definition StartContinuousNoise :: "NoiseInjector \<Rightarrow> NoiseInjector" where
  "StartContinuousNoise ni = ni\<lparr>ni_phase := (if ni_stopped ni then NoGoroutine else Aggressive)\<rparr>"

text \<open>A turn of the goroutine, \<open>deadline\<close> when the two seconds of the first phase are over. Errors of the writes are ignored.\<close>

definition noise_turn ::
  "(bytes \<Rightarrow> goerror option) \<Rightarrow> bool \<Rightarrow> CamouflageEngine \<Rightarrow> NoiseInjector \<Rightarrow> rands \<Rightarrow> (NoiseInjector \<times> rands) outcome" where
  "noise_turn w deadline e ni r =
     (case ni_phase ni of
        NoGoroutine \<Rightarrow> Return (ni, r)
      | Aggressive \<Rightarrow>
          (if deadline then Return (ni\<lparr>ni_phase := Sparse\<rparr>, r)
           else obind (noise_packet w (tp_MinRecordPayload (eng_activeProfile e)) 200 (ni, r)) (\<lambda>(err, ni1, r1).
                obind (jitterSleep 10 50 r1) (\<lambda>(ms, r2). Return (ni1, r2))))
      | Sparse \<Rightarrow>
          obind (randRange 1000 5000 r) (\<lambda>(ms, r1).
          obind (noise_packet w (tp_MinRecordPayload (eng_activeProfile e)) 150 (ni, r1)) (\<lambda>(err, ni1, r2). Return (ni1, r2))))"

text \<open>\<open>Stop\<close> closes the channel and waits until the goroutine has ended.\<close>

definition noise_Stop :: "NoiseInjector \<Rightarrow> NoiseInjector" where
  "noise_Stop ni = (if ni_stopped ni then ni else ni\<lparr>ni_stopped := True, ni_phase := NoGoroutine\<rparr>)"

end
