(* ===== verification/Dispatcher.thy ===== *)
theory Dispatcher
  imports Limiter Traffic_Counter Shadow_Control
begin

text \<open>
  The dispatcher (\<open>core/app/dispatcher/default.go\<close>, \<open>countreader.go\<close>, \<open>sniffer.go\<close>, \<open>fakednssniffer.go\<close>): admission of a connection through the
  limiter, the layers its reader and writers get, sniffing, and the choice of the outbound. The \<open>TrafficCounter\<close> objects of the
  nodes are in a store, because connections keep a pointer to theirs; Xray's sniffers, its router and its outbound manager are arguments.
\<close>

section \<open>State\<close>

text \<open>The camouflage engines of the tags are objects in a store too; \<open>dd_profiles\<close> is ShadowFlow's registry of profiles.\<close>

record DefaultDispatcher =
  dd_Counter :: "string \<rightharpoonup> nat"
  dd_objects :: "nat \<Rightarrow> TrafficCounter"
  dd_next :: nat
  dd_engines :: "string \<rightharpoonup> nat"
  dd_engineObjects :: "nat \<Rightarrow> CamouflageEngine"
  dd_nextEngine :: nat
  dd_profiles :: registry

text \<open>The part of the session that is read: the inbound's tag and name, source, user and connection, and the splice flag that is set.\<close>

record Inbound =
  in_Tag :: string
  in_Name :: string
  in_Source :: string
  in_TCP :: bool
  in_Email :: "string option"
  in_Conn :: bool
  in_CanSpliceCopy :: nat

datatype pipe = Uplink | Downlink

datatype buf_writer =
    PipeWriter pipe "nat option"
  | LinkWriter
  | RateLimitWriter buf_writer nat
  | SizeStatWriter nat XrayTrafficCounter buf_writer
  | ShapedBufWriter buf_writer nat Direction

datatype buf_reader =
    PipeReader pipe "nat option"
  | LinkReader
  | CounterReader buf_reader nat nat

record link =
  lk_Reader :: buf_reader
  lk_Writer :: buf_writer

text \<open>What a refusal closes: ends of the pipes, the given link, the client's connection.\<close>

datatype closing = CloseConn | CloseWriter buf_writer | InterruptReader buf_reader

text \<open>What the outside decides during an admission: the clock, lost races in the limiter and in the counters, and what other goroutines do to the dispatcher
  between the load and the store of the node's counter.\<close>

record admission_input =
  ad_now :: int
  ad_race :: "(string \<rightharpoonup> int) option"
  ad_counterRace :: bool
  ad_between :: "DefaultDispatcher \<Rightarrow> DefaultDispatcher"
  ad_nodeConfig :: configStore
  ad_files :: profile_files

section \<open>Admission\<close>

text \<open>The counter of a node is loaded, or created and stored; the two steps are not atomic.\<close>

definition node_counter :: "admission_input \<Rightarrow> string \<Rightarrow> DefaultDispatcher \<Rightarrow> nat \<times> DefaultDispatcher" where
  "node_counter i tag d =
     (case dd_Counter d tag of
        Some a \<Rightarrow> (a, d)
      | None \<Rightarrow>
          (let d1 = ad_between i d; t = dd_next d1 in
           (t, d1\<lparr>dd_objects := (dd_objects d1)(t := NewTrafficCounter), dd_next := Suc t, dd_Counter := (dd_Counter d1)(tag \<mapsto> t)\<rparr>)))"

definition user_counter :: "admission_input \<Rightarrow> string \<Rightarrow> string \<Rightarrow> DefaultDispatcher \<Rightarrow> nat \<times> nat \<times> DefaultDispatcher" where
  "user_counter i tag email d =
     (case node_counter i tag d of
        (t, d1) \<Rightarrow>
          (case GetCounter (ad_counterRace i) email (dd_objects d1 t) of
             (ts, c) \<Rightarrow> (t, ts, d1\<lparr>dd_objects := (dd_objects d1)(t := c)\<rparr>)))"

text \<open>Anytls connections get a large pipe, all others the size of the policy.\<close>

definition pipe_limit :: "Inbound option \<Rightarrow> nat option" where
  "pipe_limit inb = (case inb of Some s \<Rightarrow> if in_Name s = ''anytls'' then Some (128 * 1024) else None | None \<Rightarrow> None)"

definition limited_user :: "Inbound option \<Rightarrow> (Inbound \<times> string) option" where
  "limited_user inb =
     (case inb of
        None \<Rightarrow> None
      | Some s \<Rightarrow> (case in_Email s of Some e \<Rightarrow> if e = [] then None else Some (s, e) | None \<Rightarrow> None))"

definition rate_limited :: "nat option \<Rightarrow> buf_writer \<Rightarrow> buf_writer" where
  "rate_limited w writer = (case w of None \<Rightarrow> writer | Some d \<Rightarrow> RateLimitWriter writer d)"

definition no_splice :: "nat option \<Rightarrow> Inbound \<Rightarrow> Inbound" where
  "no_splice w s = (case w of None \<Rightarrow> s | Some d \<Rightarrow> s\<lparr>in_CanSpliceCopy := 3\<rparr>)"

text \<open>The engine of a tag, created when there is none.\<close>

definition tag_engine :: "admission_input \<Rightarrow> string \<Rightarrow> DefaultDispatcher \<Rightarrow> nat \<times> DefaultDispatcher" where
  "tag_engine i tag d =
     (case dd_engines d tag of
        Some a \<Rightarrow> (a, d)
      | None \<Rightarrow>
          (case (case GetNodeConfig tag (ad_nodeConfig i) of
                   Some c \<Rightarrow> BuildCamouflageEngine (ad_files i) c (dd_profiles d)
                 | None \<Rightarrow> (NewCamouflageEngine \<lparr>cc_Profile = Some ChromeH2Profile, cc_Mode = ''random'', cc_SwitchIntervalMin = 0, cc_SwitchIntervalMax = 0\<rparr>,
                           dd_profiles d)) of
             (e, reg) \<Rightarrow>
               (let a = dd_nextEngine d in
                (a, d\<lparr>dd_engines := (dd_engines d)(tag \<mapsto> a), dd_engineObjects := (dd_engineObjects d)(a := e), dd_nextEngine := Suc a, dd_profiles := reg\<rparr>))))"

definition shape_links ::
  "admission_input \<Rightarrow> Inbound option \<Rightarrow> link \<times> link \<Rightarrow> DefaultDispatcher \<Rightarrow> (link \<times> link) \<times> Inbound option \<times> DefaultDispatcher" where
  "shape_links i inb links d =
     (case inb of
        Some s \<Rightarrow>
          (if sublist ''shadowflow'' (in_Tag s) then
             (case tag_engine i (in_Tag s) d of
                (e, d1) \<Rightarrow> (case links of (inl, outl) \<Rightarrow>
                   ((inl\<lparr>lk_Writer := ShapedBufWriter (lk_Writer inl) e C2S\<rparr>, outl\<lparr>lk_Writer := ShapedBufWriter (lk_Writer outl) e S2C\<rparr>),
                    Some (s\<lparr>in_CanSpliceCopy := 3\<rparr>), d1)))
           else (links, inb, d))
      | None \<Rightarrow> (links, inb, d))"

text \<open>
  \<open>getLink\<close>: the two links of a new connection, or an error with what was closed. The results are the session, the limiters and the
  dispatcher after it.
\<close>

definition getLink ::
  "admission_input \<Rightarrow> Inbound option \<Rightarrow> limiters \<Rightarrow> DefaultDispatcher \<Rightarrow>
   (goerror \<times> closing list + link \<times> link) \<times> Inbound option \<times> limiters \<times> DefaultDispatcher" where
  "getLink i inb lims d =
     (let opt = pipe_limit inb;
          inl = \<lparr>lk_Reader = PipeReader Downlink opt, lk_Writer = PipeWriter Uplink opt\<rparr>;
          outl = \<lparr>lk_Reader = PipeReader Uplink opt, lk_Writer = PipeWriter Downlink opt\<rparr>;
          ends = [CloseWriter (lk_Writer outl), CloseWriter (lk_Writer inl), InterruptReader (lk_Reader outl), InterruptReader (lk_Reader inl)]
      in case limited_user inb of
           None \<Rightarrow> (case shape_links i inb (inl, outl) d of (links, inb1, d1) \<Rightarrow> (Inr links, inb1, lims, d1))
         | Some (s, email) \<Rightarrow>
             (case lims (in_Tag s) of
                None \<Rightarrow> (Inl (''get limiter error'', (if in_Conn s then [CloseConn] else []) @ ends), inb, lims, d)
              | Some l \<Rightarrow>
                  (case CheckLimit (ad_now i) (ad_race i) email (in_Source s) (in_TCP s) l of
                     ((w, reject), l1) \<Rightarrow>
                       (let lims1 = lims(in_Tag s \<mapsto> l1) in
                        if reject then (Inl (''Limited by conn or ip'', ends), inb, lims1, d)
                        else
                          (case user_counter i (in_Tag s) email d of
                             (t, ts, d1) \<Rightarrow>
                               (case shape_links i (Some (no_splice w s))
                                  (inl\<lparr>lk_Writer := SizeStatWriter t \<lparr>xv_addr = ts, xv_dir = Up\<rparr> (rate_limited w (lk_Writer inl))\<rparr>,
                                   outl\<lparr>lk_Writer := SizeStatWriter t \<lparr>xv_addr = ts, xv_dir = Down\<rparr> (rate_limited w (lk_Writer outl))\<rparr>) d1 of
                                  (links, inb1, d2) \<Rightarrow> (Inr links, inb1, lims1, d2)))))))"

text \<open>
  \<open>DispatchLink\<close> up to sniffing: the layers around a link that the inbound made. It has the same admission; upload is
  counted when it is read, and there is neither a limit on it nor shaping.
\<close>

definition wrapLink ::
  "admission_input \<Rightarrow> Inbound option \<Rightarrow> limiters \<Rightarrow> DefaultDispatcher \<Rightarrow>
   (goerror \<times> closing list + link) \<times> Inbound option \<times> limiters \<times> DefaultDispatcher" where
  "wrapLink i inb lims d =
     (let lk = \<lparr>lk_Reader = LinkReader, lk_Writer = LinkWriter\<rparr>; ends = [CloseWriter (lk_Writer lk), InterruptReader (lk_Reader lk)]
      in case limited_user inb of
           None \<Rightarrow> (Inr lk, inb, lims, d)
         | Some (s, email) \<Rightarrow>
             (case lims (in_Tag s) of
                None \<Rightarrow> (Inl (''get limiter error'', (if in_Conn s then [CloseConn] else []) @ ends), inb, lims, d)
              | Some l \<Rightarrow>
                  (case CheckLimit (ad_now i) (ad_race i) email (in_Source s) (in_TCP s) l of
                     ((w, reject), l1) \<Rightarrow>
                       (let lims1 = lims(in_Tag s \<mapsto> l1) in
                        if reject then (Inl (''Limited by conn or ip'', ends), inb, lims1, d)
                        else
                          (case user_counter i (in_Tag s) email d of
                             (t, ts, d1) \<Rightarrow>
                               (Inr \<lparr>lk_Reader = CounterReader (lk_Reader lk) t ts,
                                     lk_Writer = SizeStatWriter t \<lparr>xv_addr = ts, xv_dir = Down\<rparr> (rate_limited w (lk_Writer lk))\<rparr>,
                                Some (no_splice w s), lims1, d1))))))"

section \<open>The layers at work\<close>

text \<open>
  What a write or read of \<open>n\<close> bytes does on its way through the layers, in order. A shaping layer passes on another number of bytes than it
  gets: \<open>sh a dir n\<close> is what the writer with the engine at \<open>a\<close> makes of \<open>n\<close> bytes.
\<close>

type_synonym shaped_lengths = "nat \<Rightarrow> Direction \<Rightarrow> int \<Rightarrow> int"

datatype layer_effect = Count nat XrayTrafficCounter int | WaitFor nat int | Shape nat Direction int | Pass pipe int | PassLink int

fun write_effects :: "shaped_lengths \<Rightarrow> buf_writer \<Rightarrow> int \<Rightarrow> layer_effect list" where
  "write_effects sh (PipeWriter p opt) n = [Pass p n]"
| "write_effects sh LinkWriter n = [PassLink n]"
| "write_effects sh (RateLimitWriter w d) n = WaitFor d n # write_effects sh w n"
| "write_effects sh (SizeStatWriter t x w) n = Count t x n # write_effects sh w n"
| "write_effects sh (ShapedBufWriter w a dir) n = Shape a dir n # write_effects sh w (sh a dir n)"

text \<open>The bytes that reach the end of the layers.\<close>

fun passed_on :: "shaped_lengths \<Rightarrow> buf_writer \<Rightarrow> int \<Rightarrow> int" where
  "passed_on sh (PipeWriter p opt) n = n"
| "passed_on sh LinkWriter n = n"
| "passed_on sh (RateLimitWriter w d) n = passed_on sh w n"
| "passed_on sh (SizeStatWriter t x w) n = passed_on sh w n"
| "passed_on sh (ShapedBufWriter w a dir) n = passed_on sh w (sh a dir n)"

text \<open>\<open>CounterReader\<close> counts what a read gave, when that is anything.\<close>

fun read_effects :: "buf_reader \<Rightarrow> int \<Rightarrow> layer_effect list" where
  "read_effects (PipeReader p opt) n = [Pass p n]"
| "read_effects LinkReader n = [PassLink n]"
| "read_effects (CounterReader r t ts) n = read_effects r n @ (if 0 < n then [Count t \<lparr>xv_addr = ts, xv_dir = Up\<rparr> n] else [])"

fun apply_effect :: "layer_effect \<Rightarrow> DefaultDispatcher \<Rightarrow> DefaultDispatcher" where
  "apply_effect (Count t x n) d = d\<lparr>dd_objects := (dd_objects d)(t := snd (xtc_Add x n (dd_objects d t)))\<rparr>"
| "apply_effect (WaitFor b n) d = d"
| "apply_effect (Shape e dir n) d = d"
| "apply_effect (Pass p n) d = d"
| "apply_effect (PassLink n) d = d"

text \<open>The counter of a node, as the traffic report reads it.\<close>

definition reported_counter :: "DefaultDispatcher \<Rightarrow> string \<Rightarrow> TrafficCounter option" where
  "reported_counter d tag = map_option (dd_objects d) (dd_Counter d tag)"

end
