(* ===== verification/Sniffing.thy ===== *)
theory Sniffing
  imports Dispatcher
begin

text \<open>
  Sniffing of a connection's protocol and domain (\<open>core/app/dispatcher/sniffer.go\<close>, \<open>fakednssniffer.go\<close> and the reader, loop and decisions in
  \<open>default.go\<close>), and the dispatch after it. Xray's sniffers are functions of the bytes; a sniffer that reports no error returns a
  result. What each round of the loop sees, a context that is done, an error, the time that passed and the bytes, is given as a list.
  Addresses are of any type.
\<close>

section \<open>Results and sniffers\<close>

text \<open>A composite result also has the protocol of its domain; a result of the fake DNS with others has the protocol it refines.\<close>

record SniffResult =
  sr_Protocol :: string
  sr_Domain :: string
  sr_ProtocolForDomain :: "string option"
  sr_Original :: "string option"

datatype sniffed = Found SniffResult | NoClue | NeedMoreData | SniffError goerror

datatype Network = Network_Unknown | Network_TCP | Network_UDP

record protocolSniffer =
  ps_run :: "bytes \<Rightarrow> sniffed"
  ps_metadata :: bool
  ps_network :: Network

text \<open>The sniffers of Xray.\<close>

record sniff_lib =
  sl_HTTP :: "bytes \<Rightarrow> sniffed"
  sl_TLS :: "bytes \<Rightarrow> sniffed"
  sl_Bittorrent :: "bytes \<Rightarrow> sniffed"
  sl_QUIC :: "bytes \<Rightarrow> sniffed"
  sl_UTP :: "bytes \<Rightarrow> sniffed"

definition plain_sniffer :: "(bytes \<Rightarrow> sniffed) \<Rightarrow> Network \<Rightarrow> protocolSniffer" where
  "plain_sniffer f n = \<lparr>ps_run = f, ps_metadata = False, ps_network = n\<rparr>"

text \<open>A fake DNS engine: the domain of an address, and its pool of addresses when it has one.\<close>

record 'a fake_dns =
  fd_GetDomain :: "'a \<Rightarrow> string"
  fd_InPool :: "('a \<Rightarrow> bool) option"

text \<open>
  The sniffer of the fake DNS for a target, with what it reports about the pool. The second sniffer asks the others when the target is
  in the pool; its network is not set.
\<close>

definition fakeDNS_run :: "'a fake_dns \<Rightarrow> 'a \<Rightarrow> Network \<Rightarrow> sniffed \<times> bool option" where
  "fakeDNS_run f target n =
     (if n \<noteq> Network_Unknown \<and> fd_GetDomain f target \<noteq> [] then
        (Found \<lparr>sr_Protocol = ''fakedns'', sr_Domain = fd_GetDomain f target, sr_ProtocolForDomain = None, sr_Original = None\<rparr>, None)
      else (NoClue, map_option (\<lambda>p. p target) (fd_InPool f)))"

fun first_found :: "protocolSniffer list \<Rightarrow> bytes \<Rightarrow> sniffed" where
  "first_found [] b = NoClue"
| "first_found (v # vs) b =
     (case ps_run v b of
        Found r \<Rightarrow> Found \<lparr>sr_Protocol = ''fakedns+others'', sr_Domain = sr_Domain r, sr_ProtocolForDomain = None, sr_Original = Some (sr_Protocol r)\<rparr>
      | _ \<Rightarrow> first_found vs b)"

definition fakeDNSThenOthers_run :: "'a fake_dns \<Rightarrow> 'a \<Rightarrow> Network \<Rightarrow> protocolSniffer list \<Rightarrow> bytes \<Rightarrow> sniffed" where
  "fakeDNSThenOthers_run f target n others b =
     (case fakeDNS_run f target n of
        (Found r, p) \<Rightarrow> Found r
      | (_, Some True) \<Rightarrow> first_found others b
      | _ \<Rightarrow> NoClue)"

definition NewSniffer :: "sniff_lib \<Rightarrow> ('a fake_dns \<times> 'a \<times> Network) option \<Rightarrow> protocolSniffer list" where
  "NewSniffer L fake =
     (let others = [plain_sniffer (sl_HTTP L) Network_TCP, plain_sniffer (sl_TLS L) Network_TCP, plain_sniffer (sl_Bittorrent L) Network_TCP,
                    plain_sniffer (sl_QUIC L) Network_UDP, plain_sniffer (sl_UTP L) Network_UDP]
      in case fake of
           None \<Rightarrow> others
         | Some (f, target, n) \<Rightarrow>
             \<lparr>ps_run = fakeDNSThenOthers_run f target n others, ps_metadata = False, ps_network = Network_Unknown\<rparr> # others
             @ [\<lparr>ps_run = (\<lambda>b. fst (fakeDNS_run f target n)), ps_metadata = True, ps_network = Network_Unknown\<rparr>])"

text \<open>One round over the sniffers: a result ends it; the sniffers that have no clue yet stay for the next round.\<close>

fun sniff_round :: "(protocolSniffer \<Rightarrow> bool) \<Rightarrow> (protocolSniffer \<Rightarrow> bool) \<Rightarrow> bytes \<Rightarrow> protocolSniffer list \<Rightarrow> SniffResult option \<times> protocolSniffer list" where
  "sniff_round skip keep b [] = (None, [])"
| "sniff_round skip keep b (s # ss) =
     (if skip s then (case sniff_round skip keep b ss of (r, pending) \<Rightarrow> (r, if keep s then s # pending else pending))
      else
        (case ps_run s b of
           Found r \<Rightarrow> (Some r, [])
         | NoClue \<Rightarrow> (case sniff_round skip keep b ss of (r, pending) \<Rightarrow> (r, s # pending))
         | _ \<Rightarrow> sniff_round skip keep b ss))"

definition round_result :: "protocolSniffer list \<Rightarrow> SniffResult option \<times> protocolSniffer list \<Rightarrow> sniffed \<times> protocolSniffer list" where
  "round_result ss rp =
     (case rp of
        (Some r, pending) \<Rightarrow> (Found r, ss)
      | (None, pending) \<Rightarrow> if pending \<noteq> [] then (NoClue, pending) else (SniffError ''unknown content'', ss))"

definition Sniff :: "bytes \<Rightarrow> Network \<Rightarrow> protocolSniffer list \<Rightarrow> sniffed \<times> protocolSniffer list" where
  "Sniff b network ss = round_result ss (sniff_round (\<lambda>s. ps_metadata s \<or> ps_network s \<noteq> network) (\<lambda>s. False) b ss)"

definition SniffMetadata :: "protocolSniffer list \<Rightarrow> sniffed \<times> protocolSniffer list" where
  "SniffMetadata ss = round_result ss (sniff_round (\<lambda>s. \<not> ps_metadata s) (\<lambda>s. True) [] ss)"

definition CompositeResult :: "SniffResult \<Rightarrow> SniffResult \<Rightarrow> SniffResult" where
  "CompositeResult domainResult protocolResult =
     \<lparr>sr_Protocol = sr_Protocol protocolResult, sr_Domain = sr_Domain domainResult,
      sr_ProtocolForDomain = Some (sr_Protocol domainResult), sr_Original = None\<rparr>"

section \<open>The sniffing loop\<close>

record sniff_step =
  st_done :: "goerror option"
  st_err :: "goerror option"
  st_elapsed :: int
  st_payload :: bytes

text \<open>The loop over the content with its deadline in milliseconds; \<open>None\<close>: it still waits after these rounds.\<close>

fun sniff_content :: "Network \<Rightarrow> protocolSniffer list \<Rightarrow> int \<Rightarrow> nat \<Rightarrow> sniff_step list \<Rightarrow> (goerror + SniffResult) option" where
  "sniff_content network ss cacheDeadline totalAttempt [] = None"
| "sniff_content network ss cacheDeadline totalAttempt (st # sts) =
     (let go = (\<lambda>ss' deadline attempts. if 2 \<le> attempts \<or> deadline \<le> 0 then Some (Inl ''timeout on sniffing'')
                  else sniff_content network ss' deadline attempts sts)
      in case st_done st of
           Some e \<Rightarrow> Some (Inl e)
         | None \<Rightarrow>
             (case st_err st of
                Some e \<Rightarrow> Some (Inl e)
              | None \<Rightarrow>
                  if st_payload st \<noteq> [] then
                    (case Sniff (st_payload st) network ss of
                       (NoClue, ss') \<Rightarrow> go ss' (cacheDeadline - st_elapsed st) (Suc totalAttempt)
                     | (NeedMoreData, ss') \<Rightarrow> go ss' (cacheDeadline - st_elapsed st) totalAttempt
                     | (Found r, ss') \<Rightarrow> Some (Inr r)
                     | (SniffError e, ss') \<Rightarrow> Some (Inl e))
                  else go ss (cacheDeadline - st_elapsed st) (Suc totalAttempt)))"

definition meta_result :: "sniffed \<Rightarrow> goerror + SniffResult" where
  "meta_result s = (case s of Found r \<Rightarrow> Inr r | NoClue \<Rightarrow> Inl ''no clue'' | NeedMoreData \<Rightarrow> Inl ''need more data'' | SniffError e \<Rightarrow> Inl e)"

definition sniffer :: "protocolSniffer list \<Rightarrow> bool \<Rightarrow> Network \<Rightarrow> sniff_step list \<Rightarrow> (goerror + SniffResult) option" where
  "sniffer ss0 metadataOnly network sts =
     (case SniffMetadata ss0 of
        (m, ss) \<Rightarrow>
          if metadataOnly then Some (meta_result m)
          else
            (case sniff_content network ss 200 0 sts of
               None \<Rightarrow> None
             | Some (Inl e) \<Rightarrow> Some (case meta_result m of Inr r \<Rightarrow> Inr r | Inl _ \<Rightarrow> Inl e)
             | Some (Inr c) \<Rightarrow> Some (Inr (case meta_result m of Inr r \<Rightarrow> CompositeResult r c | Inl _ \<Rightarrow> c))))"

section \<open>The reader that remembers\<close>

text \<open>
  \<open>cachedReader\<close>: bytes that were read for sniffing are kept and given again. What the underlying reader gives next is a list of
  buffers; a timed read that gets nothing reports an error.
\<close>

record cachedReader =
  cr_cache :: bytes
  cr_reader :: "bytes list"

definition Cache :: "nat \<Rightarrow> goerror option \<Rightarrow> cachedReader \<Rightarrow> (goerror + bytes) \<times> cachedReader" where
  "Cache bufCap timeout r =
     (case (timeout, cr_reader r) of
        (Some e, _) \<Rightarrow> (Inl e, r)
      | (None, []) \<Rightarrow> (Inl ''EOF'', r)
      | (None, mb # mbs) \<Rightarrow>
          (let c = cr_cache r @ mb in (Inr (take (min (length c) bufCap) c), \<lparr>cr_cache = c, cr_reader = mbs\<rparr>)))"

definition cached_Read :: "goerror option \<Rightarrow> cachedReader \<Rightarrow> (goerror + bytes) \<times> cachedReader" where
  "cached_Read timeout r =
     (if cr_cache r \<noteq> [] then (Inr (cr_cache r), r\<lparr>cr_cache := []\<rparr>)
      else
        (case (timeout, cr_reader r) of
           (Some e, _) \<Rightarrow> (Inl e, r)
         | (None, []) \<Rightarrow> (Inl ''EOF'', r)
         | (None, mb # mbs) \<Rightarrow> (Inr mb, r\<lparr>cr_reader := mbs\<rparr>)))"

section \<open>The decision\<close>

record 'a SniffingRequest =
  sq_Enabled :: bool
  sq_MetadataOnly :: bool
  sq_RouteOnly :: bool
  sq_ExcludeForDomain :: "(string \<Rightarrow> bool) option"
  sq_ExcludeForIP :: "('a \<Rightarrow> bool) option"
  sq_Override :: "string list"

record 'a net_lib =
  nl_ParseAddress :: "string \<Rightarrow> 'a"
  nl_IsIP :: "'a \<Rightarrow> bool"
  nl_IsIPInIPPool :: "('a \<Rightarrow> bool) option"

record 'a destination =
  dt_Address :: 'a
  dt_Port :: nat
  dt_Network :: Network

record 'a target =
  ob_Target :: "'a destination"
  ob_RouteTarget :: "'a destination option"

definition domain_protocol :: "SniffResult \<Rightarrow> string" where
  "domain_protocol r = (case sr_ProtocolForDomain r of Some p \<Rightarrow> p | None \<Rightarrow> sr_Protocol r)"

definition fake_ip :: "'a net_lib \<Rightarrow> bool \<Rightarrow> 'a \<Rightarrow> bool" where
  "fake_ip N checkFamily a = (case nl_IsIPInIPPool N of Some p \<Rightarrow> (checkFamily \<longrightarrow> nl_IsIP N a) \<and> p a | None \<Rightarrow> False)"

definition shouldOverride :: "'a net_lib \<Rightarrow> SniffResult \<Rightarrow> 'a SniffingRequest \<Rightarrow> 'a destination \<Rightarrow> bool" where
  "shouldOverride N result request dest =
     (let domain = sr_Domain result; ps = domain_protocol result in
      domain \<noteq> []
      \<and> \<not> (case sq_ExcludeForDomain request of Some m \<Rightarrow> m (ToLower domain) | None \<Rightarrow> False)
      \<and> \<not> (case sq_ExcludeForIP request of Some m \<Rightarrow> nl_IsIP N (dt_Address dest) \<and> m (dt_Address dest) | None \<Rightarrow> False)
      \<and> list_ex (\<lambda>p. prefix p ps \<or> prefix ps p
                    \<or> (ps \<noteq> ''bittorrent'' \<and> p = ''fakedns'' \<and> fake_ip N True (dt_Address dest))
                    \<or> (case sr_Original result of Some orig \<Rightarrow> prefix orig p | None \<Rightarrow> False)) (sq_Override request))"

text \<open>
  What sniffing changes: the protocol of the content and, when the destination is overridden, the target or the target for routing only.
  \<open>Dispatch\<close> asks for the family of the address before it looks into the pool, \<open>DispatchLink\<close> does not.
\<close>

definition apply_sniff ::
  "'a net_lib \<Rightarrow> bool \<Rightarrow> 'a SniffingRequest \<Rightarrow> goerror + SniffResult \<Rightarrow> 'a destination \<Rightarrow> string \<times> 'a target \<Rightarrow> string \<times> 'a target \<times> 'a destination" where
  "apply_sniff N checkFamily request res dest po =
     (case (res, po) of
        (Inl e, (protocol, ob)) \<Rightarrow> (protocol, ob, dest)
      | (Inr result, (protocol, ob)) \<Rightarrow>
          if shouldOverride N result request dest then
            (let dest1 = dest\<lparr>dt_Address := nl_ParseAddress N (sr_Domain result)\<rparr>; p = domain_protocol result in
             (sr_Protocol result,
              if sq_RouteOnly request \<and> p \<noteq> ''fakedns'' \<and> p \<noteq> ''fakedns+others'' \<and> \<not> fake_ip N checkFamily (dt_Address (ob_Target ob))
              then ob\<lparr>ob_RouteTarget := Some dest1\<rparr> else ob\<lparr>ob_Target := dest1\<rparr>, dest1))
          else (sr_Protocol result, ob, dest))"

section \<open>The outbound\<close>

text \<open>
  The outbound manager: which tags have a handler, and the tag of the default handler. A router gives the outbound tag of the rule that
  matches, if any does.
\<close>

record outbounds =
  om_has :: "string \<Rightarrow> bool"
  om_default :: "string option"

datatype routed = LinkClosed | Handled nat string

definition routedDispatch :: "outbounds \<Rightarrow> string \<Rightarrow> string option option \<Rightarrow> routed" where
  "routedDispatch om forced route =
     (let by_default = (case om_default om of Some t \<Rightarrow> Handled 0 t | None \<Rightarrow> LinkClosed) in
      if forced \<noteq> [] then (if om_has om forced then Handled 1 forced else LinkClosed)
      else (case route of
              None \<Rightarrow> by_default
            | Some None \<Rightarrow> by_default
            | Some (Some outTag) \<Rightarrow> if om_has om outTag then Handled 2 outTag else LinkClosed))"

text \<open>The note in the access log.\<close>

definition detour :: "string \<Rightarrow> nat \<Rightarrow> string \<Rightarrow> string" where
  "detour inTag isPickRoute tag =
     (if tag = [] then []
      else if inTag = [] then tag
      else if isPickRoute = 1 then inTag @ '' ==> '' @ tag
      else if isPickRoute = 2 then inTag @ '' -> '' @ tag
      else inTag @ '' >> '' @ tag)"

section \<open>Dispatching\<close>

text \<open>
  What a dispatch gets from outside: the address functions, whether the destination is valid, the request for sniffing, what sniffing found, the
  forced tag, the outbound manager and, when there is one, the router as a function of the inbound's tag, the sniffed protocol and the
  targets.
\<close>

record 'a dispatch_env =
  dp_net :: "'a net_lib"
  dp_valid :: bool
  dp_request :: "'a SniffingRequest"
  dp_sniff :: "goerror + SniffResult"
  dp_forced :: string
  dp_om :: outbounds
  dp_router :: "(string \<Rightarrow> string \<times> 'a target \<Rightarrow> string option) option"

definition sniff_and_route :: "'a dispatch_env \<Rightarrow> bool \<Rightarrow> string \<Rightarrow> 'a destination \<Rightarrow> routed" where
  "sniff_and_route E checkFamily inTag dest =
     (let ob = \<lparr>ob_Target = dest, ob_RouteTarget = None\<rparr>;
          (protocol, ob1, dest1) = (if sq_Enabled (dp_request E) then apply_sniff (dp_net E) checkFamily (dp_request E) (dp_sniff E) dest ([], ob)
                                    else ([], ob, dest))
      in routedDispatch (dp_om E) (dp_forced E) (map_option (\<lambda>pick. pick inTag (protocol, ob1)) (dp_router E)))"

definition inbound_tag :: "Inbound option \<Rightarrow> string" where
  "inbound_tag inb = (case inb of None \<Rightarrow> [] | Some s \<Rightarrow> in_Tag s)"

definition Dispatch ::
  "'a dispatch_env \<Rightarrow> admission_input \<Rightarrow> Inbound option \<Rightarrow> 'a destination \<Rightarrow> limiters \<Rightarrow> DefaultDispatcher \<Rightarrow>
   (link \<times> link \<times> routed) outcome \<times> Inbound option \<times> limiters \<times> DefaultDispatcher" where
  "Dispatch E i inb dest lims d =
     (if \<not> dp_valid E then (Panic ''Dispatcher: Invalid destination.'', inb, lims, d)
      else
        (case getLink i inb lims d of
           (Inl (e, closed), st) \<Rightarrow> (Error e, st)
         | (Inr (inl, outl), st) \<Rightarrow> (Return (inl, outl, sniff_and_route E True (inbound_tag inb) dest), st)))"

definition DispatchLink ::
  "'a dispatch_env \<Rightarrow> admission_input \<Rightarrow> Inbound option \<Rightarrow> 'a destination \<Rightarrow> limiters \<Rightarrow> DefaultDispatcher \<Rightarrow>
   (link \<times> routed) outcome \<times> Inbound option \<times> limiters \<times> DefaultDispatcher" where
  "DispatchLink E i inb dest lims d =
     (if \<not> dp_valid E then (Error ''Dispatcher: Invalid destination.'', inb, lims, d)
      else
        (case wrapLink i inb lims d of
           (Inl (e, closed), st) \<Rightarrow> (Error e, st)
         | (Inr lk, st) \<Rightarrow> (Return (lk, sniff_and_route E False (inbound_tag inb) dest), st)))"

end
