(* ===== verification/Serving.thy ===== *)
theory Serving
  imports Runners Snell_Trial Trojan_Framing Ssr_Stream Sniffing
begin

text \<open>
  From an accepted connection to the dispatcher: what the six runners do with a connection after their protocol gave its user and destination (the
  \<open>dispatchTCP\<close>, \<open>dispatchUDP\<close>, \<open>dispatch\<close>, \<open>DialTarget\<close>, \<open>HandleUDP\<close> and \<open>handle\<close> of \<open>common/*/runner.go\<close> and \<open>sudoku/udp.go\<close>), and the adapters between
  the datagrams of a protocol library and Xray's buffers (\<open>udp.go\<close>). The dispatcher is that of \<open>Dispatcher\<close> and \<open>Sniffing\<close>; copying between the connection and the
  link is Xray's.
\<close>

section \<open>The session of a connection\<close>

type_synonym disp_state = "limiters \<times> DefaultDispatcher"

text \<open>The environment of a dispatch with its destination, which is a TCP or UDP destination and so valid.\<close>

record serve_env =
  sv_env :: "address dispatch_env"
  sv_input :: admission_input

definition runner_session :: "string \<Rightarrow> string \<Rightarrow> string \<Rightarrow> bool \<Rightarrow> bool \<Rightarrow> Inbound" where
  "runner_session tag uuid source tcp conn =
     \<lparr>in_Tag = tag, in_Name = [], in_Source = source, in_TCP = tcp, in_Email = Some (UserTag tag uuid), in_Conn = conn, in_CanSpliceCopy = 0\<rparr>"

definition to_target :: "Network \<Rightarrow> Destination \<Rightarrow> address destination" where
  "to_target n d = \<lparr>dt_Address = de_Address d, dt_Port = de_Port d, dt_Network = n\<rparr>"

definition call_Dispatch :: "serve_env \<Rightarrow> Inbound \<Rightarrow> Destination \<Rightarrow> disp_state \<Rightarrow> (link \<times> routed) outcome \<times> disp_state" where
  "call_Dispatch V s dest st =
     (case Dispatch (sv_env V\<lparr>dp_valid := True\<rparr>) (sv_input V) (Some s) (to_target Network_TCP dest) (fst st) (snd st) of
        (Return (inl, outl, rt), s1, st1) \<Rightarrow> (Return (inl, rt), st1)
      | (Error e, s1, st1) \<Rightarrow> (Error e, st1)
      | (Panic p, s1, st1) \<Rightarrow> (Panic p, st1))"

definition call_DispatchLink :: "serve_env \<Rightarrow> Inbound \<Rightarrow> Destination \<Rightarrow> disp_state \<Rightarrow> (link \<times> routed) outcome \<times> disp_state" where
  "call_DispatchLink V s dest st =
     (case DispatchLink (sv_env V\<lparr>dp_valid := True\<rparr>) (sv_input V) (Some s) (to_target Network_UDP dest) (fst st) (snd st) of
        (r, s1, st1) \<Rightarrow> (r, st1))"

text \<open>
  What becomes of a connection: closed without a link, left as it is (neither closed nor copied), copied to and from the link that the dispatcher made for a
  session and a destination, or a panic of the dispatcher. \<open>'c\<close> is the connection as it is when the copying begins.
\<close>

datatype 'c served = ConnClosed | ConnLeft | Bridged 'c Inbound "address destination" link routed | Crashed string

definition bridge :: "serve_env \<Rightarrow> 'c \<Rightarrow> Inbound \<Rightarrow> Destination \<Rightarrow> disp_state \<Rightarrow> 'c served \<times> disp_state" where
  "bridge V conn s dest st =
     (case call_Dispatch V s dest st of
        (Return (lk, rt), st1) \<Rightarrow> (Bridged conn s (to_target Network_TCP dest) lk rt, st1)
      | (Error e, st1) \<Rightarrow> (ConnClosed, st1)
      | (Panic p, st1) \<Rightarrow> (Crashed p, st1))"

section \<open>Addresses of the sing library\<close>

text \<open>An address is an IP address of 4 or 16 bytes or a name.\<close>

record Socksaddr =
  sa_Addr :: "bytes option"
  sa_Fqdn :: bytes
  sa_Port :: nat

definition toXrayDest :: "Socksaddr \<Rightarrow> Destination" where
  "toXrayDest a =
     (case sa_Addr a of
        Some ip \<Rightarrow> \<lparr>de_Address = IPAddress ip, de_Port = sa_Port a\<rparr>
      | None \<Rightarrow> \<lparr>de_Address = Domain (sa_Fqdn a), de_Port = sa_Port a\<rparr>)"

definition toXrayDestUDP :: "Socksaddr \<Rightarrow> Destination" where
  "toXrayDestUDP a =
     (case sa_Addr a of
        Some ip \<Rightarrow> \<lparr>de_Address = IPAddress ip, de_Port = sa_Port a\<rparr>
      | None \<Rightarrow> \<lparr>de_Address = Domain (sa_Fqdn a), de_Port = sa_Port a\<rparr>)"

text \<open>\<open>Addr.Unmap\<close>: an IPv4 address in IPv6 form becomes that IPv4 address.\<close>

definition Unmap :: "bytes \<Rightarrow> bytes" where
  "Unmap ip = (if length ip = 16 \<and> take 12 ip = replicate 10 0 @ [0xff, 0xff] then drop 12 ip else ip)"

definition toSingSocksaddr :: "Destination \<Rightarrow> Socksaddr" where
  "toSingSocksaddr d =
     (case de_Address d of
        IPv4 ip \<Rightarrow> \<lparr>sa_Addr = Some (Unmap ip), sa_Fqdn = [], sa_Port = de_Port d\<rparr>
      | IPv6 ip \<Rightarrow> \<lparr>sa_Addr = Some (Unmap ip), sa_Fqdn = [], sa_Port = de_Port d\<rparr>
      | Domain n \<Rightarrow> \<lparr>sa_Addr = None, sa_Fqdn = n, sa_Port = de_Port d\<rparr>)"

section \<open>Datagrams\<close>

text \<open>A buffer of Xray with its endpoint; a new buffer holds 8192 bytes and \<open>Write\<close> stores what fits.\<close>

definition xbuf_Size :: nat where
  "xbuf_Size = 8192"

type_synonym xbuffer = "Destination option \<times> bytes"

definition packetReader_Read :: "goerror + Socksaddr \<times> bytes \<Rightarrow> goerror + xbuffer list" where
  "packetReader_Read p =
     (case p of
        Inl e \<Rightarrow> Inl e
      | Inr (dest, data) \<Rightarrow> Inr [(Some (toXrayDestUDP dest), take xbuf_Size data)])"

text \<open>The zero address stands for a buffer without an endpoint. \<open>w\<close> answers the writes; those that were made before an error are returned.\<close>

definition zero_addr :: Socksaddr where
  "zero_addr = \<lparr>sa_Addr = None, sa_Fqdn = [], sa_Port = 0\<rparr>"

fun packetWriter_Write :: "(Socksaddr \<times> bytes \<Rightarrow> goerror option) \<Rightarrow> xbuffer list \<Rightarrow> goerror option \<times> (Socksaddr \<times> bytes) list" where
  "packetWriter_Write w [] = (None, [])"
| "packetWriter_Write w ((udp, data) # mb) =
     (let p = (case udp of Some d \<Rightarrow> toSingSocksaddr d | None \<Rightarrow> zero_addr, data) in
      case w p of
        Some e \<Rightarrow> (Some e, [])
      | None \<Rightarrow> (case packetWriter_Write w mb of (r, ps) \<Rightarrow> (r, p # ps)))"

text \<open>The same for UDP over TCP of sudoku, with addresses as texts and a packet that was read before.\<close>

record uot_lib =
  ul_ParseUDP :: "string \<Rightarrow> goerror + Destination"
  ul_NetAddr :: "Destination \<Rightarrow> string"

definition packetBuffer :: "uot_lib \<Rightarrow> string \<Rightarrow> bytes \<Rightarrow> xbuffer" where
  "packetBuffer U addr payload = (case ul_ParseUDP U addr of Inl e \<Rightarrow> None | Inr d \<Rightarrow> Some d, take xbuf_Size payload)"

definition uotReader_Read :: "uot_lib \<Rightarrow> goerror + string \<times> bytes \<Rightarrow> xbuffer option \<Rightarrow> (goerror + xbuffer list) \<times> xbuffer option" where
  "uotReader_Read U p first =
     (case first of
        Some b \<Rightarrow> (Inr [b], None)
      | None \<Rightarrow> (case p of Inl e \<Rightarrow> (Inl e, None) | Inr (addr, payload) \<Rightarrow> (Inr [packetBuffer U addr payload], None)))"

fun uotWriter_Write :: "uot_lib \<Rightarrow> (string \<times> bytes \<Rightarrow> goerror option) \<Rightarrow> xbuffer list \<Rightarrow> goerror option \<times> (string \<times> bytes) list" where
  "uotWriter_Write U w [] = (None, [])"
| "uotWriter_Write U w ((udp, data) # mb) =
     (let p = (case udp of Some d \<Rightarrow> ul_NetAddr U d | None \<Rightarrow> [], data) in
      case w p of
        Some e \<Rightarrow> (Some e, [])
      | None \<Rightarrow> (case uotWriter_Write U w mb of (r, ps) \<Rightarrow> (r, p # ps)))"

section \<open>Streams of the runners\<close>

text \<open>Snell calls a handler with the error of the dispatch or of the copying, when it has one.\<close>

definition snell_dispatchTCP ::
  "serve_env \<Rightarrow> ('c served \<Rightarrow> goerror option) \<Rightarrow> string \<Rightarrow> 'c \<Rightarrow> string \<Rightarrow> Socksaddr \<Rightarrow> snell_Runner \<Rightarrow> disp_state \<Rightarrow> ('c served \<times> goerror option) \<times> disp_state" where
  "snell_dispatchTCP V copyErr uuid conn source destination r st =
     (let s = runner_session (sn_tag r) uuid source True False in
      case call_Dispatch V s (toXrayDest destination) st of
        (Error e, st1) \<Rightarrow> ((ConnClosed, Some e), st1)
      | (Panic p, st1) \<Rightarrow> ((Crashed p, None), st1)
      | (Return (lk, rt), st1) \<Rightarrow>
          (let x = Bridged conn s (to_target Network_TCP (toXrayDest destination)) lk rt in ((x, copyErr x), st1)))"

definition ssaead_dispatchTCP :: "serve_env \<Rightarrow> string \<Rightarrow> 'c \<Rightarrow> string \<Rightarrow> Socksaddr \<Rightarrow> ssaead_Runner \<Rightarrow> disp_state \<Rightarrow> 'c served \<times> disp_state" where
  "ssaead_dispatchTCP V uuid conn source destination r st =
     bridge V conn (runner_session (sa_tag r) uuid source True False) (toXrayDest destination) st"

definition trojanss_dispatch :: "serve_env \<Rightarrow> string \<Rightarrow> string \<Rightarrow> Destination \<Rightarrow> 'c \<Rightarrow> trojanss_Runner \<Rightarrow> disp_state \<Rightarrow> 'c served \<times> disp_state" where
  "trojanss_dispatch V uuid source dest pc r st = bridge V pc (runner_session (tj_tag r) uuid source True False) dest st"

definition ssr_dispatch :: "serve_env \<Rightarrow> string \<Rightarrow> string \<Rightarrow> Destination \<Rightarrow> 'c \<Rightarrow> ssr_Runner \<Rightarrow> disp_state \<Rightarrow> 'c served \<times> disp_state" where
  "ssr_dispatch V uuid source dest pc r st = bridge V pc (runner_session (sr_tag r) uuid source True False) dest st"

text \<open>\<open>DialTarget\<close> with its call of the dispatcher; a text that is no destination is an error. It only makes the link; its caller has the connection.\<close>

definition sudoku_Dial ::
  "serve_env \<Rightarrow> (string \<Rightarrow> goerror + Destination) \<Rightarrow> string \<Rightarrow> string \<Rightarrow> string \<Rightarrow> sudoku_Runner \<Rightarrow> disp_state \<Rightarrow> (goerror + unit served) \<times> disp_state" where
  "sudoku_Dial V parse userHash targetAddr source r st =
     (let uuid = (case sk_hashUser r userHash of None \<Rightarrow> [] | Some u \<Rightarrow> u) in
      if uuid = [] then (Inl (''sudoku: unknown user hash '' @ userHash), st)
      else
        (case parse targetAddr of
           Inl e \<Rightarrow> (Inl (''sudoku: bad target '' @ targetAddr @ '': '' @ e), st)
         | Inr dest \<Rightarrow>
             (let s = runner_session (sk_tag r) uuid source True False in
              case call_Dispatch V s dest st of
                (Error e, st1) \<Rightarrow> (Inl e, st1)
              | (Panic p, st1) \<Rightarrow> (Inr (Crashed p), st1)
              | (Return (lk, rt), st1) \<Rightarrow> (Inr (Bridged () s (to_target Network_TCP dest) lk rt), st1))))"

text \<open>A connection of a Trojan ss-obfs node: TLS when it is configured (\<open>tls\<close> gives the plain stream), the request, the user of its key.\<close>

definition bytes_text :: "bytes \<Rightarrow> string" where
  "bytes_text b = map (\<lambda>x. char_of (unat x)) b"

definition string_bytes :: "string \<Rightarrow> bytes" where
  "string_bytes s = map of_char s"

definition trojanss_serve ::
  "serve_env \<Rightarrow> crypto_lib \<Rightarrow> (string \<times> string \<Rightarrow> bytes \<Rightarrow> goerror + bytes) \<Rightarrow> string \<Rightarrow> bytes \<Rightarrow> trojanss_Runner \<Rightarrow> disp_state \<Rightarrow> (ssConn served \<times> disp_state) option" where
  "trojanss_serve V L tls source raw r st =
     (case (case tj_tlsCfg r of None \<Rightarrow> Inr raw | Some cfg \<Rightarrow> tls cfg raw) of
        Inl e \<Rightarrow> Some (ConnClosed, st)
      | Inr c \<Rightarrow>
          (case trojan_handshake L (tj_method r) (string_bytes (tj_key r)) c of
             None \<Rightarrow> None
           | Some (Error e, pc) \<Rightarrow> Some (ConnClosed, st)
           | Some (Panic p, pc) \<Rightarrow> Some (Crashed p, st)
           | Some (Return (hexKey, dest), pc) \<Rightarrow>
               (case tj_byKey r (bytes_text hexKey) of
                  None \<Rightarrow> Some (ConnClosed, st)
                | Some uuid \<Rightarrow> Some (trojanss_dispatch V uuid source dest pc r st))))"

text \<open>
  A connection of a ShadowsocksR node: \<open>handshake\<close> and what \<open>acceptLoop\<close> does with its result. \<open>lower\<close> is what the plugin and the cipher under the protocol give: an
  error, or the decrypted stream and its IV (\<open>Ssr_Stream\<close>). The protocol asks the runner for the key and the user of an id.
\<close>

definition ssr_userLookup :: "ssr_Runner \<Rightarrow> user_lookup" where
  "ssr_userLookup r userID = map_option (\<lambda>(k, uuid). (string_bytes k, uuid)) (ssr_lookup (uint userID) r)"

definition ssr_finish ::
  "serve_env \<Rightarrow> string \<Rightarrow> ((string \<times> Destination) outcome \<times> 'c) option \<Rightarrow> ssr_Runner \<Rightarrow> disp_state \<Rightarrow> ('c served \<times> disp_state) option" where
  "ssr_finish V source hs r st =
     (case hs of
        None \<Rightarrow> None
      | Some (Error e, pc) \<Rightarrow> Some (ConnClosed, st)
      | Some (Panic p, pc) \<Rightarrow> Some (Crashed p, st)
      | Some (Return (uuid, dest), pc) \<Rightarrow> Some (ssr_dispatch V uuid source dest pc r st))"

definition ssr_serve ::
  "serve_env \<Rightarrow> (bool \<Rightarrow> auth_lib) \<Rightarrow> nat \<Rightarrow> bytes \<Rightarrow> string \<Rightarrow> goerror + bytes \<times> bytes \<Rightarrow> ssr_Options \<Rightarrow> ssr_Runner \<Rightarrow> disp_state
     \<Rightarrow> ((authAES128 + authChain) served \<times> disp_state) option" where
  "ssr_serve V A avail key source lower opt r st =
     (case proto_of (sro_Protocol opt) of
        Inl e \<Rightarrow> Some (ConnClosed, st)
      | Inr proto \<Rightarrow>
          (case lower of
             Inl e \<Rightarrow> Some (ConnClosed, st)
           | Inr (stream, iv) \<Rightarrow>
               (case proto of
                  AuthAES128 sha1 \<Rightarrow>
                    ssr_finish V source (map_option (apsnd Inl) (ssr_handshake (A sha1) (ssr_userLookup r) avail stream iv key)) r st
                | AuthChain name \<Rightarrow>
                    ssr_finish V source (map_option (apsnd Inr) (chain_handshake (A False) (ssr_userLookup r) avail stream iv key name)) r st)))"

text \<open>
  A session of Mieru: the SOCKS request, of which only CONNECT is served, and the reply before the copying. The library says whether the connection knows its user, what the
  request is, and whether the reply can be written.
\<close>

record mieru_session =
  ms_user :: "string option"
  ms_source :: string
  ms_tcp :: bool
  ms_request :: "goerror + (nat \<times> (goerror + bytes \<times> bytes \<times> nat))"
  ms_reply :: "nat \<Rightarrow> goerror option"

definition mieru_toXrayDest :: "bytes \<times> bytes \<times> nat \<Rightarrow> Destination" where
  "mieru_toXrayDest nas =
     (case nas of (ip, fqdn, port) \<Rightarrow> \<lparr>de_Address = (if ip \<noteq> [] then IPAddress ip else Domain fqdn), de_Port = port\<rparr>)"

text \<open>The replies are those of RFC 1928: 0 success, 4 host unreachable, 7 command, 8 address type.\<close>

definition mieru_handle :: "serve_env \<Rightarrow> mieru_session \<Rightarrow> mieru_Runner \<Rightarrow> disp_state \<Rightarrow> (nat option \<times> unit served) \<times> disp_state" where
  "mieru_handle V m r st =
     (case ms_user m of
        None \<Rightarrow> ((None, ConnClosed), st)
      | Some uuid \<Rightarrow>
          (case ms_request m of
             Inl e \<Rightarrow> ((None, ConnClosed), st)
           | Inr (cmd, spec) \<Rightarrow>
               if cmd \<noteq> 1 then ((Some 7, ConnClosed), st)
               else
                 (case spec of
                    Inl e \<Rightarrow> ((Some 8, ConnClosed), st)
                  | Inr nas \<Rightarrow>
                      (let s = runner_session (mi_tag r) uuid (ms_source m) (ms_tcp m) True in
                       case call_Dispatch V s (mieru_toXrayDest nas) st of
                         (Error e, st1) \<Rightarrow> ((Some 4, ConnClosed), st1)
                       | (Panic p, st1) \<Rightarrow> ((None, Crashed p), st1)
                       | (Return (lk, rt), st1) \<Rightarrow>
                           (case ms_reply m 0 of
                              Some e \<Rightarrow> ((Some 0, ConnClosed), st1)
                            | None \<Rightarrow> ((Some 0, Bridged () s (to_target Network_TCP (mieru_toXrayDest nas)) lk rt), st1))))))"

section \<open>Datagrams of the runners\<close>

text \<open>The call of the dispatcher returns when the association is over; the connection is closed in every case.\<close>

definition snell_dispatchUDP ::
  "serve_env \<Rightarrow> string \<Rightarrow> 'c \<Rightarrow> string \<Rightarrow> Socksaddr \<Rightarrow> snell_Runner \<Rightarrow> disp_state \<Rightarrow> ('c served \<times> goerror option) \<times> disp_state" where
  "snell_dispatchUDP V uuid conn source destination r st =
     (let s = runner_session (sn_tag r) uuid source True False in
      case call_DispatchLink V s (toXrayDestUDP destination) st of
        (Error e, st1) \<Rightarrow> ((ConnClosed, Some e), st1)
      | (Panic p, st1) \<Rightarrow> ((Crashed p, None), st1)
      | (Return (lk, rt), st1) \<Rightarrow> ((Bridged conn s (to_target Network_UDP (toXrayDestUDP destination)) lk rt, None), st1))"

definition ssaead_dispatchUDP :: "serve_env \<Rightarrow> string \<Rightarrow> 'c \<Rightarrow> string \<Rightarrow> Socksaddr \<Rightarrow> ssaead_Runner \<Rightarrow> disp_state \<Rightarrow> 'c served \<times> disp_state" where
  "ssaead_dispatchUDP V uuid conn source destination r st =
     (let s = runner_session (sa_tag r) uuid source True False in
      case call_DispatchLink V s (toXrayDestUDP destination) st of
        (Error e, st1) \<Rightarrow> (ConnClosed, st1)
      | (Panic p, st1) \<Rightarrow> (Crashed p, st1)
      | (Return (lk, rt), st1) \<Rightarrow> (Bridged conn s (to_target Network_UDP (toXrayDestUDP destination)) lk rt, st1))"

text \<open>
  The handlers of the extended Shadowsocks service: \<open>user\<close> is the user of the context, which the service of the library put there; without one the name is empty.
\<close>

definition ssaead_handle ::
  "serve_env \<Rightarrow> string option \<Rightarrow> bool \<Rightarrow> 'c \<Rightarrow> string \<Rightarrow> Socksaddr \<Rightarrow> ssaead_Runner \<Rightarrow> disp_state \<Rightarrow> 'c served \<times> disp_state" where
  "ssaead_handle V user udp conn source destination r st =
     (let uuid = (case user of None \<Rightarrow> [] | Some u \<Rightarrow> u) in
      if udp then ssaead_dispatchUDP V uuid conn source destination r st else ssaead_dispatchTCP V uuid conn source destination r st)"

text \<open>Sudoku reads a first packet to have a destination to route by; what it then passes on begins with that packet.\<close>

definition any_dest :: Destination where
  "any_dest = \<lparr>de_Address = IPAddress [0, 0, 0, 0], de_Port = 0\<rparr>"

definition sudoku_HandleUDP ::
  "serve_env \<Rightarrow> uot_lib \<Rightarrow> string \<Rightarrow> (goerror + string \<times> bytes) \<Rightarrow> string \<Rightarrow> bool \<Rightarrow> sudoku_Runner \<Rightarrow> disp_state \<Rightarrow> (unit served \<times> xbuffer option) \<times> disp_state" where
  "sudoku_HandleUDP V U userHash packet source tcp r st =
     (let uuid = (case sk_hashUser r userHash of None \<Rightarrow> [] | Some u \<Rightarrow> u) in
      if uuid = [] then ((ConnClosed, None), st)
      else
        (case packet of
           Inl e \<Rightarrow> ((ConnClosed, None), st)
         | Inr (addr, payload) \<Rightarrow>
             (let first = packetBuffer U addr payload;
                  routeDest = (case fst first of Some d \<Rightarrow> d | None \<Rightarrow> any_dest);
                  s = runner_session (sk_tag r) uuid source tcp False
              in case call_DispatchLink V s routeDest st of
                   (Error e, st1) \<Rightarrow> ((ConnClosed, None), st1)
                 | (Panic p, st1) \<Rightarrow> ((Crashed p, None), st1)
                 | (Return (lk, rt), st1) \<Rightarrow> ((Bridged () s (to_target Network_UDP routeDest) lk rt, Some first), st1))))"

section \<open>Snell connections\<close>

text \<open>
  Versions 4 and 5: the handler of the attempt that fits passes the connection on under the user of its key. \<open>request uuid d rw\<close> is what sing-snell makes of the connection once
  the key is known, from the bytes \<open>d\<close> it read and those that follow: a stream or datagrams, and the destination.
\<close>

definition trial_serve ::
  "serve_env \<Rightarrow> (string \<Rightarrow> bool) \<Rightarrow> (string \<Rightarrow> string \<Rightarrow> (nat \<times> nat) list \<times> bool) \<Rightarrow> (string \<Rightarrow> string \<Rightarrow> rewindConn \<Rightarrow> bool \<times> Socksaddr) \<Rightarrow> string \<Rightarrow> string \<Rightarrow>
     snell_Runner \<Rightarrow> trialCred list \<Rightarrow> disp_state \<Rightarrow> rewindConn served \<times> trialCred list \<times> disp_state" where
  "trial_serve V psk_ok attempt request source conn r creds st =
     (case trial_NewConnection psk_ok attempt conn creds of
        (None, creds1) \<Rightarrow> (ConnClosed, creds1, st)
      | (Some (uuid, d, rw), creds1) \<Rightarrow>
          (case request uuid d rw of
             (udp, destination) \<Rightarrow>
               (case (if udp then snell_dispatchUDP V uuid rw source destination r st
                      else snell_dispatchTCP V (\<lambda>x. None) uuid rw source destination r st) of
                  ((x, e), st1) \<Rightarrow> (x, creds1, st1))))"

text \<open>
  Version 6: the vendored multi-user service reads the request of a decrypted record, looks its client id up and calls the runner. The record layer is an argument: the record that was
  read, or an error. Strings and addresses are read by the sing library.
\<close>

record snell_request =
  rq_Command :: nat
  rq_ClientID :: bytes
  rq_Destination :: Socksaddr

record v6_lib =
  vl_ReadSockString :: "bytes \<Rightarrow> goerror + bytes \<times> bytes"
  vl_ParseHostPort :: "bytes \<Rightarrow> nat \<Rightarrow> Socksaddr"
  vl_firstPacket :: "goerror + Socksaddr"

definition CommandPing :: nat where "CommandPing = 0"
definition CommandConnect :: nat where "CommandConnect = 1"
definition CommandConnectV2 :: nat where "CommandConnectV2 = 5"
definition CommandUDP :: nat where "CommandUDP = 6"

text \<open>\<open>io.ReadFull\<close> of some bytes from a buffer.\<close>

definition take_full :: "nat \<Rightarrow> bytes \<Rightarrow> goerror + bytes \<times> bytes" where
  "take_full n b = (if n \<le> length b then Inr (take n b, drop n b) else Inl (if b = [] then ''EOF'' else ''unexpected EOF''))"

definition ReadConnectAddress :: "v6_lib \<Rightarrow> bytes \<Rightarrow> goerror + Socksaddr \<times> bytes" where
  "ReadConnectAddress X b =
     (case vl_ReadSockString X b of
        Inl e \<Rightarrow> Inl e
      | Inr (host, b1) \<Rightarrow>
          (case take_full 2 b1 of Inl e \<Rightarrow> Inl e | Inr (port, b2) \<Rightarrow> Inr (vl_ParseHostPort X host (port_of port), b2)))"

definition v6_readRequest :: "v6_lib \<Rightarrow> bytes \<Rightarrow> goerror + snell_request \<times> bytes" where
  "v6_readRequest X record =
     (case take_full 3 record of
        Inl e \<Rightarrow> Inl e
      | Inr (p, b) \<Rightarrow>
          (let cmd = unat (p ! 1) in
           if p ! 0 \<noteq> 1 then Inl ''snell: bad header version''
           else if cmd = CommandPing then Inr (\<lparr>rq_Command = cmd, rq_ClientID = [], rq_Destination = zero_addr\<rparr>, b)
           else
             (case (if 0 < unat (p ! 2) then take_full (unat (p ! 2)) b else Inr ([], b)) of
                Inl e \<Rightarrow> Inl e
              | Inr (cid, b1) \<Rightarrow>
                  if cmd = CommandConnect \<or> cmd = CommandConnectV2 then
                    (case ReadConnectAddress X b1 of
                       Inl e \<Rightarrow> Inl e
                     | Inr (dest, b2) \<Rightarrow> Inr (\<lparr>rq_Command = cmd, rq_ClientID = cid, rq_Destination = dest\<rparr>, b2))
                  else if cmd = CommandUDP then Inr (\<lparr>rq_Command = cmd, rq_ClientID = cid, rq_Destination = zero_addr\<rparr>, b1)
                  else Inl ''snell: unsupported command'')))"

definition v6_authenticate :: "(string \<rightharpoonup> string) \<Rightarrow> snell_request \<Rightarrow> goerror + string" where
  "v6_authenticate users q = (case users (bytes_text (rq_ClientID q)) of None \<Rightarrow> Inl ''snell: bad user key'' | Some uuid \<Rightarrow> Inr uuid)"

text \<open>
  One request: what becomes of it and whether the session goes on afterwards. \<open>failed\<close> is what the service does with a connection on an error: \<open>Serve\<close> closes it, \<open>newConnection\<close>
  only returns the error. A request for datagrams must be alone in its record.
\<close>

definition v6_request ::
  "serve_env \<Rightarrow> v6_lib \<Rightarrow> bytes served \<Rightarrow> string \<Rightarrow> snell_Runner \<Rightarrow> (string \<rightharpoonup> string) \<Rightarrow> snell_request \<Rightarrow> bytes \<Rightarrow> disp_state \<Rightarrow> (bytes served \<times> bool) \<times> disp_state" where
  "v6_request V X failed source r users q rest st =
     (if rq_Command q = CommandPing then ((ConnClosed, False), st)
      else
        (case v6_authenticate users q of
           Inl e \<Rightarrow> ((failed, False), st)
         | Inr uuid \<Rightarrow>
             if rq_Command q = CommandUDP then
               (if rest \<noteq> [] then ((ConnClosed, False), st)
                else
                  (case vl_firstPacket X of
                     Inl e \<Rightarrow> ((failed, False), st)
                   | Inr destination \<Rightarrow>
                       (case snell_dispatchUDP V uuid rest source destination r st of ((x, e), st1) \<Rightarrow> ((x, False), st1))))
             else
               (case snell_dispatchTCP V (\<lambda>x. None) uuid rest source (rq_Destination q) r st of ((x, e), st1) \<Rightarrow> ((x, True), st1))))"

text \<open>
  A session that is used again: the records at which a request begins, each with the environment of that time, until one cannot be read (at the end of the stream, and likewise when the last
  stream was broken off, \<open>Serve\<close> returns without closing). The results say in which environment and state each request was served.
\<close>

type_synonym v6_event = "serve_env \<times> disp_state \<times> bytes served"

fun v6_session ::
  "v6_lib \<Rightarrow> string \<Rightarrow> snell_Runner \<Rightarrow> (string \<rightharpoonup> string) \<Rightarrow> (serve_env \<times> (goerror + bytes)) list \<Rightarrow> disp_state \<Rightarrow> v6_event list \<times> disp_state" where
  "v6_session X source r users [] st = ([], st)"
| "v6_session X source r users ((V, record) # records) st =
     (case record of
        Inl e \<Rightarrow> ([(V, st, if e = ''EOF'' then ConnLeft else ConnClosed)], st)
      | Inr b \<Rightarrow>
          (case v6_readRequest X b of
             Inl e \<Rightarrow> ([(V, st, ConnClosed)], st)
           | Inr (q, rest) \<Rightarrow>
               (case v6_request V X ConnClosed source r users q rest st of
                  ((x, again), st1) \<Rightarrow>
                    (if again then (case v6_session X source r users records st1 of (xs, st2) \<Rightarrow> ((V, st, x) # xs, st2))
                     else ([(V, st, x)], st1)))))"

text \<open>
  \<open>newConnection\<close>, and what the runner makes of its error: the accept loop drops it, with the connection that it holds.
\<close>

definition v6_serve ::
  "v6_lib \<Rightarrow> string \<Rightarrow> snell_Runner \<Rightarrow> (string \<rightharpoonup> string) \<Rightarrow> (serve_env \<times> (goerror + bytes)) list \<Rightarrow> disp_state \<Rightarrow> v6_event list \<times> disp_state" where
  "v6_serve X source r users records st =
     (case records of
        [] \<Rightarrow> ([], st)
      | (V, Inl e) # rest \<Rightarrow> ([(V, st, ConnLeft)], st)
      | (V, Inr b) # rest \<Rightarrow>
          (case v6_readRequest X b of
             Inl e \<Rightarrow> ([(V, st, ConnLeft)], st)
           | Inr (q, after) \<Rightarrow>
               if rq_Command q = CommandConnectV2 then v6_session X source r users records st
               else (case v6_request V X ConnLeft source r users q after st of ((x, again), st1) \<Rightarrow> ([(V, st, x)], st1))))"

end
