(* ===== verification/Serving_Users.thy ===== *)
theory Serving_Users
  imports Serving
begin

text \<open>
  Whom the runners serve. The user of a ShadowsocksR connection is one the runner's table knows: no byte of a connection is decoded before its header named a user of the lookup, and
  the target address is only read from decoded bytes. The same for a version 6 Snell client, whose request names its client id.
\<close>

section \<open>Readers that verify their client\<close>

text \<open>A reader that gives bytes only once the client is verified, from then on for good.\<close>

locale verified_reader =
  fixes read :: "nat \<Rightarrow> 'c \<Rightarrow> bytes outcome \<times> 'c" and fresh verified :: "'c \<Rightarrow> bool"
  assumes read_fresh: "fresh c \<Longrightarrow> read k c = (Return d, c') \<Longrightarrow> verified c'"
    and read_verified: "verified c \<Longrightarrow> read k c = (Return d, c') \<Longrightarrow> verified c'"
begin

lemma full_loop_verified: "full_loop read fuel n acc c = Some (Return d, c') \<Longrightarrow> verified c \<Longrightarrow> verified c'"
proof (induction fuel arbitrary: acc c)
  case (Suc fuel)
  then show ?case using read_verified by (auto split: if_splits outcome.splits prod.splits)
qed (auto split: if_splits)

lemma full_loop_fresh: "full_loop read fuel n acc c = Some (Return d, c') \<Longrightarrow> fresh c \<Longrightarrow> length acc < n \<Longrightarrow> verified c'"
  by (cases fuel) (auto split: outcome.splits prod.splits intro: full_loop_verified dest: read_fresh)

lemma then_full_verified:
  "then_full read n c f = Some (Return x, c') \<Longrightarrow> verified c \<Longrightarrow> (\<And>d c1. f d c1 = Some (Return x, c') \<Longrightarrow> verified c1 \<Longrightarrow> verified c') \<Longrightarrow> verified c'"
  by (auto simp: then_full_def io_ReadFull_def split: option.splits outcome.splits prod.splits dest: full_loop_verified)

lemma then_full_fresh:
  "then_full read n c f = Some (Return x, c') \<Longrightarrow> fresh c \<Longrightarrow> 0 < n \<Longrightarrow> (\<And>d c1. f d c1 = Some (Return x, c') \<Longrightarrow> verified c1 \<Longrightarrow> verified c') \<Longrightarrow> verified c'"
  by (auto simp: then_full_def io_ReadFull_def split: option.splits outcome.splits prod.splits dest: full_loop_fresh)

lemma readTargetAddr_verified:
  assumes "readTargetAddr read c = Some (Return addr, c')" and "fresh c"
  shows "verified c'"
  by (rule then_full_fresh [OF assms(1) [unfolded readTargetAddr_def] assms(2)])
    (auto split: if_splits elim!: then_full_verified)

end

definition known_to :: "user_lookup \<Rightarrow> string \<Rightarrow> bool" where
  "known_to lookup uuid \<longleftrightarrow> (\<exists>i uk. lookup i = Some (uk, uuid))"

section \<open>The protocol auth_aes128\<close>

definition aes_fresh :: "authAES128 \<Rightarrow> bool" where
  "aes_fresh a \<longleftrightarrow> \<not> aa_gotHdr a \<and> aa_rbuf a = []"

definition aes_verified :: "user_lookup \<Rightarrow> authAES128 \<Rightarrow> bool" where
  "aes_verified lookup a \<longleftrightarrow> aa_gotHdr a \<and> known_to lookup (aa_uuid a)"

lemma known_toI: "lookup i = Some (uk, uuid) \<Longrightarrow> known_to lookup uuid"
  by (auto simp: known_to_def)

lemma decodeHeader_user:
  assumes "decodeHeader L lookup a = (r, a')"
  shows "r = Return () \<and> aa_gotHdr a' \<and> known_to lookup (aa_uuid a') \<or> r \<noteq> Return () \<and> a' = a"
  using assms by (auto simp: decodeHeader_def Let_def intro: known_toI split: if_splits option.splits sum.splits outcome.splits prod.splits)

lemma decodeData_user: "aa_gotHdr (snd (decodeData L a)) = aa_gotHdr a \<and> aa_uuid (snd (decodeData L a)) = aa_uuid a"
proof (induction L a rule: decodeData.induct)
  case (1 L a)
  then show ?case by (subst (1 2) decodeData.simps) (simp add: Let_def split: outcome.split)
qed

lemma pump_user:
  assumes "pump L lookup avail a = (r, a')" and "aes_fresh a \<or> aes_verified lookup a"
  shows "aes_fresh a' \<or> aes_verified lookup a'"
proof -
  define n where "n = min 8192 (Suc avail)"
  define b where "b = a\<lparr>aa_acc := aa_acc a @ take n (aa_stream a), aa_stream := drop n (aa_stream a)\<rparr>"
  obtain q a1 where h: "(if aa_gotHdr b then (Return (), b) else decodeHeader L lookup b) = (q, a1)" by force
  have b: "aes_fresh b \<or> aes_verified lookup b" using assms(2) by (simp add: b_def aes_fresh_def aes_verified_def)
  have a1: "q = Return () \<longrightarrow> aes_verified lookup a1" "aes_fresh a1 \<or> aes_verified lookup a1"
    using h b decodeHeader_user [of L lookup b q a1] by (auto simp: aes_fresh_def aes_verified_def split: if_splits)
  obtain q2 a2 where d: "decodeData L a1 = (q2, a2)" by force
  have a2: "aes_verified lookup a1 \<Longrightarrow> aes_verified lookup a2" using decodeData_user [of L a1] d by (simp add: aes_verified_def)
  have "a' = a1 \<and> q \<noteq> Return () \<or> a' = a2 \<and> q = Return ()"
    using assms(1) unfolding pump_def Let_def n_def [symmetric] b_def [symmetric] h case_prod_conv d by (cases q; cases q2) auto
  with a1 a2 show ?thesis by blast
qed

lemma auth_fill_user:
  "auth_fill L lookup avail a = (r, a') \<Longrightarrow> aes_fresh a \<or> aes_verified lookup a \<Longrightarrow>
    (aes_fresh a' \<or> aes_verified lookup a') \<and> (\<forall>u. r = Return u \<longrightarrow> aes_verified lookup a')"
proof (induction L lookup avail a arbitrary: r a' rule: auth_fill.induct)
  case (1 L lookup avail a)
  show ?case
  proof (cases "aa_rbuf a = []")
    case False
    then have "r = Return () \<and> a' = a" using 1(2) by (subst (asm) auth_fill.simps) simp
    with 1(3) False show ?thesis by (auto simp: aes_fresh_def)
  next
    case True
    obtain q a1 where p: "pump L lookup avail a = (q, a1)" by force
    note a1 = pump_user [OF p 1(3)]
    show ?thesis
    proof (cases q)
      case (Return u)
      then have "auth_fill L lookup avail a1 = (r, a')" using 1(2) True p by (subst (asm) auth_fill.simps) simp
      from 1(1) [OF _ _ _ this a1, of "Return u" u] True p Return show ?thesis by simp
    next
      case (Error e)
      then have "(r, a') = (if aa_rbuf a1 = [] then (Error e, a1) else (Return (), a1))" using 1(2) True p by (subst (asm) auth_fill.simps) simp
      with a1 show ?thesis by (auto simp: aes_fresh_def split: if_splits)
    next
      case (Panic e)
      then have "(r, a') = (Panic e, a1)" using 1(2) True p by (subst (asm) auth_fill.simps) simp
      with a1 show ?thesis by simp
    qed
  qed
qed

lemma auth_Read_user:
  assumes "auth_Read L lookup avail k a = (Return d, a')" and "aes_fresh a \<or> aes_verified lookup a"
  shows "aes_verified lookup a'"
proof -
  obtain r a1 where f: "auth_fill L lookup avail a = (r, a1)" by force
  then have "\<exists>u. r = Return u" "a' = a1\<lparr>aa_rbuf := drop k (aa_rbuf a1)\<rparr>"
    using assms(1) by (auto simp: auth_Read_def split: outcome.splits)
  with auth_fill_user [OF f assms(2)] show ?thesis by (auto simp: aes_verified_def)
qed

interpretation aes: verified_reader "auth_Read L lookup avail" aes_fresh "aes_verified lookup" for L lookup avail
  by unfold_locales (auto dest: auth_Read_user)

lemma ssr_handshake_known:
  assumes "ssr_handshake L lookup avail stream iv key = Some (Return (uuid, dest), c)"
  shows "known_to lookup uuid"
proof -
  from assms obtain a where "readTargetAddr (auth_Read L lookup avail) (newAuthAES128 stream iv key) = Some (Return dest, a)" "uuid = aa_uuid a"
    by (auto simp: ssr_handshake_def split: option.splits outcome.splits)
  with aes.readTargetAddr_verified [of L lookup avail "newAuthAES128 stream iv key" dest a] show ?thesis
    by (simp add: aes_fresh_def newAuthAES128_def aes_verified_def)
qed

section \<open>The protocol auth_chain\<close>

definition chain_fresh :: "authChain \<Rightarrow> bool" where
  "chain_fresh a \<longleftrightarrow> \<not> ac_gotHdr a \<and> ac_rbuf a = []"

definition chain_verified :: "user_lookup \<Rightarrow> authChain \<Rightarrow> bool" where
  "chain_verified lookup a \<longleftrightarrow> ac_gotHdr a \<and> known_to lookup (ac_uuid a)"

lemma chain_decodeHeader_fields:
  "ac_rbuf (snd (chain_decodeHeader L lookup a)) = ac_rbuf a"
  "fst (chain_decodeHeader L lookup a) \<noteq> Return () \<longrightarrow> ac_gotHdr (snd (chain_decodeHeader L lookup a)) = ac_gotHdr a"
  "fst (chain_decodeHeader L lookup a) = Return () \<longrightarrow> ac_gotHdr (snd (chain_decodeHeader L lookup a)) \<and> known_to lookup (ac_uuid (snd (chain_decodeHeader L lookup a)))"
  by (simp_all add: chain_decodeHeader_def Let_def known_toI split: option.split sum.split)

lemma chain_decodeHeader_user:
  assumes "chain_decodeHeader L lookup a = (r, a')"
  shows "r = Return () \<and> ac_gotHdr a' \<and> known_to lookup (ac_uuid a') \<or> r \<noteq> Return () \<and> ac_gotHdr a' = ac_gotHdr a \<and> ac_rbuf a' = ac_rbuf a"
  using chain_decodeHeader_fields [of L lookup a] assms by auto

lemma decode_one_user: "decode_one L a = (r, a') \<Longrightarrow> ac_gotHdr a' = ac_gotHdr a" "decode_one L a = (r, a') \<Longrightarrow> ac_uuid a' = ac_uuid a"
proof -
  have "ac_gotHdr (snd (decode_one L a)) = ac_gotHdr a" "ac_uuid (snd (decode_one L a)) = ac_uuid a"
    by (simp_all add: decode_one_def Let_def split: outcome.split prod.split option.split)
  then show "decode_one L a = (r, a') \<Longrightarrow> ac_gotHdr a' = ac_gotHdr a" "decode_one L a = (r, a') \<Longrightarrow> ac_uuid a' = ac_uuid a" by simp_all
qed

lemma chain_decodeData_user: "ac_gotHdr (snd (chain_decodeData L a)) = ac_gotHdr a \<and> ac_uuid (snd (chain_decodeData L a)) = ac_uuid a"
proof (induction L a rule: chain_decodeData.induct)
  case (1 L a)
  obtain r a1 where d: "decode_one L a = (r, a1)" by force
  note a1 = decode_one_user [OF d]
  show ?case
  proof (cases "r = Return True")
    case True
    then have "chain_decodeData L a = chain_decodeData L a1" by (subst chain_decodeData.simps) (simp add: d)
    with 1 [of r a1 True] True d a1 show ?thesis by simp
  next
    case False
    then have "snd (chain_decodeData L a) = a1" by (subst chain_decodeData.simps) (auto simp: d split: outcome.split bool.split)
    with a1 show ?thesis by simp
  qed
qed

lemma chain_pump_user:
  assumes "chain_pump L lookup avail a = (r, a')" and "chain_fresh a \<or> chain_verified lookup a"
  shows "chain_fresh a' \<or> chain_verified lookup a'"
proof -
  define n where "n = min 8192 (Suc avail)"
  define b where "b = a\<lparr>ac_acc := ac_acc a @ take n (ac_stream a), ac_stream := drop n (ac_stream a)\<rparr>"
  obtain q a1 where h: "(if ac_gotHdr b then (Return (), b) else chain_decodeHeader L lookup b) = (q, a1)" by force
  have b: "chain_fresh b \<or> chain_verified lookup b" using assms(2) by (simp add: b_def chain_fresh_def chain_verified_def)
  have a1: "q = Return () \<longrightarrow> chain_verified lookup a1" "chain_fresh a1 \<or> chain_verified lookup a1"
    using h b chain_decodeHeader_user [of L lookup b q a1] by (auto simp: chain_fresh_def chain_verified_def split: if_splits)
  obtain q2 a2 where d: "chain_decodeData L a1 = (q2, a2)" by force
  have a2: "chain_verified lookup a1 \<Longrightarrow> chain_verified lookup a2" using chain_decodeData_user [of L a1] d by (simp add: chain_verified_def)
  have "a' = a1 \<and> q \<noteq> Return () \<or> a' = a2 \<and> q = Return ()"
    using assms(1) unfolding chain_pump_def Let_def n_def [symmetric] b_def [symmetric] h case_prod_conv d by (cases q; cases q2) auto
  with a1 a2 show ?thesis by blast
qed

lemma chain_fill_user:
  "chain_fill L lookup avail a = (r, a') \<Longrightarrow> chain_fresh a \<or> chain_verified lookup a \<Longrightarrow>
    (chain_fresh a' \<or> chain_verified lookup a') \<and> (\<forall>u. r = Return u \<longrightarrow> chain_verified lookup a')"
proof (induction L lookup avail a arbitrary: r a' rule: chain_fill.induct)
  case (1 L lookup avail a)
  show ?case
  proof (cases "ac_rbuf a = []")
    case False
    then have "r = Return () \<and> a' = a" using 1(2) by (subst (asm) chain_fill.simps) simp
    with 1(3) False show ?thesis by (auto simp: chain_fresh_def)
  next
    case True
    obtain q a1 where p: "chain_pump L lookup avail a = (q, a1)" by force
    note a1 = chain_pump_user [OF p 1(3)]
    show ?thesis
    proof (cases q)
      case (Return u)
      then have "chain_fill L lookup avail a1 = (r, a')" using 1(2) True p by (subst (asm) chain_fill.simps) simp
      from 1(1) [OF _ _ _ this a1, of "Return u" u] True p Return show ?thesis by simp
    next
      case (Error e)
      then have "(r, a') = (if ac_rbuf a1 = [] then (Error e, a1) else (Return (), a1))" using 1(2) True p by (subst (asm) chain_fill.simps) simp
      with a1 show ?thesis by (auto simp: chain_fresh_def split: if_splits)
    next
      case (Panic e)
      then have "(r, a') = (Panic e, a1)" using 1(2) True p by (subst (asm) chain_fill.simps) simp
      with a1 show ?thesis by simp
    qed
  qed
qed

lemma chain_Read_user:
  assumes "chain_Read L lookup avail k a = (Return d, a')" and "chain_fresh a \<or> chain_verified lookup a"
  shows "chain_verified lookup a'"
proof -
  obtain r a1 where f: "chain_fill L lookup avail a = (r, a1)" by force
  then have "\<exists>u. r = Return u" "a' = a1\<lparr>ac_rbuf := drop k (ac_rbuf a1)\<rparr>"
    using assms(1) by (auto simp: chain_Read_def split: outcome.splits)
  with chain_fill_user [OF f assms(2)] show ?thesis by (auto simp: chain_verified_def)
qed

interpretation chain: verified_reader "chain_Read L lookup avail" chain_fresh "chain_verified lookup" for L lookup avail
  by unfold_locales (auto dest: chain_Read_user)

lemma chain_handshake_known:
  assumes "chain_handshake L lookup avail stream iv key salt = Some (Return (uuid, dest), c)"
  shows "known_to lookup uuid"
proof -
  from assms obtain a where "readTargetAddr (chain_Read L lookup avail) (newAuthChain stream iv key salt) = Some (Return dest, a)" "uuid = ac_uuid a"
    by (auto simp: chain_handshake_def split: option.splits outcome.splits)
  with chain.readTargetAddr_verified [of L lookup avail "newAuthChain stream iv key salt" dest a] show ?thesis
    by (simp add: chain_fresh_def newAuthChain_def chain_verified_def Let_def split: prod.splits)
qed

section \<open>The users of a runner\<close>

text \<open>The users in the table of a ShadowsocksR runner, by which it answers the protocol.\<close>

definition ssr_users :: "ssr_Runner \<Rightarrow> string set" where
  "ssr_users r = ue_uuid ` ran (sr_byID r)"

lemma known_ssr_user: "known_to (ssr_userLookup r) uuid \<Longrightarrow> uuid \<in> ssr_users r"
  by (auto simp: known_to_def ssr_userLookup_def ssr_lookup_def ssr_users_def intro: ranI)

lemma v6_authenticate_known: "v6_authenticate users q = Inr uuid \<Longrightarrow> uuid \<in> ran users"
  by (auto simp: v6_authenticate_def intro: ranI split: option.splits)

text \<open>
  A version 6 Snell client with an unknown client id is never closed: the service only returns the error, with the connection inside, and the accept loop of the runner drops it.
\<close>

theorem unknown_v6_client_left:
  assumes "v6_readRequest X b = Inr (q, after)" and "rq_Command q = CommandConnect" and "users (bytes_text (rq_ClientID q)) = None"
  shows "v6_serve X source r users ((V, Inr b) # records) st = ([(V, st, ConnLeft)], st)"
  using assms by (simp add: v6_serve_def v6_request_def v6_authenticate_def CommandConnect_def CommandConnectV2_def CommandPing_def)

lemma unknown_v6_client_left_example:
  "v6_serve \<lparr>vl_ReadSockString = (\<lambda>b. Inr (take (unat (b ! 0)) (drop 1 b), drop (Suc (unat (b ! 0))) b)),
              vl_ParseHostPort = (\<lambda>h p. \<lparr>sa_Addr = None, sa_Fqdn = h, sa_Port = p\<rparr>), vl_firstPacket = Inl ''EOF''\<rparr>
     ''9.9.9.9'' r Map.empty [(V, Inr [1, 1, 0, 1, 97, 1, 187])] st = ([(V, st, ConnLeft)], st)"
  by (rule unknown_v6_client_left [where q = "\<lparr>rq_Command = 1, rq_ClientID = [], rq_Destination = \<lparr>sa_Addr = None, sa_Fqdn = [97], sa_Port = 443\<rparr>\<rparr>" and after = "[]"])
    (simp_all add: v6_readRequest_def take_full_def ReadConnectAddress_def CommandConnect_def CommandConnectV2_def CommandPing_def port_of_def be16_def Let_def)

end
