(* ===== verification/Shadow_Props.thy ===== *)
theory Shadow_Props
  imports Shadow_Control
begin

text \<open>
  What the camouflage engine does to the data: sampled sizes lie in the ranges of the profile; reshaping cuts the data into chunks, drops what does
  not fit into a buffer and pads the last chunk without a mark; which collected profiles can be used; when the switching goroutine panics; and
  how the selector follows the measured throughput.
\<close>

section \<open>Sampling\<close>

definition range_ok :: "SizeRange \<Rightarrow> bool" where
  "range_ok x \<longleftrightarrow> 0 \<le> sr_Min x \<and> sr_Min x \<le> sr_Max x \<and> sr_Max x < 2 ^ 62 \<and> 0 \<le> sr_Weight x"

definition sizes_ok :: "SizeRange list \<Rightarrow> bool" where
  "sizes_ok xs \<longleftrightarrow> list_all range_ok xs \<and> sum_list (map sr_Weight xs) < 2 ^ 62"

definition packet_ok :: "InitialPacket \<Rightarrow> bool" where
  "packet_ok p \<longleftrightarrow> 0 \<le> ip_MinSize p \<and> ip_MinSize p \<le> ip_MaxSize p \<and> ip_MaxSize p < 2 ^ 62"

definition profile_ok :: "TrafficProfile \<Rightarrow> bool" where
  "profile_ok p \<longleftrightarrow> sizes_ok (tp_C2SSizes p) \<and> sizes_ok (tp_S2CSizes p) \<and> list_all packet_ok (tp_C2SInitial p) \<and> list_all packet_ok (tp_S2CInitial p)
     \<and> 0 < tp_MinRecordPayload p \<and> tp_MinRecordPayload p \<le> tp_MaxRecordPayload p \<and> tp_MaxRecordPayload p < 2 ^ 62
     \<and> 0 \<le> tp_InterPacketDelayMin p \<and> tp_InterPacketDelayMax p < 2 ^ 62"

definition builtin_profiles :: "TrafficProfile list" where
  "builtin_profiles = [ChromeH2Profile, SafariProfile, FirefoxProfile, DouyinProfile, BilibiliProfile, AppleMusicProfile, TaobaoProfile,
     ICloudSyncProfile, TencentVideoProfile]"

lemmas profile_defs = ChromeH2Profile_def SafariProfile_def FirefoxProfile_def DouyinProfile_def BilibiliProfile_def AppleMusicProfile_def
  TaobaoProfile_def ICloudSyncProfile_def TencentVideoProfile_def

lemma builtin_ok: "list_all profile_ok builtin_profiles"
  by (simp add: builtin_profiles_def profile_ok_def sizes_ok_def range_ok_def packet_ok_def size_range_def initial_def profile_defs)

lemma Intn_Return: "0 < n \<Longrightarrow> \<exists>k r'. Intn n r = Return (k, r') \<and> 0 \<le> k \<and> k < n"
  by (simp add: Intn_def)

lemma Intn_panics: "n \<le> 0 \<Longrightarrow> Intn n r = Panic ''invalid argument to Intn''"
  by (simp add: Intn_def)

lemma in_i64_small: "0 \<le> x \<Longrightarrow> x \<le> 2 ^ 62 \<Longrightarrow> i64 x = x"
  by (rule i64_id) (simp add: in_i64_def)

lemma between_Return:
  assumes "0 \<le> lo" and "lo \<le> hi" and "hi < 2 ^ 62"
  shows "\<exists>n r'. between lo hi r = Return (n, r') \<and> lo \<le> n \<and> n \<le> hi"
proof -
  have w: "i64 (hi - lo) = hi - lo" "i64 (hi - lo + 1) = hi - lo + 1" using assms by (simp_all add: in_i64_small)
  from Intn_Return [of "hi - lo + 1" r] assms(2) obtain k r' where k: "Intn (hi - lo + 1) r = Return (k, r')" "0 \<le> k" "k < hi - lo + 1" by auto
  then have "i64 (lo + k) = lo + k" using assms by (simp add: in_i64_small)
  then show ?thesis using k w by (simp add: between_def)
qed

lemma sample_in_Return:
  "0 \<le> lo \<Longrightarrow> lo \<le> hi \<Longrightarrow> hi < 2 ^ 62 \<Longrightarrow> \<exists>n r'. sample_in lo hi r = Return (n, r') \<and> lo \<le> n \<and> n \<le> hi"
  using between_Return [of lo hi r] by (simp add: sample_in_def)

lemma weights_nonneg: "list_all range_ok xs \<Longrightarrow> 0 \<le> sum_list (map sr_Weight xs)"
proof (induction xs)
  case (Cons x xs)
  then show ?case by (simp add: range_ok_def [of x])
qed simp

lemma total_weight_sum:
  "list_all range_ok xs \<Longrightarrow> 0 \<le> t \<Longrightarrow> t + sum_list (map sr_Weight xs) < 2 ^ 62 \<Longrightarrow> total_weight xs t = t + sum_list (map sr_Weight xs)"
proof (induction xs arbitrary: t)
  case (Cons x xs)
  have "0 \<le> sr_Weight x" "0 \<le> sum_list (map sr_Weight xs)" using Cons.prems(1) weights_nonneg [of xs] by (simp_all add: range_ok_def [of x])
  then show ?case using Cons.prems by (simp add: in_i64_small Cons.IH)
qed simp

lemma pick_range_Some:
  "list_all range_ok xs \<Longrightarrow> 0 \<le> c \<Longrightarrow> c \<le> pick \<Longrightarrow> pick < c + sum_list (map sr_Weight xs) \<Longrightarrow> c + sum_list (map sr_Weight xs) < 2 ^ 62 \<Longrightarrow>
   \<exists>x \<in> set xs. pick_range xs c pick = Some x \<and> 0 < sr_Weight x"
proof (induction xs arbitrary: c)
  case (Cons x xs)
  have w: "0 \<le> sr_Weight x" "0 \<le> sum_list (map sr_Weight xs)" using Cons.prems(1) weights_nonneg [of xs] by (simp_all add: range_ok_def [of x])
  have i: "i64 (c + sr_Weight x) = c + sr_Weight x" using w Cons.prems by (simp add: in_i64_small)
  show ?case
  proof (cases "pick < c + sr_Weight x")
    case True
    then have "0 < sr_Weight x" using Cons.prems(3) by simp
    then show ?thesis using True i by (simp add: Let_def)
  next
    case False
    then show ?thesis using Cons.IH [of "c + sr_Weight x"] Cons.prems w i by (simp add: Let_def)
  qed
qed simp

text \<open>A sampled size lies in a range that has a positive weight, or is 512 when none has.\<close>

lemma SampleSize_Return:
  assumes "sizes_ok xs"
  shows "\<exists>n r'. SampleSize xs r = Return (n, r') \<and> 0 \<le> n
    \<and> ((\<exists>x \<in> set xs. 0 < sr_Weight x \<and> sr_Min x \<le> n \<and> n \<le> sr_Max x) \<or> n = 512 \<and> sum_list (map sr_Weight xs) = 0)"
proof -
  have ok: "list_all range_ok xs" "sum_list (map sr_Weight xs) < 2 ^ 62" using assms by (simp_all add: sizes_ok_def)
  define W where "W = sum_list (map sr_Weight xs)"
  have t: "total_weight xs 0 = W" using total_weight_sum [OF ok(1), of 0] ok(2) by (simp add: W_def)
  have W0: "0 \<le> W" using weights_nonneg [OF ok(1)] by (simp add: W_def)
  show ?thesis
  proof (cases "W = 0")
    case True
    then show ?thesis by (simp add: SampleSize_def t W_def [symmetric])
  next
    case False
    with W0 have pos: "0 < W" by simp
    obtain k r1 where k: "Intn W r = Return (k, r1)" "0 \<le> k" "k < W" using Intn_Return [OF pos, of r] by blast
    obtain x where x: "x \<in> set xs" "pick_range xs 0 k = Some x" "0 < sr_Weight x"
      using pick_range_Some [OF ok(1), of 0 k] k ok(2) by (auto simp: W_def)
    have "range_ok x" using ok(1) x(1) by (simp add: list_all_iff)
    then have b: "0 \<le> sr_Min x" "sr_Min x \<le> sr_Max x" "sr_Max x < 2 ^ 62" by (simp_all add: range_ok_def)
    obtain n r2 where n: "sample_in (sr_Min x) (sr_Max x) r1 = Return (n, r2)" "sr_Min x \<le> n" "n \<le> sr_Max x"
      using sample_in_Return [OF b, of r1] by blast
    then have s: "SampleSize xs r = Return (n, r2)" using False k(1) x(2) by (simp add: SampleSize_def t)
    have "0 \<le> n" using n(2) b(1) by simp
    then show ?thesis using s x n(2,3) by (intro exI [of _ n] exI [of _ r2]) blast
  qed
qed

lemma SampleInitialSize_Return:
  assumes "list_all packet_ok ps"
  shows "\<exists>n r'. SampleInitialSize ps i r = Return (n, r')"
proof (cases "length ps \<le> i")
  case False
  then have "packet_ok (ps ! i)" using assms by (simp add: list_all_length)
  then show ?thesis using sample_in_Return [of "ip_MinSize (ps ! i)" "ip_MaxSize (ps ! i)" r] False
    by (auto simp: SampleInitialSize_def packet_ok_def)
qed (simp add: SampleInitialSize_def)

lemma clamp_bounds: "tp_MinRecordPayload p \<le> tp_MaxRecordPayload p \<Longrightarrow> tp_MinRecordPayload p \<le> clamp p n \<and> clamp p n \<le> tp_MaxRecordPayload p"
  by (simp add: clamp_def Let_def)

text \<open>Every target is within the bounds of the profile, and choosing one does not change which profile is active.\<close>

lemma getTargetSize_Return:
  assumes "profile_ok p"
  shows "\<exists>t e' r'. getTargetSize dir p (e, r) = Return (t, e', r') \<and> tp_MinRecordPayload p \<le> t \<and> t \<le> tp_MaxRecordPayload p
    \<and> eng_activeProfile e' = eng_activeProfile e"
proof -
  have c: "tp_MinRecordPayload p \<le> clamp p n \<and> clamp p n \<le> tp_MaxRecordPayload p" for n
    using assms clamp_bounds by (simp add: profile_ok_def)
  show ?thesis
  proof (cases dir)
    case C2S
    obtain n r1 where i: "SampleInitialSize (tp_C2SInitial p) (eng_c2sPacketIndex e) r = Return (n, r1)"
      using SampleInitialSize_Return assms unfolding profile_ok_def by blast
    obtain m r2 where "SampleSize (tp_C2SSizes p) r1 = Return (m, r2)" using SampleSize_Return assms unfolding profile_ok_def by blast
    then show ?thesis using C2S i c by (simp add: getTargetSize_def)
  next
    case S2C
    obtain n r1 where i: "SampleInitialSize (tp_S2CInitial p) (eng_s2cPacketIndex e) r = Return (n, r1)"
      using SampleInitialSize_Return assms unfolding profile_ok_def by blast
    obtain m r2 where "SampleSize (tp_S2CSizes p) r1 = Return (m, r2)" using SampleSize_Return assms unfolding profile_ok_def by blast
    then show ?thesis using S2C i c by (simp add: getTargetSize_def)
  qed
qed

lemma jitter_Return: "profile_ok p \<Longrightarrow> \<exists>s r'. jitter p first r = Return (s, r')"
proof -
  assume ok: "profile_ok p"
  have "\<exists>k r'. Intn (i64 (tp_InterPacketDelayMax p - tp_InterPacketDelayMin p)) r = Return (k, r')"
    if "tp_InterPacketDelayMin p < tp_InterPacketDelayMax p"
  proof -
    have "i64 (tp_InterPacketDelayMax p - tp_InterPacketDelayMin p) = tp_InterPacketDelayMax p - tp_InterPacketDelayMin p"
      using that ok by (intro in_i64_small) (simp_all add: profile_ok_def)
    then show ?thesis using Intn_Return [of "tp_InterPacketDelayMax p - tp_InterPacketDelayMin p" r] that by auto
  qed
  then show ?thesis by (auto simp: jitter_def)
qed

section \<open>What reshaping does to the data\<close>

text \<open>
  The chunks of a write: all but the last have a size within the bounds of the profile, the last one gets random bytes up to the minimum, and every
  one is cut at the size of a buffer.
\<close>

definition reshaped :: "TrafficProfile \<Rightarrow> bytes \<Rightarrow> bytes list \<Rightarrow> bytes \<Rightarrow> bytes \<Rightarrow> bytes list \<Rightarrow> bool" where
  "reshaped p data chunks final pad out \<longleftrightarrow>
     data = concat chunks @ final \<and> out = map new_buffer (chunks @ [final @ pad])
     \<and> (\<forall>c \<in> set chunks. tp_MinRecordPayload p \<le> int (length c) \<and> int (length c) \<le> tp_MaxRecordPayload p)
     \<and> final \<noteq> [] \<and> int (length final) \<le> tp_MaxRecordPayload p \<and> length pad = nat (tp_MinRecordPayload p) - length final"

lemma padChunk_exact: "\<exists>pad r'. padChunk p data r = (data @ pad, r') \<and> length pad = nat (tp_MinRecordPayload p) - length data"
  by (auto simp: padChunk_def rand_Read_def)

lemma shape_turn_Return:
  assumes ok: "profile_ok p" and ne: "sh_data s \<noteq> []"
  shows "\<exists>t pad s1. shape_turn dir p s = Return s1 \<and> tp_MinRecordPayload p \<le> int t \<and> int t \<le> tp_MaxRecordPayload p
    \<and> sh_data s1 = drop t (sh_data s) \<and> sh_out s1 = sh_out s @ [new_buffer (take t (sh_data s) @ pad)]
    \<and> length pad = (if drop t (sh_data s) = [] then nat (tp_MinRecordPayload p) - length (sh_data s) else 0)"
proof -
  obtain t e r where t: "getTargetSize dir p (sh_engine s, sh_rands s) = Return (t, e, r)" "tp_MinRecordPayload p \<le> t" "t \<le> tp_MaxRecordPayload p"
    using getTargetSize_Return [OF ok] by blast
  obtain sl r1 where j: "jitter p (sh_first s) r = Return (sl, r1)" using jitter_Return [OF ok] by blast
  have pos: "0 < t" using t(2) ok by (simp add: profile_ok_def)
  define n where "n = min (nat t) (length (sh_data s))"
  have n: "take n (sh_data s) = take (nat t) (sh_data s)" "drop n (sh_data s) = drop (nat t) (sh_data s)"
    by (auto simp: n_def min_def)
  define c where "c = (int n < tp_MinRecordPayload p \<and> drop n (sh_data s) = [])"
  obtain padded r2 where pd: "(if c then padChunk p (take n (sh_data s)) r1 else (take n (sh_data s), r1)) = (padded, r2)" by force
  have tt: "(if t \<le> 0 then tp_MinRecordPayload p else t) = t" and nn: "\<not> t < 0" using pos by simp_all
  have e: "shape_turn dir p s = Return \<lparr>sh_data = drop n (sh_data s), sh_out = sh_out s @ [new_buffer padded], sh_sleeps = sh_sleeps s @ sl,
      sh_first = False, sh_engine = e, sh_rands = r2\<rparr>"
    unfolding shape_turn_def t(1) obind.simps case_prod_conv Let_def tt j n_def [symmetric] c_def [symmetric] pd by (simp add: nn)
  have "\<exists>pad. padded = take n (sh_data s) @ pad \<and> length pad = (if drop n (sh_data s) = [] then nat (tp_MinRecordPayload p) - length (sh_data s) else 0)"
  proof (cases c)
    case True
    then have d: "drop n (sh_data s) = []" "take n (sh_data s) = sh_data s" by (simp_all add: c_def)
    then show ?thesis using padChunk_exact [of p "take n (sh_data s)" r1] pd True by auto
  next
    case False
    have "nat (tp_MinRecordPayload p) - length (sh_data s) = 0" if "drop n (sh_data s) = []"
      using False that by (simp add: c_def n_def)
    then show ?thesis using False pd by simp
  qed
  then obtain pad where "padded = take n (sh_data s) @ pad" "length pad = (if drop n (sh_data s) = [] then nat (tp_MinRecordPayload p) - length (sh_data s) else 0)"
    by blast
  then show ?thesis using e t(2,3) pos unfolding n by (intro exI [of _ "nat t"] exI [of _ pad]) simp
qed

lemma shape_loop_reshapes:
  assumes ok: "profile_ok p"
  shows "sh_data s \<noteq> [] \<Longrightarrow> length (sh_data s) \<le> fuel \<Longrightarrow>
    \<exists>s' chunks final pad out. shape_loop fuel dir p s = Some (Return s') \<and> sh_out s' = sh_out s @ out \<and> reshaped p (sh_data s) chunks final pad out"
proof (induction fuel arbitrary: s)
  case (Suc fuel)
  obtain t pad s1 where t: "shape_turn dir p s = Return s1" "tp_MinRecordPayload p \<le> int t" "int t \<le> tp_MaxRecordPayload p"
    "sh_data s1 = drop t (sh_data s)" "sh_out s1 = sh_out s @ [new_buffer (take t (sh_data s) @ pad)]"
    "length pad = (if drop t (sh_data s) = [] then nat (tp_MinRecordPayload p) - length (sh_data s) else 0)"
    using shape_turn_Return [OF ok Suc.prems(1), of dir] by blast
  have pos: "0 < t" using t(2) ok by (simp add: profile_ok_def)
  show ?case
  proof (cases "sh_data s1 = []")
    case True
    then have l: "length (sh_data s) \<le> t" using t(4) by simp
    have "shape_loop (Suc fuel) dir p s = Some (Return s1)" using Suc.prems(1) t(1) True by (cases fuel) simp_all
    moreover have "reshaped p (sh_data s) [] (sh_data s) pad [new_buffer (take t (sh_data s) @ pad)]"
      using Suc.prems(1) l t(3,6) by (simp add: reshaped_def)
    ultimately show ?thesis using t(5) by blast
  next
    case False
    then have l: "t < length (sh_data s)" using t(4) by simp
    have "length (sh_data s1) \<le> fuel" using Suc.prems(2) pos t(4) by simp
    from Suc.IH [OF False this] obtain s' chunks final pad' out where
      i: "shape_loop fuel dir p s1 = Some (Return s')" "sh_out s' = sh_out s1 @ out" "reshaped p (sh_data s1) chunks final pad' out" by blast
    have p0: "pad = []" using t(6) l by simp
    have whole: "sh_data s = take t (sh_data s) @ sh_data s1" by (simp add: t(4))
    then have "reshaped p (sh_data s) (take t (sh_data s) # chunks) final pad' (new_buffer (take t (sh_data s) @ pad) # out)"
      using i(3) t(2,3) l whole by (simp add: reshaped_def p0)
    moreover have "shape_loop (Suc fuel) dir p s = Some (Return s')" using Suc.prems(1) t(1) i(1) by simp
    moreover have "sh_out s' = sh_out s @ (new_buffer (take t (sh_data s) @ pad) # out)" using i(2) t(5) by simp
    ultimately show ?thesis by blast
  qed
qed simp

lemma WriteMultiBuffer_reshapes:
  assumes "profile_ok (eng_activeProfile e)" and "concat mb \<noteq> []" and "length (concat mb) \<le> fuel"
  shows "\<exists>s chunks final pad. WriteMultiBuffer fuel dir mb e r = Some (Return s) \<and> reshaped (eng_activeProfile e) (concat mb) chunks final pad (sh_out s)"
proof -
  have "sh_data (shaping_start (concat mb) e r) = concat mb" "sh_out (shaping_start (concat mb) e r) = []" by (simp_all add: shaping_start_def)
  then show ?thesis
    using shape_loop_reshapes [OF assms(1), of "shaping_start (concat mb) e r" fuel dir] assms(2,3) by (auto simp: WriteMultiBuffer_def)
qed

lemma new_buffer_fits: "length c \<le> 8192 \<Longrightarrow> new_buffer c = c"
  by (simp add: new_buffer_def bufSize_def)

lemma reshaped_lossless:
  assumes "reshaped p data chunks final pad out" and "\<forall>c \<in> set chunks. length c \<le> 8192" and "length final \<le> 8192"
    and "tp_MinRecordPayload p \<le> int (length final)"
  shows "concat out = data"
proof -
  have "map new_buffer chunks = chunks" using assms(2) by (simp add: new_buffer_fits map_idI)
  then show ?thesis using assms(1,3,4) new_buffer_fits [of final] by (simp add: reshaped_def)
qed

text \<open>
  Claim C6. Reshaping in the dispatcher is exactly this: for every profile with sane numbers, every state of the engine and every random choice,
  a write ends, the data are cut into chunks within the bounds of the profile, random bytes are appended to a last chunk below the minimum, and
  of every chunk only the first 8192 bytes are passed on. So the data are unchanged when every chunk fits a buffer and the last one
  reaches the minimum.
\<close>

theorem shaping_exact:
  assumes "profile_ok (eng_activeProfile e)" and "concat mb \<noteq> []" and "length (concat mb) \<le> fuel"
  shows "\<exists>s chunks final pad. WriteMultiBuffer fuel dir mb e r = Some (Return s)
    \<and> reshaped (eng_activeProfile e) (concat mb) chunks final pad (sh_out s)
    \<and> ((\<forall>c \<in> set chunks. length c \<le> 8192) \<and> length final \<le> 8192 \<and> tp_MinRecordPayload (eng_activeProfile e) \<le> int (length final)
        \<longrightarrow> concat (sh_out s) = concat mb)"
  using WriteMultiBuffer_reshapes [OF assms] reshaped_lossless by blast

definition demo_rands :: rands where
  "demo_rands = \<lparr>rnd_Int = (\<lambda>k. k), rnd_Byte = (\<lambda>k. of_nat k)\<rparr>"

definition demo_engine :: CamouflageEngine where
  "demo_engine = NewCamouflageEngine \<lparr>cc_Profile = None, cc_Mode = ''random'', cc_SwitchIntervalMin = 30, cc_SwitchIntervalMax = 120\<rparr>"

lemma demo_engine_profile [simp]: "eng_activeProfile demo_engine = ChromeH2Profile"
  by (simp add: demo_engine_def NewCamouflageEngine_def Let_def)

lemma builtin_profile_ok: "p \<in> set builtin_profiles \<Longrightarrow> profile_ok p"
  using builtin_ok by (simp add: list_all_iff)

lemma chrome_ok: "profile_ok ChromeH2Profile"
  by (rule builtin_profile_ok) (simp add: builtin_profiles_def)

theorem shaping_exact_witness:
  "\<exists>s chunks final pad. WriteMultiBuffer 3 C2S [[1, 2], [3]] demo_engine demo_rands = Some (Return s)
    \<and> reshaped ChromeH2Profile [1, 2, 3] chunks final pad (sh_out s)"
  using shaping_exact [of demo_engine "[[1, 2], [3]]" 3 C2S demo_rands] chrome_ok by auto

lemma reshaped_short:
  assumes "reshaped p data chunks final pad out" and "int (length data) \<le> tp_MinRecordPayload p"
  shows "chunks = [] \<and> final = data"
proof (cases chunks)
  case (Cons c cs)
  have "0 < length final" using assms(1) by (simp add: reshaped_def)
  moreover have "length data = length c + length (concat cs) + length final" "tp_MinRecordPayload p \<le> int (length c)"
    using assms(1) Cons by (simp_all add: reshaped_def)
  ultimately show ?thesis using assms(2) by linarith
qed (use assms in \<open>simp add: reshaped_def\<close>)

lemma WriteMultiBuffer_single:
  assumes "profile_ok p" and "eng_activeProfile e = p" and "data \<noteq> []" and "length data \<le> fuel"
  shows "\<exists>s chunks final pad. WriteMultiBuffer fuel dir [data] e r = Some (Return s) \<and> reshaped p data chunks final pad (sh_out s)"
  using WriteMultiBuffer_reshapes [of e "[data]" fuel dir r] assms by simp

text \<open>
  The padding of the dispatcher's writer cannot be taken off again: a write that is not empty and below the minimum comes out as its bytes
  with random bytes after them, and a write of these padded bytes themselves comes out the same. The next reader, which gets no length
  and whose \<open>ShapedReader\<close> passes everything on, takes the random bytes for data.
\<close>

theorem padding_ambiguous:
  assumes "profile_ok p" and "tp_MinRecordPayload p \<le> 8192" and "eng_activeProfile e = p" and "eng_activeProfile e' = p"
    and "data \<noteq> []" and "int (length data) < tp_MinRecordPayload p" and "nat (tp_MinRecordPayload p) \<le> fuel"
  shows "\<exists>s pad s'. WriteMultiBuffer fuel dir [data] e r = Some (Return s) \<and> pad \<noteq> [] \<and> sh_out s = [data @ pad]
    \<and> WriteMultiBuffer fuel dir [data @ pad] e' r' = Some (Return s') \<and> sh_out s' = sh_out s"
proof -
  have f: "length data \<le> fuel" using assms(6,7) by simp
  obtain s chunks final pad where s: "WriteMultiBuffer fuel dir [data] e r = Some (Return s)" "reshaped p data chunks final pad (sh_out s)"
    using WriteMultiBuffer_single [OF assms(1,3,5) f] by blast
  then have one: "chunks = []" "final = data" using reshaped_short [OF s(2)] assms(6) by simp_all
  have l: "length pad = nat (tp_MinRecordPayload p) - length data" using s(2) one by (simp add: reshaped_def)
  then have ll: "int (length (data @ pad)) = tp_MinRecordPayload p" "length (data @ pad) \<le> 8192" "length (data @ pad) \<le> fuel"
    using assms(2,6,7) by simp_all
  have out: "sh_out s = [data @ pad]" using s(2) one new_buffer_fits [OF ll(2)] by (simp add: reshaped_def)
  obtain s' chunks' final' pad' where s': "WriteMultiBuffer fuel dir [data @ pad] e' r' = Some (Return s')"
      "reshaped p (data @ pad) chunks' final' pad' (sh_out s')"
    using WriteMultiBuffer_single [OF assms(1,4) _ ll(3)] assms(5) by blast
  have two: "chunks' = []" "final' = data @ pad" using reshaped_short [OF s'(2)] ll(1) by simp_all
  have "length pad' = nat (tp_MinRecordPayload p) - length (data @ pad)" using s'(2) two by (simp add: reshaped_def)
  then have "pad' = []" using ll(1) by simp
  then have "sh_out s' = [data @ pad]" using s'(2) two new_buffer_fits [OF ll(2)] by (simp add: reshaped_def)
  moreover have "pad \<noteq> []" using l assms(6) by auto
  ultimately show ?thesis using s(1) s'(1) out by metis
qed

theorem padding_ambiguous_witness:
  "\<exists>s pad s'. WriteMultiBuffer 26 C2S [[71, 69, 84]] demo_engine r = Some (Return s) \<and> pad \<noteq> [] \<and> sh_out s = [[71, 69, 84] @ pad]
    \<and> WriteMultiBuffer 26 C2S [[71, 69, 84] @ pad] demo_engine r' = Some (Return s') \<and> sh_out s' = sh_out s"
  by (rule padding_ambiguous [where p = ChromeH2Profile]) (simp_all add: chrome_ok, simp_all add: ChromeH2Profile_def)

lemma largest_target:
  assumes "p \<in> set builtin_profiles" and "length (tp_S2CInitial p) \<le> eng_s2cPacketIndex e"
  shows "\<exists>r r'. getTargetSize S2C p (e, r) = Return (16384, e, r')"
proof -
  define m where "m = sr_Min (last (tp_S2CSizes p))"
  define r where "r = \<lparr>rnd_Int = (\<lambda>i. if i = 0 then 99 else nat (16384 - m)), rnd_Byte = (\<lambda>i. 0)\<rparr>"
  have "\<exists>r'. SampleSize (tp_S2CSizes p) r = Return (16384, r')"
    using assms(1) unfolding r_def m_def
    by (auto simp: builtin_profiles_def profile_defs size_range_def SampleSize_def Intn_def sample_in_def between_def in_i64_small Let_def)
  then obtain r' where "SampleSize (tp_S2CSizes p) r = Return (16384, r')" by blast
  moreover have "clamp p 16384 = 16384" using assms(1) by (auto simp: builtin_profiles_def profile_defs clamp_def)
  ultimately have "getTargetSize S2C p (e, r) = Return (16384, e, r')" using assms(2) by (simp add: getTargetSize_def SampleInitialSize_def)
  then show ?thesis by blast
qed

text \<open>
  Every built-in profile loses data: once the first packets of an engine are over, there are random choices for which a download of
  16384 bytes is passed on as its first 8192 bytes, and the rest is gone.
\<close>

theorem large_download_cut:
  assumes "p \<in> set builtin_profiles" and "eng_activeProfile e = p" and "length (tp_S2CInitial p) \<le> eng_s2cPacketIndex e"
    and "length data = 16384" and "0 < fuel"
  shows "\<exists>r s. WriteMultiBuffer fuel S2C [data] e r = Some (Return s) \<and> sh_out s = [take 8192 data]"
proof -
  obtain r r' where t: "getTargetSize S2C p (e, r) = Return (16384, e, r')" using largest_target [OF assms(1,3)] by blast
  have "tp_MinRecordPayload p \<le> 16384" using builtin_profile_ok [OF assms(1)] assms(1) by (auto simp: builtin_profiles_def profile_defs)
  then have u: "shape_turn S2C p (shaping_start data e r) =
      Return \<lparr>sh_data = [], sh_out = [take 8192 data], sh_sleeps = [], sh_first = False, sh_engine = e, sh_rands = r'\<rparr>"
    using assms(4) by (simp add: shape_turn_def shaping_start_def t jitter_def Let_def new_buffer_def bufSize_def)
  have ne: "data \<noteq> []" using assms(4) by auto
  obtain n where n: "fuel = Suc n" using assms(5) gr0_implies_Suc by blast
  have "shape_loop fuel S2C p (shaping_start data e r) =
      Some (Return \<lparr>sh_data = [], sh_out = [take 8192 data], sh_sleeps = [], sh_first = False, sh_engine = e, sh_rands = r'\<rparr>)"
    using ne u unfolding n by (cases n) (simp_all add: shaping_start_def)
  moreover define s where "s = \<lparr>sh_data = [], sh_out = [take 8192 data], sh_sleeps = [], sh_first = False, sh_engine = e, sh_rands = r'\<rparr>"
  ultimately have "WriteMultiBuffer fuel S2C [data] e r = Some (Return s)"
    using ne assms(2) by (simp add: WriteMultiBuffer_def)
  moreover have "sh_out s = [take 8192 data]" by (simp add: s_def)
  ultimately show ?thesis by blast
qed

theorem large_download_cut_witness:
  "\<exists>r s. WriteMultiBuffer 1 S2C [replicate 16384 7] (demo_engine\<lparr>eng_s2cPacketIndex := 8\<rparr>) r = Some (Return s)
    \<and> sh_out s = [take 8192 (replicate 16384 7)]"
  by (rule large_download_cut [where p = ChromeH2Profile]) (simp_all add: builtin_profiles_def, simp add: ChromeH2Profile_def)

section \<open>Collected profiles\<close>

text \<open>The five buckets cover the sorted sizes.\<close>

lemma bucket_of:
  assumes "j < n"
  shows "\<exists>i < 5. n * i div 5 \<le> j \<and> j < n * (i + 1) div (5 :: nat)"
proof -
  define i where "i = (LEAST i. j < n * (i + 1) div 5)"
  have ex: "j < n * (4 + 1) div 5" using assms by simp
  have up: "j < n * (i + 1) div 5" and le: "i \<le> 4" unfolding i_def by (rule LeastI, rule ex) (rule Least_le, rule ex)
  have "n * i div 5 \<le> j"
  proof (cases i)
    case (Suc k)
    then have "\<not> j < n * (k + 1) div 5" using not_less_Least [of k "\<lambda>i. j < n * (i + 1) div 5"] by (simp add: i_def)
    then show ?thesis using Suc by simp
  qed simp
  then show ?thesis using up le by (intro exI [of _ i]) simp
qed

lemma bucket_end: "i < 5 \<Longrightarrow> n * (i + 1) div 5 \<le> (n :: nat)"
  using div_le_mono [of "n * (i + 1)" "n * 5" 5] by simp

lemma sorted_hd_last: "sorted xs \<Longrightarrow> x \<in> set xs \<Longrightarrow> hd xs \<le> (x :: int) \<and> x \<le> last xs"
  by (induction xs) (auto simp: sorted_append)

text \<open>Every observed size lies in a range of the distribution, and every range has observed sizes as its bounds.\<close>

lemma buildDistribution_covers:
  assumes "x \<in> set sizes"
  shows "\<exists>y \<in> set (buildDistribution sizes). sr_Min y \<le> x \<and> x \<le> sr_Max y"
proof -
  let ?s = "sort sizes" and ?n = "length (sort sizes)"
  obtain j where j: "j < ?n" "?s ! j = x" using assms by (metis in_set_conv_nth set_sort)
  from bucket_of [OF j(1)] obtain i where i: "i < 5" "?n * i div 5 \<le> j" "j < ?n * (i + 1) div 5" by blast
  define b where "b = take (?n * (i + 1) div 5 - ?n * i div 5) (drop (?n * i div 5) ?s)"
  have "?n * (i + 1) div 5 \<le> ?n" by (rule bucket_end [OF i(1)])
  then have "j - ?n * i div 5 < length b" using i(2,3) unfolding b_def by simp
  moreover have "b ! (j - ?n * i div 5) = x" using i(2,3) j unfolding b_def by simp
  ultimately have "x \<in> set b" by (metis nth_mem)
  moreover have "sorted b" unfolding b_def by (simp add: sorted_wrt_take sorted_wrt_drop)
  ultimately have "hd b \<le> x \<and> x \<le> last b" by (rule sorted_hd_last [rotated])
  moreover have "size_range (hd b) (last b) 20 \<in> set (buildDistribution sizes)"
    using i assms unfolding buildDistribution_def Let_def b_def
    by (cases "sizes = []") (auto intro!: image_eqI [of _ _ i])
  ultimately show ?thesis by (intro bexI [of _ "size_range (hd b) (last b) 20"]) (simp_all add: size_range_def)
qed

lemma buildDistribution_ok:
  assumes "\<forall>x \<in> set sizes. 0 \<le> x \<and> x < 2 ^ 62"
  shows "sizes_ok (buildDistribution sizes)"
proof (cases "sizes = []")
  case False
  let ?s = "sort sizes" and ?n = "length (sort sizes)"
  have r: "range_ok (size_range (hd b) (last b) 20)" if b: "b = take k (drop m ?s)" and "b \<noteq> []" for b k m
  proof -
    have "sorted b" unfolding b by (simp add: sorted_wrt_take sorted_wrt_drop)
    moreover have "hd b \<in> set b" "last b \<in> set b" using that(2) by simp_all
    moreover have "set b \<subseteq> set sizes" unfolding b by (metis set_drop_subset set_take_subset set_sort subset_trans)
    ultimately show ?thesis using sorted_hd_last [of b "hd b"] assms by (auto simp: range_ok_def size_range_def)
  qed
  define js where "js = filter (\<lambda>i. ?n * i div 5 < ?n * (i + 1) div 5) [0..<5]"
  define f where "f = (\<lambda>i. let b = take (?n * (i + 1) div 5 - ?n * i div 5) (drop (?n * i div 5) ?s) in size_range (hd b) (last b) 20)"
  have d: "buildDistribution sizes = map f js" using False by (simp add: buildDistribution_def Let_def f_def js_def)
  have ok0: "list_all range_ok (map f js)" unfolding list_all_iff set_map ball_simps
  proof
    fix i assume "i \<in> set js"
    then have i: "i < 5" "?n * i div 5 < ?n * (i + 1) div 5" by (auto simp: js_def)
    have "?n * (i + 1) div 5 \<le> ?n" by (rule bucket_end [OF i(1)])
    then have "take (?n * (i + 1) div 5 - ?n * i div 5) (drop (?n * i div 5) ?s) \<noteq> []" using i(2) by simp
    then show "range_ok (f i)" using r [OF refl] by (simp add: f_def Let_def)
  qed
  have w: "sr_Weight (f i) = 20" for i unfolding f_def Let_def size_range_def by simp
  have "sum_list (map sr_Weight (map f ks)) = 20 * int (length ks)" for ks by (induction ks) (simp_all add: w)
  then have "sum_list (map sr_Weight (map f js)) = 20 * int (length js)" .
  moreover have "length js \<le> 5" unfolding js_def by (rule order_trans [OF length_filter_le]) simp
  ultimately show ?thesis using ok0 unfolding sizes_ok_def d by simp
qed (simp add: sizes_ok_def range_ok_def buildDistribution_def size_range_def)

lemma take_more: "k < n \<Longrightarrow> take (n - k) (x # xs) = x # take (n - Suc k) xs"
  by (simp add: take_Cons')

lemma collect_records_result:
  fixes n :: nat
  defines "part \<equiv> \<lambda>up xs. map cr_Size (filter (\<lambda>x. cr_IsC2S x = up) xs)"
  assumes "length (co_c2sInitial c) \<le> n" and "length (co_s2cInitial c) \<le> n"
  shows "co_c2sSizes (collect_records n xs c) = co_c2sSizes c @ part True xs
    \<and> co_s2cSizes (collect_records n xs c) = co_s2cSizes c @ part False xs
    \<and> co_c2sInitial (collect_records n xs c) = co_c2sInitial c @ map (\<lambda>k. initial k k) (take (n - length (co_c2sInitial c)) (part True xs))
    \<and> co_s2cInitial (collect_records n xs c) = co_s2cInitial c @ map (\<lambda>k. initial k k) (take (n - length (co_s2cInitial c)) (part False xs))"
  using assms(2,3)
proof (induction xs arbitrary: c)
  case Nil
  then show ?case by (simp add: part_def)
next
  case (Cons x xs)
  show ?case
  proof (cases "cr_IsC2S x")
    case True
    then show ?thesis using Cons by (cases "length (co_c2sInitial c) < n") (simp_all add: Let_def part_def take_more del: take_Suc_Cons)
  next
    case False
    then show ?thesis using Cons by (cases "length (co_s2cInitial c) < n") (simp_all add: Let_def part_def take_more del: take_Suc_Cons)
  qed
qed

text \<open>The first packets a profile is built from, and when their widened range has a size.\<close>

definition first_sizes :: "int \<Rightarrow> bool \<Rightarrow> ProfileCollector \<Rightarrow> int list" where
  "first_sizes k up pc = take (if k \<le> 0 then 4 else nat k) (map cr_Size (filter (\<lambda>x. cr_IsC2S x = up) (pc_records pc)))"

lemma BuildProfile_parts:
  "tp_C2SInitial (BuildProfile k pc) = map (\<lambda>n. widen (initial n n)) (first_sizes k True pc)"
  "tp_S2CInitial (BuildProfile k pc) = map (\<lambda>n. widen (initial n n)) (first_sizes k False pc)"
  "tp_C2SSizes (BuildProfile k pc) = buildDistribution (map cr_Size (filter (\<lambda>x. cr_IsC2S x = True) (pc_records pc)))"
  "tp_S2CSizes (BuildProfile k pc) = buildDistribution (map cr_Size (filter (\<lambda>x. cr_IsC2S x = False) (pc_records pc)))"
proof -
  note c = collect_records_result [of "\<lparr>co_c2sSizes = [], co_s2cSizes = [], co_c2sInitial = [], co_s2cInitial = [], co_minSize = 99999\<rparr>"
      "if k \<le> 0 then 4 else nat k" "pc_records pc", simplified]
  show "tp_C2SInitial (BuildProfile k pc) = map (\<lambda>n. widen (initial n n)) (first_sizes k True pc)"
    "tp_S2CInitial (BuildProfile k pc) = map (\<lambda>n. widen (initial n n)) (first_sizes k False pc)"
    "tp_C2SSizes (BuildProfile k pc) = buildDistribution (map cr_Size (filter (\<lambda>x. cr_IsC2S x = True) (pc_records pc)))"
    "tp_S2CSizes (BuildProfile k pc) = buildDistribution (map cr_Size (filter (\<lambda>x. cr_IsC2S x = False) (pc_records pc)))"
    using c by (simp_all add: BuildProfile_def Let_def widenInitial_def first_sizes_def)
qed

lemma widen_bounds:
  assumes "0 \<le> s" and "s < 2 ^ 61"
  shows "ip_MinSize (widen (initial s s)) = max 20 (s - max 5 (s div 5))" and "ip_MaxSize (widen (initial s s)) = min 16384 (s + max 5 (s div 5))"
proof -
  have d: "go_div s 5 = s div 5" using assms by (simp add: go_div_nonneg)
  have "s div 5 \<le> s" using assms(1) by simp
  then have "i64 (s - max 5 (s div 5)) = s - max 5 (s div 5)" "i64 (s + max 5 (s div 5)) = s + max 5 (s div 5)"
    using assms by (auto intro!: i64_id simp: in_i64_def)
  then show "ip_MinSize (widen (initial s s)) = max 20 (s - max 5 (s div 5))" "ip_MaxSize (widen (initial s s)) = min 16384 (s + max 5 (s div 5))"
    by (simp_all add: widen_def initial_def Let_def d)
qed

lemma widen_ok:
  assumes "0 \<le> s" and "s < 2 ^ 61"
  shows "packet_ok (widen (initial s s)) \<longleftrightarrow> 15 \<le> s \<and> s \<le> 20480"
    and "ip_MinSize (widen (initial s s)) \<le> ip_MaxSize (widen (initial s s)) \<longleftrightarrow> 15 \<le> s \<and> s \<le> 20480"
    and "0 \<le> ip_MinSize (widen (initial s s))" and "ip_MinSize (widen (initial s s)) < 2 ^ 62" and "ip_MaxSize (widen (initial s s)) \<le> 16384"
    and "0 \<le> ip_MaxSize (widen (initial s s))"
proof -
  have q: "s = 5 * (s div 5) + s mod 5" "0 \<le> s mod 5" "s mod 5 \<le> 4" "0 \<le> s div 5" using assms(1) by auto
  show i: "ip_MinSize (widen (initial s s)) \<le> ip_MaxSize (widen (initial s s)) \<longleftrightarrow> 15 \<le> s \<and> s \<le> 20480"
    unfolding widen_bounds [OF assms] using q by (auto simp: max_def min_def)
  show b: "0 \<le> ip_MinSize (widen (initial s s))" "ip_MinSize (widen (initial s s)) < 2 ^ 62" "ip_MaxSize (widen (initial s s)) \<le> 16384"
    "0 \<le> ip_MaxSize (widen (initial s s))"
    unfolding widen_bounds [OF assms] using assms q by (auto simp: max_def min_def)
  show "packet_ok (widen (initial s s)) \<longleftrightarrow> 15 \<le> s \<and> s \<le> 20480"
    using i b by (auto simp: packet_ok_def)
qed

lemma between_panics: "0 \<le> lo \<Longrightarrow> lo < 2 ^ 62 \<Longrightarrow> 0 \<le> hi \<Longrightarrow> hi < lo \<Longrightarrow> between lo hi r = Panic ''invalid argument to Intn''"
  by (simp add: between_def Intn_def i64_id in_i64_def)

lemma getTargetSize_returns:
  assumes "sizes_ok (tp_C2SSizes p)" and "sizes_ok (tp_S2CSizes p)" and "list_all packet_ok (tp_C2SInitial p)" and "list_all packet_ok (tp_S2CInitial p)"
  shows "\<exists>x. getTargetSize dir p (e, r) = Return x"
proof (cases dir)
  case C2S
  obtain n r1 where i: "SampleInitialSize (tp_C2SInitial p) (eng_c2sPacketIndex e) r = Return (n, r1)" using SampleInitialSize_Return [OF assms(3)] by blast
  obtain m r2 where "SampleSize (tp_C2SSizes p) r1 = Return (m, r2)" using SampleSize_Return [OF assms(1)] by blast
  then show ?thesis using C2S i by (simp add: getTargetSize_def)
next
  case S2C
  obtain n r1 where i: "SampleInitialSize (tp_S2CInitial p) (eng_s2cPacketIndex e) r = Return (n, r1)" using SampleInitialSize_Return [OF assms(4)] by blast
  obtain m r2 where "SampleSize (tp_S2CSizes p) r1 = Return (m, r2)" using SampleSize_Return [OF assms(2)] by blast
  then show ?thesis using S2C i by (simp add: getTargetSize_def)
qed

text \<open>A first packet that is too small or too large makes the engine panic when it comes to it.\<close>

lemma bad_packet_panics:
  assumes "0 \<le> s" and "s < 2 ^ 61" and "\<not> (15 \<le> s \<and> s \<le> 20480)" and "i < length ps" and "ps ! i = widen (initial s s)"
  shows "SampleInitialSize ps i r = Panic ''invalid argument to Intn''"
proof -
  note w = widen_ok [OF assms(1,2)]
  have "ip_MaxSize (widen (initial s s)) < ip_MinSize (widen (initial s s))" using w(2) assms(3) by linarith
  moreover from this have "between (ip_MinSize (widen (initial s s))) (ip_MaxSize (widen (initial s s))) r = Panic ''invalid argument to Intn''"
    using w by (intro between_panics) auto
  ultimately show ?thesis using assms(4,5) by (simp add: SampleInitialSize_def sample_in_def)
qed

text \<open>
  Claim C23. A profile that the collector builds covers the records it was built from: every observed size of a direction lies in a range that can be
  sampled. The profile can be used, for every state of an engine and every random choice, exactly if the first packets of both directions had
  between 15 and 20480 bytes. A single captured record of one byte, such as a change of the cipher, among the first packets makes the
  engine panic.
\<close>

theorem collected_profile_usable:
  assumes rec: "\<forall>x \<in> set (pc_records pc). 0 \<le> cr_Size x \<and> cr_Size x < 2 ^ 61"
  shows "((\<forall>dir e r. \<exists>x. getTargetSize dir (BuildProfile k pc) (e, r) = Return x)
        \<longleftrightarrow> (\<forall>up. \<forall>n \<in> set (first_sizes k up pc). 15 \<le> n \<and> n \<le> 20480))
    \<and> (\<forall>x \<in> set (pc_records pc). \<exists>y \<in> set (if cr_IsC2S x then tp_C2SSizes (BuildProfile k pc) else tp_S2CSizes (BuildProfile k pc)).
          sr_Min y \<le> cr_Size x \<and> cr_Size x \<le> sr_Max y)"
proof -
  let ?p = "BuildProfile k pc"
  have part: "n \<in> set (first_sizes k up pc) \<Longrightarrow> 0 \<le> n \<and> n < 2 ^ 61" for n up
    using rec by (auto simp: first_sizes_def dest!: in_set_takeD)
  have sz: "sizes_ok (tp_C2SSizes ?p)" "sizes_ok (tp_S2CSizes ?p)"
    unfolding BuildProfile_parts using rec by (intro buildDistribution_ok, force)+
  have usable: "(\<forall>dir e r. \<exists>x. getTargetSize dir ?p (e, r) = Return x) \<longleftrightarrow> (\<forall>up. \<forall>n \<in> set (first_sizes k up pc). 15 \<le> n \<and> n \<le> 20480)"
  proof
    assume g: "\<forall>up. \<forall>n \<in> set (first_sizes k up pc). 15 \<le> n \<and> n \<le> 20480"
    have "packet_ok (widen (initial n n))" if "n \<in> set (first_sizes k up pc)" for n up
      using g that widen_ok(1) [of n] part [OF that] by blast
    then have "list_all packet_ok (tp_C2SInitial ?p)" "list_all packet_ok (tp_S2CInitial ?p)" unfolding BuildProfile_parts by (auto simp: list_all_iff)
    then show "\<forall>dir e r. \<exists>x. getTargetSize dir ?p (e, r) = Return x" using getTargetSize_returns [OF sz] by blast
  next
    assume ret: "\<forall>dir e r. \<exists>x. getTargetSize dir ?p (e, r) = Return x"
    show "\<forall>up. \<forall>n \<in> set (first_sizes k up pc). 15 \<le> n \<and> n \<le> 20480"
    proof (intro allI ballI, rule ccontr)
      fix up n
      assume n: "n \<in> set (first_sizes k up pc)" and bad: "\<not> (15 \<le> n \<and> n \<le> 20480)"
      obtain i where i: "i < length (first_sizes k up pc)" "first_sizes k up pc ! i = n" using n by (metis in_set_conv_nth)
      define e where "e = demo_engine\<lparr>eng_c2sPacketIndex := i, eng_s2cPacketIndex := i\<rparr>"
      define r where "r = \<lparr>rnd_Int = (\<lambda>i. 0), rnd_Byte = (\<lambda>i. 0)\<rparr>"
      have "SampleInitialSize (if up then tp_C2SInitial ?p else tp_S2CInitial ?p) i r = Panic ''invalid argument to Intn''"
        using bad_packet_panics [OF _ _ bad, of i _ r] part [OF n] i unfolding BuildProfile_parts by (cases up) simp_all
      then have "getTargetSize (if up then C2S else S2C) ?p (e, r) = Panic ''invalid argument to Intn''"
        by (cases up) (simp_all add: getTargetSize_def e_def)
      then show False using ret by (metis outcome.distinct(3))
    qed
  qed
  have "\<exists>y \<in> set (if cr_IsC2S x then tp_C2SSizes ?p else tp_S2CSizes ?p). sr_Min y \<le> cr_Size x \<and> cr_Size x \<le> sr_Max y"
    if "x \<in> set (pc_records pc)" for x
    using that buildDistribution_covers [of "cr_Size x"] unfolding BuildProfile_parts by (cases "cr_IsC2S x") simp_all
  then show ?thesis using usable by blast
qed

theorem collected_profile_usable_witness:
  "\<not> (\<forall>dir e r. \<exists>x. getTargetSize dir (BuildProfile 4 (AddRecord 1 True 0 0 (AddRecord 517 True 0 0 (NewProfileCollector ''c'')))) (e, r) = Return x)"
proof -
  let ?c = "AddRecord 1 True 0 0 (AddRecord 517 True 0 0 (NewProfileCollector ''c''))"
  have "1 \<in> set (first_sizes 4 True ?c)" by (simp add: first_sizes_def AddRecord_def NewProfileCollector_def)
  moreover have "\<forall>x \<in> set (pc_records ?c). 0 \<le> cr_Size x \<and> cr_Size x < 2 ^ 61" by (simp add: AddRecord_def NewProfileCollector_def)
  ultimately show ?thesis using collected_profile_usable [of ?c 4] by fastforce
qed

section \<open>Switching\<close>

lemma switch_bounds_idem: "(case switch_bounds lo hi of (a, b) \<Rightarrow> switch_bounds a b) = switch_bounds lo hi"
  by (simp add: switch_bounds_def Let_def)

lemma dynamic_engine:
  assumes "cn_Camouflage v = ''dynamic''" and "BuildCamouflageEngine F (ParseFromCommonNode unmarshal v) reg = (e, reg')"
  shows "eng_switcher e = Some (switch_bounds (cn_SwitchIntervalMin v) (cn_SwitchIntervalMax v))"
  using assms switch_bounds_idem [of "cn_SwitchIntervalMin v" "cn_SwitchIntervalMax v"]
  by (auto simp: BuildCamouflageEngine_def Let_def ParseFromCommonNode_def NewCamouflageEngine_def startDynamicSwitcher_def or_else_def split: prod.splits)

text \<open>
  With dynamic camouflage, the goroutine that switches profiles panics, and nothing recovers it, exactly if the panel's smallest
  interval is above 120 seconds and the largest one is missing or smaller: the default of 120 seconds is then used as an upper
  bound below the lower one. Otherwise every interval is between the two bounds.
\<close>

theorem switching_panics:
  assumes "cn_Camouflage v = ''dynamic''" and "BuildCamouflageEngine F (ParseFromCommonNode unmarshal v) reg = (e, reg')"
    and "cn_SwitchIntervalMin v < 2 ^ 61" and "cn_SwitchIntervalMax v < 2 ^ 61"
  shows "\<exists>lo hi. eng_switcher e = Some (lo, hi)
    \<and> (if 120 < cn_SwitchIntervalMin v \<and> (cn_SwitchIntervalMax v \<le> 0 \<or> cn_SwitchIntervalMax v < cn_SwitchIntervalMin v)
       then switch_interval (lo, hi) r = Panic ''invalid argument to Intn''
       else \<exists>n r'. switch_interval (lo, hi) r = Return (n, r') \<and> lo \<le> n \<and> n \<le> hi)"
proof -
  obtain lo hi where b: "switch_bounds (cn_SwitchIntervalMin v) (cn_SwitchIntervalMax v) = (lo, hi)" by force
  have sw: "eng_switcher e = Some (lo, hi)" using dynamic_engine [OF assms(1,2)] b by simp
  have l: "0 < lo" "lo < 2 ^ 61" "0 < hi" "hi < 2 ^ 61" using b assms(3,4) by (auto simp: switch_bounds_def Let_def split: if_splits)
  have c: "hi < lo \<longleftrightarrow> 120 < cn_SwitchIntervalMin v \<and> (cn_SwitchIntervalMax v \<le> 0 \<or> cn_SwitchIntervalMax v < cn_SwitchIntervalMin v)"
    using b by (auto simp: switch_bounds_def Let_def split: if_splits)
  show ?thesis
  proof (cases "hi < lo")
    case True
    then have "switch_interval (lo, hi) r = Panic ''invalid argument to Intn''" using l by (simp add: switch_interval_def between_panics)
    then show ?thesis using sw c True by auto
  next
    case False
    then have "\<exists>n r'. switch_interval (lo, hi) r = Return (n, r') \<and> lo \<le> n \<and> n \<le> hi"
      using between_Return [of lo hi r] l by (simp add: switch_interval_def)
    then show ?thesis using sw c False by auto
  qed
qed

definition demo_files :: profile_files where
  "demo_files = \<lparr>pf_marshal = (\<lambda>p. Inl ''marshal''), pf_unmarshal = (\<lambda>s. Inl ''unmarshal''), pf_read = (\<lambda>p. Inl ''no such file''),
     pf_write = (\<lambda>p s. None)\<rparr>"

theorem switching_panics_witness:
  "\<exists>b. eng_switcher (fst (BuildCamouflageEngine demo_files (ParseFromCommonNode (\<lambda>s. Inl []) (zero_CommonNode\<lparr>cn_Camouflage := ''dynamic'', cn_SwitchIntervalMin := 300\<rparr>)) profileRegistry)) = Some b
    \<and> switch_interval b demo_rands = Panic ''invalid argument to Intn''"
proof -
  let ?v = "zero_CommonNode\<lparr>cn_Camouflage := ''dynamic'', cn_SwitchIntervalMin := 300\<rparr>"
  obtain e reg' where b: "BuildCamouflageEngine demo_files (ParseFromCommonNode (\<lambda>s. Inl []) ?v) profileRegistry = (e, reg')" by force
  have "\<exists>lo hi. eng_switcher e = Some (lo, hi) \<and> switch_interval (lo, hi) demo_rands = Panic ''invalid argument to Intn''"
    using switching_panics [OF _ b, of demo_rands] by (simp add: zero_CommonNode_def)
  then show ?thesis using b by auto
qed

text \<open>
  A custom profile that the settings name is loaded too late for the first engine of a node, which shapes like Chrome; from the next engine on
  it is used. And of the modes only \<open>dynamic\<close> has an effect.
\<close>

lemma custom_profile_late:
  assumes "nc_Shaping c = Some s" and "sc_Profile s = name" and "name \<noteq> []" and "reg name = None"
    and "sc_CustomProfiles s = [path]" and "LoadProfileFromJSON F path = Inr p" and "tp_Name p = name"
  shows "eng_activeProfile (fst (BuildCamouflageEngine F c reg)) = ChromeH2Profile"
    and "eng_activeProfile (fst (BuildCamouflageEngine F c (snd (BuildCamouflageEngine F c reg)))) = p"
  using assms by (simp_all add: BuildCamouflageEngine_def Let_def NewCamouflageEngine_def startDynamicSwitcher_def GetProfile_def load_profiles_def
      LoadAndRegisterProfile_def RegisterProfile_def)

lemma modes_ignored:
  assumes "m \<noteq> ''dynamic''" and "m' \<noteq> ''dynamic''"
  shows "NewCamouflageEngine (c\<lparr>cc_Mode := m'\<rparr>) = (NewCamouflageEngine (c\<lparr>cc_Mode := m\<rparr>))\<lparr>eng_config := c\<lparr>cc_Mode := m'\<rparr>\<rparr>"
  using assms by (simp add: NewCamouflageEngine_def Let_def)

section \<open>Adapting\<close>

text \<open>
  The specification is a function of the measured tiers alone, the latest first: a tier at least as high as the current one is taken at once, a
  lower one after three measurements in a row below the current tier.
\<close>

fun tier_history :: "tier list \<Rightarrow> tier" where
  "tier_history [] = TierBrowsing"
| "tier_history (m # ms) =
     (let t = tier_history ms in
      if tier_rank t \<le> tier_rank m \<or> 3 \<le> length (takeWhile (\<lambda>x. tier_rank x < tier_rank t) (m # ms)) then m else t)"

definition window_tier :: "int \<times> int \<Rightarrow> tier" where
  "window_tier w = (let a = RecordBytes (fst w) (snd w) NewAdaptiveSelector in measured_tier (i64 (as_bytesIn a + as_bytesOut a)))"

text \<open>A run: in every window some bytes are recorded, then the selector evaluates.\<close>

fun selector_run ::
  "registry \<Rightarrow> string list \<Rightarrow> (int \<times> int) list \<Rightarrow> AdaptiveSelector \<times> CamouflageEngine \<times> rands \<Rightarrow> (AdaptiveSelector \<times> CamouflageEngine \<times> rands) outcome" where
  "selector_run reg order [] st = Return st"
| "selector_run reg order (w # ws) st =
     (case st of (a, e, r) \<Rightarrow> obind (evaluate reg order r (RecordBytes (fst w) (snd w) a) e) (selector_run reg order ws))"

lemma tier_rank_inj: "tier_rank t = tier_rank u \<longleftrightarrow> t = u"
  by (cases t; cases u; simp add: tier_rank_def)

definition follows :: "tier list \<Rightarrow> AdaptiveSelector \<Rightarrow> bool" where
  "follows ms a \<longleftrightarrow> as_bytesIn a = 0 \<and> as_bytesOut a = 0 \<and> as_currentTier a = tier_history ms
     \<and> as_downgradeTicks a = length (takeWhile (\<lambda>x. tier_rank x < tier_rank (tier_history ms)) ms) \<and> as_downgradeTicks a < 3"

lemma RecordBytes_empty:
  assumes "as_bytesIn a = 0" and "as_bytesOut a = 0"
  shows "measured_tier (i64 (as_bytesIn (RecordBytes n m a) + as_bytesOut (RecordBytes n m a))) = window_tier (n, m)"
    and "as_currentTier (RecordBytes n m a) = as_currentTier a" and "as_downgradeTicks (RecordBytes n m a) = as_downgradeTicks a"
  using assms by (simp_all add: window_tier_def RecordBytes_def NewAdaptiveSelector_def Let_def)

lemma evaluate_follows:
  assumes f: "follows ms a" and ev: "evaluate reg order r (RecordBytes n m a) e = Return (a', e', r')"
  shows "follows (window_tier (n, m) # ms) a'"
proof -
  let ?t = "tier_history ms" and ?w = "window_tier (n, m)"
  have z: "as_bytesIn a = 0" "as_bytesOut a = 0" and cur: "as_currentTier a = ?t"
    and ticks: "as_downgradeTicks a = length (takeWhile (\<lambda>x. tier_rank x < tier_rank ?t) ms)" "as_downgradeTicks a < 3"
    using f by (simp_all add: follows_def)
  note rb = RecordBytes_empty [OF z]
  consider (same) "?w = ?t" | (wait) "?w \<noteq> ?t" "tier_rank ?w < tier_rank ?t" "Suc (as_downgradeTicks a) < 3"
    | (change) "?w \<noteq> ?t" "\<not> (tier_rank ?w < tier_rank ?t \<and> Suc (as_downgradeTicks a) < 3)" by blast
  then show ?thesis
  proof cases
    case same
    then have "as_bytesIn a' = 0" "as_bytesOut a' = 0" "as_currentTier a' = ?t" "as_downgradeTicks a' = 0"
      using ev by (auto simp: evaluate_def Let_def rb cur)
    then show ?thesis using same by (simp add: follows_def Let_def)
  next
    case wait
    then have "as_bytesIn a' = 0" "as_bytesOut a' = 0" "as_currentTier a' = ?t" "as_downgradeTicks a' = Suc (as_downgradeTicks a)"
      using ev by (auto simp: evaluate_def Let_def rb cur)
    then show ?thesis using wait ticks(1) by (simp add: follows_def Let_def)
  next
    case change
    then have a: "as_bytesIn a' = 0" "as_bytesOut a' = 0" "as_currentTier a' = ?w" "as_downgradeTicks a' = 0"
      using ev by (auto simp: evaluate_def Let_def rb cur obind_Return)
    have "tier_history (?w # ms) = ?w"
    proof (cases "tier_rank ?w < tier_rank ?t")
      case True
      then have "3 \<le> length (takeWhile (\<lambda>x. tier_rank x < tier_rank ?t) (?w # ms))" using change(2) ticks(1) by simp
      then show ?thesis by (simp add: Let_def)
    qed (simp add: Let_def)
    then show ?thesis using a by (simp add: follows_def)
  qed
qed

text \<open>
  Claim C11. The adaptive selector implements its specification: after any windows of recorded bytes, its tier is the one that the history of measured
  tiers gives, so a higher tier is taken at once and a lower one exactly after three measurements in a row below the current tier.
\<close>

theorem selector_follows_history:
  assumes "selector_run reg order ws (NewAdaptiveSelector, e, r) = Return (a, e', r')"
  shows "as_currentTier a = tier_history (rev (map window_tier ws)) \<and> as_downgradeTicks a < 3"
proof -
  have "follows ms a0 \<Longrightarrow> selector_run reg order ws (a0, e0, r0) = Return (a, e', r') \<Longrightarrow> follows (rev (map window_tier ws) @ ms) a" for ms a0 e0 r0
  proof (induction ws arbitrary: ms a0 e0 r0)
    case (Cons w ws)
    from Cons.prems(2) obtain a1 e1 r1 where
      v: "evaluate reg order r0 (RecordBytes (fst w) (snd w) a0) e0 = Return (a1, e1, r1)" "selector_run reg order ws (a1, e1, r1) = Return (a, e', r')"
      by (auto simp: obind_Return)
    from Cons.IH [OF evaluate_follows [OF Cons.prems(1) v(1)] v(2)] show ?case by simp
  qed simp
  from this [of "[]", OF _ assms] show ?thesis by (simp add: follows_def NewAdaptiveSelector_def)
qed

theorem selector_follows_history_witness:
  "\<exists>a e' r'. selector_run profileRegistry [''safari''] [(200000000, 0), (5, 0), (5, 0), (20000000, 0)] (NewAdaptiveSelector, demo_engine, demo_rands) = Return (a, e', r')
    \<and> as_currentTier a = TierCloudSync"
proof -
  let ?ws = "[(200000000, 0), (5, 0), (5, 0), (20000000, 0)] :: (int \<times> int) list"
  obtain a e' r' where u: "selector_run profileRegistry [''safari''] ?ws (NewAdaptiveSelector, demo_engine, demo_rands) = Return (a, e', r')"
    by (simp add: evaluate_def Let_def RecordBytes_def NewAdaptiveSelector_def measured_tier_def i64_id in_i64_def tier_rank_def tier_profile_def)
  have "map window_tier ?ws = [TierCDN, TierBrowsing, TierBrowsing, TierCloudSync]"
    by (simp add: window_tier_def RecordBytes_def NewAdaptiveSelector_def measured_tier_def i64_id in_i64_def Let_def)
  then have "tier_history (rev (map window_tier ?ws)) = TierCloudSync" by (simp add: tier_rank_def Let_def)
  then show ?thesis using selector_follows_history [OF u] u by auto
qed

end
