(* ===== verification/Dispatcher_Props.thy ===== *)
theory Dispatcher_Props
  imports Sniffing Limiter_Props Shadow_Props
begin

text \<open>
  What the dispatcher guarantees: every byte of an admitted connection is counted once for its user, the counters that are lost when two
  first connections of a node meet, what \<open>DispatchLink\<close> leaves out, that sniffing ends and loses no bytes, and the
  sniffers that are forgotten.
\<close>

section \<open>Invariant and counts\<close>

definition dd_inv :: "DefaultDispatcher \<Rightarrow> bool" where
  "dd_inv d \<longleftrightarrow> (\<forall>tag t. dd_Counter d tag = Some t \<longrightarrow> t < dd_next d)
     \<and> (\<forall>tag tag' t. dd_Counter d tag = Some t \<longrightarrow> dd_Counter d tag' = Some t \<longrightarrow> tag = tag')
     \<and> (\<forall>t. tc_inv (dd_objects d t))"

text \<open>The traffic of a user as the report of its node sees it.\<close>

definition count_of :: "direction \<Rightarrow> DefaultDispatcher \<Rightarrow> string \<Rightarrow> string \<Rightarrow> int" where
  "count_of dir d tag k =
     (case reported_counter d tag of None \<Rightarrow> 0 | Some c \<Rightarrow> (case dir of Up \<Rightarrow> GetUpCount k c | Down \<Rightarrow> GetDownCount k c))"

lemma dd_inv_less: "dd_inv d \<Longrightarrow> dd_Counter d tag = Some t \<Longrightarrow> t < dd_next d"
  by (simp add: dd_inv_def)

lemma count_of_new: "reported_counter d tag = Some NewTrafficCounter \<Longrightarrow> count_of dir d tag k = 0"
  by (simp add: count_of_def NewTrafficCounter_def GetUpCount_def GetDownCount_def split: direction.split)

lemma node_counter_inv:
  assumes "dd_inv d" and "ad_between i d = d" and "node_counter i tag d = (t, d1)"
  shows "dd_inv d1" and "dd_Counter d1 tag = Some t" and "count_of dir d1 tag' k = count_of dir d tag' k" and "dd_engines d1 = dd_engines d"
proof -
  have "dd_inv d1 \<and> dd_Counter d1 tag = Some t \<and> count_of dir d1 tag' k = count_of dir d tag' k \<and> dd_engines d1 = dd_engines d"
  proof (cases "dd_Counter d tag")
    case (Some a)
    then show ?thesis using assms by (simp add: node_counter_def)
  next
    case None
    then have d1: "t = dd_next d" "d1 = d\<lparr>dd_objects := (dd_objects d)(t := NewTrafficCounter), dd_next := Suc t, dd_Counter := (dd_Counter d)(tag \<mapsto> t)\<rparr>"
      using assms(2,3) by (auto simp: node_counter_def Let_def)
    have l: "tg \<noteq> tag \<Longrightarrow> dd_Counter d tg = Some a \<Longrightarrow> a \<noteq> t" for tg a using dd_inv_less [OF assms(1)] d1(1) by blast
    have "dd_inv d1" using assms(1) None unfolding dd_inv_def d1
      by (auto simp: tc_inv_new less_Suc_eq)
    moreover have "count_of dir d1 tag' k = count_of dir d tag' k"
    proof (cases "tag' = tag")
      case True
      then show ?thesis using None count_of_new [of d1 tag] by (simp add: reported_counter_def d1(2) count_of_def)
    next
      case False
      then have "reported_counter d1 tag' = reported_counter d tag'"
        using l by (cases "dd_Counter d tag'") (auto simp: reported_counter_def d1(2))
      then show ?thesis by (simp add: count_of_def)
    qed
    ultimately show ?thesis by (simp add: d1(2))
  qed
  then show "dd_inv d1" and "dd_Counter d1 tag = Some t" and "count_of dir d1 tag' k = count_of dir d tag' k" and "dd_engines d1 = dd_engines d" by blast+
qed

text \<open>Replacing the object of a node's counter changes the counts of that node only.\<close>

lemma count_of_object:
  assumes "dd_inv d" and "dd_Counter d tag = Some t"
  shows "count_of dir (d\<lparr>dd_objects := (dd_objects d)(t := c)\<rparr>) tag' k =
    (if tag' = tag then (case dir of Up \<Rightarrow> GetUpCount k c | Down \<Rightarrow> GetDownCount k c) else count_of dir d tag' k)"
  using assms by (auto simp: count_of_def reported_counter_def dd_inv_def split: option.splits direction.splits)

lemma dd_inv_object: "dd_inv d \<Longrightarrow> tc_inv c \<Longrightarrow> dd_inv (d\<lparr>dd_objects := (dd_objects d)(t := c)\<rparr>)"
  by (simp add: dd_inv_def)

text \<open>
  Whatever other goroutines do between the load and the store of the node's counter: after the store, the counter that is registered for
  the node is the one the connection uses.
\<close>

lemma node_counter_registers:
  assumes "dd_inv d" and "dd_inv (ad_between i d)" and "node_counter i tag d = (t, d1)"
  shows "dd_inv d1 \<and> dd_Counter d1 tag = Some t"
proof (cases "dd_Counter d tag")
  case (Some a)
  then show ?thesis using assms by (simp add: node_counter_def)
next
  case None
  let ?d = "ad_between i d"
  have d1: "t = dd_next ?d" "d1 = ?d\<lparr>dd_objects := (dd_objects ?d)(t := NewTrafficCounter), dd_next := Suc t, dd_Counter := (dd_Counter ?d)(tag \<mapsto> t)\<rparr>"
    using assms(3) None by (auto simp: node_counter_def Let_def)
  have "tg \<noteq> tag \<Longrightarrow> dd_Counter ?d tg = Some a \<Longrightarrow> a < t" for tg a using dd_inv_less [OF assms(2)] d1(1) by blast
  then show ?thesis using assms(2) unfolding dd_inv_def d1(2) by (auto simp: tc_inv_new less_Suc_eq)
qed

lemma user_counter_inv:
  assumes "dd_inv d" and "ad_between i d = d" and "user_counter i tag e d = (t, ts, d1)"
  shows "dd_inv d1 \<and> dd_Counter d1 tag = Some t \<and> tc_Counters (dd_objects d1 t) e = Some ts
    \<and> (\<forall>dir tag' k. count_of dir d1 tag' k = count_of dir d tag' k) \<and> dd_engines d1 = dd_engines d"
proof -
  obtain t0 d0 where n: "node_counter i tag d = (t0, d0)" by force
  obtain c where g: "GetCounter (ad_counterRace i) e (dd_objects d0 t0) = (ts, c)" and t: "t0 = t"
    and d1: "d1 = d0\<lparr>dd_objects := (dd_objects d0)(t := c)\<rparr>"
    using assms(3) n by (auto simp: user_counter_def split: prod.splits)
  note n0 = node_counter_inv [OF assms(1,2) n, unfolded t]
  have tc: "tc_inv (dd_objects d0 t)" using n0(1) by (simp add: dd_inv_def)
  note g0 = g [unfolded t]
  have "count_of dir d1 tag' k = count_of dir d tag' k" for dir tag' k
  proof -
    have "count_of dir d0 tag k = (case dir of Up \<Rightarrow> GetUpCount k (dd_objects d0 t) | Down \<Rightarrow> GetDownCount k (dd_objects d0 t))"
      using n0(2) by (simp add: count_of_def reported_counter_def)
    then show ?thesis
      using GetCounter_keeps_counts [OF tc g0, of k] n0(3) [of dir] unfolding d1 count_of_object [OF n0(1,2)]
      by (cases dir) (metis direction.case)+
  qed
  moreover have "dd_inv d1" unfolding d1 by (rule dd_inv_object [OF n0(1) tc_inv_GetCounter [OF tc g0]])
  ultimately show ?thesis using n0(2,4) GetCounter_registers [OF g0] by (simp add: d1)
qed

lemma user_counter_registers:
  assumes "dd_inv d" and "dd_inv (ad_between i d)" and "user_counter i tag e d = (t, ts, d1)"
  shows "dd_inv d1" and "dd_Counter d1 tag = Some t" and "tc_Counters (dd_objects d1 t) e = Some ts"
proof -
  obtain t0 d0 where n: "node_counter i tag d = (t0, d0)" by force
  obtain c where g: "GetCounter (ad_counterRace i) e (dd_objects d0 t0) = (ts, c)" and t: "t0 = t"
    and d1: "d1 = d0\<lparr>dd_objects := (dd_objects d0)(t := c)\<rparr>"
    using assms(3) n by (auto simp: user_counter_def split: prod.splits)
  note n0 = node_counter_registers [OF assms(1,2) n, unfolded t]
  note g0 = g [unfolded t]
  have "tc_inv (dd_objects d0 t)" using n0 by (simp add: dd_inv_def)
  then show "dd_inv d1" unfolding d1 using n0 by (intro dd_inv_object) (simp_all add: tc_inv_GetCounter [OF _ g0])
  show "dd_Counter d1 tag = Some t" and "tc_Counters (dd_objects d1 t) e = Some ts"
    using n0 GetCounter_registers [OF g0] by (simp_all add: d1)
qed

section \<open>Counting\<close>

lemma apply_count:
  assumes "dd_inv d" and "dd_Counter d tag = Some t" and "tc_Counters (dd_objects d t) e = Some ts"
  shows "count_of dir (apply_effect (Count t \<lparr>xv_addr = ts, xv_dir = dir'\<rparr> n) d) tag' k =
    (if tag' = tag \<and> k = e \<and> dir = dir' then i64 (count_of dir d tag e + n) else count_of dir d tag' k)"
proof -
  have tc: "tc_inv (dd_objects d t)" using assms(1) by (simp add: dd_inv_def)
  have c: "count_of dir d tag k = (case dir of Up \<Rightarrow> GetUpCount k (dd_objects d t) | Down \<Rightarrow> GetDownCount k (dd_objects d t))" for dir k
    using assms(2) by (simp add: count_of_def reported_counter_def)
  show ?thesis
    unfolding apply_effect.simps count_of_object [OF assms(1,2)]
    by (cases dir'; cases dir) (simp_all add: xtc_Add_def Let_def c up_add_counts [OF tc assms(3)] down_add_counts [OF tc assms(3)])
qed

lemma limited_writes:
  "fold apply_effect (write_effects sh (rate_limited w (PipeWriter p opt)) n) d = d"
  "write_effects sh (rate_limited w (PipeWriter p opt)) n = (case w of None \<Rightarrow> [] | Some b \<Rightarrow> [WaitFor b n]) @ [Pass p n]"
  "passed_on sh (rate_limited w (PipeWriter p opt)) n = n"
  by (simp_all add: rate_limited_def split: option.split)

lemma count_of_fields: "dd_Counter d' = dd_Counter d \<Longrightarrow> dd_objects d' = dd_objects d \<Longrightarrow> count_of dir d' = count_of dir d"
  by (intro ext) (simp add: count_of_def reported_counter_def)

text \<open>Shaping only puts one more layer around the writers, and leaves the counters alone.\<close>

fun is_shape :: "layer_effect \<Rightarrow> bool" where
  "is_shape (Shape e dir n) = True"
| "is_shape _ = False"

lemma is_shape_apply: "list_all is_shape sh \<Longrightarrow> fold apply_effect sh d = d"
proof (induction sh)
  case (Cons x sh)
  then show ?case by (cases x) simp_all
qed simp

lemma shaped_layer:
  assumes "v = w \<or> (\<exists>a dir. v = ShapedBufWriter w a dir)" and "\<And>k. passed_on sh w k = k"
  shows "fold apply_effect (write_effects sh v n) = fold apply_effect (write_effects sh w (passed_on sh v n))"
    and "\<exists>ls. list_all is_shape ls \<and> write_effects sh v n = ls @ write_effects sh w (passed_on sh v n)"
proof -
  show l: "\<exists>ls. list_all is_shape ls \<and> write_effects sh v n = ls @ write_effects sh w (passed_on sh v n)"
    using assms(1)
  proof
    assume "v = w"
    then show ?thesis using assms(2) by (intro exI [of _ "[]"]) simp
  next
    assume "\<exists>a dir. v = ShapedBufWriter w a dir"
    then obtain a dir where "v = ShapedBufWriter w a dir" by blast
    then show ?thesis using assms(2) by (intro exI [of _ "[Shape a dir n]"]) simp
  qed
  then show "fold apply_effect (write_effects sh v n) = fold apply_effect (write_effects sh w (passed_on sh v n))"
    using is_shape_apply by (auto intro!: ext)
qed

lemma shape_links_writers:
  assumes "shape_links i inb (inl, outl) d = ((inl1, outl1), inb1, d1)"
  shows "lk_Writer inl1 = lk_Writer inl \<or> (\<exists>a dir. lk_Writer inl1 = ShapedBufWriter (lk_Writer inl) a dir)"
    and "lk_Writer outl1 = lk_Writer outl \<or> (\<exists>a dir. lk_Writer outl1 = ShapedBufWriter (lk_Writer outl) a dir)"
    and "inb = Some s \<Longrightarrow> \<not> sublist ''shadowflow'' (in_Tag s) \<Longrightarrow> inl1 = inl \<and> outl1 = outl"
    and "dd_Counter d1 = dd_Counter d" and "dd_objects d1 = dd_objects d" and "dd_next d1 = dd_next d"
proof -
  have "dd_Counter d1 = dd_Counter d \<and> dd_objects d1 = dd_objects d \<and> dd_next d1 = dd_next d"
    using assms by (auto simp: shape_links_def tag_engine_def Let_def split: option.splits if_splits prod.splits)
  then show "dd_Counter d1 = dd_Counter d" "dd_objects d1 = dd_objects d" "dd_next d1 = dd_next d" by simp_all
  show "lk_Writer inl1 = lk_Writer inl \<or> (\<exists>a dir. lk_Writer inl1 = ShapedBufWriter (lk_Writer inl) a dir)"
    "lk_Writer outl1 = lk_Writer outl \<or> (\<exists>a dir. lk_Writer outl1 = ShapedBufWriter (lk_Writer outl) a dir)"
    using assms by (auto simp: shape_links_def split: option.splits if_splits prod.splits)
  show "inb = Some s \<Longrightarrow> \<not> sublist ''shadowflow'' (in_Tag s) \<Longrightarrow> inl1 = inl \<and> outl1 = outl"
    using assms by (simp add: shape_links_def)
qed


text \<open>An admitted connection of a user has a counter of that user around both writers.\<close>

lemma getLink_admitted:
  assumes "limited_user inb = Some (s, e)" and "getLink i inb lims d = (Inr (inl, outl), inb', lims', d')"
  shows "\<exists>w l l1 t ts d1. lims (in_Tag s) = Some l \<and> CheckLimit (ad_now i) (ad_race i) e (in_Source s) (in_TCP s) l = ((w, False), l1)
    \<and> user_counter i (in_Tag s) e d = (t, ts, d1)
    \<and> shape_links i (Some (no_splice w s))
        (\<lparr>lk_Reader = PipeReader Downlink (pipe_limit inb), lk_Writer = SizeStatWriter t \<lparr>xv_addr = ts, xv_dir = Up\<rparr> (rate_limited w (PipeWriter Uplink (pipe_limit inb)))\<rparr>,
         \<lparr>lk_Reader = PipeReader Uplink (pipe_limit inb), lk_Writer = SizeStatWriter t \<lparr>xv_addr = ts, xv_dir = Down\<rparr> (rate_limited w (PipeWriter Downlink (pipe_limit inb)))\<rparr>) d1
      = ((inl, outl), inb', d')"
proof -
  obtain l where l: "lims (in_Tag s) = Some l" using assms by (cases "lims (in_Tag s)") (simp_all add: getLink_def Let_def)
  obtain w rej l1 where c: "CheckLimit (ad_now i) (ad_race i) e (in_Source s) (in_TCP s) l = ((w, rej), l1)" by (metis surj_pair)
  have rej: "\<not> rej" using assms l c by (auto simp: getLink_def Let_def)
  obtain t ts d1 where u: "user_counter i (in_Tag s) e d = (t, ts, d1)" by (rule prod_cases3)
  have "shape_links i (Some (no_splice w s))
        (\<lparr>lk_Reader = PipeReader Downlink (pipe_limit inb), lk_Writer = SizeStatWriter t \<lparr>xv_addr = ts, xv_dir = Up\<rparr> (rate_limited w (PipeWriter Uplink (pipe_limit inb)))\<rparr>,
         \<lparr>lk_Reader = PipeReader Uplink (pipe_limit inb), lk_Writer = SizeStatWriter t \<lparr>xv_addr = ts, xv_dir = Down\<rparr> (rate_limited w (PipeWriter Downlink (pipe_limit inb)))\<rparr>) d1
      = ((inl, outl), inb', d')"
    using assms rej by (simp add: getLink_def Let_def l c u split: prod.splits)
  moreover have "CheckLimit (ad_now i) (ad_race i) e (in_Source s) (in_TCP s) l = ((w, False), l1)" using c rej by simp
  ultimately show ?thesis using l u by blast
qed

fun is_pass :: "layer_effect \<Rightarrow> bool" where
  "is_pass (Pass p n) = True"
| "is_pass (PassLink n) = True"
| "is_pass _ = False"

lemma shapes_do_not_pass: "list_all is_shape sh \<Longrightarrow> filter is_pass sh = []"
proof (induction sh)
  case (Cons x sh)
  then show ?case by (cases x) simp_all
qed simp

lemma getLink_accounts:
  assumes "dd_inv d" and "dd_inv (ad_between i d)" and "limited_user inb = Some (s, e)"
    and "getLink i inb lims d = (Inr (inl, outl), inb', lims', d')"
  shows "(ad_between i d = d \<longrightarrow> count_of dir d' tag k = count_of dir d tag k)
    \<and> count_of dir (fold apply_effect (write_effects sh (lk_Writer inl) n) d') tag k =
        (if tag = in_Tag s \<and> k = e \<and> dir = Up then i64 (count_of dir d' tag k + passed_on sh (lk_Writer inl) n) else count_of dir d' tag k)
    \<and> count_of dir (fold apply_effect (write_effects sh (lk_Writer outl) n) d') tag k =
        (if tag = in_Tag s \<and> k = e \<and> dir = Down then i64 (count_of dir d' tag k + passed_on sh (lk_Writer outl) n) else count_of dir d' tag k)
    \<and> filter is_pass (write_effects sh (lk_Writer inl) n) = [Pass Uplink (passed_on sh (lk_Writer inl) n)]
    \<and> filter is_pass (write_effects sh (lk_Writer outl) n) = [Pass Downlink (passed_on sh (lk_Writer outl) n)]
    \<and> (\<not> sublist ''shadowflow'' (in_Tag s) \<longrightarrow> passed_on sh (lk_Writer inl) n = n \<and> passed_on sh (lk_Writer outl) n = n)"
proof -
  from getLink_admitted [OF assms(3,4)] obtain w l l1 t ts d1 where
    u: "user_counter i (in_Tag s) e d = (t, ts, d1)" and
    sh: "shape_links i (Some (no_splice w s))
        (\<lparr>lk_Reader = PipeReader Downlink (pipe_limit inb), lk_Writer = SizeStatWriter t \<lparr>xv_addr = ts, xv_dir = Up\<rparr> (rate_limited w (PipeWriter Uplink (pipe_limit inb)))\<rparr>,
         \<lparr>lk_Reader = PipeReader Uplink (pipe_limit inb), lk_Writer = SizeStatWriter t \<lparr>xv_addr = ts, xv_dir = Down\<rparr> (rate_limited w (PipeWriter Downlink (pipe_limit inb)))\<rparr>) d1
      = ((inl, outl), inb', d')" by blast
  note ui = user_counter_registers [OF assms(1,2) u]
  note w = shape_links_writers [OF sh]
  have d': "dd_inv d'" "dd_Counter d' (in_Tag s) = Some t" "tc_Counters (dd_objects d' t) e = Some ts"
    using ui w(4-6) by (simp_all add: dd_inv_def)
  have same_counts: "ad_between i d = d \<longrightarrow> count_of dir d' tag k = count_of dir d tag k"
    using user_counter_inv [OF assms(1) _ u] count_of_fields [OF w(4,5)] by simp
  note a = apply_count [OF d']
  define m where "m = passed_on sh (lk_Writer inl) n"
  define m' where "m' = passed_on sh (lk_Writer outl) n"
  note l1 = shaped_layer [OF w(1), of sh, simplified, OF limited_writes(3), of n, folded m_def]
  note l2 = shaped_layer [OF w(2), of sh, simplified, OF limited_writes(3), of n, folded m'_def]
  obtain s1 where s1: "list_all is_shape s1" "write_effects sh (lk_Writer inl) n =
      s1 @ Count t \<lparr>xv_addr = ts, xv_dir = Up\<rparr> m # (case w of None \<Rightarrow> [] | Some b \<Rightarrow> [WaitFor b m]) @ [Pass Uplink m]"
    using l1(2) by (auto simp: limited_writes)
  obtain s2 where s2: "list_all is_shape s2" "write_effects sh (lk_Writer outl) n =
      s2 @ Count t \<lparr>xv_addr = ts, xv_dir = Down\<rparr> m' # (case w of None \<Rightarrow> [] | Some b \<Rightarrow> [WaitFor b m']) @ [Pass Downlink m']"
    using l2(2) by (auto simp: limited_writes)
  have p: "filter is_pass (write_effects sh (lk_Writer inl) n) = [Pass Uplink m]" "filter is_pass (write_effects sh (lk_Writer outl) n) = [Pass Downlink m']"
    unfolding s1(2) s2(2) by (simp_all add: shapes_do_not_pass s1(1) s2(1) split: option.split)
  have f: "fold apply_effect (write_effects sh (lk_Writer inl) n) d' = apply_effect (Count t \<lparr>xv_addr = ts, xv_dir = Up\<rparr> m) d'"
    "fold apply_effect (write_effects sh (lk_Writer outl) n) d' = apply_effect (Count t \<lparr>xv_addr = ts, xv_dir = Down\<rparr> m') d'"
    unfolding s1(2) s2(2) by (simp_all add: is_shape_apply s1(1) s2(1) split: option.split del: apply_effect.simps(1))
  have same: "m = n \<and> m' = n" if "\<not> sublist ''shadowflow'' (in_Tag s)"
    using w(3) [of "no_splice w s"] that by (simp add: m_def m'_def no_splice_def limited_writes(3) split: option.splits)
  show ?thesis unfolding m_def [symmetric] m'_def [symmetric] using f p same same_counts by (simp add: a del: apply_effect.simps)
qed

lemma wrapLink_accounts:
  assumes "dd_inv d" and "dd_inv (ad_between i d)" and "limited_user inb = Some (s, e)"
    and "wrapLink i inb lims d = (Inr lk, inb', lims', d')"
  shows "(ad_between i d = d \<longrightarrow> count_of dir d' tag k = count_of dir d tag k)
    \<and> count_of dir (fold apply_effect (read_effects (lk_Reader lk) n) d') tag k =
        (if tag = in_Tag s \<and> k = e \<and> dir = Up \<and> 0 < n then i64 (count_of dir d' tag k + n) else count_of dir d' tag k)
    \<and> count_of dir (fold apply_effect (write_effects sh (lk_Writer lk) n) d') tag k =
        (if tag = in_Tag s \<and> k = e \<and> dir = Down then i64 (count_of dir d' tag k + n) else count_of dir d' tag k)
    \<and> filter is_pass (read_effects (lk_Reader lk) n) = [PassLink n] \<and> filter is_pass (write_effects sh (lk_Writer lk) n) = [PassLink n]"
proof -
  from assms(3,4) obtain w t ts where u: "user_counter i (in_Tag s) e d = (t, ts, d')"
    and lk: "lk = \<lparr>lk_Reader = CounterReader LinkReader t ts, lk_Writer = SizeStatWriter t \<lparr>xv_addr = ts, xv_dir = Down\<rparr> (rate_limited w LinkWriter)\<rparr>"
    by (auto simp: wrapLink_def Let_def split: option.splits prod.splits if_splits)
  have same_counts: "ad_between i d = d \<longrightarrow> count_of dir d' tag k = count_of dir d tag k"
    using user_counter_inv [OF assms(1) _ u] by simp
  note a = apply_count [OF user_counter_registers [OF assms(1,2) u]]
  have f: "fold apply_effect (write_effects sh (lk_Writer lk) n) d' = apply_effect (Count t \<lparr>xv_addr = ts, xv_dir = Down\<rparr> n) d'"
    "fold apply_effect (read_effects (lk_Reader lk) n) d' = (if 0 < n then apply_effect (Count t \<lparr>xv_addr = ts, xv_dir = Up\<rparr> n) d' else d')"
    by (simp_all add: lk rate_limited_def split: option.split del: apply_effect.simps(1))
  have p: "filter is_pass (read_effects (lk_Reader lk) n) = [PassLink n]" "filter is_pass (write_effects sh (lk_Writer lk) n) = [PassLink n]"
    by (simp_all add: lk rate_limited_def split: option.split)
  show ?thesis using f p same_counts by (simp add: a del: apply_effect.simps)
qed

text \<open>
  Claim C5. Every byte that an admitted connection of a user passes on is counted exactly once, for that user on its node and in its
  direction. For the links of \<open>getLink\<close>: a write into the link of the inbound adds to the upload of the user the bytes that reach the
  pipe and changes no other count, a write into the link of the outbound the same for the download, whatever limits lie around the
  pipe, and the bytes pass into the right pipe once; on a node without camouflage these are the bytes that were written, with
  camouflage they are what the shaping makes of them (\<open>sh\<close>, any function), padding included. For the link of \<open>DispatchLink\<close>: what is
  read from it is counted as upload, what is written to it as download. The counter meant is the one registered for the node when the
  admission ends, whatever other goroutines did in between; admission itself changes no count if nothing happened between the load
  and the store of that counter. A first connection of the node that races with this one can replace the counter afterwards;
  what is then counted is not reported (\<open>first_connections_race\<close>).
\<close>

theorem link_accounts:
  assumes "dd_inv d" and "dd_inv (ad_between i d)" and "limited_user inb = Some (s, e)"
  shows "(\<forall>inl outl inb' lims' d'. getLink i inb lims d = (Inr (inl, outl), inb', lims', d') \<longrightarrow>
      (ad_between i d = d \<longrightarrow> count_of dir d' tag k = count_of dir d tag k)
    \<and> count_of dir (fold apply_effect (write_effects sh (lk_Writer inl) n) d') tag k =
        (if tag = in_Tag s \<and> k = e \<and> dir = Up then i64 (count_of dir d' tag k + passed_on sh (lk_Writer inl) n) else count_of dir d' tag k)
    \<and> count_of dir (fold apply_effect (write_effects sh (lk_Writer outl) n) d') tag k =
        (if tag = in_Tag s \<and> k = e \<and> dir = Down then i64 (count_of dir d' tag k + passed_on sh (lk_Writer outl) n) else count_of dir d' tag k)
    \<and> filter is_pass (write_effects sh (lk_Writer inl) n) = [Pass Uplink (passed_on sh (lk_Writer inl) n)]
    \<and> filter is_pass (write_effects sh (lk_Writer outl) n) = [Pass Downlink (passed_on sh (lk_Writer outl) n)]
    \<and> (\<not> sublist ''shadowflow'' (in_Tag s) \<longrightarrow> passed_on sh (lk_Writer inl) n = n \<and> passed_on sh (lk_Writer outl) n = n))
  \<and> (\<forall>lk inb' lims' d'. wrapLink i inb lims d = (Inr lk, inb', lims', d') \<longrightarrow>
      (ad_between i d = d \<longrightarrow> count_of dir d' tag k = count_of dir d tag k)
    \<and> count_of dir (fold apply_effect (read_effects (lk_Reader lk) n) d') tag k =
        (if tag = in_Tag s \<and> k = e \<and> dir = Up \<and> 0 < n then i64 (count_of dir d' tag k + n) else count_of dir d' tag k)
    \<and> count_of dir (fold apply_effect (write_effects sh (lk_Writer lk) n) d') tag k =
        (if tag = in_Tag s \<and> k = e \<and> dir = Down then i64 (count_of dir d' tag k + n) else count_of dir d' tag k)
    \<and> filter is_pass (read_effects (lk_Reader lk) n) = [PassLink n] \<and> filter is_pass (write_effects sh (lk_Writer lk) n) = [PassLink n])"
  by (intro conjI allI impI getLink_accounts [OF assms] wrapLink_accounts [OF assms])

definition empty_dispatcher :: DefaultDispatcher where
  "empty_dispatcher = \<lparr>dd_Counter = Map.empty, dd_objects = (\<lambda>t. NewTrafficCounter), dd_next = 0, dd_engines = Map.empty,
     dd_engineObjects = (\<lambda>a. demo_engine), dd_nextEngine = 0, dd_profiles = profileRegistry\<rparr>"

definition quiet_input :: admission_input where
  "quiet_input = \<lparr>ad_now = 0, ad_race = None, ad_counterRace = False, ad_between = id, ad_nodeConfig = Map.empty, ad_files = demo_files\<rparr>"

definition demo_inbound :: "string \<Rightarrow> Inbound" where
  "demo_inbound tag = \<lparr>in_Tag = tag, in_Name = ''vless'', in_Source = ''9.9.9.9'', in_TCP = False, in_Email = Some ''t|u1'', in_Conn = True, in_CanSpliceCopy = 0\<rparr>"

lemma empty_dispatcher_inv: "dd_inv empty_dispatcher"
  by (simp add: dd_inv_def empty_dispatcher_def tc_inv_new)

lemma demo_admitted: "\<exists>l1. CheckLimit 0 None ''t|u1'' ''9.9.9.9'' False demo_limiter = ((None, False), l1)"
  by (simp add: CheckLimit_def Let_def demo_limiter_fields effective_user_limit_def checks_devices_def user_bucket_def
      bytes_per_second_def determineSpeedLimit_def go_div_def)

lemma demo_getLink:
  assumes "ad_now i = 0" and "ad_race i = None"
  shows "\<exists>inl outl inb' lims' d'. getLink i (Some (demo_inbound tag)) [tag \<mapsto> demo_limiter] d = (Inr (inl, outl), inb', lims', d')"
proof -
  obtain l1 where l1: "CheckLimit 0 None ''t|u1'' ''9.9.9.9'' False demo_limiter = ((None, False), l1)" using demo_admitted by blast
  obtain t ts d1 where u: "user_counter i tag ''t|u1'' d = (t, ts, d1)" by (rule prod_cases3)
  show ?thesis
    by (simp add: getLink_def Let_def limited_user_def demo_inbound_def l1 u assms split: prod.split)
qed

definition same_lengths :: shaped_lengths where
  "same_lengths k dir n = n"

lemma demo_wrapLink:
  "\<exists>lk inb' lims' d'. wrapLink quiet_input (Some (demo_inbound tag)) [tag \<mapsto> demo_limiter] d = (Inr lk, inb', lims', d')"
proof -
  obtain l1 where l1: "CheckLimit 0 None ''t|u1'' ''9.9.9.9'' False demo_limiter = ((None, False), l1)" using demo_admitted by blast
  obtain t ts d1 where u: "user_counter quiet_input tag ''t|u1'' d = (t, ts, d1)" by (rule prod_cases3)
  show ?thesis using l1 u by (simp add: wrapLink_def Let_def limited_user_def demo_inbound_def quiet_input_def)
qed

theorem link_accounts_witness:
  "(\<exists>inl outl inb' lims' d'. getLink quiet_input (Some (demo_inbound ''t'')) [''t'' \<mapsto> demo_limiter] empty_dispatcher = (Inr (inl, outl), inb', lims', d')
     \<and> count_of Up (fold apply_effect (write_effects same_lengths (lk_Writer inl) 100) d') ''t'' ''t|u1'' = 100
     \<and> count_of Down (fold apply_effect (write_effects same_lengths (lk_Writer inl) 100) d') ''t'' ''t|u1'' = 0)
   \<and> (\<exists>lk inb' lims' d'. wrapLink quiet_input (Some (demo_inbound ''t'')) [''t'' \<mapsto> demo_limiter] empty_dispatcher = (Inr lk, inb', lims', d')
     \<and> count_of Up (fold apply_effect (read_effects (lk_Reader lk) 100) d') ''t'' ''t|u1'' = 100)"
proof -
  obtain inl outl inb' lims' d' where g: "getLink quiet_input (Some (demo_inbound ''t'')) [''t'' \<mapsto> demo_limiter] empty_dispatcher = (Inr (inl, outl), inb', lims', d')"
    using demo_getLink [of quiet_input "''t''" empty_dispatcher] by (auto simp: quiet_input_def)
  obtain lk inb2 lims2 d2 where wr: "wrapLink quiet_input (Some (demo_inbound ''t'')) [''t'' \<mapsto> demo_limiter] empty_dispatcher = (Inr lk, inb2, lims2, d2)"
    using demo_wrapLink by blast
  have b: "ad_between quiet_input empty_dispatcher = empty_dispatcher" by (simp add: quiet_input_def)
  have bi: "dd_inv (ad_between quiet_input empty_dispatcher)" by (simp add: b empty_dispatcher_inv)
  have u: "limited_user (Some (demo_inbound ''t'')) = Some (demo_inbound ''t'', ''t|u1'')" by (simp add: limited_user_def demo_inbound_def)
  have n: "\<not> sublist ''shadowflow'' ''t''" by (simp add: sublist_code)
  have z: "count_of dir empty_dispatcher tg k = 0" for dir tg k by (simp add: count_of_def reported_counter_def empty_dispatcher_def)
  have i: "i64 100 = 100" by (simp add: i64_id in_i64_def)
  note acc = link_accounts [OF empty_dispatcher_inv bi u, of "[''t'' \<mapsto> demo_limiter]" _ "''t''" "''t|u1''" same_lengths 100]
  note gl = acc [THEN conjunct1, rule_format, OF g]
  note wl = acc [THEN conjunct2, rule_format, OF wr]
  have "count_of Up (fold apply_effect (write_effects same_lengths (lk_Writer inl) 100) d') ''t'' ''t|u1'' = 100"
    "count_of Down (fold apply_effect (write_effects same_lengths (lk_Writer inl) 100) d') ''t'' ''t|u1'' = 0"
    using gl [of Up] gl [of Down] n by (simp_all add: b z i demo_inbound_def)
  moreover have "count_of Up (fold apply_effect (read_effects (lk_Reader lk) 100) d2) ''t'' ''t|u1'' = 100"
    using wl [of Up] by (simp add: b z i demo_inbound_def)
  ultimately show ?thesis using g wr by blast
qed

section \<open>Two first connections\<close>

lemma node_counter_address: "node_counter i tag d = (t, d1) \<Longrightarrow> dd_Counter d1 tag = Some t"
  by (auto simp: node_counter_def Let_def split: option.splits)

lemma user_counter_address:
  assumes "user_counter i tag e d = (t, ts, d1)"
  shows "dd_Counter d1 tag = Some t"
  using assms node_counter_address [of i tag d] by (auto simp: user_counter_def split: prod.splits)

lemma getLink_counts_at:
  assumes "limited_user inb = Some (s, e)" and "getLink i inb lims d = (Inr (inl, outl), inb', lims', d')"
  shows "\<exists>t ts. dd_Counter d' (in_Tag s) = Some t
    \<and> (\<forall>sh n x. \<exists>m. fold apply_effect (write_effects sh (lk_Writer inl) n) x = apply_effect (Count t \<lparr>xv_addr = ts, xv_dir = Up\<rparr> m) x)
    \<and> (\<forall>sh n x. \<exists>m. fold apply_effect (write_effects sh (lk_Writer outl) n) x = apply_effect (Count t \<lparr>xv_addr = ts, xv_dir = Down\<rparr> m) x)"
proof -
  from getLink_admitted [OF assms] obtain w l l1 t ts d1 where
    u: "user_counter i (in_Tag s) e d = (t, ts, d1)" and
    sh: "shape_links i (Some (no_splice w s))
        (\<lparr>lk_Reader = PipeReader Downlink (pipe_limit inb), lk_Writer = SizeStatWriter t \<lparr>xv_addr = ts, xv_dir = Up\<rparr> (rate_limited w (PipeWriter Uplink (pipe_limit inb)))\<rparr>,
         \<lparr>lk_Reader = PipeReader Uplink (pipe_limit inb), lk_Writer = SizeStatWriter t \<lparr>xv_addr = ts, xv_dir = Down\<rparr> (rate_limited w (PipeWriter Downlink (pipe_limit inb)))\<rparr>) d1
      = ((inl, outl), inb', d')" by blast
  note w = shape_links_writers [OF sh]
  have "dd_Counter d' (in_Tag s) = Some t" using user_counter_address [OF u] w(4) by simp
  moreover have "\<exists>m. fold apply_effect (write_effects f (lk_Writer inl) n) x = apply_effect (Count t \<lparr>xv_addr = ts, xv_dir = Up\<rparr> m) x" for f n x
    using shaped_layer(1) [OF w(1), of f, simplified, OF limited_writes(3), of n]
    by (intro exI [of _ "passed_on f (lk_Writer inl) n"]) (simp add: limited_writes(1) del: apply_effect.simps)
  moreover have "\<exists>m. fold apply_effect (write_effects f (lk_Writer outl) n) x = apply_effect (Count t \<lparr>xv_addr = ts, xv_dir = Down\<rparr> m) x" for f n x
    using shaped_layer(1) [OF w(2), of f, simplified, OF limited_writes(3), of n]
    by (intro exI [of _ "passed_on f (lk_Writer outl) n"]) (simp add: limited_writes(1) del: apply_effect.simps)
  ultimately show ?thesis by blast
qed

lemma getLink_inv:
  assumes "dd_inv d" and "ad_between i d = d" and "limited_user inb = Some (s, e)" and "getLink i inb lims d = (Inr (inl, outl), inb', lims', d')"
  shows "dd_inv d'"
proof -
  from getLink_admitted [OF assms(3,4)] obtain w l l1 t ts d1 where
    u: "user_counter i (in_Tag s) e d = (t, ts, d1)" and
    sh: "shape_links i (Some (no_splice w s))
        (\<lparr>lk_Reader = PipeReader Downlink (pipe_limit inb), lk_Writer = SizeStatWriter t \<lparr>xv_addr = ts, xv_dir = Up\<rparr> (rate_limited w (PipeWriter Uplink (pipe_limit inb)))\<rparr>,
         \<lparr>lk_Reader = PipeReader Uplink (pipe_limit inb), lk_Writer = SizeStatWriter t \<lparr>xv_addr = ts, xv_dir = Down\<rparr> (rate_limited w (PipeWriter Downlink (pipe_limit inb)))\<rparr>) d1
      = ((inl, outl), inb', d')" by blast
  show ?thesis using user_counter_inv [OF assms(1,2) u] shape_links_writers(4-6) [OF sh] by (simp add: dd_inv_def)
qed

text \<open>
  When two first connections of a node meet, the traffic of one is lost: the second connection is admitted completely between the
  load and the store of the first, which then stores a new counter over the second's. Whatever the second connection
  transfers afterwards changes no count that a report of any node reads.
\<close>

theorem first_connections_race:
  assumes "dd_inv d" and "dd_Counter d tag = None" and "ad_between j d = d"
    and "limited_user inb2 = Some (s2, e2)" and "in_Tag s2 = tag" and "getLink j inb2 lims2 d = (Inr (inl2, outl2), inb2', lims2', d2)"
    and "limited_user inb1 = Some (s1, e1)" and "in_Tag s1 = tag" and "ad_between i d = d2"
    and "getLink i inb1 lims1 d = (Inr (inl1, outl1), inb1', lims1', d1)"
  shows "count_of dir (fold apply_effect (write_effects sh (lk_Writer inl2) n) d1) tag' k = count_of dir d1 tag' k
    \<and> count_of dir (fold apply_effect (write_effects sh (lk_Writer outl2) n) d1) tag' k = count_of dir d1 tag' k"
proof -
  obtain t2 ts2 where t2: "dd_Counter d2 tag = Some t2"
    "\<forall>sh n x. \<exists>m. fold apply_effect (write_effects sh (lk_Writer inl2) n) x = apply_effect (Count t2 \<lparr>xv_addr = ts2, xv_dir = Up\<rparr> m) x"
    "\<forall>sh n x. \<exists>m. fold apply_effect (write_effects sh (lk_Writer outl2) n) x = apply_effect (Count t2 \<lparr>xv_addr = ts2, xv_dir = Down\<rparr> m) x"
    using getLink_counts_at [OF assms(4,6)] assms(5) by blast
  have inv2: "dd_inv d2" by (rule getLink_inv [OF assms(1,3,4,6)])
  from getLink_admitted [OF assms(7,10)] obtain w l l1 t ts d3 where
    u: "user_counter i tag e1 d = (t, ts, d3)" and
    sh: "shape_links i (Some (no_splice w s1))
        (\<lparr>lk_Reader = PipeReader Downlink (pipe_limit inb1), lk_Writer = SizeStatWriter t \<lparr>xv_addr = ts, xv_dir = Up\<rparr> (rate_limited w (PipeWriter Uplink (pipe_limit inb1)))\<rparr>,
         \<lparr>lk_Reader = PipeReader Uplink (pipe_limit inb1), lk_Writer = SizeStatWriter t \<lparr>xv_addr = ts, xv_dir = Down\<rparr> (rate_limited w (PipeWriter Downlink (pipe_limit inb1)))\<rparr>) d3
      = ((inl1, outl1), inb1', d1)" using assms(8) by blast
  have c1: "t = dd_next d2" "dd_Counter d1 = (dd_Counter d2)(tag \<mapsto> t)"
    using u assms(2,9) shape_links_writers(4) [OF sh] by (auto simp: user_counter_def node_counter_def Let_def split: prod.splits)
  have "dd_Counter d1 tg \<noteq> Some t2" for tg
  proof (cases "tg = tag")
    case True
    then show ?thesis using dd_inv_less [OF inv2 t2(1)] c1 by simp
  next
    case False
    then show ?thesis using inv2 t2(1) c1(2) unfolding dd_inv_def by (metis fun_upd_apply)
  qed
  then have "count_of dir (d1\<lparr>dd_objects := (dd_objects d1)(t2 := c)\<rparr>) tag' k = count_of dir d1 tag' k" for c
    by (cases "dd_Counter d1 tag'") (auto simp: count_of_def reported_counter_def)
  then have c2: "count_of dir (apply_effect (Count t2 x m) d1) tag' k = count_of dir d1 tag' k" for x m by simp
  obtain m m' where "fold apply_effect (write_effects sh (lk_Writer inl2) n) d1 = apply_effect (Count t2 \<lparr>xv_addr = ts2, xv_dir = Up\<rparr> m) d1"
    "fold apply_effect (write_effects sh (lk_Writer outl2) n) d1 = apply_effect (Count t2 \<lparr>xv_addr = ts2, xv_dir = Down\<rparr> m') d1"
    using t2(2,3) by blast
  then show ?thesis by (simp only: c2)
qed

theorem first_connections_race_witness:
  "\<exists>inl2 outl2 d1 d2. snd (snd (snd (getLink quiet_input (Some (demo_inbound ''t'')) [''t'' \<mapsto> demo_limiter] empty_dispatcher))) = d2
    \<and> snd (snd (snd (getLink (quiet_input\<lparr>ad_between := (\<lambda>x. d2)\<rparr>) (Some (demo_inbound ''t'')) [''t'' \<mapsto> demo_limiter] empty_dispatcher))) = d1
    \<and> count_of Up (fold apply_effect (write_effects same_lengths (lk_Writer inl2) 100) d1) ''t'' ''t|u1'' = count_of Up d1 ''t'' ''t|u1''
    \<and> fst (getLink quiet_input (Some (demo_inbound ''t'')) [''t'' \<mapsto> demo_limiter] empty_dispatcher) = Inr (inl2, outl2)"
proof -
  obtain inl2 outl2 i2 l2 d2 where g2: "getLink quiet_input (Some (demo_inbound ''t'')) [''t'' \<mapsto> demo_limiter] empty_dispatcher = (Inr (inl2, outl2), i2, l2, d2)"
    using demo_getLink [of quiet_input "''t''" empty_dispatcher] by (auto simp: quiet_input_def)
  let ?i = "quiet_input\<lparr>ad_between := (\<lambda>x. d2)\<rparr>"
  obtain inl1 outl1 i1 l1 d1 where g1: "getLink ?i (Some (demo_inbound ''t'')) [''t'' \<mapsto> demo_limiter] empty_dispatcher = (Inr (inl1, outl1), i1, l1, d1)"
    using demo_getLink [of ?i "''t''" empty_dispatcher] by (auto simp: quiet_input_def)
  have u: "limited_user (Some (demo_inbound ''t'')) = Some (demo_inbound ''t'', ''t|u1'')" by (simp add: limited_user_def demo_inbound_def)
  have "count_of Up (fold apply_effect (write_effects same_lengths (lk_Writer inl2) 100) d1) ''t'' ''t|u1'' = count_of Up d1 ''t'' ''t|u1''"
    using first_connections_race [OF empty_dispatcher_inv _ _ u _ g2 u _ _ g1, of "''t''" Up same_lengths 100 "''t''" "''t|u1''"]
    by (simp add: quiet_input_def empty_dispatcher_def demo_inbound_def)
  then show ?thesis using g1 g2 by (intro exI [of _ inl2] exI [of _ outl2] exI [of _ d1] exI [of _ d2]) simp
qed

section \<open>Links that the inbound made\<close>

text \<open>
  A connection that an inbound dispatches with a link of its own, as those of VLESS do, has no limit on its upload and is never
  shaped, whatever the limit of the user and the tag of the node are: reading only counts, and no layer of the link shapes.
\<close>

theorem own_links_unlimited_upload:
  assumes "wrapLink i inb lims d = (Inr lk, inb', lims', d')"
  shows "(\<forall>x \<in> set (read_effects (lk_Reader lk) n). \<forall>b m. x \<noteq> WaitFor b m) \<and> \<not> list_ex is_shape (read_effects (lk_Reader lk) n @ write_effects sh (lk_Writer lk) n)"
proof -
  have "lk_Reader lk = LinkReader \<and> lk_Writer lk = LinkWriter
      \<or> (\<exists>t ts w. lk_Reader lk = CounterReader LinkReader t ts \<and> lk_Writer lk = SizeStatWriter t \<lparr>xv_addr = ts, xv_dir = Down\<rparr> (rate_limited w LinkWriter))"
    using assms by (auto simp: wrapLink_def Let_def split: option.splits prod.splits if_splits)
  then show ?thesis by (auto simp: rate_limited_def split: option.splits)
qed

theorem own_links_unlimited_upload_witness:
  "\<exists>lk inb' lims' d'. wrapLink quiet_input (Some (demo_inbound ''shadowflow'')) [''shadowflow'' \<mapsto> demo_limiter] empty_dispatcher = (Inr lk, inb', lims', d')
    \<and> \<not> list_ex is_shape (read_effects (lk_Reader lk) 5 @ write_effects same_lengths (lk_Writer lk) 5)"
proof -
  obtain lk inb' lims' d' where w: "wrapLink quiet_input (Some (demo_inbound ''shadowflow'')) [''shadowflow'' \<mapsto> demo_limiter] empty_dispatcher = (Inr lk, inb', lims', d')"
    using demo_wrapLink by blast
  then show ?thesis using own_links_unlimited_upload [OF w, of 5 same_lengths] by blast
qed

section \<open>Sniffing\<close>

lemma sniff_round_pending:
  "sniff_round skip (\<lambda>s. False) b ss = (None, pending) \<Longrightarrow> s \<in> set pending \<Longrightarrow> s \<in> set ss \<and> \<not> skip s \<and> ps_run s b = NoClue"
  by (induction ss arbitrary: pending) (fastforce split: if_splits sniffed.splits prod.splits)+

lemma sniff_round_found:
  "sniff_round skip keep b ss = (Some r, pending) \<Longrightarrow> \<exists>s \<in> set ss. \<not> skip s \<and> ps_run s b = Found r"
  by (induction ss arbitrary: pending) (fastforce split: if_splits sniffed.splits prod.splits)+

lemma Sniff_cases:
  assumes "Sniff b network ss = (res, ss')"
  shows "(\<exists>r s. res = Found r \<and> s \<in> set ss \<and> ps_run s b = Found r) \<or> (\<exists>e. res = SniffError e)
    \<or> (res = NoClue \<and> (\<forall>s \<in> set ss'. s \<in> set ss \<and> ps_network s = network \<and> ps_run s b = NoClue))"
proof -
  obtain ro p where r: "sniff_round (\<lambda>s. ps_metadata s \<or> ps_network s \<noteq> network) (\<lambda>s. False) b ss = (ro, p)" by force
  have e: "(res, ss') = round_result ss (ro, p)" using assms by (simp add: Sniff_def r)
  show ?thesis
  proof (cases ro)
    case None
    then have "(res, ss') = (if p \<noteq> [] then (NoClue, p) else (SniffError ''unknown content'', ss))" using e by (simp add: round_result_def)
    moreover have "\<forall>s \<in> set p. s \<in> set ss \<and> ps_network s = network \<and> ps_run s b = NoClue"
      using sniff_round_pending [OF r [unfolded None]] by blast
    ultimately show ?thesis by (auto split: if_splits)
  next
    case (Some x)
    then have "res = Found x" using e by (simp add: round_result_def)
    moreover obtain s where "s \<in> set ss" "ps_run s b = Found x" using sniff_round_found [OF r [unfolded Some]] by blast
    ultimately show ?thesis by blast
  qed
qed

text \<open>
  Sniffing ends after at most two rounds: the loop over the content of a connection has a result, an error at the latest, once two reads
  were made, whatever was read, how long it took and which sniffers there are, so that every connection with sniffing is dispatched.
\<close>

theorem sniffing_ends:
  assumes "2 \<le> length sts"
  shows "sniffer ss metadataOnly network sts \<noteq> None"
proof -
  obtain st1 st2 rest where sts: "sts = st1 # st2 # rest" using assms by (metis Suc_le_length_iff numeral_2_eq_2)
  have one: "sniff_content network ss dl (Suc n) (st # sts') \<noteq> None" for ss dl n st sts'
  proof -
    obtain res ss1 where "Sniff (st_payload st) network ss = (res, ss1)" by force
    with Sniff_cases [OF this] show ?thesis by (auto simp: Let_def split: option.splits)
  qed
  obtain m ss0 where m: "SniffMetadata ss = (m, ss0)" by force
  obtain res ss1 where "Sniff (st_payload st1) network ss0 = (res, ss1)" by force
  with Sniff_cases [OF this] one have "sniff_content network ss0 200 0 sts \<noteq> None"
    unfolding sts sniff_content.simps(2) [of network ss0 200 0 st1] by (auto simp: Let_def simp del: sniff_content.simps split: option.splits)
  then show ?thesis by (auto simp: sniffer_def m split: option.splits sum.splits)
qed

theorem sniffing_ends_witness:
  "sniffer (NewSniffer \<lparr>sl_HTTP = (\<lambda>b. NoClue), sl_TLS = (\<lambda>b. NoClue), sl_Bittorrent = (\<lambda>b. NoClue), sl_QUIC = (\<lambda>b. NoClue), sl_UTP = (\<lambda>b. NoClue)\<rparr>
       (None :: (nat fake_dns \<times> nat \<times> Network) option)) False Network_TCP
     (replicate 2 \<lparr>st_done = None, st_err = None, st_elapsed = 1, st_payload = [22]\<rparr>) \<noteq> None"
  by (rule sniffing_ends) simp

text \<open>
  A QUIC connection whose hello needs more than one packet is never recognised: the sniffer that recognised the protocol and
  asks for more data is dropped, because only sniffers without a clue stay for the next round, so a result can only come from the other
  sniffer of UDP.
\<close>

theorem split_quic_not_sniffed:
  assumes "sl_QUIC L (st_payload st) = NeedMoreData" and "st_payload st \<noteq> []" and "\<forall>b r. sl_UTP L b \<noteq> Found r"
  shows "sniffer (NewSniffer L (None :: ('a fake_dns \<times> 'a \<times> Network) option)) False Network_UDP (st # sts) \<noteq> Some (Inr r)"
proof -
  let ?ss = "NewSniffer L (None :: ('a fake_dns \<times> 'a \<times> Network) option)"
  have m: "SniffMetadata ?ss = (NoClue, ?ss)" by (simp add: SniffMetadata_def round_result_def NewSniffer_def plain_sniffer_def)
  have later: "\<forall>s \<in> set ss. ps_run s = sl_UTP L \<Longrightarrow> sniff_content Network_UDP ss dl n sts' \<noteq> Some (Inr r)" for ss dl n sts'
  proof (induction sts' arbitrary: ss dl n)
    case (Cons st' sts')
    obtain res ss1 where s: "Sniff (st_payload st') Network_UDP ss = (res, ss1)" by force
    from Sniff_cases [OF s] Cons.prems assms(3) have "(\<exists>e. res = SniffError e) \<or> (res = NoClue \<and> (\<forall>s \<in> set ss1. ps_run s = sl_UTP L))" by auto
    then show ?case using Cons.IH Cons.prems s by (auto simp: Let_def split: option.splits)
  qed simp
  obtain res ss1 where s: "Sniff (st_payload st) Network_UDP ?ss = (res, ss1)" by force
  have "(\<exists>e. res = SniffError e) \<or> (res = NoClue \<and> (\<forall>s \<in> set ss1. ps_run s = sl_UTP L))"
    using s assms(1,3) by (auto simp: Sniff_def round_result_def NewSniffer_def plain_sniffer_def split: if_splits sniffed.splits prod.splits)
  then have "sniff_content Network_UDP ?ss 200 0 (st # sts) \<noteq> Some (Inr r)"
    using assms(2) later s by (auto simp: Let_def split: option.splits)
  then show ?thesis by (auto simp: sniffer_def m meta_result_def split: option.splits sum.splits)
qed

definition demo_sniffers :: sniff_lib where
  "demo_sniffers = \<lparr>sl_HTTP = (\<lambda>b. NoClue), sl_TLS = (\<lambda>b. NoClue), sl_Bittorrent = (\<lambda>b. NoClue),
     sl_QUIC = (\<lambda>b. if length b < 3 then NeedMoreData else Found \<lparr>sr_Protocol = ''quic'', sr_Domain = ''a'', sr_ProtocolForDomain = None, sr_Original = None\<rparr>),
     sl_UTP = (\<lambda>b. NoClue)\<rparr>"

theorem split_quic_not_sniffed_witness:
  "sniffer (NewSniffer demo_sniffers (None :: (nat fake_dns \<times> nat \<times> Network) option)) False Network_UDP
     [\<lparr>st_done = None, st_err = None, st_elapsed = 1, st_payload = [1, 2]\<rparr>, \<lparr>st_done = None, st_err = None, st_elapsed = 1, st_payload = [1, 2, 3]\<rparr>] \<noteq> Some (Inr r)"
  by (rule split_quic_not_sniffed) (simp_all add: demo_sniffers_def)

section \<open>The remembering reader\<close>

datatype reader_op = OpCache nat "goerror option" | OpRead "goerror option"

fun reader_run :: "reader_op list \<Rightarrow> cachedReader \<Rightarrow> bytes \<times> cachedReader" where
  "reader_run [] r = ([], r)"
| "reader_run (OpCache c e # ops) r = reader_run ops (snd (Cache c e r))"
| "reader_run (OpRead e # ops) r =
     (case cached_Read e r of (res, r1) \<Rightarrow> (case reader_run ops r1 of (out, r2) \<Rightarrow> ((case res of Inr mb \<Rightarrow> mb | Inl _ \<Rightarrow> []) @ out, r2)))"

text \<open>
  Sniffing loses, repeats and reorders no byte: in every run of cache and read operations, with errors of the reader anywhere, what was
  delivered followed by the cache and by what the reader still has is the original stream.
\<close>

theorem sniffing_keeps_bytes:
  "case reader_run ops r of (out, r') \<Rightarrow> out @ cr_cache r' @ concat (cr_reader r') = cr_cache r @ concat (cr_reader r)"
proof (induction ops arbitrary: r)
  case (Cons x ops)
  show ?case
  proof (cases x)
    case (OpCache c e)
    have "cr_cache (snd (Cache c e r)) @ concat (cr_reader (snd (Cache c e r))) = cr_cache r @ concat (cr_reader r)"
      by (simp add: Cache_def Let_def split: option.split list.split)
    then show ?thesis using Cons.IH [of "snd (Cache c e r)"] by (simp add: OpCache)
  next
    case (OpRead e)
    obtain res r1 where c: "cached_Read e r = (res, r1)" by force
    have "(case res of Inr mb \<Rightarrow> mb | Inl _ \<Rightarrow> []) @ cr_cache r1 @ concat (cr_reader r1) = cr_cache r @ concat (cr_reader r)"
      using c by (auto simp: cached_Read_def split: option.splits list.splits if_splits)
    then show ?thesis using Cons.IH [of r1] by (simp add: OpRead c split: prod.splits)
  qed
qed simp

end
