(* ===== verification/Serving_Props.thy ===== *)
theory Serving_Props
  imports Serving_Users Runner_Props Trojan_Props Dispatcher_Props
begin

text \<open>
  What the runners do with connections: nothing is relayed that the limiter did not admit under a user of the runner; a Trojan client is served from its first
  byte to the dispatcher; and what the adapters do to datagrams.
\<close>

section \<open>The dispatcher under a runner's session\<close>

lemma session_fields:
  "in_Tag (runner_session tag uuid source tcp conn) = tag" "in_Source (runner_session tag uuid source tcp conn) = source"
  "in_TCP (runner_session tag uuid source tcp conn) = tcp"
  "limited_user (Some (runner_session tag uuid source tcp conn)) = Some (runner_session tag uuid source tcp conn, UserTag tag uuid)"
  by (simp_all add: runner_session_def limited_user_def UserTag_def)

text \<open>The limiter of the node admits the user at the address.\<close>

definition admits :: "serve_env \<Rightarrow> string \<Rightarrow> string \<Rightarrow> string \<Rightarrow> bool \<Rightarrow> disp_state \<Rightarrow> bool" where
  "admits V tag uuid source tcp st =
     (case fst st tag of
        None \<Rightarrow> False
      | Some l \<Rightarrow> \<not> snd (fst (CheckLimit (ad_now (sv_input V)) (ad_race (sv_input V)) (UserTag tag uuid) source tcp l)))"

text \<open>What a runner may rely on when it calls the dispatcher: it returns a link exactly when the limiter admits, and an error otherwise.\<close>

locale dispatching =
  fixes V :: serve_env and call :: "Inbound \<Rightarrow> Destination \<Rightarrow> disp_state \<Rightarrow> (link \<times> routed) outcome \<times> disp_state"
  assumes admitted: "admits V tag uuid source tcp st \<Longrightarrow> \<exists>lk rt st1. call (runner_session tag uuid source tcp conn) dest st = (Return (lk, rt), st1)"
    and refused: "\<not> admits V tag uuid source tcp st \<Longrightarrow> \<exists>e st1. call (runner_session tag uuid source tcp conn) dest st = (Error e, st1)"

text \<open>What a runner may relay: a session of its own tag, of a user for whom \<open>P\<close> holds and whom the limiter admitted.\<close>

definition rightly :: "serve_env \<Rightarrow> string \<Rightarrow> string \<Rightarrow> (string \<Rightarrow> bool) \<Rightarrow> disp_state \<Rightarrow> 'c served \<Rightarrow> bool" where
  "rightly V tag source P st x \<longleftrightarrow>
     (case x of
        Bridged pc s dest lk rt \<Rightarrow> \<exists>uuid tcp conn. s = runner_session tag uuid source tcp conn \<and> P uuid \<and> admits V tag uuid source tcp st
      | _ \<Rightarrow> True)"

lemma rightly_simps [simp]: "rightly V tag source P st ConnClosed" "rightly V tag source P st ConnLeft" "rightly V tag source P st (Crashed p)"
  by (simp_all add: rightly_def)



context dispatching begin

lemma call_cases:
  obtains lk rt st1 where "call (runner_session tag uuid source tcp conn) dest st = (Return (lk, rt), st1)" "admits V tag uuid source tcp st"
  | e st1 where "call (runner_session tag uuid source tcp conn) dest st = (Error e, st1)" "\<not> admits V tag uuid source tcp st"
proof (cases "admits V tag uuid source tcp st")
  case True
  from admitted [OF this, of conn dest] show ?thesis using that(1) True by blast
next
  case False
  from refused [OF this, of conn dest] show ?thesis using that(2) False by blast
qed

end

interpretation streams: dispatching V "call_Dispatch V" for V
proof
  fix tag uuid source tcp st conn dest
  have 1: "\<exists>lk rt st1. call_Dispatch V (runner_session tag uuid source tcp conn) dest st = (Return (lk, rt), st1)"
    if "fst st tag = Some l" "CheckLimit (ad_now (sv_input V)) (ad_race (sv_input V)) (UserTag tag uuid) source tcp l = ((w, False), l1)" for l w l1
    by (simp add: call_Dispatch_def Dispatch_def getLink_def session_fields Let_def that split: prod.split)
  have 2: "\<exists>e st1. call_Dispatch V (runner_session tag uuid source tcp conn) dest st = (Error e, st1)"
    if "fst st tag = Some l" "CheckLimit (ad_now (sv_input V)) (ad_race (sv_input V)) (UserTag tag uuid) source tcp l = ((w, True), l1)" for l w l1
    by (simp add: call_Dispatch_def Dispatch_def getLink_def session_fields Let_def that)
  have 3: "\<exists>e st1. call_Dispatch V (runner_session tag uuid source tcp conn) dest st = (Error e, st1)" if "fst st tag = None"
    by (simp add: call_Dispatch_def Dispatch_def getLink_def session_fields Let_def that)
  show "\<exists>lk rt st1. call_Dispatch V (runner_session tag uuid source tcp conn) dest st = (Return (lk, rt), st1)" if "admits V tag uuid source tcp st"
    using that 1 by (auto simp: admits_def split: option.splits) (metis prod.collapse)
  show "\<exists>e st1. call_Dispatch V (runner_session tag uuid source tcp conn) dest st = (Error e, st1)" if "\<not> admits V tag uuid source tcp st"
    using that 2 3 by (auto simp: admits_def split: option.splits) (metis prod.collapse)
qed


text \<open>The outbound is the one that sniffing and routing choose for the destination of the call.\<close>

lemma call_Dispatch_routes:
  "call_Dispatch V s dest st = (Return (lk, rt), st1) \<Longrightarrow>
    rt = sniff_and_route (sv_env V\<lparr>dp_valid := True\<rparr>) True (in_Tag s) (to_target Network_TCP dest)"
  by (auto simp: call_Dispatch_def Dispatch_def inbound_tag_def split: outcome.splits prod.splits sum.splits if_splits)

lemma bridge_admits:
  "admits V tag uuid source tcp st \<Longrightarrow> \<exists>lk st1. bridge V pc (runner_session tag uuid source tcp conn) dest st =
     (Bridged pc (runner_session tag uuid source tcp conn) (to_target Network_TCP dest) lk
        (sniff_and_route (sv_env V\<lparr>dp_valid := True\<rparr>) True tag (to_target Network_TCP dest)), st1)"
  "\<not> admits V tag uuid source tcp st \<Longrightarrow> \<exists>st1. bridge V pc (runner_session tag uuid source tcp conn) dest st = (ConnClosed, st1)"
proof -
  let ?s = "runner_session tag uuid source tcp conn"
  assume "admits V tag uuid source tcp st"
  then obtain lk rt st1 where c: "call_Dispatch V ?s dest st = (Return (lk, rt), st1)" using streams.admitted by blast
  show "\<exists>lk st1. bridge V pc ?s dest st = (Bridged pc ?s (to_target Network_TCP dest) lk
        (sniff_and_route (sv_env V\<lparr>dp_valid := True\<rparr>) True tag (to_target Network_TCP dest)), st1)"
    using call_Dispatch_routes [OF c] by (simp add: bridge_def c session_fields)
next
  assume "\<not> admits V tag uuid source tcp st"
  then show "\<exists>st1. bridge V pc (runner_session tag uuid source tcp conn) dest st = (ConnClosed, st1)"
    using streams.refused [of V tag uuid source tcp st conn dest] by (auto simp: bridge_def)
qed
























section \<open>A Trojan client\<close>

lemma serve_request:
  assumes "ss_rep (subkeyAEAD L) (newSSConn raw (tj_method r) (string_bytes (tj_key r))) (request key ad port @ payload)" and "length key = keyLength"
    and "list_all is_hex key" and "addr_ok ad" and "port < 65536" and "tj_tlsCfg r = None"
  shows "\<exists>pc. ss_rep (subkeyAEAD L) pc payload \<and> trojanss_serve V L tls source raw r st =
     (case tj_byKey r (bytes_text key) of
        None \<Rightarrow> Some (ConnClosed, st)
      | Some uuid \<Rightarrow> Some (bridge V pc (runner_session (tj_tag r) uuid source True False) \<lparr>de_Address = addr_meant ad, de_Port = port\<rparr> st))"
proof -
  from ss.handshake_reads [OF assms(1-5)] obtain c' where
    "trojan_handshake L (tj_method r) (string_bytes (tj_key r)) raw = Some (Return (key, \<lparr>de_Address = addr_meant ad, de_Port = port\<rparr>), c')"
    and "ss_rep (subkeyAEAD L) c' payload"
    by (auto simp: trojan_handshake_def)
  then show ?thesis by (intro exI [of _ c']) (simp add: trojanss_serve_def assms(6) trojanss_dispatch_def split: option.split)
qed

lemma trojanss_DelUsers_keys:
  assumes "trojanss_good L r" and "tj_byKey r k = Some u" and "u \<in> set us"
  shows "tj_byKey (trojanss_DelUsers us r) k = None" "tj_method (trojanss_DelUsers us r) = tj_method r" "tj_key (trojanss_DelUsers us r) = tj_key r"
    "tj_tlsCfg (trojanss_DelUsers us r) = tj_tlsCfg r"
proof -
  have one: "tj_byKey (trojanss_del_user v r) k = None \<or> tj_byKey (trojanss_del_user v r) k = tj_byKey r k" for v r k
    by (simp add: trojanss_del_user_def split: option.split)
  have m: "tj_byKey (fold trojanss_del_user us r) k = None \<or> tj_byKey (fold trojanss_del_user us r) k = tj_byKey r k" for us r k
  proof (induction us arbitrary: r)
    case (Cons v us)
    show ?case using Cons.IH [of "trojanss_del_user v r"] one [of v r k] by (simp only: fold_simps(2)) metis
  qed simp
  have g: "trojanss_good L (trojanss_DelUsers us r)" using assms(1) by (rule trojanss_DelUsers_eqs(3))
  have d: "tj_uuids (trojanss_DelUsers us r) u = None" using trojanss_DelUsers_eqs(2) [of us r] assms(3) by (metis DiffD2 domIff)
  have "tj_byKey (trojanss_DelUsers us r) k \<noteq> Some u" using g d by (auto simp: trojanss_good_def)
  then show "tj_byKey (trojanss_DelUsers us r) k = None" using m [of us r k] assms(2) by (auto simp: trojanss_DelUsers_def)
  show "tj_method (trojanss_DelUsers us r) = tj_method r" "tj_key (trojanss_DelUsers us r) = tj_key r" "tj_tlsCfg (trojanss_DelUsers us r) = tj_tlsCfg r"
    unfolding trojanss_DelUsers_def by (induction us arbitrary: r) (auto simp: trojanss_del_user_def split: option.splits)
qed

text \<open>
  Claim C16. A Trojan client is served from its first byte to the dispatcher: when it encrypts a request with the key of a user of the runner, in whatever writes,
  then, if the limiter admits the user at the client's address, the dispatcher is called with the destination that was meant (address and port) under the session of that user, the outbound
  is the one sniffing and routing choose for this destination, and the connection that is copied to the link is one from which exactly the payload after the request is read; otherwise the
  connection is closed. Once the user was deleted the same bytes only close the connection, and limiters and counters are not touched. The node is one without TLS.
\<close>

theorem trojan_client_served:
  assumes "\<forall>b. so_write i b = None" and "so_salt i = Inr salt" and "length salt = length (string_bytes (tj_key r))"
    and "subkeyAEAD L (tj_method r) (string_bytes (tj_key r)) salt = Inr a" and "aead_ok a"
    and "concat ps = request key ad port @ payload" and "length key = keyLength" and "list_all is_hex key" and "addr_ok ad" and "port < 65536"
    and "tj_tlsCfg r = None" and "trojanss_good R r" and "tj_byKey r (bytes_text key) = Some uuid"
    and "raw = ss_write_all (subkeyAEAD L) i ps (newSSConn old (tj_method r) (string_bytes (tj_key r)))"
    and "target = \<lparr>dt_Address = addr_meant ad, dt_Port = port, dt_Network = Network_TCP\<rparr>"
  shows "(admits V (tj_tag r) uuid source True st \<longrightarrow> (\<exists>pc lk st1. trojanss_serve V L tls source raw r st =
        Some (Bridged pc (runner_session (tj_tag r) uuid source True False) target lk
               (sniff_and_route (sv_env V\<lparr>dp_valid := True\<rparr>) True (tj_tag r) target), st1)
        \<and> ss_rep (subkeyAEAD L) pc payload))
    \<and> (\<not> admits V (tj_tag r) uuid source True st \<longrightarrow> (\<exists>st1. trojanss_serve V L tls source raw r st = Some (ConnClosed, st1)))
    \<and> trojanss_serve V L tls source raw (trojanss_DelUsers [uuid] r) st = Some (ConnClosed, st)"
proof -
  let ?d = "\<lparr>de_Address = addr_meant ad, de_Port = port\<rparr>"
  have t: "to_target Network_TCP ?d = target" by (simp add: to_target_def assms(15))
  have "ps \<noteq> []" using assms(6) by (auto simp: request_def)
  then have rep: "ss_rep (subkeyAEAD L) (newSSConn raw (tj_method r) (string_bytes (tj_key r))) (request key ad port @ payload)"
    using ss_stream [of i salt "string_bytes (tj_key r)" "subkeyAEAD L" "tj_method r" a ps old, OF assms(1-5)] assms(6) by (simp add: assms(14))
  obtain pc where pc: "ss_rep (subkeyAEAD L) pc payload"
    and s: "trojanss_serve V L tls source raw r st = Some (bridge V pc (runner_session (tj_tag r) uuid source True False) ?d st)"
    using serve_request [OF rep assms(7-11), of V tls source st] assms(13) by auto
  have k: "uuid \<in> set [uuid]" by simp
  note d = trojanss_DelUsers_keys [OF assms(12,13) k]
  have "trojanss_serve V L tls source raw (trojanss_DelUsers [uuid] r) st = Some (ConnClosed, st)"
    using serve_request [of L raw "trojanss_DelUsers [uuid] r" key ad port payload V tls source st, OF _ assms(7-10)] rep d assms(11) by simp
  then show ?thesis
    using bridge_admits [of V "tj_tag r" uuid source True st pc False ?d] s pc unfolding t by auto
qed

definition demo_serve :: serve_env where
  "demo_serve = \<lparr>sv_env = \<lparr>dp_net = \<lparr>nl_ParseAddress = (\<lambda>s. Domain []), nl_IsIP = (\<lambda>a. False), nl_IsIPInIPPool = None\<rparr>, dp_valid = True,
       dp_request = \<lparr>sq_Enabled = False, sq_MetadataOnly = False, sq_RouteOnly = False, sq_ExcludeForDomain = None, sq_ExcludeForIP = None, sq_Override = []\<rparr>,
       dp_sniff = Inl [], dp_forced = [], dp_om = \<lparr>om_has = (\<lambda>t. True), om_default = Some ''out''\<rparr>, dp_router = None\<rparr>, sv_input = quiet_input\<rparr>"

definition demo_trojan :: trojanss_Runner where
  "demo_trojan = \<lparr>tj_tag = ''t'', tj_info = demo_info, tj_ln = Some ''0.0.0.0:1'', tj_method = ''AES-128-GCM'', tj_key = ''k'', tj_tlsCfg = None,
     tj_byKey = [replicate 56 (CHR ''0'') \<mapsto> ''u1''], tj_uuids = [''u1'' \<mapsto> replicate 56 (CHR ''0'')]\<rparr>"

definition demo_state :: disp_state where
  "demo_state = ([''t'' \<mapsto> demo_limiter\<lparr>lim_AliveList := Map.empty\<rparr>], empty_dispatcher)"

lemma demo_admits: "admits demo_serve ''t'' ''u1'' ''9.9.9.9'' True demo_state"
  by (simp add: admits_def demo_serve_def demo_state_def quiet_input_def CheckLimit_def Let_def demo_limiter_fields effective_user_limit_def checks_devices_def user_bucket_def
      bytes_per_second_def determineSpeedLimit_def go_div_def TrimPrefix_plain UserTag_def check_device_def admit_new_ip_def getAliveIp_def)

theorem trojan_client_served_witness:
  "\<exists>raw pc lk rt st1. trojanss_serve demo_serve demo_crypto (\<lambda>c b. Inr b) ''9.9.9.9'' raw demo_trojan demo_state =
      Some (Bridged pc (runner_session ''t'' ''u1'' ''9.9.9.9'' True False) \<lparr>dt_Address = Domain [97], dt_Port = 443, dt_Network = Network_TCP\<rparr> lk rt, st1)
    \<and> ss_rep (subkeyAEAD demo_crypto) pc [42]
    \<and> trojanss_serve demo_serve demo_crypto (\<lambda>c b. Inr b) ''9.9.9.9'' raw (trojanss_DelUsers [''u1''] demo_trojan) demo_state = Some (ConnClosed, demo_state)"
proof -
  have t: "tj_tag demo_trojan = ''t''" "tj_method demo_trojan = ''AES-128-GCM''" "tj_tlsCfg demo_trojan = None" by (simp_all add: demo_trojan_def)
  have k: "length [9 :: byte] = length (string_bytes (tj_key demo_trojan))" by (simp add: demo_trojan_def string_bytes_def)
  have ok: "aead_ok demo_aead" by (simp add: aead_ok_def demo_aead_def)
  have a: "subkeyAEAD demo_crypto (tj_method demo_trojan) (string_bytes (tj_key demo_trojan)) [9] = Inr demo_aead"
    by (simp add: t subkeyAEAD_def ssAEAD_def demo_crypto_def)
  have c: "concat [replicate 56 48, [13, 10, 1, 3, 1, 97, 1, 187, 13, 10, 42]] = request (replicate 56 48) (Domain [97]) 443 @ [42]"
    by (simp add: request_def addr_bytes_def put16_def)
  have h: "list_all is_hex (replicate 56 48)" by (simp add: list_all_iff is_hex_def)
  have g: "trojanss_good (demo_lib\<lparr>rl_sha224hex := (\<lambda>u. replicate 56 (CHR ''0''))\<rparr>) demo_trojan" by (simp add: trojanss_good_def demo_trojan_def)
  have "(char_of (48 :: nat) :: char) = CHR ''0''" by code_simp
  then have u: "tj_byKey demo_trojan (bytes_text (replicate 56 48)) = Some ''u1''" by (simp add: demo_trojan_def bytes_text_def)
  have w: "\<forall>b. so_write demo_sock b = None" "so_salt demo_sock = Inr [9]" by (simp_all add: demo_sock_def)
  have l: "length (replicate 56 48 :: bytes) = keyLength" "addr_ok (Domain [97])" "(443 :: nat) < 65536" by (simp_all add: keyLength_def addr_ok_def)
  define raw where "raw = ss_write_all (subkeyAEAD demo_crypto) demo_sock [replicate 56 48, [13, 10, 1, 3, 1, 97, 1, 187, 13, 10, 42]]
    (newSSConn [] (tj_method demo_trojan) (string_bytes (tj_key demo_trojan)))"
  have m: "addr_meant (Domain [97]) = Domain [97]" by (simp add: addr_meant_def)
  from trojan_client_served [OF w k a ok c l(1) h l(2,3) t(3) g u raw_def refl, of demo_serve "''9.9.9.9''" demo_state "\<lambda>c b. Inr b"] demo_admits
  show ?thesis unfolding t(1) m by blast
qed

section \<open>A concrete relay\<close>






section \<open>Datagrams\<close>

text \<open>An address as the library gives it: an IPv4 or IPv6 address in its shortest form, without a name, or a name.\<close>

definition canonical :: "Socksaddr \<Rightarrow> bool" where
  "canonical a \<longleftrightarrow> (case sa_Addr a of None \<Rightarrow> True | Some ip \<Rightarrow> sa_Fqdn a = [] \<and> (length ip = 4 \<or> length ip = 16 \<and> take 12 ip \<noteq> replicate 10 0 @ [0xff, 0xff]))"

lemma take_12: "length ip = 16 \<Longrightarrow> take 12 ip = take 10 ip @ [ip ! 10, ip ! 11]"
  using take_Suc_conv_app_nth [of 11 ip] take_Suc_conv_app_nth [of 10 ip] by simp

lemma address_back: "canonical a \<Longrightarrow> toSingSocksaddr (toXrayDestUDP a) = a"
proof -
  assume c: "canonical a"
  obtain ip fqdn port where a: "a = \<lparr>sa_Addr = ip, sa_Fqdn = fqdn, sa_Port = port\<rparr>" by (cases a) auto
  show ?thesis
  proof (cases ip)
    case (Some b)
    then have b: "fqdn = []" "length b = 4 \<or> length b = 16 \<and> take 12 b \<noteq> replicate 10 0 @ [0xff, 0xff]" using c by (auto simp: canonical_def a)
    show ?thesis
    proof (cases "length b = 4")
      case False
      then have l: "length b = 16" "take 12 b \<noteq> replicate 10 0 @ [0xff, 0xff]" using b(2) by auto
      then have "\<not> (take 10 b = replicate 10 0 \<and> b ! 10 = 0xff \<and> b ! 11 = 0xff)" using take_12 [OF l(1)] by auto
      then have "IPAddress b = IPv6 b" using l(1) by (simp add: IPAddress_def)
      then show ?thesis using l b(1) by (simp add: a Some toXrayDestUDP_def toSingSocksaddr_def Unmap_def)
    qed (simp add: a Some b(1) toXrayDestUDP_def toSingSocksaddr_def Unmap_def IPAddress_def)
  qed (simp add: a toXrayDestUDP_def toSingSocksaddr_def)
qed

fun read_all :: "(Socksaddr \<times> bytes) list \<Rightarrow> xbuffer list" where
  "read_all [] = []"
| "read_all (p # ps) = (case packetReader_Read (Inr p) of Inl e \<Rightarrow> [] | Inr mb \<Rightarrow> mb) @ read_all ps"

text \<open>
  Claim C36. Datagrams through both adapters keep their number, their order and their addresses, and their data up to 8192 bytes: they all arrive unchanged exactly when none is
  longer. What is longer is cut without an error, because the result of the buffer's \<open>Write\<close> is ignored.
\<close>

theorem datagrams_through:
  assumes "\<forall>p \<in> set ps. canonical (fst p)"
  shows "packetWriter_Write (\<lambda>p. None) (read_all ps) = (None, map (\<lambda>(a, data). (a, take 8192 data)) ps)
    \<and> (packetWriter_Write (\<lambda>p. None) (read_all ps) = (None, ps) \<longleftrightarrow> (\<forall>p \<in> set ps. length (snd p) \<le> 8192))"
proof -
  have w: "packetWriter_Write (\<lambda>p. None) (read_all ps) = (None, map (\<lambda>(a, data). (a, take 8192 data)) ps)"
    using assms by (induction ps) (auto simp: packetReader_Read_def address_back xbuf_Size_def split: prod.split)
  have "map (\<lambda>(a, data). (a, take 8192 data)) ps = ps \<longleftrightarrow> (\<forall>p \<in> set ps. length (snd p) \<le> 8192)"
  proof (induction ps)
    case (Cons p ps)
    have "take 8192 d = d \<longleftrightarrow> length d \<le> 8192" for d :: bytes by (metis length_take min.absorb_iff2 min.commute take_all)
    then show ?case using Cons by (cases p) auto
  qed simp
  then show ?thesis using w by simp
qed

theorem datagrams_through_witness:
  "packetWriter_Write (\<lambda>p. None) (read_all [(\<lparr>sa_Addr = Some [1, 1, 1, 1], sa_Fqdn = [], sa_Port = 53\<rparr>, [7]), (\<lparr>sa_Addr = None, sa_Fqdn = [97], sa_Port = 1\<rparr>, replicate 9000 0)])
     \<noteq> (None, [(\<lparr>sa_Addr = Some [1, 1, 1, 1], sa_Fqdn = [], sa_Port = 53\<rparr>, [7]), (\<lparr>sa_Addr = None, sa_Fqdn = [97], sa_Port = 1\<rparr>, replicate 9000 0)])"
proof -
  let ?ps = "[(\<lparr>sa_Addr = Some [1, 1, 1, 1], sa_Fqdn = [], sa_Port = 53\<rparr>, [7]), (\<lparr>sa_Addr = None, sa_Fqdn = [97], sa_Port = 1\<rparr>, replicate 9000 0)] :: (Socksaddr \<times> bytes) list"
  have c: "\<forall>p \<in> set ?ps. canonical (fst p)" by (simp add: canonical_def)
  have "\<not> (\<forall>p \<in> set ?ps. length (snd p) \<le> 8192)" by simp
  with datagrams_through [OF c] show ?thesis by blast
qed

end
