(* ===== verification/Relay.thy ===== *)
theory Relay
  imports Inbound Bytes
begin

text \<open>
  Relaying a connection between two sockets: the SNI router (\<open>handleConn\<close>, \<open>copyBothIdle\<close> and \<open>peekableConn\<close> of \<open>common/snirouter/router.go\<close>) and the
  simple-obfs front (\<open>relay\<close> and \<open>relayIdle\<close> of \<open>common/obfs/manager.go\<close>), whose loops have the same text. Two goroutines copy, a timer closes both
  ends after a silence, and the caller waits for both. What will ever arrive at an end is a list of bytes that is given at the start; reads and writes are
  separate steps, so that a write can be in progress when the ends are closed.
\<close>

section \<open>One direction\<close>

datatype copy_pos = Reading | Writing bytes bool | Finished

record copier =
  cp_src :: bytes
  cp_read :: bytes
  cp_written :: bytes
  cp_pos :: copy_pos

definition new_copier :: "bytes \<Rightarrow> copier" where
  "new_copier src = \<lparr>cp_src = src, cp_read = [], cp_written = [], cp_pos = Reading\<rparr>"

datatype copy_event = GotData | Moved | Ended

text \<open>
  A turn of the loop: a read gives some bytes, possibly with an error, or only an error; the write that follows takes all of them or fails after
  some. Reads and writes of a closed end fail.
\<close>

inductive copy_step :: "bool \<Rightarrow> copier \<Rightarrow> copy_event \<Rightarrow> copier \<Rightarrow> bool" for closed where
  read_data: "cp_pos c = Reading \<Longrightarrow> \<not> closed \<Longrightarrow> cp_src c = d @ rest \<Longrightarrow> d \<noteq> [] \<Longrightarrow> length d \<le> 16 * 1024 \<Longrightarrow>
     copy_step closed c GotData (c\<lparr>cp_src := rest, cp_read := cp_read c @ d, cp_pos := Writing d err\<rparr>)"
| read_error: "cp_pos c = Reading \<Longrightarrow> copy_step closed c Ended (c\<lparr>cp_pos := Finished\<rparr>)"
| write_all: "cp_pos c = Writing d False \<Longrightarrow> \<not> closed \<Longrightarrow>
     copy_step closed c Moved (c\<lparr>cp_written := cp_written c @ d, cp_pos := Reading\<rparr>)"
| write_last: "cp_pos c = Writing d True \<Longrightarrow> \<not> closed \<Longrightarrow>
     copy_step closed c Ended (c\<lparr>cp_written := cp_written c @ d, cp_pos := Finished\<rparr>)"
| write_error: "cp_pos c = Writing d err \<Longrightarrow>
     copy_step closed c Ended (c\<lparr>cp_written := cp_written c @ take k d, cp_pos := Finished\<rparr>)"

inductive_cases copy_stepE: "copy_step closed c e c'"

section \<open>Both directions\<close>

datatype caller = AwaitFirst | StopTimer | CloseBoth | AwaitSecond | Returned

text \<open>\<open>rl_idle\<close> are the seconds since the timer was last reset, \<open>rl_tokens\<close> what lies in the channel \<open>done\<close>.\<close>

record relay =
  rl_ab :: copier
  rl_ba :: copier
  rl_closed :: bool
  rl_armed :: bool
  rl_idle :: nat
  rl_tokens :: nat
  rl_caller :: caller

definition relayIdleTimeout :: nat where
  "relayIdleTimeout = 90"

definition obfsRelayIdle :: nat where
  "obfsRelayIdle = 90"

definition new_relay :: "bytes \<Rightarrow> bytes \<Rightarrow> relay" where
  "new_relay a b = \<lparr>rl_ab = new_copier a, rl_ba = new_copier b, rl_closed = False, rl_armed = True, rl_idle = 0, rl_tokens = 0, rl_caller = AwaitFirst\<rparr>"

text \<open>What a turn of a copier does to the rest: data reset the timer, an end puts a token into the channel.\<close>

definition after_copy :: "copy_event \<Rightarrow> relay \<Rightarrow> relay" where
  "after_copy e r =
     (case e of
        GotData \<Rightarrow> r\<lparr>rl_idle := 0, rl_armed := True\<rparr>
      | Moved \<Rightarrow> r
      | Ended \<Rightarrow> r\<lparr>rl_tokens := Suc (rl_tokens r)\<rparr>)"

datatype relay_label = Copied copy_event | Tick | Called

text \<open>A second passes; the timer that has run for its time closes both ends.\<close>

definition tick_relay :: "nat \<Rightarrow> relay \<Rightarrow> relay" where
  "tick_relay limit r =
     (let r1 = r\<lparr>rl_idle := Suc (rl_idle r)\<rparr> in
      if rl_armed r \<and> limit \<le> rl_idle r1 then r1\<lparr>rl_closed := True, rl_armed := False\<rparr> else r1)"

inductive relay_step :: "nat \<Rightarrow> relay \<Rightarrow> relay_label \<Rightarrow> relay \<Rightarrow> bool" for limit where
  a_to_b: "copy_step (rl_closed r) (rl_ab r) e c \<Longrightarrow> relay_step limit r (Copied e) (after_copy e (r\<lparr>rl_ab := c\<rparr>))"
| b_to_a: "copy_step (rl_closed r) (rl_ba r) e c \<Longrightarrow> relay_step limit r (Copied e) (after_copy e (r\<lparr>rl_ba := c\<rparr>))"
| tick: "relay_step limit r Tick (tick_relay limit r)"
| first: "rl_caller r = AwaitFirst \<Longrightarrow> rl_tokens r = Suc n \<Longrightarrow> relay_step limit r Called (r\<lparr>rl_tokens := n, rl_caller := StopTimer\<rparr>)"
| stop: "rl_caller r = StopTimer \<Longrightarrow> relay_step limit r Called (r\<lparr>rl_armed := False, rl_caller := CloseBoth\<rparr>)"
| close: "rl_caller r = CloseBoth \<Longrightarrow> relay_step limit r Called (r\<lparr>rl_closed := True, rl_caller := AwaitSecond\<rparr>)"
| second: "rl_caller r = AwaitSecond \<Longrightarrow> rl_tokens r = Suc n \<Longrightarrow> relay_step limit r Called (r\<lparr>rl_tokens := n, rl_caller := Returned\<rparr>)"

inductive_cases relay_stepE: "relay_step limit r l r'"

inductive relay_run :: "nat \<Rightarrow> relay \<Rightarrow> relay_label list \<Rightarrow> relay \<Rightarrow> bool" for limit where
  nil: "relay_run limit r [] r"
| snoc: "relay_run limit r ls r1 \<Longrightarrow> relay_step limit r1 l r2 \<Longrightarrow> relay_run limit r (ls @ [l]) r2"

text \<open>The two relays of the program.\<close>

definition copyBothIdle :: "relay \<Rightarrow> relay_label \<Rightarrow> relay \<Rightarrow> bool" where
  "copyBothIdle = relay_step relayIdleTimeout"

definition relayIdle :: "relay \<Rightarrow> relay_label \<Rightarrow> relay \<Rightarrow> bool" where
  "relayIdle = relay_step obfsRelayIdle"

section \<open>The SNI router\<close>

record peekableConn =
  pk_conn :: bytes
  pk_buf :: bytes

definition peek_Read :: "nat \<Rightarrow> peekableConn \<Rightarrow> bytes \<times> peekableConn" where
  "peek_Read n p = (let d = take n (pk_conn p) in (d, p\<lparr>pk_conn := drop n (pk_conn p), pk_buf := pk_buf p @ d\<rparr>))"

text \<open>
  What \<open>tls.Server\<close> makes of the connection: the sizes of its reads until its handshake fails, the server name it found in what it read (none when the hello did not
  come in time), and what it wrote to the connection itself. Dialling and the first write to the upstream may fail.
\<close>

record sni_env =
  sn_reads :: "nat list"
  sn_hello :: "bytes \<Rightarrow> string option"
  sn_alert :: "bytes \<Rightarrow> bytes"
  sn_dial :: "string \<Rightarrow> goerror option"
  sn_replay :: "bytes \<Rightarrow> goerror option"

definition tls_handshake :: "sni_env \<Rightarrow> bytes \<Rightarrow> string \<times> bytes \<times> peekableConn" where
  "tls_handshake E conn =
     (let p = fold (\<lambda>n p. snd (peek_Read n p)) (sn_reads E) \<lparr>pk_conn = conn, pk_buf = []\<rparr>
      in (case sn_hello E (pk_buf p) of None \<Rightarrow> [] | Some name \<Rightarrow> ToLower name, sn_alert E (pk_buf p), p))"

text \<open>The bytes at the client and at the upstream before the copying starts, and the relay.\<close>

datatype handled = Dropped bytes | NoUpstream bytes string goerror | ReplayFailed bytes string goerror | Relaying bytes bytes string relay

definition handleConn :: "sni_env \<Rightarrow> Router \<Rightarrow> bytes \<Rightarrow> (string \<Rightarrow> bytes) \<Rightarrow> handled" where
  "handleConn E r conn server =
     (case tls_handshake E conn of
        (extractedSNI, alert, peekConn) \<Rightarrow>
          (let dest = router_resolve extractedSNI r in
           if dest = [] then Dropped alert
           else
             (case sn_dial E dest of
                Some e \<Rightarrow> NoUpstream alert dest e
              | None \<Rightarrow>
                  (case (if pk_buf peekConn \<noteq> [] then sn_replay E (pk_buf peekConn) else None) of
                     Some e \<Rightarrow> ReplayFailed alert dest e
                   | None \<Rightarrow> Relaying alert (pk_buf peekConn) dest (new_relay (pk_conn peekConn) (server dest))))))"

section \<open>The simple-obfs front\<close>

text \<open>The client's side of the relay is the plain stream of the framed connection; a loopback that refuses closes the client.\<close>

definition obfs_relay :: "(string \<Rightarrow> goerror option) \<Rightarrow> string \<Rightarrow> bytes \<Rightarrow> bytes \<Rightarrow> relay option" where
  "obfs_relay dial loopback plain server =
     (case dial loopback of Some e \<Rightarrow> None | None \<Rightarrow> Some (new_relay plain server))"

end
