(* ===== verification/Relay_Props.thy ===== *)
theory Relay_Props
  imports Relay "HOL-Library.Sublist"
begin

text \<open>
  What a relay is worth: every end is written what was read at the other, in order; a silence or the end of one direction ends it, and when the
  caller returns no goroutine is left. For the SNI router: what the upstream and the client see.
\<close>

section \<open>The invariant\<close>

definition copier_inv :: "bytes \<Rightarrow> copier \<Rightarrow> bool" where
  "copier_inv src c \<longleftrightarrow> src = cp_read c @ cp_src c \<and>
     (case cp_pos c of
        Reading \<Rightarrow> cp_written c = cp_read c
      | Writing d err \<Rightarrow> cp_read c = cp_written c @ d
      | Finished \<Rightarrow> prefix (cp_written c) (cp_read c))"

definition fins :: "copier \<Rightarrow> nat" where
  "fins c = (if cp_pos c = Finished then 1 else 0)"

fun taken :: "caller \<Rightarrow> nat" where
  "taken AwaitFirst = 0"
| "taken Returned = 2"
| "taken _ = 1"

definition relay_inv :: "nat \<Rightarrow> bytes \<Rightarrow> bytes \<Rightarrow> relay \<Rightarrow> bool" where
  "relay_inv limit a b r \<longleftrightarrow> copier_inv a (rl_ab r) \<and> copier_inv b (rl_ba r)
     \<and> fins (rl_ab r) + fins (rl_ba r) = rl_tokens r + taken (rl_caller r)
     \<and> (rl_caller r = AwaitSecond \<or> rl_caller r = Returned \<longrightarrow> rl_closed r)
     \<and> (rl_armed r \<and> \<not> rl_closed r \<longrightarrow> rl_idle r < limit)
     \<and> (rl_caller r = AwaitFirst \<and> \<not> rl_closed r \<longrightarrow> rl_armed r)"

lemma prefix_cut: "prefix (take k d) d"
  by (metis append_take_drop_id prefixI)

lemma copy_step_inv:
  assumes "copy_step closed c e c'" and "copier_inv src c"
  shows "copier_inv src c'"
  using assms by (cases rule: copy_step.cases) (auto simp: copier_inv_def prefix_cut)

lemma copy_step_fins:
  assumes "copy_step closed c e c'"
  shows "fins c = 0 \<and> fins c' = (if e = Ended then 1 else 0) \<and> (closed \<longrightarrow> e = Ended)"
  using assms by (cases rule: copy_step.cases) (auto simp: fins_def)

lemma after_copy_fields:
  "rl_ab (after_copy e r) = rl_ab r" "rl_ba (after_copy e r) = rl_ba r" "rl_closed (after_copy e r) = rl_closed r"
  "rl_caller (after_copy e r) = rl_caller r" "rl_tokens (after_copy e r) = (if e = Ended then Suc (rl_tokens r) else rl_tokens r)"
  "rl_idle (after_copy e r) = (if e = GotData then 0 else rl_idle r)" "rl_armed (after_copy e r) = (e = GotData \<or> rl_armed r)"
  by (simp_all add: after_copy_def split: copy_event.split)

lemma tick_fields:
  "rl_ab (tick_relay n r) = rl_ab r" "rl_ba (tick_relay n r) = rl_ba r" "rl_caller (tick_relay n r) = rl_caller r" "rl_tokens (tick_relay n r) = rl_tokens r"
  "rl_idle (tick_relay n r) = Suc (rl_idle r)" "rl_closed (tick_relay n r) \<longleftrightarrow> rl_closed r \<or> (rl_armed r \<and> n \<le> Suc (rl_idle r))"
  "rl_armed (tick_relay n r) \<longleftrightarrow> rl_armed r \<and> \<not> n \<le> Suc (rl_idle r)"
  by (auto simp: tick_relay_def Let_def)

lemmas relay_fields = after_copy_fields tick_fields

lemma relay_inv_step:
  assumes "relay_step limit r l r'" and "relay_inv limit a b r" and "0 < limit"
  shows "relay_inv limit a b r'"
  using assms(1)
proof (cases rule: relay_step.cases)
  case (a_to_b e c)
  then show ?thesis using assms(2,3) copy_step_inv [OF a_to_b(3)] copy_step_fins [OF a_to_b(3)] by (auto simp: relay_inv_def relay_fields)
next
  case (b_to_a e c)
  then show ?thesis using assms(2,3) copy_step_inv [OF b_to_a(3)] copy_step_fins [OF b_to_a(3)] by (auto simp: relay_inv_def relay_fields)
next
  case tick
  then show ?thesis using assms(2) by (auto simp: relay_inv_def relay_fields)
qed (use assms(2) in \<open>auto simp: relay_inv_def\<close>)

lemma relay_inv_new: "0 < limit \<Longrightarrow> relay_inv limit a b (new_relay a b)"
  by (simp add: relay_inv_def new_relay_def new_copier_def copier_inv_def fins_def)

lemma relay_inv_run: "relay_run limit r ls r' \<Longrightarrow> relay_inv limit a b r \<Longrightarrow> 0 < limit \<Longrightarrow> relay_inv limit a b r'"
  by (induction rule: relay_run.induct) (auto intro: relay_inv_step)

lemma copier_inv_prefix: "copier_inv src c \<Longrightarrow> prefix (cp_written c) src"
  by (auto simp: copier_inv_def split: copy_pos.splits)

text \<open>
  Claim C18. A relay is faithful: in every reachable state what was written at an end is a prefix of what arrives at the other one, a direction between two turns of
  its loop has written everything it has read, and when the caller returns both ends are closed and both goroutines are over.
\<close>

theorem relay_faithful:
  assumes "relay_run limit (new_relay a b) ls r" and "0 < limit"
  shows "prefix (cp_written (rl_ab r)) a \<and> prefix (cp_written (rl_ba r)) b
    \<and> (cp_pos (rl_ab r) = Reading \<longrightarrow> a = cp_written (rl_ab r) @ cp_src (rl_ab r)) \<and> (cp_pos (rl_ba r) = Reading \<longrightarrow> b = cp_written (rl_ba r) @ cp_src (rl_ba r))
    \<and> (rl_caller r = Returned \<longrightarrow> rl_closed r \<and> cp_pos (rl_ab r) = Finished \<and> cp_pos (rl_ba r) = Finished)"
proof -
  have i: "relay_inv limit a b r" by (rule relay_inv_run [OF assms(1) relay_inv_new [OF assms(2)] assms(2)])
  have "cp_pos (rl_ab r) = Finished \<and> cp_pos (rl_ba r) = Finished" if "rl_caller r = Returned"
    using i that by (auto simp: relay_inv_def fins_def split: if_splits)
  then show ?thesis using i by (auto simp: relay_inv_def copier_inv_prefix) (auto simp: copier_inv_def)
qed

lemma run_one: "relay_step limit r l r' \<Longrightarrow> relay_run limit r [l] r'"
  using relay_run.snoc [OF relay_run.nil] by fastforce

lemma run_append: "relay_run limit r1 ms r2 \<Longrightarrow> relay_run limit r ls r1 \<Longrightarrow> relay_run limit r (ls @ ms) r2"
  by (induction rule: relay_run.induct) (auto simp flip: append_assoc intro: relay_run.snoc)

definition demo_relay :: relay where
  "demo_relay = after_copy GotData (new_relay [1] []\<lparr>rl_ab := \<lparr>cp_src = [], cp_read = [1], cp_written = [], cp_pos = Writing [1] False\<rparr>\<rparr>)"

lemma demo_relay_run: "relay_run 90 (new_relay [1] []) [Copied GotData] demo_relay"
proof (rule run_one)
  have "copy_step False (new_copier [1]) GotData \<lparr>cp_src = [], cp_read = [1], cp_written = [], cp_pos = Writing [1] False\<rparr>"
    using copy_step.read_data [of "new_copier [1]" False "[1]" "[]" False] by (simp add: new_copier_def)
  then show "relay_step 90 (new_relay [1] []) (Copied GotData) demo_relay"
    unfolding demo_relay_def by (intro relay_step.a_to_b) (simp add: new_relay_def)
qed

theorem relay_faithful_witness:
  "prefix (cp_written (rl_ab demo_relay)) [1]"
  using relay_faithful [OF demo_relay_run] by simp

section \<open>The end of a relay\<close>

text \<open>The relay is about to end: both ends are closed, the caller is past its first wait, or one direction is over.\<close>

definition ending :: "relay \<Rightarrow> bool" where
  "ending r \<longleftrightarrow> rl_closed r \<or> rl_caller r \<noteq> AwaitFirst \<or> 0 < rl_tokens r"

fun calls_left :: "caller \<Rightarrow> nat" where
  "calls_left AwaitFirst = 4"
| "calls_left StopTimer = 3"
| "calls_left CloseBoth = 2"
| "calls_left AwaitSecond = 1"
| "calls_left Returned = 0"

definition work_left :: "relay \<Rightarrow> nat" where
  "work_left r = (1 - fins (rl_ab r)) + (1 - fins (rl_ba r)) + calls_left (rl_caller r)"

lemma work_left_bound: "work_left r \<le> 6"
  by (cases "rl_caller r") (simp_all add: work_left_def fins_def)

text \<open>A copier of closed ends can only finish.\<close>

lemma copier_can_finish:
  assumes "cp_pos c \<noteq> Finished"
  shows "\<exists>c'. copy_step closed c Ended c' \<and> cp_pos c' = Finished"
proof (cases "cp_pos c")
  case Reading
  then show ?thesis using copy_step.read_error [of c closed] by (metis copier.select_convs(4) copier.surjective copier.update_convs(4))
next
  case (Writing d err)
  from copy_step.write_error [OF this, of closed 0] show ?thesis by auto
qed (use assms in simp)

lemma ending_step:
  assumes "ending r" and "relay_inv limit a b r" and "rl_caller r \<noteq> Returned"
  shows "\<exists>l r'. relay_step limit r l r' \<and> l \<noteq> Tick \<and> l \<noteq> Copied GotData \<and> ending r' \<and> work_left r' < work_left r"
proof -
  have copier: ?thesis if "cp_pos (rl_ab r) \<noteq> Finished \<or> cp_pos (rl_ba r) \<noteq> Finished"
  proof (cases "cp_pos (rl_ab r) \<noteq> Finished")
    case True
    from copier_can_finish [OF this] obtain c where c: "copy_step (rl_closed r) (rl_ab r) Ended c" "cp_pos c = Finished" by blast
    from relay_step.a_to_b [OF c(1)] show ?thesis
      using c True by (intro exI [of _ "Copied Ended"] exI [of _ "after_copy Ended (r\<lparr>rl_ab := c\<rparr>)"]) (simp add: ending_def work_left_def fins_def relay_fields)
  next
    case False
    then have n: "cp_pos (rl_ba r) \<noteq> Finished" using that by simp
    from copier_can_finish [OF this] obtain c where c: "copy_step (rl_closed r) (rl_ba r) Ended c" "cp_pos c = Finished" by blast
    from relay_step.b_to_a [OF c(1)] show ?thesis
      using c n by (intro exI [of _ "Copied Ended"] exI [of _ "after_copy Ended (r\<lparr>rl_ba := c\<rparr>)"]) (simp add: ending_def work_left_def fins_def relay_fields)
  qed
  have caller: ?thesis if "relay_step limit r Called r'" "ending r'" "rl_ab r' = rl_ab r" "rl_ba r' = rl_ba r" "calls_left (rl_caller r') < calls_left (rl_caller r)" for r'
    using that by (intro exI [of _ Called] exI [of _ r']) (simp add: work_left_def)
  have tokens: "fins (rl_ab r) + fins (rl_ba r) = rl_tokens r + taken (rl_caller r)" using assms(2) by (simp add: relay_inv_def)
  show ?thesis
  proof (cases "rl_caller r")
    case AwaitFirst
    show ?thesis
    proof (cases "rl_tokens r")
      case 0
      then show ?thesis using copier tokens AwaitFirst by (auto simp: fins_def split: if_splits)
    next
      case (Suc n)
      from caller [OF relay_step.first [OF AwaitFirst Suc]] show ?thesis using AwaitFirst by (simp add: ending_def)
    qed
  next
    case StopTimer
    from caller [OF relay_step.stop [OF this]] show ?thesis using StopTimer by (simp add: ending_def)
  next
    case CloseBoth
    from caller [OF relay_step.close [OF this]] show ?thesis using CloseBoth by (simp add: ending_def)
  next
    case AwaitSecond
    show ?thesis
    proof (cases "rl_tokens r")
      case 0
      then show ?thesis using copier tokens AwaitSecond by (auto simp: fins_def split: if_splits)
    next
      case (Suc n)
      from caller [OF relay_step.second [OF AwaitSecond Suc]] show ?thesis using AwaitSecond by (simp add: ending_def)
    qed
  qed (use assms(3) in simp)
qed

lemma ending_returns:
  assumes "ending r" and "relay_inv limit a b r" and "0 < limit"
  shows "\<exists>ms r'. relay_run limit r ms r' \<and> Tick \<notin> set ms \<and> Copied GotData \<notin> set ms \<and> length ms \<le> work_left r \<and> rl_caller r' = Returned"
  using assms(1,2)
proof (induction "work_left r" arbitrary: r rule: less_induct)
  case less
  show ?case
  proof (cases "rl_caller r = Returned")
    case True
    then show ?thesis using relay_run.nil [of limit r] by force
  next
    case False
    from ending_step [OF less.prems False] obtain l r1 where s: "relay_step limit r l r1" "l \<noteq> Tick" "l \<noteq> Copied GotData" "ending r1" "work_left r1 < work_left r"
      by blast
    from less.hyps [OF s(5,4) relay_inv_step [OF s(1) less.prems(2) assms(3)]] obtain ms r2 where
      m: "relay_run limit r1 ms r2" "Tick \<notin> set ms" "Copied GotData \<notin> set ms" "length ms \<le> work_left r1" "rl_caller r2 = Returned" by blast
    show ?thesis using run_append [OF m(1) run_one [OF s(1)]] m s by (intro exI [of _ "[l] @ ms"] exI [of _ r2]) auto
  qed
qed

text \<open>Once both ends are closed every step but the passing of time is progress.\<close>

lemma closed_step:
  assumes "relay_step limit r l r'" and "rl_closed r" and "l \<noteq> Tick"
  shows "rl_closed r' \<and> work_left r' < work_left r"
  using assms(1)
proof (cases rule: relay_step.cases)
  case (a_to_b e c)
  then show ?thesis using assms(2) copy_step_fins [OF a_to_b(3)] by (simp add: work_left_def relay_fields)
next
  case (b_to_a e c)
  then show ?thesis using assms(2) copy_step_fins [OF b_to_a(3)] by (simp add: work_left_def relay_fields)
qed (use assms(2,3) in \<open>simp_all add: work_left_def\<close>)

lemma closed_run: "relay_run limit r ms r' \<Longrightarrow> rl_closed r \<Longrightarrow> Tick \<notin> set ms \<Longrightarrow> rl_closed r' \<and> length ms + work_left r' \<le> work_left r"
  by (induction rule: relay_run.induct) (auto dest: closed_step)

text \<open>A silence: without a read every second counts.\<close>

lemma silent_step:
  assumes "relay_step limit r l r'" and "relay_inv limit a b r" and "l \<noteq> Copied GotData"
  shows "(ending r \<longrightarrow> ending r') \<and> (\<not> ending r' \<longrightarrow> rl_idle r' = rl_idle r + (if l = Tick then 1 else 0))"
  using assms(1)
proof (cases rule: relay_step.cases)
  case (a_to_b e c)
  then show ?thesis using assms(2,3) by (auto simp: ending_def relay_fields)
next
  case (b_to_a e c)
  then show ?thesis using assms(2,3) by (auto simp: ending_def relay_fields)
qed (auto simp: ending_def relay_fields)

lemma silent_run:
  "relay_run limit r ms r' \<Longrightarrow> relay_inv limit a b r \<Longrightarrow> 0 < limit \<Longrightarrow> Copied GotData \<notin> set ms \<Longrightarrow> \<not> ending r' \<Longrightarrow> rl_idle r' = rl_idle r + count_list ms Tick"
proof (induction rule: relay_run.induct)
  case (snoc r ls r1 l r2)
  have "relay_inv limit a b r1" using snoc by (blast intro: relay_inv_run)
  from silent_step [OF snoc(2) this] snoc show ?case by auto
qed simp

lemma silent_ends:
  assumes "relay_run limit r ms r'" and "relay_inv limit a b r" and "0 < limit" and "Copied GotData \<notin> set ms" and "limit \<le> count_list ms Tick"
  shows "ending r'"
proof (rule ccontr)
  assume n: "\<not> ending r'"
  then have "rl_idle r' < limit" using relay_inv_run [OF assms(1-3)] by (simp add: relay_inv_def ending_def)
  then show False using silent_run [OF assms(1-4) n] assms(5) by simp
qed

text \<open>
  Claim C19. A relay is never stuck: ninety seconds without a read bring every reachable state to its end, as does the end of one direction; from there at most
  six steps, none of them time or data, let the caller return, and once both ends are closed nothing else than these steps can happen.
\<close>

theorem relay_ends:
  assumes "relay_run relayIdleTimeout (new_relay a b) ls r"
  shows "(\<forall>ms r'. relay_run relayIdleTimeout r ms r' \<and> Copied GotData \<notin> set ms \<and> 90 \<le> count_list ms Tick \<longrightarrow> ending r')
    \<and> (ending r \<longrightarrow> (\<exists>ms r'. relay_run relayIdleTimeout r ms r' \<and> Tick \<notin> set ms \<and> Copied GotData \<notin> set ms \<and> length ms \<le> 6 \<and> rl_caller r' = Returned))
    \<and> (\<forall>ms r'. rl_closed r \<and> relay_run relayIdleTimeout r ms r' \<and> Tick \<notin> set ms \<longrightarrow> Copied GotData \<notin> set ms \<and> length ms \<le> 6)"
proof -
  have p: "0 < relayIdleTimeout" "relayIdleTimeout = 90" by (simp_all add: relayIdleTimeout_def)
  have i: "relay_inv relayIdleTimeout a b r" by (rule relay_inv_run [OF assms relay_inv_new [OF p(1)] p(1)])
  have "Copied GotData \<notin> set ms" if "relay_run relayIdleTimeout r ms r'" "rl_closed r" "Tick \<notin> set ms" for ms r'
    using that
  proof (induction rule: relay_run.induct)
    case (snoc r ls r1 l r2)
    then have "rl_closed r1" using closed_run [OF snoc(1)] by simp
    then show ?case using snoc by (auto elim!: relay_stepE dest: copy_step_fins)
  qed simp
  moreover have "length ms \<le> 6" if "relay_run relayIdleTimeout r ms r'" "rl_closed r" "Tick \<notin> set ms" for ms r'
    using closed_run [OF that] work_left_bound [of r] by simp
  moreover have "ending r'" if "relay_run relayIdleTimeout r ms r'" "Copied GotData \<notin> set ms" "90 \<le> count_list ms Tick" for ms r'
    using silent_ends [OF that(1) i p(1) that(2)] that(3) p(2) by simp
  moreover have "\<exists>ms r'. relay_run relayIdleTimeout r ms r' \<and> Tick \<notin> set ms \<and> Copied GotData \<notin> set ms \<and> length ms \<le> 6 \<and> rl_caller r' = Returned"
    if "ending r"
    using ending_returns [OF that i p(1)] work_left_bound [of r] by (meson order_trans)
  ultimately show ?thesis by blast
qed

definition demo_ended :: relay where
  "demo_ended = after_copy Ended (demo_relay\<lparr>rl_ab := (rl_ab demo_relay)\<lparr>cp_written := [1], cp_pos := Finished\<rparr>\<rparr>)"

lemma demo_ended_run: "relay_run relayIdleTimeout (new_relay [1] []) [Copied GotData, Copied Ended] demo_ended"
proof -
  have "copy_step (rl_closed demo_relay) (rl_ab demo_relay) Ended ((rl_ab demo_relay)\<lparr>cp_written := [1], cp_pos := Finished\<rparr>)"
    using copy_step.write_error [of "rl_ab demo_relay" "[1]" False "rl_closed demo_relay" 1] by (simp add: demo_relay_def relay_fields)
  from relay_run.snoc [OF demo_relay_run [folded relayIdleTimeout_def] relay_step.a_to_b [OF this]] show ?thesis by (simp add: demo_ended_def)
qed

theorem relay_ends_witness:
  "\<exists>ms r'. relay_run relayIdleTimeout demo_ended ms r' \<and> length ms \<le> 6 \<and> rl_caller r' = Returned"
proof -
  have "ending demo_ended" by (simp add: ending_def demo_ended_def relay_fields)
  with relay_ends [OF demo_ended_run] show ?thesis by blast
qed

section \<open>The SNI router\<close>

lemma peek_reads_keep: "pk_buf (fold (\<lambda>n p. snd (peek_Read n p)) ns p) @ pk_conn (fold (\<lambda>n p. snd (peek_Read n p)) ns p) = pk_buf p @ pk_conn p"
  by (induction ns arbitrary: p) (simp_all add: peek_Read_def Let_def)

text \<open>
  Claim C20. What the ends of a routed connection see: the upstream of the client's server name gets exactly what the client sent from its first byte on, and the client
  gets what the TLS library wrote when its handshake was given up, and only then the answer of the upstream. So whenever the library writes an alert, which does not begin
  like a ServerHello, the client does not see the upstream's stream.
\<close>

theorem sni_router_ends:
  assumes "handleConn E R conn server = Relaying alert replayed dest r0" and "relay_run relayIdleTimeout r0 ls r"
  shows "prefix (replayed @ cp_written (rl_ab r)) conn \<and> prefix (cp_written (rl_ba r)) (server dest) \<and> alert = sn_alert E replayed
    \<and> dest = router_resolve (case sn_hello E replayed of None \<Rightarrow> [] | Some name \<Rightarrow> ToLower name) R \<and> dest \<noteq> []
    \<and> (alert \<noteq> [] \<and> server dest \<noteq> [] \<and> hd alert \<noteq> hd (server dest) \<longrightarrow> \<not> prefix (alert @ cp_written (rl_ba r)) (server dest))"
proof -
  let ?p = "fold (\<lambda>n p. snd (peek_Read n p)) (sn_reads E) \<lparr>pk_conn = conn, pk_buf = []\<rparr>"
  have h: "replayed = pk_buf ?p" "alert = sn_alert E (pk_buf ?p)" "dest = router_resolve (case sn_hello E (pk_buf ?p) of None \<Rightarrow> [] | Some name \<Rightarrow> ToLower name) R"
    "dest \<noteq> []" "r0 = new_relay (pk_conn ?p) (server dest)"
    using assms(1) by (auto simp: handleConn_def tls_handshake_def Let_def split: if_splits option.splits)
  have "relay_inv relayIdleTimeout (pk_conn ?p) (server dest) r"
    using assms(2) relay_inv_run relay_inv_new by (simp add: h(5) relayIdleTimeout_def)
  then have w: "prefix (cp_written (rl_ab r)) (pk_conn ?p)" "prefix (cp_written (rl_ba r)) (server dest)"
    by (simp_all add: relay_inv_def copier_inv_prefix)
  have "pk_buf ?p @ pk_conn ?p = conn" using peek_reads_keep [of "sn_reads E" "\<lparr>pk_conn = conn, pk_buf = []\<rparr>"] by simp
  with w(1) have "prefix (replayed @ cp_written (rl_ab r)) conn" unfolding h(1) by (metis same_prefix_prefix)
  moreover have "\<not> prefix (alert @ cp_written (rl_ba r)) (server dest)" if "alert \<noteq> []" "hd alert \<noteq> hd (server dest)"
    using that by (cases alert) (auto simp: prefix_def)
  ultimately show ?thesis using w(2) h by auto
qed

text \<open>Go's library answers with the record of an internal error.\<close>

definition demo_sni :: sni_env where
  "demo_sni = \<lparr>sn_reads = [5, 2], sn_hello = (\<lambda>b. if b = [0x16, 3, 1, 0, 2, 7, 7] then Some ''Example.com'' else None), sn_alert = (\<lambda>b. [0x15, 3, 1, 0, 2, 2, 80]),
     sn_dial = (\<lambda>d. None), sn_replay = (\<lambda>b. None)\<rparr>"

definition demo_router :: Router where
  "demo_router = \<lparr>sr_sniMap = [''example.com'' \<mapsto> ''example.com:443''], sr_defaultDest = [], sr_port = 1\<rparr>"

theorem sni_router_ends_witness:
  "\<exists>alert replayed r0. handleConn demo_sni demo_router [0x16, 3, 1, 0, 2, 7, 7, 9] (\<lambda>d. [0x16, 3, 3]) = Relaying alert replayed ''example.com:443'' r0
    \<and> alert \<noteq> [] \<and> \<not> prefix (alert @ cp_written (rl_ba r0)) [0x16, 3, 3]"
proof -
  have l: "ToLower ''Example.com'' = ''example.com''" by code_simp
  have h: "handleConn demo_sni demo_router [0x16, 3, 1, 0, 2, 7, 7, 9] (\<lambda>d. [0x16, 3, 3]) =
      Relaying [0x15, 3, 1, 0, 2, 2, 80] [0x16, 3, 1, 0, 2, 7, 7] ''example.com:443'' (new_relay [9] [0x16, 3, 3])"
    by (simp add: handleConn_def tls_handshake_def peek_Read_def demo_sni_def demo_router_def router_resolve_def l Let_def)
  have "([0x15, 3, 1, 0, 2, 2, 80] :: bytes) \<noteq> []" "[0x16, 3, 3] \<noteq> ([] :: bytes)" "hd [0x15, 3, 1, 0, 2, 2, 80] \<noteq> (hd [0x16, 3, 3] :: byte)" by simp_all
  with sni_router_ends [OF h relay_run.nil] h show ?thesis by blast
qed

end
