(* ===== verification/Machine.thy ===== *)
theory Machine
  imports Bytes Complex_Main
begin

unbundle bit_operations_syntax

text \<open>
  The process and its machine: the memory limit and the scavenger of \<open>common/memtune\<close>, the key generator for sudoku nodes (\<open>cmd/sudoku_keygen.go\<close>) and the derivation of
  X25519 keys (\<open>common/crypt/x25519.go\<close>). The environment variables and the files of the system are given; parsing of floating-point numbers and the
  cryptography of sudoku are arguments.
\<close>

section \<open>The memory limit\<close>

datatype float_val = Finite rat | Infinite bool | NotANumber

definition float_le0 :: "float_val \<Rightarrow> bool" where
  "float_le0 f = (case f of Finite x \<Rightarrow> x \<le> 0 | Infinite neg \<Rightarrow> neg | NotANumber \<Rightarrow> False)"

definition float_gt1 :: "float_val \<Rightarrow> bool" where
  "float_gt1 f = (case f of Finite x \<Rightarrow> 1 < x | Infinite neg \<Rightarrow> \<not> neg | NotANumber \<Rightarrow> False)"

text \<open>\<open>mm_nan\<close> is what the machine makes of the conversion of no number to \<open>int64\<close>; the product with the ratio is exact here.\<close>

record machine =
  mm_env :: "string \<Rightarrow> string"
  mm_files :: "string \<rightharpoonup> string"
  mm_ParseFloat :: "string \<rightharpoonup> float_val"
  mm_nan :: int

definition Getenv :: "machine \<Rightarrow> string \<Rightarrow> string" where
  "Getenv M v = TrimSpace (mm_env M v)"

definition ParseInt :: "string \<Rightarrow> int option" where
  "ParseInt s = (case Atoi s of (n, ok) \<Rightarrow> if ok then Some n else None)"

text \<open>\<open>bufio.Scanner\<close> gives the lines without their ends, \<open>strings.Fields\<close> the words of a line.\<close>

definition drop_cr :: "string \<Rightarrow> string" where
  "drop_cr s = (if s \<noteq> [] \<and> last s = CHR 0x0D then butlast s else s)"

definition text_lines :: "string \<Rightarrow> string list" where
  "text_lines s = (let ls = map drop_cr (Split (CHR 0x0A) s) in if ls \<noteq> [] \<and> last ls = [] then butlast ls else ls)"

fun Fields_from :: "string \<Rightarrow> string \<Rightarrow> string list" where
  "Fields_from w [] = (if w = [] then [] else [rev w])"
| "Fields_from w (c # cs) = (if is_space c then (if w = [] then Fields_from [] cs else rev w # Fields_from [] cs) else Fields_from (c # w) cs)"

definition Fields :: "string \<Rightarrow> string list" where
  "Fields s = Fields_from [] s"

definition line_bytes :: "string \<Rightarrow> int" where
  "line_bytes line =
     (let fields = Fields line in
      if length fields < 2 then 0
      else (case ParseInt (fields ! 1) of None \<Rightarrow> 0 | Some kb \<Rightarrow> i64 (kb * 1024)))"

definition memTotalFromMeminfo :: "machine \<Rightarrow> int" where
  "memTotalFromMeminfo M =
     (case mm_files M ''/proc/meminfo'' of
        None \<Rightarrow> 0
      | Some text \<Rightarrow>
          (case find (\<lambda>line. CutPrefix line ''MemTotal:'' \<noteq> None) (text_lines text) of
             None \<Rightarrow> 0
           | Some line \<Rightarrow> line_bytes line))"

definition cgroupMemLimit :: "machine \<Rightarrow> int" where
  "cgroupMemLimit M =
     (let v1 = (case mm_files M ''/sys/fs/cgroup/memory/memory.limit_in_bytes'' of
                  None \<Rightarrow> 0
                | Some b \<Rightarrow> (case ParseInt (TrimSpace b) of None \<Rightarrow> 0 | Some n \<Rightarrow> n))
      in case mm_files M ''/sys/fs/cgroup/memory.max'' of
           None \<Rightarrow> v1
         | Some b \<Rightarrow> if TrimSpace b = ''max'' then 0 else (case ParseInt (TrimSpace b) of Some n \<Rightarrow> n | None \<Rightarrow> v1))"

definition cgroupUnlimitedThreshold :: int where
  "cgroupUnlimitedThreshold = 2 ^ 60"

definition detectMemLimit :: "machine \<Rightarrow> int" where
  "detectMemLimit M =
     (let memory = memTotalFromMeminfo M; cg = cgroupMemLimit M in
      if 0 < cg \<and> cg < cgroupUnlimitedThreshold \<and> (memory \<le> 0 \<or> cg < memory) then cg else memory)"

definition ratioFromEnv :: "machine \<Rightarrow> float_val" where
  "ratioFromEnv M =
     (let v = Getenv M ''V2NODE_MEM_LIMIT_RATIO'' in
      if v = [] then Finite (4 / 5)
      else (case mm_ParseFloat M v of
              None \<Rightarrow> Finite (4 / 5)
            | Some f \<Rightarrow> if float_le0 f \<or> float_gt1 f then Finite (4 / 5) else f))"

text \<open>The limit that is set, if any.\<close>

definition memtune_Apply :: "machine \<Rightarrow> int option" where
  "memtune_Apply M =
     (if Getenv M ''GOMEMLIMIT'' \<noteq> [] then None
      else
        (let detected = detectMemLimit M in
         if detected \<le> 0 then None
         else
           (let limit = (case ratioFromEnv M of Finite q \<Rightarrow> \<lfloor>of_int detected * q\<rfloor> | Infinite neg \<Rightarrow> mm_nan M | NotANumber \<Rightarrow> mm_nan M)
            in if limit \<le> 0 then None else Some limit)))"

section \<open>The scavenger\<close>

definition time_Second :: int where
  "time_Second = 1000000000"

definition defaultScavengeInterval :: int where
  "defaultScavengeInterval = 120 * time_Second"

definition scavengeIntervalFromEnv :: "machine \<Rightarrow> int" where
  "scavengeIntervalFromEnv M =
     (let v = Getenv M ''V2NODE_MEM_SCAVENGE_SEC'' in
      if v = [] then defaultScavengeInterval
      else (case Atoi v of (secs, ok) \<Rightarrow> if \<not> ok \<or> secs < 0 then defaultScavengeInterval else i64 (secs * time_Second)))"

definition dumpHeapEnabled :: "machine \<Rightarrow> bool" where
  "dumpHeapEnabled M = (let v = Getenv M ''V2NODE_HEAP_DUMP'' in v = ''1'' \<or> ToLower v = ''true'')"

text \<open>The interval of the goroutine that is started, if any.\<close>

definition StartScavenger :: "machine \<Rightarrow> int option" where
  "StartScavenger M = (let interval = scavengeIntervalFromEnv M in if interval \<le> 0 then None else Some interval)"

record mem_stats =
  st_HeapInuse :: nat
  st_HeapSys :: nat
  st_HeapReleased :: nat
  st_StackInuse :: nat
  st_Sys :: nat
  st_goroutines :: nat

definition mb :: "nat \<Rightarrow> string" where
  "mb n = Itoa (int (n div 1048576))"

definition mem_line :: "mem_stats \<Rightarrow> string" where
  "mem_line m =
     ''heapinuse='' @ mb (st_HeapInuse m) @ ''MB heapsys='' @ mb (st_HeapSys m) @ ''MB released='' @ mb (st_HeapReleased m) @ ''MB stack='' @
     mb (st_StackInuse m) @ ''MB sys='' @ mb (st_Sys m) @ ''MB goroutines='' @ Itoa (int (st_goroutines m)) @ [CHR 0x0A]"

text \<open>A tick: the file with the numbers is written, and the heap profile when that is enabled; a file that cannot be written is left.\<close>

definition scavenge_tick :: "machine \<Rightarrow> (string \<Rightarrow> bool) \<Rightarrow> mem_stats \<Rightarrow> string \<Rightarrow> machine" where
  "scavenge_tick M writable m profile =
     (let put = (\<lambda>p d w. if writable p then w\<lparr>mm_files := (mm_files w)(p \<mapsto> d)\<rparr> else w);
          M1 = put ''/tmp/v2node-mem.txt'' (mem_line m) M
      in if dumpHeapEnabled M then put ''/tmp/v2node-heap.prof'' profile M1 else M1)"

section \<open>Keys\<close>

definition hex_digit :: "nat \<Rightarrow> char" where
  "hex_digit d = (if d < 10 then char_of (48 + d) else char_of (87 + d))"

fun hex_Encode :: "bytes \<Rightarrow> string" where
  "hex_Encode [] = []"
| "hex_Encode (b # bs) = hex_digit (unat b div 16) # hex_digit (unat b mod 16) # hex_Encode bs"

definition hex_value :: "char \<Rightarrow> nat option" where
  "hex_value c =
     (let n = of_char c :: nat in
      if 48 \<le> n \<and> n \<le> 57 then Some (n - 48)
      else if 97 \<le> n \<and> n \<le> 102 then Some (n - 87)
      else if 65 \<le> n \<and> n \<le> 70 then Some (n - 55)
      else None)"

fun hex_Decode :: "string \<Rightarrow> goerror + bytes" where
  "hex_Decode [] = Inr []"
| "hex_Decode [c] = (if hex_value c = None then Inl ''encoding/hex: invalid byte'' else Inl ''encoding/hex: odd length hex string'')"
| "hex_Decode (c # d # cs) =
     (case (hex_value c, hex_value d) of
        (Some x, Some y) \<Rightarrow> (case hex_Decode cs of Inl e \<Rightarrow> Inl e | Inr bs \<Rightarrow> Inr (word_of_nat (16 * x + y) # bs))
      | _ \<Rightarrow> Inl ''encoding/hex: invalid byte'')"

text \<open>The cryptography of sudoku: a split is made with the \<open>i\<close>-th random choice.\<close>

record ('p, 's) sudoku_crypto =
  kc_Recover :: "string \<Rightarrow> goerror + 'p"
  kc_EncodePoint :: "'p \<Rightarrow> string"
  kc_Generate :: "goerror + 'p \<times> 's"
  kc_EncodeScalar :: "'s \<Rightarrow> string"
  kc_ParseScalar :: "string \<Rightarrow> goerror + 's"
  kc_Split :: "nat \<Rightarrow> 's \<Rightarrow> goerror + string"
  kc_sha256 :: "bytes \<Rightarrow> bytes"

record sudokuUser =
  su_SplitKey :: string
  su_UserHash :: string

record sudokuKeygenOutput =
  ko_MasterPublic :: string
  ko_MasterPrivate :: string
  ko_Users :: "sudokuUser list"

definition userHashFromSplit :: "('p, 's) sudoku_crypto \<Rightarrow> string \<Rightarrow> goerror + string" where
  "userHashFromSplit C splitKeyHex =
     (case hex_Decode splitKeyHex of Inl e \<Rightarrow> Inl e | Inr b \<Rightarrow> Inr (hex_Encode (take 8 (kc_sha256 C b))))"

definition split_key :: "('p, 's) sudoku_crypto \<Rightarrow> string \<Rightarrow> 's option \<Rightarrow> nat \<Rightarrow> goerror + string" where
  "split_key C given masterPriv i =
     (case masterPriv of
        Some s \<Rightarrow> (case kc_Split C i s of Inl e \<Rightarrow> Inl (''error: split: '' @ e) | Inr k \<Rightarrow> Inr k)
      | None \<Rightarrow>
          (case kc_ParseScalar C given of
             Inl e \<Rightarrow> Inl (''error: cannot split from --master: '' @ e)
           | Inr s \<Rightarrow> (case kc_Split C i s of Inl e \<Rightarrow> Inl (''error: split: '' @ e) | Inr k \<Rightarrow> Inr k)))"

fun keygen_users :: "('p, 's) sudoku_crypto \<Rightarrow> string \<Rightarrow> 's option \<Rightarrow> nat list \<Rightarrow> goerror + sudokuUser list" where
  "keygen_users C given masterPriv [] = Inr []"
| "keygen_users C given masterPriv (i # ns) =
     (case split_key C given masterPriv i of
        Inl e \<Rightarrow> Inl e
      | Inr k \<Rightarrow>
          (case userHashFromSplit C k of
             Inl e \<Rightarrow> Inl (''error: user hash: '' @ e)
           | Inr h \<Rightarrow>
               (case keygen_users C given masterPriv ns of
                  Inl e \<Rightarrow> Inl e
                | Inr us \<Rightarrow> Inr (\<lparr>su_SplitKey = k, su_UserHash = h\<rparr> # us))))"

text \<open>What the command prints: an error, or the output.\<close>

definition sudoku_keygen :: "('p, 's) sudoku_crypto \<Rightarrow> string \<Rightarrow> int \<Rightarrow> goerror + sudokuKeygenOutput" where
  "sudoku_keygen C given n =
     (case (if given \<noteq> [] then
              (case kc_Recover C given of Inl e \<Rightarrow> Inl (''error: invalid --master: '' @ e) | Inr p \<Rightarrow> Inr (kc_EncodePoint C p, [], None))
            else
              (case kc_Generate C of Inl e \<Rightarrow> Inl (''error: '' @ e) | Inr (p, s) \<Rightarrow> Inr (kc_EncodePoint C p, kc_EncodeScalar C s, Some s))) of
        Inl e \<Rightarrow> Inl e
      | Inr (public, private, masterPriv) \<Rightarrow>
          (case keygen_users C given masterPriv [0..<nat n] of
             Inl e \<Rightarrow> Inl e
           | Inr us \<Rightarrow> Inr \<lparr>ko_MasterPublic = public, ko_MasterPrivate = private, ko_Users = us\<rparr>))"

definition GenX25519Private :: "(bytes \<Rightarrow> bytes) \<Rightarrow> bytes \<Rightarrow> bytes" where
  "GenX25519Private sha256 data =
     (let key = sha256 data;
          k1 = key[0 := (key ! 0) AND 248];
          k2 = k1[31 := (k1 ! 31) AND 127]
      in take 32 (k2[31 := (k2 ! 31) OR 64]))"

end
