(* ===== verification/Machine_Props.thy ===== *)
theory Machine_Props
  imports Machine
begin

text \<open>
  The memory limit stays within what the machine and its control group have, the scavenger's interval is the one that was asked for as long as it fits into 64 bits, the key
  generator prints what a client will send, and derived keys are X25519 scalars.
\<close>

section \<open>Memory\<close>

lemma detect_bounds:
  "0 < memTotalFromMeminfo M \<Longrightarrow> detectMemLimit M \<le> memTotalFromMeminfo M"
  "0 < cgroupMemLimit M \<Longrightarrow> cgroupMemLimit M < cgroupUnlimitedThreshold \<Longrightarrow> detectMemLimit M \<le> cgroupMemLimit M"
  by (auto simp: detectMemLimit_def Let_def)

lemma ratio_bounds: "ratioFromEnv M = Finite q \<Longrightarrow> 0 < q \<and> q \<le> 1"
  by (auto simp: ratioFromEnv_def Let_def float_le0_def float_gt1_def split: option.splits if_splits float_val.splits)

lemma ratio_infinite: "ratioFromEnv M \<noteq> Infinite neg"
  by (auto simp: ratioFromEnv_def Let_def float_le0_def float_gt1_def split: option.splits if_splits float_val.splits)

text \<open>
  A limit is only set when the operator set none; it is positive, and at most the memory of the machine and the limit of its control group, where these
  are known. A ratio that is no number passes the test of its range, and then no limit is set where the conversion of no number is not positive.
\<close>

theorem memory_limit_bounds:
  assumes "memtune_Apply M = Some n" and "mm_nan M \<le> 0"
  shows "Getenv M ''GOMEMLIMIT'' = [] \<and> 0 < n \<and> (0 < memTotalFromMeminfo M \<longrightarrow> n \<le> memTotalFromMeminfo M)
    \<and> (0 < cgroupMemLimit M \<and> cgroupMemLimit M < cgroupUnlimitedThreshold \<longrightarrow> n \<le> cgroupMemLimit M)"
proof -
  obtain q where q: "ratioFromEnv M = Finite q" "n = \<lfloor>of_int (detectMemLimit M) * q\<rfloor>" "0 < n" "0 < detectMemLimit M" "Getenv M ''GOMEMLIMIT'' = []"
    using assms ratio_infinite [of M] by (auto simp: memtune_Apply_def Let_def split: if_splits float_val.splits)
  have "of_int (detectMemLimit M) * q \<le> of_int (detectMemLimit M)"
    using mult_left_mono [of q 1 "of_int (detectMemLimit M)"] ratio_bounds [OF q(1)] q(4) by simp
  then have "n \<le> detectMemLimit M" unfolding q(2) by linarith
  then show ?thesis using detect_bounds [of M] q(3,5) by auto
qed

text \<open>Seconds beyond 9223372036 wrap around: the next number already gives a negative interval, and the scavenger does not start.\<close>

lemma scavenge_interval:
  assumes "Getenv M ''V2NODE_MEM_SCAVENGE_SEC'' = v" and "v \<noteq> []" and "Atoi v = (n, True)"
  shows "0 < n \<Longrightarrow> n \<le> 9223372036 \<Longrightarrow> StartScavenger M = Some (n * time_Second)" and "n = 9223372037 \<Longrightarrow> StartScavenger M = None"
  using assms by (simp_all add: StartScavenger_def scavengeIntervalFromEnv_def time_Second_def i64_id in_i64_def) (simp add: i64_def signed_take_bit_int_eq_self)

lemma scavenge_defaults:
  "Getenv M ''V2NODE_MEM_SCAVENGE_SEC'' = [] \<Longrightarrow> StartScavenger M = Some (120 * time_Second)"
  "Getenv M ''V2NODE_MEM_SCAVENGE_SEC'' = ''0'' \<Longrightarrow> StartScavenger M = None"
  by (simp_all add: StartScavenger_def scavengeIntervalFromEnv_def defaultScavengeInterval_def time_Second_def Atoi_def is_digit_def i64_def)

section \<open>Keys\<close>

lemma hex_value_digit: "d < 16 \<Longrightarrow> hex_value (hex_digit d) = Some d"
  by (auto simp: hex_value_def hex_digit_def Let_def)

lemma hex_round: "hex_Decode (hex_Encode bs) = Inr bs"
proof (induction bs)
  case (Cons b bs)
  have l: "unat b < 256" using unsigned_less [of b, where ?'a = nat] by simp
  then have "hex_value (hex_digit (unat b div 16)) = Some (unat b div 16)" "hex_value (hex_digit (unat b mod 16)) = Some (unat b mod 16)"
    by (simp_all add: hex_value_digit)
  moreover have "word_of_nat (16 * (unat b div 16) + unat b mod 16) = b" by simp
  ultimately show ?case using Cons by (simp del: mult_div_mod_eq)
qed simp

lemma hex_Encode_length: "length (hex_Encode bs) = 2 * length bs"
  by (induction bs) simp_all

lemma keygen_users_props:
  "keygen_users C given mp ns = Inr us \<Longrightarrow> length us = length ns \<and>
     (\<forall>u \<in> set us. \<exists>b. hex_Decode (su_SplitKey u) = Inr b \<and> su_UserHash u = hex_Encode (take 8 (kc_sha256 C b)))"
  by (induction ns arbitrary: us) (auto simp: userHashFromSplit_def split: sum.splits)

text \<open>
  The command prints as many users as were asked for, each with the hash that a client with the split key sends: the first eight bytes of the SHA-256 of the key, in
  hexadecimal digits. The private key is only printed when it was made here.
\<close>

theorem keygen_prints_hashes:
  assumes "sudoku_keygen C given n = Inr out" and "\<And>b. length (kc_sha256 C b) = 32"
  shows "length (ko_Users out) = nat n \<and> (given \<noteq> [] \<longrightarrow> ko_MasterPrivate out = [])
    \<and> (\<forall>u \<in> set (ko_Users out). \<exists>b. hex_Decode (su_SplitKey u) = Inr b \<and> hex_Decode (su_UserHash u) = Inr (take 8 (kc_sha256 C b)) \<and> length (su_UserHash u) = 16)"
proof -
  obtain mp where k: "keygen_users C given mp [0..<nat n] = Inr (ko_Users out)" "given \<noteq> [] \<longrightarrow> ko_MasterPrivate out = []"
    using assms(1) by (auto simp: sudoku_keygen_def split: sum.splits if_splits prod.splits)
  from keygen_users_props [OF k(1)] show ?thesis using k(2) assms(2) by (auto simp: hex_round hex_Encode_length)
qed

text \<open>A derived key is a scalar of X25519: a multiple of eight below \<open>2 ^ 255\<close>, with the bit 254 set.\<close>

theorem derived_key_clamped:
  assumes "length (sha256 data) = 32"
  shows "length (GenX25519Private sha256 data) = 32 \<and> GenX25519Private sha256 data ! 0 AND 7 = 0
    \<and> GenX25519Private sha256 data ! 31 AND 192 = 64"
proof -
  have "(x AND 248) AND 7 = 0" for x :: byte by (simp add: and.assoc)
  moreover have "((x AND 127) OR 64) AND 192 = 64" for x :: byte by (simp add: bit.conj_disj_distrib2 and.assoc)
  ultimately show ?thesis using assms by (simp add: GenX25519Private_def Let_def nth_list_update)
qed

end
