(* ===== verification/Custom_Routes.thy ===== *)
theory Custom_Routes
  imports Sniffing Conf
begin

text \<open>
  The configuration of the core from the routes of the panel (\<open>core/custom.go\<close>, \<open>outbound.go\<close>): name servers, routing rules and outbounds,
  the local files that replace or extend them, and the routing that results. The JSON decoders, the builders of Xray and the files are
  arguments; the rule parser, the rule conditions and the outbound manager are those of the vendored xray-core as far as the program
  uses them. Marshalling a rule cannot fail: it has only strings and lists of strings.
\<close>

section \<open>Configuration objects\<close>

record NameServerConfig =
  ns_Address :: string
  ns_Domains :: "string list"
  ns_SkipFallback :: bool

text \<open>A rule as it is written: the keys that are present.\<close>

record rule =
  ru_port :: "string option"
  ru_network :: "string option"
  ru_inboundTag :: "string option"
  ru_domain :: "string list option"
  ru_ip :: "string list option"
  ru_protocol :: "string list option"
  ru_outboundTag :: string

text \<open>An outbound of the panel or of a file; its settings are left as they are.\<close>

record OutboundDetourConfig =
  od_Protocol :: string
  od_Tag :: string
  od_Settings :: string

record OutboundHandlerConfig =
  oh_Tag :: string
  oh_Detour :: OutboundDetourConfig

record custom =
  cu_QueryStrategy :: string
  cu_Servers :: "NameServerConfig list"
  cu_Rules :: "rule list"
  cu_Outbounds :: "OutboundHandlerConfig option list"

text \<open>
  What the file uses of other code: the addresses of the machine, JSON decoding of an outbound, its builder, the files with the
  decoders of their contents, and the builders of the two configurations. \<open>'d\<close>, \<open>'r\<close> and \<open>'i\<close> are
  what they build.
\<close>

record interface_addr =
  ia_IPNet :: bool
  ia_To4 :: bool
  ia_Loopback :: bool
  ia_LinkLocal :: bool
  ia_Private :: bool

datatype 'x document = Panel 'x | Local string

record ('d, 'r, 'i) custom_lib =
  cl_InterfaceAddrs :: "goerror + interface_addr list"
  cl_Unmarshal :: "string \<Rightarrow> goerror + OutboundDetourConfig"
  cl_UnmarshalArray :: "string \<Rightarrow> goerror + OutboundDetourConfig list"
  cl_Build :: "OutboundDetourConfig \<Rightarrow> goerror + OutboundHandlerConfig"
  cl_ReadFile :: "string \<Rightarrow> goerror + string"
  cl_JSON :: "string \<Rightarrow> bool"
  cl_InboundArray :: "string \<Rightarrow> goerror + string list"
  cl_InboundSingle :: "string \<Rightarrow> goerror + string"
  cl_BuildInbound :: "string \<Rightarrow> goerror + 'i"
  cl_BuildDNS :: "(string \<times> NameServerConfig list) document \<Rightarrow> goerror + 'd"
  cl_BuildRouter :: "rule list document \<Rightarrow> goerror + 'r"

section \<open>The parts\<close>

definition loadJSONFile :: "('d, 'r, 'i) custom_lib \<Rightarrow> string \<Rightarrow> goerror + string" where
  "loadJSONFile L path =
     (case cl_ReadFile L path of Inl e \<Rightarrow> Inl e | Inr b \<Rightarrow> if cl_JSON L b then Inr b else Inl ''invalid json'')"

text \<open>Building a list stops at the first error.\<close>

fun build_each :: "('a \<Rightarrow> goerror + 'b) \<Rightarrow> 'a list \<Rightarrow> goerror + 'b list" where
  "build_each f [] = Inr []"
| "build_each f (x # xs) =
     (case f x of Inl e \<Rightarrow> Inl e | Inr y \<Rightarrow> (case build_each f xs of Inl e \<Rightarrow> Inl e | Inr ys \<Rightarrow> Inr (y # ys)))"

definition loadOutbounds :: "('d, 'r, 'i) custom_lib \<Rightarrow> string \<Rightarrow> goerror + OutboundHandlerConfig list" where
  "loadOutbounds L path =
     (case cl_ReadFile L path of
        Inl e \<Rightarrow> Inl e
      | Inr b \<Rightarrow>
          (case cl_UnmarshalArray L b of
             Inr arr \<Rightarrow> build_each (cl_Build L) arr
           | Inl e \<Rightarrow> (case cl_Unmarshal L b of Inl e2 \<Rightarrow> Inl e | Inr single \<Rightarrow> build_each (cl_Build L) [single])))"

definition loadInbounds :: "('d, 'r, 'i) custom_lib \<Rightarrow> string \<Rightarrow> goerror + 'i list" where
  "loadInbounds L path =
     (case cl_ReadFile L path of
        Inl e \<Rightarrow> Inl e
      | Inr b \<Rightarrow>
          (case cl_InboundArray L b of
             Inr arr \<Rightarrow> build_each (cl_BuildInbound L) arr
           | Inl e \<Rightarrow> (case cl_InboundSingle L b of Inl e2 \<Rightarrow> Inl e | Inr single \<Rightarrow> build_each (cl_BuildInbound L) [single])))"

definition hasPublicIPv6 :: "goerror + interface_addr list \<Rightarrow> bool" where
  "hasPublicIPv6 addrs =
     (case addrs of
        Inl e \<Rightarrow> False
      | Inr as \<Rightarrow> list_ex (\<lambda>a. ia_IPNet a \<and> \<not> ia_To4 a \<and> \<not> ia_Loopback a \<and> \<not> ia_LinkLocal a \<and> \<not> ia_Private a) as)"

fun hasOutboundWithTag :: "OutboundHandlerConfig option list \<Rightarrow> string \<Rightarrow> bool" where
  "hasOutboundWithTag [] tag = False"
| "hasOutboundWithTag (o1 # os) tag = ((case o1 of Some h \<Rightarrow> oh_Tag h = tag | None \<Rightarrow> False) \<or> hasOutboundWithTag os tag)"

definition default_detour :: OutboundDetourConfig where
  "default_detour = \<lparr>od_Protocol = ''freedom'', od_Tag = ''Default'', od_Settings = ''UseIPv4v6''\<rparr>"

definition block_detour :: OutboundDetourConfig where
  "block_detour = \<lparr>od_Protocol = ''blackhole'', od_Tag = ''block'', od_Settings = []\<rparr>"

definition dns_detour :: OutboundDetourConfig where
  "dns_detour = \<lparr>od_Protocol = ''dns'', od_Tag = ''dns_out'', od_Settings = []\<rparr>"

text \<open>The error of a builder is dropped; nothing is stored then.\<close>

definition built :: "('d, 'r, 'i) custom_lib \<Rightarrow> OutboundDetourConfig \<Rightarrow> OutboundHandlerConfig option" where
  "built L d = (case cl_Build L d of Inr h \<Rightarrow> Some h | Inl e \<Rightarrow> None)"

definition no_rule :: "string \<Rightarrow> rule" where
  "no_rule out = \<lparr>ru_port = None, ru_network = None, ru_inboundTag = None, ru_domain = None, ru_ip = None, ru_protocol = None, ru_outboundTag = out\<rparr>"

definition dns_rule :: rule where
  "dns_rule = (no_rule ''dns_out'')\<lparr>ru_port := Some ''53'', ru_network := Some ''udp''\<rparr>"

definition initial_custom :: "('d, 'r, 'i) custom_lib \<Rightarrow> custom" where
  "initial_custom L =
     \<lparr>cu_QueryStrategy = (if hasPublicIPv6 (cl_InterfaceAddrs L) then ''UseIPv4v6'' else ''UseIPv4''),
      cu_Servers = [\<lparr>ns_Address = ''localhost'', ns_Domains = [], ns_SkipFallback = False\<rparr>],
      cu_Rules = [dns_rule], cu_Outbounds = [built L default_detour, built L block_detour, built L dns_detour]\<rparr>"

section \<open>Routes\<close>

definition add_rule :: "rule \<Rightarrow> custom \<Rightarrow> custom" where
  "add_rule r c = c\<lparr>cu_Rules := cu_Rules c @ [r]\<rparr>"

text \<open>
  A route with an outbound of its own: the rule is added first; the outbound only when no outbound has its tag and it can be built.
\<close>

definition add_route :: "('d, 'r, 'i) custom_lib \<Rightarrow> (string \<Rightarrow> rule) \<Rightarrow> string option \<Rightarrow> custom \<Rightarrow> custom" where
  "add_route L mk actionValue c =
     (case actionValue of
        None \<Rightarrow> c
      | Some v \<Rightarrow>
          (case cl_Unmarshal L v of
             Inl e \<Rightarrow> c
           | Inr outbound \<Rightarrow>
               (let c1 = add_rule (mk (od_Tag outbound)) c in
                if hasOutboundWithTag (cu_Outbounds c1) (od_Tag outbound) then c1
                else (case cl_Build L outbound of Inl e \<Rightarrow> c1 | Inr h \<Rightarrow> c1\<lparr>cu_Outbounds := cu_Outbounds c1 @ [Some h]\<rparr>))))"

definition apply_route :: "('d, 'r, 'i) custom_lib \<Rightarrow> string \<Rightarrow> Route \<Rightarrow> custom \<Rightarrow> custom" where
  "apply_route L tag route c =
     (let inb = (\<lambda>out. (no_rule out)\<lparr>ru_inboundTag := Some tag\<rparr>) in
      if rt_Action route = ''dns'' then
        (case rt_ActionValue route of
           None \<Rightarrow> c
         | Some v \<Rightarrow>
             c\<lparr>cu_Servers := cu_Servers c @
                 [if rt_Match route \<noteq> [] then \<lparr>ns_Address = v, ns_Domains = rt_Match route, ns_SkipFallback = True\<rparr>
                  else \<lparr>ns_Address = v, ns_Domains = [], ns_SkipFallback = False\<rparr>]\<rparr>)
      else if rt_Action route = ''block'' then add_rule ((inb ''block'')\<lparr>ru_domain := Some (rt_Match route)\<rparr>) c
      else if rt_Action route = ''block_ip'' then add_rule ((inb ''block'')\<lparr>ru_ip := Some (rt_Match route)\<rparr>) c
      else if rt_Action route = ''block_port'' then add_rule ((inb ''block'')\<lparr>ru_port := Some (Join (rt_Match route) '','')\<rparr>) c
      else if rt_Action route = ''protocol'' then add_rule ((inb ''block'')\<lparr>ru_protocol := Some (rt_Match route)\<rparr>) c
      else if rt_Action route = ''route'' then add_route L (\<lambda>out. (inb out)\<lparr>ru_domain := Some (rt_Match route)\<rparr>) (rt_ActionValue route) c
      else if rt_Action route = ''route_ip'' then add_route L (\<lambda>out. (inb out)\<lparr>ru_ip := Some (rt_Match route)\<rparr>) (rt_ActionValue route) c
      else if rt_Action route = ''default_out'' then add_route L (\<lambda>out. (inb out)\<lparr>ru_network := Some ''tcp,udp''\<rparr>) (rt_ActionValue route) c
      else c)"

text \<open>All routes of all nodes; a node without a configuration makes it panic.\<close>

fun apply_nodes :: "('d, 'r, 'i) custom_lib \<Rightarrow> NodeInfo list \<Rightarrow> custom \<Rightarrow> custom outcome" where
  "apply_nodes L [] c = Return c"
| "apply_nodes L (info # infos) c =
     (case ni_Common info of
        None \<Rightarrow> Panic ''nil pointer dereference''
      | Some cm \<Rightarrow> apply_nodes L infos (fold (apply_route L (ni_Tag info)) (cn_Routes cm) c))"

definition is_local :: "string \<Rightarrow> bool" where
  "is_local mode \<longleftrightarrow> ToLower mode = ''local''"

definition local_document :: "('d, 'r, 'i) custom_lib \<Rightarrow> string \<Rightarrow> string \<Rightarrow> string \<Rightarrow> 'x \<Rightarrow> 'x document outcome" where
  "local_document L what mode path x =
     (if is_local mode \<and> path \<noteq> [] then
        (case loadJSONFile L path of Inl e \<Rightarrow> Error (''load local '' @ what @ '' config: '' @ e) | Inr b \<Rightarrow> Return (Local b))
      else Return (Panel x))"

definition with_error :: "string \<Rightarrow> goerror + 'a \<Rightarrow> 'a outcome" where
  "with_error what r = (case r of Inl e \<Rightarrow> Error (what @ e) | Inr x \<Rightarrow> Return x)"

definition GetCustomConfig ::
  "('d, 'r, 'i) custom_lib \<Rightarrow> NodeInfo list \<Rightarrow> GlobalConfig \<Rightarrow> ('d \<times> OutboundHandlerConfig option list \<times> 'r \<times> 'i list) outcome" where
  "GetCustomConfig L infos global =
     obind (apply_nodes L infos (initial_custom L)) (\<lambda>c.
     obind (local_document L ''dns'' (gc_DnsMode global) (gc_DnsConfigPath global) (cu_QueryStrategy c, cu_Servers c)) (\<lambda>dnsDoc.
     obind (local_document L ''route'' (gc_RouteMode global) (gc_RouteConfigPath global) (cu_Rules c)) (\<lambda>routeDoc.
     obind (if gc_OutboundConfigPath global \<noteq> [] then with_error ''load local outbound config: '' (loadOutbounds L (gc_OutboundConfigPath global))
            else Return []) (\<lambda>obs.
     obind (with_error [] (cl_BuildDNS L dnsDoc)) (\<lambda>dnsConfig.
     obind (with_error [] (cl_BuildRouter L routeDoc)) (\<lambda>routerConfig.
     obind (if gc_InboundConfigPath global \<noteq> [] then with_error ''load local inbound config: '' (loadInbounds L (gc_InboundConfigPath global))
            else Return []) (\<lambda>inbounds.
     Return (dnsConfig, cu_Outbounds c @ map Some obs, routerConfig, inbounds))))))))"

text \<open>\<open>getCore\<close> panics when there is an error.\<close>

definition core_config ::
  "('d, 'r, 'i) custom_lib \<Rightarrow> NodeInfo list \<Rightarrow> GlobalConfig \<Rightarrow> ('d \<times> OutboundHandlerConfig option list \<times> 'r \<times> 'i list) outcome" where
  "core_config L infos global =
     (case GetCustomConfig L infos global of Error e \<Rightarrow> Panic ''failed to build custom config'' | r \<Rightarrow> r)"

section \<open>Rules and outbounds of Xray\<close>

text \<open>
  The parser of a rule: a rule without an outbound tag is refused; the lists of domains and addresses and the ports have parsers of their own,
  which are arguments. A rule list is refused with its first refused rule.
\<close>

record rule_parsers =
  rp_Domain :: "string list \<Rightarrow> bool"
  rp_IP :: "string list \<Rightarrow> bool"
  rp_Port :: "string \<Rightarrow> bool"

definition parse_rule :: "rule_parsers \<Rightarrow> rule \<Rightarrow> goerror + rule" where
  "parse_rule P r =
     (if \<not> (case ru_port r of Some p \<Rightarrow> rp_Port P p | None \<Rightarrow> True) then Inl ''invalid field rule''
      else if ru_outboundTag r = [] then Inl ''neither outboundTag nor balancerTag is specified in routing rule''
      else if \<not> (case ru_domain r of Some ds \<Rightarrow> rp_Domain P ds | None \<Rightarrow> True) then Inl ''invalid field rule''
      else if \<not> (case ru_ip r of Some ips \<Rightarrow> rp_IP P ips | None \<Rightarrow> True) then Inl ''invalid field rule''
      else Inr r)"

definition parse_rules :: "rule_parsers \<Rightarrow> rule list \<Rightarrow> goerror + rule list" where
  "parse_rules P rs = build_each (parse_rule P) rs"

text \<open>
  The conditions of a connection: its inbound tag, and what a domain, an address list, a port list, a list of protocols and a network match. A condition
  with an empty list is none. The tags of a rule are the parts of the text between commas.
\<close>

record conn =
  co_Tag :: string
  co_Domain :: "string list \<Rightarrow> bool"
  co_IP :: "string list \<Rightarrow> bool"
  co_Port :: "string \<Rightarrow> bool"
  co_Protocol :: "string list \<Rightarrow> bool"
  co_Network :: "string \<Rightarrow> bool"

definition list_cond :: "(string list \<Rightarrow> bool) \<Rightarrow> string list option \<Rightarrow> bool" where
  "list_cond f xs = (case xs of Some (y # ys) \<Rightarrow> f (y # ys) | _ \<Rightarrow> True)"

definition rule_applies :: "conn \<Rightarrow> rule \<Rightarrow> bool" where
  "rule_applies k r \<longleftrightarrow>
     (case ru_inboundTag r of None \<Rightarrow> True | Some t \<Rightarrow> co_Tag k \<noteq> [] \<and> co_Tag k \<in> set (Split CHR '','' t))
     \<and> (case ru_network r of None \<Rightarrow> True | Some n \<Rightarrow> co_Network k n)
     \<and> list_cond (co_Protocol k) (ru_protocol r)
     \<and> (case ru_port r of None \<Rightarrow> True | Some p \<Rightarrow> co_Port k p)
     \<and> list_cond (co_IP k) (ru_ip r)
     \<and> list_cond (co_Domain k) (ru_domain r)"

fun PickRoute :: "rule list \<Rightarrow> conn \<Rightarrow> string option" where
  "PickRoute [] k = None"
| "PickRoute (r # rs) k = (if rule_applies k r then Some (ru_outboundTag r) else PickRoute rs k)"

text \<open>The outbound manager of a configuration: the first outbound is the default one.\<close>

definition outbound_manager :: "OutboundHandlerConfig option list \<Rightarrow> outbounds" where
  "outbound_manager os =
     \<lparr>om_has = (\<lambda>t. t \<noteq> [] \<and> hasOutboundWithTag os t), om_default = (case os of Some h # _ \<Rightarrow> Some (oh_Tag h) | _ \<Rightarrow> None)\<rparr>"

text \<open>Where a connection goes in a core with these rules and outbounds.\<close>

definition route_connection :: "custom \<Rightarrow> conn \<Rightarrow> routed" where
  "route_connection c k = routedDispatch (outbound_manager (cu_Outbounds c)) [] (Some (PickRoute (cu_Rules c) k))"

end
