(* ===== verification/Custom_Props.thy ===== *)
theory Custom_Props
  imports Custom_Routes
begin

text \<open>
  Where connections go: the routes of one node do not affect another, every connection is handled by the outbound of the first rule that
  matches or is closed, and a route without a tag stops the start of all nodes.
\<close>

section \<open>The rules and outbounds of a route\<close>

definition route_outbound :: "('d, 'r, 'i) custom_lib \<Rightarrow> Route \<Rightarrow> OutboundDetourConfig option" where
  "route_outbound L route =
     (if rt_Action route \<in> {''route'', ''route_ip'', ''default_out''} then
        (case rt_ActionValue route of None \<Rightarrow> None | Some v \<Rightarrow> (case cl_Unmarshal L v of Inl e \<Rightarrow> None | Inr ob \<Rightarrow> Some ob))
      else None)"

text \<open>What a route means: the rule it contributes.\<close>

definition route_rules :: "('d, 'r, 'i) custom_lib \<Rightarrow> string \<Rightarrow> Route \<Rightarrow> rule list" where
  "route_rules L tag route =
     (let inb = (\<lambda>out. (no_rule out)\<lparr>ru_inboundTag := Some tag\<rparr>); a = rt_Action route; m = rt_Match route in
      if a = ''block'' then [(inb ''block'')\<lparr>ru_domain := Some m\<rparr>]
      else if a = ''block_ip'' then [(inb ''block'')\<lparr>ru_ip := Some m\<rparr>]
      else if a = ''block_port'' then [(inb ''block'')\<lparr>ru_port := Some (Join m '','')\<rparr>]
      else if a = ''protocol'' then [(inb ''block'')\<lparr>ru_protocol := Some m\<rparr>]
      else
        (case route_outbound L route of
           None \<Rightarrow> []
         | Some ob \<Rightarrow>
             if a = ''route'' then [(inb (od_Tag ob))\<lparr>ru_domain := Some m\<rparr>]
             else if a = ''route_ip'' then [(inb (od_Tag ob))\<lparr>ru_ip := Some m\<rparr>]
             else [(inb (od_Tag ob))\<lparr>ru_network := Some ''tcp,udp''\<rparr>]))"

definition node_rules :: "('d, 'r, 'i) custom_lib \<Rightarrow> NodeInfo \<Rightarrow> rule list" where
  "node_rules L info = (case ni_Common info of None \<Rightarrow> [] | Some cm \<Rightarrow> concat (map (route_rules L (ni_Tag info)) (cn_Routes cm)))"

definition node_outbounds :: "('d, 'r, 'i) custom_lib \<Rightarrow> NodeInfo \<Rightarrow> OutboundDetourConfig list" where
  "node_outbounds L info = (case ni_Common info of None \<Rightarrow> [] | Some cm \<Rightarrow> List.map_filter (route_outbound L) (cn_Routes cm))"

text \<open>Adding outbounds one by one: a taken tag or a failed build adds nothing.\<close>

definition add_outbound :: "('d, 'r, 'i) custom_lib \<Rightarrow> OutboundDetourConfig \<Rightarrow> OutboundHandlerConfig option list \<Rightarrow> OutboundHandlerConfig option list" where
  "add_outbound L d os =
     (if hasOutboundWithTag os (od_Tag d) then os else (case cl_Build L d of Inl e \<Rightarrow> os | Inr h \<Rightarrow> os @ [Some h]))"

lemma add_route_fields:
  "cu_Rules (add_route L mk v c) = cu_Rules c @ (case v of None \<Rightarrow> [] | Some x \<Rightarrow> (case cl_Unmarshal L x of Inl e \<Rightarrow> [] | Inr ob \<Rightarrow> [mk (od_Tag ob)]))"
  "cu_Outbounds (add_route L mk v c) = (case v of None \<Rightarrow> cu_Outbounds c | Some x \<Rightarrow> (case cl_Unmarshal L x of Inl e \<Rightarrow> cu_Outbounds c | Inr ob \<Rightarrow> add_outbound L ob (cu_Outbounds c)))"
  by (simp_all add: add_route_def add_rule_def add_outbound_def Let_def split: option.split sum.split)

lemma apply_route_rules: "cu_Rules (apply_route L tag r c) = cu_Rules c @ route_rules L tag r"
  by (simp add: apply_route_def route_rules_def route_outbound_def Let_def add_rule_def add_route_fields split: option.split sum.split)

lemma apply_route_outbounds:
  "cu_Outbounds (apply_route L tag r c) = (case route_outbound L r of None \<Rightarrow> cu_Outbounds c | Some ob \<Rightarrow> add_outbound L ob (cu_Outbounds c))"
  by (simp add: apply_route_def route_outbound_def Let_def add_rule_def add_route_fields split: option.split sum.split)

lemma apply_routes:
  "cu_Rules (fold (apply_route L tag) rs c) = cu_Rules c @ concat (map (route_rules L tag) rs)"
  "cu_Outbounds (fold (apply_route L tag) rs c) = fold (add_outbound L) (List.map_filter (route_outbound L) rs) (cu_Outbounds c)"
  by (induction rs arbitrary: c) (simp_all add: apply_route_rules apply_route_outbounds List.map_filter_simps split: option.split)

lemma apply_nodes_Return:
  "apply_nodes L infos c = Return c' \<Longrightarrow>
     cu_Rules c' = cu_Rules c @ concat (map (node_rules L) infos)
     \<and> cu_Outbounds c' = fold (add_outbound L) (concat (map (node_outbounds L) infos)) (cu_Outbounds c)"
  by (induction infos arbitrary: c) (auto simp: node_rules_def node_outbounds_def apply_routes split: option.splits)

section \<open>Isolation of nodes\<close>

lemma PickRoute_append: "PickRoute (rs @ rs') k = (case PickRoute rs k of Some t \<Rightarrow> Some t | None \<Rightarrow> PickRoute rs' k)"
  by (induction rs) simp_all

lemma PickRoute_None: "(\<And>r. r \<in> set rs \<Longrightarrow> \<not> rule_applies k r) \<Longrightarrow> PickRoute rs k = None"
  by (induction rs) simp_all

lemma route_rules_tag: "r \<in> set (route_rules L tag route) \<Longrightarrow> ru_inboundTag r = Some tag"
  by (auto simp: route_rules_def Let_def split: if_splits option.splits)

lemma node_rules_tag: "r \<in> set (node_rules L info) \<Longrightarrow> ru_inboundTag r = Some (ni_Tag info)"
  by (auto simp: node_rules_def dest: route_rules_tag split: option.splits)

lemma Split_plain: "sep \<notin> set s \<Longrightarrow> Split sep s = [s]"
  by (induction s) auto

lemma rule_other_tag:
  assumes "ru_inboundTag r = Some t" and "CHR '','' \<notin> set t" and "t \<noteq> co_Tag k"
  shows "\<not> rule_applies k r"
proof -
  have "Split CHR '','' t = [t]" using assms(2) by (rule Split_plain)
  then show ?thesis using assms(1,3) by (simp add: rule_applies_def)
qed

lemma PickRoute_nodes:
  assumes "\<forall>info \<in> set infos. CHR '','' \<notin> set (ni_Tag info)"
  shows "PickRoute (concat (map (node_rules L) infos)) k = PickRoute (concat (map (node_rules L) (filter (\<lambda>i. ni_Tag i = co_Tag k) infos))) k"
  using assms
proof (induction infos)
  case (Cons info infos)
  then show ?case
  proof (cases "ni_Tag info = co_Tag k")
    case False
    have "PickRoute (node_rules L info) k = None"
      using rule_other_tag [OF node_rules_tag _ False] Cons.prems by (intro PickRoute_None) auto
    then show ?thesis using Cons False by (simp add: PickRoute_append)
  qed (simp add: PickRoute_append cong: option.case_cong)
qed simp

text \<open>
  The routes of a node affect only its own connections: in the rules that are built from all nodes, a connection is routed as if only the
  nodes with the tag of its inbound and the rule for DNS existed, wherever they stand among the others.
\<close>

theorem node_routes_isolated:
  assumes "apply_nodes L infos (initial_custom L) = Return c" and "\<forall>info \<in> set infos. CHR '','' \<notin> set (ni_Tag info)"
  shows "PickRoute (cu_Rules c) k = PickRoute (dns_rule # concat (map (node_rules L) (filter (\<lambda>i. ni_Tag i = co_Tag k) infos))) k"
proof -
  have "cu_Rules c = dns_rule # concat (map (node_rules L) infos)"
    using apply_nodes_Return [OF assms(1)] by (simp add: initial_custom_def)
  then show ?thesis by (simp add: PickRoute_nodes [OF assms(2), of L k])
qed

definition demo_conn :: "string \<Rightarrow> conn" where
  "demo_conn tag = \<lparr>co_Tag = tag, co_Domain = (\<lambda>ds. ''a.com'' \<in> set ds), co_IP = (\<lambda>x. False), co_Port = (\<lambda>p. p = ''443''), co_Protocol = (\<lambda>x. False),
     co_Network = (\<lambda>n. n = ''tcp,udp'')\<rparr>"

definition demo_node :: "string \<Rightarrow> Route list \<Rightarrow> NodeInfo" where
  "demo_node tag routes = \<lparr>ni_Id = 1, ni_Type = ''vless'', ni_Security = 0, ni_PushInterval = 60, ni_PullInterval = 60, ni_Tag = tag,
     ni_Common = Some (zero_CommonNode\<lparr>cn_Routes := routes\<rparr>)\<rparr>"

definition demo_route :: "string \<Rightarrow> string list \<Rightarrow> string option \<Rightarrow> Route" where
  "demo_route a m v = \<lparr>rt_Id = 1, rt_Match = m, rt_Action = a, rt_ActionValue = v\<rparr>"

definition demo_lib :: "(unit, unit, unit) custom_lib" where
  "demo_lib = \<lparr>cl_InterfaceAddrs = Inr [], cl_Unmarshal = (\<lambda>v. Inr \<lparr>od_Protocol = ''socks'', od_Tag = v, od_Settings = []\<rparr>),
     cl_UnmarshalArray = (\<lambda>b. Inl ''no array''), cl_Build = (\<lambda>d. if od_Tag d = ''broken'' then Inl ''bad settings'' else Inr \<lparr>oh_Tag = od_Tag d, oh_Detour = d\<rparr>),
     cl_ReadFile = (\<lambda>p. Inl ''no file''), cl_JSON = (\<lambda>b. True), cl_InboundArray = (\<lambda>b. Inl ''no array''), cl_InboundSingle = (\<lambda>b. Inl ''none''),
     cl_BuildInbound = (\<lambda>b. Inl ''none''), cl_BuildDNS = (\<lambda>x. Inr ()),
     cl_BuildRouter = (\<lambda>x. case x of Local b \<Rightarrow> Inr () | Panel rs \<Rightarrow> (case parse_rules \<lparr>rp_Domain = (\<lambda>d. True), rp_IP = (\<lambda>d. True), rp_Port = (\<lambda>p. True)\<rparr> rs of
                          Inl e \<Rightarrow> Inl e | Inr r \<Rightarrow> Inr ()))\<rparr>"

definition demo_nodes :: "NodeInfo list" where
  "demo_nodes = [demo_node ''n1'' [demo_route ''block'' [''a.com''] None], demo_node ''n2'' [demo_route ''route'' [''a.com''] (Some ''broken'')]]"

lemma demo_nodes_Return: "\<exists>c. apply_nodes demo_lib demo_nodes (initial_custom demo_lib) = Return c"
  by (simp add: demo_nodes_def demo_node_def)

theorem node_routes_isolated_witness:
  "\<exists>c. apply_nodes demo_lib demo_nodes (initial_custom demo_lib) = Return c \<and> PickRoute (cu_Rules c) (demo_conn ''n1'') = Some ''block''"
proof -
  obtain c where c: "apply_nodes demo_lib demo_nodes (initial_custom demo_lib) = Return c" using demo_nodes_Return by blast
  have t: "\<forall>info \<in> set demo_nodes. CHR '','' \<notin> set (ni_Tag info)" by (simp add: demo_nodes_def demo_node_def)
  have "PickRoute (cu_Rules c) (demo_conn ''n1'') = Some ''block''"
    unfolding node_routes_isolated [OF c t]
    by (simp add: demo_nodes_def demo_node_def demo_conn_def node_rules_def route_rules_def demo_route_def dns_rule_def no_rule_def rule_applies_def list_cond_def)
  with c show ?thesis by blast
qed

section \<open>Where a connection goes\<close>

definition builds_ok :: "('d, 'r, 'i) custom_lib \<Rightarrow> bool" where
  "builds_ok L \<longleftrightarrow> (\<forall>d h. cl_Build L d = Inr h \<longrightarrow> oh_Tag h = od_Tag d)
     \<and> (\<forall>d \<in> {default_detour, block_detour, dns_detour}. \<exists>h. cl_Build L d = Inr h)"

definition buildable :: "('d, 'r, 'i) custom_lib \<Rightarrow> OutboundDetourConfig \<Rightarrow> bool" where
  "buildable L d = (case cl_Build L d of Inl e \<Rightarrow> False | Inr h \<Rightarrow> True)"

lemma hasOutboundWithTag_append: "hasOutboundWithTag (xs @ ys) t \<longleftrightarrow> hasOutboundWithTag xs t \<or> hasOutboundWithTag ys t"
  by (induction xs) auto

lemma add_outbound_has:
  assumes "\<forall>d h. cl_Build L d = Inr h \<longrightarrow> oh_Tag h = od_Tag d"
  shows "hasOutboundWithTag (add_outbound L d os) t \<longleftrightarrow> hasOutboundWithTag os t \<or> (od_Tag d = t \<and> buildable L d)"
  using assms by (auto simp: add_outbound_def buildable_def hasOutboundWithTag_append split: sum.splits)

lemma add_outbounds_has:
  assumes "\<forall>d h. cl_Build L d = Inr h \<longrightarrow> oh_Tag h = od_Tag d"
  shows "hasOutboundWithTag (fold (add_outbound L) ds os) t \<longleftrightarrow> hasOutboundWithTag os t \<or> (\<exists>d \<in> set ds. od_Tag d = t \<and> buildable L d)"
proof (induction ds arbitrary: os)
  case (Cons d ds)
  show ?case by (auto simp: Cons.IH add_outbound_has [OF assms])
qed simp

lemma add_outbounds_prefix: "\<exists>more_os. fold (add_outbound L) ds os = os @ more_os"
proof (induction ds arbitrary: os)
  case (Cons d ds)
  have "\<exists>xs. add_outbound L d os = os @ xs" by (simp add: add_outbound_def split: sum.split)
  then show ?case using Cons.IH [of "add_outbound L d os"] by auto
qed simp

text \<open>
  Claim C8. Every connection goes where the first matching rule says, or nowhere: the default outbound only gets what no rule matches. When the outbound
  of the rule is one of the three that always exist or belongs to a route and could be built, it handles the connection; otherwise the
  connection is closed and never sent out directly.
\<close>

theorem connections_follow_rules:
  assumes "builds_ok L" and "apply_nodes L infos (initial_custom L) = Return c"
  shows "route_connection c k =
    (case PickRoute (cu_Rules c) k of
       None \<Rightarrow> Handled 0 ''Default''
     | Some t \<Rightarrow>
         if t \<in> {''Default'', ''block'', ''dns_out''} \<or> (t \<noteq> [] \<and> (\<exists>info \<in> set infos. \<exists>d \<in> set (node_outbounds L info). od_Tag d = t \<and> buildable L d))
         then Handled 2 t else LinkClosed)"
proof -
  obtain h1 h2 h3 where h: "cl_Build L default_detour = Inr h1" "cl_Build L block_detour = Inr h2" "cl_Build L dns_detour = Inr h3"
    using assms(1) by (auto simp: builds_ok_def)
  have keeps: "\<forall>d h. cl_Build L d = Inr h \<longrightarrow> oh_Tag h = od_Tag d" using assms(1) by (simp add: builds_ok_def)
  then have tags: "oh_Tag h1 = ''Default''" "oh_Tag h2 = ''block''" "oh_Tag h3 = ''dns_out''"
    using h by (auto simp: default_detour_def block_detour_def dns_detour_def)
  have i: "cu_Outbounds (initial_custom L) = [Some h1, Some h2, Some h3]" by (simp add: initial_custom_def built_def h)
  let ?ds = "concat (map (node_outbounds L) infos)"
  have o: "cu_Outbounds c = fold (add_outbound L) ?ds [Some h1, Some h2, Some h3]" using apply_nodes_Return [OF assms(2)] i by simp
  then obtain os where os: "cu_Outbounds c = Some h1 # os" using add_outbounds_prefix [of L ?ds "[Some h1, Some h2, Some h3]"] by auto
  have "hasOutboundWithTag (cu_Outbounds c) t \<longleftrightarrow> t \<in> {''Default'', ''block'', ''dns_out''} \<or> (\<exists>info \<in> set infos. \<exists>d \<in> set (node_outbounds L info). od_Tag d = t \<and> buildable L d)" for t
    unfolding o add_outbounds_has [OF keeps] by (auto simp: tags)
  moreover have "om_default (outbound_manager (cu_Outbounds c)) = Some ''Default''" by (simp add: outbound_manager_def os tags)
  ultimately show ?thesis by (auto simp: route_connection_def routedDispatch_def Let_def outbound_manager_def split: option.split)
qed

theorem connections_follow_rules_witness:
  "\<exists>c. apply_nodes demo_lib demo_nodes (initial_custom demo_lib) = Return c \<and> route_connection c (demo_conn ''n2'') = LinkClosed \<and> route_connection c (demo_conn ''n3'') = Handled 0 ''Default''"
proof -
  obtain c where c: "apply_nodes demo_lib demo_nodes (initial_custom demo_lib) = Return c" using demo_nodes_Return by blast
  have ok: "builds_ok demo_lib" by (auto simp: builds_ok_def demo_lib_def default_detour_def block_detour_def dns_detour_def split: if_splits)
  have r: "cu_Rules c = dns_rule # concat (map (node_rules demo_lib) demo_nodes)" using apply_nodes_Return [OF c] by (simp add: initial_custom_def)
  have "route_connection c (demo_conn ''n2'') = LinkClosed" "route_connection c (demo_conn ''n3'') = Handled 0 ''Default''"
    unfolding connections_follow_rules [OF ok c] r
    by (simp_all add: demo_nodes_def demo_node_def demo_conn_def node_rules_def route_rules_def route_outbound_def demo_route_def dns_rule_def no_rule_def rule_applies_def
        list_cond_def demo_lib_def node_outbounds_def List.map_filter_simps buildable_def)
  with c show ?thesis by blast
qed

section \<open>A route without a tag\<close>

lemma parse_rules_tagless: "r \<in> set rs \<Longrightarrow> ru_outboundTag r = [] \<Longrightarrow> \<exists>e. parse_rules P rs = Inl e"
proof (unfold parse_rules_def, induction rs)
  case (Cons r' rs)
  have "ru_outboundTag r' = [] \<Longrightarrow> \<exists>e. parse_rule P r' = Inl e" by (simp add: parse_rule_def)
  then show ?case using Cons by (auto split: sum.splits)
qed simp

text \<open>
  One route without an outbound tag keeps all nodes from starting: when any node has a route to an outbound whose JSON has no tag, building
  the core panics, whatever the other nodes are and with valid routes everywhere else, unless the routes are replaced by a local file.
\<close>

theorem tagless_route_stops_all:
  assumes "info \<in> set infos" and "ni_Common info = Some cm" and "route \<in> set (cn_Routes cm)"
    and "route_outbound L route = Some ob" and "od_Tag ob = []" and "\<not> is_local (gc_RouteMode global)"
    and "\<forall>rs e. parse_rules P rs = Inl e \<longrightarrow> (\<exists>e'. cl_BuildRouter L (Panel rs) = Inl e')"
  shows "\<exists>p. core_config L infos global = Panic p"
proof (cases "apply_nodes L infos (initial_custom L)")
  case (Return c)
  have "\<exists>r \<in> set (route_rules L (ni_Tag info) route). ru_outboundTag r = []"
    using assms(4,5) by (auto simp: route_rules_def route_outbound_def Let_def no_rule_def split: if_splits)
  then obtain r where "r \<in> set (route_rules L (ni_Tag info) route)" "ru_outboundTag r = []" by blast
  moreover from this(1) have "r \<in> set (node_rules L info)" using assms(2,3) by (auto simp: node_rules_def)
  then have "r \<in> set (cu_Rules c)" using apply_nodes_Return [OF Return] assms(1) by auto
  ultimately obtain e where "parse_rules P (cu_Rules c) = Inl e" using parse_rules_tagless [of r "cu_Rules c" P] by blast
  with assms(7) obtain e' where e': "cl_BuildRouter L (Panel (cu_Rules c)) = Inl e'" by blast
  have l: "local_document L ''route'' (gc_RouteMode global) (gc_RouteConfigPath global) (cu_Rules c) = Return (Panel (cu_Rules c))"
    using assms(6) by (simp add: local_document_def)
  have "\<exists>e. GetCustomConfig L infos global = Error e"
    unfolding GetCustomConfig_def Return obind.simps(1) l
    by (auto simp: local_document_def with_error_def e' split: sum.split)
  then show ?thesis by (auto simp: core_config_def)
next
  case (Error e)
  then show ?thesis by (simp add: core_config_def GetCustomConfig_def)
next
  case (Panic p)
  then show ?thesis by (simp add: core_config_def GetCustomConfig_def)
qed

definition panel_global :: GlobalConfig where
  "panel_global = \<lparr>gc_PullInterval = 0, gc_DisableSniffing = False, gc_AutoSpeedLimit = None, gc_Cert = None, gc_Policy = None, gc_ApiIPStrategy = [],
     gc_RouteMode = ''panel'', gc_DnsMode = ''panel'', gc_RouteConfigPath = [], gc_DnsConfigPath = [], gc_InboundConfigPath = [], gc_OutboundConfigPath = [],
     gc_SingBoxPath = [], gc_SingBoxDir = []\<rparr>"

theorem tagless_route_stops_all_witness:
  "\<exists>p. core_config demo_lib [demo_node ''good'' [], demo_node ''bad'' [demo_route ''route'' [''a.com''] (Some [])]] panel_global = Panic p"
  by (rule tagless_route_stops_all [where info = "demo_node ''bad'' [demo_route ''route'' [''a.com''] (Some [])]" and route = "demo_route ''route'' [''a.com''] (Some [])"
        and cm = "zero_CommonNode\<lparr>cn_Routes := [demo_route ''route'' [''a.com''] (Some [])]\<rparr>" and ob = "\<lparr>od_Protocol = ''socks'', od_Tag = [], od_Settings = []\<rparr>"
        and P = "\<lparr>rp_Domain = (\<lambda>d. True), rp_IP = (\<lambda>d. True), rp_Port = (\<lambda>p. True)\<rparr>"])
    (simp_all add: demo_node_def demo_route_def route_outbound_def demo_lib_def is_local_def panel_global_def ToLower_def lower_char_def)

end
