(* ===== verification/Lego.thy ===== *)
theory Lego
  imports Controller
begin

text \<open>
  Certificates (\<open>node/lego.go\<close>, the self-signed ones of \<open>node/cert.go\<close>): the ACME account, which is kept in a file, requesting and renewing a
  certificate, and the files that are written. The ACME client, PEM, X.509 and JSON are arguments; the machine is its files, its
  directories and its environment variables, and may refuse to make a directory or to open a file. Paths are those of the package \<open>path\<close>.
\<close>

section \<open>Paths and files\<close>

fun clean_parts :: "bool \<Rightarrow> string list \<Rightarrow> string list \<Rightarrow> string list" where
  "clean_parts rooted acc [] = rev acc"
| "clean_parts rooted acc (p # ps) =
     (if p = [] \<or> p = ''.'' then clean_parts rooted acc ps
      else if p = ''..'' then
        (if acc \<noteq> [] \<and> hd acc \<noteq> ''..'' then clean_parts rooted (tl acc) ps
         else if rooted then clean_parts rooted acc ps
         else clean_parts rooted (''..'' # acc) ps)
      else clean_parts rooted (p # acc) ps)"

definition path_Clean :: "string \<Rightarrow> string" where
  "path_Clean p =
     (let rooted = (p \<noteq> [] \<and> hd p = CHR ''/''); q = Join (clean_parts rooted [] (Split (CHR ''/'') p)) ''/''
      in if rooted then CHR ''/'' # q else if q = [] then ''.'' else q)"

definition path_Dir :: "string \<Rightarrow> string" where
  "path_Dir p = path_Clean (rev (dropWhile (\<lambda>c. c \<noteq> CHR ''/'') (rev p)))"

definition path_Join :: "string list \<Rightarrow> string" where
  "path_Join ps = (let qs = filter (\<lambda>p. p \<noteq> []) ps in if qs = [] then [] else path_Clean (Join qs ''/''))"

record lego_world =
  lw_files :: "string \<rightharpoonup> string"
  lw_dirs :: "string set"
  lw_vars :: "string \<rightharpoonup> string"

type_synonym user_json = "string \<times> string option \<times> string"

record 'k lego_env =
  le_mkdir :: "string \<Rightarrow> goerror option"
  le_open :: "string \<Rightarrow> goerror option"
  le_genKey :: "goerror + 'k"
  le_encodeKey :: "'k \<Rightarrow> string"
  le_pemDecode :: "string \<Rightarrow> string option"
  le_parseKey :: "string \<Rightarrow> goerror + 'k"
  le_toJson :: "user_json \<Rightarrow> goerror + string"
  le_fromJson :: "string \<Rightarrow> goerror + user_json"
  le_newClient :: "string \<Rightarrow> goerror option"
  le_register :: "goerror + string"
  le_setHTTP :: "goerror option"
  le_dnsProvider :: "string \<Rightarrow> (string \<rightharpoonup> string) \<Rightarrow> goerror option"
  le_setDNS :: "string \<Rightarrow> goerror option"
  le_obtain :: "string \<Rightarrow> goerror + (string \<times> string)"
  le_renew :: "string \<Rightarrow> string \<Rightarrow> goerror + (string \<times> string)"
  le_timeLeft :: "string \<Rightarrow> goerror + int"
  le_selfSigned :: "string \<Rightarrow> goerror + (string \<times> string)"

definition IsExist :: "string \<Rightarrow> lego_world \<Rightarrow> bool" where
  "IsExist p w \<longleftrightarrow> lw_files w p \<noteq> None \<or> p \<in> lw_dirs w"

text \<open>\<open>MkdirAll\<close> makes the directory and all above it.\<close>

fun dirs_above :: "nat \<Rightarrow> string \<Rightarrow> string list" where
  "dirs_above 0 p = [p]"
| "dirs_above (Suc n) p = p # (if path_Dir p = p then [] else dirs_above n (path_Dir p))"

definition MkdirAll :: "'k lego_env \<Rightarrow> string \<Rightarrow> lego_world \<Rightarrow> goerror option \<times> lego_world" where
  "MkdirAll E p w =
     (case le_mkdir E p of Some e \<Rightarrow> (Some e, w) | None \<Rightarrow> (None, w\<lparr>lw_dirs := lw_dirs w \<union> set (dirs_above (length p) p)\<rparr>))"

definition checkPath :: "'k lego_env \<Rightarrow> string \<Rightarrow> lego_world \<Rightarrow> goerror option \<times> lego_world" where
  "checkPath E p w =
     (if IsExist (path_Dir p) w then (None, w)
      else (case MkdirAll E (path_Dir p) w of
              (Some e, w1) \<Rightarrow> (Some (''create dir error: '' @ e), w1)
            | (None, w1) \<Rightarrow> (None, w1)))"

text \<open>Opening a file for writing needs its directory.\<close>

definition can_open :: "'k lego_env \<Rightarrow> string \<Rightarrow> lego_world \<Rightarrow> goerror option" where
  "can_open E p w = (if path_Dir p \<in> lw_dirs w then le_open E p else Some ''no such file or directory'')"

definition WriteFile :: "'k lego_env \<Rightarrow> string \<Rightarrow> string \<Rightarrow> lego_world \<Rightarrow> goerror option \<times> lego_world" where
  "WriteFile E p data w =
     (case can_open E p w of Some e \<Rightarrow> (Some e, w) | None \<Rightarrow> (None, w\<lparr>lw_files := (lw_files w)(p \<mapsto> data)\<rparr>))"

section \<open>The account\<close>

record 'k LegoUser =
  lu_Email :: string
  lu_Registration :: "string option"
  lu_key :: "'k option"
  lu_KeyEncoded :: string

definition zero_user :: "'k LegoUser" where
  "zero_user = \<lparr>lu_Email = [], lu_Registration = None, lu_key = None, lu_KeyEncoded = []\<rparr>"

text \<open>The file is emptied when it is opened; \<open>EncodePrivate\<close> gives an empty text when it fails, and the error is dropped.\<close>

definition user_Save :: "'k lego_env \<Rightarrow> string \<Rightarrow> 'k LegoUser \<Rightarrow> lego_world \<Rightarrow> (unit outcome \<times> 'k LegoUser) \<times> lego_world" where
  "user_Save E p u w =
     (case checkPath E p w of
        (Some e, w1) \<Rightarrow> ((Error (''check path error: '' @ e), u), w1)
      | (None, w1) \<Rightarrow>
          (case lu_key u of
             None \<Rightarrow> ((Panic ''interface conversion'', u), w1)
           | Some k \<Rightarrow>
               (let u1 = u\<lparr>lu_KeyEncoded := le_encodeKey E k\<rparr> in
                case can_open E p w1 of
                  Some e \<Rightarrow> ((Error e, u1), w1)
                | None \<Rightarrow>
                    (case le_toJson E (lu_Email u1, lu_Registration u1, lu_KeyEncoded u1) of
                       Inl e \<Rightarrow> ((Error (''marshal json error: '' @ e), u1), w1\<lparr>lw_files := (lw_files w1)(p \<mapsto> [])\<rparr>)
                     | Inr s \<Rightarrow> ((Return (), u1\<lparr>lu_KeyEncoded := []\<rparr>), w1\<lparr>lw_files := (lw_files w1)(p \<mapsto> s)\<rparr>)))))"

definition DecodePrivate :: "'k lego_env \<Rightarrow> string \<Rightarrow> 'k outcome" where
  "DecodePrivate E s =
     (case le_pemDecode E s of
        None \<Rightarrow> Panic ''invalid memory address or nil pointer dereference''
      | Some b \<Rightarrow> (case le_parseKey E b of Inl e \<Rightarrow> Error e | Inr k \<Rightarrow> Return k))"

definition user_Load :: "'k lego_env \<Rightarrow> string \<Rightarrow> lego_world \<Rightarrow> 'k LegoUser outcome" where
  "user_Load E p w =
     (case lw_files w p of
        None \<Rightarrow> Error ''open file error: no such file or directory''
      | Some data \<Rightarrow>
          (case le_fromJson E data of
             Inl e \<Rightarrow> Error (''unmarshal json error: '' @ e)
           | Inr (email, reg, key) \<Rightarrow>
               (case DecodePrivate E key of
                  Return k \<Rightarrow> Return \<lparr>lu_Email = email, lu_Registration = reg, lu_key = Some k, lu_KeyEncoded = key\<rparr>
                | Error e \<Rightarrow> Error (''decode private key error: '' @ e)
                | Panic q \<Rightarrow> Panic q)))"

definition registerUser :: "'k lego_env \<Rightarrow> 'k LegoUser \<Rightarrow> string \<Rightarrow> lego_world \<Rightarrow> (unit outcome \<times> 'k LegoUser) \<times> lego_world" where
  "registerUser E u p w =
     (case le_genKey E of
        Inl e \<Rightarrow> ((Error (''generate key error: '' @ e), u), w)
      | Inr k \<Rightarrow>
          (let u1 = u\<lparr>lu_key := Some k\<rparr> in
           case le_newClient E (lu_Email u1) of
             Some e \<Rightarrow> ((Error (''create lego client error: '' @ e), u1), w)
           | None \<Rightarrow>
               (case le_register E of
                  Inl e \<Rightarrow> ((Error e, u1), w)
                | Inr reg \<Rightarrow>
                    (case user_Save E p (u1\<lparr>lu_Registration := Some reg\<rparr>) w of
                       ((Error e, u2), w1) \<Rightarrow> ((Error (''save user error: '' @ e), u2), w1)
                     | x \<Rightarrow> x))))"

definition NewLegoUser :: "'k lego_env \<Rightarrow> string \<Rightarrow> string \<Rightarrow> lego_world \<Rightarrow> 'k LegoUser outcome \<times> lego_world" where
  "NewLegoUser E p email w =
     (let finish = (\<lambda>r. case r of ((Return x, u), w1) \<Rightarrow> (Return u, w1) | ((Error e, u), w1) \<Rightarrow> (Error e, w1) | ((Panic q, u), w1) \<Rightarrow> (Panic q, w1)) in
      if IsExist p w then
        (case user_Load E p w of
           Return u \<Rightarrow> (if lu_Email u \<noteq> email then finish (registerUser E (u\<lparr>lu_Registration := None, lu_Email := email\<rparr>) p w) else (Return u, w))
         | Error e \<Rightarrow> (Error e, w)
         | Panic q \<Rightarrow> (Panic q, w))
      else finish (registerUser E (zero_user\<lparr>lu_Email := email\<rparr>) p w))"

section \<open>Certificates\<close>

text \<open>The variables of the provider are set in the process, one after the other.\<close>

definition SetProvider :: "'k lego_env \<Rightarrow> CertInfo \<Rightarrow> lego_world \<Rightarrow> goerror option \<times> lego_world" where
  "SetProvider E ci w =
     (if ci_CertMode ci = ''http'' then (le_setHTTP E, w)
      else if ci_CertMode ci = ''dns'' then
        (let w1 = w\<lparr>lw_vars := lw_vars w ++ ci_DNSEnv ci\<rparr> in
         case le_dnsProvider E (ci_Provider ci) (lw_vars w1) of
           Some e \<Rightarrow> (Some (''create dns challenge provider error: '' @ e), w1)
         | None \<Rightarrow> (map_option (\<lambda>e. ''set dns provider error: '' @ e) (le_setDNS E (ci_Provider ci)), w1))
      else (None, w))"

definition user_path :: "CertInfo \<Rightarrow> string" where
  "user_path ci = path_Join [path_Dir (ci_CertFile ci), ''user'', ''user-'' @ ci_Email ci @ ''.json'']"

definition NewLego :: "'k lego_env \<Rightarrow> CertInfo \<Rightarrow> lego_world \<Rightarrow> unit outcome \<times> lego_world" where
  "NewLego E ci w =
     (case NewLegoUser E (user_path ci) (ci_Email ci) w of
        (Error e, w1) \<Rightarrow> (Error (''create user error: '' @ e), w1)
      | (Panic q, w1) \<Rightarrow> (Panic q, w1)
      | (Return u, w1) \<Rightarrow>
          (case le_newClient E (lu_Email u) of
             Some e \<Rightarrow> (Error e, w1)
           | None \<Rightarrow> (case SetProvider E ci w1 of
               (Some e, w2) \<Rightarrow> (Error (''set provider error: '' @ e), w2)
             | (None, w2) \<Rightarrow> (Return (), w2))))"

text \<open>\<open>strings.NewReplacer\<close>: from left to right, the first name first, without looking at what was put in.\<close>

function replace_params :: "string \<Rightarrow> string \<Rightarrow> string \<Rightarrow> string" where
  "replace_params domain email s =
     (case s of
        [] \<Rightarrow> []
      | c # cs \<Rightarrow>
          (case CutPrefix s ''{domain}'' of
             Some r \<Rightarrow> domain @ replace_params domain email r
           | None \<Rightarrow>
               (case CutPrefix s ''{email}'' of
                  Some r \<Rightarrow> email @ replace_params domain email r
                | None \<Rightarrow> c # replace_params domain email cs)))"
  by pat_completeness auto
termination
  by (relation "measure (\<lambda>(d, e, s). length s)") (auto simp: CutPrefix_Some split: if_splits)

declare replace_params.simps [simp del]

definition parseParams :: "CertInfo \<Rightarrow> string \<Rightarrow> string" where
  "parseParams ci p = replace_params (ci_CertDomain ci) (ci_Email ci) p"

definition writeCert :: "'k lego_env \<Rightarrow> CertInfo \<Rightarrow> string \<times> string \<Rightarrow> lego_world \<Rightarrow> goerror option \<times> lego_world" where
  "writeCert E ci ck w =
     (case checkPath E (ci_CertFile ci) w of
        (Some e, w1) \<Rightarrow> (Some (''check path error: '' @ e), w1)
      | (None, w1) \<Rightarrow>
          (case WriteFile E (parseParams ci (ci_CertFile ci)) (fst ck) w1 of
             (Some e, w2) \<Rightarrow> (Some e, w2)
           | (None, w2) \<Rightarrow>
               (case checkPath E (ci_KeyFile ci) w2 of
                  (Some e, w3) \<Rightarrow> (Some (''check path error: '' @ e), w3)
                | (None, w3) \<Rightarrow> WriteFile E (parseParams ci (ci_KeyFile ci)) (snd ck) w3)))"

definition CreateCert :: "'k lego_env \<Rightarrow> CertInfo \<Rightarrow> lego_world \<Rightarrow> goerror option \<times> lego_world" where
  "CreateCert E ci w =
     (case le_obtain E (ci_CertDomain ci) of
        Inl e \<Rightarrow> (Some (''obtain certificate error: '' @ e), w)
      | Inr ck \<Rightarrow>
          (case writeCert E ci ck w of
             (Some e, w1) \<Rightarrow> (Some (''write certificate error: '' @ e), w1)
           | (None, w1) \<Rightarrow> (None, w1)))"

text \<open>
  The library parses the certificate and reads the clock: the argument \<open>le_timeLeft\<close> is \<open>time.Until\<close> of its end, in nanoseconds, negative when
  it is past. The code divides the hours by 24 and cuts the quotient towards zero, so what it compares with 30 are whole days. (It divides in floating point; the
  only bound that is compared, 31 days, is exact there, and a nanosecond less is still less.)
\<close>

definition nanos_per_day :: int where
  "nanos_per_day = 24 * 60 * 60 * 10 ^ 9"

definition CheckCert :: "'k lego_env \<Rightarrow> string \<Rightarrow> bool \<times> goerror option" where
  "CheckCert E f =
     (case le_timeLeft E f of
        Inl e \<Rightarrow> (False, Some e)
      | Inr t \<Rightarrow> (let notAfter = go_div t nanos_per_day in if 30 < notAfter then (False, None) else (True, None)))"

definition RenewCert :: "'k lego_env \<Rightarrow> CertInfo \<Rightarrow> lego_world \<Rightarrow> goerror option \<times> lego_world" where
  "RenewCert E ci w =
     (case lw_files w (ci_CertFile ci) of
        None \<Rightarrow> (Some ''read cert file error: no such file or directory'', w)
      | Some f \<Rightarrow>
          (case CheckCert E f of
             (due, err) \<Rightarrow>
               if \<not> due then (None, w)
               else
                 (case err of
                    Some e \<Rightarrow> (Some (''check cert error: '' @ e), w)
                  | None \<Rightarrow>
                      (case le_renew E (ci_CertDomain ci) f of
                         Inl e \<Rightarrow> (Some e, w)
                       | Inr ck \<Rightarrow>
                           (case writeCert E ci ck w of
                              (Some e, w1) \<Rightarrow> (Some (''write certificate error: '' @ e), w1)
                            | (None, w1) \<Rightarrow> (None, w1))))))"

text \<open>Self-signed certificates: the files are opened without being emptied, so what was longer before keeps its end.\<close>

definition overwrite :: "string \<Rightarrow> string option \<Rightarrow> string" where
  "overwrite data old = data @ drop (length data) (case old of None \<Rightarrow> [] | Some x \<Rightarrow> x)"

definition pem_file :: "'k lego_env \<Rightarrow> string \<Rightarrow> string \<Rightarrow> lego_world \<Rightarrow> goerror option \<times> lego_world" where
  "pem_file E p data w =
     (case can_open E p w of
        Some e \<Rightarrow> (Some e, w)
      | None \<Rightarrow> (None, w\<lparr>lw_files := (lw_files w)(p \<mapsto> overwrite data (lw_files w p))\<rparr>))"

definition generateSelfSslCertificate :: "'k lego_env \<Rightarrow> string \<Rightarrow> string \<Rightarrow> string \<Rightarrow> lego_world \<Rightarrow> goerror option \<times> lego_world" where
  "generateSelfSslCertificate E domain certPath keyPath w =
     (case le_selfSigned E domain of
        Inl e \<Rightarrow> (Some e, w)
      | Inr (cert, key) \<Rightarrow>
          (case pem_file E certPath cert w of
             (Some e, w1) \<Rightarrow> (Some e, w1)
           | (None, w1) \<Rightarrow> pem_file E keyPath key w1))"

text \<open>What a controller uses of certificates, on a machine in the state \<open>w\<close>: the files that a call leaves are those it changed over those before.
  The interface has no value for an account file that makes \<open>NewLego\<close> panic, which ends the process.\<close>

definition lego_cert_env :: "'k lego_env \<Rightarrow> lego_world \<Rightarrow> cert_env" where
  "lego_cert_env E w =
     \<lparr>cx_IsExist = (\<lambda>p. IsExist p w),
      cx_NewLego = (\<lambda>ci. case fst (NewLego E ci w) of Error e \<Rightarrow> Some e | _ \<Rightarrow> None),
      cx_CreateCert = (\<lambda>ci. case CreateCert E ci (snd (NewLego E ci w)) of (e, w1) \<Rightarrow> (e, lw_files w1)),
      cx_SelfSigned = (\<lambda>ci. case generateSelfSslCertificate E (ci_CertDomain ci) (ci_CertFile ci) (ci_KeyFile ci) w of (e, w1) \<Rightarrow> (e, lw_files w1)),
      cx_RenewCert = (\<lambda>ci. case RenewCert E ci (snd (NewLego E ci w)) of (e, w1) \<Rightarrow> (e, lw_files w1)),
      cx_WriteFile = (\<lambda>p. can_open E p w)\<rparr>"

end
