(* ===== verification/Lego_Props.thy ===== *)
theory Lego_Props
  imports Lego
begin

text \<open>
  What the certificates are worth: an account that was saved is found again; a certificate that was obtained is kept, and renewed in its last month; and
  when this fails, for a damaged file, for paths with names to be replaced, for a key that cannot be written.
\<close>

section \<open>Files\<close>

lemma checkPath_files: "checkPath E p w = (r, w1) \<Longrightarrow> lw_files w1 = lw_files w \<and> lw_vars w1 = lw_vars w \<and> lw_dirs w \<subseteq> lw_dirs w1"
  by (auto simp: checkPath_def MkdirAll_def split: if_splits option.splits)

lemma WriteFile_done: "WriteFile E p data w = (None, w1) \<Longrightarrow> lw_files w1 = (lw_files w)(p \<mapsto> data) \<and> lw_dirs w1 = lw_dirs w"
  by (auto simp: WriteFile_def split: option.splits)

text \<open>A write of a certificate that succeeds has changed the two files and nothing else.\<close>

lemma writeCert_done:
  assumes "writeCert E ci (c, k) w = (None, w1)"
  shows "lw_files w1 = (lw_files w)(parseParams ci (ci_CertFile ci) \<mapsto> c, parseParams ci (ci_KeyFile ci) \<mapsto> k) \<and> lw_dirs w \<subseteq> lw_dirs w1"
proof -
  obtain w2 where 1: "checkPath E (ci_CertFile ci) w = (None, w2)" using assms by (auto simp: writeCert_def split: prod.splits option.splits)
  obtain w3 where 2: "WriteFile E (parseParams ci (ci_CertFile ci)) c w2 = (None, w3)" using assms 1 by (auto simp: writeCert_def split: prod.splits option.splits)
  obtain w4 where 3: "checkPath E (ci_KeyFile ci) w3 = (None, w4)" using assms 1 2 by (auto simp: writeCert_def split: prod.splits option.splits)
  have 4: "WriteFile E (parseParams ci (ci_KeyFile ci)) k w4 = (None, w1)" using assms 1 2 3 by (simp add: writeCert_def)
  show ?thesis using checkPath_files [OF 1] WriteFile_done [OF 2] checkPath_files [OF 3] WriteFile_done [OF 4] by auto
qed

text \<open>A path without braces is not changed.\<close>

lemma replace_params_plain: "CHR ''{'' \<notin> set s \<Longrightarrow> replace_params d e s = s"
proof (induction s)
  case (Cons c s)
  then have "CutPrefix (c # s) ''{domain}'' = None" "CutPrefix (c # s) ''{email}'' = None" by auto
  then show ?case using Cons by (simp add: replace_params.simps [of d e "c # s"])
qed (simp add: replace_params.simps)

lemma parseParams_plain: "CHR ''{'' \<notin> set p \<Longrightarrow> parseParams ci p = p"
  by (simp add: parseParams_def replace_params_plain)

section \<open>The account\<close>

text \<open>What the codecs promise: what was encoded is decoded to the same.\<close>

definition codecs_ok :: "'k lego_env \<Rightarrow> bool" where
  "codecs_ok E \<longleftrightarrow> (\<forall>x s. le_toJson E x = Inr s \<longrightarrow> le_fromJson E s = Inr x)
     \<and> (\<forall>k. \<exists>b. le_pemDecode E (le_encodeKey E k) = Some b \<and> le_parseKey E b = Inr k)"

lemma Save_Load:
  assumes "codecs_ok E" and "user_Save E p u w = ((Return (), u1), w1)"
  shows "\<exists>k. lu_key u = Some k \<and> u1 = u\<lparr>lu_KeyEncoded := []\<rparr> \<and> IsExist p w1 \<and> user_Load E p w1 = Return (u\<lparr>lu_KeyEncoded := le_encodeKey E k\<rparr>)"
proof -
  obtain w2 where c: "checkPath E p w = (None, w2)" using assms(2) by (auto simp: user_Save_def split: prod.splits option.splits)
  obtain k where k: "lu_key u = Some k" using assms(2) c by (auto simp: user_Save_def split: option.splits)
  have "can_open E p w2 = None" using assms(2) c k by (auto simp: user_Save_def Let_def split: option.splits)
  then obtain s where s: "le_toJson E (lu_Email u, lu_Registration u, le_encodeKey E k) = Inr s" "u1 = u\<lparr>lu_KeyEncoded := []\<rparr>"
    "w1 = w2\<lparr>lw_files := (lw_files w2)(p \<mapsto> s)\<rparr>"
    using assms(2) c k by (auto simp: user_Save_def Let_def split: sum.splits)
  have j: "le_fromJson E s = Inr (lu_Email u, lu_Registration u, le_encodeKey E k)" using assms(1) s(1) by (simp add: codecs_ok_def)
  have "\<exists>b. le_pemDecode E (le_encodeKey E k) = Some b \<and> le_parseKey E b = Inr k" using assms(1) unfolding codecs_ok_def by blast
  then obtain b where b: "le_pemDecode E (le_encodeKey E k) = Some b" "le_parseKey E b = Inr k" by blast
  have "user_Load E p w1 = Return (u\<lparr>lu_KeyEncoded := le_encodeKey E k\<rparr>)"
    using k by (simp add: user_Load_def s(3) j DecodePrivate_def b)
  then show ?thesis using k s by (simp add: IsExist_def)
qed

lemma register_saved:
  assumes "codecs_ok E" and "registerUser E u p w = ((Return x, u1), w1)"
  shows "\<exists>v. IsExist p w1 \<and> user_Load E p w1 = Return v \<and> lu_Email v = lu_Email u \<and> lu_Email u1 = lu_Email u \<and> lu_Registration v = lu_Registration u1
    \<and> lu_key v = lu_key u1 \<and> lu_Registration u1 \<noteq> None"
proof -
  obtain k where k: "le_genKey E = Inr k" using assms(2) by (auto simp: registerUser_def split: sum.splits)
  have c: "le_newClient E (lu_Email u) = None" using assms(2) k by (auto simp: registerUser_def Let_def split: option.splits)
  obtain reg where r: "le_register E = Inr reg" using assms(2) k c by (auto simp: registerUser_def Let_def split: sum.splits)
  have s: "user_Save E p (u\<lparr>lu_key := Some k, lu_Registration := Some reg\<rparr>) w = ((Return (), u1), w1)"
    using assms(2) k c r by (auto simp: registerUser_def Let_def split: prod.splits outcome.splits)
  from Save_Load [OF assms(1) s] show ?thesis by auto
qed

text \<open>
  Claim C34. An ACME account is registered once: when a call of \<open>NewLegoUser\<close> succeeds, the next call for the same address returns the same account,
  with its registration and its key, does not register again, and changes nothing.
\<close>

theorem account_kept:
  assumes "codecs_ok E" and "NewLegoUser E p email w = (Return u, w1)" and "E1 = E\<lparr>le_register := r, le_genKey := g\<rparr>"
  shows "\<exists>v. NewLegoUser E1 p email w1 = (Return v, w1) \<and> lu_Email v = email \<and> lu_Registration v = lu_Registration u \<and> lu_key v = lu_key u"
proof -
  have again: "NewLegoUser E1 p email w1 = (Return v, w1)" if "IsExist p w1" "user_Load E p w1 = Return v" "lu_Email v = email" for v
  proof -
    have "DecodePrivate E1 = DecodePrivate E" by (rule ext) (simp add: assms(3) DecodePrivate_def split: option.split)
    moreover have "le_fromJson E1 = le_fromJson E" by (simp add: assms(3))
    ultimately have "user_Load E1 p w1 = user_Load E p w1" by (simp only: user_Load_def)
    then show ?thesis using that by (simp add: NewLegoUser_def)
  qed
  have reg: "\<exists>v. IsExist p w1 \<and> user_Load E p w1 = Return v \<and> lu_Email v = email \<and> lu_Registration v = lu_Registration u \<and> lu_key v = lu_key u"
    if "registerUser E u0 p w = ((Return x, u), w1)" "lu_Email u0 = email" for u0 x
    using register_saved [OF assms(1) that(1)] that(2) by auto
  have "\<exists>v. IsExist p w1 \<and> user_Load E p w1 = Return v \<and> lu_Email v = email \<and> lu_Registration v = lu_Registration u \<and> lu_key v = lu_key u"
  proof (cases "IsExist p w")
    case False
    then have "\<exists>x. registerUser E (zero_user\<lparr>lu_Email := email\<rparr>) p w = ((Return x, u), w1)"
      using assms(2) by (auto simp: NewLegoUser_def Let_def split: prod.splits outcome.splits)
    then show ?thesis using reg [of "zero_user\<lparr>lu_Email := email\<rparr>"] by auto
  next
    case True
    obtain u0 where l: "user_Load E p w = Return u0" using assms(2) True by (auto simp: NewLegoUser_def split: outcome.splits)
    show ?thesis
    proof (cases "lu_Email u0 = email")
      case same: True
      then have "u = u0" "w1 = w" using assms(2) True l by (simp_all add: NewLegoUser_def)
      then show ?thesis using True l same by blast
    next
      case False
      then have "\<exists>x. registerUser E (u0\<lparr>lu_Registration := None, lu_Email := email\<rparr>) p w = ((Return x, u), w1)"
        using assms(2) True l by (auto simp: NewLegoUser_def Let_def split: prod.splits outcome.splits)
      then show ?thesis using reg [of "u0\<lparr>lu_Registration := None, lu_Email := email\<rparr>"] by auto
    qed
  qed
  then show ?thesis using again by blast
qed

definition demo_lego :: "unit lego_env" where
  "demo_lego = \<lparr>le_mkdir = (\<lambda>p. None), le_open = (\<lambda>p. None), le_genKey = Inr (), le_encodeKey = (\<lambda>k. ''pem''), le_pemDecode = (\<lambda>s. if s = ''pem'' then Some [] else None),
     le_parseKey = (\<lambda>b. Inr ()), le_toJson = (\<lambda>(e, r, k). if r = Some ''reg'' \<and> k = ''pem'' then Inr (''json:'' @ e) else Inl ''json''),
     le_fromJson = (\<lambda>s. case CutPrefix s ''json:'' of Some e \<Rightarrow> Inr (e, Some ''reg'', ''pem'') | None \<Rightarrow> Inl ''json''),
     le_newClient = (\<lambda>e. None), le_register = Inr ''reg'', le_setHTTP = None, le_dnsProvider = (\<lambda>p m. None), le_setDNS = (\<lambda>p. None),
     le_obtain = (\<lambda>d. Inr (''cert'', ''key'')), le_renew = (\<lambda>d f. Inr (''cert2'', ''key2'')),
     le_timeLeft = (\<lambda>f. if f = ''cert'' then Inr (20 * nanos_per_day) else if f = ''cert2'' then Inr (90 * nanos_per_day) else Inl ''no PEM''), le_selfSigned = (\<lambda>d. Inr (''cert'', ''key''))\<rparr>"

definition demo_machine :: lego_world where
  "demo_machine = \<lparr>lw_files = Map.empty, lw_dirs = {''/etc'', ''/''}, lw_vars = Map.empty\<rparr>"

lemma demo_codecs: "codecs_ok demo_lego"
  by (auto simp: codecs_ok_def demo_lego_def split: if_splits)

theorem account_kept_witness:
  "\<exists>u w1 v. NewLegoUser demo_lego ''/etc/u'' ''me'' demo_machine = (Return u, w1)
    \<and> NewLegoUser (demo_lego\<lparr>le_register := Inl ''refused'', le_genKey := Inl ''none''\<rparr>) ''/etc/u'' ''me'' w1 = (Return v, w1) \<and> lu_Registration v = Some ''reg''"
proof -
  have d: "path_Dir ''/etc/u'' = ''/etc''" by code_simp
  obtain u w1 where n: "NewLegoUser demo_lego ''/etc/u'' ''me'' demo_machine = (Return u, w1)" "lu_Registration u = Some ''reg''"
    by (simp add: NewLegoUser_def IsExist_def demo_machine_def registerUser_def demo_lego_def zero_user_def user_Save_def checkPath_def d can_open_def Let_def)
  from account_kept [where r = "Inl ''refused''" and g = "Inl ''none''", OF demo_codecs n(1) refl] n show ?thesis by auto
qed

section \<open>Certificates\<close>

text \<open>More than 30 whole days is 31 days or more.\<close>

lemma days_left: "30 < go_div t nanos_per_day \<longleftrightarrow> 31 * nanos_per_day \<le> t"
proof (cases "0 \<le> t")
  case True
  then have "go_div t nanos_per_day = t div 86400000000000" by (simp add: go_div_nonneg nanos_per_day_def)
  then show ?thesis unfolding nanos_per_day_def by (simp, linarith)
next
  case False
  then have "go_div t nanos_per_day = - (\<bar>t\<bar> div 86400000000000)" by (simp add: go_div_def nanos_per_day_def)
  moreover have "0 \<le> \<bar>t\<bar> div 86400000000000" by simp
  ultimately have "go_div t nanos_per_day \<le> 0" by linarith
  then show ?thesis using False by (auto simp: nanos_per_day_def)
qed

text \<open>A renewal, case by case: the certificate is replaced in its last month, and nothing is reported for one that cannot be read.\<close>

lemma RenewCert_cases:
  "RenewCert E ci w =
     (case lw_files w (ci_CertFile ci) of
        None \<Rightarrow> (Some ''read cert file error: no such file or directory'', w)
      | Some f \<Rightarrow>
          (case le_timeLeft E f of
             Inl e \<Rightarrow> (None, w)
           | Inr t \<Rightarrow>
               if 31 * nanos_per_day \<le> t then (None, w)
               else (case le_renew E (ci_CertDomain ci) f of
                       Inl e \<Rightarrow> (Some e, w)
                     | Inr ck \<Rightarrow> (case writeCert E ci ck w of (r, w1) \<Rightarrow> (map_option (\<lambda>e. ''write certificate error: '' @ e) r, w1)))))"
  by (auto simp: RenewCert_def CheckCert_def days_left split: option.split sum.split prod.split)

definition acme_mode :: "CertInfo \<Rightarrow> bool" where
  "acme_mode ci \<longleftrightarrow> (ci_CertMode ci = ''dns'' \<or> ci_CertMode ci = ''http'') \<and> ci_CertFile ci \<noteq> [] \<and> ci_KeyFile ci \<noteq> []"

text \<open>
  Claim C32. The life of a certificate in two different files whose paths have no brace in them: when one was obtained, both files hold it and no other file has
  changed; the next start asks for none; the daily task leaves it alone for as long as it has 31 days or more; and when less is left it asks for a new one, says why if it
  gets none, and replaces both files by the renewed one if it could write them. (With names to be replaced in the paths this fails: see below.)
\<close>

theorem certificate_life:
  assumes "acme_mode ci" and "CHR ''{'' \<notin> set (ci_CertFile ci)" and "CHR ''{'' \<notin> set (ci_KeyFile ci)" and "ci_CertFile ci \<noteq> ci_KeyFile ci"
    and "le_obtain E (ci_CertDomain ci) = Inr (c, k)" and "CreateCert E ci w = (None, w1)" and "le_timeLeft E c = Inr t"
  shows "lw_files w1 = (lw_files w)(ci_CertFile ci \<mapsto> c, ci_KeyFile ci \<mapsto> k)
    \<and> requestCert (lego_cert_env E w1) ci (lw_files w1) = (None, lw_files w1)
    \<and> (31 * (24 * 60 * 60 * 10 ^ 9) \<le> t \<longrightarrow> RenewCert E ci w1 = (None, w1))
    \<and> (t < 31 * (24 * 60 * 60 * 10 ^ 9) \<longrightarrow>
          (\<forall>e. le_renew E (ci_CertDomain ci) c = Inl e \<longrightarrow> RenewCert E ci w1 = (Some e, w1))
        \<and> (\<forall>c2 k2 w2. le_renew E (ci_CertDomain ci) c = Inr (c2, k2) \<and> RenewCert E ci w1 = (None, w2) \<longrightarrow>
             lw_files w2 = (lw_files w)(ci_CertFile ci \<mapsto> c2, ci_KeyFile ci \<mapsto> k2)))"
proof -
  have "writeCert E ci (c, k) w = (None, w1)" using assms(5,6) by (auto simp: CreateCert_def split: prod.splits option.splits)
  then have f: "lw_files w1 = (lw_files w)(ci_CertFile ci \<mapsto> c, ci_KeyFile ci \<mapsto> k)"
    using writeCert_done [of E ci c k w w1] assms(2,3) by (simp add: parseParams_plain)
  have "have_files (lego_cert_env E w1) ci" by (simp add: have_files_def lego_cert_env_def IsExist_def f)
  then have q: "requestCert (lego_cert_env E w1) ci (lw_files w1) = (None, lw_files w1)"
    using assms(1) by (auto simp: requestCert_def acme_mode_def no_paths_def)
  have g: "lw_files w1 (ci_CertFile ci) = Some c" using f assms(4) by simp
  have "lw_files w2 = (lw_files w)(ci_CertFile ci \<mapsto> c2, ci_KeyFile ci \<mapsto> k2)"
    if "t < 31 * nanos_per_day" "le_renew E (ci_CertDomain ci) c = Inr (c2, k2)" "RenewCert E ci w1 = (None, w2)" for c2 k2 w2
  proof -
    have "writeCert E ci (c2, k2) w1 = (None, w2)" using that g assms(7) by (auto simp: RenewCert_cases split: prod.splits)
    then have "lw_files w2 = (lw_files w1)(ci_CertFile ci \<mapsto> c2, ci_KeyFile ci \<mapsto> k2)"
      using writeCert_done [of E ci c2 k2 w1 w2] assms(2,3) by (simp add: parseParams_plain)
    then show ?thesis using assms(4) by (simp add: f fun_upd_twist [of "ci_KeyFile ci"])
  qed
  note renewed = this
  have left: "RenewCert E ci w1 = (None, w1)" if "31 * nanos_per_day \<le> t" using that by (simp add: RenewCert_cases g assms(7))
  have failed: "RenewCert E ci w1 = (Some e, w1)" if "t < 31 * nanos_per_day" "le_renew E (ci_CertDomain ci) c = Inl e" for e
    using that by (simp add: RenewCert_cases g assms(7))
  from renewed left failed f q show ?thesis unfolding nanos_per_day_def by blast
qed

definition demo_cert :: CertInfo where
  "demo_cert = \<lparr>ci_CertMode = ''http'', ci_CertFile = ''/etc/c'', ci_KeyFile = ''/etc/k'', ci_Email = ''me'', ci_CertDomain = ''d'', ci_DNSEnv = Map.empty, ci_Provider = [],
     ci_RejectUnknownSni = False, ci_EchKey = [], ci_TlsCert = [], ci_TlsKey = []\<rparr>"

lemma demo_paths: "path_Dir ''/etc/c'' = ''/etc''" "path_Dir ''/etc/k'' = ''/etc''"
  by code_simp+

lemma demo_facts:
  "ci_CertFile demo_cert = ''/etc/c''" "ci_KeyFile demo_cert = ''/etc/k''" "lw_files demo_machine = Map.empty" "lw_dirs demo_machine = {''/etc'', ''/''}"
  "le_obtain demo_lego x = Inr (''cert'', ''key'')" "le_open demo_lego p = None"
  by (simp_all add: demo_cert_def demo_machine_def demo_lego_def)

theorem certificate_life_witness:
  "\<exists>w1. CreateCert demo_lego demo_cert demo_machine = (None, w1) \<and> lw_files w1 = [''/etc/c'' \<mapsto> ''cert'', ''/etc/k'' \<mapsto> ''key'']
    \<and> requestCert (lego_cert_env demo_lego w1) demo_cert (lw_files w1) = (None, lw_files w1)
    \<and> (\<exists>w2. RenewCert demo_lego demo_cert w1 = (None, w2) \<and> lw_files w2 = [''/etc/c'' \<mapsto> ''cert2'', ''/etc/k'' \<mapsto> ''key2''])"
proof -
  have p: "parseParams demo_cert ''/etc/c'' = ''/etc/c''" "parseParams demo_cert ''/etc/k'' = ''/etc/k''" by (simp_all add: parseParams_plain)
  obtain w1 where c: "CreateCert demo_lego demo_cert demo_machine = (None, w1)"
    by (simp add: CreateCert_def writeCert_def checkPath_def WriteFile_def can_open_def IsExist_def demo_facts demo_paths p)
  have 1: "acme_mode demo_cert" "CHR ''{'' \<notin> set (ci_CertFile demo_cert)" "CHR ''{'' \<notin> set (ci_KeyFile demo_cert)" "ci_CertFile demo_cert \<noteq> ci_KeyFile demo_cert"
    by (simp_all add: acme_mode_def demo_cert_def)
  have 2: "le_obtain demo_lego (ci_CertDomain demo_cert) = Inr (''cert'', ''key'')" "le_timeLeft demo_lego ''cert'' = Inr (20 * nanos_per_day)" by (simp_all add: demo_lego_def)
  note life = certificate_life [OF 1 2(1) c 2(2)]
  then have f: "lw_files w1 = (lw_files demo_machine)(''/etc/c'' \<mapsto> ''cert'', ''/etc/k'' \<mapsto> ''key'')"
    and q: "requestCert (lego_cert_env demo_lego w1) demo_cert (lw_files w1) = (None, lw_files w1)"
    unfolding demo_facts by blast+
  have d: "{''/etc'', ''/''} \<subseteq> lw_dirs w1"
    using c by (auto simp: CreateCert_def writeCert_def checkPath_def WriteFile_def can_open_def IsExist_def demo_facts demo_paths p)
  have n: "le_renew demo_lego (ci_CertDomain demo_cert) ''cert'' = Inr (''cert2'', ''key2'')" by (simp add: demo_lego_def)
  have "go_div (20 * nanos_per_day) nanos_per_day = 20" by code_simp
  then have "CheckCert demo_lego ''cert'' = (True, None)" by (simp add: CheckCert_def 2(2))
  then obtain w2 where r: "RenewCert demo_lego demo_cert w1 = (None, w2)"
    using d n by (simp add: RenewCert_def writeCert_def checkPath_def WriteFile_def can_open_def IsExist_def demo_facts demo_paths p f)
  have "20 * nanos_per_day < 31 * (24 * 60 * 60 * 10 ^ 9)" by (simp add: nanos_per_day_def)
  with life n r have "lw_files w2 = (lw_files demo_machine)(''/etc/c'' \<mapsto> ''cert2'', ''/etc/k'' \<mapsto> ''key2'')" unfolding demo_facts by blast
  with c f q r show ?thesis unfolding demo_facts by blast
qed

section \<open>What goes wrong\<close>

text \<open>
  Claim C33. A certificate that cannot be read is never replaced, and nobody is told: the daily task reports success and changes nothing, because the error of
  \<open>CheckCert\<close> comes with \<open>false\<close> and is not looked at, and the next start asks for none because both files are there.
\<close>

theorem damaged_certificate_stays:
  assumes "acme_mode ci" and "lw_files w (ci_CertFile ci) = Some f" and "IsExist (ci_KeyFile ci) w" and "le_timeLeft E f = Inl e"
  shows "CheckCert E f = (False, Some e) \<and> RenewCert E ci w = (None, w) \<and> requestCert (lego_cert_env E w) ci (lw_files w) = (None, lw_files w)"
proof -
  have "have_files (lego_cert_env E w) ci" using assms(2,3) by (simp add: have_files_def lego_cert_env_def IsExist_def)
  then have "requestCert (lego_cert_env E w) ci (lw_files w) = (None, lw_files w)"
    using assms(1) by (auto simp: requestCert_def acme_mode_def no_paths_def)
  then show ?thesis using assms(2,4) by (simp add: RenewCert_cases CheckCert_def)
qed

theorem damaged_certificate_stays_witness:
  "RenewCert demo_lego demo_cert (demo_machine\<lparr>lw_files := [''/etc/c'' \<mapsto> ''torn'', ''/etc/k'' \<mapsto> ''key'']\<rparr>) =
     (None, demo_machine\<lparr>lw_files := [''/etc/c'' \<mapsto> ''torn'', ''/etc/k'' \<mapsto> ''key'']\<rparr>)"
proof -
  let ?w = "demo_machine\<lparr>lw_files := [''/etc/c'' \<mapsto> ''torn'', ''/etc/k'' \<mapsto> ''key'']\<rparr>"
  have "acme_mode demo_cert" "lw_files ?w (ci_CertFile demo_cert) = Some ''torn''" "IsExist (ci_KeyFile demo_cert) ?w" "le_timeLeft demo_lego ''torn'' = Inl ''no PEM''"
    by (simp_all add: acme_mode_def demo_cert_def IsExist_def demo_lego_def)
  from damaged_certificate_stays [OF this] show ?thesis by blast
qed

text \<open>
  With names to be replaced in the path of the certificate, it is written where nothing looks for it: after a certificate was obtained
  and written, the daily task cannot read it and renews nothing, and the next start does not see it and asks for another one.
\<close>

theorem placeholder_paths_lost:
  assumes "acme_mode ci" and "parseParams ci (ci_CertFile ci) \<noteq> ci_CertFile ci" and "parseParams ci (ci_KeyFile ci) \<noteq> ci_CertFile ci"
    and "lw_files w (ci_CertFile ci) = None" and "CreateCert E ci w = (None, w1)" and "ci_CertFile ci \<notin> lw_dirs w1"
  shows "RenewCert E ci w1 = (Some ''read cert file error: no such file or directory'', w1)
    \<and> requestCert (lego_cert_env E w1) ci (lw_files w1) =
        (case cx_NewLego (lego_cert_env E w1) ci of
           Some e \<Rightarrow> (Some (''create lego object error: '' @ e), lw_files w1)
         | None \<Rightarrow> (case cx_CreateCert (lego_cert_env E w1) ci of
             (Some e, new) \<Rightarrow> (Some (''create lego cert error: '' @ e), lw_files w1 ++ new)
           | (None, new) \<Rightarrow> (None, lw_files w1 ++ new)))"
proof -
  obtain c k where "writeCert E ci (c, k) w = (None, w1)" using assms(5) by (auto simp: CreateCert_def split: sum.splits prod.splits option.splits)
  then have n: "lw_files w1 (ci_CertFile ci) = None" using writeCert_done [of E ci c k w w1] assms(2-4) by simp
  then have "\<not> have_files (lego_cert_env E w1) ci" using assms(6) by (simp add: have_files_def lego_cert_env_def IsExist_def)
  then show ?thesis using assms(1) n by (auto simp: requestCert_def acme_mode_def no_paths_def RenewCert_def)
qed

definition named_cert :: CertInfo where
  "named_cert = demo_cert\<lparr>ci_CertFile := ''/etc/{domain}.c'', ci_KeyFile := ''/etc/{domain}.k''\<rparr>"

lemma named_paths: "path_Dir ''/etc/{domain}.c'' = ''/etc''" "path_Dir ''/etc/{domain}.k'' = ''/etc''" "path_Dir ''/etc/d.c'' = ''/etc''" "path_Dir ''/etc/d.k'' = ''/etc''"
  "parseParams named_cert ''/etc/{domain}.c'' = ''/etc/d.c''" "parseParams named_cert ''/etc/{domain}.k'' = ''/etc/d.k''"
  by code_simp+

theorem placeholder_paths_lost_witness:
  "\<exists>w1. CreateCert demo_lego named_cert demo_machine = (None, w1) \<and> lw_files w1 ''/etc/d.c'' = Some ''cert''
    \<and> RenewCert demo_lego named_cert w1 = (Some ''read cert file error: no such file or directory'', w1)"
proof -
  have f: "ci_CertFile named_cert = ''/etc/{domain}.c''" "ci_KeyFile named_cert = ''/etc/{domain}.k''" by (simp_all add: named_cert_def)
  let ?w = "demo_machine\<lparr>lw_files := [''/etc/d.c'' \<mapsto> ''cert'', ''/etc/d.k'' \<mapsto> ''key'']\<rparr>"
  have c: "CreateCert demo_lego named_cert demo_machine = (None, ?w)"
    by (simp add: CreateCert_def writeCert_def checkPath_def WriteFile_def can_open_def IsExist_def f named_paths demo_facts)
  have "acme_mode named_cert" by (simp add: acme_mode_def named_cert_def demo_cert_def)
  then have "RenewCert demo_lego named_cert ?w = (Some ''read cert file error: no such file or directory'', ?w)"
    using placeholder_paths_lost [OF _ _ _ _ c] by (simp add: f named_paths demo_facts)
  then show ?thesis using c by auto
qed

text \<open>
  More of this kind: a path with a name in its directory cannot be written, because the directory that is made is the one before the replacement; when the key cannot
  be written the new certificate lies beside the old key; an account file whose key is no PEM ends the process; and a self-signed
  certificate that is shorter than what the file held keeps the end of it.
\<close>

lemma named_directory_fails:
  assumes "path_Dir (parseParams ci (ci_CertFile ci)) \<notin> lw_dirs w" and "IsExist (path_Dir (ci_CertFile ci)) w"
  shows "writeCert E ci ck w = (Some ''no such file or directory'', w)"
  using assms by (simp add: writeCert_def checkPath_def WriteFile_def can_open_def)

lemma key_write_fails:
  assumes "path_Dir (ci_CertFile ci) \<in> lw_dirs w" and "path_Dir (ci_KeyFile ci) \<in> lw_dirs w" and "CHR ''{'' \<notin> set (ci_CertFile ci)" and "CHR ''{'' \<notin> set (ci_KeyFile ci)"
    and "le_open E (ci_CertFile ci) = None" and "le_open E (ci_KeyFile ci) = Some e"
  shows "writeCert E ci (c, k) w = (Some e, w\<lparr>lw_files := (lw_files w)(ci_CertFile ci \<mapsto> c)\<rparr>)"
  using assms by (simp add: writeCert_def checkPath_def WriteFile_def can_open_def IsExist_def parseParams_plain)

lemma account_without_key_panics:
  assumes "lw_files w (user_path ci) = Some data" and "le_fromJson E data = Inr (email, reg, key)" and "le_pemDecode E key = None"
  shows "NewLego E ci w = (Panic ''invalid memory address or nil pointer dereference'', w)"
  using assms by (simp add: NewLego_def NewLegoUser_def IsExist_def user_Load_def DecodePrivate_def)

lemma self_signed_keeps_end:
  assumes "le_selfSigned E domain = Inr (c, k)" and "path_Dir cp \<in> lw_dirs w" and "le_open E cp = None" and "lw_files w cp = Some (x @ y)" and "length x = length c"
  shows "lw_files (snd (pem_file E cp c w)) cp = Some (c @ y)"
  using assms by (simp add: pem_file_def can_open_def overwrite_def)

end
