(* ===== verification/Shadow_Stream.thy ===== *)
theory Shadow_Stream
  imports Stream_Contract Shadow_Engine
begin

text \<open>
  ShadowStream (\<open>common/shadowflow/stream.go\<close>): frames, the streams that share a connection, the loop that reads frames, and writing in shaped
  frames with padding between them. Stream objects are in a store, because the connection's map, its queue of new streams and the application keep pointers
  to them; a channel is the list of what is in it. \<open>None\<close> stands for an operation that blocks. The read loop's look-up of a stream and its send into
  the stream's channel are separate steps, between which other goroutines run.
\<close>

section \<open>Frames\<close>

definition FrameData :: byte where "FrameData = 0"
definition FramePadding :: byte where "FramePadding = 1"
definition FrameStreamOpen :: byte where "FrameStreamOpen = 2"
definition FrameStreamClose :: byte where "FrameStreamClose = 3"
definition FrameHeartbeat :: byte where "FrameHeartbeat = 4"
definition FrameShapeSwitch :: byte where "FrameShapeSwitch = 5"

lemmas frame_types = FrameData_def FramePadding_def FrameStreamOpen_def FrameStreamClose_def FrameHeartbeat_def FrameShapeSwitch_def

record Frame =
  fr_Type :: byte
  fr_Flags :: byte
  fr_StreamID :: "16 word"
  fr_Payload :: bytes

definition MarshalBinary :: "Frame \<Rightarrow> goerror + bytes" where
  "MarshalBinary f =
     (if 65535 < length (fr_Payload f) then Inl ''payload too large''
      else Inr (fr_Type f # fr_Flags f # put16 (unat (fr_StreamID f)) @ put16 (length (fr_Payload f)) @ fr_Payload f))"

definition ReadFrame :: "(nat \<Rightarrow> 'c \<Rightarrow> bytes outcome \<times> 'c) \<Rightarrow> 'c \<Rightarrow> (Frame outcome \<times> 'c) option" where
  "ReadFrame read c =
     then_full read 6 c (\<lambda>header c1.
       let f = \<lparr>fr_Type = header ! 0, fr_Flags = header ! 1, fr_StreamID = word_of_nat (be16 (header ! 2) (header ! 3)), fr_Payload = []\<rparr>;
           payloadLen = be16 (header ! 4) (header ! 5)
       in if payloadLen = 0 then Some (Return f, c1)
          else then_full read payloadLen c1 (\<lambda>payload c2. Some (Return (f\<lparr>fr_Payload := payload\<rparr>), c2)))"

section \<open>Connections and streams\<close>

record Stream =
  st_id :: "16 word"
  st_readBuf :: "bytes list"
  st_chanClosed :: bool
  st_readPart :: bytes
  st_closed :: bool

definition new_Stream :: "16 word \<Rightarrow> Stream" where
  "new_Stream i = \<lparr>st_id = i, st_readBuf = [], st_chanClosed = False, st_readPart = [], st_closed = False\<rparr>"

text \<open>\<open>ss_sent\<close> has the writes to the connection below, which answers them as \<open>ss_answer\<close> says.\<close>

record ShadowStreamConn =
  ss_objects :: "nat \<Rightarrow> Stream"
  ss_next :: nat
  ss_streams :: "16 word \<rightharpoonup> nat"
  ss_nextID :: "32 word"
  ss_acceptCh :: "nat list"
  ss_acceptClosed :: bool
  ss_closed :: bool
  ss_engine :: CamouflageEngine
  ss_sent :: "bytes list"
  ss_answer :: "bytes \<Rightarrow> goerror option"

definition NewShadowStreamConn :: "(bytes \<Rightarrow> goerror option) \<Rightarrow> CamouflageEngine \<Rightarrow> bool \<Rightarrow> ShadowStreamConn" where
  "NewShadowStreamConn answer e isServer =
     \<lparr>ss_objects = (\<lambda>a. new_Stream 0), ss_next = 0, ss_streams = Map.empty, ss_nextID = (if isServer then 2 else 1), ss_acceptCh = [],
      ss_acceptClosed = False, ss_closed = False, ss_engine = e, ss_sent = [], ss_answer = answer\<rparr>"

definition set_object :: "nat \<Rightarrow> Stream \<Rightarrow> ShadowStreamConn \<Rightarrow> ShadowStreamConn" where
  "set_object a s c = c\<lparr>ss_objects := (ss_objects c)(a := s)\<rparr>"

definition conn_Write :: "bytes \<Rightarrow> ShadowStreamConn \<Rightarrow> goerror option \<times> ShadowStreamConn" where
  "conn_Write b c = (ss_answer c b, c\<lparr>ss_sent := ss_sent c @ [b]\<rparr>)"

definition writeControl :: "byte \<Rightarrow> 16 word \<Rightarrow> bytes \<Rightarrow> ShadowStreamConn \<Rightarrow> goerror option \<times> ShadowStreamConn" where
  "writeControl ty i payload c =
     (case MarshalBinary \<lparr>fr_Type = ty, fr_Flags = 0, fr_StreamID = i, fr_Payload = payload\<rparr> of
        Inl e \<Rightarrow> (Some e, c)
      | Inr wire \<Rightarrow> conn_Write wire c)"

section \<open>Writing data\<close>

definition sized :: "TrafficProfile \<Rightarrow> int \<Rightarrow> int" where
  "sized p n = (if n < tp_MinRecordPayload p then tp_MinRecordPayload p else n)"

definition injectPadding :: "TrafficProfile \<Rightarrow> ShadowStreamConn \<times> rands \<Rightarrow> (ShadowStreamConn \<times> rands) outcome" where
  "injectPadding p st =
     (case st of (c, r) \<Rightarrow>
        obind (SampleSize (tp_C2SSizes p) r) (\<lambda>(n0, r1).
          (let n = min 2048 (sized p n0) in
           if n < 0 then Panic ''makeslice: len out of range''
           else (case rand_Read (nat n) r1 of (payload, r2) \<Rightarrow> Return (snd (writeControl FramePadding 0 payload c), r2)))))"

text \<open>One frame of a write: the data that remain, or the error the write ends with; a padding frame follows in a fifth of the cases.\<close>

definition write_frame ::
  "TrafficProfile \<Rightarrow> 16 word \<Rightarrow> bytes \<Rightarrow> ShadowStreamConn \<times> rands \<Rightarrow> (goerror option \<times> int \<times> ShadowStreamConn \<times> rands) outcome" where
  "write_frame p i remaining st =
     (case st of (c, r) \<Rightarrow>
        obind (SampleSize (tp_C2SSizes p) r) (\<lambda>(n, r1).
          (let chunkSize = min (min (sized p n - 6) (int (length remaining))) 65535 in
           if chunkSize < 0 then Panic ''slice bounds out of range''
           else
             (case writeControl FrameData i (take (nat chunkSize) remaining) c of
                (Some e, c1) \<Rightarrow> Return (Some e, 0, c1, r1)
              | (None, c1) \<Rightarrow>
                  obind (Intn 100 r1) (\<lambda>(k, r2).
                    if k < 20 then obind (injectPadding p (c1, r2)) (\<lambda>(c2, r3). Return (None, chunkSize, c2, r3))
                    else Return (None, chunkSize, c1, r2))))))"

fun write_frames ::
  "nat \<Rightarrow> TrafficProfile \<Rightarrow> 16 word \<Rightarrow> int \<Rightarrow> bytes \<Rightarrow> ShadowStreamConn \<times> rands \<Rightarrow> ((int \<times> goerror option) \<times> ShadowStreamConn \<times> rands) outcome option" where
  "write_frames 0 p i written remaining st = (if remaining = [] then Some (Return ((written, None), st)) else None)"
| "write_frames (Suc fuel) p i written remaining st =
     (if remaining = [] then Some (Return ((written, None), st))
      else
        (case write_frame p i remaining st of
           Panic q \<Rightarrow> Some (Panic q)
         | Error e \<Rightarrow> Some (Error e)
         | Return (Some e, n, st1) \<Rightarrow> Some (Return ((written, Some e), st1))
         | Return (None, n, st1) \<Rightarrow> write_frames fuel p i (written + n) (drop (nat n) remaining) st1))"

definition writeData ::
  "nat \<Rightarrow> 16 word \<Rightarrow> bytes \<Rightarrow> ShadowStreamConn \<times> rands \<Rightarrow> ((int \<times> goerror option) \<times> ShadowStreamConn \<times> rands) outcome option" where
  "writeData fuel i data st = write_frames fuel (eng_activeProfile (ss_engine (fst st))) i 0 data st"

section \<open>Streams\<close>

definition Stream_Read :: "nat \<Rightarrow> Stream \<Rightarrow> (bytes outcome \<times> Stream) option" where
  "Stream_Read k s =
     (if st_readPart s \<noteq> [] then Some (Return (take k (st_readPart s)), s\<lparr>st_readPart := drop k (st_readPart s)\<rparr>)
      else
        (case st_readBuf s of
           chunk # rest \<Rightarrow>
             Some (Return (take k chunk), s\<lparr>st_readBuf := rest, st_readPart := (if k < length chunk then drop k chunk else st_readPart s)\<rparr>)
         | [] \<Rightarrow> if st_chanClosed s then Some (Error ''EOF'', s) else None))"

definition stream_Read :: "nat \<Rightarrow> nat \<Rightarrow> ShadowStreamConn \<Rightarrow> (bytes outcome \<times> ShadowStreamConn) option" where
  "stream_Read a k c = map_option (\<lambda>(x, s). (x, set_object a s c)) (Stream_Read k (ss_objects c a))"

definition stream_Write ::
  "nat \<Rightarrow> nat \<Rightarrow> bytes \<Rightarrow> ShadowStreamConn \<times> rands \<Rightarrow> ((int \<times> goerror option) \<times> ShadowStreamConn \<times> rands) outcome option" where
  "stream_Write fuel a p st =
     (let s = ss_objects (fst st) a in
      if st_closed s then Some (Return ((0, Some ''io: read/write on closed pipe''), st)) else writeData fuel (st_id s) p st)"

definition stream_Close :: "nat \<Rightarrow> ShadowStreamConn \<Rightarrow> ShadowStreamConn" where
  "stream_Close a c =
     (let s = ss_objects c a in
      if st_closed s then c
      else (let c1 = set_object a (s\<lparr>st_closed := True\<rparr>) c;
                c2 = snd (writeControl FrameStreamClose (st_id s) [] c1)
            in set_object a (s\<lparr>st_closed := True, st_chanClosed := True\<rparr>) c2))"

section \<open>The connection\<close>

definition OpenStream :: "ShadowStreamConn \<Rightarrow> (goerror + nat) \<times> ShadowStreamConn" where
  "OpenStream c =
     (if ss_closed c then (Inl ''io: read/write on closed pipe'', c)
      else
        (let i = ucast (ss_nextID c) :: 16 word; a = ss_next c;
             c1 = set_object a (new_Stream i) c\<lparr>ss_nextID := ss_nextID c + 2, ss_next := Suc a, ss_streams := (ss_streams c)(i \<mapsto> a)\<rparr>
         in case writeControl FrameStreamOpen i [] c1 of
              (Some e, c2) \<Rightarrow> (Inl e, c2\<lparr>ss_streams := (ss_streams c2)(i := None)\<rparr>)
            | (None, c2) \<Rightarrow> (Inr a, c2)))"

definition AcceptStream :: "ShadowStreamConn \<Rightarrow> ((goerror + nat) \<times> ShadowStreamConn) option" where
  "AcceptStream c =
     (case ss_acceptCh c of
        a # rest \<Rightarrow> Some (Inr a, c\<lparr>ss_acceptCh := rest\<rparr>)
      | [] \<Rightarrow> if ss_acceptClosed c then Some (Inl ''io: read/write on closed pipe'', c) else None)"

text \<open>Shutting down marks every stream closed and takes one chunk out of its channel; the channels themselves stay open.\<close>

definition shutdown :: "ShadowStreamConn \<Rightarrow> ShadowStreamConn" where
  "shutdown c =
     (if ss_closed c then c
      else c\<lparr>ss_closed := True, ss_acceptClosed := True,
             ss_objects := (\<lambda>a. if a \<in> ran (ss_streams c)
                              then (ss_objects c a)\<lparr>st_closed := True, st_readBuf := tl (st_readBuf (ss_objects c a))\<rparr>
                              else ss_objects c a)\<rparr>)"

text \<open>A frame of data: the look-up of an open stream, then the send, which drops the chunk when 64 wait and panics on a closed channel.\<close>

definition data_lookup :: "Frame \<Rightarrow> ShadowStreamConn \<Rightarrow> nat option" where
  "data_lookup f c =
     (case ss_streams c (fr_StreamID f) of
        None \<Rightarrow> None
      | Some a \<Rightarrow> if st_closed (ss_objects c a) then None else Some a)"

definition data_send :: "nat \<Rightarrow> bytes \<Rightarrow> ShadowStreamConn \<Rightarrow> ShadowStreamConn outcome" where
  "data_send a payload c =
     (let s = ss_objects c a in
      if st_chanClosed s then Panic ''send on closed channel''
      else Return (if length (st_readBuf s) < 64 then set_object a (s\<lparr>st_readBuf := st_readBuf s @ [payload]\<rparr>) c else c))"

text \<open>A new stream of the peer: it is stored, then offered to the queue of 32.\<close>

definition open_store :: "Frame \<Rightarrow> ShadowStreamConn \<Rightarrow> nat \<times> ShadowStreamConn" where
  "open_store f c =
     (let a = ss_next c in
      (a, set_object a (new_Stream (fr_StreamID f)) c\<lparr>ss_next := Suc a, ss_streams := (ss_streams c)(fr_StreamID f \<mapsto> a)\<rparr>))"

definition open_send :: "nat \<Rightarrow> ShadowStreamConn \<Rightarrow> ShadowStreamConn outcome" where
  "open_send a c =
     (if ss_acceptClosed c then Panic ''send on closed channel''
      else Return (if length (ss_acceptCh c) < 32 then c\<lparr>ss_acceptCh := ss_acceptCh c @ [a]\<rparr> else c))"

definition close_frame :: "Frame \<Rightarrow> ShadowStreamConn \<Rightarrow> ShadowStreamConn" where
  "close_frame f c =
     (case ss_streams c (fr_StreamID f) of
        None \<Rightarrow> c
      | Some a \<Rightarrow> set_object a ((ss_objects c a)\<lparr>st_closed := True\<rparr>) c\<lparr>ss_streams := (ss_streams c)(fr_StreamID f := None)\<rparr>)"

definition shape_switch :: "registry \<Rightarrow> Frame \<Rightarrow> ShadowStreamConn \<Rightarrow> ShadowStreamConn" where
  "shape_switch reg f c =
     (if fr_Payload f = [] then c
      else c\<lparr>ss_engine := (ss_engine c)\<lparr>eng_activeProfile := GetProfile reg (map (\<lambda>x. char_of (unat x)) (fr_Payload f))\<rparr>\<rparr>)"

text \<open>A turn of the read loop without interference. Padding, heartbeats and unknown types are skipped.\<close>

definition handle_frame :: "registry \<Rightarrow> Frame \<Rightarrow> ShadowStreamConn \<Rightarrow> ShadowStreamConn outcome" where
  "handle_frame reg f c =
     (if fr_Type f = FrameData then (case data_lookup f c of None \<Rightarrow> Return c | Some a \<Rightarrow> data_send a (fr_Payload f) c)
      else if fr_Type f = FrameStreamOpen then (case open_store f c of (a, c1) \<Rightarrow> open_send a c1)
      else if fr_Type f = FrameStreamClose then Return (close_frame f c)
      else if fr_Type f = FrameShapeSwitch then Return (shape_switch reg f c)
      else Return c)"

fun handle_frames :: "registry \<Rightarrow> Frame list \<Rightarrow> ShadowStreamConn \<Rightarrow> ShadowStreamConn outcome" where
  "handle_frames reg [] c = Return c"
| "handle_frames reg (f # fs) c = obind (handle_frame reg f c) (handle_frames reg fs)"

text \<open>A turn of the read loop on the connection below: an error of the read shuts down and ends the loop.\<close>

definition read_turn ::
  "registry \<Rightarrow> (nat \<Rightarrow> 'c \<Rightarrow> bytes outcome \<times> 'c) \<Rightarrow> ShadowStreamConn \<times> 'c \<Rightarrow> (bool \<times> ShadowStreamConn \<times> 'c) outcome option" where
  "read_turn reg read st =
     (case st of (c, u) \<Rightarrow>
        (case ReadFrame read u of
           None \<Rightarrow> None
         | Some (Return f, u1) \<Rightarrow> Some (obind (handle_frame reg f c) (\<lambda>c1. Return (True, c1, u1)))
         | Some (Error e, u1) \<Rightarrow> Some (Return (False, shutdown c, u1))
         | Some (Panic q, u1) \<Rightarrow> Some (Panic q)))"

text \<open>The heartbeat: its interval in nanoseconds, and its frame.\<close>

definition heartbeat_interval :: "rands \<Rightarrow> (int \<times> rands) outcome" where
  "heartbeat_interval r =
     obind (Intn (go_div (15 * 10 ^ 9 * 6) 10) r) (\<lambda>(k, r1). Return (15 * 10 ^ 9 - go_div (15 * 10 ^ 9 * 3) 10 + k, r1))"

definition heartbeat :: "ShadowStreamConn \<times> rands \<Rightarrow> (ShadowStreamConn \<times> rands) outcome" where
  "heartbeat st =
     (case st of (c, r) \<Rightarrow>
        (let p = eng_activeProfile (ss_engine c) in
         obind (SampleSize (tp_S2CSizes p) r) (\<lambda>(n0, r1).
           (let n = min 1024 (sized p n0) in
            if n < 0 then Panic ''makeslice: len out of range''
            else (case rand_Read (nat n) r1 of (payload, r2) \<Rightarrow> Return (snd (writeControl FrameHeartbeat 0 payload c), r2))))))"

end
