(* ===== verification/Shadow_Stream_Props.thy ===== *)
theory Shadow_Stream_Props
  imports Shadow_Stream Shadow_Props
begin

text \<open>
  What ShadowStream does with data: a frame that was written is read back; of a write at most 64 frames wait for a reader and the rest is dropped; a
  stream that the peer has closed never ends for its reader; and the send into a channel panics exactly in a race with a close.
\<close>

section \<open>Frames\<close>

lemma MarshalBinary_wire:
  "MarshalBinary f = Inr w \<longleftrightarrow> length (fr_Payload f) \<le> 65535
     \<and> w = (fr_Type f # fr_Flags f # put16 (unat (fr_StreamID f)) @ put16 (length (fr_Payload f))) @ fr_Payload f"
  by (auto simp: MarshalBinary_def)

context plain_stream
begin

lemma then_full_prefix:
  assumes "rep c (xs @ s)" and "length xs = n"
  shows "\<exists>c1. rep c1 s \<and> then_full read n c f = f xs c1"
  using ReadFull_prefix [OF assms] by (auto simp: then_full_def)

lemma ReadFrame_marshal:
  assumes "rep c (w @ s)" and "MarshalBinary f = Inr w"
  shows "\<exists>c'. ReadFrame read c = Some (Return f, c') \<and> rep c' s"
proof -
  let ?h = "fr_Type f # fr_Flags f # put16 (unat (fr_StreamID f)) @ put16 (length (fr_Payload f))"
  have l: "length (fr_Payload f) \<le> 65535" and w: "w = ?h @ fr_Payload f" using assms(2) unfolding MarshalBinary_wire by blast+
  have u: "unat (fr_StreamID f) < 65536" using unsigned_less [of "fr_StreamID f", where ?'a = nat] by simp
  have h: "?h ! 0 = fr_Type f" "?h ! 1 = fr_Flags f" "be16 (?h ! 2) (?h ! 3) = unat (fr_StreamID f)" "be16 (?h ! 4) (?h ! 5) = length (fr_Payload f)"
    using be16_words [OF u] be16_words [of "length (fr_Payload f)"] l by (simp_all add: put16_def)
  define g where "g = (\<lambda>header c1. let f = \<lparr>fr_Type = header ! 0, fr_Flags = header ! 1, fr_StreamID = word_of_nat (be16 (header ! 2) (header ! 3)), fr_Payload = []\<rparr>;
           payloadLen = be16 (header ! 4) (header ! 5)
       in if payloadLen = 0 then Some (Return f, c1)
          else then_full read payloadLen c1 (\<lambda>payload c2. Some (Return (f\<lparr>fr_Payload := payload\<rparr>), c2)))"
  have rf: "ReadFrame read c = then_full read 6 c g" unfolding ReadFrame_def g_def by (rule refl)
  have rp: "rep c (?h @ (fr_Payload f @ s))" using assms(1) by (simp only: w append_assoc)
  have "length ?h = 6" by simp
  from then_full_prefix [OF rp this, of g] obtain c1 where c1: "rep c1 (fr_Payload f @ s)" and r: "ReadFrame read c = g ?h c1"
    unfolding rf by blast
  show ?thesis
  proof (cases "fr_Payload f = []")
    case True
    then have "ReadFrame read c = Some (Return f, c1)" using r unfolding g_def h Let_def by simp
    then show ?thesis using c1 True by simp
  next
    case False
    obtain c2 where c2: "rep c2 s" "io_ReadFull read (length (fr_Payload f)) c1 = Some (Return (fr_Payload f), c2)"
      using ReadFull_prefix [OF c1 refl] by blast
    have "ReadFrame read c = Some (Return f, c2)" using r False unfolding g_def h Let_def by (simp add: then_full_def c2(2))
    then show ?thesis using c2(1) by blast
  qed
qed

end

section \<open>Writing and reading\<close>

text \<open>What a write puts on the connection: frames of the stream's data in order, with padding frames between them.\<close>

definition data_frame :: "16 word \<Rightarrow> Frame \<Rightarrow> bool" where
  "data_frame i f \<longleftrightarrow> fr_Type f = FrameData \<and> fr_StreamID f = i \<and> fr_Payload f \<noteq> []"

definition written :: "16 word \<Rightarrow> bytes list \<Rightarrow> Frame list \<Rightarrow> bytes \<Rightarrow> bool" where
  "written i ws fs data \<longleftrightarrow> map MarshalBinary fs = map Inr ws \<and> (\<forall>f \<in> set fs. data_frame i f \<or> fr_Type f = FramePadding)
     \<and> concat (map fr_Payload (filter (data_frame i) fs)) = data"

lemma written_append: "written i ws fs a \<Longrightarrow> written i vs gs b \<Longrightarrow> written i (ws @ vs) (fs @ gs) (a @ b)"
  by (auto simp: written_def)

lemma written_Nil: "written i [] [] []"
  by (simp add: written_def)

lemma padding_not_data: "fr_Type f = FramePadding \<Longrightarrow> \<not> data_frame i f"
  by (simp add: data_frame_def frame_types)

lemma sized_bounds: "0 \<le> n \<Longrightarrow> tp_MinRecordPayload p \<le> sized p n \<and> 0 \<le> sized p n"
  by (simp add: sized_def)

lemma writeControl_None:
  assumes "ss_answer c = (\<lambda>b. None)" and "length payload \<le> 65535"
  shows "\<exists>w. writeControl ty i payload c = (None, c\<lparr>ss_sent := ss_sent c @ [w]\<rparr>)
    \<and> MarshalBinary \<lparr>fr_Type = ty, fr_Flags = 0, fr_StreamID = i, fr_Payload = payload\<rparr> = Inr w"
  using assms by (simp add: writeControl_def MarshalBinary_def conn_Write_def)

lemma injectPadding_Return:
  assumes "profile_ok p" and "ss_answer c = (\<lambda>b. None)"
  shows "\<exists>ws fs r'. injectPadding p (c, r) = Return (c\<lparr>ss_sent := ss_sent c @ ws\<rparr>, r') \<and> written i ws fs []"
proof -
  obtain n0 r1 where n0: "SampleSize (tp_C2SSizes p) r = Return (n0, r1)" "0 \<le> n0" using SampleSize_Return assms(1) unfolding profile_ok_def by blast
  define n where "n = min 2048 (sized p n0)"
  have n: "0 \<le> n" "n \<le> 2048" using sized_bounds [OF n0(2), of p] by (simp_all add: n_def)
  obtain payload r2 where p: "rand_Read (nat n) r1 = (payload, r2)" "length payload = nat n" by (simp add: rand_Read_def)
  have l: "length payload \<le> 65535" using p(2) n by simp
  obtain w where w: "writeControl FramePadding 0 payload c = (None, c\<lparr>ss_sent := ss_sent c @ [w]\<rparr>)"
    "MarshalBinary \<lparr>fr_Type = FramePadding, fr_Flags = 0, fr_StreamID = 0, fr_Payload = payload\<rparr> = Inr w"
    using writeControl_None [OF assms(2) l] by blast
  have "injectPadding p (c, r) = Return (c\<lparr>ss_sent := ss_sent c @ [w]\<rparr>, r2)"
    using n(1) by (simp add: injectPadding_def n0(1) n_def [symmetric] Let_def p(1) w(1))
  moreover have "written i [w] [\<lparr>fr_Type = FramePadding, fr_Flags = 0, fr_StreamID = 0, fr_Payload = payload\<rparr>] []"
    using w(2) by (simp add: written_def data_frame_def frame_types)
  ultimately show ?thesis by blast
qed

lemma write_frame_Return:
  assumes ok: "profile_ok p" and min: "6 < tp_MinRecordPayload p" and ans: "ss_answer c = (\<lambda>b. None)" and ne: "data \<noteq> []"
  shows "\<exists>n ws fs r'. write_frame p i data (c, r) = Return (None, int n, c\<lparr>ss_sent := ss_sent c @ ws\<rparr>, r')
    \<and> 0 < n \<and> n \<le> length data \<and> written i ws fs (take n data)"
proof -
  obtain n0 r1 where n0: "SampleSize (tp_C2SSizes p) r = Return (n0, r1)" "0 \<le> n0" using SampleSize_Return ok unfolding profile_ok_def by blast
  define k where "k = min (min (sized p n0 - 6) (int (length data))) 65535"
  have k: "0 < k" "k \<le> int (length data)" "k \<le> 65535" using sized_bounds [OF n0(2), of p] min ne by (auto simp: k_def)
  let ?f = "\<lparr>fr_Type = FrameData, fr_Flags = 0, fr_StreamID = i, fr_Payload = take (nat k) data\<rparr>"
  have l: "length (take (nat k) data) \<le> 65535" using k by simp
  obtain w where w: "writeControl FrameData i (take (nat k) data) c = (None, c\<lparr>ss_sent := ss_sent c @ [w]\<rparr>)" "MarshalBinary ?f = Inr w"
    using writeControl_None [OF ans l] by blast
  have wr: "written i [w] [?f] (take (nat k) data)" using w(2) k(1) ne by (simp add: written_def data_frame_def)
  obtain m r2 where m: "Intn 100 r1 = Return (m, r2)" using Intn_Return [of 100 r1] by auto
  have tw: "write_frame p i data (c, r) =
      (if m < 20 then obind (injectPadding p (c\<lparr>ss_sent := ss_sent c @ [w]\<rparr>, r2)) (\<lambda>(c2, r3). Return (None, k, c2, r3))
       else Return (None, k, c\<lparr>ss_sent := ss_sent c @ [w]\<rparr>, r2))"
    using k(1) unfolding write_frame_def case_prod_conv n0(1) obind.simps Let_def k_def [symmetric] w(1) m by simp
  show ?thesis
  proof (cases "m < 20")
    case True
    obtain ws fs r3 where j: "injectPadding p (c\<lparr>ss_sent := ss_sent c @ [w]\<rparr>, r2) = Return ((c\<lparr>ss_sent := ss_sent c @ [w]\<rparr>)\<lparr>ss_sent := (ss_sent c @ [w]) @ ws\<rparr>, r3)"
      "written i ws fs []" using injectPadding_Return [OF ok, of "c\<lparr>ss_sent := ss_sent c @ [w]\<rparr>" r2 i] ans by auto
    have "write_frame p i data (c, r) = Return (None, int (nat k), c\<lparr>ss_sent := ss_sent c @ ([w] @ ws)\<rparr>, r3)"
      using True k(1) by (simp add: tw j(1))
    moreover have "written i ([w] @ ws) ([?f] @ fs) (take (nat k) data)" using written_append [OF wr j(2)] by simp
    ultimately show ?thesis using k by (intro exI [of _ "nat k"] exI [of _ "[w] @ ws"] exI [of _ "[?f] @ fs"] exI [of _ r3]) simp
  next
    case False
    then have "write_frame p i data (c, r) = Return (None, int (nat k), c\<lparr>ss_sent := ss_sent c @ [w]\<rparr>, r2)" using k(1) by (simp add: tw)
    then show ?thesis using wr k by (intro exI [of _ "nat k"] exI [of _ "[w]"] exI [of _ "[?f]"] exI [of _ r2]) simp
  qed
qed

lemma write_frames_Return:
  assumes ok: "profile_ok p" and min: "6 < tp_MinRecordPayload p"
  shows "ss_answer c = (\<lambda>b. None) \<Longrightarrow> length data \<le> fuel \<Longrightarrow>
    \<exists>ws fs r'. write_frames fuel p i t data (c, r) = Some (Return ((t + int (length data), None), c\<lparr>ss_sent := ss_sent c @ ws\<rparr>, r')) \<and> written i ws fs data"
proof (induction fuel arbitrary: c r data t)
  case 0
  then show ?case using written_Nil [of i] by (intro exI [of _ "[]"] exI [of _ r]) auto
next
  case (Suc fuel)
  show ?case
  proof (cases "data = []")
    case True
    then show ?thesis using written_Nil [of i] by (intro exI [of _ "[]"] exI [of _ r]) auto
  next
    case False
    obtain n ws fs r1 where w: "write_frame p i data (c, r) = Return (None, int n, c\<lparr>ss_sent := ss_sent c @ ws\<rparr>, r1)"
      "0 < n" "n \<le> length data" "written i ws fs (take n data)" using write_frame_Return [OF ok min Suc.prems(1) False] by blast
    have a: "ss_answer (c\<lparr>ss_sent := ss_sent c @ ws\<rparr>) = (\<lambda>b. None)" and l: "length (drop n data) \<le> fuel" using Suc.prems w(2,3) by auto
    obtain vs gs r2 where v: "write_frames fuel p i (t + int n) (drop n data) (c\<lparr>ss_sent := ss_sent c @ ws\<rparr>, r1) =
        Some (Return ((t + int n + int (length (drop n data)), None), (c\<lparr>ss_sent := ss_sent c @ ws\<rparr>)\<lparr>ss_sent := (ss_sent c @ ws) @ vs\<rparr>, r2))"
      "written i vs gs (drop n data)" using Suc.IH [OF a l, of "t + int n" r1] by auto
    have "write_frames (Suc fuel) p i t data (c, r) = Some (Return ((t + int (length data), None), c\<lparr>ss_sent := ss_sent c @ (ws @ vs)\<rparr>, r2))"
      using False w(3) by (simp add: w(1) v(1))
    moreover have "written i (ws @ vs) (fs @ gs) data" using written_append [OF w(4) v(2)] by simp
    ultimately show ?thesis by blast
  qed
qed

text \<open>The read loop for a number of frames.\<close>

fun read_turns ::
  "registry \<Rightarrow> (nat \<Rightarrow> 'c \<Rightarrow> bytes outcome \<times> 'c) \<Rightarrow> nat \<Rightarrow> ShadowStreamConn \<times> 'c \<Rightarrow> (bool \<times> ShadowStreamConn \<times> 'c) outcome option" where
  "read_turns reg read 0 st = Some (Return (True, st))"
| "read_turns reg read (Suc n) st =
     (case read_turn reg read st of
        Some (Return (True, st1)) \<Rightarrow> read_turns reg read n st1
      | x \<Rightarrow> x)"

text \<open>A stream that is open and whose channel is within its capacity takes the chunks up to 64 and drops the others.\<close>

definition receiving :: "16 word \<Rightarrow> nat \<Rightarrow> bytes list \<Rightarrow> ShadowStreamConn \<Rightarrow> bool" where
  "receiving i a q d \<longleftrightarrow> ss_streams d i = Some a \<and> \<not> st_closed (ss_objects d a) \<and> \<not> st_chanClosed (ss_objects d a)
     \<and> st_readBuf (ss_objects d a) = take 64 q"

lemma handle_written:
  assumes "receiving i a q d" and "data_frame i f \<or> fr_Type f = FramePadding"
  shows "\<exists>d'. handle_frame reg f d = Return d' \<and> receiving i a (q @ (if data_frame i f then [fr_Payload f] else [])) d'"
proof (cases "data_frame i f")
  case True
  then have t: "fr_Type f = FrameData" "fr_StreamID f = i" by (simp_all add: data_frame_def)
  have l: "data_lookup f d = Some a" using assms(1) t by (simp add: data_lookup_def receiving_def)
  show ?thesis
  proof (cases "length q < 64")
    case lt: True
    then have "data_send a (fr_Payload f) d = Return (set_object a ((ss_objects d a)\<lparr>st_readBuf := q @ [fr_Payload f]\<rparr>) d)"
      using assms(1) by (simp add: data_send_def Let_def receiving_def)
    then show ?thesis using assms(1) lt True t(1) l by (simp add: handle_frame_def receiving_def set_object_def)
  next
    case False
    then have "data_send a (fr_Payload f) d = Return d" using assms(1) by (simp add: data_send_def Let_def receiving_def)
    then show ?thesis using assms(1) False True t(1) l by (simp add: handle_frame_def receiving_def)
  qed
next
  case False
  then have "fr_Type f = FramePadding" using assms(2) by blast
  then show ?thesis using assms(1) False by (simp add: handle_frame_def frame_types)
qed

context plain_stream
begin

lemma read_turns_written:
  "map MarshalBinary fs = map Inr ws \<Longrightarrow> \<forall>f \<in> set fs. data_frame i f \<or> fr_Type f = FramePadding \<Longrightarrow> rep u (concat ws @ s) \<Longrightarrow> receiving i a q d \<Longrightarrow>
   \<exists>d' u'. read_turns reg read (length fs) (d, u) = Some (Return (True, d', u')) \<and> rep u' s
     \<and> receiving i a (q @ map fr_Payload (filter (data_frame i) fs)) d'"
proof (induction fs arbitrary: ws u q d)
  case Nil
  then show ?case by auto
next
  case (Cons f fs)
  obtain w ws' where ws: "ws = w # ws'" "MarshalBinary f = Inr w" "map MarshalBinary fs = map Inr ws'" using Cons.prems(1) by (cases ws) auto
  have r: "rep u (w @ (concat ws' @ s))" using Cons.prems(3) ws(1) by simp
  obtain u1 where u1: "ReadFrame read u = Some (Return f, u1)" "rep u1 (concat ws' @ s)" using ReadFrame_marshal [OF r ws(2)] by blast
  have f: "data_frame i f \<or> fr_Type f = FramePadding" and fs: "\<forall>f \<in> set fs. data_frame i f \<or> fr_Type f = FramePadding" using Cons.prems(2) by simp_all
  obtain d1 where d1: "handle_frame reg f d = Return d1" "receiving i a (q @ (if data_frame i f then [fr_Payload f] else [])) d1"
    using handle_written [OF Cons.prems(4) f] by blast
  obtain d' u' where i: "read_turns reg read (length fs) (d1, u1) = Some (Return (True, d', u'))" "rep u' s"
    "receiving i a ((q @ (if data_frame i f then [fr_Payload f] else [])) @ map fr_Payload (filter (data_frame i) fs)) d'"
    using Cons.IH [OF ws(3) fs u1(2) d1(2)] by blast
  have "read_turns reg read (length (f # fs)) (d, u) = Some (Return (True, d', u'))"
    using i(1) by (simp add: read_turn_def u1(1) d1(1))
  moreover have "receiving i a (q @ map fr_Payload (filter (data_frame i) (f # fs))) d'" using i(3) by (cases "data_frame i f") simp_all
  ultimately show ?case using i(2) by blast
qed

end

lemma concat_take_all:
  assumes "[] \<notin> set xss"
  shows "concat (take n xss) = concat xss \<longleftrightarrow> length xss \<le> n"
proof
  assume e: "concat (take n xss) = concat xss"
  have "concat (drop n xss) = []" using e by (metis append_self_conv append_take_drop_id concat_append)
  then show "length xss \<le> n" using assms by (metis concat_eq_Nil_conv drop_eq_Nil hd_in_set in_set_dropD)
qed simp

text \<open>
  Claim C7. What is written to a stream is what the peer's application will read, up to 64 frames. A write puts the data into frames with padding
  frames between them; the read loop of the peer, over whatever pieces the bytes arrive in, puts the data of the first 64 frames into the channel
  of the stream, in order, and skips the padding; the data of all further frames that arrive before the application reads are dropped, so the
  peer has all data exactly if the write took at most 64 frames.
\<close>

theorem stream_delivery:
  assumes "plain_stream read rep" and "profile_ok p" and "6 < tp_MinRecordPayload p" and "eng_activeProfile (ss_engine c) = p"
    and "ss_answer c = (\<lambda>b. None)" and "length data \<le> fuel" and "ss_streams d i = Some a" and "ss_objects d a = new_Stream i"
  shows "\<exists>c' r' ws chunks n. writeData fuel i data (c, r) = Some (Return ((int (length data), None), c', r'))
    \<and> ss_sent c' = ss_sent c @ ws \<and> concat chunks = data
    \<and> (\<forall>u s. rep u (concat ws @ s) \<longrightarrow>
         (\<exists>d' u'. read_turns reg read n (d, u) = Some (Return (True, d', u')) \<and> rep u' s
            \<and> st_readBuf (ss_objects d' a) = take 64 chunks
            \<and> (concat (st_readBuf (ss_objects d' a)) = data \<longleftrightarrow> length chunks \<le> 64)))"
proof -
  obtain ws fs r' where w: "writeData fuel i data (c, r) = Some (Return ((int (length data), None), c\<lparr>ss_sent := ss_sent c @ ws\<rparr>, r'))"
    "written i ws fs data" using write_frames_Return [OF assms(2,3,5,6), of i 0 r] assms(4) by (auto simp: writeData_def)
  let ?chunks = "map fr_Payload (filter (data_frame i) fs)"
  have f: "map MarshalBinary fs = map Inr ws" "\<forall>f \<in> set fs. data_frame i f \<or> fr_Type f = FramePadding" and data: "concat ?chunks = data"
    using w(2) by (simp_all add: written_def)
  have ne: "[] \<notin> set ?chunks" by (auto simp: data_frame_def)
  have rec: "receiving i a [] d" using assms(7,8) by (simp add: receiving_def new_Stream_def)
  have del: "\<exists>d' u'. read_turns reg read (length fs) (d, u) = Some (Return (True, d', u')) \<and> rep u' s
      \<and> st_readBuf (ss_objects d' a) = take 64 ?chunks \<and> (concat (st_readBuf (ss_objects d' a)) = data \<longleftrightarrow> length ?chunks \<le> 64)"
    if "rep u (concat ws @ s)" for u s
  proof -
    note rp = that
    obtain d' u' where t: "read_turns reg read (length fs) (d, u) = Some (Return (True, d', u'))" "rep u' s" "receiving i a ([] @ ?chunks) d'"
      using plain_stream.read_turns_written [OF assms(1) f rp rec] by blast
    have b: "st_readBuf (ss_objects d' a) = take 64 ?chunks" using t(3) by (simp add: receiving_def)
    then have "concat (st_readBuf (ss_objects d' a)) = data \<longleftrightarrow> length ?chunks \<le> 64"
      using concat_take_all [OF ne, of 64] data by simp
    then show ?thesis using t(1,2) b by blast
  qed
  show ?thesis
    using w(1) data del
    by (intro exI [of _ "c\<lparr>ss_sent := ss_sent c @ ws\<rparr>"] exI [of _ r'] exI [of _ ws] exI [of _ ?chunks] exI [of _ "length fs"]) simp
qed

definition demo_conn :: "bool \<Rightarrow> ShadowStreamConn" where
  "demo_conn isServer = NewShadowStreamConn (\<lambda>b. None) demo_engine isServer"

theorem stream_delivery_witness:
  "\<exists>c' r' ws chunks n. writeData 3 1 [7, 8, 9] (demo_conn False, demo_rands) = Some (Return ((3, None), c', r')) \<and> concat chunks = [7, 8, 9]
    \<and> (\<exists>d' u'. read_turns profileRegistry (net_Read 0) n
          ((demo_conn True)\<lparr>ss_streams := [1 \<mapsto> 0], ss_objects := (\<lambda>a. new_Stream 1), ss_next := 1\<rparr>, concat ws) = Some (Return (True, d', u'))
         \<and> st_readBuf (ss_objects d' 0) = take 64 chunks)"
proof -
  let ?d = "(demo_conn True)\<lparr>ss_streams := [1 \<mapsto> 0], ss_objects := (\<lambda>a. new_Stream 1), ss_next := 1\<rparr>"
  have d: "ss_streams ?d 1 = Some 0" "ss_objects ?d 0 = new_Stream 1" by simp_all
  have c: "eng_activeProfile (ss_engine (demo_conn False)) = ChromeH2Profile" "ss_answer (demo_conn False) = (\<lambda>b. None)"
    by (simp_all add: demo_conn_def NewShadowStreamConn_def)
  have m: "6 < tp_MinRecordPayload ChromeH2Profile" by (simp add: ChromeH2Profile_def)
  from stream_delivery [OF net.plain_stream_axioms [of 0] chrome_ok m c _ d, of "[7, 8, 9]" 3 demo_rands profileRegistry]
  obtain c' r' ws chunks n where x: "writeData 3 1 [7, 8, 9] (demo_conn False, demo_rands) = Some (Return ((int (length [7, 8, 9 :: byte]), None), c', r'))"
    "concat chunks = [7, 8, 9]"
    "\<forall>u s. u = concat ws @ s \<longrightarrow> (\<exists>d' u'. read_turns profileRegistry (net_Read 0) n (?d, u) = Some (Return (True, d', u')) \<and> u' = s
       \<and> st_readBuf (ss_objects d' 0) = take 64 chunks \<and> (concat (st_readBuf (ss_objects d' 0)) = [7, 8, 9] \<longleftrightarrow> length chunks \<le> 64))"
    by (metis (no_types, lifting) length_Cons list.size(3) numeral_3_eq_3 order_refl)
  obtain d' u' where "read_turns profileRegistry (net_Read 0) n (?d, concat ws @ []) = Some (Return (True, d', u'))" "st_readBuf (ss_objects d' 0) = take 64 chunks"
    using x(3) by blast
  then show ?thesis using x(1,2)
    by (intro exI [of _ c'] exI [of _ r'] exI [of _ ws] exI [of _ chunks] exI [of _ n] exI [of _ d'] exI [of _ u'] conjI) simp_all
qed

section \<open>Closing\<close>

text \<open>
  The operations of the application, of the read loop and of the heartbeat on a connection. A run stops at a panic; what blocks or never returns changes
  nothing that is seen here.
\<close>

datatype stream_op =
    FrameArrives Frame
  | ReadStream nat nat
  | WriteStream nat nat bytes rands
  | CloseStream nat
  | Open
  | Accept
  | Shutdown
  | Heartbeat rands

definition kept :: "'a outcome option \<Rightarrow> ('a \<Rightarrow> ShadowStreamConn) \<Rightarrow> ShadowStreamConn \<Rightarrow> ShadowStreamConn outcome" where
  "kept x f c = (case x of Some (Return y) \<Rightarrow> Return (f y) | Some (Panic p) \<Rightarrow> Panic p | _ \<Rightarrow> Return c)"

fun stream_step :: "registry \<Rightarrow> stream_op \<Rightarrow> ShadowStreamConn \<Rightarrow> ShadowStreamConn outcome" where
  "stream_step reg (FrameArrives f) c = handle_frame reg f c"
| "stream_step reg (ReadStream a k) c = Return (case stream_Read a k c of None \<Rightarrow> c | Some (x, c1) \<Rightarrow> c1)"
| "stream_step reg (WriteStream fuel a p r) c = kept (stream_Write fuel a p (c, r)) (\<lambda>(x, c1, r1). c1) c"
| "stream_step reg (CloseStream a) c = Return (stream_Close a c)"
| "stream_step reg Open c = Return (snd (OpenStream c))"
| "stream_step reg Accept c = Return (case AcceptStream c of None \<Rightarrow> c | Some (x, c1) \<Rightarrow> c1)"
| "stream_step reg Shutdown c = Return (shutdown c)"
| "stream_step reg (Heartbeat r) c = kept (Some (heartbeat (c, r))) fst c"

fun stream_run :: "registry \<Rightarrow> stream_op list \<Rightarrow> ShadowStreamConn \<Rightarrow> ShadowStreamConn outcome" where
  "stream_run reg [] c = Return c"
| "stream_run reg (x # xs) c = obind (stream_step reg x c) (stream_run reg xs)"

text \<open>Writing leaves the objects and the maps alone.\<close>

definition same_streams :: "ShadowStreamConn \<Rightarrow> ShadowStreamConn \<Rightarrow> bool" where
  "same_streams c c' \<longleftrightarrow> ss_objects c' = ss_objects c \<and> ss_next c' = ss_next c \<and> ss_streams c' = ss_streams c
     \<and> ss_closed c' = ss_closed c \<and> ss_acceptClosed c' = ss_acceptClosed c"

lemma same_streams_refl: "same_streams c c" by (simp add: same_streams_def)

lemma same_streams_trans: "same_streams a b \<Longrightarrow> same_streams b c \<Longrightarrow> same_streams a c" by (simp add: same_streams_def)

lemma writeControl_same: "same_streams c (snd (writeControl ty i p c))"
  by (simp add: writeControl_def conn_Write_def same_streams_def split: sum.split)

lemma writeControl_same': "writeControl ty i p c = (x, c1) \<Longrightarrow> same_streams c c1"
  using writeControl_same [of c ty i p] by simp

lemma injectPadding_same:
  assumes "injectPadding p (c, r) = Return (c', r')"
  shows "same_streams c c'"
proof -
  obtain i pl where "c' = snd (writeControl FramePadding i pl c)"
    using assms by (auto simp: injectPadding_def obind_Return Let_def split: if_splits prod.splits)
  then show ?thesis using writeControl_same by simp
qed

lemma write_frame_same:
  assumes w: "write_frame p i data (c, r) = Return (x, n, c', r')"
  shows "same_streams c c'"
proof -
  obtain n0 r1 where n0: "SampleSize (tp_C2SSizes p) r = Return (n0, r1)"
    using w by (auto simp: write_frame_def obind_Return)
  define k where "k = min (min (sized p n0 - 6) (int (length data))) 65535"
  have k: "\<not> k < 0" using w unfolding write_frame_def case_prod_conv n0 obind.simps Let_def k_def [symmetric] by (auto split: if_splits)
  obtain y c1 where y: "writeControl FrameData i (take (nat k) data) c = (y, c1)" by force
  note s1 = writeControl_same' [OF y]
  have tw: "(case y of Some e \<Rightarrow> Return (Some e, 0, c1, r1)
      | None \<Rightarrow> obind (Intn 100 r1) (\<lambda>(m, r2). if m < 20 then obind (injectPadding p (c1, r2)) (\<lambda>(c2, r3). Return (None, k, c2, r3))
                                         else Return (None, k, c1, r2))) = Return (x, n, c', r')"
    using w k unfolding write_frame_def case_prod_conv n0 obind.simps Let_def k_def [symmetric] y by simp
  show ?thesis
  proof (cases y)
    case (Some e)
    then show ?thesis using tw s1 by simp
  next
    case None
    then obtain m r2 where m: "Intn 100 r1 = Return (m, r2)" and
      tw2: "(if m < 20 then obind (injectPadding p (c1, r2)) (\<lambda>(c2, r3). Return (None, k, c2, r3)) else Return (None, k, c1, r2)) = Return (x, n, c', r')"
      using tw by (auto simp: obind_Return)
    show ?thesis
    proof (cases "m < 20")
      case True
      then obtain r3 where "injectPadding p (c1, r2) = Return (c', r3)" using tw2 by (auto simp: obind_Return)
      then show ?thesis using injectPadding_same same_streams_trans [OF s1] by blast
    next
      case False
      then show ?thesis using tw2 s1 by simp
    qed
  qed
qed

lemma write_frames_same: "write_frames fuel p i t data (c, r) = Some (Return (x, c', r')) \<Longrightarrow> same_streams c c'"
proof (induction fuel arbitrary: t data c r)
  case 0
  then show ?case using same_streams_refl by (simp split: if_splits)
next
  case (Suc fuel)
  show ?case
  proof (cases "data = []")
    case True
    then show ?thesis using Suc.prems same_streams_refl by simp
  next
    case False
    obtain y n c1 r1 where w: "write_frame p i data (c, r) = Return (y, n, c1, r1)"
      using Suc.prems False by (cases "write_frame p i data (c, r)") auto
    note s1 = write_frame_same [OF w]
    show ?thesis
    proof (cases y)
      case None
      then have "write_frames fuel p i (t + n) (drop (nat n) data) (c1, r1) = Some (Return (x, c', r'))" using Suc.prems False by (simp add: w)
      from Suc.IH [OF this] show ?thesis by (rule same_streams_trans [OF s1])
    next
      case (Some e)
      then show ?thesis using Suc.prems False s1 by (simp add: w)
    qed
  qed
qed

text \<open>A stream that is closed while its channel is open stays so: no operation closes the channel any more.\<close>

definition stuck :: "nat \<Rightarrow> ShadowStreamConn \<Rightarrow> bool" where
  "stuck a c \<longleftrightarrow> st_closed (ss_objects c a) \<and> \<not> st_chanClosed (ss_objects c a) \<and> a < ss_next c"

lemma stuck_same: "same_streams c c' \<Longrightarrow> stuck a c \<Longrightarrow> stuck a c'"
  by (simp add: stuck_def same_streams_def)

lemma stuck_set_object:
  "stuck a c \<Longrightarrow> b \<noteq> a \<or> st_closed s \<and> \<not> st_chanClosed s \<Longrightarrow> stuck a (set_object b s c)"
  by (auto simp: stuck_def set_object_def)

lemma stuck_fields:
  "stuck a (c\<lparr>ss_streams := m\<rparr>) = stuck a c" "stuck a (c\<lparr>ss_acceptCh := q\<rparr>) = stuck a c" "stuck a (c\<lparr>ss_engine := e\<rparr>) = stuck a c"
  "stuck a (c\<lparr>ss_nextID := w, ss_next := Suc (ss_next c), ss_streams := m\<rparr>) = (stuck a c \<or> st_closed (ss_objects c a) \<and> \<not> st_chanClosed (ss_objects c a) \<and> a = ss_next c)"
  by (auto simp: stuck_def)

lemma stuck_new: "stuck a c \<Longrightarrow> stuck a (set_object (ss_next c) s c\<lparr>ss_next := Suc (ss_next c), ss_streams := m\<rparr>)"
  by (simp add: stuck_def set_object_def)

lemma stuck_OpenStream: "stuck a c \<Longrightarrow> stuck a (snd (OpenStream c))"
proof (cases "ss_closed c")
  case False
  assume s: "stuck a c"
  let ?i = "ucast (ss_nextID c) :: 16 word"
  define c1 where "c1 = set_object (ss_next c) (new_Stream ?i) c\<lparr>ss_nextID := ss_nextID c + 2, ss_next := Suc (ss_next c), ss_streams := (ss_streams c)(?i \<mapsto> ss_next c)\<rparr>"
  have "stuck a c1" using s by (simp add: c1_def stuck_def set_object_def)
  then have w: "stuck a (snd (writeControl FrameStreamOpen ?i [] c1))" by (rule stuck_same [OF writeControl_same])
  obtain x c2 where c2: "writeControl FrameStreamOpen ?i [] c1 = (x, c2)" by force
  have "snd (OpenStream c) = (case x of Some e \<Rightarrow> c2\<lparr>ss_streams := (ss_streams c2)(?i := None)\<rparr> | None \<Rightarrow> c2)"
    using False by (cases x) (simp_all add: OpenStream_def Let_def c1_def [symmetric] c2)
  then show ?thesis using w by (cases x) (simp_all add: c2 stuck_fields)
qed (simp add: OpenStream_def)

lemma stuck_stream_Close: "stuck a c \<Longrightarrow> stuck a (stream_Close b c)"
proof (cases "st_closed (ss_objects c b)")
  case False
  assume s: "stuck a c"
  then have b: "b \<noteq> a" using False by (auto simp: stuck_def)
  then have "stuck a (set_object b (ss_objects c b\<lparr>st_closed := True\<rparr>) c)" using s by (intro stuck_set_object) auto
  then have "stuck a (snd (writeControl FrameStreamClose (st_id (ss_objects c b)) [] (set_object b (ss_objects c b\<lparr>st_closed := True\<rparr>) c)))"
    by (rule stuck_same [OF writeControl_same])
  then show ?thesis using False b by (simp add: stream_Close_def Let_def stuck_set_object)
qed (simp add: stream_Close_def)

lemma stuck_handle_frame:
  assumes s: "stuck a c" and h: "handle_frame reg f c = Return c'"
  shows "stuck a c'"
proof -
  consider (data) "fr_Type f = FrameData" | (opens) "fr_Type f = FrameStreamOpen" | (closes) "fr_Type f = FrameStreamClose"
    | (switch) "fr_Type f = FrameShapeSwitch" | (skip) "fr_Type f \<notin> {FrameData, FrameStreamOpen, FrameStreamClose, FrameShapeSwitch}" by blast
  then show ?thesis
  proof cases
    case data
    show ?thesis
    proof (cases "data_lookup f c")
      case None
      then show ?thesis using h data s by (simp add: handle_frame_def)
    next
      case (Some b)
      then have b: "b \<noteq> a" using s by (auto simp: data_lookup_def stuck_def split: option.splits if_splits)
      have "data_send b (fr_Payload f) c = Return c'" using h data Some by (simp add: handle_frame_def)
      then show ?thesis using s b by (auto simp: data_send_def Let_def intro!: stuck_set_object split: if_splits)
    qed
  next
    case opens
    obtain b c1 where b: "open_store f c = (b, c1)" by force
    have "stuck a c1" using b s by (auto simp: open_store_def Let_def stuck_new)
    moreover have "open_send b c1 = Return c'" using h opens b by (simp add: handle_frame_def frame_types)
    ultimately show ?thesis by (auto simp: open_send_def stuck_fields split: if_splits)
  next
    case closes
    then have "c' = close_frame f c" using h by (simp add: handle_frame_def frame_types)
    moreover have "stuck a (set_object b (ss_objects c b\<lparr>st_closed := True\<rparr>) c)" for b
      using s by (intro stuck_set_object) (auto simp: stuck_def)
    ultimately show ?thesis using s by (simp add: close_frame_def stuck_fields split: option.split)
  next
    case switch
    then have "c' = shape_switch reg f c" using h by (simp add: handle_frame_def frame_types)
    then show ?thesis using s by (simp add: shape_switch_def stuck_fields)
  next
    case skip
    then show ?thesis using h s by (simp add: handle_frame_def)
  qed
qed

lemma kept_same:
  assumes "kept x f c = Return c'" and "\<And>y. x = Some (Return y) \<Longrightarrow> same_streams c (f y)"
  shows "same_streams c c'"
  using assms same_streams_refl by (auto simp: kept_def split: option.splits outcome.splits)

lemma stream_Write_same: "stream_Write fuel a p (c, r) = Some (Return (x, c', r')) \<Longrightarrow> same_streams c c'"
  using write_frames_same same_streams_refl by (auto simp: stream_Write_def writeData_def Let_def split: if_splits)

lemma heartbeat_same: "heartbeat (c, r) = Return (c', r') \<Longrightarrow> same_streams c c'"
  using writeControl_same by (auto simp: heartbeat_def Let_def obind_Return split: if_splits prod.splits)

lemma stuck_read: "stuck b c \<Longrightarrow> stream_Read a k c = Some (x, c') \<Longrightarrow> stuck b c'"
  by (auto simp: stream_Read_def Stream_Read_def stuck_def set_object_def split: if_splits list.splits)

lemma stuck_step:
  assumes s: "stuck a c" and st: "stream_step reg x c = Return c'"
  shows "stuck a c'"
proof (cases x)
  case (FrameArrives f)
  then show ?thesis using st stuck_handle_frame [OF s] by simp
next
  case (ReadStream b k)
  then show ?thesis using st s stuck_read [OF s, of b k] by (auto split: option.splits)
next
  case (WriteStream fuel b p r)
  then have "kept (stream_Write fuel b p (c, r)) (\<lambda>(x, c1, r1). c1) c = Return c'" using st by simp
  then have "same_streams c c'" by (rule kept_same) (auto dest: stream_Write_same)
  then show ?thesis by (rule stuck_same [OF _ s])
next
  case (CloseStream b)
  then show ?thesis using st stuck_stream_Close [OF s, of b] by auto
next
  case Open
  then show ?thesis using st stuck_OpenStream [OF s] by auto
next
  case Accept
  then show ?thesis using st s by (auto simp: AcceptStream_def stuck_fields split: option.splits list.splits if_splits)
next
  case Shutdown
  then show ?thesis using st s by (auto simp: shutdown_def stuck_def split: if_splits)
next
  case (Heartbeat r)
  then have "kept (Some (heartbeat (c, r))) fst c = Return c'" using st by simp
  then have "same_streams c c'" by (rule kept_same) (auto dest: heartbeat_same)
  then show ?thesis by (rule stuck_same [OF _ s])
qed

lemma stuck_run: "stuck a c \<Longrightarrow> stream_run reg ops c = Return c' \<Longrightarrow> stuck a c'"
proof (induction ops arbitrary: c)
  case (Cons x ops)
  then obtain c1 where "stream_step reg x c = Return c1" "stream_run reg ops c1 = Return c'" by (auto simp: obind_Return)
  then show ?case using Cons.IH stuck_step [OF Cons.prems(1)] by blast
qed simp

text \<open>
  Claim C22. A stream that the peer has closed, or whose connection was shut down, never ends for its reader: after that, in every run of operations of the
  application, of the read loop and of the heartbeat, closing the stream included, a read gives data or blocks, and never reports the
  end. So a reader waits for ever once the data are read.
\<close>

theorem closed_stream_never_ends:
  assumes "ss_streams c i = Some a" and "\<not> st_chanClosed (ss_objects c a)" and "a < ss_next c"
    and "c1 = close_frame f c \<and> fr_StreamID f = i \<or> c1 = shutdown c \<and> \<not> ss_closed c" and "stream_run reg ops c1 = Return c2"
  shows "case stream_Read a k c2 of
           None \<Rightarrow> st_readBuf (ss_objects c2 a) = [] \<and> st_readPart (ss_objects c2 a) = []
         | Some (x, c3) \<Rightarrow> \<exists>d. x = Return d"
proof -
  have "stuck a c1"
    using assms(1-4) by (auto simp: stuck_def close_frame_def shutdown_def set_object_def ran_def split: if_splits)
  then have "stuck a c2" by (rule stuck_run [OF _ assms(5)])
  then show ?thesis by (auto simp: stream_Read_def Stream_Read_def stuck_def split: option.splits list.splits if_splits)
qed

theorem closed_stream_never_ends_witness:
  "\<exists>c2. stream_run profileRegistry [CloseStream 0, ReadStream 0 5]
       (close_frame \<lparr>fr_Type = FrameStreamClose, fr_Flags = 0, fr_StreamID = 1, fr_Payload = []\<rparr> (snd (OpenStream (demo_conn False)))) = Return c2
     \<and> (case stream_Read 0 5 c2 of
          None \<Rightarrow> st_readBuf (ss_objects c2 0) = [] \<and> st_readPart (ss_objects c2 0) = []
        | Some (x, c3) \<Rightarrow> \<exists>d. x = Return d)"
proof -
  define c where "c = snd (OpenStream (demo_conn False))"
  let ?f = "\<lparr>fr_Type = FrameStreamClose, fr_Flags = 0, fr_StreamID = 1, fr_Payload = []\<rparr>"
  have c: "ss_streams c 1 = Some 0" "\<not> st_chanClosed (ss_objects c 0)" "0 < ss_next c"
    by (simp_all add: c_def OpenStream_def demo_conn_def NewShadowStreamConn_def Let_def writeControl_def MarshalBinary_def conn_Write_def set_object_def new_Stream_def)
  obtain c2 where r: "stream_run profileRegistry [CloseStream 0, ReadStream 0 5] (close_frame ?f c) = Return c2" by simp
  have "close_frame ?f c = close_frame ?f c \<and> fr_StreamID ?f = 1 \<or> close_frame ?f c = shutdown c \<and> \<not> ss_closed c" by simp
  from closed_stream_never_ends [OF c this r, of 5] r show ?thesis unfolding c_def [symmetric] by blast
qed

text \<open>The states of a connection: a closed channel belongs to a closed stream, and the queue of new streams is closed with the connection.\<close>

definition conn_inv :: "ShadowStreamConn \<Rightarrow> bool" where
  "conn_inv c \<longleftrightarrow> (\<forall>a. st_chanClosed (ss_objects c a) \<longrightarrow> st_closed (ss_objects c a)) \<and> ss_acceptClosed c = ss_closed c"

lemma conn_inv_same: "same_streams c c' \<Longrightarrow> conn_inv c \<Longrightarrow> conn_inv c'"
  by (simp add: conn_inv_def same_streams_def)

lemma conn_inv_set_object: "conn_inv c \<Longrightarrow> (st_chanClosed s \<longrightarrow> st_closed s) \<Longrightarrow> conn_inv (set_object a s c)"
  by (simp add: conn_inv_def set_object_def)

lemma conn_inv_fields:
  "conn_inv (c\<lparr>ss_streams := m\<rparr>) = conn_inv c" "conn_inv (c\<lparr>ss_acceptCh := q\<rparr>) = conn_inv c" "conn_inv (c\<lparr>ss_engine := e\<rparr>) = conn_inv c"
  "conn_inv (c\<lparr>ss_nextID := w, ss_next := n, ss_streams := m\<rparr>) = conn_inv c" "conn_inv (c\<lparr>ss_next := n\<rparr>) = conn_inv c"
  by (simp_all add: conn_inv_def)

lemma conn_inv_handle_frame:
  assumes i: "conn_inv c" and h: "handle_frame reg f c = Return c'"
  shows "conn_inv c'"
proof -
  have "conn_inv c'" if "data_send b p c = Return c'" for b p
    using that i by (auto simp: data_send_def Let_def intro!: conn_inv_set_object split: if_splits)
  moreover have "conn_inv c'" if "open_store f c = (b, c1)" "open_send b c1 = Return c'" for b c1
  proof -
    have "conn_inv c1" using that(1) i by (auto simp: open_store_def Let_def conn_inv_fields new_Stream_def intro!: conn_inv_set_object)
    then show ?thesis using that(2) by (auto simp: open_send_def conn_inv_fields split: if_splits)
  qed
  moreover have "conn_inv (close_frame f c)"
    using i by (simp add: close_frame_def conn_inv_fields conn_inv_set_object split: option.split)
  moreover have "conn_inv (shape_switch reg f c)" using i by (simp add: shape_switch_def conn_inv_fields)
  ultimately show ?thesis using h i by (auto simp: handle_frame_def split: if_splits option.splits prod.splits)
qed

lemma conn_inv_step:
  assumes i: "conn_inv c" and st: "stream_step reg x c = Return c'"
  shows "conn_inv c'"
proof (cases x)
  case (FrameArrives f)
  then show ?thesis using st conn_inv_handle_frame [OF i] by simp
next
  case (ReadStream b k)
  then show ?thesis using st i
    by (auto simp: stream_Read_def Stream_Read_def conn_inv_def set_object_def split: option.splits if_splits list.splits)
next
  case (WriteStream fuel b p r)
  then have "kept (stream_Write fuel b p (c, r)) (\<lambda>(x, c1, r1). c1) c = Return c'" using st by simp
  then have "same_streams c c'" by (rule kept_same) (auto dest: stream_Write_same)
  then show ?thesis by (rule conn_inv_same [OF _ i])
next
  case (CloseStream b)
  have "conn_inv (set_object b (ss_objects c b\<lparr>st_closed := True\<rparr>) c)" using i by (simp add: conn_inv_set_object)
  then have "conn_inv (snd (writeControl FrameStreamClose (st_id (ss_objects c b)) [] (set_object b (ss_objects c b\<lparr>st_closed := True\<rparr>) c)))"
    by (rule conn_inv_same [OF writeControl_same])
  then have "conn_inv (stream_Close b c)" using i by (simp add: stream_Close_def Let_def conn_inv_set_object)
  then show ?thesis using st CloseStream by auto
next
  case Open
  let ?i = "ucast (ss_nextID c) :: 16 word"
  define c1 where "c1 = set_object (ss_next c) (new_Stream ?i) c\<lparr>ss_nextID := ss_nextID c + 2, ss_next := Suc (ss_next c), ss_streams := (ss_streams c)(?i \<mapsto> ss_next c)\<rparr>"
  have "conn_inv c1" using i by (simp add: c1_def conn_inv_def set_object_def new_Stream_def)
  then have w: "conn_inv (snd (writeControl FrameStreamOpen ?i [] c1))" by (rule conn_inv_same [OF writeControl_same])
  obtain y c2 where c2: "writeControl FrameStreamOpen ?i [] c1 = (y, c2)" by force
  have "snd (OpenStream c) = (if ss_closed c then c else case y of Some e \<Rightarrow> c2\<lparr>ss_streams := (ss_streams c2)(?i := None)\<rparr> | None \<Rightarrow> c2)"
    by (cases y) (simp_all add: OpenStream_def Let_def c1_def [symmetric] c2)
  then have "conn_inv (snd (OpenStream c))" using w i by (cases y) (simp_all add: c2 conn_inv_fields)
  then show ?thesis using st Open by auto
next
  case Accept
  then show ?thesis using st i by (auto simp: AcceptStream_def conn_inv_fields split: option.splits list.splits if_splits)
next
  case Shutdown
  then show ?thesis using st i by (auto simp: shutdown_def conn_inv_def split: if_splits)
next
  case (Heartbeat r)
  then have "kept (Some (heartbeat (c, r))) fst c = Return c'" using st by simp
  then have "same_streams c c'" by (rule kept_same) (auto dest: heartbeat_same)
  then show ?thesis by (rule conn_inv_same [OF _ i])
qed

lemma conn_inv_run: "conn_inv c \<Longrightarrow> stream_run reg ops c = Return c' \<Longrightarrow> conn_inv c'"
proof (induction ops arbitrary: c)
  case (Cons x ops)
  then obtain c1 where "stream_step reg x c = Return c1" "stream_run reg ops c1 = Return c'" by (auto simp: obind_Return)
  then show ?case using Cons.IH conn_inv_step [OF Cons.prems(1)] by blast
qed simp

lemma conn_inv_new: "conn_inv (NewShadowStreamConn answer e isServer)"
  by (simp add: conn_inv_def NewShadowStreamConn_def new_Stream_def)

lemma handle_frame_no_panic:
  assumes "conn_inv c" and "\<not> ss_closed c"
  shows "\<exists>c'. handle_frame reg f c = Return c'"
proof -
  have "\<exists>c'. data_send a p c = Return c'" if "data_lookup f c = Some a" for a p
    using that assms(1) by (auto simp: data_lookup_def data_send_def Let_def conn_inv_def split: option.splits if_splits)
  moreover have "\<exists>c'. open_send a c1 = Return c'" if "open_store f c = (a, c1)" for a c1
    using that assms by (auto simp: open_store_def open_send_def Let_def conn_inv_def set_object_def)
  ultimately show ?thesis by (auto simp: handle_frame_def split: option.split prod.split)
qed

text \<open>
  The read loop of a connection panics exactly in a race. On a connection that is not closed, whatever was done with it before, the turn for
  a frame never panics when nothing comes between its steps. But when the application closes the stream between the look-up and the
  send of a chunk, or closes the connection between the two steps for a new stream, the send goes to a closed channel and
  panics, and nothing recovers it.
\<close>

theorem frames_panic_in_races:
  assumes "stream_run reg ops (NewShadowStreamConn answer e isServer) = Return c" and "\<not> ss_closed c"
  shows "(\<exists>c'. handle_frame reg f c = Return c')
    \<and> (\<forall>a. data_lookup f c = Some a \<longrightarrow> data_send a payload (stream_Close a c) = Panic ''send on closed channel'')
    \<and> open_send (fst (open_store f c)) (shutdown (snd (open_store f c))) = Panic ''send on closed channel''"
proof -
  have i: "conn_inv c" by (rule conn_inv_run [OF conn_inv_new assms(1)])
  have "data_send a payload (stream_Close a c) = Panic ''send on closed channel''" if "data_lookup f c = Some a" for a
  proof -
    have "\<not> st_closed (ss_objects c a)" using that by (auto simp: data_lookup_def split: option.splits if_splits)
    then show ?thesis by (simp add: data_send_def stream_Close_def Let_def set_object_def)
  qed
  moreover have "open_send (fst (open_store f c)) (shutdown (snd (open_store f c))) = Panic ''send on closed channel''"
    using assms(2) by (simp add: open_store_def open_send_def shutdown_def Let_def set_object_def)
  ultimately show ?thesis using handle_frame_no_panic [OF i assms(2)] by blast
qed

theorem frames_panic_in_races_witness:
  "\<exists>c. stream_run profileRegistry [Open] (NewShadowStreamConn (\<lambda>b. None) demo_engine False) = Return c
    \<and> data_lookup \<lparr>fr_Type = FrameData, fr_Flags = 0, fr_StreamID = 1, fr_Payload = [9]\<rparr> c = Some 0
    \<and> data_send 0 [9] (stream_Close 0 c) = Panic ''send on closed channel''"
proof -
  let ?f = "\<lparr>fr_Type = FrameData, fr_Flags = 0, fr_StreamID = 1, fr_Payload = [9]\<rparr>"
  obtain c where r: "stream_run profileRegistry [Open] (NewShadowStreamConn (\<lambda>b. None) demo_engine False) = Return c" by simp
  then have c: "\<not> ss_closed c" "data_lookup ?f c = Some 0"
    by (auto simp: OpenStream_def NewShadowStreamConn_def Let_def writeControl_def MarshalBinary_def conn_Write_def set_object_def new_Stream_def data_lookup_def)
  then show ?thesis using r frames_panic_in_races [OF r c(1), of ?f "[9]"] by blast
qed

end
