(* ===== verification/Shadow_Pool.thy ===== *)
theory Shadow_Pool
  imports Shadow_Control
begin

text \<open>
  The connection pool of ShadowFlow (\<open>common/shadowflow/pool.go\<close>) with its eviction, and the wrapper that injects noise when a stream starts.
  Connections are objects in a store, because their users keep them after the pool has dropped them; the clock and the dialer's answer are arguments,
  and an eviction round is a step, taken when the ticker fires. Times are in nanoseconds.
\<close>

section \<open>The pool\<close>

record PooledConn =
  pn_createdAt :: int
  pn_lastUsed :: int
  pn_inUse :: bool
  pn_streams :: int
  pn_id :: "64 word"
  pn_connClosed :: bool

record ConnPool =
  pl_objects :: "nat \<Rightarrow> PooledConn"
  pl_next :: nat
  pl_conns :: "nat list"
  pl_maxConns :: int
  pl_maxAge :: int
  pl_maxIdle :: int
  pl_nextID :: "64 word"
  pl_stopped :: bool

definition NewConnPool :: "int \<Rightarrow> int \<Rightarrow> int \<Rightarrow> ConnPool" where
  "NewConnPool maxConns maxAge maxIdle =
     \<lparr>pl_objects = (\<lambda>a. \<lparr>pn_createdAt = 0, pn_lastUsed = 0, pn_inUse = False, pn_streams = 0, pn_id = 0, pn_connClosed = False\<rparr>), pl_next = 0,
      pl_conns = [], pl_maxConns = (if maxConns \<le> 0 then 8 else maxConns), pl_maxAge = (if maxAge \<le> 0 then 600 * 10 ^ 9 else maxAge),
      pl_maxIdle = (if maxIdle \<le> 0 then 60 * 10 ^ 9 else maxIdle), pl_nextID = 0, pl_stopped = False\<rparr>"

definition set_conn :: "nat \<Rightarrow> PooledConn \<Rightarrow> ConnPool \<Rightarrow> ConnPool" where
  "set_conn a x p = p\<lparr>pl_objects := (pl_objects p)(a := x)\<rparr>"

definition close_conn :: "nat \<Rightarrow> ConnPool \<Rightarrow> ConnPool" where
  "close_conn a p = set_conn a ((pl_objects p a)\<lparr>pn_connClosed := True\<rparr>) p"

definition Release :: "int \<Rightarrow> nat \<Rightarrow> ConnPool \<Rightarrow> ConnPool" where
  "Release now a p =
     (let x = pl_objects p a; n = pn_streams x - 1
      in set_conn a (x\<lparr>pn_streams := n, pn_inUse := (if n \<le> 0 then False else pn_inUse x), pn_lastUsed := now\<rparr>) p)"

text \<open>The first connection that is not expired and has room for a stream.\<close>

definition has_room :: "int \<Rightarrow> ConnPool \<Rightarrow> nat \<Rightarrow> bool" where
  "has_room now p a \<longleftrightarrow> \<not> pl_maxAge p < now - pn_createdAt (pl_objects p a) \<and> pn_streams (pl_objects p a) < 32"

text \<open>The idle connection that was used longest ago, the first one of those that were used at the same time.\<close>

fun oldest_idle :: "(nat \<Rightarrow> PooledConn) \<Rightarrow> nat list \<Rightarrow> nat option \<Rightarrow> nat option" where
  "oldest_idle obj [] best = best"
| "oldest_idle obj (a # as) best =
     (if pn_inUse (obj a) then oldest_idle obj as best
      else (case best of
              None \<Rightarrow> oldest_idle obj as (Some a)
            | Some b \<Rightarrow> if pn_lastUsed (obj a) < pn_lastUsed (obj b) then oldest_idle obj as (Some a) else oldest_idle obj as best))"

definition evictOldest :: "ConnPool \<Rightarrow> ConnPool" where
  "evictOldest p =
     (case oldest_idle (pl_objects p) (pl_conns p) None of
        None \<Rightarrow> p
      | Some a \<Rightarrow> close_conn a p\<lparr>pl_conns := remove1 a (pl_conns p)\<rparr>)"

definition Get :: "int \<Rightarrow> goerror option \<Rightarrow> ConnPool \<Rightarrow> (goerror + nat) \<times> ConnPool" where
  "Get now dial p =
     (case find (has_room now p) (pl_conns p) of
        Some a \<Rightarrow>
          (let x = pl_objects p a
           in (Inr a, set_conn a (x\<lparr>pn_streams := pn_streams x + 1, pn_inUse := True, pn_lastUsed := now\<rparr>) p))
      | None \<Rightarrow>
          (let p1 = (if pl_maxConns p \<le> int (length (pl_conns p)) then evictOldest p else p) in
           case dial of
             Some e \<Rightarrow> (Inl e, p1)
           | None \<Rightarrow>
               (let a = pl_next p1; i = pl_nextID p1 + 1
                in (Inr a, set_conn a \<lparr>pn_createdAt = now, pn_lastUsed = now, pn_inUse = True, pn_streams = 1, pn_id = i, pn_connClosed = False\<rparr> p1
                       \<lparr>pl_next := Suc a, pl_conns := pl_conns p1 @ [a], pl_nextID := i\<rparr>))))"

text \<open>A round of the eviction loop: expired connections and those that are idle for too long are closed and dropped.\<close>

definition evicted :: "int \<Rightarrow> ConnPool \<Rightarrow> nat \<Rightarrow> bool" where
  "evicted now p a \<longleftrightarrow>
     pl_maxAge p < now - pn_createdAt (pl_objects p a)
     \<or> \<not> pn_inUse (pl_objects p a) \<and> pl_maxIdle p < now - pn_lastUsed (pl_objects p a)"

definition evict_round :: "int \<Rightarrow> ConnPool \<Rightarrow> ConnPool" where
  "evict_round now p =
     (if pl_stopped p then p
      else (fold close_conn (filter (evicted now p) (pl_conns p)) p)\<lparr>pl_conns := filter (\<lambda>a. \<not> evicted now p a) (pl_conns p)\<rparr>)"

definition pool_Close :: "ConnPool \<Rightarrow> ConnPool" where
  "pool_Close p = (if pl_stopped p then p else (fold close_conn (pl_conns p) p)\<lparr>pl_stopped := True, pl_conns := []\<rparr>)"

record PoolStats =
  ps_TotalConns :: nat
  ps_ActiveConns :: nat
  ps_IdleConns :: nat
  ps_TotalStreams :: int

definition Stats :: "ConnPool \<Rightarrow> PoolStats" where
  "Stats p =
     \<lparr>ps_TotalConns = length (pl_conns p), ps_ActiveConns = length (filter (\<lambda>a. pn_inUse (pl_objects p a)) (pl_conns p)),
      ps_IdleConns = length (filter (\<lambda>a. \<not> pn_inUse (pl_objects p a)) (pl_conns p)),
      ps_TotalStreams = sum_list (map (\<lambda>a. pn_streams (pl_objects p a)) (pl_conns p))\<rparr>"

section \<open>Streams with noise\<close>

text \<open>
  The noise and the data of a stream go to the same connection, whose writes are in \<open>ni_out\<close>; reads come straight from the connection.
\<close>

record streamWrapper =
  sx_conn :: nat
  sx_injector :: NoiseInjector
  sx_closed :: bool

definition StartStream ::
  "(bytes \<Rightarrow> goerror option) \<Rightarrow> CamouflageEngine \<Rightarrow> nat \<Rightarrow> rands \<Rightarrow> ((goerror + streamWrapper) \<times> rands) outcome" where
  "StartStream w e a r =
     obind (InjectInitialNoise w e NewNoiseInjector r) (\<lambda>(err, ni, r1).
       case err of
         Some er \<Rightarrow> Return (Inl er, r1)
       | None \<Rightarrow> Return (Inr \<lparr>sx_conn = a, sx_injector = StartContinuousNoise ni, sx_closed = False\<rparr>, r1))"

definition wrapper_Read :: "(nat \<Rightarrow> 'c \<Rightarrow> bytes outcome \<times> 'c) \<Rightarrow> nat \<Rightarrow> 'c \<Rightarrow> bytes outcome \<times> 'c" where
  "wrapper_Read read n c = read n c"

definition wrapper_Write :: "(bytes \<Rightarrow> goerror option) \<Rightarrow> bytes \<Rightarrow> streamWrapper \<Rightarrow> goerror option \<times> streamWrapper" where
  "wrapper_Write w p s = (w p, s\<lparr>sx_injector := (sx_injector s)\<lparr>ni_out := ni_out (sx_injector s) @ [p]\<rparr>\<rparr>)"

definition wrapper_Close :: "int \<Rightarrow> streamWrapper \<Rightarrow> ConnPool \<Rightarrow> streamWrapper \<times> ConnPool" where
  "wrapper_Close now s p =
     (if sx_closed s then (s, p)
      else (s\<lparr>sx_closed := True, sx_injector := noise_Stop (sx_injector s)\<rparr>, Release now (sx_conn s) p))"

section \<open>Clients\<close>

text \<open>
  A history of the pool with clients that release a connection once for every time they got it; \<open>h\<close> counts how often a connection is
  held.
\<close>

datatype pool_op = PoolGet int "goerror option" | PoolRelease int nat | EvictRound int

fun pool_step :: "pool_op \<Rightarrow> ConnPool \<times> (nat \<Rightarrow> nat) \<Rightarrow> ConnPool \<times> (nat \<Rightarrow> nat)" where
  "pool_step (PoolGet now dial) (p, h) =
     (case Get now dial p of (Inl e, p1) \<Rightarrow> (p1, h) | (Inr a, p1) \<Rightarrow> (p1, h(a := Suc (h a))))"
| "pool_step (PoolRelease now a) (p, h) = (if 0 < h a then (Release now a p, h(a := h a - 1)) else (p, h))"
| "pool_step (EvictRound now) (p, h) = (evict_round now p, h)"

definition pool_run :: "pool_op list \<Rightarrow> ConnPool \<times> (nat \<Rightarrow> nat) \<Rightarrow> ConnPool \<times> (nat \<Rightarrow> nat)" where
  "pool_run ops st = fold pool_step ops st"

text \<open>What the pool keeps to: its connections are open objects of the store, and their counters say how often they are held.\<close>

definition pool_inv :: "ConnPool \<times> (nat \<Rightarrow> nat) \<Rightarrow> bool" where
  "pool_inv st \<longleftrightarrow>
     (case st of (p, h) \<Rightarrow>
        distinct (pl_conns p) \<and> (\<forall>a \<in> set (pl_conns p). a < pl_next p \<and> \<not> pn_connClosed (pl_objects p a))
        \<and> (\<forall>a. pl_next p \<le> a \<longrightarrow> h a = 0)
        \<and> (\<forall>a < pl_next p. pn_streams (pl_objects p a) = int (h a) \<and> h a \<le> 32 \<and> (pn_inUse (pl_objects p a) \<longleftrightarrow> 0 < h a)))"

lemma pool_inv_new: "pool_inv (NewConnPool m a i, \<lambda>a. 0)"
  by (simp add: pool_inv_def NewConnPool_def)

lemma fold_close_conn:
  "pl_objects (fold close_conn as p) b = (if b \<in> set as then (pl_objects p b)\<lparr>pn_connClosed := True\<rparr> else pl_objects p b)"
  "pl_next (fold close_conn as p) = pl_next p" "pl_conns (fold close_conn as p) = pl_conns p"
  by (induction as arbitrary: p) (auto simp: close_conn_def set_conn_def)

lemma oldest_idle_in:
  "oldest_idle obj as best = Some a \<Longrightarrow> (\<forall>b. best = Some b \<longrightarrow> \<not> pn_inUse (obj b)) \<Longrightarrow> (best = Some a \<or> a \<in> set as) \<and> \<not> pn_inUse (obj a)"
  by (induction as arbitrary: best) (auto split: if_splits option.splits)

lemma oldest_idle_None: "oldest_idle obj as best = None \<longleftrightarrow> best = None \<and> (\<forall>a \<in> set as. pn_inUse (obj a))"
  by (induction as arbitrary: best) (auto split: option.splits)

lemma pool_inv_evictOldest:
  assumes "pool_inv (p, h)"
  shows "pool_inv (evictOldest p, h)" and "pl_next (evictOldest p) = pl_next p"
proof -
  have "pool_inv (evictOldest p, h) \<and> pl_next (evictOldest p) = pl_next p"
  proof (cases "oldest_idle (pl_objects p) (pl_conns p) None")
    case (Some a)
    then have a: "a \<in> set (pl_conns p)" using oldest_idle_in by fastforce
    have d: "distinct (pl_conns p)" using assms by (simp add: pool_inv_def)
    then have r: "set (remove1 a (pl_conns p)) = set (pl_conns p) - {a}" by simp
    show ?thesis using assms Some a d
      by (auto simp: evictOldest_def close_conn_def set_conn_def pool_inv_def r distinct_remove1)
  qed (use assms in \<open>simp add: evictOldest_def\<close>)
  then show "pool_inv (evictOldest p, h)" "pl_next (evictOldest p) = pl_next p" by simp_all
qed

end
