(* ===== verification/Shadow_Pool_Props.thy ===== *)
theory Shadow_Pool_Props
  imports Shadow_Pool Shadow_Props
begin

text \<open>
  What the connection pool guarantees to clients that release what they got: counters and marks agree with what is held, and every connection that is
  handed out is open, young and has room. And what it does not: an expired connection is closed under its streams, and a full pool
  grows when every connection is in use.
\<close>

lemma find_Some: "find P xs = Some x \<Longrightarrow> x \<in> set xs \<and> P x"
  by (induction xs) (auto split: if_splits)

lemma Get_cases:
  assumes "Get now dial p = (res, p')"
  obtains (room) a where "find (has_room now p) (pl_conns p) = Some a" "res = Inr a"
      "p' = set_conn a ((pl_objects p a)\<lparr>pn_streams := pn_streams (pl_objects p a) + 1, pn_inUse := True, pn_lastUsed := now\<rparr>) p"
  | (failed) e where "find (has_room now p) (pl_conns p) = None" "dial = Some e" "res = Inl e"
      "p' = (if pl_maxConns p \<le> int (length (pl_conns p)) then evictOldest p else p)"
  | (dialed) p1 where "find (has_room now p) (pl_conns p) = None" "dial = None" "p1 = (if pl_maxConns p \<le> int (length (pl_conns p)) then evictOldest p else p)"
      "res = Inr (pl_next p1)"
      "p' = set_conn (pl_next p1) \<lparr>pn_createdAt = now, pn_lastUsed = now, pn_inUse = True, pn_streams = 1, pn_id = pl_nextID p1 + 1, pn_connClosed = False\<rparr> p1
              \<lparr>pl_next := Suc (pl_next p1), pl_conns := pl_conns p1 @ [pl_next p1], pl_nextID := pl_nextID p1 + 1\<rparr>"
proof (cases "find (has_room now p) (pl_conns p)")
  case (Some a)
  then show ?thesis using assms room by (simp add: Get_def Let_def)
next
  case None
  then show ?thesis using assms failed dialed by (cases dial) (simp_all add: Get_def Let_def)
qed

lemma pool_inv_Get:
  assumes inv: "pool_inv (p, h)" and g: "Get now dial p = (res, p')"
  shows "pool_inv (p', case res of Inl e \<Rightarrow> h | Inr a \<Rightarrow> h(a := Suc (h a)))"
    and "res = Inr a \<Longrightarrow> a \<in> set (pl_conns p') \<and> \<not> pn_connClosed (pl_objects p' a)
      \<and> (0 \<le> pl_maxAge p \<longrightarrow> now - pn_createdAt (pl_objects p' a) \<le> pl_maxAge p) \<and> pn_streams (pl_objects p' a) \<le> 32"
proof -
  have inv1: "pool_inv (if pl_maxConns p \<le> int (length (pl_conns p)) then evictOldest p else p, h)"
    using pool_inv_evictOldest(1) [OF inv] inv by simp
  show "pool_inv (p', case res of Inl e \<Rightarrow> h | Inr a \<Rightarrow> h(a := Suc (h a)))" using g
  proof (cases rule: Get_cases)
    case (room a)
    have r: "a \<in> set (pl_conns p)" "has_room now p a" using find_Some [OF room(1)] by simp_all
    then show ?thesis using inv room(2,3) by (auto simp: pool_inv_def set_conn_def has_room_def)
  next
    case (failed e)
    then show ?thesis using inv1 by simp
  next
    case (dialed p1)
    have "pool_inv (p1, h)" using inv1 dialed(3) by simp
    then show ?thesis using dialed(4,5) by (auto simp: pool_inv_def set_conn_def less_Suc_eq)
  qed
  show "a \<in> set (pl_conns p') \<and> \<not> pn_connClosed (pl_objects p' a)
      \<and> (0 \<le> pl_maxAge p \<longrightarrow> now - pn_createdAt (pl_objects p' a) \<le> pl_maxAge p) \<and> pn_streams (pl_objects p' a) \<le> 32" if "res = Inr a"
    using g
  proof (cases rule: Get_cases)
    case (room b)
    have r: "b \<in> set (pl_conns p)" "has_room now p b" using find_Some [OF room(1)] by simp_all
    then show ?thesis using inv room(2,3) that by (auto simp: pool_inv_def set_conn_def has_room_def)
  next
    case (failed e)
    then show ?thesis using that by simp
  next
    case (dialed p1)
    then show ?thesis using that by (simp add: set_conn_def)
  qed
qed

lemma pool_inv_step:
  assumes "pool_inv (p, h)"
  shows "pool_inv (pool_step x (p, h))"
proof (cases x)
  case (PoolGet now dial)
  obtain res p' where g: "Get now dial p = (res, p')" by force
  show ?thesis using pool_inv_Get(1) [OF assms g] PoolGet by (cases res) (simp_all add: g)
next
  case (PoolRelease now a)
  then show ?thesis using assms by (auto simp: pool_inv_def Release_def Let_def set_conn_def)
next
  case (EvictRound now)
  then show ?thesis using assms
    by (auto simp: pool_inv_def evict_round_def fold_close_conn split: if_splits)
qed

lemma pool_inv_run: "pool_inv st \<Longrightarrow> pool_inv (pool_run ops st)"
proof (induction ops arbitrary: st)
  case (Cons x ops)
  then show ?case using pool_inv_step by (cases st) (simp add: pool_run_def)
qed (simp add: pool_run_def)

lemma maxAge_kept: "pl_maxAge (fst (pool_run ops (p, h))) = pl_maxAge p"
proof (induction ops arbitrary: p h)
  case (Cons x ops)
  have e: "pl_maxAge (fold close_conn as q) = pl_maxAge q" for as q by (induction as arbitrary: q) (auto simp: close_conn_def set_conn_def)
  have o: "pl_maxAge (evictOldest q) = pl_maxAge q" for q by (simp add: evictOldest_def close_conn_def set_conn_def split: option.split)
  have "pl_maxAge (fst (pool_step x (p, h))) = pl_maxAge p"
    by (cases x) (auto simp: Get_def Let_def Release_def set_conn_def evict_round_def e o split: option.split prod.split sum.split)
  then show ?case using Cons by (cases "pool_step x (p, h)") (simp add: pool_run_def)
qed (simp add: pool_run_def)

text \<open>
  Claim C10. After any history of gets, releases and eviction rounds, with clients that release once what they got, the pool is in order: its
  connections are different and open, every connection's stream counter is the number of times it is held, at most 32, and it is marked in use exactly
  while it is held. The next get, when it gives a connection, gives one of the pool that is open, not expired and within 32 streams.
\<close>

theorem pool_in_order:
  assumes "pool_run ops (NewConnPool maxConns maxAge maxIdle, \<lambda>a. 0) = (p, h)"
  shows "pool_inv (p, h)
    \<and> (\<forall>now dial a p'. Get now dial p = (Inr a, p') \<longrightarrow> a \<in> set (pl_conns p') \<and> \<not> pn_connClosed (pl_objects p' a)
         \<and> now - pn_createdAt (pl_objects p' a) \<le> pl_maxAge p \<and> pn_streams (pl_objects p' a) \<le> 32 \<and> pool_inv (p', h(a := Suc (h a))))"
proof -
  have inv: "pool_inv (p, h)" using pool_inv_run [OF pool_inv_new, of ops maxConns maxAge maxIdle] assms by simp
  have "pl_maxAge p = pl_maxAge (NewConnPool maxConns maxAge maxIdle)" using maxAge_kept [of ops "NewConnPool maxConns maxAge maxIdle" "\<lambda>a. 0"] assms by simp
  then have age: "0 \<le> pl_maxAge p" by (simp add: NewConnPool_def)
  have "a \<in> set (pl_conns p') \<and> \<not> pn_connClosed (pl_objects p' a) \<and> now - pn_createdAt (pl_objects p' a) \<le> pl_maxAge p
      \<and> pn_streams (pl_objects p' a) \<le> 32 \<and> pool_inv (p', h(a := Suc (h a)))" if "Get now dial p = (Inr a, p')" for now dial a p'
    using pool_inv_Get(1) [OF inv that] pool_inv_Get(2) [OF inv that refl] age by simp
  then show ?thesis using inv by blast
qed

theorem pool_in_order_witness:
  "\<exists>p h. pool_run [PoolGet 5 None, PoolGet 6 None, PoolRelease 7 0, EvictRound 8] (NewConnPool 2 0 0, \<lambda>a. 0) = (p, h) \<and> pool_inv (p, h) \<and> h 0 = 1"
proof -
  obtain p h where r: "pool_run [PoolGet 5 None, PoolGet 6 None, PoolRelease 7 0, EvictRound 8] (NewConnPool 2 0 0, \<lambda>a. 0) = (p, h)" by force
  have "h 0 = 1"
    using r by (auto simp: pool_run_def Get_def NewConnPool_def Let_def set_conn_def has_room_def Release_def evict_round_def)
  then show ?thesis using pool_in_order [OF r] r by blast
qed

text \<open>
  Two things the pool's limits do not hold: an eviction round closes a connection that is held exactly if it is older than the maximal age, under
  its streams; and a get adds a connection to a pool that is full exactly if no connection has room and every one is in use, without any bound.
\<close>

theorem pool_limits_broken:
  assumes "pool_run ops (NewConnPool maxConns maxAge maxIdle, \<lambda>a. 0) = (p, h)" and "a \<in> set (pl_conns p)" and "0 < h a" and "\<not> pl_stopped p"
  shows "(pn_connClosed (pl_objects (evict_round now p) a) \<longleftrightarrow> pl_maxAge p < now - pn_createdAt (pl_objects p a))
    \<and> (pl_maxConns p \<le> int (length (pl_conns p)) \<longrightarrow>
        (length (pl_conns (snd (Get now None p))) > length (pl_conns p)
          \<longleftrightarrow> (\<forall>b \<in> set (pl_conns p). \<not> has_room now p b \<and> pn_inUse (pl_objects p b))))"
proof -
  have inv: "pool_inv (p, h)" using pool_inv_run [OF pool_inv_new, of ops maxConns maxAge maxIdle] assms(1) by simp
  have a: "a < pl_next p" "\<not> pn_connClosed (pl_objects p a)" using inv assms(2) by (auto simp: pool_inv_def)
  then have u: "pn_inUse (pl_objects p a)" using inv assms(3) by (auto simp: pool_inv_def)
  have ev: "pn_connClosed (pl_objects (evict_round now p) a) \<longleftrightarrow> pl_maxAge p < now - pn_createdAt (pl_objects p a)"
    using assms(2,4) a(2) u by (simp add: evict_round_def fold_close_conn evicted_def)
  have grow: "length (pl_conns (snd (Get now None p))) > length (pl_conns p)
      \<longleftrightarrow> (\<forall>b \<in> set (pl_conns p). \<not> has_room now p b \<and> pn_inUse (pl_objects p b))" if full: "pl_maxConns p \<le> int (length (pl_conns p))"
  proof -
    obtain res p' where g: "Get now None p = (res, p')" by force
    show ?thesis using g
    proof (cases rule: Get_cases)
      case (room b)
      then show ?thesis using find_Some [OF room(1)] by (auto simp: g set_conn_def)
    next
      case (failed e)
      then show ?thesis by simp
    next
      case (dialed p1)
      have nr: "\<forall>b \<in> set (pl_conns p). \<not> has_room now p b" using dialed(1) by (auto simp: find_None_iff)
      have l: "length (pl_conns p') = Suc (length (pl_conns p1))" by (simp add: dialed(5))
      have "length (pl_conns p1) = (if \<forall>b \<in> set (pl_conns p). pn_inUse (pl_objects p b) then length (pl_conns p) else length (pl_conns p) - 1)"
      proof (cases "oldest_idle (pl_objects p) (pl_conns p) None")
        case None
        then have "\<forall>b \<in> set (pl_conns p). pn_inUse (pl_objects p b)" by (simp add: oldest_idle_None)
        then show ?thesis using full dialed(3) None by (simp add: evictOldest_def)
      next
        case (Some b)
        have "b \<in> set (pl_conns p)" "\<not> pn_inUse (pl_objects p b)" using oldest_idle_in [OF Some] by auto
        then show ?thesis using full dialed(3) Some by (auto simp: evictOldest_def close_conn_def set_conn_def length_remove1)
      qed
      then show ?thesis using nr l assms(2) by (auto simp: g) (cases "pl_conns p", auto)+
    qed
  qed
  show ?thesis using ev grow by blast
qed

theorem pool_limits_broken_witness:
  "\<exists>p h. pool_run [PoolGet 5 None] (NewConnPool 1 100 0, \<lambda>a. 0) = (p, h) \<and> h 0 = 1
    \<and> pn_connClosed (pl_objects (evict_round 200 p) 0) \<and> length (pl_conns (snd (Get 200 None p))) = 2"
proof -
  obtain p h where r: "pool_run [PoolGet 5 None] (NewConnPool 1 100 0, \<lambda>a. 0) = (p, h)" by force
  have p: "pl_conns p = [0]" "h 0 = 1" "\<not> pl_stopped p" "pl_maxConns p = 1" "pl_maxAge p = 100" "pn_createdAt (pl_objects p 0) = 5" "pn_inUse (pl_objects p 0)"
    using r by (auto simp: pool_run_def Get_def NewConnPool_def Let_def set_conn_def)
  have h: "0 \<in> set (pl_conns p)" "0 < h 0" using p by simp_all
  note l = pool_limits_broken [OF r h p(3), of 200]
  have c: "pn_connClosed (pl_objects (evict_round 200 p) 0)" using l p by simp
  have g: "1 < length (pl_conns (snd (Get 200 None p)))" using l p by (simp add: has_room_def)
  have "length (pl_conns (snd (Get 200 None p))) \<le> 2"
    using p by (simp add: Get_def has_room_def Let_def evictOldest_def set_conn_def)
  then show ?thesis using r p(2) c g by auto
qed

end
