(* ===== verification/Shadow_Router.thy ===== *)
theory Shadow_Router
  imports Shadow_Control
begin

text \<open>
  The choice of domains and paths in ShadowFlow: the domain router with its health marks (\<open>common/shadowflow/router.go\<close>), the path pool
  (\<open>pathpool.go\<close>), and the fallback web server that answers probes (\<open>fallback.go\<close>). The clock, random numbers and the HTTP client are arguments; a recovery
  and a turn of the path cycler are steps, taken when their timers fire.
\<close>

section \<open>Domains\<close>

datatype RotationStrategy = RotateRandom | RotateRoundRobin | RotateTimeBased | RotatePerConnection

record domainStatus =
  do_failures :: int
  do_healthy :: bool

text \<open>\<open>dr_recoveries\<close> has the goroutines that wait to mark a domain healthy again, with the time they wake.\<close>

record DomainRouter =
  dr_uploadDomains :: "string list"
  dr_downloadDomains :: "string list"
  dr_strategy :: RotationStrategy
  dr_uploadIdx :: "32 word"
  dr_downloadIdx :: "32 word"
  dr_health :: "string \<rightharpoonup> domainStatus"
  dr_switchInterval :: int
  dr_lastSwitch :: int
  dr_recoveries :: "(string \<times> int) list"

definition newline :: char where "newline = char_of (10 :: nat)"

definition parseDomainList :: "string \<Rightarrow> string list" where
  "parseDomainList raw =
     (if raw = [] then []
      else filter (\<lambda>d. d \<noteq> []) (map TrimSpace (Split newline (map (\<lambda>c. if c = CHR '','' then newline else c) raw))))"

definition NewDomainRouter :: "int \<Rightarrow> string \<Rightarrow> string \<Rightarrow> RotationStrategy \<Rightarrow> int \<Rightarrow> DomainRouter" where
  "NewDomainRouter now uploadHosts downloadHosts strategy switchSec =
     (let up = parseDomainList uploadHosts; down = parseDomainList downloadHosts;
          upload = (if up = [] then [[]] else up); download = (if down = [] then [[]] else down);
          interval = i64 (switchSec * 10 ^ 9)
      in \<lparr>dr_uploadDomains = upload, dr_downloadDomains = download, dr_strategy = strategy, dr_uploadIdx = 0, dr_downloadIdx = 0,
          dr_health = (\<lambda>d. if d \<in> set upload \<union> set download then Some \<lparr>do_failures = 0, do_healthy = True\<rparr> else None),
          dr_switchInterval = (if interval \<le> 0 then 30 * 10 ^ 9 else interval), dr_lastSwitch = now, dr_recoveries = []\<rparr>)"

definition BuildDomainRouter :: "int \<Rightarrow> NodeConfig \<Rightarrow> DomainRouter" where
  "BuildDomainRouter now c =
     NewDomainRouter now (nc_UploadHost c) (nc_DownloadHost c)
       (case nc_Shaping c of
          None \<Rightarrow> RotateRandom
        | Some s \<Rightarrow> if sc_DomainStrategy s = ''round_robin'' then RotateRoundRobin
                    else if sc_DomainStrategy s = ''time_based'' then RotateTimeBased else RotateRandom)
       (nc_SwitchIntervalMin c)"

definition is_healthy :: "DomainRouter \<Rightarrow> string \<Rightarrow> bool" where
  "is_healthy dr d = (case dr_health dr d of Some s \<Rightarrow> do_healthy s | None \<Rightarrow> True)"

definition filterHealthy :: "DomainRouter \<Rightarrow> string list \<Rightarrow> string list" where
  "filterHealthy dr domains = filter (is_healthy dr) domains"

text \<open>The element at \<open>k % len\<close>, where the remainder of a negative number is negative.\<close>

definition at_mod :: "'a list \<Rightarrow> int \<Rightarrow> 'a outcome" where
  "at_mod xs k =
     (let n = int (length xs); m = k - n * go_div k n
      in if m < 0 then Panic ''index out of range'' else Return (xs ! nat m))"

definition pick_random :: "'a list \<Rightarrow> rands \<Rightarrow> ('a \<times> rands) outcome" where
  "pick_random xs r = obind (Intn (int (length xs)) r) (\<lambda>(k, r1). Return (xs ! nat k, r1))"

definition pickDomain :: "DomainRouter \<Rightarrow> int \<Rightarrow> string list \<Rightarrow> 32 word \<Rightarrow> rands \<Rightarrow> (string \<times> 32 word \<times> rands) outcome" where
  "pickDomain dr now domains idx r =
     (if domains = [] then Return ([], idx, r)
      else if length domains = 1 then Return (domains ! 0, idx, r)
      else
        (let good = filterHealthy dr domains; healthy = (if good = [] then domains else good) in
         case dr_strategy dr of
           RotateRoundRobin \<Rightarrow> obind (at_mod healthy (int (unat idx))) (\<lambda>d. Return (d, idx + 1, r))
         | RotateTimeBased \<Rightarrow> obind (at_mod healthy (go_div (now - dr_lastSwitch dr) (dr_switchInterval dr))) (\<lambda>d. Return (d, idx, r))
         | _ \<Rightarrow> obind (pick_random healthy r) (\<lambda>(d, r1). Return (d, idx, r1))))"

definition GetUploadDomain :: "int \<Rightarrow> rands \<Rightarrow> DomainRouter \<Rightarrow> (string \<times> DomainRouter \<times> rands) outcome" where
  "GetUploadDomain now r dr =
     obind (pickDomain dr now (dr_uploadDomains dr) (dr_uploadIdx dr) r) (\<lambda>(d, i, r1). Return (d, dr\<lparr>dr_uploadIdx := i\<rparr>, r1))"

definition GetDownloadDomain :: "int \<Rightarrow> rands \<Rightarrow> DomainRouter \<Rightarrow> (string \<times> DomainRouter \<times> rands) outcome" where
  "GetDownloadDomain now r dr =
     obind (pickDomain dr now (dr_downloadDomains dr) (dr_downloadIdx dr) r) (\<lambda>(d, i, r1). Return (d, dr\<lparr>dr_downloadIdx := i\<rparr>, r1))"

definition ReportFailure :: "int \<Rightarrow> string \<Rightarrow> DomainRouter \<Rightarrow> DomainRouter" where
  "ReportFailure now d dr =
     (case dr_health dr d of
        None \<Rightarrow> dr
      | Some s \<Rightarrow>
          (let n = do_failures s + 1 in
           if 3 \<le> n
           then dr\<lparr>dr_health := (dr_health dr)(d \<mapsto> \<lparr>do_failures = n, do_healthy = False\<rparr>), dr_recoveries := dr_recoveries dr @ [(d, now + 300 * 10 ^ 9)]\<rparr>
           else dr\<lparr>dr_health := (dr_health dr)(d \<mapsto> s\<lparr>do_failures := n\<rparr>)\<rparr>))"

definition mark_healthy :: "string \<Rightarrow> DomainRouter \<Rightarrow> DomainRouter" where
  "mark_healthy d dr =
     (case dr_health dr d of None \<Rightarrow> dr | Some s \<Rightarrow> dr\<lparr>dr_health := (dr_health dr)(d \<mapsto> \<lparr>do_failures = 0, do_healthy = True\<rparr>)\<rparr>)"

definition ReportSuccess :: "string \<Rightarrow> DomainRouter \<Rightarrow> DomainRouter" where
  "ReportSuccess d dr = mark_healthy d dr"

text \<open>The recoveries whose five minutes are over wake and end.\<close>

definition wake_recoveries :: "int \<Rightarrow> DomainRouter \<Rightarrow> DomainRouter" where
  "wake_recoveries now dr =
     (fold mark_healthy (map fst (filter (\<lambda>(d, t). t \<le> now) (dr_recoveries dr))) dr)\<lparr>dr_recoveries := filter (\<lambda>(d, t). now < t) (dr_recoveries dr)\<rparr>"

definition UpdateDomains :: "string \<Rightarrow> string \<Rightarrow> DomainRouter \<Rightarrow> DomainRouter" where
  "UpdateDomains uploadHosts downloadHosts dr =
     (let up = parseDomainList uploadHosts; down = parseDomainList downloadHosts;
          dr1 = (if up = [] then dr else dr\<lparr>dr_uploadDomains := up\<rparr>)
      in if down = [] then dr1 else dr1\<lparr>dr_downloadDomains := down\<rparr>)"

record router_stats =
  rs_upload_count :: nat
  rs_download_count :: nat
  rs_strategy :: RotationStrategy
  rs_health :: "string \<rightharpoonup> bool"

definition router_GetStats :: "DomainRouter \<Rightarrow> router_stats" where
  "router_GetStats dr =
     \<lparr>rs_upload_count = length (dr_uploadDomains dr), rs_download_count = length (dr_downloadDomains dr), rs_strategy = dr_strategy dr,
      rs_health = (\<lambda>d. map_option do_healthy (dr_health dr d))\<rparr>"

section \<open>Paths\<close>

datatype PathStrategy = PathRandom | PathRoundRobin | PathTimeBased

record PathPool =
  pp_paths :: "string list"
  pp_index :: int
  pp_strategy :: PathStrategy
  pp_stopped :: bool
  pp_currentPath :: "string option"
  pp_cycler :: "(int \<times> int) option"

record PathPoolConfig =
  pf_Paths :: "string list"
  pf_Strategy :: PathStrategy
  pf_SwitchIntervalMin :: int
  pf_SwitchIntervalMax :: int
  pf_DynamicIDs :: bool

definition DefaultPathTemplates :: "string list" where
  "DefaultPathTemplates =
     [''/api/v2/realtime/events/{id}'', ''/api/v3/notifications/stream/{id}'', ''/console/{id}/monitoring/live'', ''/dashboard/{id}/analytics/realtime'',
      ''/socket.io/?EIO=4&transport=websocket&sid={id}'', ''/ws/collaboration/{id}/session'', ''/cable?channel={id}'', ''/graphql/subscriptions/{id}'',
      ''/_next/webpack-hmr?page={id}'', ''/supabase/realtime/v1/websocket?ref={id}'']"

definition hex_digit :: "nat \<Rightarrow> char" where
  "hex_digit n = ''0123456789abcdef'' ! n"

definition hex_EncodeToString :: "bytes \<Rightarrow> string" where
  "hex_EncodeToString b = concat (map (\<lambda>x. [hex_digit (unat x div 16), hex_digit (unat x mod 16)]) b)"

definition generateSessionID :: "rands \<Rightarrow> string \<times> rands" where
  "generateSessionID r = (case rand_Read 16 r of (b, r1) \<Rightarrow> (hex_EncodeToString b, r1))"

text \<open>\<open>strings.ReplaceAll\<close> of a text that is not empty.\<close>

function ReplaceAll :: "string \<Rightarrow> string \<Rightarrow> string \<Rightarrow> string" where
  "ReplaceAll s pat t =
     (case s of
        [] \<Rightarrow> []
      | c # cs \<Rightarrow> if pat = [] then s else (case CutPrefix s pat of Some rest \<Rightarrow> t @ ReplaceAll rest pat t | None \<Rightarrow> c # ReplaceAll cs pat t))"
  by pat_completeness auto
termination
  by (relation "measure (\<lambda>(s, pat, t). length s)") (auto simp: CutPrefix_Some)

declare ReplaceAll.simps [simp del]

text \<open>The instances of a template: three, or one, or the path itself when it has no place for an id.\<close>

definition instances :: "bool \<Rightarrow> string \<Rightarrow> nat" where
  "instances dynamicIDs p = (if sublist ''{id}'' p then (if dynamicIDs then 3 else 1) else 0)"

fun instantiate :: "nat \<Rightarrow> string \<Rightarrow> rands \<Rightarrow> string list \<times> rands" where
  "instantiate 0 p r = ([], r)"
| "instantiate (Suc n) p r =
     (case generateSessionID r of (i, r1) \<Rightarrow> (case instantiate n p r1 of (ps, r2) \<Rightarrow> (ReplaceAll p ''{id}'' i # ps, r2)))"

fun expand_paths :: "bool \<Rightarrow> string list \<Rightarrow> rands \<Rightarrow> string list \<times> rands" where
  "expand_paths dynamicIDs [] r = ([], r)"
| "expand_paths dynamicIDs (p # ps) r =
     (case (if instances dynamicIDs p = 0 then ([p], r) else instantiate (instances dynamicIDs p) p r) of
        (xs, r1) \<Rightarrow> (case expand_paths dynamicIDs ps r1 of (ys, r2) \<Rightarrow> (xs @ ys, r2)))"

definition NewPathPool :: "PathPoolConfig \<Rightarrow> rands \<Rightarrow> PathPool \<times> rands" where
  "NewPathPool c r =
     (case expand_paths (pf_DynamicIDs c) (if pf_Paths c = [] then DefaultPathTemplates else pf_Paths c) r of
        (paths, r1) \<Rightarrow>
          (\<lparr>pp_paths = paths, pp_index = 0, pp_strategy = pf_Strategy c, pp_stopped = False,
            pp_currentPath = (case paths of [] \<Rightarrow> None | p # ps \<Rightarrow> Some p),
            pp_cycler = (if pf_Strategy c = PathTimeBased \<and> 1 < length paths
                         then Some (switch_bounds (pf_SwitchIntervalMin c) (pf_SwitchIntervalMax c)) else None)\<rparr>, r1))"

definition Pick :: "PathPool \<Rightarrow> rands \<Rightarrow> (string \<times> PathPool \<times> rands) outcome" where
  "Pick pp r =
     (if pp_paths pp = [] then Return (''/'', pp, r)
      else
        (case pp_strategy pp of
           PathRandom \<Rightarrow> obind (pick_random (pp_paths pp) r) (\<lambda>(p, r1). Return (p, pp, r1))
         | PathRoundRobin \<Rightarrow>
             (let i = i64 (pp_index pp + 1) in
              obind (at_mod (pp_paths pp) (i64 (i - 1))) (\<lambda>p. Return (p, pp\<lparr>pp_index := i\<rparr>, r)))
         | PathTimeBased \<Rightarrow> Return (case pp_currentPath pp of Some p \<Rightarrow> p | None \<Rightarrow> pp_paths pp ! 0, pp, r)))"

definition All_paths :: "PathPool \<Rightarrow> string list" where
  "All_paths pp = pp_paths pp"

definition cycle_path :: "PathPool \<Rightarrow> rands \<Rightarrow> (PathPool \<times> rands) outcome" where
  "cycle_path pp r =
     (if pp_cycler pp = None then Return (pp, r)
      else obind (pick_random (pp_paths pp) r) (\<lambda>(p, r1). Return (pp\<lparr>pp_currentPath := Some p\<rparr>, r1)))"

definition pathpool_Close :: "PathPool \<Rightarrow> PathPool" where
  "pathpool_Close pp = (if pp_stopped pp then pp else pp\<lparr>pp_stopped := True, pp_cycler := None\<rparr>)"

definition DefaultGRPCServiceNames :: "string list" where
  "DefaultGRPCServiceNames =
     [''google.pubsub.v1.Subscriber'', ''grpc.health.v1.Health'', ''envoy.service.discovery.v3.AggregatedDiscoveryService'',
      ''google.cloud.bigquery.storage.v1.BigQueryRead'', ''google.cloud.aiplatform.v1.PredictionService'', ''firebase.database.v1.FirebaseEventStream'',
      ''google.cloud.run.v2.Services'']"

section \<open>Answering probes\<close>

type_synonym headers = "string \<rightharpoonup> string list"

record http_request =
  hq_Method :: string
  hq_Path :: string
  hq_UserAgent :: string
  hq_Accept :: string
  hq_AcceptLanguage :: string

record http_response =
  hr_Status :: int
  hr_Header :: headers
  hr_Body :: string

record FallbackServer =
  fb_TargetURL :: string
  fb_LocalPages :: "string \<rightharpoonup> string"
  fb_ServerHeader :: string
  fb_ProbesReceived :: int
  fb_ProbesServed :: int

definition NewFallbackServer :: "string \<Rightarrow> (string \<rightharpoonup> string) \<Rightarrow> string \<Rightarrow> FallbackServer" where
  "NewFallbackServer url pages header =
     \<lparr>fb_TargetURL = url, fb_LocalPages = pages, fb_ServerHeader = or_else header ''nginx/1.24.0'', fb_ProbesReceived = 0, fb_ProbesServed = 0\<rparr>"

definition header_Set :: "string \<Rightarrow> string \<Rightarrow> headers \<Rightarrow> headers" where
  "header_Set k v h = h(k \<mapsto> [v])"

definition header_AddAll :: "headers \<Rightarrow> headers \<Rightarrow> headers" where
  "header_AddAll new h = (\<lambda>k. case new k of None \<Rightarrow> h k | Some vs \<Rightarrow> if vs = [] then h k else Some ((case h k of None \<Rightarrow> [] | Some us \<Rightarrow> us) @ vs))"

definition TrimRight_slash :: "string \<Rightarrow> string" where
  "TrimRight_slash s = rev (dropWhile (\<lambda>c. c = CHR ''/'') (rev s))"

definition defaultNotFoundPage :: string where
  "defaultNotFoundPage = Join [''<!DOCTYPE html>'', ''<html>'', ''<head><title>404 Not Found</title></head>'', ''<body>'',
     ''<center><h1>404 Not Found</h1></center>'', ''<hr><center>nginx/1.24.0</center>'', ''</body>'', ''</html>'', []] [newline]"

text \<open>The HTTP client gets the request with its address and three headers; it answers with an error when no request can be made of them.\<close>

type_synonym http_client = "http_request \<Rightarrow> string \<Rightarrow> goerror + http_response"

definition reverseProxy :: "http_client \<Rightarrow> FallbackServer \<Rightarrow> http_request \<Rightarrow> headers \<Rightarrow> http_response option" where
  "reverseProxy client fs q h =
     (case client q (TrimRight_slash (fb_TargetURL fs) @ hq_Path q) of
        Inl e \<Rightarrow> None
      | Inr resp \<Rightarrow>
          Some \<lparr>hr_Status = hr_Status resp, hr_Header = header_Set ''Server'' (fb_ServerHeader fs) (header_AddAll (hr_Header resp) h), hr_Body = hr_Body resp\<rparr>)"

definition handleProbe :: "http_client \<Rightarrow> http_request \<Rightarrow> FallbackServer \<Rightarrow> http_response \<times> FallbackServer" where
  "handleProbe client q fs0 =
     (let fs = fs0\<lparr>fb_ProbesReceived := i64 (fb_ProbesReceived fs0 + 1)\<rparr>;
          served = fs\<lparr>fb_ProbesServed := i64 (fb_ProbesServed fs + 1)\<rparr>;
          h = header_Set ''Strict-Transport-Security'' ''max-age=31536000; includeSubDomains''
                (header_Set ''X-Frame-Options'' ''DENY''
                  (header_Set ''X-Content-Type-Options'' ''nosniff'' (header_Set ''Server'' (fb_ServerHeader fs) Map.empty)));
          html = header_Set ''Content-Type'' ''text/html; charset=utf-8'' h;
          proxied = (if fb_TargetURL fs = [] then None else reverseProxy client fs q h)
      in case proxied of
           Some resp \<Rightarrow> (resp, served)
         | None \<Rightarrow>
             (case fb_LocalPages fs (hq_Path q) of
                Some content \<Rightarrow> (\<lparr>hr_Status = 200, hr_Header = html, hr_Body = content\<rparr>, served)
              | None \<Rightarrow> (\<lparr>hr_Status = 404, hr_Header = html, hr_Body = defaultNotFoundPage\<rparr>, served)))"

definition fallback_GetStats :: "FallbackServer \<Rightarrow> int \<times> int" where
  "fallback_GetStats fs = (fb_ProbesReceived fs, fb_ProbesServed fs)"

text \<open>The heuristic is a placeholder.\<close>

definition IsProbe :: bool where "IsProbe = False"

end
