(* ===== verification/Shadow_Router_Props.thy ===== *)
theory Shadow_Router_Props
  imports Shadow_Router Shadow_Props "HOL-Library.Multiset"
begin

text \<open>
  What the domain router guarantees: it always picks a domain of the list, a healthy one when there is one, and in round robin every
  healthy domain once in as many picks; an unhealthy domain has a recovery pending, and only domains of the first lists can be marked.
\<close>

section \<open>Picking\<close>

lemma at_mod_nonneg:
  assumes "0 \<le> k" and "xs \<noteq> []"
  shows "at_mod xs k = Return (xs ! nat (k mod int (length xs)))" and "nat (k mod int (length xs)) < length xs"
proof -
  have n: "0 < int (length xs)" using assms(2) by simp
  have "k - int (length xs) * go_div k (int (length xs)) = k mod int (length xs)"
    using assms(1) n by (simp add: go_div_nonneg minus_mult_div_eq_mod)
  moreover have "0 \<le> k mod int (length xs)" using n by simp
  ultimately show "at_mod xs k = Return (xs ! nat (k mod int (length xs)))" by (simp add: at_mod_def Let_def)
  have "k mod int (length xs) < int (length xs)" using n by (rule pos_mod_bound)
  then show "nat (k mod int (length xs)) < length xs" using n by (simp add: nat_less_iff)
qed

lemma pick_random_Return: "xs \<noteq> [] \<Longrightarrow> \<exists>x r'. pick_random xs r = Return (x, r') \<and> x \<in> set xs"
  using Intn_Return [of "int (length xs)" r] by (auto simp: pick_random_def nat_less_iff intro!: nth_mem)

text \<open>The list a pick is made from.\<close>

definition candidates :: "DomainRouter \<Rightarrow> string list \<Rightarrow> string list" where
  "candidates dr domains = (if filterHealthy dr domains = [] then domains else filterHealthy dr domains)"

lemma candidates_props:
  assumes "domains \<noteq> []"
  shows "candidates dr domains \<noteq> []" and "set (candidates dr domains) \<subseteq> set domains"
    and "d \<in> set (candidates dr domains) \<Longrightarrow> \<exists>x \<in> set domains. is_healthy dr x \<Longrightarrow> is_healthy dr d"
  using assms by (auto simp: candidates_def filterHealthy_def filter_empty_conv split: if_splits)

lemma pickDomain_Return:
  assumes "2 \<le> length domains" and "dr_lastSwitch dr \<le> now" and "0 < dr_switchInterval dr"
  shows "\<exists>d i r'. pickDomain dr now domains idx r = Return (d, i, r') \<and> d \<in> set (candidates dr domains)"
proof -
  have ne: "domains \<noteq> []" "length domains \<noteq> 1" using assms(1) by auto
  note c = candidates_props(1) [OF ne(1), of dr]
  have e: "0 \<le> go_div (now - dr_lastSwitch dr) (dr_switchInterval dr)" using assms(2,3) by (simp add: go_div_nonneg pos_imp_zdiv_nonneg_iff)
  obtain x r' where x: "pick_random (candidates dr domains) r = Return (x, r')" "x \<in> set (candidates dr domains)" using pick_random_Return [OF c] by blast
  show ?thesis
  proof (cases "dr_strategy dr")
    case RotateRoundRobin
    have p: "(0::int) \<le> int (unat idx)" by simp
    show ?thesis using RotateRoundRobin ne at_mod_nonneg [OF p c] nth_mem
      by (simp add: pickDomain_def candidates_def [symmetric] Let_def)
  next
    case RotateTimeBased
    then show ?thesis using ne at_mod_nonneg [OF e c] nth_mem by (simp add: pickDomain_def candidates_def [symmetric] Let_def)
  qed (use x ne in \<open>simp_all add: pickDomain_def candidates_def [symmetric] Let_def\<close>)
qed

text \<open>Picks one after the other, with nothing in between.\<close>

fun picks :: "nat \<Rightarrow> DomainRouter \<Rightarrow> int \<Rightarrow> string list \<Rightarrow> 32 word \<Rightarrow> rands \<Rightarrow> string list outcome" where
  "picks 0 dr now domains idx r = Return []"
| "picks (Suc n) dr now domains idx r =
     obind (pickDomain dr now domains idx r) (\<lambda>(d, i, r1). obind (picks n dr now domains i r1) (\<lambda>ds. Return (d # ds)))"

lemma picks_round_robin:
  assumes "dr_strategy dr = RotateRoundRobin" and "2 \<le> length domains"
  shows "unat idx + n < 2 ^ 32 \<Longrightarrow>
    picks n dr now domains idx r = Return (map (\<lambda>k. candidates dr domains ! ((unat idx + k) mod length (candidates dr domains))) [0..<n])"
proof (induction n arbitrary: idx)
  case (Suc n)
  have ne: "domains \<noteq> []" "length domains \<noteq> 1" using assms(2) by auto
  note c = candidates_props(1) [OF ne(1), of dr]
  have p: "(0::int) \<le> int (unat idx)" by simp
  have q: "nat (uint idx mod int L) = unat idx mod L" for L by (simp add: nat_mod_distrib)
  have one: "pickDomain dr now domains idx r = Return (candidates dr domains ! (unat idx mod length (candidates dr domains)), idx + 1, r)"
    using assms(1) ne at_mod_nonneg(1) [OF p c] by (simp add: pickDomain_def candidates_def [symmetric] Let_def q)
  have u: "unat (idx + 1) = unat idx + 1" using Suc.prems by (simp add: unat_word_ariths)
  have "picks n dr now domains (idx + 1) r = Return (map (\<lambda>k. candidates dr domains ! ((unat idx + 1 + k) mod length (candidates dr domains))) [0..<n])"
    using Suc.IH [of "idx + 1"] Suc.prems u by simp
  then show ?case by (simp add: one upt_conv_Cons map_Suc_upt [symmetric] del: upt_Suc map_Suc_upt)
qed simp

lemma rotation: "map (\<lambda>k. xs ! ((m + k) mod length xs)) [0..<length xs] = rotate m xs"
  by (rule nth_equalityI) (simp_all add: nth_rotate)

text \<open>
  Claim C24. The domain router always returns a domain, and a good one: for every strategy and all random choices a pick from at least two domains
  returns one of them, a healthy one whenever one of them is healthy. In round robin, as many picks as there are candidates return every candidate
  exactly once, in a rotation of their order.
\<close>

theorem router_picks:
  assumes "2 \<le> length domains" and "dr_lastSwitch dr \<le> now" and "0 < dr_switchInterval dr"
  shows "(\<exists>d i r'. pickDomain dr now domains idx r = Return (d, i, r') \<and> d \<in> set domains
        \<and> ((\<exists>x \<in> set domains. is_healthy dr x) \<longrightarrow> is_healthy dr d))
    \<and> (dr_strategy dr = RotateRoundRobin \<and> unat idx + length (candidates dr domains) < 2 ^ 32 \<longrightarrow>
        picks (length (candidates dr domains)) dr now domains idx r = Return (rotate (unat idx) (candidates dr domains)))"
proof -
  have ne: "domains \<noteq> []" using assms(1) by auto
  obtain d i r' where d: "pickDomain dr now domains idx r = Return (d, i, r')" "d \<in> set (candidates dr domains)"
    using pickDomain_Return [OF assms] by blast
  have "d \<in> set domains" "(\<exists>x \<in> set domains. is_healthy dr x) \<longrightarrow> is_healthy dr d"
    using d(2) candidates_props(2,3) [OF ne, where dr = dr] by blast+
  moreover have "picks (length (candidates dr domains)) dr now domains idx r = Return (rotate (unat idx) (candidates dr domains))"
    if "dr_strategy dr = RotateRoundRobin" "unat idx + length (candidates dr domains) < 2 ^ 32"
    using picks_round_robin [OF that(1) assms(1) that(2)] by (simp add: rotation)
  ultimately show ?thesis using d(1) by blast
qed

definition demo_router :: DomainRouter where
  "demo_router = NewDomainRouter 0 ''a,b,c'' [] RotateRoundRobin 30"

lemma demo_router_fields:
  "dr_strategy demo_router = RotateRoundRobin" "dr_lastSwitch demo_router = 0" "0 < dr_switchInterval demo_router"
  "candidates demo_router [''a'', ''b'', ''c''] = [''a'', ''b'', ''c'']"
  by code_simp+

theorem router_picks_witness:
  "picks 3 demo_router 7 [''a'', ''b'', ''c''] 1 demo_rands = Return [''b'', ''c'', ''a'']"
proof -
  have l: "2 \<le> length [''a'', ''b'', ''c'']" by simp
  have "picks (length (candidates demo_router [''a'', ''b'', ''c''])) demo_router 7 [''a'', ''b'', ''c''] 1 demo_rands
      = Return (rotate (unat (1 :: 32 word)) (candidates demo_router [''a'', ''b'', ''c'']))"
    using router_picks [OF l, of demo_router 7 1 demo_rands] demo_router_fields by simp
  then show ?thesis by (simp add: demo_router_fields numeral_3_eq_3)
qed

section \<open>Health\<close>

datatype router_op = Failure int string | Success string | Wake int | Update string string | PickUpload int rands | PickDownload int rands

definition picked :: "(string \<times> DomainRouter \<times> rands) outcome \<Rightarrow> DomainRouter \<Rightarrow> DomainRouter" where
  "picked x dr = (case x of Return (d, dr1, r) \<Rightarrow> dr1 | _ \<Rightarrow> dr)"

fun router_step :: "router_op \<Rightarrow> DomainRouter \<Rightarrow> DomainRouter" where
  "router_step (Failure now d) dr = ReportFailure now d dr"
| "router_step (Success d) dr = ReportSuccess d dr"
| "router_step (Wake now) dr = wake_recoveries now dr"
| "router_step (Update u d) dr = UpdateDomains u d dr"
| "router_step (PickUpload now r) dr = picked (GetUploadDomain now r dr) dr"
| "router_step (PickDownload now r) dr = picked (GetDownloadDomain now r dr) dr"

definition domains_of :: "DomainRouter \<Rightarrow> string set" where
  "domains_of dr = set (dr_uploadDomains dr) \<union> set (dr_downloadDomains dr)"

definition health_inv :: "string set \<Rightarrow> DomainRouter \<Rightarrow> bool" where
  "health_inv D dr \<longleftrightarrow> dom (dr_health dr) = D \<and> (\<forall>d s. dr_health dr d = Some s \<longrightarrow> \<not> do_healthy s \<longrightarrow> (\<exists>t. (d, t) \<in> set (dr_recoveries dr)))"

lemma mark_healthy_inv:
  "dom (dr_health (mark_healthy d dr)) = dom (dr_health dr)" "dr_recoveries (mark_healthy d dr) = dr_recoveries dr"
  "dr_health (mark_healthy d dr) x = Some s \<Longrightarrow> \<not> do_healthy s \<Longrightarrow> x \<noteq> d \<and> dr_health dr x = Some s"
  by (auto simp: mark_healthy_def split: option.splits if_splits)

lemma fold_mark_healthy:
  "dom (dr_health (fold mark_healthy xs dr)) = dom (dr_health dr)" "dr_recoveries (fold mark_healthy xs dr) = dr_recoveries dr"
  by (induction xs arbitrary: dr) (simp_all add: mark_healthy_inv)

lemma fold_mark_healthy_unhealthy:
  "dr_health (fold mark_healthy xs dr) x = Some s \<Longrightarrow> \<not> do_healthy s \<Longrightarrow> x \<notin> set xs \<and> dr_health dr x = Some s"
proof (induction xs arbitrary: dr)
  case (Cons y ys)
  have "dr_health (fold mark_healthy ys (mark_healthy y dr)) x = Some s" using Cons.prems(1) by simp
  from Cons.IH [OF this Cons.prems(2)] have h: "x \<notin> set ys" "dr_health (mark_healthy y dr) x = Some s" by simp_all
  from mark_healthy_inv(3) [OF h(2) Cons.prems(2)] h(1) show ?case by simp
qed simp

lemma health_inv_step:
  assumes i: "health_inv D dr"
  shows "health_inv D (router_step x dr)"
proof (cases x)
  case (Failure now d)
  then show ?thesis using i by (auto simp: health_inv_def ReportFailure_def Let_def split: option.split if_splits)
next
  case (Success d)
  then show ?thesis using i mark_healthy_inv [of d dr] by (auto simp: health_inv_def ReportSuccess_def)
next
  case (Wake now)
  show ?thesis unfolding Wake router_step.simps health_inv_def
  proof (intro conjI allI impI)
    show "dom (dr_health (wake_recoveries now dr)) = D" using i by (simp add: wake_recoveries_def fold_mark_healthy(1) health_inv_def)
    fix d s assume s: "dr_health (wake_recoveries now dr) d = Some s" "\<not> do_healthy s"
    then have n: "d \<notin> set (map fst (filter (\<lambda>(d, t). t \<le> now) (dr_recoveries dr)))" "dr_health dr d = Some s"
      using fold_mark_healthy_unhealthy [of "map fst (filter (\<lambda>(d, t). t \<le> now) (dr_recoveries dr))" dr d s] by (auto simp: wake_recoveries_def)
    then obtain t where "(d, t) \<in> set (dr_recoveries dr)" using i s(2) unfolding health_inv_def by blast
    moreover from this have "\<not> t \<le> now" using n(1) by force
    ultimately show "\<exists>t. (d, t) \<in> set (dr_recoveries (wake_recoveries now dr))" by (auto simp: wake_recoveries_def)
  qed
next
  case (Update u d)
  then show ?thesis using i by (simp add: health_inv_def UpdateDomains_def Let_def)
next
  case (PickUpload now r)
  then show ?thesis using i
    by (auto simp: health_inv_def picked_def GetUploadDomain_def obind_Return split: outcome.split prod.split)
next
  case (PickDownload now r)
  then show ?thesis using i
    by (auto simp: health_inv_def picked_def GetDownloadDomain_def obind_Return split: outcome.split prod.split)
qed

text \<open>
  Only domains of the first lists are watched: after any operations, a domain that came with an update of the lists is never unhealthy,
  however often it fails. And nothing stays unhealthy: once the recoveries that are pending have woken, every domain is healthy.
\<close>

theorem router_health:
  "(d \<notin> domains_of (NewDomainRouter now u v strategy sec) \<longrightarrow> is_healthy (fold router_step ops (NewDomainRouter now u v strategy sec)) d)
    \<and> ((\<forall>(x, t) \<in> set (dr_recoveries (fold router_step ops (NewDomainRouter now u v strategy sec))). t \<le> later) \<longrightarrow>
        is_healthy (wake_recoveries later (fold router_step ops (NewDomainRouter now u v strategy sec))) d)"
proof -
  let ?start = "NewDomainRouter now u v strategy sec"
  define D where "D = domains_of ?start"
  have "health_inv D dr \<Longrightarrow> health_inv D (fold router_step ops dr)" for dr
    by (induction ops arbitrary: dr) (simp_all add: health_inv_step)
  moreover have "health_inv D ?start" by (auto simp: health_inv_def D_def domains_of_def NewDomainRouter_def Let_def split: if_splits)
  ultimately have i: "health_inv D (fold router_step ops ?start)" .
  have "is_healthy (fold router_step ops ?start) d" if "d \<notin> D"
    using i that by (auto simp: health_inv_def is_healthy_def split: option.split)
  moreover have "is_healthy (wake_recoveries later (fold router_step ops ?start)) d"
    if "\<forall>(x, t) \<in> set (dr_recoveries (fold router_step ops ?start)). t \<le> later"
  proof -
    have "health_inv D (wake_recoveries later (fold router_step ops ?start))" using health_inv_step [OF i, of "Wake later"] by simp
    moreover have "dr_recoveries (wake_recoveries later (fold router_step ops ?start)) = []"
      using that by (auto simp: wake_recoveries_def filter_empty_conv)
    ultimately show ?thesis by (auto simp: health_inv_def is_healthy_def split: option.split)
  qed
  ultimately show ?thesis unfolding D_def by blast
qed

theorem router_health_witness:
  "is_healthy (fold router_step [Update ''z'' [], Failure 1 ''z'', Failure 2 ''z'', Failure 3 ''z''] (NewDomainRouter 0 ''a'' ''b'' RotateRandom 30)) ''z''"
proof -
  have "''z'' \<notin> domains_of (NewDomainRouter 0 ''a'' ''b'' RotateRandom 30)" by code_simp
  then show ?thesis
    using router_health [of "''z''" 0 "''a''" "''b''" RotateRandom 30 "[Update ''z'' [], Failure 1 ''z'', Failure 2 ''z'', Failure 3 ''z'']" 0] by blast
qed

end
