(* ===== verification/Spec2Isabelle.thy ===== *)
theory Spec2Isabelle
  imports Limiter_Props Periodic_Task Conf Runner_Props Fronts Inbound_Props Node_Lifecycle Server_Loop Obfs_Props Ssr_Stream_Props Serving_Props Relay_Props Machine_Props Dispatcher_Props Custom_Props
    Lego_Props Shadow_Stream_Props Shadow_Pool_Props Shadow_Router_Props
begin

text \<open>
  A verification of v2node, an agent that runs the proxy nodes a panel assigns to a machine.

  \<^bold>\<open>The program.\<close> The server command (\<open>cmd/server.go\<close>) loads the configuration (\<open>conf/\<close>), asks every panel for its node
  (\<open>api/v2board/\<close>), starts the core (\<open>core/\<close>) and one controller per node (\<open>node/\<close>). A controller keeps a limiter (\<open>limiter/\<close>) and two
  periodic tasks (\<open>common/task/\<close>): one synchronises node and users with the panel, one reports traffic (\<open>common/counter/\<close>).
  The core turns a node into an inbound of Xray (\<open>core/inbound.go\<close>), possibly behind a sing-box or simple-obfs front
  (\<open>common/singbox/\<close>, \<open>common/obfs/\<close>) or an SNI router (\<open>common/snirouter/\<close>), or hands it to the manager of a
  native protocol (\<open>common/snell/\<close>, \<open>ssaead/\<close>, \<open>sudoku/\<close>, \<open>ssr/\<close>, \<open>trojanss/\<close>, \<open>mieru/\<close>). A file watcher triggers a hot reload.

  \<^bold>\<open>Theories and sources.\<close>
  \<^item> \<open>Go_Prelude\<close>: what the source uses of Go: 64-bit integers, text functions, iteration over maps in an arbitrary order, results
    (\<open>Return\<close>, \<open>Error\<close>, \<open>Panic\<close>), listeners of the machine as a set of addresses.
  \<^item> \<open>Panel_Types\<close>: the structs of the panel's JSON as records. \<open>Panel_Api\<close>: the client; replies and decoders are arguments.
  \<^item> \<open>Traffic_Counter\<close>, \<open>Rate_Bucket\<close>: counters and exchangeable buckets as cells of a store.
  \<^item> \<open>Limiter\<close>, \<open>Limiter_Props\<close>: all operations of \<open>limiter/limiter.go\<close> and \<open>dynamic.go\<close>; device admission, the online report, the
    invariant under every sequence of operations, and lost races.
  \<^item> \<open>Periodic_Task\<close>: \<open>common/task\<close> as a step relation of goroutines and channels; deadlines, stopping, restarting.
  \<^item> \<open>Conf\<close>: loading, effective values and the debounced watcher.
  \<^item> \<open>Runner_Contract\<close>: the six managers, which have the same text, as one set of operations, and the locale of what a
    runner promises. \<open>Snell_Trial\<close>: identification of a user by trial. \<open>Runners\<close>, \<open>Runner_Props\<close>: the six runners, each an interpretation
    of the locale, and what they serve after removals.
  \<^item> \<open>Fronts\<close>: the two fronts with their ports, files and listeners.
  \<^item> \<open>Bytes\<close>: slices that panic out of range and integers in byte order. \<open>Stream_Contract\<close>: \<open>io.ReadFull\<close> and the locale \<open>plain_stream\<close>, what
    a connection promises to the code that reads from it; the framings below are its interpretations, some by way of \<open>pumped_conn\<close>, a connection that
    decodes into a buffer.
  \<^item> \<open>Obfs_Framing\<close>, \<open>Obfs_Props\<close>: the connections of \<open>common/obfs\<close> (fake TLS and HTTP): the parser does not panic, reading is reading the plain stream,
    what is written can be decoded.
  \<^item> \<open>Trojan_Framing\<close>, \<open>Trojan_Props\<close>: the AEAD stream of \<open>common/trojanss\<close> and the request on it; nonces.
  \<^item> \<open>Ssr_Auth\<close>, \<open>Ssr_Props\<close>: \<open>auth_aes128\<close> of \<open>common/ssr\<close> with its header, frames and paddings, and the target address.
    \<open>Ssr_Chain\<close>, \<open>Ssr_Chain_Props\<close>: \<open>auth_chain_a\<close> and \<open>auth_chain_b\<close> with the generator of their paddings and RC4.
    \<open>Ssr_Stream\<close>, \<open>Ssr_Stream_Props\<close>: the layers below, the plugin \<open>tls1.2_ticket_auth\<close> (\<open>obfs.go\<close>) and the cipher stream (\<open>stream.go\<close>, \<open>cipher.go\<close>), and that
    they compose; the locale \<open>keystream\<close> is what a cipher promises, interpreted on RC4.
  \<^item> \<open>Serving\<close>, \<open>Serving_Users\<close>, \<open>Serving_Props\<close>: what the runners do with a connection, from the protocol (with the handshakes of ShadowsocksR and the
    requests of Snell v6) to the dispatcher, and the adapters for datagrams. The locale \<open>dispatching\<close> is what a runner relies on, interpreted on both calls of the
    dispatcher; the locale \<open>verified_reader\<close> is a reader that gives nothing before the user is verified, interpreted on both ShadowsocksR protocols. One theorem
    follows a Trojan client from its first byte to the limiter, one says that every service relays only for users of its own table.
  \<^item> \<open>Relay\<close>, \<open>Relay_Props\<close>: the relays of the SNI router and of the simple-obfs front as a step relation of two copying goroutines, the timer and the caller.
  \<^item> \<open>Machine\<close>, \<open>Machine_Props\<close>: \<open>common/memtune\<close>, the key generator of \<open>cmd/sudoku_keygen.go\<close> and the derivation of X25519 keys.
  \<^item> \<open>Core_Users\<close>: accounts per protocol and the VLESS validator. \<open>Inbound\<close>, \<open>Inbound_Props\<close>: the inbound builder and the SNI router.
  \<^item> \<open>V2Core\<close>, \<open>V2Core_Props\<close>: the core, its users (by name and by the id that authenticates them) and traffic. \<open>Node_Lifecycle\<close>: everything the core holds for a node is a residue; adding
    builds one, deleting removes it.
  \<^item> \<open>Dispatcher\<close>, \<open>Sniffing\<close>, \<open>Dispatcher_Props\<close>: \<open>core/app/dispatcher\<close>. Admission of a connection with its counters and shapers, the
    sniffers and the cached reader, and the choice of the outbound; the link as layers with the effects of each byte, and which counter each byte is added to.
  \<^item> \<open>Custom_Routes\<close>, \<open>Custom_Props\<close>: \<open>core/custom.go\<close> and \<open>outbound.go\<close>, the DNS, rule and outbound lists built from all nodes, and the
    vendored router that reads them.
  \<^item> \<open>Shadow_Profile\<close>, \<open>Shadow_Engine\<close>, \<open>Shadow_Control\<close>, \<open>Shadow_Props\<close>: the traffic shaping of \<open>common/shadowflow\<close>. Profiles, the ones
    built in and those of the collector; the engine, its writers and the switching of profiles; settings of nodes, adaptive selection, identities and
    noise. Random choices are a stream of numbers, and the lemmas hold for all of them.
  \<^item> \<open>Shadow_Stream\<close>, \<open>Shadow_Stream_Props\<close>: \<open>stream.go\<close>, many streams on one connection, its frames, read loop, heartbeat and padding; a step of the
    read loop is split where another goroutine can come between. \<open>Shadow_Pool\<close>, \<open>Shadow_Pool_Props\<close>: \<open>pool.go\<close>. \<open>Shadow_Router\<close>,
    \<open>Shadow_Router_Props\<close>: \<open>router.go\<close>, \<open>pathpool.go\<close>, \<open>fallback.go\<close>.
  \<^item> \<open>Controller\<close>: \<open>node/controller.go\<close>, \<open>task.go\<close>, \<open>user.go\<close>, \<open>cert.go\<close>. \<open>Controller_Props\<close>: the user diff and the invariant of a cycle.
    \<open>Controller_Recovery\<close>: failed rebuilds, empty lists, the listener check, unseen changes, certificates.
  \<^item> \<open>Lego\<close>, \<open>Lego_Props\<close>: \<open>node/lego.go\<close> and the self-signed certificates of \<open>cert.go\<close>, over a machine of files and directories: the ACME account, the
    life of a certificate, and the ways in which it is lost.
  \<^item> \<open>Server\<close>: \<open>node/node.go\<close> and \<open>cmd/server.go\<close>: fetching, starting, closing and reloading all nodes. \<open>Server_Loop\<close>: the loop of
    the process; no request for a reload that the watcher made is lost.

  \<^bold>\<open>How the model is made.\<close> State is passed explicitly; a struct is a record with fields prefixed by its name, a map a partial function, a
  Go error a text. Where Go iterates over a map, the order is an argument and the theorems hold for every order. Code outside the
  repository (Xray, resty, viper, lego, the ciphers, the protocol libraries, the operating system) enters as arguments, collected in \<open>runner_lib\<close>,
  \<open>inbound_lib\<close>, \<open>core_env\<close>, \<open>cert_env\<close>, \<open>lego_env\<close>, \<open>obfs_env\<close>, \<open>stream_lib\<close>, \<open>sni_env\<close>, \<open>serve_env\<close>, \<open>machine\<close> and \<open>json_codec\<close>; what is assumed of it is stated as a hypothesis (such as
  \<open>os_ports_fresh\<close>: the system gives a port that is not in use) and instantiated in a witness. The inbound manager and the VLESS validator are those of the vendored
  xray-core. Loops are structural recursions or have a measure (the bytes that remain), with these exceptions: the key derivations of the Trojan and
  ShadowsocksR runners, whose fuel is the key length and is enough because every round adds sixteen bytes;
  \<open>io.ReadFull\<close>, whose number of reads is the number of bytes: on a connection with the contract \<open>plain_stream\<close> every read gives one; and
  the loops that shape data, whose fuel is the number of bytes: with a profile whose smallest record is positive every turn takes at least
  one, and without fuel the value is \<open>None\<close>.

  A relay is a step relation without fuel: a second, a read, a write and a step of the caller are steps, and its end is proved by a measure.

  \<^bold>\<open>Not modelled.\<close> The loops in which Xray and the protocol libraries copy between a connection and its link (the link is modelled as what it does to the bytes
  that pass), the accept loops, which only start a goroutine per connection, the timers of a Mieru session, logging, flag parsing, the version
  text, the setting of the system's time and the size of TCP segments: these are calls of libraries and of the operating system with no
  state of the program. The generated protobuf code and the vendored trees are left out, except for the parts of xray-core that decide what the
  program's own code means.
\<close>

end
